(* ===== verification/Prelude.thy ===== *)
theory Prelude
  imports Main "HOL-Library.Word"
begin

text \<open>
  Shared vocabulary of the development: machine integers with Rust's checked and
  saturating arithmetic, the errors of the host and of the contracts, the result monad in
  which every contract entry point and every host function is written, and the generic
  facts about maps, lists and finite sums that several components use.

  The release profile of \<open>contracts/Cargo.toml\<close> sets \<open>overflow-checks = true\<close> and
  \<open>panic = "abort"\<close>: an arithmetic overflow is a panic, and a panic is a failed call.
\<close>

section \<open>Machine integers\<close>

type_synonym u32 = "32 word"
type_synonym u64 = "64 word"
type_synonym i128 = "128 word"

text \<open>\<open>checked_add\<close>, \<open>checked_sub\<close>, \<open>checked_mul\<close> and \<open>saturating_sub\<close> on unsigned integers.\<close>

definition checked_add :: "'a::len word \<Rightarrow> 'a word \<Rightarrow> 'a word option" where
  "checked_add a b = (if unat a + unat b < 2 ^ LENGTH('a) then Some (a + b) else None)"

definition checked_sub :: "'a::len word \<Rightarrow> 'a word \<Rightarrow> 'a word option" where
  "checked_sub a b = (if b \<le> a then Some (a - b) else None)"

definition checked_mul :: "'a::len word \<Rightarrow> 'a word \<Rightarrow> 'a word option" where
  "checked_mul a b = (if unat a * unat b < 2 ^ LENGTH('a) then Some (a * b) else None)"

definition saturating_sub :: "'a::len word \<Rightarrow> 'a word \<Rightarrow> 'a word" where
  "saturating_sub a b = (if b \<le> a then a - b else 0)"

definition saturating_add :: "'a::len word \<Rightarrow> 'a word \<Rightarrow> 'a word" where
  "saturating_add a b = (if unat a + unat b < 2 ^ LENGTH('a) then a + b else - 1)"

text \<open>Checked addition and subtraction of two's complement integers (\<open>i128\<close>).\<close>

definition checked_sadd :: "'a::len word \<Rightarrow> 'a word \<Rightarrow> 'a word option" where
  "checked_sadd a b =
     (if - (2 ^ (LENGTH('a) - 1)) \<le> sint a + sint b \<and> sint a + sint b < 2 ^ (LENGTH('a) - 1)
      then Some (a + b) else None)"

definition checked_ssub :: "'a::len word \<Rightarrow> 'a word \<Rightarrow> 'a word option" where
  "checked_ssub a b =
     (if - (2 ^ (LENGTH('a) - 1)) \<le> sint a - sint b \<and> sint a - sint b < 2 ^ (LENGTH('a) - 1)
      then Some (a - b) else None)"

lemma checked_add_Some:
  fixes a b c :: "'a::len word"
  assumes "checked_add a b = Some c"
  shows "c = a + b" and "unat c = unat a + unat b"
  using assms by (auto simp: checked_add_def unat_add_lem [THEN iffD1] split: if_splits)

lemma checked_add_eq_Some_iff:
  fixes a b c :: "'a::len word"
  shows "checked_add a b = Some c \<longleftrightarrow> unat c = unat a + unat b"
proof
  assume "checked_add a b = Some c"
  then show "unat c = unat a + unat b" by (rule checked_add_Some)
next
  assume *: "unat c = unat a + unat b"
  then have "unat a + unat b < 2 ^ LENGTH('a)"
    by (metis unsigned_less)
  moreover from this * have "c = a + b"
    by (metis unat_add_lem word_unat_eq_iff)
  ultimately show "checked_add a b = Some c"
    by (simp add: checked_add_def)
qed

lemma checked_add_None_iff:
  fixes a b :: "'a::len word"
  shows "checked_add a b = None \<longleftrightarrow> 2 ^ LENGTH('a) \<le> unat a + unat b"
  by (auto simp: checked_add_def)

lemma checked_sub_Some:
  fixes a b c :: "'a::len word"
  assumes "checked_sub a b = Some c"
  shows "unat c = unat a - unat b" and "unat b \<le> unat a"
  using assms by (auto simp: checked_sub_def unat_sub word_le_nat_alt split: if_splits)

lemma checked_mul_Some:
  fixes a b c :: "'a::len word"
  assumes "checked_mul a b = Some c"
  shows "unat c = unat a * unat b"
  using assms by (auto simp: checked_mul_def unat_mult_lem [THEN iffD1] split: if_splits)

lemma unat_saturating_sub:
  fixes a b :: "'a::len word"
  shows "unat (saturating_sub a b) = unat a - unat b"
  by (auto simp: saturating_sub_def unat_sub word_le_nat_alt)

lemma unat_saturating_add:
  fixes a b :: "'a::len word"
  shows "unat (saturating_add a b) = min (unat a + unat b) (2 ^ LENGTH('a) - 1)"
  by (auto simp: saturating_add_def unat_add_lem [THEN iffD1] unsigned_minus_1_eq_mask
      mask_eq_exp_minus_1 min_def)

lemma checked_sadd_Some:
  fixes a b c :: "'a::len word"
  assumes "checked_sadd a b = Some c"
  shows "sint c = sint a + sint b"
  using assms
  by (auto simp: checked_sadd_def sint_word_ariths signed_take_bit_int_eq_self split: if_splits)

lemma checked_ssub_Some:
  fixes a b c :: "'a::len word"
  assumes "checked_ssub a b = Some c"
  shows "sint c = sint a - sint b"
  using assms
  by (auto simp: checked_ssub_def sint_word_ariths signed_take_bit_int_eq_self split: if_splits)

text \<open>Counters kept as \<open>u32\<close>, read as natural numbers.\<close>

lemma unat_u32_of_nat [simp]: "n < 2 ^ 32 \<Longrightarrow> unat (word_of_nat n :: u32) = n"
  by (simp add: unsigned_of_nat take_bit_nat_eq_self)

lemma u32_of_nat_le_iff:
  "m < 2 ^ 32 \<Longrightarrow> n < 2 ^ 32 \<Longrightarrow> (word_of_nat m :: u32) \<le> word_of_nat n \<longleftrightarrow> m \<le> n"
  by (simp add: word_le_nat_alt)

lemma checked_add_u32_of_nat:
  assumes "Suc n < 2 ^ 32"
  shows "checked_add (word_of_nat n :: u32) 1 = Some (word_of_nat (Suc n))"
proof -
  have "unat (1 :: u32) = 1" by simp
  with assms show ?thesis
    unfolding checked_add_eq_Some_iff by (subst unat_u32_of_nat)+ simp_all
qed

lemma saturating_sub_u32_of_nat:
  assumes "n < 2 ^ 32"
  shows "saturating_sub (word_of_nat n :: u32) 1 = word_of_nat (n - 1)"
proof -
  have "unat (saturating_sub (word_of_nat n :: u32) 1) = n - 1"
    using assms by (simp add: unat_saturating_sub)
  then show ?thesis
    using assms by (simp add: word_unat_eq_iff less_imp_diff_less)
qed

section \<open>Errors\<close>

text \<open>
  The error types and codes of a Soroban host error, as far as the modelled code raises
  them. \<open>Panic\<close> carries the message of a contract's \<open>panic!\<close>; \<open>ConversionError\<close> is
  the failed \<open>unwrap\<close> of a value that does not convert to the requested type, \<open>ContractErr\<close> an
  error of type \<open>Contract\<close> with its code.
\<close>

datatype sc_error_type = EContext | EStorage | EObject | EAuth | EValue | EEvents | ECrypto | EBudget
  | EWasmVm

datatype sc_error_code =
    ArithDomain | IndexBounds | InvalidInput | MissingValue | ExistingValue
  | ExceededLimit | InvalidAction | InternalError | UnexpectedType | UnexpectedSize

datatype error =
    HostErr sc_error_type sc_error_code | Panic string | ConversionError | ContractErr u32

definition overflow_panic :: error where
  "overflow_panic = Panic ''arithmetic overflow''"

section \<open>The result monad\<close>

text \<open>
  An operation maps a state to an error or to a result and the new state. Sequencing stops
  at the first error, as \<open>?\<close> and \<open>panic!\<close> do.
\<close>

type_synonym ('s, 'a) op = "'s \<Rightarrow> error + ('a \<times> 's)"

definition ret :: "'a \<Rightarrow> ('s, 'a) op" where
  "ret a s = Inr (a, s)"

definition fail :: "error \<Rightarrow> ('s, 'a) op" where
  "fail e s = Inl e"

definition panic :: "string \<Rightarrow> ('s, 'a) op" where
  "panic msg s = Inl (Panic msg)"

definition bind_op :: "('s, 'a) op \<Rightarrow> ('a \<Rightarrow> ('s, 'b) op) \<Rightarrow> ('s, 'b) op" where
  "bind_op m f s = (case m s of Inl e \<Rightarrow> Inl e | Inr (a, t) \<Rightarrow> f a t)"

definition then_op :: "('s, 'a) op \<Rightarrow> ('s, 'b) op \<Rightarrow> ('s, 'b) op" where
  "then_op m n s = (case m s of Inl e \<Rightarrow> Inl e | Inr (a, t) \<Rightarrow> n t)"

text \<open>\<open>if c { panic!(msg) }\<close>\<close>

definition panic_if :: "bool \<Rightarrow> string \<Rightarrow> ('s, unit) op" where
  "panic_if c msg s = (if c then Inl (Panic msg) else Inr ((), s))"

definition reads :: "('s \<Rightarrow> 'a) \<Rightarrow> ('s, 'a) op" where
  "reads f s = Inr (f s, s)"

text \<open>The value of an \<open>Option\<close>, or the given error (\<open>ok_or\<close>, \<open>unwrap_or_else(panic!)\<close>).\<close>

definition ok_or :: "error \<Rightarrow> 'a option \<Rightarrow> ('s, 'a) op" where
  "ok_or e x s = (case x of None \<Rightarrow> Inl e | Some a \<Rightarrow> Inr (a, s))"

text \<open>A checked arithmetic operation of the contracts: overflow panics.\<close>

definition arith :: "'a option \<Rightarrow> ('s, 'a) op" where
  "arith = ok_or overflow_panic"

text \<open>\<open>for x in xs { body }\<close>\<close>

primrec for_each :: "'x list \<Rightarrow> ('x \<Rightarrow> ('s, unit) op) \<Rightarrow> ('s, unit) op" where
  "for_each [] f = ret ()"
| "for_each (x # xs) f = then_op (f x) (for_each xs f)"

named_theorems op_Inr "how an operation can have succeeded"
named_theorems op_eval "how an operation evaluates"

lemma ret_eval [op_eval, simp]: "ret a s = Inr (a, s)"
  by (simp add: ret_def)

lemma fail_eval [op_eval, simp]: "fail e s = Inl e"
  by (simp add: fail_def)

lemma panic_eval [op_eval, simp]: "panic msg s = Inl (Panic msg)"
  by (simp add: panic_def)

lemma reads_eval [op_eval, simp]: "reads f s = Inr (f s, s)"
  by (simp add: reads_def)

lemma panic_if_eval [op_eval]:
  "panic_if c msg s = (if c then Inl (Panic msg) else Inr ((), s))"
  by (simp add: panic_if_def)

lemma ok_or_eval [op_eval, simp]:
  "ok_or e None s = Inl e"
  "ok_or e (Some a) s = Inr (a, s)"
  by (simp_all add: ok_or_def)

lemma bind_op_eval [op_eval]:
  "bind_op m f s = (case m s of Inl e \<Rightarrow> Inl e | Inr (a, t) \<Rightarrow> f a t)"
  by (simp add: bind_op_def)

lemma then_op_eval [op_eval]:
  "then_op m n s = (case m s of Inl e \<Rightarrow> Inl e | Inr (a, t) \<Rightarrow> n t)"
  by (simp add: then_op_def)

lemma bind_op_Inr [op_Inr]:
  "bind_op m f s = Inr (b, u) \<longleftrightarrow> (\<exists>a t. m s = Inr (a, t) \<and> f a t = Inr (b, u))"
  by (auto simp: bind_op_def split: sum.splits)

lemma then_op_Inr [op_Inr]:
  "then_op m n s = Inr (b, u) \<longleftrightarrow> (\<exists>a t. m s = Inr (a, t) \<and> n t = Inr (b, u))"
  by (auto simp: then_op_def split: sum.splits)

lemma panic_if_Inr [op_Inr]:
  "panic_if c msg s = Inr (a, t) \<longleftrightarrow> \<not> c \<and> t = s"
  by (auto simp: panic_if_def)

lemma ok_or_Inr [op_Inr]:
  "ok_or e x s = Inr (a, t) \<longleftrightarrow> x = Some a \<and> t = s"
  by (auto simp: ok_or_def split: option.splits)

lemma arith_Inr [op_Inr]:
  "arith x s = Inr (a, t) \<longleftrightarrow> x = Some a \<and> t = s"
  by (simp add: arith_def ok_or_Inr)

lemma arith_eval [op_eval, simp]:
  "arith None s = Inl overflow_panic"
  "arith (Some a) s = Inr (a, s)"
  by (simp_all add: arith_def)

text \<open>What a loop keeps if its body keeps it.\<close>

lemma for_each_invariant:
  assumes "for_each xs f s = Inr (u, t)" and "I s"
    and "\<And>x s v t. x \<in> set xs \<Longrightarrow> f x s = Inr (v, t) \<Longrightarrow> I s \<Longrightarrow> I t"
  shows "I t"
  using assms
proof (induction xs arbitrary: s)
  case Nil
  then show ?case by simp
next
  case (Cons x xs)
  from Cons.prems(1) obtain v s' where "f x s = Inr (v, s')" "for_each xs f s' = Inr (u, t)"
    by (auto simp: then_op_Inr)
  moreover from this Cons.prems(2,3) have "I s'"
    by (meson list.set_intros(1))
  ultimately show ?case
    using Cons.IH Cons.prems(3) by (meson list.set_intros(2))
qed

end
