(* ===== verification/Ledger_Info.thy ===== *)
theory Ledger_Info
  imports Prelude
begin

text \<open>
  The ledger parameters a host runs with (\<open>ledger_info.rs\<close>, \<open>host/ledger_info_helper.rs\<close>)
  and the arithmetic on live-until ledgers that \<open>Storage::extend_ttl\<close> does
  (\<open>storage.rs\<close>). Both the host storage and the contracts' view of it compute with these
  definitions.
\<close>

type_synonym hash = "256 word"

datatype durability = Temporary | Persistent

record ledger_info =
  protocol_version :: u32
  sequence_number :: u32
  timestamp :: u64
  network_id :: hash
  base_reserve :: u32
  min_temp_entry_ttl :: u32
  min_persistent_entry_ttl :: u32
  max_entry_ttl :: u32

definition min_live_until_ledger_checked :: "ledger_info \<Rightarrow> durability \<Rightarrow> u32 option" where
  "min_live_until_ledger_checked li d =
     (let min_live_until = (case d of Temporary \<Rightarrow> min_temp_entry_ttl li
                                    | Persistent \<Rightarrow> min_persistent_entry_ttl li)
      in checked_add (sequence_number li) (saturating_sub min_live_until 1))"

definition max_live_until_ledger_checked :: "ledger_info \<Rightarrow> u32 option" where
  "max_live_until_ledger_checked li =
     checked_add (sequence_number li) (saturating_sub (max_entry_ttl li) 1)"

text \<open>An overflow here is a misconfigured network: an unrecoverable internal error.\<close>

definition get_min_live_until_ledger :: "ledger_info \<Rightarrow> durability \<Rightarrow> error + u32" where
  "get_min_live_until_ledger li d =
     (case min_live_until_ledger_checked li d of
        None \<Rightarrow> Inl (HostErr EContext InternalError) | Some l \<Rightarrow> Inr l)"

definition max_live_until_ledger :: "ledger_info \<Rightarrow> error + u32" where
  "max_live_until_ledger li =
     (case max_live_until_ledger_checked li of
        None \<Rightarrow> Inl (HostErr EContext InternalError) | Some l \<Rightarrow> Inr l)"

text \<open>
  The live-until ledger an entry gets from \<open>extend_ttl\<close>: the body of that function after
  the entry was found with live-until ledger \<open>old\<close>. The new value is clamped to the
  network's maximum for persistent entries, and it is stored only if it extends the life
  of an entry whose remaining life is at most \<open>threshold\<close>.
\<close>

definition extended_live_until ::
  "ledger_info \<Rightarrow> durability option \<Rightarrow> u32 \<Rightarrow> u32 \<Rightarrow> u32 \<Rightarrow> error + u32" where
  "extended_live_until li dur threshold extend_to old =
     (if old < sequence_number li then Inl (HostErr EStorage InternalError)
      else case checked_add (sequence_number li) extend_to of
        None \<Rightarrow> Inl (HostErr EContext InternalError)
      | Some new0 \<Rightarrow>
          (case max_live_until_ledger li of
             Inl e \<Rightarrow> Inl e
           | Inr mx \<Rightarrow>
               (case (if mx < new0
                      then (case dur of
                              Some Persistent \<Rightarrow> Inr mx
                            | Some Temporary \<Rightarrow> Inl (HostErr EStorage InvalidAction)
                            | None \<Rightarrow> Inl (HostErr EStorage InternalError))
                      else Inr new0) of
                  Inl e \<Rightarrow> Inl e
                | Inr new \<Rightarrow>
                    Inr (if old < new \<and> saturating_sub old (sequence_number li) \<le> threshold
                         then new else old))))"

text \<open>
  A ledger whose live-until arithmetic cannot overflow for extensions up to \<open>extend_to\<close>:
  every network configuration that is not rejected as internally inconsistent.
\<close>

definition ledger_sane :: "ledger_info \<Rightarrow> u32 \<Rightarrow> bool" where
  "ledger_sane li extend_to \<longleftrightarrow>
     unat (sequence_number li) + unat extend_to < 2 ^ 32 \<and>
     unat (sequence_number li) + unat (saturating_sub (max_entry_ttl li) 1) < 2 ^ 32 \<and>
     unat (sequence_number li) + unat (saturating_sub (min_persistent_entry_ttl li) 1) < 2 ^ 32"

lemma max_live_until_ge_sequence:
  assumes "max_live_until_ledger li = Inr mx"
  shows "sequence_number li \<le> mx"
  using assms
  by (auto simp: max_live_until_ledger_def max_live_until_ledger_checked_def word_le_nat_alt
      split: option.splits dest!: checked_add_Some(2))

lemma min_live_until_ge_sequence:
  assumes "get_min_live_until_ledger li d = Inr l"
  shows "sequence_number li \<le> l"
  using assms
  by (auto simp: get_min_live_until_ledger_def min_live_until_ledger_checked_def Let_def
      word_le_nat_alt split: option.splits dest!: checked_add_Some(2))

lemma sane_max_live_until:
  assumes "ledger_sane li e"
  shows "\<exists>mx. max_live_until_ledger li = Inr mx"
  using assms
  by (auto simp: ledger_sane_def max_live_until_ledger_def max_live_until_ledger_checked_def
      checked_add_def)

lemma sane_min_live_until:
  assumes "ledger_sane li e"
  shows "\<exists>l. get_min_live_until_ledger li Persistent = Inr l"
  using assms
  by (auto simp: ledger_sane_def get_min_live_until_ledger_def
      min_live_until_ledger_checked_def checked_add_def)

lemma extended_live_until_ge:
  assumes "extended_live_until li dur thr ext old = Inr new"
  shows "old \<le> new" and "sequence_number li \<le> old"
  using assms
  by (auto simp: extended_live_until_def Let_def less_imp_le
      split: if_splits option.splits durability.splits sum.splits)

lemma sane_extended_live_until:
  assumes "ledger_sane li ext" and "sequence_number li \<le> old"
  shows "\<exists>new. extended_live_until li (Some Persistent) thr ext old = Inr new"
proof -
  obtain mx where mx: "max_live_until_ledger li = Inr mx"
    using assms(1) sane_max_live_until by blast
  have add: "checked_add (sequence_number li) ext = Some (sequence_number li + ext)"
    using assms(1) by (simp add: ledger_sane_def checked_add_def)
  show ?thesis
    using assms(2) by (simp add: extended_live_until_def mx add linorder_not_less [symmetric])
qed

end
