(* ===== verification/Contract_Env.thy ===== *)
theory Contract_Env
  imports Ledger_Info
begin

text \<open>
  What a running contract sees of the host through \<open>soroban_sdk::Env\<close>: its persistent
  storage with the live-until ledger of every entry, the ledger, the authorizations of the
  current invocation, the events it publishes and the contracts that exist. The storage
  operations are the host functions \<open>put_contract_data\<close>, \<open>get_contract_data\<close>,
  \<open>has_contract_data\<close>, \<open>del_contract_data\<close> and \<open>extend_contract_data_ttl\<close> as a contract
  observes them.
\<close>

section \<open>Values\<close>

type_synonym symbol = string

datatype address = AccountAddr hash | ContractAddr hash

text \<open>
  The values contracts hand to the host as storage keys, event topics and event payloads.
  A tuple is a \<open>VecV\<close>, and so is a unit variant of a \<open>contracttype\<close> enum (a vector of its
  name).
\<close>

datatype sc_val =
    VoidV
  | BoolV bool
  | U32V u32
  | U64V u64
  | I128V i128
  | BytesV hash
  | StringV string
  | SymbolV symbol
  | AddressV address
  | VecV "sc_val list"
  | LedgerKeyContractInstanceV
  | LedgerKeyNonceV "64 word"

datatype event = Event (event_topics: "sc_val list") (event_data: sc_val)

section \<open>The environment\<close>

text \<open>
  \<open>env_data\<close> holds the persistent entries of the running contract, \<open>env_live\<close> their
  live-until ledgers; \<open>env_auth\<close> says whose authorization covers the invocation;
  \<open>env_instances\<close> maps contract ids to the Wasm hash of their executable, \<open>env_wasms\<close>
  says which Wasm hashes are uploaded. The type \<open>'v\<close> is the contract's own value type.
\<close>

record 'v env =
  env_self :: address
  env_ledger :: ledger_info
  env_auth :: "address \<Rightarrow> bool"
  env_data :: "sc_val \<rightharpoonup> 'v"
  env_live :: "sc_val \<rightharpoonup> u32"
  env_inst_live :: u32
  env_code_live :: u32
  env_instances :: "hash \<rightharpoonup> hash"
  env_wasms :: "hash \<Rightarrow> bool"
  env_events :: "event list"

type_synonym ('v, 'a) action = "('v env, 'a) op"

definition TTL_THRESHOLD :: u32 where
  "TTL_THRESHOLD = 10000"

definition TTL_EXTEND_TO :: u32 where
  "TTL_EXTEND_TO = 6307200"

definition now :: "'v env \<Rightarrow> u64" where
  "now s = timestamp (env_ledger s)"

text \<open>\<open>Address::require_auth\<close>\<close>

definition require_auth :: "address \<Rightarrow> ('v, unit) action" where
  "require_auth a s = (if env_auth s a then Inr ((), s) else Inl (HostErr EAuth InvalidAction))"

definition storage_has :: "sc_val \<Rightarrow> ('v, bool) action" where
  "storage_has k s = Inr (env_data s k \<noteq> None, s)"

text \<open>
  \<open>get\<close> converts the stored value to the type the caller asks for (\<open>prj\<close>) and traps when
  it does not convert.
\<close>

definition storage_get :: "('v \<Rightarrow> 'a option) \<Rightarrow> sc_val \<Rightarrow> ('v, 'a option) action" where
  "storage_get prj k s =
     (case env_data s k of
        None \<Rightarrow> Inr (None, s)
      | Some v \<Rightarrow> (case prj v of None \<Rightarrow> Inl ConversionError | Some a \<Rightarrow> Inr (Some a, s)))"

text \<open>\<open>get(&k).unwrap_or(d)\<close> and \<open>get(&k).unwrap_or_else(|| panic!(msg))\<close>\<close>

definition storage_get_or :: "('v \<Rightarrow> 'a option) \<Rightarrow> 'a \<Rightarrow> sc_val \<Rightarrow> ('v, 'a) action" where
  "storage_get_or prj d k =
     bind_op (storage_get prj k) (\<lambda>x. ret (case x of None \<Rightarrow> d | Some a \<Rightarrow> a))"

definition storage_expect :: "('v \<Rightarrow> 'a option) \<Rightarrow> string \<Rightarrow> sc_val \<Rightarrow> ('v, 'a) action" where
  "storage_expect prj msg k = bind_op (storage_get prj k) (ok_or (Panic msg))"

text \<open>
  \<open>set\<close> overwrites the value of an existing entry and keeps its live-until ledger; a new
  entry lives for the network's minimum.
\<close>

definition storage_set :: "sc_val \<Rightarrow> 'v \<Rightarrow> ('v, unit) action" where
  "storage_set k v s =
     (case env_data s k of
        Some _ \<Rightarrow> Inr ((), s\<lparr>env_data := (env_data s)(k \<mapsto> v)\<rparr>)
      | None \<Rightarrow>
          (case get_min_live_until_ledger (env_ledger s) Persistent of
             Inl e \<Rightarrow> Inl e
           | Inr l \<Rightarrow> Inr ((), s\<lparr>env_data := (env_data s)(k \<mapsto> v),
                                  env_live := (env_live s)(k \<mapsto> l)\<rparr>)))"

definition storage_remove :: "sc_val \<Rightarrow> ('v, unit) action" where
  "storage_remove k s =
     Inr ((), s\<lparr>env_data := (env_data s)(k := None), env_live := (env_live s)(k := None)\<rparr>)"

definition extend_ttl :: "sc_val \<Rightarrow> u32 \<Rightarrow> u32 \<Rightarrow> ('v, unit) action" where
  "extend_ttl k threshold extend_to s =
     (if extend_to < threshold then Inl (HostErr EStorage InvalidInput)
      else case env_data s k of
        None \<Rightarrow> Inl (HostErr EStorage MissingValue)
      | Some _ \<Rightarrow>
          (case env_live s k of
             None \<Rightarrow> Inl (HostErr EStorage InternalError)
           | Some old \<Rightarrow>
               (case extended_live_until (env_ledger s) (Some Persistent) threshold extend_to old of
                  Inl e \<Rightarrow> Inl e
                | Inr l \<Rightarrow> Inr ((), s\<lparr>env_live := (env_live s)(k \<mapsto> l)\<rparr>))))"

text \<open>\<open>env.storage().instance().extend_ttl\<close>: the contract's instance, then its code.\<close>

definition instance_extend_ttl :: "u32 \<Rightarrow> u32 \<Rightarrow> ('v, unit) action" where
  "instance_extend_ttl threshold extend_to s =
     (if extend_to < threshold then Inl (HostErr EStorage InvalidInput)
      else case extended_live_until (env_ledger s) (Some Persistent) threshold extend_to
                  (env_inst_live s) of
        Inl e \<Rightarrow> Inl e
      | Inr li \<Rightarrow>
          (case extended_live_until (env_ledger s) (Some Persistent) threshold extend_to
                  (env_code_live s) of
             Inl e \<Rightarrow> Inl e
           | Inr lc \<Rightarrow> Inr ((), s\<lparr>env_inst_live := li, env_code_live := lc\<rparr>)))"

definition publish :: "sc_val list \<Rightarrow> sc_val \<Rightarrow> ('v, unit) action" where
  "publish topics payload s = Inr ((), s\<lparr>env_events := env_events s @ [Event topics payload]\<rparr>)"

text \<open>\<open>storage.set(key, v); storage.extend_ttl(key, TTL_THRESHOLD, TTL_EXTEND_TO)\<close>\<close>

definition set_and_extend :: "sc_val \<Rightarrow> 'v \<Rightarrow> ('v, unit) action" where
  "set_and_extend k v =
     then_op (storage_set k v)
     (extend_ttl k TTL_THRESHOLD TTL_EXTEND_TO)"

text \<open>
  \<open>env.deployer().with_current_contract(salt).deploy(wasm_hash)\<close>. The id of the new
  contract is a hash of network, deployer and salt (\<open>contract_id\<close>, the host's SHA-256 over
  the XDR preimage); \<open>constructor\<close> is the outcome of running the new contract's
  constructor, \<open>None\<close> when it returns or does not exist.
\<close>

definition deploy ::
  "(hash \<Rightarrow> address \<Rightarrow> hash \<Rightarrow> hash) \<Rightarrow> (hash \<Rightarrow> error option) \<Rightarrow> hash \<Rightarrow> hash \<Rightarrow>
   ('v, address) action" where
  "deploy contract_id constructor salt wasm_hash s =
     (let id = contract_id (network_id (env_ledger s)) (env_self s) salt in
      if env_instances s id \<noteq> None then Inl (HostErr EStorage ExistingValue)
      else if \<not> env_wasms s wasm_hash then Inl (HostErr EStorage MissingValue)
      else case get_min_live_until_ledger (env_ledger s) Persistent of
        Inl e \<Rightarrow> Inl e
      | Inr _ \<Rightarrow>
          (case constructor wasm_hash of
             Some e \<Rightarrow> Inl e
           | None \<Rightarrow>
               Inr (ContractAddr id,
                    s\<lparr>env_instances := (env_instances s)(id \<mapsto> wasm_hash)\<rparr>)))"

section \<open>The effect of a successful storage operation\<close>

text \<open>
  \<open>put_data\<close>, \<open>bump\<close> and \<open>del_data\<close> are the state changes of \<open>storage_set\<close>, \<open>extend_ttl\<close>
  and \<open>storage_remove\<close> as total functions: a call that succeeds has exactly this effect, and on a live storage it does
  succeed (next section).
\<close>

definition put_data :: "sc_val \<Rightarrow> 'v \<Rightarrow> 'v env \<Rightarrow> 'v env" where
  "put_data k v s =
     s\<lparr>env_data := (env_data s)(k \<mapsto> v),
       env_live := (if env_data s k = None
                    then (case get_min_live_until_ledger (env_ledger s) Persistent of
                            Inl _ \<Rightarrow> env_live s | Inr l \<Rightarrow> (env_live s)(k \<mapsto> l))
                    else env_live s)\<rparr>"

definition bumped :: "ledger_info \<Rightarrow> u32 \<Rightarrow> u32" where
  "bumped li old =
     (case extended_live_until li (Some Persistent) TTL_THRESHOLD TTL_EXTEND_TO old of
        Inl _ \<Rightarrow> old | Inr l \<Rightarrow> l)"

definition bump :: "sc_val \<Rightarrow> 'v env \<Rightarrow> 'v env" where
  "bump k s =
     s\<lparr>env_live := (env_live s)(k := map_option (bumped (env_ledger s)) (env_live s k))\<rparr>"

definition bump_instance :: "'v env \<Rightarrow> 'v env" where
  "bump_instance s =
     s\<lparr>env_inst_live := bumped (env_ledger s) (env_inst_live s),
       env_code_live := bumped (env_ledger s) (env_code_live s)\<rparr>"

definition del_data :: "sc_val \<Rightarrow> 'v env \<Rightarrow> 'v env" where
  "del_data k s = s\<lparr>env_data := (env_data s)(k := None), env_live := (env_live s)(k := None)\<rparr>"

definition add_event :: "sc_val list \<Rightarrow> sc_val \<Rightarrow> 'v env \<Rightarrow> 'v env" where
  "add_event topics payload s = s\<lparr>env_events := env_events s @ [Event topics payload]\<rparr>"

definition add_events :: "event list \<Rightarrow> 'v env \<Rightarrow> 'v env" where
  "add_events evs s = s\<lparr>env_events := env_events s @ evs\<rparr>"

lemma bumped_ge: "old \<le> bumped li old"
  by (auto simp: bumped_def extended_live_until_ge(1) split: sum.splits)

lemma put_data_sel [simp]:
  "env_self (put_data k v s) = env_self s"
  "env_ledger (put_data k v s) = env_ledger s"
  "env_auth (put_data k v s) = env_auth s"
  "env_data (put_data k v s) = (env_data s)(k \<mapsto> v)"
  "env_inst_live (put_data k v s) = env_inst_live s"
  "env_code_live (put_data k v s) = env_code_live s"
  "env_instances (put_data k v s) = env_instances s"
  "env_wasms (put_data k v s) = env_wasms s"
  "env_events (put_data k v s) = env_events s"
  "now (put_data k v s) = now s"
  by (simp_all add: put_data_def now_def)

lemma bump_sel [simp]:
  "env_self (bump k s) = env_self s"
  "env_ledger (bump k s) = env_ledger s"
  "env_auth (bump k s) = env_auth s"
  "env_data (bump k s) = env_data s"
  "env_inst_live (bump k s) = env_inst_live s"
  "env_code_live (bump k s) = env_code_live s"
  "env_instances (bump k s) = env_instances s"
  "env_wasms (bump k s) = env_wasms s"
  "env_events (bump k s) = env_events s"
  "now (bump k s) = now s"
  by (simp_all add: bump_def now_def)

lemma bump_instance_sel [simp]:
  "env_self (bump_instance s) = env_self s"
  "env_ledger (bump_instance s) = env_ledger s"
  "env_auth (bump_instance s) = env_auth s"
  "env_data (bump_instance s) = env_data s"
  "env_live (bump_instance s) = env_live s"
  "env_instances (bump_instance s) = env_instances s"
  "env_wasms (bump_instance s) = env_wasms s"
  "env_events (bump_instance s) = env_events s"
  "now (bump_instance s) = now s"
  by (simp_all add: bump_instance_def now_def)

lemma del_data_sel [simp]:
  "env_self (del_data k s) = env_self s"
  "env_ledger (del_data k s) = env_ledger s"
  "env_auth (del_data k s) = env_auth s"
  "env_data (del_data k s) = (env_data s)(k := None)"
  "env_inst_live (del_data k s) = env_inst_live s"
  "env_code_live (del_data k s) = env_code_live s"
  "env_instances (del_data k s) = env_instances s"
  "env_wasms (del_data k s) = env_wasms s"
  "env_events (del_data k s) = env_events s"
  "now (del_data k s) = now s"
  by (simp_all add: del_data_def now_def)

lemma add_event_sel [simp]:
  "env_self (add_event ts p s) = env_self s"
  "env_ledger (add_event ts p s) = env_ledger s"
  "env_auth (add_event ts p s) = env_auth s"
  "env_data (add_event ts p s) = env_data s"
  "env_live (add_event ts p s) = env_live s"
  "env_inst_live (add_event ts p s) = env_inst_live s"
  "env_code_live (add_event ts p s) = env_code_live s"
  "env_instances (add_event ts p s) = env_instances s"
  "env_wasms (add_event ts p s) = env_wasms s"
  "env_events (add_event ts p s) = env_events s @ [Event ts p]"
  "now (add_event ts p s) = now s"
  by (simp_all add: add_event_def now_def)

lemma add_events_sel [simp]:
  "env_self (add_events evs s) = env_self s"
  "env_ledger (add_events evs s) = env_ledger s"
  "env_auth (add_events evs s) = env_auth s"
  "env_data (add_events evs s) = env_data s"
  "env_live (add_events evs s) = env_live s"
  "env_inst_live (add_events evs s) = env_inst_live s"
  "env_code_live (add_events evs s) = env_code_live s"
  "env_instances (add_events evs s) = env_instances s"
  "env_wasms (add_events evs s) = env_wasms s"
  "env_events (add_events evs s) = env_events s @ evs"
  "now (add_events evs s) = now s"
  by (simp_all add: add_events_def now_def)

section \<open>Success of an operation\<close>

lemma require_auth_Inr [op_Inr]:
  "require_auth a s = Inr (u, t) \<longleftrightarrow> env_auth s a \<and> t = s"
  by (auto simp: require_auth_def)

lemma storage_has_Inr [op_Inr]:
  "storage_has k s = Inr (b, t) \<longleftrightarrow> b = (env_data s k \<noteq> None) \<and> t = s"
  by (auto simp: storage_has_def)

lemma storage_get_Inr [op_Inr]:
  "storage_get prj k s = Inr (x, t) \<longleftrightarrow>
     t = s \<and> (case env_data s k of None \<Rightarrow> x = None | Some v \<Rightarrow> \<exists>a. prj v = Some a \<and> x = Some a)"
  by (auto simp: storage_get_def split: option.splits)

lemma storage_get_or_Inr [op_Inr]:
  "storage_get_or prj d k s = Inr (x, t) \<longleftrightarrow>
     t = s \<and> (case env_data s k of None \<Rightarrow> x = d | Some v \<Rightarrow> prj v = Some x)"
  by (auto simp: storage_get_or_def storage_get_def bind_op_def split: option.splits)

lemma storage_expect_Inr [op_Inr]:
  "storage_expect prj msg k s = Inr (x, t) \<longleftrightarrow>
     t = s \<and> (\<exists>v. env_data s k = Some v \<and> prj v = Some x)"
  by (auto simp: storage_expect_def storage_get_def bind_op_def split: option.splits)

lemma storage_setD [op_Inr]:
  "storage_set k v s = Inr (u, t) \<longleftrightarrow>
     t = put_data k v s \<and>
     (env_data s k = None \<longrightarrow> (\<exists>l. get_min_live_until_ledger (env_ledger s) Persistent = Inr l))"
  by (auto simp: storage_set_def put_data_def split: option.splits sum.splits)

lemma storage_remove_Inr [op_Inr]:
  "storage_remove k s = Inr (u, t) \<longleftrightarrow> t = del_data k s"
  by (auto simp: storage_remove_def del_data_def)

lemma extend_ttlD [op_Inr]:
  "extend_ttl k TTL_THRESHOLD TTL_EXTEND_TO s = Inr (u, t) \<longleftrightarrow>
     t = bump k s \<and> env_data s k \<noteq> None \<and>
     (\<exists>old l. env_live s k = Some old \<and>
        extended_live_until (env_ledger s) (Some Persistent) TTL_THRESHOLD TTL_EXTEND_TO old = Inr l)"
  by (auto simp: extend_ttl_def bump_def bumped_def TTL_THRESHOLD_def TTL_EXTEND_TO_def
      split: option.splits sum.splits)

lemma instance_extend_ttlD [op_Inr]:
  "instance_extend_ttl TTL_THRESHOLD TTL_EXTEND_TO s = Inr (u, t) \<longleftrightarrow>
     t = bump_instance s \<and>
     (\<exists>l. extended_live_until (env_ledger s) (Some Persistent) TTL_THRESHOLD TTL_EXTEND_TO
            (env_inst_live s) = Inr l) \<and>
     (\<exists>l. extended_live_until (env_ledger s) (Some Persistent) TTL_THRESHOLD TTL_EXTEND_TO
            (env_code_live s) = Inr l)"
  by (auto simp: instance_extend_ttl_def bump_instance_def bumped_def TTL_THRESHOLD_def
      TTL_EXTEND_TO_def split: sum.splits)

lemma set_and_extend_Inr:
  assumes "set_and_extend k v s = Inr (u, t)"
  shows "t = bump k (put_data k v s)"
  using assms by (simp add: set_and_extend_def then_op_Inr storage_setD extend_ttlD)

lemma publish_Inr [op_Inr]:
  "publish ts p s = Inr (u, t) \<longleftrightarrow> t = add_event ts p s"
  by (auto simp: publish_def add_event_def)

section \<open>Live environments, where storage operations do not fail\<close>

text \<open>
  The network archives entries whose live-until ledger has passed and does not run a
  contract over an archived entry, so a running contract sees live entries only.
\<close>

definition env_ok :: "'v env \<Rightarrow> bool" where
  "env_ok s \<longleftrightarrow>
     ledger_sane (env_ledger s) TTL_EXTEND_TO \<and>
     (\<forall>k v. env_data s k = Some v \<longrightarrow>
        (\<exists>l. env_live s k = Some l \<and> sequence_number (env_ledger s) \<le> l)) \<and>
     sequence_number (env_ledger s) \<le> env_inst_live s \<and>
     sequence_number (env_ledger s) \<le> env_code_live s"

lemma env_ok_live:
  assumes "env_ok s" and "env_data s k = Some v"
  obtains l where "env_live s k = Some l" and "sequence_number (env_ledger s) \<le> l"
  using assms by (auto simp: env_ok_def)

lemma env_ok_put [simp]:
  assumes "env_ok s"
  shows "env_ok (put_data k v s)"
proof -
  obtain l where "get_min_live_until_ledger (env_ledger s) Persistent = Inr l"
    using assms sane_min_live_until unfolding env_ok_def by blast
  moreover from this have "sequence_number (env_ledger s) \<le> l"
    by (rule min_live_until_ge_sequence)
  ultimately show ?thesis
    using assms by (auto simp: env_ok_def put_data_def)
qed

lemma env_ok_bump [simp]:
  assumes "env_ok s"
  shows "env_ok (bump k s)"
proof -
  have "env_live (bump k s) k' = (if k' = k then map_option (bumped (env_ledger s)) (env_live s k)
      else env_live s k')" for k'
    by (simp add: bump_def)
  moreover have "\<exists>l. env_live s k' = Some l \<and> sequence_number (env_ledger s) \<le> l"
    if "env_data s k' = Some v" for k' v
    using assms that by (rule env_ok_live) blast
  ultimately show ?thesis
    using assms unfolding env_ok_def by (fastforce intro: order_trans [OF _ bumped_ge])
qed

lemma env_ok_bump_instance [simp]:
  assumes "env_ok s"
  shows "env_ok (bump_instance s)"
  using assms order_trans [OF _ bumped_ge]
  by (simp add: env_ok_def bump_instance_def)

lemma env_ok_add_event [simp]: "env_ok (add_event ts p s) \<longleftrightarrow> env_ok s"
  by (simp add: env_ok_def)

lemma env_ok_add_events [simp]: "env_ok (add_events evs s) \<longleftrightarrow> env_ok s"
  by (simp add: env_ok_def)

lemma env_ok_del [simp]: "env_ok s \<Longrightarrow> env_ok (del_data k s)"
  by (simp add: env_ok_def del_data_def)

lemma require_auth_eval [op_eval]:
  "require_auth a s = (if env_auth s a then Inr ((), s) else Inl (HostErr EAuth InvalidAction))"
  by (simp_all add: require_auth_def)

lemma storage_has_eval [op_eval]: "storage_has k s = Inr (env_data s k \<noteq> None, s)"
  by (simp add: storage_has_def)

lemma storage_get_eval [op_eval]:
  "storage_get prj k s =
     (case env_data s k of
        None \<Rightarrow> Inr (None, s)
      | Some v \<Rightarrow> (case prj v of None \<Rightarrow> Inl ConversionError | Some a \<Rightarrow> Inr (Some a, s)))"
  by (simp add: storage_get_def)

lemma storage_get_or_eval [op_eval]:
  "storage_get_or prj d k s =
     (case env_data s k of
        None \<Rightarrow> Inr (d, s)
      | Some v \<Rightarrow> (case prj v of None \<Rightarrow> Inl ConversionError | Some a \<Rightarrow> Inr (a, s)))"
  by (simp add: storage_get_or_def storage_get_def bind_op_def split: option.splits)

lemma storage_expect_eval [op_eval]:
  "storage_expect prj msg k s =
     (case env_data s k of
        None \<Rightarrow> Inl (Panic msg)
      | Some v \<Rightarrow> (case prj v of None \<Rightarrow> Inl ConversionError | Some a \<Rightarrow> Inr (a, s)))"
  by (simp add: storage_expect_def storage_get_def bind_op_def split: option.splits)

lemma storage_set_eval [op_eval]:
  assumes "env_ok s"
  shows "storage_set k v s = Inr ((), put_data k v s)"
proof -
  have "\<exists>l. get_min_live_until_ledger (env_ledger s) Persistent = Inr l"
    using assms by (auto simp: env_ok_def intro: sane_min_live_until)
  then show ?thesis by (simp add: storage_setD)
qed

lemma storage_remove_eval [op_eval]: "storage_remove k s = Inr ((), del_data k s)"
  by (simp add: storage_remove_def del_data_def)

lemma extend_ttl_eval [op_eval]:
  assumes "env_ok s" and "env_data s k \<noteq> None"
  shows "extend_ttl k TTL_THRESHOLD TTL_EXTEND_TO s = Inr ((), bump k s)"
proof -
  obtain v where "env_data s k = Some v"
    using assms(2) by (cases "env_data s k") simp_all
  with assms(1) obtain l where "env_live s k = Some l" "sequence_number (env_ledger s) \<le> l"
    by (rule env_ok_live)
  moreover have "ledger_sane (env_ledger s) TTL_EXTEND_TO"
    using assms(1) by (simp add: env_ok_def)
  ultimately show ?thesis
    using assms(2) by (simp add: extend_ttlD sane_extended_live_until)
qed

lemma set_and_extend_eval [op_eval]:
  "env_ok s \<Longrightarrow> set_and_extend k v s = Inr ((), bump k (put_data k v s))"
  by (simp add: set_and_extend_def then_op_def storage_set_eval extend_ttl_eval)

lemma instance_extend_ttl_eval [op_eval]:
  assumes "env_ok s"
  shows "instance_extend_ttl TTL_THRESHOLD TTL_EXTEND_TO s = Inr ((), bump_instance s)"
  using assms by (simp add: instance_extend_ttlD env_ok_def sane_extended_live_until)

lemma publish_eval [op_eval]: "publish ts p s = Inr ((), add_event ts p s)"
  by (simp add: publish_def add_event_def)

section \<open>A concrete environment\<close>

text \<open>
  An empty contract on a fresh ledger where the addresses in \<open>auth\<close> sign; \<open>stored\<close> puts
  given entries into it. The witnesses of the development run on these.
\<close>

definition genesis_ledger :: ledger_info where
  "genesis_ledger = \<lparr>protocol_version = 22, sequence_number = 100, timestamp = 1000,
     network_id = 0, base_reserve = 10, min_temp_entry_ttl = 16,
     min_persistent_entry_ttl = 4096, max_entry_ttl = 6312000\<rparr>"

definition stored :: "(address \<Rightarrow> bool) \<Rightarrow> (sc_val \<rightharpoonup> 'v) \<Rightarrow> 'v env" where
  "stored auth m = \<lparr>env_self = ContractAddr 1, env_ledger = genesis_ledger, env_auth = auth,
     env_data = m, env_live = (\<lambda>_. Some 5000), env_inst_live = 5000, env_code_live = 5000,
     env_instances = Map.empty, env_wasms = (\<lambda>_. True), env_events = []\<rparr>"

lemma stored_sel [simp]:
  "env_self (stored auth m) = ContractAddr 1"
  "env_ledger (stored auth m) = genesis_ledger"
  "env_auth (stored auth m) = auth"
  "env_data (stored auth m) = m"
  "env_events (stored auth m) = []"
  "env_instances (stored auth m) = Map.empty"
  "env_wasms (stored auth m) = (\<lambda>_. True)"
  "now (stored auth m) = 1000"
  by (simp_all add: stored_def now_def genesis_ledger_def)

lemma env_ok_stored [simp]: "env_ok (stored auth m)"
  by (simp add: env_ok_def stored_def ledger_sane_def genesis_ledger_def TTL_EXTEND_TO_def
      unat_saturating_sub)

end
