(* ===== verification/Queue.thy ===== *)
theory Queue
  imports Contract_Env
begin

text \<open>
  The queue contract (\<open>contracts/lineproof-queue/src/lib.rs\<close>): its data, its storage keys and
  every entry point, in the order of the source. \<open>queue_exec\<close> dispatches the entry points
  that change state. The abstract queue and the refinement are in \<open>Queue_Spec\<close>.
\<close>

section \<open>Data\<close>

datatype advancement_rule = Fifo | PriorityTier | VerifiableRandomness

datatype queue_status = Draft | EnrollmentOpen | EnrollmentClosed | AdvancementActive | Closed

record queue_config =
  cfg_slug :: symbol
  cfg_name :: symbol
  cfg_admin :: address
  cfg_max_positions :: u32
  cfg_enrollment_open :: u64
  cfg_enrollment_close :: u64
  cfg_status :: queue_status
  cfg_version :: u32
  cfg_advancement_rule :: advancement_rule

datatype position_status = Pending | Advanced | Expired | Cancelled

record position =
  pos_id :: u32
  pos_enrolled_at :: u64
  pos_identity :: address
  pos_status :: position_status
  pos_advanced_at :: "u64 option"
  pos_priority_weight :: "u32 option"

text \<open>The values the contract stores, and their typed reads.\<close>

datatype queue_val =
    QConfig queue_config | QU32 u32 | QAddress address | QPosition position

fun as_config :: "queue_val \<Rightarrow> queue_config option" where
  "as_config (QConfig c) = Some c"
| "as_config _ = None"

fun as_u32 :: "queue_val \<Rightarrow> u32 option" where
  "as_u32 (QU32 n) = Some n"
| "as_u32 _ = None"

fun as_address :: "queue_val \<Rightarrow> address option" where
  "as_address (QAddress a) = Some a"
| "as_address _ = None"

fun as_position :: "queue_val \<Rightarrow> position option" where
  "as_position (QPosition p) = Some p"
| "as_position _ = None"

definition CURRENT_VERSION :: u32 where
  "CURRENT_VERSION = 1"

definition VERSION_KEY :: sc_val where
  "VERSION_KEY = SymbolV ''version''"

definition config_key :: sc_val where
  "config_key = SymbolV ''config''"

definition next_id_key :: sc_val where
  "next_id_key = SymbolV ''next_id''"

definition active_key :: sc_val where
  "active_key = SymbolV ''active_count''"

definition idx_key :: sc_val where
  "idx_key = SymbolV ''idx''"

definition pending_key :: sc_val where
  "pending_key = SymbolV ''pending_admin''"

definition position_key :: "u32 \<Rightarrow> sc_val" where
  "position_key i = VecV [SymbolV ''pos'', U32V i]"

lemmas queue_key_defs =
  VERSION_KEY_def config_key_def next_id_key_def active_key_def idx_key_def pending_key_def
  position_key_def

lemma queue_keys_neq [simp]:
  "VERSION_KEY \<noteq> config_key" "VERSION_KEY \<noteq> next_id_key" "VERSION_KEY \<noteq> active_key"
  "VERSION_KEY \<noteq> idx_key" "VERSION_KEY \<noteq> pending_key"
  "config_key \<noteq> VERSION_KEY" "config_key \<noteq> next_id_key" "config_key \<noteq> active_key"
  "config_key \<noteq> idx_key" "config_key \<noteq> pending_key"
  "next_id_key \<noteq> VERSION_KEY" "next_id_key \<noteq> config_key" "next_id_key \<noteq> active_key"
  "next_id_key \<noteq> idx_key" "next_id_key \<noteq> pending_key"
  "active_key \<noteq> VERSION_KEY" "active_key \<noteq> config_key" "active_key \<noteq> next_id_key"
  "active_key \<noteq> idx_key" "active_key \<noteq> pending_key"
  "idx_key \<noteq> VERSION_KEY" "idx_key \<noteq> config_key" "idx_key \<noteq> next_id_key"
  "idx_key \<noteq> active_key" "idx_key \<noteq> pending_key"
  "pending_key \<noteq> VERSION_KEY" "pending_key \<noteq> config_key" "pending_key \<noteq> next_id_key"
  "pending_key \<noteq> active_key" "pending_key \<noteq> idx_key"
  by (simp_all add: queue_key_defs)

lemma position_key_inject [simp]: "position_key i = position_key j \<longleftrightarrow> i = j"
  by (simp add: position_key_def)

lemma position_key_neq [simp]:
  "position_key i \<noteq> VERSION_KEY" "VERSION_KEY \<noteq> position_key i"
  "position_key i \<noteq> config_key" "config_key \<noteq> position_key i"
  "position_key i \<noteq> next_id_key" "next_id_key \<noteq> position_key i"
  "position_key i \<noteq> active_key" "active_key \<noteq> position_key i"
  "position_key i \<noteq> idx_key" "idx_key \<noteq> position_key i"
  "position_key i \<noteq> pending_key" "pending_key \<noteq> position_key i"
  by (simp_all add: queue_key_defs)

section \<open>Helpers\<close>

definition queue_topics :: "symbol \<Rightarrow> u32 \<Rightarrow> sc_val list" where
  "queue_topics kind position_id = [SymbolV ''lineproof_queue'', SymbolV kind, U32V position_id]"

definition queue_payload :: "address \<Rightarrow> u64 \<Rightarrow> sc_val" where
  "queue_payload identity ts = VecV [AddressV identity, U64V ts]"

definition queue_emit :: "symbol \<Rightarrow> u32 \<Rightarrow> address \<Rightarrow> u64 \<Rightarrow> (queue_val, unit) action" where
  "queue_emit kind position_id identity ts =
     publish (queue_topics kind position_id) (queue_payload identity ts)"

text \<open>\<open>emit(\<dots>, env.ledger().timestamp())\<close>\<close>

definition queue_emit_now :: "symbol \<Rightarrow> u32 \<Rightarrow> address \<Rightarrow> (queue_val, unit) action" where
  "queue_emit_now kind position_id identity =
     bind_op (reads now) (queue_emit kind position_id identity)"

definition require_admin :: "queue_config \<Rightarrow> address \<Rightarrow> (queue_val, unit) action" where
  "require_admin config admin =
     then_op (panic_if (cfg_admin config \<noteq> admin) ''not_admin'')
     (require_auth admin)"

definition get_config_internal :: "(queue_val, queue_config) action" where
  "get_config_internal =
     bind_op (storage_expect as_config ''queue not initialized'' config_key) (\<lambda>config.
     then_op (extend_ttl config_key TTL_THRESHOLD TTL_EXTEND_TO)
     (ret config))"

definition load_position :: "u32 \<Rightarrow> (queue_val, position) action" where
  "load_position i =
     bind_op (storage_expect as_position ''position not found'' (position_key i)) (\<lambda>pos.
     then_op (extend_ttl (position_key i) TTL_THRESHOLD TTL_EXTEND_TO)
     (ret pos))"

section \<open>Entry points\<close>

definition queue_initialize :: "address \<Rightarrow> queue_config \<Rightarrow> (queue_val, unit) action" where
  "queue_initialize admin config =
     then_op (require_auth admin)
     (then_op (panic_if (cfg_admin config \<noteq> admin) ''not_admin'')
     (then_op (set_and_extend config_key (QConfig config))
     (then_op (set_and_extend next_id_key (QU32 1))
     (then_op (set_and_extend active_key (QU32 0))
     (then_op (set_and_extend idx_key (QU32 0))
     (then_op (set_and_extend VERSION_KEY (QU32 CURRENT_VERSION))
     (then_op (instance_extend_ttl TTL_THRESHOLD TTL_EXTEND_TO)
     (queue_emit ''Initialized'' 0 admin 0))))))))"

definition queue_propose_admin :: "address \<Rightarrow> address \<Rightarrow> (queue_val, unit) action" where
  "queue_propose_admin current_admin proposed_admin =
     bind_op get_config_internal (\<lambda>config.
     then_op (require_admin config current_admin)
     (set_and_extend pending_key (QAddress proposed_admin)))"

definition queue_accept_admin :: "address \<Rightarrow> (queue_val, unit) action" where
  "queue_accept_admin proposed_admin =
     then_op (require_auth proposed_admin)
     (bind_op (storage_expect as_address ''not_pending_admin'' pending_key) (\<lambda>pending.
     then_op (panic_if (pending \<noteq> proposed_admin) ''not_pending_admin'')
     (bind_op get_config_internal (\<lambda>config.
     then_op (set_and_extend config_key (QConfig (config\<lparr>cfg_admin := proposed_admin\<rparr>)))
     (then_op (storage_remove pending_key)
     (publish [StringV ''lineproof.queue'', SymbolV ''OwnershipTransferred'',
               AddressV (cfg_admin config), AddressV proposed_admin] VoidV))))))"

definition queue_open_enrollment :: "address \<Rightarrow> (queue_val, unit) action" where
  "queue_open_enrollment admin =
     bind_op get_config_internal (\<lambda>config.
     then_op (require_admin config admin)
     (then_op (panic_if (cfg_status config \<noteq> Draft)
        ''enrollment can only be opened from draft state'')
     (then_op (set_and_extend config_key (QConfig (config\<lparr>cfg_status := EnrollmentOpen\<rparr>)))
     (queue_emit_now ''EnrollmentOpened'' 0 admin))))"

definition queue_close_enrollment :: "address \<Rightarrow> (queue_val, unit) action" where
  "queue_close_enrollment admin =
     bind_op get_config_internal (\<lambda>config.
     then_op (require_admin config admin)
     (then_op (panic_if (cfg_status config \<noteq> EnrollmentOpen)
        ''enrollment can only be closed from enrollment_open state'')
     (then_op (set_and_extend config_key (QConfig (config\<lparr>cfg_status := EnrollmentClosed\<rparr>)))
     (queue_emit_now ''EnrollmentClosed'' 0 admin))))"

definition queue_enroll_position :: "address \<Rightarrow> (queue_val, u32) action" where
  "queue_enroll_position identity =
     then_op (require_auth identity)
     (bind_op get_config_internal (\<lambda>config.
     then_op (panic_if (cfg_status config \<noteq> EnrollmentOpen) ''enrollment is not open'')
     (bind_op (storage_get_or as_u32 1 next_id_key) (\<lambda>next_id.
     bind_op (storage_get_or as_u32 0 active_key) (\<lambda>active_count.
     then_op (panic_if (cfg_max_positions config \<le> active_count) ''queue is full'')
     (bind_op (reads now) (\<lambda>t.
     then_op (set_and_extend (position_key next_id)
        (QPosition \<lparr>pos_id = next_id, pos_enrolled_at = t, pos_identity = identity,
                    pos_status = Pending, pos_advanced_at = None,
                    pos_priority_weight = None\<rparr>))
     (bind_op (arith (checked_add next_id 1)) (\<lambda>next_id'.
     then_op (set_and_extend next_id_key (QU32 next_id'))
     (bind_op (arith (checked_add active_count 1)) (\<lambda>active_count'.
     then_op (set_and_extend active_key (QU32 active_count'))
     (then_op (queue_emit_now ''Enrolled'' next_id identity)
     (ret next_id)))))))))))))"

definition queue_cancel_position :: "address \<Rightarrow> u32 \<Rightarrow> (queue_val, unit) action" where
  "queue_cancel_position identity position_id =
     then_op (require_auth identity)
     (bind_op (load_position position_id) (\<lambda>pos.
     then_op (panic_if (pos_identity pos \<noteq> identity) ''not your position'')
     (then_op (panic_if (pos_status pos \<noteq> Pending) ''only pending positions can be cancelled'')
     (then_op (set_and_extend (position_key position_id)
        (QPosition (pos\<lparr>pos_status := Cancelled\<rparr>)))
     (bind_op (storage_get_or as_u32 0 active_key) (\<lambda>active_count.
     then_op (set_and_extend active_key (QU32 (saturating_sub active_count 1)))
     (queue_emit_now ''Cancelled'' position_id identity)))))))"

definition queue_get_position :: "u32 \<Rightarrow> (queue_val, position option) action" where
  "queue_get_position position_id =
     (if position_id = 0 then ret None
      else bind_op (storage_get as_position (position_key position_id)) (\<lambda>pos.
        then_op (case pos of None \<Rightarrow> ret ()
                 | Some _ \<Rightarrow> extend_ttl (position_key position_id) TTL_THRESHOLD TTL_EXTEND_TO)
        (ret pos)))"

text \<open>
  The scan of \<open>advance\<close>: at most \<open>batch_size\<close> iterations, each looking at the position after
  the cursor \<open>idx\<close>. A pending position is advanced, a cancelled one is reported as skipped,
  any other is passed over; a missing position or the end of the queue stops the scan.
\<close>

primrec queue_advance_scan ::
  "nat \<Rightarrow> address \<Rightarrow> u32 \<Rightarrow> u32 list \<Rightarrow> u32 list \<Rightarrow> u32 \<Rightarrow>
   (queue_val, u32 list \<times> u32 list \<times> u32) action" where
  "queue_advance_scan 0 admin total_created advanced skipped idx = ret (advanced, skipped, idx)"
| "queue_advance_scan (Suc n) admin total_created advanced skipped idx =
     (if total_created \<le> idx then ret (advanced, skipped, idx)
      else
        bind_op (arith (checked_add idx 1)) (\<lambda>id.
        bind_op (queue_get_position id) (\<lambda>found.
        case found of
          None \<Rightarrow> ret (advanced, skipped, idx)
        | Some pos \<Rightarrow>
            if pos_status pos = Pending then
              bind_op (reads now) (\<lambda>t.
              then_op (set_and_extend (position_key id)
                 (QPosition (pos\<lparr>pos_status := Advanced, pos_advanced_at := Some t\<rparr>)))
              (bind_op (arith (checked_add idx 1))
                 (queue_advance_scan n admin total_created (advanced @ [id]) skipped)))
            else if pos_status pos = Cancelled then
              then_op (queue_emit_now ''Skipped'' id admin)
              (bind_op (arith (checked_add idx 1))
                 (queue_advance_scan n admin total_created advanced (skipped @ [id])))
            else
              bind_op (arith (checked_add idx 1))
                 (queue_advance_scan n admin total_created advanced skipped))))"

definition queue_advance :: "address \<Rightarrow> u32 \<Rightarrow> (queue_val, u32 list) action" where
  "queue_advance admin batch_size =
     then_op (panic_if (batch_size = 0) ''batch_size_must_be_positive'')
     (bind_op get_config_internal (\<lambda>config.
     then_op (require_admin config admin)
     (then_op (panic_if (cfg_status config = Closed) ''queue is closed'')
     (then_op (panic_if (cfg_status config \<notin> {EnrollmentClosed, AdvancementActive})
        ''enrollment must be closed before advancing'')
     (case cfg_advancement_rule config of
        Fifo \<Rightarrow>
          bind_op (storage_get_or as_u32 0 idx_key) (\<lambda>idx.
          bind_op (storage_get_or as_u32 1 next_id_key) (\<lambda>next_id.
          bind_op (queue_advance_scan (unat batch_size) admin (saturating_sub next_id 1) [] [] idx)
            (\<lambda>(advanced, skipped, idx').
          then_op (set_and_extend idx_key (QU32 idx'))
          (then_op (if advanced \<noteq> [] \<and> cfg_status config = EnrollmentClosed
                    then set_and_extend config_key
                           (QConfig (config\<lparr>cfg_status := AdvancementActive\<rparr>))
                    else ret ())
          (then_op (for_each advanced (\<lambda>id. queue_emit_now ''Advanced'' id admin))
          (ret advanced))))))
      | PriorityTier \<Rightarrow> panic ''priority_tier_not_implemented''
      | VerifiableRandomness \<Rightarrow> panic ''vrf_not_implemented'')))))"

definition queue_get_config :: "(queue_val, queue_config) action" where
  "queue_get_config = get_config_internal"

definition queue_current_position_index :: "(queue_val, u32) action" where
  "queue_current_position_index = storage_get_or as_u32 0 idx_key"

definition queue_total_enrolled :: "(queue_val, u32) action" where
  "queue_total_enrolled =
     bind_op (storage_get_or as_u32 1 next_id_key) (\<lambda>next_id.
     if next_id = 0 then ret 0 else arith (checked_sub next_id 1))"

definition queue_active_enrolled :: "(queue_val, u32) action" where
  "queue_active_enrolled = storage_get_or as_u32 0 active_key"

definition queue_close :: "address \<Rightarrow> (queue_val, unit) action" where
  "queue_close admin =
     bind_op get_config_internal (\<lambda>config.
     then_op (require_admin config admin)
     (then_op (panic_if (cfg_status config = Closed) ''queue is closed'')
     (then_op (set_and_extend config_key (QConfig (config\<lparr>cfg_status := Closed\<rparr>)))
     (queue_emit_now ''QueueClosed'' 0 admin))))"

text \<open>The loop body that \<open>expire_position\<close> and \<open>expire_positions_batch\<close> share.\<close>

definition expire_one :: "address \<Rightarrow> u32 \<Rightarrow> (queue_val, unit) action" where
  "expire_one admin position_id =
     bind_op (load_position position_id) (\<lambda>pos.
     then_op (panic_if (pos_status pos \<noteq> Pending) ''only pending positions can be expired'')
     (then_op (set_and_extend (position_key position_id)
        (QPosition (pos\<lparr>pos_status := Expired\<rparr>)))
     (queue_emit_now ''Expired'' position_id admin)))"

definition queue_expire_position :: "address \<Rightarrow> u32 \<Rightarrow> (queue_val, unit) action" where
  "queue_expire_position admin position_id =
     bind_op get_config_internal (\<lambda>config.
     then_op (require_admin config admin)
     (then_op (panic_if (cfg_status config \<noteq> AdvancementActive \<and> cfg_status config \<noteq> Closed)
        ''queue must be in advancement or closed state'')
     (expire_one admin position_id)))"

definition queue_expire_positions_batch :: "address \<Rightarrow> u32 list \<Rightarrow> (queue_val, unit) action" where
  "queue_expire_positions_batch admin position_ids =
     bind_op get_config_internal (\<lambda>config.
     then_op (require_admin config admin)
     (then_op (panic_if (cfg_status config \<noteq> AdvancementActive \<and> cfg_status config \<noteq> Closed)
        ''queue must be in advancement or closed state'')
     (for_each position_ids (expire_one admin))))"

definition queue_upgrade :: "address \<Rightarrow> hash \<Rightarrow> (queue_val, unit) action" where
  "queue_upgrade admin new_wasm_hash =
     then_op (require_auth admin)
     (bind_op get_config_internal (\<lambda>config.
     then_op (panic_if (cfg_admin config \<noteq> admin) ''unauthorized: only queue admin can upgrade'')
     (queue_emit_now ''Upgraded'' 0 admin)))"

definition queue_migrate :: "address \<Rightarrow> u32 \<Rightarrow> u32 \<Rightarrow> (queue_val, unit) action" where
  "queue_migrate admin from_version to_version =
     then_op (require_auth admin)
     (bind_op get_config_internal (\<lambda>config.
     then_op (panic_if (cfg_admin config \<noteq> admin) ''unauthorized: only queue admin can migrate'')
     (bind_op (storage_get_or as_u32 CURRENT_VERSION VERSION_KEY) (\<lambda>stored_version.
     then_op (panic_if (stored_version \<noteq> from_version)
        ''version mismatch: stored version does not match from_version'')
     (then_op (panic_if (to_version \<le> from_version)
        ''to_version must be greater than from_version'')
     (then_op (set_and_extend VERSION_KEY (QU32 to_version))
     (queue_emit ''Migrated'' from_version admin (ucast to_version))))))))"

section \<open>The contract as a machine\<close>

text \<open>The calls that can change an initialized queue.\<close>

datatype queue_call =
    ProposeAdmin address address
  | AcceptAdmin address
  | OpenEnrollment address
  | CloseEnrollment address
  | EnrollPosition address
  | CancelPosition address u32
  | Advance address u32
  | ExpirePosition address u32
  | ExpirePositionsBatch address "u32 list"
  | CloseQueue address
  | Upgrade address hash
  | Migrate address u32 u32

datatype queue_ret = QUnit | QId u32 | QIds "u32 list"

fun queue_exec :: "queue_call \<Rightarrow> (queue_val, queue_ret) action" where
  "queue_exec (ProposeAdmin a b) = then_op (queue_propose_admin a b) (ret QUnit)"
| "queue_exec (AcceptAdmin a) = then_op (queue_accept_admin a) (ret QUnit)"
| "queue_exec (OpenEnrollment a) = then_op (queue_open_enrollment a) (ret QUnit)"
| "queue_exec (CloseEnrollment a) = then_op (queue_close_enrollment a) (ret QUnit)"
| "queue_exec (EnrollPosition a) = bind_op (queue_enroll_position a) (\<lambda>i. ret (QId i))"
| "queue_exec (CancelPosition a i) = then_op (queue_cancel_position a i) (ret QUnit)"
| "queue_exec (Advance a n) = bind_op (queue_advance a n) (\<lambda>ids. ret (QIds ids))"
| "queue_exec (ExpirePosition a i) = then_op (queue_expire_position a i) (ret QUnit)"
| "queue_exec (ExpirePositionsBatch a is) =
     then_op (queue_expire_positions_batch a is) (ret QUnit)"
| "queue_exec (CloseQueue a) = then_op (queue_close a) (ret QUnit)"
| "queue_exec (Upgrade a h) = then_op (queue_upgrade a h) (ret QUnit)"
| "queue_exec (Migrate a f t) = then_op (queue_migrate a f t) (ret QUnit)"

end
