(* ===== verification/Contract_Machine.thy ===== *)
theory Contract_Machine
  imports Contract_Env
begin

text \<open>
  How a contract runs over time, and what has to be shown once per contract. A contract is a
  dispatcher \<open>exec\<close> of its state-changing calls; the ledger invokes it with any authorization,
  a failed invocation leaves no trace (the host rolls the frame back), and between invocations
  ledgers close. The locales state the three contracts between the code and its specification:
  \<open>contract_refinement\<close> (the code computes an abstract transition), \<open>abstract_machine\<close> (the
  abstract transitions keep an invariant) and \<open>abstract_history\<close> (they move along a preorder).
  Each contract of the development interprets them on its own definitions.
\<close>

section \<open>Runs\<close>

text \<open>
  What the network does between invocations: the ledger moves on, other contracts are
  deployed, code is uploaded, but the storage of the contract stays, and no entry of it has
  been archived when it runs again.
\<close>

definition ledger_closes :: "'v env \<Rightarrow> 'v env \<Rightarrow> bool" where
  "ledger_closes s t \<longleftrightarrow>
     env_self t = env_self s \<and> env_data t = env_data s \<and> env_events t = env_events s \<and>
     network_id (env_ledger t) = network_id (env_ledger s) \<and>
     env_instances s \<subseteq>\<^sub>m env_instances t \<and> (\<forall>h. env_wasms s h \<longrightarrow> env_wasms t h) \<and>
     now s \<le> now t \<and> env_ok t"

inductive contract_run :: "('c \<Rightarrow> ('v, 'r) action) \<Rightarrow> 'v env \<Rightarrow> 'v env \<Rightarrow> bool" for exec where
  run_done: "contract_run exec s s"
| run_call: "contract_run exec s t \<Longrightarrow> exec c (t\<lparr>env_auth := auth\<rparr>) = Inr (r, u) \<Longrightarrow>
    contract_run exec s u"
| run_failed: "contract_run exec s t \<Longrightarrow> exec c (t\<lparr>env_auth := auth\<rparr>) = Inl e \<Longrightarrow>
    contract_run exec s t"
| run_tick: "contract_run exec s t \<Longrightarrow> ledger_closes t u \<Longrightarrow> contract_run exec s u"

type_synonym ('r, 'a) spec_result = "error + ('r \<times> 'a \<times> event list)"

type_synonym ('c, 'r, 'a) spec = "(address \<Rightarrow> bool) \<Rightarrow> u64 \<Rightarrow> 'c \<Rightarrow> 'a \<Rightarrow> ('r, 'a) spec_result"

inductive spec_run :: "('c, 'r, 'a) spec \<Rightarrow> 'a \<Rightarrow> 'a \<Rightarrow> bool" for spec where
  spec_done: "spec_run spec a a"
| spec_call: "spec_run spec a b \<Longrightarrow> spec auth t c b = Inr (r, b', evs) \<Longrightarrow> spec_run spec a b'"

section \<open>What a call does\<close>

definition auth_error :: error where
  "auth_error = HostErr EAuth InvalidAction"

text \<open>The part of the environment that no call changes.\<close>

definition same_env :: "'v env \<Rightarrow> 'v env \<Rightarrow> bool" where
  "same_env s t \<longleftrightarrow>
     env_self t = env_self s \<and> env_ledger t = env_ledger s \<and> env_auth t = env_auth s \<and>
     env_wasms t = env_wasms s"

text \<open>What a call that the specification accepts does to the environment.\<close>

definition call_post ::
  "('v env \<Rightarrow> 'a \<Rightarrow> bool) \<Rightarrow> 'v env \<Rightarrow> 'a \<Rightarrow> event list \<Rightarrow> 'v env \<Rightarrow> bool" where
  "call_post repr s a evs t \<longleftrightarrow>
     repr t a \<and> env_ok t \<and> env_events t = env_events s @ evs \<and> same_env s t"

definition call_matches ::
  "('v env \<Rightarrow> 'a \<Rightarrow> bool) \<Rightarrow> 'v env \<Rightarrow> ('r, 'a) spec_result \<Rightarrow> error + ('r \<times> 'v env) \<Rightarrow> bool" where
  "call_matches repr s spec res \<longleftrightarrow>
     (case spec of
        Inl e \<Rightarrow> res = Inl e
      | Inr (r, a, evs) \<Rightarrow> \<exists>t. res = Inr (r, t) \<and> call_post repr s a evs t)"

lemma call_matches_Inl [simp]: "call_matches repr s (Inl e) res \<longleftrightarrow> res = Inl e"
  by (simp add: call_matches_def)

lemma call_matches_Inr [simp]:
  "call_matches repr s (Inr (r, a, evs)) (Inr (r', t)) \<longleftrightarrow> r' = r \<and> call_post repr s a evs t"
  by (auto simp: call_matches_def)

lemma call_matches_if [simp]:
  "call_matches repr s (if b then x else y) res \<longleftrightarrow>
     (b \<longrightarrow> call_matches repr s x res) \<and> (\<not> b \<longrightarrow> call_matches repr s y res)"
  by simp

lemma call_matches_accepted:
  assumes "call_matches repr s spec (Inr (r, t))"
  shows "\<exists>a evs. spec = Inr (r, a, evs) \<and> call_post repr s a evs t"
  using assms by (cases spec) (auto simp: call_matches_def)

lemma env_ok_auth [simp]: "env_ok (s\<lparr>env_auth := auth\<rparr>) \<longleftrightarrow> env_ok s"
  by (simp add: env_ok_def)

lemma env_auth_sel [simp]:
  "now (s\<lparr>env_auth := auth\<rparr>) = now s"
  by (simp add: now_def)

text \<open>What the simulation proofs of the entry points unfold.\<close>

lemmas machine_simps = op_eval auth_error_def call_post_def same_env_def

section \<open>Refinement\<close>

locale contract_refinement =
  fixes exec :: "'c \<Rightarrow> ('v, 'r) action"
    and repr :: "'v env \<Rightarrow> 'a \<Rightarrow> bool"
    and spec :: "('c, 'r, 'a) spec"
  assumes simulation: "env_ok s \<Longrightarrow> repr s a \<Longrightarrow>
      call_matches repr s (spec (env_auth s) (now s) c a) (exec c s)"
    and repr_storage: "repr s a \<Longrightarrow> env_data t = env_data s \<Longrightarrow> repr t a"
begin

lemma call_simulates:
  assumes "env_ok s" and "repr s a" and "exec c (s\<lparr>env_auth := auth\<rparr>) = Inr (r, t)"
  shows "\<exists>b evs. spec auth (now s) c a = Inr (r, b, evs) \<and> repr t b \<and> env_ok t"
proof -
  have "repr (s\<lparr>env_auth := auth\<rparr>) a"
    using assms(2) by (rule repr_storage) simp
  with simulation [of "s\<lparr>env_auth := auth\<rparr>" a c] assms(1,3)
  have "call_matches repr (s\<lparr>env_auth := auth\<rparr>) (spec auth (now s) c a) (Inr (r, t))"
    by simp
  then show ?thesis
    by (auto dest!: call_matches_accepted simp: call_post_def)
qed

lemma run_simulates:
  assumes "contract_run exec s t" and "env_ok s" and "repr s a"
  shows "\<exists>b. spec_run spec a b \<and> repr t b \<and> env_ok t"
  using assms
proof (induction rule: contract_run.induct)
  case (run_done s)
  then show ?case by (auto intro: spec_done)
next
  case (run_call s t c auth r u)
  then obtain b where b: "spec_run spec a b" "repr t b" "env_ok t" by auto
  from call_simulates [OF b(3,2) run_call.hyps(2)]
  obtain b' evs where "spec auth (now t) c b = Inr (r, b', evs)" "repr u b'" "env_ok u"
    by auto
  with b(1) show ?case by (auto intro: spec_call)
next
  case (run_failed s t c auth e)
  then show ?case by simp
next
  case (run_tick s t u)
  then show ?case by (auto simp: ledger_closes_def intro: repr_storage)
qed

text \<open>A call that the specification accepts returns, and extends any run.\<close>

lemma call_accepted:
  assumes "env_ok s" and "repr s a" and "spec (env_auth s) (now s) c a = Inr (r, b, evs)"
  shows "\<exists>t. exec c s = Inr (r, t) \<and> call_post repr s b evs t \<and> contract_run exec s t"
proof -
  from simulation [OF assms(1,2), of c] obtain t
    where t: "exec c s = Inr (r, t)" "call_post repr s b evs t"
    unfolding assms(3) by (auto simp: call_matches_def)
  have "exec c (s\<lparr>env_auth := env_auth s\<rparr>) = Inr (r, t)"
    using t(1) by simp
  then have "contract_run exec s t"
    by (rule run_call [OF run_done])
  with t show ?thesis by auto
qed

text \<open>A call fails exactly when the specification rejects it, and with the same error.\<close>

lemma call_fails_iff:
  assumes "env_ok s" and "repr s a"
  shows "exec c s = Inl e \<longleftrightarrow> spec (env_auth s) (now s) c a = Inl e"
  using simulation [OF assms, of c]
  by (cases "spec (env_auth s) (now s) c a") (auto simp: call_matches_def)

end

section \<open>Invariants and histories of the specification\<close>

locale abstract_machine =
  fixes spec :: "('c, 'r, 'a) spec"
    and inv :: "'a \<Rightarrow> bool"
  assumes spec_inv: "inv a \<Longrightarrow> spec auth t c a = Inr (r, b, evs) \<Longrightarrow> inv b"
begin

lemma spec_run_inv:
  assumes "spec_run spec a b" and "inv a"
  shows "inv b"
  using assms by (induction rule: spec_run.induct) (auto intro: spec_inv)

end

locale abstract_history = abstract_machine spec inv
  for spec :: "('c, 'r, 'a) spec" and inv :: "'a \<Rightarrow> bool" +
  fixes le :: "'a \<Rightarrow> 'a \<Rightarrow> bool"
  assumes le_refl: "le a a"
    and le_trans: "le a b \<Longrightarrow> le b c \<Longrightarrow> le a c"
    and spec_le: "inv a \<Longrightarrow> spec auth t k a = Inr (r, b, evs) \<Longrightarrow> le a b"
begin

lemma spec_run_le:
  assumes "spec_run spec a b" and "inv a"
  shows "le a b"
  using assms
proof (induction rule: spec_run.induct)
  case (spec_done a)
  show ?case by (rule le_refl)
next
  case (spec_call a b auth t c r b' evs)
  then have "inv b" by (auto intro: spec_run_inv)
  with spec_call show ?case by (auto intro: le_trans spec_le)
qed

end

text \<open>Both together: invariant and history of the contract's own runs.\<close>

locale verified_contract =
  contract_refinement exec repr spec + abstract_history spec inv le
  for exec :: "'c \<Rightarrow> ('v, 'r) action"
    and repr :: "'v env \<Rightarrow> 'a \<Rightarrow> bool"
    and spec :: "('c, 'r, 'a) spec"
    and inv :: "'a \<Rightarrow> bool"
    and le :: "'a \<Rightarrow> 'a \<Rightarrow> bool"
begin

lemma run_keeps:
  assumes "contract_run exec s t" and "env_ok s" and "repr s a" and "inv a"
  shows "\<exists>b. repr t b \<and> env_ok t \<and> inv b \<and> le a b"
  using run_simulates [OF assms(1-3)] assms(4) by (auto intro: spec_run_inv spec_run_le)

end

section \<open>Invariants and histories of the storage\<close>

text \<open>
  A contract whose invariant is stated on its environment directly, without an abstract
  state: what is true of the entries stays true under every call that returns, and what
  happens over a run is a preorder that every call and every closed ledger respects.
\<close>

locale storage_machine =
  fixes exec :: "'c \<Rightarrow> ('v, 'r) action"
    and inv :: "'v env \<Rightarrow> bool"
    and hist :: "'v env \<Rightarrow> 'v env \<Rightarrow> bool"
  assumes inv_storage: "inv s \<Longrightarrow> env_data t = env_data s \<Longrightarrow> inv t"
    and exec_inv: "inv s \<Longrightarrow> exec c s = Inr (r, t) \<Longrightarrow> inv t"
    and hist_refl: "hist s s"
    and hist_trans: "hist s t \<Longrightarrow> hist t u \<Longrightarrow> hist s u"
    and hist_auth: "hist s (t\<lparr>env_auth := auth\<rparr>) \<longleftrightarrow> hist s t"
    and hist_tick: "ledger_closes s t \<Longrightarrow> hist s t"
    and exec_hist: "inv s \<Longrightarrow> exec c s = Inr (r, t) \<Longrightarrow> hist s t"
begin

lemma run_storage:
  assumes "contract_run exec s t" and "inv s"
  shows "inv t \<and> hist s t"
  using assms
proof (induction rule: contract_run.induct)
  case (run_done s)
  then show ?case by (simp add: hist_refl)
next
  case (run_call s t c auth r u)
  let ?t = "t\<lparr>env_auth := auth\<rparr>"
  have t: "inv t" "hist s t" using run_call by auto
  from t(1) have inv: "inv ?t" by (rule inv_storage) simp
  have "hist s ?t" using t(2) by (simp add: hist_auth)
  then show ?case
    using exec_inv [OF inv run_call.hyps(2)] exec_hist [OF inv run_call.hyps(2)]
    by (blast intro: hist_trans)
next
  case (run_failed s t c auth e)
  then show ?case by simp
next
  case (run_tick s t u)
  have "env_data u = env_data t" using run_tick.hyps(2) by (simp add: ledger_closes_def)
  with run_tick show ?case
    by (blast intro: inv_storage hist_tick hist_trans)
qed

end

end
