(* ===== verification/Queue_Spec.thy ===== *)
theory Queue_Spec
  imports Queue Contract_Machine
begin

text \<open>
  The queue as its users understand it: a list of positions in order of enrolment, a cursor
  that separates the part already looked at from the rest, and a configuration. \<open>queue_abs\<close>
  relates the contract's storage (counters and keyed entries of machine integers) to it, and
  the simulation lemmas show that every entry point computes exactly the abstract
  transition: same result, same error, same events.
\<close>

section \<open>The abstract queue\<close>

record aqueue =
  aq_config :: queue_config
  aq_positions :: "position list"
  aq_cursor :: nat
  aq_pending :: "address option"
  aq_version :: u32

type_synonym aq_result = "(queue_ret, aqueue) spec_result"

definition queue_event :: "symbol \<Rightarrow> u32 \<Rightarrow> address \<Rightarrow> u64 \<Rightarrow> event" where
  "queue_event kind i who t = Event (queue_topics kind i) (queue_payload who t)"

definition active_count :: "position list \<Rightarrow> nat" where
  "active_count ps = length (filter (\<lambda>p. pos_status p \<noteq> Cancelled) ps)"

definition lookup_position :: "position list \<Rightarrow> u32 \<Rightarrow> position option" where
  "lookup_position ps i =
     (if 0 < unat i \<and> unat i \<le> length ps then Some (ps ! (unat i - 1)) else None)"

definition set_position :: "u32 \<Rightarrow> position \<Rightarrow> position list \<Rightarrow> position list" where
  "set_position i p ps = ps[unat i - 1 := p]"

definition set_status :: "queue_status \<Rightarrow> aqueue \<Rightarrow> aqueue" where
  "set_status st q = q\<lparr>aq_config := (aq_config q)\<lparr>cfg_status := st\<rparr>\<rparr>"

definition admin_only :: "(address \<Rightarrow> bool) \<Rightarrow> address \<Rightarrow> aqueue \<Rightarrow> aq_result \<Rightarrow> aq_result" where
  "admin_only auth who q k =
     (if cfg_admin (aq_config q) \<noteq> who then Inl (Panic ''not_admin'')
      else if \<not> auth who then Inl auth_error else k)"

text \<open>Advancing positions \<open>c, \<dots>, e - 1\<close> (counting from 0) at time \<open>t\<close>.\<close>

definition advance_position :: "u64 \<Rightarrow> position \<Rightarrow> position" where
  "advance_position t p =
     (if pos_status p = Pending then p\<lparr>pos_status := Advanced, pos_advanced_at := Some t\<rparr> else p)"

definition advance_range :: "u64 \<Rightarrow> nat \<Rightarrow> nat \<Rightarrow> position list \<Rightarrow> position list" where
  "advance_range t c e ps =
     map (\<lambda>k. if c \<le> k \<and> k < e then advance_position t (ps ! k) else ps ! k) [0..<length ps]"

definition ids_with_status :: "position_status \<Rightarrow> nat \<Rightarrow> nat \<Rightarrow> position list \<Rightarrow> u32 list" where
  "ids_with_status st c e ps =
     map (\<lambda>k. word_of_nat (Suc k)) (filter (\<lambda>k. pos_status (ps ! k) = st) [c..<e])"

definition advance_end :: "aqueue \<Rightarrow> u32 \<Rightarrow> nat" where
  "advance_end q n = min (aq_cursor q + unat n) (length (aq_positions q))"

definition aq_advance :: "u64 \<Rightarrow> address \<Rightarrow> u32 \<Rightarrow> aqueue \<Rightarrow> aq_result" where
  "aq_advance t who n q =
     (let c = aq_cursor q; ps = aq_positions q; e = advance_end q n;
          advanced = ids_with_status Pending c e ps;
          skipped = ids_with_status Cancelled c e ps;
          q' = q\<lparr>aq_positions := advance_range t c e ps, aq_cursor := e\<rparr>
      in Inr (QIds advanced,
              if advanced \<noteq> [] then set_status AdvancementActive q' else q',
              map (\<lambda>i. queue_event ''Skipped'' i who t) skipped @
              map (\<lambda>i. queue_event ''Advanced'' i who t) advanced))"

fun expire_all :: "u32 list \<Rightarrow> position list \<Rightarrow> error + position list" where
  "expire_all [] ps = Inr ps"
| "expire_all (i # is) ps =
     (case lookup_position ps i of
        None \<Rightarrow> Inl (Panic ''position not found'')
      | Some p \<Rightarrow>
          if pos_status p \<noteq> Pending then Inl (Panic ''only pending positions can be expired'')
          else expire_all is (set_position i (p\<lparr>pos_status := Expired\<rparr>) ps))"

definition aq_expire :: "(address \<Rightarrow> bool) \<Rightarrow> u64 \<Rightarrow> address \<Rightarrow> u32 list \<Rightarrow> aqueue \<Rightarrow> aq_result" where
  "aq_expire auth t who is q =
     admin_only auth who q
       (if cfg_status (aq_config q) \<notin> {AdvancementActive, Closed}
        then Inl (Panic ''queue must be in advancement or closed state'')
        else case expire_all is (aq_positions q) of
          Inl e \<Rightarrow> Inl e
        | Inr ps \<Rightarrow> Inr (QUnit, q\<lparr>aq_positions := ps\<rparr>,
                         map (\<lambda>i. queue_event ''Expired'' i who t) is))"

text \<open>
  \<open>aq_exec auth t c q\<close>: the call \<open>c\<close> at ledger time \<open>t\<close> when exactly the addresses in
  \<open>auth\<close> have authorized the invocation.
\<close>

fun aq_exec :: "(address \<Rightarrow> bool) \<Rightarrow> u64 \<Rightarrow> queue_call \<Rightarrow> aqueue \<Rightarrow> aq_result" where
  "aq_exec auth t (ProposeAdmin who new) q =
     admin_only auth who q (Inr (QUnit, q\<lparr>aq_pending := Some new\<rparr>, []))"
| "aq_exec auth t (AcceptAdmin new) q =
     (if \<not> auth new then Inl auth_error
      else if aq_pending q \<noteq> Some new then Inl (Panic ''not_pending_admin'')
      else Inr (QUnit,
        q\<lparr>aq_config := (aq_config q)\<lparr>cfg_admin := new\<rparr>, aq_pending := None\<rparr>,
        [Event [StringV ''lineproof.queue'', SymbolV ''OwnershipTransferred'',
                AddressV (cfg_admin (aq_config q)), AddressV new] VoidV]))"
| "aq_exec auth t (OpenEnrollment who) q =
     admin_only auth who q
       (if cfg_status (aq_config q) \<noteq> Draft
        then Inl (Panic ''enrollment can only be opened from draft state'')
        else Inr (QUnit, set_status EnrollmentOpen q,
                  [queue_event ''EnrollmentOpened'' 0 who t]))"
| "aq_exec auth t (CloseEnrollment who) q =
     admin_only auth who q
       (if cfg_status (aq_config q) \<noteq> EnrollmentOpen
        then Inl (Panic ''enrollment can only be closed from enrollment_open state'')
        else Inr (QUnit, set_status EnrollmentClosed q,
                  [queue_event ''EnrollmentClosed'' 0 who t]))"
| "aq_exec auth t (EnrollPosition who) q =
     (let ps = aq_positions q; i = word_of_nat (Suc (length ps)) in
      if \<not> auth who then Inl auth_error
      else if cfg_status (aq_config q) \<noteq> EnrollmentOpen
      then Inl (Panic ''enrollment is not open'')
      else if unat (cfg_max_positions (aq_config q)) \<le> active_count ps
      then Inl (Panic ''queue is full'')
      else if 2 ^ 32 \<le> length ps + 2 then Inl overflow_panic
      else Inr (QId i,
        q\<lparr>aq_positions := ps @ [\<lparr>pos_id = i, pos_enrolled_at = t, pos_identity = who,
             pos_status = Pending, pos_advanced_at = None, pos_priority_weight = None\<rparr>]\<rparr>,
        [queue_event ''Enrolled'' i who t]))"
| "aq_exec auth t (CancelPosition who i) q =
     (if \<not> auth who then Inl auth_error
      else case lookup_position (aq_positions q) i of
        None \<Rightarrow> Inl (Panic ''position not found'')
      | Some p \<Rightarrow>
          if pos_identity p \<noteq> who then Inl (Panic ''not your position'')
          else if pos_status p \<noteq> Pending
          then Inl (Panic ''only pending positions can be cancelled'')
          else Inr (QUnit,
            q\<lparr>aq_positions := set_position i (p\<lparr>pos_status := Cancelled\<rparr>) (aq_positions q)\<rparr>,
            [queue_event ''Cancelled'' i who t]))"
| "aq_exec auth t (Advance who n) q =
     (if n = 0 then Inl (Panic ''batch_size_must_be_positive'')
      else admin_only auth who q
        (if cfg_status (aq_config q) = Closed then Inl (Panic ''queue is closed'')
         else if cfg_status (aq_config q) \<notin> {EnrollmentClosed, AdvancementActive}
         then Inl (Panic ''enrollment must be closed before advancing'')
         else case cfg_advancement_rule (aq_config q) of
           Fifo \<Rightarrow> aq_advance t who n q
         | PriorityTier \<Rightarrow> Inl (Panic ''priority_tier_not_implemented'')
         | VerifiableRandomness \<Rightarrow> Inl (Panic ''vrf_not_implemented'')))"
| "aq_exec auth t (ExpirePosition who i) q = aq_expire auth t who [i] q"
| "aq_exec auth t (ExpirePositionsBatch who is) q = aq_expire auth t who is q"
| "aq_exec auth t (CloseQueue who) q =
     admin_only auth who q
       (if cfg_status (aq_config q) = Closed then Inl (Panic ''queue is closed'')
        else Inr (QUnit, set_status Closed q, [queue_event ''QueueClosed'' 0 who t]))"
| "aq_exec auth t (Upgrade who h) q =
     (if \<not> auth who then Inl auth_error
      else if cfg_admin (aq_config q) \<noteq> who
      then Inl (Panic ''unauthorized: only queue admin can upgrade'')
      else Inr (QUnit, q, [queue_event ''Upgraded'' 0 who t]))"
| "aq_exec auth t (Migrate who from to) q =
     (if \<not> auth who then Inl auth_error
      else if cfg_admin (aq_config q) \<noteq> who
      then Inl (Panic ''unauthorized: only queue admin can migrate'')
      else if aq_version q \<noteq> from
      then Inl (Panic ''version mismatch: stored version does not match from_version'')
      else if to \<le> from then Inl (Panic ''to_version must be greater than from_version'')
      else Inr (QUnit, q\<lparr>aq_version := to\<rparr>, [queue_event ''Migrated'' from who (ucast to)]))"

section \<open>The abstraction relation\<close>

definition queue_abs :: "queue_val env \<Rightarrow> aqueue \<Rightarrow> bool" where
  "queue_abs s q \<longleftrightarrow>
     env_data s config_key = Some (QConfig (aq_config q)) \<and>
     env_data s next_id_key = Some (QU32 (word_of_nat (Suc (length (aq_positions q))))) \<and>
     Suc (length (aq_positions q)) < 2 ^ 32 \<and>
     env_data s active_key = Some (QU32 (word_of_nat (active_count (aq_positions q)))) \<and>
     env_data s idx_key = Some (QU32 (word_of_nat (aq_cursor q))) \<and>
     aq_cursor q \<le> length (aq_positions q) \<and>
     env_data s VERSION_KEY = Some (QU32 (aq_version q)) \<and>
     env_data s pending_key = map_option QAddress (aq_pending q) \<and>
     (\<forall>i. env_data s (position_key i) =
        map_option QPosition (lookup_position (aq_positions q) i))"

end
