(* ===== verification/Queue_Refine.thy ===== *)
theory Queue_Refine
  imports Queue_Spec
begin

text \<open>
  The queue contract implements the abstract queue: for every call, on a live environment
  that represents an abstract queue, the contract returns the result or the error of the
  abstract transition, publishes its events and leaves an environment that represents its
  successor (\<open>queue_simulation\<close>). The two loops are treated by inductions of their own:
  \<open>expire_all_sim\<close> for the batch expiry, \<open>scan_sim\<close> for the scan of \<open>advance\<close>.
\<close>

section \<open>Definitions\<close>

definition positions_abs :: "queue_val env \<Rightarrow> position list \<Rightarrow> bool" where
  "positions_abs s ps \<longleftrightarrow>
     (\<forall>i. env_data s (position_key i) = map_option QPosition (lookup_position ps i))"

text \<open>The effect of a loop over positions: it changes positions and publishes events only.\<close>

definition positions_post ::
  "queue_val env \<Rightarrow> position list \<Rightarrow> event list \<Rightarrow> queue_val env \<Rightarrow> bool" where
  "positions_post s ps evs t \<longleftrightarrow>
     positions_abs t ps \<and> env_ok t \<and> same_env s t \<and> env_events t = env_events s @ evs \<and>
     (\<forall>k. (\<forall>i. k \<noteq> position_key i) \<longrightarrow> env_data t k = env_data s k)"

text \<open>A queue created on storage that holds no position is the empty abstract queue.\<close>

definition aq_init :: "queue_config \<Rightarrow> aqueue" where
  "aq_init config = \<lparr>aq_config = config, aq_positions = [], aq_cursor = 0, aq_pending = None,
     aq_version = CURRENT_VERSION\<rparr>"

section \<open>Lists of positions\<close>

lemma length_set_position [simp]: "length (set_position i p ps) = length ps"
  by (simp add: set_position_def)

lemma lookup_position_Some:
  assumes "lookup_position ps i = Some p"
  shows "unat i - 1 < length ps" and "ps ! (unat i - 1) = p" and "0 < unat i"
    and "p \<in> set ps"
  using assms by (auto simp: lookup_position_def split: if_splits)

lemma lookup_set_position:
  assumes "lookup_position ps i = Some p"
  shows "lookup_position (set_position i p' ps) j = (if j = i then Some p' else lookup_position ps j)"
proof -
  have "unat j - 1 \<noteq> unat i - 1" if "j \<noteq> i" "0 < unat j"
    using that lookup_position_Some(3) [OF assms] by (metis Suc_diff_1 word_unat_eq_iff)
  then show ?thesis
    using lookup_position_Some [OF assms] by (auto simp: lookup_position_def set_position_def)
qed

lemma active_count_set_position:
  assumes "lookup_position ps i = Some p"
  shows "active_count (set_position i p' ps) + of_bool (pos_status p \<noteq> Cancelled) =
    active_count ps + of_bool (pos_status p' \<noteq> Cancelled)"
proof -
  let ?k = "unat i - 1"
  have "?k < length ps" and p: "ps ! ?k = p" using lookup_position_Some [OF assms] by auto
  then have "ps = take ?k ps @ p # drop (Suc ?k) ps"
    using id_take_nth_drop [of ?k ps] by simp
  then have "active_count ps = active_count (take ?k ps @ p # drop (Suc ?k) ps)" by simp
  moreover have "set_position i p' ps = take ?k ps @ p' # drop (Suc ?k) ps"
    using \<open>?k < length ps\<close> by (simp add: set_position_def upd_conv_take_nth_drop)
  ultimately show ?thesis by (simp add: active_count_def)
qed

lemma active_count_le: "active_count ps \<le> length ps"
  by (simp add: active_count_def)

lemma lookup_position_append:
  assumes "Suc (length ps) < 2 ^ 32"
  shows "lookup_position (ps @ [p]) i =
    (if i = word_of_nat (Suc (length ps)) then Some p else lookup_position ps i)"
proof -
  have "i = word_of_nat (Suc (length ps)) \<longleftrightarrow> unat i = Suc (length ps)"
    using assms unat_u32_of_nat [OF assms] by (metis word_unat_eq_iff)
  then show ?thesis
    by (auto simp: lookup_position_def nth_append less_Suc_eq)
qed

lemma advance_range_empty: "e \<le> c \<Longrightarrow> advance_range t c e ps = ps"
  by (auto simp: advance_range_def intro!: nth_equalityI)

lemma advance_range_step:
  assumes "c < e" "c < length ps"
  shows "advance_range t c e ps = advance_range t (Suc c) e (ps[c := advance_position t (ps ! c)])"
  using assms by (auto simp: advance_range_def nth_list_update intro!: nth_equalityI)

lemma length_advance_range [simp]: "length (advance_range t c e ps) = length ps"
  by (simp add: advance_range_def)

lemma ids_with_status_empty: "e \<le> c \<Longrightarrow> ids_with_status st c e ps = []"
  by (simp add: ids_with_status_def)

lemma ids_with_status_step:
  assumes "c < e"
  shows "ids_with_status st c e ps =
    (if pos_status (ps ! c) = st then [word_of_nat (Suc c)] else []) @
    ids_with_status st (Suc c) e (ps[c := p])"
proof -
  have "filter (\<lambda>k. pos_status (ps ! k) = st) [Suc c..<e] =
      filter (\<lambda>k. pos_status (ps[c := p] ! k) = st) [Suc c..<e]"
    by (rule filter_cong) auto
  with assms show ?thesis
    by (simp add: ids_with_status_def upt_conv_Cons)
qed

section \<open>The entry points without loops\<close>

lemmas queue_op_defs = queue_emit_now_def queue_emit_def require_admin_def get_config_internal_def
  load_position_def

lemma active_count_cancel:
  assumes "lookup_position ps i = Some p" and "pos_status p = Pending" and "pos_status p' = Cancelled"
  shows "active_count (set_position i p' ps) = active_count ps - 1"
  using active_count_set_position [OF assms(1), of p'] assms(2,3) by simp

lemma active_count_other:
  assumes "lookup_position ps i = Some p" and "pos_status p \<noteq> Cancelled" and "pos_status p' \<noteq> Cancelled"
  shows "active_count (set_position i p' ps) = active_count ps"
  using active_count_set_position [OF assms(1), of p'] assms(2,3) by simp

lemma queue_abs_bounds:
  assumes "queue_abs s q"
  shows "active_count (aq_positions q) < 2 ^ 32" and "aq_cursor q < 2 ^ 32"
    and "length (aq_positions q) < 2 ^ 32"
  using assms active_count_le [of "aq_positions q"] by (auto simp: queue_abs_def)

lemmas sim_simps = queue_op_defs machine_simps queue_event_def

lemma sim_propose_admin:
  assumes "env_ok s" and "queue_abs s q"
  shows "call_matches queue_abs s (aq_exec (env_auth s) (now s) (ProposeAdmin who new) q)
     (queue_exec (ProposeAdmin who new) s)"
  using assms
  by (auto simp: queue_propose_admin_def sim_simps queue_abs_def admin_only_def)

lemma sim_accept_admin:
  assumes "env_ok s" and "queue_abs s q"
  shows "call_matches queue_abs s (aq_exec (env_auth s) (now s) (AcceptAdmin new) q)
     (queue_exec (AcceptAdmin new) s)"
  using assms
  by (cases "aq_pending q") (auto simp: queue_accept_admin_def sim_simps queue_abs_def)

lemma sim_close_enrollment:
  assumes "env_ok s" and "queue_abs s q"
  shows "call_matches queue_abs s (aq_exec (env_auth s) (now s) (CloseEnrollment who) q)
     (queue_exec (CloseEnrollment who) s)"
  using assms
  by (auto simp: queue_close_enrollment_def sim_simps queue_abs_def admin_only_def set_status_def)

lemma sim_close:
  assumes "env_ok s" and "queue_abs s q"
  shows "call_matches queue_abs s (aq_exec (env_auth s) (now s) (CloseQueue who) q)
     (queue_exec (CloseQueue who) s)"
  using assms
  by (auto simp: queue_close_def sim_simps queue_abs_def admin_only_def set_status_def)

lemma sim_upgrade:
  assumes "env_ok s" and "queue_abs s q"
  shows "call_matches queue_abs s (aq_exec (env_auth s) (now s) (Upgrade who h) q)
     (queue_exec (Upgrade who h) s)"
  using assms by (auto simp: queue_upgrade_def sim_simps queue_abs_def)

lemma sim_migrate:
  assumes "env_ok s" and "queue_abs s q"
  shows "call_matches queue_abs s (aq_exec (env_auth s) (now s) (Migrate who from to) q)
     (queue_exec (Migrate who from to) s)"
  using assms by (auto simp: queue_migrate_def sim_simps queue_abs_def)

lemma sim_cancel:
  assumes "env_ok s" and "queue_abs s q"
  shows "call_matches queue_abs s (aq_exec (env_auth s) (now s) (CancelPosition who i) q)
     (queue_exec (CancelPosition who i) s)"
proof (cases "lookup_position (aq_positions q) i")
  case None
  then show ?thesis
    using assms by (auto simp: queue_cancel_position_def sim_simps queue_abs_def)
next
  case (Some p)
  let ?p = "p\<lparr>pos_status := Cancelled\<rparr>"
  have "saturating_sub (word_of_nat (active_count (aq_positions q)) :: u32) 1 =
      word_of_nat (active_count (set_position i ?p (aq_positions q)))" if "pos_status p = Pending"
    using active_count_cancel [OF Some that, of ?p]
      saturating_sub_u32_of_nat [OF queue_abs_bounds(1) [OF assms(2)]] by simp
  then show ?thesis
    using assms Some
    by (auto simp: queue_cancel_position_def sim_simps queue_abs_def lookup_set_position)
qed

lemma sim_enroll:
  assumes "env_ok s" and "queue_abs s q"
  shows "call_matches queue_abs s (aq_exec (env_auth s) (now s) (EnrollPosition who) q)
     (queue_exec (EnrollPosition who) s)"
proof -
  let ?n = "length (aq_positions q)" and ?k = "active_count (aq_positions q)"
  have full: "cfg_max_positions (aq_config q) \<le> word_of_nat ?k \<longleftrightarrow>
      unat (cfg_max_positions (aq_config q)) \<le> ?k"
    using queue_abs_bounds(1) [OF assms(2)] by (simp add: word_le_nat_alt)
  have next_id: "checked_add (word_of_nat (Suc ?n) :: u32) 1 =
      (if 2 ^ 32 \<le> ?n + 2 then None else Some (word_of_nat (Suc (Suc ?n))))"
    using assms(2) checked_add_u32_of_nat [of "Suc ?n"]
    by (auto simp: queue_abs_def checked_add_None_iff simp del: of_nat_Suc)
  have active: "checked_add (word_of_nat ?k :: u32) 1 = Some (word_of_nat (Suc ?k))"
    if "?n + 2 < 2 ^ 32"
    using that active_count_le [of "aq_positions q"] by (intro checked_add_u32_of_nat) simp
  show ?thesis
    using assms full next_id active
    by (auto simp: queue_enroll_position_def sim_simps queue_abs_def lookup_position_append Let_def
        active_count_def simp del: of_nat_Suc)
qed

section \<open>Expiring a batch\<close>

lemma positions_post_trans:
  assumes "positions_post s ps evs t" and "positions_post t ps' evs' u"
  shows "positions_post s ps' (evs @ evs') u"
  using assms by (auto simp: positions_post_def same_env_def)

lemma positions_post_refl:
  "env_ok s \<Longrightarrow> positions_abs s ps \<Longrightarrow> positions_post s ps [] s"
  by (simp add: positions_post_def same_env_def)

lemma expire_one_sim:
  assumes "env_ok s" and "positions_abs s ps"
  shows "case lookup_position ps i of
      None \<Rightarrow> expire_one who i s = Inl (Panic ''position not found'')
    | Some p \<Rightarrow>
        if pos_status p \<noteq> Pending
        then expire_one who i s = Inl (Panic ''only pending positions can be expired'')
        else \<exists>t. expire_one who i s = Inr ((), t) \<and>
          positions_post s (set_position i (p\<lparr>pos_status := Expired\<rparr>) ps)
            [queue_event ''Expired'' i who (now s)] t"
  using assms
  by (auto simp: expire_one_def sim_simps positions_abs_def positions_post_def lookup_set_position
      split: option.splits)

lemma expire_all_sim:
  assumes "env_ok s" and "positions_abs s ps"
  shows "case expire_all is ps of
      Inl e \<Rightarrow> for_each is (expire_one who) s = Inl e
    | Inr ps' \<Rightarrow> \<exists>t. for_each is (expire_one who) s = Inr ((), t) \<and>
        positions_post s ps' (map (\<lambda>i. queue_event ''Expired'' i who (now s)) is) t"
  using assms
proof (induction "is" arbitrary: s ps)
  case Nil
  then show ?case by (simp add: positions_post_refl)
next
  case (Cons i "is")
  note one = expire_one_sim [OF Cons.prems, where i = i and who = who]
  show ?case
  proof (cases "\<exists>p. lookup_position ps i = Some p \<and> pos_status p = Pending")
    case False
    then show ?thesis
      using one by (auto simp: then_op_eval split: option.splits)
  next
    case True
    then obtain p where p: "lookup_position ps i = Some p" "pos_status p = Pending" by blast
    let ?ps = "set_position i (p\<lparr>pos_status := Expired\<rparr>) ps"
    from one p obtain t where t: "expire_one who i s = Inr ((), t)"
      and post: "positions_post s ?ps [queue_event ''Expired'' i who (now s)] t"
      by auto
    then have "env_ok t" "positions_abs t ?ps" "now t = now s"
      by (auto simp: positions_post_def same_env_def now_def)
    with Cons.IH [of t ?ps] p t post show ?thesis
      by (auto simp: then_op_eval split: sum.splits dest: positions_post_trans)
  qed
qed

lemma expire_all_counts:
  assumes "expire_all is ps = Inr ps'"
  shows "length ps' = length ps \<and> active_count ps' = active_count ps"
  using assms
proof (induction "is" ps rule: expire_all.induct)
  case (2 i "is" ps)
  then show ?case
    by (auto simp: active_count_other split: option.splits if_splits)
qed simp

lemma queue_abs_positions:
  assumes "queue_abs s q" and "positions_post s ps evs t"
    and "length ps = length (aq_positions q)" and "active_count ps = active_count (aq_positions q)"
  shows "queue_abs t (q\<lparr>aq_positions := ps\<rparr>)"
  using assms by (auto simp: queue_abs_def positions_post_def positions_abs_def)

lemma queue_abs_positions_abs: "queue_abs s q \<Longrightarrow> positions_abs s (aq_positions q)"
  by (simp add: queue_abs_def positions_abs_def)

lemma queue_abs_bump_config [simp]:
  assumes "queue_abs s q"
  shows "queue_abs (bump k s) q"
  using assms by (simp add: queue_abs_def)

lemma sim_expire_batch:
  assumes "env_ok s" and "queue_abs s q"
  shows "call_matches queue_abs s (aq_exec (env_auth s) (now s) (ExpirePositionsBatch who is) q)
     (queue_exec (ExpirePositionsBatch who is) s)"
proof -
  let ?s = "bump config_key s"
  have cfg: "env_data s config_key = Some (QConfig (aq_config q))"
    using assms(2) by (simp add: queue_abs_def)
  have loop: "case expire_all is (aq_positions q) of
      Inl e \<Rightarrow> for_each is (expire_one who) ?s = Inl e
    | Inr ps' \<Rightarrow> \<exists>t. for_each is (expire_one who) ?s = Inr ((), t) \<and>
        positions_post ?s ps' (map (\<lambda>i. queue_event ''Expired'' i who (now s)) is) t"
    using expire_all_sim [of ?s "aq_positions q" "is" who] assms queue_abs_positions_abs
    unfolding bump_sel by simp
  show ?thesis
  proof (cases "expire_all is (aq_positions q)")
    case (Inl e)
    then show ?thesis
      using assms cfg loop
      by (auto simp: queue_expire_positions_batch_def aq_expire_def admin_only_def sim_simps)
  next
    case (Inr ps)
    with loop obtain t where t: "for_each is (expire_one who) ?s = Inr ((), t)"
      and post: "positions_post ?s ps (map (\<lambda>i. queue_event ''Expired'' i who (now s)) is) t"
      by auto
    have "queue_abs t (q\<lparr>aq_positions := ps\<rparr>)"
      using assms(2) expire_all_counts [OF Inr] by (intro queue_abs_positions [OF _ post]) simp_all
    then have "call_post queue_abs s (q\<lparr>aq_positions := ps\<rparr>)
        (map (\<lambda>i. queue_event ''Expired'' i who (now s)) is) t"
      using post by (simp add: call_post_def positions_post_def same_env_def)
    then show ?thesis
      using assms cfg t Inr
      by (auto simp: queue_expire_positions_batch_def aq_expire_def admin_only_def queue_op_defs
          op_eval auth_error_def)
  qed
qed

lemma sim_expire:
  assumes "env_ok s" and "queue_abs s q"
  shows "call_matches queue_abs s (aq_exec (env_auth s) (now s) (ExpirePosition who i) q)
     (queue_exec (ExpirePosition who i) s)"
proof -
  have "then_op (expire_one who i) (ret ()) s = expire_one who i s" for s
    by (auto simp: then_op_eval split: sum.splits)
  then have "queue_exec (ExpirePosition who i) s = queue_exec (ExpirePositionsBatch who [i]) s"
    by (simp add: queue_expire_position_def queue_expire_positions_batch_def bind_op_def then_op_def
        split: sum.splits)
  with sim_expire_batch [OF assms, of who "[i]"] show ?thesis by simp
qed

section \<open>Advancing\<close>

lemma lookup_position_next:
  assumes "c < length ps" and "Suc (length ps) < 2 ^ 32"
  shows "lookup_position ps (word_of_nat (Suc c)) = Some (ps ! c)"
  using assms unat_u32_of_nat [of "Suc c"] by (simp add: lookup_position_def del: of_nat_Suc)

lemma set_position_next:
  assumes "c < length ps" and "Suc (length ps) < 2 ^ 32"
  shows "set_position (word_of_nat (Suc c)) p ps = ps[c := p]"
  using assms unat_u32_of_nat [of "Suc c"] by (simp add: set_position_def del: of_nat_Suc)

lemma get_position_sim:
  assumes "env_ok s" and "positions_abs s ps" and "lookup_position ps i = Some p"
  shows "queue_get_position i s = Inr (Some p, bump (position_key i) s)"
  using assms lookup_position_Some(3) [OF assms(3)]
  by (auto simp: queue_get_position_def op_eval positions_abs_def)

text \<open>One iteration of the scan moves the cursor by one and treats that position.\<close>

lemma scan_step_sim:
  assumes "env_ok s" and "positions_abs s ps" and "c < length ps" and "Suc (length ps) < 2 ^ 32"
  shows "\<exists>t. positions_post s (ps[c := advance_position (now s) (ps ! c)])
        (map (\<lambda>i. queue_event ''Skipped'' i who (now s)) (ids_with_status Cancelled c (Suc c) ps)) t \<and>
      queue_advance_scan (Suc n) who (word_of_nat (length ps)) adv skp (word_of_nat c) s =
      queue_advance_scan n who (word_of_nat (length ps))
        (adv @ ids_with_status Pending c (Suc c) ps) (skp @ ids_with_status Cancelled c (Suc c) ps)
        (word_of_nat (Suc c)) t"
proof -
  let ?i = "word_of_nat (Suc c) :: u32" and ?p = "ps ! c"
  have le: "\<not> (word_of_nat (length ps) :: u32) \<le> word_of_nat c"
    using assms(3,4) by (simp add: u32_of_nat_le_iff)
  have next_i: "checked_add (word_of_nat c :: u32) 1 = Some ?i"
    using assms(3,4) by (intro checked_add_u32_of_nat) simp
  have look: "lookup_position ps ?i = Some ?p"
    using assms(3,4) by (rule lookup_position_next)
  note get = get_position_sim [OF assms(1,2) look]
  have set_next: "ps[c := p] = set_position ?i p ps" for p
    using set_position_next [OF assms(3,4)] by simp
  have same: "ps[c := ps ! c] = ps" by simp
  let ?put = "bump (position_key ?i) (put_data (position_key ?i)
      (QPosition (advance_position (now s) ?p)) (bump (position_key ?i) s))"
  show ?thesis
  proof (cases "pos_status ?p = Pending")
    case True
    then have "positions_post s (ps[c := advance_position (now s) ?p]) [] ?put"
      using assms(1,2) unfolding set_next
      by (auto simp: positions_post_def positions_abs_def same_env_def lookup_set_position [OF look]
          simp del: of_nat_Suc)
    with True show ?thesis
      using assms(1) le next_i get
      by (intro exI [of _ ?put])
        (simp add: op_eval ids_with_status_def advance_position_def del: of_nat_Suc)
  next
    case False
    let ?t = "if pos_status ?p = Cancelled
        then add_event (queue_topics ''Skipped'' ?i) (queue_payload who (now s))
          (bump (position_key ?i) s)
        else bump (position_key ?i) s"
    have "positions_post s (ps[c := advance_position (now s) ?p])
        (map (\<lambda>i. queue_event ''Skipped'' i who (now s)) (ids_with_status Cancelled c (Suc c) ps)) ?t"
      using assms(1,2) False
      by (auto simp: positions_post_def positions_abs_def same_env_def advance_position_def
          ids_with_status_def queue_event_def)
    with False show ?thesis
      using assms(1) le next_i get
      by (intro exI [of _ ?t])
        (auto simp: op_eval ids_with_status_def queue_emit_now_def queue_emit_def simp del: of_nat_Suc)
  qed
qed

lemma ids_with_status_append:
  assumes "c \<le> m" and "m \<le> e"
  shows "ids_with_status st c e ps = ids_with_status st c m ps @ ids_with_status st m e ps"
  using assms upt_add_eq_append [of c m "e - m"] by (simp add: ids_with_status_def)

lemma ids_with_status_update:
  assumes "c < m"
  shows "ids_with_status st m e (ps[c := p]) = ids_with_status st m e ps"
proof -
  have "filter (\<lambda>k. pos_status (ps[c := p] ! k) = st) [m..<e] =
      filter (\<lambda>k. pos_status (ps ! k) = st) [m..<e]"
    using assms by (intro filter_cong) auto
  then show ?thesis by (simp add: ids_with_status_def)
qed

lemma scan_sim:
  assumes "env_ok s" and "positions_abs s ps" and "c \<le> length ps" and "Suc (length ps) < 2 ^ 32"
    and "e = min (c + n) (length ps)"
  shows "\<exists>t. queue_advance_scan n who (word_of_nat (length ps)) adv skp (word_of_nat c) s =
      Inr ((adv @ ids_with_status Pending c e ps, skp @ ids_with_status Cancelled c e ps,
            word_of_nat e), t) \<and>
    positions_post s (advance_range (now s) c e ps)
      (map (\<lambda>i. queue_event ''Skipped'' i who (now s)) (ids_with_status Cancelled c e ps)) t"
  using assms
proof (induction n arbitrary: s ps c adv skp)
  case 0
  then have "e = c" by simp
  with 0 show ?case
    by (simp add: ids_with_status_empty advance_range_empty positions_post_refl)
next
  case (Suc n)
  show ?case
  proof (cases "c < length ps")
    case False
    with Suc.prems have "c = length ps" "e = c" by simp_all
    with Suc.prems show ?thesis
      by (simp add: ids_with_status_empty advance_range_empty positions_post_refl)
  next
    case True
    let ?ps = "ps[c := advance_position (now s) (ps ! c)]"
    let ?ev = "\<lambda>i. queue_event ''Skipped'' i who (now s)"
    obtain t where post: "positions_post s ?ps (map ?ev (ids_with_status Cancelled c (Suc c) ps)) t"
      and step: "queue_advance_scan (Suc n) who (word_of_nat (length ps)) adv skp (word_of_nat c) s =
        queue_advance_scan n who (word_of_nat (length ps))
        (adv @ ids_with_status Pending c (Suc c) ps) (skp @ ids_with_status Cancelled c (Suc c) ps)
        (word_of_nat (Suc c)) t"
      using scan_step_sim [OF Suc.prems(1,2) True Suc.prems(4)] by blast
    have t: "env_ok t" "positions_abs t ?ps" "now t = now s"
      using post by (auto simp: positions_post_def same_env_def now_def)
    have e: "e = min (Suc c + n) (length ?ps)" "Suc c \<le> e" "c < e"
      using Suc.prems(5) True by auto
    have parts: "ids_with_status st c e ps =
        ids_with_status st c (Suc c) ps @ ids_with_status st (Suc c) e ?ps" for st
      using e(2) ids_with_status_append [of c "Suc c" e st ps] by (simp add: ids_with_status_update)
    obtain u where u: "queue_advance_scan n who (word_of_nat (length ?ps))
          (adv @ ids_with_status Pending c (Suc c) ps)
          (skp @ ids_with_status Cancelled c (Suc c) ps) (word_of_nat (Suc c)) t =
        Inr (((adv @ ids_with_status Pending c (Suc c) ps) @ ids_with_status Pending (Suc c) e ?ps,
              (skp @ ids_with_status Cancelled c (Suc c) ps) @ ids_with_status Cancelled (Suc c) e ?ps,
              word_of_nat e), u)"
      and post': "positions_post t (advance_range (now t) (Suc c) e ?ps)
        (map (\<lambda>i. queue_event ''Skipped'' i who (now t))
           (ids_with_status Cancelled (Suc c) e ?ps)) u"
      using Suc.IH [OF t(1,2) _ _ e(1)] True Suc.prems(4) by fastforce
    have "positions_post s (advance_range (now s) c e ps)
        (map ?ev (ids_with_status Cancelled c e ps)) u"
      using positions_post_trans [OF post post'] advance_range_step [OF e(3) True, of "now s"]
      by (simp add: t(3) parts)
    with u step show ?thesis
      by (simp add: parts del: of_nat_Suc)
  qed
qed

lemma emit_all_eval:
  "for_each is (\<lambda>i. queue_emit_now kind i who) s =
     Inr ((), add_events (map (\<lambda>i. queue_event kind i who (now s)) is) s)"
proof (induction "is" arbitrary: s)
  case Nil
  then show ?case by (simp add: add_events_def)
next
  case (Cons i "is")
  then show ?case
    by (simp add: then_op_eval queue_emit_now_def queue_emit_def bind_op_eval publish_eval
        add_event_def add_events_def queue_event_def now_def)
qed

lemma active_count_advance_range [simp]: "active_count (advance_range t c e ps) = active_count ps"
proof -
  have "map (\<lambda>p. pos_status p \<noteq> Cancelled) (advance_range t c e ps) =
      map (\<lambda>p. pos_status p \<noteq> Cancelled) ps"
    by (auto simp: advance_range_def advance_position_def intro!: nth_equalityI split: if_splits)
  then have "length (filter (\<lambda>b. b) (map (\<lambda>p. pos_status p \<noteq> Cancelled) (advance_range t c e ps))) =
      length (filter (\<lambda>b. b) (map (\<lambda>p. pos_status p \<noteq> Cancelled) ps))"
    by simp
  then show ?thesis by (simp add: active_count_def filter_map comp_def)
qed

text \<open>The writes after the scan: the cursor, the status, the events.\<close>

lemma queue_abs_cursor:
  assumes "queue_abs t q" and "c \<le> length (aq_positions q)"
  shows "queue_abs (bump idx_key (put_data idx_key (QU32 (word_of_nat c)) t)) (q\<lparr>aq_cursor := c\<rparr>)"
  using assms by (simp add: queue_abs_def)

lemma queue_abs_status:
  assumes "queue_abs t q" and "aq_config q = config"
  shows "queue_abs (bump config_key (put_data config_key (QConfig (config\<lparr>cfg_status := st\<rparr>)) t))
    (set_status st q)"
  using assms by (simp add: queue_abs_def set_status_def)

lemma queue_abs_events: "queue_abs t q \<Longrightarrow> queue_abs (add_events evs t) q"
  by (simp add: queue_abs_def)

lemma set_status_same: "cfg_status (aq_config q) = st \<Longrightarrow> set_status st q = q"
  by (simp add: set_status_def)

lemma queue_advance_tail:
  assumes "env_ok t" and "queue_abs t q" and "c \<le> length (aq_positions q)"
    and "aq_config q = config" and "cfg_status config \<in> {EnrollmentClosed, AdvancementActive}"
  shows "\<exists>u. then_op (set_and_extend idx_key (QU32 (word_of_nat c)))
          (then_op (if advanced \<noteq> [] \<and> cfg_status config = EnrollmentClosed
                    then set_and_extend config_key
                           (QConfig (config\<lparr>cfg_status := AdvancementActive\<rparr>))
                    else ret ())
          (then_op (for_each advanced (\<lambda>id. queue_emit_now ''Advanced'' id who))
          (ret advanced))) t = Inr (advanced, u) \<and>
    call_post queue_abs t (if advanced \<noteq> [] then set_status AdvancementActive (q\<lparr>aq_cursor := c\<rparr>)
                  else q\<lparr>aq_cursor := c\<rparr>)
      (map (\<lambda>i. queue_event ''Advanced'' i who (now t)) advanced) u"
proof -
  let ?t = "bump idx_key (put_data idx_key (QU32 (word_of_nat c)) t)"
  let ?q = "q\<lparr>aq_cursor := c\<rparr>"
  let ?evs = "map (\<lambda>i. queue_event ''Advanced'' i who (now t)) advanced"
  note abs = queue_abs_cursor [OF assms(2,3)]
  show ?thesis
  proof (cases "advanced \<noteq> [] \<and> cfg_status config = EnrollmentClosed")
    case True
    let ?u = "bump config_key (put_data config_key
      (QConfig (config\<lparr>cfg_status := AdvancementActive\<rparr>)) ?t)"
    have "call_post queue_abs t (set_status AdvancementActive ?q) ?evs (add_events ?evs ?u)"
      using assms(1,4) queue_abs_events [OF queue_abs_status [OF abs]]
      by (simp add: call_post_def same_env_def)
    with True assms(1) show ?thesis
      by (intro exI [of _ "add_events ?evs ?u"]) (simp add: op_eval emit_all_eval)
  next
    case False
    then have "(if advanced \<noteq> [] then set_status AdvancementActive ?q else ?q) = ?q"
      using assms(4,5) by (auto simp: set_status_same)
    moreover have "call_post queue_abs t ?q ?evs (add_events ?evs ?t)"
      using assms(1) queue_abs_events [OF abs] by (simp add: call_post_def same_env_def)
    ultimately show ?thesis
      using False assms(1)
      by (intro exI [of _ "add_events ?evs ?t"]) (auto simp: op_eval emit_all_eval)
  qed
qed

lemma sim_advance_fifo:
  assumes "env_ok s" and "queue_abs s q" and "n \<noteq> 0"
    and "cfg_admin (aq_config q) = who" and "env_auth s who"
    and "cfg_status (aq_config q) \<in> {EnrollmentClosed, AdvancementActive}"
    and "cfg_advancement_rule (aq_config q) = Fifo"
  shows "call_matches queue_abs s (aq_advance (now s) who n q) (queue_exec (Advance who n) s)"
proof -
  let ?s = "bump config_key s" and ?ps = "aq_positions q" and ?c = "aq_cursor q"
  let ?e = "advance_end q n"
  let ?adv = "ids_with_status Pending ?c ?e ?ps" and ?skp = "ids_with_status Cancelled ?c ?e ?ps"
  let ?q = "q\<lparr>aq_positions := advance_range (now s) ?c ?e ?ps\<rparr>"
  have cfg: "env_data s config_key = Some (QConfig (aq_config q))"
    and idx: "env_data s idx_key = Some (QU32 (word_of_nat ?c))" "?c \<le> length ?ps"
    and nxt: "env_data s next_id_key = Some (QU32 (word_of_nat (Suc (length ?ps))))"
    and bound: "Suc (length ?ps) < 2 ^ 32"
    using assms(2) by (auto simp: queue_abs_def)
  have total: "saturating_sub (word_of_nat (Suc (length ?ps)) :: u32) 1 = word_of_nat (length ?ps)"
    using saturating_sub_u32_of_nat [OF bound] by simp
  obtain t where scan: "queue_advance_scan (unat n) who (word_of_nat (length ?ps)) [] []
        (word_of_nat ?c) ?s = Inr ((?adv, ?skp, word_of_nat ?e), t)"
    and post: "positions_post ?s (advance_range (now s) ?c ?e ?ps)
      (map (\<lambda>i. queue_event ''Skipped'' i who (now s)) ?skp) t"
    using scan_sim [of ?s ?ps ?c ?e "unat n" who "[]" "[]"] assms(1,2) idx(2) bound
    by (auto simp: queue_abs_positions_abs advance_end_def)
  have abs: "queue_abs t ?q"
    using assms(2) by (intro queue_abs_positions [OF _ post]) simp_all
  have t: "env_ok t" "now t = now s"
    using post by (auto simp: positions_post_def same_env_def now_def)
  have e: "?e \<le> length (aq_positions ?q)" by (simp add: advance_end_def)
  show ?thesis
    using queue_advance_tail [OF t(1) abs e refl, of ?adv who] assms cfg idx nxt scan post t(2)
    by (auto simp: queue_advance_def aq_advance_def queue_op_defs op_eval total Let_def
        call_post_def positions_post_def same_env_def call_matches_def
        simp del: of_nat_Suc)
qed

lemma sim_advance:
  assumes "env_ok s" and "queue_abs s q"
  shows "call_matches queue_abs s (aq_exec (env_auth s) (now s) (Advance who n) q)
     (queue_exec (Advance who n) s)"
proof (cases "n \<noteq> 0 \<and> cfg_admin (aq_config q) = who \<and> env_auth s who \<and>
    cfg_status (aq_config q) \<in> {EnrollmentClosed, AdvancementActive} \<and>
    cfg_advancement_rule (aq_config q) = Fifo")
  case True
  then show ?thesis
    using sim_advance_fifo [OF assms, of n who] by (auto simp: admin_only_def)
next
  case False
  then show ?thesis
    using assms
    by (auto simp: queue_advance_def queue_op_defs op_eval admin_only_def auth_error_def queue_abs_def
        split: advancement_rule.splits)
qed

section \<open>Every call\<close>

lemma sim_open_enrollment:
  assumes "env_ok s" and "queue_abs s q"
  shows "call_matches queue_abs s (aq_exec (env_auth s) (now s) (OpenEnrollment who) q)
     (queue_exec (OpenEnrollment who) s)"
  using assms
  by (auto simp: queue_open_enrollment_def sim_simps queue_abs_def admin_only_def set_status_def)

lemma queue_simulation:
  assumes "env_ok s" and "queue_abs s q"
  shows "call_matches queue_abs s (aq_exec (env_auth s) (now s) c q) (queue_exec c s)"
  using assms
  by (cases c) (simp_all only: sim_propose_admin sim_accept_admin sim_open_enrollment
      sim_close_enrollment sim_enroll sim_cancel sim_advance sim_expire sim_expire_batch sim_close
      sim_upgrade sim_migrate)

lemma queue_initialize_abs:
  assumes "env_ok s" and "env_auth s admin" and "cfg_admin config = admin"
    and "\<forall>i. env_data s (position_key i) = None" and "env_data s pending_key = None"
  shows "\<exists>t. queue_initialize admin config s = Inr ((), t) \<and>
    call_post queue_abs s (aq_init config) [queue_event ''Initialized'' 0 admin 0] t"
  using assms
  by (auto simp: queue_initialize_def sim_simps queue_abs_def aq_init_def lookup_position_def
      active_count_def)

end
