(* ===== verification/Queue_Inv.thy ===== *)
theory Queue_Inv
  imports Queue_Refine
begin

text \<open>
  The invariant of the queue and the order in which its history moves, for the abstract
  queue first and, through the interpretation of \<open>verified_contract\<close>, for every run of the
  contract.
\<close>

section \<open>Definitions\<close>

fun status_rank :: "queue_status \<Rightarrow> nat" where
  "status_rank Draft = 0"
| "status_rank EnrollmentOpen = 1"
| "status_rank EnrollmentClosed = 2"
| "status_rank AdvancementActive = 3"
| "status_rank Closed = 4"

text \<open>
  \<open>aq_inv\<close>: positions are numbered in order of enrolment; behind the cursor nobody is
  pending, from the cursor on nobody has been advanced; an advancement time is recorded
  exactly for the advanced; there are no more active positions than the capacity allows; no
  position leaves the pending state other than by cancellation before enrolment has closed.
\<close>

definition position_ok :: "nat \<Rightarrow> nat \<Rightarrow> position \<Rightarrow> bool" where
  "position_ok cursor k p \<longleftrightarrow>
     pos_id p = word_of_nat (Suc k) \<and>
     (k < cursor \<longrightarrow> pos_status p \<noteq> Pending) \<and>
     (cursor \<le> k \<longrightarrow> pos_status p \<noteq> Advanced) \<and>
     (pos_advanced_at p \<noteq> None \<longleftrightarrow> pos_status p = Advanced)"

definition aq_inv :: "aqueue \<Rightarrow> bool" where
  "aq_inv q \<longleftrightarrow>
     (\<forall>k < length (aq_positions q). position_ok (aq_cursor q) k (aq_positions q ! k)) \<and>
     aq_cursor q \<le> length (aq_positions q) \<and>
     Suc (length (aq_positions q)) < 2 ^ 32 \<and>
     active_count (aq_positions q) \<le> unat (cfg_max_positions (aq_config q)) \<and>
     (status_rank (cfg_status (aq_config q)) \<le> 1 \<longrightarrow>
        aq_cursor q = 0 \<and> (\<forall>p \<in> set (aq_positions q). pos_status p \<in> {Pending, Cancelled}))"

text \<open>A position keeps who it belongs to, and once settled it never changes again.\<close>

definition position_le :: "position \<Rightarrow> position \<Rightarrow> bool" where
  "position_le p p' \<longleftrightarrow>
     pos_id p' = pos_id p \<and> pos_identity p' = pos_identity p \<and>
     pos_enrolled_at p' = pos_enrolled_at p \<and> (pos_status p \<noteq> Pending \<longrightarrow> p' = p)"

definition positions_le :: "position list \<Rightarrow> position list \<Rightarrow> bool" where
  "positions_le ps ps' \<longleftrightarrow>
     length ps \<le> length ps' \<and> (\<forall>k < length ps. position_le (ps ! k) (ps' ! k))"

definition config_le :: "queue_config \<Rightarrow> queue_config \<Rightarrow> bool" where
  "config_le c c' \<longleftrightarrow>
     status_rank (cfg_status c) \<le> status_rank (cfg_status c') \<and>
     cfg_slug c' = cfg_slug c \<and> cfg_max_positions c' = cfg_max_positions c \<and>
     cfg_advancement_rule c' = cfg_advancement_rule c"

definition aq_le :: "aqueue \<Rightarrow> aqueue \<Rightarrow> bool" where
  "aq_le q q' \<longleftrightarrow>
     config_le (aq_config q) (aq_config q') \<and>
     positions_le (aq_positions q) (aq_positions q') \<and>
     aq_cursor q \<le> aq_cursor q' \<and> aq_version q \<le> aq_version q' \<and>
     (2 \<le> status_rank (cfg_status (aq_config q)) \<longrightarrow>
        length (aq_positions q') = length (aq_positions q))"

section \<open>Positions\<close>

lemma position_le_refl [simp]: "position_le p p"
  by (simp add: position_le_def)

lemma position_le_trans: "position_le p q \<Longrightarrow> position_le q r \<Longrightarrow> position_le p r"
  by (auto simp: position_le_def)

lemma positions_le_refl [simp]: "positions_le ps ps"
  by (simp add: positions_le_def)

lemma positions_le_trans: "positions_le ps qs \<Longrightarrow> positions_le qs rs \<Longrightarrow> positions_le ps rs"
  by (auto simp: positions_le_def intro: position_le_trans)

lemma positions_le_append [simp]: "positions_le ps (ps @ qs)"
  by (simp add: positions_le_def nth_append)

lemma positions_le_advance [simp]: "positions_le ps (advance_range t c e ps)"
  by (auto simp: positions_le_def advance_range_def advance_position_def position_le_def)

lemma set_position_nth:
  assumes "lookup_position ps i = Some p" and "k < length ps"
  shows "set_position i p' ps ! k = (if k = unat i - 1 then p' else ps ! k)"
  using assms by (simp add: set_position_def nth_list_update)

lemma positions_le_set:
  assumes "lookup_position ps i = Some p" and "pos_status p = Pending"
  shows "positions_le ps (set_position i (p\<lparr>pos_status := st\<rparr>) ps)"
  using assms lookup_position_Some(2) [OF assms(1)]
  by (auto simp: positions_le_def set_position_nth position_le_def)

lemma positions_le_expire:
  assumes "expire_all is ps = Inr ps'"
  shows "positions_le ps ps'"
  using assms
  by (induction "is" ps rule: expire_all.induct)
    (auto split: option.splits if_splits intro: positions_le_trans positions_le_set)

lemma positions_ok_set:
  assumes "lookup_position ps i = Some p" and "pos_status p = Pending"
    and "\<forall>k < length ps. position_ok c k (ps ! k)" and "st \<in> {Cancelled, Expired}"
  shows "\<forall>k < length ps. position_ok c k (set_position i (p\<lparr>pos_status := st\<rparr>) ps ! k)"
proof -
  have "position_ok c (unat i - 1) p"
    using assms(3) lookup_position_Some(1,2) [OF assms(1)] by auto
  then have "position_ok c (unat i - 1) (p\<lparr>pos_status := st\<rparr>)"
    using assms(2,4) by (auto simp: position_ok_def)
  then show ?thesis
    using assms(1,3) by (simp add: set_position_nth)
qed

lemma positions_ok_expire:
  assumes "expire_all is ps = Inr ps'" and "\<forall>k < length ps. position_ok c k (ps ! k)"
  shows "\<forall>k < length ps. position_ok c k (ps' ! k)"
  using assms
proof (induction "is" ps rule: expire_all.induct)
  case (2 i "is" ps)
  then obtain p where p: "lookup_position ps i = Some p" "pos_status p = Pending"
    by (auto split: option.splits if_splits)
  from positions_ok_set [OF this 2(3), of Expired] 2 p show ?case
    by simp
qed simp

lemma positions_ok_advance:
  assumes "\<forall>k < length ps. position_ok c k (ps ! k)" and "c \<le> e" and "k < length ps"
  shows "position_ok e k (advance_range t c e ps ! k)"
  using assms by (auto simp: position_ok_def advance_range_def advance_position_def)

lemma set_position_pending_cancelled:
  assumes "lookup_position ps i = Some p" and "\<forall>p \<in> set ps. pos_status p \<in> {Pending, Cancelled}"
  shows "\<forall>p' \<in> set (set_position i (p\<lparr>pos_status := Cancelled\<rparr>) ps).
    pos_status p' \<in> {Pending, Cancelled}"
  using assms set_update_subset_insert [of ps "unat i - 1" "p\<lparr>pos_status := Cancelled\<rparr>"]
  unfolding set_position_def by fastforce

section \<open>Every transition keeps the invariant and moves forward\<close>

lemma advance_end_ge: "aq_cursor q \<le> length (aq_positions q) \<Longrightarrow> aq_cursor q \<le> advance_end q n"
  by (simp add: advance_end_def)

lemma aq_advance_inv:
  assumes "aq_inv q" and "2 \<le> status_rank (cfg_status (aq_config q))"
    and "aq_advance t who n q = Inr (r, q', evs)"
  shows "aq_inv q'"
proof -
  have "aq_cursor q \<le> advance_end q n" "advance_end q n \<le> length (aq_positions q)"
    using assms(1) by (auto simp: aq_inv_def advance_end_def)
  then show ?thesis
    using assms positions_ok_advance [of "aq_positions q" "aq_cursor q" "advance_end q n"]
    by (auto simp: aq_inv_def aq_advance_def Let_def set_status_def split: if_splits)
qed

lemma aq_advance_le:
  assumes "aq_inv q" and "cfg_status (aq_config q) \<in> {EnrollmentClosed, AdvancementActive}"
    and "aq_advance t who n q = Inr (r, q', evs)"
  shows "aq_le q q'"
  using assms advance_end_ge [of q n]
  by (auto simp: aq_le_def aq_inv_def aq_advance_def Let_def set_status_def config_le_def)

lemma aq_expire_inv:
  assumes "aq_inv q" and "aq_expire auth t who is q = Inr (r, q', evs)"
  shows "aq_inv q'"
  using assms expire_all_counts [of "is" "aq_positions q"]
    positions_ok_expire [of "is" "aq_positions q" _ "aq_cursor q"]
  by (auto simp: aq_expire_def admin_only_def aq_inv_def split: if_splits sum.splits)

lemma aq_expire_le:
  assumes "aq_expire auth t who is q = Inr (r, q', evs)"
  shows "aq_le q q'"
  using assms expire_all_counts [of "is" "aq_positions q"]
    positions_le_expire [of "is" "aq_positions q"]
  by (auto simp: aq_expire_def admin_only_def aq_le_def config_le_def split: if_splits sum.splits)

lemma aq_enroll_inv:
  assumes "aq_inv q" and "aq_exec auth t (EnrollPosition who) q = Inr (r, q', evs)"
  shows "aq_inv q'"
  using assms
  by (auto simp: aq_inv_def Let_def active_count_def position_ok_def nth_append less_Suc_eq
      split: if_splits)

lemma aq_cancel_inv:
  assumes "aq_inv q" and "aq_exec auth t (CancelPosition who i) q = Inr (r, q', evs)"
  shows "aq_inv q'"
proof -
  from assms(2) obtain p where p: "lookup_position (aq_positions q) i = Some p"
    "pos_status p = Pending"
    and q': "q' = q\<lparr>aq_positions :=
      set_position i (p\<lparr>pos_status := Cancelled\<rparr>) (aq_positions q)\<rparr>"
    by (auto split: if_splits option.splits)
  have "active_count (aq_positions q') \<le> active_count (aq_positions q)"
    using active_count_cancel [OF p, of "p\<lparr>pos_status := Cancelled\<rparr>"] q' by simp
  then show ?thesis
    using assms(1) positions_ok_set [OF p, of "aq_cursor q" Cancelled]
      set_position_pending_cancelled [OF p(1)]
    by (auto simp: aq_inv_def q')
qed

lemma aq_exec_inv:
  assumes "aq_inv q" and "aq_exec auth t c q = Inr (r, q', evs)"
  shows "aq_inv q'"
proof (cases c)
  case (EnrollPosition who)
  with assms show ?thesis by (blast intro: aq_enroll_inv)
next
  case (CancelPosition who i)
  with assms show ?thesis by (blast intro: aq_cancel_inv)
next
  case (Advance who n)
  with assms have "aq_advance t who n q = Inr (r, q', evs)"
    "2 \<le> status_rank (cfg_status (aq_config q))"
    by (auto simp: admin_only_def split: if_splits advancement_rule.splits)
  with assms(1) show ?thesis by (blast intro: aq_advance_inv)
next
  case (ExpirePosition who i)
  with assms aq_expire_inv [OF assms(1), of auth t who "[i]" r q' evs] show ?thesis by simp
next
  case (ExpirePositionsBatch who "is")
  with assms aq_expire_inv [OF assms(1), of auth t who "is" r q' evs] show ?thesis by simp
qed (use assms in \<open>auto simp: aq_inv_def admin_only_def set_status_def split: if_splits\<close>)

lemma aq_exec_le:
  assumes "aq_inv q" and "aq_exec auth t c q = Inr (r, q', evs)"
  shows "aq_le q q'"
proof (cases c)
  case (CancelPosition who i)
  with assms(2) show ?thesis
    by (auto simp: aq_le_def config_le_def positions_le_set split: if_splits option.splits)
next
  case (EnrollPosition who)
  with assms(2) show ?thesis
    by (auto simp: aq_le_def config_le_def Let_def split: if_splits)
next
  case (Advance who n)
  with assms have "aq_advance t who n q = Inr (r, q', evs)"
    "cfg_status (aq_config q) \<in> {EnrollmentClosed, AdvancementActive}"
    by (auto simp: admin_only_def split: if_splits advancement_rule.splits)
  with assms(1) show ?thesis by (blast intro: aq_advance_le)
next
  case (ExpirePosition who i)
  with assms aq_expire_le [of auth t who "[i]" q r q' evs] show ?thesis by simp
next
  case (ExpirePositionsBatch who "is")
  with assms aq_expire_le [of auth t who "is" q r q' evs] show ?thesis by simp
next
  case (CloseQueue who)
  with assms(2) show ?thesis
    by (cases "cfg_status (aq_config q)")
      (auto simp: aq_le_def config_le_def admin_only_def set_status_def split: if_splits)
qed (use assms(2) in \<open>auto simp: aq_le_def config_le_def admin_only_def set_status_def
      split: if_splits\<close>)

lemma aq_le_refl: "aq_le q q"
  by (simp add: aq_le_def config_le_def)

lemma aq_le_trans: "aq_le q q' \<Longrightarrow> aq_le q' q'' \<Longrightarrow> aq_le q q''"
  by (auto simp: aq_le_def config_le_def intro: positions_le_trans)

lemma aq_inv_init: "aq_inv (aq_init config)"
  by (simp add: aq_inv_def aq_init_def active_count_def)

section \<open>The contract\<close>

interpretation queue: verified_contract queue_exec queue_abs aq_exec aq_inv aq_le
proof unfold_locales
  show "call_matches queue_abs s (aq_exec (env_auth s) (now s) c q) (queue_exec c s)"
    if "env_ok s" "queue_abs s q" for s q c
    using that by (rule queue_simulation)
  show "queue_abs t q" if "queue_abs s q" "env_data t = env_data s" for s t q
    using that by (simp add: queue_abs_def)
qed (auto intro: aq_exec_inv aq_exec_le aq_le_refl aq_le_trans)

end
