(* ===== verification/Queue_Props.thy ===== *)
theory Queue_Props
  imports Queue_Inv
begin

text \<open>
  The properties of the queue contract, about its storage and its entry points. Each is a
  consequence of the simulation and of the invariant and history of \<open>Queue_Inv\<close>; each
  witness runs the contract on a stored queue (\<open>queue_stored\<close>).
\<close>

section \<open>Definitions\<close>

text \<open>Who must have signed a call, and which calls are the administrator's.\<close>

fun queue_caller :: "queue_call \<Rightarrow> address" where
  "queue_caller (ProposeAdmin a _) = a"
| "queue_caller (AcceptAdmin a) = a"
| "queue_caller (OpenEnrollment a) = a"
| "queue_caller (CloseEnrollment a) = a"
| "queue_caller (EnrollPosition a) = a"
| "queue_caller (CancelPosition a _) = a"
| "queue_caller (Advance a _) = a"
| "queue_caller (ExpirePosition a _) = a"
| "queue_caller (ExpirePositionsBatch a _) = a"
| "queue_caller (CloseQueue a) = a"
| "queue_caller (Upgrade a _) = a"
| "queue_caller (Migrate a _ _) = a"

fun queue_admin_call :: "queue_call \<Rightarrow> bool" where
  "queue_admin_call (AcceptAdmin _) = False"
| "queue_admin_call (EnrollPosition _) = False"
| "queue_admin_call (CancelPosition _ _) = False"
| "queue_admin_call _ = True"

text \<open>The storage that represents an abstract queue.\<close>

definition queue_entries :: "aqueue \<Rightarrow> sc_val \<Rightarrow> queue_val option" where
  "queue_entries q k =
     (if k = config_key then Some (QConfig (aq_config q))
      else if k = next_id_key then Some (QU32 (word_of_nat (Suc (length (aq_positions q)))))
      else if k = active_key then Some (QU32 (word_of_nat (active_count (aq_positions q))))
      else if k = idx_key then Some (QU32 (word_of_nat (aq_cursor q)))
      else if k = VERSION_KEY then Some (QU32 (aq_version q))
      else if k = pending_key then map_option QAddress (aq_pending q)
      else (case k of
              VecV [SymbolV tag, U32V i] \<Rightarrow>
                if tag = ''pos'' then map_option QPosition (lookup_position (aq_positions q) i)
                else None
            | _ \<Rightarrow> None))"

definition queue_stored :: "(address \<Rightarrow> bool) \<Rightarrow> aqueue \<Rightarrow> queue_val env" where
  "queue_stored auth q = stored auth (queue_entries q)"

text \<open>\<open>k\<close> rounds of \<open>advance\<close> with the same batch size.\<close>

definition advance_rounds :: "nat \<Rightarrow> address \<Rightarrow> u32 \<Rightarrow> (queue_val, unit) action" where
  "advance_rounds k admin n =
     for_each (replicate k n) (\<lambda>n. then_op (queue_advance admin n) (ret ()))"

text \<open>A queue of three: one already advanced, one cancelled, one waiting.\<close>

definition demo_config :: "queue_status \<Rightarrow> queue_config" where
  "demo_config st = \<lparr>cfg_slug = ''sale'', cfg_name = ''sale'', cfg_admin = AccountAddr 7,
     cfg_max_positions = 10, cfg_enrollment_open = 0, cfg_enrollment_close = 0,
     cfg_status = st, cfg_version = 1, cfg_advancement_rule = Fifo\<rparr>"

definition demo_position :: "u32 \<Rightarrow> hash \<Rightarrow> position_status \<Rightarrow> position" where
  "demo_position i who st = \<lparr>pos_id = i, pos_enrolled_at = 900, pos_identity = AccountAddr who,
     pos_status = st, pos_advanced_at = (if st = Advanced then Some 950 else None),
     pos_priority_weight = None\<rparr>"

definition demo_queue :: "queue_status \<Rightarrow> aqueue" where
  "demo_queue st = \<lparr>aq_config = demo_config st,
     aq_positions = (if status_rank st \<le> 1
       then [demo_position 1 11 Pending, demo_position 2 12 Cancelled, demo_position 3 13 Pending]
       else [demo_position 1 11 Advanced, demo_position 2 12 Cancelled, demo_position 3 13 Pending]),
     aq_cursor = (if status_rank st \<le> 1 then 0 else 1),
     aq_pending = None, aq_version = 1\<rparr>"


text \<open>The pending positions of one identity.\<close>

definition pending_of :: "address \<Rightarrow> position list \<Rightarrow> nat" where
  "pending_of who ps = length (filter (\<lambda>p. pos_identity p = who \<and> pos_status p = Pending) ps)"

section \<open>Shared lemmas\<close>

lemma queue_stored_sel [simp]:
  "env_ok (queue_stored auth q)"
  "env_auth (queue_stored auth q) = auth"
  "now (queue_stored auth q) = 1000"
  "env_events (queue_stored auth q) = []"
  by (simp_all add: queue_stored_def)

lemma queue_abs_stored:
  assumes "Suc (length (aq_positions q)) < 2 ^ 32" and "aq_cursor q \<le> length (aq_positions q)"
  shows "queue_abs (queue_stored auth q) q"
  using assms by (simp add: queue_abs_def queue_stored_def queue_entries_def)
    (simp add: position_key_def)

lemma demo_queue_abs [simp]: "queue_abs (queue_stored auth (demo_queue st)) (demo_queue st)"
  by (rule queue_abs_stored) (simp_all add: demo_queue_def)

lemmas demo_simps = admin_only_def demo_queue_def demo_config_def demo_position_def aq_advance_def
  Let_def advance_end_def

lemma less_Suc3: "k < Suc (Suc (Suc 0)) \<longleftrightarrow> k = 0 \<or> k = 1 \<or> k = 2"
  by auto

lemma demo_queue_inv [simp]: "aq_inv (demo_queue st)"
  by (auto simp: aq_inv_def demo_queue_def demo_position_def demo_config_def active_count_def
      position_ok_def less_Suc3)

lemma demo_call:
  assumes "aq_exec auth 1000 c (demo_queue st) = Inr (r, q', evs)"
  shows "\<exists>t. queue_exec c (queue_stored auth (demo_queue st)) = Inr (r, t) \<and> queue_abs t q' \<and>
    env_ok t \<and> env_events t = evs \<and>
    contract_run queue_exec (queue_stored auth (demo_queue st)) t"
  using queue.call_accepted [of "queue_stored auth (demo_queue st)" "demo_queue st" c r q' evs] assms
  by (auto simp: call_post_def)

lemma queue_abs_position:
  assumes "queue_abs s q"
  shows "env_data s (position_key i) = Some (QPosition p) \<longleftrightarrow>
    lookup_position (aq_positions q) i = Some p"
  using assms by (auto simp: queue_abs_def)

lemma queue_abs_config:
  assumes "queue_abs s q"
  shows "env_data s config_key = Some (QConfig c) \<longleftrightarrow> c = aq_config q"
  using assms by (auto simp: queue_abs_def)


lemma queue_exec_abs:
  assumes "env_ok s" and "queue_abs s q" and "queue_exec c s = Inr (r, t)"
  shows "\<exists>q' evs. aq_exec (env_auth s) (now s) c q = Inr (r, q', evs) \<and> queue_abs t q' \<and>
    env_ok t \<and> env_events t = env_events s @ evs"
  using queue_simulation [OF assms(1,2), of c] assms(3)
  by (auto dest!: call_matches_accepted simp: call_post_def)


lemma advance_accepted:
  assumes "aq_exec auth t (Advance who n) q = Inr (r, q', evs)"
  shows "r = QIds (ids_with_status Pending (aq_cursor q) (advance_end q n) (aq_positions q))"
    and "aq_cursor q' = advance_end q n" and "length (aq_positions q') = length (aq_positions q)"
  using assms
  by (auto simp: admin_only_def aq_advance_def Let_def set_status_def
      split: if_splits advancement_rule.splits)

lemma set_ids_with_status:
  "set (ids_with_status st c e ps) \<subseteq> (\<lambda>k. word_of_nat (Suc k)) ` {c..<e}"
  by (auto simp: ids_with_status_def)

lemma inj_position_ids:
  assumes "e < 2 ^ 32"
  shows "inj_on (\<lambda>k. word_of_nat (Suc k) :: u32) {c..<e}"
proof (rule inj_onI)
  fix a b
  assume "a \<in> {c..<e}" "b \<in> {c..<e}" "word_of_nat (Suc a) = (word_of_nat (Suc b) :: u32)"
  then have "unat (word_of_nat (Suc a) :: u32) = unat (word_of_nat (Suc b) :: u32)"
    and "Suc a < 2 ^ 32" "Suc b < 2 ^ 32"
    using assms by simp_all
  then show "a = b" by (simp del: of_nat_Suc)
qed

lemma distinct_ids_with_status:
  "e < 2 ^ 32 \<Longrightarrow> distinct (ids_with_status st c e ps)"
  unfolding ids_with_status_def distinct_map
  by (auto simp del: of_nat_Suc intro!: inj_on_subset [OF inj_position_ids [of e c]])

section \<open>The contract implements its specification\<close>



section \<open>Invariant and history of every run\<close>



text \<open>
  Lifecycle: over any run the status moves forward only (draft, enrolment open,
  enrolment closed, advancement active, closed), so a closed queue stays closed; the slug,
  the capacity and the advancement rule never change.
\<close>

theorem queue_lifecycle:
  assumes "env_ok s" and "queue_abs s q" and "aq_inv q" and "contract_run queue_exec s t"
  shows "\<exists>c c'. env_data s config_key = Some (QConfig c) \<and> env_data t config_key = Some (QConfig c') \<and>
    status_rank (cfg_status c) \<le> status_rank (cfg_status c') \<and>
    (cfg_status c = Closed \<longrightarrow> cfg_status c' = Closed) \<and>
    cfg_slug c' = cfg_slug c \<and> cfg_max_positions c' = cfg_max_positions c \<and>
    cfg_advancement_rule c' = cfg_advancement_rule c"
proof -
  obtain q' where q': "queue_abs t q'" "aq_le q q'"
    using queue.run_keeps [OF assms(4,1-3)] by blast
  have closed: "status_rank st = 4 \<longleftrightarrow> st = Closed" "status_rank st \<le> 4" for st
    by (cases st; simp)+
  from q' assms(2) show ?thesis
    using closed(2) [of "cfg_status (aq_config q')"]
    by (auto simp: queue_abs_config aq_le_def config_le_def closed(1) [symmetric] simp del: closed)
qed

theorem queue_lifecycle_witness:
  "\<exists>t. queue_exec (CloseQueue (AccountAddr 7)) (queue_stored (\<lambda>_. True) (demo_queue Draft)) =
       Inr (QUnit, t) \<and>
     (\<exists>c c'. env_data (queue_stored (\<lambda>_. True) (demo_queue Draft)) config_key = Some (QConfig c) \<and>
       env_data t config_key = Some (QConfig c') \<and>
       status_rank (cfg_status c) \<le> status_rank (cfg_status c'))"
proof -
  let ?s = "queue_stored (\<lambda>_. True) (demo_queue Draft)"
  have "\<exists>q' evs. aq_exec (\<lambda>_. True) 1000 (CloseQueue (AccountAddr 7)) (demo_queue Draft) =
      Inr (QUnit, q', evs)"
    by (simp add: demo_simps)
  then obtain t where t: "queue_exec (CloseQueue (AccountAddr 7)) ?s = Inr (QUnit, t)"
    and run: "contract_run queue_exec ?s t"
    using demo_call by blast
  from queue_lifecycle [OF _ demo_queue_abs demo_queue_inv run] t show ?thesis
    by auto
qed



section \<open>Fairness and progress of advancement\<close>



text \<open>
  Nobody is advanced twice: the identifiers an \<open>advance\<close> returns are distinct, and no later
  \<open>advance\<close> of the same queue, whatever happens in between, returns one of them again.
\<close>

theorem queue_no_double_advance:
  assumes "env_ok s" and "queue_abs s q" and "aq_inv q"
    and "queue_exec (Advance a n) s = Inr (QIds ids, t)"
    and "contract_run queue_exec t u" and "queue_exec (Advance b m) u = Inr (QIds ids', v)"
  shows "distinct ids \<and> set ids \<inter> set ids' = {}"
proof -
  obtain q1 evs1 where q1: "aq_exec (env_auth s) (now s) (Advance a n) q = Inr (QIds ids, q1, evs1)"
    "queue_abs t q1" "env_ok t"
    using queue_exec_abs [OF assms(1,2,4)] by blast
  have inv1: "aq_inv q1" using aq_exec_inv [OF assms(3) q1(1)] .
  obtain q2 where q2: "queue_abs u q2" "env_ok u" "aq_inv q2" "aq_le q1 q2"
    using queue.run_keeps [OF assms(5) q1(3,2) inv1] by blast
  obtain q3 evs3 where q3: "aq_exec (env_auth u) (now u) (Advance b m) q2 = Inr (QIds ids', q3, evs3)"
    using queue_exec_abs [OF q2(2,1) assms(6)] by blast
  let ?id = "\<lambda>k. word_of_nat (Suc k) :: u32"
  let ?e = "advance_end q n" and ?e' = "advance_end q2 m"
  have bounds: "?e < 2 ^ 32" "?e' < 2 ^ 32"
    using assms(3) q2(3) by (auto simp: aq_inv_def advance_end_def)
  have sub: "set ids \<subseteq> ?id ` {aq_cursor q..<?e}" "set ids' \<subseteq> ?id ` {aq_cursor q2..<?e'}"
    using advance_accepted(1) [OF q1(1)] advance_accepted(1) [OF q3] set_ids_with_status by auto
  have "?e \<le> aq_cursor q2"
    using advance_accepted(2) [OF q1(1)] q2(4) by (simp add: aq_le_def)
  then have "{aq_cursor q..<?e} \<inter> {aq_cursor q2..<?e'} = {}" by auto
  moreover have "inj_on ?id {0..<max ?e ?e'}"
    using bounds by (intro inj_position_ids) simp
  ultimately have "?id ` {aq_cursor q..<?e} \<inter> ?id ` {aq_cursor q2..<?e'} = {}"
    by (subst inj_on_image_Int [symmetric, where C = "{0..<max ?e ?e'}"])
      (auto simp del: of_nat_Suc)
  with sub have "set ids \<inter> set ids' = {}" by blast
  moreover have "distinct ids"
    using advance_accepted(1) [OF q1(1)] distinct_ids_with_status [OF bounds(1)] by simp
  ultimately show ?thesis by simp
qed

theorem queue_no_double_advance_witness:
  "\<exists>t ids' v. queue_exec (Advance (AccountAddr 7) 2)
        (queue_stored (\<lambda>_. True) (demo_queue AdvancementActive)) = Inr (QIds [3], t) \<and>
     queue_exec (Advance (AccountAddr 7) 2) t = Inr (QIds ids', v) \<and> 3 \<notin> set ids'"
proof -
  let ?s = "queue_stored (\<lambda>_. True) (demo_queue AdvancementActive)"
  obtain q' evs where q': "aq_exec (\<lambda>_. True) 1000 (Advance (AccountAddr 7) 2)
      (demo_queue AdvancementActive) = Inr (QIds [3], q', evs)"
    and adm: "aq_config q' = aq_config (demo_queue AdvancementActive)"
    by (simp add: demo_simps set_status_def) (simp add: ids_with_status_def upt_rec)
  obtain t where t: "queue_exec (Advance (AccountAddr 7) 2) ?s = Inr (QIds [3], t)"
    "queue_abs t q'" "env_ok t" and run: "contract_run queue_exec ?s t"
    using demo_call [OF q'] by auto
  have auth: "env_auth t = (\<lambda>_. True)"
    using queue_simulation [of ?s "demo_queue AdvancementActive" "Advance (AccountAddr 7) 2"] t(1) q'
    by (auto simp: call_post_def same_env_def)
  obtain ids' v where v: "queue_exec (Advance (AccountAddr 7) 2) t = Inr (QIds ids', v)"
    using queue_simulation [OF t(3,2), of "Advance (AccountAddr 7) 2"] auth adm
    by (auto simp: call_matches_def admin_only_def demo_queue_def demo_config_def aq_advance_def
        Let_def)
  from queue_no_double_advance [OF _ demo_queue_abs demo_queue_inv t(1) run_done v] t(1) v
  show ?thesis by auto
qed

lemma advance_round:
  assumes "env_ok s" and "queue_abs s q" and "cfg_admin (aq_config q) = who" and "env_auth s who"
    and "cfg_status (aq_config q) \<in> {EnrollmentClosed, AdvancementActive}"
    and "cfg_advancement_rule (aq_config q) = Fifo" and "0 < n"
  shows "\<exists>ids t q'. queue_advance who n s = Inr (ids, t) \<and> queue_abs t q' \<and> env_ok t \<and>
    env_auth t = env_auth s \<and> cfg_admin (aq_config q') = who \<and>
    cfg_status (aq_config q') \<in> {EnrollmentClosed, AdvancementActive} \<and>
    cfg_advancement_rule (aq_config q') = Fifo \<and> aq_cursor q' = advance_end q n \<and>
    length (aq_positions q') = length (aq_positions q) \<and> (aq_inv q \<longrightarrow> aq_inv q')"
proof -
  have "n \<noteq> 0" using assms(7) by auto
  then obtain r q' evs where spec: "aq_exec (env_auth s) (now s) (Advance who n) q = Inr (r, q', evs)"
    and eqs: "aq_cursor q' = advance_end q n" "length (aq_positions q') = length (aq_positions q)"
    and cfg: "cfg_admin (aq_config q') = who"
      "cfg_status (aq_config q') \<in> {EnrollmentClosed, AdvancementActive}"
      "cfg_advancement_rule (aq_config q') = Fifo"
    using assms(3-6) by (auto simp: admin_only_def aq_advance_def Let_def set_status_def)
  obtain t where "queue_exec (Advance who n) s = Inr (r, t)" "call_post queue_abs s q' evs t"
    using queue.call_accepted [OF assms(1,2) spec] by blast
  then show ?thesis
    using eqs cfg aq_exec_inv [OF _ spec]
    by (auto simp: bind_op_Inr call_post_def same_env_def)
qed

lemma advance_rounds_run:
  assumes "env_ok s" and "queue_abs s q" and "aq_inv q" and "cfg_admin (aq_config q) = who"
    and "env_auth s who" and "cfg_status (aq_config q) \<in> {EnrollmentClosed, AdvancementActive}"
    and "cfg_advancement_rule (aq_config q) = Fifo" and "0 < n"
  shows "\<exists>t q'. advance_rounds k who n s = Inr ((), t) \<and> queue_abs t q' \<and> aq_inv q' \<and>
    length (aq_positions q') = length (aq_positions q) \<and>
    aq_cursor q' = min (aq_cursor q + k * unat n) (length (aq_positions q))"
  using assms
proof (induction k arbitrary: s q)
  case 0
  then have "aq_cursor q \<le> length (aq_positions q)" by (simp add: queue_abs_def)
  with 0 show ?case by (auto simp: advance_rounds_def)
next
  case (Suc k)
  obtain ids t q' where t: "queue_advance who n s = Inr (ids, t)" "queue_abs t q'" "env_ok t"
    "env_auth t = env_auth s" "cfg_admin (aq_config q') = who"
    "cfg_status (aq_config q') \<in> {EnrollmentClosed, AdvancementActive}"
    "cfg_advancement_rule (aq_config q') = Fifo" "aq_cursor q' = advance_end q n"
    "length (aq_positions q') = length (aq_positions q)" "aq_inv q'"
    using advance_round [OF Suc.prems(1,2,4-8)] Suc.prems(3) by blast
  then obtain u q'' where "advance_rounds k who n t = Inr ((), u)" "queue_abs u q''" "aq_inv q''"
    "length (aq_positions q'') = length (aq_positions q)"
    "aq_cursor q'' = min (advance_end q n + k * unat n) (length (aq_positions q))"
    using Suc.IH [OF t(3,2,10,5) _ t(6,7) Suc.prems(8)] Suc.prems(5) by auto
  with t(1) show ?case
    by (auto simp: advance_rounds_def then_op_eval advance_end_def)
qed

text \<open>
  C5. Progress: in a queue that is ready to advance, \<open>k\<close> rounds of \<open>advance\<close> by its
  administrator, of any positive batch size \<open>n\<close>, always return, and once \<open>k * n\<close> reaches the
  number of positions behind the cursor nobody in the whole queue is pending any more.
\<close>

theorem queue_advance_progress:
  assumes "env_ok s" and "queue_abs s q" and "aq_inv q" and "cfg_admin (aq_config q) = who"
    and "env_auth s who" and "cfg_status (aq_config q) \<in> {EnrollmentClosed, AdvancementActive}"
    and "cfg_advancement_rule (aq_config q) = Fifo" and "0 < n"
    and "length (aq_positions q) - aq_cursor q \<le> k * unat n"
  shows "\<exists>t. advance_rounds k who n s = Inr ((), t) \<and>
    (\<forall>i p. env_data t (position_key i) = Some (QPosition p) \<longrightarrow> pos_status p \<noteq> Pending)"
proof -
  obtain t q' where t: "advance_rounds k who n s = Inr ((), t)" "queue_abs t q'" "aq_inv q'"
    and "length (aq_positions q') = length (aq_positions q)"
    and "aq_cursor q' = min (aq_cursor q + k * unat n) (length (aq_positions q))"
    using advance_rounds_run [OF assms(1-8)] by blast
  with assms(9) have all: "aq_cursor q' = length (aq_positions q')" by simp
  have "pos_status p \<noteq> Pending" if "env_data t (position_key i) = Some (QPosition p)" for i p
  proof -
    have "lookup_position (aq_positions q') i = Some p"
      using that t(2) by (simp add: queue_abs_position)
    from lookup_position_Some(1,2) [OF this] t(3) all show ?thesis
      by (auto simp: aq_inv_def position_ok_def)
  qed
  with t(1) show ?thesis by blast
qed

theorem queue_advance_progress_witness:
  "\<exists>t. advance_rounds 2 (AccountAddr 7) 1 (queue_stored (\<lambda>_. True) (demo_queue AdvancementActive)) =
       Inr ((), t) \<and>
     (\<forall>i p. env_data t (position_key i) = Some (QPosition p) \<longrightarrow> pos_status p \<noteq> Pending)"
  by (rule queue_advance_progress [OF _ demo_queue_abs demo_queue_inv])
    (simp_all add: demo_queue_def demo_config_def)

section \<open>Authorization\<close>

text \<open>
  C6. No call succeeds without the signature of the address it names, and the administrator's
  calls succeed for the configured administrator only.
\<close>

theorem queue_calls_authorized:
  assumes "env_ok s" and "queue_abs s q" and "queue_exec c s = Inr (r, t)"
  shows "env_auth s (queue_caller c) \<and>
    (queue_admin_call c \<longrightarrow> queue_caller c = cfg_admin (aq_config q))"
proof -
  obtain q' evs where "aq_exec (env_auth s) (now s) c q = Inr (r, q', evs)"
    using queue_exec_abs [OF assms] by blast
  then show ?thesis
    by (cases c) (auto simp: admin_only_def aq_expire_def Let_def split: if_splits option.splits)
qed

theorem queue_calls_authorized_witness:
  "\<exists>r t. queue_exec (OpenEnrollment (AccountAddr 7))
       (queue_stored (\<lambda>a. a = AccountAddr 7) (demo_queue Draft)) = Inr (r, t) \<and>
     queue_caller (OpenEnrollment (AccountAddr 7)) = cfg_admin (demo_config Draft)"
proof -
  have "\<exists>q' evs. aq_exec (\<lambda>a. a = AccountAddr 7) 1000 (OpenEnrollment (AccountAddr 7))
      (demo_queue Draft) = Inr (QUnit, q', evs)"
    by (simp add: demo_simps)
  then obtain t where t: "queue_exec (OpenEnrollment (AccountAddr 7))
      (queue_stored (\<lambda>a. a = AccountAddr 7) (demo_queue Draft)) = Inr (QUnit, t)"
    using demo_call by blast
  from queue_calls_authorized [OF _ demo_queue_abs t] t show ?thesis
    by (simp add: demo_queue_def)
qed

section \<open>Where the code falls short of the documents\<close>

text \<open>
  C7. \<open>initialize\<close> does not ask whether the queue exists: on a queue in any state, any address
  that signs may install a configuration naming itself; the call succeeds, hands it the
  administration and restarts the numbering, over the entries of the positions already there.
\<close>

theorem queue_initialize_takes_over:
  assumes "env_ok s" and "queue_abs s q" and "env_auth s mallory"
    and "cfg_admin config = mallory"
  shows "\<exists>t. queue_initialize mallory config s = Inr ((), t) \<and>
    env_data t config_key = Some (QConfig config) \<and> env_data t next_id_key = Some (QU32 1) \<and>
    env_data t active_key = Some (QU32 0) \<and> env_data t idx_key = Some (QU32 0) \<and>
    (\<forall>i. env_data t (position_key i) = env_data s (position_key i))"
  using assms by (auto simp: queue_initialize_def queue_emit_def op_eval)

theorem queue_initialize_takes_over_witness:
  "\<exists>t. queue_initialize (AccountAddr 66) (demo_config Draft\<lparr>cfg_admin := AccountAddr 66\<rparr>)
         (queue_stored (\<lambda>a. a = AccountAddr 66) (demo_queue Closed)) = Inr ((), t) \<and>
     env_data t config_key = Some (QConfig (demo_config Draft\<lparr>cfg_admin := AccountAddr 66\<rparr>))"
  using queue_initialize_takes_over [OF _ demo_queue_abs, of "\<lambda>a. a = AccountAddr 66" Closed
      "AccountAddr 66" "demo_config Draft\<lparr>cfg_admin := AccountAddr 66\<rparr>"]
  by auto

text \<open>
  While enrolment is open and there is room, \<open>enroll_position\<close> succeeds for every signer,
  whether or not it already holds a pending position: the new position is appended and counts
  towards the capacity, so that one identity can occupy the whole queue.
\<close>

theorem queue_enroll_again:
  assumes "env_ok s" and "queue_abs s q" and "env_auth s who"
    and "cfg_status (aq_config q) = EnrollmentOpen"
    and "active_count (aq_positions q) < unat (cfg_max_positions (aq_config q))"
    and "length (aq_positions q) + 2 < 2 ^ 32"
  shows "\<exists>i t q'. queue_enroll_position who s = Inr (i, t) \<and> queue_abs t q' \<and>
    unat i = Suc (length (aq_positions q)) \<and>
    pending_of who (aq_positions q') = Suc (pending_of who (aq_positions q))"
proof -
  obtain q' evs where spec: "aq_exec (env_auth s) (now s) (EnrollPosition who) q =
      Inr (QId (word_of_nat (Suc (length (aq_positions q)))), q', evs)"
    and more: "pending_of who (aq_positions q') = Suc (pending_of who (aq_positions q))"
    using assms(3-6) by (auto simp: Let_def pending_of_def)
  have "unat (word_of_nat (Suc (length (aq_positions q))) :: u32) = Suc (length (aq_positions q))"
    using assms(6) by (intro unat_u32_of_nat) simp
  with queue.call_accepted [OF assms(1,2) spec] more show ?thesis
    by (auto simp: bind_op_Inr call_post_def)
qed

theorem queue_enroll_again_witness:
  "\<exists>i t q'. queue_enroll_position (AccountAddr 11)
       (queue_stored (\<lambda>_. True) (demo_queue EnrollmentOpen)) = Inr (i, t) \<and> queue_abs t q' \<and>
     pending_of (AccountAddr 11) (aq_positions q') = 2"
proof -
  have "\<exists>i t q'. queue_enroll_position (AccountAddr 11)
       (queue_stored (\<lambda>_. True) (demo_queue EnrollmentOpen)) = Inr (i, t) \<and> queue_abs t q' \<and>
     unat i = Suc (length (aq_positions (demo_queue EnrollmentOpen))) \<and>
     pending_of (AccountAddr 11) (aq_positions q') =
       Suc (pending_of (AccountAddr 11) (aq_positions (demo_queue EnrollmentOpen)))"
    by (rule queue_enroll_again [OF _ demo_queue_abs])
      (simp_all add: demo_queue_def demo_config_def demo_position_def active_count_def)
  moreover have "Suc (pending_of (AccountAddr 11) (aq_positions (demo_queue EnrollmentOpen))) = 2"
    by (simp add: pending_of_def demo_queue_def demo_position_def)
  ultimately show ?thesis by auto
qed

end
