(* ===== verification/Enrollment.thy ===== *)
theory Enrollment
  imports Contract_Env
begin

text \<open>
  The enrollment contract (\<open>contracts/lineproof-enrollment/src/lib.rs\<close>): data, storage keys and
  every entry point, in the order of the source. The host's SHA-256 over the XDR encoding of
  a value is the parameter \<open>sha\<close> of the entry points that compute a proof hash.
\<close>

section \<open>Data\<close>

record enrollment_proof =
  prf_queue_id :: symbol
  prf_identity :: address
  prf_enrolled_at :: u64
  prf_proof_hash :: hash
  prf_expires_at :: "u64 option"

datatype duplicate_behavior = Reject | GrantWaitingList | OverrideExpired

record enrollment_record =
  enr_identity :: address
  enr_queue_id :: symbol
  enr_enrolled_at :: u64
  enr_proof_hash :: hash
  enr_duplicate_count :: u32
  enr_finalized :: bool
  enr_expires_at :: "u64 option"
  enr_cancelled :: bool

datatype enr_val =
    ERecord enrollment_record | ECount u32 | EWaitlist "address list"
  | EBehavior duplicate_behavior

fun as_record :: "enr_val \<Rightarrow> enrollment_record option" where
  "as_record (ERecord r) = Some r"
| "as_record _ = None"

fun as_count :: "enr_val \<Rightarrow> u32 option" where
  "as_count (ECount n) = Some n"
| "as_count _ = None"

fun as_waitlist :: "enr_val \<Rightarrow> address list option" where
  "as_waitlist (EWaitlist w) = Some w"
| "as_waitlist _ = None"

fun as_behavior :: "enr_val \<Rightarrow> duplicate_behavior option" where
  "as_behavior (EBehavior b) = Some b"
| "as_behavior _ = None"

definition enr_record_key :: "address \<Rightarrow> symbol \<Rightarrow> sc_val" where
  "enr_record_key identity queue_id =
     VecV [SymbolV ''enrollment'', SymbolV queue_id, AddressV identity]"

definition enr_count_key :: "symbol \<Rightarrow> sc_val" where
  "enr_count_key queue_id = VecV [SymbolV ''enroll_cnt'', SymbolV queue_id]"

definition enr_waitlist_key :: "symbol \<Rightarrow> sc_val" where
  "enr_waitlist_key queue_id = VecV [SymbolV ''waitlist'', SymbolV queue_id]"

definition dup_behavior_key :: sc_val where
  "dup_behavior_key = SymbolV ''dup_behavior''"

lemma enr_keys [simp]:
  "enr_record_key a q = enr_record_key b p \<longleftrightarrow> a = b \<and> q = p"
  "enr_count_key q = enr_count_key p \<longleftrightarrow> q = p"
  "enr_waitlist_key q = enr_waitlist_key p \<longleftrightarrow> q = p"
  "enr_record_key a q \<noteq> enr_count_key p" "enr_count_key p \<noteq> enr_record_key a q"
  "enr_record_key a q \<noteq> enr_waitlist_key p" "enr_waitlist_key p \<noteq> enr_record_key a q"
  "enr_record_key a q \<noteq> dup_behavior_key" "dup_behavior_key \<noteq> enr_record_key a q"
  "enr_count_key q \<noteq> enr_waitlist_key p" "enr_waitlist_key p \<noteq> enr_count_key q"
  "enr_count_key q \<noteq> dup_behavior_key" "dup_behavior_key \<noteq> enr_count_key q"
  "enr_waitlist_key q \<noteq> dup_behavior_key" "dup_behavior_key \<noteq> enr_waitlist_key q"
  by (auto simp: enr_record_key_def enr_count_key_def enr_waitlist_key_def dup_behavior_key_def)

section \<open>Helpers\<close>

definition enr_topics :: "symbol \<Rightarrow> symbol \<Rightarrow> sc_val list" where
  "enr_topics kind queue_id =
     [SymbolV ''lineproof_enrollment'', SymbolV kind, SymbolV queue_id]"

definition enr_payload :: "address \<Rightarrow> u64 \<Rightarrow> hash \<Rightarrow> sc_val" where
  "enr_payload identity ts h = VecV [AddressV identity, U64V ts, BytesV h]"

definition enr_emit :: "symbol \<Rightarrow> symbol \<Rightarrow> address \<Rightarrow> u64 \<Rightarrow> hash \<Rightarrow> (enr_val, unit) action" where
  "enr_emit kind queue_id identity ts h =
     publish (enr_topics kind queue_id) (enr_payload identity ts h)"

definition compute_proof_hash :: "(sc_val \<Rightarrow> hash) \<Rightarrow> address \<Rightarrow> symbol \<Rightarrow> u64 \<Rightarrow> hash" where
  "compute_proof_hash sha identity queue_id enrolled_at =
     sha (VecV [AddressV identity, SymbolV queue_id, U64V enrolled_at])"

definition is_enrolled_internal :: "address \<Rightarrow> symbol \<Rightarrow> (enr_val, bool) action" where
  "is_enrolled_internal identity queue_id =
     bind_op (storage_get as_record (enr_record_key identity queue_id)) (\<lambda>found.
     ret (case found of Some record \<Rightarrow> \<not> enr_cancelled record | None \<Rightarrow> False))"

definition enr_load_record :: "address \<Rightarrow> symbol \<Rightarrow> (enr_val, enrollment_record) action" where
  "enr_load_record identity queue_id =
     bind_op (storage_expect as_record ''record missing'' (enr_record_key identity queue_id))
       (\<lambda>record.
     then_op (extend_ttl (enr_record_key identity queue_id) TTL_THRESHOLD TTL_EXTEND_TO)
     (ret record))"

definition is_on_waitlist :: "address \<Rightarrow> symbol \<Rightarrow> (enr_val, bool) action" where
  "is_on_waitlist identity queue_id =
     bind_op (storage_has (enr_waitlist_key queue_id)) (\<lambda>present.
     if present then
       bind_op (storage_expect as_waitlist ''unwrap on None'' (enr_waitlist_key queue_id))
         (\<lambda>waitlist. ret (identity \<in> set waitlist))
     else ret False)"

section \<open>Entry points\<close>

text \<open>The branch of \<open>enroll\<close> that puts an enrolled caller on the waiting list.\<close>

definition enroll_waitlisted :: "address \<Rightarrow> symbol \<Rightarrow> (enr_val, enrollment_proof) action" where
  "enroll_waitlisted caller queue_id =
     bind_op (is_on_waitlist caller queue_id) (\<lambda>on_waitlist.
     then_op (panic_if on_waitlist ''already waitlisted'')
     (bind_op (storage_get_or as_waitlist [] (enr_waitlist_key queue_id)) (\<lambda>waitlist.
     then_op (set_and_extend (enr_waitlist_key queue_id) (EWaitlist (waitlist @ [caller])))
     (bind_op (reads now) (\<lambda>t.
     then_op (enr_emit ''WaitlistAdded'' queue_id caller t 0)
     (ret \<lparr>prf_queue_id = queue_id, prf_identity = caller, prf_enrolled_at = t,
           prf_proof_hash = 0, prf_expires_at = None\<rparr>))))))"

text \<open>The branch that replaces an expired enrolment.\<close>

definition enroll_override ::
  "(sc_val \<Rightarrow> hash) \<Rightarrow> address \<Rightarrow> symbol \<Rightarrow> u64 option \<Rightarrow> (enr_val, enrollment_proof) action" where
  "enroll_override sha caller queue_id expires_at =
     bind_op (enr_load_record caller queue_id) (\<lambda>record.
     bind_op (reads now) (\<lambda>t.
     then_op (panic_if (\<not> (case enr_expires_at record of Some exp \<Rightarrow> exp < t | None \<Rightarrow> False))
        ''duplicate enrollment'')
     (bind_op (arith (checked_add (enr_duplicate_count record) 1)) (\<lambda>duplicate_count.
      let h = compute_proof_hash sha caller queue_id t in
      then_op (set_and_extend (enr_record_key caller queue_id)
        (ERecord \<lparr>enr_identity = caller, enr_queue_id = queue_id, enr_enrolled_at = t,
           enr_proof_hash = h, enr_duplicate_count = duplicate_count, enr_finalized = False,
           enr_expires_at = expires_at, enr_cancelled = False\<rparr>))
      (then_op (enr_emit ''Enrolled'' queue_id caller t h)
      (ret \<lparr>prf_queue_id = queue_id, prf_identity = caller, prf_enrolled_at = t,
            prf_proof_hash = h, prf_expires_at = expires_at\<rparr>))))))"

text \<open>The branch of a caller that is not enrolled.\<close>

definition enroll_fresh ::
  "(sc_val \<Rightarrow> hash) \<Rightarrow> address \<Rightarrow> symbol \<Rightarrow> u64 option \<Rightarrow> (enr_val, enrollment_proof) action" where
  "enroll_fresh sha caller queue_id expires_at =
     bind_op (storage_has (enr_record_key caller queue_id)) (\<lambda>present.
     bind_op (if present then
                bind_op (enr_load_record caller queue_id) (\<lambda>existing.
                arith (checked_add (enr_duplicate_count existing) 1))
              else ret 0) (\<lambda>duplicate_count.
     bind_op (reads now) (\<lambda>t.
     let h = compute_proof_hash sha caller queue_id t in
     then_op (set_and_extend (enr_record_key caller queue_id)
        (ERecord \<lparr>enr_identity = caller, enr_queue_id = queue_id, enr_enrolled_at = t,
           enr_proof_hash = h, enr_duplicate_count = duplicate_count, enr_finalized = False,
           enr_expires_at = expires_at, enr_cancelled = False\<rparr>))
     (bind_op (storage_get_or as_count 0 (enr_count_key queue_id)) (\<lambda>count.
     bind_op (arith (checked_add count 1)) (\<lambda>count'.
     then_op (set_and_extend (enr_count_key queue_id) (ECount count'))
     (then_op (enr_emit ''Enrolled'' queue_id caller t h)
     (ret \<lparr>prf_queue_id = queue_id, prf_identity = caller, prf_enrolled_at = t,
           prf_proof_hash = h, prf_expires_at = expires_at\<rparr>))))))))"

definition enr_enroll ::
  "(sc_val \<Rightarrow> hash) \<Rightarrow> address \<Rightarrow> symbol \<Rightarrow> u64 option \<Rightarrow> (enr_val, enrollment_proof) action" where
  "enr_enroll sha caller queue_id expires_at =
     then_op (require_auth caller)
     (bind_op (is_enrolled_internal caller queue_id) (\<lambda>is_enrolled.
     if is_enrolled then
       bind_op (storage_get_or as_behavior Reject dup_behavior_key) (\<lambda>behavior.
       case behavior of
         Reject \<Rightarrow> panic ''duplicate enrollment''
       | GrantWaitingList \<Rightarrow> enroll_waitlisted caller queue_id
       | OverrideExpired \<Rightarrow> enroll_override sha caller queue_id expires_at)
     else enroll_fresh sha caller queue_id expires_at))"

definition enr_cancel :: "address \<Rightarrow> symbol \<Rightarrow> (enr_val, unit) action" where
  "enr_cancel caller queue_id =
     then_op (require_auth caller)
     (bind_op (storage_expect as_record ''not enrolled'' (enr_record_key caller queue_id)) (\<lambda>record.
     then_op (panic_if (enr_cancelled record) ''not enrolled'')
     (then_op (set_and_extend (enr_record_key caller queue_id)
        (ERecord (record\<lparr>enr_cancelled := True\<rparr>)))
     (bind_op (storage_get_or as_count 0 (enr_count_key queue_id)) (\<lambda>count.
     then_op (if 0 < count then
                bind_op (arith (checked_sub count 1)) (\<lambda>count'.
                set_and_extend (enr_count_key queue_id) (ECount count'))
              else ret ())
     (bind_op (reads now) (\<lambda>t.
     enr_emit ''Cancelled'' queue_id caller t (enr_proof_hash record))))))))"

definition enr_is_enrolled :: "address \<Rightarrow> symbol \<Rightarrow> (enr_val, bool) action" where
  "enr_is_enrolled identity queue_id = is_enrolled_internal identity queue_id"

definition enrollment_record_of ::
  "address \<Rightarrow> symbol \<Rightarrow> (enr_val, enrollment_record option) action" where
  "enrollment_record_of identity queue_id =
     bind_op (storage_has (enr_record_key identity queue_id)) (\<lambda>present.
     if present then
       bind_op (enr_load_record identity queue_id) (\<lambda>record. ret (Some record))
     else ret None)"

fun is_behavior_supported :: "duplicate_behavior \<Rightarrow> bool" where
  "is_behavior_supported Reject = True"
| "is_behavior_supported GrantWaitingList = True"
| "is_behavior_supported OverrideExpired = True"

fun behavior_val :: "duplicate_behavior \<Rightarrow> sc_val" where
  "behavior_val Reject = VecV [SymbolV ''Reject'']"
| "behavior_val GrantWaitingList = VecV [SymbolV ''GrantWaitingList'']"
| "behavior_val OverrideExpired = VecV [SymbolV ''OverrideExpired'']"

definition set_duplicate_behavior ::
  "address \<Rightarrow> duplicate_behavior \<Rightarrow> (enr_val, unit) action" where
  "set_duplicate_behavior admin behavior =
     then_op (require_auth admin)
     (then_op (panic_if (\<not> is_behavior_supported behavior) ''behavior_not_supported'')
     (then_op (set_and_extend dup_behavior_key (EBehavior behavior))
     (then_op (extend_ttl dup_behavior_key TTL_THRESHOLD TTL_EXTEND_TO)
     (publish [SymbolV ''lineproof_enrollment'', SymbolV ''DuplicateBehaviorChanged'']
        (behavior_val behavior)))))"

definition finalize_enrollment ::
  "address \<Rightarrow> address \<Rightarrow> symbol \<Rightarrow> (enr_val, unit) action" where
  "finalize_enrollment admin identity queue_id =
     then_op (require_auth admin)
     (bind_op (enr_load_record identity queue_id) (\<lambda>record.
     then_op (panic_if (enr_cancelled record) ''not enrolled'')
     (then_op (panic_if (enr_finalized record) ''already finalized'')
     (then_op (set_and_extend (enr_record_key identity queue_id)
        (ERecord (record\<lparr>enr_finalized := True\<rparr>)))
     (enr_emit ''Finalized'' queue_id identity (enr_enrolled_at record)
        (enr_proof_hash record))))))"

definition enrollment_count :: "symbol \<Rightarrow> (enr_val, u32) action" where
  "enrollment_count queue_id = storage_get_or as_count 0 (enr_count_key queue_id)"

definition get_waitlist :: "symbol \<Rightarrow> (enr_val, address list) action" where
  "get_waitlist queue_id = storage_get_or as_waitlist [] (enr_waitlist_key queue_id)"

fun index_of :: "address \<Rightarrow> address list \<Rightarrow> nat option" where
  "index_of a [] = None"
| "index_of a (x # xs) = (if x = a then Some 0 else map_option Suc (index_of a xs))"

definition waitlist_position :: "address \<Rightarrow> symbol \<Rightarrow> (enr_val, u32 option) action" where
  "waitlist_position identity queue_id =
     bind_op (get_waitlist queue_id) (\<lambda>waitlist.
     ret (map_option word_of_nat (index_of identity waitlist)))"

text \<open>One promotion, and the loop of \<open>promote_from_waitlist\<close> over the list's head.\<close>

definition promote_one ::
  "(sc_val \<Rightarrow> hash) \<Rightarrow> address \<Rightarrow> symbol \<Rightarrow> (enr_val, unit) action" where
  "promote_one sha identity queue_id =
     bind_op (reads now) (\<lambda>t.
     let h = compute_proof_hash sha identity queue_id t in
     then_op (set_and_extend (enr_record_key identity queue_id)
        (ERecord \<lparr>enr_identity = identity, enr_queue_id = queue_id, enr_enrolled_at = t,
           enr_proof_hash = h, enr_duplicate_count = 0, enr_finalized = False,
           enr_expires_at = None, enr_cancelled = False\<rparr>))
     (bind_op (storage_get_or as_count 0 (enr_count_key queue_id)) (\<lambda>count.
     bind_op (arith (checked_add count 1)) (\<lambda>count'.
     then_op (set_and_extend (enr_count_key queue_id) (ECount count'))
     (enr_emit ''Enrolled'' queue_id identity t h)))))"

primrec promote_loop ::
  "nat \<Rightarrow> (sc_val \<Rightarrow> hash) \<Rightarrow> symbol \<Rightarrow> address list \<Rightarrow> (enr_val, address list) action" where
  "promote_loop 0 sha queue_id waitlist = ret waitlist"
| "promote_loop (Suc n) sha queue_id waitlist =
     (case waitlist of
        [] \<Rightarrow> panic ''unwrap on None''
      | identity # rest \<Rightarrow>
          then_op (promote_one sha identity queue_id) (promote_loop n sha queue_id rest))"

definition promote_from_waitlist ::
  "(sc_val \<Rightarrow> hash) \<Rightarrow> address \<Rightarrow> symbol \<Rightarrow> u32 \<Rightarrow> (enr_val, unit) action" where
  "promote_from_waitlist sha admin queue_id count =
     then_op (require_auth admin)
     (bind_op (get_waitlist queue_id) (\<lambda>waitlist.
     let to_promote = min count (word_of_nat (length waitlist)) in
     bind_op (promote_loop (unat to_promote) sha queue_id waitlist) (\<lambda>waitlist'.
     set_and_extend (enr_waitlist_key queue_id) (EWaitlist waitlist'))))"

section \<open>The contract as a machine\<close>

datatype enr_call =
    Enroll address symbol "u64 option"
  | CancelEnrollment address symbol
  | SetDuplicateBehavior address duplicate_behavior
  | FinalizeEnrollment address address symbol
  | PromoteFromWaitlist address symbol u32

datatype enr_ret = EUnit | EProof enrollment_proof

fun enr_exec :: "(sc_val \<Rightarrow> hash) \<Rightarrow> enr_call \<Rightarrow> (enr_val, enr_ret) action" where
  "enr_exec sha (Enroll who q expires) =
     bind_op (enr_enroll sha who q expires) (\<lambda>p. ret (EProof p))"
| "enr_exec sha (CancelEnrollment who q) = then_op (enr_cancel who q) (ret EUnit)"
| "enr_exec sha (SetDuplicateBehavior a b) = then_op (set_duplicate_behavior a b) (ret EUnit)"
| "enr_exec sha (FinalizeEnrollment a i q) = then_op (finalize_enrollment a i q) (ret EUnit)"
| "enr_exec sha (PromoteFromWaitlist a q n) =
     then_op (promote_from_waitlist sha a q n) (ret EUnit)"

end
