(* ===== verification/Enrollment_Inv.thy ===== *)
theory Enrollment_Inv
  imports Enrollment Contract_Machine
begin

text \<open>
  The enrollment register as its users understand it: records by identity and queue, a count
  and a waiting list by queue. The contract computes exactly its transitions; the count
  bounds the active records, waiting lists hold no one twice and records are never removed.
\<close>

section \<open>The abstract register\<close>

record aenroll =
  ar_records :: "address \<times> symbol \<rightharpoonup> enrollment_record"
  ar_counts :: "symbol \<rightharpoonup> u32"
  ar_waits :: "symbol \<rightharpoonup> address list"
  ar_behavior :: "duplicate_behavior option"

type_synonym ar_result = "(enr_ret, aenroll) spec_result"

definition count_of :: "aenroll \<Rightarrow> symbol \<Rightarrow> u32" where
  "count_of a q = (case ar_counts a q of None \<Rightarrow> 0 | Some n \<Rightarrow> n)"

definition waitlist_of :: "aenroll \<Rightarrow> symbol \<Rightarrow> address list" where
  "waitlist_of a q = (case ar_waits a q of None \<Rightarrow> [] | Some w \<Rightarrow> w)"

definition enrolled :: "aenroll \<Rightarrow> address \<Rightarrow> symbol \<Rightarrow> bool" where
  "enrolled a who q \<longleftrightarrow> (\<exists>r. ar_records a (who, q) = Some r \<and> \<not> enr_cancelled r)"

definition set_record :: "address \<Rightarrow> symbol \<Rightarrow> enrollment_record \<Rightarrow> aenroll \<Rightarrow> aenroll" where
  "set_record who q r a = a\<lparr>ar_records := (ar_records a)((who, q) \<mapsto> r)\<rparr>"

definition set_count :: "symbol \<Rightarrow> u32 \<Rightarrow> aenroll \<Rightarrow> aenroll" where
  "set_count q n a = a\<lparr>ar_counts := (ar_counts a)(q \<mapsto> n)\<rparr>"

definition set_waitlist :: "symbol \<Rightarrow> address list \<Rightarrow> aenroll \<Rightarrow> aenroll" where
  "set_waitlist q w a = a\<lparr>ar_waits := (ar_waits a)(q \<mapsto> w)\<rparr>"

definition enr_event :: "symbol \<Rightarrow> symbol \<Rightarrow> address \<Rightarrow> u64 \<Rightarrow> hash \<Rightarrow> event" where
  "enr_event kind q who t h = Event (enr_topics kind q) (enr_payload who t h)"

definition new_record ::
  "address \<Rightarrow> symbol \<Rightarrow> u64 \<Rightarrow> hash \<Rightarrow> u32 \<Rightarrow> u64 option \<Rightarrow> enrollment_record" where
  "new_record who q t h n expires =
     \<lparr>enr_identity = who, enr_queue_id = q, enr_enrolled_at = t, enr_proof_hash = h,
      enr_duplicate_count = n, enr_finalized = False, enr_expires_at = expires,
      enr_cancelled = False\<rparr>"

definition new_proof ::
  "address \<Rightarrow> symbol \<Rightarrow> u64 \<Rightarrow> hash \<Rightarrow> u64 option \<Rightarrow> enrollment_proof" where
  "new_proof who q t h expires =
     \<lparr>prf_queue_id = q, prf_identity = who, prf_enrolled_at = t, prf_proof_hash = h,
      prf_expires_at = expires\<rparr>"

text \<open>Enrolling again counts one duplicate more than the record that is there.\<close>

definition next_duplicate :: "enrollment_record option \<Rightarrow> u32 option" where
  "next_duplicate r =
     (case r of None \<Rightarrow> Some 0 | Some r \<Rightarrow> checked_add (enr_duplicate_count r) 1)"

definition spec_fresh ::
  "u64 \<Rightarrow> hash \<Rightarrow> address \<Rightarrow> symbol \<Rightarrow> u64 option \<Rightarrow> aenroll \<Rightarrow> ar_result" where
  "spec_fresh t h who q expires a =
     (case next_duplicate (ar_records a (who, q)) of
        None \<Rightarrow> Inl overflow_panic
      | Some n \<Rightarrow>
          (case checked_add (count_of a q) 1 of
             None \<Rightarrow> Inl overflow_panic
           | Some m \<Rightarrow>
               Inr (EProof (new_proof who q t h expires),
                    set_count q m (set_record who q (new_record who q t h n expires) a),
                    [enr_event ''Enrolled'' q who t h])))"

definition spec_override ::
  "u64 \<Rightarrow> hash \<Rightarrow> address \<Rightarrow> symbol \<Rightarrow> u64 option \<Rightarrow> enrollment_record \<Rightarrow> aenroll \<Rightarrow> ar_result" where
  "spec_override t h who q expires r a =
     (if \<not> (\<exists>e. enr_expires_at r = Some e \<and> e < t) then Inl (Panic ''duplicate enrollment'')
      else case checked_add (enr_duplicate_count r) 1 of
        None \<Rightarrow> Inl overflow_panic
      | Some n \<Rightarrow>
          Inr (EProof (new_proof who q t h expires),
               set_record who q (new_record who q t h n expires) a,
               [enr_event ''Enrolled'' q who t h]))"

definition spec_waitlisted :: "u64 \<Rightarrow> address \<Rightarrow> symbol \<Rightarrow> aenroll \<Rightarrow> ar_result" where
  "spec_waitlisted t who q a =
     (if who \<in> set (waitlist_of a q) then Inl (Panic ''already waitlisted'')
      else Inr (EProof (new_proof who q t 0 None), set_waitlist q (waitlist_of a q @ [who]) a,
                [enr_event ''WaitlistAdded'' q who t 0]))"

definition spec_enroll ::
  "(sc_val \<Rightarrow> hash) \<Rightarrow> u64 \<Rightarrow> address \<Rightarrow> symbol \<Rightarrow> u64 option \<Rightarrow> aenroll \<Rightarrow> ar_result" where
  "spec_enroll sha t who q expires a =
     (let h = compute_proof_hash sha who q t in
      case ar_records a (who, q) of
        None \<Rightarrow> spec_fresh t h who q expires a
      | Some r \<Rightarrow>
          if enr_cancelled r then spec_fresh t h who q expires a
          else (case ar_behavior a of
                  None \<Rightarrow> Inl (Panic ''duplicate enrollment'')
                | Some Reject \<Rightarrow> Inl (Panic ''duplicate enrollment'')
                | Some GrantWaitingList \<Rightarrow> spec_waitlisted t who q a
                | Some OverrideExpired \<Rightarrow> spec_override t h who q expires r a))"

fun promote_all ::
  "(sc_val \<Rightarrow> hash) \<Rightarrow> u64 \<Rightarrow> symbol \<Rightarrow> address list \<Rightarrow> aenroll \<Rightarrow> error + (aenroll \<times> event list)" where
  "promote_all sha t q [] a = Inr (a, [])"
| "promote_all sha t q (who # ws) a =
     (let h = compute_proof_hash sha who q t in
      case checked_add (count_of a q) 1 of
        None \<Rightarrow> Inl overflow_panic
      | Some m \<Rightarrow>
          (case promote_all sha t q ws
                  (set_count q m (set_record who q (new_record who q t h 0 None) a)) of
             Inl e \<Rightarrow> Inl e
           | Inr (b, evs) \<Rightarrow> Inr (b, enr_event ''Enrolled'' q who t h # evs)))"

definition promoted :: "u32 \<Rightarrow> address list \<Rightarrow> nat" where
  "promoted n w = unat (min n (word_of_nat (length w)))"

fun enr_spec :: "(sc_val \<Rightarrow> hash) \<Rightarrow> (enr_call, enr_ret, aenroll) spec" where
  "enr_spec sha auth t (Enroll who q expires) a =
     (if \<not> auth who then Inl auth_error else spec_enroll sha t who q expires a)"
| "enr_spec sha auth t (CancelEnrollment who q) a =
     (if \<not> auth who then Inl auth_error
      else case ar_records a (who, q) of
        None \<Rightarrow> Inl (Panic ''not enrolled'')
      | Some r \<Rightarrow>
          if enr_cancelled r then Inl (Panic ''not enrolled'')
          else Inr (EUnit,
            (let b = set_record who q (r\<lparr>enr_cancelled := True\<rparr>) a in
             if 0 < count_of a q then set_count q (count_of a q - 1) b else b),
            [enr_event ''Cancelled'' q who t (enr_proof_hash r)]))"
| "enr_spec sha auth t (SetDuplicateBehavior admin b) a =
     (if \<not> auth admin then Inl auth_error
      else Inr (EUnit, a\<lparr>ar_behavior := Some b\<rparr>,
        [Event [SymbolV ''lineproof_enrollment'', SymbolV ''DuplicateBehaviorChanged'']
           (behavior_val b)]))"
| "enr_spec sha auth t (FinalizeEnrollment admin who q) a =
     (if \<not> auth admin then Inl auth_error
      else case ar_records a (who, q) of
        None \<Rightarrow> Inl (Panic ''record missing'')
      | Some r \<Rightarrow>
          if enr_cancelled r then Inl (Panic ''not enrolled'')
          else if enr_finalized r then Inl (Panic ''already finalized'')
          else Inr (EUnit, set_record who q (r\<lparr>enr_finalized := True\<rparr>) a,
                    [enr_event ''Finalized'' q who (enr_enrolled_at r) (enr_proof_hash r)]))"
| "enr_spec sha auth t (PromoteFromWaitlist admin q n) a =
     (let w = waitlist_of a q; k = promoted n w in
      if \<not> auth admin then Inl auth_error
      else case promote_all sha t q (take k w) a of
        Inl e \<Rightarrow> Inl e
      | Inr (b, evs) \<Rightarrow> Inr (EUnit, set_waitlist q (drop k w) b, evs))"

definition enr_abs :: "enr_val env \<Rightarrow> aenroll \<Rightarrow> bool" where
  "enr_abs s a \<longleftrightarrow>
     (\<forall>who q. env_data s (enr_record_key who q) = map_option ERecord (ar_records a (who, q))) \<and>
     (\<forall>q. env_data s (enr_count_key q) = map_option ECount (ar_counts a q)) \<and>
     (\<forall>q. env_data s (enr_waitlist_key q) = map_option EWaitlist (ar_waits a q)) \<and>
     env_data s dup_behavior_key = map_option EBehavior (ar_behavior a)"

section \<open>Invariant and history\<close>

definition active_ids :: "aenroll \<Rightarrow> symbol \<Rightarrow> address set" where
  "active_ids a q = {who. enrolled a who q}"

definition enr_inv :: "aenroll \<Rightarrow> bool" where
  "enr_inv a \<longleftrightarrow>
     finite (dom (ar_records a)) \<and>
     (\<forall>who q r. ar_records a (who, q) = Some r \<longrightarrow> enr_identity r = who \<and> enr_queue_id r = q) \<and>
     (\<forall>q. card (active_ids a q) \<le> unat (count_of a q)) \<and>
     (\<forall>q. distinct (waitlist_of a q)) \<and>
     (\<forall>q. \<forall>who \<in> set (waitlist_of a q). ar_records a (who, q) \<noteq> None)"

definition enr_le :: "aenroll \<Rightarrow> aenroll \<Rightarrow> bool" where
  "enr_le a b \<longleftrightarrow> dom (ar_records a) \<subseteq> dom (ar_records b) \<and>
     (ar_behavior a \<noteq> None \<longrightarrow> ar_behavior b \<noteq> None)"

definition enr_empty :: aenroll where
  "enr_empty = \<lparr>ar_records = Map.empty, ar_counts = Map.empty, ar_waits = Map.empty,
     ar_behavior = None\<rparr>"

section \<open>The contract computes the abstract transitions\<close>

lemma enr_abs_bump [simp]: "enr_abs (bump k s) a \<longleftrightarrow> enr_abs s a"
  by (simp add: enr_abs_def)

lemma enr_abs_event [simp]: "enr_abs (add_event ts p s) a \<longleftrightarrow> enr_abs s a"
  by (simp add: enr_abs_def)

lemma enr_abs_put:
  assumes "enr_abs s a"
  shows "enr_abs (put_data (enr_record_key who q) (ERecord r) s) (set_record who q r a)"
    and "enr_abs (put_data (enr_count_key q) (ECount n) s) (set_count q n a)"
    and "enr_abs (put_data (enr_waitlist_key q) (EWaitlist w) s) (set_waitlist q w a)"
    and "enr_abs (put_data dup_behavior_key (EBehavior b) s) (a\<lparr>ar_behavior := Some b\<rparr>)"
  using assms by (simp_all add: enr_abs_def set_record_def set_count_def set_waitlist_def)

lemma enr_abs_data:
  assumes "enr_abs s a"
  shows "env_data s (enr_record_key who q) = map_option ERecord (ar_records a (who, q))"
    and "env_data s dup_behavior_key = map_option EBehavior (ar_behavior a)"
    and "storage_get_or as_count 0 (enr_count_key q) s = Inr (count_of a q, s)"
    and "storage_get_or as_waitlist [] (enr_waitlist_key q) s = Inr (waitlist_of a q, s)"
    and "is_on_waitlist who q s = Inr (who \<in> set (waitlist_of a q), s)"
  using assms
  by (auto simp: enr_abs_def op_eval count_of_def waitlist_of_def is_on_waitlist_def
      split: option.splits)

lemma set_record_sel [simp]:
  "ar_records (set_record who q r a) = (ar_records a)((who, q) \<mapsto> r)"
  "count_of (set_record who q r a) p = count_of a p"
  "waitlist_of (set_record who q r a) p = waitlist_of a p"
  "ar_behavior (set_record who q r a) = ar_behavior a"
  "ar_records (set_count q n a) = ar_records a"
  "count_of (set_count q n a) p = (if p = q then n else count_of a p)"
  "waitlist_of (set_count q n a) p = waitlist_of a p"
  "ar_behavior (set_count q n a) = ar_behavior a"
  "ar_records (set_waitlist q w a) = ar_records a"
  "count_of (set_waitlist q w a) p = count_of a p"
  "waitlist_of (set_waitlist q w a) p = (if p = q then w else waitlist_of a p)"
  "ar_behavior (set_waitlist q w a) = ar_behavior a"
  by (auto simp: set_record_def set_count_def set_waitlist_def count_of_def waitlist_of_def)

lemmas enr_sim = machine_simps enr_emit_def enr_event_def new_record_def new_proof_def
  Let_def next_duplicate_def

lemma sim_fresh:
  assumes "env_ok s" and "enr_abs s a"
  shows "call_matches enr_abs s
    (spec_fresh (now s) (compute_proof_hash sha who q (now s)) who q expires a)
    (bind_op (enroll_fresh sha who q expires) (\<lambda>p. ret (EProof p)) s)"
  using assms
  by (auto simp: enroll_fresh_def spec_fresh_def enr_sim enr_abs_data(1) [OF assms(2)]
      enr_load_record_def enr_abs_def count_of_def set_count_def set_record_def split: option.splits)

lemma sim_waitlisted:
  assumes "env_ok s" and "enr_abs s a"
  shows "call_matches enr_abs s (spec_waitlisted (now s) who q a)
    (bind_op (enroll_waitlisted who q) (\<lambda>p. ret (EProof p)) s)"
  using assms
  by (auto simp: enroll_waitlisted_def spec_waitlisted_def enr_sim is_on_waitlist_def enr_abs_def
      waitlist_of_def set_waitlist_def split: option.splits)

lemma sim_override:
  assumes "env_ok s" and "enr_abs s a" and "ar_records a (who, q) = Some r"
  shows "call_matches enr_abs s
    (spec_override (now s) (compute_proof_hash sha who q (now s)) who q expires r a)
    (bind_op (enroll_override sha who q expires) (\<lambda>p. ret (EProof p)) s)"
  using assms
  by (auto simp: enroll_override_def spec_override_def enr_sim enr_load_record_def enr_abs_def
      set_record_def split: option.splits)

lemma sim_enr_enroll:
  assumes "env_ok s" and "enr_abs s a"
  shows "call_matches enr_abs s (enr_spec sha (env_auth s) (now s) (Enroll who q expires) a)
    (enr_exec sha (Enroll who q expires) s)"
proof -
  note fresh = sim_fresh [OF assms, of sha who q expires]
  note wait = sim_waitlisted [OF assms, of who q]
  note over = sim_override [OF assms, of who q _ sha expires]
  show ?thesis
    using fresh wait over enr_abs_data(1,2) [OF assms(2)]
    by (auto simp: enr_enroll_def spec_enroll_def is_enrolled_internal_def op_eval auth_error_def
        Let_def split: option.splits duplicate_behavior.splits)
qed

lemma sim_enr_cancel:
  assumes "env_ok s" and "enr_abs s a"
  shows "call_matches enr_abs s (enr_spec sha (env_auth s) (now s) (CancelEnrollment who q) a)
    (enr_exec sha (CancelEnrollment who q) s)"
proof -
  have one: "checked_sub n 1 = Some (n - 1)" if "0 < n" for n :: u32
    using that by (simp add: checked_sub_def word_le_nat_alt word_less_nat_alt)
  show ?thesis
    using assms one
    by (auto simp: enr_cancel_def enr_sim enr_abs_def count_of_def set_record_def set_count_def
        split: option.splits)
qed

lemma sim_set_behavior:
  assumes "env_ok s" and "enr_abs s a"
  shows "call_matches enr_abs s (enr_spec sha (env_auth s) (now s) (SetDuplicateBehavior admin b) a)
    (enr_exec sha (SetDuplicateBehavior admin b) s)"
  using assms
  by (cases b) (auto simp: set_duplicate_behavior_def enr_sim enr_abs_def)

lemma sim_finalize:
  assumes "env_ok s" and "enr_abs s a"
  shows "call_matches enr_abs s (enr_spec sha (env_auth s) (now s) (FinalizeEnrollment admin who q) a)
    (enr_exec sha (FinalizeEnrollment admin who q) s)"
  using assms
  by (auto simp: finalize_enrollment_def enr_sim enr_load_record_def enr_abs_def set_record_def
      split: option.splits)

text \<open>The promotion loop over the head of the waiting list.\<close>

lemma sim_promote_one:
  assumes "env_ok s" and "enr_abs s a"
  shows "case checked_add (count_of a q) 1 of
      None \<Rightarrow> promote_one sha who q s = Inl overflow_panic
    | Some m \<Rightarrow> \<exists>t. promote_one sha who q s = Inr ((), t) \<and> call_post enr_abs s
        (set_count q m (set_record who q (new_record who q (now s)
           (compute_proof_hash sha who q (now s)) 0 None) a))
        [enr_event ''Enrolled'' q who (now s) (compute_proof_hash sha who q (now s))] t"
  using assms
  by (auto simp: promote_one_def enr_sim enr_abs_def count_of_def set_count_def set_record_def
      split: option.splits)

lemma sim_promote_loop:
  assumes "env_ok s" and "enr_abs s a" and "n \<le> length w"
  shows "case promote_all sha (now s) q (take n w) a of
      Inl e \<Rightarrow> promote_loop n sha q w s = Inl e
    | Inr (b, evs) \<Rightarrow> \<exists>t. promote_loop n sha q w s = Inr (drop n w, t) \<and> call_post enr_abs s b evs t"
  using assms
proof (induction n arbitrary: s a w)
  case 0
  then show ?case by (simp add: call_post_def same_env_def)
next
  case (Suc n)
  then obtain who ws where w: "w = who # ws" by (cases w) auto
  let ?h = "compute_proof_hash sha who q (now s)"
  note one = sim_promote_one [OF Suc.prems(1,2), where q = q and sha = sha and who = who]
  show ?case
  proof (cases "checked_add (count_of a q) 1")
    case None
    with one w show ?thesis by (simp add: then_op_eval)
  next
    case (Some m)
    let ?a = "set_count q m (set_record who q (new_record who q (now s) ?h 0 None) a)"
    from one Some obtain t where t: "promote_one sha who q s = Inr ((), t)"
      and post: "call_post enr_abs s ?a [enr_event ''Enrolled'' q who (now s) ?h] t"
      by auto
    then have "env_ok t" "enr_abs t ?a" "now t = now s" "n \<le> length ws"
      using Suc.prems(3) w by (auto simp: call_post_def same_env_def now_def)
    from Suc.IH [OF this(1,2,4)] t post Some this(3) show ?thesis
      by (auto simp: w then_op_eval Let_def call_post_def same_env_def split: sum.splits)
  qed
qed

lemma promoted_le: "promoted n w \<le> length w"
proof -
  have "promoted n w \<le> unat (word_of_nat (length w) :: u32)"
    unfolding promoted_def by (rule word_le_nat_alt [THEN iffD1]) simp
  also have "\<dots> \<le> length w"
    by (simp add: unsigned_of_nat take_bit_nat_less_eq_self)
  finally show ?thesis .
qed

lemma sim_promote:
  assumes "env_ok s" and "enr_abs s a"
  shows "call_matches enr_abs s (enr_spec sha (env_auth s) (now s) (PromoteFromWaitlist admin q n) a)
    (enr_exec sha (PromoteFromWaitlist admin q n) s)"
proof -
  let ?w = "waitlist_of a q" and ?k = "promoted n (waitlist_of a q)"
  have loop: "case promote_all sha (now s) q (take ?k ?w) a of
      Inl e \<Rightarrow> promote_loop ?k sha q ?w s = Inl e
    | Inr (b, evs) \<Rightarrow> \<exists>t. promote_loop ?k sha q ?w s = Inr (drop ?k ?w, t) \<and> call_post enr_abs s b evs t"
    by (rule sim_promote_loop [OF assms promoted_le])
  note read = enr_abs_data(4) [OF assms(2)]
  show ?thesis
  proof (cases "promote_all sha (now s) q (take ?k ?w) a")
    case (Inl e)
    with loop read show ?thesis
      by (auto simp: promote_from_waitlist_def get_waitlist_def enr_sim promoted_def)
  next
    case (Inr r)
    then obtain b evs where b: "promote_all sha (now s) q (take ?k ?w) a = Inr (b, evs)"
      by (cases r) simp
    with loop obtain t where t: "promote_loop ?k sha q ?w s = Inr (drop ?k ?w, t)"
      and post: "call_post enr_abs s b evs t"
      by auto
    let ?t = "bump (enr_waitlist_key q) (put_data (enr_waitlist_key q) (EWaitlist (drop ?k ?w)) t)"
    have "call_post enr_abs s (set_waitlist q (drop ?k ?w) b) evs ?t"
      using post enr_abs_put(3) [of t b q "drop ?k ?w"] by (simp add: call_post_def same_env_def)
    moreover have "env_ok t" using post by (simp add: call_post_def)
    ultimately show ?thesis
      using t read b
      by (auto simp: promote_from_waitlist_def get_waitlist_def op_eval auth_error_def Let_def
          promoted_def)
  qed
qed

lemma sim_enr_exec:
  assumes "env_ok s" and "enr_abs s a"
  shows "call_matches enr_abs s (enr_spec sha (env_auth s) (now s) c a) (enr_exec sha c s)"
  using assms
  by (cases c) (simp_all only: sim_enr_enroll sim_enr_cancel sim_set_behavior sim_finalize
      sim_promote)

section \<open>Every transition keeps the invariant and moves forward\<close>

lemma finite_active_ids: "finite (dom (ar_records a)) \<Longrightarrow> finite (active_ids a q)"
  by (rule finite_surj [of "dom (ar_records a)" _ fst])
    (force simp: active_ids_def enrolled_def)+

lemma active_ids_set [simp]:
  "active_ids (set_record who q r a) p =
     (if p \<noteq> q then active_ids a p
      else if enr_cancelled r then active_ids a q - {who} else insert who (active_ids a q))"
  "active_ids (set_count q n a) p = active_ids a p"
  "active_ids (set_waitlist q w a) p = active_ids a p"
  by (auto simp: active_ids_def enrolled_def split: if_splits)

lemma card_insert_count:
  assumes "finite A" and "card A \<le> unat m" and "checked_add m 1 = Some (n :: u32)"
  shows "card (insert x A) \<le> unat n"
  using checked_add_Some(2) [OF assms(3)] assms(1,2) by (simp add: card_insert_if)

text \<open>Writing a record for an identity that is or becomes enrolled, and counting it.\<close>

lemma enr_inv_enrolled:
  assumes "enr_inv a" and "checked_add (count_of a q) 1 = Some m"
    and "enr_identity r = who" and "enr_queue_id r = q" and "\<not> enr_cancelled r"
  shows "enr_inv (set_count q m (set_record who q r a))"
  using assms card_insert_count [OF finite_active_ids, of a q "count_of a q" m who]
  by (auto simp: enr_inv_def)

lemma enr_inv_rewrite:
  assumes "enr_inv a" and "enrolled a who q"
    and "enr_identity r = who" and "enr_queue_id r = q" and "\<not> enr_cancelled r"
  shows "enr_inv (set_record who q r a)"
proof -
  have "insert who (active_ids a q) = active_ids a q"
    using assms(2) by (auto simp: active_ids_def)
  with assms show ?thesis by (auto simp: enr_inv_def)
qed

lemma enr_inv_cancelled:
  assumes "enr_inv a" and "ar_records a (who, q) = Some r" and "\<not> enr_cancelled r"
  shows "enr_inv (let b = set_record who q (r\<lparr>enr_cancelled := True\<rparr>) a in
    if 0 < count_of a q then set_count q (count_of a q - 1) b else b)"
proof -
  have "who \<in> active_ids a q"
    using assms(2,3) by (simp add: active_ids_def enrolled_def)
  moreover have fin: "finite (active_ids a q)"
    using assms(1) by (intro finite_active_ids) (simp add: enr_inv_def)
  ultimately have card: "card (active_ids a q - {who}) = card (active_ids a q) - 1"
    "0 < card (active_ids a q)"
    by (auto simp: card_gt_0_iff)
  have le: "card (active_ids a q) \<le> unat (count_of a q)"
    using assms(1) by (simp add: enr_inv_def)
  with card(2) have pos: "0 < count_of a q"
    by (simp add: word_less_nat_alt)
  then have "unat (count_of a q - 1) = unat (count_of a q) - 1"
    by (simp add: unat_sub word_le_nat_alt word_less_nat_alt)
  with card le have "card (active_ids a q - {who}) \<le> unat (count_of a q - 1)" by simp
  with pos assms show ?thesis
    by (auto simp: enr_inv_def Let_def)
qed

lemma enr_inv_waitlist:
  assumes "enr_inv a" and "distinct w" and "\<forall>who \<in> set w. ar_records a (who, q) \<noteq> None"
  shows "enr_inv (set_waitlist q w a)"
  using assms by (auto simp: enr_inv_def)

lemma promote_all_inv:
  assumes "promote_all sha t q ws a = Inr (b, evs)" and "enr_inv a"
  shows "enr_inv b \<and> waitlist_of b = waitlist_of a \<and>
    dom (ar_records a) \<subseteq> dom (ar_records b) \<and> ar_behavior b = ar_behavior a"
  using assms
proof (induction ws arbitrary: a evs)
  case (Cons who ws)
  then obtain m evs' where m: "checked_add (count_of a q) 1 = Some m"
    and rec: "promote_all sha t q ws (set_count q m (set_record who q
        (new_record who q t (compute_proof_hash sha who q t) 0 None) a)) = Inr (b, evs')"
    by (auto simp: Let_def split: option.splits sum.splits)
  let ?a = "set_count q m (set_record who q
      (new_record who q t (compute_proof_hash sha who q t) 0 None) a)"
  have "enr_inv ?a"
    using Cons.prems(2) m by (intro enr_inv_enrolled) (simp_all add: new_record_def)
  note keep = Cons.IH [OF rec this]
  have "waitlist_of ?a = waitlist_of a" "dom (ar_records a) \<subseteq> dom (ar_records ?a)"
    "ar_behavior ?a = ar_behavior a"
    by (auto simp: fun_eq_iff)
  with keep show ?case by (metis subset_trans)
qed simp

lemma spec_enroll_inv:
  assumes "enr_inv a" and "spec_enroll sha t who q expires a = Inr (r, b, evs)"
  shows "enr_inv b"
proof (cases "enrolled a who q")
  case False
  with assms(2) have "spec_fresh t (compute_proof_hash sha who q t) who q expires a = Inr (r, b, evs)"
    by (auto simp: spec_enroll_def enrolled_def Let_def split: option.splits)
  with assms(1) show ?thesis
    by (auto simp: spec_fresh_def new_record_def enr_inv_enrolled split: option.splits)
next
  case True
  then obtain x where x: "ar_records a (who, q) = Some x" "\<not> enr_cancelled x"
    by (auto simp: enrolled_def)
  have "enr_inv (set_waitlist q (waitlist_of a q @ [who]) a)" if "who \<notin> set (waitlist_of a q)"
    using assms(1) x that by (intro enr_inv_waitlist) (auto simp: enr_inv_def)
  with assms True x show ?thesis
    by (auto simp: spec_enroll_def Let_def spec_waitlisted_def spec_override_def new_record_def
        enr_inv_rewrite split: option.splits duplicate_behavior.splits if_splits)
qed

lemma enr_spec_inv:
  assumes "enr_inv a" and "enr_spec sha auth t c a = Inr (r, b, evs)"
  shows "enr_inv b"
proof (cases c)
  case (Enroll who q expires)
  with assms spec_enroll_inv [OF assms(1)] show ?thesis by (auto split: if_splits)
next
  case (CancelEnrollment who q)
  with assms enr_inv_cancelled [OF assms(1)] show ?thesis
    by (auto split: if_splits option.splits)
next
  case (SetDuplicateBehavior admin d)
  with assms have "b = a\<lparr>ar_behavior := Some d\<rparr>" by (auto split: if_splits)
  with assms(1) show ?thesis
    by (simp add: enr_inv_def active_ids_def enrolled_def count_of_def waitlist_of_def)
next
  case (FinalizeEnrollment admin who q)
  with assms(2) obtain x where x: "ar_records a (who, q) = Some x" "\<not> enr_cancelled x"
    "b = set_record who q (x\<lparr>enr_finalized := True\<rparr>) a"
    by (auto split: if_splits option.splits)
  moreover have "enr_identity x = who \<and> enr_queue_id x = q"
    using assms(1) x(1) by (simp add: enr_inv_def)
  ultimately show ?thesis
    using assms(1) by (auto simp: enrolled_def intro!: enr_inv_rewrite)
next
  case (PromoteFromWaitlist admin q n)
  let ?w = "waitlist_of a q"
  from PromoteFromWaitlist assms(2) obtain b' where
    b': "promote_all sha t q (take (promoted n ?w) ?w) a = Inr (b', evs)"
    "b = set_waitlist q (drop (promoted n ?w) ?w) b'"
    by (auto simp: Let_def split: if_splits sum.splits)
  note keep = promote_all_inv [OF b'(1) assms(1)]
  have "distinct ?w" "\<forall>who \<in> set ?w. ar_records a (who, q) \<noteq> None"
    using assms(1) by (auto simp: enr_inv_def)
  then show ?thesis
    unfolding b'(2) using keep
    by (intro enr_inv_waitlist) (auto dest!: in_set_dropD)
qed

lemma enr_spec_le:
  assumes "enr_inv a" and "enr_spec sha auth t c a = Inr (r, b, evs)"
  shows "enr_le a b"
proof (cases c)
  case (Enroll who q expires)
  with assms(2) show ?thesis
    by (auto simp: enr_le_def spec_enroll_def spec_fresh_def spec_waitlisted_def spec_override_def
        Let_def split: if_splits option.splits duplicate_behavior.splits)
next
  case (PromoteFromWaitlist admin q n)
  with assms(2) promote_all_inv [OF _ assms(1)] show ?thesis
    by (fastforce simp: enr_le_def Let_def split: if_splits sum.splits)
qed (use assms(2) in \<open>auto simp: enr_le_def Let_def split: if_splits option.splits\<close>)

lemma enr_inv_empty: "enr_inv enr_empty"
  by (simp add: enr_inv_def enr_empty_def active_ids_def enrolled_def waitlist_of_def)

section \<open>The contract\<close>

interpretation enrollment: verified_contract "enr_exec sha" enr_abs "enr_spec sha" enr_inv enr_le
  for sha
proof unfold_locales
  show "call_matches enr_abs s (enr_spec sha (env_auth s) (now s) c a) (enr_exec sha c s)"
    if "env_ok s" "enr_abs s a" for s a c
    using that by (rule sim_enr_exec)
  show "enr_abs t a" if "enr_abs s a" "env_data t = env_data s" for s t a
    using that by (simp add: enr_abs_def)
  show "enr_le a a" for a by (simp add: enr_le_def)
  show "enr_le a c" if "enr_le a b" "enr_le b c" for a b c
    using that by (auto simp: enr_le_def)
qed (auto intro: enr_spec_inv enr_spec_le)

end
