(* ===== verification/Enrollment_Props.thy ===== *)
theory Enrollment_Props
  imports Enrollment_Inv
begin

text \<open>
  The properties of the enrollment contract, consequences of the interpretation
  \<open>enrollment: verified_contract\<close>. The hash function \<open>sha\<close> is arbitrary.
\<close>

section \<open>Definitions\<close>

text \<open>The storage that represents an abstract register.\<close>

definition enr_entries :: "aenroll \<Rightarrow> sc_val \<Rightarrow> enr_val option" where
  "enr_entries a k =
     (case k of
        VecV [SymbolV tag, SymbolV q, AddressV who] \<Rightarrow>
          if tag = ''enrollment'' then map_option ERecord (ar_records a (who, q)) else None
      | VecV [SymbolV tag, SymbolV q] \<Rightarrow>
          if tag = ''enroll_cnt'' then map_option ECount (ar_counts a q)
          else if tag = ''waitlist'' then map_option EWaitlist (ar_waits a q) else None
      | SymbolV tag \<Rightarrow>
          if tag = ''dup_behavior'' then map_option EBehavior (ar_behavior a) else None
      | _ \<Rightarrow> None)"

definition enr_stored :: "(address \<Rightarrow> bool) \<Rightarrow> aenroll \<Rightarrow> enr_val env" where
  "enr_stored auth a = stored auth (enr_entries a)"

text \<open>One enrolled identity that has also put itself on the waiting list.\<close>

definition demo_register :: aenroll where
  "demo_register = \<lparr>ar_records =
       [(AccountAddr 11, ''sale'') \<mapsto> new_record (AccountAddr 11) ''sale'' 900 5 3 None],
     ar_counts = [''sale'' \<mapsto> 1], ar_waits = [''sale'' \<mapsto> [AccountAddr 11]],
     ar_behavior = Some GrantWaitingList\<rparr>"

section \<open>Shared lemmas\<close>

lemma enr_stored_sel [simp]:
  "env_ok (enr_stored auth a)"
  "env_auth (enr_stored auth a) = auth"
  "now (enr_stored auth a) = 1000"
  "env_events (enr_stored auth a) = []"
  by (simp_all add: enr_stored_def)

lemma enr_abs_stored [simp]: "enr_abs (enr_stored auth a) a"
  by (simp add: enr_abs_def enr_stored_def enr_entries_def enr_record_key_def enr_count_key_def
      enr_waitlist_key_def dup_behavior_key_def)

lemma demo_register_sel [simp]:
  "ar_records demo_register = [(AccountAddr 11, ''sale'') \<mapsto>
     new_record (AccountAddr 11) ''sale'' 900 5 3 None]"
  "count_of demo_register q = (if q = ''sale'' then 1 else 0)"
  "waitlist_of demo_register q = (if q = ''sale'' then [AccountAddr 11] else [])"
  "ar_behavior demo_register = Some GrantWaitingList"
  by (simp_all add: demo_register_def count_of_def waitlist_of_def)

lemma demo_register_ids: "active_ids demo_register q = (if q = ''sale'' then {AccountAddr 11} else {})"
  by (auto simp: active_ids_def enrolled_def new_record_def split: if_splits)

lemma demo_register_inv [simp]: "enr_inv demo_register"
  by (simp add: enr_inv_def demo_register_ids) (simp add: new_record_def)

lemma enr_call_accepted:
  assumes "env_ok s" and "enr_abs s a"
    and "enr_spec sha (env_auth s) (now s) c a = Inr (r, b, evs)"
  shows "\<exists>t. enr_exec sha c s = Inr (r, t) \<and> enr_abs t b \<and> env_ok t \<and>
    env_events t = env_events s @ evs \<and> contract_run (enr_exec sha) s t"
  using enrollment.call_accepted [OF assms] by (auto simp: call_post_def)

lemma enr_exec_abs:
  assumes "env_ok s" and "enr_abs s a" and "enr_exec sha c s = Inr (r, t)"
  shows "\<exists>b evs. enr_spec sha (env_auth s) (now s) c a = Inr (r, b, evs) \<and> enr_abs t b"
proof -
  have "call_matches enr_abs s (enr_spec sha (env_auth s) (now s) c a) (Inr (r, t))"
    using enrollment.simulation [OF assms(1,2), of sha c] unfolding assms(3) .
  then show ?thesis
    by (auto dest!: call_matches_accepted simp: call_post_def)
qed

lemma is_enrolled_read:
  assumes "enr_abs s a"
  shows "enr_is_enrolled who q s = Inr (enrolled a who q, s)"
  using assms
  by (auto simp: enr_is_enrolled_def is_enrolled_internal_def op_eval enr_abs_def enrolled_def
      split: option.splits)

lemma count_read:
  assumes "enr_abs s a"
  shows "enrollment_count q s = Inr (count_of a q, s)"
  using enr_abs_data(3) [OF assms] by (simp add: enrollment_count_def)

section \<open>The contract implements its specification\<close>

text \<open>
  C10. On every live environment that represents an abstract register, every state-changing
  call behaves as the abstract register says: the same error, or the same result, the same
  events and a new environment that represents the next abstract register.
\<close>

theorem enrollment_refines_spec:
  assumes "env_ok s" and "enr_abs s a"
  shows "case enr_spec sha (env_auth s) (now s) c a of
      Inl e \<Rightarrow> enr_exec sha c s = Inl e
    | Inr (r, b, evs) \<Rightarrow> \<exists>t. enr_exec sha c s = Inr (r, t) \<and> enr_abs t b \<and> env_ok t \<and>
        env_events t = env_events s @ evs"
  using enrollment.simulation [OF assms, of sha c]
  by (auto simp: call_matches_def call_post_def split: sum.splits)

theorem enrollment_refines_spec_witness:
  "\<exists>t. enr_exec (\<lambda>_. 0) (CancelEnrollment (AccountAddr 11) ''sale'')
         (enr_stored (\<lambda>_. True) demo_register) = Inr (EUnit, t) \<and>
     env_events t = [enr_event ''Cancelled'' ''sale'' (AccountAddr 11) 1000 5] \<and>
     enr_exec (\<lambda>_. 0) (CancelEnrollment (AccountAddr 12) ''sale'')
         (enr_stored (\<lambda>_. True) demo_register) = Inl (Panic ''not enrolled'')"
  using enrollment_refines_spec [of "enr_stored (\<lambda>_. True) demo_register" demo_register "\<lambda>_. 0"
      "CancelEnrollment (AccountAddr 11) ''sale''"]
    enrollment_refines_spec [of "enr_stored (\<lambda>_. True) demo_register" demo_register "\<lambda>_. 0"
      "CancelEnrollment (AccountAddr 12) ''sale''"]
  by (auto simp: new_record_def)

section \<open>The invariant of every run\<close>

text \<open>
  C11. Over any run of the contract from empty storage: there is at most one record for an
  identity and queue and it names them; the reported enrollment count is at least the number
  of active records; no one is on a waiting list twice and everyone on it has a record.
\<close>

theorem enrollment_run_invariant:
  assumes "env_ok s" and "enr_abs s enr_empty" and "contract_run (enr_exec sha) s t"
  shows "\<exists>a n. enr_abs t a \<and> enrollment_count q t = Inr (n, t) \<and>
    card {who. enr_is_enrolled who q t = Inr (True, t)} \<le> unat n \<and>
    distinct (waitlist_of a q) \<and>
    (\<forall>who \<in> set (waitlist_of a q). ar_records a (who, q) \<noteq> None) \<and>
    (\<forall>who r. ar_records a (who, q) = Some r \<longrightarrow> enr_identity r = who \<and> enr_queue_id r = q)"
proof -
  obtain a where a: "enr_abs t a" "enr_inv a"
    using enrollment.run_keeps [OF assms(3,1,2) enr_inv_empty] by blast
  have "{who. enr_is_enrolled who q t = Inr (True, t)} = active_ids a q"
    by (auto simp: is_enrolled_read [OF a(1)] active_ids_def)
  with a show ?thesis
    by (intro exI [of _ a] exI [of _ "count_of a q"]) (auto simp: count_read enr_inv_def)
qed

theorem enrollment_run_invariant_witness:
  "\<exists>p t a n. enr_exec (\<lambda>_. 0) (Enroll (AccountAddr 11) ''sale'' None)
         (enr_stored (\<lambda>_. True) enr_empty) = Inr (EProof p, t) \<and>
     enr_abs t a \<and> enrollment_count ''sale'' t = Inr (n, t) \<and>
     card {who. enr_is_enrolled who ''sale'' t = Inr (True, t)} \<le> unat n"
proof -
  let ?s = "enr_stored (\<lambda>_. True) enr_empty"
  have "\<exists>p b evs. enr_spec (\<lambda>_. 0) (env_auth ?s) (now ?s) (Enroll (AccountAddr 11) ''sale'' None)
      enr_empty = Inr (EProof p, b, evs)"
    by (simp add: spec_enroll_def enr_empty_def spec_fresh_def next_duplicate_def count_of_def
        checked_add_def Let_def)
  then obtain p t where t: "enr_exec (\<lambda>_. 0) (Enroll (AccountAddr 11) ''sale'' None) ?s =
      Inr (EProof p, t)" and run: "contract_run (enr_exec (\<lambda>_. 0)) ?s t"
    using enr_call_accepted [of ?s enr_empty "\<lambda>_. 0"] by fastforce
  from enrollment_run_invariant [OF _ _ run, of "''sale''"] t show ?thesis
    by (auto simp del: enr_exec.simps)
qed

text \<open>
  Uniqueness: unless an administrator has chosen another behaviour, \<open>enroll\<close> by a signer
  succeeds exactly when that identity is not enrolled in the queue, counters permitting; then
  it is enrolled, the count has gone up by one and the proof carries the hash of identity,
  queue and time. An enrolled identity is turned away with "duplicate enrollment".
\<close>

theorem enrollment_unique:
  assumes "env_ok s" and "enr_abs s a" and "env_auth s who"
    and "ar_behavior a \<in> {None, Some Reject}" and "unat (count_of a q) + 1 < 2 ^ 32"
    and "\<forall>r. ar_records a (who, q) = Some r \<longrightarrow> unat (enr_duplicate_count r) + 1 < 2 ^ 32"
  shows "if enrolled a who q
    then enr_exec sha (Enroll who q expires) s = Inl (Panic ''duplicate enrollment'')
    else \<exists>t p. enr_exec sha (Enroll who q expires) s = Inr (EProof p, t) \<and>
      enr_is_enrolled who q t = Inr (True, t) \<and>
      enrollment_count q t = Inr (count_of a q + 1, t) \<and>
      prf_proof_hash p = sha (VecV [AddressV who, SymbolV q, U64V (now s)]) \<and>
      (\<forall>other. other \<noteq> who \<longrightarrow> enr_is_enrolled other q t = Inr (enrolled a other q, t))"
proof (cases "enrolled a who q")
  case True
  then have "enr_spec sha (env_auth s) (now s) (Enroll who q expires) a =
      Inl (Panic ''duplicate enrollment'')"
    using assms(3,4) by (auto simp: enrolled_def spec_enroll_def Let_def)
  with True show ?thesis
    by (simp add: enrollment.call_fails_iff [OF assms(1,2)] del: enr_exec.simps)
next
  case False
  let ?h = "compute_proof_hash sha who q (now s)"
  have m: "checked_add (count_of a q) 1 = Some (count_of a q + 1)"
    using assms(5) by (simp add: checked_add_def)
  obtain n where n: "next_duplicate (ar_records a (who, q)) = Some n"
    using assms(6) by (cases "ar_records a (who, q)") (auto simp: next_duplicate_def checked_add_def)
  have "enr_spec sha (env_auth s) (now s) (Enroll who q expires) a =
      spec_fresh (now s) ?h who q expires a"
    using False assms(3) by (auto simp: spec_enroll_def enrolled_def Let_def split: option.splits)
  then have "enr_spec sha (env_auth s) (now s) (Enroll who q expires) a =
      Inr (EProof (new_proof who q (now s) ?h expires),
        set_count q (count_of a q + 1)
          (set_record who q (new_record who q (now s) ?h n expires) a),
        [enr_event ''Enrolled'' q who (now s) ?h])"
    using m n by (simp add: spec_fresh_def)
  from enr_call_accepted [OF assms(1,2) this] False show ?thesis
    by (auto simp: is_enrolled_read count_read enrolled_def new_record_def new_proof_def
        compute_proof_hash_def simp del: enr_exec.simps)
qed

theorem enrollment_unique_witness:
  "\<exists>t p. enr_exec (\<lambda>_. 9) (Enroll (AccountAddr 12) ''sale'' None)
       (enr_stored (\<lambda>_. True) (demo_register\<lparr>ar_behavior := None\<rparr>)) = Inr (EProof p, t) \<and>
     enrollment_count ''sale'' t = Inr (2, t) \<and> prf_proof_hash p = 9 \<and>
   enr_exec (\<lambda>_. 9) (Enroll (AccountAddr 11) ''sale'' None)
       (enr_stored (\<lambda>_. True) (demo_register\<lparr>ar_behavior := None\<rparr>)) =
     Inl (Panic ''duplicate enrollment'')"
proof -
  let ?a = "demo_register\<lparr>ar_behavior := None\<rparr>"
  let ?s = "enr_stored (\<lambda>_. True) ?a"
  have a: "enrolled ?a (AccountAddr 11) ''sale''" "\<not> enrolled ?a (AccountAddr 12) ''sale''"
    "count_of ?a ''sale'' = 1"
    by (simp_all add: enrolled_def new_record_def count_of_def demo_register_def)
  show ?thesis
    using enrollment_unique [of ?s ?a "AccountAddr 11" "''sale''" "\<lambda>_. 9" None]
      enrollment_unique [of ?s ?a "AccountAddr 12" "''sale''" "\<lambda>_. 9" None] a
    by (auto simp: new_record_def simp del: enr_exec.simps)
qed

section \<open>Where the code falls short of the documents\<close>

text \<open>
  Only identities that are already enrolled can join the waiting list, and promoting one
  that still is counts it a second time: the enrollment count goes up although the set of
  enrolled identities stays the same, and its duplicate count and finalization are erased.
\<close>

theorem enrollment_promotion_double_counts:
  assumes "env_ok s" and "enr_abs s a" and "env_auth s admin"
    and "waitlist_of a q = who # rest" and "length rest + 1 < 2 ^ 32" and "enrolled a who q"
    and "unat (count_of a q) + 1 < 2 ^ 32"
  shows "\<exists>t r. enr_exec sha (PromoteFromWaitlist admin q 1) s = Inr (EUnit, t) \<and>
    enrollment_count q t = Inr (count_of a q + 1, t) \<and>
    (\<forall>x. enr_is_enrolled x q t = Inr (enrolled a x q, t)) \<and>
    env_data t (enr_record_key who q) = Some (ERecord r) \<and> enr_duplicate_count r = 0 \<and>
    \<not> enr_finalized r"
proof -
  let ?h = "compute_proof_hash sha who q (now s)"
  have "unat (word_of_nat (length (who # rest)) :: u32) = length (who # rest)"
    using assms(5) by (intro unat_u32_of_nat) simp
  then have "(1 :: u32) \<le> word_of_nat (length (who # rest))"
    by (simp add: word_le_nat_alt del: of_nat_Suc)
  then have one: "promoted 1 (who # rest) = 1"
    unfolding promoted_def by (simp add: min_def del: of_nat_Suc length_Cons list.size)
  have "checked_add (count_of a q) 1 = Some (count_of a q + 1)"
    using assms(7) by (simp add: checked_add_def)
  then have "enr_spec sha (env_auth s) (now s) (PromoteFromWaitlist admin q 1) a =
      Inr (EUnit, set_waitlist q rest (set_count q (count_of a q + 1)
          (set_record who q (new_record who q (now s) ?h 0 None) a)),
        [enr_event ''Enrolled'' q who (now s) ?h])"
    using assms(3,4) one by (simp add: Let_def)
  from enr_call_accepted [OF assms(1,2) this] obtain t
    where t: "enr_exec sha (PromoteFromWaitlist admin q 1) s = Inr (EUnit, t)"
      and b: "enr_abs t (set_waitlist q rest (set_count q (count_of a q + 1)
          (set_record who q (new_record who q (now s) ?h 0 None) a)))"
    by blast
  have "env_data t (enr_record_key who q) = Some (ERecord (new_record who q (now s) ?h 0 None))"
    using enr_abs_data(1) [OF b, of who q] by simp
  with t assms(6) show ?thesis
    by (auto simp: is_enrolled_read [OF b] count_read [OF b] enrolled_def new_record_def
        simp del: enr_exec.simps)
qed

theorem enrollment_promotion_double_counts_witness:
  "\<exists>t. enr_exec (\<lambda>_. 0) (PromoteFromWaitlist (AccountAddr 66) ''sale'' 1)
       (enr_stored (\<lambda>_. True) demo_register) = Inr (EUnit, t) \<and>
     enrollment_count ''sale'' t = Inr (2, t) \<and>
     card {who. enr_is_enrolled who ''sale'' t = Inr (True, t)} = 1"
proof -
  have "\<exists>t r. enr_exec (\<lambda>_. 0) (PromoteFromWaitlist (AccountAddr 66) ''sale'' 1)
       (enr_stored (\<lambda>_. True) demo_register) = Inr (EUnit, t) \<and>
    enrollment_count ''sale'' t = Inr (count_of demo_register ''sale'' + 1, t) \<and>
    (\<forall>x. enr_is_enrolled x ''sale'' t = Inr (enrolled demo_register x ''sale'', t)) \<and>
    env_data t (enr_record_key (AccountAddr 11) ''sale'') = Some (ERecord r) \<and>
    enr_duplicate_count r = 0 \<and> \<not> enr_finalized r"
    by (rule enrollment_promotion_double_counts [OF _ enr_abs_stored, where rest = "[]"])
      (simp_all add: enrolled_def new_record_def)
  then show ?thesis
    using demo_register_ids [of "''sale''"]
    by (auto simp: active_ids_def simp del: enr_exec.simps)
qed

text \<open>
  The administrator's calls check a signature only: any signer can change the duplicate
  behaviour of the whole contract and finalize anybody's active enrolment.
\<close>

theorem enrollment_any_signer_administers:
  assumes "env_ok s" and "enr_abs s a" and "env_auth s mallory"
    and "ar_records a (who, q) = Some r" and "\<not> enr_cancelled r" and "\<not> enr_finalized r"
  shows "(\<exists>t. enr_exec sha (SetDuplicateBehavior mallory d) s = Inr (EUnit, t) \<and>
      env_data t dup_behavior_key = Some (EBehavior d)) \<and>
    (\<exists>t. enr_exec sha (FinalizeEnrollment mallory who q) s = Inr (EUnit, t) \<and>
      env_data t (enr_record_key who q) = Some (ERecord (r\<lparr>enr_finalized := True\<rparr>)))"
proof
  have "enr_spec sha (env_auth s) (now s) (SetDuplicateBehavior mallory d) a =
      Inr (EUnit, a\<lparr>ar_behavior := Some d\<rparr>,
        [Event [SymbolV ''lineproof_enrollment'', SymbolV ''DuplicateBehaviorChanged'']
           (behavior_val d)])"
    using assms(3) by simp
  from enr_call_accepted [OF assms(1,2) this] show
    "\<exists>t. enr_exec sha (SetDuplicateBehavior mallory d) s = Inr (EUnit, t) \<and>
      env_data t dup_behavior_key = Some (EBehavior d)"
    by (auto simp: enr_abs_data(2) simp del: enr_exec.simps)
  have "enr_spec sha (env_auth s) (now s) (FinalizeEnrollment mallory who q) a =
      Inr (EUnit, set_record who q (r\<lparr>enr_finalized := True\<rparr>) a,
        [enr_event ''Finalized'' q who (enr_enrolled_at r) (enr_proof_hash r)])"
    using assms(3-6) by simp
  from enr_call_accepted [OF assms(1,2) this] show
    "\<exists>t. enr_exec sha (FinalizeEnrollment mallory who q) s = Inr (EUnit, t) \<and>
      env_data t (enr_record_key who q) = Some (ERecord (r\<lparr>enr_finalized := True\<rparr>))"
    by (auto simp: enr_abs_data(1) simp del: enr_exec.simps)
qed

theorem enrollment_any_signer_administers_witness:
  "\<exists>t. enr_exec (\<lambda>_. 0) (FinalizeEnrollment (AccountAddr 66) (AccountAddr 11) ''sale'')
       (enr_stored (\<lambda>a. a = AccountAddr 66) demo_register) = Inr (EUnit, t)"
proof -
  let ?r = "new_record (AccountAddr 11) ''sale'' 900 5 3 None"
  have "\<not> enr_cancelled ?r" "\<not> enr_finalized ?r" by (simp_all add: new_record_def)
  from enrollment_any_signer_administers [OF _ enr_abs_stored _ _ this,
      of "\<lambda>a. a = AccountAddr 66" demo_register "AccountAddr 66" "AccountAddr 11" "''sale''" "\<lambda>_. 0"]
  show ?thesis
    by (auto simp del: enr_exec.simps)
qed

end
