(* ===== verification/Escrow.thy ===== *)
theory Escrow
  imports Contract_Env
begin

text \<open>
  The escrow contract (\<open>contracts/lineproof-escrow/src/lib.rs\<close>): data, storage keys and every
  entry point, in the order of the source. Amounts are \<open>i128\<close>, two's complement words read
  with \<open>sint\<close>.
\<close>

section \<open>Data\<close>

definition ESCROW_TTL_BUFFER :: u32 where
  "ESCROW_TTL_BUFFER = 86400"

datatype escrow_status = EscrowActive | Released | Refunded | EscrowExpired

record escrow_record =
  esc_queue_id :: symbol
  esc_identity :: address
  esc_amount :: i128
  esc_asset :: address
  esc_status :: escrow_status
  esc_created_at :: u64
  esc_expires_at :: u64
  esc_released_at :: "u64 option"

record escrow_config =
  ecf_queue_id :: symbol
  ecf_min_deposit :: i128
  ecf_max_deposit :: i128
  ecf_hold_period_days :: u64
  ecf_admin :: address

datatype esc_val = EscRecord escrow_record | EscConfig escrow_config | EscTotal i128

fun as_escrow :: "esc_val \<Rightarrow> escrow_record option" where
  "as_escrow (EscRecord r) = Some r"
| "as_escrow _ = None"

fun as_escrow_config :: "esc_val \<Rightarrow> escrow_config option" where
  "as_escrow_config (EscConfig c) = Some c"
| "as_escrow_config _ = None"

fun as_total :: "esc_val \<Rightarrow> i128 option" where
  "as_total (EscTotal n) = Some n"
| "as_total _ = None"

definition esc_record_key :: "address \<Rightarrow> symbol \<Rightarrow> sc_val" where
  "esc_record_key identity queue_id = VecV [SymbolV ''escrow'', SymbolV queue_id, AddressV identity]"

definition esc_config_key :: "symbol \<Rightarrow> sc_val" where
  "esc_config_key queue_id = VecV [SymbolV ''escrow_config'', SymbolV queue_id]"

definition esc_total_key :: "symbol \<Rightarrow> sc_val" where
  "esc_total_key queue_id = VecV [SymbolV ''escrow_total'', SymbolV queue_id]"

lemma esc_keys [simp]:
  "esc_record_key a q = esc_record_key b p \<longleftrightarrow> a = b \<and> q = p"
  "esc_config_key q = esc_config_key p \<longleftrightarrow> q = p"
  "esc_total_key q = esc_total_key p \<longleftrightarrow> q = p"
  "esc_record_key a q \<noteq> esc_config_key p" "esc_config_key p \<noteq> esc_record_key a q"
  "esc_record_key a q \<noteq> esc_total_key p" "esc_total_key p \<noteq> esc_record_key a q"
  "esc_config_key q \<noteq> esc_total_key p" "esc_total_key p \<noteq> esc_config_key q"
  by (auto simp: esc_record_key_def esc_config_key_def esc_total_key_def)

section \<open>Helpers\<close>

definition esc_emit :: "symbol \<Rightarrow> symbol \<Rightarrow> address \<Rightarrow> i128 \<Rightarrow> (esc_val, unit) action" where
  "esc_emit kind queue_id identity amount =
     publish [SymbolV ''lineproof_escrow'', SymbolV kind, SymbolV queue_id]
       (VecV [AddressV identity, I128V amount])"

definition esc_load_record :: "address \<Rightarrow> symbol \<Rightarrow> (esc_val, escrow_record) action" where
  "esc_load_record identity queue_id =
     bind_op (storage_expect as_escrow ''escrow record not found'' (esc_record_key identity queue_id))
       (\<lambda>record.
     then_op (extend_ttl (esc_record_key identity queue_id) TTL_THRESHOLD TTL_EXTEND_TO)
     (ret record))"

definition decrement_total :: "symbol \<Rightarrow> i128 \<Rightarrow> (esc_val, unit) action" where
  "decrement_total queue_id amount =
     bind_op (storage_get_or as_total 0 (esc_total_key queue_id)) (\<lambda>current.
     bind_op (arith (checked_ssub current amount)) (\<lambda>current'.
     set_and_extend (esc_total_key queue_id) (EscTotal current')))"

section \<open>Entry points\<close>

definition esc_deposit :: "address \<Rightarrow> symbol \<Rightarrow> i128 \<Rightarrow> address \<Rightarrow> (esc_val, unit) action" where
  "esc_deposit caller queue_id amount asset =
     then_op (require_auth caller)
     (then_op (panic_if (sint amount \<le> 0) ''amount must be positive'')
     (bind_op (storage_has (esc_record_key caller queue_id)) (\<lambda>present.
     then_op (panic_if present ''existing escrow record'')
     (bind_op (reads now) (\<lambda>created_at.
     bind_op (storage_expect as_escrow_config ''escrow_not_configured'' (esc_config_key queue_id))
       (\<lambda>config.
     then_op (panic_if (sint amount < sint (ecf_min_deposit config) \<or>
                        sint (ecf_max_deposit config) < sint amount)
        ''amount outside configured bounds'')
     (bind_op (arith (checked_mul (ecf_hold_period_days config) 86400)) (\<lambda>hold.
     bind_op (arith (checked_add created_at hold)) (\<lambda>expires_at.
     then_op (set_and_extend (esc_record_key caller queue_id)
        (EscRecord \<lparr>esc_queue_id = queue_id, esc_identity = caller, esc_amount = amount,
           esc_asset = asset, esc_status = EscrowActive, esc_created_at = created_at,
           esc_expires_at = expires_at, esc_released_at = None\<rparr>))
     (bind_op (storage_get_or as_total 0 (esc_total_key queue_id)) (\<lambda>current.
     bind_op (arith (checked_sadd current amount)) (\<lambda>current'.
     then_op (set_and_extend (esc_total_key queue_id) (EscTotal current'))
     (esc_emit ''Deposited'' queue_id caller amount)))))))))))))"

text \<open>
  The part \<open>release\<close>, \<open>refund\<close> and \<open>expire\<close> have in common once the record is known to be
  active.
\<close>

definition esc_settle ::
  "escrow_status \<Rightarrow> symbol \<Rightarrow> escrow_record \<Rightarrow> address \<Rightarrow> symbol \<Rightarrow> (esc_val, unit) action" where
  "esc_settle status kind record identity queue_id =
     bind_op (reads now) (\<lambda>t.
     then_op (set_and_extend (esc_record_key identity queue_id)
        (EscRecord (record\<lparr>esc_status := status, esc_released_at := Some t\<rparr>)))
     (then_op (decrement_total queue_id (esc_amount record))
     (esc_emit kind queue_id identity (esc_amount record))))"

definition esc_release :: "address \<Rightarrow> address \<Rightarrow> symbol \<Rightarrow> (esc_val, unit) action" where
  "esc_release admin identity queue_id =
     then_op (require_auth admin)
     (bind_op (esc_load_record identity queue_id) (\<lambda>record.
     then_op (panic_if (esc_status record \<noteq> EscrowActive) ''escrow not active'')
     (esc_settle Released ''Released'' record identity queue_id)))"

definition esc_refund :: "address \<Rightarrow> address \<Rightarrow> symbol \<Rightarrow> (esc_val, unit) action" where
  "esc_refund admin identity queue_id =
     then_op (require_auth admin)
     (bind_op (esc_load_record identity queue_id) (\<lambda>record.
     then_op (panic_if (esc_status record \<noteq> EscrowActive) ''escrow not active'')
     (esc_settle Refunded ''Refunded'' record identity queue_id)))"

definition esc_expire :: "address \<Rightarrow> symbol \<Rightarrow> (esc_val, unit) action" where
  "esc_expire identity queue_id =
     bind_op (esc_load_record identity queue_id) (\<lambda>record.
     bind_op (reads now) (\<lambda>t.
     then_op (panic_if (t < esc_expires_at record) ''not expired'')
     (then_op (panic_if (esc_status record \<noteq> EscrowActive) ''escrow not active'')
     (esc_settle EscrowExpired ''Expired'' record identity queue_id))))"

definition esc_get_record :: "address \<Rightarrow> symbol \<Rightarrow> (esc_val, escrow_record option) action" where
  "esc_get_record identity queue_id =
     bind_op (storage_has (esc_record_key identity queue_id)) (\<lambda>present.
     if present then bind_op (esc_load_record identity queue_id) (\<lambda>record. ret (Some record))
     else ret None)"

definition I128_MAX :: i128 where
  "I128_MAX = word_of_int (2 ^ 127 - 1)"

definition esc_get_config :: "symbol \<Rightarrow> (esc_val, escrow_config) action" where
  "esc_get_config queue_id =
     bind_op (reads env_self) (\<lambda>self.
     storage_get_or as_escrow_config
       \<lparr>ecf_queue_id = queue_id, ecf_min_deposit = 0, ecf_max_deposit = I128_MAX,
        ecf_hold_period_days = 30, ecf_admin = self\<rparr>
       (esc_config_key queue_id))"

definition esc_set_config :: "address \<Rightarrow> escrow_config \<Rightarrow> (esc_val, unit) action" where
  "esc_set_config admin config =
     then_op (require_auth admin)
     (then_op (panic_if (sint (ecf_max_deposit config) < sint (ecf_min_deposit config))
        ''min_deposit_exceeds_max'')
     (then_op (panic_if (ecf_hold_period_days config = 0) ''hold_period_must_be_positive'')
     (set_and_extend (esc_config_key (ecf_queue_id config)) (EscConfig config))))"

definition esc_get_total_held :: "symbol \<Rightarrow> (esc_val, i128) action" where
  "esc_get_total_held queue_id = storage_get_or as_total 0 (esc_total_key queue_id)"

section \<open>The contract as a machine\<close>

datatype esc_call =
    Deposit address symbol i128 address
  | Release address address symbol
  | Refund address address symbol
  | ExpireEscrow address symbol
  | SetEscrowConfig address escrow_config

fun esc_exec :: "esc_call \<Rightarrow> (esc_val, unit) action" where
  "esc_exec (Deposit who q n asset) = esc_deposit who q n asset"
| "esc_exec (Release admin who q) = esc_release admin who q"
| "esc_exec (Refund admin who q) = esc_refund admin who q"
| "esc_exec (ExpireEscrow who q) = esc_expire who q"
| "esc_exec (SetEscrowConfig admin config) = esc_set_config admin config"

end
