(* ===== verification/Escrow_Inv.thy ===== *)
theory Escrow_Inv
  imports Escrow Contract_Machine
begin

text \<open>
  The escrow as its users understand it: records by depositor and queue, configurations and
  running totals by queue. The contract computes exactly its transitions, the running total of
  a queue is the sum of its active deposits, and a settled record never changes.
\<close>

section \<open>The abstract escrow\<close>

record aescrow =
  ae_records :: "address \<times> symbol \<rightharpoonup> escrow_record"
  ae_configs :: "symbol \<rightharpoonup> escrow_config"
  ae_totals :: "symbol \<rightharpoonup> i128"

definition total_of :: "aescrow \<Rightarrow> symbol \<Rightarrow> i128" where
  "total_of a q = (case ae_totals a q of None \<Rightarrow> 0 | Some n \<Rightarrow> n)"

definition esc_event :: "symbol \<Rightarrow> symbol \<Rightarrow> address \<Rightarrow> i128 \<Rightarrow> event" where
  "esc_event kind q who n =
     Event [SymbolV ''lineproof_escrow'', SymbolV kind, SymbolV q] (VecV [AddressV who, I128V n])"

definition deposit_expiry :: "u64 \<Rightarrow> escrow_config \<Rightarrow> u64 option" where
  "deposit_expiry t c =
     (case checked_mul (ecf_hold_period_days c) 86400 of
        None \<Rightarrow> None | Some hold \<Rightarrow> checked_add t hold)"

definition spec_deposit ::
  "u64 \<Rightarrow> address \<Rightarrow> symbol \<Rightarrow> i128 \<Rightarrow> address \<Rightarrow> aescrow \<Rightarrow> (unit, aescrow) spec_result" where
  "spec_deposit t who q n asset a =
     (if sint n \<le> 0 then Inl (Panic ''amount must be positive'')
      else if ae_records a (who, q) \<noteq> None then Inl (Panic ''existing escrow record'')
      else case ae_configs a q of
        None \<Rightarrow> Inl (Panic ''escrow_not_configured'')
      | Some c \<Rightarrow>
          if sint n < sint (ecf_min_deposit c) \<or> sint (ecf_max_deposit c) < sint n
          then Inl (Panic ''amount outside configured bounds'')
          else case deposit_expiry t c of
            None \<Rightarrow> Inl overflow_panic
          | Some e \<Rightarrow>
              (case checked_sadd (total_of a q) n of
                 None \<Rightarrow> Inl overflow_panic
               | Some tot \<Rightarrow>
                   Inr ((), a\<lparr>ae_records := (ae_records a)((who, q) \<mapsto>
                         \<lparr>esc_queue_id = q, esc_identity = who, esc_amount = n, esc_asset = asset,
                          esc_status = EscrowActive, esc_created_at = t, esc_expires_at = e,
                          esc_released_at = None\<rparr>),
                       ae_totals := (ae_totals a)(q \<mapsto> tot)\<rparr>,
                     [esc_event ''Deposited'' q who n])))"

definition spec_settle ::
  "escrow_status \<Rightarrow> symbol \<Rightarrow> u64 \<Rightarrow> address \<Rightarrow> symbol \<Rightarrow> escrow_record \<Rightarrow> aescrow \<Rightarrow>
   (unit, aescrow) spec_result" where
  "spec_settle st kind t who q r a =
     (if esc_status r \<noteq> EscrowActive then Inl (Panic ''escrow not active'')
      else case checked_ssub (total_of a q) (esc_amount r) of
        None \<Rightarrow> Inl overflow_panic
      | Some tot \<Rightarrow>
          Inr ((), a\<lparr>ae_records := (ae_records a)((who, q) \<mapsto>
                r\<lparr>esc_status := st, esc_released_at := Some t\<rparr>),
              ae_totals := (ae_totals a)(q \<mapsto> tot)\<rparr>,
            [esc_event kind q who (esc_amount r)]))"

definition with_record ::
  "aescrow \<Rightarrow> address \<Rightarrow> symbol \<Rightarrow> (escrow_record \<Rightarrow> (unit, aescrow) spec_result) \<Rightarrow>
   (unit, aescrow) spec_result" where
  "with_record a who q k =
     (case ae_records a (who, q) of
        None \<Rightarrow> Inl (Panic ''escrow record not found'') | Some r \<Rightarrow> k r)"

fun esc_spec :: "(esc_call, unit, aescrow) spec" where
  "esc_spec auth t (Deposit who q n asset) a =
     (if \<not> auth who then Inl auth_error else spec_deposit t who q n asset a)"
| "esc_spec auth t (Release admin who q) a =
     (if \<not> auth admin then Inl auth_error
      else with_record a who q (\<lambda>r. spec_settle Released ''Released'' t who q r a))"
| "esc_spec auth t (Refund admin who q) a =
     (if \<not> auth admin then Inl auth_error
      else with_record a who q (\<lambda>r. spec_settle Refunded ''Refunded'' t who q r a))"
| "esc_spec auth t (ExpireEscrow who q) a =
     with_record a who q (\<lambda>r.
       if t < esc_expires_at r then Inl (Panic ''not expired'')
       else spec_settle EscrowExpired ''Expired'' t who q r a)"
| "esc_spec auth t (SetEscrowConfig admin c) a =
     (if \<not> auth admin then Inl auth_error
      else if sint (ecf_max_deposit c) < sint (ecf_min_deposit c)
      then Inl (Panic ''min_deposit_exceeds_max'')
      else if ecf_hold_period_days c = 0 then Inl (Panic ''hold_period_must_be_positive'')
      else Inr ((), a\<lparr>ae_configs := (ae_configs a)(ecf_queue_id c \<mapsto> c)\<rparr>, []))"

definition esc_abs :: "esc_val env \<Rightarrow> aescrow \<Rightarrow> bool" where
  "esc_abs s a \<longleftrightarrow>
     (\<forall>who q. env_data s (esc_record_key who q) = map_option EscRecord (ae_records a (who, q))) \<and>
     (\<forall>q. env_data s (esc_config_key q) = map_option EscConfig (ae_configs a q)) \<and>
     (\<forall>q. env_data s (esc_total_key q) = map_option EscTotal (ae_totals a q))"

section \<open>Invariant and history\<close>

definition is_active :: "aescrow \<Rightarrow> symbol \<Rightarrow> address \<times> symbol \<Rightarrow> bool" where
  "is_active a q k \<longleftrightarrow>
     snd k = q \<and> (\<exists>r. ae_records a k = Some r \<and> esc_status r = EscrowActive)"

definition held_by :: "aescrow \<Rightarrow> address \<times> symbol \<Rightarrow> int" where
  "held_by a k = (case ae_records a k of None \<Rightarrow> 0 | Some r \<Rightarrow> sint (esc_amount r))"

definition held :: "aescrow \<Rightarrow> symbol \<Rightarrow> int" where
  "held a q = (\<Sum>k \<in> {k. is_active a q k}. held_by a k)"

definition escrow_record_ok :: "address \<times> symbol \<Rightarrow> escrow_record \<Rightarrow> bool" where
  "escrow_record_ok k r \<longleftrightarrow>
     k = (esc_identity r, esc_queue_id r) \<and> 0 < sint (esc_amount r) \<and>
     esc_created_at r \<le> esc_expires_at r \<and>
     (esc_released_at r = None \<longleftrightarrow> esc_status r = EscrowActive) \<and>
     (esc_status r = EscrowExpired \<longrightarrow>
        (\<exists>t. esc_released_at r = Some t \<and> esc_expires_at r \<le> t))"

definition esc_inv :: "aescrow \<Rightarrow> bool" where
  "esc_inv a \<longleftrightarrow>
     finite (dom (ae_records a)) \<and>
     (\<forall>k r. ae_records a k = Some r \<longrightarrow> escrow_record_ok k r) \<and>
     (\<forall>q. sint (total_of a q) = held a q)"

definition escrow_record_le :: "escrow_record \<Rightarrow> escrow_record \<Rightarrow> bool" where
  "escrow_record_le r r' \<longleftrightarrow>
     esc_amount r' = esc_amount r \<and> esc_asset r' = esc_asset r \<and>
     esc_identity r' = esc_identity r \<and> esc_queue_id r' = esc_queue_id r \<and>
     esc_expires_at r' = esc_expires_at r \<and> (esc_status r \<noteq> EscrowActive \<longrightarrow> r' = r)"

definition esc_le :: "aescrow \<Rightarrow> aescrow \<Rightarrow> bool" where
  "esc_le a b \<longleftrightarrow>
     (\<forall>k r. ae_records a k = Some r \<longrightarrow>
        (\<exists>r'. ae_records b k = Some r' \<and> escrow_record_le r r'))"

definition esc_empty :: aescrow where
  "esc_empty = \<lparr>ae_records = Map.empty, ae_configs = Map.empty, ae_totals = Map.empty\<rparr>"

section \<open>The contract computes the abstract transitions\<close>

lemma total_read:
  assumes "esc_abs s a"
  shows "storage_get_or as_total 0 (esc_total_key q) s = Inr (total_of a q, s)"
  using assms by (auto simp: esc_abs_def storage_get_or_eval total_of_def split: option.splits)

lemma esc_abs_bump [simp]: "esc_abs (bump k s) a \<longleftrightarrow> esc_abs s a"
  by (simp add: esc_abs_def)

lemma esc_abs_event [simp]: "esc_abs (add_event ts p s) a \<longleftrightarrow> esc_abs s a"
  by (simp add: esc_abs_def)

lemma esc_abs_record:
  assumes "esc_abs s a"
  shows "esc_abs (put_data (esc_record_key who q) (EscRecord r) s)
    (a\<lparr>ae_records := (ae_records a)((who, q) \<mapsto> r)\<rparr>)"
  using assms by (simp add: esc_abs_def)

lemma esc_abs_total:
  assumes "esc_abs s a"
  shows "esc_abs (put_data (esc_total_key q) (EscTotal n) s)
    (a\<lparr>ae_totals := (ae_totals a)(q \<mapsto> n)\<rparr>)"
  using assms by (simp add: esc_abs_def)

lemma sim_deposit:
  assumes "env_ok s" and "esc_abs s a"
  shows "call_matches esc_abs s (esc_spec (env_auth s) (now s) (Deposit who q n asset) a)
    (esc_exec (Deposit who q n asset) s)"
  using assms
  by (auto simp: esc_deposit_def spec_deposit_def machine_simps esc_emit_def esc_event_def
      deposit_expiry_def esc_abs_def total_of_def split: option.splits)

lemma sim_settle:
  assumes "env_ok s" and "esc_abs s a" and "ae_records a (who, q) = Some r"
    and "esc_status r = EscrowActive"
  shows "call_matches esc_abs s (spec_settle st kind (now s) who q r a)
    (esc_settle st kind r who q (bump (esc_record_key who q) s))"
  using assms
  by (auto simp: esc_settle_def spec_settle_def machine_simps esc_emit_def esc_event_def
      decrement_total_def esc_abs_def total_of_def split: option.splits)

lemma esc_load_sim:
  assumes "env_ok s" and "esc_abs s a"
  shows "esc_load_record who q s =
    (case ae_records a (who, q) of
       None \<Rightarrow> Inl (Panic ''escrow record not found'')
     | Some r \<Rightarrow> Inr (r, bump (esc_record_key who q) s))"
  using assms by (auto simp: esc_load_record_def op_eval esc_abs_def split: option.splits)

lemma sim_esc_exec:
  assumes "env_ok s" and "esc_abs s a"
  shows "call_matches esc_abs s (esc_spec (env_auth s) (now s) c a) (esc_exec c s)"
proof (cases c)
  case (Deposit who q n asset)
  with sim_deposit [OF assms] show ?thesis by simp
next
  case (Release admin who q)
  with assms sim_settle [OF assms, of who q] esc_load_sim [OF assms, of who q] show ?thesis
    by (auto simp: esc_release_def with_record_def op_eval auth_error_def spec_settle_def
        split: option.splits)
next
  case (Refund admin who q)
  with assms sim_settle [OF assms, of who q] esc_load_sim [OF assms, of who q] show ?thesis
    by (auto simp: esc_refund_def with_record_def op_eval auth_error_def spec_settle_def
        split: option.splits)
next
  case (ExpireEscrow who q)
  with assms sim_settle [OF assms, of who q] esc_load_sim [OF assms, of who q] show ?thesis
    by (auto simp: esc_expire_def with_record_def op_eval auth_error_def spec_settle_def
        split: option.splits)
next
  case (SetEscrowConfig admin config)
  with assms show ?thesis
    by (auto simp: esc_set_config_def machine_simps esc_abs_def)
qed

section \<open>Every transition keeps the invariant and moves forward\<close>

lemma finite_active: "finite (dom (ae_records a)) \<Longrightarrow> finite {k. is_active a q k}"
  by (rule finite_subset [of _ "dom (ae_records a)"]) (auto simp: is_active_def)

lemma held_cong:
  assumes "\<And>k. snd k = q \<Longrightarrow> ae_records b k = ae_records a k"
  shows "held b q = held a q"
  using assms unfolding held_def
  by (intro sum.cong) (auto simp: is_active_def held_by_def)

lemma held_deposit:
  assumes "finite (dom (ae_records a))" and "ae_records a (who, q) = None"
    and "ae_records b = (ae_records a)((who, q) \<mapsto> r)" and "esc_status r = EscrowActive"
  shows "held b q = held a q + sint (esc_amount r)"
proof -
  have "{k. is_active b q k} = insert (who, q) {k. is_active a q k}"
    using assms(3,4) by (auto simp: is_active_def)
  moreover have "\<not> is_active a q (who, q)"
    using assms(2) by (simp add: is_active_def)
  moreover have "(\<Sum>k \<in> {k. is_active a q k}. held_by b k) = held a q"
    unfolding held_def using assms(2,3) by (intro sum.cong) (auto simp: is_active_def held_by_def)
  ultimately show ?thesis
    using finite_active [OF assms(1)] assms(3) by (simp add: held_def held_by_def)
qed

lemma held_settle:
  assumes "finite (dom (ae_records a))" and "ae_records a (who, q) = Some r"
    and "esc_status r = EscrowActive"
    and "ae_records b = (ae_records a)((who, q) \<mapsto> r')" and "esc_status r' \<noteq> EscrowActive"
  shows "held b q = held a q - sint (esc_amount r)"
proof -
  have "is_active a q k \<longleftrightarrow> k = (who, q) \<or> is_active b q k" for k
    using assms by (cases "k = (who, q)") (simp_all add: is_active_def)
  then have "{k. is_active a q k} = insert (who, q) {k. is_active b q k}"
    by auto
  moreover have "\<not> is_active b q (who, q)"
    using assms(4,5) by (simp add: is_active_def)
  moreover have "finite {k. is_active b q k}"
    using assms(1,4) by (intro finite_active) simp
  moreover have "(\<Sum>k \<in> {k. is_active b q k}. held_by a k) = held b q"
    unfolding held_def
  proof (rule sum.cong)
    fix k
    assume "k \<in> {k. is_active b q k}"
    then have "k \<noteq> (who, q)" using \<open>\<not> is_active b q (who, q)\<close> by auto
    then show "held_by a k = held_by b k" using assms(4) by (simp add: held_by_def)
  qed simp
  ultimately show ?thesis
    using assms(2) by (simp add: held_def held_by_def)
qed

lemma esc_inv_amount:
  assumes "esc_inv a" and "ae_records a k = Some r"
  shows "0 < sint (esc_amount r)" and "0 \<le> sint (esc_amount r)"
proof -
  have "escrow_record_ok k r"
    using assms unfolding esc_inv_def by blast
  then show "0 < sint (esc_amount r)" and "0 \<le> sint (esc_amount r)"
    by (simp_all add: escrow_record_ok_def)
qed

lemma held_settle_ge:
  assumes "esc_inv a" and "ae_records a (who, q) = Some r" and "esc_status r = EscrowActive"
  shows "sint (esc_amount r) \<le> held a q"
proof -
  have "held_by a (who, q) \<le> held a q"
    unfolding held_def
  proof (rule member_le_sum)
    show "(who, q) \<in> {k. is_active a q k}" using assms(2,3) by (simp add: is_active_def)
    show "finite {k. is_active a q k}"
      using assms(1) by (intro finite_active) (simp add: esc_inv_def)
    show "0 \<le> held_by a k" if "k \<in> {k. is_active a q k} - {(who, q)}" for k
      using esc_inv_amount [OF assms(1), of k] by (auto simp: held_by_def split: option.splits)
  qed
  with assms(2) show ?thesis by (simp add: held_by_def)
qed

lemma checked_ssub_no_overflow:
  fixes a b :: "'a::len word"
  assumes "0 \<le> sint b" and "sint b \<le> sint a"
  shows "checked_ssub a b = Some (a - b)"
proof -
  have "sint a < 2 ^ (LENGTH('a) - 1)" by (rule sint_lt)
  moreover have "0 \<le> (2 :: int) ^ (LENGTH('a) - 1)" by simp
  ultimately show ?thesis
    using assms by (simp add: checked_ssub_def)
qed

text \<open>Settling an active record never overflows the running total.\<close>

lemma settle_total:
  assumes "esc_inv a" and "ae_records a (who, q) = Some r" and "esc_status r = EscrowActive"
  shows "checked_ssub (total_of a q) (esc_amount r) = Some (total_of a q - esc_amount r)"
proof (rule checked_ssub_no_overflow)
  show "0 \<le> sint (esc_amount r)"
    using assms(1,2) by (rule esc_inv_amount)
  show "sint (esc_amount r) \<le> sint (total_of a q)"
    using held_settle_ge [OF assms] assms(1) by (simp add: esc_inv_def)
qed

lemma deposit_expiry_ge: "deposit_expiry t c = Some e \<Longrightarrow> t \<le> e"
  by (auto simp: deposit_expiry_def word_le_nat_alt split: option.splits dest!: checked_add_Some(2))

lemma spec_deposit_inv:
  assumes "esc_inv a" and "spec_deposit t who q n asset a = Inr (u, b, evs)"
  shows "esc_inv b"
proof -
  from assms(2) obtain e tot where new: "ae_records a (who, q) = None" "0 < sint n"
    "t \<le> e" "checked_sadd (total_of a q) n = Some tot"
    and b: "b = a\<lparr>ae_records := (ae_records a)((who, q) \<mapsto>
        \<lparr>esc_queue_id = q, esc_identity = who, esc_amount = n, esc_asset = asset,
         esc_status = EscrowActive, esc_created_at = t, esc_expires_at = e,
         esc_released_at = None\<rparr>), ae_totals := (ae_totals a)(q \<mapsto> tot)\<rparr>"
    by (auto simp: spec_deposit_def dest: deposit_expiry_ge split: if_splits option.splits)
  have "held b q = held a q + sint n"
    using assms(1) new(1) by (subst held_deposit) (auto simp: b esc_inv_def)
  moreover have "held b p = held a p" if "p \<noteq> q" for p
    using that by (intro held_cong) (auto simp: b)
  ultimately have "sint (total_of b p) = held b p" for p
    using assms(1) checked_sadd_Some [OF new(4)] by (cases "p = q") (auto simp: b total_of_def esc_inv_def)
  then show ?thesis
    using assms(1) new by (auto simp: esc_inv_def escrow_record_ok_def b)
qed

lemma spec_settle_inv:
  assumes "esc_inv a" and "ae_records a (who, q) = Some r"
    and "spec_settle st kind t who q r a = Inr (u, b, evs)" and "st \<noteq> EscrowActive"
    and "st = EscrowExpired \<longrightarrow> esc_expires_at r \<le> t"
  shows "esc_inv b"
proof -
  from assms(3) obtain tot where act: "esc_status r = EscrowActive"
    "checked_ssub (total_of a q) (esc_amount r) = Some tot"
    and b: "b = a\<lparr>ae_records := (ae_records a)((who, q) \<mapsto>
        r\<lparr>esc_status := st, esc_released_at := Some t\<rparr>), ae_totals := (ae_totals a)(q \<mapsto> tot)\<rparr>"
    by (auto simp: spec_settle_def split: if_splits option.splits)
  have "held b q = held a q - sint (esc_amount r)"
    using assms(1,2,4) act(1) by (intro held_settle) (auto simp: b esc_inv_def)
  moreover have "held b p = held a p" if "p \<noteq> q" for p
    using that by (intro held_cong) (auto simp: b)
  ultimately have "sint (total_of b p) = held b p" for p
    using assms(1) checked_ssub_Some [OF act(2)] by (cases "p = q") (auto simp: b total_of_def esc_inv_def)
  then show ?thesis
    using assms by (auto simp: esc_inv_def escrow_record_ok_def b)
qed

lemma esc_spec_inv:
  assumes "esc_inv a" and "esc_spec auth t c a = Inr (u, b, evs)"
  shows "esc_inv b"
proof (cases c)
  case (Deposit who q n asset)
  with assms show ?thesis by (auto intro: spec_deposit_inv split: if_splits)
next
  case (SetEscrowConfig admin config)
  with assms(2) have "ae_records b = ae_records a" "ae_totals b = ae_totals a"
    by (auto split: if_splits)
  with assms(1) show ?thesis
    using held_cong [of _ b a] by (simp add: esc_inv_def total_of_def)
qed (use assms in \<open>auto simp: with_record_def split: if_splits option.splits
      elim!: spec_settle_inv\<close>)

lemma escrow_record_le_refl [simp]: "escrow_record_le r r"
  by (simp add: escrow_record_le_def)

lemma esc_le_settle:
  assumes "ae_records a (who, q) = Some r" and "spec_settle st kind t who q r a = Inr (u, b, evs)"
  shows "esc_le a b"
  using assms
  by (auto simp: spec_settle_def esc_le_def escrow_record_le_def split: if_splits option.splits)

lemma esc_spec_le:
  assumes "esc_spec auth t c a = Inr (u, b, evs)"
  shows "esc_le a b"
proof (cases c)
  case (Deposit who q n asset)
  with assms show ?thesis
    by (auto simp: spec_deposit_def esc_le_def split: if_splits option.splits)
next
  case (SetEscrowConfig admin config)
  with assms show ?thesis by (auto simp: esc_le_def split: if_splits)
qed (use assms in \<open>auto simp: with_record_def split: if_splits option.splits
      intro: esc_le_settle\<close>)

lemma esc_le_trans: "esc_le a b \<Longrightarrow> esc_le b c \<Longrightarrow> esc_le a c"
  unfolding esc_le_def escrow_record_le_def by fastforce

lemma esc_inv_empty: "esc_inv esc_empty"
  by (simp add: esc_inv_def esc_empty_def total_of_def held_def is_active_def)

section \<open>The contract\<close>

interpretation escrow: verified_contract esc_exec esc_abs esc_spec esc_inv esc_le
proof unfold_locales
  show "call_matches esc_abs s (esc_spec (env_auth s) (now s) c a) (esc_exec c s)"
    if "env_ok s" "esc_abs s a" for s a c
    using that by (rule sim_esc_exec)
  show "esc_abs t a" if "esc_abs s a" "env_data t = env_data s" for s t a
    using that by (simp add: esc_abs_def)
  show "esc_le a a" for a by (auto simp: esc_le_def)
qed (auto intro: esc_spec_inv esc_spec_le esc_le_trans)

end
