(* ===== verification/Escrow_Props.thy ===== *)
theory Escrow_Props
  imports Escrow_Inv
begin

text \<open>
  The properties of the escrow contract, consequences of the interpretation
  \<open>escrow: verified_contract\<close>.
\<close>

section \<open>Definitions\<close>

text \<open>The storage that represents an abstract escrow.\<close>

definition esc_entries :: "aescrow \<Rightarrow> sc_val \<Rightarrow> esc_val option" where
  "esc_entries a k =
     (case k of
        VecV [SymbolV tag, SymbolV q, AddressV who] \<Rightarrow>
          if tag = ''escrow'' then map_option EscRecord (ae_records a (who, q)) else None
      | VecV [SymbolV tag, SymbolV q] \<Rightarrow>
          if tag = ''escrow_config'' then map_option EscConfig (ae_configs a q)
          else if tag = ''escrow_total'' then map_option EscTotal (ae_totals a q) else None
      | _ \<Rightarrow> None)"

definition esc_stored :: "(address \<Rightarrow> bool) \<Rightarrow> aescrow \<Rightarrow> esc_val env" where
  "esc_stored auth a = stored auth (esc_entries a)"

definition demo_escrow_config :: escrow_config where
  "demo_escrow_config = \<lparr>ecf_queue_id = ''sale'', ecf_min_deposit = 10, ecf_max_deposit = 500,
     ecf_hold_period_days = 2, ecf_admin = AccountAddr 7\<rparr>"

definition demo_escrow_record :: "escrow_status \<Rightarrow> escrow_record" where
  "demo_escrow_record st = \<lparr>esc_queue_id = ''sale'', esc_identity = AccountAddr 11,
     esc_amount = 100, esc_asset = ContractAddr 5, esc_status = st, esc_created_at = 400,
     esc_expires_at = 900, esc_released_at = (if st = EscrowActive then None else Some 950)\<rparr>"

definition demo_escrow :: "escrow_status \<Rightarrow> aescrow" where
  "demo_escrow st = \<lparr>ae_records = [(AccountAddr 11, ''sale'') \<mapsto> demo_escrow_record st],
     ae_configs = [''sale'' \<mapsto> demo_escrow_config],
     ae_totals = [''sale'' \<mapsto> (if st = EscrowActive then 100 else 0)]\<rparr>"

section \<open>Shared lemmas\<close>

lemma esc_stored_sel [simp]:
  "env_ok (esc_stored auth a)"
  "env_auth (esc_stored auth a) = auth"
  "now (esc_stored auth a) = 1000"
  "env_events (esc_stored auth a) = []"
  by (simp_all add: esc_stored_def)

lemma esc_abs_stored [simp]: "esc_abs (esc_stored auth a) a"
  by (simp add: esc_abs_def esc_stored_def esc_entries_def esc_record_key_def esc_config_key_def
      esc_total_key_def)

lemma held_singleton:
  assumes "ae_records a = [(who, q) \<mapsto> r]"
  shows "held a p = (if p = q \<and> esc_status r = EscrowActive then sint (esc_amount r) else 0)"
proof -
  have "{k. is_active a p k} = (if p = q \<and> esc_status r = EscrowActive then {(who, q)} else {})"
    using assms by (auto simp: is_active_def split: if_splits)
  then show ?thesis using assms by (simp add: held_def held_by_def)
qed

lemma demo_escrow_inv [simp]: "esc_inv (demo_escrow st)"
proof -
  have "held (demo_escrow st) q = sint (total_of (demo_escrow st) q)" for q
    by (subst held_singleton [of _ "AccountAddr 11" "''sale''" "demo_escrow_record st"])
      (simp_all add: demo_escrow_def total_of_def demo_escrow_record_def)
  then show ?thesis
    by (simp add: esc_inv_def escrow_record_ok_def) (simp add: demo_escrow_def demo_escrow_record_def)
qed

lemma esc_abs_get:
  assumes "esc_abs s a"
  shows "env_data s (esc_record_key who q) = Some (EscRecord r) \<longleftrightarrow> ae_records a (who, q) = Some r"
    and "env_data s (esc_record_key who q) = None \<longleftrightarrow> ae_records a (who, q) = None"
  using assms by (auto simp: esc_abs_def)

lemma esc_abs_fresh:
  assumes "\<forall>who q. env_data s (esc_record_key who q) = None"
    and "\<forall>q. env_data s (esc_config_key q) = None" and "\<forall>q. env_data s (esc_total_key q) = None"
  shows "esc_abs s esc_empty"
  using assms by (simp add: esc_abs_def esc_empty_def)

text \<open>What a settling call does to an active record.\<close>

lemma spec_settle_active:
  assumes "esc_inv a" and "ae_records a (who, q) = Some r" and "esc_status r = EscrowActive"
  shows "spec_settle st kind t who q r a =
    Inr ((), a\<lparr>ae_records := (ae_records a)((who, q) \<mapsto>
                r\<lparr>esc_status := st, esc_released_at := Some t\<rparr>),
              ae_totals := (ae_totals a)(q \<mapsto> total_of a q - esc_amount r)\<rparr>,
         [esc_event kind q who (esc_amount r)])"
  using settle_total [OF assms] assms(3) by (simp add: spec_settle_def)

lemma esc_call_accepted:
  assumes "env_ok s" and "esc_abs s a" and "esc_spec (env_auth s) (now s) c a = Inr (u, b, evs)"
  shows "\<exists>t. esc_exec c s = Inr ((), t) \<and> esc_abs t b \<and> env_ok t \<and>
    env_events t = env_events s @ evs \<and> contract_run esc_exec s t"
  using escrow.call_accepted [OF assms] by (auto simp: call_post_def)

lemma esc_exec_abs:
  assumes "env_ok s" and "esc_abs s a" and "esc_exec c s = Inr ((), t)"
  shows "\<exists>b evs. esc_spec (env_auth s) (now s) c a = Inr ((), b, evs) \<and> esc_abs t b"
proof -
  have "call_matches esc_abs s (esc_spec (env_auth s) (now s) c a) (Inr ((), t))"
    using escrow.simulation [OF assms(1,2), of c] unfolding assms(3) .
  then show ?thesis
    by (auto dest!: call_matches_accepted simp: call_post_def)
qed

section \<open>The contract implements its specification\<close>

text \<open>
  C8. On every live environment that represents an abstract escrow, every state-changing call
  behaves as the abstract escrow says: the same error, or the same events and a new
  environment that represents the next abstract escrow.
\<close>

theorem escrow_refines_spec:
  assumes "env_ok s" and "esc_abs s a"
  shows "case esc_spec (env_auth s) (now s) c a of
      Inl e \<Rightarrow> esc_exec c s = Inl e
    | Inr (r, b, evs) \<Rightarrow> \<exists>t. esc_exec c s = Inr (r, t) \<and> esc_abs t b \<and> env_ok t \<and>
        env_events t = env_events s @ evs"
  using escrow.simulation [OF assms, of c]
  by (auto simp: call_matches_def call_post_def split: sum.splits)

theorem escrow_refines_spec_witness:
  "\<exists>t. esc_exec (Release (AccountAddr 7) (AccountAddr 11) ''sale'')
         (esc_stored (\<lambda>_. True) (demo_escrow EscrowActive)) = Inr ((), t) \<and>
     env_events t = [esc_event ''Released'' ''sale'' (AccountAddr 11) 100] \<and>
     esc_exec (Release (AccountAddr 7) (AccountAddr 11) ''sale'')
         (esc_stored (\<lambda>_. True) (demo_escrow Refunded)) = Inl (Panic ''escrow not active'')"
  using escrow_refines_spec [of "esc_stored (\<lambda>_. True) (demo_escrow EscrowActive)"
      "demo_escrow EscrowActive" "Release (AccountAddr 7) (AccountAddr 11) ''sale''"]
    escrow_refines_spec [of "esc_stored (\<lambda>_. True) (demo_escrow Refunded)"
      "demo_escrow Refunded" "Release (AccountAddr 7) (AccountAddr 11) ''sale''"]
  by (auto simp: with_record_def spec_settle_def demo_escrow_def demo_escrow_record_def
      total_of_def checked_ssub_def)

section \<open>Conservation and finality\<close>

text \<open>
  C9. Over any run of the contract from empty storage, the running total that
  \<open>get_total_held\<close> reports for a queue is exactly the sum of the amounts of its active
  deposits: nothing is lost or counted twice, whatever is deposited, released, refunded or
  expired, and in whatever order.
\<close>

theorem escrow_total_is_active_sum:
  assumes "env_ok s" and "\<forall>who q. env_data s (esc_record_key who q) = None"
    and "\<forall>q. env_data s (esc_config_key q) = None" and "\<forall>q. env_data s (esc_total_key q) = None"
    and "contract_run esc_exec s t"
  shows "\<exists>a n. esc_abs t a \<and> finite (dom (ae_records a)) \<and>
    esc_get_total_held q t = Inr (n, t) \<and> sint n = held a q \<and> 0 \<le> sint n"
proof -
  obtain a where a: "esc_abs t a" "esc_inv a"
    using escrow.run_keeps [OF assms(5,1) esc_abs_fresh [OF assms(2-4)] esc_inv_empty] by blast
  have "0 \<le> held a q"
    unfolding held_def
    by (intro sum_nonneg) (auto simp: held_by_def esc_inv_amount [OF a(2)] split: option.splits)
  with a total_read [OF a(1), of q] show ?thesis
    by (auto simp: esc_get_total_held_def esc_inv_def)
qed

theorem escrow_total_is_active_sum_witness:
  "\<exists>t. contract_run esc_exec (esc_stored (\<lambda>_. True) esc_empty) t \<and>
     env_data t (esc_config_key ''sale'') = Some (EscConfig demo_escrow_config) \<and>
     (\<exists>a n. esc_abs t a \<and> esc_get_total_held ''sale'' t = Inr (n, t) \<and> sint n = held a ''sale'')"
proof -
  let ?s = "esc_stored (\<lambda>_. True) esc_empty"
  have "esc_spec (env_auth ?s) (now ?s) (SetEscrowConfig (AccountAddr 7) demo_escrow_config) esc_empty =
      Inr ((), esc_empty\<lparr>ae_configs := [''sale'' \<mapsto> demo_escrow_config]\<rparr>, [])"
    by (simp add: demo_escrow_config_def esc_empty_def)
  from esc_call_accepted [OF _ _ this] obtain t where run: "contract_run esc_exec ?s t"
    and t: "esc_abs t (esc_empty\<lparr>ae_configs := [''sale'' \<mapsto> demo_escrow_config]\<rparr>)"
    by auto
  have "\<exists>a n. esc_abs t a \<and> finite (dom (ae_records a)) \<and>
      esc_get_total_held ''sale'' t = Inr (n, t) \<and> sint n = held a ''sale'' \<and> 0 \<le> sint n"
    by (rule escrow_total_is_active_sum [OF _ _ _ _ run])
      (use esc_abs_stored [of "\<lambda>_. True" esc_empty] in \<open>simp_all add: esc_abs_def esc_empty_def\<close>)
  moreover have "env_data t (esc_config_key ''sale'') = Some (EscConfig demo_escrow_config)"
    using t by (simp add: esc_abs_def)
  ultimately show ?thesis using run by blast
qed

text \<open>
  Finality: a record that has been released, refunded or expired is never changed or
  removed by any later call; an active one keeps its depositor, amount, asset and expiry for
  as long as it exists, so no deposit can be settled twice.
\<close>

theorem escrow_settled_is_final:
  assumes "env_ok s" and "esc_abs s a" and "esc_inv a" and "contract_run esc_exec s t"
    and "env_data s (esc_record_key who q) = Some (EscRecord r)"
  shows "\<exists>r'. env_data t (esc_record_key who q) = Some (EscRecord r') \<and>
    esc_amount r' = esc_amount r \<and> esc_asset r' = esc_asset r \<and>
    esc_identity r' = esc_identity r \<and> esc_expires_at r' = esc_expires_at r \<and>
    (esc_status r \<noteq> EscrowActive \<longrightarrow> r' = r)"
proof -
  obtain b where "esc_abs t b" "esc_le a b"
    using escrow.run_keeps [OF assms(4,1-3)] by blast
  with assms(2,5) show ?thesis
    by (force simp: esc_abs_get esc_le_def escrow_record_le_def)
qed

theorem escrow_settled_is_final_witness:
  "\<exists>t. contract_run esc_exec (esc_stored (\<lambda>_. True) (demo_escrow Released)) t \<and>
     env_data t (esc_record_key (AccountAddr 11) ''sale'') =
       Some (EscRecord (demo_escrow_record Released))"
proof -
  let ?s = "esc_stored (\<lambda>_. True) (demo_escrow Released)"
  have "\<exists>b evs. esc_spec (env_auth ?s) (now ?s) (Deposit (AccountAddr 12) ''sale'' 50 (ContractAddr 5))
      (demo_escrow Released) = Inr ((), b, evs)"
    by (simp add: spec_deposit_def demo_escrow_def demo_escrow_config_def deposit_expiry_def
        checked_mul_def checked_add_def checked_sadd_def total_of_def)
  then obtain t where run: "contract_run esc_exec ?s t"
    using esc_call_accepted [of ?s "demo_escrow Released"] by fastforce
  have "env_data ?s (esc_record_key (AccountAddr 11) ''sale'') =
      Some (EscRecord (demo_escrow_record Released))"
    by (subst esc_abs_get [OF esc_abs_stored]) (simp add: demo_escrow_def)
  from escrow_settled_is_final [OF _ esc_abs_stored demo_escrow_inv run this] run show ?thesis
    by (auto simp: demo_escrow_record_def)
qed

section \<open>When and how records settle\<close>

lemma expire_spec:
  "esc_spec auth t (ExpireEscrow who q) a = (case ae_records a (who, q) of
      None \<Rightarrow> Inl (Panic ''escrow record not found'')
    | Some r \<Rightarrow> if t < esc_expires_at r then Inl (Panic ''not expired'')
        else spec_settle EscrowExpired ''Expired'' t who q r a)"
  by (simp add: with_record_def)

lemma expire_succeeds_iff:
  assumes "env_ok s" and "esc_abs s a" and "esc_inv a"
  shows "(\<exists>t. esc_exec (ExpireEscrow who q) s = Inr ((), t)) \<longleftrightarrow>
      (\<exists>r. ae_records a (who, q) = Some r \<and> esc_status r = EscrowActive \<and> esc_expires_at r \<le> now s)"
proof
  assume "\<exists>t. esc_exec (ExpireEscrow who q) s = Inr ((), t)"
  then obtain b evs where "esc_spec (env_auth s) (now s) (ExpireEscrow who q) a = Inr ((), b, evs)"
    using esc_exec_abs [OF assms(1,2)] by blast
  then show "\<exists>r. ae_records a (who, q) = Some r \<and> esc_status r = EscrowActive \<and>
      esc_expires_at r \<le> now s"
    unfolding expire_spec by (auto simp: spec_settle_def split: option.splits if_splits)
next
  assume "\<exists>r. ae_records a (who, q) = Some r \<and> esc_status r = EscrowActive \<and>
      esc_expires_at r \<le> now s"
  then have "\<exists>b evs. esc_spec (env_auth s) (now s) (ExpireEscrow who q) a = Inr ((), b, evs)"
    unfolding expire_spec using spec_settle_active [OF assms(3)] by auto
  then show "\<exists>t. esc_exec (ExpireEscrow who q) s = Inr ((), t)"
    using esc_call_accepted [OF assms(1,2)] by blast
qed

lemma expire_effect:
  assumes "env_ok s" and "esc_abs s a" and "esc_inv a" and "ae_records a (who, q) = Some r"
    and "esc_exec (ExpireEscrow who q) s = Inr ((), t)"
  shows "\<exists>b. ae_records b (who, q) =
      Some (r\<lparr>esc_status := EscrowExpired, esc_released_at := Some (now s)\<rparr>) \<and> esc_abs t b \<and>
    sint (total_of b q) = sint (total_of a q) - sint (esc_amount r)"
proof -
  obtain b evs where b: "esc_spec (env_auth s) (now s) (ExpireEscrow who q) a = Inr ((), b, evs)"
    "esc_abs t b"
    using esc_exec_abs [OF assms(1,2,5)] by blast
  then have act: "esc_status r = EscrowActive"
    unfolding expire_spec using assms(4)
    by (auto simp: spec_settle_def split: if_splits)
  from b(1) have "b = a\<lparr>ae_records := (ae_records a)((who, q) \<mapsto>
        r\<lparr>esc_status := EscrowExpired, esc_released_at := Some (now s)\<rparr>),
      ae_totals := (ae_totals a)(q \<mapsto> total_of a q - esc_amount r)\<rparr>"
    unfolding expire_spec using assms(4) spec_settle_active [OF assms(3,4) act]
    by (auto split: if_splits)
  with b(2) show ?thesis
    using checked_ssub_Some [OF settle_total [OF assms(3,4) act]]
    by (intro exI [of _ b]) (simp add: total_of_def)
qed

text \<open>
  Anyone may expire an escrow, but only when it is due: \<open>expire\<close> succeeds exactly when the
  record exists, is active and the ledger time has reached its expiry; the record then
  becomes expired, stamped with that time, and its amount leaves the running total.
\<close>

theorem escrow_expire_when_due:
  assumes "env_ok s" and "esc_abs s a" and "esc_inv a"
    and "env_data s (esc_record_key who q) = Some (EscRecord r)"
  shows "if esc_status r = EscrowActive \<and> esc_expires_at r \<le> now s
    then \<exists>t b. esc_exec (ExpireEscrow who q) s = Inr ((), t) \<and>
      env_data t (esc_record_key who q) =
        Some (EscRecord (r\<lparr>esc_status := EscrowExpired, esc_released_at := Some (now s)\<rparr>)) \<and>
      esc_abs t b \<and> sint (total_of b q) = sint (total_of a q) - sint (esc_amount r)
    else \<exists>e. esc_exec (ExpireEscrow who q) s = Inl e"
proof -
  have r: "ae_records a (who, q) = Some r"
    using assms(2,4) by (simp add: esc_abs_get [OF assms(2)])
  show ?thesis
  proof (cases "esc_status r = EscrowActive \<and> esc_expires_at r \<le> now s")
    case True
    then obtain t where t: "esc_exec (ExpireEscrow who q) s = Inr ((), t)"
      using expire_succeeds_iff [OF assms(1-3), of who q] r by blast
    from expire_effect [OF assms(1-3) r t] True t show ?thesis
      by (auto simp: esc_abs_get)
  next
    case False
    then have "\<nexists>t. esc_exec (ExpireEscrow who q) s = Inr ((), t)"
      using expire_succeeds_iff [OF assms(1-3), of who q] r by auto
    with False show ?thesis
      by (cases "esc_exec (ExpireEscrow who q) s") auto
  qed
qed

theorem escrow_expire_when_due_witness:
  "\<exists>t. esc_exec (ExpireEscrow (AccountAddr 11) ''sale'')
     (esc_stored (\<lambda>_. False) (demo_escrow EscrowActive)) = Inr ((), t) \<and>
   (\<exists>r. env_data t (esc_record_key (AccountAddr 11) ''sale'') = Some (EscRecord r) \<and>
      esc_status r = EscrowExpired)"
proof -
  let ?s = "esc_stored (\<lambda>_. False) (demo_escrow EscrowActive)"
  have "env_data ?s (esc_record_key (AccountAddr 11) ''sale'') =
      Some (EscRecord (demo_escrow_record EscrowActive))"
    by (subst esc_abs_get [OF esc_abs_stored]) (simp add: demo_escrow_def)
  from escrow_expire_when_due [OF _ esc_abs_stored demo_escrow_inv this]
  show ?thesis
    by (auto simp: demo_escrow_record_def)
qed

text \<open>
  A deposit is taken only with the depositor's signature, within the configured bounds
  and for an identity that never had a record in that queue; it then expires exactly the
  configured number of days after the ledger time, without wrap-around, and raises the
  running total by its amount.
\<close>

theorem escrow_deposit_effect:
  assumes "env_ok s" and "esc_abs s a" and "esc_inv a"
    and "esc_exec (Deposit who q n asset) s = Inr ((), t)"
  shows "\<exists>c r b. env_auth s who \<and> env_data s (esc_config_key q) = Some (EscConfig c) \<and>
    env_data s (esc_record_key who q) = None \<and>
    0 < sint n \<and> sint (ecf_min_deposit c) \<le> sint n \<and> sint n \<le> sint (ecf_max_deposit c) \<and>
    env_data t (esc_record_key who q) = Some (EscRecord r) \<and>
    esc_status r = EscrowActive \<and> esc_amount r = n \<and>
    unat (esc_expires_at r) = unat (now s) + unat (ecf_hold_period_days c) * 86400 \<and>
    esc_abs t b \<and> sint (total_of b q) = sint (total_of a q) + sint n"
proof -
  obtain b evs where b: "esc_spec (env_auth s) (now s) (Deposit who q n asset) a = Inr ((), b, evs)"
    "esc_abs t b"
    using esc_exec_abs [OF assms(1,2,4)] by blast
  then obtain c hold e tot where c: "ae_configs a q = Some c" "ae_records a (who, q) = None"
    and auth: "env_auth s who" and pos: "0 < sint n"
    and bounds: "sint (ecf_min_deposit c) \<le> sint n" "sint n \<le> sint (ecf_max_deposit c)"
    and e: "checked_mul (ecf_hold_period_days c) 86400 = Some hold" "checked_add (now s) hold = Some e"
    and tot: "checked_sadd (total_of a q) n = Some tot"
    and beq: "b = a\<lparr>ae_records := (ae_records a)((who, q) \<mapsto>
        \<lparr>esc_queue_id = q, esc_identity = who, esc_amount = n, esc_asset = asset,
         esc_status = EscrowActive, esc_created_at = now s, esc_expires_at = e,
         esc_released_at = None\<rparr>), ae_totals := (ae_totals a)(q \<mapsto> tot)\<rparr>"
    by (auto simp: spec_deposit_def deposit_expiry_def split: if_splits option.splits)
  have "unat e = unat (now s) + unat (ecf_hold_period_days c) * 86400"
    using checked_add_Some(2) [OF e(2)] checked_mul_Some [OF e(1)] by simp
  moreover have "sint (total_of b q) = sint (total_of a q) + sint n"
    using checked_sadd_Some [OF tot] beq by (simp add: total_of_def)
  moreover have "env_data s (esc_config_key q) = Some (EscConfig c)"
    using assms(2) c(1) by (simp add: esc_abs_def)
  moreover have "\<exists>r. env_data t (esc_record_key who q) = Some (EscRecord r) \<and>
      esc_status r = EscrowActive \<and> esc_amount r = n \<and> esc_expires_at r = e"
    using b(2) beq by (simp add: esc_abs_get)
  ultimately show ?thesis
    using auth pos bounds b(2) c(2) by (auto simp: esc_abs_get [OF assms(2)])
qed

theorem escrow_deposit_effect_witness:
  "\<exists>t r. esc_exec (Deposit (AccountAddr 12) ''sale'' 50 (ContractAddr 5))
       (esc_stored (\<lambda>_. True) (demo_escrow EscrowActive)) = Inr ((), t) \<and>
     env_data t (esc_record_key (AccountAddr 12) ''sale'') = Some (EscRecord r) \<and>
     esc_amount r = 50"
proof -
  let ?s = "esc_stored (\<lambda>_. True) (demo_escrow EscrowActive)"
  have "\<exists>b evs. esc_spec (env_auth ?s) (now ?s) (Deposit (AccountAddr 12) ''sale'' 50 (ContractAddr 5))
      (demo_escrow EscrowActive) = Inr ((), b, evs)"
    by (simp add: spec_deposit_def demo_escrow_def demo_escrow_config_def deposit_expiry_def
        checked_mul_def checked_add_def checked_sadd_def total_of_def)
  then obtain t where t: "esc_exec (Deposit (AccountAddr 12) ''sale'' 50 (ContractAddr 5)) ?s = Inr ((), t)"
    using esc_call_accepted [of ?s "demo_escrow EscrowActive"] by fastforce
  from escrow_deposit_effect [OF _ esc_abs_stored demo_escrow_inv t] t show ?thesis
    by fastforce
qed

section \<open>Where the code falls short of the documents\<close>

text \<open>
  \<open>release\<close> and \<open>refund\<close> check that the address passed as administrator has signed, but
  never compare it with the administrator of the queue's configuration: any signer can settle
  any active deposit, and the call always succeeds.
\<close>

theorem escrow_any_signer_settles:
  assumes "env_ok s" and "esc_abs s a" and "esc_inv a" and "env_auth s mallory"
    and "env_data s (esc_record_key who q) = Some (EscRecord r)" and "esc_status r = EscrowActive"
  shows "(\<exists>t. esc_exec (Release mallory who q) s = Inr ((), t) \<and>
      env_data t (esc_record_key who q) =
        Some (EscRecord (r\<lparr>esc_status := Released, esc_released_at := Some (now s)\<rparr>))) \<and>
    (\<exists>t. esc_exec (Refund mallory who q) s = Inr ((), t) \<and>
      env_data t (esc_record_key who q) =
        Some (EscRecord (r\<lparr>esc_status := Refunded, esc_released_at := Some (now s)\<rparr>)))"
proof -
  have r: "ae_records a (who, q) = Some r"
    using assms(2,5) by (simp add: esc_abs_get [OF assms(2)])
  note settle = spec_settle_active [OF assms(3) r assms(6)]
  note accepted = esc_call_accepted [OF assms(1,2)]
  from settle assms(4) r accepted [of "Release mallory who q"]
    accepted [of "Refund mallory who q"] show ?thesis
    by (fastforce simp: with_record_def esc_abs_get)
qed

theorem escrow_any_signer_settles_witness:
  "\<exists>t. esc_exec (Release (AccountAddr 66) (AccountAddr 11) ''sale'')
       (esc_stored (\<lambda>a. a = AccountAddr 66) (demo_escrow EscrowActive)) = Inr ((), t) \<and>
     ecf_admin demo_escrow_config \<noteq> AccountAddr 66"
proof -
  let ?s = "esc_stored (\<lambda>a. a = AccountAddr 66) (demo_escrow EscrowActive)"
  have "env_data ?s (esc_record_key (AccountAddr 11) ''sale'') =
      Some (EscRecord (demo_escrow_record EscrowActive))"
    by (subst esc_abs_get [OF esc_abs_stored]) (simp add: demo_escrow_def)
  from escrow_any_signer_settles [OF _ esc_abs_stored demo_escrow_inv _ this, of "AccountAddr 66"]
  show ?thesis
    by (auto simp: demo_escrow_record_def demo_escrow_config_def)
qed

end
