(* ===== verification/Identity.thy ===== *)
theory Identity
  imports Contract_Env
begin

text \<open>
  The identity contract (\<open>contracts/lineproof-identity/src/lib.rs\<close>): data, storage keys and
  every entry point, in the order of the source.
\<close>

section \<open>Data\<close>

definition MAX_QUEUES_PER_IDENTITY :: u32 where
  "MAX_QUEUES_PER_IDENTITY = 100"

datatype binding_status = Unbound | Bound | Revoked

record identity_record =
  idr_identity :: address
  idr_bound_at :: u64
  idr_queues :: "symbol list"
  idr_status :: binding_status

record transfer_attempt =
  att_from :: address
  att_to :: address
  att_timestamp :: u64
  att_reverted :: bool

datatype idn_val =
    IRecord identity_record | IAttempt transfer_attempt | IAdmin address | IFlag bool

fun as_identity :: "idn_val \<Rightarrow> identity_record option" where
  "as_identity (IRecord r) = Some r"
| "as_identity _ = None"

fun as_idn_admin :: "idn_val \<Rightarrow> address option" where
  "as_idn_admin (IAdmin a) = Some a"
| "as_idn_admin _ = None"

fun as_flag :: "idn_val \<Rightarrow> bool option" where
  "as_flag (IFlag b) = Some b"
| "as_flag _ = None"

definition idn_record_key :: "address \<Rightarrow> sc_val" where
  "idn_record_key identity = VecV [SymbolV ''identity'', AddressV identity]"

definition attempt_key :: "address \<Rightarrow> address \<Rightarrow> symbol \<Rightarrow> sc_val" where
  "attempt_key from to queue_id =
     VecV [SymbolV ''attempt'', AddressV from, AddressV to, SymbolV queue_id]"

definition idn_admin_key :: sc_val where
  "idn_admin_key = SymbolV ''admin''"

definition transfer_allow_key :: sc_val where
  "transfer_allow_key = SymbolV ''transfer_allow''"

lemma idn_keys [simp]:
  "idn_record_key a = idn_record_key b \<longleftrightarrow> a = b"
  "attempt_key a b q = attempt_key a' b' q' \<longleftrightarrow> a = a' \<and> b = b' \<and> q = q'"
  "idn_record_key a \<noteq> attempt_key f t q" "attempt_key f t q \<noteq> idn_record_key a"
  "idn_record_key a \<noteq> idn_admin_key" "idn_admin_key \<noteq> idn_record_key a"
  "idn_record_key a \<noteq> transfer_allow_key" "transfer_allow_key \<noteq> idn_record_key a"
  "attempt_key f t q \<noteq> idn_admin_key" "idn_admin_key \<noteq> attempt_key f t q"
  "attempt_key f t q \<noteq> transfer_allow_key" "transfer_allow_key \<noteq> attempt_key f t q"
  "idn_admin_key \<noteq> transfer_allow_key" "transfer_allow_key \<noteq> idn_admin_key"
  by (auto simp: idn_record_key_def attempt_key_def idn_admin_key_def transfer_allow_key_def)

section \<open>Helpers\<close>

definition idn_emit :: "symbol \<Rightarrow> symbol \<Rightarrow> address \<Rightarrow> u64 \<Rightarrow> (idn_val, unit) action" where
  "idn_emit kind queue_id identity ts =
     publish [SymbolV ''lineproof_identity'', SymbolV kind, SymbolV queue_id]
       (VecV [AddressV identity, U64V ts])"

definition idn_emit_now :: "symbol \<Rightarrow> symbol \<Rightarrow> address \<Rightarrow> (idn_val, unit) action" where
  "idn_emit_now kind queue_id identity = bind_op (reads now) (idn_emit kind queue_id identity)"

definition fresh_identity :: "address \<Rightarrow> identity_record" where
  "fresh_identity identity =
     \<lparr>idr_identity = identity, idr_bound_at = 0, idr_queues = [], idr_status = Unbound\<rparr>"

definition get_record_internal :: "address \<Rightarrow> (idn_val, identity_record) action" where
  "get_record_internal identity =
     bind_op (storage_has (idn_record_key identity)) (\<lambda>present.
     if present then
       bind_op (storage_expect as_identity ''unwrap on None'' (idn_record_key identity)) (\<lambda>record.
       then_op (extend_ttl (idn_record_key identity) TTL_THRESHOLD TTL_EXTEND_TO)
       (ret record))
     else ret (fresh_identity identity))"

section \<open>Entry points\<close>

definition idn_bind :: "address \<Rightarrow> symbol \<Rightarrow> (idn_val, unit) action" where
  "idn_bind identity queue_id =
     then_op (require_auth identity)
     (bind_op (get_record_internal identity) (\<lambda>record.
     then_op (panic_if (idr_status record = Revoked) ''identity revoked'')
     (then_op (panic_if (queue_id \<in> set (idr_queues record)) ''already_bound'')
     (then_op (panic_if (unat MAX_QUEUES_PER_IDENTITY \<le> length (idr_queues record))
        ''max_queues_reached'')
     (bind_op (reads now) (\<lambda>t.
     then_op (set_and_extend (idn_record_key identity)
        (IRecord (record\<lparr>idr_queues := idr_queues record @ [queue_id],
           idr_bound_at := (if idr_bound_at record = 0 then t else idr_bound_at record),
           idr_status := Bound\<rparr>)))
     (idn_emit_now ''Bound'' queue_id identity)))))))"

definition idn_unbind :: "address \<Rightarrow> symbol \<Rightarrow> (idn_val, unit) action" where
  "idn_unbind identity queue_id =
     then_op (require_auth identity)
     (bind_op (get_record_internal identity) (\<lambda>record.
     if queue_id \<notin> set (idr_queues record) then ret ()
     else
       then_op (set_and_extend (idn_record_key identity)
         (IRecord (record\<lparr>idr_queues := filter (\<lambda>q. q \<noteq> queue_id) (idr_queues record)\<rparr>)))
       (idn_emit_now ''Unbound'' queue_id identity)))"

definition idn_is_bound :: "address \<Rightarrow> symbol \<Rightarrow> (idn_val, bool) action" where
  "idn_is_bound identity queue_id =
     bind_op (get_record_internal identity) (\<lambda>record.
     ret (queue_id \<in> set (idr_queues record)))"

definition can_transfer :: "address \<Rightarrow> address \<Rightarrow> symbol \<Rightarrow> (idn_val, bool) action" where
  "can_transfer from to queue_id =
     (if from = to then ret True
      else
        bind_op (get_record_internal from) (\<lambda>record.
        if idr_status record = Revoked then ret False
        else if queue_id \<notin> set (idr_queues record) then ret False
        else storage_get_or as_flag False transfer_allow_key))"

definition idn_get_admin :: "(idn_val, address option) action" where
  "idn_get_admin = storage_get as_idn_admin idn_admin_key"

definition set_transfer_allowed :: "address \<Rightarrow> bool \<Rightarrow> (idn_val, unit) action" where
  "set_transfer_allowed admin allowed =
     then_op (require_auth admin)
     (bind_op idn_get_admin (\<lambda>found.
     bind_op (ok_or (Panic ''not initialized'') found) (\<lambda>stored_admin.
     then_op (panic_if (admin \<noteq> stored_admin) ''unauthorized'')
     (set_and_extend transfer_allow_key (IFlag allowed)))))"

definition record_transfer_attempt ::
  "address \<Rightarrow> address \<Rightarrow> symbol \<Rightarrow> (idn_val, unit) action" where
  "record_transfer_attempt from to queue_id =
     bind_op (reads now) (\<lambda>t.
     then_op (set_and_extend (attempt_key from to queue_id)
       (IAttempt \<lparr>att_from = from, att_to = to, att_timestamp = t, att_reverted = True\<rparr>))
     (idn_emit_now ''TransferReverted'' queue_id from))"

definition idn_get_record :: "address \<Rightarrow> (idn_val, identity_record option) action" where
  "idn_get_record identity =
     bind_op (storage_has (idn_record_key identity)) (\<lambda>present.
     if present then bind_op (get_record_internal identity) (\<lambda>record. ret (Some record))
     else ret None)"

definition idn_initialize :: "address \<Rightarrow> (idn_val, unit) action" where
  "idn_initialize admin =
     then_op (require_auth admin)
     (bind_op (storage_has idn_admin_key) (\<lambda>present.
     then_op (panic_if present ''already initialized'')
     (set_and_extend idn_admin_key (IAdmin admin))))"

definition idn_revoke :: "address \<Rightarrow> address \<Rightarrow> (idn_val, unit) action" where
  "idn_revoke admin identity =
     then_op (require_auth admin)
     (bind_op (storage_expect as_idn_admin ''not initialized'' idn_admin_key) (\<lambda>stored_admin.
     then_op (panic_if (admin \<noteq> stored_admin) ''unauthorized'')
     (bind_op (get_record_internal identity) (\<lambda>record.
     then_op (set_and_extend (idn_record_key identity) (IRecord (record\<lparr>idr_status := Revoked\<rparr>)))
     (idn_emit_now ''Revoked'' '''' identity)))))"

section \<open>The contract as a machine\<close>

datatype idn_call =
    Bind address symbol
  | Unbind address symbol
  | SetTransferAllowed address bool
  | RecordTransferAttempt address address symbol
  | InitializeIdentity address
  | Revoke address address

fun idn_exec :: "idn_call \<Rightarrow> (idn_val, unit) action" where
  "idn_exec (Bind who q) = idn_bind who q"
| "idn_exec (Unbind who q) = idn_unbind who q"
| "idn_exec (SetTransferAllowed admin b) = set_transfer_allowed admin b"
| "idn_exec (RecordTransferAttempt from to q) = record_transfer_attempt from to q"
| "idn_exec (InitializeIdentity admin) = idn_initialize admin"
| "idn_exec (Revoke admin who) = idn_revoke admin who"

end
