(* ===== verification/Identity_Inv.thy ===== *)
theory Identity_Inv
  imports Identity Contract_Machine
begin

text \<open>
  The identity register as its users understand it: records by identity, logged transfer
  attempts, the administrator and the transfer switch. The contract computes exactly its
  transitions; revocation and the administrator are permanent.
\<close>

section \<open>The abstract register\<close>

record aident =
  ai_records :: "address \<rightharpoonup> identity_record"
  ai_attempts :: "address \<times> address \<times> symbol \<rightharpoonup> transfer_attempt"
  ai_admin :: "address option"
  ai_transfers :: "bool option"

type_synonym ai_result = "(unit, aident) spec_result"

definition identity_of :: "aident \<Rightarrow> address \<Rightarrow> identity_record" where
  "identity_of a who =
     (case ai_records a who of None \<Rightarrow> fresh_identity who | Some r \<Rightarrow> r)"

definition set_identity :: "address \<Rightarrow> identity_record \<Rightarrow> aident \<Rightarrow> aident" where
  "set_identity who r a = a\<lparr>ai_records := (ai_records a)(who \<mapsto> r)\<rparr>"

definition idn_event :: "symbol \<Rightarrow> symbol \<Rightarrow> address \<Rightarrow> u64 \<Rightarrow> event" where
  "idn_event kind q who t =
     Event [SymbolV ''lineproof_identity'', SymbolV kind, SymbolV q] (VecV [AddressV who, U64V t])"

definition idn_admin_only ::
  "(address \<Rightarrow> bool) \<Rightarrow> address \<Rightarrow> aident \<Rightarrow> ai_result \<Rightarrow> ai_result" where
  "idn_admin_only auth who a k =
     (if \<not> auth who then Inl auth_error
      else case ai_admin a of
        None \<Rightarrow> Inl (Panic ''not initialized'')
      | Some admin \<Rightarrow> if who \<noteq> admin then Inl (Panic ''unauthorized'') else k)"

fun idn_spec :: "(idn_call, unit, aident) spec" where
  "idn_spec auth t (Bind who q) a =
     (let r = identity_of a who in
      if \<not> auth who then Inl auth_error
      else if idr_status r = Revoked then Inl (Panic ''identity revoked'')
      else if q \<in> set (idr_queues r) then Inl (Panic ''already_bound'')
      else if 100 \<le> length (idr_queues r) then Inl (Panic ''max_queues_reached'')
      else Inr ((), set_identity who
             (r\<lparr>idr_queues := idr_queues r @ [q],
                idr_bound_at := (if idr_bound_at r = 0 then t else idr_bound_at r),
                idr_status := Bound\<rparr>) a,
           [idn_event ''Bound'' q who t]))"
| "idn_spec auth t (Unbind who q) a =
     (let r = identity_of a who in
      if \<not> auth who then Inl auth_error
      else if q \<notin> set (idr_queues r) then Inr ((), a, [])
      else Inr ((), set_identity who (r\<lparr>idr_queues := filter (\<lambda>x. x \<noteq> q) (idr_queues r)\<rparr>) a,
           [idn_event ''Unbound'' q who t]))"
| "idn_spec auth t (SetTransferAllowed admin b) a =
     idn_admin_only auth admin a (Inr ((), a\<lparr>ai_transfers := Some b\<rparr>, []))"
| "idn_spec auth t (RecordTransferAttempt from to q) a =
     Inr ((), a\<lparr>ai_attempts := (ai_attempts a)((from, to, q) \<mapsto>
            \<lparr>att_from = from, att_to = to, att_timestamp = t, att_reverted = True\<rparr>)\<rparr>,
          [idn_event ''TransferReverted'' q from t])"
| "idn_spec auth t (InitializeIdentity admin) a =
     (if \<not> auth admin then Inl auth_error
      else if ai_admin a \<noteq> None then Inl (Panic ''already initialized'')
      else Inr ((), a\<lparr>ai_admin := Some admin\<rparr>, []))"
| "idn_spec auth t (Revoke admin who) a =
     idn_admin_only auth admin a
       (Inr ((), set_identity who ((identity_of a who)\<lparr>idr_status := Revoked\<rparr>) a,
             [idn_event ''Revoked'' '''' who t]))"

definition idn_abs :: "idn_val env \<Rightarrow> aident \<Rightarrow> bool" where
  "idn_abs s a \<longleftrightarrow>
     (\<forall>who. env_data s (idn_record_key who) = map_option IRecord (ai_records a who)) \<and>
     (\<forall>from to q. env_data s (attempt_key from to q) =
        map_option IAttempt (ai_attempts a (from, to, q))) \<and>
     env_data s idn_admin_key = map_option IAdmin (ai_admin a) \<and>
     env_data s transfer_allow_key = map_option IFlag (ai_transfers a)"

section \<open>Invariant and history\<close>

definition identity_ok :: "address \<Rightarrow> identity_record \<Rightarrow> bool" where
  "identity_ok who r \<longleftrightarrow>
     idr_identity r = who \<and> distinct (idr_queues r) \<and> length (idr_queues r) \<le> 100 \<and>
     idr_status r \<noteq> Unbound"

definition idn_inv :: "aident \<Rightarrow> bool" where
  "idn_inv a \<longleftrightarrow>
     (\<forall>who r. ai_records a who = Some r \<longrightarrow> identity_ok who r) \<and>
     (\<forall>k x. ai_attempts a k = Some x \<longrightarrow> att_reverted x)"

definition identity_le :: "identity_record \<Rightarrow> identity_record \<Rightarrow> bool" where
  "identity_le r r' \<longleftrightarrow>
     idr_identity r' = idr_identity r \<and>
     (idr_status r = Revoked \<longrightarrow>
        idr_status r' = Revoked \<and> set (idr_queues r') \<subseteq> set (idr_queues r))"

definition idn_le :: "aident \<Rightarrow> aident \<Rightarrow> bool" where
  "idn_le a b \<longleftrightarrow>
     (\<forall>who r. ai_records a who = Some r \<longrightarrow>
        (\<exists>r'. ai_records b who = Some r' \<and> identity_le r r')) \<and>
     (\<forall>admin. ai_admin a = Some admin \<longrightarrow> ai_admin b = Some admin)"

definition idn_empty :: aident where
  "idn_empty = \<lparr>ai_records = Map.empty, ai_attempts = Map.empty, ai_admin = None,
     ai_transfers = None\<rparr>"

section \<open>The contract computes the abstract transitions\<close>

lemmas idn_sim = machine_simps idn_emit_now_def idn_emit_def idn_event_def get_record_internal_def
  Let_def idn_abs_def identity_of_def set_identity_def idn_admin_only_def

lemma sim_idn_exec:
  assumes "env_ok s" and "idn_abs s a"
  shows "call_matches idn_abs s (idn_spec (env_auth s) (now s) c a) (idn_exec c s)"
proof (cases c)
  case (Bind who q)
  with assms show ?thesis
    by (auto simp: idn_bind_def idn_sim MAX_QUEUES_PER_IDENTITY_def fresh_identity_def
        split: option.splits)
next
  case (Unbind who q)
  with assms show ?thesis
    by (auto simp: idn_unbind_def idn_sim fresh_identity_def split: option.splits)
next
  case (SetTransferAllowed admin b)
  with assms show ?thesis
    by (auto simp: set_transfer_allowed_def idn_get_admin_def idn_sim split: option.splits)
next
  case (RecordTransferAttempt src dst q)
  with assms show ?thesis
    by (auto simp: record_transfer_attempt_def idn_sim)
next
  case (InitializeIdentity admin)
  with assms show ?thesis
    by (auto simp: idn_initialize_def idn_sim)
next
  case (Revoke admin who)
  with assms show ?thesis
    by (auto simp: idn_revoke_def idn_sim split: option.splits)
qed

section \<open>Every transition keeps the invariant and moves forward\<close>

lemma idn_inv_set:
  assumes "idn_inv a" and "identity_ok who r"
  shows "idn_inv (set_identity who r a)"
  using assms by (simp add: idn_inv_def set_identity_def)

lemma identity_of_ok:
  assumes "idn_inv a"
  shows "idr_identity (identity_of a who) = who" "distinct (idr_queues (identity_of a who))"
    "length (idr_queues (identity_of a who)) \<le> 100"
    "idr_queues (identity_of a who) \<noteq> [] \<Longrightarrow> idr_status (identity_of a who) \<noteq> Unbound"
proof -
  have "ai_records a who = Some r \<Longrightarrow> identity_ok who r" for r
    using assms by (simp add: idn_inv_def)
  then show "idr_identity (identity_of a who) = who" "distinct (idr_queues (identity_of a who))"
    "length (idr_queues (identity_of a who)) \<le> 100"
    "idr_queues (identity_of a who) \<noteq> [] \<Longrightarrow> idr_status (identity_of a who) \<noteq> Unbound"
    by (auto simp: identity_of_def fresh_identity_def identity_ok_def split: option.splits)
qed

lemma idn_spec_inv:
  assumes "idn_inv a" and "idn_spec auth t c a = Inr (u, b, evs)"
  shows "idn_inv b"
proof (cases c)
  case (Bind who q)
  with assms show ?thesis
    by (auto simp: Let_def identity_ok_def identity_of_ok split: if_splits intro!: idn_inv_set)
next
  case (Unbind who q)
  have "length (filter (\<lambda>x. x \<noteq> q) xs) \<le> 100" if "length xs \<le> 100" for xs :: "symbol list"
    using that length_filter_le [of "\<lambda>x. x \<noteq> q" xs] by linarith
  moreover have "idr_queues (identity_of a who) \<noteq> []" if "q \<in> set (idr_queues (identity_of a who))"
    using that by auto
  ultimately show ?thesis
    using Unbind assms identity_of_ok [OF assms(1), of who]
    by (auto simp: Let_def identity_ok_def split: if_splits intro!: idn_inv_set)
next
  case (Revoke admin who)
  with assms show ?thesis
    by (auto simp: idn_admin_only_def identity_ok_def identity_of_ok
        split: if_splits option.splits intro!: idn_inv_set)
qed (use assms in \<open>auto simp: idn_inv_def idn_admin_only_def split: if_splits option.splits\<close>)

lemma identity_le_refl [simp]: "identity_le r r"
  by (simp add: identity_le_def)

lemma idn_le_refl [simp]: "idn_le a a"
  by (simp add: idn_le_def)

lemma idn_le_set:
  assumes "\<And>r. ai_records a who = Some r \<Longrightarrow> identity_le r r'"
  shows "idn_le a (set_identity who r' a)"
  using assms by (simp add: idn_le_def set_identity_def)

lemma idn_spec_le:
  assumes "idn_spec auth t c a = Inr (u, b, evs)"
  shows "idn_le a b"
proof (cases c)
  case (Bind who q)
  with assms show ?thesis
    by (auto simp: Let_def identity_le_def identity_of_def split: if_splits intro!: idn_le_set)
next
  case (Unbind who q)
  with assms show ?thesis
    by (auto simp: Let_def identity_le_def identity_of_def split: if_splits intro!: idn_le_set)
next
  case (Revoke admin who)
  with assms show ?thesis
    by (auto simp: idn_admin_only_def identity_le_def identity_of_def
        split: if_splits option.splits intro!: idn_le_set)
qed (use assms in \<open>auto simp: idn_le_def idn_admin_only_def split: if_splits option.splits\<close>)

lemma idn_le_trans: "idn_le a b \<Longrightarrow> idn_le b c \<Longrightarrow> idn_le a c"
  unfolding idn_le_def identity_le_def by fastforce

lemma idn_inv_empty: "idn_inv idn_empty"
  by (simp add: idn_inv_def idn_empty_def)

section \<open>The contract\<close>

interpretation identity: verified_contract idn_exec idn_abs idn_spec idn_inv idn_le
proof unfold_locales
  show "call_matches idn_abs s (idn_spec (env_auth s) (now s) c a) (idn_exec c s)"
    if "env_ok s" "idn_abs s a" for s a c
    using that by (rule sim_idn_exec)
  show "idn_abs t a" if "idn_abs s a" "env_data t = env_data s" for s t a
    using that by (simp add: idn_abs_def)
qed (auto intro: idn_spec_inv idn_spec_le idn_le_trans)

end
