(* ===== verification/Identity_Props.thy ===== *)
theory Identity_Props
  imports Identity_Inv
begin

text \<open>
  The properties of the identity contract, consequences of the interpretation
  \<open>identity: verified_contract\<close>.
\<close>

section \<open>Definitions\<close>

text \<open>The storage that represents an abstract identity register.\<close>

definition idn_entries :: "aident \<Rightarrow> sc_val \<Rightarrow> idn_val option" where
  "idn_entries a k =
     (case k of
        VecV [SymbolV tag, AddressV who] \<Rightarrow>
          if tag = ''identity'' then map_option IRecord (ai_records a who) else None
      | VecV [SymbolV tag, AddressV src, AddressV dst, SymbolV q] \<Rightarrow>
          if tag = ''attempt'' then map_option IAttempt (ai_attempts a (src, dst, q)) else None
      | SymbolV tag \<Rightarrow>
          if tag = ''admin'' then map_option IAdmin (ai_admin a)
          else if tag = ''transfer_allow'' then map_option IFlag (ai_transfers a) else None
      | _ \<Rightarrow> None)"

definition idn_stored :: "(address \<Rightarrow> bool) \<Rightarrow> aident \<Rightarrow> idn_val env" where
  "idn_stored auth a = stored auth (idn_entries a)"

definition demo_ident :: "binding_status \<Rightarrow> aident" where
  "demo_ident st = \<lparr>ai_records = [AccountAddr 11 \<mapsto>
       \<lparr>idr_identity = AccountAddr 11, idr_bound_at = 900, idr_queues = [''sale''],
        idr_status = st\<rparr>],
     ai_attempts = Map.empty, ai_admin = Some (AccountAddr 7), ai_transfers = Some True\<rparr>"

section \<open>Shared lemmas\<close>

lemma idn_stored_sel [simp]:
  "env_ok (idn_stored auth a)"
  "env_auth (idn_stored auth a) = auth"
  "now (idn_stored auth a) = 1000"
  "env_events (idn_stored auth a) = []"
  by (simp_all add: idn_stored_def)

lemma idn_abs_stored [simp]: "idn_abs (idn_stored auth a) a"
  by (simp add: idn_abs_def idn_stored_def idn_entries_def idn_record_key_def attempt_key_def
      idn_admin_key_def transfer_allow_key_def)

lemma demo_ident_inv: "st \<noteq> Unbound \<Longrightarrow> idn_inv (demo_ident st)"
  by (simp add: idn_inv_def demo_ident_def identity_ok_def)

lemma demo_ident_of [simp]:
  "identity_of (demo_ident st) (AccountAddr 11) =
     \<lparr>idr_identity = AccountAddr 11, idr_bound_at = 900, idr_queues = [''sale''], idr_status = st\<rparr>"
  by (simp add: identity_of_def demo_ident_def)

lemma idn_call_accepted:
  assumes "env_ok s" and "idn_abs s a" and "idn_spec (env_auth s) (now s) c a = Inr (u, b, evs)"
  shows "\<exists>t. idn_exec c s = Inr ((), t) \<and> idn_abs t b \<and> env_ok t \<and> now t = now s \<and>
    env_events t = env_events s @ evs \<and> contract_run idn_exec s t"
  using identity.call_accepted [OF assms] by (auto simp: call_post_def same_env_def now_def)

lemma get_record_eval:
  assumes "env_ok s" and "idn_abs s a"
  shows "\<exists>t. get_record_internal who s = Inr (identity_of a who, t) \<and> idn_abs t a \<and> env_ok t \<and>
    env_data t = env_data s"
  using assms
  by (auto simp: get_record_internal_def op_eval idn_abs_def identity_of_def split: option.splits)

lemma is_bound_eval:
  assumes "env_ok s" and "idn_abs s a"
  shows "\<exists>t. idn_is_bound who q s = Inr (q \<in> set (idr_queues (identity_of a who)), t)"
  using get_record_eval [OF assms, of who] by (auto simp: idn_is_bound_def bind_op_eval)

section \<open>The contract implements its specification\<close>

text \<open>
  C12. On every live environment that represents an abstract identity register, every
  state-changing call behaves as the abstract register says: the same error, or the same
  events and a new environment that represents the next abstract register.
\<close>

theorem identity_refines_spec:
  assumes "env_ok s" and "idn_abs s a"
  shows "case idn_spec (env_auth s) (now s) c a of
      Inl e \<Rightarrow> idn_exec c s = Inl e
    | Inr (r, b, evs) \<Rightarrow> \<exists>t. idn_exec c s = Inr (r, t) \<and> idn_abs t b \<and> env_ok t \<and>
        env_events t = env_events s @ evs"
  using identity.simulation [OF assms, of c]
  by (auto simp: call_matches_def call_post_def split: sum.splits)

theorem identity_refines_spec_witness:
  "\<exists>t. idn_exec (Bind (AccountAddr 11) ''gala'') (idn_stored (\<lambda>_. True) (demo_ident Bound)) =
       Inr ((), t) \<and>
     env_events t = [idn_event ''Bound'' ''gala'' (AccountAddr 11) 1000] \<and>
     idn_exec (Bind (AccountAddr 11) ''gala'') (idn_stored (\<lambda>_. True) (demo_ident Revoked)) =
       Inl (Panic ''identity revoked'')"
  using identity_refines_spec [of "idn_stored (\<lambda>_. True) (demo_ident Bound)" "demo_ident Bound"
      "Bind (AccountAddr 11) ''gala''"]
    identity_refines_spec [of "idn_stored (\<lambda>_. True) (demo_ident Revoked)" "demo_ident Revoked"
      "Bind (AccountAddr 11) ''gala''"]
  by (auto simp: Let_def)

text \<open>
  Over any run of the contract from empty storage, an identity is bound to at most 100
  queues, to each at most once, and every logged transfer attempt is marked as reverted.
\<close>

theorem identity_bindings_bounded:
  assumes "env_ok s" and "idn_abs s idn_empty" and "contract_run idn_exec s t"
    and "env_data t (idn_record_key who) = Some (IRecord r)"
    and "env_data t (attempt_key src dst q) = Some (IAttempt x)"
  shows "idr_identity r = who \<and> distinct (idr_queues r) \<and>
    length (idr_queues r) \<le> unat MAX_QUEUES_PER_IDENTITY \<and> att_reverted x"
proof -
  obtain a where a: "idn_abs t a" "idn_inv a"
    using identity.run_keeps [OF assms(3,1,2) idn_inv_empty] by blast
  then have "ai_records a who = Some r" "ai_attempts a (src, dst, q) = Some x"
    using assms(4,5) by (auto simp: idn_abs_def)
  with a(2) have "identity_ok who r" "att_reverted x"
    unfolding idn_inv_def by blast+
  then show ?thesis
    by (simp add: identity_ok_def MAX_QUEUES_PER_IDENTITY_def)
qed

theorem identity_bindings_bounded_witness:
  "\<exists>t r x. contract_run idn_exec (idn_stored (\<lambda>_. True) idn_empty) t \<and>
     env_data t (idn_record_key (AccountAddr 11)) = Some (IRecord r) \<and> idr_queues r = [''sale''] \<and>
     length (idr_queues r) \<le> unat MAX_QUEUES_PER_IDENTITY \<and>
     env_data t (attempt_key (AccountAddr 11) (AccountAddr 12) ''sale'') = Some (IAttempt x) \<and>
     att_reverted x"
proof -
  let ?s = "idn_stored (\<lambda>_. True) idn_empty"
  let ?a = "set_identity (AccountAddr 11)
    \<lparr>idr_identity = AccountAddr 11, idr_bound_at = 1000, idr_queues = [''sale''],
     idr_status = Bound\<rparr> idn_empty"
  let ?x = "\<lparr>att_from = AccountAddr 11, att_to = AccountAddr 12, att_timestamp = 1000,
     att_reverted = True\<rparr>"
  let ?b = "?a\<lparr>ai_attempts := (ai_attempts ?a)((AccountAddr 11, AccountAddr 12, ''sale'') \<mapsto> ?x)\<rparr>"
  have "idn_spec (env_auth ?s) (now ?s) (Bind (AccountAddr 11) ''sale'') idn_empty =
      Inr ((), ?a, [idn_event ''Bound'' ''sale'' (AccountAddr 11) 1000])"
    by (simp add: Let_def identity_of_def idn_empty_def fresh_identity_def)
  from idn_call_accepted [OF _ _ this] obtain t where t: "contract_run idn_exec ?s t"
    "idn_abs t ?a" "env_ok t" "now t = 1000"
    by auto
  have "idn_spec (env_auth t) (now t) (RecordTransferAttempt (AccountAddr 11) (AccountAddr 12) ''sale'') ?a =
      Inr ((), ?b, [idn_event ''TransferReverted'' ''sale'' (AccountAddr 11) 1000])"
    using t(4) by simp
  from idn_call_accepted [OF t(3,2) this] obtain u
    where u: "idn_exec (RecordTransferAttempt (AccountAddr 11) (AccountAddr 12) ''sale'') t = Inr ((), u)"
      "idn_abs u ?b"
    by blast
  have "idn_exec (RecordTransferAttempt (AccountAddr 11) (AccountAddr 12) ''sale'')
      (t\<lparr>env_auth := env_auth t\<rparr>) = Inr ((), u)"
    using u(1) by simp
  then have run: "contract_run idn_exec ?s u"
    by (rule run_call [OF t(1)])
  have data: "env_data u (idn_record_key (AccountAddr 11)) =
      Some (IRecord (identity_of ?a (AccountAddr 11)))"
    "env_data u (attempt_key (AccountAddr 11) (AccountAddr 12) ''sale'') = Some (IAttempt ?x)"
    using u(2) by (simp_all add: idn_abs_def set_identity_def identity_of_def)
  from identity_bindings_bounded [OF _ _ run data] run data show ?thesis
    by (auto simp: identity_of_def set_identity_def)
qed

text \<open>
  Revocation is permanent: once an identity is revoked, no later call makes it bound
  again or adds a queue to it. The administrator, once set, is never replaced.
\<close>

theorem identity_revocation_permanent:
  assumes "env_ok s" and "idn_abs s a" and "idn_inv a" and "contract_run idn_exec s t"
    and "env_data s (idn_record_key who) = Some (IRecord r)" and "idr_status r = Revoked"
    and "env_data s idn_admin_key = Some (IAdmin admin)"
  shows "\<exists>r'. env_data t (idn_record_key who) = Some (IRecord r') \<and> idr_status r' = Revoked \<and>
    set (idr_queues r') \<subseteq> set (idr_queues r) \<and>
    env_data t idn_admin_key = Some (IAdmin admin)"
proof -
  obtain b where b: "idn_abs t b" "idn_le a b"
    using identity.run_keeps [OF assms(4,1-3)] by blast
  have "ai_records a who = Some r" "ai_admin a = Some admin"
    using assms(2,5,7) by (auto simp: idn_abs_def) (cases "ai_admin a"; simp)
  with b assms(6) show ?thesis
    by (fastforce simp: idn_le_def identity_le_def idn_abs_def)
qed

theorem identity_revocation_permanent_witness:
  "\<exists>t r. idn_exec (Unbind (AccountAddr 11) ''sale'')
       (idn_stored (\<lambda>_. True) (demo_ident Revoked)) = Inr ((), t) \<and>
     env_data t (idn_record_key (AccountAddr 11)) = Some (IRecord r) \<and> idr_status r = Revoked"
proof -
  let ?s = "idn_stored (\<lambda>_. True) (demo_ident Revoked)"
  have "\<exists>b evs. idn_spec (env_auth ?s) (now ?s) (Unbind (AccountAddr 11) ''sale'') (demo_ident Revoked) =
      Inr ((), b, evs)"
    by (simp add: Let_def)
  then obtain t where t: "idn_exec (Unbind (AccountAddr 11) ''sale'') ?s = Inr ((), t)"
    and run: "contract_run idn_exec ?s t"
    using idn_call_accepted [of ?s "demo_ident Revoked"] by fastforce
  have data: "env_data ?s (idn_record_key (AccountAddr 11)) =
      Some (IRecord (identity_of (demo_ident Revoked) (AccountAddr 11)))"
    "env_data ?s idn_admin_key = Some (IAdmin (AccountAddr 7))"
    using idn_abs_stored [of "\<lambda>_. True" "demo_ident Revoked"]
    by (simp_all add: idn_abs_def) (simp_all add: demo_ident_def)
  from identity_revocation_permanent [OF _ idn_abs_stored demo_ident_inv run data(1) _ data(2)] t
  show ?thesis by fastforce
qed

text \<open>
  \<open>can_transfer\<close> between two different identities says yes exactly when the sender is not
  revoked, is bound to the queue and the administrator has switched transfers on. To itself
  an identity can always transfer, revoked or not, bound or not.
\<close>

theorem identity_can_transfer:
  assumes "env_ok s" and "idn_abs s a"
  shows "\<exists>t. can_transfer src dst q s =
    Inr (src = dst \<or>
         idr_status (identity_of a src) \<noteq> Revoked \<and> q \<in> set (idr_queues (identity_of a src)) \<and>
         ai_transfers a = Some True, t)"
proof -
  obtain t where t: "get_record_internal src s = Inr (identity_of a src, t)" "idn_abs t a"
    using get_record_eval [OF assms, of src] by blast
  have "storage_get_or as_flag False transfer_allow_key t = Inr (ai_transfers a = Some True, t)"
    using t(2) by (auto simp: idn_abs_def op_eval split: option.splits)
  with t show ?thesis
    by (auto simp: can_transfer_def bind_op_eval)
qed

theorem identity_can_transfer_witness:
  "(\<exists>t. can_transfer (AccountAddr 11) (AccountAddr 12) ''sale''
       (idn_stored (\<lambda>_. False) (demo_ident Bound)) = Inr (True, t)) \<and>
   (\<exists>t. can_transfer (AccountAddr 11) (AccountAddr 12) ''sale''
       (idn_stored (\<lambda>_. False) (demo_ident Revoked)) = Inr (False, t)) \<and>
   (\<exists>t. can_transfer (AccountAddr 11) (AccountAddr 11) ''sale''
       (idn_stored (\<lambda>_. False) (demo_ident Revoked)) = Inr (True, t))"
  using identity_can_transfer [of "idn_stored (\<lambda>_. False) (demo_ident Bound)" "demo_ident Bound"
      "AccountAddr 11" "AccountAddr 12" "''sale''"]
    identity_can_transfer [of "idn_stored (\<lambda>_. False) (demo_ident Revoked)" "demo_ident Revoked"
      "AccountAddr 11" "AccountAddr 12" "''sale''"]
    identity_can_transfer [of "idn_stored (\<lambda>_. False) (demo_ident Revoked)" "demo_ident Revoked"
      "AccountAddr 11" "AccountAddr 11" "''sale''"]
  by (simp add: demo_ident_def [of Bound] demo_ident_def [of Revoked] identity_of_def)

end
