(* ===== verification/Factory.thy ===== *)
theory Factory
  imports Contract_Env
begin

text \<open>
  The queue factory (\<open>contracts/lineproof-queue-factory/src/lib.rs\<close>): data, storage keys and
  every entry point, in the order of the source. What the host does when the factory deploys
  a queue (\<open>Contract_Env.deploy\<close>) depends on the hash that makes contract ids
  (\<open>contract_id\<close>) and on the constructor of the deployed code (\<open>constructor\<close>): both are
  parameters.
\<close>

section \<open>Data\<close>

record queue_metadata =
  qm_slug :: symbol
  qm_name :: symbol
  qm_owner :: address
  qm_contract_id :: address
  qm_version :: u32
  qm_deployed_at :: u64
  qm_active :: bool

record factory_config =
  fc_admin :: address
  fc_min_version :: u32
  fc_max_version :: u32

datatype fac_val =
    FConfig factory_config | FMeta queue_metadata | FSlugs "symbol list" | FHash hash
  | FEnabled bool

fun as_fconfig :: "fac_val \<Rightarrow> factory_config option" where
  "as_fconfig (FConfig c) = Some c"
| "as_fconfig _ = None"

fun as_meta :: "fac_val \<Rightarrow> queue_metadata option" where
  "as_meta (FMeta m) = Some m"
| "as_meta _ = None"

fun as_slugs :: "fac_val \<Rightarrow> symbol list option" where
  "as_slugs (FSlugs l) = Some l"
| "as_slugs _ = None"

fun as_hash :: "fac_val \<Rightarrow> hash option" where
  "as_hash (FHash h) = Some h"
| "as_hash _ = None"

fun as_enabled :: "fac_val \<Rightarrow> bool option" where
  "as_enabled (FEnabled b) = Some b"
| "as_enabled _ = None"

definition fac_config_key :: sc_val where
  "fac_config_key = SymbolV ''config''"

definition SLUG_INDEX_KEY :: sc_val where
  "SLUG_INDEX_KEY = SymbolV ''slug_idx''"

definition APPROVED_REGISTRY_ENABLED_KEY :: sc_val where
  "APPROVED_REGISTRY_ENABLED_KEY = SymbolV ''approvals''"

definition approved_hash_key :: "u32 \<Rightarrow> sc_val" where
  "approved_hash_key version = VecV [SymbolV ''approved'', U32V version]"

definition queue_registry_key :: "symbol \<Rightarrow> sc_val" where
  "queue_registry_key slug = VecV [SymbolV ''queue'', SymbolV slug]"

lemma fac_keys [simp]:
  "approved_hash_key v = approved_hash_key w \<longleftrightarrow> v = w"
  "queue_registry_key a = queue_registry_key b \<longleftrightarrow> a = b"
  "approved_hash_key v \<noteq> queue_registry_key a" "queue_registry_key a \<noteq> approved_hash_key v"
  "approved_hash_key v \<noteq> fac_config_key" "fac_config_key \<noteq> approved_hash_key v"
  "approved_hash_key v \<noteq> SLUG_INDEX_KEY" "SLUG_INDEX_KEY \<noteq> approved_hash_key v"
  "approved_hash_key v \<noteq> APPROVED_REGISTRY_ENABLED_KEY"
  "APPROVED_REGISTRY_ENABLED_KEY \<noteq> approved_hash_key v"
  "queue_registry_key a \<noteq> fac_config_key" "fac_config_key \<noteq> queue_registry_key a"
  "queue_registry_key a \<noteq> SLUG_INDEX_KEY" "SLUG_INDEX_KEY \<noteq> queue_registry_key a"
  "queue_registry_key a \<noteq> APPROVED_REGISTRY_ENABLED_KEY"
  "APPROVED_REGISTRY_ENABLED_KEY \<noteq> queue_registry_key a"
  "fac_config_key \<noteq> SLUG_INDEX_KEY" "SLUG_INDEX_KEY \<noteq> fac_config_key"
  "fac_config_key \<noteq> APPROVED_REGISTRY_ENABLED_KEY"
  "APPROVED_REGISTRY_ENABLED_KEY \<noteq> fac_config_key"
  "SLUG_INDEX_KEY \<noteq> APPROVED_REGISTRY_ENABLED_KEY"
  "APPROVED_REGISTRY_ENABLED_KEY \<noteq> SLUG_INDEX_KEY"
  by (auto simp: fac_config_key_def SLUG_INDEX_KEY_def APPROVED_REGISTRY_ENABLED_KEY_def
      approved_hash_key_def queue_registry_key_def)

section \<open>Helpers\<close>

definition fac_emit :: "symbol \<Rightarrow> symbol \<Rightarrow> address \<Rightarrow> u32 \<Rightarrow> (fac_val, unit) action" where
  "fac_emit kind slug contract_id version =
     publish [SymbolV ''lineproof_factory'', SymbolV kind, SymbolV slug]
       (VecV [AddressV contract_id, U32V version])"

definition fac_require_admin :: "address \<Rightarrow> (fac_val, unit) action" where
  "fac_require_admin admin =
     then_op (require_auth admin)
     (bind_op (storage_expect as_fconfig ''not initialized'' fac_config_key) (\<lambda>config.
     panic_if (fc_admin config \<noteq> admin) ''unauthorized''))"

text \<open>\<open>get(&config_key).unwrap()\<close>\<close>

definition fac_config :: "(fac_val, factory_config) action" where
  "fac_config = storage_expect as_fconfig ''unwrap on None'' fac_config_key"

definition validate_approved_hash :: "u32 \<Rightarrow> hash \<Rightarrow> (fac_val, unit) action" where
  "validate_approved_hash version wasm_hash =
     bind_op (storage_get as_hash (approved_hash_key version)) (\<lambda>found.
     case found of
       None \<Rightarrow> ret ()
     | Some approved_hash \<Rightarrow>
         then_op (panic_if (approved_hash \<noteq> wasm_hash) ''wasm hash not approved'')
         (extend_ttl (approved_hash_key version) TTL_THRESHOLD TTL_EXTEND_TO))"

definition require_approved_hash :: "u32 \<Rightarrow> hash \<Rightarrow> (fac_val, unit) action" where
  "require_approved_hash version wasm_hash =
     bind_op (storage_get_or as_enabled False APPROVED_REGISTRY_ENABLED_KEY) (\<lambda>enabled.
     if \<not> enabled then ret ()
     else
       then_op (extend_ttl APPROVED_REGISTRY_ENABLED_KEY TTL_THRESHOLD TTL_EXTEND_TO)
       (bind_op (storage_expect as_hash ''WASM hash not approved'' (approved_hash_key version))
         (\<lambda>approved_hash.
       then_op (extend_ttl (approved_hash_key version) TTL_THRESHOLD TTL_EXTEND_TO)
       (panic_if (approved_hash \<noteq> wasm_hash) ''WASM hash not approved''))))"

definition get_queue_meta :: "symbol \<Rightarrow> (fac_val, queue_metadata) action" where
  "get_queue_meta slug =
     bind_op (storage_expect as_meta ''queue not found'' (queue_registry_key slug)) (\<lambda>metadata.
     then_op (extend_ttl (queue_registry_key slug) TTL_THRESHOLD TTL_EXTEND_TO)
     (ret metadata))"

definition append_slug :: "symbol \<Rightarrow> (fac_val, unit) action" where
  "append_slug slug =
     bind_op (storage_get_or as_slugs [] SLUG_INDEX_KEY) (\<lambda>slugs.
     set_and_extend SLUG_INDEX_KEY (FSlugs (slugs @ [slug])))"

definition remove_slug :: "symbol \<Rightarrow> (fac_val, unit) action" where
  "remove_slug slug =
     bind_op (storage_get_or as_slugs [] SLUG_INDEX_KEY) (\<lambda>slugs.
     set_and_extend SLUG_INDEX_KEY (FSlugs (filter (\<lambda>registered. registered \<noteq> slug) slugs)))"

section \<open>Entry points\<close>

definition fac_initialize :: "address \<Rightarrow> (fac_val, unit) action" where
  "fac_initialize admin =
     then_op (require_auth admin)
     (bind_op (storage_has fac_config_key) (\<lambda>present.
     then_op (panic_if present ''already initialized'')
     (then_op (set_and_extend fac_config_key
        (FConfig \<lparr>fc_admin = admin, fc_min_version = 1, fc_max_version = 1\<rparr>))
     (then_op (set_and_extend SLUG_INDEX_KEY (FSlugs []))
     (bind_op (reads env_self) (\<lambda>self.
     fac_emit ''Init'' '''' self 0))))))"

definition deploy_queue ::
  "(hash \<Rightarrow> address \<Rightarrow> hash \<Rightarrow> hash) \<Rightarrow> (hash \<Rightarrow> error option) \<Rightarrow>
   address \<Rightarrow> symbol \<Rightarrow> symbol \<Rightarrow> u32 \<Rightarrow> hash \<Rightarrow> (fac_val, address) action" where
  "deploy_queue contract_id_of constructor deployer slug name version wasm_hash =
     then_op (require_auth deployer)
     (bind_op fac_config (\<lambda>config.
     then_op (panic_if (version < fc_min_version config \<or> fc_max_version config < version)
        ''version out of bounds'')
     (then_op (validate_approved_hash version wasm_hash)
     (then_op (require_approved_hash version wasm_hash)
     (bind_op (storage_has (queue_registry_key slug)) (\<lambda>present.
     then_op (panic_if present ''queue with this slug already exists'')
     (bind_op (deploy contract_id_of constructor wasm_hash wasm_hash) (\<lambda>contract_id.
     bind_op (reads now) (\<lambda>deployed_at.
     then_op (set_and_extend (queue_registry_key slug)
        (FMeta \<lparr>qm_slug = slug, qm_name = name, qm_owner = deployer,
                qm_contract_id = contract_id, qm_version = version,
                qm_deployed_at = deployed_at, qm_active = True\<rparr>))
     (then_op (append_slug slug)
     (then_op (fac_emit ''Deployed'' slug contract_id version)
     (ret contract_id))))))))))))"

definition register_queue ::
  "address \<Rightarrow> symbol \<Rightarrow> address \<Rightarrow> u32 \<Rightarrow> (fac_val, unit) action" where
  "register_queue admin slug contract_id version =
     then_op (fac_require_admin admin)
     (bind_op (storage_has (queue_registry_key slug)) (\<lambda>present.
     then_op (panic_if present ''queue already registered'')
     (bind_op (reads now) (\<lambda>deployed_at.
     then_op (set_and_extend (queue_registry_key slug)
        (FMeta \<lparr>qm_slug = slug, qm_name = ''imported'', qm_owner = admin,
                qm_contract_id = contract_id, qm_version = version,
                qm_deployed_at = deployed_at, qm_active = True\<rparr>))
     (then_op (append_slug slug)
     (fac_emit ''Registered'' slug contract_id version))))))"

definition register_approved_hash :: "address \<Rightarrow> u32 \<Rightarrow> hash \<Rightarrow> (fac_val, unit) action" where
  "register_approved_hash admin version wasm_hash =
     then_op (fac_require_admin admin)
     (then_op (set_and_extend (approved_hash_key version) (FHash wasm_hash))
     (set_and_extend APPROVED_REGISTRY_ENABLED_KEY (FEnabled True)))"

definition deactivate_queue :: "address \<Rightarrow> symbol \<Rightarrow> (fac_val, unit) action" where
  "deactivate_queue admin slug =
     then_op (fac_require_admin admin)
     (bind_op (get_queue_meta slug) (\<lambda>metadata.
     then_op (set_and_extend (queue_registry_key slug) (FMeta (metadata\<lparr>qm_active := False\<rparr>)))
     (fac_emit ''Deactivated'' slug (qm_contract_id metadata) (qm_version metadata))))"

definition reactivate_queue :: "address \<Rightarrow> symbol \<Rightarrow> (fac_val, unit) action" where
  "reactivate_queue admin slug =
     then_op (fac_require_admin admin)
     (bind_op (get_queue_meta slug) (\<lambda>metadata.
     then_op (set_and_extend (queue_registry_key slug) (FMeta (metadata\<lparr>qm_active := True\<rparr>)))
     (fac_emit ''Reactivated'' slug (qm_contract_id metadata) (qm_version metadata))))"

definition destroy_queue :: "address \<Rightarrow> symbol \<Rightarrow> (fac_val, unit) action" where
  "destroy_queue admin slug =
     then_op (fac_require_admin admin)
     (bind_op (storage_has (queue_registry_key slug)) (\<lambda>present.
     then_op (panic_if (\<not> present) ''queue not found'')
     (bind_op (storage_expect as_meta ''queue not found'' (queue_registry_key slug)) (\<lambda>metadata.
     then_op (storage_remove (queue_registry_key slug))
     (then_op (remove_slug slug)
     (fac_emit ''Destroyed'' slug (qm_contract_id metadata) (qm_version metadata)))))))"

definition fac_set_config :: "address \<Rightarrow> u32 \<Rightarrow> u32 \<Rightarrow> (fac_val, unit) action" where
  "fac_set_config admin min_version max_version =
     then_op (fac_require_admin admin)
     (bind_op fac_config (\<lambda>config.
     set_and_extend fac_config_key
       (FConfig (config\<lparr>fc_min_version := min_version, fc_max_version := max_version\<rparr>))))"

definition get_queue :: "symbol \<Rightarrow> (fac_val, queue_metadata option) action" where
  "get_queue slug = storage_get as_meta (queue_registry_key slug)"

definition list_queues :: "(fac_val, symbol list) action" where
  "list_queues = storage_get_or as_slugs [] SLUG_INDEX_KEY"

definition verify_queue :: "symbol \<Rightarrow> (fac_val, bool) action" where
  "verify_queue slug =
     bind_op (storage_get as_meta (queue_registry_key slug)) (\<lambda>found.
     ret (case found of Some meta \<Rightarrow> qm_active meta | None \<Rightarrow> False))"

definition queue_count :: "(fac_val, u32) action" where
  "queue_count =
     bind_op (storage_get_or as_slugs [] SLUG_INDEX_KEY) (\<lambda>slugs.
     ret (word_of_nat (length slugs)))"

definition upgrade_queue :: "address \<Rightarrow> symbol \<Rightarrow> u32 \<Rightarrow> hash \<Rightarrow> (fac_val, unit) action" where
  "upgrade_queue admin slug new_version new_wasm_hash =
     then_op (fac_require_admin admin)
     (bind_op fac_config (\<lambda>config.
     then_op (panic_if (new_version < fc_min_version config \<or> fc_max_version config < new_version)
        ''version out of bounds'')
     (bind_op (get_queue_meta slug) (\<lambda>metadata.
     then_op (panic_if (new_version \<le> qm_version metadata) ''version must increase'')
     (then_op (validate_approved_hash new_version new_wasm_hash)
     (then_op (require_approved_hash new_version new_wasm_hash)
     (then_op (set_and_extend (queue_registry_key slug)
        (FMeta (metadata\<lparr>qm_version := new_version\<rparr>)))
     (fac_emit ''Upgraded'' slug (qm_contract_id metadata) new_version))))))))"

section \<open>The contract as a machine\<close>

datatype fac_call =
    InitializeFactory address
  | DeployQueue address symbol symbol u32 hash
  | RegisterQueue address symbol address u32
  | RegisterApprovedHash address u32 hash
  | DeactivateQueue address symbol
  | ReactivateQueue address symbol
  | DestroyQueue address symbol
  | SetVersions address u32 u32
  | UpgradeQueue address symbol u32 hash

datatype fac_ret = FUnit | FAddress address

fun fac_exec ::
  "(hash \<Rightarrow> address \<Rightarrow> hash \<Rightarrow> hash) \<Rightarrow> (hash \<Rightarrow> error option) \<Rightarrow>
   fac_call \<Rightarrow> (fac_val, fac_ret) action" where
  "fac_exec cid ctor (InitializeFactory a) = then_op (fac_initialize a) (ret FUnit)"
| "fac_exec cid ctor (DeployQueue who slug name v h) =
     bind_op (deploy_queue cid ctor who slug name v h) (\<lambda>a. ret (FAddress a))"
| "fac_exec cid ctor (RegisterQueue a slug c v) = then_op (register_queue a slug c v) (ret FUnit)"
| "fac_exec cid ctor (RegisterApprovedHash a v h) =
     then_op (register_approved_hash a v h) (ret FUnit)"
| "fac_exec cid ctor (DeactivateQueue a slug) = then_op (deactivate_queue a slug) (ret FUnit)"
| "fac_exec cid ctor (ReactivateQueue a slug) = then_op (reactivate_queue a slug) (ret FUnit)"
| "fac_exec cid ctor (DestroyQueue a slug) = then_op (destroy_queue a slug) (ret FUnit)"
| "fac_exec cid ctor (SetVersions a lo hi) = then_op (fac_set_config a lo hi) (ret FUnit)"
| "fac_exec cid ctor (UpgradeQueue a slug v h) = then_op (upgrade_queue a slug v h) (ret FUnit)"

end
