(* ===== verification/Factory_Inv.thy ===== *)
theory Factory_Inv
  imports Factory Contract_Machine
begin

text \<open>
  The invariant of the factory, stated on its storage: the slug index lists every registered
  queue exactly once. Over a run the administrator stays, deployed contracts stay, and so do
  the factory's own address and network (\<open>storage_machine\<close>).
\<close>

section \<open>Definitions\<close>

definition slugs_of :: "fac_val env \<Rightarrow> symbol list" where
  "slugs_of s = (case env_data s SLUG_INDEX_KEY of Some (FSlugs l) \<Rightarrow> l | _ \<Rightarrow> [])"

definition registered :: "fac_val env \<Rightarrow> symbol \<Rightarrow> bool" where
  "registered s slug \<longleftrightarrow> env_data s (queue_registry_key slug) \<noteq> None"

definition fac_inv :: "fac_val env \<Rightarrow> bool" where
  "fac_inv s \<longleftrightarrow>
     (\<forall>v. env_data s SLUG_INDEX_KEY = Some v \<longrightarrow> (\<exists>l. v = FSlugs l)) \<and>
     (\<forall>v. env_data s fac_config_key = Some v \<longrightarrow> (\<exists>c. v = FConfig c)) \<and>
     (env_data s fac_config_key = None \<longrightarrow> env_data s SLUG_INDEX_KEY = None) \<and>
     distinct (slugs_of s) \<and> (\<forall>slug. slug \<in> set (slugs_of s) \<longleftrightarrow> registered s slug) \<and>
     (\<forall>slug v. env_data s (queue_registry_key slug) = Some v \<longrightarrow>
        (\<exists>m. v = FMeta m \<and> qm_slug m = slug))"

definition fac_hist :: "fac_val env \<Rightarrow> fac_val env \<Rightarrow> bool" where
  "fac_hist s t \<longleftrightarrow>
     env_self t = env_self s \<and> network_id (env_ledger t) = network_id (env_ledger s) \<and>
     env_instances s \<subseteq>\<^sub>m env_instances t \<and>
     (\<forall>c. env_data s fac_config_key = Some (FConfig c) \<longrightarrow>
        (\<exists>c'. env_data t fac_config_key = Some (FConfig c') \<and> fc_admin c' = fc_admin c))"

text \<open>The entries that only extend their lives, and those that change.\<close>

definition fac_frame :: "fac_val env \<Rightarrow> fac_val env \<Rightarrow> bool" where
  "fac_frame s t \<longleftrightarrow>
     env_self t = env_self s \<and> env_ledger t = env_ledger s \<and> env_auth t = env_auth s \<and>
     env_data t = env_data s \<and> env_instances t = env_instances s"

section \<open>What a successful step does\<close>

lemma fac_require_admin_Inr:
  assumes "fac_require_admin admin s = Inr (u, t)"
  shows "t = s \<and> env_auth s admin \<and>
    (\<exists>c. env_data s fac_config_key = Some (FConfig c) \<and> fc_admin c = admin)"
  using assms
  by (auto simp: fac_require_admin_def op_Inr elim!: as_fconfig.elims)

lemma fac_config_Inr:
  assumes "fac_config s = Inr (c, t)"
  shows "t = s \<and> env_data s fac_config_key = Some (FConfig c)"
  using assms by (auto simp: fac_config_def op_Inr elim!: as_fconfig.elims)

lemma get_queue_meta_Inr:
  assumes "get_queue_meta slug s = Inr (m, t)"
  shows "t = bump (queue_registry_key slug) s \<and>
    env_data s (queue_registry_key slug) = Some (FMeta m)"
  using assms by (auto simp: get_queue_meta_def op_Inr elim!: as_meta.elims)

lemma validate_approved_hash_Inr:
  assumes "validate_approved_hash v h s = Inr (u, t)"
  shows "fac_frame s t \<and> (\<forall>x. env_data s (approved_hash_key v) = Some (FHash x) \<longrightarrow> x = h)"
  using assms
  by (auto simp: validate_approved_hash_def op_Inr fac_frame_def split: option.splits)

lemma require_approved_hash_Inr:
  assumes "require_approved_hash v h s = Inr (u, t)"
  shows "fac_frame s t \<and> (env_data s APPROVED_REGISTRY_ENABLED_KEY = Some (FEnabled True) \<longrightarrow>
    env_data s (approved_hash_key v) = Some (FHash h))"
  using assms
  by (auto simp: require_approved_hash_def op_Inr fac_frame_def split: if_splits option.splits
      elim!: as_hash.elims as_enabled.elims)

lemma slugs_Inr:
  assumes "storage_get_or as_slugs [] SLUG_INDEX_KEY s = Inr (l, t)"
  shows "t = s \<and> l = slugs_of s"
  using assms
  by (auto simp: op_Inr slugs_of_def split: option.splits elim!: as_slugs.elims)

lemma append_slug_Inr:
  assumes "append_slug slug s = Inr (u, t)"
  shows "t = bump SLUG_INDEX_KEY (put_data SLUG_INDEX_KEY (FSlugs (slugs_of s @ [slug])) s)"
  using assms
  by (auto simp: append_slug_def bind_op_Inr dest!: slugs_Inr set_and_extend_Inr)

lemma remove_slug_Inr:
  assumes "remove_slug slug s = Inr (u, t)"
  shows "t = bump SLUG_INDEX_KEY
    (put_data SLUG_INDEX_KEY (FSlugs (filter (\<lambda>x. x \<noteq> slug) (slugs_of s))) s)"
  using assms
  by (auto simp: remove_slug_def bind_op_Inr dest!: slugs_Inr set_and_extend_Inr)

lemma deploy_Inr:
  assumes "deploy cid ctor salt h s = Inr (a, t)"
  shows "a = ContractAddr (cid (network_id (env_ledger s)) (env_self s) salt) \<and>
    env_instances s (cid (network_id (env_ledger s)) (env_self s) salt) = None \<and>
    env_wasms s h \<and> ctor h = None \<and>
    t = s\<lparr>env_instances := (env_instances s)
            (cid (network_id (env_ledger s)) (env_self s) salt \<mapsto> h)\<rparr>"
  using assms by (auto simp: deploy_def Let_def split: if_splits sum.splits option.splits)

lemmas fac_dests = fac_require_admin_Inr fac_config_Inr get_queue_meta_Inr
  validate_approved_hash_Inr require_approved_hash_Inr append_slug_Inr remove_slug_Inr deploy_Inr
  set_and_extend_Inr

lemmas fac_ops = bind_op_Inr then_op_Inr panic_if_Inr require_auth_Inr storage_has_Inr publish_Inr
  storage_remove_Inr fac_emit_def

section \<open>The effect of every call\<close>

definition new_queue ::
  "symbol \<Rightarrow> symbol \<Rightarrow> address \<Rightarrow> address \<Rightarrow> u32 \<Rightarrow> u64 \<Rightarrow> queue_metadata" where
  "new_queue slug name owner contract_id version t =
     \<lparr>qm_slug = slug, qm_name = name, qm_owner = owner, qm_contract_id = contract_id,
      qm_version = version, qm_deployed_at = t, qm_active = True\<rparr>"

definition fac_admin_of :: "fac_val env \<Rightarrow> address \<Rightarrow> bool" where
  "fac_admin_of s admin \<longleftrightarrow> env_auth s admin \<and>
     (\<exists>c. env_data s fac_config_key = Some (FConfig c) \<and> fc_admin c = admin)"

definition fac_same :: "fac_val env \<Rightarrow> fac_val env \<Rightarrow> bool" where
  "fac_same s t \<longleftrightarrow> env_self t = env_self s \<and> env_ledger t = env_ledger s"

lemma require_admin_effect:
  "fac_require_admin admin s = Inr (u, t) \<Longrightarrow> t = s \<and> fac_admin_of s admin"
  by (auto simp: fac_admin_of_def dest: fac_require_admin_Inr)

lemma slugs_of_cong:
  "env_data t SLUG_INDEX_KEY = env_data s SLUG_INDEX_KEY \<Longrightarrow> slugs_of t = slugs_of s"
  by (simp add: slugs_of_def)

lemma deploy_queue_effect:
  assumes "deploy_queue cid ctor who slug name v h s = Inr (a, t)"
  shows "\<exists>c. env_auth s who \<and> env_data s fac_config_key = Some (FConfig c) \<and>
    fc_min_version c \<le> v \<and> v \<le> fc_max_version c \<and>
    (\<forall>x. env_data s (approved_hash_key v) = Some (FHash x) \<longrightarrow> x = h) \<and>
    (env_data s APPROVED_REGISTRY_ENABLED_KEY = Some (FEnabled True) \<longrightarrow>
       env_data s (approved_hash_key v) = Some (FHash h)) \<and>
    env_data s (queue_registry_key slug) = None \<and>
    a = ContractAddr (cid (network_id (env_ledger s)) (env_self s) h) \<and>
    env_instances s (cid (network_id (env_ledger s)) (env_self s) h) = None \<and>
    env_instances t = (env_instances s)(cid (network_id (env_ledger s)) (env_self s) h \<mapsto> h) \<and>
    env_data t = (env_data s)(queue_registry_key slug \<mapsto> FMeta (new_queue slug name who a v (now s)),
      SLUG_INDEX_KEY \<mapsto> FSlugs (slugs_of s @ [slug])) \<and> fac_same s t"
  using assms
  by (auto simp: deploy_queue_def fac_ops fac_same_def fac_frame_def slugs_of_def new_queue_def now_def not_less
      dest!: fac_config_Inr validate_approved_hash_Inr require_approved_hash_Inr deploy_Inr
        append_slug_Inr set_and_extend_Inr)

lemma register_queue_effect:
  assumes "register_queue admin slug cid v s = Inr (u, t)"
  shows "fac_admin_of s admin \<and> env_data s (queue_registry_key slug) = None \<and>
    env_data t = (env_data s)
      (queue_registry_key slug \<mapsto> FMeta (new_queue slug ''imported'' admin cid v (now s)),
       SLUG_INDEX_KEY \<mapsto> FSlugs (slugs_of s @ [slug])) \<and>
    env_instances t = env_instances s \<and> fac_same s t"
  using assms
  by (auto simp: register_queue_def fac_ops fac_same_def fac_frame_def slugs_of_def new_queue_def now_def
      dest!: require_admin_effect append_slug_Inr set_and_extend_Inr)

lemma register_approved_hash_effect:
  assumes "register_approved_hash admin v h s = Inr (u, t)"
  shows "fac_admin_of s admin \<and>
    env_data t = (env_data s)(approved_hash_key v \<mapsto> FHash h,
      APPROVED_REGISTRY_ENABLED_KEY \<mapsto> FEnabled True) \<and>
    env_instances t = env_instances s \<and> fac_same s t"
  using assms
  by (auto simp: register_approved_hash_def fac_ops fac_same_def
      dest!: require_admin_effect set_and_extend_Inr)

definition meta_update :: "address \<Rightarrow> symbol \<Rightarrow> queue_metadata \<Rightarrow> queue_metadata \<Rightarrow>
    fac_val env \<Rightarrow> fac_val env \<Rightarrow> bool" where
  "meta_update admin slug m m' s t \<longleftrightarrow>
     fac_admin_of s admin \<and> env_data s (queue_registry_key slug) = Some (FMeta m) \<and>
     env_data t = (env_data s)(queue_registry_key slug \<mapsto> FMeta m') \<and>
     env_instances t = env_instances s \<and> fac_same s t"

lemma deactivate_queue_effect:
  assumes "deactivate_queue admin slug s = Inr (u, t)"
  shows "\<exists>m. meta_update admin slug m (m\<lparr>qm_active := False\<rparr>) s t"
  using assms
  by (auto simp: deactivate_queue_def fac_ops fac_same_def meta_update_def
      dest!: require_admin_effect set_and_extend_Inr get_queue_meta_Inr)

lemma reactivate_queue_effect:
  assumes "reactivate_queue admin slug s = Inr (u, t)"
  shows "\<exists>m. meta_update admin slug m (m\<lparr>qm_active := True\<rparr>) s t"
  using assms
  by (auto simp: reactivate_queue_def fac_ops fac_same_def meta_update_def
      dest!: require_admin_effect set_and_extend_Inr get_queue_meta_Inr)

lemma destroy_queue_effect:
  assumes "destroy_queue admin slug s = Inr (u, t)"
  shows "fac_admin_of s admin \<and> registered s slug \<and>
    env_data t = (env_data s)(queue_registry_key slug := None,
      SLUG_INDEX_KEY \<mapsto> FSlugs (filter (\<lambda>x. x \<noteq> slug) (slugs_of s))) \<and>
    env_instances t = env_instances s \<and> fac_same s t"
  using assms
  by (auto simp: destroy_queue_def fac_ops fac_same_def fac_frame_def slugs_of_def registered_def storage_expect_Inr
      dest!: require_admin_effect remove_slug_Inr)

lemma fac_set_config_effect:
  assumes "fac_set_config admin lo hi s = Inr (u, t)"
  shows "\<exists>c. fac_admin_of s admin \<and> env_data s fac_config_key = Some (FConfig c) \<and>
    env_data t = (env_data s)(fac_config_key \<mapsto>
      FConfig (c\<lparr>fc_min_version := lo, fc_max_version := hi\<rparr>)) \<and>
    env_instances t = env_instances s \<and> fac_same s t"
  using assms
  by (auto simp: fac_set_config_def fac_ops fac_same_def
      dest!: require_admin_effect set_and_extend_Inr fac_config_Inr)

lemma fac_initialize_effect:
  assumes "fac_initialize admin s = Inr (u, t)"
  shows "env_auth s admin \<and> env_data s fac_config_key = None \<and>
    env_data t = (env_data s)
      (fac_config_key \<mapsto> FConfig \<lparr>fc_admin = admin, fc_min_version = 1, fc_max_version = 1\<rparr>,
       SLUG_INDEX_KEY \<mapsto> FSlugs []) \<and>
    env_instances t = env_instances s \<and> fac_same s t"
  using assms
  by (auto simp: fac_initialize_def fac_ops fac_same_def dest!: set_and_extend_Inr)

lemma upgrade_queue_effect:
  assumes "upgrade_queue admin slug v h s = Inr (u, t)"
  shows "\<exists>c m. env_data s fac_config_key = Some (FConfig c) \<and>
    fc_min_version c \<le> v \<and> v \<le> fc_max_version c \<and> qm_version m < v \<and>
    (\<forall>x. env_data s (approved_hash_key v) = Some (FHash x) \<longrightarrow> x = h) \<and>
    (env_data s APPROVED_REGISTRY_ENABLED_KEY = Some (FEnabled True) \<longrightarrow>
       env_data s (approved_hash_key v) = Some (FHash h)) \<and>
    meta_update admin slug m (m\<lparr>qm_version := v\<rparr>) s t"
  using assms
  by (auto simp: upgrade_queue_def fac_ops fac_same_def fac_frame_def slugs_of_def meta_update_def not_less not_le
      dest!: require_admin_effect fac_config_Inr get_queue_meta_Inr validate_approved_hash_Inr
        require_approved_hash_Inr set_and_extend_Inr)

lemma upgrade_queue_meta:
  assumes "upgrade_queue admin slug v h s = Inr (u, t)"
  shows "\<exists>m. meta_update admin slug m (m\<lparr>qm_version := v\<rparr>) s t"
  using upgrade_queue_effect [OF assms] by blast

section \<open>The invariant\<close>

lemma fac_inv_storage: "fac_inv s \<Longrightarrow> env_data t = env_data s \<Longrightarrow> fac_inv t"
  by (simp add: fac_inv_def slugs_of_def registered_def)

lemma fac_inv_new:
  assumes "fac_inv s" and "env_data s (queue_registry_key slug) = None"
    and "env_data s fac_config_key \<noteq> None" and "qm_slug m = slug"
    and "env_data t = (env_data s)(queue_registry_key slug \<mapsto> FMeta m,
      SLUG_INDEX_KEY \<mapsto> FSlugs (slugs_of s @ [slug]))"
  shows "fac_inv t"
proof -
  have "slugs_of t = slugs_of s @ [slug]"
    using assms(5) by (simp add: slugs_of_def)
  moreover have "slug \<notin> set (slugs_of s)"
    using assms(1,2) by (simp add: fac_inv_def registered_def)
  ultimately show ?thesis
    using assms by (auto simp: fac_inv_def registered_def)
qed

lemma fac_inv_meta:
  assumes "fac_inv s" and "env_data s (queue_registry_key slug) = Some (FMeta m)"
    and "qm_slug m' = qm_slug m"
    and "env_data t = (env_data s)(queue_registry_key slug \<mapsto> FMeta m')"
  shows "fac_inv t"
proof -
  have "slugs_of t = slugs_of s" using assms(4) by (simp add: slugs_of_def)
  moreover have "qm_slug m = slug" using assms(1,2) by (auto simp: fac_inv_def)
  ultimately show ?thesis
    using assms by (auto simp: fac_inv_def registered_def)
qed

lemma fac_inv_meta_update:
  assumes "meta_update admin slug m m' s t" and "fac_inv s" and "qm_slug m' = qm_slug m"
  shows "fac_inv t"
  using assms fac_inv_meta [of s slug m m' t] by (simp add: meta_update_def)

lemma fac_inv_destroyed:
  assumes "fac_inv s" and "registered s slug"
    and "env_data t = (env_data s)(queue_registry_key slug := None,
      SLUG_INDEX_KEY \<mapsto> FSlugs (filter (\<lambda>x. x \<noteq> slug) (slugs_of s)))"
  shows "fac_inv t"
proof -
  have "slugs_of t = filter (\<lambda>x. x \<noteq> slug) (slugs_of s)"
    using assms(3) by (simp add: slugs_of_def)
  moreover have "env_data s fac_config_key \<noteq> None"
    using assms(1,2) by (auto simp: fac_inv_def slugs_of_def)
  ultimately show ?thesis
    using assms by (auto simp: fac_inv_def registered_def)
qed

lemma fac_inv_other:
  assumes "fac_inv s" and "k \<noteq> SLUG_INDEX_KEY" and "\<And>slug. k \<noteq> queue_registry_key slug"
    and "k = fac_config_key \<longrightarrow> env_data s k \<noteq> None \<and> (\<exists>c. v = FConfig c)"
    and "env_data t = (env_data s)(k \<mapsto> v)"
  shows "fac_inv t"
proof -
  have "slugs_of t = slugs_of s" using assms(2,5) by (simp add: slugs_of_def)
  moreover have "env_data t (queue_registry_key slug) = env_data s (queue_registry_key slug)" for slug
    using assms(3) [of slug] assms(5) by auto
  ultimately show ?thesis
    using assms by (auto simp: fac_inv_def registered_def)
qed

lemma fac_inv_approved:
  assumes "fac_inv s" and "env_data t = (env_data s)(approved_hash_key v \<mapsto> FHash h,
      APPROVED_REGISTRY_ENABLED_KEY \<mapsto> FEnabled True)"
  shows "fac_inv t"
proof -
  let ?s = "s\<lparr>env_data := (env_data s)(approved_hash_key v \<mapsto> FHash h)\<rparr>"
  have "fac_inv ?s"
    using assms(1) by (rule fac_inv_other [where k = "approved_hash_key v"]) auto
  then show ?thesis
    by (rule fac_inv_other [where k = APPROVED_REGISTRY_ENABLED_KEY]) (use assms(2) in auto)
qed

lemma fac_inv_initialized:
  assumes "fac_inv s" and "env_data s fac_config_key = None"
    and "env_data t = (env_data s)(fac_config_key \<mapsto> FConfig c, SLUG_INDEX_KEY \<mapsto> FSlugs [])"
  shows "fac_inv t"
proof -
  have "env_data s SLUG_INDEX_KEY = None"
    using assms(1,2) by (simp add: fac_inv_def)
  then have "slugs_of s = []" "slugs_of t = []"
    using assms(3) by (simp_all add: slugs_of_def)
  then show ?thesis
    using assms by (auto simp: fac_inv_def registered_def)
qed

lemma fac_exec_inv:
  assumes "fac_inv s" and "fac_exec cid ctor c s = Inr (r, t)"
  shows "fac_inv t"
proof (cases c)
  case (InitializeFactory a)
  with assms(2) show ?thesis
    by (auto simp: then_op_Inr dest!: fac_initialize_effect intro: fac_inv_initialized [OF assms(1)])
next
  case (DeployQueue who slug name v h)
  with assms(2) obtain a where "deploy_queue cid ctor who slug name v h s = Inr (a, t)"
    by (auto simp: bind_op_Inr)
  note eff = deploy_queue_effect [OF this]
  show ?thesis
    by (rule fac_inv_new [OF assms(1), of slug "new_queue slug name who a v (now s)"])
      (use eff in \<open>simp_all add: new_queue_def, blast+\<close>)
next
  case (RegisterQueue a slug x v)
  with assms(2) show ?thesis
    by (auto simp: then_op_Inr fac_admin_of_def dest!: register_queue_effect
        intro!: fac_inv_new [OF assms(1), of slug] simp: new_queue_def)
next
  case (RegisterApprovedHash a v h)
  with assms(2) show ?thesis
    by (auto simp: then_op_Inr dest!: register_approved_hash_effect
        intro: fac_inv_approved [OF assms(1)])
next
  case (DeactivateQueue a slug)
  with assms(2) show ?thesis
    by (auto simp: then_op_Inr dest!: deactivate_queue_effect
        intro: fac_inv_meta_update [OF _ assms(1)])
next
  case (ReactivateQueue a slug)
  with assms(2) show ?thesis
    by (auto simp: then_op_Inr dest!: reactivate_queue_effect
        intro: fac_inv_meta_update [OF _ assms(1)])
next
  case (DestroyQueue a slug)
  with assms(2) show ?thesis
    by (auto simp: then_op_Inr dest!: destroy_queue_effect intro: fac_inv_destroyed [OF assms(1)])
next
  case (SetVersions a lo hi)
  with assms(2) obtain x where x: "env_data s fac_config_key = Some (FConfig x)"
    "env_data t = (env_data s)(fac_config_key \<mapsto>
      FConfig (x\<lparr>fc_min_version := lo, fc_max_version := hi\<rparr>))"
    by (auto simp: then_op_Inr dest!: fac_set_config_effect)
  from assms(1) show ?thesis
    by (rule fac_inv_other [where k = fac_config_key]) (use x in auto)
next
  case (UpgradeQueue a slug v h)
  with assms(2) show ?thesis
    by (auto simp: then_op_Inr dest!: upgrade_queue_meta
        intro: fac_inv_meta_update [OF _ assms(1)])
qed

section \<open>The history\<close>

lemma fac_histI:
  assumes "fac_same s t" and "env_instances s \<subseteq>\<^sub>m env_instances t"
    and "\<And>c. env_data s fac_config_key = Some (FConfig c) \<Longrightarrow>
      \<exists>c'. env_data t fac_config_key = Some (FConfig c') \<and> fc_admin c' = fc_admin c"
  shows "fac_hist s t"
  using assms by (auto simp: fac_hist_def fac_same_def)

lemma fac_hist_meta_update:
  assumes "meta_update admin slug m m' s t"
  shows "fac_hist s t"
  using assms by (intro fac_histI) (auto simp: meta_update_def)

lemma fac_exec_hist:
  assumes "fac_exec cid ctor c s = Inr (r, t)"
  shows "fac_hist s t"
proof (cases c)
  case (DeployQueue who slug name v h)
  with assms obtain a where "deploy_queue cid ctor who slug name v h s = Inr (a, t)"
    by (auto simp: bind_op_Inr)
  note eff = deploy_queue_effect [OF this]
  let ?id = "cid (network_id (env_ledger s)) (env_self s) h"
  have new: "env_instances s ?id = None" "env_instances t = (env_instances s)(?id \<mapsto> h)"
    and cfg: "env_data t fac_config_key = env_data s fac_config_key" and "fac_same s t"
    using eff by auto
  have "env_instances s \<subseteq>\<^sub>m env_instances t"
    using new by (auto simp: map_le_def dom_def)
  with cfg \<open>fac_same s t\<close> show ?thesis by (intro fac_histI) simp_all
next
  case (InitializeFactory a)
  with assms show ?thesis
    by (auto simp: then_op_Inr dest!: fac_initialize_effect intro!: fac_histI)
next
  case (RegisterQueue a slug x v)
  with assms show ?thesis
    by (auto simp: then_op_Inr dest!: register_queue_effect intro!: fac_histI)
next
  case (RegisterApprovedHash a v h)
  with assms show ?thesis
    by (auto simp: then_op_Inr dest!: register_approved_hash_effect intro!: fac_histI)
next
  case (DeactivateQueue a slug)
  with assms show ?thesis
    by (auto simp: then_op_Inr dest!: deactivate_queue_effect intro: fac_hist_meta_update)
next
  case (ReactivateQueue a slug)
  with assms show ?thesis
    by (auto simp: then_op_Inr dest!: reactivate_queue_effect intro: fac_hist_meta_update)
next
  case (DestroyQueue a slug)
  with assms show ?thesis
    by (auto simp: then_op_Inr dest!: destroy_queue_effect intro!: fac_histI)
next
  case (SetVersions a lo hi)
  with assms show ?thesis
    by (auto simp: then_op_Inr dest!: fac_set_config_effect intro!: fac_histI)
next
  case (UpgradeQueue a slug v h)
  with assms show ?thesis
    by (auto simp: then_op_Inr dest!: upgrade_queue_meta intro: fac_hist_meta_update)
qed

lemma fac_hist_trans: "fac_hist s t \<Longrightarrow> fac_hist t u \<Longrightarrow> fac_hist s u"
  by (force simp: fac_hist_def intro: map_le_trans)

interpretation factory: storage_machine "fac_exec cid ctor" fac_inv fac_hist for cid ctor
proof unfold_locales
  show "fac_hist s (t\<lparr>env_auth := auth\<rparr>) \<longleftrightarrow> fac_hist s t" for s t auth
    by (simp add: fac_hist_def)
  show "fac_hist s t" if "ledger_closes s t" for s t
    using that by (simp add: fac_hist_def ledger_closes_def)
  show "fac_hist s s" for s by (simp add: fac_hist_def)
qed (blast intro: fac_inv_storage fac_exec_inv fac_exec_hist fac_hist_trans)+

end
