(* ===== verification/Factory_Props.thy ===== *)
theory Factory_Props
  imports Factory_Inv
begin

text \<open>
  The properties of the queue factory, consequences of the interpretation
  \<open>factory: storage_machine\<close> and of the effect lemmas of its calls.
\<close>

section \<open>Definitions\<close>

text \<open>Who must have signed a call, and which calls are the administrator's.\<close>

fun fac_caller :: "fac_call \<Rightarrow> address" where
  "fac_caller (InitializeFactory a) = a"
| "fac_caller (DeployQueue a _ _ _ _) = a"
| "fac_caller (RegisterQueue a _ _ _) = a"
| "fac_caller (RegisterApprovedHash a _ _) = a"
| "fac_caller (DeactivateQueue a _) = a"
| "fac_caller (ReactivateQueue a _) = a"
| "fac_caller (DestroyQueue a _) = a"
| "fac_caller (SetVersions a _ _) = a"
| "fac_caller (UpgradeQueue a _ _ _) = a"

fun fac_admin_call :: "fac_call \<Rightarrow> bool" where
  "fac_admin_call (InitializeFactory _) = False"
| "fac_admin_call (DeployQueue _ _ _ _ _) = False"
| "fac_admin_call _ = True"

definition demo_factory_config :: factory_config where
  "demo_factory_config = \<lparr>fc_admin = AccountAddr 7, fc_min_version = 1, fc_max_version = 3\<rparr>"

definition demo_factory :: "(address \<Rightarrow> bool) \<Rightarrow> fac_val env" where
  "demo_factory auth = stored auth
     [fac_config_key \<mapsto> FConfig demo_factory_config, SLUG_INDEX_KEY \<mapsto> FSlugs []]"

definition demo_factory_one :: "(address \<Rightarrow> bool) \<Rightarrow> fac_val env" where
  "demo_factory_one auth = stored auth
     [fac_config_key \<mapsto> FConfig demo_factory_config, SLUG_INDEX_KEY \<mapsto> FSlugs [''sale''],
      queue_registry_key ''sale'' \<mapsto>
        FMeta (new_queue ''sale'' ''sale'' (AccountAddr 9) (ContractAddr 77) 2 900)]"

text \<open>Contract ids that depend on the salt alone; a constructor that returns.\<close>

definition demo_cid :: "hash \<Rightarrow> address \<Rightarrow> hash \<Rightarrow> hash" where
  "demo_cid network deployer salt = salt + 1"

definition demo_ctor :: "hash \<Rightarrow> error option" where
  "demo_ctor h = None"

section \<open>Shared lemmas\<close>

lemma demo_factory_sel [simp]:
  "env_ok (demo_factory auth)"
  "env_data (demo_factory auth) fac_config_key = Some (FConfig demo_factory_config)"
  "env_data (demo_factory auth) SLUG_INDEX_KEY = Some (FSlugs [])"
  "env_data (demo_factory auth) (queue_registry_key slug) = None"
  "env_data (demo_factory auth) (approved_hash_key v) = None"
  "env_data (demo_factory auth) APPROVED_REGISTRY_ENABLED_KEY = None"
  "env_auth (demo_factory auth) = auth"
  "env_instances (demo_factory auth) = Map.empty"
  "env_wasms (demo_factory auth) = (\<lambda>_. True)"
  "env_ledger (demo_factory auth) = genesis_ledger"
  "env_self (demo_factory auth) = ContractAddr 1"
  by (simp_all add: demo_factory_def)

lemma demo_factory_one_sel [simp]:
  "env_ok (demo_factory_one auth)"
  "env_data (demo_factory_one auth) fac_config_key = Some (FConfig demo_factory_config)"
  "env_data (demo_factory_one auth) (queue_registry_key ''sale'') =
     Some (FMeta (new_queue ''sale'' ''sale'' (AccountAddr 9) (ContractAddr 77) 2 900))"
  "env_data (demo_factory_one auth) (approved_hash_key v) = None"
  "env_data (demo_factory_one auth) APPROVED_REGISTRY_ENABLED_KEY = None"
  "env_auth (demo_factory_one auth) = auth"
  by (simp_all add: demo_factory_one_def)

lemma fac_inv_fresh:
  assumes "env_data s fac_config_key = None" and "env_data s SLUG_INDEX_KEY = None"
    and "\<forall>slug. env_data s (queue_registry_key slug) = None"
  shows "fac_inv s"
  using assms by (simp add: fac_inv_def slugs_of_def registered_def)

lemma fac_inv_demo [simp]: "fac_inv (demo_factory auth)"
  by (simp add: fac_inv_def slugs_of_def registered_def)

lemma env_ok_instances [simp]: "env_ok (s\<lparr>env_instances := m\<rparr>) \<longleftrightarrow> env_ok s"
  by (simp add: env_ok_def)

lemma deploy_eval:
  assumes "env_ok s"
    and "env_instances s (cid (network_id (env_ledger s)) (env_self s) salt) = None"
    and "env_wasms s h" and "ctor h = None"
  shows "deploy cid ctor salt h s =
    Inr (ContractAddr (cid (network_id (env_ledger s)) (env_self s) salt),
         s\<lparr>env_instances := (env_instances s)
            (cid (network_id (env_ledger s)) (env_self s) salt \<mapsto> h)\<rparr>)"
proof -
  have "\<exists>l. get_min_live_until_ledger (env_ledger s) Persistent = Inr l"
    using assms(1) by (auto simp: env_ok_def intro: sane_min_live_until)
  with assms show ?thesis by (auto simp: deploy_def Let_def)
qed

lemma demo_deploy:
  "\<exists>t. fac_exec demo_cid demo_ctor (DeployQueue (AccountAddr 9) ''sale'' ''Sale'' 2 40)
       (demo_factory (\<lambda>_. True)) = Inr (FAddress (ContractAddr 41), t) \<and> env_ok t"
  by (simp add: deploy_queue_def fac_config_def validate_approved_hash_def
      require_approved_hash_def append_slug_def fac_emit_def op_eval deploy_eval
      demo_factory_config_def demo_ctor_def demo_cid_def)

lemma fac_inv_entry:
  assumes "fac_inv s" and "env_data s (queue_registry_key slug) = Some v"
  shows "\<exists>m. v = FMeta m \<and> qm_slug m = slug"
  using assms unfolding fac_inv_def by blast

lemma get_queue_read:
  assumes "fac_inv s"
  shows "get_queue slug s = Inr (case env_data s (queue_registry_key slug) of
      Some (FMeta m) \<Rightarrow> Some m | _ \<Rightarrow> None, s)"
proof (cases "env_data s (queue_registry_key slug)")
  case None
  then show ?thesis by (simp add: get_queue_def storage_get_eval)
next
  case (Some v)
  with fac_inv_entry [OF assms] obtain m where "v = FMeta m" by blast
  with Some show ?thesis by (simp add: get_queue_def storage_get_eval)
qed

lemma slugs_read:
  assumes "fac_inv s"
  shows "storage_get_or as_slugs [] SLUG_INDEX_KEY s = Inr (slugs_of s, s)"
  using assms
  by (cases "env_data s SLUG_INDEX_KEY") (auto simp: fac_inv_def slugs_of_def storage_get_or_eval)

lemma fac_exec_caller:
  assumes "fac_exec cid ctor c s = Inr (r, t)"
  shows "env_auth s (fac_caller c) \<and> (fac_admin_call c \<longrightarrow> fac_admin_of s (fac_caller c))"
proof (cases c)
  case (InitializeFactory a)
  with assms show ?thesis by (auto simp: then_op_Inr dest!: fac_initialize_effect)
next
  case (DeployQueue who slug name v h)
  with assms obtain a where "deploy_queue cid ctor who slug name v h s = Inr (a, t)"
    by (auto simp: bind_op_Inr)
  with deploy_queue_effect [OF this] DeployQueue show ?thesis by simp
next
  case (RegisterQueue a slug x v)
  with assms show ?thesis
    by (auto simp: then_op_Inr fac_admin_of_def dest!: register_queue_effect)
next
  case (RegisterApprovedHash a v h)
  with assms show ?thesis
    by (auto simp: then_op_Inr fac_admin_of_def dest!: register_approved_hash_effect)
next
  case (DeactivateQueue a slug)
  with assms show ?thesis
    by (auto simp: then_op_Inr fac_admin_of_def meta_update_def dest!: deactivate_queue_effect)
next
  case (ReactivateQueue a slug)
  with assms show ?thesis
    by (auto simp: then_op_Inr fac_admin_of_def meta_update_def dest!: reactivate_queue_effect)
next
  case (DestroyQueue a slug)
  with assms show ?thesis
    by (auto simp: then_op_Inr fac_admin_of_def dest!: destroy_queue_effect)
next
  case (SetVersions a lo hi)
  with assms show ?thesis
    by (auto simp: then_op_Inr fac_admin_of_def dest!: fac_set_config_effect)
next
  case (UpgradeQueue a slug v h)
  with assms show ?thesis
    by (auto simp: then_op_Inr fac_admin_of_def meta_update_def dest!: upgrade_queue_meta)
qed

section \<open>The registry\<close>

text \<open>
  C13. Over any run of the factory from empty storage, \<open>list_queues\<close> returns every registered
  slug exactly once and nothing else, \<open>queue_count\<close> is its length, and a queue that
  \<open>get_queue\<close> returns carries the slug it was asked for.
\<close>

theorem factory_index_matches_registry:
  assumes "env_data s fac_config_key = None" and "env_data s SLUG_INDEX_KEY = None"
    and "\<forall>slug. env_data s (queue_registry_key slug) = None"
    and "contract_run (fac_exec cid ctor) s t"
  shows "\<exists>l. list_queues t = Inr (l, t) \<and> distinct l \<and>
    queue_count t = Inr (word_of_nat (length l), t) \<and>
    (\<forall>slug. slug \<in> set l \<longleftrightarrow> (\<exists>m. get_queue slug t = Inr (Some m, t) \<and> qm_slug m = slug))"
proof -
  have inv: "fac_inv t"
    using factory.run_storage [OF assms(4) fac_inv_fresh [OF assms(1-3)]] by simp
  have "slug \<in> set (slugs_of t) \<longleftrightarrow> (\<exists>m. get_queue slug t = Inr (Some m, t) \<and> qm_slug m = slug)"
    for slug
  proof (cases "env_data t (queue_registry_key slug)")
    case None
    with inv show ?thesis by (simp add: get_queue_read fac_inv_def registered_def)
  next
    case (Some v)
    with fac_inv_entry [OF inv] obtain m where "v = FMeta m" "qm_slug m = slug" by blast
    moreover have "slug \<in> set (slugs_of t)"
      using inv Some by (simp add: fac_inv_def registered_def)
    ultimately show ?thesis
      using Some by (simp add: get_queue_read [OF inv])
  qed
  moreover have "distinct (slugs_of t)"
    using inv by (simp add: fac_inv_def)
  ultimately show ?thesis
    using slugs_read [OF inv]
    by (intro exI [of _ "slugs_of t"]) (simp add: list_queues_def queue_count_def bind_op_eval)
qed

theorem factory_index_matches_registry_witness:
  "\<exists>t l. contract_run (fac_exec demo_cid demo_ctor) (stored (\<lambda>_. True) Map.empty) t \<and>
     env_data t fac_config_key \<noteq> None \<and> list_queues t = Inr (l, t) \<and> distinct l"
proof -
  let ?s = "stored (\<lambda>_. True) Map.empty :: fac_val env"
  have "\<exists>t. fac_exec demo_cid demo_ctor (InitializeFactory (AccountAddr 7))
      (?s\<lparr>env_auth := \<lambda>_. True\<rparr>) = Inr (FUnit, t) \<and> env_data t fac_config_key \<noteq> None"
    by (simp add: fac_initialize_def fac_emit_def op_eval)
  then obtain t where t: "fac_exec demo_cid demo_ctor (InitializeFactory (AccountAddr 7))
      (?s\<lparr>env_auth := \<lambda>_. True\<rparr>) = Inr (FUnit, t)" "env_data t fac_config_key \<noteq> None"
    by blast
  have run: "contract_run (fac_exec demo_cid demo_ctor) ?s t"
    using t(1) by (rule run_call [OF run_done])
  show ?thesis
    using factory_index_matches_registry [OF _ _ _ run] run t(2) by auto
qed

text \<open>
  A deployment succeeds only with the deployer's signature, for a version within the
  configured bounds, and, as soon as any hash has been approved, only for the hash approved
  for that version. The queue is then registered, active and listed, and its contract runs
  exactly that code.
\<close>

theorem factory_deploys_approved_code:
  assumes "fac_inv s"
    and "fac_exec cid ctor (DeployQueue who slug name v h) s = Inr (FAddress a, t)"
  shows "\<exists>c m id. env_auth s who \<and> env_data s fac_config_key = Some (FConfig c) \<and>
    fc_min_version c \<le> v \<and> v \<le> fc_max_version c \<and>
    (env_data s APPROVED_REGISTRY_ENABLED_KEY = Some (FEnabled True) \<longrightarrow>
       env_data s (approved_hash_key v) = Some (FHash h)) \<and>
    get_queue slug t = Inr (Some m, t) \<and> qm_owner m = who \<and> qm_version m = v \<and>
    qm_contract_id m = a \<and> verify_queue slug t = Inr (True, t) \<and> slug \<in> set (slugs_of t) \<and>
    a = ContractAddr id \<and> env_instances s id = None \<and> env_instances t id = Some h"
proof -
  have d: "deploy_queue cid ctor who slug name v h s = Inr (a, t)"
    using assms(2) by (auto simp: bind_op_Inr)
  let ?id = "cid (network_id (env_ledger s)) (env_self s) h"
  let ?m = "new_queue slug name who a v (now s)"
  from deploy_queue_effect [OF d] obtain c where c: "env_auth s who"
    "env_data s fac_config_key = Some (FConfig c)" "fc_min_version c \<le> v" "v \<le> fc_max_version c"
    and approved: "env_data s APPROVED_REGISTRY_ENABLED_KEY = Some (FEnabled True) \<longrightarrow>
       env_data s (approved_hash_key v) = Some (FHash h)"
    and a: "a = ContractAddr ?id" "env_instances s ?id = None"
      "env_instances t = (env_instances s)(?id \<mapsto> h)"
    and data: "env_data t = (env_data s)(queue_registry_key slug \<mapsto> FMeta ?m,
      SLUG_INDEX_KEY \<mapsto> FSlugs (slugs_of s @ [slug]))"
    by blast
  have "get_queue slug t = Inr (Some ?m, t)" "verify_queue slug t = Inr (True, t)"
    "slug \<in> set (slugs_of t)"
    using data
    by (simp_all add: get_queue_def verify_queue_def op_eval slugs_of_def new_queue_def)
  then show ?thesis
    using c approved a
    by (intro exI [of _ c] exI [of _ ?m] exI [of _ ?id]) (simp add: new_queue_def)
qed

theorem factory_deploys_approved_code_witness:
  "\<exists>t m. fac_exec demo_cid demo_ctor (DeployQueue (AccountAddr 9) ''sale'' ''Sale'' 2 40)
       (demo_factory (\<lambda>_. True)) = Inr (FAddress (ContractAddr 41), t) \<and>
     get_queue ''sale'' t = Inr (Some m, t) \<and> qm_version m = 2 \<and>
     verify_queue ''sale'' t = Inr (True, t)"
proof -
  obtain t where t: "fac_exec demo_cid demo_ctor (DeployQueue (AccountAddr 9) ''sale'' ''Sale'' 2 40)
       (demo_factory (\<lambda>_. True)) = Inr (FAddress (ContractAddr 41), t)"
    using demo_deploy by blast
  from factory_deploys_approved_code [OF fac_inv_demo this] t show ?thesis
    by (auto simp del: fac_exec.simps)
qed

text \<open>
  The salt of a deployment is the hash of the code, so a code can be deployed once: after a
  successful deployment no later \<open>deploy_queue\<close> with the same hash succeeds, under any slug, by
  anyone, whatever happens in between.
\<close>

theorem factory_deploys_once_per_hash:
  assumes "fac_inv s"
    and "fac_exec cid ctor (DeployQueue who slug name v h) s = Inr (FAddress a, t)"
    and "contract_run (fac_exec cid ctor) t u"
  shows "\<exists>e. fac_exec cid ctor (DeployQueue who' slug' name' v' h) u = Inl e"
proof (cases "fac_exec cid ctor (DeployQueue who' slug' name' v' h) u")
  case (Inr r)
  then obtain a' w where d': "deploy_queue cid ctor who' slug' name' v' h u = Inr (a', w)"
    by (cases r) (auto simp: bind_op_Inr)
  have d: "deploy_queue cid ctor who slug name v h s = Inr (a, t)"
    using assms(2) by (auto simp: bind_op_Inr)
  let ?id = "cid (network_id (env_ledger s)) (env_self s) h"
  have t: "env_instances t ?id = Some h" "fac_same s t"
    using deploy_queue_effect [OF d] by auto
  have "fac_hist t u"
    using factory.run_storage [OF assms(3)] fac_exec_inv [OF assms(1,2)] by blast
  then have "env_instances t \<subseteq>\<^sub>m env_instances u" "env_self u = env_self s"
    "network_id (env_ledger u) = network_id (env_ledger s)"
    using t(2) by (simp_all add: fac_hist_def fac_same_def)
  then have "env_instances u (cid (network_id (env_ledger u)) (env_self u) h) = Some h"
    using t(1) by (force simp: map_le_def dom_def)
  with deploy_queue_effect [OF d'] show ?thesis by auto
qed simp

theorem factory_deploys_once_per_hash_witness:
  "\<exists>t e. fac_exec demo_cid demo_ctor (DeployQueue (AccountAddr 9) ''sale'' ''Sale'' 2 40)
       (demo_factory (\<lambda>_. True)) = Inr (FAddress (ContractAddr 41), t) \<and>
     fac_exec demo_cid demo_ctor (DeployQueue (AccountAddr 9) ''gala'' ''Gala'' 2 40) t = Inl e"
proof -
  obtain t where t: "fac_exec demo_cid demo_ctor (DeployQueue (AccountAddr 9) ''sale'' ''Sale'' 2 40)
       (demo_factory (\<lambda>_. True)) = Inr (FAddress (ContractAddr 41), t)"
    using demo_deploy by blast
  from factory_deploys_once_per_hash [OF fac_inv_demo this run_done] t show ?thesis
    by (blast)
qed

section \<open>Administration\<close>

text \<open>
  Every call of the factory needs the signature of the address it names; registering,
  approving, (de)activating, destroying, configuring and upgrading succeed only for the stored
  administrator, and no run ever changes who that is.
\<close>

theorem factory_admin_only:
  assumes "fac_inv s" and "fac_exec cid ctor c s = Inr (r, t)"
    and "contract_run (fac_exec cid ctor) t u"
    and "env_data s fac_config_key = Some (FConfig conf)"
  shows "env_auth s (fac_caller c) \<and> (fac_admin_call c \<longrightarrow> fac_caller c = fc_admin conf) \<and>
    (\<exists>conf'. env_data u fac_config_key = Some (FConfig conf') \<and> fc_admin conf' = fc_admin conf)"
proof -
  have "fac_hist s u"
    using fac_hist_trans [OF fac_exec_hist [OF assms(2)]]
      factory.run_storage [OF assms(3) fac_exec_inv [OF assms(1,2)]] by blast
  then have "\<exists>conf'. env_data u fac_config_key = Some (FConfig conf') \<and> fc_admin conf' = fc_admin conf"
    using assms(4) by (simp add: fac_hist_def)
  moreover have "env_auth s (fac_caller c) \<and> (fac_admin_call c \<longrightarrow> fac_admin_of s (fac_caller c))"
    using fac_exec_caller [OF assms(2)] .
  ultimately show ?thesis
    using assms(4) by (auto simp: fac_admin_of_def)
qed

theorem factory_admin_only_witness:
  "\<exists>r t. fac_exec demo_cid demo_ctor (RegisterApprovedHash (AccountAddr 7) 2 40)
       (demo_factory (\<lambda>a. a = AccountAddr 7)) = Inr (r, t) \<and>
     fac_caller (RegisterApprovedHash (AccountAddr 7) 2 40) = fc_admin demo_factory_config"
proof -
  have "\<exists>t. fac_exec demo_cid demo_ctor (RegisterApprovedHash (AccountAddr 7) 2 40)
       (demo_factory (\<lambda>a. a = AccountAddr 7)) = Inr (FUnit, t)"
    by (simp add: register_approved_hash_def fac_require_admin_def op_eval demo_factory_config_def)
  then obtain t where t: "fac_exec demo_cid demo_ctor (RegisterApprovedHash (AccountAddr 7) 2 40)
       (demo_factory (\<lambda>a. a = AccountAddr 7)) = Inr (FUnit, t)"
    by blast
  from factory_admin_only [OF fac_inv_demo this run_done demo_factory_sel(2)] t show ?thesis
    by (auto simp del: fac_exec.simps)
qed

text \<open>
  \<open>upgrade_queue\<close> is a change of the registry only: the recorded version grows strictly and
  stays within the bounds and the approved hashes, contract id, owner and activity stay, and
  no contract's code changes.
\<close>

theorem factory_upgrade_registry_only:
  assumes "fac_exec cid ctor (UpgradeQueue admin slug v h) s = Inr (FUnit, t)"
  shows "\<exists>c m. env_data s fac_config_key = Some (FConfig c) \<and> fc_admin c = admin \<and>
    fc_min_version c \<le> v \<and> v \<le> fc_max_version c \<and>
    env_data s (queue_registry_key slug) = Some (FMeta m) \<and> qm_version m < v \<and>
    (env_data s APPROVED_REGISTRY_ENABLED_KEY = Some (FEnabled True) \<longrightarrow>
       env_data s (approved_hash_key v) = Some (FHash h)) \<and>
    env_data t = (env_data s)(queue_registry_key slug \<mapsto> FMeta (m\<lparr>qm_version := v\<rparr>)) \<and>
    env_instances t = env_instances s"
proof -
  have "upgrade_queue admin slug v h s = Inr ((), t)"
    using assms by (auto simp: then_op_Inr)
  from upgrade_queue_effect [OF this] obtain c m
    where c: "env_data s fac_config_key = Some (FConfig c)" "fc_min_version c \<le> v"
      "v \<le> fc_max_version c" "qm_version m < v"
    and approved: "env_data s APPROVED_REGISTRY_ENABLED_KEY = Some (FEnabled True) \<longrightarrow>
       env_data s (approved_hash_key v) = Some (FHash h)"
    and upd: "meta_update admin slug m (m\<lparr>qm_version := v\<rparr>) s t"
    by blast
  have "fc_admin c = admin"
    using upd c(1) by (auto simp: meta_update_def fac_admin_of_def)
  with c approved upd show ?thesis
    by (intro exI [of _ c] exI [of _ m]) (simp add: meta_update_def)
qed

theorem factory_upgrade_registry_only_witness:
  "\<exists>t. fac_exec demo_cid demo_ctor (UpgradeQueue (AccountAddr 7) ''sale'' 3 50)
       (demo_factory_one (\<lambda>_. True)) = Inr (FUnit, t) \<and>
     env_instances t = env_instances (demo_factory_one (\<lambda>_. True))"
proof -
  have "\<exists>t. fac_exec demo_cid demo_ctor (UpgradeQueue (AccountAddr 7) ''sale'' 3 50)
       (demo_factory_one (\<lambda>_. True)) = Inr (FUnit, t)"
    by (simp add: upgrade_queue_def fac_require_admin_def fac_config_def get_queue_meta_def
        validate_approved_hash_def require_approved_hash_def fac_emit_def op_eval
        demo_factory_config_def new_queue_def)
  then obtain t where t: "fac_exec demo_cid demo_ctor (UpgradeQueue (AccountAddr 7) ''sale'' 3 50)
       (demo_factory_one (\<lambda>_. True)) = Inr (FUnit, t)"
    by blast
  from factory_upgrade_registry_only [OF this] t show ?thesis
    by (auto simp del: fac_exec.simps)
qed

end
