(* ===== verification/Host_Map.thy ===== *)
theory Host_Map
  imports Prelude
begin

text \<open>
  The host's ordered map (\<open>host/metered_map.rs\<close>): a vector of entries sorted by key, searched
  by the pinned binary search of \<open>host/metered_vector.rs\<close>. Keys are compared by the context
  (\<open>Compare\<close>), which may fail: the comparison is the parameter \<open>cmp\<close> of every operation, its
  laws are the locale \<open>key_order\<close>, and inside it the operations are proved to be lookup,
  update and deletion of a finite map. The charges to the budget are not modelled: the
  operations are those of an execution within its budget.
\<close>

section \<open>Definitions\<close>

datatype ordering = Less | Equal | Greater

type_synonym ('k, 'v) omap = "('k \<times> 'v) list"

definition MAP_OOB :: error where
  "MAP_OOB = HostErr EObject IndexBounds"

datatype found = FoundAt nat | InsertAt nat

text \<open>
  \<open>binary_search_by_pre_rust_182\<close> over \<open>xs[left..right]\<close>. The callers' closure records the first
  error of a comparison and answers \<open>Equal\<close> from then on, which ends the search at once: here
  the error is the result.
\<close>

function bsearch ::
  "('a \<Rightarrow> error + ordering) \<Rightarrow> 'a list \<Rightarrow> nat \<Rightarrow> nat \<Rightarrow> error + found" where
  "bsearch f xs left right =
     (if left < right then
        let mid = left + (right - left) div 2 in
        if length xs \<le> mid then Inl (Panic ''unwrap on None'')
        else case f (xs ! mid) of
          Inl e \<Rightarrow> Inl e
        | Inr Less \<Rightarrow> bsearch f xs (mid + 1) right
        | Inr Greater \<Rightarrow> bsearch f xs left mid
        | Inr Equal \<Rightarrow> Inr (FoundAt mid)
      else Inr (InsertAt left))"
  by pat_completeness auto

termination
  by (relation "measure (\<lambda>(f, xs, left, right). right - left)") auto

definition binary_search :: "('a \<Rightarrow> error + ordering) \<Rightarrow> 'a list \<Rightarrow> error + found" where
  "binary_search f xs = bsearch f xs 0 (length xs)"

type_synonym 'k compare = "'k \<Rightarrow> 'k \<Rightarrow> error + ordering"

text \<open>The check of \<open>from_map\<close> over the windows of two entries.\<close>

fun check_sorted :: "'k compare \<Rightarrow> ('k, 'v) omap \<Rightarrow> error + unit" where
  "check_sorted cmp (a # b # m) =
     (case cmp (fst a) (fst b) of
        Inl e \<Rightarrow> Inl e
      | Inr Less \<Rightarrow> check_sorted cmp (b # m)
      | Inr _ \<Rightarrow> Inl (HostErr EObject InvalidInput))"
| "check_sorted cmp m = Inr ()"

definition omap_new :: "('k, 'v) omap" where
  "omap_new = []"

definition omap_from_map :: "'k compare \<Rightarrow> ('k, 'v) omap \<Rightarrow> error + ('k, 'v) omap" where
  "omap_from_map cmp m =
     (if 2 ^ 32 \<le> length m then Inl MAP_OOB
      else case check_sorted cmp m of Inl e \<Rightarrow> Inl e | Inr _ \<Rightarrow> Inr m)"

definition omap_from_exact_iter :: "'k compare \<Rightarrow> ('k, 'v) omap \<Rightarrow> error + ('k, 'v) omap" where
  "omap_from_exact_iter cmp entries =
     (if 2 ^ 32 \<le> length entries then Inl MAP_OOB else omap_from_map cmp entries)"

definition omap_find :: "'k compare \<Rightarrow> 'k \<Rightarrow> ('k, 'v) omap \<Rightarrow> error + found" where
  "omap_find cmp key m = binary_search (\<lambda>probe. cmp (fst probe) key) m"

definition USIZE_MAX :: nat where
  "USIZE_MAX = 2 ^ 64 - 1"

definition omap_insert ::
  "'k compare \<Rightarrow> 'k \<Rightarrow> 'v \<Rightarrow> ('k, 'v) omap \<Rightarrow> error + ('k, 'v) omap" where
  "omap_insert cmp key value m =
     (case omap_find cmp key m of
        Inl e \<Rightarrow> Inl e
      | Inr (FoundAt replace_pos) \<Rightarrow>
          if replace_pos = USIZE_MAX - 1 then Inl MAP_OOB
          else omap_from_exact_iter cmp
            (take replace_pos m @ [(key, value)] @ drop (replace_pos + 1) m)
      | Inr (InsertAt insert_pos) \<Rightarrow>
          if length m = 2 ^ 32 - 1 then Inl MAP_OOB
          else omap_from_exact_iter cmp (take insert_pos m @ [(key, value)] @ drop insert_pos m))"

definition omap_get :: "'k compare \<Rightarrow> 'k \<Rightarrow> ('k, 'v) omap \<Rightarrow> error + 'v option" where
  "omap_get cmp key m =
     (case omap_find cmp key m of
        Inl e \<Rightarrow> Inl e
      | Inr (FoundAt pos) \<Rightarrow>
          if pos < length m then Inr (Some (snd (m ! pos))) else Inl (HostErr EObject InternalError)
      | Inr (InsertAt _) \<Rightarrow> Inr None)"

definition omap_get_at_index :: "nat \<Rightarrow> ('k, 'v) omap \<Rightarrow> error + ('k \<times> 'v)" where
  "omap_get_at_index index m =
     (if index < length m then Inr (m ! index) else Inl (HostErr EObject IndexBounds))"

definition omap_remove ::
  "'k compare \<Rightarrow> 'k \<Rightarrow> ('k, 'v) omap \<Rightarrow> error + (('k, 'v) omap \<times> 'v) option" where
  "omap_remove cmp key m =
     (case omap_find cmp key m of
        Inl e \<Rightarrow> Inl e
      | Inr (FoundAt pos) \<Rightarrow>
          (case omap_from_exact_iter cmp
                  (if 0 < pos then take pos m @ drop (pos + 1) m else drop 1 m) of
             Inl e \<Rightarrow> Inl e
           | Inr m' \<Rightarrow>
               if pos < length m then Inr (Some (m', snd (m ! pos)))
               else Inl (HostErr EObject InternalError))
      | Inr (InsertAt _) \<Rightarrow> Inr None)"

definition omap_len :: "('k, 'v) omap \<Rightarrow> nat" where
  "omap_len m = length m"

definition omap_contains_key :: "'k compare \<Rightarrow> 'k \<Rightarrow> ('k, 'v) omap \<Rightarrow> error + bool" where
  "omap_contains_key cmp key m =
     (case omap_find cmp key m of
        Inl e \<Rightarrow> Inl e
      | Inr (FoundAt _) \<Rightarrow> Inr True
      | Inr (InsertAt _) \<Rightarrow> Inr False)"

definition omap_keys :: "('k, 'v) omap \<Rightarrow> 'k list" where
  "omap_keys m = map fst m"

definition omap_values :: "('k, 'v) omap \<Rightarrow> 'v list" where
  "omap_values m = map snd m"

section \<open>Binary search\<close>

declare bsearch.simps [simp del]

text \<open>
  \<open>bsearch_spec f xs r\<close>: what a result says about a vector on which \<open>f\<close> answers \<open>Less\<close>,
  then \<open>Equal\<close>, then \<open>Greater\<close>.
\<close>

definition monotone_probe :: "('a \<Rightarrow> error + ordering) \<Rightarrow> 'a list \<Rightarrow> bool" where
  "monotone_probe f xs \<longleftrightarrow>
     (\<forall>i < length xs. \<exists>r. f (xs ! i) = Inr r) \<and>
     (\<forall>i j. i < j \<longrightarrow> j < length xs \<longrightarrow> f (xs ! j) \<noteq> Inr Greater \<longrightarrow> f (xs ! i) = Inr Less) \<and>
     (\<forall>i j. i < j \<longrightarrow> j < length xs \<longrightarrow> f (xs ! i) \<noteq> Inr Less \<longrightarrow> f (xs ! j) = Inr Greater)"

definition search_ok :: "('a \<Rightarrow> error + ordering) \<Rightarrow> 'a list \<Rightarrow> found \<Rightarrow> bool" where
  "search_ok f xs r \<longleftrightarrow>
     (case r of
        FoundAt i \<Rightarrow> i < length xs \<and> f (xs ! i) = Inr Equal
      | InsertAt i \<Rightarrow> i \<le> length xs \<and> (\<forall>j < i. f (xs ! j) = Inr Less) \<and>
          (\<forall>j. i \<le> j \<longrightarrow> j < length xs \<longrightarrow> f (xs ! j) = Inr Greater))"

lemma bsearch_ok:
  assumes "monotone_probe f xs" and "left \<le> right" and "right \<le> length xs"
    and "\<forall>j < left. f (xs ! j) = Inr Less"
    and "\<forall>j. right \<le> j \<longrightarrow> j < length xs \<longrightarrow> f (xs ! j) = Inr Greater"
  shows "\<exists>r. bsearch f xs left right = Inr r \<and> search_ok f xs r"
  using assms
proof (induction f xs left right rule: bsearch.induct)
  case (1 f xs left right)
  show ?case
  proof (cases "left < right")
    case False
    with "1.prems" have "bsearch f xs left right = Inr (InsertAt left)" "left = right"
      by (simp_all add: bsearch.simps)
    with "1.prems" show ?thesis by (simp add: search_ok_def)
  next
    case True
    let ?mid = "left + (right - left) div 2"
    have mid: "left \<le> ?mid" "?mid < right" "?mid < length xs"
      using True "1.prems"(3) by auto
    then obtain r where r: "f (xs ! ?mid) = Inr r"
      using "1.prems"(1) by (auto simp: monotone_probe_def)
    have unfold: "bsearch f xs left right = (case r of
        Less \<Rightarrow> bsearch f xs (?mid + 1) right | Greater \<Rightarrow> bsearch f xs left ?mid
      | Equal \<Rightarrow> Inr (FoundAt ?mid))"
      using True mid r by (subst bsearch.simps) (simp add: Let_def split: ordering.splits)
    show ?thesis
    proof (cases r)
      case Equal
      then show ?thesis using unfold mid r by (simp add: search_ok_def)
    next
      case Less
      then have "\<forall>j < ?mid + 1. f (xs ! j) = Inr Less"
        using "1.prems"(1) r mid(3) unfolding monotone_probe_def
        by (metis less_Suc_eq Suc_eq_plus1 ordering.distinct(3) sum.inject(2))
      then show ?thesis
        using "1.IH"(1) [OF True refl _ r [unfolded Less]] "1.prems" mid Less unfold by simp
    next
      case Greater
      then have "\<forall>j. ?mid \<le> j \<longrightarrow> j < length xs \<longrightarrow> f (xs ! j) = Inr Greater"
        using "1.prems"(1) r unfolding monotone_probe_def
        by (metis le_neq_implies_less ordering.distinct(3) sum.inject(2))
      then show ?thesis
        using "1.IH"(2) [OF True refl _ r [unfolded Greater]] "1.prems" mid Greater unfold by simp
    qed
  qed
qed

lemma binary_search_ok:
  assumes "monotone_probe f xs"
  shows "\<exists>r. binary_search f xs = Inr r \<and> search_ok f xs r"
  using bsearch_ok [OF assms, of 0 "length xs"] by (simp add: binary_search_def)

section \<open>Maps over a total order of keys\<close>

text \<open>
  The comparison of a map's context may reject keys; \<open>good\<close> are the keys it accepts.
\<close>

definition omap_sorted :: "('k \<Rightarrow> bool) \<Rightarrow> 'k compare \<Rightarrow> ('k, 'v) omap \<Rightarrow> bool" where
  "omap_sorted good cmp m \<longleftrightarrow>
     (\<forall>x \<in> set m. good (fst x)) \<and> sorted_wrt (\<lambda>a b. cmp (fst a) (fst b) = Inr Less) m"

locale key_order =
  fixes good :: "'k \<Rightarrow> bool"
    and cmp :: "'k compare"
  assumes cmp_total: "good a \<Longrightarrow> good b \<Longrightarrow> \<exists>r. cmp a b = Inr r"
    and cmp_eq: "good a \<Longrightarrow> good b \<Longrightarrow> cmp a b = Inr Equal \<longleftrightarrow> a = b"
    and cmp_flip: "good a \<Longrightarrow> good b \<Longrightarrow> cmp a b = Inr Less \<longleftrightarrow> cmp b a = Inr Greater"
    and cmp_trans: "good a \<Longrightarrow> good b \<Longrightarrow> good c \<Longrightarrow>
      cmp a b = Inr Less \<Longrightarrow> cmp b c = Inr Less \<Longrightarrow> cmp a c = Inr Less"
begin

lemma cmp_cases:
  assumes "good a" and "good b"
  obtains "cmp a b = Inr Less" "a \<noteq> b" | "cmp a b = Inr Equal" "a = b"
    | "cmp a b = Inr Greater" "a \<noteq> b"
proof -
  obtain r where "cmp a b = Inr r" using cmp_total assms by blast
  then show thesis
    using that cmp_eq [OF assms] by (cases r) auto
qed

lemma cmp_irrefl: "good a \<Longrightarrow> cmp a a = Inr Equal"
  by (simp add: cmp_eq)

lemma less_not_equal: "good a \<Longrightarrow> cmp a b = Inr Less \<Longrightarrow> a \<noteq> b"
  by (auto simp: cmp_irrefl)

lemma check_sorted_iff:
  assumes "\<forall>x \<in> set m. good (fst x)"
  shows "check_sorted cmp m = Inr () \<longleftrightarrow> omap_sorted good cmp m"
  using assms
proof (induction m rule: induct_list012)
  case (3 a b m)
  have ab: "good (fst a)" "good (fst b)" using "3.prems" by simp_all
  then obtain r where r: "cmp (fst a) (fst b) = Inr r" using cmp_total by blast
  have "cmp (fst a) (fst x) = Inr Less"
    if "r = Less" "cmp (fst b) (fst x) = Inr Less" "x \<in> set m" for x
    using cmp_trans [OF ab _ _ that(2)] r that(1,3) "3.prems" by simp
  with 3 r show ?case
    by (cases r) (auto simp: omap_sorted_def)
qed (simp_all add: omap_sorted_def)

lemma sorted_good:
  assumes "omap_sorted good cmp m" and "i < length m"
  shows "good (fst (m ! i))"
  using assms by (simp add: omap_sorted_def)

lemma sorted_nth:
  assumes "omap_sorted good cmp m" and "i < j" and "j < length m"
  shows "cmp (fst (m ! i)) (fst (m ! j)) = Inr Less"
  using assms by (simp add: omap_sorted_def sorted_wrt_iff_nth_less)

text \<open>A vector sorted by a key, probed for a key: the condition of the binary search.\<close>

lemma probe_sorted:
  assumes sorted: "sorted_wrt (\<lambda>a b. cmp (f a) (f b) = Inr Less) xs"
    and all: "\<forall>x \<in> set xs. good (f x)" and key: "good key"
  shows "monotone_probe (\<lambda>probe. cmp (f probe) key) xs"
  unfolding monotone_probe_def
proof (intro conjI allI impI)
  fix i j
  assume ij: "i < j" "j < length xs"
  have lt: "cmp (f (xs ! i)) (f (xs ! j)) = Inr Less"
    using sorted ij by (simp add: sorted_wrt_iff_nth_less)
  have i: "good (f (xs ! i))" and j: "good (f (xs ! j))" using all ij by simp_all
  show "cmp (f (xs ! i)) key = Inr Less" if "cmp (f (xs ! j)) key \<noteq> Inr Greater"
    using that lt cmp_trans [OF i j key lt]
    by (cases rule: cmp_cases [OF j key]) auto
  show "cmp (f (xs ! j)) key = Inr Greater" if "cmp (f (xs ! i)) key \<noteq> Inr Less"
  proof (cases rule: cmp_cases [OF i key])
    case 2
    with lt cmp_flip [OF i j] show ?thesis by simp
  next
    case 3
    then have "cmp key (f (xs ! i)) = Inr Less" using cmp_flip [OF key i] by simp
    from cmp_trans [OF key i j this lt] cmp_flip [OF key j] show ?thesis by simp
  qed (use that in simp)
qed (use key all in \<open>auto intro!: cmp_total\<close>)

lemma sorted_probe:
  assumes "omap_sorted good cmp m" and "good key"
  shows "monotone_probe (\<lambda>probe. cmp (fst probe) key) m"
  using assms by (intro probe_sorted) (simp_all add: omap_sorted_def)

lemma find_ok:
  assumes "omap_sorted good cmp m" and "good key"
  shows "\<exists>r. omap_find cmp key m = Inr r \<and> search_ok (\<lambda>probe. cmp (fst probe) key) m r"
  using binary_search_ok [OF sorted_probe [OF assms]] by (simp add: omap_find_def)

lemma find_split:
  assumes sorted: "omap_sorted good cmp m" and key: "good key"
  obtains (present) i v where "omap_find cmp key m = Inr (FoundAt i)" "i < length m"
      "m = take i m @ (key, v) # drop (Suc i) m" "snd (m ! i) = v"
    | (missing) i where "omap_find cmp key m = Inr (InsertAt i)" "i \<le> length m"
      "\<forall>x \<in> set (take i m). cmp (fst x) key = Inr Less"
      "\<forall>x \<in> set (drop i m). cmp key (fst x) = Inr Less"
proof -
  obtain r where r: "omap_find cmp key m = Inr r" "search_ok (\<lambda>probe. cmp (fst probe) key) m r"
    using find_ok [OF assms] by blast
  show thesis
  proof (cases r)
    case (FoundAt i)
    with r(2) have i: "i < length m" "cmp (fst (m ! i)) key = Inr Equal"
      by (simp_all add: search_ok_def)
    then have "fst (m ! i) = key" using cmp_eq [OF sorted_good [OF sorted] key] by blast
    then have "m ! i = (key, snd (m ! i))" by (metis prod.collapse)
    then have "m = take i m @ (key, snd (m ! i)) # drop (Suc i) m"
      using id_take_nth_drop [OF i(1)] by simp
    with present r(1) FoundAt i(1) show thesis by blast
  next
    case (InsertAt i)
    with r(2) have "i \<le> length m" "\<forall>j < i. cmp (fst (m ! j)) key = Inr Less"
      "\<forall>j. i \<le> j \<longrightarrow> j < length m \<longrightarrow> cmp key (fst (m ! j)) = Inr Less"
      using cmp_flip [OF key sorted_good [OF sorted]] by (simp_all add: search_ok_def)
    then have "\<forall>x \<in> set (take i m). cmp (fst x) key = Inr Less"
      "\<forall>x \<in> set (drop i m). cmp key (fst x) = Inr Less" "i \<le> length m"
      by (simp_all add: all_set_conv_all_nth)
    with missing r(1) InsertAt show thesis by blast
  qed
qed

lemma sorted_append_iff:
  "omap_sorted good cmp (xs @ (k, v) # ys) \<longleftrightarrow>
     omap_sorted good cmp xs \<and> omap_sorted good cmp ys \<and> good k \<and>
     (\<forall>x \<in> set xs. cmp (fst x) k = Inr Less) \<and> (\<forall>y \<in> set ys. cmp k (fst y) = Inr Less)"
proof -
  have "cmp (fst x) (fst y) = Inr Less"
    if "\<forall>x \<in> set xs. good (fst x)" "\<forall>y \<in> set ys. good (fst y)" "good k"
      "cmp (fst x) k = Inr Less" "cmp k (fst y) = Inr Less" "x \<in> set xs" "y \<in> set ys" for x y
    using cmp_trans [OF _ that(3) _ that(4,5)] that by blast
  then show ?thesis
    unfolding omap_sorted_def by (simp add: sorted_wrt_append) blast
qed

lemma sorted_parts:
  assumes "omap_sorted good cmp m"
  shows "omap_sorted good cmp (take i m)" and "omap_sorted good cmp (drop i m)"
  using assms
  by (auto simp: omap_sorted_def sorted_wrt_take sorted_wrt_drop dest: in_set_takeD in_set_dropD)

lemma sorted_take_drop:
  assumes "omap_sorted good cmp (xs @ (k, v) # ys)"
  shows "omap_sorted good cmp (xs @ ys)"
  using assms by (auto simp: omap_sorted_def sorted_wrt_append)

lemma from_exact_iter_ok:
  assumes "omap_sorted good cmp m" and "length m < 2 ^ 32"
  shows "omap_from_exact_iter cmp m = Inr m"
proof -
  have "check_sorted cmp m = Inr ()"
    using check_sorted_iff [of m] assms(1) by (simp add: omap_sorted_def)
  with assms(2) show ?thesis
    by (simp add: omap_from_exact_iter_def omap_from_map_def)
qed

lemma map_of_middle:
  assumes "omap_sorted good cmp (xs @ (k, v) # ys)"
  shows "map_of (xs @ (k, v) # ys) = (map_of (xs @ ys))(k \<mapsto> v)"
    and "map_of (xs @ ys) k = None"
proof -
  have parts: "\<forall>x \<in> set xs. good (fst x) \<and> cmp (fst x) k = Inr Less"
    "good k" "\<forall>y \<in> set ys. cmp k (fst y) = Inr Less"
    using assms unfolding sorted_append_iff by (auto simp: omap_sorted_def)
  have k: "\<forall>x \<in> set xs. fst x \<noteq> k"
    using parts(1) less_not_equal by blast
  have k': "\<forall>y \<in> set ys. fst y \<noteq> k"
    using parts(2,3) less_not_equal by metis
  have "map_of xs k = None" using k by (auto simp: map_of_eq_None_iff)
  then show "map_of (xs @ (k, v) # ys) = (map_of (xs @ ys))(k \<mapsto> v)"
    by (auto simp: fun_eq_iff map_add_def split: option.splits)
  show "map_of (xs @ ys) k = None"
    using k k' by (auto simp: map_of_eq_None_iff)
qed

text \<open>The operations are those of a finite map.\<close>

lemma get_map_of:
  assumes sorted: "omap_sorted good cmp m" and key: "good key"
  shows "omap_get cmp key m = Inr (map_of m key)"
proof (cases rule: find_split [OF assms])
  case (1 i v)
  have "omap_sorted good cmp (take i m @ (key, v) # drop (Suc i) m)"
    using sorted 1(3) by simp
  from map_of_middle(1) [OF this] have "map_of m = (map_of (take i m @ drop (Suc i) m))(key \<mapsto> v)"
    by (simp only: 1(3) [symmetric])
  then have "map_of m key = Some v" by simp
  with 1 show ?thesis by (simp add: omap_get_def)
next
  case (2 i)
  have "omap_sorted good cmp (take i m @ (key, undefined) # drop i m)"
    using 2 sorted_parts [OF sorted] key by (simp add: sorted_append_iff)
  from map_of_middle(2) [OF this] have "map_of m key = None" by simp
  with 2 show ?thesis by (simp add: omap_get_def)
qed

lemma insert_map_of:
  assumes sorted: "omap_sorted good cmp m" and key: "good key" and len0: "length m < 2 ^ 32"
    and room: "map_of m key = None \<Longrightarrow> length m \<noteq> 2 ^ 32 - 1"
  shows "\<exists>m'. omap_insert cmp key v m = Inr m' \<and> omap_sorted good cmp m' \<and>
    length m' = (if map_of m key = None then Suc (length m) else length m) \<and>
    map_of m' = (map_of m)(key \<mapsto> v)"
proof (cases rule: find_split [OF sorted key])
  case (1 i w)
  let ?m = "take i m @ (key, v) # drop (Suc i) m"
  have old: "omap_sorted good cmp (take i m @ (key, w) # drop (Suc i) m)"
    using sorted 1(3) by simp
  then have new: "omap_sorted good cmp ?m" by (simp add: sorted_append_iff)
  have len: "length ?m = length m" using 1(2) by simp
  have "map_of ?m = (map_of m)(key \<mapsto> v)" "map_of m key = Some w"
    using map_of_middle(1) [OF old] map_of_middle(1) [OF new] 1(3) by simp_all
  moreover have "i \<noteq> USIZE_MAX - 1"
    using 1(2) len0 by (simp add: USIZE_MAX_def)
  ultimately show ?thesis
    using 1 new len len0 from_exact_iter_ok [OF new] by (simp add: omap_insert_def)
next
  case (2 i)
  let ?m = "take i m @ (key, v) # drop i m"
  have new: "omap_sorted good cmp ?m"
    using 2 sorted_parts [OF sorted] key by (simp add: sorted_append_iff)
  have len: "length ?m = Suc (length m)" using 2(2) by simp
  have "map_of ?m = (map_of m)(key \<mapsto> v)" "map_of m key = None"
    using map_of_middle [OF new] by simp_all
  then show ?thesis
    using 2 new len len0 room from_exact_iter_ok [OF new] by (simp add: omap_insert_def)
qed

lemma insert_full:
  assumes sorted: "omap_sorted good cmp m" and key: "good key"
    and "length m = 2 ^ 32 - 1" and "map_of m key = None"
  shows "omap_insert cmp key v m = Inl MAP_OOB"
proof (cases rule: find_split [OF sorted key])
  case (1 i w)
  then have "omap_get cmp key m = Inr (Some w)" by (simp add: omap_get_def)
  with assms(4) get_map_of [OF sorted key] show ?thesis by simp
next
  case (2 i)
  with assms(3) show ?thesis by (simp add: omap_insert_def)
qed

lemma insert_Inr:
  assumes ins: "omap_insert cmp key v m = Inr m'"
    and sorted: "omap_sorted good cmp m" and key: "good key" and len: "length m < 2 ^ 32"
  shows "omap_sorted good cmp m'" and "length m' < 2 ^ 32" and "map_of m' = (map_of m)(key \<mapsto> v)"
proof -
  have room: "length m \<noteq> 2 ^ 32 - 1" if "map_of m key = None"
    using insert_full [OF sorted key _ that, of v] ins by auto
  from insert_map_of [OF sorted key len room, of v] ins
  show "omap_sorted good cmp m'" and "length m' < 2 ^ 32" and "map_of m' = (map_of m)(key \<mapsto> v)"
    using len room by (auto split: if_splits)
qed

lemma remove_map_of:
  assumes sorted: "omap_sorted good cmp m" and key: "good key" and len: "length m < 2 ^ 32"
  shows "case map_of m key of
      None \<Rightarrow> omap_remove cmp key m = Inr None
    | Some v \<Rightarrow> \<exists>m'. omap_remove cmp key m = Inr (Some (m', v)) \<and> omap_sorted good cmp m' \<and>
        Suc (length m') = length m \<and> map_of m' = (map_of m)(key := None)"
proof (cases rule: find_split [OF sorted key])
  case (1 i v)
  let ?m = "take i m @ drop (Suc i) m"
  have old: "omap_sorted good cmp (take i m @ (key, v) # drop (Suc i) m)"
    using sorted 1(3) by simp
  note new = sorted_take_drop [OF old]
  have small: "length ?m < 2 ^ 32" "Suc (length ?m) = length m" using len 1(2) by simp_all
  have "map_of m key = Some v" "map_of ?m = (map_of m)(key := None)"
    using map_of_middle [OF old] 1(3) by (simp_all add: fun_upd_idem)
  moreover have "(if 0 < i then take i m @ drop (i + 1) m else drop 1 m) = ?m" by simp
  ultimately show ?thesis
    using 1 new small from_exact_iter_ok [OF new small(1)] by (simp add: omap_remove_def)
next
  case (2 i)
  have "omap_get cmp key m = Inr None" using 2 by (simp add: omap_get_def)
  with get_map_of [OF sorted key] have "map_of m key = None" by simp
  with 2 show ?thesis by (simp add: omap_remove_def)
qed

lemma contains_key_map_of:
  assumes "omap_sorted good cmp m" and "good key"
  shows "omap_contains_key cmp key m = Inr (map_of m key \<noteq> None)"
  using get_map_of [OF assms]
  by (cases rule: find_split [OF assms]) (auto simp: omap_get_def omap_contains_key_def dest: sym)

lemma sorted_distinct:
  assumes "omap_sorted good cmp m"
  shows "distinct (map fst m)"
proof -
  have "fst (m ! i) \<noteq> fst (m ! j)" if "i < j" "j < length m" for i j
    using less_not_equal [OF _ sorted_nth [OF assms that]] sorted_good [OF assms, of i] that by simp
  then show ?thesis
    unfolding distinct_conv_nth by (metis length_map linorder_neqE_nat nth_map)
qed

end

end
