(* ===== verification/Host_Keys.thy ===== *)
theory Host_Keys
  imports Contract_Env Host_Map
begin

text \<open>
  Ledger keys and their order (\<open>host/comparison.rs\<close>). Two keys are compared by variant first and
  then field by field, vectors lexicographically. The order of keys is proved to be that of
  their shapes as trees (\<open>shape_val\<close>, \<open>shape_key\<close>), an injective encoding; so the supported ledger
  keys are totally ordered and the maps of the storage are ordered maps over them. The charges
  to the budget and its depth limit are not modelled. Of the values, the variants that the
  contracts and the host use as keys are modelled; the keys of the ledger entries that the host does
  not support are identified by a digest.
\<close>

section \<open>Definitions\<close>

text \<open>
  The asset of a trustline: a code of four or twelve bytes with its issuer, or the shares of a pool.
\<close>

datatype trustline_asset =
    TLNative
  | TLAlphanum4 string hash
  | TLAlphanum12 string hash
  | TLPoolShare hash

datatype ledger_key =
    LKAccount hash
  | LKTrustline hash trustline_asset
  | LKContractData address sc_val durability
  | LKContractCode hash
  | LKOffer hash
  | LKData hash
  | LKClaimableBalance hash
  | LKLiquidityPool hash
  | LKConfigSetting u32
  | LKTtl hash

definition cmp_int :: "int \<Rightarrow> int \<Rightarrow> ordering" where
  "cmp_int a b = (if a < b then Less else if a = b then Equal else Greater)"

fun cmp_list :: "('a \<Rightarrow> 'a \<Rightarrow> ordering) \<Rightarrow> 'a list \<Rightarrow> 'a list \<Rightarrow> ordering" where
  "cmp_list c [] [] = Equal"
| "cmp_list c [] (y # ys) = Less"
| "cmp_list c (x # xs) [] = Greater"
| "cmp_list c (x # xs) (y # ys) = (case c x y of Equal \<Rightarrow> cmp_list c xs ys | r \<Rightarrow> r)"

lemma cmp_list_cong [fundef_cong]:
  assumes "xs = xs'" and "ys = ys'" and "\<And>x y. x \<in> set xs' \<Longrightarrow> y \<in> set ys' \<Longrightarrow> c x y = c' x y"
  shows "cmp_list c xs ys = cmp_list c' xs' ys'"
  unfolding assms(1,2) using assms(3)
  by (induction c xs' ys' rule: cmp_list.induct) (auto split: ordering.splits)

definition then_cmp :: "ordering \<Rightarrow> ordering \<Rightarrow> ordering" where
  "then_cmp r s = (case r of Equal \<Rightarrow> s | _ \<Rightarrow> r)"

definition compare_bytes :: "string \<Rightarrow> string \<Rightarrow> ordering" where
  "compare_bytes s t = cmp_list (\<lambda>c d. cmp_int (of_char c) (of_char d)) s t"

definition compare_hash :: "hash \<Rightarrow> hash \<Rightarrow> ordering" where
  "compare_hash a b = cmp_int (uint a) (uint b)"

fun compare_address :: "address \<Rightarrow> address \<Rightarrow> ordering" where
  "compare_address (AccountAddr a) (AccountAddr b) = compare_hash a b"
| "compare_address (ContractAddr a) (ContractAddr b) = compare_hash a b"
| "compare_address (AccountAddr a) (ContractAddr b) = Less"
| "compare_address (ContractAddr a) (AccountAddr b) = Greater"

fun discriminant_asset :: "trustline_asset \<Rightarrow> int" where
  "discriminant_asset TLNative = 0"
| "discriminant_asset (TLAlphanum4 _ _) = 1"
| "discriminant_asset (TLAlphanum12 _ _) = 2"
| "discriminant_asset (TLPoolShare _) = 3"

text \<open>The derived order of \<open>TrustLineAsset\<close>.\<close>

definition compare_trustline_asset :: "trustline_asset \<Rightarrow> trustline_asset \<Rightarrow> ordering" where
  "compare_trustline_asset a b =
     (case (a, b) of
        (TLAlphanum4 c i, TLAlphanum4 c' i') \<Rightarrow> then_cmp (compare_bytes c c') (compare_hash i i')
      | (TLAlphanum12 c i, TLAlphanum12 c' i') \<Rightarrow> then_cmp (compare_bytes c c') (compare_hash i i')
      | (TLPoolShare p, TLPoolShare q) \<Rightarrow> compare_hash p q
      | _ \<Rightarrow> cmp_int (discriminant_asset a) (discriminant_asset b))"

fun compare_durability :: "durability \<Rightarrow> durability \<Rightarrow> ordering" where
  "compare_durability Temporary Persistent = Less"
| "compare_durability Persistent Temporary = Greater"
| "compare_durability _ _ = Equal"

fun discriminant_val :: "sc_val \<Rightarrow> int" where
  "discriminant_val (BoolV _) = 0"
| "discriminant_val VoidV = 1"
| "discriminant_val (U32V _) = 3"
| "discriminant_val (U64V _) = 5"
| "discriminant_val (I128V _) = 10"
| "discriminant_val (BytesV _) = 13"
| "discriminant_val (StringV _) = 14"
| "discriminant_val (SymbolV _) = 15"
| "discriminant_val (VecV _) = 16"
| "discriminant_val (AddressV _) = 18"
| "discriminant_val LedgerKeyContractInstanceV = 20"
| "discriminant_val (LedgerKeyNonceV _) = 21"

fun compare_val :: "sc_val \<Rightarrow> sc_val \<Rightarrow> ordering" where
  "compare_val a b =
     (case (a, b) of
        (VecV xs, VecV ys) \<Rightarrow> cmp_list compare_val xs ys
      | (BytesV x, BytesV y) \<Rightarrow> compare_hash x y
      | (StringV x, StringV y) \<Rightarrow> compare_bytes x y
      | (SymbolV x, SymbolV y) \<Rightarrow> compare_bytes x y
      | (VoidV, VoidV) \<Rightarrow> Equal
      | (LedgerKeyContractInstanceV, LedgerKeyContractInstanceV) \<Rightarrow> Equal
      | (BoolV x, BoolV y) \<Rightarrow> cmp_int (of_bool x) (of_bool y)
      | (U32V x, U32V y) \<Rightarrow> cmp_int (uint x) (uint y)
      | (U64V x, U64V y) \<Rightarrow> cmp_int (uint x) (uint y)
      | (I128V x, I128V y) \<Rightarrow> cmp_int (sint x) (sint y)
      | (AddressV x, AddressV y) \<Rightarrow> compare_address x y
      | (LedgerKeyNonceV x, LedgerKeyNonceV y) \<Rightarrow> cmp_int (sint x) (sint y)
      | _ \<Rightarrow> cmp_int (discriminant_val a) (discriminant_val b))"

fun discriminant_key :: "ledger_key \<Rightarrow> int" where
  "discriminant_key (LKAccount _) = 0"
| "discriminant_key (LKTrustline _ _) = 1"
| "discriminant_key (LKOffer _) = 2"
| "discriminant_key (LKData _) = 3"
| "discriminant_key (LKClaimableBalance _) = 4"
| "discriminant_key (LKLiquidityPool _) = 5"
| "discriminant_key (LKContractData _ _ _) = 6"
| "discriminant_key (LKContractCode _) = 7"
| "discriminant_key (LKConfigSetting _) = 8"
| "discriminant_key (LKTtl _) = 9"

fun check_supported_ledger_key_type :: "ledger_key \<Rightarrow> error + unit" where
  "check_supported_ledger_key_type (LKAccount _) = Inr ()"
| "check_supported_ledger_key_type (LKTrustline _ _) = Inr ()"
| "check_supported_ledger_key_type (LKContractData _ _ _) = Inr ()"
| "check_supported_ledger_key_type (LKContractCode _) = Inr ()"
| "check_supported_ledger_key_type _ = Inl (HostErr EStorage InternalError)"

definition supported_key :: "ledger_key \<Rightarrow> bool" where
  "supported_key k \<longleftrightarrow> check_supported_ledger_key_type k = Inr ()"

definition compare_contract_data ::
  "address \<times> sc_val \<times> durability \<Rightarrow> address \<times> sc_val \<times> durability \<Rightarrow> ordering" where
  "compare_contract_data a b =
     (case (a, b) of ((c, k, d), (c', k', d')) \<Rightarrow>
        then_cmp (compare_address c c') (then_cmp (compare_val k k') (compare_durability d d')))"

definition compare_key :: "ledger_key compare" where
  "compare_key a b =
     (case check_supported_ledger_key_type a of
        Inl e \<Rightarrow> Inl e
      | Inr _ \<Rightarrow>
     (case check_supported_ledger_key_type b of
        Inl e \<Rightarrow> Inl e
      | Inr _ \<Rightarrow>
     (case (a, b) of
        (LKAccount x, LKAccount y) \<Rightarrow> Inr (compare_hash x y)
      | (LKTrustline x t, LKTrustline y u) \<Rightarrow>
          Inr (then_cmp (compare_hash x y) (compare_trustline_asset t u))
      | (LKContractData c k d, LKContractData c' k' d') \<Rightarrow>
          Inr (compare_contract_data (c, k, d) (c', k', d'))
      | (LKContractCode x, LKContractCode y) \<Rightarrow> Inr (compare_hash x y)
      | _ \<Rightarrow>
          if supported_key a \<and> supported_key b
          then Inr (cmp_int (discriminant_key a) (discriminant_key b))
          else Inl (HostErr EValue InternalError))))"

section \<open>Shapes\<close>

datatype shape = Shape int "shape list"

definition atom :: "int \<Rightarrow> shape" where
  "atom n = Shape n []"

fun shape_address :: "address \<Rightarrow> shape" where
  "shape_address (AccountAddr h) = Shape 0 [atom (uint h)]"
| "shape_address (ContractAddr h) = Shape 1 [atom (uint h)]"

definition shape_string :: "string \<Rightarrow> shape list" where
  "shape_string s = map (\<lambda>c. atom (of_char c)) s"

primrec shape_val :: "sc_val \<Rightarrow> shape" where
  "shape_val (BoolV b) = Shape 0 [atom (of_bool b)]"
| "shape_val VoidV = Shape 1 []"
| "shape_val (U32V n) = Shape 3 [atom (uint n)]"
| "shape_val (U64V n) = Shape 5 [atom (uint n)]"
| "shape_val (I128V n) = Shape 10 [atom (sint n)]"
| "shape_val (BytesV h) = Shape 13 [atom (uint h)]"
| "shape_val (StringV s) = Shape 14 (shape_string s)"
| "shape_val (SymbolV s) = Shape 15 (shape_string s)"
| "shape_val (VecV xs) = Shape 16 (map shape_val xs)"
| "shape_val (AddressV a) = Shape 18 [shape_address a]"
| "shape_val LedgerKeyContractInstanceV = Shape 20 []"
| "shape_val (LedgerKeyNonceV n) = Shape 21 [atom (sint n)]"

fun shape_asset :: "trustline_asset \<Rightarrow> shape" where
  "shape_asset TLNative = Shape 0 []"
| "shape_asset (TLAlphanum4 c i) = Shape 1 [Shape 0 (shape_string c), atom (uint i)]"
| "shape_asset (TLAlphanum12 c i) = Shape 2 [Shape 0 (shape_string c), atom (uint i)]"
| "shape_asset (TLPoolShare p) = Shape 3 [atom (uint p)]"

fun shape_durability :: "durability \<Rightarrow> shape" where
  "shape_durability Temporary = atom 0"
| "shape_durability Persistent = atom 1"

fun shape_key :: "ledger_key \<Rightarrow> shape" where
  "shape_key (LKAccount h) = Shape 0 [atom (uint h)]"
| "shape_key (LKTrustline h t) = Shape 1 [atom (uint h), shape_asset t]"
| "shape_key (LKOffer h) = Shape 2 [atom (uint h)]"
| "shape_key (LKData h) = Shape 3 [atom (uint h)]"
| "shape_key (LKClaimableBalance h) = Shape 4 [atom (uint h)]"
| "shape_key (LKLiquidityPool h) = Shape 5 [atom (uint h)]"
| "shape_key (LKContractData c k d) = Shape 6 [shape_address c, shape_val k, shape_durability d]"
| "shape_key (LKContractCode h) = Shape 7 [atom (uint h)]"
| "shape_key (LKConfigSetting n) = Shape 8 [atom (uint n)]"
| "shape_key (LKTtl h) = Shape 9 [atom (uint h)]"

fun cmp_shape :: "shape \<Rightarrow> shape \<Rightarrow> ordering" where
  "cmp_shape (Shape a xs) (Shape b ys) =
     (case cmp_int a b of Equal \<Rightarrow> cmp_list cmp_shape xs ys | r \<Rightarrow> r)"

section \<open>Lexicographic orders\<close>

fun flip :: "ordering \<Rightarrow> ordering" where
  "flip Less = Greater"
| "flip Equal = Equal"
| "flip Greater = Less"

lemma cmp_int_eq: "cmp_int a b = Equal \<longleftrightarrow> a = b"
  by (simp add: cmp_int_def)

lemma cmp_int_flip: "cmp_int b a = flip (cmp_int a b)"
  by (simp add: cmp_int_def)

lemma cmp_int_trans: "cmp_int a b = Less \<Longrightarrow> cmp_int b d = Less \<Longrightarrow> cmp_int a d = Less"
  by (simp add: cmp_int_def split: if_splits)

lemma cmp_list_eq:
  assumes "\<forall>x \<in> set xs. \<forall>y. c x y = Equal \<longleftrightarrow> x = y"
  shows "cmp_list c xs ys = Equal \<longleftrightarrow> xs = ys"
  using assms
proof (induction xs arbitrary: ys)
  case Nil
  show ?case by (cases ys) simp_all
next
  case (Cons x xs)
  show ?case
  proof (cases ys)
    case (Cons y ys')
    have "c x y = Equal \<longleftrightarrow> x = y" using Cons.prems by simp
    moreover have "cmp_list c xs ys' = Equal \<longleftrightarrow> xs = ys'"
      using Cons.IH [of ys'] Cons.prems by simp
    ultimately show ?thesis using Cons by (cases "c x y") auto
  qed simp
qed

lemma cmp_list_flip:
  assumes "\<forall>x \<in> set xs. \<forall>y. c y x = flip (c x y)"
  shows "cmp_list c ys xs = flip (cmp_list c xs ys)"
  using assms
proof (induction xs arbitrary: ys)
  case Nil
  show ?case by (cases ys) simp_all
next
  case (Cons x xs)
  show ?case
  proof (cases ys)
    case (Cons y ys')
    have "c y x = flip (c x y)" using Cons.prems by simp
    with Cons Cons.IH [of ys'] Cons.prems show ?thesis by (cases "c x y") simp_all
  qed simp
qed

lemma cmp_list_trans:
  assumes "\<forall>x \<in> set xs. \<forall>y z. c x y = Less \<longrightarrow> c y z = Less \<longrightarrow> c x z = Less"
    and "\<And>x y. c x y = Equal \<longleftrightarrow> x = y"
    and "cmp_list c xs ys = Less" and "cmp_list c ys zs = Less"
  shows "cmp_list c xs zs = Less"
  using assms(1,3,4)
proof (induction xs arbitrary: ys zs)
  case Nil
  then show ?case by (cases ys; cases zs) simp_all
next
  case (Cons x xs)
  obtain y ys' where y: "ys = y # ys'" using Cons.prems(2) by (cases ys) simp_all
  obtain z zs' where z: "zs = z # zs'" using Cons.prems(3) y by (cases zs) simp_all
  show ?case
  proof (cases "c x y")
    case Equal
    then have xy: "x = y" using assms(2) by simp
    show ?thesis
    proof (cases "c y z")
      case e: Equal
      have "cmp_list c xs ys' = Less" "cmp_list c ys' zs' = Less"
        using Cons.prems(2,3) y z Equal e by simp_all
      with Cons.IH [of ys' zs'] Cons.prems(1) have "cmp_list c xs zs' = Less" by simp
      with e xy z show ?thesis by simp
    qed (use Cons.prems(3) xy y z in simp_all)
  next
    case Less
    show ?thesis
    proof (cases "c y z")
      case Equal
      then have "y = z" using assms(2) by simp
      with Less z show ?thesis by simp
    next
      case l: Less
      have "c x z = Less" using Cons.prems(1) Less l by simp
      with z show ?thesis by simp
    qed (use Cons.prems(3) y z in simp)
  qed (use Cons.prems(2) y in simp)
qed

section \<open>The order of shapes\<close>

lemma cmp_shape_eq: "cmp_shape a b = Equal \<longleftrightarrow> a = b"
proof (induction a arbitrary: b)
  case (Shape n xs)
  obtain m ys where b: "b = Shape m ys" by (cases b)
  have "cmp_list cmp_shape xs ys = Equal \<longleftrightarrow> xs = ys"
    using Shape by (intro cmp_list_eq) simp
  with b show ?case
    using cmp_int_eq [of n m] by (cases "cmp_int n m") simp_all
qed

lemma cmp_shape_flip: "cmp_shape b a = flip (cmp_shape a b)"
proof (induction a arbitrary: b)
  case (Shape n xs)
  obtain m ys where b: "b = Shape m ys" by (cases b)
  have "cmp_list cmp_shape ys xs = flip (cmp_list cmp_shape xs ys)"
    using Shape by (intro cmp_list_flip) simp
  with b show ?case
    using cmp_int_flip [of m n] by (cases "cmp_int n m") simp_all
qed

lemma cmp_shape_trans:
  assumes "cmp_shape a b = Less" and "cmp_shape b d = Less"
  shows "cmp_shape a d = Less"
  using assms
proof (induction a arbitrary: b d)
  case (Shape n xs)
  obtain m ys where b: "b = Shape m ys" by (cases b)
  obtain k zs where d: "d = Shape k zs" by (cases d)
  have lists: "cmp_list cmp_shape xs zs = Less"
    if "cmp_list cmp_shape xs ys = Less" "cmp_list cmp_shape ys zs = Less"
    using cmp_list_trans [OF _ cmp_shape_eq that] Shape.IH by blast
  show ?case
  proof (cases "cmp_int n m")
    case Equal
    then have nm: "n = m" by (simp add: cmp_int_eq)
    show ?thesis
      using Shape.prems b d Equal nm lists by (cases "cmp_int m k") simp_all
  next
    case Less
    show ?thesis
    proof (cases "cmp_int m k")
      case Equal
      then have "m = k" by (simp add: cmp_int_eq)
      with Less d show ?thesis by simp
    next
      case l: Less
      with Less cmp_int_trans have "cmp_int n k = Less" by blast
      with d show ?thesis by simp
    qed (use Shape.prems b d in simp)
  qed (use Shape.prems b d in simp)
qed

section \<open>Keys are determined by their shape\<close>

lemma uint_inj [simp]: "uint v = uint w \<longleftrightarrow> v = w"
  by (simp add: word_uint_eq_iff)

lemma sint_inj [simp]: "sint v = sint w \<longleftrightarrow> v = w"
  by (auto intro: signed_word_eqI)

lemma shape_string_inj [simp]: "shape_string s = shape_string t \<longleftrightarrow> s = t"
  unfolding shape_string_def by (rule inj_map_eq_map) (simp add: inj_on_def atom_def)

lemma shape_address_inj [simp]: "shape_address a = shape_address b \<longleftrightarrow> a = b"
  by (cases a; cases b) (simp_all add: atom_def)

lemma map_shape_inj:
  assumes "\<forall>x \<in> set xs. \<forall>y. f x = f y \<longleftrightarrow> x = y"
  shows "map f xs = map f ys \<longleftrightarrow> xs = ys"
  using assms by (induction xs arbitrary: ys) (auto simp: Cons_eq_map_conv)

lemma shape_val_inj [simp]: "shape_val a = shape_val b \<longleftrightarrow> a = b"
proof (induction a arbitrary: b)
  case (BoolV x)
  show ?case by (cases b) (auto simp: atom_def)
next
  case (VecV xs)
  then have "map shape_val xs = map shape_val ys \<longleftrightarrow> xs = ys" for ys
    by (intro map_shape_inj) blast
  then show ?case by (cases b) simp_all
qed (case_tac b; simp add: atom_def)+

lemma shape_durability_inj [simp]: "shape_durability a = shape_durability b \<longleftrightarrow> a = b"
  by (cases a; cases b) (simp_all add: atom_def)

lemma shape_asset_inj [simp]: "shape_asset a = shape_asset b \<longleftrightarrow> a = b"
  by (cases a; cases b) (simp_all add: atom_def)

lemma shape_key_inj [simp]: "shape_key a = shape_key b \<longleftrightarrow> a = b"
  by (cases a; cases b) (simp_all add: atom_def)

section \<open>Comparison is the order of shapes\<close>

declare compare_val.simps [simp del]

lemma cmp_list_map:
  assumes "\<And>x y. x \<in> set xs \<Longrightarrow> y \<in> set ys \<Longrightarrow> c (f x) (g y) = d x y"
  shows "cmp_list c (map f xs) (map g ys) = cmp_list d xs ys"
  using assms by (induction d xs ys rule: cmp_list.induct) (auto split: ordering.splits)

lemma cmp_atom [simp]: "cmp_shape (atom m) (atom n) = cmp_int m n"
  by (simp add: atom_def split: ordering.splits)

lemma cmp_int_refl [simp]: "cmp_int n n = Equal"
  by (simp add: cmp_int_def)

lemma cmp_single [simp]: "cmp_list c [x] [y] = c x y"
  by (simp split: ordering.splits)

lemma compare_bytes_shape: "cmp_list cmp_shape (shape_string s) (shape_string t) = compare_bytes s t"
  unfolding shape_string_def compare_bytes_def by (rule cmp_list_map) simp

lemma compare_address_shape: "cmp_shape (shape_address a) (shape_address b) = compare_address a b"
  by (cases a; cases b) (simp_all add: compare_hash_def cmp_int_def)

lemma compare_asset_shape:
  "cmp_shape (shape_asset a) (shape_asset b) = compare_trustline_asset a b"
  by (cases a; cases b)
    (simp_all add: compare_trustline_asset_def then_cmp_def compare_hash_def compare_bytes_shape
      cmp_int_def split: ordering.splits)

lemma compare_durability_shape:
  "cmp_shape (shape_durability a) (shape_durability b) = compare_durability a b"
  by (cases a; cases b) (simp_all add: cmp_int_def)

lemma cmp_int_less: "m < n \<Longrightarrow> cmp_int m n = Less"
  and cmp_int_greater: "n < m \<Longrightarrow> cmp_int m n = Greater"
  by (simp_all add: cmp_int_def)

lemma compare_val_variant:
  "compare_val (BoolV x) b = (case b of BoolV y \<Rightarrow> cmp_int (of_bool x) (of_bool y)
     | _ \<Rightarrow> cmp_int 0 (discriminant_val b))"
  "compare_val VoidV b = (case b of VoidV \<Rightarrow> Equal | _ \<Rightarrow> cmp_int 1 (discriminant_val b))"
  "compare_val (U32V n) b = (case b of U32V m \<Rightarrow> cmp_int (uint n) (uint m)
     | _ \<Rightarrow> cmp_int 3 (discriminant_val b))"
  "compare_val (U64V l) b = (case b of U64V m \<Rightarrow> cmp_int (uint l) (uint m)
     | _ \<Rightarrow> cmp_int 5 (discriminant_val b))"
  "compare_val (I128V i) b = (case b of I128V m \<Rightarrow> cmp_int (sint i) (sint m)
     | _ \<Rightarrow> cmp_int 10 (discriminant_val b))"
  "compare_val (BytesV h) b = (case b of BytesV m \<Rightarrow> compare_hash h m
     | _ \<Rightarrow> cmp_int 13 (discriminant_val b))"
  "compare_val (StringV s) b = (case b of StringV t \<Rightarrow> compare_bytes s t
     | _ \<Rightarrow> cmp_int 14 (discriminant_val b))"
  "compare_val (SymbolV s) b = (case b of SymbolV t \<Rightarrow> compare_bytes s t
     | _ \<Rightarrow> cmp_int 15 (discriminant_val b))"
  "compare_val (VecV xs) b = (case b of VecV ys \<Rightarrow> cmp_list compare_val xs ys
     | _ \<Rightarrow> cmp_int 16 (discriminant_val b))"
  "compare_val (AddressV c) b = (case b of AddressV d \<Rightarrow> compare_address c d
     | _ \<Rightarrow> cmp_int 18 (discriminant_val b))"
  "compare_val LedgerKeyContractInstanceV b = (case b of LedgerKeyContractInstanceV \<Rightarrow> Equal
     | _ \<Rightarrow> cmp_int 20 (discriminant_val b))"
  "compare_val (LedgerKeyNonceV k) b = (case b of LedgerKeyNonceV m \<Rightarrow> cmp_int (sint k) (sint m)
     | _ \<Rightarrow> cmp_int 21 (discriminant_val b))"
  by (subst compare_val.simps, simp only: prod.case sc_val.case discriminant_val.simps)+

lemmas val_shape_simps =
  compare_val_variant compare_bytes_shape compare_address_shape compare_hash_def
  cmp_int_less cmp_int_greater

lemma compare_val_shape: "compare_val a b = cmp_shape (shape_val a) (shape_val b)"
proof (induction a arbitrary: b)
  case (VecV xs)
  have "cmp_list cmp_shape (map shape_val xs) (map shape_val ys) = cmp_list compare_val xs ys" for ys
    using VecV by (intro cmp_list_map) simp
  then show ?case by (cases b) (simp_all add: val_shape_simps split: ordering.splits)
next
  case (BoolV x)
  show ?case by (cases b) (simp_all add: val_shape_simps split: ordering.splits)
next
  case VoidV
  show ?case by (cases b) (simp_all add: val_shape_simps split: ordering.splits)
next
  case (U32V x)
  show ?case by (cases b) (simp_all add: val_shape_simps split: ordering.splits)
next
  case (U64V x)
  show ?case by (cases b) (simp_all add: val_shape_simps split: ordering.splits)
next
  case (I128V x)
  show ?case by (cases b) (simp_all add: val_shape_simps split: ordering.splits)
next
  case (BytesV x)
  show ?case by (cases b) (simp_all add: val_shape_simps split: ordering.splits)
next
  case (StringV x)
  show ?case by (cases b) (simp_all add: val_shape_simps split: ordering.splits)
next
  case (SymbolV x)
  show ?case by (cases b) (simp_all add: val_shape_simps split: ordering.splits)
next
  case (AddressV x)
  show ?case by (cases b) (simp_all add: val_shape_simps split: ordering.splits)
next
  case LedgerKeyContractInstanceV
  show ?case by (cases b) (simp_all add: val_shape_simps split: ordering.splits)
next
  case (LedgerKeyNonceV x)
  show ?case by (cases b) (simp_all add: val_shape_simps split: ordering.splits)
qed

lemma supported_key_simps [simp]:
  "supported_key (LKAccount h)" "supported_key (LKTrustline h t)"
  "supported_key (LKContractData c k d)" "supported_key (LKContractCode h)"
  "\<not> supported_key (LKOffer h)" "\<not> supported_key (LKData h)"
  "\<not> supported_key (LKClaimableBalance h)" "\<not> supported_key (LKLiquidityPool h)"
  "\<not> supported_key (LKConfigSetting n)" "\<not> supported_key (LKTtl h)"
  by (simp_all add: supported_key_def)

lemma check_supported_eq:
  "check_supported_ledger_key_type k =
     (if supported_key k then Inr () else Inl (HostErr EStorage InternalError))"
  by (cases k) simp_all

lemma compare_key_shape:
  assumes "supported_key a" and "supported_key b"
  shows "compare_key a b = Inr (cmp_shape (shape_key a) (shape_key b))"
  using assms
  by (cases a; cases b)
    (simp_all add: compare_key_def compare_hash_def compare_contract_data_def then_cmp_def
      compare_val_shape [symmetric] compare_address_shape compare_asset_shape
      compare_durability_shape cmp_int_less cmp_int_greater split: ordering.splits)

interpretation lk: key_order supported_key compare_key
proof
  fix a b d :: ledger_key
  assume ab: "supported_key a" "supported_key b"
  show "\<exists>r. compare_key a b = Inr r" by (simp add: compare_key_shape [OF ab])
  show "compare_key a b = Inr Equal \<longleftrightarrow> a = b"
    by (simp add: compare_key_shape [OF ab] cmp_shape_eq)
  show "compare_key a b = Inr Less \<longleftrightarrow> compare_key b a = Inr Greater"
    using cmp_shape_flip [of "shape_key b" "shape_key a"]
    by (cases "cmp_shape (shape_key a) (shape_key b)")
      (simp_all add: compare_key_shape [OF ab] compare_key_shape [OF ab(2,1)])
  show "compare_key a d = Inr Less"
    if "supported_key d" "compare_key a b = Inr Less" "compare_key b d = Inr Less"
    using that cmp_shape_trans [of "shape_key a" "shape_key b" "shape_key d"]
    by (simp add: compare_key_shape ab)
qed

end
