(* ===== verification/Auth_Tree.thy ===== *)
theory Auth_Tree
  imports Host_Keys
begin

text \<open>
  Authorized invocations and the trackers that match them against the running call stack
  (\<open>auth.rs\<close>). An authorized invocation is a tree of calls some address has agreed to; a tracker
  walks it while frames are pushed and popped, and every node can be used once. Addresses,
  symbols and values stand for the host objects that carry them; the budget is not modelled.
  A function that the code runs on a mutable reference into the tree is passed as an argument
  here, and its result is written back to the place it was taken from.
\<close>

section \<open>Definitions\<close>

datatype executable = WasmExec hash | StellarAssetExec

datatype contract_id_preimage = PreimageAddress address hash | PreimageAsset hash

record create_contract_args =
  cca_preimage :: contract_id_preimage
  cca_executable :: executable
  cca_constructor_args :: "sc_val list"

datatype authorized_function =
    ContractFn address symbol "sc_val list"
  | CreateContractHostFn create_contract_args

datatype authorized_invocation =
  AuthorizedInvocation (ai_function: authorized_function)
    (ai_subs: "authorized_invocation list") (ai_exhausted: bool)

text \<open>The same trees as they are signed and transmitted.\<close>

datatype xdr_function =
    XdrContractFn address symbol "sc_val list"
  | XdrCreateContractHostFn contract_id_preimage executable
  | XdrCreateContractV2HostFn create_contract_args

datatype xdr_invocation = XdrInvocation xdr_function "xdr_invocation list"

datatype authorized_invocation_snapshot =
  InvocationSnapshot bool "authorized_invocation_snapshot list"

datatype match_state = Unmatched | RootMatch | SubMatch nat

definition is_matched :: "match_state \<Rightarrow> bool" where
  "is_matched m \<longleftrightarrow> m \<noteq> Unmatched"

text \<open>
  Whether two functions compare equal: contract functions field by field in the host's order of
  values, creations in the order derived for their XDR type, which is equal on equal arguments
  only.
\<close>

definition compare_contract_function ::
  "address \<times> symbol \<times> sc_val list \<Rightarrow> address \<times> symbol \<times> sc_val list \<Rightarrow> ordering" where
  "compare_contract_function a b =
     (case (a, b) of ((c, f, xs), (c', f', ys)) \<Rightarrow>
        then_cmp (compare_address c c')
       (then_cmp (compare_bytes f f')
       (cmp_list compare_val xs ys)))"

fun same_function :: "authorized_function \<Rightarrow> authorized_function \<Rightarrow> bool" where
  "same_function (ContractFn c f xs) (ContractFn c' f' ys) =
     (compare_contract_function (c, f, xs) (c', f', ys) = Equal)"
| "same_function (CreateContractHostFn x) (CreateContractHostFn y) = (x = y)"
| "same_function (ContractFn _ _ _) (CreateContractHostFn _) = False"
| "same_function (CreateContractHostFn _) (ContractFn _ _ _) = False"

fun function_from_xdr :: "xdr_function \<Rightarrow> authorized_function" where
  "function_from_xdr (XdrContractFn c f xs) = ContractFn c f xs"
| "function_from_xdr (XdrCreateContractHostFn p e) =
     CreateContractHostFn \<lparr>cca_preimage = p, cca_executable = e, cca_constructor_args = []\<rparr>"
| "function_from_xdr (XdrCreateContractV2HostFn x) = CreateContractHostFn x"

fun function_to_xdr :: "authorized_function \<Rightarrow> xdr_function" where
  "function_to_xdr (ContractFn c f xs) = XdrContractFn c f xs"
| "function_to_xdr (CreateContractHostFn x) = XdrCreateContractV2HostFn x"

fun invocation_from_xdr :: "xdr_invocation \<Rightarrow> authorized_invocation" where
  "invocation_from_xdr (XdrInvocation f subs) =
     AuthorizedInvocation (function_from_xdr f) (map invocation_from_xdr subs) False"

definition invocation_new :: "authorized_function \<Rightarrow> authorized_invocation list \<Rightarrow> authorized_invocation" where
  "invocation_new f subs = AuthorizedInvocation f subs False"

definition invocation_new_recording :: "authorized_function \<Rightarrow> authorized_invocation" where
  "invocation_new_recording f = AuthorizedInvocation f [] True"

fun invocation_to_xdr :: "bool \<Rightarrow> authorized_invocation \<Rightarrow> xdr_invocation" where
  "invocation_to_xdr exhausted_only (AuthorizedInvocation f subs ex) =
     XdrInvocation (function_to_xdr f)
       (map (invocation_to_xdr exhausted_only)
          (filter (\<lambda>i. ai_exhausted i \<or> \<not> exhausted_only) subs))"

text \<open>
  The walk along the match stack to the last authorized node, where \<open>f\<close> is run on it. The stack
  starts below the frame of the given node.
\<close>

fun last_authorized_invocation_mut ::
  "(authorized_invocation \<Rightarrow> 'r \<times> authorized_invocation) \<Rightarrow> match_state list \<Rightarrow> authorized_invocation \<Rightarrow>
   error + ('r \<times> authorized_invocation)" where
  "last_authorized_invocation_mut f [] node = Inr (f node)"
| "last_authorized_invocation_mut f (Unmatched # ms) node = last_authorized_invocation_mut f ms node"
| "last_authorized_invocation_mut f (RootMatch # ms) node = Inl (HostErr EAuth InternalError)"
| "last_authorized_invocation_mut f (SubMatch i # ms) (AuthorizedInvocation g subs ex) =
     (if i < length subs then
        (case last_authorized_invocation_mut f ms (subs ! i) of
           Inl e \<Rightarrow> Inl e
         | Inr (r, sub) \<Rightarrow> Inr (r, AuthorizedInvocation g (subs[i := sub]) ex))
      else Inl (HostErr EAuth InternalError))"

fun invocation_snapshot :: "authorized_invocation \<Rightarrow> authorized_invocation_snapshot" where
  "invocation_snapshot (AuthorizedInvocation f subs ex) =
     InvocationSnapshot ex (map invocation_snapshot subs)"

fun invocation_rollback :: "authorized_invocation \<Rightarrow> authorized_invocation_snapshot \<Rightarrow> error + authorized_invocation"
  and rollback_all :: "authorized_invocation list \<Rightarrow> authorized_invocation_snapshot list \<Rightarrow> error + authorized_invocation list"
  where
  "invocation_rollback (AuthorizedInvocation f subs _) (InvocationSnapshot ex snaps) =
     (if length subs \<noteq> length snaps then Inl (HostErr EAuth InternalError)
      else case rollback_all subs snaps of
        Inl e \<Rightarrow> Inl e
      | Inr subs' \<Rightarrow> Inr (AuthorizedInvocation f subs' ex))"
| "rollback_all (sub # subs) (snap # snaps) =
     (case invocation_rollback sub snap of
        Inl e \<Rightarrow> Inl e
      | Inr sub' \<Rightarrow>
          (case rollback_all subs snaps of Inl e \<Rightarrow> Inl e | Inr subs' \<Rightarrow> Inr (sub' # subs')))"
| "rollback_all subs _ = Inr subs"

section \<open>Invocation trackers\<close>

record invocation_tracker =
  it_root :: authorized_invocation
  it_match_stack :: "match_state list"
  it_root_exhausted_frame :: "nat option"
  it_fully_processed :: bool

definition tracker_new :: "authorized_invocation \<Rightarrow> invocation_tracker" where
  "tracker_new root =
     \<lparr>it_root = root, it_match_stack = [], it_root_exhausted_frame = None, it_fully_processed = False\<rparr>"

definition tracker_from_xdr :: "xdr_invocation \<Rightarrow> invocation_tracker" where
  "tracker_from_xdr x = tracker_new (invocation_from_xdr x)"

text \<open>\<open>current_stack_len - 1\<close> is checked subtraction; the callers pass a positive length.\<close>

definition tracker_new_recording :: "authorized_function \<Rightarrow> nat \<Rightarrow> error + invocation_tracker" where
  "tracker_new_recording f current_stack_len =
     (if current_stack_len = 0 then Inl overflow_panic
      else Inr \<lparr>it_root = invocation_new_recording f,
                it_match_stack = replicate (current_stack_len - 1) Unmatched @ [RootMatch],
                it_root_exhausted_frame = Some (current_stack_len - 1),
                it_fully_processed = False\<rparr>)"

text \<open>
  The walk of a tracker starts at the root match; without one there is no authorized node
  (\<open>None\<close>).
\<close>

fun tracker_walk ::
  "(authorized_invocation \<Rightarrow> 'r \<times> authorized_invocation) \<Rightarrow> match_state list \<Rightarrow> authorized_invocation \<Rightarrow>
   error + ('r \<times> authorized_invocation) option" where
  "tracker_walk f [] root = Inr None"
| "tracker_walk f (RootMatch # ms) root =
     (case last_authorized_invocation_mut f ms root of Inl e \<Rightarrow> Inl e | Inr r \<Rightarrow> Inr (Some r))"
| "tracker_walk f (SubMatch _ # ms) root = Inl (HostErr EAuth InternalError)"
| "tracker_walk f (Unmatched # ms) root = tracker_walk f ms root"

definition tracker_push_frame :: "invocation_tracker \<Rightarrow> invocation_tracker" where
  "tracker_push_frame t = t\<lparr>it_match_stack := it_match_stack t @ [Unmatched]\<rparr>"

definition tracker_pop_frame :: "invocation_tracker \<Rightarrow> invocation_tracker" where
  "tracker_pop_frame t =
     (let stack = butlast (it_match_stack t)
      in t\<lparr>it_match_stack := stack,
           it_fully_processed :=
             (case it_root_exhausted_frame t of
                None \<Rightarrow> it_fully_processed t
              | Some frame \<Rightarrow> if length stack \<le> frame then True else it_fully_processed t)\<rparr>)"

definition tracker_is_empty :: "invocation_tracker \<Rightarrow> bool" where
  "tracker_is_empty t \<longleftrightarrow> it_match_stack t = []"

definition tracker_is_active :: "invocation_tracker \<Rightarrow> bool" where
  "tracker_is_active t \<longleftrightarrow> ai_exhausted (it_root t) \<and> \<not> it_fully_processed t"

definition current_frame_is_already_matched :: "invocation_tracker \<Rightarrow> bool" where
  "current_frame_is_already_matched t \<longleftrightarrow>
     it_match_stack t \<noteq> [] \<and> is_matched (last (it_match_stack t))"

text \<open>The loop over the sub-invocations: the first one that is unused and compares equal is used.\<close>

fun exhaust_first :: "authorized_function \<Rightarrow> nat \<Rightarrow> authorized_invocation list \<Rightarrow>
    match_state \<times> authorized_invocation list" where
  "exhaust_first f i [] = (Unmatched, [])"
| "exhaust_first f i (sub # subs) =
     (if \<not> ai_exhausted sub \<and> same_function (ai_function sub) f
      then (SubMatch i, AuthorizedInvocation (ai_function sub) (ai_subs sub) True # subs)
      else let (m, subs') = exhaust_first f (i + 1) subs in (m, sub # subs'))"

definition exhaust_sub :: "authorized_function \<Rightarrow> authorized_invocation \<Rightarrow> match_state \<times> authorized_invocation" where
  "exhaust_sub f node =
     (let (m, subs) = exhaust_first f 0 (ai_subs node)
      in (m, AuthorizedInvocation (ai_function node) subs (ai_exhausted node)))"

definition write_match :: "match_state \<Rightarrow> invocation_tracker \<Rightarrow> error + (bool \<times> invocation_tracker)" where
  "write_match m t =
     (if is_matched m then
        (if it_match_stack t = [] then Inl (HostErr EAuth InternalError)
         else Inr (True, t\<lparr>it_match_stack := butlast (it_match_stack t) @ [m]\<rparr>))
      else Inr (False, t))"

text \<open>\<open>match_stack.len() - 1\<close> overflows, and panics, on an empty stack.\<close>

definition maybe_extend_invocation_match ::
  "authorized_function \<Rightarrow> bool \<Rightarrow> invocation_tracker \<Rightarrow> error + (bool \<times> invocation_tracker)" where
  "maybe_extend_invocation_match f allow_matching_root t =
     (if current_frame_is_already_matched t then Inr (False, t)
      else case tracker_walk (exhaust_sub f) (it_match_stack t) (it_root t) of
        Inl e \<Rightarrow> Inl e
      | Inr (Some (m, root)) \<Rightarrow> write_match m (t\<lparr>it_root := root\<rparr>)
      | Inr None \<Rightarrow>
          (if \<not> ai_exhausted (it_root t) \<and> allow_matching_root \<and>
              same_function (ai_function (it_root t)) f
           then (if it_match_stack t = [] then Inl overflow_panic
                 else write_match RootMatch
                   (t\<lparr>it_root := AuthorizedInvocation (ai_function (it_root t)) (ai_subs (it_root t)) True,
                      it_root_exhausted_frame := Some (length (it_match_stack t) - 1)\<rparr>))
           else write_match Unmatched t))"

definition append_recorded :: "authorized_function \<Rightarrow> authorized_invocation \<Rightarrow> match_state \<times> authorized_invocation" where
  "append_recorded f node =
     (SubMatch (length (ai_subs node)),
      AuthorizedInvocation (ai_function node) (ai_subs node @ [invocation_new_recording f]) (ai_exhausted node))"

definition tracker_record_invocation ::
  "authorized_function \<Rightarrow> invocation_tracker \<Rightarrow> error + invocation_tracker" where
  "tracker_record_invocation f t =
     (if current_frame_is_already_matched t then Inl (HostErr EAuth ExistingValue)
      else case tracker_walk (append_recorded f) (it_match_stack t) (it_root t) of
        Inl e \<Rightarrow> Inl e
      | Inr None \<Rightarrow> Inl (HostErr EAuth InternalError)
      | Inr (Some (m, root)) \<Rightarrow>
          Inr (t\<lparr>it_root := root, it_match_stack := butlast (it_match_stack t) @ [m]\<rparr>))"

definition has_matched_invocations_in_stack :: "invocation_tracker \<Rightarrow> bool" where
  "has_matched_invocations_in_stack t \<longleftrightarrow> (\<exists>m \<in> set (it_match_stack t). is_matched m)"

definition tracker_snapshot :: "invocation_tracker \<Rightarrow> authorized_invocation_snapshot" where
  "tracker_snapshot t = invocation_snapshot (it_root t)"

definition tracker_rollback :: "invocation_tracker \<Rightarrow> authorized_invocation_snapshot \<Rightarrow> error + invocation_tracker" where
  "tracker_rollback t snap =
     (case invocation_rollback (it_root t) snap of
        Inl e \<Rightarrow> Inl e
      | Inr root \<Rightarrow>
          Inr (if \<not> ai_exhausted root
               then t\<lparr>it_root := root, it_root_exhausted_frame := None, it_fully_processed := False\<rparr>
               else t\<lparr>it_root := root\<rparr>))"

end
