(* ===== verification/Auth_Tree_Inv.thy ===== *)
theory Auth_Tree_Inv
  imports Auth_Tree "HOL-Library.Multiset"
begin

text \<open>
  Facts about authorized invocations and their trackers: functions compare equal exactly when
  they are equal; the trees survive their transmission; the match stack of a tracker is a path
  of used nodes of its tree (\<open>tracker_ok\<close>), an invariant of every operation, so that walking it
  never fails; a match uses up exactly one unused node; and rolling back a frame restores the
  tracker as it was before the frame.
\<close>

section \<open>Comparison and transmission\<close>

lemma then_cmp_Equal [simp]: "then_cmp r s = Equal \<longleftrightarrow> r = Equal \<and> s = Equal"
  by (cases r) (simp_all add: then_cmp_def)

lemma compare_val_Equal [simp]: "compare_val a b = Equal \<longleftrightarrow> a = b"
  by (simp add: compare_val_shape cmp_shape_eq del: compare_val.simps)

lemma compare_address_Equal [simp]: "compare_address a b = Equal \<longleftrightarrow> a = b"
  by (simp add: compare_address_shape [symmetric] cmp_shape_eq)

lemma compare_bytes_Equal [simp]: "compare_bytes s t = Equal \<longleftrightarrow> s = t"
  unfolding compare_bytes_def by (rule cmp_list_eq) (simp add: cmp_int_eq)

lemma same_function_eq [simp]: "same_function f g \<longleftrightarrow> f = g"
  by (cases f; cases g)
    (simp_all add: compare_contract_function_def cmp_list_eq del: compare_val.simps)

fun reset :: "authorized_invocation \<Rightarrow> authorized_invocation" where
  "reset (AuthorizedInvocation f subs ex) = AuthorizedInvocation f (map reset subs) False"

text \<open>The form in which the host writes back a signed tree: creations in their second version.\<close>

fun canonical :: "xdr_invocation \<Rightarrow> xdr_invocation" where
  "canonical (XdrInvocation f subs) =
     XdrInvocation (function_to_xdr (function_from_xdr f)) (map canonical subs)"

lemma function_round_trip [simp]: "function_from_xdr (function_to_xdr f) = f"
  by (cases f) simp_all

lemma to_from_xdr: "invocation_to_xdr False (invocation_from_xdr x) = canonical x"
  by (induction x) simp

lemma from_to_xdr: "invocation_from_xdr (invocation_to_xdr False node) = reset node"
  by (induction node) simp

lemma reset_idem [simp]: "reset (reset node) = reset node"
  by (induction node) simp

lemma reset_from_xdr [simp]: "reset (invocation_from_xdr x) = invocation_from_xdr x"
  by (induction x) simp

section \<open>Snapshots\<close>

lemma rollback_snapshot:
  "reset node = reset node' \<Longrightarrow> invocation_rollback node (invocation_snapshot node') = Inr node'"
proof (induction node' arbitrary: node)
  case (AuthorizedInvocation f subs' ex')
  obtain subs ex where node: "node = AuthorizedInvocation f subs ex"
    and subs: "map reset subs = map reset subs'"
    using AuthorizedInvocation.prems by (cases node) auto
  have "rollback_all subs (map invocation_snapshot subs') = Inr subs'"
    using subs AuthorizedInvocation.IH
  proof (induction subs' arbitrary: subs)
    case Nil
    then show ?case by simp
  next
    case (Cons n ns)
    then obtain s ss where "subs = s # ss" "reset s = reset n" "map reset ss = map reset ns" by auto
    with Cons show ?case by simp
  qed
  moreover have "length subs = length subs'" using subs by (rule map_eq_imp_length_eq)
  ultimately show ?case by (simp add: node)
qed

section \<open>The match stack is a path\<close>

fun walk_ok :: "match_state list \<Rightarrow> authorized_invocation \<Rightarrow> bool" where
  "walk_ok [] node = True"
| "walk_ok (Unmatched # ms) node = walk_ok ms node"
| "walk_ok (RootMatch # ms) node = False"
| "walk_ok (SubMatch i # ms) node =
     (i < length (ai_subs node) \<and> ai_exhausted (ai_subs node ! i) \<and> walk_ok ms (ai_subs node ! i))"

fun stack_ok :: "match_state list \<Rightarrow> authorized_invocation \<Rightarrow> bool" where
  "stack_ok [] root = True"
| "stack_ok (Unmatched # ms) root = stack_ok ms root"
| "stack_ok (RootMatch # ms) root = (ai_exhausted root \<and> walk_ok ms root)"
| "stack_ok (SubMatch i # ms) root = False"

definition tracker_ok :: "invocation_tracker \<Rightarrow> bool" where
  "tracker_ok t \<longleftrightarrow>
     stack_ok (it_match_stack t) (it_root t) \<and>
     (case it_root_exhausted_frame t of
        None \<Rightarrow> \<not> ai_exhausted (it_root t) \<and> \<not> it_fully_processed t
      | Some i \<Rightarrow> ai_exhausted (it_root t) \<and>
          (if it_fully_processed t then set (it_match_stack t) \<subseteq> {Unmatched}
           else i < length (it_match_stack t) \<and> it_match_stack t ! i = RootMatch))"

lemma walk_ok_append: "walk_ok (ms @ ms') node \<Longrightarrow> walk_ok ms node"
  by (induction ms node rule: walk_ok.induct) auto

lemma stack_ok_append: "stack_ok (ms @ ms') root \<Longrightarrow> stack_ok ms root"
  by (induction ms root rule: stack_ok.induct) (auto dest: walk_ok_append)

lemma walk_ok_Unmatched [simp]: "walk_ok (ms @ [Unmatched]) node = walk_ok ms node"
  by (induction ms node rule: walk_ok.induct) auto

lemma stack_ok_Unmatched [simp]: "stack_ok (ms @ [Unmatched]) root = stack_ok ms root"
  by (induction ms root rule: stack_ok.induct) auto

lemma stack_ok_unmatched: "set ms \<subseteq> {Unmatched} \<Longrightarrow> stack_ok ms root"
  by (induction ms root rule: stack_ok.induct) auto

lemma stack_ok_unused: "stack_ok ms root \<Longrightarrow> \<not> ai_exhausted root \<Longrightarrow> set ms \<subseteq> {Unmatched}"
  by (induction ms root rule: stack_ok.induct) auto

lemma stack_ok_root:
  "stack_ok ms root \<Longrightarrow> RootMatch \<in> set ms \<longleftrightarrow> \<not> set ms \<subseteq> {Unmatched}"
  by (induction ms root rule: stack_ok.induct) auto

text \<open>The node at the end of the path, and its replacement.\<close>

fun end_node :: "match_state list \<Rightarrow> authorized_invocation \<Rightarrow> authorized_invocation" where
  "end_node (SubMatch i # ms) node = end_node ms (ai_subs node ! i)"
| "end_node (_ # ms) node = end_node ms node"
| "end_node [] node = node"

fun put_node :: "match_state list \<Rightarrow> authorized_invocation \<Rightarrow> authorized_invocation \<Rightarrow> authorized_invocation" where
  "put_node (SubMatch i # ms) n node =
     AuthorizedInvocation (ai_function node)
       ((ai_subs node)[i := put_node ms n (ai_subs node ! i)]) (ai_exhausted node)"
| "put_node (_ # ms) n node = put_node ms n node"
| "put_node [] n node = n"

lemma walk_result:
  assumes "walk_ok ms node"
  shows "last_authorized_invocation_mut f ms node =
    Inr (fst (f (end_node ms node)), put_node ms (snd (f (end_node ms node))) node)"
  using assms
  by (induction f ms node rule: last_authorized_invocation_mut.induct) auto

lemma list_update_fixed: "i < length xs \<Longrightarrow> g y = g (xs ! i) \<Longrightarrow> map g (xs[i := y]) = map g xs"
  by (metis list_update_id map_update)

lemma reset_put_node:
  assumes "walk_ok ms node" and "reset n = reset (end_node ms node)"
  shows "reset (put_node ms n node) = reset node"
  using assms
proof (induction ms node rule: walk_ok.induct)
  case (4 i ms node)
  then show ?case by (cases node) (simp add: list_update_fixed)
qed simp_all

lemma put_end_node: "walk_ok ms node \<Longrightarrow> put_node ms (end_node ms node) node = node"
  by (induction ms node rule: walk_ok.induct) simp_all

lemma put_node_exhausted:
  assumes "walk_ok ms node" and "ai_exhausted n = ai_exhausted (end_node ms node)"
  shows "ai_exhausted (put_node ms n node) = ai_exhausted node"
  using assms by (induction ms node rule: walk_ok.induct) auto

lemma put_node_walk_ok:
  assumes "walk_ok ms node" and "ai_exhausted n = ai_exhausted (end_node ms node)"
  shows "walk_ok ms (put_node ms n node)" and "end_node ms (put_node ms n node) = n"
  using assms
  by (induction ms node rule: walk_ok.induct) (auto simp: put_node_exhausted)

lemma walk_ok_snoc:
  "walk_ok (ms @ [m]) node \<longleftrightarrow> walk_ok ms node \<and> walk_ok [m] (end_node ms node)"
  by (induction ms node rule: walk_ok.induct) auto

text \<open>The same for the walk of a tracker: what it finds depends on whether the root is matched.\<close>

fun root_walk :: "match_state list \<Rightarrow> match_state list option" where
  "root_walk [] = None"
| "root_walk (RootMatch # ms) = Some ms"
| "root_walk (_ # ms) = root_walk ms"

lemma tracker_walk_eq:
  assumes "stack_ok ms root"
  shows "tracker_walk f ms root =
    (case root_walk ms of
       None \<Rightarrow> Inr None
     | Some ws \<Rightarrow> Inr (Some (fst (f (end_node ws root)), put_node ws (snd (f (end_node ws root))) root)))"
  using assms
  by (induction f ms root rule: tracker_walk.induct) (auto simp: walk_result)

lemma root_walk_None:
  assumes "stack_ok ms root"
  shows "root_walk ms = None \<longleftrightarrow> set ms \<subseteq> {Unmatched}"
  using assms by (induction ms root rule: stack_ok.induct) auto

lemma root_walk_ok:
  assumes "stack_ok ms root" and "root_walk ms = Some ws"
  shows "walk_ok ws root" and "ai_exhausted root"
  using assms by (induction ms root rule: stack_ok.induct) auto

lemma stack_ok_walk:
  assumes "root_walk ms = Some ws" and "stack_ok ms root"
  shows "stack_ok ms root' \<longleftrightarrow> ai_exhausted root' \<and> walk_ok ws root'"
    and "stack_ok (ms @ [m]) root' \<longleftrightarrow> ai_exhausted root' \<and> walk_ok (ws @ [m]) root'"
  using assms
  by (induction ms root rule: stack_ok.induct) auto

section \<open>A match uses one unused node\<close>

fun unused :: "authorized_invocation \<Rightarrow> authorized_function multiset" where
  "unused (AuthorizedInvocation f subs ex) =
     (if ex then {#} else {#f#}) + sum_list (map unused subs)"

lemma sum_list_update_eq:
  fixes g :: "'a \<Rightarrow> 'b multiset"
  assumes "i < length xs" and "g (xs ! i) = m + g y"
  shows "sum_list (map g xs) = m + sum_list (map g (xs[i := y]))"
  using assms
proof (induction xs arbitrary: i)
  case (Cons x xs)
  then show ?case by (cases i) (auto simp: ac_simps)
qed simp

lemma unused_put_node:
  assumes "walk_ok ms node" and "unused (end_node ms node) = m + unused n"
    and "ai_exhausted n = ai_exhausted (end_node ms node)"
  shows "unused node = m + unused (put_node ms n node)"
  using assms
proof (induction ms node rule: walk_ok.induct)
  case (4 i ms node)
  then have "unused (ai_subs node ! i) = m + unused (put_node ms n (ai_subs node ! i))" by simp
  with 4 show ?case by (cases node) (auto simp: sum_list_update_eq ac_simps)
qed simp_all

lemma exhaust_first_cases:
  obtains (none) "exhaust_first f i subs = (Unmatched, subs)"
      "\<And>s. s \<in> set subs \<Longrightarrow> \<not> ai_exhausted s \<Longrightarrow> ai_function s \<noteq> f"
    | (found) j where "j < length subs" "\<not> ai_exhausted (subs ! j)" "ai_function (subs ! j) = f"
      "\<And>k. k < j \<Longrightarrow> \<not> ai_exhausted (subs ! k) \<Longrightarrow> ai_function (subs ! k) \<noteq> f"
      "exhaust_first f i subs =
         (SubMatch (i + j), subs[j := AuthorizedInvocation f (ai_subs (subs ! j)) True])"
proof (induction subs arbitrary: i thesis)
  case Nil
  then show ?case by simp
next
  case (Cons s subs)
  show ?case
  proof (cases "\<not> ai_exhausted s \<and> ai_function s = f")
    case True
    then show ?thesis by (intro Cons.prems(2) [of 0]) auto
  next
    case False
    show ?thesis
    proof (rule Cons.IH [of "i + 1"])
      assume "exhaust_first f (i + 1) subs = (Unmatched, subs)"
        and "\<And>s. s \<in> set subs \<Longrightarrow> \<not> ai_exhausted s \<Longrightarrow> ai_function s \<noteq> f"
      with False show ?thesis by (intro Cons.prems(1)) auto
    next
      fix j
      assume j: "j < length subs" "\<not> ai_exhausted (subs ! j)" "ai_function (subs ! j) = f"
        "\<And>k. k < j \<Longrightarrow> \<not> ai_exhausted (subs ! k) \<Longrightarrow> ai_function (subs ! k) \<noteq> f"
        "exhaust_first f (i + 1) subs =
           (SubMatch (i + 1 + j), subs[j := AuthorizedInvocation f (ai_subs (subs ! j)) True])"
      have "k < Suc j \<Longrightarrow> \<not> ai_exhausted ((s # subs) ! k) \<Longrightarrow> ai_function ((s # subs) ! k) \<noteq> f" for k
        using False j(4) by (cases k) auto
      with False j show ?thesis by (intro Cons.prems(2) [of "Suc j"]) auto
    qed
  qed
qed

lemma exhaust_sub_node:
  assumes "exhaust_sub f node = (m, node')"
  shows "reset node' = reset node" and "ai_exhausted node' = ai_exhausted node"
    and "is_matched m \<Longrightarrow> unused node = {#f#} + unused node' \<and> walk_ok [m] node'"
    and "\<not> is_matched m \<Longrightarrow> node' = node"
proof -
  obtain g subs ex where node: "node = AuthorizedInvocation g subs ex" by (cases node)
  have reset_used: "reset (AuthorizedInvocation (ai_function s) (ai_subs s) True) = reset s" for s
    by (cases s) simp
  have unused_used: "\<not> ai_exhausted s \<Longrightarrow>
      unused s = {#ai_function s#} + unused (AuthorizedInvocation (ai_function s) (ai_subs s) True)" for s
    by (cases s) simp
  have "reset node' = reset node \<and> ai_exhausted node' = ai_exhausted node \<and>
      (is_matched m \<longrightarrow> unused node = {#f#} + unused node' \<and> walk_ok [m] node') \<and>
      (\<not> is_matched m \<longrightarrow> node' = node)"
  proof (cases rule: exhaust_first_cases [of f 0 subs])
    case none
    with assms show ?thesis by (auto simp: exhaust_sub_def node is_matched_def)
  next
    case (found j)
    let ?s = "AuthorizedInvocation f (ai_subs (subs ! j)) True"
    have "m = SubMatch j" and node': "node' = AuthorizedInvocation g (subs[j := ?s]) ex"
      using assms found(5) by (simp_all add: exhaust_sub_def node)
    moreover have "map reset (subs[j := ?s]) = map reset subs"
      using found(1,3) reset_used [of "subs ! j"] by (simp add: list_update_fixed)
    moreover have "sum_list (map unused subs) = {#f#} + sum_list (map unused (subs[j := ?s]))"
      using found(1,2,3) unused_used [of "subs ! j"] by (intro sum_list_update_eq) auto
    ultimately show ?thesis using found(1) by (simp add: node is_matched_def ac_simps)
  qed
  then show "reset node' = reset node" and "ai_exhausted node' = ai_exhausted node"
    and "is_matched m \<Longrightarrow> unused node = {#f#} + unused node' \<and> walk_ok [m] node'"
    and "\<not> is_matched m \<Longrightarrow> node' = node"
    by blast+
qed

lemma root_walk_snoc:
  "root_walk (ms @ [Unmatched]) = map_option (\<lambda>ws. ws @ [Unmatched]) (root_walk ms)"
  by (induction ms rule: root_walk.induct) simp_all

lemma end_node_snoc [simp]: "end_node (ms @ [Unmatched]) node = end_node ms node"
  by (induction ms node rule: end_node.induct) simp_all

lemma put_node_snoc [simp]: "put_node (ms @ [Unmatched]) n node = put_node ms n node"
  by (induction ms n node rule: put_node.induct) simp_all

text \<open>
  What an attempt to match can do: nothing, or use up exactly one unused node of the given
  function and note it in the topmost place of the match stack.
\<close>

definition extended :: "authorized_function \<Rightarrow> invocation_tracker \<Rightarrow> invocation_tracker \<Rightarrow> bool" where
  "extended f t t' \<longleftrightarrow>
     tracker_ok t' \<and> unused (it_root t) = {#f#} + unused (it_root t') \<and>
     reset (it_root t') = reset (it_root t) \<and>
     (\<exists>ms m. it_match_stack t = ms @ [Unmatched] \<and> it_match_stack t' = ms @ [m] \<and> is_matched m) \<and>
     (ai_exhausted (it_root t) \<longrightarrow> ai_exhausted (it_root t') \<and>
        it_root_exhausted_frame t' = it_root_exhausted_frame t) \<and>
     it_fully_processed t' = it_fully_processed t"

lemma tracker_ok_stack: "tracker_ok t \<Longrightarrow> stack_ok (it_match_stack t) (it_root t)"
  by (simp add: tracker_ok_def)

lemma extend_match:
  assumes ok: "tracker_ok t" and "it_match_stack t \<noteq> []"
  obtains (no) "maybe_extend_invocation_match f allow t = Inr (False, t)"
    | (yes) t' where "maybe_extend_invocation_match f allow t = Inr (True, t')" "extended f t t'"
      "ai_exhausted (it_root t) \<or> allow"
proof (cases "current_frame_is_already_matched t")
  case True
  then show ?thesis by (intro no) (simp add: maybe_extend_invocation_match_def)
next
  case False
  define ms where "ms = butlast (it_match_stack t)"
  have ms: "it_match_stack t = ms @ [Unmatched]"
    using False assms(2) by (metis append_butlast_last_id current_frame_is_already_matched_def
        is_matched_def ms_def)
  have stack: "stack_ok ms (it_root t)" using tracker_ok_stack [OF ok] by (simp add: ms)
  note walk = tracker_walk_eq [OF tracker_ok_stack [OF ok], unfolded ms root_walk_snoc]
  note run = maybe_extend_invocation_match_def False ms walk
  show ?thesis
  proof (cases "root_walk ms")
    case None
    then have un: "set ms \<subseteq> {Unmatched}" using root_walk_None [OF stack] by simp
    show ?thesis
    proof (cases "\<not> ai_exhausted (it_root t) \<and> allow \<and> ai_function (it_root t) = f")
      case True
      define t' where "t' = t\<lparr>it_root := AuthorizedInvocation f (ai_subs (it_root t)) True,
          it_root_exhausted_frame := Some (length ms), it_match_stack := ms @ [RootMatch]\<rparr>"
      have "stack_ok (ms @ [RootMatch]) (AuthorizedInvocation f subs True)" for subs
        using un by (induction ms) auto
      with ok True have "tracker_ok t'" by (auto simp: t'_def tracker_ok_def split: option.splits)
      moreover have "unused (it_root t) = {#f#} + unused (it_root t')"
        "reset (it_root t') = reset (it_root t)"
        using True by (cases "it_root t"; simp add: t'_def)+
      ultimately have "extended f t t'"
        using True ms by (simp add: extended_def t'_def is_matched_def)
      moreover have "maybe_extend_invocation_match f allow t = Inr (True, t')"
        using True by (simp add: run None t'_def write_match_def is_matched_def)
      ultimately show ?thesis using True by (intro yes) auto
    next
      case 2: False
      then show ?thesis by (intro no) (auto simp: run None write_match_def is_matched_def)
    qed
  next
    case (Some ws)
    obtain m n where m: "exhaust_sub f (end_node ws (it_root t)) = (m, n)"
      by (cases "exhaust_sub f (end_node ws (it_root t))")
    note wok = root_walk_ok [OF stack Some]
    note es = exhaust_sub_node [OF m]
    show ?thesis
    proof (cases "is_matched m")
      case True
      define t' where "t' = t\<lparr>it_root := put_node ws n (it_root t), it_match_stack := ms @ [m]\<rparr>"
      have put: "walk_ok ws (put_node ws n (it_root t))" "end_node ws (put_node ws n (it_root t)) = n"
        "ai_exhausted (put_node ws n (it_root t))"
        using put_node_walk_ok [OF wok(1) es(2)] put_node_exhausted [OF wok(1) es(2)] wok(2) by auto
      have "stack_ok (ms @ [m]) (put_node ws n (it_root t))"
        unfolding stack_ok_walk(2) [OF Some stack] walk_ok_snoc using put es(3) True by simp
      with ok put(3) wok(2) True have "tracker_ok t'"
        by (auto simp: t'_def tracker_ok_def ms nth_append is_matched_def
            root_walk_None [OF stack, symmetric] Some split: option.splits if_splits)
      with True wok es put show ?thesis
        by (intro yes [of t'])
          (auto simp: run Some m t'_def write_match_def extended_def ms
            reset_put_node [OF wok(1) es(1)] unused_put_node [OF wok(1) _ es(2)])
    next
      case nm: False
      have "put_node ws (end_node ws (it_root t)) (it_root t) = it_root t"
        using wok(1) by (rule put_end_node)
      with nm es(4) show ?thesis
        by (intro no) (simp add: run Some m write_match_def)
    qed
  qed
qed

lemma extend_total:
  assumes "tracker_ok t" and "it_match_stack t \<noteq> []"
  shows "\<exists>b t'. maybe_extend_invocation_match f allow t = Inr (b, t') \<and> tracker_ok t'"
  by (rule extend_match [OF assms, of f allow]) (use assms in \<open>auto simp: extended_def\<close>)

lemma extend_empty:
  assumes "it_match_stack t = []"
  shows "maybe_extend_invocation_match f allow t \<noteq> Inr (True, t')"
  using assms
  by (auto simp: maybe_extend_invocation_match_def write_match_def is_matched_def
      current_frame_is_already_matched_def)

lemma extend_true:
  assumes "tracker_ok t" and "maybe_extend_invocation_match f allow t = Inr (True, t')"
  shows "extended f t t'" and "ai_exhausted (it_root t) \<or> allow"
proof -
  have "it_match_stack t \<noteq> []" using assms(2) extend_empty by blast
  with assms show "extended f t t'" and "ai_exhausted (it_root t) \<or> allow"
    by (metis extend_match old.sum.inject(2) prod.inject)+
qed

lemma extend_false:
  assumes "tracker_ok t" and "maybe_extend_invocation_match f allow t = Inr (False, t')"
  shows "t' = t"
proof (cases "it_match_stack t = []")
  case True
  with assms(2) show ?thesis
    by (auto simp: maybe_extend_invocation_match_def write_match_def is_matched_def
        current_frame_is_already_matched_def split: if_splits)
next
  case False
  with assms show ?thesis by (metis extend_match old.sum.inject(2) prod.inject)
qed

section \<open>Frames\<close>

lemma push_frame_ok:
  assumes "tracker_ok t"
  shows "tracker_ok (tracker_push_frame t)"
  using assms
  by (auto simp: tracker_ok_def tracker_push_frame_def nth_append split: option.splits if_splits)

lemma stack_ok_before_root:
  "stack_ok (ms @ [RootMatch]) root \<Longrightarrow> set ms \<subseteq> {Unmatched}"
proof (induction ms root rule: stack_ok.induct)
  case (3 ms root)
  then show ?case by (simp add: walk_ok_snoc)
qed auto

lemma stack_ok_butlast: "stack_ok ms root \<Longrightarrow> stack_ok (butlast ms) root"
  by (metis append_butlast_last_id butlast.simps(1) stack_ok_append)

lemma pop_frame_ok:
  assumes "tracker_ok t"
  shows "tracker_ok (tracker_pop_frame t)"
proof (cases "it_root_exhausted_frame t")
  case None
  with assms show ?thesis
    by (simp add: tracker_ok_def tracker_pop_frame_def Let_def stack_ok_butlast)
next
  case (Some i)
  let ?ms = "it_match_stack t"
  have stack: "stack_ok ?ms (it_root t)" and ex: "ai_exhausted (it_root t)"
    using assms Some by (simp_all add: tracker_ok_def)
  have *: "set (butlast ?ms) \<subseteq> {Unmatched}" if "length ?ms - 1 \<le> i" "\<not> it_fully_processed t"
  proof -
    have i: "i < length ?ms" "?ms ! i = RootMatch"
      using assms Some that(2) by (simp_all add: tracker_ok_def)
    then have "i = length ?ms - 1" and "?ms \<noteq> []" using that(1) by auto
    with i have "?ms = butlast ?ms @ [RootMatch]"
      by (metis append_butlast_last_id last_conv_nth)
    with stack show ?thesis by (metis stack_ok_before_root)
  qed
  have "set (butlast ?ms) \<subseteq> {Unmatched}" if "it_fully_processed t"
    using assms Some that in_set_butlastD by (fastforce simp: tracker_ok_def)
  with * stack_ok_butlast [OF stack] assms Some ex show ?thesis
    by (auto simp: tracker_ok_def tracker_pop_frame_def Let_def nth_butlast)
qed

lemma push_sel [simp]:
  "it_root (tracker_push_frame t) = it_root t"
  "it_match_stack (tracker_push_frame t) = it_match_stack t @ [Unmatched]"
  "it_root_exhausted_frame (tracker_push_frame t) = it_root_exhausted_frame t"
  "it_fully_processed (tracker_push_frame t) = it_fully_processed t"
  "tracker_snapshot (tracker_push_frame t) = tracker_snapshot t"
  by (simp_all add: tracker_push_frame_def tracker_snapshot_def)

lemma pop_sel [simp]:
  "it_root (tracker_pop_frame t) = it_root t"
  "it_match_stack (tracker_pop_frame t) = butlast (it_match_stack t)"
  "it_root_exhausted_frame (tracker_pop_frame t) = it_root_exhausted_frame t"
  by (simp_all add: tracker_pop_frame_def Let_def)

text \<open>
  A later state of a tracker in the same frame: the tree is the same up to the nodes that have
  been used, whose functions are \<open>M\<close>, a root that was already used is still treated alike, and
  only the top of the match stack may have changed.
\<close>

definition evolves :: "invocation_tracker \<Rightarrow> authorized_function multiset \<Rightarrow> invocation_tracker \<Rightarrow> bool" where
  "evolves t M t' \<longleftrightarrow>
     tracker_ok t' \<and> reset (it_root t') = reset (it_root t) \<and>
     unused (it_root t) = M + unused (it_root t') \<and>
     length (it_match_stack t') = length (it_match_stack t) \<and>
     butlast (it_match_stack t') = butlast (it_match_stack t) \<and>
     (ai_exhausted (it_root t) \<longrightarrow> ai_exhausted (it_root t') \<and>
        it_root_exhausted_frame t' = it_root_exhausted_frame t \<and>
        it_fully_processed t' = it_fully_processed t)"

lemma evolves_refl: "tracker_ok t \<Longrightarrow> evolves t {#} t"
  by (simp add: evolves_def)

lemma evolves_trans: "evolves t M t' \<Longrightarrow> evolves t' N t'' \<Longrightarrow> evolves t (M + N) t''"
  by (simp add: evolves_def)

lemma evolves_ok: "evolves t M t' \<Longrightarrow> tracker_ok t'"
  by (simp add: evolves_def)

lemma evolves_extended: "extended f t t' \<Longrightarrow> evolves t {#f#} t'"
  by (auto simp: extended_def evolves_def)

lemma pop_fully_processed:
  assumes "tracker_ok t0" and "ai_exhausted (it_root t0)"
    and "it_root_exhausted_frame t = it_root_exhausted_frame t0"
    and "it_fully_processed t = it_fully_processed t0"
    and "butlast (it_match_stack t) = it_match_stack t0"
  shows "it_fully_processed (tracker_pop_frame t) = it_fully_processed t0"
  using assms
  by (auto simp: tracker_ok_def tracker_pop_frame_def Let_def split: option.splits if_splits)

text \<open>A call that returns, and a call that fails: rolling its frame back restores the tracker.\<close>

lemma evolves_frame:
  assumes "tracker_ok t" and "evolves (tracker_push_frame t) M t1"
  shows "evolves t M (tracker_pop_frame t1)"
proof -
  have "butlast (it_match_stack t1) = it_match_stack t" using assms(2) by (simp add: evolves_def)
  with assms show ?thesis
    using pop_frame_ok pop_fully_processed [OF assms(1)] by (simp add: evolves_def)
qed

lemma evolves_rollback:
  assumes ok: "tracker_ok t" and "evolves t M t1"
  shows "tracker_rollback t1 (tracker_snapshot t) = Inr (t\<lparr>it_match_stack := it_match_stack t1\<rparr>)"
proof -
  have "invocation_rollback (it_root t1) (invocation_snapshot (it_root t)) = Inr (it_root t)"
    using assms(2) by (intro rollback_snapshot) (simp add: evolves_def)
  moreover have "it_root_exhausted_frame t = None \<and> \<not> it_fully_processed t"
    if "\<not> ai_exhausted (it_root t)"
    using ok that by (auto simp: tracker_ok_def split: option.splits)
  ultimately show ?thesis
    using assms(2)
    by (cases "ai_exhausted (it_root t)") (auto simp: tracker_rollback_def tracker_snapshot_def evolves_def)
qed

lemma pop_push:
  assumes "tracker_ok t" and "butlast ms = it_match_stack t"
  shows "tracker_pop_frame (t\<lparr>it_match_stack := ms\<rparr>) = t"
  using assms
  by (auto simp: tracker_ok_def tracker_pop_frame_def Let_def split: option.splits if_splits)

lemma frame_rollback:
  assumes ok: "tracker_ok t" and ev: "evolves (tracker_push_frame t) M t1"
  shows "\<exists>t2. tracker_rollback t1 (tracker_snapshot t) = Inr t2 \<and> tracker_pop_frame t2 = t"
proof -
  have "tracker_rollback t1 (tracker_snapshot t) =
      Inr ((tracker_push_frame t)\<lparr>it_match_stack := it_match_stack t1\<rparr>)"
    using evolves_rollback [OF push_frame_ok [OF ok] ev] by simp
  moreover have "(tracker_push_frame t)\<lparr>it_match_stack := it_match_stack t1\<rparr> =
      t\<lparr>it_match_stack := it_match_stack t1\<rparr>"
    by (simp add: tracker_push_frame_def)
  moreover have "butlast (it_match_stack t1) = it_match_stack t" using ev by (simp add: evolves_def)
  ultimately show ?thesis using pop_push [OF ok] by simp
qed

section \<open>Recording\<close>

lemma append_recorded_sel:
  "fst (append_recorded f n) = SubMatch (length (ai_subs n))"
  "ai_function (snd (append_recorded f n)) = ai_function n"
  "ai_subs (snd (append_recorded f n)) = ai_subs n @ [AuthorizedInvocation f [] True]"
  "ai_exhausted (snd (append_recorded f n)) = ai_exhausted n"
  by (simp_all add: append_recorded_def invocation_new_recording_def)

lemma record_Inr:
  assumes ok: "tracker_ok t" and run: "tracker_record_invocation f t = Inr t'"
  obtains ms ws where "it_match_stack t = ms @ [Unmatched]" "root_walk ms = Some ws"
    "walk_ok ws (it_root t)"
    "t' = t\<lparr>it_root := put_node ws (snd (append_recorded f (end_node ws (it_root t)))) (it_root t),
            it_match_stack := ms @ [SubMatch (length (ai_subs (end_node ws (it_root t))))]\<rparr>"
proof (cases "it_match_stack t = []")
  case True
  with run show thesis
    by (simp add: tracker_record_invocation_def current_frame_is_already_matched_def)
next
  case False
  define ms where "ms = butlast (it_match_stack t)"
  have nm: "\<not> current_frame_is_already_matched t"
    using run by (auto simp: tracker_record_invocation_def)
  then have ms: "it_match_stack t = ms @ [Unmatched]"
    using False by (metis append_butlast_last_id current_frame_is_already_matched_def is_matched_def ms_def)
  have stack: "stack_ok ms (it_root t)" using tracker_ok_stack [OF ok] by (simp add: ms)
  note walk = tracker_walk_eq [OF tracker_ok_stack [OF ok], unfolded ms root_walk_snoc]
  obtain ws where ws: "root_walk ms = Some ws"
    using run nm by (auto simp: tracker_record_invocation_def ms walk split: option.splits)
  with run nm root_walk_ok(1) [OF stack ws] ms show thesis
    by (intro that [of ms ws])
      (auto simp: tracker_record_invocation_def walk append_recorded_sel)
qed

lemma record_ok:
  assumes ok: "tracker_ok t" and run: "tracker_record_invocation f t = Inr t'"
  shows "tracker_ok t'" and "length (it_match_stack t') = length (it_match_stack t)"
proof -
  obtain ms ws where ms: "it_match_stack t = ms @ [Unmatched]" "root_walk ms = Some ws"
    and w: "walk_ok ws (it_root t)"
    and t': "t' = t\<lparr>it_root := put_node ws (snd (append_recorded f (end_node ws (it_root t)))) (it_root t),
            it_match_stack := ms @ [SubMatch (length (ai_subs (end_node ws (it_root t))))]\<rparr>"
    by (rule record_Inr [OF assms])
  have stack: "stack_ok ms (it_root t)" using tracker_ok_stack [OF ok] by (simp add: ms)
  let ?n = "snd (append_recorded f (end_node ws (it_root t)))"
  have ex: "ai_exhausted ?n = ai_exhausted (end_node ws (it_root t))"
    by (simp add: append_recorded_sel)
  have put: "walk_ok ws (put_node ws ?n (it_root t))" "end_node ws (put_node ws ?n (it_root t)) = ?n"
    "ai_exhausted (put_node ws ?n (it_root t))"
    using put_node_walk_ok [OF w ex] put_node_exhausted [OF w ex] root_walk_ok(2) [OF stack ms(2)]
    by auto
  have "stack_ok (it_match_stack t') (it_root t')"
    unfolding t' using put by (simp add: stack_ok_walk(2) [OF ms(2) stack] walk_ok_snoc append_recorded_sel)
  with ok put(3) root_walk_ok(2) [OF stack ms(2)] show "tracker_ok t'"
    by (auto simp: tracker_ok_def t' ms(1) nth_append root_walk_None [OF stack, symmetric] ms(2)
        split: option.splits if_splits)
  show "length (it_match_stack t') = length (it_match_stack t)" by (simp add: t' ms(1))
qed

lemma stack_ok_new: "stack_ok (replicate n Unmatched @ [RootMatch]) (AuthorizedInvocation f subs True)"
  by (induction n) simp_all

lemma new_recording_ok:
  assumes "tracker_new_recording f n = Inr t"
  shows "tracker_ok t" and "length (it_match_stack t) = n"
proof -
  have n: "n \<noteq> 0" and t: "t = \<lparr>it_root = AuthorizedInvocation f [] True,
      it_match_stack = replicate (n - 1) Unmatched @ [RootMatch],
      it_root_exhausted_frame = Some (n - 1), it_fully_processed = False\<rparr>"
    using assms by (auto simp: tracker_new_recording_def invocation_new_recording_def split: if_splits)
  show "tracker_ok t" by (simp add: tracker_ok_def t stack_ok_new nth_append)
  show "length (it_match_stack t) = n" using n by (simp add: t)
qed

section \<open>Sessions\<close>

text \<open>
  What a tracker goes through while frames run: attempts to match, calls that return, and calls
  that fail and are rolled back. \<open>M\<close> collects the functions that were authorized, except those
  of calls that were rolled back.
\<close>

inductive session :: "invocation_tracker \<Rightarrow> authorized_function multiset \<Rightarrow> invocation_tracker \<Rightarrow> bool" where
  finished: "session t {#} t"
| granted: "maybe_extend_invocation_match f allow t = Inr (True, t') \<Longrightarrow> session t' M t'' \<Longrightarrow>
    session t (add_mset f M) t''"
| refused: "maybe_extend_invocation_match f allow t = Inr (False, t') \<Longrightarrow> session t' M t'' \<Longrightarrow>
    session t M t''"
| returned: "session (tracker_push_frame t) M t1 \<Longrightarrow> session (tracker_pop_frame t1) N t2 \<Longrightarrow>
    session t (M + N) t2"
| failed: "session (tracker_push_frame t) M t1 \<Longrightarrow>
    tracker_rollback t1 (tracker_snapshot (tracker_push_frame t)) = Inr t1' \<Longrightarrow>
    session (tracker_pop_frame t1') N t2 \<Longrightarrow> session t N t2"

lemma session_evolves:
  assumes "session t M t'" and "tracker_ok t"
  shows "evolves t M t'"
  using assms
proof (induction rule: session.induct)
  case (finished t)
  then show ?case by (rule evolves_refl)
next
  case (granted f allow t t' M t'')
  then have ev: "evolves t {#f#} t'" using extend_true(1) evolves_extended by blast
  moreover from this granted.IH have "evolves t' M t''" using evolves_ok by blast
  ultimately show ?case using evolves_trans by fastforce
next
  case (refused f allow t t' M t'')
  then show ?case using extend_false by blast
next
  case (returned t M t1 N t2)
  then have "evolves t M (tracker_pop_frame t1)" using push_frame_ok evolves_frame by blast
  then show ?case using returned.IH(2) evolves_ok evolves_trans by blast
next
  case (failed t M t1 t1' N t2)
  then have "evolves (tracker_push_frame t) M t1" using push_frame_ok by blast
  with failed.hyps(2) have "tracker_pop_frame t1' = t"
    using frame_rollback [OF failed.prems] by fastforce
  then show ?case using failed.IH(2) failed.prems by simp
qed

end
