(* ===== verification/Auth_Replay.thy ===== *)
theory Auth_Replay
  imports Auth_Tree_Inv
begin

text \<open>
  Recorded authorizations suffice: if a tracker records a run of requests, calls and returns, then
  a tracker made of the recorded tree grants the same requests one after the other, and its tree
  is used up at the end. The tracker that enforces stays \<open>ahead\<close> of the one that records: the
  recorded nodes are used in both, the nodes that are still to be recorded are unused.
\<close>

section \<open>Runs\<close>

datatype auth_step = Requires authorized_function | Enters | Leaves

fun record_steps :: "auth_step list \<Rightarrow> invocation_tracker \<Rightarrow> error + invocation_tracker" where
  "record_steps [] t = Inr t"
| "record_steps (Requires f # steps) t =
     (case tracker_record_invocation f t of Inl e \<Rightarrow> Inl e | Inr t' \<Rightarrow> record_steps steps t')"
| "record_steps (Enters # steps) t = record_steps steps (tracker_push_frame t)"
| "record_steps (Leaves # steps) t = record_steps steps (tracker_pop_frame t)"

text \<open>A request that no node matches is refused.\<close>

fun enforce_steps :: "bool \<Rightarrow> auth_step list \<Rightarrow> invocation_tracker \<Rightarrow> error + invocation_tracker" where
  "enforce_steps allow [] t = Inr t"
| "enforce_steps allow (Requires f # steps) t =
     (case maybe_extend_invocation_match f allow t of
        Inl e \<Rightarrow> Inl e
      | Inr (False, _) \<Rightarrow> Inl (HostErr EAuth InvalidAction)
      | Inr (True, t') \<Rightarrow> enforce_steps allow steps t')"
| "enforce_steps allow (Enters # steps) t = enforce_steps allow steps (tracker_push_frame t)"
| "enforce_steps allow (Leaves # steps) t = enforce_steps allow steps (tracker_pop_frame t)"

section \<open>Trees that grow\<close>

fun grows_to :: "authorized_invocation \<Rightarrow> authorized_invocation \<Rightarrow> bool" where
  "grows_to (AuthorizedInvocation f rs x) (AuthorizedInvocation g es y) \<longleftrightarrow>
     f = g \<and> length rs \<le> length es \<and> list_all2 grows_to rs (take (length rs) es)"

lemma grows_to_iff:
  "grows_to r e \<longleftrightarrow>
     ai_function r = ai_function e \<and> length (ai_subs r) \<le> length (ai_subs e) \<and>
     (\<forall>i < length (ai_subs r). grows_to (ai_subs r ! i) (ai_subs e ! i))"
  by (cases r; cases e) (auto simp: list_all2_conv_all_nth)

lemma grows_to_refl [simp]: "grows_to r r"
proof (induction r)
  case (AuthorizedInvocation f subs ex)
  then show ?case by (auto simp: list_all2_conv_all_nth)
qed

lemma grows_to_trans: "grows_to r s \<Longrightarrow> grows_to s e \<Longrightarrow> grows_to r e"
proof (induction r arbitrary: s e)
  case (AuthorizedInvocation f subs ex)
  note r = AuthorizedInvocation.prems [unfolded grows_to_iff [of "AuthorizedInvocation f subs ex"]
      grows_to_iff [of s]]
  show ?case
    unfolding grows_to_iff [of "AuthorizedInvocation f subs ex"]
  proof (intro conjI allI impI)
    fix i
    assume i: "i < length (ai_subs (AuthorizedInvocation f subs ex))"
    then have "subs ! i \<in> set subs" by simp
    with AuthorizedInvocation.IH [OF this, of "ai_subs s ! i" "ai_subs e ! i"] i r
    show "grows_to (ai_subs (AuthorizedInvocation f subs ex) ! i) (ai_subs e ! i)" by auto
  qed (use r in auto)
qed

lemma grows_to_reset: "reset e = reset e' \<Longrightarrow> grows_to r e \<Longrightarrow> grows_to r e'"
proof (induction r arbitrary: e e')
  case (AuthorizedInvocation f subs ex)
  obtain g es y es' y' where e: "e = AuthorizedInvocation g es y" "e' = AuthorizedInvocation g es' y'"
    and m: "map reset es = map reset es'"
    using AuthorizedInvocation.prems(1) by (cases e; cases e') auto
  have l: "length es = length es'" using m by (rule map_eq_imp_length_eq)
  have "grows_to (subs ! i) (es' ! i)" if "i < length subs" for i
  proof (rule AuthorizedInvocation.IH)
    show "subs ! i \<in> set subs" using that by simp
    have "i < length es" using that AuthorizedInvocation.prems(2) e by simp
    then show "reset (es ! i) = reset (es' ! i)" using m l by (metis nth_map)
    show "grows_to (subs ! i) (es ! i)"
      using that AuthorizedInvocation.prems(2) e by (auto simp: list_all2_conv_all_nth)
  qed
  with l AuthorizedInvocation.prems(2) e show ?case by (auto simp: list_all2_conv_all_nth)
qed

lemma grows_to_append: "grows_to n (snd (append_recorded f n))"
  unfolding grows_to_iff [of n] by (simp add: append_recorded_sel nth_append)

lemma grows_to_put_node:
  "walk_ok ws r \<Longrightarrow> grows_to (end_node ws r) n \<Longrightarrow> grows_to r (put_node ws n r)"
proof (induction ws r rule: walk_ok.induct)
  case (4 i ms node)
  then show ?case unfolding grows_to_iff [of node] by (auto simp: nth_list_update)
qed auto

lemma record_grows:
  assumes "tracker_ok t" and "record_steps steps t = Inr t'"
  shows "grows_to (it_root t) (it_root t')"
  using assms
proof (induction steps t rule: record_steps.induct)
  case (2 f steps t)
  then obtain t1 where t1: "tracker_record_invocation f t = Inr t1" by (auto split: sum.splits)
  obtain ms ws where "walk_ok ws (it_root t)"
    "it_root t1 = put_node ws (snd (append_recorded f (end_node ws (it_root t)))) (it_root t)"
    by (rule record_Inr [OF 2(2) t1]) simp
  then have "grows_to (it_root t) (it_root t1)" by (simp add: grows_to_put_node grows_to_append)
  moreover have "grows_to (it_root t1) (it_root t')"
    using 2 t1 record_ok(1) [OF 2(2) t1] by simp
  ultimately show ?case by (rule grows_to_trans)
qed (auto simp: push_frame_ok pop_frame_ok)

lemma end_grows:
  "walk_ok ws r \<Longrightarrow> grows_to (put_node ws n r) e \<Longrightarrow> grows_to n (end_node ws e)"
proof (induction ws r arbitrary: e rule: walk_ok.induct)
  case (4 i ms node)
  have "grows_to (put_node ms n (ai_subs node ! i)) (ai_subs e ! i)"
    using 4(2,3) unfolding grows_to_iff [of "put_node (SubMatch i # ms) n node"]
    by (auto simp: nth_list_update)
  with 4 show ?case by simp
qed auto

section \<open>The tracker that enforces is ahead\<close>

fun ahead :: "authorized_invocation \<Rightarrow> authorized_invocation \<Rightarrow> bool" where
  "ahead (AuthorizedInvocation f rs x) (AuthorizedInvocation g es y) \<longleftrightarrow>
     f = g \<and> x \<and> y \<and> length rs \<le> length es \<and> list_all2 ahead rs (take (length rs) es) \<and>
     (\<forall>e \<in> set (drop (length rs) es). reset e = e)"

lemma ahead_iff:
  "ahead r e \<longleftrightarrow>
     ai_function r = ai_function e \<and> ai_exhausted r \<and> ai_exhausted e \<and>
     length (ai_subs r) \<le> length (ai_subs e) \<and>
     (\<forall>i < length (ai_subs r). ahead (ai_subs r ! i) (ai_subs e ! i)) \<and>
     (\<forall>i. length (ai_subs r) \<le> i \<longrightarrow> i < length (ai_subs e) \<longrightarrow>
        reset (ai_subs e ! i) = ai_subs e ! i)"
proof -
  obtain f rs x g es y where re: "r = AuthorizedInvocation f rs x" "e = AuthorizedInvocation g es y"
    by (cases r; cases e)
  have "(\<forall>e \<in> set (drop n es). reset e = e) \<longleftrightarrow> (\<forall>i. n \<le> i \<longrightarrow> i < length es \<longrightarrow> reset (es ! i) = es ! i)"
    for n
    by (simp add: all_set_conv_all_nth)
      (metis add_diff_inverse_nat le_add1 less_diff_conv linorder_not_less add.commute)
  then show ?thesis by (auto simp: re list_all2_conv_all_nth)
qed

lemma ahead_used: "ahead r e \<Longrightarrow> ai_exhausted r \<and> ai_exhausted e"
  by (cases r; cases e) simp

lemma reset_unused: "reset e = e \<Longrightarrow> \<not> ai_exhausted e"
  by (cases e) auto

lemma ahead_walk: "walk_ok ws r \<Longrightarrow> ahead r e \<Longrightarrow> walk_ok ws e \<and> ahead (end_node ws r) (end_node ws e)"
proof (induction ws r arbitrary: e rule: walk_ok.induct)
  case (4 i ms node)
  have "ahead (ai_subs node ! i) (ai_subs e ! i)" "i < length (ai_subs e)"
    using 4(2,3) unfolding ahead_iff [of node] by auto
  moreover from this(1) have "ai_exhausted (ai_subs e ! i)" using ahead_used by blast
  ultimately show ?case using 4 by auto
qed auto

lemma ahead_put_node:
  "walk_ok ws r \<Longrightarrow> ahead r e \<Longrightarrow> ahead n n' \<Longrightarrow> ahead (put_node ws n r) (put_node ws n' e)"
proof (induction ws r arbitrary: e rule: walk_ok.induct)
  case (4 i ms node)
  have i: "i < length (ai_subs node)" "i < length (ai_subs e)"
    and ex: "ai_exhausted node" "ai_exhausted e" "ai_function node = ai_function e"
      "length (ai_subs node) \<le> length (ai_subs e)"
    and sub: "\<And>j. j < length (ai_subs node) \<Longrightarrow> ahead (ai_subs node ! j) (ai_subs e ! j)"
    and rest: "\<And>j. length (ai_subs node) \<le> j \<Longrightarrow> j < length (ai_subs e) \<Longrightarrow>
      reset (ai_subs e ! j) = ai_subs e ! j"
    using 4(2,3) unfolding ahead_iff [of node] by auto
  have "ahead (put_node ms n (ai_subs node ! i)) (put_node ms n' (ai_subs e ! i))"
    using 4 sub i(1) by simp
  with i ex sub rest show ?case
    unfolding ahead_iff [of "put_node (SubMatch i # ms) n node"] by (auto simp: nth_list_update)
qed auto

text \<open>The node that enforcing uses is the one that recording appends.\<close>

lemma exhaust_sub_ahead:
  assumes "ahead r e" and "grows_to (snd (append_recorded f r)) e"
  shows "\<exists>e'. exhaust_sub f e = (SubMatch (length (ai_subs r)), e') \<and>
    ahead (snd (append_recorded f r)) e'"
proof -
  let ?k = "length (ai_subs r)"
  have f: "ai_function r = ai_function e" "ai_exhausted r" "ai_exhausted e"
    and sub: "\<And>i. i < ?k \<Longrightarrow> ahead (ai_subs r ! i) (ai_subs e ! i)"
    and rest: "\<And>i. ?k \<le> i \<Longrightarrow> i < length (ai_subs e) \<Longrightarrow> reset (ai_subs e ! i) = ai_subs e ! i"
    using assms(1) unfolding ahead_iff [of r] by auto
  have k: "?k < length (ai_subs e)" and kf: "ai_function (ai_subs e ! ?k) = f"
    using assms(2) unfolding grows_to_iff [of "snd (append_recorded f r)"]
    by (force simp: append_recorded_sel grows_to_iff [of "AuthorizedInvocation _ _ _"])+
  have used: "ai_exhausted (ai_subs e ! i)" if "i < ?k" for i
    using sub [OF that] ahead_used by blast
  have unused_k: "\<not> ai_exhausted (ai_subs e ! ?k)" using reset_unused rest k by blast
  show ?thesis
  proof (cases rule: exhaust_first_cases [of f 0 "ai_subs e"])
    case none
    then have "ai_function (ai_subs e ! ?k) \<noteq> f" using k unused_k nth_mem by blast
    with kf show ?thesis by simp
  next
    case (found j)
    have "j = ?k"
      using found(2,4) used unused_k kf by (metis linorder_neqE_nat)
    define s where "s = AuthorizedInvocation f (ai_subs (ai_subs e ! ?k)) True"
    have "map reset (ai_subs (ai_subs e ! ?k)) = ai_subs (ai_subs e ! ?k)"
      using rest [OF order.refl k] by (cases "ai_subs e ! ?k") simp
    then have "reset x = x" if "x \<in> set (ai_subs (ai_subs e ! ?k))" for x
      using that map_eq_conv [of reset _ "\<lambda>x. x"] by simp
    then have s: "ahead (AuthorizedInvocation f [] True) s" by (simp add: s_def)
    let ?e' = "AuthorizedInvocation (ai_function e) ((ai_subs e)[?k := s]) (ai_exhausted e)"
    have "exhaust_sub f e = (SubMatch ?k, ?e')"
      using found(5) \<open>j = ?k\<close> by (simp add: exhaust_sub_def s_def)
    moreover have "ahead (snd (append_recorded f r)) ?e'"
      unfolding ahead_iff [of "snd (append_recorded f r)"] using f k sub s rest
      by (auto simp: append_recorded_sel nth_append nth_list_update less_Suc_eq)
    ultimately show ?thesis by blast
  qed
qed

definition in_step :: "invocation_tracker \<Rightarrow> invocation_tracker \<Rightarrow> bool" where
  "in_step t e \<longleftrightarrow>
     it_match_stack e = it_match_stack t \<and> it_root_exhausted_frame e = it_root_exhausted_frame t \<and>
     it_fully_processed e = it_fully_processed t \<and> ahead (it_root t) (it_root e)"

lemma in_step_push: "in_step t e \<Longrightarrow> in_step (tracker_push_frame t) (tracker_push_frame e)"
  by (simp add: in_step_def)

lemma in_step_pop: "in_step t e \<Longrightarrow> in_step (tracker_pop_frame t) (tracker_pop_frame e)"
  by (simp add: in_step_def tracker_pop_frame_def Let_def split: option.split)

lemma root_walk_stack:
  "root_walk ms = Some ws \<Longrightarrow> walk_ok ws root \<Longrightarrow> ai_exhausted root \<Longrightarrow>
   stack_ok ms r \<Longrightarrow> stack_ok ms root"
  by (induction ms r rule: stack_ok.induct) auto

lemma in_step_requires:
  assumes ok: "tracker_ok t" and run: "tracker_record_invocation f t = Inr t'"
    and step: "in_step t e" and grows: "grows_to (it_root t') (it_root e)"
  shows "\<exists>e'. maybe_extend_invocation_match f allow e = Inr (True, e') \<and> in_step t' e' \<and>
    reset (it_root e') = reset (it_root e)"
proof -
  obtain ms ws where ms: "it_match_stack t = ms @ [Unmatched]" "root_walk ms = Some ws"
    and w: "walk_ok ws (it_root t)"
    and t': "t' = t\<lparr>it_root := put_node ws (snd (append_recorded f (end_node ws (it_root t)))) (it_root t),
            it_match_stack := ms @ [SubMatch (length (ai_subs (end_node ws (it_root t))))]\<rparr>"
    by (rule record_Inr [OF ok run])
  let ?n = "end_node ws (it_root t)" and ?m = "end_node ws (it_root e)"
  have ah: "ahead (it_root t) (it_root e)" using step by (simp add: in_step_def)
  have we: "walk_ok ws (it_root e)" "ahead ?n ?m" using ahead_walk [OF w ah] by simp_all
  have "grows_to (snd (append_recorded f ?n)) ?m"
    using grows [unfolded t'] w we(1) end_grows by simp
  then obtain m' where m': "exhaust_sub f ?m = (SubMatch (length (ai_subs ?n)), m')"
    "ahead (snd (append_recorded f ?n)) m'"
    using exhaust_sub_ahead [OF we(2)] by blast
  note es = exhaust_sub_node [OF m'(1)]
  have stack: "stack_ok (ms @ [Unmatched]) (it_root e)"
    using root_walk_stack [OF ms(2) we(1)] ahead_used [OF ah] tracker_ok_stack [OF ok] ms(1) by simp
  define e' where "e' = e\<lparr>it_root := put_node ws m' (it_root e),
      it_match_stack := ms @ [SubMatch (length (ai_subs ?n))]\<rparr>"
  have st: "it_match_stack e = ms @ [Unmatched]" using step ms(1) by (simp add: in_step_def)
  have "maybe_extend_invocation_match f allow e = Inr (True, e')"
    by (simp add: maybe_extend_invocation_match_def current_frame_is_already_matched_def st is_matched_def
        tracker_walk_eq [OF stack] root_walk_snoc ms(2) m'(1) write_match_def e'_def)
  moreover have "in_step t' e'"
    using step ahead_put_node [OF w ah m'(2)] by (simp add: in_step_def t' e'_def)
  moreover have "reset (it_root e') = reset (it_root e)"
    using reset_put_node [OF we(1) es(1)] by (simp add: e'_def)
  ultimately show ?thesis by blast
qed

lemma in_step_run:
  assumes "tracker_ok t" and "record_steps steps t = Inr t'" and "in_step t e"
    and "reset (it_root e) = reset (it_root t')"
  shows "\<exists>e'. enforce_steps allow steps e = Inr e' \<and> in_step t' e' \<and>
    reset (it_root e') = reset (it_root t')"
  using assms
proof (induction steps t arbitrary: e rule: record_steps.induct)
  case (1 t)
  then show ?case by simp
next
  case (2 f steps t)
  obtain t1 where t1: "tracker_record_invocation f t = Inr t1" "record_steps steps t1 = Inr t'"
    using 2(3) by (auto split: sum.splits)
  note ok1 = record_ok(1) [OF 2(2) t1(1)]
  have "grows_to (it_root t1) (it_root e)"
    using grows_to_reset [OF _ record_grows [OF ok1 t1(2)]] 2(5) by simp
  then obtain e1 where e1: "maybe_extend_invocation_match f allow e = Inr (True, e1)" "in_step t1 e1"
    "reset (it_root e1) = reset (it_root e)"
    using in_step_requires [OF 2(2) t1(1) 2(4)] by blast
  with 2(1) [OF t1(1) ok1 t1(2)] 2(5) show ?case by simp
next
  case (3 steps t)
  then show ?case using push_frame_ok in_step_push by simp
next
  case (4 steps t)
  then show ?case using pop_frame_ok in_step_pop by simp
qed

lemma ahead_all_used:
  "ahead r e \<Longrightarrow> reset r = reset e \<Longrightarrow> unused e = {#}"
proof (induction e arbitrary: r)
  case (AuthorizedInvocation g es y)
  obtain f rs x where r: "r = AuthorizedInvocation f rs x" by (cases r)
  have m: "map reset rs = map reset es" using AuthorizedInvocation.prems(2) r by simp
  then have l: "length rs = length es" by (rule map_eq_imp_length_eq)
  have "unused s = {#}" if s: "s \<in> set es" for s
  proof -
    obtain i where i: "i < length es" "es ! i = s" using s by (auto simp: in_set_conv_nth)
    have "ahead (rs ! i) s" "reset (rs ! i) = reset s"
      using AuthorizedInvocation.prems(1) r l i m
      by (auto simp: list_all2_conv_all_nth dest: arg_cong [of _ _ "\<lambda>xs. xs ! i"])
    then show ?thesis using AuthorizedInvocation.IH s by blast
  qed
  then have "sum_list (map unused es) = {#}" by (induction es) simp_all
  with AuthorizedInvocation.prems(1) r show ?case by simp
qed

section \<open>From the first request on\<close>

text \<open>The tracker that is made of an entry of the transaction, after \<open>n\<close> calls.\<close>

definition entered_tracker :: "nat \<Rightarrow> xdr_invocation \<Rightarrow> invocation_tracker" where
  "entered_tracker n x = (tracker_push_frame ^^ n) (tracker_from_xdr x)"

lemma entered_tracker_eq:
  "entered_tracker n x =
    \<lparr>it_root = invocation_from_xdr x, it_match_stack = replicate n Unmatched,
     it_root_exhausted_frame = None, it_fully_processed = False\<rparr>"
  unfolding entered_tracker_def
  by (induction n)
    (simp_all add: tracker_from_xdr_def tracker_new_def tracker_push_frame_def replicate_append_same)

lemma replay:
  assumes new: "tracker_new_recording f n = Inr t" and run: "record_steps steps t = Inr t'"
  shows "\<exists>e e'. maybe_extend_invocation_match f True
      (entered_tracker n (invocation_to_xdr False (it_root t'))) = Inr (True, e) \<and>
    enforce_steps allow steps e = Inr e' \<and> unused (it_root e') = {#}"
proof -
  obtain k where n: "n = Suc k" and t: "t = \<lparr>it_root = AuthorizedInvocation f [] True,
      it_match_stack = replicate k Unmatched @ [RootMatch],
      it_root_exhausted_frame = Some k, it_fully_processed = False\<rparr>"
    using new by (cases n) (auto simp: tracker_new_recording_def invocation_new_recording_def)
  note ok = new_recording_ok(1) [OF new]
  obtain g es x where root: "it_root t' = AuthorizedInvocation g es x" by (cases "it_root t'")
  have g: "g = f" using record_grows [OF ok run] by (simp add: t root)
  define e0 where "e0 = entered_tracker n (invocation_to_xdr False (it_root t'))"
  have e0: "e0 = \<lparr>it_root = AuthorizedInvocation f (map reset es) False,
      it_match_stack = replicate k Unmatched @ [Unmatched],
      it_root_exhausted_frame = None, it_fully_processed = False\<rparr>"
    by (simp add: n e0_def entered_tracker_eq from_to_xdr root g replicate_append_same)
  define e where "e = \<lparr>it_root = AuthorizedInvocation f (map reset es) True,
      it_match_stack = replicate k Unmatched @ [RootMatch],
      it_root_exhausted_frame = Some k, it_fully_processed = False\<rparr>"
  have un: "stack_ok (replicate k Unmatched @ [Unmatched]) r" for r
    by (rule stack_ok_unmatched) auto
  have rw: "root_walk (replicate k Unmatched @ [Unmatched]) = None"
    using root_walk_None [OF un] by auto
  have "maybe_extend_invocation_match f True e0 = Inr (True, e)"
    by (simp add: maybe_extend_invocation_match_def current_frame_is_already_matched_def e0 e_def
        is_matched_def tracker_walk_eq [OF un] rw write_match_def)
  moreover have "in_step t e" by (auto simp: in_step_def t e_def)
  moreover have r: "reset (it_root e) = reset (it_root t')" by (simp add: e_def root g)
  ultimately show ?thesis
    using in_step_run [OF ok run, of e allow] ahead_all_used by (fastforce simp: e0_def in_step_def)
qed

end
