(* ===== verification/Host_Storage.thy ===== *)
theory Host_Storage
  imports Host_Keys
begin

text \<open>
  The transactional storage of the host (\<open>storage.rs\<close>): ledger entries behind a footprint
  that is either being recorded from a read-only snapshot (\<open>Recording\<close>) or enforced. The
  operations run within the budget (charges are not modelled), and the entries are those of a
  network run, which never hands archived entries to a host: the liveness checks compiled for
  tests only (\<open>cfg(testutils)\<close>) are not part of the model. An error carries its type and code,
  not the message and arguments that \<open>decorate_storage_error\<close> attaches in debug mode.
\<close>

section \<open>Definitions\<close>

datatype access_type = ReadOnly | ReadWrite

text \<open>
  A ledger entry. Contract data carries its key and its value, of type \<open>'v\<close>, accounts and trustlines what
  authenticates them and what the Stellar asset contract reads of them; the other entries are opaque to the
  storage and identified by a digest. Thresholds are the four bytes of an account's thresholds, in the
  order master, low, medium, high. The fields of an entry that no modelled code reads are left out.
\<close>

datatype signer_key = Ed25519Signer hash | OtherSigner hash

record liabilities =
  li_buying :: "64 word"
  li_selling :: "64 word"

text \<open>The numbers of sponsored and sponsoring entries, of the second extension of an account.\<close>

record account_sponsorship =
  ext2_num_sponsored :: u32
  ext2_num_sponsoring :: u32

datatype account_ext = AccountV0 | AccountV1 liabilities "account_sponsorship option"

record account_entry =
  ae_account_id :: hash
  ae_balance :: "64 word"
  ae_num_sub_entries :: u32
  ae_flags :: u32
  ae_ext :: account_ext
  ae_thresholds :: "8 word list"
  ae_signers :: "(signer_key \<times> u32) list"

record trustline_entry =
  tl_account_id :: hash
  tl_asset :: trustline_asset
  tl_balance :: "64 word"
  tl_limit :: "64 word"
  tl_flags :: u32
  tl_ext :: "liabilities option"

datatype 'v ledger_entry =
    AccountE account_entry
  | TrustlineE trustline_entry
  | ContractDataE address sc_val durability 'v
  | ContractCodeE hash
  | OfferE hash
  | DataE hash
  | ClaimableBalanceE hash
  | LiquidityPoolE hash
  | ConfigSettingE hash
  | TtlE hash

type_synonym footprint = "(ledger_key, access_type) omap"
type_synonym 'v entry_live = "'v ledger_entry \<times> u32 option"
type_synonym 'v storage_map = "(ledger_key, 'v entry_live option) omap"
type_synonym 'v snapshot = "ledger_key \<Rightarrow> error + 'v entry_live option"

datatype 'v footprint_mode = Recording "'v snapshot" | Enforcing

record 'v storage =
  st_footprint :: footprint
  st_mode :: "'v footprint_mode"
  st_map :: "'v storage_map"

type_synonym ('v, 'a) storage_op = "('v storage, 'a) op"

definition of_result :: "error + 'a \<Rightarrow> ('s, 'a) op" where
  "of_result r s = (case r of Inl e \<Rightarrow> Inl e | Inr a \<Rightarrow> Inr (a, s))"

definition get_key_durability :: "ledger_key \<Rightarrow> durability option" where
  "get_key_durability k =
     (case k of
        LKContractData _ _ d \<Rightarrow> Some d
      | LKContractCode _ \<Rightarrow> Some Persistent
      | _ \<Rightarrow> None)"

fun check_supported_ledger_entry_type :: "'v ledger_entry \<Rightarrow> error + unit" where
  "check_supported_ledger_entry_type (AccountE _) = Inr ()"
| "check_supported_ledger_entry_type (TrustlineE _) = Inr ()"
| "check_supported_ledger_entry_type (ContractDataE _ _ _ _) = Inr ()"
| "check_supported_ledger_entry_type (ContractCodeE _) = Inr ()"
| "check_supported_ledger_entry_type _ = Inl (HostErr EStorage InternalError)"

definition record_access :: "ledger_key \<Rightarrow> access_type \<Rightarrow> footprint \<Rightarrow> error + footprint" where
  "record_access key ty fp =
     (case omap_get compare_key key fp of
        Inl e \<Rightarrow> Inl e
      | Inr (Some existing) \<Rightarrow>
          (case (existing, ty) of
             (ReadOnly, ReadOnly) \<Rightarrow> Inr fp
           | (ReadOnly, ReadWrite) \<Rightarrow> omap_insert compare_key key ty fp
           | (ReadWrite, ReadOnly) \<Rightarrow> Inr fp
           | (ReadWrite, ReadWrite) \<Rightarrow> Inr fp)
      | Inr None \<Rightarrow> omap_insert compare_key key ty fp)"

definition enforce_access :: "ledger_key \<Rightarrow> access_type \<Rightarrow> footprint \<Rightarrow> error + unit" where
  "enforce_access key ty fp =
     (case omap_get compare_key key fp of
        Inl e \<Rightarrow> Inl e
      | Inr (Some existing) \<Rightarrow>
          (case (existing, ty) of
             (ReadOnly, ReadOnly) \<Rightarrow> Inr ()
           | (ReadOnly, ReadWrite) \<Rightarrow> Inl (HostErr EStorage ExceededLimit)
           | (ReadWrite, ReadOnly) \<Rightarrow> Inr ()
           | (ReadWrite, ReadWrite) \<Rightarrow> Inr ())
      | Inr None \<Rightarrow> Inl (HostErr EStorage ExceededLimit))"

definition with_enforcing_footprint_and_map ::
  "footprint \<Rightarrow> 'v storage_map \<Rightarrow> 'v storage" where
  "with_enforcing_footprint_and_map fp m =
     \<lparr>st_footprint = fp, st_mode = Enforcing, st_map = m\<rparr>"

definition with_recording_footprint :: "'v snapshot \<Rightarrow> 'v storage" where
  "with_recording_footprint src =
     \<lparr>st_footprint = omap_new, st_mode = Recording src, st_map = omap_new\<rparr>"

text \<open>The access a storage in either mode notes or checks before it touches its map.\<close>

definition access :: "ledger_key \<Rightarrow> access_type \<Rightarrow> ('v, unit) storage_op" where
  "access key ty s =
     (case st_mode s of
        Recording _ \<Rightarrow>
          (case record_access key ty (st_footprint s) of
             Inl e \<Rightarrow> Inl e
           | Inr fp \<Rightarrow> Inr ((), s\<lparr>st_footprint := fp\<rparr>))
      | Enforcing \<Rightarrow>
          (case enforce_access key ty (st_footprint s) of
             Inl e \<Rightarrow> Inl e
           | Inr _ \<Rightarrow> Inr ((), s)))"

definition map_insert :: "ledger_key \<Rightarrow> 'v entry_live option \<Rightarrow> ('v, unit) storage_op" where
  "map_insert key val s =
     (case omap_insert compare_key key val (st_map s) of
        Inl e \<Rightarrow> Inl e
      | Inr m \<Rightarrow> Inr ((), s\<lparr>st_map := m\<rparr>))"

definition read_through :: "ledger_key \<Rightarrow> ('v, unit) storage_op" where
  "read_through key s =
     (case st_mode s of
        Recording src \<Rightarrow>
          (case omap_contains_key compare_key key (st_map s) of
             Inl e \<Rightarrow> Inl e
           | Inr True \<Rightarrow> Inr ((), s)
           | Inr False \<Rightarrow>
               (case src key of
                  Inl e \<Rightarrow> Inl e
                | Inr value \<Rightarrow> map_insert key value s))
      | Enforcing \<Rightarrow> Inr ((), s))"

definition prepare_read_only_access :: "ledger_key \<Rightarrow> ('v, unit) storage_op" where
  "prepare_read_only_access key = then_op (access key ReadOnly) (read_through key)"

definition try_get_full :: "ledger_key \<Rightarrow> ('v, 'v entry_live option) storage_op" where
  "try_get_full key =
     then_op (of_result (check_supported_ledger_key_type key))
    (then_op (prepare_read_only_access key)
    (bind_op (\<lambda>s. of_result (omap_get compare_key key (st_map s)) s) (\<lambda>r.
     case r of
       None \<Rightarrow> fail (HostErr EStorage InternalError)
     | Some pair_option \<Rightarrow> ret pair_option)))"

definition decorate_storage_error :: "error \<Rightarrow> error" where
  "decorate_storage_error err =
     (case err of
        HostErr t c \<Rightarrow>
          if t \<noteq> EStorage then err
          else if c \<noteq> ExceededLimit \<and> c \<noteq> MissingValue then err
          else if c = ExceededLimit then HostErr EStorage ExceededLimit
          else HostErr EStorage MissingValue
      | _ \<Rightarrow> err)"

definition decorated :: "('s, 'a) op \<Rightarrow> ('s, 'a) op" where
  "decorated m s = (case m s of Inl e \<Rightarrow> Inl (decorate_storage_error e) | Inr r \<Rightarrow> Inr r)"

definition try_get_full_with_host :: "ledger_key \<Rightarrow> ('v, 'v entry_live option) storage_op" where
  "try_get_full_with_host key = decorated (try_get_full key)"

definition some_or_missing :: "'a option \<Rightarrow> ('s, 'a) op" where
  "some_or_missing = ok_or (HostErr EStorage MissingValue)"

definition st_get :: "ledger_key \<Rightarrow> ('v, 'v ledger_entry) storage_op" where
  "st_get key = bind_op (try_get_full key) (\<lambda>e. bind_op (some_or_missing e) (\<lambda>p. ret (fst p)))"

definition get_with_host :: "ledger_key \<Rightarrow> ('v, 'v ledger_entry) storage_op" where
  "get_with_host key =
     bind_op (try_get_full_with_host key)
       (\<lambda>e. decorated (bind_op (some_or_missing e) (\<lambda>p. ret (fst p))))"

definition try_get :: "ledger_key \<Rightarrow> ('v, 'v ledger_entry option) storage_op" where
  "try_get key = bind_op (try_get_full_with_host key) (\<lambda>e. ret (map_option fst e))"

definition get_with_live_until_ledger :: "ledger_key \<Rightarrow> ('v, 'v entry_live) storage_op" where
  "get_with_live_until_ledger key =
     decorated (bind_op (try_get_full_with_host key) some_or_missing)"

definition put_opt :: "ledger_key \<Rightarrow> 'v entry_live option \<Rightarrow> ('v, unit) storage_op" where
  "put_opt key val =
     then_op (of_result (check_supported_ledger_key_type key))
    (then_op (case val of
                None \<Rightarrow> ret ()
              | Some le \<Rightarrow> of_result (check_supported_ledger_entry_type (fst le)))
    (then_op (access key ReadWrite)
    (map_insert key val)))"

definition put_opt_with_host ::
  "ledger_key \<Rightarrow> 'v entry_live option \<Rightarrow> ('v, unit) storage_op" where
  "put_opt_with_host key val = decorated (put_opt key val)"

definition st_put ::
  "ledger_key \<Rightarrow> 'v ledger_entry \<Rightarrow> u32 option \<Rightarrow> ('v, unit) storage_op" where
  "st_put key val live_until = put_opt key (Some (val, live_until))"

definition put_with_host ::
  "ledger_key \<Rightarrow> 'v ledger_entry \<Rightarrow> u32 option \<Rightarrow> ('v, unit) storage_op" where
  "put_with_host key val live_until = put_opt_with_host key (Some (val, live_until))"

definition st_del :: "ledger_key \<Rightarrow> ('v, unit) storage_op" where
  "st_del key = put_opt key None"

definition del_with_host :: "ledger_key \<Rightarrow> ('v, unit) storage_op" where
  "del_with_host key = decorated (put_opt_with_host key None)"

definition st_has :: "ledger_key \<Rightarrow> ('v, bool) storage_op" where
  "st_has key =
     then_op (of_result (check_supported_ledger_key_type key))
    (then_op (prepare_read_only_access key)
    (bind_op (\<lambda>s. of_result (omap_get compare_key key (st_map s)) s) (\<lambda>r.
     bind_op (ok_or (HostErr EStorage InternalError) r) (\<lambda>e. ret (e \<noteq> None)))))"

definition has_with_host :: "ledger_key \<Rightarrow> ('v, bool) storage_op" where
  "has_with_host key = bind_op (try_get_full_with_host key) (\<lambda>e. ret (e \<noteq> None))"

definition st_extend_ttl ::
  "ledger_info \<Rightarrow> ledger_key \<Rightarrow> u32 \<Rightarrow> u32 \<Rightarrow> ('v, unit) storage_op" where
  "st_extend_ttl li key threshold extend_to =
     then_op (of_result (check_supported_ledger_key_type key))
    (if extend_to < threshold then fail (HostErr EStorage InvalidInput)
     else
     bind_op (get_with_live_until_ledger key) (\<lambda>(entry, live).
     bind_op (ok_or (HostErr EStorage InternalError) live) (\<lambda>old_live_until.
     if old_live_until < sequence_number li then fail (HostErr EStorage InternalError)
     else
     bind_op (ok_or (HostErr EContext InternalError)
                (checked_add (sequence_number li) extend_to)) (\<lambda>new0.
     bind_op (of_result (max_live_until_ledger li)) (\<lambda>max_live.
     bind_op (if max_live < new0
              then (case get_key_durability key of
                      Some Persistent \<Rightarrow> ret max_live
                    | Some Temporary \<Rightarrow> fail (HostErr EStorage InvalidAction)
                    | None \<Rightarrow> fail (HostErr EStorage InternalError))
              else ret new0) (\<lambda>new_live_until.
     if old_live_until < new_live_until \<and>
        saturating_sub old_live_until (sequence_number li) \<le> threshold
     then map_insert key (Some (entry, Some new_live_until))
     else ret ()))))))"

definition get_snapshot_value :: "ledger_key \<Rightarrow> ('v, 'v entry_live option) storage_op" where
  "get_snapshot_value key s =
     (case st_mode s of
        Recording snapshot \<Rightarrow> of_result (snapshot key) s
      | Enforcing \<Rightarrow> Inl (HostErr EStorage InternalError))"

end
