(* ===== verification/Auth_Manager.thy ===== *)
theory Auth_Manager
  imports Auth_Tree_Inv
begin

text \<open>
  The state of the authorization manager (\<open>auth.rs\<close>) and the operations on it that need nothing
  else of the host: building it from the entries of a transaction, its snapshots and rollback,
  the frames it follows, and the authorization by invoking contracts. The requests that
  authenticate and consume nonces are in \<open>Host_Auth\<close>.

  The account trackers live in cells that are borrowed while their tracker is authenticating;
  \<open>tc_borrowed\<close> is that state of the cell. The other cells of the code are borrowed for the time
  of a step only. The call stack and the match stacks have their top last, as in the code.
\<close>

section \<open>State\<close>

record account_tracker =
  at_address :: address
  at_invocation :: invocation_tracker
  at_signature :: sc_val
  at_is_source :: bool
  at_verified :: bool
  at_nonce :: "(64 word \<times> u32) option"

record tracker_cell =
  tc_tracker :: account_tracker
  tc_borrowed :: bool

record invoker_tracker =
  iv_contract :: address
  iv_invocation :: invocation_tracker

datatype auth_stack_frame =
    ContractFrame address symbol
  | CreateContractFrame create_contract_args

record recording_auth_info =
  rec_handles :: "u32 \<rightharpoonup> nat"
  rec_disable_non_root_auth :: bool

datatype authorization_mode = EnforcingAuth | RecordingAuth recording_auth_info

record auth_manager =
  am_mode :: authorization_mode
  am_accounts :: "tracker_cell list"
  am_invokers :: "invoker_tracker list"
  am_call_stack :: "auth_stack_frame list"

type_synonym account_snapshot = "authorized_invocation_snapshot \<times> bool"

datatype account_trackers_snapshot =
    EnforcingSnapshot "account_snapshot option list"
  | RecordingSnapshot "tracker_cell list"

record auth_manager_snapshot =
  ams_accounts :: account_trackers_snapshot
  ams_invokers :: "authorized_invocation_snapshot list"
  ams_handles :: "(u32 \<rightharpoonup> nat) option"

section \<open>Authorization entries\<close>

datatype credentials =
    SourceAccountCredentials
  | AddressCredentials address "64 word" u32 sc_val

record authorization_entry =
  ae_credentials :: credentials
  ae_root_invocation :: xdr_invocation

text \<open>\<open>source\<close> is the source account of the transaction, if the host knows one.\<close>

definition from_authorization_entry ::
  "address option \<Rightarrow> authorization_entry \<Rightarrow> error + account_tracker" where
  "from_authorization_entry source entry =
     (case ae_credentials entry of
        SourceAccountCredentials \<Rightarrow>
          (case source of
             None \<Rightarrow> Inl (HostErr EAuth InternalError)
           | Some a \<Rightarrow>
               Inr \<lparr>at_address = a, at_invocation = tracker_from_xdr (ae_root_invocation entry),
                    at_signature = VoidV, at_is_source = True, at_verified = False, at_nonce = None\<rparr>)
      | AddressCredentials a nonce expiration signature \<Rightarrow>
          Inr \<lparr>at_address = a, at_invocation = tracker_from_xdr (ae_root_invocation entry),
               at_signature = signature, at_is_source = False, at_verified = False,
               at_nonce = Some (nonce, expiration)\<rparr>)"

definition new_enforcing_without_authorizations :: auth_manager where
  "new_enforcing_without_authorizations =
     \<lparr>am_mode = EnforcingAuth, am_accounts = [], am_invokers = [], am_call_stack = []\<rparr>"

fun new_enforcing_trackers ::
  "address option \<Rightarrow> authorization_entry list \<Rightarrow> error + tracker_cell list" where
  "new_enforcing_trackers source [] = Inr []"
| "new_enforcing_trackers source (entry # entries) =
     (case from_authorization_entry source entry of
        Inl e \<Rightarrow> Inl e
      | Inr t \<Rightarrow>
          (case new_enforcing_trackers source entries of
             Inl e \<Rightarrow> Inl e
           | Inr ts \<Rightarrow> Inr (\<lparr>tc_tracker = t, tc_borrowed = False\<rparr> # ts)))"

definition new_enforcing :: "address option \<Rightarrow> authorization_entry list \<Rightarrow> error + auth_manager" where
  "new_enforcing source entries =
     (case new_enforcing_trackers source entries of
        Inl e \<Rightarrow> Inl e
      | Inr ts \<Rightarrow> Inr \<lparr>am_mode = EnforcingAuth, am_accounts = ts, am_invokers = [], am_call_stack = []\<rparr>)"

definition new_recording :: "bool \<Rightarrow> auth_manager" where
  "new_recording disable_non_root_auth =
     \<lparr>am_mode = RecordingAuth \<lparr>rec_handles = Map.empty, rec_disable_non_root_auth = disable_non_root_auth\<rparr>,
      am_accounts = [], am_invokers = [], am_call_stack = []\<rparr>"

section \<open>Account trackers\<close>

definition account_push_frame :: "account_tracker \<Rightarrow> account_tracker" where
  "account_push_frame t = t\<lparr>at_invocation := tracker_push_frame (at_invocation t)\<rparr>"

definition account_pop_frame :: "account_tracker \<Rightarrow> account_tracker" where
  "account_pop_frame t = t\<lparr>at_invocation := tracker_pop_frame (at_invocation t)\<rparr>"

definition account_snapshot :: "account_tracker \<Rightarrow> account_snapshot" where
  "account_snapshot t = (tracker_snapshot (at_invocation t), at_verified t)"

definition account_rollback :: "account_tracker \<Rightarrow> account_snapshot \<Rightarrow> error + account_tracker" where
  "account_rollback t snap =
     (case tracker_rollback (at_invocation t) (fst snap) of
        Inl e \<Rightarrow> Inl e
      | Inr i \<Rightarrow> Inr (t\<lparr>at_invocation := i, at_verified := snd snap\<rparr>))"

definition account_is_active :: "account_tracker \<Rightarrow> bool" where
  "account_is_active t \<longleftrightarrow> tracker_is_active (at_invocation t)"

definition account_frame_is_already_matched :: "account_tracker \<Rightarrow> bool" where
  "account_frame_is_already_matched t \<longleftrightarrow> current_frame_is_already_matched (at_invocation t)"

definition account_record_invocation ::
  "authorized_function \<Rightarrow> account_tracker \<Rightarrow> error + account_tracker" where
  "account_record_invocation f t =
     (case tracker_record_invocation f (at_invocation t) of
        Inl e \<Rightarrow> Inl e
      | Inr i \<Rightarrow> Inr (t\<lparr>at_invocation := i\<rparr>))"

definition has_authorized_invocations_in_stack :: "account_tracker \<Rightarrow> bool" where
  "has_authorized_invocations_in_stack t \<longleftrightarrow> has_matched_invocations_in_stack (at_invocation t)"

definition root_invocation_to_xdr :: "account_tracker \<Rightarrow> xdr_invocation" where
  "root_invocation_to_xdr t = invocation_to_xdr False (it_root (at_invocation t))"

record recorded_auth_payload =
  rap_address :: "address option"
  rap_nonce :: "64 word option"
  rap_invocation :: xdr_invocation

definition get_recorded_auth_payload :: "account_tracker \<Rightarrow> recorded_auth_payload" where
  "get_recorded_auth_payload t =
     \<lparr>rap_address = (if \<not> at_is_source t then Some (at_address t) else None),
      rap_nonce = map_option fst (at_nonce t),
      rap_invocation = invocation_to_xdr False (it_root (at_invocation t))\<rparr>"

text \<open>An update of a cell that is skipped while the cell is borrowed.\<close>

definition if_free :: "(account_tracker \<Rightarrow> account_tracker) \<Rightarrow> tracker_cell \<Rightarrow> tracker_cell" where
  "if_free f c = (if tc_borrowed c then c else c\<lparr>tc_tracker := f (tc_tracker c)\<rparr>)"

section \<open>Trackers of invoking contracts\<close>

text \<open>
  The entries a contract passes to \<open>authorize_as_curr_contract\<close>, already converted from host
  values; a creation names its executable and salt.
\<close>

datatype invoker_auth_entry =
    InvokerContract address symbol "sc_val list" "invoker_auth_entry list"
  | InvokerCreateContract executable hash
  | InvokerCreateContractWithCtor executable hash "sc_val list"

definition invoker_create_contract ::
  "address \<Rightarrow> executable \<Rightarrow> hash \<Rightarrow> sc_val list \<Rightarrow> error + authorized_invocation" where
  "invoker_create_contract invoker exec salt args =
     (case exec of
        StellarAssetExec \<Rightarrow> Inl (HostErr EAuth InternalError)
      | WasmExec wasm_hash \<Rightarrow>
          Inr (invocation_new
            (CreateContractHostFn
              \<lparr>cca_preimage = PreimageAddress invoker salt, cca_executable = WasmExec wasm_hash,
               cca_constructor_args = args\<rparr>) []))"

fun to_authorized_invocation :: "address \<Rightarrow> invoker_auth_entry \<Rightarrow> error + authorized_invocation"
  and to_authorized_invocations :: "address \<Rightarrow> invoker_auth_entry list \<Rightarrow> error + authorized_invocation list"
  where
  "to_authorized_invocation invoker (InvokerContract c f args subs) =
     (case to_authorized_invocations invoker subs of
        Inl e \<Rightarrow> Inl e
      | Inr is \<Rightarrow> Inr (invocation_new (ContractFn c f args) is))"
| "to_authorized_invocation invoker (InvokerCreateContract exec salt) =
     invoker_create_contract invoker exec salt []"
| "to_authorized_invocation invoker (InvokerCreateContractWithCtor exec salt args) =
     invoker_create_contract invoker exec salt args"
| "to_authorized_invocations invoker [] = Inr []"
| "to_authorized_invocations invoker (entry # entries) =
     (case to_authorized_invocation invoker entry of
        Inl e \<Rightarrow> Inl e
      | Inr i \<Rightarrow>
          (case to_authorized_invocations invoker entries of Inl e \<Rightarrow> Inl e | Inr is \<Rightarrow> Inr (i # is)))"

definition new_with_curr_contract_as_invoker ::
  "hash \<Rightarrow> invoker_auth_entry \<Rightarrow> error + invoker_tracker" where
  "new_with_curr_contract_as_invoker contract_id entry =
     (case to_authorized_invocation (ContractAddr contract_id) entry of
        Inl e \<Rightarrow> Inl e
      | Inr i \<Rightarrow> Inr \<lparr>iv_contract = ContractAddr contract_id, iv_invocation = tracker_new i\<rparr>)"

definition invoker_push_frame :: "invoker_tracker \<Rightarrow> invoker_tracker" where
  "invoker_push_frame t = t\<lparr>iv_invocation := tracker_push_frame (iv_invocation t)\<rparr>"

definition invoker_pop_frame :: "invoker_tracker \<Rightarrow> invoker_tracker" where
  "invoker_pop_frame t = t\<lparr>iv_invocation := tracker_pop_frame (iv_invocation t)\<rparr>"

definition is_out_of_scope :: "invoker_tracker \<Rightarrow> bool" where
  "is_out_of_scope t \<longleftrightarrow> tracker_is_empty (iv_invocation t)"

definition invoker_maybe_authorize_invocation ::
  "authorized_function \<Rightarrow> invoker_tracker \<Rightarrow> error + (bool \<times> invoker_tracker)" where
  "invoker_maybe_authorize_invocation f t =
     (case maybe_extend_invocation_match f True (iv_invocation t) of
        Inl e \<Rightarrow> Inl e
      | Inr (b, i) \<Rightarrow> Inr (b, t\<lparr>iv_invocation := i\<rparr>))"

text \<open>
  \<open>add_invoker_contract_auth_with_curr_contract_as_invoker\<close>: the trackers created before an entry
  fails stay.
\<close>

fun add_invoker_contract_auth ::
  "hash \<Rightarrow> invoker_auth_entry list \<Rightarrow> auth_manager \<Rightarrow> (error + unit) \<times> auth_manager" where
  "add_invoker_contract_auth contract_id [] m = (Inr (), m)"
| "add_invoker_contract_auth contract_id (entry # entries) m =
     (case new_with_curr_contract_as_invoker contract_id entry of
        Inl e \<Rightarrow> (Inl e, m)
      | Inr t \<Rightarrow> add_invoker_contract_auth contract_id entries (m\<lparr>am_invokers := am_invokers m @ [t]\<rparr>))"

fun authorize_by_invokers ::
  "address \<Rightarrow> authorized_function \<Rightarrow> invoker_tracker list \<Rightarrow> error + (bool \<times> invoker_tracker list)" where
  "authorize_by_invokers a f [] = Inr (False, [])"
| "authorize_by_invokers a f (t # ts) =
     (case (if compare_address (iv_contract t) a = Equal
            then invoker_maybe_authorize_invocation f t else Inr (False, t)) of
        Inl e \<Rightarrow> Inl e
      | Inr (True, t') \<Rightarrow> Inr (True, t' # ts)
      | Inr (False, t') \<Rightarrow>
          (case authorize_by_invokers a f ts of
             Inl e \<Rightarrow> Inl e
           | Inr (b, ts') \<Rightarrow> Inr (b, t' # ts')))"

text \<open>The direct invoker of a call has authorized it; other contracts need a tracker.\<close>

definition maybe_check_invoker_contract_auth ::
  "address \<Rightarrow> authorized_function \<Rightarrow> auth_manager \<Rightarrow> error + (bool \<times> auth_manager)" where
  "maybe_check_invoker_contract_auth a f m =
     (if length (am_call_stack m) < 2 then Inr (False, m)
      else
        let by_trackers =
              (case authorize_by_invokers a f (am_invokers m) of
                 Inl e \<Rightarrow> Inl e
               | Inr (b, ts) \<Rightarrow> Inr (b, m\<lparr>am_invokers := ts\<rparr>))
        in case am_call_stack m ! (length (am_call_stack m) - 2) of
             ContractFrame c _ \<Rightarrow>
               if compare_address c a = Equal then Inr (True, m) else by_trackers
           | CreateContractFrame _ \<Rightarrow> by_trackers)"

section \<open>Snapshots and frames\<close>

definition am_snapshot :: "auth_manager \<Rightarrow> auth_manager_snapshot" where
  "am_snapshot m =
     \<lparr>ams_accounts =
        (case am_mode m of
           EnforcingAuth \<Rightarrow> EnforcingSnapshot
             (map (\<lambda>c. if tc_borrowed c then None else Some (account_snapshot (tc_tracker c))) (am_accounts m))
         | RecordingAuth _ \<Rightarrow> RecordingSnapshot (am_accounts m)),
      ams_invokers = map (\<lambda>t. tracker_snapshot (iv_invocation t)) (am_invokers m),
      ams_handles =
        (case am_mode m of EnforcingAuth \<Rightarrow> None | RecordingAuth info \<Rightarrow> Some (rec_handles info))\<rparr>"

text \<open>A loop that updates elements side by side with a second list and stops at an error.\<close>

fun update_each :: "('a \<Rightarrow> 'b \<Rightarrow> error + 'a) \<Rightarrow> 'a list \<Rightarrow> 'b list \<Rightarrow> (error + unit) \<times> 'a list" where
  "update_each f (x # xs) (y # ys) =
     (case f x y of
        Inl e \<Rightarrow> (Inl e, x # xs)
      | Inr x' \<Rightarrow> (let (r, xs') = update_each f xs ys in (r, x' # xs')))"
| "update_each f xs ys = (Inr (), xs)"

definition rollback_cell :: "tracker_cell \<Rightarrow> account_snapshot option \<Rightarrow> error + tracker_cell" where
  "rollback_cell c snap =
     (case snap of
        None \<Rightarrow> Inr c
      | Some s \<Rightarrow>
          if tc_borrowed c then Inl (HostErr EAuth InternalError)
          else (case account_rollback (tc_tracker c) s of
                  Inl e \<Rightarrow> Inl e
                | Inr t \<Rightarrow> Inr (c\<lparr>tc_tracker := t\<rparr>)))"

definition rollback_invoker ::
  "invoker_tracker \<Rightarrow> authorized_invocation_snapshot \<Rightarrow> error + invoker_tracker" where
  "rollback_invoker t snap =
     (case tracker_rollback (iv_invocation t) snap of
        Inl e \<Rightarrow> Inl e
      | Inr i \<Rightarrow> Inr (t\<lparr>iv_invocation := i\<rparr>))"

definition rollback_accounts ::
  "account_trackers_snapshot \<Rightarrow> auth_manager \<Rightarrow> (error + unit) \<times> auth_manager" where
  "rollback_accounts snap m =
     (case snap of
        EnforcingSnapshot snaps \<Rightarrow>
          if length (am_accounts m) \<noteq> length snaps then (Inl (HostErr EAuth InternalError), m)
          else let (r, cells) = update_each rollback_cell (am_accounts m) snaps
               in (r, m\<lparr>am_accounts := cells\<rparr>)
      | RecordingSnapshot cells \<Rightarrow> (Inr (), m\<lparr>am_accounts := cells\<rparr>))"

definition rollback_invokers ::
  "authorized_invocation_snapshot list \<Rightarrow> auth_manager \<Rightarrow> (error + unit) \<times> auth_manager" where
  "rollback_invokers snaps m =
     (if length (am_invokers m) \<noteq> length snaps then (Inl (HostErr EAuth InternalError), m)
      else let (r, ts) = update_each rollback_invoker (am_invokers m) snaps
           in (r, m\<lparr>am_invokers := ts\<rparr>))"

definition rollback_handles :: "(u32 \<rightharpoonup> nat) option \<Rightarrow> auth_manager \<Rightarrow> auth_manager" where
  "rollback_handles handles m =
     (case (handles, am_mode m) of
        (Some hs, RecordingAuth info) \<Rightarrow> m\<lparr>am_mode := RecordingAuth (info\<lparr>rec_handles := hs\<rparr>)\<rparr>
      | _ \<Rightarrow> m)"

definition am_rollback :: "auth_manager_snapshot \<Rightarrow> auth_manager \<Rightarrow> (error + unit) \<times> auth_manager" where
  "am_rollback snap m =
     (case rollback_accounts (ams_accounts snap) m of
        (Inl e, m') \<Rightarrow> (Inl e, m')
      | (Inr _, m') \<Rightarrow>
          (case rollback_invokers (ams_invokers snap) m' of
             (Inl e, m'') \<Rightarrow> (Inl e, m'')
           | (Inr _, m'') \<Rightarrow> (Inr (), rollback_handles (ams_handles snap) m'')))"

definition push_tracker_frame :: "auth_manager \<Rightarrow> auth_manager" where
  "push_tracker_frame m =
     m\<lparr>am_accounts := map (if_free account_push_frame) (am_accounts m),
       am_invokers := map invoker_push_frame (am_invokers m)\<rparr>"

definition push_create_contract_host_fn_frame :: "create_contract_args \<Rightarrow> auth_manager \<Rightarrow> auth_manager" where
  "push_create_contract_host_fn_frame args m =
     push_tracker_frame (m\<lparr>am_call_stack := am_call_stack m @ [CreateContractFrame args]\<rparr>)"

text \<open>
  The frame of a contract call is given by the contract and function; \<open>None\<close> is the frame of a
  host function, which is not followed.
\<close>

definition am_push_frame ::
  "(hash \<times> symbol) option \<Rightarrow> auth_manager \<Rightarrow> auth_manager_snapshot \<times> auth_manager" where
  "am_push_frame call m =
     (case call of
        None \<Rightarrow> (am_snapshot m, m)
      | Some (contract_id, function_name) \<Rightarrow>
          (let m' = push_tracker_frame
                      (m\<lparr>am_call_stack := am_call_stack m @ [ContractFrame (ContractAddr contract_id) function_name]\<rparr>)
           in (am_snapshot m', m')))"

definition drop_out_of_scope :: "invoker_tracker list \<Rightarrow> invoker_tracker list" where
  "drop_out_of_scope ts = rev (dropWhile is_out_of_scope (rev ts))"

definition pop_tracker_frame :: "auth_manager \<Rightarrow> auth_manager" where
  "pop_tracker_frame m =
     (if am_call_stack m = [] then m
      else m\<lparr>am_call_stack := butlast (am_call_stack m),
             am_accounts := map (if_free account_pop_frame) (am_accounts m),
             am_invokers := drop_out_of_scope (map invoker_pop_frame (am_invokers m))\<rparr>)"

definition am_pop_frame ::
  "auth_manager_snapshot option \<Rightarrow> auth_manager \<Rightarrow> (error + unit) \<times> auth_manager" where
  "am_pop_frame snap m =
     (case snap of
        None \<Rightarrow> (Inr (), pop_tracker_frame m)
      | Some s \<Rightarrow>
          (case am_rollback s m of
             (Inl e, m') \<Rightarrow> (Inl e, m')
           | (Inr _, m') \<Rightarrow> (Inr (), pop_tracker_frame m')))"

section \<open>What is authorized\<close>

fun to_authorized_function :: "auth_stack_frame \<Rightarrow> sc_val list \<Rightarrow> authorized_function" where
  "to_authorized_function (ContractFrame c f) args = ContractFn c f args"
| "to_authorized_function (CreateContractFrame x) args = CreateContractHostFn x"

definition has_active_tracker :: "address \<Rightarrow> auth_manager \<Rightarrow> bool" where
  "has_active_tracker a m \<longleftrightarrow>
     list_ex (\<lambda>c. \<not> tc_borrowed c \<and> compare_address (at_address (tc_tracker c)) a = Equal \<and>
                 account_is_active (tc_tracker c) \<and>
                 \<not> account_frame_is_already_matched (tc_tracker c)) (am_accounts m)"

definition get_recorded_auth_payloads :: "auth_manager \<Rightarrow> error + recorded_auth_payload list" where
  "get_recorded_auth_payloads m =
     (case am_mode m of
        EnforcingAuth \<Rightarrow> Inl (HostErr EAuth InternalError)
      | RecordingAuth _ \<Rightarrow>
          if list_ex tc_borrowed (am_accounts m) then Inl (HostErr EContext InternalError)
          else Inr (map (\<lambda>c. get_recorded_auth_payload (tc_tracker c)) (am_accounts m)))"

end
