(* ===== verification/Host_Data.thy ===== *)
theory Host_Data
  imports Host_Storage Auth_Manager
begin

text \<open>
  The host of a running invocation and its contract-data functions (\<open>host.rs\<close>,
  \<open>host/data_helper.rs\<close>, \<open>host/conversion.rs\<close>, \<open>host/lifecycle.rs\<close>), with the frames and the
  rollback of \<open>host/frame.rs\<close> and the events buffer of \<open>events/internal.rs\<close>. Host objects and
  their conversion to XDR values are the identity here: a value is its \<open>ScVal\<close>. Not modelled:
  the budget, the pseudo-random generators, lifecycle hooks, the emulation of authentication at
  the end of a recorded invocation and the code compiled for tests. An operation that fails leaves the state it was given,
  except \<open>with_frame\<close>, which runs its body on the state and rolls back what the code rolls back.
\<close>

section \<open>The state of the host\<close>

type_synonym 'v scmap = "(sc_val, 'v) omap"

record 'v contract_instance =
  inst_executable :: executable
  inst_storage :: "'v scmap option"

text \<open>The values of contract data entries: a contract's own data, or a contract instance.\<close>

datatype 'v stored = DataVal 'v | InstanceVal "'v contract_instance"

record 'v instance_storage_map =
  ism_map :: "'v scmap"
  ism_modified :: bool

datatype 'v frame =
    ContractVM hash symbol "sc_val list" "'v contract_instance"
  | HostFunctionFrame
  | StellarAssetContract hash symbol "sc_val list" "'v contract_instance"

record 'v ctxt =
  ctx_frame :: "'v frame"
  ctx_storage :: "'v instance_storage_map option"

datatype internal_event =
    ContractEv "hash option" event
  | DiagnosticEv "hash option" event

datatype event_error = FromFailedCall | FromSuccessfulCall

text \<open>
  \<open>h_stack\<close> is the context stack with its top first, \<open>h_source_account\<close> the source account of the
  transaction.
\<close>

record 'v host =
  h_storage :: "'v stored storage"
  h_ledger :: ledger_info
  h_stack :: "'v ctxt list"
  h_events :: "(internal_event \<times> event_error) list"
  h_debug :: bool
  h_auth :: auth_manager
  h_source_account :: "address option"

type_synonym ('v, 'a) host_op = "('v host, 'a) op"

definition on_storage :: "('v stored, 'a) storage_op \<Rightarrow> ('v, 'a) host_op" where
  "on_storage f h =
     (case f (h_storage h) of
        Inl e \<Rightarrow> Inl e
      | Inr (a, s) \<Rightarrow> Inr (a, h\<lparr>h_storage := s\<rparr>))"

section \<open>The current frame\<close>

fun contract_id :: "'v frame \<Rightarrow> hash option" where
  "contract_id (ContractVM h _ _ _) = Some h"
| "contract_id HostFunctionFrame = None"
| "contract_id (StellarAssetContract h _ _ _) = Some h"

fun frame_instance :: "'v frame \<Rightarrow> 'v contract_instance option" where
  "frame_instance (ContractVM _ _ _ i) = Some i"
| "frame_instance HostFunctionFrame = None"
| "frame_instance (StellarAssetContract _ _ _ i) = Some i"

text \<open>The contract and function of a frame that the authorization manager follows.\<close>

fun frame_call :: "'v frame \<Rightarrow> (hash \<times> symbol) option" where
  "frame_call (ContractVM h f _ _) = Some (h, f)"
| "frame_call HostFunctionFrame = None"
| "frame_call (StellarAssetContract h f _ _) = Some (h, f)"

fun frame_args :: "'v frame \<Rightarrow> sc_val list option" where
  "frame_args (ContractVM _ _ args _) = Some args"
| "frame_args HostFunctionFrame = None"
| "frame_args (StellarAssetContract _ _ args _) = Some args"

definition get_current_contract_id_opt_internal :: "'v host \<Rightarrow> hash option" where
  "get_current_contract_id_opt_internal h =
     (case h_stack h of [] \<Rightarrow> None | c # _ \<Rightarrow> contract_id (ctx_frame c))"

definition get_current_contract_id_internal :: "('v, hash) host_op" where
  "get_current_contract_id_internal h =
     ok_or (HostErr EContext InternalError) (get_current_contract_id_opt_internal h) h"

definition with_current_context_mut :: "('v ctxt \<Rightarrow> error + ('a \<times> 'v ctxt)) \<Rightarrow> ('v, 'a) host_op" where
  "with_current_context_mut f h =
     (case h_stack h of
        [] \<Rightarrow> Inl (HostErr EContext InternalError)
      | c # cs \<Rightarrow>
          (case f c of
             Inl e \<Rightarrow> Inl e
           | Inr (a, c') \<Rightarrow> Inr (a, h\<lparr>h_stack := c' # cs\<rparr>)))"

section \<open>Instance storage\<close>

text \<open>The order of \<open>Val\<close>s, which is that of the values they stand for.\<close>

definition compare_host_val :: "sc_val compare" where
  "compare_host_val a b = Inr (compare_val a b)"

definition instance_storage_from_map :: "'v scmap \<Rightarrow> error + 'v instance_storage_map" where
  "instance_storage_from_map m =
     (case omap_from_map compare_host_val m of
        Inl e \<Rightarrow> Inl e
      | Inr m' \<Rightarrow> Inr \<lparr>ism_map = m', ism_modified = False\<rparr>)"

definition maybe_init_instance_storage :: "'v ctxt \<Rightarrow> error + 'v ctxt" where
  "maybe_init_instance_storage ctx =
     (case ctx_storage ctx of
        Some _ \<Rightarrow> Inr ctx
      | None \<Rightarrow>
          (case frame_instance (ctx_frame ctx) of
             None \<Rightarrow> Inl (HostErr EContext InternalError)
           | Some inst \<Rightarrow>
               (case instance_storage_from_map
                       (case inst_storage inst of None \<Rightarrow> [] | Some m \<Rightarrow> m) of
                  Inl e \<Rightarrow> Inl e
                | Inr st \<Rightarrow> Inr (ctx\<lparr>ctx_storage := Some st\<rparr>))))"

definition with_instance_storage ::
  "('v instance_storage_map \<Rightarrow> error + 'a) \<Rightarrow> ('v, 'a) host_op" where
  "with_instance_storage f =
     with_current_context_mut (\<lambda>ctx.
       case maybe_init_instance_storage ctx of
         Inl e \<Rightarrow> Inl e
       | Inr ctx' \<Rightarrow>
           (case ctx_storage ctx' of
              None \<Rightarrow> Inl (HostErr EContext InternalError)
            | Some st \<Rightarrow> (case f st of Inl e \<Rightarrow> Inl e | Inr a \<Rightarrow> Inr (a, ctx'))))"

definition with_mut_instance_storage ::
  "('v instance_storage_map \<Rightarrow> error + ('a \<times> 'v instance_storage_map)) \<Rightarrow> ('v, 'a) host_op" where
  "with_mut_instance_storage f =
     with_current_context_mut (\<lambda>ctx.
       case maybe_init_instance_storage ctx of
         Inl e \<Rightarrow> Inl e
       | Inr ctx' \<Rightarrow>
           (case ctx_storage ctx' of
              None \<Rightarrow> Inl (HostErr EContext InternalError)
            | Some st \<Rightarrow>
                (case f (st\<lparr>ism_modified := True\<rparr>) of
                   Inl e \<Rightarrow> Inl e
                 | Inr (a, st') \<Rightarrow> Inr (a, ctx'\<lparr>ctx_storage := Some st'\<rparr>))))"

section \<open>Contract instances and code\<close>

definition contract_instance_ledger_key :: "hash \<Rightarrow> ledger_key" where
  "contract_instance_ledger_key cid =
     LKContractData (ContractAddr cid) LedgerKeyContractInstanceV Persistent"

definition retrieve_contract_instance_from_storage :: "ledger_key \<Rightarrow> ('v, 'v contract_instance) host_op" where
  "retrieve_contract_instance_from_storage key =
     bind_op (on_storage (get_with_host key)) (\<lambda>entry.
       case entry of
         ContractDataE _ _ _ (InstanceVal inst) \<Rightarrow> ret inst
       | _ \<Rightarrow> fail (HostErr EStorage InternalError))"

definition contract_code_ledger_key :: "hash \<Rightarrow> ledger_key" where
  "contract_code_ledger_key wasm_hash = LKContractCode wasm_hash"

definition retrieve_wasm_from_storage :: "hash \<Rightarrow> ('v, hash) host_op" where
  "retrieve_wasm_from_storage wasm_hash =
     bind_op (on_storage (get_with_host (contract_code_ledger_key wasm_hash))) (\<lambda>entry.
       case entry of
         ContractCodeE code \<Rightarrow> ret code
       | _ \<Rightarrow> fail (HostErr EStorage InternalError))"

definition wasm_exists :: "hash \<Rightarrow> ('v, bool) host_op" where
  "wasm_exists wasm_hash = on_storage (has_with_host (contract_code_ledger_key wasm_hash))"

text \<open>
  An existing instance keeps the parts that are not given; a new one needs an executable and
  lives for the network's minimum.
\<close>

definition store_contract_instance ::
  "executable option \<Rightarrow> 'v scmap option \<Rightarrow> hash \<Rightarrow> ledger_key \<Rightarrow> ('v, unit) host_op" where
  "store_contract_instance exec storage cid key =
     bind_op (on_storage (has_with_host key)) (\<lambda>present.
     if present then
       bind_op (on_storage (get_with_live_until_ledger key)) (\<lambda>(current, live_until).
         case current of
           ContractDataE c k d (InstanceVal inst) \<Rightarrow>
             on_storage (put_with_host key
               (ContractDataE c k d (InstanceVal
                 (inst\<lparr>inst_executable := (case exec of Some e \<Rightarrow> e | None \<Rightarrow> inst_executable inst),
                       inst_storage := (case storage of Some m \<Rightarrow> Some m | None \<Rightarrow> inst_storage inst)\<rparr>)))
               live_until)
         | _ \<Rightarrow> fail (HostErr EStorage InternalError))
     else
       bind_op (ok_or (HostErr EContext InternalError) exec) (\<lambda>e.
       bind_op (\<lambda>h. of_result (get_min_live_until_ledger (h_ledger h) Persistent) h) (\<lambda>l.
         on_storage (put_with_host key
           (ContractDataE (ContractAddr cid) LedgerKeyContractInstanceV Persistent
             (InstanceVal \<lparr>inst_executable = e, inst_storage = storage\<rparr>))
           (Some l)))))"

definition storage_extend_ttl :: "ledger_key \<Rightarrow> u32 \<Rightarrow> u32 \<Rightarrow> ('v, unit) host_op" where
  "storage_extend_ttl key threshold extend_to h =
     on_storage (st_extend_ttl (h_ledger h) key threshold extend_to) h"

definition extend_contract_code_ttl_from_contract_id ::
  "ledger_key \<Rightarrow> u32 \<Rightarrow> u32 \<Rightarrow> ('v, unit) host_op" where
  "extend_contract_code_ttl_from_contract_id instance_key threshold extend_to =
     bind_op (retrieve_contract_instance_from_storage instance_key) (\<lambda>inst.
       case inst_executable inst of
         WasmExec wasm_hash \<Rightarrow>
           storage_extend_ttl (contract_code_ledger_key wasm_hash) threshold extend_to
       | StellarAssetExec \<Rightarrow> ret ())"

definition extend_contract_instance_ttl_from_contract_id ::
  "ledger_key \<Rightarrow> u32 \<Rightarrow> u32 \<Rightarrow> ('v, unit) host_op" where
  "extend_contract_instance_ttl_from_contract_id instance_key threshold extend_to =
     storage_extend_ttl instance_key threshold extend_to"

definition create_contract_with_id :: "hash \<Rightarrow> executable \<Rightarrow> ('v, unit) host_op" where
  "create_contract_with_id cid exec =
     bind_op (on_storage (has_with_host (contract_instance_ledger_key cid))) (\<lambda>present.
     if present then fail (HostErr EStorage ExistingValue)
     else
       then_op (case exec of
                  WasmExec wasm_hash \<Rightarrow>
                    bind_op (wasm_exists wasm_hash) (\<lambda>b.
                      if \<not> b then fail (HostErr EStorage MissingValue) else ret ())
                | StellarAssetExec \<Rightarrow> ret ())
         (store_contract_instance (Some exec) None cid (contract_instance_ledger_key cid)))"

section \<open>Contract data\<close>

datatype storage_type = TemporaryT | PersistentT | InstanceT

fun storage_durability :: "storage_type \<Rightarrow> error + durability" where
  "storage_durability TemporaryT = Inr Temporary"
| "storage_durability PersistentT = Inr Persistent"
| "storage_durability InstanceT = Inl ConversionError"

definition storage_key_for_address :: "address \<Rightarrow> sc_val \<Rightarrow> durability \<Rightarrow> ledger_key" where
  "storage_key_for_address c k d = LKContractData c k d"

definition storage_key_from_val :: "sc_val \<Rightarrow> durability \<Rightarrow> ('v, ledger_key) host_op" where
  "storage_key_from_val k d =
     bind_op get_current_contract_id_internal (\<lambda>cid. ret (storage_key_for_address (ContractAddr cid) k d))"

definition put_contract_data_into_ledger :: "sc_val \<Rightarrow> 'v \<Rightarrow> storage_type \<Rightarrow> ('v, unit) host_op" where
  "put_contract_data_into_ledger k v t =
     bind_op (of_result (storage_durability t)) (\<lambda>d.
     bind_op (storage_key_from_val k d) (\<lambda>key.
     bind_op (on_storage (has_with_host key)) (\<lambda>present.
     if present then
       bind_op (on_storage (get_with_live_until_ledger key)) (\<lambda>(current, live_until).
         case current of
           ContractDataE c k' d' _ \<Rightarrow>
             on_storage (put_with_host key (ContractDataE c k' d' (DataVal v)) live_until)
         | _ \<Rightarrow> fail (HostErr EStorage InternalError))
     else
       bind_op get_current_contract_id_internal (\<lambda>cid.
       bind_op (\<lambda>h. of_result (get_min_live_until_ledger (h_ledger h) d) h) (\<lambda>l.
         on_storage (put_with_host key (ContractDataE (ContractAddr cid) k d (DataVal v)) (Some l)))))))"

definition put_contract_data :: "sc_val \<Rightarrow> 'v \<Rightarrow> storage_type \<Rightarrow> ('v, unit) host_op" where
  "put_contract_data k v t =
     (case t of
        InstanceT \<Rightarrow>
          with_mut_instance_storage (\<lambda>s.
            case omap_insert compare_host_val k v (ism_map s) of
              Inl e \<Rightarrow> Inl e
            | Inr m \<Rightarrow> Inr ((), s\<lparr>ism_map := m\<rparr>))
      | _ \<Rightarrow> put_contract_data_into_ledger k v t)"

definition has_contract_data :: "sc_val \<Rightarrow> storage_type \<Rightarrow> ('v, bool) host_op" where
  "has_contract_data k t =
     (case t of
        InstanceT \<Rightarrow>
          with_instance_storage (\<lambda>s.
            case omap_get compare_host_val k (ism_map s) of
              Inl e \<Rightarrow> Inl e
            | Inr x \<Rightarrow> Inr (x \<noteq> None))
      | _ \<Rightarrow>
          bind_op (of_result (storage_durability t)) (\<lambda>d.
          bind_op (storage_key_from_val k d) (\<lambda>key. on_storage (has_with_host key))))"

definition get_contract_data :: "sc_val \<Rightarrow> storage_type \<Rightarrow> ('v, 'v stored) host_op" where
  "get_contract_data k t =
     (case t of
        InstanceT \<Rightarrow>
          with_instance_storage (\<lambda>s.
            case omap_get compare_host_val k (ism_map s) of
              Inl e \<Rightarrow> Inl e
            | Inr None \<Rightarrow> Inl (HostErr EStorage MissingValue)
            | Inr (Some v) \<Rightarrow> Inr (DataVal v))
      | _ \<Rightarrow>
          bind_op (of_result (storage_durability t)) (\<lambda>d.
          bind_op (storage_key_from_val k d) (\<lambda>key.
          bind_op (on_storage (get_with_host key)) (\<lambda>entry.
            case entry of
              ContractDataE _ _ _ v \<Rightarrow> ret v
            | _ \<Rightarrow> fail (HostErr EStorage InternalError)))))"

definition del_contract_data :: "sc_val \<Rightarrow> storage_type \<Rightarrow> ('v, unit) host_op" where
  "del_contract_data k t =
     (case t of
        InstanceT \<Rightarrow>
          with_mut_instance_storage (\<lambda>s.
            case omap_remove compare_host_val k (ism_map s) of
              Inl e \<Rightarrow> Inl e
            | Inr None \<Rightarrow> Inr ((), s)
            | Inr (Some (m, _)) \<Rightarrow> Inr ((), s\<lparr>ism_map := m\<rparr>))
      | _ \<Rightarrow>
          bind_op (of_result (storage_durability t)) (\<lambda>d.
          bind_op (storage_key_from_val k d) (\<lambda>key. on_storage (del_with_host key))))"

definition extend_contract_data_ttl ::
  "sc_val \<Rightarrow> storage_type \<Rightarrow> u32 \<Rightarrow> u32 \<Rightarrow> ('v, unit) host_op" where
  "extend_contract_data_ttl k t threshold extend_to =
     (if t = InstanceT then fail (HostErr EStorage InvalidAction)
      else
        bind_op (of_result (storage_durability t)) (\<lambda>d.
        bind_op (storage_key_from_val k d) (\<lambda>key. storage_extend_ttl key threshold extend_to)))"

definition extend_current_contract_instance_and_code_ttl :: "u32 \<Rightarrow> u32 \<Rightarrow> ('v, unit) host_op" where
  "extend_current_contract_instance_and_code_ttl threshold extend_to =
     bind_op get_current_contract_id_internal (\<lambda>cid.
       then_op (extend_contract_instance_ttl_from_contract_id
                  (contract_instance_ledger_key cid) threshold extend_to)
         (extend_contract_code_ttl_from_contract_id
            (contract_instance_ledger_key cid) threshold extend_to))"

text \<open>The same for the contract of an address, which has to be a contract's.\<close>

fun contract_id_from_scaddress :: "address \<Rightarrow> error + hash" where
  "contract_id_from_scaddress (AccountAddr _) = Inl (HostErr EObject InvalidInput)"
| "contract_id_from_scaddress (ContractAddr h) = Inr h"

definition extend_contract_instance_ttl :: "address \<Rightarrow> u32 \<Rightarrow> u32 \<Rightarrow> ('v, unit) host_op" where
  "extend_contract_instance_ttl contract threshold extend_to =
     bind_op (of_result (contract_id_from_scaddress contract)) (\<lambda>cid.
       extend_contract_instance_ttl_from_contract_id
         (contract_instance_ledger_key cid) threshold extend_to)"

definition extend_contract_instance_and_code_ttl :: "address \<Rightarrow> u32 \<Rightarrow> u32 \<Rightarrow> ('v, unit) host_op" where
  "extend_contract_instance_and_code_ttl contract threshold extend_to =
     bind_op (of_result (contract_id_from_scaddress contract)) (\<lambda>cid.
       then_op (extend_contract_instance_ttl_from_contract_id
                  (contract_instance_ledger_key cid) threshold extend_to)
         (extend_contract_code_ttl_from_contract_id
            (contract_instance_ledger_key cid) threshold extend_to))"

definition extend_contract_code_ttl :: "address \<Rightarrow> u32 \<Rightarrow> u32 \<Rightarrow> ('v, unit) host_op" where
  "extend_contract_code_ttl contract threshold extend_to =
     bind_op (of_result (contract_id_from_scaddress contract)) (\<lambda>cid.
       extend_contract_code_ttl_from_contract_id
         (contract_instance_ledger_key cid) threshold extend_to)"

section \<open>Events\<close>

definition record_event :: "bool \<Rightarrow> internal_event \<Rightarrow> (internal_event \<times> event_error) list \<Rightarrow>
    (internal_event \<times> event_error) list" where
  "record_event debug e buf =
     (case e of
        ContractEv _ _ \<Rightarrow> buf @ [(e, FromSuccessfulCall)]
      | DiagnosticEv _ _ \<Rightarrow> if debug then buf @ [(e, FromSuccessfulCall)] else buf)"

definition rollback_events :: "nat \<Rightarrow> (internal_event \<times> event_error) list \<Rightarrow>
    (internal_event \<times> event_error) list" where
  "rollback_events n buf = take n buf @ map (\<lambda>(e, _). (e, FromFailedCall)) (drop n buf)"

text \<open>The external events, each with the mark of a failed call.\<close>

definition externalize :: "bool \<Rightarrow> (internal_event \<times> event_error) list \<Rightarrow> (internal_event \<times> bool) list" where
  "externalize debug buf =
     concat (map (\<lambda>(e, status).
       case e of
         ContractEv _ _ \<Rightarrow> [(e, status = FromFailedCall)]
       | DiagnosticEv _ _ \<Rightarrow> if debug then [(e, status = FromFailedCall)] else []) buf)"

definition contract_event :: "sc_val list \<Rightarrow> sc_val \<Rightarrow> ('v, unit) host_op" where
  "contract_event topics payload h =
     Inr ((), h\<lparr>h_events := record_event (h_debug h)
                 (ContractEv (get_current_contract_id_opt_internal h) (Event topics payload))
                 (h_events h)\<rparr>)"

section \<open>Frames\<close>

record 'v rollback_point =
  rp_storage :: "'v stored storage_map"
  rp_events :: nat
  rp_auth :: auth_manager_snapshot

definition push_context :: "'v ctxt \<Rightarrow> ('v, 'v rollback_point) host_op" where
  "push_context ctx h =
     (let (auth_snapshot, m) = am_push_frame (frame_call (ctx_frame ctx)) (h_auth h)
      in Inr (\<lparr>rp_storage = st_map (h_storage h), rp_events = length (h_events h),
                rp_auth = auth_snapshot\<rparr>,
              h\<lparr>h_stack := ctx # h_stack h, h_auth := m\<rparr>))"

text \<open>
  The restoration of \<open>pop_context\<close>; an unmatched pop is an internal error, and so is an
  authorization manager that cannot be rolled back.
\<close>

definition pop_context :: "'v rollback_point option \<Rightarrow> 'v host \<Rightarrow> (error + 'v ctxt) \<times> 'v host" where
  "pop_context orp h =
     (let h' = (case orp of
                  None \<Rightarrow> h\<lparr>h_stack := tl (h_stack h)\<rparr>
                | Some rp \<Rightarrow>
                    h\<lparr>h_stack := tl (h_stack h),
                      h_storage := (h_storage h)\<lparr>st_map := rp_storage rp\<rparr>,
                      h_events := rollback_events (rp_events rp) (h_events h)\<rparr>)
      in case am_pop_frame (map_option rp_auth orp) (h_auth h') of
           (Inl e, m) \<Rightarrow> (Inl e, h'\<lparr>h_auth := m\<rparr>)
         | (Inr _, m) \<Rightarrow>
             (case h_stack h of [] \<Rightarrow> Inl (HostErr EContext InternalError) | c # _ \<Rightarrow> Inr c,
              h'\<lparr>h_auth := m\<rparr>))"

definition persist_instance_storage :: "('v, unit) host_op" where
  "persist_instance_storage h =
     (case h_stack h of
        [] \<Rightarrow> Inl (HostErr EContext InternalError)
      | ctx # _ \<Rightarrow>
          (case ctx_storage ctx of
             None \<Rightarrow> Inr ((), h)
           | Some st \<Rightarrow>
               if \<not> ism_modified st then Inr ((), h)
               else bind_op get_current_contract_id_internal (\<lambda>cid.
                      store_contract_instance None (Some (ism_map st)) cid
                        (contract_instance_ledger_key cid)) h))"

text \<open>
  A successful return value that is an error object is a failure: a contract's own error is
  escalated as it is, any other is an illegal return. \<open>as_error\<close> recognises error objects,
  \<open>is_contract_error\<close> those of type \<open>ScErrorType::Contract\<close>.
\<close>

definition frame_result :: "('r \<Rightarrow> error option) \<Rightarrow> (error \<Rightarrow> bool) \<Rightarrow> error + 'r \<Rightarrow> error + 'r" where
  "frame_result as_error is_contract_error res =
     (case res of
        Inl e \<Rightarrow> Inl e
      | Inr v \<Rightarrow>
          (case as_error v of
             None \<Rightarrow> Inr v
           | Some err \<Rightarrow>
               if is_contract_error err then Inl err else Inl (HostErr EContext InvalidAction)))"

definition with_frame ::
  "nat \<Rightarrow> ('r \<Rightarrow> error option) \<Rightarrow> (error \<Rightarrow> bool) \<Rightarrow> 'v frame \<Rightarrow>
   ('v host \<Rightarrow> (error + 'r) \<times> 'v host) \<Rightarrow> 'v host \<Rightarrow> (error + 'r) \<times> 'v host" where
  "with_frame depth_limit as_error is_contract_error frame f h =
     (let start_depth = length (h_stack h) in
      if depth_limit \<le> start_depth then (Inl (HostErr EContext ExceededLimit), h)
      else case push_context \<lparr>ctx_frame = frame, ctx_storage = None\<rparr> h of
        Inl e \<Rightarrow> (Inl e, h)
      | Inr (rp, h1) \<Rightarrow>
          (let (res0, h2) = f h1;
               res1 = frame_result as_error is_contract_error res0;
               (res, h3) = (case res1 of
                              Inl e \<Rightarrow> (Inl e, h2)
                            | Inr v \<Rightarrow>
                                (case persist_instance_storage h2 of
                                   Inl e \<Rightarrow> (Inl e, h2)
                                 | Inr (_, h') \<Rightarrow> (Inr v, h')));
               (popped, h4) = (case res of
                                 Inl _ \<Rightarrow> pop_context (Some rp) h3
                               | Inr _ \<Rightarrow> pop_context None h3)
           in case popped of
                Inl e \<Rightarrow> (Inl e, h4)
              | Inr _ \<Rightarrow>
                  if length (h_stack h4) \<noteq> start_depth then (Inl (HostErr EContext InternalError), h4)
                  else (res, h4)))"

end
