(* ===== verification/Host_Storage_Inv.thy ===== *)
theory Host_Storage_Inv
  imports Host_Storage
begin

text \<open>
  The storage as a transactional key-value store: the well-formedness of its two maps, what a
  transaction sees (\<open>view\<close>), what every operation does to the footprint and to the cells in
  either mode, and the interface \<open>kv_store\<close> that the host's contract-data functions rely on,
  interpreted on the model.
\<close>

section \<open>Well-formed storages and what they show\<close>

definition storage_ok :: "'v storage \<Rightarrow> bool" where
  "storage_ok s \<longleftrightarrow>
     omap_sorted supported_key compare_key (st_footprint s) \<and> length (st_footprint s) < 2 ^ 32 \<and>
     omap_sorted supported_key compare_key (st_map s) \<and> length (st_map s) < 2 ^ 32"

definition fp_of :: "'v storage \<Rightarrow> ledger_key \<rightharpoonup> access_type" where
  "fp_of s = map_of (st_footprint s)"

definition cells :: "'v storage \<Rightarrow> ledger_key \<rightharpoonup> 'v entry_live option" where
  "cells s = map_of (st_map s)"

definition snapshot_entry :: "'v footprint_mode \<Rightarrow> ledger_key \<Rightarrow> 'v entry_live option" where
  "snapshot_entry mode k =
     (case mode of
        Recording src \<Rightarrow> (case src k of Inr v \<Rightarrow> v | Inl _ \<Rightarrow> None)
      | Enforcing \<Rightarrow> None)"

definition view :: "'v storage \<Rightarrow> ledger_key \<Rightarrow> 'v entry_live option" where
  "view s k = (case cells s k of Some e \<Rightarrow> e | None \<Rightarrow> snapshot_entry (st_mode s) k)"

fun allows :: "access_type option \<Rightarrow> access_type \<Rightarrow> bool" where
  "allows None ty = False"
| "allows (Some ReadWrite) ty = True"
| "allows (Some ReadOnly) ty = (ty = ReadOnly)"

fun join_access :: "access_type option \<Rightarrow> access_type \<Rightarrow> access_type" where
  "join_access None ty = ty"
| "join_access (Some ReadWrite) ty = ReadWrite"
| "join_access (Some ReadOnly) ty = ty"

lemma allows_join: "allows (Some (join_access a ty)) ty" "allows a ty' \<Longrightarrow> allows (Some (join_access a ty)) ty'"
  by (cases "(a, ty)" rule: join_access.cases; cases ty; cases ty'; simp)+

lemma join_allowed: "allows a ty \<Longrightarrow> Some (join_access a ty) = a"
  by (cases "(a, ty)" rule: join_access.cases; cases ty; simp)

lemma of_result_Inr [op_Inr]: "of_result r s = Inr (a, t) \<longleftrightarrow> r = Inr a \<and> t = s"
  by (auto simp: of_result_def split: sum.splits)

lemma of_result_eval [simp]: "of_result (Inr a) s = Inr (a, s)" "of_result (Inl e) s = Inl e"
  by (simp_all add: of_result_def)

lemma decorate_id [simp]: "decorate_storage_error e = e"
  by (auto simp: decorate_storage_error_def split: error.splits)

lemma decorated_id [simp]: "decorated m = m"
  by (auto simp: decorated_def fun_eq_iff split: sum.splits)

lemma with_host_simps [simp]:
  "try_get_full_with_host k = try_get_full k"
  "put_opt_with_host k = put_opt k"
  by (simp_all add: try_get_full_with_host_def put_opt_with_host_def fun_eq_iff)

lemma check_key_Inr [simp]: "check_supported_ledger_key_type k = Inr u \<longleftrightarrow> supported_key k"
  by (simp add: check_supported_eq)

section \<open>Access\<close>

lemma record_access_Inr:
  assumes "record_access k ty fp = Inr fp'" and "supported_key k"
    and "omap_sorted supported_key compare_key fp" and "length fp < 2 ^ 32"
  shows "omap_sorted supported_key compare_key fp'" and "length fp' < 2 ^ 32"
    and "map_of fp' = (map_of fp)(k \<mapsto> join_access (map_of fp k) ty)"
proof -
  note get = lk.get_map_of [OF assms(3,2)]
  have "(fp' = fp \<and> map_of fp k = Some (join_access (map_of fp k) ty)) \<or>
      (omap_insert compare_key k ty fp = Inr fp' \<and> join_access (map_of fp k) ty = ty)"
    using assms(1) unfolding record_access_def get
    by (auto split: option.splits access_type.splits)
  then show "omap_sorted supported_key compare_key fp'" and "length fp' < 2 ^ 32"
    and "map_of fp' = (map_of fp)(k \<mapsto> join_access (map_of fp k) ty)"
    using assms lk.insert_Inr [of k ty fp fp'] by (auto simp: fun_eq_iff)
qed

lemma enforce_access_eq:
  assumes "omap_sorted supported_key compare_key fp" and "supported_key k"
  shows "enforce_access k ty fp =
    (if allows (map_of fp k) ty then Inr () else Inl (HostErr EStorage ExceededLimit))"
  unfolding enforce_access_def lk.get_map_of [OF assms]
  by (cases ty) (auto split: option.splits access_type.splits)

lemma access_recording:
  assumes "access k ty s = Inr (u, t)" and "storage_ok s" and "st_mode s = Recording src"
    and "supported_key k"
  shows "storage_ok t" and "fp_of t = (fp_of s)(k \<mapsto> join_access (fp_of s k) ty)"
    and "cells t = cells s" and "st_mode t = st_mode s" and "st_map t = st_map s"
proof -
  obtain fp where fp: "record_access k ty (st_footprint s) = Inr fp" "t = s\<lparr>st_footprint := fp\<rparr>"
    using assms(1,3) by (auto simp: access_def split: sum.splits)
  note r = record_access_Inr [OF fp(1) assms(4)]
  show "storage_ok t" "fp_of t = (fp_of s)(k \<mapsto> join_access (fp_of s k) ty)"
    "cells t = cells s" "st_mode t = st_mode s" "st_map t = st_map s"
    using r assms(2) by (simp_all add: storage_ok_def fp(2) fp_of_def cells_def)
qed

lemma access_enforcing:
  assumes "storage_ok s" and "st_mode s = Enforcing" and "supported_key k"
  shows "access k ty s =
    (if allows (fp_of s k) ty then Inr ((), s) else Inl (HostErr EStorage ExceededLimit))"
  using assms by (simp add: access_def enforce_access_eq storage_ok_def fp_of_def)

lemma map_insert_Inr:
  assumes "map_insert k v s = Inr (u, t)" and "storage_ok s" and "supported_key k"
  shows "storage_ok t" and "fp_of t = fp_of s" and "cells t = (cells s)(k \<mapsto> v)"
    and "st_mode t = st_mode s"
proof -
  obtain m where m: "omap_insert compare_key k v (st_map s) = Inr m" "t = s\<lparr>st_map := m\<rparr>"
    using assms(1) by (auto simp: map_insert_def split: sum.splits)
  note r = lk.insert_Inr [OF m(1) _ assms(3)]
  show "storage_ok t" "fp_of t = fp_of s" "cells t = (cells s)(k \<mapsto> v)" "st_mode t = st_mode s"
    using r assms(2) by (simp_all add: storage_ok_def m(2) fp_of_def cells_def)
qed

lemma map_insert_present:
  assumes "storage_ok s" and "supported_key k" and "cells s k = Some e"
  shows "\<exists>t. map_insert k v s = Inr ((), t)"
proof -
  have "\<exists>m. omap_insert compare_key k v (st_map s) = Inr m"
    using lk.insert_map_of [of "st_map s" k v] assms by (auto simp: storage_ok_def cells_def)
  then show ?thesis by (auto simp: map_insert_def)
qed

section \<open>Reading\<close>

lemma omap_get_cells:
  assumes "storage_ok s" and "supported_key k"
  shows "omap_get compare_key k (st_map s) = Inr (cells s k)"
  using assms by (simp add: lk.get_map_of storage_ok_def cells_def)

lemma contains_cells:
  assumes "storage_ok s" and "supported_key k"
  shows "omap_contains_key compare_key k (st_map s) = Inr (cells s k \<noteq> None)"
  using assms by (simp add: lk.contains_key_map_of storage_ok_def cells_def)

lemma prepare_recording:
  assumes "prepare_read_only_access k s = Inr (u, t)" and ok: "storage_ok s"
    and mode: "st_mode s = Recording src" and key: "supported_key k"
  shows "storage_ok t" and "st_mode t = st_mode s"
    and "fp_of t = (fp_of s)(k \<mapsto> join_access (fp_of s k) ReadOnly)"
    and "\<exists>e. cells t = (cells s)(k \<mapsto> e) \<and> (cells s k = Some e \<or> cells s k = None \<and> src k = Inr e)"
proof -
  obtain v s1 where s1: "access k ReadOnly s = Inr (v, s1)" "read_through k s1 = Inr (u, t)"
    using assms(1) by (auto simp: prepare_read_only_access_def then_op_Inr)
  note a = access_recording [OF s1(1) ok mode key]
  have mode1: "st_mode s1 = Recording src" using a(4) mode by simp
  note c = contains_cells [OF a(1) key]
  have "storage_ok t \<and> st_mode t = st_mode s1 \<and> fp_of t = fp_of s1 \<and>
    (\<exists>e. cells t = (cells s1)(k \<mapsto> e) \<and> (cells s1 k = Some e \<or> cells s1 k = None \<and> src k = Inr e))"
  proof (cases "cells s1 k")
    case None
    then obtain e where e: "src k = Inr e" "map_insert k e s1 = Inr (u, t)"
      using s1(2) mode1 c by (auto simp: read_through_def split: sum.splits)
    show ?thesis using map_insert_Inr [OF e(2) a(1) key] e(1) None by auto
  next
    case (Some e)
    then have "t = s1" using s1(2) mode1 c by (simp add: read_through_def)
    then show ?thesis using Some a(1) by (auto simp: fun_eq_iff)
  qed
  then show "storage_ok t" and "st_mode t = st_mode s"
    and "fp_of t = (fp_of s)(k \<mapsto> join_access (fp_of s k) ReadOnly)"
    and "\<exists>e. cells t = (cells s)(k \<mapsto> e) \<and> (cells s k = Some e \<or> cells s k = None \<and> src k = Inr e)"
    using a by auto
qed

text \<open>Reading a key in recording mode notes the access and loads the entry.\<close>

lemma try_get_full_recording:
  assumes "try_get_full k s = Inr (e, t)" and ok: "storage_ok s"
    and mode: "st_mode s = Recording src"
  shows "storage_ok t" and "st_mode t = st_mode s" and "supported_key k"
    and "fp_of t = (fp_of s)(k \<mapsto> join_access (fp_of s k) ReadOnly)"
    and "cells t = (cells s)(k \<mapsto> e)" and "cells s k = Some e \<or> cells s k = None \<and> src k = Inr e"
proof -
  obtain u s1 where key: "supported_key k" and s1: "prepare_read_only_access k s = Inr (u, s1)"
    and e: "omap_get compare_key k (st_map s1) = Inr (Some e)" "t = s1"
    using assms(1) by (auto simp: try_get_full_def op_Inr split: option.splits)
  note p = prepare_recording [OF s1 ok mode key]
  from p(4) obtain e' where e': "cells s1 = (cells s)(k \<mapsto> e')"
    "cells s k = Some e' \<or> cells s k = None \<and> src k = Inr e'" by blast
  have "e' = e" using omap_get_cells [OF p(1) key] e(1) e'(1) by simp
  with e' p e(2) key show "storage_ok t" and "st_mode t = st_mode s" and "supported_key k"
    and "fp_of t = (fp_of s)(k \<mapsto> join_access (fp_of s k) ReadOnly)"
    and "cells t = (cells s)(k \<mapsto> e)" and "cells s k = Some e \<or> cells s k = None \<and> src k = Inr e"
    by simp_all
qed

text \<open>Reading a key in enforcing mode succeeds exactly for the keys of the footprint.\<close>

lemma try_get_full_enforcing:
  assumes "storage_ok s" and "st_mode s = Enforcing" and "supported_key k"
  shows "try_get_full k s =
    (if allows (fp_of s k) ReadOnly
     then (case cells s k of
             None \<Rightarrow> Inl (HostErr EStorage InternalError)
           | Some e \<Rightarrow> Inr (e, s))
     else Inl (HostErr EStorage ExceededLimit))"
  using assms
  by (simp add: try_get_full_def prepare_read_only_access_def then_op_eval bind_op_eval
      access_enforcing read_through_def omap_get_cells check_supported_eq split: option.splits)

lemma try_get_full_unsupported:
  assumes "\<not> supported_key k"
  shows "try_get_full k s = Inl (HostErr EStorage InternalError)"
  using assms by (simp add: try_get_full_def then_op_eval check_supported_eq)

section \<open>Writing\<close>

definition entry_supported :: "'v entry_live option \<Rightarrow> bool" where
  "entry_supported v \<longleftrightarrow>
     (case v of None \<Rightarrow> True | Some le \<Rightarrow> check_supported_ledger_entry_type (fst le) = Inr ())"

lemma check_entry_cases:
  "check_supported_ledger_entry_type e = Inr () \<or>
   check_supported_ledger_entry_type e = Inl (HostErr EStorage InternalError)"
  by (cases e) simp_all

lemma entry_check_eq:
  "(case v of None \<Rightarrow> ret () | Some le \<Rightarrow> of_result (check_supported_ledger_entry_type (fst le))) s =
     (if entry_supported v then Inr ((), s) else Inl (HostErr EStorage InternalError))"
  using check_entry_cases by (cases v) (force simp: entry_supported_def)+

lemma put_opt_split:
  "put_opt k v s = Inr (u, t) \<longleftrightarrow>
     supported_key k \<and> entry_supported v \<and>
     (\<exists>s1. access k ReadWrite s = Inr ((), s1) \<and> map_insert k v s1 = Inr (u, t))"
  by (auto simp: put_opt_def then_op_Inr of_result_Inr entry_check_eq split: if_splits)

lemma put_opt_recording:
  assumes "put_opt k v s = Inr (u, t)" and "storage_ok s" and "st_mode s = Recording src"
  shows "storage_ok t" and "st_mode t = st_mode s" and "supported_key k" and "entry_supported v"
    and "fp_of t = (fp_of s)(k \<mapsto> join_access (fp_of s k) ReadWrite)"
    and "cells t = (cells s)(k \<mapsto> v)"
proof -
  obtain s1 where key: "supported_key k" and v: "entry_supported v"
    and s1: "access k ReadWrite s = Inr ((), s1)" "map_insert k v s1 = Inr (u, t)"
    using assms(1) unfolding put_opt_split by blast
  note a = access_recording [OF s1(1) assms(2,3) key]
  note m = map_insert_Inr [OF s1(2) a(1) key]
  show "storage_ok t" and "st_mode t = st_mode s" and "supported_key k" and "entry_supported v"
    and "fp_of t = (fp_of s)(k \<mapsto> join_access (fp_of s k) ReadWrite)"
    and "cells t = (cells s)(k \<mapsto> v)"
    using a m key v by simp_all
qed

lemma put_opt_enforcing:
  assumes "put_opt k v s = Inr (u, t)" and "storage_ok s" and "st_mode s = Enforcing"
  shows "storage_ok t" and "st_mode t = st_mode s" and "supported_key k" and "entry_supported v"
    and "fp_of s k = Some ReadWrite" and "fp_of t = fp_of s" and "cells t = (cells s)(k \<mapsto> v)"
proof -
  obtain s1 where key: "supported_key k" and v: "entry_supported v"
    and s1: "access k ReadWrite s = Inr ((), s1)" "map_insert k v s1 = Inr (u, t)"
    using assms(1) unfolding put_opt_split by blast
  have a: "allows (fp_of s k) ReadWrite" "s1 = s"
    using s1(1) access_enforcing [OF assms(2,3) key] by (auto split: if_splits)
  then have "fp_of s k = Some ReadWrite"
    by (cases "(fp_of s k, ReadWrite)" rule: allows.cases) simp_all
  with a(2) map_insert_Inr [OF s1(2)] assms(2) key v
  show "storage_ok t" and "st_mode t = st_mode s" and "supported_key k" and "entry_supported v"
    and "fp_of s k = Some ReadWrite" and "fp_of t = fp_of s" and "cells t = (cells s)(k \<mapsto> v)"
    by simp_all
qed

lemma put_opt_enforcing_ok:
  assumes "storage_ok s" and "st_mode s = Enforcing" and "supported_key k" and "entry_supported v"
    and "fp_of s k = Some ReadWrite" and "cells s k = Some e"
  shows "\<exists>t. put_opt k v s = Inr ((), t)"
  unfolding put_opt_split
  using assms map_insert_present [OF assms(1,3,6)] by (simp add: access_enforcing)

section \<open>The key-value interface\<close>

text \<open>
  What a client of the storage relies on: a read returns the visible entry and changes
  nothing visible, a write replaces the visible entry of its key only.
\<close>

locale kv_store =
  fixes good :: "'s \<Rightarrow> bool"
    and visible :: "'s \<Rightarrow> 'k \<Rightarrow> 'e option"
    and fetch :: "'k \<Rightarrow> ('s, 'e option) op"
    and save :: "'k \<Rightarrow> 'e option \<Rightarrow> ('s, unit) op"
  assumes read_law: "good s \<Longrightarrow> fetch k s = Inr (e, t) \<Longrightarrow> good t \<and> e = visible s k \<and> visible t = visible s"
    and write_law: "good s \<Longrightarrow> save k e s = Inr (u, t) \<Longrightarrow> good t \<and> visible t = (visible s)(k := e)"
begin

lemma read_after_write:
  assumes "good s" and "save k e s = Inr (u, t)" and "fetch k t = Inr (e', t')"
  shows "e' = e"
proof -
  have t: "good t" "visible t = (visible s)(k := e)" using write_law [OF assms(1,2)] by simp_all
  with read_law [OF t(1) assms(3)] show ?thesis by simp
qed

lemma read_other:
  assumes "good s" and "save k e s = Inr (u, t)" and "k' \<noteq> k"
    and "fetch k' t = Inr (e', t')" and "fetch k' s = Inr (e0, s')"
  shows "e' = e0"
proof -
  have t: "good t" "visible t = (visible s)(k := e)" using write_law [OF assms(1,2)] by simp_all
  have "e' = visible t k'" using read_law [OF t(1) assms(4)] by simp
  moreover have "e0 = visible s k'" using read_law [OF assms(1,5)] by simp
  ultimately show ?thesis using t(2) assms(3) by simp
qed

lemma read_stable:
  assumes "good s" and "fetch k s = Inr (e, t)" and "fetch k' t = Inr (e', t')"
  shows "e' = visible s k'"
  using read_law [OF assms(1,2)] read_law [of t k' e' t'] assms(3) by simp

end

lemma view_read:
  assumes "storage_ok s" and "try_get_full k s = Inr (e, t)"
  shows "storage_ok t \<and> e = view s k \<and> view t = view s"
proof (cases "st_mode s")
  case (Recording src)
  note r = try_get_full_recording [OF assms(2,1) Recording]
  have e: "e = view s k"
    using r(6) by (auto simp: view_def snapshot_entry_def Recording)
  have "view t k' = view s k'" for k'
    using r(2,5) e by (cases "k' = k") (simp_all add: view_def split: option.splits)
  with r(1) e show ?thesis by (simp add: fun_eq_iff)
next
  case Enforcing
  show ?thesis
  proof (cases "supported_key k")
    case True
    with assms try_get_full_enforcing [OF assms(1) Enforcing True] show ?thesis
      by (auto simp: view_def split: if_splits option.splits)
  qed (use assms(2) try_get_full_unsupported [of k s] in simp)
qed

lemma view_write:
  assumes "storage_ok s" and "put_opt k e s = Inr (u, t)"
  shows "storage_ok t \<and> view t = (view s)(k := e)"
proof (cases "st_mode s")
  case (Recording src)
  note r = put_opt_recording [OF assms(2,1) Recording]
  show ?thesis using r(1,2,6) by (simp add: view_def fun_eq_iff split: option.splits)
next
  case Enforcing
  note r = put_opt_enforcing [OF assms(2,1) Enforcing]
  show ?thesis using r(1,2,7) by (simp add: view_def fun_eq_iff split: option.splits)
qed

interpretation store: kv_store storage_ok view try_get_full put_opt
  by unfold_locales (blast dest: view_read view_write)+

end
