(* ===== verification/Host_Preflight.thy ===== *)
theory Host_Preflight
  imports Host_Storage_Inv
begin

text \<open>
  Preflight: a transaction is first run in recording mode against a snapshot of the ledger and
  then for real in enforcing mode with the recorded footprint. A transaction is a sequence of
  storage calls; the theory relates its two runs by a simulation.
\<close>

section \<open>Definitions\<close>

datatype 'v storage_call =
    ReadC ledger_key
  | WriteC ledger_key "'v entry_live option"
  | ExtendC ledger_info ledger_key u32 u32

fun exec_call :: "'v storage_call \<Rightarrow> ('v, 'v entry_live option) storage_op" where
  "exec_call (ReadC k) = try_get_full_with_host k"
| "exec_call (WriteC k v) = then_op (put_opt_with_host k v) (ret None)"
| "exec_call (ExtendC li k threshold extend_to) =
     then_op (st_extend_ttl li k threshold extend_to) (ret None)"

fun exec_calls :: "'v storage_call list \<Rightarrow> ('v, 'v entry_live option list) storage_op" where
  "exec_calls [] = ret []"
| "exec_calls (c # cs) =
     bind_op (exec_call c) (\<lambda>r. bind_op (exec_calls cs) (\<lambda>rs. ret (r # rs)))"

section \<open>The extension of a live-until ledger\<close>

text \<open>
  \<open>extend_ttl\<close> looks the entry up, computes its new live-until ledger as the contracts'
  environment does, and stores the entry again if that is later.
\<close>

lemma st_extend_ttl_eq:
  "st_extend_ttl li key thr ext s =
     (if \<not> supported_key key then Inl (HostErr EStorage InternalError)
      else if ext < thr then Inl (HostErr EStorage InvalidInput)
      else case try_get_full key s of
        Inl e \<Rightarrow> Inl e
      | Inr (None, _) \<Rightarrow> Inl (HostErr EStorage MissingValue)
      | Inr (Some (entry, None), _) \<Rightarrow> Inl (HostErr EStorage InternalError)
      | Inr (Some (entry, Some old), t) \<Rightarrow>
          (case extended_live_until li (get_key_durability key) thr ext old of
             Inl e \<Rightarrow> Inl e
           | Inr l \<Rightarrow> if old < l then map_insert key (Some (entry, Some l)) t else Inr ((), t)))"
proof (cases "supported_key key \<and> \<not> ext < thr")
  case False
  then show ?thesis by (auto simp: st_extend_ttl_def then_op_eval check_supported_eq)
next
  case True
  show ?thesis
  proof (cases "try_get_full key s")
    case (Inl e)
    with True show ?thesis
      by (simp add: st_extend_ttl_def then_op_eval bind_op_eval check_supported_eq
          get_with_live_until_ledger_def)
  next
    case (Inr r)
    obtain e t where r: "r = (e, t)" by (cases r)
    show ?thesis
    proof (cases e)
      case None
      with True Inr r show ?thesis
        by (simp add: st_extend_ttl_def then_op_eval bind_op_eval check_supported_eq
            get_with_live_until_ledger_def some_or_missing_def)
    next
      case (Some p)
      obtain entry live where p: "p = (entry, live)" by (cases p)
      have got: "get_with_live_until_ledger key s = Inr ((entry, live), t)"
        using Inr r Some p by (simp add: get_with_live_until_ledger_def some_or_missing_def bind_op_eval)
      show ?thesis
      proof (cases live)
        case None
        with True Inr r Some p got show ?thesis
          by (simp add: st_extend_ttl_def then_op_eval bind_op_eval check_supported_eq)
      next
        case (Some old)
        with True Inr r \<open>e = Some p\<close> p got show ?thesis
          by (auto simp: st_extend_ttl_def then_op_eval bind_op_eval check_supported_eq
              extended_live_until_def split: option.splits sum.splits durability.splits)
      qed
    qed
  qed
qed

lemma st_extend_ttl_Inr:
  assumes "st_extend_ttl li k thr ext s = Inr (u, t)"
  obtains entry old s1 l where "supported_key k" and "try_get_full k s = Inr (Some (entry, Some old), s1)"
    and "extended_live_until li (get_key_durability k) thr ext old = Inr l" and "old \<le> l"
    and "(if old < l then map_insert k (Some (entry, Some l)) s1 else Inr ((), s1)) = Inr (u, t)"
    and "\<not> ext < thr"
proof -
  from assms obtain entry old s1 l where 1: "supported_key k" "\<not> ext < thr"
    "try_get_full k s = Inr (Some (entry, Some old), s1)"
    "extended_live_until li (get_key_durability k) thr ext old = Inr l"
    "(if old < l then map_insert k (Some (entry, Some l)) s1 else Inr ((), s1)) = Inr (u, t)"
    unfolding st_extend_ttl_eq by (auto split: if_splits sum.splits prod.splits option.splits)
  with that extended_live_until_ge(1) [OF 1(4)] show thesis by blast
qed

section \<open>The footprint of a recorded run\<close>

text \<open>The accesses that \<open>F\<close> grants cover those of \<open>G\<close>.\<close>

definition covers :: "(ledger_key \<rightharpoonup> access_type) \<Rightarrow> (ledger_key \<rightharpoonup> access_type) \<Rightarrow> bool" where
  "covers F G \<longleftrightarrow> (\<forall>k ty. allows (G k) ty \<longrightarrow> allows (F k) ty)"

lemma covers_refl: "covers F F"
  by (simp add: covers_def)

lemma covers_trans: "covers F G \<Longrightarrow> covers G H \<Longrightarrow> covers F H"
  by (simp add: covers_def)

lemma covers_join: "covers (G(k \<mapsto> join_access (G k) ty)) G"
  by (simp add: covers_def allows_join(2))

lemma covers_upd:
  assumes "covers F (G(k \<mapsto> join_access (G k) ty))"
  shows "covers F G" and "allows (F k) ty"
proof -
  show "covers F G" using covers_trans [OF assms covers_join] .
  show "allows (F k) ty"
    using assms allows_join(1) [of "G k" ty] by (force simp: covers_def)
qed

lemma allows_RW: "allows a ReadWrite \<longleftrightarrow> a = Some ReadWrite"
  by (cases "(a, ReadWrite)" rule: allows.cases) simp_all

text \<open>
  \<open>sim F src s t\<close>: \<open>s\<close> records against \<open>src\<close>, \<open>t\<close> enforces \<open>F\<close>, they agree on the entries \<open>s\<close>
  has loaded, and \<open>t\<close> holds the ledger's entries for the keys \<open>s\<close> has yet to load.
\<close>

definition sim ::
  "(ledger_key \<rightharpoonup> access_type) \<Rightarrow> 'v snapshot \<Rightarrow> 'v storage \<Rightarrow> 'v storage \<Rightarrow> bool" where
  "sim F src s t \<longleftrightarrow>
     storage_ok s \<and> st_mode s = Recording src \<and> storage_ok t \<and> st_mode t = Enforcing \<and>
     fp_of t = F \<and> dom F \<subseteq> dom (cells t) \<and>
     (\<forall>k e. cells s k = Some e \<longrightarrow> k \<in> dom F \<longrightarrow> cells t k = Some e) \<and>
     (\<forall>k. cells s k = None \<longrightarrow> k \<in> dom F \<longrightarrow> (\<exists>e. src k = Inr e \<and> cells t k = Some e))"

lemma sim_upd:
  assumes sim: "sim F src s t" and s': "storage_ok s'" "st_mode s' = Recording src"
    and t': "storage_ok t'" "st_mode t' = Enforcing" "fp_of t' = F"
    and cs: "cells s' = (cells s)(k \<mapsto> e)" and ct: "cells t' = (cells t)(k \<mapsto> e)"
  shows "sim F src s' t'"
proof -
  have old: "dom F \<subseteq> dom (cells t)"
    "\<And>k e. cells s k = Some e \<Longrightarrow> k \<in> dom F \<Longrightarrow> cells t k = Some e"
    "\<And>k. cells s k = None \<Longrightarrow> k \<in> dom F \<Longrightarrow> \<exists>e. src k = Inr e \<and> cells t k = Some e"
    using sim unfolding sim_def by blast+
  have "dom F \<subseteq> dom (cells t')" using old(1) ct by auto
  moreover have "cells t' k' = Some e'" if "cells s' k' = Some e'" "k' \<in> dom F" for k' e'
    using that old(2) [of k' e'] cs ct by (cases "k' = k") simp_all
  moreover have "\<exists>e'. src k' = Inr e' \<and> cells t' k' = Some e'"
    if "cells s' k' = None" "k' \<in> dom F" for k'
    using that old(3) [of k'] cs ct by (cases "k' = k") simp_all
  ultimately show ?thesis unfolding sim_def using s' t' by blast
qed

lemma sim_read:
  assumes sim: "sim F src s t" and run: "try_get_full k s = Inr (e, s')" and F: "covers F (fp_of s')"
  shows "try_get_full k t = Inr (e, t)" and "sim F src s' t" and "covers F (fp_of s)"
proof -
  have s: "storage_ok s" "st_mode s = Recording src" and t: "storage_ok t" "st_mode t = Enforcing"
    and Ft: "fp_of t = F"
    using sim by (simp_all add: sim_def)
  note r = try_get_full_recording [OF run s]
  note cu = covers_upd [OF F [unfolded r(4)]]
  show "covers F (fp_of s)" by (rule cu(1))
  note al = cu(2)
  then have k: "k \<in> dom F" by (cases "F k") auto
  have "\<And>e. cells s k = Some e \<Longrightarrow> cells t k = Some e"
    "cells s k = None \<Longrightarrow> \<exists>e. src k = Inr e \<and> cells t k = Some e"
    using sim k unfolding sim_def by blast+
  with r(6) have e: "cells t k = Some e" by auto
  then show "try_get_full k t = Inr (e, t)"
    using try_get_full_enforcing [OF t r(3)] al Ft by simp
  show "sim F src s' t"
    using r(1,2) s t Ft by (intro sim_upd [OF sim, of _ _ k e]) (simp_all add: r(5) e fun_upd_idem)
qed

lemma sim_insert:
  assumes sim: "sim F src s t" and run: "map_insert k v s = Inr (u, s')"
    and key: "supported_key k" and k: "k \<in> dom F"
  shows "\<exists>t'. map_insert k v t = Inr ((), t') \<and> sim F src s' t'"
proof -
  have s: "storage_ok s" and t: "storage_ok t" and "dom F \<subseteq> dom (cells t)"
    using sim by (simp_all add: sim_def)
  then obtain e where "cells t k = Some e" using k by blast
  then obtain t' where t': "map_insert k v t = Inr ((), t')"
    using map_insert_present [OF t key] by blast
  note ms = map_insert_Inr [OF run s key] and mt = map_insert_Inr [OF t' t key]
  have "sim F src s' t'"
    using sim ms mt by (intro sim_upd [OF sim, of _ _ k v]) (simp_all add: sim_def)
  with t' show ?thesis by blast
qed

lemma sim_write:
  assumes sim: "sim F src s t" and run: "put_opt k v s = Inr (u, s')" and F: "covers F (fp_of s')"
  shows "\<exists>t'. put_opt k v t = Inr ((), t') \<and> sim F src s' t'" and "covers F (fp_of s)"
proof -
  have s: "storage_ok s" "st_mode s = Recording src" and t: "storage_ok t" "st_mode t = Enforcing"
    and Ft: "fp_of t = F" and dm: "dom F \<subseteq> dom (cells t)"
    using sim by (simp_all add: sim_def)
  note r = put_opt_recording [OF run s]
  note cu = covers_upd [OF F [unfolded r(5)]]
  show "covers F (fp_of s)" by (rule cu(1))
  have RW: "F k = Some ReadWrite" using cu(2) by (simp add: allows_RW)
  then obtain e where "cells t k = Some e" using dm by blast
  then obtain t' where t': "put_opt k v t = Inr ((), t')"
    using put_opt_enforcing_ok [OF t r(3,4)] RW Ft by blast
  note w = put_opt_enforcing [OF t' t]
  have "sim F src s' t'"
    using r(1,2,6) w(1,2,6,7) s t Ft by (intro sim_upd [OF sim, of _ _ k v]) simp_all
  with t' show "\<exists>t'. put_opt k v t = Inr ((), t') \<and> sim F src s' t'" by blast
qed

lemma sim_extend:
  assumes sim: "sim F src s t" and run: "st_extend_ttl li k thr ext s = Inr (u, s')"
    and F: "covers F (fp_of s')"
  shows "\<exists>t'. st_extend_ttl li k thr ext t = Inr ((), t') \<and> sim F src s' t'" and "covers F (fp_of s)"
proof -
  obtain entry old s1 l where 1: "supported_key k" "try_get_full k s = Inr (Some (entry, Some old), s1)"
    "extended_live_until li (get_key_durability k) thr ext old = Inr l"
    "(if old < l then map_insert k (Some (entry, Some l)) s1 else Inr ((), s1)) = Inr (u, s')"
    "\<not> ext < thr"
    using run by (rule st_extend_ttl_Inr)
  have s: "storage_ok s" "st_mode s = Recording src"
    using sim by (simp_all add: sim_def)
  note r = try_get_full_recording [OF 1(2) s]
  have fp: "fp_of s' = fp_of s1"
    using 1(4) map_insert_Inr(2) [OF _ r(1) 1(1)] by (auto split: if_splits)
  note sr = sim_read [OF sim 1(2) F [unfolded fp]]
  show "covers F (fp_of s)" by (rule sr(3))
  have k: "k \<in> dom F"
    using covers_upd(2) [OF F [unfolded fp r(4)]] by (cases "F k") auto
  have "\<exists>t'. (if old < l then map_insert k (Some (entry, Some l)) t else Inr ((), t)) = Inr ((), t') \<and>
      sim F src s' t'"
    using 1(4) sim_insert [OF sr(2) _ 1(1) k] sr(2) by (auto split: if_splits)
  then show "\<exists>t'. st_extend_ttl li k thr ext t = Inr ((), t') \<and> sim F src s' t'"
    using 1(1,3,5) sr(1) by (simp add: st_extend_ttl_eq)
qed

lemma sim_call:
  assumes "sim F src s t" and "exec_call c s = Inr (r, s')" and "covers F (fp_of s')"
  shows "(\<exists>t'. exec_call c t = Inr (r, t') \<and> sim F src s' t') \<and> covers F (fp_of s)"
proof (cases c)
  case (ReadC k)
  with assms(2) have "try_get_full k s = Inr (r, s')" by simp
  from sim_read [OF assms(1) this assms(3)] ReadC show ?thesis by auto
next
  case (WriteC k v)
  with assms(2) have "put_opt k v s = Inr ((), s')" and "r = None"
    by (auto simp: then_op_Inr)
  with sim_write [OF assms(1) this(1) assms(3)] WriteC show ?thesis
    by (auto simp: then_op_Inr)
next
  case (ExtendC li k thr ext)
  with assms(2) have "st_extend_ttl li k thr ext s = Inr ((), s')" and "r = None"
    by (auto simp: then_op_Inr)
  with sim_extend [OF assms(1) this(1) assms(3)] ExtendC show ?thesis
    by (auto simp: then_op_Inr)
qed

lemma recording_ok:
  assumes "exec_call c s = Inr (r, s')" and "storage_ok s" and "st_mode s = Recording src"
  shows "storage_ok s'" and "st_mode s' = Recording src" and "covers (fp_of s') (fp_of s)"
    and "dom (fp_of s) = dom (cells s) \<Longrightarrow> dom (fp_of s') = dom (cells s')"
proof -
  have "storage_ok s' \<and> st_mode s' = Recording src \<and> covers (fp_of s') (fp_of s) \<and>
    (dom (fp_of s) = dom (cells s) \<longrightarrow> dom (fp_of s') = dom (cells s'))"
  proof (cases c)
    case (ReadC k)
    with assms(1) have "try_get_full k s = Inr (r, s')" by simp
    from try_get_full_recording [OF this assms(2,3)] show ?thesis
      using assms(3) by (simp add: covers_join)
  next
    case (WriteC k v)
    with assms(1) have "put_opt k v s = Inr ((), s')" by (auto simp: then_op_Inr)
    from put_opt_recording [OF this assms(2,3)] show ?thesis
      using assms(3) by (simp add: covers_join)
  next
    case (ExtendC li k thr ext)
    with assms(1) have "st_extend_ttl li k thr ext s = Inr ((), s')" by (auto simp: then_op_Inr)
    then obtain entry old s1 l where 1: "supported_key k"
      "try_get_full k s = Inr (Some (entry, Some old), s1)"
      "(if old < l then map_insert k (Some (entry, Some l)) s1 else Inr ((), s1)) = Inr ((), s')"
      by (rule st_extend_ttl_Inr)
    note r = try_get_full_recording [OF 1(2) assms(2,3)]
    have "storage_ok s' \<and> st_mode s' = st_mode s1 \<and> fp_of s' = fp_of s1 \<and> dom (cells s') = dom (cells s1)"
      using 1(3) r(1,5) map_insert_Inr [OF _ r(1) 1(1)] by (auto split: if_splits)
    with r show ?thesis using assms(3) by (simp add: covers_join)
  qed
  then show "storage_ok s'" and "st_mode s' = Recording src" and "covers (fp_of s') (fp_of s)"
    and "dom (fp_of s) = dom (cells s) \<Longrightarrow> dom (fp_of s') = dom (cells s')"
    by blast+
qed

lemma recording_calls:
  assumes "exec_calls cs s = Inr (rs, s')" and "storage_ok s" and "st_mode s = Recording src"
    and "dom (fp_of s) = dom (cells s)"
  shows "storage_ok s' \<and> st_mode s' = Recording src \<and> covers (fp_of s') (fp_of s) \<and>
    dom (fp_of s') = dom (cells s')"
  using assms
proof (induction cs arbitrary: s rs)
  case Nil
  then show ?case by (simp add: covers_refl)
next
  case (Cons c cs)
  then obtain r s1 rs' where "exec_call c s = Inr (r, s1)" "exec_calls cs s1 = Inr (rs', s')"
    by (auto simp: bind_op_Inr)
  with Cons.IH [OF this(2)] recording_ok [OF this(1) Cons.prems(2,3)] Cons.prems(4)
  show ?case by (blast intro: covers_trans)
qed

lemma sim_calls:
  assumes "sim F src s t" and "exec_calls cs s = Inr (rs, s')" and "covers F (fp_of s')"
    and "dom (fp_of s) = dom (cells s)"
  shows "\<exists>t'. exec_calls cs t = Inr (rs, t') \<and> sim F src s' t'"
  using assms
proof (induction cs arbitrary: s t rs)
  case Nil
  then show ?case by auto
next
  case (Cons c cs)
  then obtain r s1 rs' where 1: "exec_call c s = Inr (r, s1)" "exec_calls cs s1 = Inr (rs', s')"
    and rs: "rs = r # rs'"
    by (auto simp: bind_op_Inr)
  have s: "storage_ok s" "st_mode s = Recording src"
    using Cons.prems(1) by (simp_all add: sim_def)
  note k = recording_ok [OF 1(1) s]
  have dm: "dom (fp_of s1) = dom (cells s1)" by (rule k(4) [OF Cons.prems(4)])
  have "covers F (fp_of s1)"
    using recording_calls [OF 1(2) k(1,2) dm] Cons.prems(3) by (blast intro: covers_trans)
  from sim_call [OF Cons.prems(1) 1(1) this] obtain t1 where
    t1: "exec_call c t = Inr (r, t1)" "sim F src s1 t1" by blast
  from Cons.IH [OF t1(2) 1(2) Cons.prems(3) dm] t1(1) rs show ?case
    by (auto simp: bind_op_Inr)
qed

end
