(* ===== verification/Host_Env.thy ===== *)
theory Host_Env
  imports Host_Data Host_Preflight
begin

text \<open>
  The host implements the environment the contracts are verified against: while a contract
  runs, its persistent entries in the host's storage are the entries of a \<open>Contract_Env\<close>
  environment, and every contract-data function that succeeds on the host does to the entries
  what the environment's storage operation says, with the same result.
\<close>

section \<open>Definitions\<close>

datatype 'v data_call =
    PutD sc_val 'v
  | GetD sc_val
  | HasD sc_val
  | DelD sc_val
  | ExtendD sc_val u32 u32

datatype 'v data_result = DoneR | ValueR 'v | BoolR bool

fun call_key :: "'v data_call \<Rightarrow> sc_val" where
  "call_key (PutD k _) = k"
| "call_key (GetD k) = k"
| "call_key (HasD k) = k"
| "call_key (DelD k) = k"
| "call_key (ExtendD k _ _) = k"

fun host_call :: "'v data_call \<Rightarrow> ('v, 'v data_result) host_op" where
  "host_call (PutD k v) = then_op (put_contract_data k v PersistentT) (ret DoneR)"
| "host_call (GetD k) =
     bind_op (get_contract_data k PersistentT) (\<lambda>x.
       case x of DataVal v \<Rightarrow> ret (ValueR v) | InstanceVal _ \<Rightarrow> fail ConversionError)"
| "host_call (HasD k) = bind_op (has_contract_data k PersistentT) (\<lambda>b. ret (BoolR b))"
| "host_call (DelD k) = then_op (del_contract_data k PersistentT) (ret DoneR)"
| "host_call (ExtendD k thr ext) =
     then_op (extend_contract_data_ttl k PersistentT thr ext) (ret DoneR)"

fun env_call :: "'v data_call \<Rightarrow> ('v, 'v data_result) action" where
  "env_call (PutD k v) = then_op (storage_set k v) (ret DoneR)"
| "env_call (GetD k) =
     bind_op (storage_get Some k) (\<lambda>x.
     bind_op (ok_or (HostErr EStorage MissingValue) x) (\<lambda>v. ret (ValueR v)))"
| "env_call (HasD k) = bind_op (storage_has k) (\<lambda>b. ret (BoolR b))"
| "env_call (DelD k) = then_op (storage_remove k) (ret DoneR)"
| "env_call (ExtendD k thr ext) = then_op (extend_ttl k thr ext) (ret DoneR)"

primrec run_ops :: "('s, 'a) op list \<Rightarrow> ('s, 'a list) op" where
  "run_ops [] = ret []"
| "run_ops (f # fs) = bind_op f (\<lambda>r. bind_op (run_ops fs) (\<lambda>rs. ret (r # rs)))"

definition data_key :: "hash \<Rightarrow> sc_val \<Rightarrow> ledger_key" where
  "data_key cid k = LKContractData (ContractAddr cid) k Persistent"

text \<open>The ledger entry that stands for the entry \<open>k\<close> of an environment.\<close>

definition env_cell :: "hash \<Rightarrow> 'v env \<Rightarrow> sc_val \<Rightarrow> 'v stored entry_live option" where
  "env_cell cid s k =
     (case env_data s k of
        None \<Rightarrow> None
      | Some v \<Rightarrow> Some (ContractDataE (ContractAddr cid) k Persistent (DataVal v), env_live s k))"

definition env_rel :: "hash \<Rightarrow> 'v host \<Rightarrow> 'v env \<Rightarrow> bool" where
  "env_rel cid h s \<longleftrightarrow>
     storage_ok (h_storage h) \<and> get_current_contract_id_opt_internal h = Some cid \<and>
     env_ledger s = h_ledger h \<and>
     (\<forall>k. k \<noteq> LedgerKeyContractInstanceV \<longrightarrow>
        view (h_storage h) (data_key cid k) = env_cell cid s k)"

section \<open>Storage operations on the host\<close>

lemma on_storage_Inr [op_Inr]:
  "on_storage f h = Inr (a, h') \<longleftrightarrow> (\<exists>s. f (h_storage h) = Inr (a, s) \<and> h' = h\<lparr>h_storage := s\<rparr>)"
  by (auto simp: on_storage_def split: sum.splits)

lemma with_storage [simp]:
  "get_current_contract_id_opt_internal (h\<lparr>h_storage := s\<rparr>) = get_current_contract_id_opt_internal h"
  by (simp add: get_current_contract_id_opt_internal_def)

lemma has_view:
  assumes "has_with_host k s = Inr (b, t)" and "storage_ok s"
  shows "b \<longleftrightarrow> view s k \<noteq> None" and "storage_ok t" and "view t = view s"
  using assms store.read_law [OF assms(2)] by (auto simp: has_with_host_def bind_op_Inr)

lemma get_live_view:
  assumes "get_with_live_until_ledger k s = Inr (p, t)" and "storage_ok s"
  shows "view s k = Some p" and "storage_ok t" and "view t = view s"
proof -
  obtain e where "try_get_full k s = Inr (e, t)" "e = Some p"
    using assms(1)
    by (auto simp: get_with_live_until_ledger_def some_or_missing_def bind_op_Inr ok_or_Inr)
  with store.read_law [OF assms(2)] show "view s k = Some p" "storage_ok t" "view t = view s"
    by force+
qed

lemma get_view:
  assumes "get_with_host k s = Inr (e, t)" and "storage_ok s"
  shows "\<exists>l. view s k = Some (e, l)" and "storage_ok t" and "view t = view s"
proof -
  obtain p where "try_get_full k s = Inr (Some p, t)" "e = fst p"
    using assms(1)
    by (auto simp: get_with_host_def some_or_missing_def bind_op_Inr ok_or_Inr)
  with store.read_law [OF assms(2)] show "\<exists>l. view s k = Some (e, l)" "storage_ok t" "view t = view s"
    by (cases p; force)+
qed

lemma put_view:
  assumes "put_with_host k e l s = Inr (u, t)" and "storage_ok s"
  shows "storage_ok t" and "view t = (view s)(k \<mapsto> (e, l))"
  using assms store.write_law [OF assms(2)] by (auto simp: put_with_host_def)

lemma del_view:
  assumes "del_with_host k s = Inr (u, t)" and "storage_ok s"
  shows "storage_ok t" and "view t = (view s)(k := None)"
  using assms store.write_law [OF assms(2)] by (auto simp: del_with_host_def)

lemma extend_view:
  assumes "st_extend_ttl li k thr ext s = Inr (u, t)" and "storage_ok s"
  shows "\<exists>entry old l. view s k = Some (entry, Some old) \<and> \<not> ext < thr \<and>
      extended_live_until li (get_key_durability k) thr ext old = Inr l \<and>
      view t = (view s)(k \<mapsto> (entry, Some l))"
    and "storage_ok t"
proof -
  obtain entry old s1 l where 1: "supported_key k" "try_get_full k s = Inr (Some (entry, Some old), s1)"
    "extended_live_until li (get_key_durability k) thr ext old = Inr l" "old \<le> l"
    "(if old < l then map_insert k (Some (entry, Some l)) s1 else Inr ((), s1)) = Inr (u, t)"
    "\<not> ext < thr"
    using assms(1) by (rule st_extend_ttl_Inr)
  have s1: "storage_ok s1" "view s k = Some (entry, Some old)" "view s1 = view s"
    using store.read_law [OF assms(2) 1(2)] by simp_all
  have "storage_ok t \<and> view t = (view s1)(k \<mapsto> (entry, Some l))"
  proof (cases "old < l")
    case True
    with 1(5) have m: "map_insert k (Some (entry, Some l)) s1 = Inr (u, t)" by simp
    note r = map_insert_Inr [OF m s1(1) 1(1)]
    then show ?thesis by (auto simp: view_def fun_eq_iff split: option.splits)
  next
    case False
    with 1(4) have "l = old" by simp
    with False 1(5) s1 show ?thesis by (simp add: fun_upd_idem)
  qed
  with 1 s1 show "storage_ok t"
    and "\<exists>entry old l. view s k = Some (entry, Some old) \<and> \<not> ext < thr \<and>
      extended_live_until li (get_key_durability k) thr ext old = Inr l \<and>
      view t = (view s)(k \<mapsto> (entry, Some l))"
    by auto
qed

section \<open>The simulation\<close>

lemma env_rel_D:
  assumes "env_rel cid h s"
  shows "storage_ok (h_storage h)" and "get_current_contract_id_opt_internal h = Some cid"
    and "env_ledger s = h_ledger h"
    and "k \<noteq> LedgerKeyContractInstanceV \<Longrightarrow> view (h_storage h) (data_key cid k) = env_cell cid s k"
  using assms by (simp_all add: env_rel_def)

lemma data_key_inj [simp]: "data_key cid k = data_key cid k' \<longleftrightarrow> k = k'"
  by (simp add: data_key_def)

lemma key_of_call:
  assumes "env_rel cid h s"
  shows "bind_op (of_result (Inr Persistent)) (\<lambda>d.
      bind_op (storage_key_from_val k d) (f d)) h = f Persistent (data_key cid k) h"
  using env_rel_D(2) [OF assms]
  by (simp add: bind_op_eval storage_key_from_val_def get_current_contract_id_internal_def
      storage_key_for_address_def data_key_def)

text \<open>A storage step that leaves the view alone, or replaces one cell of the contract.\<close>

lemma env_rel_same:
  assumes "env_rel cid h s" and "storage_ok t" and "view t = view (h_storage h)"
  shows "env_rel cid (h\<lparr>h_storage := t\<rparr>) s"
  using assms by (simp add: env_rel_def)

lemma env_rel_cell:
  assumes "env_rel cid h s" and "storage_ok t"
    and "view t = (view (h_storage h))(data_key cid k := env_cell cid s' k)"
    and "env_ledger s' = env_ledger s" and "\<And>k'. k' \<noteq> k \<Longrightarrow> env_cell cid s' k' = env_cell cid s k'"
  shows "env_rel cid (h\<lparr>h_storage := t\<rparr>) s'"
  unfolding env_rel_def
proof (intro conjI allI impI)
  fix k' assume "k' \<noteq> LedgerKeyContractInstanceV"
  with assms(1,3,5) show "view (h_storage (h\<lparr>h_storage := t\<rparr>)) (data_key cid k') = env_cell cid s' k'"
    by (cases "k' = k") (simp_all add: env_rel_def)
qed (use assms in \<open>simp_all add: env_rel_def\<close>)

lemma sim_has:
  assumes rel: "env_rel cid h s" and k: "k \<noteq> LedgerKeyContractInstanceV"
    and run: "has_contract_data k PersistentT h = Inr (b, h')"
  shows "storage_has k s = Inr (b, s) \<and> env_rel cid h' s"
proof -
  obtain t where t: "has_with_host (data_key cid k) (h_storage h) = Inr (b, t)" "h' = h\<lparr>h_storage := t\<rparr>"
    using run by (auto simp: has_contract_data_def key_of_call [OF rel] on_storage_Inr)
  note v = has_view [OF t(1) env_rel_D(1) [OF rel]]
  have "b \<longleftrightarrow> env_data s k \<noteq> None"
    using v(1) env_rel_D(4) [OF rel k] by (auto simp: env_cell_def split: option.splits)
  then show ?thesis
    using env_rel_same [OF rel v(2,3)] t(2) by (simp add: storage_has_def)
qed

lemma sim_get:
  assumes rel: "env_rel cid h s" and k: "k \<noteq> LedgerKeyContractInstanceV"
    and run: "get_contract_data k PersistentT h = Inr (x, h')"
  shows "\<exists>v. x = DataVal v \<and> storage_get Some k s = Inr (Some v, s) \<and> env_rel cid h' s"
proof -
  obtain e t where t: "get_with_host (data_key cid k) (h_storage h) = Inr (e, t)"
    and e: "(case e of ContractDataE _ _ _ v \<Rightarrow> ret v | _ \<Rightarrow> fail (HostErr EStorage InternalError))
      (h\<lparr>h_storage := t\<rparr>) = Inr (x, h')"
    using run unfolding get_contract_data_def storage_type.case storage_durability.simps
      key_of_call [OF rel] bind_op_Inr on_storage_Inr
    by blast
  note v = get_view [OF t env_rel_D(1) [OF rel]]
  obtain w where w: "env_data s k = Some w" "e = ContractDataE (ContractAddr cid) k Persistent (DataVal w)"
    using v(1) env_rel_D(4) [OF rel k] by (auto simp: env_cell_def split: option.splits)
  with e have "x = DataVal w" "h' = h\<lparr>h_storage := t\<rparr>" by simp_all
  with w(1) env_rel_same [OF rel v(2,3)] show ?thesis by (simp add: storage_get_def)
qed

lemma sim_del:
  assumes rel: "env_rel cid h s"
    and run: "del_contract_data k PersistentT h = Inr (u, h')"
  shows "\<exists>s'. storage_remove k s = Inr ((), s') \<and> env_rel cid h' s'"
proof -
  obtain t where t: "del_with_host (data_key cid k) (h_storage h) = Inr (u, t)" "h' = h\<lparr>h_storage := t\<rparr>"
    using run by (auto simp: del_contract_data_def key_of_call [OF rel] on_storage_Inr)
  note v = del_view [OF t(1) env_rel_D(1) [OF rel]]
  have "env_rel cid h' (del_data k s)"
    unfolding t(2) by (rule env_rel_cell [OF rel v(1), where k = k]) (simp_all add: v(2) env_cell_def del_data_def split: option.splits)
  then show ?thesis by (auto simp: storage_remove_Inr)
qed

lemma sim_extend_data:
  assumes rel: "env_rel cid h s" and k: "k \<noteq> LedgerKeyContractInstanceV"
    and run: "extend_contract_data_ttl k PersistentT thr ext h = Inr (u, h')"
  shows "\<exists>s'. extend_ttl k thr ext s = Inr ((), s') \<and> env_rel cid h' s'"
proof -
  obtain t where t: "st_extend_ttl (h_ledger h) (data_key cid k) thr ext (h_storage h) = Inr (u, t)"
    "h' = h\<lparr>h_storage := t\<rparr>"
    using run
    by (auto simp: extend_contract_data_ttl_def key_of_call [OF rel] storage_extend_ttl_def on_storage_Inr)
  note x = extend_view [OF t(1) env_rel_D(1) [OF rel]]
  have dur: "get_key_durability (data_key cid k) = Some Persistent"
    by (simp add: get_key_durability_def data_key_def)
  obtain entry old l where 1: "view (h_storage h) (data_key cid k) = Some (entry, Some old)" "\<not> ext < thr"
    "extended_live_until (h_ledger h) (Some Persistent) thr ext old = Inr l"
    "view t = (view (h_storage h))(data_key cid k \<mapsto> (entry, Some l))"
    using x(1) unfolding dur by blast
  obtain w where w: "env_data s k = Some w" "env_live s k = Some old"
    "entry = ContractDataE (ContractAddr cid) k Persistent (DataVal w)"
    using 1(1) env_rel_D(4) [OF rel k] by (auto simp: env_cell_def split: option.splits)
  let ?s = "s\<lparr>env_live := (env_live s)(k \<mapsto> l)\<rparr>"
  have "env_rel cid h' ?s"
    unfolding t(2) by (rule env_rel_cell [OF rel x(2), where k = k]) (simp_all add: 1(4) env_cell_def w split: option.splits)
  moreover have "extend_ttl k thr ext s = Inr ((), ?s)"
    using 1(2,3) w env_rel_D(3) [OF rel] by (simp add: extend_ttl_def)
  ultimately show ?thesis by blast
qed

lemma sim_put:
  assumes rel: "env_rel cid h s" and k: "k \<noteq> LedgerKeyContractInstanceV"
    and run: "put_contract_data k v PersistentT h = Inr (u, h')"
  shows "\<exists>s'. storage_set k v s = Inr ((), s') \<and> env_rel cid h' s'"
proof -
  let ?k = "data_key cid k"
  obtain b t h1 where b: "has_with_host ?k (h_storage h) = Inr (b, t)" "h1 = h\<lparr>h_storage := t\<rparr>"
    and rest: "(if b then
       bind_op (on_storage (get_with_live_until_ledger ?k)) (\<lambda>(current, live_until).
         case current of
           ContractDataE c k' d' _ \<Rightarrow>
             on_storage (put_with_host ?k (ContractDataE c k' d' (DataVal v)) live_until)
         | _ \<Rightarrow> fail (HostErr EStorage InternalError))
     else
       bind_op get_current_contract_id_internal (\<lambda>cid.
       bind_op (\<lambda>h. of_result (get_min_live_until_ledger (h_ledger h) Persistent) h) (\<lambda>l.
         on_storage (put_with_host ?k (ContractDataE (ContractAddr cid) k Persistent (DataVal v)) (Some l)))))
      h1 = Inr (u, h')"
    using run unfolding put_contract_data_def put_contract_data_into_ledger_def
      storage_type.case storage_durability.simps key_of_call [OF rel] bind_op_Inr on_storage_Inr
    by blast
  note hv = has_view [OF b(1) env_rel_D(1) [OF rel]]
  have rel1: "env_rel cid h1 s" unfolding b(2) by (rule env_rel_same [OF rel hv(2,3)])
  show ?thesis
  proof (cases "env_data s k")
    case None
    then have "\<not> b" using hv(1) env_rel_D(4) [OF rel k] by (simp add: env_cell_def)
    with rest obtain l t2 where l: "get_min_live_until_ledger (h_ledger h1) Persistent = Inr l"
      and t2: "put_with_host ?k (ContractDataE (ContractAddr cid) k Persistent (DataVal v)) (Some l)
        (h_storage h1) = Inr (u, t2)" "h' = h1\<lparr>h_storage := t2\<rparr>"
      using env_rel_D(2) [OF rel1]
      by (auto simp: bind_op_Inr of_result_Inr on_storage_Inr get_current_contract_id_internal_def)
    note pv = put_view [OF t2(1) env_rel_D(1) [OF rel1]]
    let ?s = "s\<lparr>env_data := (env_data s)(k \<mapsto> v), env_live := (env_live s)(k \<mapsto> l)\<rparr>"
    have "env_rel cid h' ?s"
      unfolding t2(2) by (rule env_rel_cell [OF rel1 pv(1), where k = k]) (simp_all add: pv(2) env_cell_def split: option.splits)
    moreover have "storage_set k v s = Inr ((), ?s)"
      using None l env_rel_D(3) [OF rel1] by (simp add: storage_set_def)
    ultimately show ?thesis by blast
  next
    case (Some w)
    then have b': b using hv(1) env_rel_D(4) [OF rel k] by (simp add: env_cell_def)
    with rest obtain cur live t1 where
      g: "get_with_live_until_ledger ?k (h_storage h1) = Inr ((cur, live), t1)"
      and put: "(case cur of
           ContractDataE c k' d' _ \<Rightarrow>
             on_storage (put_with_host ?k (ContractDataE c k' d' (DataVal v)) live)
         | _ \<Rightarrow> fail (HostErr EStorage InternalError)) (h1\<lparr>h_storage := t1\<rparr>) = Inr (u, h')"
      by (auto simp: bind_op_Inr on_storage_Inr)
    note gv = get_live_view [OF g env_rel_D(1) [OF rel1]]
    have rel2: "env_rel cid (h1\<lparr>h_storage := t1\<rparr>) s" by (rule env_rel_same [OF rel1 gv(2,3)])
    have cur: "cur = ContractDataE (ContractAddr cid) k Persistent (DataVal w)" "live = env_live s k"
      using gv(1) env_rel_D(4) [OF rel1 k] Some by (simp_all add: env_cell_def)
    with put obtain t2 where t2: "put_with_host ?k
        (ContractDataE (ContractAddr cid) k Persistent (DataVal v)) (env_live s k) t1 = Inr (u, t2)"
      "h' = h1\<lparr>h_storage := t1\<rparr>\<lparr>h_storage := t2\<rparr>"
      by (auto simp: on_storage_Inr)
    note pv = put_view [OF t2(1) gv(2)]
    let ?s = "s\<lparr>env_data := (env_data s)(k \<mapsto> v)\<rparr>"
    have "env_rel cid h' ?s"
      unfolding t2(2) by (rule env_rel_cell [OF rel2 pv(1), where k = k]) (simp_all add: pv(2) env_cell_def split: option.splits)
    moreover have "storage_set k v s = Inr ((), ?s)"
      using Some by (simp add: storage_set_def)
    ultimately show ?thesis by blast
  qed
qed

lemma sim_data_call:
  assumes "env_rel cid h s" and "call_key c \<noteq> LedgerKeyContractInstanceV"
    and "host_call c h = Inr (r, h')"
  shows "\<exists>s'. env_call c s = Inr (r, s') \<and> env_rel cid h' s'"
proof (cases c)
  case (PutD k v)
  with assms sim_put [OF assms(1), of k v] show ?thesis by (fastforce simp: then_op_Inr)
next
  case (GetD k)
  with assms(3) obtain x h1 where "get_contract_data k PersistentT h = Inr (x, h1)"
    and x: "(case x of DataVal v \<Rightarrow> ret (ValueR v) | InstanceVal _ \<Rightarrow> fail ConversionError) h1 = Inr (r, h')"
    by (auto simp: bind_op_Inr)
  with sim_get [OF assms(1) _ this(1)] assms(2) GetD obtain v where
    "x = DataVal v" "storage_get Some k s = Inr (Some v, s)" "env_rel cid h1 s" by auto
  with x GetD show ?thesis by (auto simp: bind_op_eval)
next
  case (HasD k)
  with assms sim_has [OF assms(1), of k] show ?thesis by (fastforce simp: bind_op_Inr)
next
  case (DelD k)
  with assms sim_del [OF assms(1), of k] show ?thesis by (fastforce simp: then_op_Inr)
next
  case (ExtendD k thr ext)
  with assms sim_extend_data [OF assms(1), of k thr ext] show ?thesis by (fastforce simp: then_op_Inr)
qed

lemma sim_data_calls:
  assumes "env_rel cid h s" and "\<forall>c \<in> set cs. call_key c \<noteq> LedgerKeyContractInstanceV"
    and "run_ops (map host_call cs) h = Inr (rs, h')"
  shows "\<exists>s'. run_ops (map env_call cs) s = Inr (rs, s') \<and> env_rel cid h' s'"
  using assms
proof (induction cs arbitrary: h s rs)
  case Nil
  then show ?case by auto
next
  case (Cons c cs)
  then obtain r h1 rs' where 1: "host_call c h = Inr (r, h1)"
    "run_ops (map host_call cs) h1 = Inr (rs', h')" "rs = r # rs'"
    by (auto simp: bind_op_Inr)
  from Cons.prems(2) have c: "call_key c \<noteq> LedgerKeyContractInstanceV" by simp
  obtain s1 where s1: "env_call c s = Inr (r, s1)" "env_rel cid h1 s1"
    using sim_data_call [OF Cons.prems(1) c 1(1)] by blast
  from Cons.IH [OF s1(2) _ 1(2)] Cons.prems(2) s1(1) 1(3) show ?case
    by (auto simp: bind_op_Inr)
qed

end
