(* ===== verification/Auth_Manager_Inv.thy ===== *)
theory Auth_Manager_Inv
  imports Auth_Manager
begin

text \<open>
  How the authorization manager evolves while a frame runs. \<open>am_ok\<close> is its invariant: the trackers
  are consistent and follow the call stack. \<open>am_evolves\<close> relates the manager at two points of one
  frame; calls that return (\<open>am_evolves_frame\<close>) keep it, and a call that fails restores the manager
  as it was before the call (\<open>am_frame_rollback\<close>), except that the trackers a contract has created
  for that call are dropped.
\<close>

section \<open>Definitions\<close>

abbreviation cell_invocation :: "tracker_cell \<Rightarrow> invocation_tracker" where
  "cell_invocation c \<equiv> at_invocation (tc_tracker c)"

definition in_scope :: "invoker_tracker \<Rightarrow> bool" where
  "in_scope t \<longleftrightarrow> \<not> is_out_of_scope t"

abbreviation live :: "invoker_tracker list \<Rightarrow> invoker_tracker list" where
  "live ts \<equiv> takeWhile in_scope ts"

definition cell_ok :: "nat \<Rightarrow> tracker_cell \<Rightarrow> bool" where
  "cell_ok depth c \<longleftrightarrow>
     tracker_ok (cell_invocation c) \<and>
     (\<not> tc_borrowed c \<longrightarrow> length (it_match_stack (cell_invocation c)) = depth)"

definition invokers_ok :: "invoker_tracker list \<Rightarrow> bool" where
  "invokers_ok ts \<longleftrightarrow>
     (\<forall>t \<in> set ts. tracker_ok (iv_invocation t)) \<and>
     (\<forall>t \<in> set (dropWhile in_scope ts). is_out_of_scope t)"

definition am_ok :: "auth_manager \<Rightarrow> bool" where
  "am_ok m \<longleftrightarrow>
     (\<forall>c \<in> set (am_accounts m). cell_ok (length (am_call_stack m)) c) \<and>
     invokers_ok (am_invokers m) \<and>
     (am_mode m \<noteq> EnforcingAuth \<longrightarrow> (\<forall>c \<in> set (am_accounts m). \<not> tc_borrowed c))"

definition account_identity :: "account_tracker \<Rightarrow> address \<times> sc_val \<times> bool \<times> (64 word \<times> u32) option" where
  "account_identity t = (at_address t, at_signature t, at_is_source t, at_nonce t)"

definition account_evolves :: "account_tracker \<Rightarrow> account_tracker \<Rightarrow> bool" where
  "account_evolves t t' \<longleftrightarrow>
     (\<exists>M. evolves (at_invocation t) M (at_invocation t')) \<and>
     account_identity t' = account_identity t"

definition cell_evolves :: "tracker_cell \<Rightarrow> tracker_cell \<Rightarrow> bool" where
  "cell_evolves c c' \<longleftrightarrow>
     (if tc_borrowed c then c' = c
      else \<not> tc_borrowed c' \<and> account_evolves (tc_tracker c) (tc_tracker c'))"

definition invoker_evolves :: "invoker_tracker \<Rightarrow> invoker_tracker \<Rightarrow> bool" where
  "invoker_evolves t t' \<longleftrightarrow>
     (\<exists>M. evolves (iv_invocation t) M (iv_invocation t')) \<and> iv_contract t' = iv_contract t"

definition same_mode :: "authorization_mode \<Rightarrow> authorization_mode \<Rightarrow> bool" where
  "same_mode md md' \<longleftrightarrow>
     (case (md, md') of
        (EnforcingAuth, EnforcingAuth) \<Rightarrow> True
      | (RecordingAuth i, RecordingAuth j) \<Rightarrow> rec_disable_non_root_auth j = rec_disable_non_root_auth i
      | _ \<Rightarrow> False)"

definition am_evolves :: "auth_manager \<Rightarrow> auth_manager \<Rightarrow> bool" where
  "am_evolves m m' \<longleftrightarrow>
     am_ok m' \<and> same_mode (am_mode m) (am_mode m') \<and> am_call_stack m' = am_call_stack m \<and>
     (am_mode m = EnforcingAuth \<longrightarrow> list_all2 cell_evolves (am_accounts m) (am_accounts m')) \<and>
     (\<exists>pre fresh. am_invokers m' = pre @ fresh \<and>
        list_all2 invoker_evolves (live (am_invokers m)) pre \<and> (\<forall>t \<in> set fresh. is_out_of_scope t))"

text \<open>No trackers are left for calls that have not been made since \<open>m\<close>.\<close>

definition settled :: "auth_manager \<Rightarrow> auth_manager \<Rightarrow> bool" where
  "settled m m' \<longleftrightarrow> length (am_invokers m') = length (live (am_invokers m))"

section \<open>Reflexivity and transitivity\<close>

lemma account_evolves_refl: "tracker_ok (at_invocation t) \<Longrightarrow> account_evolves t t"
  unfolding account_evolves_def using evolves_refl by auto

lemma account_evolves_trans: "account_evolves t t' \<Longrightarrow> account_evolves t' t'' \<Longrightarrow> account_evolves t t''"
  by (auto simp: account_evolves_def intro: evolves_trans)

lemma cell_evolves_refl: "cell_ok n c \<Longrightarrow> cell_evolves c c"
  by (simp add: cell_evolves_def cell_ok_def account_evolves_refl)

lemma cell_evolves_trans: "cell_evolves c c' \<Longrightarrow> cell_evolves c' c'' \<Longrightarrow> cell_evolves c c''"
  by (auto simp: cell_evolves_def split: if_splits intro: account_evolves_trans)

lemma invoker_evolves_refl: "tracker_ok (iv_invocation t) \<Longrightarrow> invoker_evolves t t"
  unfolding invoker_evolves_def using evolves_refl by auto

lemma invoker_evolves_trans:
  "invoker_evolves t t' \<Longrightarrow> invoker_evolves t' t'' \<Longrightarrow> invoker_evolves t t''"
  by (auto simp: invoker_evolves_def intro: evolves_trans)

lemma invoker_evolves_scope: "invoker_evolves t t' \<Longrightarrow> in_scope t' \<longleftrightarrow> in_scope t"
  by (auto simp: invoker_evolves_def in_scope_def is_out_of_scope_def tracker_is_empty_def evolves_def)

lemma same_mode_refl [simp]: "same_mode md md"
  by (cases md) (simp_all add: same_mode_def)

lemma same_mode_trans: "same_mode md md' \<Longrightarrow> same_mode md' md'' \<Longrightarrow> same_mode md md''"
  by (auto simp: same_mode_def split: authorization_mode.splits)

lemma same_mode_enforcing: "same_mode md md' \<Longrightarrow> md' = EnforcingAuth \<longleftrightarrow> md = EnforcingAuth"
  by (auto simp: same_mode_def split: authorization_mode.splits)

lemma live_append:
  assumes "\<forall>t \<in> set ts. in_scope t" and "\<forall>t \<in> set fresh. is_out_of_scope t"
  shows "live (ts @ fresh) = ts" and "dropWhile in_scope (ts @ fresh) = fresh"
proof -
  have "live fresh = []" "dropWhile in_scope fresh = fresh"
    using assms(2) by (cases fresh; simp add: in_scope_def)+
  with assms(1) show "live (ts @ fresh) = ts" "dropWhile in_scope (ts @ fresh) = fresh"
    by simp_all
qed

lemma list_all2_set: "list_all2 P xs ys \<Longrightarrow> y \<in> set ys \<Longrightarrow> \<exists>x \<in> set xs. P x y"
  by (metis in_set_conv_nth list_all2_conv_all_nth)

lemma live_evolved:
  assumes "list_all2 invoker_evolves (live ts) pre" and "\<forall>t \<in> set fresh. is_out_of_scope t"
  shows "live (pre @ fresh) = pre"
proof (rule live_append(1) [OF _ assms(2)])
  show "\<forall>t \<in> set pre. in_scope t"
    using assms(1) by (metis invoker_evolves_scope list_all2_set set_takeWhileD)
qed

lemma list_all2_refl_on: "(\<And>x. x \<in> set xs \<Longrightarrow> P x x) \<Longrightarrow> list_all2 P xs xs"
  by (simp add: list_all2_conv_all_nth)

lemma am_evolves_refl:
  assumes "am_ok m"
  shows "am_evolves m m"
proof -
  have "list_all2 invoker_evolves (live (am_invokers m)) (live (am_invokers m))"
    using assms
    by (intro list_all2_refl_on invoker_evolves_refl)
      (auto simp: am_ok_def invokers_ok_def dest: set_takeWhileD)
  moreover have "am_invokers m = live (am_invokers m) @ dropWhile in_scope (am_invokers m)" by simp
  moreover have "list_all2 cell_evolves (am_accounts m) (am_accounts m)"
    using assms by (intro list_all2_refl_on) (auto simp: am_ok_def intro: cell_evolves_refl)
  ultimately show ?thesis
    using assms unfolding am_evolves_def by (metis am_ok_def invokers_ok_def same_mode_refl)
qed

lemma am_evolves_trans:
  assumes "am_evolves m m'" and "am_evolves m' m''"
  shows "am_evolves m m''"
proof -
  obtain pre fresh where 1: "am_invokers m' = pre @ fresh"
    "list_all2 invoker_evolves (live (am_invokers m)) pre" "\<forall>t \<in> set fresh. is_out_of_scope t"
    using assms(1) by (auto simp: am_evolves_def)
  obtain pre' fresh' where 2: "am_invokers m'' = pre' @ fresh'"
    "list_all2 invoker_evolves (live (am_invokers m')) pre'" "\<forall>t \<in> set fresh'. is_out_of_scope t"
    using assms(2) by (auto simp: am_evolves_def)
  have "live (am_invokers m') = pre" using live_evolved 1 by simp
  with 2 have "list_all2 invoker_evolves pre pre'" by simp
  with 1(2) have "list_all2 invoker_evolves (live (am_invokers m)) pre'"
    by (rule list_all2_trans [rotated]) (erule (1) invoker_evolves_trans)
  moreover have "list_all2 cell_evolves (am_accounts m) (am_accounts m'')"
    if "am_mode m = EnforcingAuth"
  proof -
    have "am_mode m' = EnforcingAuth" using assms(1) that by (auto simp: am_evolves_def same_mode_enforcing)
    with assms that have "list_all2 cell_evolves (am_accounts m) (am_accounts m')"
      "list_all2 cell_evolves (am_accounts m') (am_accounts m'')"
      by (simp_all add: am_evolves_def)
    then show ?thesis by (rule list_all2_trans [rotated]) (erule (1) cell_evolves_trans)
  qed
  ultimately show ?thesis
    using assms 2 unfolding am_evolves_def by (metis same_mode_trans)
qed

section \<open>Frames\<close>

lemma if_free_sel [simp]: "tc_borrowed (if_free f c) = tc_borrowed c"
  by (simp add: if_free_def)

lemma push_ok:
  assumes "am_ok m"
  shows "am_ok (push_tracker_frame (m\<lparr>am_call_stack := am_call_stack m @ [fr]\<rparr>))"
  using assms
  by (auto simp: am_ok_def push_tracker_frame_def cell_ok_def invokers_ok_def if_free_def
      account_push_frame_def invoker_push_frame_def push_frame_ok in_scope_def is_out_of_scope_def
      tracker_is_empty_def dropWhile_map comp_def split: if_splits)

lemma pushed_in_scope: "in_scope (invoker_push_frame t)"
  by (simp add: in_scope_def is_out_of_scope_def tracker_is_empty_def invoker_push_frame_def)

lemma live_pushed [simp]: "live (map invoker_push_frame ts) = map invoker_push_frame ts"
  by (simp add: takeWhile_eq_all_conv pushed_in_scope)

lemma live_split:
  assumes "invokers_ok ts"
  obtains fresh where "ts = live ts @ fresh" "\<forall>t \<in> set fresh. is_out_of_scope t"
  using assms that [of "dropWhile in_scope ts"] by (simp add: invokers_ok_def)

lemma drop_out_of_scope_eq:
  assumes "\<forall>t \<in> set ts. in_scope t" and "\<forall>t \<in> set fresh. is_out_of_scope t"
  shows "drop_out_of_scope (ts @ fresh) = ts"
proof -
  have "dropWhile is_out_of_scope (rev fresh @ rev ts) = dropWhile is_out_of_scope (rev ts)"
    using assms(2) by (intro dropWhile_append2) simp
  also have "\<dots> = rev ts" using assms(1) by (cases "rev ts") (auto simp: in_scope_def)
  finally show ?thesis by (simp add: drop_out_of_scope_def)
qed

lemma drop_out_of_scope_live: "invokers_ok ts \<Longrightarrow> drop_out_of_scope ts = live ts"
  by (metis drop_out_of_scope_eq live_split set_takeWhileD)

text \<open>The trackers of a call after it, from their states in the frame of the call.\<close>

lemma popped_invoker_evolves:
  assumes "tracker_ok (iv_invocation t)" and "invoker_evolves (invoker_push_frame t) t1"
  shows "invoker_evolves t (invoker_pop_frame t1)"
  using assms evolves_frame
  by (auto simp: invoker_evolves_def invoker_push_frame_def invoker_pop_frame_def)

lemma popped_invokers:
  assumes ok: "invokers_ok ts"
    and all: "list_all2 invoker_evolves (map invoker_push_frame ts) pre"
    and fresh: "\<forall>t \<in> set fresh. is_out_of_scope t"
  shows "list_all2 invoker_evolves (live ts) (drop_out_of_scope (map invoker_pop_frame (pre @ fresh)))"
proof -
  obtain ts0 where ts: "ts = live ts @ ts0" "\<forall>t \<in> set ts0. is_out_of_scope t"
    using live_split [OF ok] by blast
  have "list_all2 invoker_evolves ts (map invoker_pop_frame pre)"
    using all ok unfolding list_all2_conv_all_nth invokers_ok_def
    by (auto intro: popped_invoker_evolves)
  then obtain ps qs where ps: "map invoker_pop_frame pre = ps @ qs"
    "list_all2 invoker_evolves (live ts) ps" "list_all2 invoker_evolves ts0 qs"
    using ts(1) by (metis list_all2_append1)
  have "\<forall>t \<in> set ps. in_scope t"
    using ps(2) by (metis invoker_evolves_scope list_all2_set set_takeWhileD)
  moreover have "\<forall>t \<in> set (qs @ map invoker_pop_frame fresh). is_out_of_scope t"
  proof -
    have "\<forall>t \<in> set qs. is_out_of_scope t"
      using ps(3) ts(2) by (metis in_scope_def invoker_evolves_scope list_all2_set)
    then show ?thesis
      using fresh by (auto simp: is_out_of_scope_def tracker_is_empty_def invoker_pop_frame_def)
  qed
  ultimately have "drop_out_of_scope (map invoker_pop_frame (pre @ fresh)) = ps"
    using drop_out_of_scope_eq [of ps "qs @ map invoker_pop_frame fresh"] ps(1) by simp
  with ps(2) show ?thesis by simp
qed

lemma popped_cell_evolves:
  assumes "cell_ok n c" and "cell_evolves (if_free account_push_frame c) c1"
  shows "cell_evolves c (if_free account_pop_frame c1)"
proof (cases "tc_borrowed c")
  case True
  with assms show ?thesis by (simp add: cell_evolves_def if_free_def)
next
  case False
  have "account_evolves (tc_tracker c) (account_pop_frame (tc_tracker c1))"
    using assms False evolves_frame
    by (auto simp: cell_evolves_def if_free_def account_evolves_def account_push_frame_def
        account_pop_frame_def cell_ok_def account_identity_def)
  with False assms show ?thesis by (simp add: cell_evolves_def if_free_def split: if_splits)
qed

definition pushed :: "auth_stack_frame \<Rightarrow> auth_manager \<Rightarrow> auth_manager" where
  "pushed fr m = push_tracker_frame (m\<lparr>am_call_stack := am_call_stack m @ [fr]\<rparr>)"

lemma pushed_sel [simp]:
  "am_call_stack (pushed fr m) = am_call_stack m @ [fr]"
  "am_mode (pushed fr m) = am_mode m"
  "am_accounts (pushed fr m) = map (if_free account_push_frame) (am_accounts m)"
  "am_invokers (pushed fr m) = map invoker_push_frame (am_invokers m)"
  by (simp_all add: pushed_def push_tracker_frame_def)

lemma pushed_ok: "am_ok m \<Longrightarrow> am_ok (pushed fr m)"
  unfolding pushed_def by (rule push_ok)

lemma popped_cell_ok: "cell_ok (Suc n) c \<Longrightarrow> cell_ok n (if_free account_pop_frame c)"
  by (auto simp: cell_ok_def if_free_def account_pop_frame_def pop_frame_ok)

lemma am_evolves_frame:
  assumes ok: "am_ok m" and ev: "am_evolves (pushed fr m) m1"
  shows "am_evolves m (pop_tracker_frame m1)" and "settled m (pop_tracker_frame m1)"
proof -
  obtain pre fresh where inv: "am_invokers m1 = pre @ fresh"
    "list_all2 invoker_evolves (map invoker_push_frame (am_invokers m)) pre"
    "\<forall>t \<in> set fresh. is_out_of_scope t"
    using ev by (auto simp: am_evolves_def)
  have stack: "am_call_stack m1 = am_call_stack m @ [fr]" using ev by (simp add: am_evolves_def)
  let ?ts = "drop_out_of_scope (map invoker_pop_frame (am_invokers m1))"
  have pop: "pop_tracker_frame m1 = m1\<lparr>am_call_stack := am_call_stack m,
      am_accounts := map (if_free account_pop_frame) (am_accounts m1), am_invokers := ?ts\<rparr>"
    by (simp add: pop_tracker_frame_def stack)
  have "invokers_ok (am_invokers m)" using ok by (simp add: am_ok_def)
  then have all: "list_all2 invoker_evolves (live (am_invokers m)) ?ts"
    using popped_invokers inv by simp
  then have "\<forall>t \<in> set ?ts. tracker_ok (iv_invocation t) \<and> in_scope t"
    by (metis evolves_ok invoker_evolves_def invoker_evolves_scope list_all2_set set_takeWhileD)
  then have "invokers_ok ?ts" by (simp add: invokers_ok_def dropWhile_eq_Nil_conv [THEN iffD2])
  moreover have "\<forall>c \<in> set (am_accounts m1). cell_ok (Suc (length (am_call_stack m))) c"
    using ev stack by (simp add: am_evolves_def am_ok_def)
  ultimately have "am_ok (pop_tracker_frame m1)"
    using ev by (auto simp: pop am_ok_def am_evolves_def intro: popped_cell_ok)
  moreover have "list_all2 cell_evolves (am_accounts m) (map (if_free account_pop_frame) (am_accounts m1))"
    if "am_mode m = EnforcingAuth"
  proof -
    have "list_all2 cell_evolves (map (if_free account_push_frame) (am_accounts m)) (am_accounts m1)"
      using ev that by (simp add: am_evolves_def)
    moreover have "\<forall>c \<in> set (am_accounts m). cell_ok (length (am_call_stack m)) c"
      using ok by (simp add: am_ok_def)
    ultimately show ?thesis
      by (auto simp: list_all2_conv_all_nth
          intro!: popped_cell_evolves [of "length (am_call_stack m)"])
  qed
  moreover have "\<exists>pre fresh. ?ts = pre @ fresh \<and> list_all2 invoker_evolves (live (am_invokers m)) pre \<and>
      (\<forall>t \<in> set fresh. is_out_of_scope t)"
    using all by (metis append_Nil2 empty_iff list.set(1))
  moreover have "same_mode (am_mode m) (am_mode m1)" using ev by (simp add: am_evolves_def)
  ultimately show "am_evolves m (pop_tracker_frame m1)" unfolding am_evolves_def by (simp add: pop)
  show "settled m (pop_tracker_frame m1)"
    using all by (simp add: settled_def pop list_all2_conv_all_nth)
qed

text \<open>A loop over two lists that does not fail.\<close>

lemma update_each_all:
  assumes "length xs = length cs" and "length ys = length cs"
    and "\<And>i. i < length cs \<Longrightarrow> \<exists>z. f (xs ! i) (ys ! i) = Inr z \<and> h z = cs ! i"
  shows "\<exists>zs. update_each f xs ys = (Inr (), zs) \<and> map h zs = cs"
  using assms
proof (induction cs arbitrary: xs ys)
  case Nil
  then show ?case by simp
next
  case (Cons c cs)
  then obtain x xs' y ys' where xs: "xs = x # xs'" "ys = y # ys'"
    by (metis length_Suc_conv)
  obtain z where "f x y = Inr z" "h z = c" using Cons.prems(3) [of 0] xs by auto
  moreover obtain zs where "update_each f xs' ys' = (Inr (), zs)" "map h zs = cs"
    using Cons.IH [of xs' ys'] Cons.prems xs by fastforce
  ultimately show ?case using xs by auto
qed

lemma rolled_back_cell:
  assumes "cell_ok n c" and "cell_evolves (if_free account_push_frame c) c1"
  shows "\<exists>z. rollback_cell c1
      (if tc_borrowed c then None
       else Some (account_snapshot (tc_tracker (if_free account_push_frame c)))) = Inr z \<and>
    if_free account_pop_frame z = c"
proof (cases "tc_borrowed c")
  case True
  with assms show ?thesis by (simp add: rollback_cell_def cell_evolves_def if_free_def)
next
  case False
  then obtain M where M: "evolves (tracker_push_frame (cell_invocation c)) M (cell_invocation c1)"
    and id: "account_identity (tc_tracker c1) = account_identity (tc_tracker c)" "\<not> tc_borrowed c1"
    using assms(2)
    by (auto simp: cell_evolves_def if_free_def account_evolves_def account_push_frame_def
        account_identity_def)
  then obtain t2 where "tracker_rollback (cell_invocation c1) (tracker_snapshot (cell_invocation c)) = Inr t2"
    "tracker_pop_frame t2 = cell_invocation c"
    using frame_rollback assms(1) unfolding cell_ok_def by blast
  with False id show ?thesis
    by (auto simp: rollback_cell_def account_rollback_def account_snapshot_def if_free_def
        account_push_frame_def account_pop_frame_def account_identity_def
        intro!: tracker_cell.equality account_tracker.equality)
qed

lemma rolled_back_invoker:
  assumes "tracker_ok (iv_invocation t)" and "invoker_evolves (invoker_push_frame t) t1"
  shows "\<exists>z. rollback_invoker t1 (tracker_snapshot (iv_invocation (invoker_push_frame t))) = Inr z \<and>
    invoker_pop_frame z = t"
proof -
  obtain t2 where "tracker_rollback (iv_invocation t1) (tracker_snapshot (iv_invocation t)) = Inr t2"
    "tracker_pop_frame t2 = iv_invocation t"
    using frame_rollback assms by (fastforce simp: invoker_evolves_def invoker_push_frame_def)
  with assms(2) show ?thesis
    by (auto simp: rollback_invoker_def invoker_push_frame_def invoker_pop_frame_def
        invoker_evolves_def intro!: invoker_tracker.equality)
qed

lemma pop_push_cell:
  assumes "cell_ok n c"
  shows "if_free account_pop_frame (if_free account_push_frame c) = c"
proof -
  have "tracker_pop_frame (tracker_push_frame (cell_invocation c)) = cell_invocation c"
    using pop_push [of "cell_invocation c" "it_match_stack (cell_invocation c) @ [Unmatched]"] assms
    by (simp add: cell_ok_def tracker_push_frame_def)
  then show ?thesis by (simp add: if_free_def account_push_frame_def account_pop_frame_def)
qed

lemma rollback_accounts_ok:
  assumes ok: "am_ok m" and ev: "am_evolves (pushed fr m) m1"
  obtains cs where "rollback_accounts (ams_accounts (am_snapshot (pushed fr m))) m1 =
      (Inr (), m1\<lparr>am_accounts := cs\<rparr>)"
    "map (if_free account_pop_frame) cs = am_accounts m"
proof (cases "am_mode m")
  case EnforcingAuth
  have cells: "\<forall>c \<in> set (am_accounts m). cell_ok (length (am_call_stack m)) c"
    using ok by (simp add: am_ok_def)
  let ?snaps = "map (\<lambda>c. if tc_borrowed c then None else Some (account_snapshot (tc_tracker c)))
    (map (if_free account_push_frame) (am_accounts m))"
  have all: "list_all2 cell_evolves (map (if_free account_push_frame) (am_accounts m)) (am_accounts m1)"
    using ev EnforcingAuth by (simp add: am_evolves_def)
  then have l: "length (am_accounts m1) = length (am_accounts m)" by (simp add: list_all2_conv_all_nth)
  have "\<exists>zs. update_each rollback_cell (am_accounts m1) ?snaps = (Inr (), zs) \<and>
      map (if_free account_pop_frame) zs = am_accounts m"
  proof (rule update_each_all)
    fix i
    assume i: "i < length (am_accounts m)"
    then have "cell_evolves (if_free account_push_frame (am_accounts m ! i)) (am_accounts m1 ! i)"
      using all by (simp add: list_all2_conv_all_nth)
    with i cells show "\<exists>z. rollback_cell (am_accounts m1 ! i) (?snaps ! i) = Inr z \<and>
        if_free account_pop_frame z = am_accounts m ! i"
      using rolled_back_cell by fastforce
  qed (simp_all add: l)
  with that l EnforcingAuth show thesis
    by (auto simp: rollback_accounts_def am_snapshot_def)
next
  case (RecordingAuth info)
  have "map (if_free account_pop_frame) (map (if_free account_push_frame) (am_accounts m)) = am_accounts m"
    unfolding map_map
    by (rule map_idI) (use ok in \<open>auto simp: am_ok_def intro: pop_push_cell\<close>)
  with that RecordingAuth show thesis by (simp add: rollback_accounts_def am_snapshot_def)
qed

text \<open>
  A failed call: its rollback and the pop of its frame restore the manager, but for the invoker
  trackers that were waiting for a call. If trackers are left that the failed frame has created,
  the rollback is an internal error and the frame is not popped.
\<close>

lemma am_frame_rollback:
  assumes ok: "am_ok m" and ev: "am_evolves (pushed fr m) m1"
    and len: "length (am_invokers m1) = length (am_invokers m)"
  shows "am_pop_frame (Some (am_snapshot (pushed fr m))) m1 =
    (Inr (), m\<lparr>am_invokers := live (am_invokers m)\<rparr>)"
proof -
  let ?s = "am_snapshot (pushed fr m)"
  have stack: "am_call_stack m1 = am_call_stack m @ [fr]" and mode: "same_mode (am_mode m) (am_mode m1)"
    using ev by (simp_all add: am_evolves_def)
  have invs: "invokers_ok (am_invokers m)" using ok by (simp add: am_ok_def)
  obtain cs where cs: "rollback_accounts (ams_accounts ?s) m1 = (Inr (), m1\<lparr>am_accounts := cs\<rparr>)"
    "map (if_free account_pop_frame) cs = am_accounts m"
    by (rule rollback_accounts_ok [OF ok ev])
  obtain pre fresh where "am_invokers m1 = pre @ fresh"
    and all: "list_all2 invoker_evolves (map invoker_push_frame (am_invokers m)) pre"
    using ev by (auto simp: am_evolves_def)
  then have pre: "am_invokers m1 = pre" using len by (auto simp: list_all2_conv_all_nth)
  have "\<exists>ts. update_each rollback_invoker (am_invokers m1) (ams_invokers ?s) = (Inr (), ts) \<and>
      map invoker_pop_frame ts = am_invokers m"
  proof (rule update_each_all)
    fix i
    assume i: "i < length (am_invokers m)"
    then have "invoker_evolves (invoker_push_frame (am_invokers m ! i)) (am_invokers m1 ! i)"
      using all pre by (simp add: list_all2_conv_all_nth)
    moreover have "tracker_ok (iv_invocation (am_invokers m ! i))"
      using i invs by (simp add: invokers_ok_def)
    ultimately show "\<exists>z. rollback_invoker (am_invokers m1 ! i) (ams_invokers ?s ! i) = Inr z \<and>
        invoker_pop_frame z = am_invokers m ! i"
      using rolled_back_invoker i by (simp add: am_snapshot_def)
  qed (use len in \<open>simp_all add: am_snapshot_def\<close>)
  then obtain ts where ts: "update_each rollback_invoker (am_invokers m1) (ams_invokers ?s) = (Inr (), ts)"
    "map invoker_pop_frame ts = am_invokers m" by blast
  have "rollback_handles (ams_handles ?s) (m1\<lparr>am_accounts := cs, am_invokers := ts\<rparr>) =
      m1\<lparr>am_mode := am_mode m, am_accounts := cs, am_invokers := ts\<rparr>"
    using mode
    by (cases "am_mode m"; cases "am_mode m1")
      (simp_all add: rollback_handles_def am_snapshot_def same_mode_def)
  with cs(1) ts(1) len have "am_rollback ?s m1 =
      (Inr (), m1\<lparr>am_mode := am_mode m, am_accounts := cs, am_invokers := ts\<rparr>)"
    by (simp add: am_rollback_def rollback_invokers_def am_snapshot_def)
  then show ?thesis
    using cs(2) ts(2) invs stack
    by (simp add: am_pop_frame_def pop_tracker_frame_def drop_out_of_scope_live)
qed

lemma am_frame_rollback_fails:
  assumes ev: "am_evolves (pushed fr m) m1" and ok: "am_ok m"
    and len: "length (am_invokers m1) \<noteq> length (am_invokers m)"
  shows "\<exists>m2. am_pop_frame (Some (am_snapshot (pushed fr m))) m1 = (Inl (HostErr EAuth InternalError), m2) \<and>
    am_call_stack m2 = am_call_stack m1"
proof -
  obtain cs where "rollback_accounts (ams_accounts (am_snapshot (pushed fr m))) m1 =
      (Inr (), m1\<lparr>am_accounts := cs\<rparr>)"
    by (rule rollback_accounts_ok [OF ok ev])
  with len show ?thesis
    by (simp add: am_pop_frame_def am_rollback_def rollback_invokers_def am_snapshot_def)
qed

text \<open>
  The frame of a host function is the first of an invocation and not followed; the manager is
  rolled back without a pop.
\<close>

definition at_bottom :: "auth_manager \<Rightarrow> bool" where
  "at_bottom m \<longleftrightarrow> am_call_stack m = [] \<and> am_invokers m = []"

lemma am_bottom_rollback:
  assumes ok: "am_ok m" and bot: "at_bottom m" and ev: "am_evolves m m1" and len: "am_invokers m1 = []"
  shows "am_pop_frame (Some (am_snapshot m)) m1 = (Inr (), m)"
proof -
  have stack: "am_call_stack m1 = []" and mode: "same_mode (am_mode m) (am_mode m1)"
    using ev bot by (simp_all add: am_evolves_def at_bottom_def)
  have "rollback_accounts (ams_accounts (am_snapshot m)) m1 = (Inr (), m1\<lparr>am_accounts := am_accounts m\<rparr>)"
  proof (cases "am_mode m")
    case EnforcingAuth
    let ?snaps = "map (\<lambda>c. if tc_borrowed c then None else Some (account_snapshot (tc_tracker c))) (am_accounts m)"
    have all: "list_all2 cell_evolves (am_accounts m) (am_accounts m1)"
      using ev EnforcingAuth by (simp add: am_evolves_def)
    then have l: "length (am_accounts m1) = length (am_accounts m)" by (simp add: list_all2_conv_all_nth)
    have "\<exists>zs. update_each rollback_cell (am_accounts m1) ?snaps = (Inr (), zs) \<and>
        map id zs = am_accounts m"
    proof (rule update_each_all)
      fix i
      assume i: "i < length (am_accounts m)"
      define c c1 where "c = am_accounts m ! i" and "c1 = am_accounts m1 ! i"
      have cev: "cell_evolves c c1" using all i by (simp add: list_all2_conv_all_nth c_def c1_def)
      have cok: "cell_ok 0 c" using ok bot i by (simp add: am_ok_def at_bottom_def c_def)
      have "\<exists>z. rollback_cell c1 (if tc_borrowed c then None else Some (account_snapshot (tc_tracker c))) =
          Inr z \<and> z = c"
      proof (cases "tc_borrowed c")
        case True
        with cev show ?thesis by (simp add: cell_evolves_def rollback_cell_def)
      next
        case False
        then obtain M where M: "evolves (cell_invocation c) M (cell_invocation c1)"
          and id: "account_identity (tc_tracker c1) = account_identity (tc_tracker c)" "\<not> tc_borrowed c1"
          using cev by (auto simp: cell_evolves_def account_evolves_def)
        have "it_match_stack (cell_invocation c) = []" "it_match_stack (cell_invocation c1) = []"
          using cok False M by (auto simp: cell_ok_def evolves_def)
        then have "tracker_rollback (cell_invocation c1) (tracker_snapshot (cell_invocation c)) =
            Inr (cell_invocation c)"
          using evolves_rollback [OF _ M] cok by (simp add: cell_ok_def)
        with False id show ?thesis
          by (auto simp: rollback_cell_def account_rollback_def account_snapshot_def account_identity_def
              intro!: tracker_cell.equality account_tracker.equality)
      qed
      then show "\<exists>z. rollback_cell (am_accounts m1 ! i) (?snaps ! i) = Inr z \<and> id z = am_accounts m ! i"
        using i by (cases "tc_borrowed c") (simp_all add: c_def c1_def)
    qed (simp_all add: l)
    with l EnforcingAuth show ?thesis by (auto simp: rollback_accounts_def am_snapshot_def)
  next
    case (RecordingAuth info)
    then show ?thesis by (simp add: rollback_accounts_def am_snapshot_def)
  qed
  moreover have "rollback_handles (ams_handles (am_snapshot m))
      (m1\<lparr>am_accounts := am_accounts m, am_invokers := []\<rparr>) =
      m1\<lparr>am_mode := am_mode m, am_accounts := am_accounts m, am_invokers := []\<rparr>"
    using mode
    by (cases "am_mode m"; cases "am_mode m1")
      (simp_all add: rollback_handles_def am_snapshot_def same_mode_def)
  ultimately have "am_rollback (am_snapshot m) m1 =
      (Inr (), m1\<lparr>am_mode := am_mode m, am_accounts := am_accounts m, am_invokers := []\<rparr>)"
    using len bot by (simp add: am_rollback_def rollback_invokers_def am_snapshot_def at_bottom_def)
  with stack len bot show ?thesis
    by (auto simp: am_pop_frame_def pop_tracker_frame_def at_bottom_def intro!: auth_manager.equality)
qed

section \<open>One frame\<close>

text \<open>The manager as the body of a frame finds it, and the snapshot taken of it.\<close>

definition am_entered :: "(hash \<times> symbol) option \<Rightarrow> auth_manager \<Rightarrow> auth_manager" where
  "am_entered call m = snd (am_push_frame call m)"

definition may_enter :: "(hash \<times> symbol) option \<Rightarrow> auth_manager \<Rightarrow> bool" where
  "may_enter call m \<longleftrightarrow> am_ok m \<and> (call = None \<longrightarrow> at_bottom m)"

lemma am_push_frame_eq: "am_push_frame call m = (am_snapshot (am_entered call m), am_entered call m)"
  by (cases call) (auto simp: am_push_frame_def am_entered_def Let_def)

lemma am_entered_simps:
  "am_entered None m = m"
  "am_entered (Some (c, f)) m = pushed (ContractFrame (ContractAddr c) f) m"
  by (simp_all add: am_entered_def am_push_frame_def pushed_def Let_def)

lemma am_entered_ok: "am_ok m \<Longrightarrow> am_ok (am_entered call m)"
  by (cases call) (auto simp: am_entered_simps pushed_ok)

lemma am_entered_settled:
  "may_enter call m \<Longrightarrow> settled (am_entered call m) (am_entered call m)"
  by (cases call) (auto simp: am_entered_simps settled_def at_bottom_def may_enter_def)

lemma am_frame_returns:
  assumes "may_enter call m" and "am_evolves (am_entered call m) m1" and "settled (am_entered call m) m1"
  shows "am_pop_frame None m1 = (Inr (), pop_tracker_frame m1)" and "am_evolves m (pop_tracker_frame m1)"
    and "settled m (pop_tracker_frame m1)"
proof -
  show "am_pop_frame None m1 = (Inr (), pop_tracker_frame m1)" by (simp add: am_pop_frame_def)
  have "am_evolves m (pop_tracker_frame m1) \<and> settled m (pop_tracker_frame m1)"
  proof (cases call)
    case None
    with assms show ?thesis
      by (simp add: am_entered_simps may_enter_def at_bottom_def am_evolves_def pop_tracker_frame_def)
  next
    case (Some p)
    obtain c f where "p = (c, f)" by (cases p)
    with assms Some show ?thesis
      using am_evolves_frame by (simp add: am_entered_simps may_enter_def)
  qed
  then show "am_evolves m (pop_tracker_frame m1)" and "settled m (pop_tracker_frame m1)" by blast+
qed

lemma am_frame_fails:
  assumes "may_enter call m" and "am_evolves (am_entered call m) m1" and "settled (am_entered call m) m1"
  shows "am_pop_frame (Some (am_snapshot (am_entered call m))) m1 =
    (Inr (), m\<lparr>am_invokers := live (am_invokers m)\<rparr>)"
proof (cases call)
  case None
  with assms show ?thesis
    using am_bottom_rollback [of m m1]
    by (simp add: am_entered_simps may_enter_def settled_def at_bottom_def)
next
  case (Some p)
  with assms show ?thesis
    using am_frame_rollback by (cases p) (simp add: am_entered_simps may_enter_def settled_def)
qed

text \<open>What a failed call leaves is a state the calling frame can go on from.\<close>

lemma am_evolves_live:
  assumes "am_ok m"
  shows "am_evolves m (m\<lparr>am_invokers := live (am_invokers m)\<rparr>)"
    and "settled m (m\<lparr>am_invokers := live (am_invokers m)\<rparr>)"
proof -
  have "invokers_ok (live (am_invokers m))"
  proof -
    have "dropWhile in_scope (live (am_invokers m)) = []"
      by (simp add: dropWhile_eq_Nil_conv) (meson set_takeWhileD)
    then show ?thesis
      using assms
      by (auto simp: am_ok_def invokers_ok_def simp del: dropWhile_eq_Nil_conv dest: set_takeWhileD)
  qed
  then have ok: "am_ok (m\<lparr>am_invokers := live (am_invokers m)\<rparr>)" using assms by (simp add: am_ok_def)
  then have "am_evolves (m\<lparr>am_invokers := live (am_invokers m)\<rparr>) (m\<lparr>am_invokers := live (am_invokers m)\<rparr>)"
    by (rule am_evolves_refl)
  moreover have "live (live (am_invokers m)) = live (am_invokers m)" by simp
  ultimately show "am_evolves m (m\<lparr>am_invokers := live (am_invokers m)\<rparr>)"
    by (simp add: am_evolves_def)
  show "settled m (m\<lparr>am_invokers := live (am_invokers m)\<rparr>)" by (simp add: settled_def)
qed

end
