(* ===== verification/Host_Frame.thy ===== *)
theory Host_Frame
  imports Host_Data Host_Env Auth_Manager_Inv
begin

text \<open>
  Frames are sub-transactions: what a call leaves of the storage map, the events, the context
  stack and the authorization manager when it fails and when it succeeds. The body of a frame is
  any computation on the host that leaves the frames below its own alone, only appends events,
  lets the authorization manager evolve as in \<open>Auth_Manager_Inv\<close>, and ends with no trackers for
  a call it has not made (\<open>well_nested\<close>); a call of a contract around such a body is
  such a computation itself, so the lemmas apply to nested calls.
\<close>

section \<open>Definitions\<close>

type_synonym ('v, 'r) body = "'v host \<Rightarrow> (error + 'r) \<times> 'v host"

definition extends_events :: "'v host \<Rightarrow> 'v host \<Rightarrow> bool" where
  "extends_events h h' \<longleftrightarrow> (\<exists>ext. h_events h' = h_events h @ ext)"

definition well_nested :: "('v, 'r) body \<Rightarrow> bool" where
  "well_nested f \<longleftrightarrow>
     (\<forall>h c cs. h_stack h = c # cs \<longrightarrow> am_ok (h_auth h) \<longrightarrow> settled (h_auth h) (h_auth h) \<longrightarrow>
        (\<exists>c'. h_stack (snd (f h)) = c' # cs) \<and> extends_events h (snd (f h)) \<and>
        am_evolves (h_auth h) (h_auth (snd (f h))) \<and> settled (h_auth h) (h_auth (snd (f h))))"

text \<open>The body is entered with its frame on the stack.\<close>

definition entered :: "'v frame \<Rightarrow> 'v host \<Rightarrow> 'v host" where
  "entered frame h =
     h\<lparr>h_stack := \<lparr>ctx_frame = frame, ctx_storage = None\<rparr> # h_stack h,
       h_auth := am_entered (frame_call frame) (h_auth h)\<rparr>"

definition failed :: "(internal_event \<times> event_error) list \<Rightarrow> (internal_event \<times> event_error) list" where
  "failed evs = map (\<lambda>(e, _). (e, FromFailedCall)) evs"

text \<open>The authorization manager after a failed call.\<close>

definition am_after_failure :: "auth_manager \<Rightarrow> auth_manager" where
  "am_after_failure m = m\<lparr>am_invokers := live (am_invokers m)\<rparr>"

section \<open>Writing the instance storage back\<close>

definition same_frames :: "'v host \<Rightarrow> 'v host \<Rightarrow> bool" where
  "same_frames h h' \<longleftrightarrow> h_stack h' = h_stack h \<and> h_events h' = h_events h \<and> h_auth h' = h_auth h"

lemma same_frames_on_storage: "on_storage f h = Inr (a, h') \<Longrightarrow> same_frames h h'"
  by (auto simp: on_storage_Inr same_frames_def)

lemma same_frames_trans: "same_frames h h1 \<Longrightarrow> same_frames h1 h' \<Longrightarrow> same_frames h h'"
  by (simp add: same_frames_def)

lemma store_instance_frames:
  assumes "store_contract_instance ex m cid key h = Inr (u, h')"
  shows "same_frames h h'"
proof -
  obtain b h1 where b: "on_storage (has_with_host key) h = Inr (b, h1)"
    using assms by (auto simp: store_contract_instance_def bind_op_Inr)
  have "same_frames h1 h'"
  proof (cases b)
    case True
    with assms b obtain cur live h2 where
      "on_storage (get_with_live_until_ledger key) h1 = Inr ((cur, live), h2)" and
      put: "(case cur of
           ContractDataE c k d (InstanceVal inst) \<Rightarrow>
             on_storage (put_with_host key
               (ContractDataE c k d (InstanceVal
                 (inst\<lparr>inst_executable := (case ex of Some e \<Rightarrow> e | None \<Rightarrow> inst_executable inst),
                       inst_storage := (case m of Some m \<Rightarrow> Some m | None \<Rightarrow> inst_storage inst)\<rparr>)))
               live)
         | _ \<Rightarrow> fail (HostErr EStorage InternalError)) h2 = Inr (u, h')"
      by (auto simp: store_contract_instance_def bind_op_Inr)
    from put have "same_frames h2 h'"
      by (auto split: ledger_entry.splits stored.splits intro: same_frames_on_storage)
    with same_frames_on_storage [OF \<open>on_storage _ h1 = _\<close>] show ?thesis
      by (rule same_frames_trans)
  next
    case False
    with assms b show ?thesis
      by (auto simp: store_contract_instance_def bind_op_Inr ok_or_Inr of_result_Inr
          intro: same_frames_on_storage)
  qed
  with same_frames_on_storage [OF b] show ?thesis by (rule same_frames_trans)
qed

lemma persist_frames:
  assumes "persist_instance_storage h = Inr (u, h')"
  shows "same_frames h h'"
  using assms
  by (auto simp: persist_instance_storage_def bind_op_Inr get_current_contract_id_internal_def
      ok_or_Inr split: list.splits option.splits if_splits
      dest!: store_instance_frames) (simp_all add: same_frames_def)

section \<open>Failure and success of a frame\<close>

lemma rollback_append: "rollback_events (length a) (a @ b) = a @ failed b"
  by (simp add: rollback_events_def failed_def)

text \<open>The outcome of a frame from the outcome of its body.\<close>

lemma with_frame_cases:
  assumes nested: "well_nested f" and depth: "length (h_stack h) < limit"
    and enter: "may_enter (frame_call frame) (h_auth h)"
  obtains (failed) ext h2 e where "snd (f (entered frame h)) = h2" "h_events h2 = h_events h @ ext"
      "with_frame limit ae ce frame f h =
        (Inl e, h2\<lparr>h_stack := h_stack h, h_storage := (h_storage h2)\<lparr>st_map := st_map (h_storage h)\<rparr>,
                   h_events := h_events h @ failed ext, h_auth := am_after_failure (h_auth h)\<rparr>)"
    | (succeeded) ext h2 h3 v where "f (entered frame h) = (Inr v, h2)" "ae v = None"
      "h_events h2 = h_events h @ ext" "h_events h3 = h_events h @ ext"
      "persist_instance_storage h2 = Inr ((), h3)"
      "am_evolves (h_auth h) (pop_tracker_frame (h_auth h3))"
      "settled (h_auth h) (pop_tracker_frame (h_auth h3))"
      "with_frame limit ae ce frame f h =
        (Inr v, h3\<lparr>h_stack := h_stack h, h_auth := pop_tracker_frame (h_auth h3)\<rparr>)"
proof -
  obtain res0 h2 where f: "f (entered frame h) = (res0, h2)" by (cases "f (entered frame h)")
  have "h_stack (entered frame h) = \<lparr>ctx_frame = frame, ctx_storage = None\<rparr> # h_stack h"
    and ok: "am_ok (h_auth (entered frame h))"
      "settled (h_auth (entered frame h)) (h_auth (entered frame h))"
    using am_entered_ok am_entered_settled [OF enter] enter by (simp_all add: entered_def may_enter_def)
  with nested f obtain c' where c': "h_stack h2 = c' # h_stack h"
    and "extends_events (entered frame h) h2"
    and ev: "am_evolves (h_auth (entered frame h)) (h_auth h2)"
    and st: "settled (h_auth (entered frame h)) (h_auth h2)"
    unfolding well_nested_def by (metis snd_conv)
  then obtain ext where ext: "h_events h2 = h_events h @ ext"
    by (auto simp: extends_events_def entered_def)
  have nd: "\<not> limit \<le> length (h_stack h)" using depth by simp
  have fails: "am_pop_frame (Some (am_snapshot (am_entered (frame_call frame) (h_auth h)))) (h_auth h2) =
      (Inr (), am_after_failure (h_auth h))"
    using am_frame_fails [OF enter] ev st by (simp add: entered_def am_after_failure_def)
  note run = with_frame_def Let_def push_context_def pop_context_def am_push_frame_eq
    entered_def [symmetric] f c' nd ext rollback_append
  show thesis
  proof (cases "frame_result ae ce res0")
    case (Inl e)
    show thesis by (intro failed [of h2 ext e]) (use Inl f ext fails in \<open>simp_all add: run\<close>)
  next
    case (Inr v)
    then have v: "res0 = Inr v" "ae v = None"
      by (auto simp: frame_result_def split: sum.splits option.splits if_splits)
    show thesis
    proof (cases "persist_instance_storage h2")
      case (Inl e)
      show thesis by (intro failed [of h2 ext e]) (use Inl Inr f ext fails in \<open>simp_all add: run\<close>)
    next
      case p: (Inr r)
      obtain h3 where r: "r = ((), h3)" by (cases r) auto
      then have "same_frames h2 h3" using persist_frames p by blast
      then have h3: "h_stack h3 = c' # h_stack h" "h_events h3 = h_events h @ ext"
        "h_auth h3 = h_auth h2"
        using c' ext by (simp_all add: same_frames_def)
      have "am_evolves (am_entered (frame_call frame) (h_auth h)) (h_auth h3)"
        "settled (am_entered (frame_call frame) (h_auth h)) (h_auth h3)"
        using ev st h3 by (simp_all add: entered_def)
      note pop = am_frame_returns [OF enter this]
      show thesis
        by (rule succeeded [of v h2 ext h3]) (use f v Inr p r h3 ext pop in \<open>simp_all add: run\<close>)
    qed
  qed
qed

text \<open>A call of a contract can be the body of a frame.\<close>

lemma with_frame_nested:
  assumes nested: "well_nested f" and call: "frame_call frame \<noteq> None"
  shows "well_nested (with_frame limit ae ce frame f)"
  unfolding well_nested_def
proof (intro allI impI)
  fix h :: "'a host" and c cs
  assume h: "h_stack h = c # cs" and ok: "am_ok (h_auth h)" and "settled (h_auth h) (h_auth h)"
  let ?h' = "snd (with_frame limit ae ce frame f h)"
  show "(\<exists>c'. h_stack ?h' = c' # cs) \<and> extends_events h ?h' \<and>
      am_evolves (h_auth h) (h_auth ?h') \<and> settled (h_auth h) (h_auth ?h')"
  proof (cases "length (h_stack h) < limit")
    case False
    then have "with_frame limit ae ce frame f h = (Inl (HostErr EContext ExceededLimit), h)"
      by (simp add: with_frame_def)
    with h ok \<open>settled _ _\<close> show ?thesis by (simp add: extends_events_def am_evolves_refl)
  next
    case True
    have enter: "may_enter (frame_call frame) (h_auth h)" using ok call unfolding may_enter_def by blast
    show ?thesis
      by (rule with_frame_cases [OF nested True enter, of ae ce])
        (simp_all add: extends_events_def h am_after_failure_def am_evolves_live [OF ok])
  qed
qed

lemma with_frame_failed:
  assumes nested: "well_nested f" and depth: "length (h_stack h) < limit"
    and enter: "may_enter (frame_call frame) (h_auth h)"
    and run: "with_frame limit ae ce frame f h = (Inl e, h')"
  shows "\<exists>ext. h_events (snd (f (entered frame h))) = h_events h @ ext \<and>
    h_events h' = h_events h @ failed ext" and "h_stack h' = h_stack h"
    and "st_map (h_storage h') = st_map (h_storage h)"
    and "st_footprint (h_storage h') = st_footprint (h_storage (snd (f (entered frame h))))"
    and "h_auth h' = am_after_failure (h_auth h)"
  by (rule with_frame_cases [OF nested depth enter, of ae ce]; use run in auto)+

lemma with_frame_succeeded:
  assumes nested: "well_nested f" and depth: "length (h_stack h) < limit"
    and enter: "may_enter (frame_call frame) (h_auth h)"
    and run: "with_frame limit ae ce frame f h = (Inr v, h')"
  shows "\<exists>h2 h3. f (entered frame h) = (Inr v, h2) \<and> ae v = None \<and>
      persist_instance_storage h2 = Inr ((), h3) \<and>
      h' = h3\<lparr>h_stack := h_stack h, h_auth := pop_tracker_frame (h_auth h3)\<rparr> \<and>
      h_events h' = h_events h2 \<and> am_evolves (h_auth h) (h_auth h')"
  by (rule with_frame_cases [OF nested depth enter, of ae ce]) (use run in auto)

end
