(* ===== verification/Host_Auth.thy ===== *)
theory Host_Auth
  imports Host_Frame
begin

text \<open>
  Requests for authorization (\<open>auth.rs\<close>, \<open>builtin_contracts/account_contract.rs\<close>, and the host
  functions of \<open>host.rs\<close> that make them): matching, the authentication of classic accounts by their
  signatures and of contract accounts by their \<open>__check_auth\<close>, and nonces. The code around them
  that is not in the repository, or is a contract, is collected in \<open>auth_world\<close>: the hash of the
  XDR of a preimage, the conversion of a signature value, Ed25519, and the call of \<open>__check_auth\<close>,
  which is any computation on the host. These functions can fail after they have changed the
  state, so they are bodies in the sense of \<open>Host_Frame\<close>.
\<close>

section \<open>The world around\<close>

record account_signature =
  sig_public_key :: hash
  sig_signature :: sc_val

record auth_preimage =
  pre_network_id :: hash
  pre_nonce :: "64 word"
  pre_expiration :: u32
  pre_invocation :: xdr_invocation

datatype authorization_context =
    ContractContext address symbol "sc_val list"
  | CreateContractContext hash hash
  | CreateContractWithCtorContext hash hash "sc_val list"

text \<open>\<open>aw_void\<close> is the value \<open>ScVal::Void\<close> among the contracts' values.\<close>

record 'v auth_world =
  aw_void :: 'v
  aw_hash_preimage :: "auth_preimage \<Rightarrow> hash"
  aw_signatures :: "sc_val \<Rightarrow> account_signature list option"
  aw_verify :: "hash \<Rightarrow> hash \<Rightarrow> sc_val \<Rightarrow> bool"
  aw_check_auth :: "hash \<Rightarrow> hash \<Rightarrow> sc_val \<Rightarrow> authorization_context list \<Rightarrow> ('v, unit) body"

definition lift_op :: "('v, 'a) host_op \<Rightarrow> ('v, 'a) body" where
  "lift_op f h = (case f h of Inl e \<Rightarrow> (Inl e, h) | Inr (a, h') \<Rightarrow> (Inr a, h'))"

definition and_then :: "('v, 'a) body \<Rightarrow> ('a \<Rightarrow> ('v, 'b) body) \<Rightarrow> ('v, 'b) body" where
  "and_then m f h = (case m h of (Inl e, h') \<Rightarrow> (Inl e, h') | (Inr a, h') \<Rightarrow> f a h')"

section \<open>Classic accounts\<close>

definition MAX_ACCOUNT_SIGNATURES :: nat where "MAX_ACCOUNT_SIGNATURES = 20"

definition authentication_error :: error where
  "authentication_error = ContractErr 5"

definition load_account :: "hash \<Rightarrow> ('v, account_entry) host_op" where
  "load_account account_id =
     bind_op (on_storage (get_with_host (LKAccount account_id))) (\<lambda>entry.
       case entry of AccountE ae \<Rightarrow> ret ae | _ \<Rightarrow> fail (HostErr EStorage InternalError))"

fun find_signer :: "hash \<Rightarrow> (signer_key \<times> u32) list \<Rightarrow> nat" where
  "find_signer k [] = 0"
| "find_signer k ((s, w) # signers) =
     (if s = Ed25519Signer k then min (unat w) 255 else find_signer k signers)"

definition get_signer_weight_from_account :: "hash \<Rightarrow> account_entry \<Rightarrow> error + nat" where
  "get_signer_weight_from_account target account =
     (if ae_account_id account = target then
        (case ae_thresholds account of
           [] \<Rightarrow> Inl (HostErr EValue InternalError)
         | master # _ \<Rightarrow> Inr (unat master))
      else Inr (find_signer target (ae_signers account)))"

text \<open>The loop over the signatures, with the weight collected so far.\<close>

fun check_signatures ::
  "(hash \<Rightarrow> hash \<Rightarrow> sc_val \<Rightarrow> bool) \<Rightarrow> hash \<Rightarrow> account_entry \<Rightarrow> hash option \<Rightarrow> u32 \<Rightarrow>
   account_signature list \<Rightarrow> error + u32" where
  "check_signatures verify payload account prev weight [] = Inr weight"
| "check_signatures verify payload account prev weight (sig # sigs) =
     (if (case prev of None \<Rightarrow> False | Some p \<Rightarrow> compare_hash p (sig_public_key sig) \<noteq> Less)
      then Inl authentication_error
      else if \<not> verify (sig_public_key sig) payload (sig_signature sig)
      then Inl (HostErr ECrypto InvalidInput)
      else case get_signer_weight_from_account (sig_public_key sig) account of
        Inl e \<Rightarrow> Inl e
      | Inr w \<Rightarrow>
          if w = 0 then Inl authentication_error
          else check_signatures verify payload account (Some (sig_public_key sig))
                 (saturating_add weight (word_of_nat w)) sigs)"

definition check_account_authentication ::
  "'v auth_world \<Rightarrow> hash \<Rightarrow> hash \<Rightarrow> sc_val \<Rightarrow> ('v, unit) host_op" where
  "check_account_authentication world account_id payload signature =
     bind_op (ok_or ConversionError (aw_signatures world signature)) (\<lambda>sigs.
     if MAX_ACCOUNT_SIGNATURES < length sigs then fail authentication_error
     else if sigs = [] then fail authentication_error
     else
     bind_op (load_account account_id) (\<lambda>account.
     bind_op (of_result (check_signatures (aw_verify world) payload account None 0 sigs)) (\<lambda>weight.
     if length (ae_thresholds account) \<le> 2 then fail (HostErr EAuth InternalError)
     else if weight < ucast (ae_thresholds account ! 2) then fail authentication_error
     else ret ())))"

section \<open>Contract accounts\<close>

fun from_authorized_fn :: "authorized_function \<Rightarrow> error + authorization_context" where
  "from_authorized_fn (ContractFn c f args) = Inr (ContractContext c f args)"
| "from_authorized_fn (CreateContractHostFn x) =
     (case cca_executable x of
        StellarAssetExec \<Rightarrow> Inl (HostErr EAuth InvalidInput)
      | WasmExec wasm_hash \<Rightarrow>
          (case cca_preimage x of
             PreimageAsset _ \<Rightarrow> Inl (HostErr EAuth InvalidInput)
           | PreimageAddress _ salt \<Rightarrow>
               if cca_constructor_args x = [] then Inr (CreateContractContext wasm_hash salt)
               else Inr (CreateContractWithCtorContext wasm_hash salt (cca_constructor_args x))))"

text \<open>The contexts of a tree, each node before those of its sub-invocations.\<close>

fun invocation_tree_to_auth_contexts :: "authorized_invocation \<Rightarrow> error + authorization_context list"
  and sub_invocations_to_auth_contexts :: "authorized_invocation list \<Rightarrow> error + authorization_context list"
  where
  "invocation_tree_to_auth_contexts (AuthorizedInvocation f subs _) =
     (case from_authorized_fn f of
        Inl e \<Rightarrow> Inl e
      | Inr c \<Rightarrow>
          (case sub_invocations_to_auth_contexts subs of Inl e \<Rightarrow> Inl e | Inr cs \<Rightarrow> Inr (c # cs)))"
| "sub_invocations_to_auth_contexts [] = Inr []"
| "sub_invocations_to_auth_contexts (sub # subs) =
     (case invocation_tree_to_auth_contexts sub of
        Inl e \<Rightarrow> Inl e
      | Inr cs \<Rightarrow>
          (case sub_invocations_to_auth_contexts subs of Inl e \<Rightarrow> Inl e | Inr cs' \<Rightarrow> Inr (cs @ cs')))"

definition check_account_contract_auth ::
  "'v auth_world \<Rightarrow> hash \<Rightarrow> hash \<Rightarrow> sc_val \<Rightarrow> authorized_invocation \<Rightarrow> ('v, unit) body" where
  "check_account_contract_auth world account_contract payload signature root h =
     (case invocation_tree_to_auth_contexts root of
        Inl e \<Rightarrow> (Inl e, h)
      | Inr contexts \<Rightarrow> aw_check_auth world account_contract payload signature contexts h)"

section \<open>Nonces\<close>

definition consume_nonce :: "'v auth_world \<Rightarrow> address \<Rightarrow> 64 word \<Rightarrow> u32 \<Rightarrow> ('v, unit) host_op" where
  "consume_nonce world a nonce live_until =
     (let key = storage_key_for_address a (LedgerKeyNonceV nonce) Temporary in
      bind_op (\<lambda>h. of_result (get_min_live_until_ledger (h_ledger h) Temporary) h) (\<lambda>min_live.
      bind_op (on_storage (has_with_host key)) (\<lambda>present.
      if present then fail (HostErr EAuth ExistingValue)
      else on_storage (put_with_host key
             (ContractDataE a (LedgerKeyNonceV nonce) Temporary (DataVal (aw_void world)))
             (Some (max live_until min_live))))))"

definition verify_and_consume_nonce :: "'v auth_world \<Rightarrow> account_tracker \<Rightarrow> ('v, unit) host_op" where
  "verify_and_consume_nonce world t =
     (if at_is_source t then ret ()
      else case at_nonce t of
        None \<Rightarrow> fail (HostErr EAuth InternalError)
      | Some (nonce, live_until) \<Rightarrow>
          bind_op (reads (\<lambda>h. sequence_number (h_ledger h))) (\<lambda>ledger_seq.
          if live_until < ledger_seq then fail (HostErr EAuth InvalidInput)
          else
          bind_op (\<lambda>h. of_result (max_live_until_ledger (h_ledger h)) h) (\<lambda>max_live.
          if max_live < live_until then fail (HostErr EAuth InvalidInput)
          else consume_nonce world (at_address t) nonce live_until)))"

section \<open>Authentication\<close>

definition get_signature_payload ::
  "'v auth_world \<Rightarrow> ledger_info \<Rightarrow> account_tracker \<Rightarrow> error + hash" where
  "get_signature_payload world li t =
     (case at_nonce t of
        None \<Rightarrow> Inl (HostErr EAuth InternalError)
      | Some (nonce, live_until) \<Rightarrow>
          Inr (aw_hash_preimage world
            \<lparr>pre_network_id = network_id li, pre_nonce = nonce, pre_expiration = live_until,
             pre_invocation = root_invocation_to_xdr t\<rparr>))"

definition authenticate :: "'v auth_world \<Rightarrow> account_tracker \<Rightarrow> ('v, unit) body" where
  "authenticate world t h =
     (if at_is_source t then (Inr (), h)
      else case get_signature_payload world (h_ledger h) t of
        Inl e \<Rightarrow> (Inl e, h)
      | Inr payload \<Rightarrow>
          (case at_address t of
             AccountAddr acc \<Rightarrow>
               lift_op (check_account_authentication world acc payload (at_signature t)) h
           | ContractAddr acc \<Rightarrow>
               check_account_contract_auth world acc payload (at_signature t)
                 (it_root (at_invocation t)) h))"

definition is_recoverable :: "error \<Rightarrow> bool" where
  "is_recoverable e =
     (case e of
        HostErr t c \<Rightarrow> c \<noteq> InternalError \<and> \<not> (c = ExceededLimit \<and> (t = EStorage \<or> t = EBudget))
      | _ \<Rightarrow> True)"

definition authentication_failure :: "error \<Rightarrow> error" where
  "authentication_failure e = (if is_recoverable e then HostErr EAuth InvalidAction else e)"

section \<open>Requests in enforcing mode\<close>

definition set_cell :: "nat \<Rightarrow> account_tracker \<Rightarrow> bool \<Rightarrow> 'v host \<Rightarrow> 'v host" where
  "set_cell i t borrowed h =
     h\<lparr>h_auth := (h_auth h)\<lparr>am_accounts :=
         (am_accounts (h_auth h))[i := \<lparr>tc_tracker = t, tc_borrowed = borrowed\<rparr>]\<rparr>\<rparr>"

text \<open>
  \<open>AccountAuthorizationTracker::maybe_authorize_invocation\<close> on the tracker of the \<open>i\<close>-th cell,
  which is borrowed while it is authenticated.
\<close>

definition maybe_authorize_invocation ::
  "'v auth_world \<Rightarrow> nat \<Rightarrow> authorized_function \<Rightarrow> bool \<Rightarrow> ('v, bool) body" where
  "maybe_authorize_invocation world i f allow_matching_root h =
     (let t = tc_tracker (am_accounts (h_auth h) ! i) in
      case maybe_extend_invocation_match f allow_matching_root (at_invocation t) of
        Inl e \<Rightarrow> (Inl e, h)
      | Inr (False, invocation) \<Rightarrow> (Inr False, set_cell i (t\<lparr>at_invocation := invocation\<rparr>) False h)
      | Inr (True, invocation) \<Rightarrow>
          (let t' = t\<lparr>at_invocation := invocation\<rparr> in
           if at_verified t then (Inr True, set_cell i t' False h)
           else case authenticate world t' (set_cell i t' True h) of
             (Inl e, h1) \<Rightarrow> (Inl (authentication_failure e), set_cell i t' False h1)
           | (Inr _, h1) \<Rightarrow>
               (case lift_op (verify_and_consume_nonce world t') h1 of
                  (Inl e, h2) \<Rightarrow> (Inl e, set_cell i t' False h2)
                | (Inr _, h2) \<Rightarrow> (Inr True, set_cell i (t'\<lparr>at_verified := True\<rparr>) False h2))))"

fun require_auth_trackers ::
  "'v auth_world \<Rightarrow> address \<Rightarrow> authorized_function \<Rightarrow> bool \<Rightarrow> nat list \<Rightarrow> ('v, unit) body" where
  "require_auth_trackers world a f allow [] h = (Inl (HostErr EAuth InvalidAction), h)"
| "require_auth_trackers world a f allow (i # is) h =
     (let c = am_accounts (h_auth h) ! i in
      if tc_borrowed c \<or> compare_address (at_address (tc_tracker c)) a \<noteq> Equal
      then require_auth_trackers world a f allow is h
      else case maybe_authorize_invocation world i f allow h of
        (Inl e, h') \<Rightarrow> (Inl e, h')
      | (Inr True, h') \<Rightarrow> (Inr (), h')
      | (Inr False, h') \<Rightarrow> require_auth_trackers world a f allow is h')"

definition require_auth_enforcing ::
  "'v auth_world \<Rightarrow> address \<Rightarrow> authorized_function \<Rightarrow> ('v, unit) body" where
  "require_auth_enforcing world a f h =
     require_auth_trackers world a f (\<not> has_active_tracker a (h_auth h))
       [0..<length (am_accounts (h_auth h))] h"

section \<open>Requests in recording mode\<close>

definition set_accounts :: "tracker_cell list \<Rightarrow> 'v host \<Rightarrow> 'v host" where
  "set_accounts trackers h = h\<lparr>h_auth := (h_auth h)\<lparr>am_accounts := trackers\<rparr>\<rparr>"

definition set_handles :: "(u32 \<rightharpoonup> nat) \<Rightarrow> 'v host \<Rightarrow> 'v host" where
  "set_handles handles h =
     (case am_mode (h_auth h) of
        EnforcingAuth \<Rightarrow> h
      | RecordingAuth info \<Rightarrow>
          h\<lparr>h_auth := (h_auth h)\<lparr>am_mode := RecordingAuth (info\<lparr>rec_handles := handles\<rparr>)\<rparr>\<rparr>)"

text \<open>
  \<open>AccountAuthorizationTracker::new_recording\<close>; \<open>nonce\<close> is the random nonce drawn for the request.
\<close>

definition account_new_recording ::
  "'v auth_world \<Rightarrow> 64 word \<Rightarrow> address \<Rightarrow> authorized_function \<Rightarrow> nat \<Rightarrow> ('v, account_tracker) host_op" where
  "account_new_recording world nonce a f current_stack_len =
     (if current_stack_len = 0 then fail (HostErr EAuth InternalError)
      else bind_op (reads h_source_account) (\<lambda>source.
      let is_source = (case source of None \<Rightarrow> False | Some s \<Rightarrow> compare_address s a = Equal) in
      bind_op (if is_source then ret None
               else bind_op (\<lambda>h. of_result (max_live_until_ledger (h_ledger h)) h) (\<lambda>max_live.
                    then_op (consume_nonce world a nonce max_live) (ret (Some (nonce, 0))))) (\<lambda>n.
      bind_op (of_result (tracker_new_recording f current_stack_len)) (\<lambda>tracker.
      ret \<lparr>at_address = a, at_invocation = tracker, at_signature = VoidV,
           at_is_source = is_source, at_verified = True, at_nonce = n\<rparr>))))"

definition record_in_cell :: "nat \<Rightarrow> authorized_function \<Rightarrow> ('v, unit) body" where
  "record_in_cell i f h =
     (case account_record_invocation f (tc_tracker (am_accounts (h_auth h) ! i)) of
        Inl e \<Rightarrow> (Inl e, h)
      | Inr t \<Rightarrow> (Inr (), set_cell i t False h))"

text \<open>The search for an active tracker of the address; \<open>None\<close> is a borrowed tracker.\<close>

fun find_recording_tracker :: "address \<Rightarrow> nat \<Rightarrow> tracker_cell list \<Rightarrow> nat option option" where
  "find_recording_tracker a i [] = Some None"
| "find_recording_tracker a i (c # cs) =
     (if tc_borrowed c then None
      else if compare_address (at_address (tc_tracker c)) a \<noteq> Equal
      then find_recording_tracker a (i + 1) cs
      else if has_authorized_invocations_in_stack (tc_tracker c) \<and>
              \<not> account_frame_is_already_matched (tc_tracker c)
      then Some (Some i)
      else find_recording_tracker a (i + 1) cs)"

definition record_with_new_tracker ::
  "'v auth_world \<Rightarrow> 64 word \<Rightarrow> u32 \<Rightarrow> bool \<Rightarrow> address \<Rightarrow> authorized_function \<Rightarrow> ('v, unit) body" where
  "record_with_new_tracker world nonce handle disable_non_root_auth a f h =
     (if disable_non_root_auth \<and> length (am_call_stack (h_auth h)) \<noteq> 1
      then (Inl (HostErr EAuth InvalidAction), h)
      else case account_new_recording world nonce a f (length (am_call_stack (h_auth h))) h of
        Inl e \<Rightarrow> (Inl e, h)
      | Inr (t, h1) \<Rightarrow>
          (let trackers = am_accounts (h_auth h1) @ [\<lparr>tc_tracker = t, tc_borrowed = False\<rparr>];
               h2 = set_accounts trackers h1
           in (Inr (),
               case am_mode (h_auth h2) of
                 EnforcingAuth \<Rightarrow> h2
               | RecordingAuth info \<Rightarrow>
                   set_handles ((rec_handles info)(handle \<mapsto> length trackers - 1)) h2)))"

definition require_auth_recording ::
  "'v auth_world \<Rightarrow> 64 word \<Rightarrow> u32 \<Rightarrow> address \<Rightarrow> authorized_function \<Rightarrow> recording_auth_info \<Rightarrow>
   ('v, unit) body" where
  "require_auth_recording world nonce handle a f info h =
     (let search = (\<lambda>h.
            case find_recording_tracker a 0 (am_accounts (h_auth h)) of
              None \<Rightarrow> (Inl (HostErr EAuth InternalError), h)
            | Some (Some i) \<Rightarrow> record_in_cell i f h
            | Some None \<Rightarrow>
                record_with_new_tracker world nonce handle (rec_disable_non_root_auth info) a f h)
      in case rec_handles info handle of
           None \<Rightarrow> search h
         | Some tracker_id \<Rightarrow>
             if length (am_accounts (h_auth h)) \<le> tracker_id then (Inl (HostErr EAuth InternalError), h)
             else
               (let c = am_accounts (h_auth h) ! tracker_id in
                if tc_borrowed c then (Inl (HostErr EAuth InternalError), h)
                else if \<not> has_authorized_invocations_in_stack (tc_tracker c)
                then search (set_handles ((rec_handles info)(handle := None)) h)
                else record_in_cell tracker_id f h))"

section \<open>Requests\<close>

text \<open>\<open>handle\<close> and \<open>nonce\<close> are used in recording mode only.\<close>

definition require_auth_internal ::
  "'v auth_world \<Rightarrow> 64 word \<Rightarrow> u32 \<Rightarrow> address \<Rightarrow> authorized_function \<Rightarrow> ('v, unit) body" where
  "require_auth_internal world nonce handle a f h =
     (case maybe_check_invoker_contract_auth a f (h_auth h) of
        Inl e \<Rightarrow> (Inl e, h)
      | Inr (True, m) \<Rightarrow> (Inr (), h\<lparr>h_auth := m\<rparr>)
      | Inr (False, m) \<Rightarrow>
          (case am_mode m of
             EnforcingAuth \<Rightarrow> require_auth_enforcing world a f (h\<lparr>h_auth := m\<rparr>)
           | RecordingAuth info \<Rightarrow>
               require_auth_recording world nonce handle a f info (h\<lparr>h_auth := m\<rparr>)))"

definition am_require_auth ::
  "'v auth_world \<Rightarrow> 64 word \<Rightarrow> u32 \<Rightarrow> address \<Rightarrow> sc_val list \<Rightarrow> ('v, unit) body" where
  "am_require_auth world nonce handle a args h =
     (if am_call_stack (h_auth h) = [] then (Inl (HostErr EAuth InternalError), h)
      else require_auth_internal world nonce handle a
             (to_authorized_function (last (am_call_stack (h_auth h))) args) h)"

text \<open>The host functions.\<close>

definition host_require_auth_for_args ::
  "'v auth_world \<Rightarrow> 64 word \<Rightarrow> u32 \<Rightarrow> address \<Rightarrow> sc_val list \<Rightarrow> ('v, unit) body" where
  "host_require_auth_for_args = am_require_auth"

definition host_require_auth ::
  "'v auth_world \<Rightarrow> 64 word \<Rightarrow> u32 \<Rightarrow> address \<Rightarrow> ('v, unit) body" where
  "host_require_auth world nonce handle a h =
     (case h_stack h of
        [] \<Rightarrow> (Inl (HostErr EContext InternalError), h)
      | c # _ \<Rightarrow>
          (case frame_args (ctx_frame c) of
             None \<Rightarrow> (Inl (HostErr EContext InternalError), h)
           | Some args \<Rightarrow> am_require_auth world nonce handle a args h))"

definition authorize_as_curr_contract :: "invoker_auth_entry list \<Rightarrow> ('v, unit) body" where
  "authorize_as_curr_contract entries h =
     (case get_current_contract_id_internal h of
        Inl e \<Rightarrow> (if entries = [] then Inr () else Inl e, h)
      | Inr (cid, _) \<Rightarrow>
          (let (r, m) = add_invoker_contract_auth cid entries (h_auth h) in (r, h\<lparr>h_auth := m\<rparr>)))"

text \<open>
  The creation of a contract: a deployer, when there is one, has to authorize it in a frame of its
  own, which is popped whatever happens. \<open>contract_id_of\<close> is the hash of the full preimage and
  \<open>initialize\<close> the calls of \<open>init_asset\<close> and of the constructor.
\<close>

definition create_contract_with_optional_auth ::
  "'v auth_world \<Rightarrow> (contract_id_preimage \<Rightarrow> hash) \<Rightarrow> (hash \<Rightarrow> create_contract_args \<Rightarrow> ('v, unit) body) \<Rightarrow>
   64 word \<Rightarrow> u32 \<Rightarrow> address option \<Rightarrow> create_contract_args \<Rightarrow> ('v, address) body" where
  "create_contract_with_optional_auth world contract_id_of initialize nonce handle deployer args =
     and_then (case deployer of
                 None \<Rightarrow> (\<lambda>h. (Inr (), h))
               | Some d \<Rightarrow> am_require_auth world nonce handle d [])
       (\<lambda>_. let cid = contract_id_of (cca_preimage args) in
        and_then (lift_op (create_contract_with_id cid (cca_executable args))) (\<lambda>_.
        and_then (initialize cid args) (\<lambda>_ h. (Inr (ContractAddr cid), h))))"

definition create_contract_internal ::
  "'v auth_world \<Rightarrow> (contract_id_preimage \<Rightarrow> hash) \<Rightarrow> (hash \<Rightarrow> create_contract_args \<Rightarrow> ('v, unit) body) \<Rightarrow>
   64 word \<Rightarrow> u32 \<Rightarrow> address option \<Rightarrow> create_contract_args \<Rightarrow> ('v, address) body" where
  "create_contract_internal world contract_id_of initialize nonce handle deployer args h =
     (case deployer of
        None \<Rightarrow> create_contract_with_optional_auth world contract_id_of initialize nonce handle None args h
      | Some d \<Rightarrow>
          (let (res, h1) = create_contract_with_optional_auth world contract_id_of initialize nonce
                 handle (Some d) args (h\<lparr>h_auth := push_create_contract_host_fn_frame args (h_auth h)\<rparr>)
           in case am_pop_frame None (h_auth h1) of
                (Inl e, m) \<Rightarrow> (Inl e, h1\<lparr>h_auth := m\<rparr>)
              | (Inr _, m) \<Rightarrow> (res, h1\<lparr>h_auth := m\<rparr>)))"

end
