(* ===== verification/Host_Auth_Inv.thy ===== *)
theory Host_Auth_Inv
  imports Host_Auth
begin

text \<open>
  Nonces and signatures: consuming a nonce stores it, so that it is there for a second request; the
  loop over the signatures of a classic account succeeds exactly on distinct valid signatures of
  keys with a positive weight, and computes the sum of their weights, which cannot saturate.
\<close>

section \<open>Nonces\<close>

definition nonce_key :: "address \<Rightarrow> 64 word \<Rightarrow> ledger_key" where
  "nonce_key a nonce = LKContractData a (LedgerKeyNonceV nonce) Temporary"

definition nonce_entry :: "'v auth_world \<Rightarrow> address \<Rightarrow> 64 word \<Rightarrow> 'v stored ledger_entry" where
  "nonce_entry world a nonce = ContractDataE a (LedgerKeyNonceV nonce) Temporary (DataVal (aw_void world))"

lemma consume_nonce_effect:
  assumes "consume_nonce world a nonce l h = Inr (u, h')" and "storage_ok (h_storage h)"
  shows "view (h_storage h) (nonce_key a nonce) = None"
    and "\<exists>m. get_min_live_until_ledger (h_ledger h) Temporary = Inr m \<and>
      view (h_storage h') =
        (view (h_storage h))(nonce_key a nonce \<mapsto> (nonce_entry world a nonce, Some (max l m)))"
    and "storage_ok (h_storage h')" and "\<exists>s. h' = h\<lparr>h_storage := s\<rparr>"
proof -
  obtain m s1 s2 where m: "get_min_live_until_ledger (h_ledger h) Temporary = Inr m"
    and s1: "has_with_host (nonce_key a nonce) (h_storage h) = Inr (False, s1)"
    and s2: "put_with_host (nonce_key a nonce) (nonce_entry world a nonce) (Some (max l m)) s1 = Inr (u, s2)"
    and h': "h' = h\<lparr>h_storage := s2\<rparr>"
    using assms(1)
    by (auto simp: consume_nonce_def Let_def storage_key_for_address_def nonce_key_def nonce_entry_def
        bind_op_Inr of_result_Inr on_storage_Inr split: if_splits)
  note v = has_view [OF s1 assms(2)]
  note p = put_view [OF s2 v(2)]
  show "view (h_storage h) (nonce_key a nonce) = None" using v(1) by (metis not_None_eq)
  show "\<exists>m. get_min_live_until_ledger (h_ledger h) Temporary = Inr m \<and>
      view (h_storage h') =
        (view (h_storage h))(nonce_key a nonce \<mapsto> (nonce_entry world a nonce, Some (max l m)))"
    using m p v(3) by (simp add: h')
  show "storage_ok (h_storage h')" using p by (simp add: h')
  show "\<exists>s. h' = h\<lparr>h_storage := s\<rparr>" using h' by blast
qed

section \<open>Signatures of classic accounts\<close>

definition signer_weight :: "account_entry \<Rightarrow> hash \<Rightarrow> nat" where
  "signer_weight account k =
     (if ae_account_id account = k then unat (hd (ae_thresholds account))
      else find_signer k (ae_signers account))"

lemma find_signer_le: "find_signer k signers \<le> 255"
  by (induction k signers rule: find_signer.induct) auto

lemma weight_eq:
  assumes "ae_thresholds account \<noteq> []"
  shows "get_signer_weight_from_account k account = Inr (signer_weight account k)"
  using assms by (cases "ae_thresholds account")
    (simp_all add: get_signer_weight_from_account_def signer_weight_def)

lemma signer_weight_le: "signer_weight account k \<le> 255"
proof -
  have "unat (w :: 8 word) \<le> 255" for w
    using unsigned_less [of w, where 'a = nat] by simp
  then show ?thesis by (simp add: signer_weight_def find_signer_le)
qed

definition signatures_valid ::
  "(hash \<Rightarrow> hash \<Rightarrow> sc_val \<Rightarrow> bool) \<Rightarrow> hash \<Rightarrow> account_entry \<Rightarrow> account_signature list \<Rightarrow> bool" where
  "signatures_valid verify payload account sigs \<longleftrightarrow>
     sorted_wrt (<) (map sig_public_key sigs) \<and>
     (\<forall>s \<in> set sigs. verify (sig_public_key s) payload (sig_signature s) \<and>
        0 < signer_weight account (sig_public_key s))"

abbreviation total_weight :: "account_entry \<Rightarrow> account_signature list \<Rightarrow> nat" where
  "total_weight account sigs \<equiv> sum_list (map (\<lambda>s. signer_weight account (sig_public_key s)) sigs)"

lemma total_weight_le: "total_weight account sigs \<le> 255 * length sigs"
  by (induction sigs) (use signer_weight_le [of account] in \<open>simp_all add: add_mono\<close>)

lemma compare_hash_Less: "compare_hash a b = Less \<longleftrightarrow> a < b"
  by (simp add: compare_hash_def cmp_int_def word_less_def)

lemma check_signatures_Inr:
  assumes "ae_thresholds account \<noteq> []" and "unat w + 255 * length sigs < 2 ^ 32"
  shows "check_signatures verify payload account prev w sigs = Inr w' \<longleftrightarrow>
    signatures_valid verify payload account sigs \<and>
    (\<forall>p s. prev = Some p \<longrightarrow> s \<in> set sigs \<longrightarrow> p < sig_public_key s) \<and>
    unat w' = unat w + total_weight account sigs"
  using assms(2)
proof (induction sigs arbitrary: prev w)
  case Nil
  then show ?case by (auto simp: signatures_valid_def word_unat_eq_iff)
next
  case (Cons s sigs)
  let ?k = "sig_public_key s"
  let ?w = "saturating_add w (word_of_nat (signer_weight account ?k))"
  have w: "unat ?w = unat w + signer_weight account ?k"
    using Cons.prems signer_weight_le [of account ?k] by (simp add: unat_saturating_add)
  then have "unat ?w + 255 * length sigs < 2 ^ 32"
    using Cons.prems signer_weight_le [of account ?k] by simp
  note IH = Cons.IH [OF this]
  show ?case
    using assms(1) IH [of "Some ?k"] w
    by (auto simp: weight_eq signatures_valid_def compare_hash_Less split: option.splits
        dest: less_trans)
qed

lemma unat_ucast_byte [simp]: "unat (ucast (b :: 8 word) :: u32) = unat b"
proof -
  have "unat b < 2 ^ 32" using unsigned_less [of b, where 'a = nat] by simp
  then show ?thesis by (simp add: unsigned_ucast_eq take_bit_nat_eq_self)
qed

section \<open>Expiration\<close>

lemma verify_and_consume_Inr:
  assumes "verify_and_consume_nonce world t h = Inr (u, h')"
  shows "at_is_source t \<and> h' = h \<or>
    (\<exists>nonce l mx. \<not> at_is_source t \<and> at_nonce t = Some (nonce, l) \<and>
      sequence_number (h_ledger h) \<le> l \<and>
      max_live_until_ledger (h_ledger h) = Inr mx \<and> l \<le> mx \<and>
      consume_nonce world (at_address t) nonce l h = Inr (u, h'))"
  using assms
  by (auto simp: verify_and_consume_nonce_def bind_op_Inr of_result_Inr reads_def not_less
      split: if_splits option.splits)

end
