(* ===== verification/Host_Auth_Nested.thy ===== *)
theory Host_Auth_Nested
  imports Host_Auth
begin

text \<open>
  A request for authorization is a well-nested computation (\<open>Host_Frame\<close>), in both modes, provided
  the calls of \<open>__check_auth\<close> are: it keeps the frames and events below it and lets the
  authorization manager evolve as the rollback of frames needs it. The tracker that is being
  authenticated is borrowed meanwhile, so that whatever runs then leaves it alone.
\<close>

section \<open>Computations and their composition\<close>

definition ready :: "'v host \<Rightarrow> bool" where
  "ready h \<longleftrightarrow> h_stack h \<noteq> [] \<and> am_ok (h_auth h) \<and> settled (h_auth h) (h_auth h)"

definition nests :: "'v host \<Rightarrow> 'v host \<Rightarrow> bool" where
  "nests h h' \<longleftrightarrow>
     (\<exists>c. h_stack h' = c # tl (h_stack h)) \<and> extends_events h h' \<and>
     am_evolves (h_auth h) (h_auth h') \<and> settled (h_auth h) (h_auth h')"

lemma well_nested_iff: "well_nested f \<longleftrightarrow> (\<forall>h. ready h \<longrightarrow> nests h (snd (f h)))"
proof
  assume "well_nested f"
  then show "\<forall>h. ready h \<longrightarrow> nests h (snd (f h))"
    by (auto simp: well_nested_def ready_def nests_def neq_Nil_conv)
next
  assume *: "\<forall>h. ready h \<longrightarrow> nests h (snd (f h))"
  show "well_nested f"
    unfolding well_nested_def
  proof (intro allI impI)
    fix h :: "'a host" and c cs
    assume "h_stack h = c # cs" "am_ok (h_auth h)" "settled (h_auth h) (h_auth h)"
    with * [rule_format, of h]
    show "(\<exists>c'. h_stack (snd (f h)) = c' # cs) \<and> extends_events h (snd (f h)) \<and>
        am_evolves (h_auth h) (h_auth (snd (f h))) \<and> settled (h_auth h) (h_auth (snd (f h)))"
      by (simp add: ready_def nests_def)
  qed
qed

lemma well_nestedD: "well_nested f \<Longrightarrow> ready h \<Longrightarrow> f h = (r, h') \<Longrightarrow> nests h h'"
  by (metis snd_conv well_nested_iff)

lemma settled_self:
  assumes "am_evolves m m'" and "settled m m'"
  shows "settled m' m'"
proof -
  obtain pre fresh where "am_invokers m' = pre @ fresh" "\<forall>t \<in> set fresh. is_out_of_scope t"
    and pre: "list_all2 invoker_evolves (live (am_invokers m)) pre"
    using assms(1) by (auto simp: am_evolves_def)
  moreover have "length pre = length (live (am_invokers m))"
    using pre by (simp add: list_all2_conv_all_nth)
  ultimately have "am_invokers m' = pre" "live pre = pre"
    using assms(2) live_evolved [OF pre, of "[]"] by (simp_all add: settled_def)
  then show ?thesis by (simp only: settled_def)
qed

lemma settled_trans:
  assumes "settled m m'" and "am_evolves m m'" and "settled m' m''"
  shows "settled m m''"
  using assms settled_self by (metis settled_def)

lemma nests_refl: "ready h \<Longrightarrow> nests h h"
  by (cases "h_stack h") (auto simp: ready_def nests_def extends_events_def am_evolves_refl)

lemma nests_ready: "nests h h' \<Longrightarrow> ready h'"
  using settled_self [of "h_auth h" "h_auth h'"] by (auto simp: ready_def nests_def am_evolves_def)

lemma nests_trans:
  assumes "nests h h'" and "nests h' h''"
  shows "nests h h''"
  using assms by (auto simp: nests_def extends_events_def intro: am_evolves_trans settled_trans)

lemma nests_storage: "ready h \<Longrightarrow> nests h (h\<lparr>h_storage := s\<rparr>)"
  using nests_refl [of h] by (simp add: nests_def extends_events_def)

text \<open>A change of the authorization manager alone.\<close>

lemma nests_auth:
  assumes "ready h" and "am_evolves (h_auth h) m" and "settled (h_auth h) m"
  shows "nests h (h\<lparr>h_auth := m\<rparr>)"
  using assms by (cases "h_stack h") (auto simp: ready_def nests_def extends_events_def)

lemma and_then_nested:
  assumes "well_nested f" and "\<And>a. well_nested (g a)"
  shows "well_nested (and_then f g)"
  unfolding well_nested_iff
proof (intro allI impI)
  fix h :: "'a host"
  assume h: "ready h"
  obtain r h1 where f: "f h = (r, h1)" by (cases "f h")
  note n = well_nestedD [OF assms(1) h f]
  show "nests h (snd (and_then f g h))"
  proof (cases r)
    case (Inl e)
    with f n show ?thesis by (simp add: and_then_def)
  next
    case (Inr a)
    have "nests h1 (snd (g a h1))" using assms(2) nests_ready [OF n] by (simp add: well_nested_iff)
    with Inr f n show ?thesis by (auto simp: and_then_def intro: nests_trans)
  qed
qed

lemma returns_nested: "well_nested (\<lambda>h. (r, h))"
  by (simp add: well_nested_iff nests_refl)

section \<open>Operations on the storage\<close>

definition storage_only :: "('v, 'a) host_op \<Rightarrow> bool" where
  "storage_only f \<longleftrightarrow> (\<forall>h a h'. f h = Inr (a, h') \<longrightarrow> (\<exists>s. h' = h\<lparr>h_storage := s\<rparr>))"

named_theorems storage_only_intros

lemma storage_only_on_storage [storage_only_intros]: "storage_only (on_storage f)"
  by (auto simp: storage_only_def on_storage_Inr)

lemma storage_only_same:
  assumes "\<And>h a h'. f h = Inr (a, h') \<Longrightarrow> h' = h"
  shows "storage_only f"
  unfolding storage_only_def by (metis assms host.unfold_congs(1) host.surjective host.update_convs(1))

lemma storage_only_pure [storage_only_intros]:
  "storage_only (ret a)" "storage_only (fail e)" "storage_only (of_result r)"
  "storage_only (reads g)" "storage_only (ok_or e x)" "storage_only (\<lambda>h. of_result (k h) h)"
  by (auto intro!: storage_only_same simp: of_result_Inr ok_or_Inr ret_def fail_def)

lemma storage_only_bind [storage_only_intros]:
  assumes "storage_only f" and "\<And>a. storage_only (g a)"
  shows "storage_only (bind_op f g)"
  unfolding storage_only_def
proof (intro allI impI)
  fix h b h'
  assume "bind_op f g h = Inr (b, h')"
  then obtain a h1 where f: "f h = Inr (a, h1)" and g: "g a h1 = Inr (b, h')"
    by (auto simp: bind_op_Inr)
  obtain s where "h1 = h\<lparr>h_storage := s\<rparr>" using f assms(1) unfolding storage_only_def by blast
  moreover obtain s' where "h' = h1\<lparr>h_storage := s'\<rparr>"
    using g assms(2) unfolding storage_only_def by blast
  ultimately have "h' = h\<lparr>h_storage := s'\<rparr>" by simp
  then show "\<exists>s. h' = h\<lparr>h_storage := s\<rparr>" ..
qed

lemma storage_only_then [storage_only_intros]:
  "storage_only f \<Longrightarrow> storage_only g \<Longrightarrow> storage_only (then_op f g)"
  using storage_only_bind [of f "\<lambda>_. g"] by (simp add: then_op_def bind_op_def storage_only_def)

lemma storage_only_nested:
  assumes "storage_only f"
  shows "well_nested (lift_op f)"
  unfolding well_nested_iff
proof (intro allI impI)
  fix h :: "'a host"
  assume h: "ready h"
  show "nests h (snd (lift_op f h))"
  proof (cases "f h")
    case (Inl e)
    with h show ?thesis by (simp add: lift_op_def nests_refl)
  next
    case (Inr p)
    obtain a h' where p: "p = (a, h')" by (cases p)
    with Inr obtain s where "h' = h\<lparr>h_storage := s\<rparr>"
      using assms unfolding storage_only_def by blast
    with Inr p h show ?thesis by (simp add: lift_op_def nests_storage)
  qed
qed

lemma storage_only_if [storage_only_intros]:
  "storage_only f \<Longrightarrow> storage_only g \<Longrightarrow> storage_only (if b then f else g)"
  by simp

lemma load_account_storage: "storage_only (load_account acc)"
  unfolding load_account_def
  by (intro storage_only_intros) (auto split: ledger_entry.split intro: storage_only_intros)

lemma account_authentication_storage:
  "storage_only (check_account_authentication world acc payload signature)"
  unfolding check_account_authentication_def
  by (intro storage_only_intros load_account_storage)

lemma consume_nonce_storage: "storage_only (consume_nonce world a nonce l)"
  unfolding consume_nonce_def Let_def by (intro storage_only_intros)

lemma verify_nonce_storage: "storage_only (verify_and_consume_nonce world t)"
  unfolding verify_and_consume_nonce_def
  by (auto split: option.split intro!: storage_only_intros consume_nonce_storage)

section \<open>A borrowed tracker\<close>

definition with_cell :: "nat \<Rightarrow> tracker_cell \<Rightarrow> auth_manager \<Rightarrow> auth_manager" where
  "with_cell i c m = m\<lparr>am_accounts := (am_accounts m)[i := c]\<rparr>"

lemma with_cell_sel [simp]:
  "am_mode (with_cell i c m) = am_mode m" "am_invokers (with_cell i c m) = am_invokers m"
  "am_call_stack (with_cell i c m) = am_call_stack m"
  "am_accounts (with_cell i c m) = (am_accounts m)[i := c]"
  by (simp_all add: with_cell_def)

lemma with_cell_with_cell [simp]: "with_cell i c (with_cell i c' m) = with_cell i c m"
  by (simp add: with_cell_def)

lemma set_cell_auth:
  "set_cell i t b h = h\<lparr>h_auth := with_cell i \<lparr>tc_tracker = t, tc_borrowed = b\<rparr> (h_auth h)\<rparr>"
  by (simp add: set_cell_def with_cell_def)

lemma account_evolves_cell_ok:
  assumes "cell_ok n c" and "\<not> tc_borrowed c" and "account_evolves (tc_tracker c) t"
  shows "cell_ok n \<lparr>tc_tracker = t, tc_borrowed = b\<rparr>"
  using assms by (auto simp: cell_ok_def account_evolves_def evolves_def)

text \<open>A tracker of the manager has evolved, or is borrowed after that.\<close>

lemma with_cell_ok:
  assumes ok: "am_ok m" and mode: "am_mode m = EnforcingAuth" and i: "i < length (am_accounts m)"
    and free: "\<not> tc_borrowed (am_accounts m ! i)"
    and ev: "account_evolves (tc_tracker (am_accounts m ! i)) t"
  shows "am_ok (with_cell i \<lparr>tc_tracker = t, tc_borrowed = b\<rparr> m)"
proof -
  have "cell_ok (length (am_call_stack m)) \<lparr>tc_tracker = t, tc_borrowed = b\<rparr>"
    using ok i account_evolves_cell_ok [OF _ free ev] by (simp add: am_ok_def)
  with ok mode show ?thesis by (auto simp: am_ok_def dest: subsetD [OF set_update_subset_insert])
qed

text \<open>
  The tracker of a cell is taken out, something runs while the cell is borrowed, and the evolved
  tracker is put back.
\<close>

lemma am_evolves_replace:
  assumes ok: "am_ok m" and mode: "am_mode m = EnforcingAuth" and i: "i < length (am_accounts m)"
    and free: "\<not> tc_borrowed (am_accounts m ! i)"
    and t: "account_evolves (tc_tracker (am_accounts m ! i)) t"
    and run: "am_evolves (with_cell i \<lparr>tc_tracker = t', tc_borrowed = True\<rparr> m) m1"
  shows "am_evolves m (with_cell i \<lparr>tc_tracker = t, tc_borrowed = False\<rparr> m1)"
proof -
  let ?b = "\<lparr>tc_tracker = t', tc_borrowed = True\<rparr>" and ?c = "\<lparr>tc_tracker = t, tc_borrowed = False\<rparr>"
  have all: "list_all2 cell_evolves ((am_accounts m)[i := ?b]) (am_accounts m1)"
    and ok1: "am_ok m1" and stack: "am_call_stack m1 = am_call_stack m"
    and mode1: "am_mode m1 = EnforcingAuth"
    using run mode by (auto simp: am_evolves_def same_mode_enforcing)
  have c: "cell_evolves (am_accounts m ! i) ?c" using free t by (simp add: cell_evolves_def)
  have "list_all2 cell_evolves (am_accounts m) ((am_accounts m1)[i := ?c])"
    unfolding list_all2_conv_all_nth
  proof (intro conjI allI impI)
    show "length (am_accounts m) = length ((am_accounts m1)[i := ?c])"
      using all by (simp add: list_all2_conv_all_nth)
    fix j
    assume j: "j < length (am_accounts m)"
    show "cell_evolves (am_accounts m ! j) ((am_accounts m1)[i := ?c] ! j)"
    proof (cases "j = i")
      case True
      with c i all show ?thesis by (simp add: list_all2_conv_all_nth)
    next
      case False
      with all j show ?thesis by (auto simp: list_all2_conv_all_nth nth_list_update split: if_splits)
    qed
  qed
  moreover have "cell_ok (length (am_call_stack m)) ?c"
    using ok i account_evolves_cell_ok [OF _ free t] by (simp add: am_ok_def)
  then have "am_ok (with_cell i ?c m1)"
    using ok1 stack mode1 by (auto simp: am_ok_def dest: subsetD [OF set_update_subset_insert])
  ultimately show ?thesis using run by (simp add: am_evolves_def)
qed

lemma am_evolves_cell:
  assumes ok: "am_ok m" and mode: "am_mode m = EnforcingAuth" and i: "i < length (am_accounts m)"
    and free: "\<not> tc_borrowed (am_accounts m ! i)"
    and t: "account_evolves (tc_tracker (am_accounts m ! i)) t"
  shows "am_evolves m (with_cell i \<lparr>tc_tracker = t, tc_borrowed = False\<rparr> m)"
  using am_evolves_replace [OF ok mode i free t am_evolves_refl [OF with_cell_ok [OF ok mode i free t]]]
  by simp

section \<open>Requests in enforcing mode\<close>

definition checks_nested :: "'v auth_world \<Rightarrow> bool" where
  "checks_nested world \<longleftrightarrow> (\<forall>c p s contexts. well_nested (aw_check_auth world c p s contexts))"

lemma authenticate_nested:
  assumes "checks_nested world"
  shows "well_nested (authenticate world t)"
  unfolding well_nested_iff
proof (intro allI impI)
  fix h :: "'a host"
  assume h: "ready h"
  have 1: "nests h (snd (lift_op (check_account_authentication world acc p s) h))" for acc p s
    by (rule well_nested_iff [THEN iffD1, rule_format,
        OF storage_only_nested [OF account_authentication_storage] h])
  have 2: "nests h (snd (check_account_contract_auth world acc p s root h))" for acc p s root
    using assms h nests_refl [OF h]
    by (simp add: check_account_contract_auth_def checks_nested_def well_nested_iff split: sum.split)
  show "nests h (snd (authenticate world t h))"
    using 1 2 nests_refl [OF h] by (simp add: authenticate_def split: sum.split address.split)
qed

lemma extended_account:
  assumes "extended f (at_invocation t) i"
  shows "account_evolves t (t\<lparr>at_invocation := i\<rparr>)"
    and "account_evolves t (t\<lparr>at_invocation := i, at_verified := b\<rparr>)"
  using evolves_extended [OF assms] by (auto simp: account_evolves_def account_identity_def)

lemma set_cell_same:
  "\<not> tc_borrowed (am_accounts (h_auth h) ! i) \<Longrightarrow>
   set_cell i (tc_tracker (am_accounts (h_auth h) ! i)) False h = h"
proof -
  assume "\<not> tc_borrowed (am_accounts (h_auth h) ! i)"
  then have "\<lparr>tc_tracker = tc_tracker (am_accounts (h_auth h) ! i), tc_borrowed = False\<rparr> =
      am_accounts (h_auth h) ! i"
    by (intro tracker_cell.equality) simp_all
  then show ?thesis by (simp add: set_cell_auth with_cell_def list_update_id)
qed

text \<open>What an attempt on the \<open>i\<close>-th tracker does.\<close>

lemma maybe_authorize_refused:
  assumes ok: "am_ok (h_auth h)" and i: "i < length (am_accounts (h_auth h))"
    and free: "\<not> tc_borrowed (am_accounts (h_auth h) ! i)"
    and run: "maybe_authorize_invocation world i f allow h = (Inr False, h')"
  shows "h' = h"
proof -
  let ?t = "tc_tracker (am_accounts (h_auth h) ! i)"
  obtain inv where inv: "maybe_extend_invocation_match f allow (at_invocation ?t) = Inr (False, inv)"
    "h' = set_cell i (?t\<lparr>at_invocation := inv\<rparr>) False h"
    using run by (auto simp: maybe_authorize_invocation_def Let_def
        split: sum.splits prod.splits bool.splits if_splits)
  have "tracker_ok (at_invocation ?t)" using ok i by (simp add: am_ok_def cell_ok_def)
  from extend_false [OF this inv(1)] inv(2) show ?thesis by (simp add: set_cell_same [OF free])
qed

text \<open>
  A granted attempt: the tracker was free, it has used one node for the function, and it is
  verified now; if it was not before, its address has been authenticated and its nonce consumed.
\<close>

definition grants ::
  "'v auth_world \<Rightarrow> nat \<Rightarrow> authorized_function \<Rightarrow> 'v host \<Rightarrow> 'v host \<Rightarrow> bool" where
  "grants world i f h h' \<longleftrightarrow>
     (let c = am_accounts (h_auth h) ! i; c' = am_accounts (h_auth h') ! i; t = tc_tracker c in
      i < length (am_accounts (h_auth h)) \<and> i < length (am_accounts (h_auth h')) \<and>
      \<not> tc_borrowed c \<and> \<not> tc_borrowed c' \<and>
      extended f (at_invocation t) (at_invocation (tc_tracker c')) \<and>
      account_identity (tc_tracker c') = account_identity t \<and> at_verified (tc_tracker c') \<and>
      (\<not> at_verified t \<longrightarrow>
        (\<exists>t' h0 h1 h2. at_invocation t' = at_invocation (tc_tracker c') \<and>
           account_identity t' = account_identity t \<and>
           authenticate world t' h0 = (Inr (), h1) \<and> h_ledger h0 = h_ledger h \<and>
           verify_and_consume_nonce world t' h1 = Inr ((), h2))))"

lemma nests_cell:
  assumes h: "ready h" and mode: "am_mode (h_auth h) = EnforcingAuth"
    and i: "i < length (am_accounts (h_auth h))" and free: "\<not> tc_borrowed (am_accounts (h_auth h) ! i)"
    and t: "account_evolves (tc_tracker (am_accounts (h_auth h) ! i)) t"
  shows "nests h (set_cell i t False h)"
    and "ready (set_cell i t True h)"
    and "nests (set_cell i t' True h) h1 \<Longrightarrow> nests h (set_cell i t False h1)"
proof -
  have ok: "am_ok (h_auth h)" and self: "settled (h_auth h) (h_auth h)" using h by (simp_all add: ready_def)
  show "nests h (set_cell i t False h)"
    using nests_auth [OF h am_evolves_cell [OF ok mode i free t]] self
    by (simp add: set_cell_auth settled_def)
  show "ready (set_cell i t True h)"
    using h with_cell_ok [OF ok mode i free t] by (simp add: ready_def set_cell_auth settled_def)
  show "nests h (set_cell i t False h1)" if "nests (set_cell i t' True h) h1"
    using that am_evolves_replace [OF ok mode i free t, of t' "h_auth h1"]
    by (simp add: nests_def set_cell_auth extends_events_def settled_def)
qed

lemma maybe_authorize_nested:
  assumes h: "ready h" and mode: "am_mode (h_auth h) = EnforcingAuth" and checks: "checks_nested world"
    and i: "i < length (am_accounts (h_auth h))" and free: "\<not> tc_borrowed (am_accounts (h_auth h) ! i)"
  shows "nests h (snd (maybe_authorize_invocation world i f allow h))"
    and "maybe_authorize_invocation world i f allow h = (Inr True, h') \<Longrightarrow> grants world i f h h'"
proof -
  let ?t = "tc_tracker (am_accounts (h_auth h) ! i)"
  let ?run = "maybe_authorize_invocation world i f allow h"
  have tok: "tracker_ok (at_invocation ?t)" using h i by (simp add: ready_def am_ok_def cell_ok_def)
  have "nests h (snd ?run) \<and> (?run = (Inr True, h') \<longrightarrow> grants world i f h h')"
  proof (cases "maybe_extend_invocation_match f allow (at_invocation ?t)")
    case (Inl e)
    then show ?thesis by (simp add: maybe_authorize_invocation_def Let_def nests_refl h)
  next
    case (Inr p)
    then obtain b inv where b: "maybe_extend_invocation_match f allow (at_invocation ?t) = Inr (b, inv)"
      by (cases p) auto
    show ?thesis
    proof (cases b)
      case False
      then have "inv = at_invocation ?t" using extend_false [OF tok] b by simp
      with False b show ?thesis
        by (simp add: maybe_authorize_invocation_def Let_def set_cell_same [OF free] nests_refl h)
    next
      case True
      then have ext: "extended f (at_invocation ?t) inv" using extend_true(1) [OF tok] b by simp
      define t' where "t' = ?t\<lparr>at_invocation := inv\<rparr>"
      define t2 where "t2 = t'\<lparr>at_verified := True\<rparr>"
      have ev: "account_evolves ?t t'" "account_evolves ?t t2"
        using extended_account [OF ext] by (simp_all add: t'_def t2_def)
      have ids: "account_identity t' = account_identity ?t" "account_identity t2 = account_identity ?t"
        by (simp_all add: t'_def t2_def account_identity_def)
      note cell = nests_cell [OF h mode i free ev(1)] nests_cell [OF h mode i free ev(2)]
      have run: "?run = (if at_verified ?t then (Inr True, set_cell i t' False h)
           else case authenticate world t' (set_cell i t' True h) of
             (Inl e, h1) \<Rightarrow> (Inl (authentication_failure e), set_cell i t' False h1)
           | (Inr _, h1) \<Rightarrow>
               (case lift_op (verify_and_consume_nonce world t') h1 of
                  (Inl e, h2) \<Rightarrow> (Inl e, set_cell i t' False h2)
                | (Inr _, h2) \<Rightarrow> (Inr True, set_cell i t2 False h2)))"
        using b True unfolding maybe_authorize_invocation_def Let_def t'_def t2_def by simp
      show ?thesis
      proof (cases "at_verified ?t")
        case True
        then show ?thesis
          using cell(1) i free ids ext unfolding run
          by (auto simp: grants_def Let_def set_cell_def t'_def)
      next
        case nv: False
        obtain r h1 where a: "authenticate world t' (set_cell i t' True h) = (r, h1)"
          by (cases "authenticate world t' (set_cell i t' True h)")
        have n1: "nests (set_cell i t' True h) h1"
          by (rule well_nestedD [OF authenticate_nested [OF checks] cell(2) a])
        obtain q h2 where l: "lift_op (verify_and_consume_nonce world t') h1 = (q, h2)"
          by (cases "lift_op (verify_and_consume_nonce world t') h1")
        have n2: "nests (set_cell i t' True h) h2"
          using nests_trans [OF n1] well_nestedD [OF storage_only_nested [OF verify_nonce_storage] _ l]
            nests_ready [OF n1] by blast
        have len: "length (am_accounts (h_auth h2)) = length (am_accounts (h_auth h))"
          using n2 mode by (auto simp: nests_def am_evolves_def set_cell_def list_all2_conv_all_nth)
        have "nests h (snd ?run)"
          using cell(3) [OF n1] cell(3) [OF n2] cell(6) [OF n2] nv
          by (auto simp: run a l split: sum.split)
        moreover have "grants world i f h h'" if "?run = (Inr True, h')"
        proof -
          have r: "r = Inr ()" "q = Inr ()" and h': "h' = set_cell i t2 False h2"
            using that nv by (auto simp: run a l split: sum.splits)
          have "\<exists>t' h0 h1 h2. at_invocation t' = at_invocation t2 \<and>
              account_identity t' = account_identity ?t \<and>
              authenticate world t' h0 = (Inr (), h1) \<and> h_ledger h0 = h_ledger h \<and>
              verify_and_consume_nonce world t' h1 = Inr ((), h2)"
            using a l r ids
            by (intro exI [of _ t'] exI [of _ "set_cell i t' True h"] exI [of _ h1] exI [of _ h2])
              (auto simp: t2_def set_cell_def lift_op_def split: sum.splits)
          then show ?thesis
            using i free ids ext len
            by (simp add: grants_def Let_def h' set_cell_def t2_def t'_def)
        qed
        ultimately show ?thesis by blast
      qed
    qed
  qed
  then show "nests h (snd ?run)" and "?run = (Inr True, h') \<Longrightarrow> grants world i f h h'" by blast+
qed

lemma trackers_nested:
  assumes h: "ready h" and mode: "am_mode (h_auth h) = EnforcingAuth" and checks: "checks_nested world"
    and "set is \<subseteq> {..< length (am_accounts (h_auth h))}"
  shows "nests h (snd (require_auth_trackers world a f allow is h))"
    and "require_auth_trackers world a f allow is h = (Inr (), h') \<Longrightarrow>
      \<exists>i \<in> set is. at_address (tc_tracker (am_accounts (h_auth h) ! i)) = a \<and> grants world i f h h'"
proof -
  let ?run = "\<lambda>is. require_auth_trackers world a f allow is h"
  have "nests h (snd (?run is)) \<and>
      (?run is = (Inr (), h') \<longrightarrow>
        (\<exists>i \<in> set is. at_address (tc_tracker (am_accounts (h_auth h) ! i)) = a \<and> grants world i f h h'))"
    using assms(4)
  proof (induction "is")
    case Nil
    then show ?case by (simp add: nests_refl h)
  next
    case (Cons i "is")
    then have IH: "nests h (snd (?run is)) \<and>
      (?run is = (Inr (), h') \<longrightarrow>
        (\<exists>i \<in> set is. at_address (tc_tracker (am_accounts (h_auth h) ! i)) = a \<and> grants world i f h h'))"
      and i: "i < length (am_accounts (h_auth h))" by auto
    show ?case
    proof (cases "tc_borrowed (am_accounts (h_auth h) ! i) \<or>
        at_address (tc_tracker (am_accounts (h_auth h) ! i)) \<noteq> a")
      case True
      with IH show ?thesis by (auto simp: Let_def)
    next
      case False
      then have free: "\<not> tc_borrowed (am_accounts (h_auth h) ! i)" by blast
      have ok: "am_ok (h_auth h)" using h by (simp add: ready_def)
      obtain r h1 where m: "maybe_authorize_invocation world i f allow h = (r, h1)"
        by (cases "maybe_authorize_invocation world i f allow h")
      note n = maybe_authorize_nested [OF h mode checks i free, of f allow]
      show ?thesis
      proof (cases "r = Inr False")
        case True
        with m have "h1 = h" using maybe_authorize_refused [OF ok i free] by blast
        with True m False IH show ?thesis by (auto simp: Let_def)
      next
        case rt: False
        have g: "?run (i # is) = (case r of Inl e \<Rightarrow> (Inl e, h1) | Inr _ \<Rightarrow> (Inr (), h1))"
          using rt m False by (auto simp: Let_def split: sum.split bool.split)
        show ?thesis
        proof (cases r)
          case (Inl e)
          with n(1) m g show ?thesis by simp
        next
          case (Inr b)
          with rt m have "maybe_authorize_invocation world i f allow h = (Inr True, h1)" by simp
          with n(1) n(2) [of h1] m g Inr False show ?thesis by auto
        qed
      qed
    qed
  qed
  then show "nests h (snd (?run is))" and "?run is = (Inr (), h') \<Longrightarrow>
      \<exists>i \<in> set is. at_address (tc_tracker (am_accounts (h_auth h) ! i)) = a \<and> grants world i f h h'"
    by blast+
qed

section \<open>Invoking contracts\<close>

definition invoker_grants ::
  "address \<Rightarrow> authorized_function \<Rightarrow> invoker_tracker list \<Rightarrow> invoker_tracker list \<Rightarrow> bool" where
  "invoker_grants a f ts ts' \<longleftrightarrow>
     (\<exists>i < length ts. iv_contract (ts ! i) = a \<and>
        extended f (iv_invocation (ts ! i)) (iv_invocation (ts' ! i)))"

lemma by_invokers:
  assumes "authorize_by_invokers a f ts = Inr (b, ts')"
    and "\<forall>t \<in> set ts. tracker_ok (iv_invocation t)"
  shows "list_all2 invoker_evolves ts ts' \<and> (b \<longrightarrow> invoker_grants a f ts ts')"
  using assms
proof (induction ts arbitrary: ts')
  case Nil
  then show ?case by simp
next
  case (Cons t ts)
  have ok: "tracker_ok (iv_invocation t)" using Cons.prems(2) by simp
  have refl: "list_all2 invoker_evolves ts ts"
    using Cons.prems(2) by (intro list_all2_refl_on invoker_evolves_refl) simp
  obtain c t' where c: "(if compare_address (iv_contract t) a = Equal
        then invoker_maybe_authorize_invocation f t else Inr (False, t)) = Inr (c, t')"
    using Cons.prems(1) by (auto split: sum.splits)
  show ?case
  proof (cases c)
    case True
    with c have a: "iv_contract t = a" and m: "invoker_maybe_authorize_invocation f t = Inr (True, t')"
      by (auto split: if_splits)
    from m obtain i where i: "maybe_extend_invocation_match f True (iv_invocation t) = Inr (True, i)"
      "t' = t\<lparr>iv_invocation := i\<rparr>"
      by (auto simp: invoker_maybe_authorize_invocation_def split: sum.splits)
    note e = extend_true(1) [OF ok i(1)]
    have "invoker_evolves t t'" using evolves_extended [OF e] i(2) by (auto simp: invoker_evolves_def)
    moreover have "ts' = t' # ts" "b" using Cons.prems(1) c True by auto
    moreover have "invoker_grants a f (t # ts) (t' # ts)"
      unfolding invoker_grants_def using a e i(2) by (intro exI [of _ 0]) simp
    ultimately show ?thesis using refl by simp
  next
    case False
    have t': "t' = t"
      using c False extend_false [OF ok]
      by (auto simp: invoker_maybe_authorize_invocation_def split: if_splits sum.splits)
    obtain ts1 where rest: "authorize_by_invokers a f ts = Inr (b, ts1)" "ts' = t # ts1"
      using Cons.prems(1) c False t' by (auto split: sum.splits)
    with Cons have "list_all2 invoker_evolves ts ts1 \<and> (b \<longrightarrow> invoker_grants a f ts ts1)" by simp
    moreover have "invoker_grants a f ts ts1 \<Longrightarrow> invoker_grants a f (t # ts) (t # ts1)"
      unfolding invoker_grants_def by (metis Suc_mono length_Cons nth_Cons_Suc)
    ultimately show ?thesis using rest(2) invoker_evolves_refl [OF ok] by simp
  qed
qed

lemma invokers_evolve:
  assumes ok: "am_ok m" and self: "settled m m" and all: "list_all2 invoker_evolves (am_invokers m) ts"
  shows "am_evolves m (m\<lparr>am_invokers := ts\<rparr>)" and "settled m (m\<lparr>am_invokers := ts\<rparr>)"
proof -
  have live: "live (am_invokers m) = am_invokers m"
  proof -
    have "length (live (am_invokers m)) = length (am_invokers m)" using self by (simp add: settled_def)
    then show ?thesis by (metis le_refl take_all takeWhile_eq_take)
  qed
  have "\<forall>t \<in> set (am_invokers m). in_scope t" using live by (metis set_takeWhileD)
  then have scope: "\<forall>t \<in> set ts. tracker_ok (iv_invocation t) \<and> in_scope t"
    using all by (metis evolves_ok invoker_evolves_def invoker_evolves_scope list_all2_set)
  then have "invokers_ok ts" by (simp add: invokers_ok_def dropWhile_eq_Nil_conv [THEN iffD2])
  with ok have ok': "am_ok (m\<lparr>am_invokers := ts\<rparr>)" by (simp add: am_ok_def)
  have "\<exists>pre fresh. ts = pre @ fresh \<and> list_all2 invoker_evolves (live (am_invokers m)) pre \<and>
      (\<forall>t \<in> set fresh. is_out_of_scope t)"
    using all live by (metis append_Nil2 empty_iff list.set(1))
  with ok' am_evolves_refl [OF ok] show "am_evolves m (m\<lparr>am_invokers := ts\<rparr>)"
    by (simp add: am_evolves_def)
  show "settled m (m\<lparr>am_invokers := ts\<rparr>)"
    unfolding settled_def live using all by (simp add: list_all2_conv_all_nth)
qed

text \<open>The address is the contract that made the call.\<close>

definition direct_invoker :: "address \<Rightarrow> auth_manager \<Rightarrow> bool" where
  "direct_invoker a m \<longleftrightarrow>
     (\<exists>fr f. \<exists>frs. am_call_stack m = frs @ [ContractFrame a f, fr])"

lemma check_invoker:
  assumes ok: "am_ok m" and self: "settled m m"
    and run: "maybe_check_invoker_contract_auth a f m = Inr (b, m')"
  shows "am_evolves m m'" and "settled m m'" and "am_mode m' = am_mode m"
    and "am_accounts m' = am_accounts m" and "am_call_stack m' = am_call_stack m"
    and "b \<Longrightarrow> direct_invoker a m \<or> invoker_grants a f (am_invokers m) (am_invokers m')"
proof -
  have "(m' = m \<and> (b \<longrightarrow> direct_invoker a m)) \<or>
      (\<exists>ts. authorize_by_invokers a f (am_invokers m) = Inr (b, ts) \<and> m' = m\<lparr>am_invokers := ts\<rparr>)"
  proof (cases "length (am_call_stack m) < 2")
    case True
    with run show ?thesis by (simp add: maybe_check_invoker_contract_auth_def)
  next
    case False
    then obtain frs fr fr' where st: "am_call_stack m = frs @ [fr, fr']"
    proof (cases "am_call_stack m" rule: rev_cases)
      case Nil
      with False show ?thesis by simp
    next
      case (snoc ys fr')
      with False that show ?thesis by (cases ys rule: rev_cases) auto
    qed
    have nth: "am_call_stack m ! (length (am_call_stack m) - 2) = fr" by (simp add: st nth_append)
    show ?thesis
      using run False unfolding maybe_check_invoker_contract_auth_def Let_def nth
      by (auto simp: direct_invoker_def st split: auth_stack_frame.splits if_splits sum.splits)
  qed
  then have "am_evolves m m' \<and> settled m m' \<and> am_mode m' = am_mode m \<and>
      am_accounts m' = am_accounts m \<and> am_call_stack m' = am_call_stack m \<and>
      (b \<longrightarrow> direct_invoker a m \<or> invoker_grants a f (am_invokers m) (am_invokers m'))"
  proof
    assume "m' = m \<and> (b \<longrightarrow> direct_invoker a m)"
    then show ?thesis using am_evolves_refl [OF ok] self by simp
  next
    assume "\<exists>ts. authorize_by_invokers a f (am_invokers m) = Inr (b, ts) \<and> m' = m\<lparr>am_invokers := ts\<rparr>"
    then obtain ts where ts: "authorize_by_invokers a f (am_invokers m) = Inr (b, ts)"
      "m' = m\<lparr>am_invokers := ts\<rparr>" by blast
    have "\<forall>t \<in> set (am_invokers m). tracker_ok (iv_invocation t)"
      using ok by (simp add: am_ok_def invokers_ok_def)
    from by_invokers [OF ts(1) this] invokers_evolve [OF ok self] ts(2) show ?thesis by simp
  qed
  then show "am_evolves m m'" and "settled m m'" and "am_mode m' = am_mode m"
    and "am_accounts m' = am_accounts m" and "am_call_stack m' = am_call_stack m"
    and "b \<Longrightarrow> direct_invoker a m \<or> invoker_grants a f (am_invokers m) (am_invokers m')"
    by blast+
qed

section \<open>Requests in recording mode\<close>

lemma recording_evolves:
  assumes ok: "am_ok m" and self: "settled m m" and mode: "am_mode m \<noteq> EnforcingAuth"
    and ok': "am_ok m'" and mode': "same_mode (am_mode m) (am_mode m')"
    and same: "am_call_stack m' = am_call_stack m" "am_invokers m' = am_invokers m"
  shows "am_evolves m m'" and "settled m m'"
  using am_evolves_refl [OF ok] assms by (simp_all add: am_evolves_def settled_def)

lemma nests_recording:
  assumes h: "ready h" and mode: "am_mode (h_auth h) \<noteq> EnforcingAuth"
    and ok': "am_ok m'" and mode': "same_mode (am_mode (h_auth h)) (am_mode m')"
    and same: "am_call_stack m' = am_call_stack (h_auth h)" "am_invokers m' = am_invokers (h_auth h)"
  shows "nests h (h\<lparr>h_auth := m'\<rparr>)"
  using nests_auth [OF h] recording_evolves [OF _ _ mode ok' mode' same] h by (simp add: ready_def)

lemma set_handles_nests:
  assumes h: "ready h"
  shows "nests h (set_handles hs h)"
proof (cases "am_mode (h_auth h)")
  case EnforcingAuth
  with nests_refl [OF h] show ?thesis by (simp add: set_handles_def)
next
  case (RecordingAuth info)
  have "am_ok ((h_auth h)\<lparr>am_mode := RecordingAuth (info\<lparr>rec_handles := hs\<rparr>)\<rparr>)"
    using h RecordingAuth by (simp add: ready_def am_ok_def)
  with RecordingAuth show ?thesis
    unfolding set_handles_def by (auto intro!: nests_recording [OF h] simp: same_mode_def)
qed

lemma record_in_cell_nests:
  assumes h: "ready h" and mode: "am_mode (h_auth h) \<noteq> EnforcingAuth"
    and i: "i < length (am_accounts (h_auth h))"
  shows "nests h (snd (record_in_cell i f h))"
proof (cases "account_record_invocation f (tc_tracker (am_accounts (h_auth h) ! i))")
  case (Inl e)
  with nests_refl [OF h] show ?thesis by (simp add: record_in_cell_def)
next
  case (Inr t)
  let ?c = "am_accounts (h_auth h) ! i" and ?depth = "length (am_call_stack (h_auth h))"
  have all: "\<forall>c \<in> set (am_accounts (h_auth h)). cell_ok ?depth c \<and> \<not> tc_borrowed c"
    using h mode by (simp add: ready_def am_ok_def)
  then have c: "cell_ok ?depth ?c" "\<not> tc_borrowed ?c" using i by simp_all
  obtain inv where inv: "tracker_record_invocation f (cell_invocation ?c) = Inr inv"
    "t = (tc_tracker ?c)\<lparr>at_invocation := inv\<rparr>"
    using Inr by (auto simp: account_record_invocation_def split: sum.splits)
  have "cell_ok ?depth \<lparr>tc_tracker = t, tc_borrowed = False\<rparr>"
    using record_ok [OF _ inv(1)] c inv(2) by (simp add: cell_ok_def)
  with all have "am_ok (with_cell i \<lparr>tc_tracker = t, tc_borrowed = False\<rparr> (h_auth h))"
    using h by (auto simp: ready_def am_ok_def dest: subsetD [OF set_update_subset_insert])
  with Inr show ?thesis
    by (auto simp: record_in_cell_def set_cell_auth intro!: nests_recording [OF h mode])
qed

lemma find_recording_bound:
  "find_recording_tracker a i cs = Some (Some j) \<Longrightarrow> i \<le> j \<and> j < i + length cs"
  by (induction a i cs rule: find_recording_tracker.induct) (auto split: if_splits)

lemma account_new_recording_storage: "storage_only (account_new_recording world nonce a f n)"
  unfolding account_new_recording_def Let_def
  by (intro storage_only_intros consume_nonce_storage)

lemma account_new_recording_Inr:
  assumes "account_new_recording world nonce a f n h = Inr (t, h')"
  shows "tracker_ok (at_invocation t)" and "length (it_match_stack (at_invocation t)) = n"
proof -
  obtain tr where "tracker_new_recording f n = Inr tr" "at_invocation t = tr"
    using assms
    by (auto simp: account_new_recording_def Let_def bind_op_Inr of_result_Inr split: if_splits)
  with new_recording_ok show "tracker_ok (at_invocation t)"
    and "length (it_match_stack (at_invocation t)) = n" by auto
qed

lemma record_new_nests:
  assumes h: "ready h" and mode: "am_mode (h_auth h) = RecordingAuth info"
  shows "nests h (snd (record_with_new_tracker world nonce handle b a f h))"
proof (cases "b \<and> length (am_call_stack (h_auth h)) \<noteq> 1")
  case True
  with nests_refl [OF h] show ?thesis by (simp add: record_with_new_tracker_def)
next
  case False
  let ?n = "length (am_call_stack (h_auth h))"
  show ?thesis
  proof (cases "account_new_recording world nonce a f ?n h")
    case (Inl e)
    with nests_refl [OF h] False show ?thesis by (simp add: record_with_new_tracker_def)
  next
    case (Inr p)
    obtain t h1 where p: "p = (t, h1)" by (cases p)
    with Inr account_new_recording_storage obtain s where h1: "h1 = h\<lparr>h_storage := s\<rparr>"
      unfolding storage_only_def by blast
    then have n1: "nests h h1" using nests_storage [OF h] by simp
    note t = account_new_recording_Inr [OF Inr [unfolded p]]
    define h2 where "h2 = set_accounts
        (am_accounts (h_auth h1) @ [\<lparr>tc_tracker = t, tc_borrowed = False\<rparr>]) h1"
    have "am_ok ((h_auth h1)\<lparr>am_accounts :=
        am_accounts (h_auth h1) @ [\<lparr>tc_tracker = t, tc_borrowed = False\<rparr>]\<rparr>)"
      using h t by (auto simp: ready_def am_ok_def h1 cell_ok_def)
    then have n2: "nests h1 h2"
      unfolding h2_def set_accounts_def
      by (intro nests_recording [OF nests_ready [OF n1]]) (simp_all add: h1 mode)
    note n3 = set_handles_nests [OF nests_ready [OF n2]]
    have "nests h (set_handles hs h2)" for hs by (rule nests_trans [OF n1 nests_trans [OF n2 n3]])
    moreover have "am_mode (h_auth h2) = RecordingAuth info"
      by (simp add: h2_def h1 set_accounts_def mode)
    ultimately show ?thesis
      using Inr p False by (auto simp: record_with_new_tracker_def Let_def h2_def)
  qed
qed

lemma recording_nests:
  assumes h: "ready h" and mode: "am_mode (h_auth h) = RecordingAuth info"
  shows "nests h (snd (require_auth_recording world nonce handle a f info h))"
proof -
  define search where "search = (\<lambda>h :: 'a host.
            case find_recording_tracker a 0 (am_accounts (h_auth h)) of
              None \<Rightarrow> (Inl (HostErr EAuth InternalError), h)
            | Some (Some i) \<Rightarrow> record_in_cell i f h
            | Some None \<Rightarrow>
                record_with_new_tracker world nonce handle (rec_disable_non_root_auth info) a f h)"
  have search: "nests h (snd (search h))"
    if h: "ready h" and mode: "am_mode (h_auth h) = RecordingAuth i" for h :: "'a host" and i
    using nests_refl [OF h] record_new_nests [OF h mode] record_in_cell_nests [OF h, of _ f] mode
      find_recording_bound [of a 0 "am_accounts (h_auth h)"]
    by (auto simp: search_def split: option.split)
  have free: "\<not> tc_borrowed (am_accounts (h_auth h) ! i)" if "i < length (am_accounts (h_auth h))" for i
    using h mode that by (simp add: ready_def am_ok_def)
  note hs = set_handles_nests [OF h, of "(rec_handles info)(handle := None)"]
  have "am_mode (h_auth (set_handles ((rec_handles info)(handle := None)) h)) =
      RecordingAuth (info\<lparr>rec_handles := (rec_handles info)(handle := None)\<rparr>)"
    by (simp add: set_handles_def mode)
  from nests_trans [OF hs search [OF nests_ready [OF hs] this]]
  have again: "nests h (snd (search (set_handles ((rec_handles info)(handle := None)) h)))" .
  have "require_auth_recording world nonce handle a f info h =
      (case rec_handles info handle of
           None \<Rightarrow> search h
         | Some tracker_id \<Rightarrow>
             if length (am_accounts (h_auth h)) \<le> tracker_id then (Inl (HostErr EAuth InternalError), h)
             else
               (let c = am_accounts (h_auth h) ! tracker_id in
                if tc_borrowed c then (Inl (HostErr EAuth InternalError), h)
                else if \<not> has_authorized_invocations_in_stack (tc_tracker c)
                then search (set_handles ((rec_handles info)(handle := None)) h)
                else record_in_cell tracker_id f h))"
    by (simp only: require_auth_recording_def Let_def search_def)
  then show ?thesis
    using search [OF h mode] again nests_refl [OF h] record_in_cell_nests [OF h, of _ f] mode
    by (simp add: Let_def split: option.split)
qed

section \<open>Requests\<close>

lemma require_auth_nested:
  assumes checks: "checks_nested world"
  shows "well_nested (require_auth_internal world nonce handle a f)"
  unfolding well_nested_iff
proof (intro allI impI)
  fix h :: "'a host"
  assume h: "ready h"
  show "nests h (snd (require_auth_internal world nonce handle a f h))"
  proof (cases "maybe_check_invoker_contract_auth a f (h_auth h)")
    case (Inl e)
    with nests_refl [OF h] show ?thesis by (simp add: require_auth_internal_def)
  next
    case (Inr p)
    obtain b m where p: "p = (b, m)" by (cases p)
    have "am_ok (h_auth h)" "settled (h_auth h) (h_auth h)" using h by (simp_all add: ready_def)
    note inv = check_invoker [OF this Inr [unfolded p]]
    have n: "nests h (h\<lparr>h_auth := m\<rparr>)" by (rule nests_auth [OF h inv(1,2)])
    note r = nests_ready [OF n]
    have "nests (h\<lparr>h_auth := m\<rparr>) (snd (require_auth_enforcing world a f (h\<lparr>h_auth := m\<rparr>)))"
      if "am_mode m = EnforcingAuth"
      unfolding require_auth_enforcing_def
      by (rule trackers_nested(1) [OF r _ checks]) (use that in auto)
    moreover have "nests (h\<lparr>h_auth := m\<rparr>)
        (snd (require_auth_recording world nonce handle a f info (h\<lparr>h_auth := m\<rparr>)))"
      if "am_mode m = RecordingAuth info" for info
      by (rule recording_nests [OF r]) (use that in simp)
    ultimately show ?thesis
      using Inr p n by (auto simp: require_auth_internal_def split: bool.split authorization_mode.split
          intro: nests_trans)
  qed
qed

lemma am_require_auth_nested:
  assumes "checks_nested world"
  shows "well_nested (am_require_auth world nonce handle a args)"
  unfolding well_nested_iff
proof (intro allI impI)
  fix h :: "'a host"
  assume h: "ready h"
  have "nests h (snd (require_auth_internal world nonce handle a f h))" for f
    using require_auth_nested [OF assms, of nonce handle a f] h by (simp only: well_nested_iff)
  with nests_refl [OF h] show "nests h (snd (am_require_auth world nonce handle a args h))"
    by (simp add: am_require_auth_def)
qed

text \<open>What a request that succeeds in enforcing mode has found.\<close>

definition authorized ::
  "'v auth_world \<Rightarrow> address \<Rightarrow> authorized_function \<Rightarrow> 'v host \<Rightarrow> 'v host \<Rightarrow> bool" where
  "authorized world a f h h' \<longleftrightarrow>
     direct_invoker a (h_auth h) \<or>
     invoker_grants a f (am_invokers (h_auth h)) (am_invokers (h_auth h')) \<or>
     (\<exists>i. at_address (tc_tracker (am_accounts (h_auth h) ! i)) = a \<and> grants world i f h h')"

lemma require_auth_granted:
  assumes h: "ready h" and mode: "am_mode (h_auth h) = EnforcingAuth" and checks: "checks_nested world"
    and run: "require_auth_internal world nonce handle a f h = (Inr (), h')"
  shows "authorized world a f h h'"
proof -
  have ok: "am_ok (h_auth h)" "settled (h_auth h) (h_auth h)" using h by (simp_all add: ready_def)
  obtain b m where bm: "maybe_check_invoker_contract_auth a f (h_auth h) = Inr (b, m)"
    using run by (auto simp: require_auth_internal_def split: sum.splits)
  note inv = check_invoker [OF ok bm]
  show ?thesis
  proof (cases b)
    case True
    with run bm have "h' = h\<lparr>h_auth := m\<rparr>" by (simp add: require_auth_internal_def)
    with inv(6) True show ?thesis by (auto simp: authorized_def)
  next
    case False
    let ?h = "h\<lparr>h_auth := m\<rparr>"
    have run': "require_auth_enforcing world a f ?h = (Inr (), h')"
      using run bm False inv(3) mode by (simp add: require_auth_internal_def)
    have r: "ready ?h" by (rule nests_ready [OF nests_auth [OF h inv(1,2)]])
    obtain i where "at_address (tc_tracker (am_accounts (h_auth ?h) ! i)) = a" "grants world i f ?h h'"
      using trackers_nested(2) [OF r _ checks _ run' [unfolded require_auth_enforcing_def]] inv(3) mode
      by (auto simp: atLeast0LessThan)
    moreover have "grants world i f ?h h' = grants world i f h h'"
      by (simp add: grants_def inv(4))
    moreover have "am_accounts (h_auth ?h) = am_accounts (h_auth h)" by (simp add: inv(4))
    ultimately show ?thesis unfolding authorized_def by metis
  qed
qed

section \<open>Trackers for the next call\<close>

lemma to_authorized_unused:
  "to_authorized_invocation a entry = Inr i \<Longrightarrow> \<not> ai_exhausted i"
  "to_authorized_invocations a entries = Inr is \<Longrightarrow> True"
  by (induction a entry and a entries arbitrary: i and "is"
      rule: to_authorized_invocation_to_authorized_invocations.induct)
    (auto simp: invocation_new_def invoker_create_contract_def split: sum.splits executable.splits)

lemma add_invokers:
  assumes "add_invoker_contract_auth cid entries m = (r, m')"
  shows "\<exists>ts. m' = m\<lparr>am_invokers := am_invokers m @ ts\<rparr> \<and> (r = Inr () \<longrightarrow> length ts = length entries) \<and>
    (\<forall>t \<in> set ts. tracker_ok (iv_invocation t) \<and> is_out_of_scope t)"
  using assms
proof (induction cid entries m rule: add_invoker_contract_auth.induct)
  case (1 cid m)
  then show ?case by (intro exI [of _ "[]"]) simp
next
  case (2 cid entry entries m)
  show ?case
  proof (cases "new_with_curr_contract_as_invoker cid entry")
    case (Inl e)
    with 2(2) show ?thesis by (intro exI [of _ "[]"]) auto
  next
    case (Inr t)
    then obtain i where i: "to_authorized_invocation (ContractAddr cid) entry = Inr i"
      "t = \<lparr>iv_contract = ContractAddr cid, iv_invocation = tracker_new i\<rparr>"
      by (auto simp: new_with_curr_contract_as_invoker_def split: sum.splits)
    have t: "tracker_ok (iv_invocation t) \<and> is_out_of_scope t"
      using to_authorized_unused(1) [OF i(1)] i(2)
      by (simp add: tracker_ok_def tracker_new_def is_out_of_scope_def tracker_is_empty_def)
    obtain ts where "m' = m\<lparr>am_invokers := (am_invokers m @ [t]) @ ts\<rparr>"
      "r = Inr () \<longrightarrow> length ts = length entries"
      "\<forall>t \<in> set ts. tracker_ok (iv_invocation t) \<and> is_out_of_scope t"
      using 2 Inr by fastforce
    with t show ?thesis by (intro exI [of _ "t # ts"]) simp
  qed
qed

lemma am_evolves_fresh:
  assumes "am_evolves m m'" and fresh: "\<forall>t \<in> set ts. tracker_ok (iv_invocation t) \<and> is_out_of_scope t"
  shows "am_evolves m (m'\<lparr>am_invokers := am_invokers m' @ ts\<rparr>)"
proof -
  have "invokers_ok (am_invokers m')" using assms(1) by (simp add: am_evolves_def am_ok_def)
  then have "invokers_ok (am_invokers m' @ ts)"
    using fresh
    by (auto simp: invokers_ok_def dropWhile_append dest: set_dropWhileD split: if_splits)
  moreover have "am_ok m'" using assms(1) by (simp add: am_evolves_def)
  ultimately have "am_ok (m'\<lparr>am_invokers := am_invokers m' @ ts\<rparr>)" by (simp add: am_ok_def)
  moreover have "\<exists>pre fresh. am_invokers m' @ ts = pre @ fresh \<and>
      list_all2 invoker_evolves (live (am_invokers m)) pre \<and> (\<forall>t \<in> set fresh. is_out_of_scope t)"
  proof -
    obtain pre old where "am_invokers m' = pre @ old" "\<forall>t \<in> set old. is_out_of_scope t"
      "list_all2 invoker_evolves (live (am_invokers m)) pre"
      using assms(1) by (auto simp: am_evolves_def)
    with fresh show ?thesis by (intro exI [of _ pre] exI [of _ "old @ ts"]) auto
  qed
  ultimately show ?thesis using assms(1) by (simp add: am_evolves_def)
qed

end
