(* ===== verification/Host_Vector.thy ===== *)
theory Host_Vector
  imports Host_Data
begin

text \<open>
  The host's vector (\<open>host/metered_vector.rs\<close>), its index checks (\<open>host/validity.rs\<close>) and the
  vector and map host functions of \<open>host.rs\<close>. A vector object is the list of its values and a
  map object the ordered map of its entries: adding and visiting host objects is the identity.
  Charges to the budget are not modelled.
\<close>

section \<open>Definitions\<close>

definition mv_from_vec :: "'a list \<Rightarrow> error + 'a list" where
  "mv_from_vec xs = (if 2 ^ 32 \<le> length xs then Inl MAP_OOB else Inr xs)"

definition mv_from_exact_iter :: "'a list \<Rightarrow> error + 'a list" where
  "mv_from_exact_iter xs = (if 2 ^ 32 \<le> length xs then Inl MAP_OOB else mv_from_vec xs)"

definition mv_set :: "nat \<Rightarrow> 'a \<Rightarrow> 'a list \<Rightarrow> error + 'a list" where
  "mv_set index v xs = (if index < length xs then Inr (xs[index := v]) else Inl MAP_OOB)"

definition mv_get :: "nat \<Rightarrow> 'a list \<Rightarrow> error + 'a" where
  "mv_get index xs = (if index < length xs then Inr (xs ! index) else Inl MAP_OOB)"

definition mv_push_front :: "'a \<Rightarrow> 'a list \<Rightarrow> error + 'a list" where
  "mv_push_front v xs =
     (if length xs = 2 ^ 32 - 1 then Inl MAP_OOB else mv_from_exact_iter ([v] @ xs))"

definition mv_pop_front :: "'a list \<Rightarrow> error + 'a list" where
  "mv_pop_front xs = (if xs = [] then Inl MAP_OOB else mv_from_exact_iter (drop 1 xs))"

definition mv_push_back :: "'a \<Rightarrow> 'a list \<Rightarrow> error + 'a list" where
  "mv_push_back v xs =
     (if length xs = 2 ^ 32 - 1 then Inl MAP_OOB else mv_from_exact_iter (xs @ [v]))"

definition add_or_err :: "nat \<Rightarrow> nat \<Rightarrow> error + nat" where
  "add_or_err x y =
     (if USIZE_MAX < x + y then Inl MAP_OOB
      else if 2 ^ 32 \<le> x + y then Inl MAP_OOB else Inr (x + y))"

definition sub_or_err :: "nat \<Rightarrow> nat \<Rightarrow> error + nat" where
  "sub_or_err x y = (if x < y then Inl MAP_OOB else Inr (x - y))"

definition mv_pop_back :: "'a list \<Rightarrow> error + 'a list" where
  "mv_pop_back xs =
     (if xs = [] then Inl MAP_OOB
      else case sub_or_err (length xs) 1 of
        Inl e \<Rightarrow> Inl e
      | Inr n \<Rightarrow> mv_from_exact_iter (take n xs))"

definition mv_remove :: "nat \<Rightarrow> 'a list \<Rightarrow> error + 'a list" where
  "mv_remove idx xs =
     (if length xs \<le> idx \<or> idx = USIZE_MAX - 1 then Inl MAP_OOB
      else case add_or_err idx 1 of
        Inl e \<Rightarrow> Inl e
      | Inr skip \<Rightarrow> mv_from_exact_iter (take idx xs @ drop skip xs))"

definition mv_front :: "'a list \<Rightarrow> error + 'a" where
  "mv_front xs = (case xs of [] \<Rightarrow> Inl MAP_OOB | x # _ \<Rightarrow> Inr x)"

definition mv_back :: "'a list \<Rightarrow> error + 'a" where
  "mv_back xs = (if xs = [] then Inl MAP_OOB else Inr (last xs))"

definition mv_insert :: "nat \<Rightarrow> 'a \<Rightarrow> 'a list \<Rightarrow> error + 'a list" where
  "mv_insert index v xs =
     (if length xs = 2 ^ 32 - 1 then Inl MAP_OOB
      else if length xs < index then Inl MAP_OOB
      else if index = length xs then mv_push_back v xs
      else if index = 0 then mv_push_front v xs
      else mv_from_exact_iter (take index xs @ [v] @ drop index xs))"

definition mv_append :: "'a list \<Rightarrow> 'a list \<Rightarrow> error + 'a list" where
  "mv_append xs ys =
     (case add_or_err (length xs) (length ys) of
        Inl e \<Rightarrow> Inl e
      | Inr _ \<Rightarrow> mv_from_exact_iter (xs @ ys))"

definition mv_slice :: "nat \<Rightarrow> nat \<Rightarrow> 'a list \<Rightarrow> error + 'a list" where
  "mv_slice start stop xs =
     (if start \<le> stop \<and> stop \<le> length xs then mv_from_exact_iter (take (stop - start) (drop start xs))
      else Inl MAP_OOB)"

fun index_from :: "('a \<Rightarrow> error + ordering) \<Rightarrow> (nat \<times> 'a) list \<Rightarrow> error + nat option" where
  "index_from f [] = Inr None"
| "index_from f ((i, x) # ps) =
     (case f x of
        Inl e \<Rightarrow> Inl e
      | Inr r \<Rightarrow> if r = Equal then Inr (Some i) else index_from f ps)"

definition mv_first_index_of :: "('a \<Rightarrow> error + ordering) \<Rightarrow> 'a list \<Rightarrow> error + nat option" where
  "mv_first_index_of f xs = index_from f (enumerate 0 xs)"

definition mv_last_index_of :: "('a \<Rightarrow> error + ordering) \<Rightarrow> 'a list \<Rightarrow> error + nat option" where
  "mv_last_index_of f xs = index_from f (rev (enumerate 0 xs))"

definition mv_binary_search_by :: "('a \<Rightarrow> error + ordering) \<Rightarrow> 'a list \<Rightarrow> error + found" where
  "mv_binary_search_by cmp xs = binary_search cmp xs"

definition validate_index_lt_bound :: "u32 \<Rightarrow> nat \<Rightarrow> error + unit" where
  "validate_index_lt_bound index bound =
     (if bound \<le> unat index then Inl (HostErr EObject IndexBounds) else Inr ())"

definition validate_index_le_bound :: "u32 \<Rightarrow> nat \<Rightarrow> error + unit" where
  "validate_index_le_bound index bound =
     (if bound < unat index then Inl (HostErr EObject IndexBounds) else Inr ())"

definition valid_range_from_start_end_bound :: "u32 \<Rightarrow> u32 \<Rightarrow> nat \<Rightarrow> error + (nat \<times> nat)" where
  "valid_range_from_start_end_bound start stop bound =
     (case validate_index_le_bound start bound of
        Inl e \<Rightarrow> Inl e
      | Inr _ \<Rightarrow>
     (case validate_index_le_bound stop bound of
        Inl e \<Rightarrow> Inl e
      | Inr _ \<Rightarrow>
          if stop < start then Inl (HostErr EObject InvalidInput)
          else Inr (unat start, unat stop)))"

definition usize_to_u32 :: "nat \<Rightarrow> error + u32" where
  "usize_to_u32 n =
     (if n < 2 ^ 32 then Inr (word_of_nat n) else Inl (HostErr EValue ArithDomain))"

text \<open>The index of a search in the low 32 bits, whether it was found in the bit above.\<close>

definition u64_from_binary_search_result :: "found \<Rightarrow> error + u64" where
  "u64_from_binary_search_result res =
     (case res of
        FoundAt u \<Rightarrow>
          (case usize_to_u32 u of Inl e \<Rightarrow> Inl e | Inr v \<Rightarrow> Inr (or (ucast v) (push_bit 32 1)))
      | InsertAt u \<Rightarrow>
          (case usize_to_u32 u of Inl e \<Rightarrow> Inl e | Inr v \<Rightarrow> Inr (ucast v)))"

subsection \<open>Vector functions\<close>

definition vec_put :: "'a list \<Rightarrow> u32 \<Rightarrow> 'a \<Rightarrow> error + 'a list" where
  "vec_put v i x =
     (case validate_index_lt_bound i (length v) of Inl e \<Rightarrow> Inl e | Inr _ \<Rightarrow> mv_set (unat i) x v)"

definition vec_get :: "'a list \<Rightarrow> u32 \<Rightarrow> error + 'a" where
  "vec_get v i =
     (case validate_index_lt_bound i (length v) of Inl e \<Rightarrow> Inl e | Inr _ \<Rightarrow> mv_get (unat i) v)"

definition vec_del :: "'a list \<Rightarrow> u32 \<Rightarrow> error + 'a list" where
  "vec_del v i =
     (case validate_index_lt_bound i (length v) of Inl e \<Rightarrow> Inl e | Inr _ \<Rightarrow> mv_remove (unat i) v)"

definition vec_len :: "'a list \<Rightarrow> error + u32" where
  "vec_len v = usize_to_u32 (length v)"

definition vec_new :: "'a list" where
  "vec_new = []"

definition vec_push_front :: "'a list \<Rightarrow> 'a \<Rightarrow> error + 'a list" where
  "vec_push_front v x = mv_push_front x v"

definition vec_pop_front :: "'a list \<Rightarrow> error + 'a list" where
  "vec_pop_front v = mv_pop_front v"

definition vec_push_back :: "'a list \<Rightarrow> 'a \<Rightarrow> error + 'a list" where
  "vec_push_back v x = mv_push_back x v"

definition vec_pop_back :: "'a list \<Rightarrow> error + 'a list" where
  "vec_pop_back v = mv_pop_back v"

definition vec_front :: "'a list \<Rightarrow> error + 'a" where
  "vec_front v = mv_front v"

definition vec_back :: "'a list \<Rightarrow> error + 'a" where
  "vec_back v = mv_back v"

definition vec_insert :: "'a list \<Rightarrow> u32 \<Rightarrow> 'a \<Rightarrow> error + 'a list" where
  "vec_insert v i x =
     (case validate_index_le_bound i (length v) of Inl e \<Rightarrow> Inl e | Inr _ \<Rightarrow> mv_insert (unat i) x v)"

definition vec_append :: "'a list \<Rightarrow> 'a list \<Rightarrow> error + 'a list" where
  "vec_append v1 v2 =
     (if int (2 ^ 32 - 1) - int (length v2) < int (length v1)
      then Inl (HostErr EValue ArithDomain) else mv_append v1 v2)"

definition vec_slice :: "'a list \<Rightarrow> u32 \<Rightarrow> u32 \<Rightarrow> error + 'a list" where
  "vec_slice v start stop =
     (case valid_range_from_start_end_bound start stop (length v) of
        Inl e \<Rightarrow> Inl e
      | Inr (s, t) \<Rightarrow> mv_slice s t v)"

definition vec_first_index_of :: "'a compare \<Rightarrow> 'a list \<Rightarrow> 'a \<Rightarrow> error + u32 option" where
  "vec_first_index_of compare v x =
     (case mv_first_index_of (\<lambda>other. compare x other) v of
        Inl e \<Rightarrow> Inl e
      | Inr (Some u) \<Rightarrow> (case usize_to_u32 u of Inl e \<Rightarrow> Inl e | Inr w \<Rightarrow> Inr (Some w))
      | Inr None \<Rightarrow> Inr None)"

definition vec_last_index_of :: "'a compare \<Rightarrow> 'a list \<Rightarrow> 'a \<Rightarrow> error + u32 option" where
  "vec_last_index_of compare v x =
     (case mv_last_index_of (\<lambda>other. compare x other) v of
        Inl e \<Rightarrow> Inl e
      | Inr (Some u) \<Rightarrow> (case usize_to_u32 u of Inl e \<Rightarrow> Inl e | Inr w \<Rightarrow> Inr (Some w))
      | Inr None \<Rightarrow> Inr None)"

definition vec_binary_search :: "'a compare \<Rightarrow> 'a list \<Rightarrow> 'a \<Rightarrow> error + u64" where
  "vec_binary_search compare v x =
     (case mv_binary_search_by (\<lambda>probe. compare probe x) v of
        Inl e \<Rightarrow> Inl e
      | Inr res \<Rightarrow> u64_from_binary_search_result res)"

subsection \<open>Map functions\<close>

definition map_new :: "('k, 'v) omap" where
  "map_new = omap_new"

definition map_put :: "'k compare \<Rightarrow> ('k, 'v) omap \<Rightarrow> 'k \<Rightarrow> 'v \<Rightarrow> error + ('k, 'v) omap" where
  "map_put compare m k v = omap_insert compare k v m"

definition map_get :: "'k compare \<Rightarrow> ('k, 'v) omap \<Rightarrow> 'k \<Rightarrow> error + 'v" where
  "map_get compare m k =
     (case omap_get compare k m of
        Inl e \<Rightarrow> Inl e
      | Inr None \<Rightarrow> Inl (HostErr EObject MissingValue)
      | Inr (Some v) \<Rightarrow> Inr v)"

definition map_del :: "'k compare \<Rightarrow> ('k, 'v) omap \<Rightarrow> 'k \<Rightarrow> error + ('k, 'v) omap" where
  "map_del compare m k =
     (case omap_remove compare k m of
        Inl e \<Rightarrow> Inl e
      | Inr (Some (mnew, _)) \<Rightarrow> Inr mnew
      | Inr None \<Rightarrow> Inl (HostErr EObject MissingValue))"

definition map_len :: "('k, 'v) omap \<Rightarrow> error + u32" where
  "map_len m = usize_to_u32 (omap_len m)"

definition map_has :: "'k compare \<Rightarrow> ('k, 'v) omap \<Rightarrow> 'k \<Rightarrow> error + bool" where
  "map_has compare m k = omap_contains_key compare k m"

definition map_key_by_pos :: "('k, 'v) omap \<Rightarrow> u32 \<Rightarrow> error + 'k" where
  "map_key_by_pos m i = map_sum id fst (omap_get_at_index (unat i) m)"

definition map_val_by_pos :: "('k, 'v) omap \<Rightarrow> u32 \<Rightarrow> error + 'v" where
  "map_val_by_pos m i = map_sum id snd (omap_get_at_index (unat i) m)"

definition map_keys :: "('k, 'v) omap \<Rightarrow> error + 'k list" where
  "map_keys m = mv_from_exact_iter (omap_keys m)"

definition map_values :: "('k, 'v) omap \<Rightarrow> error + 'v list" where
  "map_values m = mv_from_exact_iter (omap_values m)"

section \<open>Values are ordered\<close>

interpretation vals: key_order "\<lambda>_. True" compare_host_val
proof
  fix a b c :: sc_val
  show "\<exists>r. compare_host_val a b = Inr r" by (simp add: compare_host_val_def)
  show "compare_host_val a b = Inr Equal \<longleftrightarrow> a = b"
    by (simp add: compare_host_val_def compare_val_shape cmp_shape_eq)
  show "compare_host_val a b = Inr Less \<longleftrightarrow> compare_host_val b a = Inr Greater"
    using cmp_shape_flip [of "shape_val b" "shape_val a"]
    by (cases "cmp_shape (shape_val a) (shape_val b)")
      (simp_all add: compare_host_val_def compare_val_shape)
  show "compare_host_val a c = Inr Less"
    if "compare_host_val a b = Inr Less" "compare_host_val b c = Inr Less"
    using that cmp_shape_trans [of "shape_val a" "shape_val b" "shape_val c"]
    by (simp add: compare_host_val_def compare_val_shape)
qed

section \<open>Vectors are lists\<close>

lemma from_exact_iter_small [simp]:
  "length xs < 2 ^ 32 \<Longrightarrow> mv_from_exact_iter xs = Inr xs"
  by (simp add: mv_from_exact_iter_def mv_from_vec_def)

lemma unat_u32_bound: "unat (i :: u32) < 2 ^ 32"
  using unsigned_less [of i] by simp

lemma vec_insert_eq:
  assumes "length v < 2 ^ 32 - 1"
  shows "vec_insert v i x =
    (if unat i \<le> length v then Inr (take (unat i) v @ x # drop (unat i) v)
     else Inl (HostErr EObject IndexBounds))"
  using assms
  by (auto simp: vec_insert_def validate_index_le_bound_def mv_insert_def mv_push_back_def
      mv_push_front_def)

lemma vec_del_eq:
  assumes "length v < 2 ^ 32"
  shows "vec_del v i =
    (if unat i < length v then Inr (take (unat i) v @ drop (Suc (unat i)) v)
     else Inl (HostErr EObject IndexBounds))"
  using assms unat_u32_bound [of i]
  by (auto simp: vec_del_def validate_index_lt_bound_def mv_remove_def add_or_err_def USIZE_MAX_def)

lemma vec_get_eq:
  "vec_get v i = (if unat i < length v then Inr (v ! unat i) else Inl (HostErr EObject IndexBounds))"
  by (simp add: vec_get_def validate_index_lt_bound_def mv_get_def)

lemma vec_put_eq:
  "vec_put v i x =
     (if unat i < length v then Inr (v[unat i := x]) else Inl (HostErr EObject IndexBounds))"
  by (simp add: vec_put_def validate_index_lt_bound_def mv_set_def)

lemma vec_slice_eq:
  assumes "length v < 2 ^ 32"
  shows "vec_slice v i j =
    (if length v < unat i \<or> length v < unat j then Inl (HostErr EObject IndexBounds)
     else if j < i then Inl (HostErr EObject InvalidInput)
     else Inr (take (unat j - unat i) (drop (unat i) v)))"
  using assms
  by (auto simp: vec_slice_def valid_range_from_start_end_bound_def validate_index_le_bound_def
      mv_slice_def word_less_nat_alt)

lemma vec_append_eq:
  assumes "length v + length w < 2 ^ 32"
  shows "vec_append v w = Inr (v @ w)"
proof -
  have "\<not> int (2 ^ 32 - 1) - int (length w) < int (length v)" using assms by simp
  moreover have "add_or_err (length v) (length w) = Inr (length v + length w)"
    using assms by (simp add: add_or_err_def USIZE_MAX_def)
  ultimately show ?thesis using assms by (simp add: vec_append_def mv_append_def)
qed

lemma found_code:
  assumes "n < 2 ^ 32"
  shows "unat (or (ucast (word_of_nat n :: u32)) (push_bit 32 1) :: u64) = 2 ^ 32 + n"
proof -
  have n: "unat (ucast (word_of_nat n :: u32) :: u64) = n"
    using assms by (simp add: unsigned_ucast_eq unsigned_of_nat take_bit_nat_eq_self)
  have p: "unat (push_bit 32 1 :: u64) = 2 ^ 32" by simp
  have "and (ucast (word_of_nat n :: u32)) (push_bit 32 1) = (0 :: u64)"
  proof (rule bit_word_eqI)
    fix i assume "i < LENGTH(64)"
    show "bit (and (ucast (word_of_nat n :: u32)) (push_bit 32 1) :: u64) i = bit (0 :: u64) i"
    proof (cases "i < 32")
      case True
      then have "\<not> bit (push_bit 32 1 :: u64) i" by (simp only: bit_push_bit_iff) simp
      then show ?thesis by (simp only: bit_and_iff bit_0_eq bot_apply) simp
    next
      case False
      then have "\<not> bit (ucast (word_of_nat n :: u32) :: u64) i"
        by (auto simp: bit_ucast_iff dest: bit_imp_le_length)
      then show ?thesis by (simp only: bit_and_iff bit_0_eq bot_apply) simp
    qed
  qed
  then have "(or (ucast (word_of_nat n :: u32)) (push_bit 32 1) :: u64) =
      ucast (word_of_nat n :: u32) + push_bit 32 1"
    by (rule disjunctive_add_eq_or [symmetric])
  moreover have "unat (ucast (word_of_nat n :: u32) + push_bit 32 1 :: u64) =
      unat (ucast (word_of_nat n :: u32) :: u64) + unat (push_bit 32 1 :: u64)"
    by (rule unat_add_lem [THEN iffD1]) (use assms in \<open>simp add: n\<close>)
  ultimately show ?thesis by (simp only: n p)
qed

lemma insert_code:
  assumes "n < 2 ^ 32"
  shows "unat (ucast (word_of_nat n :: u32) :: u64) = n"
  using assms by (simp add: unsigned_ucast_eq unsigned_of_nat take_bit_nat_eq_self)

end
