(* ===== verification/Host_Props.thy ===== *)
theory Host_Props
  imports Host_Frame Host_Vector
begin

text \<open>
  The properties of the host: its ordered maps and vectors, the storage and its footprint, the
  agreement of preflight and execution, the environment the contracts run in, and the
  rollback of failed frames, each with a concrete instance.
\<close>

section \<open>Lemmas\<close>

lemma enforcing_read:
  assumes "try_get_full k s = Inr (e, t)" and "storage_ok s" and "st_mode s = Enforcing"
  shows "t = s" and "supported_key k" and "fp_of s k \<noteq> None" and "cells s k = Some e"
proof -
  have k: "supported_key k"
    using assms(1) try_get_full_unsupported [of k s] by (cases "supported_key k") simp_all
  have "t = s \<and> fp_of s k \<noteq> None \<and> cells s k = Some e"
    using assms(1) unfolding try_get_full_enforcing [OF assms(2,3) k]
    by (cases "fp_of s k") (auto split: if_splits option.splits)
  with k show "t = s" and "supported_key k" and "fp_of s k \<noteq> None" and "cells s k = Some e"
    by simp_all
qed

text \<open>What one call may do to the entries of an enforcing storage.\<close>

definition within_footprint :: "'v storage \<Rightarrow> 'v storage \<Rightarrow> bool" where
  "within_footprint s t \<longleftrightarrow>
     storage_ok t \<and> st_mode t = Enforcing \<and> fp_of t = fp_of s \<and> dom (cells s) \<subseteq> dom (cells t) \<and>
     (\<forall>k. fp_of s k = None \<longrightarrow> cells t k = cells s k) \<and>
     (\<forall>k. fp_of s k \<noteq> Some ReadWrite \<longrightarrow> map_option fst (view t k) = map_option fst (view s k))"

lemma within_refl: "storage_ok s \<Longrightarrow> st_mode s = Enforcing \<Longrightarrow> within_footprint s s"
  by (simp add: within_footprint_def)

lemma within_trans:
  "within_footprint s t \<Longrightarrow> within_footprint t u \<Longrightarrow> within_footprint s u"
  unfolding within_footprint_def by (auto intro: subset_trans)

lemma within_call:
  assumes run: "exec_call c s = Inr (r, t)" and ok: "storage_ok s" and mode: "st_mode s = Enforcing"
  shows "within_footprint s t"
proof (cases c)
  case (ReadC k)
  with run have "try_get_full k s = Inr (r, t)" by simp
  from enforcing_read(1) [OF this ok mode] show ?thesis by (simp add: within_refl [OF ok mode])
next
  case (WriteC k v)
  with run have p: "put_opt k v s = Inr ((), t)" by (auto simp: then_op_Inr)
  note w = put_opt_enforcing [OF p ok mode]
  have "view t = (view s)(k := v)" using view_write [OF ok p] by simp
  with w show ?thesis by (auto simp: within_footprint_def mode)
next
  case (ExtendC li k thr ext)
  with run have "st_extend_ttl li k thr ext s = Inr ((), t)" by (auto simp: then_op_Inr)
  then obtain entry old s1 l where 1: "supported_key k"
    "try_get_full k s = Inr (Some (entry, Some old), s1)"
    "(if old < l then map_insert k (Some (entry, Some l)) s1 else Inr ((), s1)) = Inr ((), t)"
    by (rule st_extend_ttl_Inr)
  note r = enforcing_read [OF 1(2) ok mode]
  show ?thesis
  proof (cases "old < l")
    case True
    with 1(3) r(1) have m: "map_insert k (Some (entry, Some l)) s = Inr ((), t)" by simp
    note i = map_insert_Inr [OF m ok 1(1)]
    have "map_option fst (view t k') = map_option fst (view s k')" for k'
      using i(3,4) r(4) by (cases "k' = k") (simp_all add: view_def split: option.splits)
    with i r(3) show ?thesis by (auto simp: within_footprint_def mode)
  next
    case False
    with 1(3) r(1) have "t = s" by simp
    with within_refl [OF ok mode] show ?thesis by simp
  qed
qed

lemma within_calls:
  assumes "exec_calls cs s = Inr (rs, t)" and "storage_ok s" and "st_mode s = Enforcing"
  shows "within_footprint s t"
  using assms
proof (induction cs arbitrary: s rs)
  case Nil
  then show ?case by (simp add: within_refl)
next
  case (Cons c cs)
  then obtain r s1 rs' where 1: "exec_call c s = Inr (r, s1)" "exec_calls cs s1 = Inr (rs', t)"
    by (auto simp: bind_op_Inr)
  have w: "within_footprint s s1" by (rule within_call [OF 1(1) Cons.prems(2,3)])
  then have "storage_ok s1" "st_mode s1 = Enforcing" by (simp_all add: within_footprint_def)
  with Cons.IH [OF 1(2)] w show ?case by (blast intro: within_trans)
qed

lemma recording_start:
  "storage_ok (with_recording_footprint src)" "st_mode (with_recording_footprint src) = Recording src"
  "fp_of (with_recording_footprint src) = Map.empty" "cells (with_recording_footprint src) = Map.empty"
  by (simp_all add: storage_ok_def with_recording_footprint_def omap_new_def omap_sorted_def
      fp_of_def cells_def)

lemma sim_start:
  assumes "storage_ok (with_enforcing_footprint_and_map fp m)"
    and "\<forall>k. k \<in> dom (map_of fp) \<longrightarrow> (\<exists>e. src k = Inr e \<and> map_of m k = Some e)"
  shows "sim (map_of fp) src (with_recording_footprint src) (with_enforcing_footprint_and_map fp m)"
  using assms recording_start [of src]
  by (auto simp: sim_def with_enforcing_footprint_and_map_def fp_of_def [of "_\<lparr>st_map := _\<rparr>"]
      fp_of_def [of "\<lparr>st_footprint = fp, st_mode = _, st_map = _\<rparr>"]
      cells_def [of "\<lparr>st_footprint = fp, st_mode = _, st_map = _\<rparr>"])

lemma live_until_bounds:
  assumes "extended_live_until li dur thr ext old = Inr l"
  obtains mx where "max_live_until_ledger li = Inr mx" and "sequence_number li \<le> old"
    and "l = old \<or> (old < l \<and> l \<le> mx \<and> unat l \<le> unat (sequence_number li) + unat ext \<and>
      saturating_sub old (sequence_number li) \<le> thr \<and>
      (dur = Some Temporary \<longrightarrow> unat l = unat (sequence_number li) + unat ext))"
proof -
  have seq: "sequence_number li \<le> old" using extended_live_until_ge(2) [OF assms] .
  obtain new0 where new0: "checked_add (sequence_number li) ext = Some new0"
    using assms by (auto simp: extended_live_until_def split: if_splits option.splits)
  obtain mx where mx: "max_live_until_ledger li = Inr mx"
    using assms new0 by (auto simp: extended_live_until_def split: if_splits sum.splits)
  have n: "unat new0 = unat (sequence_number li) + unat ext"
    using checked_add_Some(2) [OF new0] .
  have "l = old \<or> (old < l \<and> l \<le> mx \<and> unat l \<le> unat (sequence_number li) + unat ext \<and>
      saturating_sub old (sequence_number li) \<le> thr \<and>
      (dur = Some Temporary \<longrightarrow> unat l = unat (sequence_number li) + unat ext))"
    using assms n unfolding extended_live_until_def new0 mx
    by (auto simp: word_less_nat_alt word_le_nat_alt
        split: if_splits option.splits durability.splits)
  with that mx seq show thesis by blast
qed

lemma search_probe:
  assumes "sorted_wrt (\<lambda>a b. compare_host_val a b = Inr Less) v"
  obtains r where "binary_search (\<lambda>probe. compare_host_val probe x) v = Inr r"
    and "search_ok (\<lambda>probe. compare_host_val probe x) v r"
  using binary_search_ok [OF vals.probe_sorted [of "\<lambda>x. x" v x]] assms by auto

section \<open>Properties\<close>

text \<open>
  C14. On the ledger keys a transaction may use, the host's sorted vector with its pinned binary
  search is a finite map: a lookup finds exactly the entry of the key, an insertion replaces or adds that
  entry and keeps the vector sorted, a removal takes it out and returns its value.
\<close>

theorem ledger_map_is_map:
  assumes "omap_sorted supported_key compare_key m" and "supported_key k"
    and "length m < 2 ^ 32 - 1"
  shows "omap_get compare_key k m = Inr (map_of m k) \<and>
    (\<exists>m'. omap_insert compare_key k v m = Inr m' \<and> omap_sorted supported_key compare_key m' \<and>
      map_of m' = (map_of m)(k \<mapsto> v)) \<and>
    (case map_of m k of
       None \<Rightarrow> omap_remove compare_key k m = Inr None
     | Some w \<Rightarrow> \<exists>m'. omap_remove compare_key k m = Inr (Some (m', w)) \<and>
         omap_sorted supported_key compare_key m' \<and> map_of m' = (map_of m)(k := None))"
proof (intro conjI)
  show "omap_get compare_key k m = Inr (map_of m k)" by (rule lk.get_map_of [OF assms(1,2)])
  show "\<exists>m'. omap_insert compare_key k v m = Inr m' \<and> omap_sorted supported_key compare_key m' \<and>
      map_of m' = (map_of m)(k \<mapsto> v)"
    using lk.insert_map_of [OF assms(1,2), of v] assms(3) by auto
  show "case map_of m k of
      None \<Rightarrow> omap_remove compare_key k m = Inr None
    | Some w \<Rightarrow> \<exists>m'. omap_remove compare_key k m = Inr (Some (m', w)) \<and>
        omap_sorted supported_key compare_key m' \<and> map_of m' = (map_of m)(k := None)"
    using lk.remove_map_of [OF assms(1,2)] assms(3) by (auto split: option.splits)
qed

text \<open>
  C15. Once a footprint is enforced, whatever sequence of storage calls a transaction makes, the
  footprint stays as it was, an entry outside it keeps its cell, and the entry of a key that is not granted
  \<open>ReadWrite\<close> is never replaced, created or deleted (only its live-until ledger may be extended).
\<close>

theorem footprint_confines_writes:
  assumes "exec_calls cs s = Inr (rs, t)" and "storage_ok s" and "st_mode s = Enforcing"
  shows "fp_of t = fp_of s \<and>
    (\<forall>k. fp_of s k = None \<longrightarrow> cells t k = cells s k) \<and>
    (\<forall>k. fp_of s k \<noteq> Some ReadWrite \<longrightarrow> map_option fst (view t k) = map_option fst (view s k))"
  using within_calls [OF assms] by (simp add: within_footprint_def)

text \<open>
  In either mode, after a successful write every successful read of that key returns what was
  written, and a read of any other key returns what it would have returned before.
\<close>

theorem storage_read_after_write:
  assumes "storage_ok s" and "put_opt_with_host k e s = Inr (u, t)"
    and "try_get_full_with_host k' t = Inr (e', t')"
  shows "(k' = k \<longrightarrow> e' = e) \<and>
    (\<forall>e0 s'. k' \<noteq> k \<longrightarrow> try_get_full_with_host k' s = Inr (e0, s') \<longrightarrow> e' = e0)"
proof (intro conjI allI impI)
  have w: "put_opt k e s = Inr (u, t)" and r: "try_get_full k' t = Inr (e', t')"
    using assms(2,3) by simp_all
  show "e' = e" if "k' = k"
    using store.read_after_write [OF assms(1) w] r that by simp
  show "e' = e0" if "k' \<noteq> k" "try_get_full_with_host k' s = Inr (e0, s')" for e0 s'
    using store.read_other [OF assms(1) w that(1) r] that(2) by simp
qed

text \<open>
  Preflight is faithful: if a sequence of storage calls succeeds while its footprint is
  recorded against a snapshot of the ledger, then with the recorded footprint enforced over a
  map that holds the snapshot's entries for its keys the same calls succeed with the same
  results, and they leave the same entries.
\<close>

theorem preflight_faithful:
  assumes "exec_calls cs (with_recording_footprint src) = Inr (rs, s)"
    and "storage_ok (with_enforcing_footprint_and_map (st_footprint s) m)"
    and "\<forall>k. k \<in> dom (fp_of s) \<longrightarrow> (\<exists>e. src k = Inr e \<and> map_of m k = Some e)"
  shows "\<exists>t. exec_calls cs (with_enforcing_footprint_and_map (st_footprint s) m) = Inr (rs, t) \<and>
    (\<forall>k. k \<in> dom (fp_of s) \<longrightarrow> cells t k = cells s k)"
proof -
  note start = recording_start [of src]
  have dm: "dom (fp_of s) = dom (cells s)"
    using recording_calls [OF assms(1) start(1,2)] by (simp add: start)
  have "sim (fp_of s) src (with_recording_footprint src)
      (with_enforcing_footprint_and_map (st_footprint s) m)"
    using sim_start [OF assms(2)] assms(3) by (simp add: fp_of_def)
  from sim_calls [OF this assms(1) covers_refl] obtain t where
    t: "exec_calls cs (with_enforcing_footprint_and_map (st_footprint s) m) = Inr (rs, t)"
    "sim (fp_of s) src s t"
    by (auto simp: start)
  have "cells t k = cells s k" if "k \<in> dom (fp_of s)" for k
  proof -
    from that have "k \<in> dom (cells s)" by (simp only: dm)
    then obtain e where e: "cells s k = Some e" by (rule domD [THEN exE])
    have "\<forall>k e. cells s k = Some e \<longrightarrow> k \<in> dom (fp_of s) \<longrightarrow> cells t k = Some e"
      using t(2) unfolding sim_def by blast
    with e that have "cells t k = Some e" by blast
    with e show ?thesis by simp
  qed
  with t(1) show ?thesis by blast
qed

text \<open>
  \<open>extend_ttl\<close> never changes an entry's contents nor any other entry, never shortens a life, and extends one
  only if at most \<open>threshold\<close> ledgers of it remain, to \<open>extend_to\<close> ledgers from now clamped to the
  network's maximum; for a temporary entry it is exactly that ledger, never less.
\<close>

theorem extend_ttl_effect:
  assumes "storage_ok s" and "st_extend_ttl li k threshold extend_to s = Inr (u, t)"
  shows "\<exists>entry old l mx. view s k = Some (entry, Some old) \<and>
    view t = (view s)(k \<mapsto> (entry, Some l)) \<and>
    max_live_until_ledger li = Inr mx \<and> sequence_number li \<le> old \<and>
    (l = old \<or> (old < l \<and> l \<le> mx \<and> unat l \<le> unat (sequence_number li) + unat extend_to \<and>
      saturating_sub old (sequence_number li) \<le> threshold \<and>
      (get_key_durability k = Some Temporary \<longrightarrow>
        unat l = unat (sequence_number li) + unat extend_to)))"
proof -
  obtain entry old l where 1: "view s k = Some (entry, Some old)"
    "extended_live_until li (get_key_durability k) threshold extend_to old = Inr l"
    "view t = (view s)(k \<mapsto> (entry, Some l))"
    using extend_view(1) [OF assms(2,1)] by blast
  obtain mx where "max_live_until_ledger li = Inr mx" "sequence_number li \<le> old"
    "l = old \<or> (old < l \<and> l \<le> mx \<and> unat l \<le> unat (sequence_number li) + unat extend_to \<and>
      saturating_sub old (sequence_number li) \<le> threshold \<and>
      (get_key_durability k = Some Temporary \<longrightarrow>
        unat l = unat (sequence_number li) + unat extend_to))"
    using live_until_bounds [OF 1(2)] by blast
  with 1(1,3) show ?thesis by blast
qed

text \<open>
  C18. The host implements the contracts' environment: any sequence of persistent contract-data
  calls that succeeds on the host, in either footprint mode, succeeds with the same results on the
  environment the contracts are verified against, and leaves the host's entries and
  live-until ledgers as that environment's.
\<close>

theorem host_implements_environment:
  assumes "env_rel cid h s" and "\<forall>c \<in> set cs. call_key c \<noteq> LedgerKeyContractInstanceV"
    and "run_ops (map host_call cs) h = Inr (rs, h')"
  shows "\<exists>s'. run_ops (map env_call cs) s = Inr (rs, s') \<and> env_rel cid h' s'"
  by (rule sim_data_calls [OF assms])

text \<open>
  A failed frame is rolled back: the storage map and the frames below are those from before
  the call, the authorization manager is as before (so what the call has used of anybody's
  authorization is unused again) except that trackers waiting for a call are dropped, and the
  events recorded since then are kept, marked as those of a failed call, after the older events as
  they were; the recorded footprint is kept. A contract call around a well-nested body is well
  nested itself, so this holds of calls inside calls.
\<close>

theorem failed_frame_rolls_back:
  assumes "well_nested f" and "length (h_stack h) < limit"
    and "may_enter (frame_call frame) (h_auth h)"
    and "with_frame limit as_error is_contract frame f h = (Inl e, h')"
  shows "st_map (h_storage h') = st_map (h_storage h) \<and> h_stack h' = h_stack h \<and>
    h_auth h' = am_after_failure (h_auth h) \<and>
    (\<exists>ext. h_events (snd (f (entered frame h))) = h_events h @ ext \<and>
      h_events h' = h_events h @ failed ext) \<and>
    st_footprint (h_storage h') = st_footprint (h_storage (snd (f (entered frame h)))) \<and>
    (frame_call frame \<noteq> None \<longrightarrow> well_nested (with_frame limit as_error is_contract frame f))"
  using with_frame_failed [OF assms] with_frame_nested [OF assms(1)] by blast

text \<open>
  \<open>vec_binary_search\<close> on a strictly sorted vector is exact: for a value of the vector it
  returns the value's index with bit 32 set, for any other value the index at which inserting it
  keeps the vector sorted, with bit 32 clear.
\<close>

theorem binary_search_exact:
  assumes "sorted_wrt (\<lambda>a b. compare_host_val a b = Inr Less) v" and "length v < 2 ^ 32"
  shows "\<exists>i w. vec_binary_search compare_host_val v x = Inr w \<and>
    (if x \<in> set v then unat w = 2 ^ 32 + i \<and> i < length v \<and> v ! i = x
     else unat w = i \<and> i \<le> length v \<and>
       sorted_wrt (\<lambda>a b. compare_host_val a b = Inr Less) (take i v @ x # drop i v))"
proof -
  obtain r where r: "binary_search (\<lambda>probe. compare_host_val probe x) v = Inr r"
    "search_ok (\<lambda>probe. compare_host_val probe x) v r"
    using search_probe [OF assms(1)] by blast
  show ?thesis
  proof (cases r)
    case (FoundAt i)
    with r(2) have i: "i < length v" "v ! i = x"
      by (simp_all add: search_ok_def vals.cmp_eq)
    then have "x \<in> set v" "i < 2 ^ 32" using assms(2) by auto
    with i r(1) FoundAt show ?thesis
      by (simp add: vec_binary_search_def mv_binary_search_by_def u64_from_binary_search_result_def
          usize_to_u32_def found_code [simplified])
  next
    case (InsertAt i)
    with r(2) have i: "i \<le> length v" "\<forall>j < i. compare_host_val (v ! j) x = Inr Less"
      "\<forall>j. i \<le> j \<longrightarrow> j < length v \<longrightarrow> compare_host_val (v ! j) x = Inr Greater"
      by (simp_all add: search_ok_def)
    have "\<forall>j < length v. v ! j \<noteq> x"
      using i(2,3) by (metis linorder_not_less ordering.distinct(1,5) sum.inject(2) vals.cmp_irrefl)
    then have out: "x \<notin> set v" by (auto simp: in_set_conv_nth)
    have small: "i < 2 ^ 32" using i(1) assms(2) by simp
    have "sorted_wrt (\<lambda>a b. compare_host_val a b = Inr Less) (take i v @ drop i v)"
      using assms(1) by simp
    moreover have "\<forall>y \<in> set (take i v). compare_host_val y x = Inr Less"
      using i(1,2) by (simp add: all_set_conv_all_nth)
    moreover have "\<forall>y \<in> set (drop i v). compare_host_val x y = Inr Less"
      using i(1,3) vals.cmp_flip by (simp add: all_set_conv_all_nth)
    ultimately have "sorted_wrt (\<lambda>a b. compare_host_val a b = Inr Less) (take i v @ x # drop i v)"
      unfolding sorted_wrt_append by simp
    with out small i(1) r(1) InsertAt show ?thesis
      by (simp add: vec_binary_search_def mv_binary_search_by_def u64_from_binary_search_result_def
          usize_to_u32_def insert_code [simplified])
  qed
qed

section \<open>Concrete instances\<close>

text \<open>
  Two ledger keys, a snapshot in which the first has an entry, and a transaction that reads it,
  rewrites it and extends its life.
\<close>

definition key_a :: ledger_key where "key_a = LKContractData (ContractAddr 1) (SymbolV ''A'') Persistent"
definition key_b :: ledger_key where "key_b = LKContractCode 7"

definition data_a :: "nat \<Rightarrow> nat ledger_entry" where
  "data_a n = ContractDataE (ContractAddr 1) (SymbolV ''A'') Persistent n"

definition example_snapshot :: "nat snapshot" where
  "example_snapshot k = Inr (if k = key_a then Some (data_a 1, Some 5000) else None)"

definition example_calls :: "nat storage_call list" where
  "example_calls =
     [ReadC key_b, ReadC key_a, WriteC key_a (Some (data_a 2, Some 5000)),
      ExtendC genesis_ledger key_a 10000 20000]"

definition example_map :: "nat storage_map" where
  "example_map = [(key_a, Some (data_a 1, Some 5000)), (key_b, None)]"

definition example_footprint :: footprint where
  "example_footprint = [(key_a, ReadWrite), (key_b, ReadOnly)]"

lemma key_order_ab [simp]:
  "compare_key key_a key_b = Inr Less" "compare_key key_b key_a = Inr Greater"
  "compare_key key_a key_a = Inr Equal" "compare_key key_b key_b = Inr Equal"
  "supported_key key_a" "supported_key key_b"
  "check_supported_ledger_key_type key_a = Inr ()" "check_supported_ledger_key_type key_b = Inr ()"
  "key_a \<noteq> key_b" "key_b \<noteq> key_a" "get_key_durability key_a = Some Persistent"
proof -
  show sup: "supported_key key_a" "supported_key key_b" by (simp_all add: key_a_def key_b_def)
  show "compare_key key_a key_a = Inr Equal" "compare_key key_b key_b = Inr Equal"
    using lk.cmp_irrefl sup by simp_all
qed (simp_all add: key_a_def key_b_def compare_key_def cmp_int_def get_key_durability_def)

lemmas map_eval =
  omap_get_def omap_insert_def omap_contains_key_def omap_find_def binary_search_def
  omap_from_exact_iter_def omap_from_map_def USIZE_MAX_def bsearch.simps

lemma example_sorted [simp]:
  "omap_sorted supported_key compare_key example_map"
  "omap_sorted supported_key compare_key example_footprint"
  by (simp_all add: omap_sorted_def example_map_def example_footprint_def)

lemma example_live: "extended_live_until genesis_ledger (Some Persistent) 10000 20000 5000 = Inr 20100"
  by (simp add: extended_live_until_def genesis_ledger_def checked_add_def max_live_until_ledger_def
      max_live_until_ledger_checked_def saturating_sub_def)

lemma example_recording:
  "exec_calls example_calls (with_recording_footprint example_snapshot) =
     Inr ([None, Some (data_a 1, Some 5000), None, None],
       \<lparr>st_footprint = example_footprint, st_mode = Recording example_snapshot,
         st_map = [(key_a, Some (data_a 2, Some 20100)), (key_b, None)]\<rparr>)"
  by (simp add: example_calls_def with_recording_footprint_def omap_new_def map_eval bind_op_eval
      then_op_eval try_get_full_def prepare_read_only_access_def access_def record_access_def
      read_through_def example_snapshot_def map_insert_def put_opt_def st_extend_ttl_eq
      example_live example_footprint_def data_a_def)

lemma example_enforcing:
  "exec_calls example_calls (with_enforcing_footprint_and_map example_footprint example_map) =
     Inr ([None, Some (data_a 1, Some 5000), None, None],
       \<lparr>st_footprint = example_footprint, st_mode = Enforcing,
         st_map = [(key_a, Some (data_a 2, Some 20100)), (key_b, None)]\<rparr>)"
  by (simp add: example_calls_def with_enforcing_footprint_and_map_def map_eval bind_op_eval
      then_op_eval try_get_full_def prepare_read_only_access_def access_def enforce_access_def
      read_through_def map_insert_def put_opt_def st_extend_ttl_eq
      example_live example_footprint_def example_map_def data_a_def)

lemma example_ok:
  "storage_ok (with_enforcing_footprint_and_map example_footprint example_map)"
  by (simp add: storage_ok_def with_enforcing_footprint_and_map_def)
    (simp add: example_footprint_def example_map_def)

theorem ledger_map_is_map_witness:
  "omap_get compare_key key_b example_map = Inr (Some None) \<and>
   (\<exists>m'. omap_insert compare_key key_b (Some (data_a 9, None)) example_map = Inr m' \<and>
      map_of m' key_b = Some (Some (data_a 9, None)))"
proof -
  have "length example_map < 2 ^ 32 - 1" by (simp add: example_map_def)
  from ledger_map_is_map [OF example_sorted(1) key_order_ab(6) this, of "Some (data_a 9, None)"]
  show ?thesis by (auto simp: example_map_def)
qed

theorem footprint_confines_writes_witness:
  "\<exists>rs t. exec_calls example_calls
       (with_enforcing_footprint_and_map example_footprint example_map) = Inr (rs, t) \<and>
     fp_of t = map_of example_footprint \<and> map_option fst (view t key_b) = None"
proof -
  let ?s = "with_enforcing_footprint_and_map example_footprint example_map"
  have mode: "st_mode ?s = Enforcing" by (simp add: with_enforcing_footprint_and_map_def)
  have "fp_of ?s = map_of example_footprint" "fp_of ?s key_b = Some ReadOnly" "view ?s key_b = None"
    by (simp_all add: with_enforcing_footprint_and_map_def fp_of_def example_footprint_def view_def
        cells_def example_map_def)
  with footprint_confines_writes [OF example_enforcing example_ok mode] example_enforcing
  show ?thesis by (metis access_type.distinct(1) option.inject option.simps(8))
qed

theorem storage_read_after_write_witness:
  "\<exists>t t'. put_opt_with_host key_a None
       (with_enforcing_footprint_and_map example_footprint example_map) = Inr ((), t) \<and>
     try_get_full_with_host key_a t = Inr (None, t')"
proof -
  let ?s = "with_enforcing_footprint_and_map example_footprint example_map"
  let ?t = "\<lparr>st_footprint = example_footprint, st_mode = Enforcing,
      st_map = [(key_a, None), (key_b, None :: nat entry_live option)]\<rparr>"
  have w: "put_opt_with_host key_a None ?s = Inr ((), ?t)"
    by (simp add: put_opt_def then_op_eval access_def enforce_access_def map_insert_def map_eval
        with_enforcing_footprint_and_map_def example_footprint_def example_map_def)
  have "\<exists>e'. try_get_full_with_host key_a ?t = Inr (e', ?t)"
    by (simp add: try_get_full_def then_op_eval bind_op_eval prepare_read_only_access_def access_def
        enforce_access_def read_through_def map_eval example_footprint_def)
  then obtain e' where r: "try_get_full_with_host key_a ?t = Inr (e', ?t)" by blast
  with storage_read_after_write [OF example_ok w r] have "e' = None" by simp
  with w r show ?thesis by blast
qed

theorem preflight_faithful_witness:
  "\<exists>rs s t. exec_calls example_calls (with_recording_footprint example_snapshot) = Inr (rs, s) \<and>
     exec_calls example_calls (with_enforcing_footprint_and_map (st_footprint s) example_map) =
       Inr (rs, t) \<and> cells t key_a = cells s key_a"
proof -
  let ?s = "\<lparr>st_footprint = example_footprint, st_mode = Recording example_snapshot,
         st_map = [(key_a, Some (data_a 2, Some 20100)), (key_b, None)]\<rparr>"
  have fp: "st_footprint ?s = example_footprint" by simp
  have dm: "dom (fp_of ?s) = {key_a, key_b}"
    by (auto simp: fp_of_def example_footprint_def)
  have "\<forall>k. k \<in> dom (fp_of ?s) \<longrightarrow> (\<exists>e. example_snapshot k = Inr e \<and> map_of example_map k = Some e)"
    unfolding dm by (simp add: example_snapshot_def example_map_def)
  from preflight_faithful [OF example_recording _ this, unfolded fp, OF example_ok] dm
  obtain t where t: "exec_calls example_calls
        (with_enforcing_footprint_and_map example_footprint example_map) =
      Inr ([None, Some (data_a 1, Some 5000), None, None], t)" "cells t key_a = cells ?s key_a"
    by auto
  show ?thesis
    by (intro exI [of _ "[None, Some (data_a 1, Some 5000), None, None]"] exI [of _ ?s] exI [of _ t]
        conjI example_recording t(2)) (simp only: fp t(1))
qed

theorem extend_ttl_effect_witness:
  "\<exists>t. st_extend_ttl genesis_ledger key_a 10000 20000
       (with_enforcing_footprint_and_map example_footprint example_map) = Inr ((), t) \<and>
     (\<exists>l. view t key_a = Some (data_a 1, Some l) \<and> 5000 \<le> l)"
proof -
  let ?s = "with_enforcing_footprint_and_map example_footprint example_map"
  have v: "view ?s key_a = Some (data_a 1, Some 5000)"
    by (simp add: view_def cells_def with_enforcing_footprint_and_map_def example_map_def)
  have "\<exists>t. st_extend_ttl genesis_ledger key_a 10000 20000 ?s = Inr ((), t)"
    by (simp add: st_extend_ttl_eq map_eval then_op_eval bind_op_eval try_get_full_def
        prepare_read_only_access_def access_def enforce_access_def read_through_def map_insert_def
        example_live with_enforcing_footprint_and_map_def example_footprint_def example_map_def data_a_def)
  then obtain t where t: "st_extend_ttl genesis_ledger key_a 10000 20000 ?s = Inr ((), t)" by blast
  from extend_ttl_effect [OF example_ok t] v
  have "\<exists>l. view t key_a = Some (data_a 1, Some l) \<and> 5000 \<le> l"
    by (auto intro: less_imp_le)
  with t show ?thesis by blast
qed

text \<open>A running contract whose storage is empty and whose footprint grants one entry.\<close>

definition example_key :: sc_val where "example_key = SymbolV ''A''"

definition example_host :: "nat host" where
  "example_host = \<lparr>
     h_storage = \<lparr>st_footprint = [(data_key 1 example_key, ReadWrite)],
       st_mode = Recording (\<lambda>_. Inr None), st_map = []\<rparr>,
     h_ledger = genesis_ledger,
     h_stack = [\<lparr>ctx_frame = ContractVM 1 ''f'' [] \<lparr>inst_executable = WasmExec 7, inst_storage = None\<rparr>,
                ctx_storage = None\<rparr>],
     h_events = [(ContractEv (Some 1) (Event [] VoidV), FromSuccessfulCall)], h_debug = False,
     h_auth = new_enforcing_without_authorizations, h_source_account = None\<rparr>"

lemma example_key_order [simp]:
  "supported_key (data_key 1 example_key)"
  "check_supported_ledger_key_type (data_key 1 example_key) = Inr ()"
  "compare_key (data_key 1 example_key) (data_key 1 example_key) = Inr Equal"
  by (simp_all add: data_key_def lk.cmp_irrefl)

lemma example_host_rel: "env_rel 1 example_host (stored (\<lambda>_. True) Map.empty)"
  by (simp add: env_rel_def example_host_def get_current_contract_id_opt_internal_def storage_ok_def
      omap_sorted_def view_def cells_def snapshot_entry_def env_cell_def)

theorem host_implements_environment_witness:
  "\<exists>rs h' s'. run_ops (map host_call [HasD example_key, PutD example_key 5]) example_host = Inr (rs, h') \<and>
     run_ops (map env_call [HasD example_key, PutD example_key 5]) (stored (\<lambda>_. True) Map.empty) =
       Inr (rs, s') \<and> env_rel 1 h' s'"
proof -
  have keys: "\<forall>c \<in> set [HasD example_key, PutD example_key (5 :: nat)].
      call_key c \<noteq> LedgerKeyContractInstanceV"
    by (simp add: example_key_def)
  have live: "get_min_live_until_ledger genesis_ledger Persistent = Inr 4195"
    by (simp add: get_min_live_until_ledger_def min_live_until_ledger_checked_def genesis_ledger_def
        checked_add_def saturating_sub_def)
  have "\<exists>rs h'. run_ops (map host_call [HasD example_key, PutD example_key 5]) example_host = Inr (rs, h')"
    by (simp add: bind_op_eval then_op_eval has_contract_data_def put_contract_data_def
        put_contract_data_into_ledger_def storage_key_from_val_def get_current_contract_id_internal_def
        get_current_contract_id_opt_internal_def storage_key_for_address_def data_key_def [symmetric]
        on_storage_def has_with_host_def try_get_full_def prepare_read_only_access_def access_def
        record_access_def read_through_def map_insert_def put_with_host_def put_opt_def map_eval
        example_host_def live)
  then obtain rs h' where run:
    "run_ops (map host_call [HasD example_key, PutD example_key 5]) example_host = Inr (rs, h')" by blast
  from host_implements_environment [OF example_host_rel keys run] run show ?thesis by blast
qed

text \<open>A call that publishes an event, deletes an entry and fails.\<close>

definition failing_body :: "(nat, nat) body" where
  "failing_body h =
     (Inl (HostErr EStorage MissingValue),
      h\<lparr>h_events := h_events h @ [(ContractEv (Some 1) (Event [SymbolV ''x''] VoidV), FromSuccessfulCall)],
        h_storage := (h_storage h)\<lparr>st_map := [(data_key 1 example_key, None)]\<rparr>\<rparr>)"

lemma failing_body_nested: "well_nested failing_body"
  by (auto simp: well_nested_def failing_body_def extends_events_def am_evolves_refl)

definition example_frame :: "nat frame" where
  "example_frame = ContractVM 2 ''g'' [] \<lparr>inst_executable = WasmExec 7, inst_storage = None\<rparr>"

theorem failed_frame_rolls_back_witness:
  "\<exists>h'. with_frame 10 (\<lambda>_. None) (\<lambda>_. False) example_frame failing_body example_host =
       (Inl (HostErr EStorage MissingValue), h') \<and>
     st_map (h_storage h') = [] \<and> length (h_stack h') = 1 \<and> length (h_events h') = 2 \<and>
     h_auth h' = h_auth example_host"
proof -
  have depth: "length (h_stack example_host) < 10" by (simp add: example_host_def)
  have enter: "may_enter (frame_call example_frame) (h_auth example_host)"
    by (simp add: may_enter_def am_ok_def invokers_ok_def example_host_def example_frame_def
        new_enforcing_without_authorizations_def)
  have "\<exists>h'. with_frame 10 (\<lambda>_. None) (\<lambda>_. False) example_frame failing_body example_host =
       (Inl (HostErr EStorage MissingValue), h')"
    by (simp add: with_frame_def failing_body_def example_host_def push_context_def pop_context_def
        frame_result_def Let_def example_frame_def am_push_frame_def push_tracker_frame_def
        am_snapshot_def am_pop_frame_def am_rollback_def rollback_accounts_def rollback_invokers_def
        new_enforcing_without_authorizations_def)
  then obtain h' where run: "with_frame 10 (\<lambda>_. None) (\<lambda>_. False) example_frame failing_body
      example_host = (Inl (HostErr EStorage MissingValue), h')" by blast
  note r = failed_frame_rolls_back [OF failing_body_nested depth enter run]
  have "st_map (h_storage h') = []" "length (h_stack h') = 1" "h_auth h' = h_auth example_host"
    using r by (simp_all add: example_host_def am_after_failure_def new_enforcing_without_authorizations_def)
  moreover have "length (h_events h') = 2"
    using r by (auto simp: failing_body_def entered_def example_host_def failed_def)
  ultimately show ?thesis using run by blast
qed

theorem binary_search_exact_witness:
  "\<exists>w. vec_binary_search compare_host_val [U32V 2, U32V 5, U32V 9] (U32V 5) = Inr w \<and>
     2 ^ 32 \<le> unat w"
proof -
  have "sorted_wrt (\<lambda>a b. compare_host_val a b = Inr Less) [U32V 2, U32V 5, U32V 9]"
    by (simp add: compare_host_val_def compare_val_variant cmp_int_def)
  moreover have "length [U32V 2, U32V 5, U32V 9] < 2 ^ 32" by simp
  ultimately show ?thesis
    using binary_search_exact [of "[U32V 2, U32V 5, U32V 9]" "U32V 5"] by auto
qed

end
