(* ===== verification/Auth_Props.thy ===== *)
theory Auth_Props
  imports Auth_Replay Host_Auth_Inv Host_Auth_Nested Host_Props
begin

text \<open>
  The properties of the authorization framework, each with a concrete instance: signed trees are
  followed faithfully, every node authorizes one call, what a recorded invocation lists is enough
  to run it, nonces are used once, signatures reach the threshold of their account, and a request
  that succeeds has found an authorization of the address.
\<close>

section \<open>Trees and their trackers\<close>

text \<open>The functions of a signed tree, as often as it lists them.\<close>

fun functions_of :: "xdr_invocation \<Rightarrow> authorized_function multiset" where
  "functions_of (XdrInvocation f subs) = {#function_from_xdr f#} + sum_list (map functions_of subs)"

lemma unused_from_xdr: "unused (invocation_from_xdr x) = functions_of x"
proof (induction x)
  case (XdrInvocation f subs)
  then have "map (\<lambda>s. unused (invocation_from_xdr s)) subs = map functions_of subs" by simp
  then show ?case by (simp only: invocation_from_xdr.simps unused.simps functions_of.simps map_map comp_def)
      simp
qed

lemma new_tracker_ok: "tracker_ok (tracker_from_xdr x)"
  by (cases x) (simp add: tracker_ok_def tracker_from_xdr_def tracker_new_def)

lemma to_xdr_reset: "invocation_to_xdr False (reset node) = invocation_to_xdr False node"
  by (induction node) (simp add: comp_def)

text \<open>
  Whatever happens while a tracker is used, what it writes back for the signature payload is the
  tree that was signed, with creations in their second version; reading that again gives the tree
  the tracker was made of.
\<close>

theorem signed_tree_is_stable:
  assumes "from_authorization_entry source entry = Inr t" and "session (at_invocation t) M i"
  shows "root_invocation_to_xdr (t\<lparr>at_invocation := i\<rparr>) = canonical (ae_root_invocation entry) \<and>
    invocation_from_xdr (root_invocation_to_xdr (t\<lparr>at_invocation := i\<rparr>)) =
      invocation_from_xdr (ae_root_invocation entry)"
proof -
  let ?x = "ae_root_invocation entry"
  have "at_invocation t = tracker_from_xdr ?x"
    using assms(1) by (auto simp: from_authorization_entry_def split: credentials.splits option.splits)
  then have "evolves (tracker_from_xdr ?x) M i"
    using session_evolves assms(2) new_tracker_ok by simp
  then have root: "reset (it_root i) = invocation_from_xdr ?x"
    by (simp add: evolves_def tracker_from_xdr_def tracker_new_def)
  have "root_invocation_to_xdr (t\<lparr>at_invocation := i\<rparr>) = invocation_to_xdr False (it_root i)"
    by (simp add: root_invocation_to_xdr_def)
  also have "\<dots> = canonical ?x" by (metis root to_xdr_reset to_from_xdr)
  finally have 1: "root_invocation_to_xdr (t\<lparr>at_invocation := i\<rparr>) = canonical ?x" .
  moreover have "invocation_from_xdr (canonical ?x) = invocation_from_xdr ?x"
    by (metis from_to_xdr reset_from_xdr to_from_xdr)
  ultimately show ?thesis by simp
qed

text \<open>
  C23. An authorization is used once: the calls a tracker has granted, those of failed calls
  aside, are among the functions of its signed tree, counted with their number of occurrences,
  and the other occurrences are the ones that are still unused.
\<close>

theorem authorizations_used_once:
  assumes "session (tracker_from_xdr x) M t"
  shows "M \<subseteq># functions_of x \<and> unused (it_root t) = functions_of x - M"
proof -
  have "evolves (tracker_from_xdr x) M t" by (rule session_evolves [OF assms new_tracker_ok])
  then have "functions_of x = M + unused (it_root t)"
    by (simp add: evolves_def unused_from_xdr [symmetric] tracker_from_xdr_def tracker_new_def)
  then show ?thesis by simp
qed


text \<open>
  C24. Recorded authorizations suffice: an entry made of the tree that a tracker has recorded from its first
  request on grants, in enforcing mode, that request and then each of the requests that follow,
  through the same calls and returns, and has no unused node at the end.
\<close>

theorem recorded_authorizations_suffice:
  assumes "tracker_new_recording f n = Inr t" and "record_steps steps t = Inr t'"
  shows "\<exists>e e'. maybe_extend_invocation_match f True
      (entered_tracker n (invocation_to_xdr False (it_root t'))) = Inr (True, e) \<and>
    enforce_steps allow steps e = Inr e' \<and> unused (it_root e') = {#}"
  by (rule replay [OF assms])

section \<open>Nonces and signatures\<close>

text \<open>
  C25. A nonce is consumed once and in time: when the nonce of a tracker is accepted, the current
  ledger is not past the expiration of the signature, which is at most the network's maximum; the nonce was not
  stored before and is stored at least until the expiration afterwards; and another tracker with
  the same address and nonce is refused.
\<close>

theorem nonce_consumed_once:
  assumes "verify_and_consume_nonce world t h = Inr (u, h')" and "\<not> at_is_source t"
    and "at_nonce t = Some (nonce, expiration)" and "storage_ok (h_storage h)"
  shows "sequence_number (h_ledger h) \<le> expiration \<and>
    (\<exists>mx. max_live_until_ledger (h_ledger h) = Inr mx \<and> expiration \<le> mx) \<and>
    view (h_storage h) (nonce_key (at_address t) nonce) = None \<and>
    (\<exists>l \<ge> expiration. view (h_storage h') (nonce_key (at_address t) nonce) =
       Some (nonce_entry world (at_address t) nonce, Some l)) \<and>
    (\<forall>t2 l2 r. at_address t2 = at_address t \<longrightarrow> \<not> at_is_source t2 \<longrightarrow> at_nonce t2 = Some (nonce, l2) \<longrightarrow>
       verify_and_consume_nonce world t2 h' \<noteq> Inr r)"
proof -
  let ?k = "nonce_key (at_address t) nonce"
  obtain mx where c: "sequence_number (h_ledger h) \<le> expiration"
    "max_live_until_ledger (h_ledger h) = Inr mx" "expiration \<le> mx"
    "consume_nonce world (at_address t) nonce expiration h = Inr (u, h')"
    using verify_and_consume_Inr [OF assms(1)] assms(2,3) by auto
  note e = consume_nonce_effect [OF c(4) assms(4)]
  obtain l where l: "expiration \<le> l"
    "view (h_storage h') ?k = Some (nonce_entry world (at_address t) nonce, Some l)"
    using e(2) by (metis fun_upd_same max.cobounded1)
  have "verify_and_consume_nonce world t2 h' \<noteq> Inr r"
    if t2: "at_address t2 = at_address t" "\<not> at_is_source t2" "at_nonce t2 = Some (nonce, l2)" for t2 l2 r
  proof
    assume "verify_and_consume_nonce world t2 h' = Inr r"
    then obtain v h2 where "consume_nonce world (at_address t) nonce l2 h' = Inr (v, h2)"
      using verify_and_consume_Inr [of world t2 h'] t2 by (cases r) fastforce
    from consume_nonce_effect(1) [OF this e(3)] l(2) show False by simp
  qed
  with c e(1) l show ?thesis by blast
qed

text \<open>
  C26. A classic account is authenticated exactly by between 1 and 20 signatures, sorted by their
  distinct keys, all valid for the payload, all of keys with a positive weight for the account
  (its own key has the master weight, others the weight of the signer), whose weights add up to
  its medium threshold.
\<close>

theorem account_authentication:
  assumes "load_account acc h = Inr (account, h1)" and "length (ae_thresholds account) = 4"
  shows "(\<exists>r. check_account_authentication world acc payload signature h = Inr r) \<longleftrightarrow>
    (\<exists>sigs. aw_signatures world signature = Some sigs \<and> sigs \<noteq> [] \<and>
      length sigs \<le> MAX_ACCOUNT_SIGNATURES \<and>
      signatures_valid (aw_verify world) payload account sigs \<and>
      unat (ae_thresholds account ! 2) \<le> total_weight account sigs)"
proof (cases "aw_signatures world signature")
  case None
  then show ?thesis by (simp add: check_account_authentication_def bind_op_def)
next
  case (Some sigs)
  have th: "ae_thresholds account \<noteq> []" "\<not> length (ae_thresholds account) \<le> 2" using assms(2) by auto
  show ?thesis
  proof (cases "length sigs \<le> MAX_ACCOUNT_SIGNATURES")
    case True
    then have small: "unat (0 :: u32) + 255 * length sigs < 2 ^ 32"
      by (simp add: MAX_ACCOUNT_SIGNATURES_def)
    have total: "total_weight account sigs < 2 ^ 32"
      using total_weight_le [of account sigs] small by simp
    note loop = check_signatures_Inr [OF th(1) small, of "aw_verify world" payload None]
    have total': "unat (word_of_nat (total_weight account sigs) :: u32) = total_weight account sigs"
      using total by (simp add: unsigned_of_nat take_bit_nat_eq_self)
    have "(\<exists>r. check_account_authentication world acc payload signature h = Inr r) \<longleftrightarrow>
        sigs \<noteq> [] \<and> (\<exists>w. check_signatures (aw_verify world) payload account None 0 sigs = Inr w \<and>
          unat (ae_thresholds account ! 2) \<le> unat w)"
      using Some True th(2) assms(1)
      by (auto simp: check_account_authentication_def bind_op_def of_result_def word_less_nat_alt split: sum.splits)
    also have "\<dots> \<longleftrightarrow> sigs \<noteq> [] \<and> signatures_valid (aw_verify world) payload account sigs \<and>
        unat (ae_thresholds account ! 2) \<le> total_weight account sigs"
      unfolding loop using total' by (auto intro: exI [of _ "word_of_nat (total_weight account sigs)"])
    finally show ?thesis using Some True by auto
  next
    case False
    with Some show ?thesis by (simp add: check_account_authentication_def bind_op_def)
  qed
qed

section \<open>Requests\<close>

text \<open>
  C22. A request that succeeds in enforcing mode is authorized: its address is the contract that
  called the current one, or a tracker that contract has made for the call has used up one node
  for it, or an entry of the transaction for the address has, which is verified: if it
  was not before, its address has been authenticated for the signed tree and its nonce consumed.
\<close>

theorem require_auth_sound:
  assumes "host_require_auth world nonce handle a h = (Inr (), h')"
    and "ready h" and "am_mode (h_auth h) = EnforcingAuth" and "checks_nested world"
  shows "\<exists>args. frame_args (ctx_frame (hd (h_stack h))) = Some args \<and> am_call_stack (h_auth h) \<noteq> [] \<and>
    authorized world a (to_authorized_function (last (am_call_stack (h_auth h))) args) h h'"
proof -
  obtain args where args: "frame_args (ctx_frame (hd (h_stack h))) = Some args"
    and run: "am_require_auth world nonce handle a args h = (Inr (), h')"
    using assms(1) by (auto simp: host_require_auth_def split: list.splits option.splits)
  then have "am_call_stack (h_auth h) \<noteq> []" and
    "require_auth_internal world nonce handle a
       (to_authorized_function (last (am_call_stack (h_auth h))) args) h = (Inr (), h')"
    by (auto simp: am_require_auth_def split: if_splits)
  with args require_auth_granted [OF assms(2-4)] show ?thesis by blast
qed

text \<open>
  In both modes a request, and what a contract does after it, is a computation that a frame
  can contain: the frames and events below are kept, and the authorization manager evolves so that a
  failure of the frame restores it.
\<close>

theorem requests_are_nested:
  assumes "checks_nested world" and "\<And>r. well_nested (rest r)"
  shows "well_nested (and_then (am_require_auth world nonce handle a args) rest)"
  by (rule and_then_nested [OF am_require_auth_nested [OF assms(1)] assms(2)])

text \<open>
  A contract that has authorized calls on its behalf (\<open>authorize_as_curr_contract\<close>) and fails
  before it makes one cannot be rolled back: the trackers it has made are not in the snapshot of
  its frame, so the failure becomes an internal error, which no caller can recover from, and the authorization
  call stack keeps the frame.
\<close>

theorem authorize_then_fail:
  assumes "am_ok m" and "am_evolves (pushed fr m) m1" and "entries \<noteq> []"
    and "settled (pushed fr m) m1" and "add_invoker_contract_auth cid entries m1 = (Inr (), m2)"
  shows "\<exists>m3. am_pop_frame (Some (am_snapshot (pushed fr m))) m2 =
      (Inl (HostErr EAuth InternalError), m3) \<and>
    am_call_stack m3 = am_call_stack m @ [fr] \<and> \<not> is_recoverable (HostErr EAuth InternalError)"
proof -
  obtain ts where m2: "m2 = m1\<lparr>am_invokers := am_invokers m1 @ ts\<rparr>" and ts: "length ts = length entries"
    and fresh: "\<forall>t \<in> set ts. tracker_ok (iv_invocation t) \<and> is_out_of_scope t"
    using add_invokers [OF assms(5)] by auto
  have ev: "am_evolves (pushed fr m) m2"
    unfolding m2 by (rule am_evolves_fresh [OF assms(2) fresh])
  have "length (am_invokers m1) = length (am_invokers m)"
    using assms(4) by (simp add: settled_def)
  then have "length (am_invokers m2) \<noteq> length (am_invokers m)" using ts assms(3) by (simp add: m2)
  with am_frame_rollback_fails [OF ev assms(1)] ev show ?thesis
    by (auto simp: am_evolves_def is_recoverable_def)
qed

section \<open>Instances\<close>

definition example_call :: authorized_function where
  "example_call = ContractFn (ContractAddr 2) ''g'' []"

definition example_sub_call :: authorized_function where
  "example_sub_call = ContractFn (ContractAddr 3) ''h'' []"

definition example_tree :: xdr_invocation where
  "example_tree = XdrInvocation (XdrContractFn (ContractAddr 2) ''g'' [])
     [XdrInvocation (XdrCreateContractHostFn (PreimageAddress (ContractAddr 2) 5) (WasmExec 7)) []]"

definition example_entry :: authorization_entry where
  "example_entry =
     \<lparr>ae_credentials = AddressCredentials (ContractAddr 9) 77 150 VoidV,
      ae_root_invocation = example_tree\<rparr>"

definition example_tracker :: account_tracker where
  "example_tracker =
     \<lparr>at_address = ContractAddr 9, at_invocation = tracker_from_xdr example_tree, at_signature = VoidV,
      at_is_source = False, at_verified = False, at_nonce = Some (77, 150)\<rparr>"

definition example_matched :: invocation_tracker where
  "example_matched =
     \<lparr>it_root = AuthorizedInvocation example_call
        [AuthorizedInvocation (CreateContractHostFn \<lparr>cca_preimage = PreimageAddress (ContractAddr 2) 5,
           cca_executable = WasmExec 7, cca_constructor_args = []\<rparr>) [] False] True,
      it_match_stack = [RootMatch], it_root_exhausted_frame = Some 0, it_fully_processed = False\<rparr>"

lemma example_match:
  "maybe_extend_invocation_match example_call True (tracker_push_frame (tracker_from_xdr example_tree)) =
   Inr (True, example_matched)"
  by (simp add: maybe_extend_invocation_match_def current_frame_is_already_matched_def write_match_def
      is_matched_def tracker_push_frame_def tracker_from_xdr_def tracker_new_def example_tree_def
      example_call_def example_matched_def)

lemma example_frame_session:
  "session (tracker_push_frame (tracker_from_xdr example_tree)) {#example_call#} example_matched"
  by (rule session.granted [OF example_match session.finished])

lemma example_session:
  "session (tracker_from_xdr example_tree) {#example_call#} (tracker_pop_frame example_matched)"
  using session.returned [OF example_frame_session session.finished] by simp

theorem signed_tree_is_stable_witness:
  "from_authorization_entry None example_entry = Inr example_tracker \<and>
   invocation_from_xdr (root_invocation_to_xdr
     (example_tracker\<lparr>at_invocation := tracker_pop_frame example_matched\<rparr>)) =
   invocation_from_xdr example_tree"
proof -
  have 1: "from_authorization_entry None example_entry = Inr example_tracker"
    by (simp add: from_authorization_entry_def example_entry_def example_tracker_def)
  have "session (at_invocation example_tracker) {#example_call#} (tracker_pop_frame example_matched)"
    using example_session by (simp add: example_tracker_def)
  moreover have "ae_root_invocation example_entry = example_tree" by (simp add: example_entry_def)
  ultimately show ?thesis using signed_tree_is_stable [OF 1] 1 by metis
qed

theorem authorizations_used_once_witness:
  "example_call \<in># functions_of example_tree \<and>
   size (unused (it_root (tracker_pop_frame example_matched))) = 1"
  using authorizations_used_once [OF example_session] by (simp add: example_tree_def example_call_def)


theorem recorded_authorizations_suffice_witness:
  "\<exists>e e'. maybe_extend_invocation_match example_call True
      (entered_tracker 1 (XdrInvocation (function_to_xdr example_call)
         [XdrInvocation (function_to_xdr example_sub_call) []])) = Inr (True, e) \<and>
    enforce_steps False [Enters, Requires example_sub_call, Leaves] e = Inr e' \<and> unused (it_root e') = {#}"
proof -
  have new: "tracker_new_recording example_call 1 = Inr
      \<lparr>it_root = AuthorizedInvocation example_call [] True, it_match_stack = [RootMatch],
       it_root_exhausted_frame = Some 0, it_fully_processed = False\<rparr>"
    by (simp add: tracker_new_recording_def invocation_new_recording_def)
  have "record_steps [Enters, Requires example_sub_call, Leaves]
      \<lparr>it_root = AuthorizedInvocation example_call [] True, it_match_stack = [RootMatch],
       it_root_exhausted_frame = Some 0, it_fully_processed = False\<rparr> = Inr
      \<lparr>it_root = AuthorizedInvocation example_call [AuthorizedInvocation example_sub_call [] True] True,
       it_match_stack = [RootMatch], it_root_exhausted_frame = Some 0, it_fully_processed = False\<rparr>"
    by (simp add: tracker_push_frame_def tracker_pop_frame_def tracker_record_invocation_def
        current_frame_is_already_matched_def is_matched_def append_recorded_def invocation_new_recording_def)
  from recorded_authorizations_suffice [OF new this, of False] show ?thesis by simp
qed

text \<open>A host in a call of \<open>g\<close> of contract 2; contract 9 has signed \<open>example_tree\<close>.\<close>

definition example_world :: "nat auth_world" where
  "example_world =
     \<lparr>aw_void = 0, aw_hash_preimage = (\<lambda>p. pre_network_id p),
      aw_signatures = (\<lambda>_. Some [\<lparr>sig_public_key = 1, sig_signature = VoidV\<rparr>,
                                 \<lparr>sig_public_key = 2, sig_signature = VoidV\<rparr>]),
      aw_verify = (\<lambda>_ _ _. True), aw_check_auth = (\<lambda>_ _ _ _ h. (Inr (), h))\<rparr>"

definition example_account :: account_entry where
  "example_account = \<lparr>ae_account_id = 1, ae_balance = 10000000, ae_num_sub_entries = 1, ae_flags = 0, ae_ext = AccountV0,
      ae_thresholds = [1, 1, 2, 3], ae_signers = [(Ed25519Signer 2, 1)]\<rparr>"

definition example_auth_storage :: "nat stored storage" where
  "example_auth_storage =
     \<lparr>st_footprint = [(nonce_key (ContractAddr 9) 77, ReadWrite)], st_mode = Enforcing,
      st_map = [(nonce_key (ContractAddr 9) 77, None)]\<rparr>"

definition example_auth_host :: "nat host" where
  "example_auth_host =
     example_host\<lparr>h_storage := example_auth_storage,
       h_stack := [\<lparr>ctx_frame = example_frame, ctx_storage = None\<rparr>],
       h_auth := \<lparr>am_mode = EnforcingAuth,
         am_accounts = [\<lparr>tc_tracker = account_push_frame example_tracker, tc_borrowed = False\<rparr>],
         am_invokers = [], am_call_stack = [ContractFrame (ContractAddr 2) ''g'']\<rparr>\<rparr>"

lemma example_checks: "checks_nested example_world"
  by (simp add: checks_nested_def example_world_def returns_nested)

lemma example_nonce_key [simp]:
  "compare_key (nonce_key (ContractAddr 9) 77) (nonce_key (ContractAddr 9) 77) = Inr Equal"
  "check_supported_ledger_key_type (nonce_key (ContractAddr 9) 77) = Inr ()"
  "supported_key (nonce_key (ContractAddr 9) 77)"
proof -
  show sup: "supported_key (nonce_key (ContractAddr 9) 77)" by (simp add: nonce_key_def)
  show "compare_key (nonce_key (ContractAddr 9) 77) (nonce_key (ContractAddr 9) 77) = Inr Equal"
    using lk.cmp_irrefl sup by simp
qed (simp add: nonce_key_def)

lemma example_nonce:
  assumes "h_storage h = example_auth_storage" and "h_ledger h = genesis_ledger"
  shows "\<exists>s. verify_and_consume_nonce example_world (example_tracker\<lparr>at_invocation := i\<rparr>) h =
     Inr ((), h\<lparr>h_storage := s\<rparr>)"
proof -
  have live: "get_min_live_until_ledger genesis_ledger Temporary = Inr 115"
    "max_live_until_ledger genesis_ledger = Inr 6312099"
    by (simp_all add: get_min_live_until_ledger_def min_live_until_ledger_checked_def genesis_ledger_def
        checked_add_def saturating_sub_def max_live_until_ledger_def max_live_until_ledger_checked_def)
  have seq: "sequence_number genesis_ledger = 100" by (simp add: genesis_ledger_def)
  have key: "storage_key_for_address (ContractAddr 9) (LedgerKeyNonceV 77) Temporary =
      nonce_key (ContractAddr 9) 77"
    by (simp add: storage_key_for_address_def nonce_key_def)
  have has: "has_with_host (nonce_key (ContractAddr 9) 77) example_auth_storage =
      Inr (False, example_auth_storage)"
    by (simp add: has_with_host_def try_get_full_def then_op_eval bind_op_eval prepare_read_only_access_def
        access_def enforce_access_def read_through_def map_eval example_auth_storage_def)
  have "\<exists>s. put_with_host (nonce_key (ContractAddr 9) 77)
      (ContractDataE (ContractAddr 9) (LedgerKeyNonceV 77) Temporary (DataVal 0)) (Some 150)
      example_auth_storage = Inr ((), s)"
    by (simp add: put_with_host_def put_opt_def then_op_eval access_def enforce_access_def map_insert_def
        map_eval example_auth_storage_def)
  then show ?thesis
    using assms
    by (auto simp: verify_and_consume_nonce_def consume_nonce_def bind_op_eval then_op_eval live key has seq
        on_storage_def example_tracker_def example_world_def Let_def)
qed

theorem nonce_consumed_once_witness:
  "\<exists>h'. verify_and_consume_nonce example_world example_tracker example_auth_host = Inr ((), h') \<and>
     verify_and_consume_nonce example_world example_tracker h' \<noteq> Inr ((), h')"
proof -
  have st: "h_storage example_auth_host = example_auth_storage" "h_ledger example_auth_host = genesis_ledger"
    by (simp_all add: example_auth_host_def example_host_def)
  obtain h' where run: "verify_and_consume_nonce example_world example_tracker example_auth_host = Inr ((), h')"
    using example_nonce [OF st, of "at_invocation example_tracker"] by auto
  have "storage_ok (h_storage example_auth_host)"
    by (simp add: st storage_ok_def example_auth_storage_def omap_sorted_def)
  moreover have "\<not> at_is_source example_tracker" "at_nonce example_tracker = Some (77, 150)"
    by (simp_all add: example_tracker_def)
  ultimately show ?thesis using nonce_consumed_once [OF run] run by blast
qed

lemma example_ready: "ready example_auth_host"
proof -
  have "tracker_ok (tracker_push_frame (tracker_from_xdr example_tree))"
    by (rule push_frame_ok [OF new_tracker_ok])
  then show ?thesis
    by (simp add: ready_def example_auth_host_def am_ok_def cell_ok_def account_push_frame_def
        example_tracker_def tracker_push_frame_def tracker_from_xdr_def tracker_new_def invokers_ok_def
        settled_def)
qed

lemma example_request:
  "\<exists>h'. host_require_auth example_world 0 0 (ContractAddr 9) example_auth_host = (Inr (), h')"
proof -
  let ?t = "account_push_frame example_tracker" and ?t' = "example_tracker\<lparr>at_invocation := example_matched\<rparr>"
  let ?h = "set_cell 0 ?t' True example_auth_host"
  have t: "?t\<lparr>at_invocation := example_matched\<rparr> = ?t'" by (simp add: account_push_frame_def)
  have cell: "am_accounts (h_auth example_auth_host) = [\<lparr>tc_tracker = ?t, tc_borrowed = False\<rparr>]"
    "am_call_stack (h_auth example_auth_host) = [ContractFrame (ContractAddr 2) ''g'']"
    "am_mode (h_auth example_auth_host) = EnforcingAuth"
    by (simp_all add: example_auth_host_def)
  have a: "authenticate example_world ?t' ?h = (Inr (), ?h)"
    by (simp add: authenticate_def get_signature_payload_def check_account_contract_auth_def
        example_tracker_def example_matched_def example_call_def example_world_def)
  obtain s where n: "verify_and_consume_nonce example_world ?t' ?h = Inr ((), ?h\<lparr>h_storage := s\<rparr>)"
    using example_nonce [of ?h] by (auto simp: set_cell_def example_auth_host_def example_host_def)
  have m: "maybe_extend_invocation_match example_call True (at_invocation ?t) = Inr (True, example_matched)"
    using example_match by (simp add: account_push_frame_def example_tracker_def)
  have "\<not> at_verified ?t" "at_address ?t = ContractAddr 9"
    by (simp_all add: account_push_frame_def example_tracker_def)
  with a n m t cell have "\<exists>h'. maybe_authorize_invocation example_world 0 example_call True example_auth_host =
      (Inr True, h')"
    by (simp add: maybe_authorize_invocation_def Let_def lift_op_def)
  then obtain h' where h': "maybe_authorize_invocation example_world 0 example_call True example_auth_host =
      (Inr True, h')" by blast
  have "\<not> has_active_tracker (ContractAddr 9) (h_auth example_auth_host)"
    by (simp add: has_active_tracker_def cell account_is_active_def tracker_is_active_def
        account_push_frame_def example_tracker_def tracker_from_xdr_def tracker_new_def example_tree_def)
  moreover have "at_address ?t = ContractAddr 9" by fact
  ultimately have "require_auth_enforcing example_world (ContractAddr 9) example_call example_auth_host =
      (Inr (), h')"
    using h' by (simp add: require_auth_enforcing_def cell Let_def)
  moreover have "maybe_check_invoker_contract_auth (ContractAddr 9) example_call (h_auth example_auth_host) =
      Inr (False, h_auth example_auth_host)"
    by (simp add: maybe_check_invoker_contract_auth_def cell)
  ultimately have "require_auth_internal example_world 0 0 (ContractAddr 9) example_call example_auth_host =
      (Inr (), h')"
    by (simp add: require_auth_internal_def cell)
  moreover have "h_stack example_auth_host = [\<lparr>ctx_frame = example_frame, ctx_storage = None\<rparr>]"
    "frame_args example_frame = Some []"
    by (simp_all add: example_auth_host_def example_frame_def)
  ultimately show ?thesis
    by (simp add: host_require_auth_def am_require_auth_def cell example_call_def)
qed

theorem require_auth_sound_witness:
  "\<exists>h' f. host_require_auth example_world 0 0 (ContractAddr 9) example_auth_host = (Inr (), h') \<and>
     authorized example_world (ContractAddr 9) f example_auth_host h'"
proof -
  obtain h' where "host_require_auth example_world 0 0 (ContractAddr 9) example_auth_host = (Inr (), h')"
    using example_request by blast
  moreover have "am_mode (h_auth example_auth_host) = EnforcingAuth" by (simp add: example_auth_host_def)
  ultimately show ?thesis using require_auth_sound [OF _ example_ready _ example_checks] by blast
qed

theorem requests_are_nested_witness:
  "well_nested (and_then (am_require_auth example_world 0 0 (ContractAddr 9) [])
     (\<lambda>r h. (Inl (ContractErr 1) :: error + unit, h)))"
  by (rule requests_are_nested [OF example_checks returns_nested])

theorem authorize_then_fail_witness:
  "\<exists>m m3. am_pop_frame (Some (am_snapshot (pushed (ContractFrame (ContractAddr 2) ''g'')
       new_enforcing_without_authorizations))) m = (Inl (HostErr EAuth InternalError), m3) \<and>
     am_call_stack m3 = [ContractFrame (ContractAddr 2) ''g'']"
proof -
  let ?m = new_enforcing_without_authorizations and ?fr = "ContractFrame (ContractAddr 2) ''g''"
  let ?es = "[InvokerContract (ContractAddr 3) ''h'' [] []]"
  have ok: "am_ok ?m" by (simp add: am_ok_def invokers_ok_def new_enforcing_without_authorizations_def)
  have run: "\<exists>m2. add_invoker_contract_auth 2 ?es (pushed ?fr ?m) = (Inr (), m2)"
    by (simp add: new_with_curr_contract_as_invoker_def)
  have "settled (pushed ?fr ?m) (pushed ?fr ?m)" by (simp add: settled_def)
  from authorize_then_fail [OF ok am_evolves_refl [OF pushed_ok [OF ok]] _ this, of ?es 2] run
  have "\<exists>m2 m3. am_pop_frame (Some (am_snapshot (pushed ?fr ?m))) m2 =
      (Inl (HostErr EAuth InternalError), m3) \<and> am_call_stack m3 = am_call_stack ?m @ [?fr]"
    by blast
  then show ?thesis by (simp add: new_enforcing_without_authorizations_def)
qed

definition example_account_host :: "nat host" where
  "example_account_host = example_host\<lparr>h_storage :=
     \<lparr>st_footprint = [(LKAccount 1, ReadOnly)], st_mode = Enforcing,
      st_map = [(LKAccount 1, Some (AccountE example_account, None))]\<rparr>\<rparr>"

theorem account_authentication_witness:
  "\<exists>r. check_account_authentication example_world 1 42 VoidV example_account_host = Inr r"
proof -
  have "compare_key (LKAccount 1) (LKAccount 1) = Inr Equal" using lk.cmp_irrefl by simp
  then have "\<exists>h1. load_account 1 example_account_host = Inr (example_account, h1)"
    by (simp add: load_account_def get_with_host_def decorated_id some_or_missing_def bind_op_eval
        then_op_eval on_storage_def try_get_full_def prepare_read_only_access_def access_def
        enforce_access_def read_through_def map_eval example_account_host_def)
  then obtain h1 where l: "load_account 1 example_account_host = Inr (example_account, h1)" by blast
  have "length (ae_thresholds example_account) = 4" by (simp add: example_account_def)
  moreover have "\<exists>sigs. aw_signatures example_world VoidV = Some sigs \<and> sigs \<noteq> [] \<and>
      length sigs \<le> MAX_ACCOUNT_SIGNATURES \<and>
      signatures_valid (aw_verify example_world) 42 example_account sigs \<and>
      unat (ae_thresholds example_account ! 2) \<le> total_weight example_account sigs"
    by (simp add: example_world_def example_account_def MAX_ACCOUNT_SIGNATURES_def signatures_valid_def
        signer_weight_def)
  ultimately show ?thesis using account_authentication [OF l, of example_world 42 VoidV] by blast
qed

end
