(* ===== verification/Host_Search.thy ===== *)
theory Host_Search
  imports Host_Map
begin

text \<open>
  The loop of the binary search ends: on a vector of fewer than \<open>2 ^ n\<close> elements it makes at most
  \<open>n\<close> probes, whatever the comparison answers. The host's vectors and maps have fewer than
  \<open>2 ^ 32\<close> elements, so 32 probes are enough.
\<close>

text \<open>The loop with at most the given number of probes; \<open>None\<close> is a search that has not ended.\<close>

fun bsearch_upto ::
  "nat \<Rightarrow> ('a \<Rightarrow> error + ordering) \<Rightarrow> 'a list \<Rightarrow> nat \<Rightarrow> nat \<Rightarrow> (error + found) option" where
  "bsearch_upto 0 f xs left right = (if left < right then None else Some (Inr (InsertAt left)))"
| "bsearch_upto (Suc n) f xs left right =
     (if left < right then
        let mid = left + (right - left) div 2 in
        if length xs \<le> mid then Some (Inl (Panic ''unwrap on None''))
        else case f (xs ! mid) of
          Inl e \<Rightarrow> Some (Inl e)
        | Inr Less \<Rightarrow> bsearch_upto n f xs (mid + 1) right
        | Inr Greater \<Rightarrow> bsearch_upto n f xs left mid
        | Inr Equal \<Rightarrow> Some (Inr (FoundAt mid))
      else Some (Inr (InsertAt left)))"

lemma bsearch_upto_eq:
  "right - left < 2 ^ n \<Longrightarrow> bsearch_upto n f xs left right = Some (bsearch f xs left right)"
proof (induction n arbitrary: left right)
  case 0
  then show ?case by (simp add: bsearch.simps)
next
  case (Suc n)
  let ?mid = "left + (right - left) div 2"
  have "right - (?mid + 1) < 2 ^ n" "?mid - left < 2 ^ n" if "left < right"
    using Suc.prems that by auto
  then show ?case
    using Suc.IH by (subst bsearch.simps) (auto simp: Let_def split: sum.split ordering.split)
qed

text \<open>
  The host's binary search ends after at most \<open>n\<close> probes of a vector with fewer than \<open>2 ^ n\<close>
  elements, for any comparison, also one that is inconsistent or fails; its result is the one
  of the unbounded loop.
\<close>

theorem binary_search_ends:
  assumes "length xs < 2 ^ n"
  shows "bsearch_upto n f xs 0 (length xs) = Some (binary_search f xs)"
  using bsearch_upto_eq [of "length xs" 0 n f xs] assms by (simp add: binary_search_def)

definition example_probe :: "nat \<Rightarrow> error + ordering" where
  "example_probe x = Inr (if x < 5 then Less else if x = 5 then Equal else Greater)"

theorem binary_search_ends_witness:
  "bsearch_upto 2 example_probe [2, 3, 5] 0 (length [2, 3, 5 :: nat]) = Some (Inr (FoundAt 2))"
proof -
  have "length [2, 3, 5 :: nat] < 2 ^ 2" by simp
  then have "bsearch_upto 2 example_probe [2, 3, 5] 0 (length [2, 3, 5 :: nat]) =
      Some (binary_search example_probe [2, 3, 5])"
    by (rule binary_search_ends)
  moreover have "binary_search example_probe [2, 3, 5] = Inr (FoundAt 2)"
    by (simp add: binary_search_def bsearch.simps example_probe_def)
  ultimately show ?thesis by simp
qed

end
