(* ===== verification/Budget_Costs.thy ===== *)
theory Budget_Costs
  imports Prelude
begin

text \<open>
  Cost types and the linear cost models of the budget (\<open>budget.rs\<close>, \<open>budget/model.rs\<close>): a charge of
  some iterations with an input costs \<open>iterations * (const + lin * input)\<close>, where the linear term is scaled
  by \<open>2 ^ 7\<close>; all arithmetic saturates at the width of \<open>u64\<close>.
\<close>

section \<open>Cost types\<close>

datatype (plugins only: code size) cost_type =
    WasmInsnExec | MemAlloc | MemCpy | MemCmp | DispatchHostFunction | VisitObject | ValSer
    | ValDeser | ComputeSha256Hash | ComputeEd25519PubKey | VerifyEd25519Sig | VmInstantiation
    | VmCachedInstantiation | InvokeVmFunction | ComputeKeccak256Hash | DecodeEcdsaCurve256Sig
    | RecoverEcdsaSecp256k1Key | Int256AddSub | Int256Mul | Int256Div | Int256Pow | Int256Shift
    | ChaCha20DrawBytes | ParseWasmInstructions | ParseWasmFunctions | ParseWasmGlobals
    | ParseWasmTableEntries | ParseWasmTypes | ParseWasmDataSegments | ParseWasmElemSegments
    | ParseWasmImports | ParseWasmExports | ParseWasmDataSegmentBytes
    | InstantiateWasmInstructions | InstantiateWasmFunctions | InstantiateWasmGlobals
    | InstantiateWasmTableEntries | InstantiateWasmTypes | InstantiateWasmDataSegments
    | InstantiateWasmElemSegments | InstantiateWasmImports | InstantiateWasmExports
    | InstantiateWasmDataSegmentBytes | Sec1DecodePointUncompressed | VerifyEcdsaSecp256r1Sig
    | Bls12381EncodeFp | Bls12381DecodeFp | Bls12381G1CheckPointOnCurve
    | Bls12381G1CheckPointInSubgroup | Bls12381G2CheckPointOnCurve
    | Bls12381G2CheckPointInSubgroup | Bls12381G1ProjectiveToAffine
    | Bls12381G2ProjectiveToAffine | Bls12381G1Add | Bls12381G1Mul | Bls12381G1Msm
    | Bls12381MapFpToG1 | Bls12381HashToG1 | Bls12381G2Add | Bls12381G2Mul | Bls12381G2Msm
    | Bls12381MapFp2ToG2 | Bls12381HashToG2 | Bls12381Pairing | Bls12381FrFromU256
    | Bls12381FrToU256 | Bls12381FrAddSub | Bls12381FrMul | Bls12381FrPow | Bls12381FrInv

text \<open>Whether a cost type has an input; charges of the others are constant per iteration.\<close>

primrec has_input :: "cost_type \<Rightarrow> bool" where
  "has_input WasmInsnExec = False"
| "has_input MemAlloc = True"
| "has_input MemCpy = True"
| "has_input MemCmp = True"
| "has_input DispatchHostFunction = False"
| "has_input VisitObject = False"
| "has_input ValSer = True"
| "has_input ValDeser = True"
| "has_input ComputeSha256Hash = True"
| "has_input ComputeEd25519PubKey = False"
| "has_input VerifyEd25519Sig = True"
| "has_input VmInstantiation = True"
| "has_input VmCachedInstantiation = True"
| "has_input InvokeVmFunction = False"
| "has_input ComputeKeccak256Hash = True"
| "has_input DecodeEcdsaCurve256Sig = False"
| "has_input RecoverEcdsaSecp256k1Key = False"
| "has_input Int256AddSub = False"
| "has_input Int256Mul = False"
| "has_input Int256Div = False"
| "has_input Int256Pow = False"
| "has_input Int256Shift = False"
| "has_input ChaCha20DrawBytes = True"
| "has_input ParseWasmInstructions = True"
| "has_input ParseWasmFunctions = True"
| "has_input ParseWasmGlobals = True"
| "has_input ParseWasmTableEntries = True"
| "has_input ParseWasmTypes = True"
| "has_input ParseWasmDataSegments = True"
| "has_input ParseWasmElemSegments = True"
| "has_input ParseWasmImports = True"
| "has_input ParseWasmExports = True"
| "has_input ParseWasmDataSegmentBytes = True"
| "has_input InstantiateWasmInstructions = False"
| "has_input InstantiateWasmFunctions = True"
| "has_input InstantiateWasmGlobals = True"
| "has_input InstantiateWasmTableEntries = True"
| "has_input InstantiateWasmTypes = False"
| "has_input InstantiateWasmDataSegments = True"
| "has_input InstantiateWasmElemSegments = True"
| "has_input InstantiateWasmImports = True"
| "has_input InstantiateWasmExports = True"
| "has_input InstantiateWasmDataSegmentBytes = True"
| "has_input Sec1DecodePointUncompressed = False"
| "has_input VerifyEcdsaSecp256r1Sig = False"
| "has_input Bls12381EncodeFp = False"
| "has_input Bls12381DecodeFp = False"
| "has_input Bls12381G1CheckPointOnCurve = False"
| "has_input Bls12381G1CheckPointInSubgroup = False"
| "has_input Bls12381G2CheckPointOnCurve = False"
| "has_input Bls12381G2CheckPointInSubgroup = False"
| "has_input Bls12381G1ProjectiveToAffine = False"
| "has_input Bls12381G2ProjectiveToAffine = False"
| "has_input Bls12381G1Add = False"
| "has_input Bls12381G1Mul = False"
| "has_input Bls12381G1Msm = True"
| "has_input Bls12381MapFpToG1 = False"
| "has_input Bls12381HashToG1 = True"
| "has_input Bls12381G2Add = False"
| "has_input Bls12381G2Mul = False"
| "has_input Bls12381G2Msm = True"
| "has_input Bls12381MapFp2ToG2 = False"
| "has_input Bls12381HashToG2 = True"
| "has_input Bls12381Pairing = True"
| "has_input Bls12381FrFromU256 = False"
| "has_input Bls12381FrToU256 = False"
| "has_input Bls12381FrAddSub = False"
| "has_input Bls12381FrMul = False"
| "has_input Bls12381FrPow = True"
| "has_input Bls12381FrInv = False"

section \<open>Cost models\<close>

definition saturating_mul :: "u64 \<Rightarrow> u64 \<Rightarrow> u64" where
  "saturating_mul a b = (if unat a * unat b < 2 ^ 64 then a * b else - 1)"

definition COST_MODEL_LIN_TERM_SCALE_BITS :: nat where "COST_MODEL_LIN_TERM_SCALE_BITS = 7"

datatype scaled_u64 = ScaledU64 (scaled: u64)

definition from_unscaled_u64 :: "u64 \<Rightarrow> scaled_u64" where
  "from_unscaled_u64 u = ScaledU64 (push_bit COST_MODEL_LIN_TERM_SCALE_BITS u)"

definition unscale :: "scaled_u64 \<Rightarrow> u64" where
  "unscale s = drop_bit COST_MODEL_LIN_TERM_SCALE_BITS (scaled s)"

definition scaled_mul :: "scaled_u64 \<Rightarrow> u64 \<Rightarrow> scaled_u64" where
  "scaled_mul s rhs = ScaledU64 (saturating_mul (scaled s) rhs)"

definition safe_div :: "scaled_u64 \<Rightarrow> u64 \<Rightarrow> scaled_u64" where
  "safe_div s rhs = ScaledU64 (if rhs = 0 then 0 else scaled s div rhs)"

record cost_component =
  const_term :: u64
  lin_term :: scaled_u64

text \<open>A parameter of the network configuration is a pair of signed numbers.\<close>

definition component_of_param :: "int \<times> int \<Rightarrow> error + cost_component" where
  "component_of_param p =
     (if fst p < 0 \<or> snd p < 0 then Inl (HostErr EContext InvalidInput)
      else Inr \<lparr>const_term = word_of_int (fst p), lin_term = ScaledU64 (word_of_int (snd p))\<rparr>)"

definition evaluate :: "cost_component \<Rightarrow> u64 \<Rightarrow> u64 option \<Rightarrow> u64" where
  "evaluate c iterations input =
     (let const = saturating_mul (const_term c) iterations in
      case input of
        None \<Rightarrow> const
      | Some i \<Rightarrow>
          if scaled (lin_term c) = 0 then const
          else saturating_add const (unscale (scaled_mul (scaled_mul (lin_term c) i) iterations)))"

section \<open>Default models\<close>

primrec default_cpu :: "cost_type \<Rightarrow> cost_component" where
  "default_cpu WasmInsnExec = \<lparr>const_term = 4, lin_term = ScaledU64 0\<rparr>"
| "default_cpu MemAlloc = \<lparr>const_term = 434, lin_term = safe_div (from_unscaled_u64 1) 8\<rparr>"
| "default_cpu MemCpy = \<lparr>const_term = 42, lin_term = safe_div (from_unscaled_u64 1) 8\<rparr>"
| "default_cpu MemCmp = \<lparr>const_term = 44, lin_term = safe_div (from_unscaled_u64 1) 8\<rparr>"
| "default_cpu DispatchHostFunction = \<lparr>const_term = 310, lin_term = ScaledU64 0\<rparr>"
| "default_cpu VisitObject = \<lparr>const_term = 61, lin_term = ScaledU64 0\<rparr>"
| "default_cpu ValSer = \<lparr>const_term = 230, lin_term = ScaledU64 29\<rparr>"
| "default_cpu ValDeser = \<lparr>const_term = 59052, lin_term = ScaledU64 4001\<rparr>"
| "default_cpu ComputeSha256Hash = \<lparr>const_term = 3738, lin_term = ScaledU64 7012\<rparr>"
| "default_cpu ComputeEd25519PubKey = \<lparr>const_term = 40253, lin_term = ScaledU64 0\<rparr>"
| "default_cpu VerifyEd25519Sig = \<lparr>const_term = 377524, lin_term = ScaledU64 4068\<rparr>"
| "default_cpu VmInstantiation = \<lparr>const_term = 451626, lin_term = ScaledU64 45405\<rparr>"
| "default_cpu VmCachedInstantiation = \<lparr>const_term = 41142, lin_term = ScaledU64 634\<rparr>"
| "default_cpu InvokeVmFunction = \<lparr>const_term = 1948, lin_term = ScaledU64 0\<rparr>"
| "default_cpu ComputeKeccak256Hash = \<lparr>const_term = 3766, lin_term = ScaledU64 5969\<rparr>"
| "default_cpu DecodeEcdsaCurve256Sig = \<lparr>const_term = 710, lin_term = ScaledU64 0\<rparr>"
| "default_cpu RecoverEcdsaSecp256k1Key = \<lparr>const_term = 2315295, lin_term = ScaledU64 0\<rparr>"
| "default_cpu Int256AddSub = \<lparr>const_term = 4404, lin_term = ScaledU64 0\<rparr>"
| "default_cpu Int256Mul = \<lparr>const_term = 4947, lin_term = ScaledU64 0\<rparr>"
| "default_cpu Int256Div = \<lparr>const_term = 4911, lin_term = ScaledU64 0\<rparr>"
| "default_cpu Int256Pow = \<lparr>const_term = 4286, lin_term = ScaledU64 0\<rparr>"
| "default_cpu Int256Shift = \<lparr>const_term = 913, lin_term = ScaledU64 0\<rparr>"
| "default_cpu ChaCha20DrawBytes = \<lparr>const_term = 1058, lin_term = ScaledU64 501\<rparr>"
| "default_cpu ParseWasmInstructions = \<lparr>const_term = 73077, lin_term = ScaledU64 25410\<rparr>"
| "default_cpu ParseWasmFunctions = \<lparr>const_term = 0, lin_term = ScaledU64 540752\<rparr>"
| "default_cpu ParseWasmGlobals = \<lparr>const_term = 0, lin_term = ScaledU64 176363\<rparr>"
| "default_cpu ParseWasmTableEntries = \<lparr>const_term = 0, lin_term = ScaledU64 29989\<rparr>"
| "default_cpu ParseWasmTypes = \<lparr>const_term = 0, lin_term = ScaledU64 1061449\<rparr>"
| "default_cpu ParseWasmDataSegments = \<lparr>const_term = 0, lin_term = ScaledU64 237336\<rparr>"
| "default_cpu ParseWasmElemSegments = \<lparr>const_term = 0, lin_term = ScaledU64 328476\<rparr>"
| "default_cpu ParseWasmImports = \<lparr>const_term = 0, lin_term = ScaledU64 701845\<rparr>"
| "default_cpu ParseWasmExports = \<lparr>const_term = 0, lin_term = ScaledU64 429383\<rparr>"
| "default_cpu ParseWasmDataSegmentBytes = \<lparr>const_term = 0, lin_term = ScaledU64 28\<rparr>"
| "default_cpu InstantiateWasmInstructions = \<lparr>const_term = 43030, lin_term = ScaledU64 0\<rparr>"
| "default_cpu InstantiateWasmFunctions = \<lparr>const_term = 0, lin_term = ScaledU64 7556\<rparr>"
| "default_cpu InstantiateWasmGlobals = \<lparr>const_term = 0, lin_term = ScaledU64 10711\<rparr>"
| "default_cpu InstantiateWasmTableEntries = \<lparr>const_term = 0, lin_term = ScaledU64 3300\<rparr>"
| "default_cpu InstantiateWasmTypes = \<lparr>const_term = 0, lin_term = ScaledU64 0\<rparr>"
| "default_cpu InstantiateWasmDataSegments = \<lparr>const_term = 0, lin_term = ScaledU64 23038\<rparr>"
| "default_cpu InstantiateWasmElemSegments = \<lparr>const_term = 0, lin_term = ScaledU64 42488\<rparr>"
| "default_cpu InstantiateWasmImports = \<lparr>const_term = 0, lin_term = ScaledU64 828974\<rparr>"
| "default_cpu InstantiateWasmExports = \<lparr>const_term = 0, lin_term = ScaledU64 297100\<rparr>"
| "default_cpu InstantiateWasmDataSegmentBytes = \<lparr>const_term = 0, lin_term = ScaledU64 14\<rparr>"
| "default_cpu Sec1DecodePointUncompressed = \<lparr>const_term = 1882, lin_term = ScaledU64 0\<rparr>"
| "default_cpu VerifyEcdsaSecp256r1Sig = \<lparr>const_term = 3000906, lin_term = ScaledU64 0\<rparr>"
| "default_cpu Bls12381EncodeFp = \<lparr>const_term = 661, lin_term = ScaledU64 0\<rparr>"
| "default_cpu Bls12381DecodeFp = \<lparr>const_term = 985, lin_term = ScaledU64 0\<rparr>"
| "default_cpu Bls12381G1CheckPointOnCurve = \<lparr>const_term = 1934, lin_term = ScaledU64 0\<rparr>"
| "default_cpu Bls12381G1CheckPointInSubgroup = \<lparr>const_term = 730510, lin_term = ScaledU64 0\<rparr>"
| "default_cpu Bls12381G2CheckPointOnCurve = \<lparr>const_term = 5921, lin_term = ScaledU64 0\<rparr>"
| "default_cpu Bls12381G2CheckPointInSubgroup = \<lparr>const_term = 1057822, lin_term = ScaledU64 0\<rparr>"
| "default_cpu Bls12381G1ProjectiveToAffine = \<lparr>const_term = 92642, lin_term = ScaledU64 0\<rparr>"
| "default_cpu Bls12381G2ProjectiveToAffine = \<lparr>const_term = 100742, lin_term = ScaledU64 0\<rparr>"
| "default_cpu Bls12381G1Add = \<lparr>const_term = 7689, lin_term = ScaledU64 0\<rparr>"
| "default_cpu Bls12381G1Mul = \<lparr>const_term = 2458985, lin_term = ScaledU64 0\<rparr>"
| "default_cpu Bls12381G1Msm = \<lparr>const_term = 2426722, lin_term = ScaledU64 96397671\<rparr>"
| "default_cpu Bls12381MapFpToG1 = \<lparr>const_term = 1541554, lin_term = ScaledU64 0\<rparr>"
| "default_cpu Bls12381HashToG1 = \<lparr>const_term = 3211191, lin_term = ScaledU64 6713\<rparr>"
| "default_cpu Bls12381G2Add = \<lparr>const_term = 25207, lin_term = ScaledU64 0\<rparr>"
| "default_cpu Bls12381G2Mul = \<lparr>const_term = 7873219, lin_term = ScaledU64 0\<rparr>"
| "default_cpu Bls12381G2Msm = \<lparr>const_term = 8035968, lin_term = ScaledU64 309667335\<rparr>"
| "default_cpu Bls12381MapFp2ToG2 = \<lparr>const_term = 2420202, lin_term = ScaledU64 0\<rparr>"
| "default_cpu Bls12381HashToG2 = \<lparr>const_term = 7050564, lin_term = ScaledU64 6797\<rparr>"
| "default_cpu Bls12381Pairing = \<lparr>const_term = 10558948, lin_term = ScaledU64 632860943\<rparr>"
| "default_cpu Bls12381FrFromU256 = \<lparr>const_term = 1994, lin_term = ScaledU64 0\<rparr>"
| "default_cpu Bls12381FrToU256 = \<lparr>const_term = 1155, lin_term = ScaledU64 0\<rparr>"
| "default_cpu Bls12381FrAddSub = \<lparr>const_term = 74, lin_term = ScaledU64 0\<rparr>"
| "default_cpu Bls12381FrMul = \<lparr>const_term = 332, lin_term = ScaledU64 0\<rparr>"
| "default_cpu Bls12381FrPow = \<lparr>const_term = 691, lin_term = ScaledU64 74558\<rparr>"
| "default_cpu Bls12381FrInv = \<lparr>const_term = 35421, lin_term = ScaledU64 0\<rparr>"

primrec default_mem :: "cost_type \<Rightarrow> cost_component" where
  "default_mem WasmInsnExec = \<lparr>const_term = 0, lin_term = ScaledU64 0\<rparr>"
| "default_mem MemAlloc = \<lparr>const_term = 16, lin_term = from_unscaled_u64 1\<rparr>"
| "default_mem MemCpy = \<lparr>const_term = 0, lin_term = ScaledU64 0\<rparr>"
| "default_mem MemCmp = \<lparr>const_term = 0, lin_term = ScaledU64 0\<rparr>"
| "default_mem DispatchHostFunction = \<lparr>const_term = 0, lin_term = ScaledU64 0\<rparr>"
| "default_mem VisitObject = \<lparr>const_term = 0, lin_term = ScaledU64 0\<rparr>"
| "default_mem ValSer = \<lparr>const_term = 242, lin_term = from_unscaled_u64 3\<rparr>"
| "default_mem ValDeser = \<lparr>const_term = 0, lin_term = from_unscaled_u64 3\<rparr>"
| "default_mem ComputeSha256Hash = \<lparr>const_term = 0, lin_term = ScaledU64 0\<rparr>"
| "default_mem ComputeEd25519PubKey = \<lparr>const_term = 0, lin_term = ScaledU64 0\<rparr>"
| "default_mem VerifyEd25519Sig = \<lparr>const_term = 0, lin_term = ScaledU64 0\<rparr>"
| "default_mem VmInstantiation = \<lparr>const_term = 130065, lin_term = ScaledU64 5064\<rparr>"
| "default_mem VmCachedInstantiation = \<lparr>const_term = 69472, lin_term = ScaledU64 1217\<rparr>"
| "default_mem InvokeVmFunction = \<lparr>const_term = 14, lin_term = ScaledU64 0\<rparr>"
| "default_mem ComputeKeccak256Hash = \<lparr>const_term = 0, lin_term = ScaledU64 0\<rparr>"
| "default_mem DecodeEcdsaCurve256Sig = \<lparr>const_term = 0, lin_term = ScaledU64 0\<rparr>"
| "default_mem RecoverEcdsaSecp256k1Key = \<lparr>const_term = 181, lin_term = ScaledU64 0\<rparr>"
| "default_mem Int256AddSub = \<lparr>const_term = 99, lin_term = ScaledU64 0\<rparr>"
| "default_mem Int256Mul = \<lparr>const_term = 99, lin_term = ScaledU64 0\<rparr>"
| "default_mem Int256Div = \<lparr>const_term = 99, lin_term = ScaledU64 0\<rparr>"
| "default_mem Int256Pow = \<lparr>const_term = 99, lin_term = ScaledU64 0\<rparr>"
| "default_mem Int256Shift = \<lparr>const_term = 99, lin_term = ScaledU64 0\<rparr>"
| "default_mem ChaCha20DrawBytes = \<lparr>const_term = 0, lin_term = ScaledU64 0\<rparr>"
| "default_mem ParseWasmInstructions = \<lparr>const_term = 17564, lin_term = ScaledU64 6457\<rparr>"
| "default_mem ParseWasmFunctions = \<lparr>const_term = 0, lin_term = ScaledU64 47464\<rparr>"
| "default_mem ParseWasmGlobals = \<lparr>const_term = 0, lin_term = ScaledU64 13420\<rparr>"
| "default_mem ParseWasmTableEntries = \<lparr>const_term = 0, lin_term = ScaledU64 6285\<rparr>"
| "default_mem ParseWasmTypes = \<lparr>const_term = 0, lin_term = ScaledU64 64670\<rparr>"
| "default_mem ParseWasmDataSegments = \<lparr>const_term = 0, lin_term = ScaledU64 29074\<rparr>"
| "default_mem ParseWasmElemSegments = \<lparr>const_term = 0, lin_term = ScaledU64 48095\<rparr>"
| "default_mem ParseWasmImports = \<lparr>const_term = 0, lin_term = ScaledU64 103229\<rparr>"
| "default_mem ParseWasmExports = \<lparr>const_term = 0, lin_term = ScaledU64 36394\<rparr>"
| "default_mem ParseWasmDataSegmentBytes = \<lparr>const_term = 0, lin_term = ScaledU64 257\<rparr>"
| "default_mem InstantiateWasmInstructions = \<lparr>const_term = 70704, lin_term = ScaledU64 0\<rparr>"
| "default_mem InstantiateWasmFunctions = \<lparr>const_term = 0, lin_term = ScaledU64 14613\<rparr>"
| "default_mem InstantiateWasmGlobals = \<lparr>const_term = 0, lin_term = ScaledU64 6833\<rparr>"
| "default_mem InstantiateWasmTableEntries = \<lparr>const_term = 0, lin_term = ScaledU64 1025\<rparr>"
| "default_mem InstantiateWasmTypes = \<lparr>const_term = 0, lin_term = ScaledU64 0\<rparr>"
| "default_mem InstantiateWasmDataSegments = \<lparr>const_term = 0, lin_term = ScaledU64 129632\<rparr>"
| "default_mem InstantiateWasmElemSegments = \<lparr>const_term = 0, lin_term = ScaledU64 13665\<rparr>"
| "default_mem InstantiateWasmImports = \<lparr>const_term = 0, lin_term = ScaledU64 97637\<rparr>"
| "default_mem InstantiateWasmExports = \<lparr>const_term = 0, lin_term = ScaledU64 9176\<rparr>"
| "default_mem InstantiateWasmDataSegmentBytes = \<lparr>const_term = 0, lin_term = ScaledU64 126\<rparr>"
| "default_mem Sec1DecodePointUncompressed = \<lparr>const_term = 0, lin_term = ScaledU64 0\<rparr>"
| "default_mem VerifyEcdsaSecp256r1Sig = \<lparr>const_term = 0, lin_term = ScaledU64 0\<rparr>"
| "default_mem Bls12381EncodeFp = \<lparr>const_term = 0, lin_term = ScaledU64 0\<rparr>"
| "default_mem Bls12381DecodeFp = \<lparr>const_term = 0, lin_term = ScaledU64 0\<rparr>"
| "default_mem Bls12381G1CheckPointOnCurve = \<lparr>const_term = 0, lin_term = ScaledU64 0\<rparr>"
| "default_mem Bls12381G1CheckPointInSubgroup = \<lparr>const_term = 0, lin_term = ScaledU64 0\<rparr>"
| "default_mem Bls12381G2CheckPointOnCurve = \<lparr>const_term = 0, lin_term = ScaledU64 0\<rparr>"
| "default_mem Bls12381G2CheckPointInSubgroup = \<lparr>const_term = 0, lin_term = ScaledU64 0\<rparr>"
| "default_mem Bls12381G1ProjectiveToAffine = \<lparr>const_term = 0, lin_term = ScaledU64 0\<rparr>"
| "default_mem Bls12381G2ProjectiveToAffine = \<lparr>const_term = 0, lin_term = ScaledU64 0\<rparr>"
| "default_mem Bls12381G1Add = \<lparr>const_term = 0, lin_term = ScaledU64 0\<rparr>"
| "default_mem Bls12381G1Mul = \<lparr>const_term = 0, lin_term = ScaledU64 0\<rparr>"
| "default_mem Bls12381G1Msm = \<lparr>const_term = 109494, lin_term = ScaledU64 354667\<rparr>"
| "default_mem Bls12381MapFpToG1 = \<lparr>const_term = 5552, lin_term = ScaledU64 0\<rparr>"
| "default_mem Bls12381HashToG1 = \<lparr>const_term = 9424, lin_term = ScaledU64 0\<rparr>"
| "default_mem Bls12381G2Add = \<lparr>const_term = 0, lin_term = ScaledU64 0\<rparr>"
| "default_mem Bls12381G2Mul = \<lparr>const_term = 0, lin_term = ScaledU64 0\<rparr>"
| "default_mem Bls12381G2Msm = \<lparr>const_term = 219654, lin_term = ScaledU64 354667\<rparr>"
| "default_mem Bls12381MapFp2ToG2 = \<lparr>const_term = 3344, lin_term = ScaledU64 0\<rparr>"
| "default_mem Bls12381HashToG2 = \<lparr>const_term = 6816, lin_term = ScaledU64 0\<rparr>"
| "default_mem Bls12381Pairing = \<lparr>const_term = 2204, lin_term = ScaledU64 9340474\<rparr>"
| "default_mem Bls12381FrFromU256 = \<lparr>const_term = 0, lin_term = ScaledU64 0\<rparr>"
| "default_mem Bls12381FrToU256 = \<lparr>const_term = 248, lin_term = ScaledU64 0\<rparr>"
| "default_mem Bls12381FrAddSub = \<lparr>const_term = 0, lin_term = ScaledU64 0\<rparr>"
| "default_mem Bls12381FrMul = \<lparr>const_term = 0, lin_term = ScaledU64 0\<rparr>"
| "default_mem Bls12381FrPow = \<lparr>const_term = 0, lin_term = ScaledU64 128\<rparr>"
| "default_mem Bls12381FrInv = \<lparr>const_term = 0, lin_term = ScaledU64 0\<rparr>"

section \<open>Costs as numbers\<close>

lemma unat_saturating_mul: "unat (saturating_mul a b) = min (unat a * unat b) (2 ^ 64 - 1)"
proof (cases "unat a * unat b < 2 ^ 64")
  case True
  then have "unat (a * b) = unat a * unat b" by (simp add: unat_word_ariths)
  with True show ?thesis by (simp add: saturating_mul_def)
next
  case False
  then show ?thesis by (simp add: saturating_mul_def unsigned_minus_1_eq_mask mask_eq_exp_minus_1 min_def)
qed

lemma unat_unscale: "unat (unscale s) = unat (scaled s) div 128"
  by (simp add: unscale_def COST_MODEL_LIN_TERM_SCALE_BITS_def drop_bit_eq_div unat_div)

text \<open>What a charge costs: the exact cost, cut off where the arithmetic saturates.\<close>

abbreviation U64_MAX :: nat where "U64_MAX \<equiv> 2 ^ 64 - 1"

definition linear_cost :: "cost_component \<Rightarrow> nat \<Rightarrow> nat \<Rightarrow> nat" where
  "linear_cost c n i = min (min (unat (scaled (lin_term c)) * i) U64_MAX * n) U64_MAX div 128"

lemma unat_evaluate_None: "unat (evaluate c n None) = min (unat (const_term c) * unat n) U64_MAX"
  by (simp add: evaluate_def Let_def unat_saturating_mul)

lemma unat_evaluate_Some:
  "unat (evaluate c n (Some i)) =
     min (min (unat (const_term c) * unat n) U64_MAX + linear_cost c (unat n) (unat i)) U64_MAX"
proof (cases "scaled (lin_term c) = 0")
  case True
  then show ?thesis by (simp add: evaluate_def Let_def unat_saturating_mul linear_cost_def)
next
  case False
  then show ?thesis
    by (simp add: evaluate_def Let_def unat_saturating_mul unat_saturating_add linear_cost_def
        unat_unscale scaled_mul_def)
qed

lemma linear_cost_mono:
  assumes "n \<le> n'" and "i \<le> i'"
  shows "linear_cost c n i \<le> linear_cost c n' i'"
  unfolding linear_cost_def
  by (intro div_le_mono min.mono mult_le_mono order.refl assms)

lemma evaluate_mono:
  assumes "unat n \<le> unat n'" and "unat i \<le> unat i'"
  shows "unat (evaluate c n (Some i)) \<le> unat (evaluate c n' (Some i'))"
  unfolding unat_evaluate_Some
  by (intro min.mono add_mono mult_le_mono order.refl linear_cost_mono assms)

text \<open>A cost type without an input has no linear term in the default models.\<close>

lemma default_models_linear:
  assumes "\<not> has_input ty"
  shows "scaled (lin_term (default_cpu ty)) = 0" and "scaled (lin_term (default_mem ty)) = 0"
  using assms by (cases ty; simp)+

end
