(* ===== verification/Budget.thy ===== *)
theory Budget
  imports Budget_Costs
begin

text \<open>
  The budget (\<open>budget.rs\<close>, \<open>budget/dimension.rs\<close>, \<open>budget/limits.rs\<close>, \<open>budget/wasmi_helper.rs\<close>): two
  dimensions, CPU instructions and memory bytes, each with its cost models, a limit and a count, and
  a second limit and count for work in shadow mode. A charge that fails keeps what it has already
  counted, so the operations return the budget in every case. The fuel costs of the Wasm machine are
  passed on to it only and left out.
\<close>

section \<open>Dimensions\<close>

record budget_dimension =
  bd_models :: "cost_type \<Rightarrow> cost_component"
  bd_limit :: u64
  bd_total :: u64
  bd_shadow_limit :: u64
  bd_shadow_total :: u64

definition dimension_default :: budget_dimension where
  "dimension_default =
     \<lparr>bd_models = (\<lambda>_. \<lparr>const_term = 0, lin_term = ScaledU64 0\<rparr>), bd_limit = 0, bd_total = 0,
      bd_shadow_limit = 0, bd_shadow_total = 0\<rparr>"

text \<open>\<open>variants\<close> are the cost types in the order of their enumeration.\<close>

fun set_models ::
  "cost_type list \<Rightarrow> (int \<times> int) list \<Rightarrow> (cost_type \<Rightarrow> cost_component) \<Rightarrow>
   error + (cost_type \<Rightarrow> cost_component)" where
  "set_models variants [] m = Inr m"
| "set_models [] (p # ps) m = Inl (HostErr EBudget InternalError)"
| "set_models (v # vs) (p # ps) m =
     (case component_of_param p of Inl e \<Rightarrow> Inl e | Inr c \<Rightarrow> set_models vs ps (m(v := c)))"

definition dimension_try_from_config ::
  "cost_type list \<Rightarrow> (int \<times> int) list \<Rightarrow> u64 \<Rightarrow> error + budget_dimension" where
  "dimension_try_from_config variants cost_params limit =
     (case set_models variants cost_params (bd_models dimension_default) of
        Inl e \<Rightarrow> Inl e
      | Inr m \<Rightarrow>
          Inr (dimension_default\<lparr>bd_models := m, bd_limit := limit, bd_shadow_limit := limit\<rparr>))"

definition get_remaining :: "budget_dimension \<Rightarrow> u64" where
  "get_remaining d = saturating_sub (bd_limit d) (bd_total d)"

definition reset_count :: "budget_dimension \<Rightarrow> budget_dimension" where
  "reset_count d = d\<lparr>bd_total := 0, bd_shadow_total := 0\<rparr>"

definition dimension_reset :: "u64 \<Rightarrow> budget_dimension \<Rightarrow> budget_dimension" where
  "dimension_reset limit d = reset_count (d\<lparr>bd_limit := limit, bd_shadow_limit := limit\<rparr>)"

definition check_budget_limit :: "bool \<Rightarrow> budget_dimension \<Rightarrow> error + unit" where
  "check_budget_limit is_shadow d =
     (let over_limit = (if is_shadow then bd_shadow_limit d < bd_shadow_total d
                        else bd_limit d < bd_total d)
      in if over_limit then Inl (HostErr EBudget ExceededLimit) else Inr ())"

definition dimension_charge ::
  "cost_type \<Rightarrow> u64 \<Rightarrow> u64 option \<Rightarrow> bool \<Rightarrow> budget_dimension \<Rightarrow> u64 \<times> budget_dimension" where
  "dimension_charge ty iterations input is_shadow d =
     (let amount = evaluate (bd_models d ty) iterations input in
      (amount,
       if is_shadow then d\<lparr>bd_shadow_total := saturating_add (bd_shadow_total d) amount\<rparr>
       else d\<lparr>bd_total := saturating_add (bd_total d) amount\<rparr>))"

section \<open>The budget\<close>

record cost_tracker =
  ct_iterations :: u64
  ct_inputs :: "u64 option"
  ct_cpu :: u64
  ct_mem :: u64

record budget_tracker =
  bt_cost_trackers :: "cost_type \<Rightarrow> cost_tracker"
  bt_meter_count :: u32
  bt_time_tracker :: "cost_type \<Rightarrow> u64"

record budget =
  bu_cpu :: budget_dimension
  bu_mem :: budget_dimension
  bu_tracker :: budget_tracker
  bu_shadow :: bool
  bu_depth :: u32

type_synonym 'a budget_op = "budget \<Rightarrow> (error + 'a) \<times> budget"

definition DEFAULT_HOST_DEPTH_LIMIT :: u32 where "DEFAULT_HOST_DEPTH_LIMIT = 100"
definition DEFAULT_CPU_INSN_LIMIT :: u64 where "DEFAULT_CPU_INSN_LIMIT = 100000000"
definition DEFAULT_MEM_BYTES_LIMIT :: u64 where "DEFAULT_MEM_BYTES_LIMIT = 40 * 1024 * 1024"

definition tracker_default :: budget_tracker where
  "tracker_default =
     \<lparr>bt_cost_trackers =
        (\<lambda>ty. \<lparr>ct_iterations = 0, ct_inputs = (if has_input ty then Some 0 else None), ct_cpu = 0, ct_mem = 0\<rparr>),
      bt_meter_count = 0, bt_time_tracker = (\<lambda>_. 0)\<rparr>"

definition budget_try_from_configs ::
  "cost_type list \<Rightarrow> u64 \<Rightarrow> u64 \<Rightarrow> (int \<times> int) list \<Rightarrow> (int \<times> int) list \<Rightarrow> error + budget" where
  "budget_try_from_configs variants cpu_limit mem_limit cpu_cost_params mem_cost_params =
     (case dimension_try_from_config variants cpu_cost_params cpu_limit of
        Inl e \<Rightarrow> Inl e
      | Inr cpu \<Rightarrow>
          (case dimension_try_from_config variants mem_cost_params mem_limit of
             Inl e \<Rightarrow> Inl e
           | Inr mem \<Rightarrow>
               Inr \<lparr>bu_cpu = cpu, bu_mem = mem, bu_tracker = tracker_default, bu_shadow = False,
                    bu_depth = DEFAULT_HOST_DEPTH_LIMIT\<rparr>))"

definition budget_default :: budget where
  "budget_default =
     \<lparr>bu_cpu = dimension_reset DEFAULT_CPU_INSN_LIMIT (dimension_default\<lparr>bd_models := default_cpu\<rparr>),
      bu_mem = dimension_reset DEFAULT_MEM_BYTES_LIMIT (dimension_default\<lparr>bd_models := default_mem\<rparr>),
      bu_tracker = tracker_default, bu_shadow = False, bu_depth = DEFAULT_HOST_DEPTH_LIMIT\<rparr>"

section \<open>Charges\<close>

definition update_cost_tracker ::
  "cost_type \<Rightarrow> (cost_tracker \<Rightarrow> cost_tracker) \<Rightarrow> budget \<Rightarrow> budget" where
  "update_cost_tracker ty f b =
     b\<lparr>bu_tracker := (bu_tracker b)\<lparr>bt_cost_trackers :=
         (bt_cost_trackers (bu_tracker b))(ty := f (bt_cost_trackers (bu_tracker b) ty))\<rparr>\<rparr>"

text \<open>An input where none is expected, or none where one is, is an internal error.\<close>

definition track_charge :: "cost_type \<Rightarrow> u64 \<Rightarrow> u64 option \<Rightarrow> unit budget_op" where
  "track_charge ty iterations input b =
     (let b1 = b\<lparr>bu_tracker := (bu_tracker b)\<lparr>bt_meter_count :=
                 saturating_add (bt_meter_count (bu_tracker b)) 1\<rparr>\<rparr>;
          b2 = update_cost_tracker ty
                 (\<lambda>t. t\<lparr>ct_iterations := saturating_add (ct_iterations t) iterations\<rparr>) b1
      in case (ct_inputs (bt_cost_trackers (bu_tracker b) ty), input) of
           (None, None) \<Rightarrow> (Inr (), b2)
         | (Some t, Some i) \<Rightarrow>
             (Inr (), update_cost_tracker ty
                (\<lambda>tr. tr\<lparr>ct_inputs := Some (saturating_add t (saturating_mul i iterations))\<rparr>) b2)
         | _ \<Rightarrow> (Inl (HostErr EBudget InternalError), b2))"

definition budget_charge :: "cost_type \<Rightarrow> u64 \<Rightarrow> u64 option \<Rightarrow> unit budget_op" where
  "budget_charge ty iterations input b =
     (let sh = bu_shadow b;
          (r, b1) = (if sh then (Inr (), b) else track_charge ty iterations input b)
      in case r of
           Inl e \<Rightarrow> (Inl e, b1)
         | Inr _ \<Rightarrow>
             (let (cpu_charged, cpu) = dimension_charge ty iterations input sh (bu_cpu b1);
                  b2 = b1\<lparr>bu_cpu := cpu\<rparr>;
                  b3 = (if sh then b2 else update_cost_tracker ty
                          (\<lambda>t. t\<lparr>ct_cpu := saturating_add (ct_cpu t) cpu_charged\<rparr>) b2)
              in case check_budget_limit sh cpu of
                   Inl e \<Rightarrow> (Inl e, b3)
                 | Inr _ \<Rightarrow>
                     (let (mem_charged, mem) = dimension_charge ty iterations input sh (bu_mem b3);
                          b4 = b3\<lparr>bu_mem := mem\<rparr>;
                          b5 = (if sh then b4 else update_cost_tracker ty
                                  (\<lambda>t. t\<lparr>ct_mem := saturating_add (ct_mem t) mem_charged\<rparr>) b4)
                      in (check_budget_limit sh mem, b5))))"

text \<open>\<open>Budget::bulk_charge\<close> and \<open>Budget::charge\<close>.\<close>

definition bulk_charge :: "cost_type \<Rightarrow> u64 \<Rightarrow> u64 option \<Rightarrow> unit budget_op" where
  "bulk_charge = budget_charge"

definition charge :: "cost_type \<Rightarrow> u64 option \<Rightarrow> unit budget_op" where
  "charge ty input = budget_charge ty 1 input"

definition get_wasmi_fuel_remaining :: "budget \<Rightarrow> u64" where
  "get_wasmi_fuel_remaining b =
     (let cpu_per_fuel = max (const_term (bd_models (bu_cpu b) WasmInsnExec)) 1
      in get_remaining (bu_cpu b) div cpu_per_fuel)"

section \<open>Shadow mode\<close>

text \<open>The computation \<open>f\<close> is run in shadow mode; its result, errors included, is dropped.\<close>

definition with_shadow_mode :: "'a budget_op \<Rightarrow> budget \<Rightarrow> budget" where
  "with_shadow_mode f b =
     (let prev = bu_shadow b;
          b1 = b\<lparr>bu_shadow := True\<rparr>;
          b2 = (case check_budget_limit True (bu_cpu b1) of
                  Inl _ \<Rightarrow> b1
                | Inr _ \<Rightarrow>
                    (case check_budget_limit True (bu_mem b1) of
                       Inl _ \<Rightarrow> b1
                     | Inr _ \<Rightarrow> snd (f b1)))
      in b2\<lparr>bu_shadow := prev\<rparr>)"

definition set_shadow_limits :: "u64 \<Rightarrow> u64 \<Rightarrow> budget \<Rightarrow> budget" where
  "set_shadow_limits cpu mem b =
     b\<lparr>bu_cpu := (bu_cpu b)\<lparr>bd_shadow_limit := cpu\<rparr>, bu_mem := (bu_mem b)\<lparr>bd_shadow_limit := mem\<rparr>\<rparr>"

definition ensure_shadow_cpu_limit_factor :: "u64 \<Rightarrow> budget \<Rightarrow> budget" where
  "ensure_shadow_cpu_limit_factor factor b =
     b\<lparr>bu_cpu := (bu_cpu b)\<lparr>bd_shadow_limit := saturating_mul (bd_limit (bu_cpu b)) factor\<rparr>\<rparr>"

definition ensure_shadow_mem_limit_factor :: "u64 \<Rightarrow> budget \<Rightarrow> budget" where
  "ensure_shadow_mem_limit_factor factor b =
     b\<lparr>bu_mem := (bu_mem b)\<lparr>bd_shadow_limit := saturating_mul (bd_limit (bu_mem b)) factor\<rparr>\<rparr>"

section \<open>Depth\<close>

definition depth_enter :: "unit budget_op" where
  "depth_enter b =
     (case checked_sub (bu_depth b) 1 of
        None \<Rightarrow> (Inl (HostErr EContext ExceededLimit), b)
      | Some d \<Rightarrow> (Inr (), b\<lparr>bu_depth := d\<rparr>))"

definition depth_leave :: "unit budget_op" where
  "depth_leave b =
     (case checked_add (bu_depth b) 1 of
        None \<Rightarrow> (Inl (HostErr EContext InternalError), b)
      | Some d \<Rightarrow> (Inr (), b\<lparr>bu_depth := d\<rparr>))"

definition with_limited_depth :: "'a budget_op \<Rightarrow> 'a budget_op" where
  "with_limited_depth f b =
     (case depth_enter b of
        (Inl e, b1) \<Rightarrow> (Inl e, b1)
      | (Inr _, b1) \<Rightarrow>
          (let (res, b2) = f b1 in
           case depth_leave b2 of
             (Inl e, b3) \<Rightarrow> (Inl e, b3)
           | (Inr _, b3) \<Rightarrow> (res, b3)))"

section \<open>Memory of the Wasm machine\<close>

text \<open>\<open>None\<close> is the error \<open>OutOfBoundsGrowth\<close>, in which every failure ends.\<close>

definition memory_growing :: "u64 \<Rightarrow> u64 \<Rightarrow> u64 option \<Rightarrow> budget \<Rightarrow> unit option \<times> budget" where
  "memory_growing current desired maximum b =
     (let host_limit = get_remaining (bu_mem b);
          delta = saturating_sub desired current;
          allow = (if host_limit < delta then False
                   else case maximum of Some mx \<Rightarrow> desired \<le> mx | None \<Rightarrow> True)
      in if allow then
           (case charge MemAlloc (Some delta) b of
              (Inl _, b1) \<Rightarrow> (None, b1)
            | (Inr _, b1) \<Rightarrow> (Some (), b1))
         else (None, b))"

end
