(* ===== verification/Budget_Modes.thy ===== *)
theory Budget_Modes
  imports Budget_Props
begin

text \<open>
  Metered computations as the host composes them: charges, sequences that stop at the first error,
  closures in shadow mode and under the depth limiter. Shadow mode cannot be observed, the depth
  is balanced, and fuel that was handed to the Wasm machine can be charged when it comes back.
\<close>

lemma checked_sub_add: "checked_sub a b = Some c \<Longrightarrow> checked_add c b = Some a"
  by (auto simp: checked_add_eq_Some_iff checked_sub_def unat_sub word_le_nat_alt split: if_splits)

section \<open>Metered computations\<close>

datatype metered =
    Pass
  | Charges cost_type u64 "u64 option"
  | Seq metered metered
  | Shadowed metered
  | Limited metered

fun exec :: "metered \<Rightarrow> unit budget_op" where
  "exec Pass b = (Inr (), b)"
| "exec (Charges ty n input) b = bulk_charge ty n input b"
| "exec (Seq p q) b =
     (case exec p b of
        (Inl e, b') \<Rightarrow> (Inl e, b')
      | (Inr _, b') \<Rightarrow> exec q b')"
| "exec (Shadowed p) b = (Inr (), with_shadow_mode (exec p) b)"
| "exec (Limited p) b = with_limited_depth (exec p) b"

fun erase :: "metered \<Rightarrow> metered" where
  "erase (Seq p q) = Seq (erase p) (erase q)"
| "erase (Shadowed p) = Pass"
| "erase (Limited p) = Limited (erase p)"
| "erase p = p"

text \<open>What is left of a budget without its shadow counts.\<close>

definition forget_shadow :: "budget \<Rightarrow> budget" where
  "forget_shadow b =
     b\<lparr>bu_cpu := (bu_cpu b)\<lparr>bd_shadow_total := 0\<rparr>, bu_mem := (bu_mem b)\<lparr>bd_shadow_total := 0\<rparr>\<rparr>"

lemma forget_eq_iff:
  "forget_shadow b = forget_shadow b' \<longleftrightarrow>
     (bu_cpu b)\<lparr>bd_shadow_total := 0\<rparr> = (bu_cpu b')\<lparr>bd_shadow_total := 0\<rparr> \<and>
     (bu_mem b)\<lparr>bd_shadow_total := 0\<rparr> = (bu_mem b')\<lparr>bd_shadow_total := 0\<rparr> \<and>
     bu_tracker b = bu_tracker b' \<and> bu_shadow b = bu_shadow b' \<and> bu_depth b = bu_depth b'"
  by (cases b; cases b') (auto simp: forget_shadow_def)

lemma dimension_eq_iff:
  fixes d d' :: budget_dimension
  shows "d\<lparr>bd_shadow_total := 0\<rparr> = d'\<lparr>bd_shadow_total := 0\<rparr> \<longleftrightarrow>
     bd_models d = bd_models d' \<and> bd_limit d = bd_limit d' \<and> bd_total d = bd_total d' \<and>
     bd_shadow_limit d = bd_shadow_limit d'"
  by (cases d; cases d') auto

lemma forget_shadow_flag:
  "forget_shadow (b\<lparr>bu_shadow := s\<rparr>) = (forget_shadow b)\<lparr>bu_shadow := s\<rparr>"
  "forget_shadow (b\<lparr>bu_depth := k\<rparr>) = (forget_shadow b)\<lparr>bu_depth := k\<rparr>"
  by (simp_all add: forget_shadow_def)

section \<open>Charges in shadow mode\<close>

lemma charge_in_shadow:
  assumes "bu_shadow b"
  shows "forget_shadow (snd (bulk_charge ty n input b)) = forget_shadow b"
proof -
  obtain ca cpu where cpu: "dimension_charge ty n input True (bu_cpu b) = (ca, cpu)"
    by (cases "dimension_charge ty n input True (bu_cpu b)")
  obtain ma mem where mem: "dimension_charge ty n input True (bu_mem b) = (ma, mem)"
    by (cases "dimension_charge ty n input True (bu_mem b)")
  have d: "cpu\<lparr>bd_shadow_total := 0\<rparr> = (bu_cpu b)\<lparr>bd_shadow_total := 0\<rparr>"
    "mem\<lparr>bd_shadow_total := 0\<rparr> = (bu_mem b)\<lparr>bd_shadow_total := 0\<rparr>"
    using cpu mem by (auto simp: dimension_charge_def Let_def)
  show ?thesis
    unfolding bulk_charge_def budget_charge_def Let_def using assms cpu mem d
    by (cases "check_budget_limit True cpu") (simp_all add: forget_eq_iff)
qed

lemma track_charge_split:
  assumes "bu_tracker b' = bu_tracker b" and "track_charge ty n input b = (r, b1)"
  shows "b1 = b\<lparr>bu_tracker := bu_tracker b1\<rparr>"
    and "track_charge ty n input b' = (r, b'\<lparr>bu_tracker := bu_tracker b1\<rparr>)"
proof -
  let ?i = "ct_inputs (bt_cost_trackers (bu_tracker b) ty)"
  consider "?i = None" "input = None" | k where "?i = None" "input = Some k"
    | t k where "?i = Some t" "input = Some k" | t where "?i = Some t" "input = None"
    by (cases ?i; cases input) auto
  then have "b1 = b\<lparr>bu_tracker := bu_tracker b1\<rparr> \<and>
      track_charge ty n input b' = (r, b'\<lparr>bu_tracker := bu_tracker b1\<rparr>)"
    using assms by cases (auto simp: track_charge_def update_cost_tracker_def Let_def)
  then show "b1 = b\<lparr>bu_tracker := bu_tracker b1\<rparr>"
    and "track_charge ty n input b' = (r, b'\<lparr>bu_tracker := bu_tracker b1\<rparr>)" by blast+
qed

lemma dimension_charge_same:
  assumes "d\<lparr>bd_shadow_total := 0\<rparr> = d'\<lparr>bd_shadow_total := 0\<rparr>"
    and "dimension_charge ty n input False d = (a, e)"
  obtains e' where "dimension_charge ty n input False d' = (a, e')"
    and "e\<lparr>bd_shadow_total := 0\<rparr> = e'\<lparr>bd_shadow_total := 0\<rparr>"
    and "check_budget_limit False e' = check_budget_limit False e"
  using assms unfolding dimension_eq_iff
  by (auto simp: dimension_charge_def check_budget_limit_def Let_def)

lemma charge_same:
  assumes same: "forget_shadow b = forget_shadow b'" and sh: "\<not> bu_shadow b"
  shows "fst (bulk_charge ty n input b) = fst (bulk_charge ty n input b') \<and>
    forget_shadow (snd (bulk_charge ty n input b)) = forget_shadow (snd (bulk_charge ty n input b')) \<and>
    \<not> bu_shadow (snd (bulk_charge ty n input b))"
proof -
  have eq: "(bu_cpu b)\<lparr>bd_shadow_total := 0\<rparr> = (bu_cpu b')\<lparr>bd_shadow_total := 0\<rparr>"
    "(bu_mem b)\<lparr>bd_shadow_total := 0\<rparr> = (bu_mem b')\<lparr>bd_shadow_total := 0\<rparr>"
    "bu_tracker b' = bu_tracker b" "bu_shadow b' = bu_shadow b" "bu_depth b' = bu_depth b"
    using same by (auto simp: forget_eq_iff)
  obtain r b1 where run: "track_charge ty n input b = (r, b1)" by (cases "track_charge ty n input b")
  define tr where "tr = bu_tracker b1"
  have t: "track_charge ty n input b = (r, b\<lparr>bu_tracker := tr\<rparr>)"
    "track_charge ty n input b' = (r, b'\<lparr>bu_tracker := tr\<rparr>)"
    using track_charge_split [OF eq(3) run] run by (simp_all add: tr_def)
  obtain ca cpu where cpu: "dimension_charge ty n input False (bu_cpu b) = (ca, cpu)"
    by (cases "dimension_charge ty n input False (bu_cpu b)")
  obtain ma mem where mem: "dimension_charge ty n input False (bu_mem b) = (ma, mem)"
    by (cases "dimension_charge ty n input False (bu_mem b)")
  obtain cpu' where c: "dimension_charge ty n input False (bu_cpu b') = (ca, cpu')"
      "cpu\<lparr>bd_shadow_total := 0\<rparr> = cpu'\<lparr>bd_shadow_total := 0\<rparr>"
      "check_budget_limit False cpu' = check_budget_limit False cpu"
    by (rule dimension_charge_same [OF eq(1) cpu])
  obtain mem' where m: "dimension_charge ty n input False (bu_mem b') = (ma, mem')"
      "mem\<lparr>bd_shadow_total := 0\<rparr> = mem'\<lparr>bd_shadow_total := 0\<rparr>"
      "check_budget_limit False mem' = check_budget_limit False mem"
    by (rule dimension_charge_same [OF eq(2) mem])
  show ?thesis
    unfolding bulk_charge_def budget_charge_def Let_def using sh eq cpu mem c m t
    by (cases r; cases "check_budget_limit False cpu")
      (simp_all add: forget_eq_iff update_cost_tracker_def)
qed

section \<open>Computations in shadow mode\<close>

lemma with_shadow_mode_forget:
  assumes "\<And>b. bu_shadow b \<Longrightarrow> forget_shadow (snd (f b)) = forget_shadow b"
  shows "forget_shadow (with_shadow_mode f b) = forget_shadow b"
proof -
  have "forget_shadow (snd (f (b\<lparr>bu_shadow := True\<rparr>))) = forget_shadow (b\<lparr>bu_shadow := True\<rparr>)"
    by (rule assms) simp
  then show ?thesis
    by (auto simp: with_shadow_mode_def Let_def forget_eq_iff split: sum.split)
qed

lemma exec_in_shadow:
  "bu_shadow b \<Longrightarrow> forget_shadow (snd (exec p b)) = forget_shadow b"
proof (induction p arbitrary: b)
  case Pass
  then show ?case by simp
next
  case (Charges ty n input)
  then show ?case by (simp add: charge_in_shadow)
next
  case (Seq p q)
  obtain r b1 where r: "exec p b = (r, b1)" by (cases "exec p b")
  have f: "forget_shadow b1 = forget_shadow b" using Seq.IH(1) [OF Seq.prems] r by simp
  then have "bu_shadow b1" using Seq.prems by (simp add: forget_eq_iff)
  from Seq.IH(2) [OF this] show ?case using r f by (cases r) simp_all
next
  case (Shadowed p)
  have "forget_shadow (with_shadow_mode (exec p) b) = forget_shadow b"
    by (rule with_shadow_mode_forget) (rule Shadowed.IH)
  then show ?case by simp
next
  case (Limited p)
  show ?case
  proof (cases "checked_sub (bu_depth b) 1")
    case None
    then show ?thesis by (simp add: with_limited_depth_def depth_enter_def)
  next
    case (Some k)
    let ?b1 = "b\<lparr>bu_depth := k\<rparr>"
    obtain r b2 where r: "exec p ?b1 = (r, b2)" by (cases "exec p ?b1")
    have f: "forget_shadow b2 = forget_shadow ?b1" using Limited.IH [of ?b1] Limited.prems r by simp
    then have "bu_depth b2 = k" by (simp add: forget_eq_iff)
    moreover have "checked_add k 1 = Some (bu_depth b)" by (rule checked_sub_add [OF Some])
    ultimately show ?thesis
      using Some r f
      by (simp add: with_limited_depth_def depth_enter_def depth_leave_def forget_eq_iff)
  qed
qed

text \<open>Outside of shadow mode, the computations that run in it make no difference.\<close>

lemma exec_erase:
  assumes "forget_shadow b = forget_shadow b'" and "\<not> bu_shadow b"
  shows "fst (exec p b) = fst (exec (erase p) b') \<and>
    forget_shadow (snd (exec p b)) = forget_shadow (snd (exec (erase p) b')) \<and>
    \<not> bu_shadow (snd (exec p b))"
  using assms
proof (induction p arbitrary: b b')
  case Pass
  then show ?case by simp
next
  case (Charges ty n input)
  then show ?case using charge_same [OF Charges] by simp
next
  case (Seq p q)
  obtain r b1 where r: "exec p b = (r, b1)" by (cases "exec p b")
  obtain r' b1' where r': "exec (erase p) b' = (r', b1')" by (cases "exec (erase p) b'")
  have "r' = r" "forget_shadow b1 = forget_shadow b1'" "\<not> bu_shadow b1"
    using Seq.IH(1) [OF Seq.prems] r r' by simp_all
  with Seq.IH(2) [of b1 b1'] show ?case using r r' by (cases r) simp_all
next
  case (Shadowed p)
  have "forget_shadow (with_shadow_mode (exec p) b) = forget_shadow b"
    by (rule with_shadow_mode_forget) (rule exec_in_shadow)
  moreover from this have "\<not> bu_shadow (with_shadow_mode (exec p) b)"
    using Shadowed.prems by (simp add: forget_eq_iff)
  ultimately show ?case using Shadowed.prems by simp
next
  case (Limited p)
  have d: "bu_depth b' = bu_depth b" using Limited.prems by (simp add: forget_eq_iff)
  show ?case
  proof (cases "checked_sub (bu_depth b) 1")
    case None
    then show ?thesis using Limited.prems d by (simp add: with_limited_depth_def depth_enter_def)
  next
    case (Some k)
    let ?b1 = "b\<lparr>bu_depth := k\<rparr>" and ?b1' = "b'\<lparr>bu_depth := k\<rparr>"
    obtain r b2 where r: "exec p ?b1 = (r, b2)" by (cases "exec p ?b1")
    obtain r' b2' where r': "exec (erase p) ?b1' = (r', b2')" by (cases "exec (erase p) ?b1'")
    have "forget_shadow ?b1 = forget_shadow ?b1'" "\<not> bu_shadow ?b1"
      using Limited.prems by (simp_all add: forget_shadow_flag)
    from Limited.IH [OF this] have f: "r' = r" "forget_shadow b2 = forget_shadow b2'" "\<not> bu_shadow b2"
      using r r' by simp_all
    then have "bu_depth b2' = bu_depth b2" by (simp add: forget_eq_iff)
    then show ?thesis
      using Some r r' f d
      by (simp add: with_limited_depth_def depth_enter_def depth_leave_def forget_eq_iff split: option.split)
  qed
qed

text \<open>
  C29. Shadow mode cannot be observed: a metered computation gives the same result, and the same budget but
  for the shadow counts, when everything it runs in shadow mode is left out.
\<close>

theorem shadow_unobservable:
  assumes "\<not> bu_shadow b"
  shows "fst (exec p b) = fst (exec (erase p) b) \<and>
    forget_shadow (snd (exec p b)) = forget_shadow (snd (exec (erase p) b))"
  using exec_erase [OF refl assms] by blast+

section \<open>Depth\<close>

lemma charge_depth: "bu_depth (snd (bulk_charge ty n input b)) = bu_depth b"
proof (cases "bu_shadow b")
  case True
  from charge_in_shadow [OF this] show ?thesis by (simp add: forget_eq_iff)
next
  case False
  obtain r b1 where run: "track_charge ty n input b = (r, b1)" by (cases "track_charge ty n input b")
  have d: "bu_depth b1 = bu_depth b"
    by (subst track_charge_split(1) [OF refl run]) simp
  obtain ca cpu where cpu: "dimension_charge ty n input False (bu_cpu b1) = (ca, cpu)"
    by (cases "dimension_charge ty n input False (bu_cpu b1)")
  obtain ma mem where mem: "dimension_charge ty n input False (bu_mem b1) = (ma, mem)"
    by (cases "dimension_charge ty n input False (bu_mem b1)")
  show ?thesis
    unfolding bulk_charge_def budget_charge_def Let_def using False run d cpu mem
    by (cases r; cases "check_budget_limit False cpu") simp_all
qed

text \<open>A computation that enters a level leaves it again, also when it fails.\<close>

lemma limited_run:
  assumes "exec p (b\<lparr>bu_depth := k\<rparr>) = (r, b2)" and "checked_sub (bu_depth b) 1 = Some k"
    and "bu_depth b2 = k"
  shows "exec (Limited p) b = (r, b2\<lparr>bu_depth := bu_depth b\<rparr>)"
  using assms checked_sub_add [OF assms(2)]
  by (simp add: with_limited_depth_def depth_enter_def depth_leave_def)

lemma exec_depth: "bu_depth (snd (exec p b)) = bu_depth b"
proof (induction p arbitrary: b)
  case (Seq p q)
  obtain r b1 where r: "exec p b = (r, b1)" by (cases "exec p b")
  with Seq.IH(1) [of b] Seq.IH(2) [of b1] show ?case by (cases r) simp_all
next
  case (Shadowed p)
  have "bu_depth (snd (exec p (b\<lparr>bu_shadow := True\<rparr>))) = bu_depth b"
    using Shadowed.IH [of "b\<lparr>bu_shadow := True\<rparr>"] by simp
  then show ?case by (auto simp: with_shadow_mode_def Let_def split: sum.split)
next
  case (Limited p)
  show ?case
  proof (cases "checked_sub (bu_depth b) 1")
    case None
    then show ?thesis by (simp add: with_limited_depth_def depth_enter_def)
  next
    case (Some k)
    obtain r b2 where r: "exec p (b\<lparr>bu_depth := k\<rparr>) = (r, b2)" by (cases "exec p (b\<lparr>bu_depth := k\<rparr>)")
    moreover have "bu_depth b2 = k" using Limited.IH [of "b\<lparr>bu_depth := k\<rparr>"] r by simp
    ultimately show ?thesis using limited_run [OF _ Some] by simp
  qed
qed (simp_all add: charge_depth)

fun nest :: "nat \<Rightarrow> metered \<Rightarrow> metered" where
  "nest 0 p = p"
| "nest (Suc n) p = Limited (nest n p)"

text \<open>
  The depth limiter is exact and balanced: a computation under \<open>n\<close> levels of it runs if and only if
  \<open>n\<close> levels are left, its innermost part runs with that many levels less, and whatever its result all
  levels are given back; otherwise it fails with \<open>ExceededLimit\<close> and changes nothing.
\<close>

theorem depth_limit_is_exact:
  "exec (nest n p) b =
     (if n \<le> unat (bu_depth b) then
        (let (r, b') = exec p (b\<lparr>bu_depth := bu_depth b - of_nat n\<rparr>)
         in (r, b'\<lparr>bu_depth := bu_depth b\<rparr>))
      else (Inl (HostErr EContext ExceededLimit), b))"
proof (induction n arbitrary: b)
  case 0
  have "(snd (exec p b))\<lparr>bu_depth := bu_depth b\<rparr> = snd (exec p b)"
    using exec_depth [of p b] by (metis budget.surjective budget.update_convs(5) budget.select_convs(5))
  then show ?case by (auto simp: Let_def split: prod.split)
next
  case (Suc n)
  show ?case
  proof (cases "checked_sub (bu_depth b) 1")
    case None
    then have "unat (bu_depth b) = 0" by (simp add: checked_sub_def word_le_nat_alt split: if_splits)
    then show ?thesis using None by (simp add: with_limited_depth_def depth_enter_def)
  next
    case (Some k)
    then have k: "k = bu_depth b - 1" "1 \<le> bu_depth b" by (auto simp: checked_sub_def split: if_splits)
    then have uk: "unat (bu_depth b) = Suc (unat k)"
      using unat_sub [of 1 "bu_depth b"] by (simp add: word_le_nat_alt)
    obtain r b2 where r: "exec (nest n p) (b\<lparr>bu_depth := k\<rparr>) = (r, b2)"
      by (cases "exec (nest n p) (b\<lparr>bu_depth := k\<rparr>)")
    have "bu_depth b2 = k" using exec_depth [of "nest n p" "b\<lparr>bu_depth := k\<rparr>"] r by simp
    note run = limited_run [OF r Some this]
    show ?thesis
    proof (cases "n \<le> unat k")
      case True
      with Suc.IH [of "b\<lparr>bu_depth := k\<rparr>"] r uk run show ?thesis
        by (auto simp: k(1) algebra_simps split: prod.splits)
    next
      case False
      with Suc.IH [of "b\<lparr>bu_depth := k\<rparr>"] r uk run show ?thesis by simp
    qed
  qed
qed

section \<open>Fuel\<close>

lemma min_div: "(0::nat) < c \<Longrightarrow> f \<le> q div c \<longleftrightarrow> c * f \<le> q"
  by (simp add: less_eq_div_iff_mult_less_eq mult.commute)

text \<open>
  The fuel handed to the Wasm machine is what the budget can pay for: where instructions cost no
  memory and at least one unit of CPU each, the charge for \<open>fuel\<close> instructions succeeds if and only if
  \<open>fuel\<close> is at most the fuel remaining.
\<close>

theorem fuel_is_what_can_be_charged:
  assumes ok: "budget_ok b" "\<not> bu_shadow b"
    and cpu: "bd_total (bu_cpu b) \<le> bd_limit (bu_cpu b)" "unat (bd_limit (bu_cpu b)) < U64_MAX"
    and mem: "bd_total (bu_mem b) \<le> bd_limit (bu_mem b)"
    and models: "1 \<le> const_term (bd_models (bu_cpu b) WasmInsnExec)"
      "const_term (bd_models (bu_mem b) WasmInsnExec) = 0"
  shows "fst (bulk_charge WasmInsnExec fuel None b) = Inr () \<longleftrightarrow> fuel \<le> get_wasmi_fuel_remaining b"
proof -
  let ?c = "const_term (bd_models (bu_cpu b) WasmInsnExec)"
  let ?call = "(WasmInsnExec, fuel, None) :: metered_charge"
  have c: "0 < unat ?c" using models(1) by (simp add: word_le_nat_alt)
  have m: "within (bu_mem b) (cost (bd_models (bu_mem b)) ?call)"
    using mem models(2) by (simp add: within_def unat_evaluate_None word_le_nat_alt)
  have w: "within (bu_cpu b) (cost (bd_models (bu_cpu b)) ?call) \<longleftrightarrow>
      unat (bd_total (bu_cpu b)) + unat ?c * unat fuel \<le> unat (bd_limit (bu_cpu b))"
    using cpu(2) by (auto simp: within_def unat_evaluate_None)
  have "max ?c 1 = ?c" using models(1) by simp
  then have "unat (get_wasmi_fuel_remaining b) =
      (unat (bd_limit (bu_cpu b)) - unat (bd_total (bu_cpu b))) div unat ?c"
    by (simp add: get_wasmi_fuel_remaining_def get_remaining_def Let_def unat_div unat_saturating_sub)
  then have f: "fuel \<le> get_wasmi_fuel_remaining b \<longleftrightarrow>
      unat (bd_total (bu_cpu b)) + unat ?c * unat fuel \<le> unat (bd_limit (bu_cpu b))"
    using cpu(1) min_div [OF c] by (simp add: word_le_nat_alt le_diff_conv2 add.commute)
  have "well_formed ?call" by simp
  from budget_charge_outcome [OF ok(1) this ok(2) refl] show ?thesis
    unfolding f using m w by (auto simp: bulk_charge_def split: if_splits)
qed

text \<open>A growth of the Wasm memory that is allowed is within the limits and has been paid for.\<close>

lemma memory_growing_allowed:
  assumes "memory_growing current desired maximum b = (Some (), b')"
  shows "unat desired - unat current \<le> unat (get_remaining (bu_mem b))"
    and "\<And>mx. maximum = Some mx \<Longrightarrow> desired \<le> mx"
    and "bulk_charge MemAlloc 1 (Some (saturating_sub desired current)) b = (Inr (), b')"
  using assms
  by (auto simp: memory_growing_def Let_def charge_def bulk_charge_def word_le_nat_alt not_less
      unat_saturating_sub word_less_nat_alt split: if_splits option.splits prod.splits sum.splits)

section \<open>Examples\<close>

theorem shadow_unobservable_witness:
  "fst (exec (Seq (Shadowed (Charges MemCpy 1 (Some 8))) (Charges MemAlloc 1 (Some 8))) budget_default) =
     fst (exec (Seq Pass (Charges MemAlloc 1 (Some 8))) budget_default)"
  using shadow_unobservable [of budget_default
      "Seq (Shadowed (Charges MemCpy 1 (Some 8))) (Charges MemAlloc 1 (Some 8))"]
  by simp

theorem fuel_is_what_can_be_charged_witness:
  "fst (bulk_charge WasmInsnExec 25000000 None budget_default) = Inr ()"
  using fuel_is_what_can_be_charged [of budget_default 25000000]
  by (simp add: budget_ok_default get_wasmi_fuel_remaining_def get_remaining_def saturating_sub_def)

end
