(* ===== verification/Fees.thy ===== *)
theory Fees
  imports Prelude
begin

text \<open>
  The fee protocol (\<open>fees.rs\<close>): the resource fee of a transaction, the write fee as a function of
  the bucket list size, and the rent of ledger entry changes. \<open>i64\<close> and \<open>i128\<close> values are
  integers, every saturating operation clamps to the range written out; \<open>u32\<close> values are
  words. \<open>num_integer::div_ceil\<close> is a library function and the parameter \<open>dc\<close> of the
  definitions: \<open>ceiling_division dc\<close> is its documented behaviour.
\<close>

section \<open>Definitions\<close>

definition i64_max :: int where "i64_max = 2 ^ 63 - 1"
definition i64_min :: int where "i64_min = - (2 ^ 63)"

definition sat64 :: "int \<Rightarrow> int" where
  "sat64 x = (if x < i64_min then i64_min else if i64_max < x then i64_max else x)"

definition sat128 :: "int \<Rightarrow> int" where
  "sat128 x = (if x < - (2 ^ 127) then - (2 ^ 127) else if 2 ^ 127 - 1 < x then 2 ^ 127 - 1 else x)"

definition sadd64 :: "int \<Rightarrow> int \<Rightarrow> int" where "sadd64 a b = sat64 (a + b)"
definition ssub64 :: "int \<Rightarrow> int \<Rightarrow> int" where "ssub64 a b = sat64 (a - b)"
definition smul64 :: "int \<Rightarrow> int \<Rightarrow> int" where "smul64 a b = sat64 (a * b)"
definition smul128 :: "int \<Rightarrow> int \<Rightarrow> int" where "smul128 a b = sat128 (a * b)"

definition TX_BASE_RESULT_SIZE :: u32 where "TX_BASE_RESULT_SIZE = 300"
definition TTL_ENTRY_SIZE :: u32 where "TTL_ENTRY_SIZE = 48"
definition INSTRUCTIONS_INCREMENT :: int where "INSTRUCTIONS_INCREMENT = 10000"
definition DATA_SIZE_1KB_INCREMENT :: int where "DATA_SIZE_1KB_INCREMENT = 1024"
definition MINIMUM_WRITE_FEE_PER_1KB :: int where "MINIMUM_WRITE_FEE_PER_1KB = 1000"

record transaction_resources =
  tr_instructions :: u32
  tr_read_entries :: u32
  tr_write_entries :: u32
  tr_read_bytes :: u32
  tr_write_bytes :: u32
  tr_contract_events_size_bytes :: u32
  tr_transaction_size_bytes :: u32

record fee_configuration =
  fee_per_instruction_increment :: int
  fee_per_read_entry :: int
  fee_per_write_entry :: int
  fee_per_read_1kb :: int
  fee_per_write_1kb :: int
  fee_per_historical_1kb :: int
  fee_per_contract_event_1kb :: int
  fee_per_transaction_size_1kb :: int

record write_fee_configuration =
  bucket_list_target_size_bytes :: int
  write_fee_1kb_bucket_list_low :: int
  write_fee_1kb_bucket_list_high :: int
  bucket_list_write_fee_growth_factor :: u32

record rent_change =
  rc_is_persistent :: bool
  rc_old_size_bytes :: u32
  rc_new_size_bytes :: u32
  rc_old_live_until_ledger :: u32
  rc_new_live_until_ledger :: u32

record rent_fee_configuration =
  rent_fee_per_write_1kb :: int
  rent_fee_per_write_entry :: int
  persistent_rent_rate_denominator :: int
  temporary_rent_rate_denominator :: int

definition compute_fee_per_increment :: "(int \<Rightarrow> int \<Rightarrow> int) \<Rightarrow> u32 \<Rightarrow> int \<Rightarrow> int \<Rightarrow> int" where
  "compute_fee_per_increment dc resource_value fee_rate increment =
     dc (smul64 (uint resource_value) fee_rate) (max increment 1)"

definition compute_transaction_resource_fee ::
  "(int \<Rightarrow> int \<Rightarrow> int) \<Rightarrow> transaction_resources \<Rightarrow> fee_configuration \<Rightarrow> int \<times> int" where
  "compute_transaction_resource_fee dc r c =
     (let compute_fee = compute_fee_per_increment dc (tr_instructions r)
            (fee_per_instruction_increment c) INSTRUCTIONS_INCREMENT;
          ledger_read_entry_fee = smul64 (fee_per_read_entry c)
            (uint (saturating_add (tr_read_entries r) (tr_write_entries r)));
          ledger_write_entry_fee = smul64 (fee_per_write_entry c) (uint (tr_write_entries r));
          ledger_read_bytes_fee = compute_fee_per_increment dc (tr_read_bytes r)
            (fee_per_read_1kb c) DATA_SIZE_1KB_INCREMENT;
          ledger_write_bytes_fee = compute_fee_per_increment dc (tr_write_bytes r)
            (fee_per_write_1kb c) DATA_SIZE_1KB_INCREMENT;
          historical_fee = compute_fee_per_increment dc
            (saturating_add (tr_transaction_size_bytes r) TX_BASE_RESULT_SIZE)
            (fee_per_historical_1kb c) DATA_SIZE_1KB_INCREMENT;
          events_fee = compute_fee_per_increment dc (tr_contract_events_size_bytes r)
            (fee_per_contract_event_1kb c) DATA_SIZE_1KB_INCREMENT;
          bandwidth_fee = compute_fee_per_increment dc (tr_transaction_size_bytes r)
            (fee_per_transaction_size_1kb c) DATA_SIZE_1KB_INCREMENT;
          refundable_fee = events_fee;
          non_refundable_fee =
            sadd64 (sadd64 (sadd64 (sadd64 (sadd64 (sadd64 compute_fee ledger_read_entry_fee)
              ledger_write_entry_fee) ledger_read_bytes_fee) ledger_write_bytes_fee)
              historical_fee) bandwidth_fee
      in (non_refundable_fee, refundable_fee))"

text \<open>Clamping to the non-negative \<open>i64\<close>, invalid values to the maximum.\<close>

definition clamp_fee :: "int \<Rightarrow> int" where
  "clamp_fee x = (if x < 0 then i64_max else if i64_max < x then i64_max else x)"

definition compute_write_fee_per_1kb ::
  "(int \<Rightarrow> int \<Rightarrow> int) \<Rightarrow> int \<Rightarrow> write_fee_configuration \<Rightarrow> int" where
  "compute_write_fee_per_1kb dc bucket_list_size_bytes c =
     (let fee_rate_multiplier =
            clamp_fee (ssub64 (write_fee_1kb_bucket_list_high c) (write_fee_1kb_bucket_list_low c));
          target = bucket_list_target_size_bytes c;
          write_fee_per_1kb =
            (if bucket_list_size_bytes < target
             then sadd64
                    (clamp_fee (dc (smul128 fee_rate_multiplier bucket_list_size_bytes) (max target 1)))
                    (write_fee_1kb_bucket_list_low c)
             else
               (let after = ssub64 bucket_list_size_bytes target;
                    post_target_fee =
                      clamp_fee (dc (smul128 (smul128 fee_rate_multiplier after)
                                       (uint (bucket_list_write_fee_growth_factor c)))
                                  (max target 1))
                in sadd64 (write_fee_1kb_bucket_list_high c) post_target_fee))
      in max write_fee_per_1kb MINIMUM_WRITE_FEE_PER_1KB)"

definition exclusive_ledger_diff :: "u32 \<Rightarrow> u32 \<Rightarrow> u32 option" where
  "exclusive_ledger_diff lo hi = checked_sub hi lo"

definition inclusive_ledger_diff :: "u32 \<Rightarrow> u32 \<Rightarrow> u32 option" where
  "inclusive_ledger_diff lo hi =
     map_option (\<lambda>diff. saturating_add diff 1) (exclusive_ledger_diff lo hi)"

definition entry_is_new :: "rent_change \<Rightarrow> bool" where
  "entry_is_new e \<longleftrightarrow> rc_old_size_bytes e = 0 \<and> rc_old_live_until_ledger e = 0"

definition extension_ledgers :: "rent_change \<Rightarrow> u32 \<Rightarrow> u32 option" where
  "extension_ledgers e current_ledger =
     (let ledger_before_extension =
            (if entry_is_new e then saturating_sub current_ledger 1 else rc_old_live_until_ledger e)
      in exclusive_ledger_diff ledger_before_extension (rc_new_live_until_ledger e))"

definition prepaid_ledgers :: "rent_change \<Rightarrow> u32 \<Rightarrow> u32 option" where
  "prepaid_ledgers e current_ledger =
     (if entry_is_new e then None
      else inclusive_ledger_diff current_ledger (rc_old_live_until_ledger e))"

definition size_increase :: "rent_change \<Rightarrow> u32 option" where
  "size_increase e = checked_sub (rc_new_size_bytes e) (rc_old_size_bytes e)"

definition rent_fee_for_size_and_ledgers ::
  "(int \<Rightarrow> int \<Rightarrow> int) \<Rightarrow> bool \<Rightarrow> u32 \<Rightarrow> u32 \<Rightarrow> rent_fee_configuration \<Rightarrow> int" where
  "rent_fee_for_size_and_ledgers dc is_persistent entry_size rent_ledgers c =
     (let num = smul64 (smul64 (uint entry_size) (rent_fee_per_write_1kb c)) (uint rent_ledgers);
          storage_coef = (if is_persistent then persistent_rent_rate_denominator c
                          else temporary_rent_rate_denominator c);
          denom = smul64 DATA_SIZE_1KB_INCREMENT storage_coef
      in dc num (max denom 1))"

definition rent_fee_per_entry_change ::
  "(int \<Rightarrow> int \<Rightarrow> int) \<Rightarrow> rent_change \<Rightarrow> rent_fee_configuration \<Rightarrow> u32 \<Rightarrow> int" where
  "rent_fee_per_entry_change dc e c current_ledger =
     (let fee = (case extension_ledgers e current_ledger of
                   None \<Rightarrow> 0
                 | Some rent_ledgers \<Rightarrow>
                     sadd64 0 (rent_fee_for_size_and_ledgers dc (rc_is_persistent e)
                                 (rc_new_size_bytes e) rent_ledgers c))
      in (case (prepaid_ledgers e current_ledger, size_increase e) of
            (Some rent_ledgers, Some entry_size) \<Rightarrow>
              sadd64 fee (rent_fee_for_size_and_ledgers dc (rc_is_persistent e)
                            entry_size rent_ledgers c)
          | _ \<Rightarrow> fee))"

text \<open>The loop over the changed entries: the fee, the number of extended entries and the size
  of their keys so far.\<close>

fun rent_loop ::
  "(int \<Rightarrow> int \<Rightarrow> int) \<Rightarrow> rent_fee_configuration \<Rightarrow> u32 \<Rightarrow> rent_change list \<Rightarrow> int \<times> int \<times> u32 \<Rightarrow>
   int \<times> int \<times> u32" where
  "rent_loop dc c seq [] acc = acc"
| "rent_loop dc c seq (e # es) (fee, extended, bytes) =
     (let fee' = sadd64 fee (rent_fee_per_entry_change dc e c seq)
      in if rc_old_live_until_ledger e < rc_new_live_until_ledger e
         then rent_loop dc c seq es (fee', sadd64 extended 1, saturating_add bytes TTL_ENTRY_SIZE)
         else rent_loop dc c seq es (fee', extended, bytes))"

definition compute_rent_fee ::
  "(int \<Rightarrow> int \<Rightarrow> int) \<Rightarrow> rent_change list \<Rightarrow> rent_fee_configuration \<Rightarrow> u32 \<Rightarrow> int" where
  "compute_rent_fee dc changed_entries c current_ledger_seq =
     (case rent_loop dc c current_ledger_seq changed_entries (0, 0, 0) of
        (fee, extended_entries, key_size) \<Rightarrow>
          sadd64 (sadd64 fee (smul64 (rent_fee_per_write_entry c) extended_entries))
            (compute_fee_per_increment dc key_size (rent_fee_per_write_1kb c) DATA_SIZE_1KB_INCREMENT))"

section \<open>Division rounding up\<close>

definition ceiling_division :: "(int \<Rightarrow> int \<Rightarrow> int) \<Rightarrow> bool" where
  "ceiling_division dc \<longleftrightarrow> (\<forall>x y. 0 < y \<longrightarrow> x \<le> dc x y * y \<and> (dc x y - 1) * y < x)"

definition div_up :: "int \<Rightarrow> int \<Rightarrow> int" where
  "div_up x y = - ((- x) div y)"

lemma ceiling_division_div_up: "ceiling_division div_up"
  unfolding ceiling_division_def
proof (intro allI impI)
  fix x y :: int
  assume y: "0 < y"
  have "- x = (- x) div y * y + (- x) mod y" by simp
  moreover have "0 \<le> (- x) mod y" "(- x) mod y < y" using y by simp_all
  ultimately have "- (((- x) div y) * y) = x + (- x) mod y" by linarith
  then have "div_up x y * y = x + (- x) mod y" by (simp add: div_up_def)
  with y show "x \<le> div_up x y * y \<and> (div_up x y - 1) * y < x"
    by (simp add: left_diff_distrib)
qed

lemma ceiling_mono:
  assumes "ceiling_division dc" and "0 < y" and "x \<le> x'"
  shows "dc x y \<le> dc x' y"
proof -
  have "(dc x y - 1) * y < dc x' y * y"
    using assms unfolding ceiling_division_def by (meson le_less_trans less_le_trans order.trans)
  then have "dc x y - 1 < dc x' y" using assms(2) by simp
  then show ?thesis by simp
qed

lemma ceiling_bounds:
  assumes "ceiling_division dc" and "0 < y"
  shows "0 \<le> x \<Longrightarrow> 0 \<le> dc x y" and "x \<le> b * y \<Longrightarrow> dc x y \<le> b"
proof -
  have d: "x \<le> dc x y * y" "(dc x y - 1) * y < x"
    using assms unfolding ceiling_division_def by blast+
  show "0 \<le> dc x y" if "0 \<le> x"
  proof (rule ccontr)
    assume "\<not> 0 \<le> dc x y"
    then have "dc x y * y < 0" using assms(2) by (simp add: mult_neg_pos)
    with d(1) that show False by linarith
  qed
  show "dc x y \<le> b" if "x \<le> b * y"
  proof -
    have "(dc x y - 1) * y < b * y" using d(2) that by linarith
    then have "dc x y - 1 < b" using assms(2) by simp
    then show ?thesis by simp
  qed
qed

lemma ceiling_zero:
  assumes "ceiling_division dc" and "0 < y"
  shows "dc 0 y = 0"
  using ceiling_bounds(1) [OF assms, of 0] ceiling_bounds(2) [OF assms, of 0 0] by simp

section \<open>Saturation\<close>

lemma sat64_mono: "a \<le> b \<Longrightarrow> sat64 a \<le> sat64 b"
  by (auto simp: sat64_def i64_max_def i64_min_def)

lemma sat64_max: "sat64 a \<le> i64_max"
  by (auto simp: sat64_def i64_max_def i64_min_def)

lemma sat64_nonneg: "0 \<le> a \<Longrightarrow> 0 \<le> sat64 a"
  by (auto simp: sat64_def i64_max_def i64_min_def)

lemma sat64_id: "i64_min \<le> a \<Longrightarrow> a \<le> i64_max \<Longrightarrow> sat64 a = a"
  by (auto simp: sat64_def)

lemma sat128_mono: "a \<le> b \<Longrightarrow> sat128 a \<le> sat128 b"
  by (auto simp: sat128_def)

lemma sat128_nonneg: "0 \<le> a \<Longrightarrow> 0 \<le> sat128 a"
  by (auto simp: sat128_def)

lemma sat128_le: "0 \<le> a \<Longrightarrow> sat128 a \<le> a"
  by (auto simp: sat128_def)

lemma sadd64_mono: "a \<le> a' \<Longrightarrow> b \<le> b' \<Longrightarrow> sadd64 a b \<le> sadd64 a' b'"
  unfolding sadd64_def by (intro sat64_mono) simp

lemma smul64_mono: "0 \<le> a \<Longrightarrow> 0 \<le> b \<Longrightarrow> a \<le> a' \<Longrightarrow> b \<le> b' \<Longrightarrow> smul64 a b \<le> smul64 a' b'"
  unfolding smul64_def by (intro sat64_mono mult_mono) simp_all

lemma smul128_mono: "0 \<le> a \<Longrightarrow> 0 \<le> b \<Longrightarrow> a \<le> a' \<Longrightarrow> b \<le> b' \<Longrightarrow> smul128 a b \<le> smul128 a' b'"
  unfolding smul128_def by (intro sat128_mono mult_mono) simp_all

lemma clamp_mono: "0 \<le> a \<Longrightarrow> a \<le> b \<Longrightarrow> clamp_fee a \<le> clamp_fee b"
  by (auto simp: clamp_fee_def i64_max_def)

lemma clamp_nonneg: "0 \<le> clamp_fee a"
  by (auto simp: clamp_fee_def i64_max_def)

lemma clamp_le: "0 \<le> a \<Longrightarrow> clamp_fee a \<le> a"
  by (auto simp: clamp_fee_def)

lemma uint_saturating_add_mono:
  fixes a b :: u32
  assumes "a \<le> a'" and "b \<le> b'"
  shows "uint (saturating_add a b) \<le> uint (saturating_add a' b')"
  using assms unfolding word_le_def [symmetric] word_le_nat_alt unat_saturating_add by simp

section \<open>Fees grow with what is used\<close>

lemma per_increment_mono:
  assumes "ceiling_division dc" and "0 \<le> rate" and "uint v \<le> uint w"
  shows "compute_fee_per_increment dc v rate i \<le> compute_fee_per_increment dc w rate i"
proof -
  have "smul64 (uint v) rate \<le> smul64 (uint w) rate"
    by (rule smul64_mono) (use assms(2,3) in simp_all)
  then show ?thesis
    unfolding compute_fee_per_increment_def by (intro ceiling_mono [OF assms(1)]) simp
qed

lemma per_increment_nonneg:
  assumes "ceiling_division dc" and "0 \<le> rate"
  shows "0 \<le> compute_fee_per_increment dc v rate i"
proof -
  have "0 \<le> smul64 (uint v) rate"
    unfolding smul64_def by (rule sat64_nonneg) (use assms(2) in simp)
  then show ?thesis
    unfolding compute_fee_per_increment_def by (intro ceiling_bounds(1) [OF assms(1)]) simp
qed

definition sane_fees :: "fee_configuration \<Rightarrow> bool" where
  "sane_fees c \<longleftrightarrow>
     0 \<le> fee_per_instruction_increment c \<and> 0 \<le> fee_per_read_entry c \<and>
     0 \<le> fee_per_write_entry c \<and> 0 \<le> fee_per_read_1kb c \<and> 0 \<le> fee_per_write_1kb c \<and>
     0 \<le> fee_per_historical_1kb c \<and> 0 \<le> fee_per_contract_event_1kb c \<and>
     0 \<le> fee_per_transaction_size_1kb c"

definition resources_le :: "transaction_resources \<Rightarrow> transaction_resources \<Rightarrow> bool" where
  "resources_le r r' \<longleftrightarrow>
     tr_instructions r \<le> tr_instructions r' \<and> tr_read_entries r \<le> tr_read_entries r' \<and>
     tr_write_entries r \<le> tr_write_entries r' \<and> tr_read_bytes r \<le> tr_read_bytes r' \<and>
     tr_write_bytes r \<le> tr_write_bytes r' \<and>
     tr_contract_events_size_bytes r \<le> tr_contract_events_size_bytes r' \<and>
     tr_transaction_size_bytes r \<le> tr_transaction_size_bytes r'"

lemma resource_fee_mono:
  assumes dc: "ceiling_division dc" and c: "sane_fees c" and r: "resources_le r r'"
  shows "fst (compute_transaction_resource_fee dc r c) \<le> fst (compute_transaction_resource_fee dc r' c)"
    and "snd (compute_transaction_resource_fee dc r c) \<le> snd (compute_transaction_resource_fee dc r' c)"
proof -
  have le: "uint a \<le> uint b" if "a \<le> b" for a b :: u32 using that by (simp add: word_le_def)
  note rs = r [unfolded resources_le_def]
  show "snd (compute_transaction_resource_fee dc r c) \<le> snd (compute_transaction_resource_fee dc r' c)"
    using c rs unfolding compute_transaction_resource_fee_def Let_def snd_conv sane_fees_def
    by (intro per_increment_mono [OF dc] le) simp_all
  show "fst (compute_transaction_resource_fee dc r c) \<le> fst (compute_transaction_resource_fee dc r' c)"
    using c rs unfolding compute_transaction_resource_fee_def Let_def fst_conv sane_fees_def
    by (intro sadd64_mono smul64_mono per_increment_mono [OF dc] uint_saturating_add_mono le)
      simp_all
qed

text \<open>A write fee configuration as the network's validation accepts it.\<close>

definition sane_write_fees :: "write_fee_configuration \<Rightarrow> bool" where
  "sane_write_fees c \<longleftrightarrow>
     0 < bucket_list_target_size_bytes c \<and> bucket_list_target_size_bytes c \<le> i64_max \<and>
     0 \<le> write_fee_1kb_bucket_list_low c \<and>
     write_fee_1kb_bucket_list_low c \<le> write_fee_1kb_bucket_list_high c \<and>
     write_fee_1kb_bucket_list_high c \<le> i64_max"

lemma write_multiplier:
  assumes "sane_write_fees c"
  shows "clamp_fee (ssub64 (write_fee_1kb_bucket_list_high c) (write_fee_1kb_bucket_list_low c)) =
    write_fee_1kb_bucket_list_high c - write_fee_1kb_bucket_list_low c"
  using assms by (simp add: sane_write_fees_def clamp_fee_def ssub64_def sat64_def i64_max_def i64_min_def)

definition low_write_fee :: "(int \<Rightarrow> int \<Rightarrow> int) \<Rightarrow> int \<Rightarrow> write_fee_configuration \<Rightarrow> int" where
  "low_write_fee dc n c =
     sadd64 (clamp_fee (dc (smul128 (write_fee_1kb_bucket_list_high c - write_fee_1kb_bucket_list_low c) n)
                          (bucket_list_target_size_bytes c)))
       (write_fee_1kb_bucket_list_low c)"

definition high_write_fee :: "(int \<Rightarrow> int \<Rightarrow> int) \<Rightarrow> int \<Rightarrow> write_fee_configuration \<Rightarrow> int" where
  "high_write_fee dc n c =
     sadd64 (write_fee_1kb_bucket_list_high c)
       (clamp_fee (dc (smul128 (smul128 (write_fee_1kb_bucket_list_high c - write_fee_1kb_bucket_list_low c)
                                 (ssub64 n (bucket_list_target_size_bytes c)))
                         (uint (bucket_list_write_fee_growth_factor c)))
                    (bucket_list_target_size_bytes c)))"

lemma write_fee_split:
  assumes "sane_write_fees c"
  shows "compute_write_fee_per_1kb dc n c =
    max (if n < bucket_list_target_size_bytes c then low_write_fee dc n c else high_write_fee dc n c)
      MINIMUM_WRITE_FEE_PER_1KB"
proof -
  have "max (bucket_list_target_size_bytes c) 1 = bucket_list_target_size_bytes c"
    using assms by (simp add: sane_write_fees_def)
  then show ?thesis
    by (simp add: compute_write_fee_per_1kb_def Let_def write_multiplier [OF assms]
        low_write_fee_def high_write_fee_def)
qed

lemma low_write_fee_mono:
  assumes dc: "ceiling_division dc" and c: "sane_write_fees c" and n: "0 \<le> n" "n \<le> m"
  shows "low_write_fee dc n c \<le> low_write_fee dc m c"
  unfolding low_write_fee_def smul128_def
  using c n by (intro sadd64_mono clamp_mono ceiling_bounds(1) [OF dc] ceiling_mono [OF dc]
      sat128_mono sat128_nonneg mult_left_mono)
    (simp_all add: sane_write_fees_def)

lemma low_write_fee_le:
  assumes dc: "ceiling_division dc" and c: "sane_write_fees c"
    and n: "0 \<le> n" "n \<le> bucket_list_target_size_bytes c"
  shows "low_write_fee dc n c \<le> write_fee_1kb_bucket_list_high c"
proof -
  let ?d = "write_fee_1kb_bucket_list_high c - write_fee_1kb_bucket_list_low c"
  let ?t = "bucket_list_target_size_bytes c"
  have t: "0 < ?t" "0 \<le> ?d" and hi: "write_fee_1kb_bucket_list_high c \<le> i64_max"
    "0 \<le> write_fee_1kb_bucket_list_low c"
    using c by (simp_all add: sane_write_fees_def)
  have nn: "0 \<le> smul128 ?d n" using t n by (simp add: smul128_def sat128_nonneg)
  have "smul128 ?d n \<le> ?d * n" unfolding smul128_def using t n by (intro sat128_le) simp
  also have "\<dots> \<le> ?d * ?t" using t n by (intro mult_left_mono)
  finally have "dc (smul128 ?d n) ?t \<le> ?d" by (rule ceiling_bounds(2) [OF dc t(1)])
  moreover have "clamp_fee (dc (smul128 ?d n) ?t) \<le> dc (smul128 ?d n) ?t"
    by (rule clamp_le [OF ceiling_bounds(1) [OF dc t(1) nn]])
  ultimately have "clamp_fee (dc (smul128 ?d n) ?t) + write_fee_1kb_bucket_list_low c
      \<le> write_fee_1kb_bucket_list_high c" by simp
  then have "low_write_fee dc n c \<le> sat64 (write_fee_1kb_bucket_list_high c)"
    unfolding low_write_fee_def sadd64_def by (rule sat64_mono)
  also have "\<dots> = write_fee_1kb_bucket_list_high c"
    using hi t(2) by (intro sat64_id) (simp_all add: i64_min_def)
  finally show ?thesis .
qed

lemma high_write_fee_mono:
  assumes dc: "ceiling_division dc" and c: "sane_write_fees c"
    and n: "bucket_list_target_size_bytes c \<le> n" "n \<le> m"
  shows "high_write_fee dc n c \<le> high_write_fee dc m c"
  unfolding high_write_fee_def smul128_def ssub64_def
  using c n by (intro sadd64_mono clamp_mono ceiling_bounds(1) [OF dc] ceiling_mono [OF dc]
      sat128_mono sat128_nonneg mult_left_mono mult_right_mono mult_nonneg_nonneg sat64_mono
      sat64_nonneg)
    (simp_all add: sane_write_fees_def)

lemma high_write_fee_ge:
  assumes "sane_write_fees c"
  shows "write_fee_1kb_bucket_list_high c \<le> high_write_fee dc n c"
proof -
  have "write_fee_1kb_bucket_list_high c = sat64 (write_fee_1kb_bucket_list_high c)"
    using assms by (intro sat64_id [symmetric]) (simp_all add: sane_write_fees_def i64_min_def)
  also have "\<dots> \<le> high_write_fee dc n c"
    unfolding high_write_fee_def sadd64_def by (intro sat64_mono) (simp add: clamp_nonneg)
  finally show ?thesis .
qed

lemma write_fee_mono:
  assumes dc: "ceiling_division dc" and c: "sane_write_fees c" and n: "0 \<le> n" "n \<le> m"
  shows "compute_write_fee_per_1kb dc n c \<le> compute_write_fee_per_1kb dc m c"
proof -
  let ?t = "bucket_list_target_size_bytes c"
  have "(if n < ?t then low_write_fee dc n c else high_write_fee dc n c) \<le>
      (if m < ?t then low_write_fee dc m c else high_write_fee dc m c)"
  proof (cases "n < ?t \<and> \<not> m < ?t")
    case True
    then show ?thesis
      using low_write_fee_le [OF dc c n(1)] high_write_fee_ge [OF c, of dc m] by simp
  next
    case False
    then show ?thesis
      using n low_write_fee_mono [OF dc c n] high_write_fee_mono [OF dc c _ n(2)] by auto
  qed
  then show ?thesis unfolding write_fee_split [OF c] by (rule max.mono) simp
qed

section \<open>Rent\<close>

definition sane_rent :: "rent_fee_configuration \<Rightarrow> bool" where
  "sane_rent c \<longleftrightarrow>
     0 \<le> rent_fee_per_write_1kb c \<and> rent_fee_per_write_1kb c \<le> i64_max \<and>
     0 \<le> rent_fee_per_write_entry c \<and> rent_fee_per_write_entry c \<le> i64_max"

definition unchanged :: "rent_change \<Rightarrow> bool" where
  "unchanged e \<longleftrightarrow>
     \<not> entry_is_new e \<and> rc_new_live_until_ledger e = rc_old_live_until_ledger e \<and>
     rc_new_size_bytes e \<le> rc_old_size_bytes e"

lemma size_and_ledgers_nonneg:
  assumes "ceiling_division dc" and "sane_rent c"
  shows "0 \<le> rent_fee_for_size_and_ledgers dc p n l c"
proof -
  have "0 \<le> smul64 (smul64 (uint n) (rent_fee_per_write_1kb c)) (uint l)"
    unfolding smul64_def
    by (intro sat64_nonneg mult_nonneg_nonneg) (use assms(2) in \<open>simp_all add: sane_rent_def\<close>)
  then show ?thesis
    unfolding rent_fee_for_size_and_ledgers_def Let_def
    by (intro ceiling_bounds(1) [OF assms(1)]) simp
qed

lemma size_and_ledgers_zero:
  assumes "ceiling_division dc"
  shows "rent_fee_for_size_and_ledgers dc p 0 l c = 0" "rent_fee_for_size_and_ledgers dc p n 0 c = 0"
proof -
  have "smul64 a 0 = 0" "smul64 0 a = 0" for a
    by (simp_all add: smul64_def sat64_def i64_max_def i64_min_def)
  then show "rent_fee_for_size_and_ledgers dc p 0 l c = 0"
    "rent_fee_for_size_and_ledgers dc p n 0 c = 0"
    using ceiling_zero [OF assms] by (simp_all add: rent_fee_for_size_and_ledgers_def Let_def)
qed

lemma entry_rent_nonneg:
  assumes "ceiling_division dc" and "sane_rent c"
  shows "0 \<le> rent_fee_per_entry_change dc e c seq"
  using size_and_ledgers_nonneg [OF assms]
  by (auto simp: rent_fee_per_entry_change_def sadd64_def Let_def intro!: sat64_nonneg add_nonneg_nonneg
      split: option.splits)

lemma checked_sub_same [simp]: "checked_sub a a = Some (0 :: 'a::len word)"
  by (simp add: checked_sub_def)

lemma entry_rent_unchanged:
  assumes dc: "ceiling_division dc" and "unchanged e"
  shows "rent_fee_per_entry_change dc e c seq = 0"
proof -
  have ext: "extension_ledgers e seq = Some 0"
    using assms(2) by (simp add: unchanged_def extension_ledgers_def exclusive_ledger_diff_def)
  have sz: "size_increase e = None \<or> size_increase e = Some 0"
    using assms(2) by (auto simp: unchanged_def size_increase_def checked_sub_def)
  have "sadd64 0 0 = 0" by (simp add: sadd64_def sat64_def i64_max_def i64_min_def)
  with ext sz show ?thesis
    by (auto simp: rent_fee_per_entry_change_def size_and_ledgers_zero [OF dc] split: option.splits)
qed

text \<open>A transaction that changes no entry's size or life pays no rent.\<close>

lemma rent_loop_unchanged:
  assumes "ceiling_division dc" and "\<forall>e \<in> set es. unchanged e"
  shows "rent_loop dc c seq es (0, 0, 0) = (0, 0, 0)"
proof -
  have "sadd64 0 0 = 0" by (simp add: sadd64_def sat64_def i64_max_def i64_min_def)
  then show ?thesis
    using assms(2)
    by (induction es) (simp_all add: entry_rent_unchanged [OF assms(1)] unchanged_def Let_def)
qed

lemma rent_unchanged:
  assumes dc: "ceiling_division dc" and "\<forall>e \<in> set es. unchanged e"
  shows "compute_rent_fee dc es c seq = 0"
proof -
  have z: "smul64 x 0 = 0" "smul64 0 x = 0" "sadd64 0 0 = 0" for x
    by (simp_all add: smul64_def sadd64_def sat64_def i64_max_def i64_min_def)
  have "compute_fee_per_increment dc 0 r i = 0" for r i
    unfolding compute_fee_per_increment_def by (simp add: z ceiling_zero [OF dc])
  then show ?thesis
    by (simp add: compute_rent_fee_def rent_loop_unchanged [OF assms] z)
qed

section \<open>Properties\<close>

text \<open>
  The fee for writing a kilobyte never falls as the bucket list grows, across its target size too
  where the formula changes, and stays between the network's minimum and the largest \<open>i64\<close>.
\<close>

theorem write_fee_grows:
  assumes "ceiling_division dc" and "sane_write_fees c" and "0 \<le> n" and "n \<le> m"
  shows "MINIMUM_WRITE_FEE_PER_1KB \<le> compute_write_fee_per_1kb dc n c \<and>
    compute_write_fee_per_1kb dc n c \<le> compute_write_fee_per_1kb dc m c \<and>
    compute_write_fee_per_1kb dc m c \<le> i64_max"
proof -
  have "compute_write_fee_per_1kb dc m c \<le> i64_max"
    using sat64_max
    by (simp add: write_fee_split [OF assms(2)] low_write_fee_def high_write_fee_def sadd64_def
        MINIMUM_WRITE_FEE_PER_1KB_def i64_max_def)
  with write_fee_mono [OF assms] show ?thesis
    by (simp add: write_fee_split [OF assms(2)])
qed

theorem write_fee_grows_witness:
  "\<exists>c. compute_write_fee_per_1kb div_up 500 c \<le> compute_write_fee_per_1kb div_up 3000 c \<and>
     sane_write_fees c"
proof -
  let ?c = "\<lparr>bucket_list_target_size_bytes = 1000, write_fee_1kb_bucket_list_low = 1000,
      write_fee_1kb_bucket_list_high = 10000, bucket_list_write_fee_growth_factor = 2\<rparr>"
  have "sane_write_fees ?c" by (simp add: sane_write_fees_def i64_max_def)
  with write_fee_grows [OF ceiling_division_div_up this, of 500 3000] show ?thesis by auto
qed

text \<open>
  A transaction that declares at least as much of every resource never pays a lower
  non-refundable or refundable resource fee, on a network with non-negative fee rates; the refundable
  fee is not negative and the non-refundable one saturates at the largest \<open>i64\<close>.
\<close>

theorem resource_fee_grows:
  assumes "ceiling_division dc" and "sane_fees c" and "resources_le r r'"
  shows "fst (compute_transaction_resource_fee dc r c) \<le> fst (compute_transaction_resource_fee dc r' c) \<and>
    snd (compute_transaction_resource_fee dc r c) \<le> snd (compute_transaction_resource_fee dc r' c) \<and>
    0 \<le> snd (compute_transaction_resource_fee dc r c) \<and>
    fst (compute_transaction_resource_fee dc r' c) \<le> i64_max"
proof (intro conjI)
  show "0 \<le> snd (compute_transaction_resource_fee dc r c)"
    unfolding compute_transaction_resource_fee_def Let_def snd_conv
    using assms(2) by (intro per_increment_nonneg [OF assms(1)]) (simp add: sane_fees_def)
  show "fst (compute_transaction_resource_fee dc r' c) \<le> i64_max"
    unfolding compute_transaction_resource_fee_def Let_def fst_conv sadd64_def by (rule sat64_max)
qed (use resource_fee_mono [OF assms] in simp_all)

theorem resource_fee_grows_witness:
  "\<exists>r r' c. fst (compute_transaction_resource_fee div_up r c)
       \<le> fst (compute_transaction_resource_fee div_up r' c) \<and> resources_le r r' \<and> sane_fees c"
proof -
  let ?c = "\<lparr>fee_per_instruction_increment = 25, fee_per_read_entry = 6250, fee_per_write_entry = 10000,
      fee_per_read_1kb = 1786, fee_per_write_1kb = 11800, fee_per_historical_1kb = 16235,
      fee_per_contract_event_1kb = 10000, fee_per_transaction_size_1kb = 1624\<rparr>"
  let ?r = "\<lambda>n. \<lparr>tr_instructions = n, tr_read_entries = 3, tr_write_entries = 2, tr_read_bytes = 500,
      tr_write_bytes = 300, tr_contract_events_size_bytes = 200, tr_transaction_size_bytes = 900\<rparr>"
  have "sane_fees ?c" "resources_le (?r 1000) (?r 2000000)"
    by (simp_all add: sane_fees_def resources_le_def)
  with resource_fee_grows [OF ceiling_division_div_up this] show ?thesis by blast
qed

end
