(* ===== verification/Sac_Data.thy ===== *)
theory Sac_Data
  imports Host_Auth
begin

text \<open>
  The data of the built-in Stellar asset contract (\<open>builtin_contracts/stellar_asset_contract\<close>:
  \<open>storage_types.rs\<close>, \<open>public_types.rs\<close>, \<open>asset_info.rs\<close>, \<open>admin.rs\<close>, \<open>metadata.rs\<close>,
  \<open>allowance.rs\<close>; \<open>builtin_contracts/contract_error.rs\<close> and \<open>storage_utils.rs\<close>), over the host of
  \<open>Host_Data\<close>. The values the contract stores are of one type with a variant per \<open>contracttype\<close>; to convert a
  stored value of another variant fails. A key that is a structure is the vector of its fields.
\<close>

section \<open>Types\<close>

datatype asset =
    NativeAsset
  | CreditAlphanum4 string hash
  | CreditAlphanum12 string hash

datatype asset_info =
    NativeInfo
  | AlphaNum4Info string hash
  | AlphaNum12Info string hash

record allowance_value =
  alw_amount :: i128
  alw_live_until_ledger :: u32

record balance_value =
  bal_amount :: i128
  bal_authorized :: bool
  bal_clawback :: bool

record sac_metadata =
  md_decimal :: u32
  md_name :: string
  md_symbol :: string

datatype sac_value =
    AllowanceVal allowance_value
  | BalanceVal balance_value
  | AddressVal address
  | AssetInfoVal asset_info
  | MetadataVal sac_metadata
  | OtherVal sc_val

type_synonym sac_host = "sac_value host"
type_synonym 'a sac_op = "(sac_value, 'a) host_op"

definition DAY_IN_LEDGERS :: u32 where "DAY_IN_LEDGERS = 17280"
definition INSTANCE_EXTEND_AMOUNT :: u32 where "INSTANCE_EXTEND_AMOUNT = 7 * DAY_IN_LEDGERS"
definition INSTANCE_TTL_THRESHOLD :: u32 where
  "INSTANCE_TTL_THRESHOLD = INSTANCE_EXTEND_AMOUNT - DAY_IN_LEDGERS"
definition BALANCE_EXTEND_AMOUNT :: u32 where "BALANCE_EXTEND_AMOUNT = 30 * DAY_IN_LEDGERS"
definition BALANCE_TTL_THRESHOLD :: u32 where
  "BALANCE_TTL_THRESHOLD = BALANCE_EXTEND_AMOUNT - DAY_IN_LEDGERS"

text \<open>\<open>DataKey\<close> and \<open>InstanceDataKey\<close>.\<close>

definition balance_key :: "address \<Rightarrow> sc_val" where
  "balance_key a = VecV [SymbolV ''Balance'', AddressV a]"

definition allowance_key :: "address \<Rightarrow> address \<Rightarrow> sc_val" where
  "allowance_key from_addr spender =
     VecV [SymbolV ''Allowance'', VecV [AddressV from_addr, AddressV spender]]"

definition admin_key :: sc_val where "admin_key = VecV [SymbolV ''Admin'']"
definition asset_info_key :: sc_val where "asset_info_key = VecV [SymbolV ''AssetInfo'']"
definition metadata_key :: sc_val where "metadata_key = SymbolV ''METADATA''"

section \<open>Errors\<close>

datatype contract_error =
    ContractInternal | OperationNotSupported | AlreadyInitialized | Unauthorized | Authentication
  | AccountMissing | AccountIsNotClassic | NegativeAmount | AllowanceError | BalanceError
  | BalanceDeauthorized | Overflow | TrustlineMissing

fun contract_error_code :: "contract_error \<Rightarrow> u32" where
  "contract_error_code ContractInternal = 1"
| "contract_error_code OperationNotSupported = 2"
| "contract_error_code AlreadyInitialized = 3"
| "contract_error_code Unauthorized = 4"
| "contract_error_code Authentication = 5"
| "contract_error_code AccountMissing = 6"
| "contract_error_code AccountIsNotClassic = 7"
| "contract_error_code NegativeAmount = 8"
| "contract_error_code AllowanceError = 9"
| "contract_error_code BalanceError = 10"
| "contract_error_code BalanceDeauthorized = 11"
| "contract_error_code Overflow = 12"
| "contract_error_code TrustlineMissing = 13"

definition contract_fail :: "contract_error \<Rightarrow> 'a sac_op" where
  "contract_fail e = fail (ContractErr (contract_error_code e))"

section \<open>Stored values\<close>

definition try_get_contract_data :: "sc_val \<Rightarrow> storage_type \<Rightarrow> sac_value stored option sac_op" where
  "try_get_contract_data k t =
     bind_op (has_contract_data k t) (\<lambda>b.
       if b then bind_op (get_contract_data k t) (\<lambda>v. ret (Some v)) else ret None)"

definition as_balance :: "sac_value stored \<Rightarrow> balance_value sac_op" where
  "as_balance v = (case v of DataVal (BalanceVal b) \<Rightarrow> ret b | _ \<Rightarrow> fail ConversionError)"

definition as_allowance :: "sac_value stored \<Rightarrow> allowance_value sac_op" where
  "as_allowance v = (case v of DataVal (AllowanceVal b) \<Rightarrow> ret b | _ \<Rightarrow> fail ConversionError)"

definition as_address :: "sac_value stored \<Rightarrow> address sac_op" where
  "as_address v = (case v of DataVal (AddressVal a) \<Rightarrow> ret a | _ \<Rightarrow> fail ConversionError)"

definition as_asset_info :: "sac_value stored \<Rightarrow> asset_info sac_op" where
  "as_asset_info v = (case v of DataVal (AssetInfoVal a) \<Rightarrow> ret a | _ \<Rightarrow> fail ConversionError)"

definition as_metadata :: "sac_value stored \<Rightarrow> sac_metadata sac_op" where
  "as_metadata v = (case v of DataVal (MetadataVal m) \<Rightarrow> ret m | _ \<Rightarrow> fail ConversionError)"

section \<open>The asset\<close>

definition write_asset_info :: "asset_info \<Rightarrow> unit sac_op" where
  "write_asset_info info = put_contract_data asset_info_key (AssetInfoVal info) InstanceT"

definition read_asset_info :: "asset_info sac_op" where
  "read_asset_info = bind_op (get_contract_data asset_info_key InstanceT) as_asset_info"

text \<open>\<open>AssetInfo\<close> back to \<open>Asset\<close>; a code of another length than its array does not convert.\<close>

fun asset_from_info :: "asset_info \<Rightarrow> error + asset" where
  "asset_from_info NativeInfo = Inr NativeAsset"
| "asset_from_info (AlphaNum4Info code issuer) =
     (if length code = 4 then Inr (CreditAlphanum4 code issuer) else Inl (HostErr EValue UnexpectedSize))"
| "asset_from_info (AlphaNum12Info code issuer) =
     (if length code = 12 then Inr (CreditAlphanum12 code issuer) else Inl (HostErr EValue UnexpectedSize))"

definition read_asset :: "asset sac_op" where
  "read_asset = bind_op read_asset_info (\<lambda>info. of_result (asset_from_info info))"

definition has_asset_info :: "bool sac_op" where
  "has_asset_info = has_contract_data asset_info_key InstanceT"

definition is_ascii_alphanumeric :: "char \<Rightarrow> bool" where
  "is_ascii_alphanumeric c \<longleftrightarrow>
     (let n = of_char c :: nat in 48 \<le> n \<and> n \<le> 57 \<or> 65 \<le> n \<and> n \<le> 90 \<or> 97 \<le> n \<and> n \<le> 122)"

fun count_code_chars :: "bool \<Rightarrow> nat \<Rightarrow> string \<Rightarrow> error + nat" where
  "count_code_chars had_zero n [] = Inr n"
| "count_code_chars had_zero n (c # cs) =
     (if of_char c = (0 :: nat) then count_code_chars True n cs
      else if had_zero then Inl (HostErr EValue InvalidInput)
      else if (0x7f :: nat) < of_char c \<or> \<not> is_ascii_alphanumeric c then Inl (HostErr EValue InvalidInput)
      else count_code_chars had_zero (n + 1) cs)"

definition validate_asset_code :: "string \<Rightarrow> error + unit" where
  "validate_asset_code code =
     (case count_code_chars False 0 code of
        Inl e \<Rightarrow> Inl e
      | Inr non_zero_chars \<Rightarrow>
          if non_zero_chars = 0 then Inl (HostErr EValue InvalidInput)
          else if non_zero_chars \<le> 4 \<and> 4 < length code then Inl (HostErr EValue InvalidInput)
          else Inr ())"

fun validate_asset :: "asset \<Rightarrow> error + unit" where
  "validate_asset NativeAsset = Inr ()"
| "validate_asset (CreditAlphanum4 code issuer) = validate_asset_code code"
| "validate_asset (CreditAlphanum12 code issuer) = validate_asset_code code"

section \<open>The administrator\<close>

definition read_administrator :: "address sac_op" where
  "read_administrator = bind_op (get_contract_data admin_key InstanceT) as_address"

definition write_administrator :: "address \<Rightarrow> unit sac_op" where
  "write_administrator a = put_contract_data admin_key (AddressVal a) InstanceT"

section \<open>Metadata\<close>

definition DECIMAL :: u32 where "DECIMAL = 7"

definition hex_digit :: "nat \<Rightarrow> char" where
  "hex_digit n = (if n < 10 then char_of (48 + n) else char_of (87 + n))"

text \<open>A backslash, an \<open>x\<close> and the two hexadecimal digits of a byte.\<close>

definition escape_byte :: "nat \<Rightarrow> string" where
  "escape_byte x = [CHR 0x5C, CHR ''x'', hex_digit (x div 16), hex_digit (x mod 16)]"

text \<open>
  The loop over the bytes of a code of length \<open>len\<close>, at index \<open>i\<close>: it stops at the first zero byte of a
  short code, and at a zero byte past the fifth of a long one.
\<close>

fun render_bytes :: "nat \<Rightarrow> nat \<Rightarrow> string \<Rightarrow> string" where
  "render_bytes len i [] = []"
| "render_bytes len i (c # cs) =
     (let x = of_char c :: nat in
      if x = 0 \<and> len = 4 then []
      else if x = 0 \<and> len = 12 \<and> 4 < i then []
      else (if x = 0x3A \<or> x = 0x5C \<or> x \<le> 0x20 \<or> 0x7f \<le> x then escape_byte x else [c])
             @ render_bytes len (i + 1) cs)"

definition render_sep0011_asset_code :: "string \<Rightarrow> error + string" where
  "render_sep0011_asset_code buf =
     (if length buf \<noteq> 4 \<and> length buf \<noteq> 12 then Inl (HostErr EValue InvalidInput)
      else Inr (render_bytes (length buf) 0 buf))"

text \<open>\<open>strkey\<close> is the printed form of an account's public key; the result is the name and the symbol.\<close>

definition render_sep0011_asset ::
  "(hash \<Rightarrow> string) \<Rightarrow> nat \<Rightarrow> string \<Rightarrow> hash \<Rightarrow> error + (string \<times> string)" where
  "render_sep0011_asset strkey n symbol_str issuer =
     (if length symbol_str \<noteq> n then Inl (HostErr EValue UnexpectedSize)
      else case render_sep0011_asset_code symbol_str of
        Inl e \<Rightarrow> Inl e
      | Inr s \<Rightarrow> Inr (s @ '':'' @ strkey issuer, s))"

definition name_and_symbol :: "(hash \<Rightarrow> string) \<Rightarrow> asset_info \<Rightarrow> error + (string \<times> string)" where
  "name_and_symbol strkey info =
     (case info of
        NativeInfo \<Rightarrow> Inr (''native'', ''native'')
      | AlphaNum4Info code issuer \<Rightarrow> render_sep0011_asset strkey 4 code issuer
      | AlphaNum12Info code issuer \<Rightarrow> render_sep0011_asset strkey 12 code issuer)"

definition set_metadata :: "(hash \<Rightarrow> string) \<Rightarrow> unit sac_op" where
  "set_metadata strkey =
     bind_op read_asset_info (\<lambda>info.
     bind_op (of_result (name_and_symbol strkey info)) (\<lambda>(name, symbol_str).
     put_contract_data metadata_key
       (MetadataVal \<lparr>md_decimal = DECIMAL, md_name = name, md_symbol = symbol_str\<rparr>) InstanceT))"

definition read_name :: "string sac_op" where
  "read_name =
     bind_op (get_contract_data metadata_key InstanceT) (\<lambda>v.
     bind_op (as_metadata v) (\<lambda>m. ret (md_name m)))"

definition read_symbol :: "string sac_op" where
  "read_symbol =
     bind_op (get_contract_data metadata_key InstanceT) (\<lambda>v.
     bind_op (as_metadata v) (\<lambda>m. ret (md_symbol m)))"

section \<open>Allowances\<close>

definition read_allowance :: "address \<Rightarrow> address \<Rightarrow> i128 sac_op" where
  "read_allowance from_addr spender =
     bind_op (try_get_contract_data (allowance_key from_addr spender) TemporaryT) (\<lambda>raw.
     case raw of
       None \<Rightarrow> ret 0
     | Some v \<Rightarrow>
         bind_op (as_allowance v) (\<lambda>val.
         bind_op (reads (\<lambda>h. sequence_number (h_ledger h))) (\<lambda>seq.
         if alw_live_until_ledger val < seq then ret 0 else ret (alw_amount val))))"

definition checked_live_until :: "i128 \<Rightarrow> u32 \<Rightarrow> u32 sac_op" where
  "checked_live_until amount live_until =
     bind_op (\<lambda>h. of_result (max_live_until_ledger (h_ledger h)) h) (\<lambda>max_live.
     bind_op (reads (\<lambda>h. sequence_number (h_ledger h))) (\<lambda>seq.
     if max_live < live_until then contract_fail AllowanceError
     else if 0 < sint amount \<and> live_until < seq then contract_fail AllowanceError
     else ret seq))"

text \<open>The allowance to write, with the live-until ledger of the one it replaces.\<close>

definition updated_allowance ::
  "address \<Rightarrow> address \<Rightarrow> i128 \<Rightarrow> u32 \<Rightarrow> (allowance_value \<times> u32 option) option sac_op" where
  "updated_allowance from_addr spender amount live_until =
     bind_op (try_get_contract_data (allowance_key from_addr spender) TemporaryT) (\<lambda>raw.
     case raw of
       Some v \<Rightarrow>
         bind_op (as_allowance v) (\<lambda>val.
         ret (Some (val\<lparr>alw_amount := amount, alw_live_until_ledger := live_until\<rparr>,
                    Some (alw_live_until_ledger val))))
     | None \<Rightarrow>
         ret (if 0 < sint amount
              then Some (\<lparr>alw_amount = amount, alw_live_until_ledger = live_until\<rparr>, None)
              else None))"

definition write_allowance :: "address \<Rightarrow> address \<Rightarrow> i128 \<Rightarrow> u32 \<Rightarrow> unit sac_op" where
  "write_allowance from_addr spender amount live_until =
     bind_op (checked_live_until amount live_until) (\<lambda>ledger_seq.
     bind_op (updated_allowance from_addr spender amount live_until) (\<lambda>upd.
     case upd of
       None \<Rightarrow> ret ()
     | Some (val, old_live_until) \<Rightarrow>
         then_op (put_contract_data (allowance_key from_addr spender) (AllowanceVal val) TemporaryT)
           (if 0 < sint (alw_amount val) \<and>
               (case old_live_until of None \<Rightarrow> 0 | Some l \<Rightarrow> l) < live_until
            then (let live_for = saturating_add (saturating_sub live_until ledger_seq) 1
                  in extend_contract_data_ttl (allowance_key from_addr spender) TemporaryT live_for live_for)
            else ret ())))"

definition write_allowance_amount :: "address \<Rightarrow> address \<Rightarrow> i128 \<Rightarrow> unit sac_op" where
  "write_allowance_amount from_addr spender amount =
     bind_op (get_contract_data (allowance_key from_addr spender) TemporaryT) (\<lambda>v.
     bind_op (as_allowance v) (\<lambda>val.
     write_allowance from_addr spender amount (alw_live_until_ledger val)))"

definition spend_allowance :: "address \<Rightarrow> address \<Rightarrow> i128 \<Rightarrow> unit sac_op" where
  "spend_allowance from_addr spender amount =
     bind_op (read_allowance from_addr spender) (\<lambda>allowance.
     if sint allowance < sint amount then contract_fail AllowanceError
     else if 0 < sint amount then
       (case checked_ssub allowance amount of
          None \<Rightarrow> contract_fail Overflow
        | Some new_allowance \<Rightarrow> write_allowance_amount from_addr spender new_allowance)
     else ret ())"

end
