(* ===== verification/Sac_Balance.thy ===== *)
theory Sac_Balance
  imports Sac_Data
begin

text \<open>
  Balances of the Stellar asset contract (\<open>stellar_asset_contract/balance.rs\<close>): an account holds the asset in
  its account entry or in a trustline, a contract in an entry of contract data. The issuer of an asset holds
  an unlimited amount of it. The arithmetic of the ledger entries is that of \<open>i64\<close>, where an
  overflow that is not checked panics.
\<close>

type_synonym i64 = "64 word"

section \<open>Arithmetic\<close>

definition i64_try_from :: "i128 \<Rightarrow> i64 option" where
  "i64_try_from n = (if - (2 ^ 63) \<le> sint n \<and> sint n < 2 ^ 63 then Some (word_of_int (sint n)) else None)"

definition checked_neg :: "i64 \<Rightarrow> i64 option" where
  "checked_neg n = checked_ssub 0 n"

definition checked_smul :: "i64 \<Rightarrow> i64 \<Rightarrow> i64 option" where
  "checked_smul a b =
     (if - (2 ^ 63) \<le> sint a * sint b \<and> sint a * sint b < 2 ^ 63 then Some (a * b) else None)"

definition i64_MAX :: i64 where "i64_MAX = word_of_int (2 ^ 63 - 1)"

text \<open>The flags of accounts and trustlines.\<close>

definition REQUIRED_FLAG :: u32 where "REQUIRED_FLAG = 1"
definition REVOCABLE_FLAG :: u32 where "REVOCABLE_FLAG = 2"
definition CLAWBACK_ENABLED_FLAG :: u32 where "CLAWBACK_ENABLED_FLAG = 8"
definition AUTHORIZED_FLAG :: u32 where "AUTHORIZED_FLAG = 1"
definition MAINTAIN_LIABILITIES_FLAG :: u32 where "MAINTAIN_LIABILITIES_FLAG = 2"
definition TRUSTLINE_CLAWBACK_FLAG :: u32 where "TRUSTLINE_CLAWBACK_FLAG = 4"

definition has_flag :: "u32 \<Rightarrow> u32 \<Rightarrow> bool" where
  "has_flag flags flag \<longleftrightarrow> and flags flag \<noteq> 0"

section \<open>Ledger entries\<close>

definition read_account_entry :: "ledger_key \<Rightarrow> sac_value stored ledger_entry sac_op" where
  "read_account_entry lk =
     bind_op (on_storage (try_get lk)) (\<lambda>r.
     case r of None \<Rightarrow> contract_fail AccountMissing | Some le \<Rightarrow> ret le)"

definition read_trustline_entry :: "ledger_key \<Rightarrow> sac_value stored ledger_entry sac_op" where
  "read_trustline_entry lk =
     bind_op (on_storage (try_get lk)) (\<lambda>r.
     case r of None \<Rightarrow> contract_fail TrustlineMissing | Some le \<Rightarrow> ret le)"

definition as_account :: "sac_value stored ledger_entry \<Rightarrow> account_entry sac_op" where
  "as_account le = (case le of AccountE ae \<Rightarrow> ret ae | _ \<Rightarrow> contract_fail ContractInternal)"

definition as_trustline :: "sac_value stored ledger_entry \<Rightarrow> trustline_entry sac_op" where
  "as_trustline le = (case le of TrustlineE line \<Rightarrow> ret line | _ \<Rightarrow> contract_fail ContractInternal)"

definition net_entries :: "account_entry \<Rightarrow> i64 sac_op" where
  "net_entries ae =
     bind_op (arith (checked_sadd 2 (ucast (ae_num_sub_entries ae)))) (\<lambda>n.
     case ae_ext ae of
       AccountV1 _ (Some ext2) \<Rightarrow>
         bind_op (arith (checked_sadd n (ucast (ext2_num_sponsoring ext2)))) (\<lambda>n'.
         arith (checked_ssub n' (ucast (ext2_num_sponsored ext2))))
     | _ \<Rightarrow> ret n)"

definition get_min_max_account_balance :: "account_entry \<Rightarrow> (i64 \<times> i64) sac_op" where
  "get_min_max_account_balance ae =
     (if sint (ae_balance ae) < 0 then contract_fail ContractInternal
      else
      bind_op (reads (\<lambda>h. ucast (base_reserve (h_ledger h)))) (\<lambda>reserve.
      bind_op (net_entries ae) (\<lambda>n.
      bind_op (arith (checked_smul n reserve)) (\<lambda>min_balance.
      case ae_ext ae of
        AccountV1 l _ \<Rightarrow>
          bind_op (arith (checked_sadd min_balance (li_selling l))) (\<lambda>min_balance.
          bind_op (arith (checked_ssub i64_MAX (li_buying l))) (\<lambda>max_balance.
          ret (min_balance, max_balance)))
      | AccountV0 \<Rightarrow> ret (min_balance, i64_MAX)))))"

definition get_min_max_trustline_balance :: "trustline_entry \<Rightarrow> (i64 \<times> i64) sac_op" where
  "get_min_max_trustline_balance line =
     (if sint (tl_balance line) < 0 then contract_fail ContractInternal
      else case tl_ext line of
        Some l \<Rightarrow>
          if sint (tl_limit line) < sint (li_buying l) then contract_fail ContractInternal
          else
          bind_op (arith (checked_ssub (tl_limit line) (li_buying l))) (\<lambda>max_balance.
          ret (li_selling l, max_balance))
      | None \<Rightarrow> ret (0, tl_limit line))"

definition transfer_account_balance :: "hash \<Rightarrow> i64 \<Rightarrow> unit sac_op" where
  "transfer_account_balance account_id amount =
     bind_op (read_account_entry (LKAccount account_id)) (\<lambda>le.
     bind_op (as_account le) (\<lambda>ae.
     bind_op (get_min_max_account_balance ae) (\<lambda>(min_balance, max_balance).
     case checked_sadd (ae_balance ae) amount of
       None \<Rightarrow> contract_fail BalanceError
     | Some new_balance \<Rightarrow>
         if sint min_balance \<le> sint new_balance \<and> sint new_balance \<le> sint max_balance
         then on_storage (put_with_host (LKAccount account_id) (AccountE (ae\<lparr>ae_balance := new_balance\<rparr>)) None)
         else contract_fail BalanceError)))"

definition transfer_trustline_balance :: "hash \<Rightarrow> trustline_asset \<Rightarrow> i64 \<Rightarrow> unit sac_op" where
  "transfer_trustline_balance account_id a amount =
     bind_op (read_trustline_entry (LKTrustline account_id a)) (\<lambda>le.
     bind_op (as_trustline le) (\<lambda>line.
     bind_op (get_min_max_trustline_balance line) (\<lambda>(min_balance, max_balance).
     case checked_sadd (tl_balance line) amount of
       None \<Rightarrow> contract_fail BalanceError
     | Some new_balance \<Rightarrow>
         if sint min_balance \<le> sint new_balance \<and> sint new_balance \<le> sint max_balance
         then on_storage (put_with_host (LKTrustline account_id a) (TrustlineE (line\<lparr>tl_balance := new_balance\<rparr>)) None)
         else contract_fail BalanceError)))"

definition get_account_balance :: "hash \<Rightarrow> i64 sac_op" where
  "get_account_balance account_id =
     bind_op (read_account_entry (LKAccount account_id)) (\<lambda>le.
     bind_op (as_account le) (\<lambda>ae.
     bind_op (get_min_max_account_balance ae) (\<lambda>(min_balance, max_balance).
     if sint (ae_balance ae) < sint min_balance then contract_fail ContractInternal
     else if sint max_balance < sint (ae_balance ae) then contract_fail ContractInternal
     else ret (ae_balance ae))))"

definition get_trustline_balance :: "hash \<Rightarrow> trustline_asset \<Rightarrow> i64 sac_op" where
  "get_trustline_balance account_id a =
     bind_op (read_trustline_entry (LKTrustline account_id a)) (\<lambda>le.
     bind_op (as_trustline le) (\<lambda>line.
     bind_op (get_min_max_trustline_balance line) (\<lambda>(min_balance, max_balance).
     if sint (tl_balance line) < sint min_balance then contract_fail ContractInternal
     else if sint max_balance < sint (tl_balance line) then contract_fail ContractInternal
     else ret (tl_balance line))))"

definition get_trustline_flags :: "hash \<Rightarrow> trustline_asset \<Rightarrow> u32 sac_op" where
  "get_trustline_flags account_id a =
     bind_op (read_trustline_entry (LKTrustline account_id a)) (\<lambda>le.
     bind_op (as_trustline le) (\<lambda>line. ret (tl_flags line)))"

definition is_trustline_authorized :: "hash \<Rightarrow> trustline_asset \<Rightarrow> bool sac_op" where
  "is_trustline_authorized account_id a =
     bind_op (get_trustline_flags account_id a) (\<lambda>flags. ret (has_flag flags AUTHORIZED_FLAG))"

definition set_trustline_authorization :: "hash \<Rightarrow> trustline_asset \<Rightarrow> bool \<Rightarrow> unit sac_op" where
  "set_trustline_authorization account_id a authorize =
     bind_op (read_trustline_entry (LKTrustline account_id a)) (\<lambda>le.
     bind_op (as_trustline le) (\<lambda>line.
     if has_flag (tl_flags line) AUTHORIZED_FLAG = authorize then ret ()
     else
       (let flags = (if authorize
                     then or (and (tl_flags line) (not MAINTAIN_LIABILITIES_FLAG)) AUTHORIZED_FLAG
                     else or (and (tl_flags line) (not AUTHORIZED_FLAG)) MAINTAIN_LIABILITIES_FLAG)
        in on_storage (put_with_host (LKTrustline account_id a) (TrustlineE (line\<lparr>tl_flags := flags\<rparr>)) None))))"

section \<open>Classic balances\<close>

text \<open>The closures of the code, which treat the issuer apart.\<close>

definition transfer_trustline_balance_unless_issuer ::
  "i64 \<Rightarrow> trustline_asset \<Rightarrow> hash \<Rightarrow> hash \<Rightarrow> unit sac_op" where
  "transfer_trustline_balance_unless_issuer amount a issuer to_id =
     (if issuer = to_id then ret () else transfer_trustline_balance to_id a amount)"

definition transfer_classic_balance :: "hash \<Rightarrow> i64 \<Rightarrow> unit sac_op" where
  "transfer_classic_balance to_id amount =
     bind_op read_asset (\<lambda>a.
     case a of
       NativeAsset \<Rightarrow> transfer_account_balance to_id amount
     | CreditAlphanum4 code issuer \<Rightarrow>
         transfer_trustline_balance_unless_issuer amount (TLAlphanum4 code issuer) issuer to_id
     | CreditAlphanum12 code issuer \<Rightarrow>
         transfer_trustline_balance_unless_issuer amount (TLAlphanum12 code issuer) issuer to_id)"

definition get_trustline_balance_or_max_if_issuer :: "trustline_asset \<Rightarrow> hash \<Rightarrow> hash \<Rightarrow> i64 sac_op" where
  "get_trustline_balance_or_max_if_issuer a issuer acct =
     (if issuer = acct then ret i64_MAX else get_trustline_balance acct a)"

definition get_classic_balance :: "hash \<Rightarrow> i64 sac_op" where
  "get_classic_balance acct =
     bind_op read_asset (\<lambda>a.
     case a of
       NativeAsset \<Rightarrow> get_account_balance acct
     | CreditAlphanum4 code issuer \<Rightarrow>
         get_trustline_balance_or_max_if_issuer (TLAlphanum4 code issuer) issuer acct
     | CreditAlphanum12 code issuer \<Rightarrow>
         get_trustline_balance_or_max_if_issuer (TLAlphanum12 code issuer) issuer acct)"

definition is_trustline_authorized_or_issuer :: "trustline_asset \<Rightarrow> hash \<Rightarrow> hash \<Rightarrow> bool sac_op" where
  "is_trustline_authorized_or_issuer a issuer to_id =
     (if issuer = to_id then ret True else is_trustline_authorized to_id a)"

definition is_account_authorized :: "hash \<Rightarrow> bool sac_op" where
  "is_account_authorized account_id =
     bind_op read_asset (\<lambda>a.
     case a of
       NativeAsset \<Rightarrow> ret True
     | CreditAlphanum4 code issuer \<Rightarrow>
         is_trustline_authorized_or_issuer (TLAlphanum4 code issuer) issuer account_id
     | CreditAlphanum12 code issuer \<Rightarrow>
         is_trustline_authorized_or_issuer (TLAlphanum12 code issuer) issuer account_id)"

definition set_trustline_authorization_unless_issuer ::
  "bool \<Rightarrow> trustline_asset \<Rightarrow> hash \<Rightarrow> hash \<Rightarrow> unit sac_op" where
  "set_trustline_authorization_unless_issuer authorize a issuer acct =
     (if issuer = acct then contract_fail OperationNotSupported
      else set_trustline_authorization acct a authorize)"

definition set_authorization :: "hash \<Rightarrow> bool \<Rightarrow> unit sac_op" where
  "set_authorization acct authorize =
     bind_op read_asset (\<lambda>a.
     case a of
       NativeAsset \<Rightarrow> contract_fail OperationNotSupported
     | CreditAlphanum4 code issuer \<Rightarrow>
         set_trustline_authorization_unless_issuer authorize (TLAlphanum4 code issuer) issuer acct
     | CreditAlphanum12 code issuer \<Rightarrow>
         set_trustline_authorization_unless_issuer authorize (TLAlphanum12 code issuer) issuer acct)"

section \<open>The flags of the issuer\<close>

definition is_issuer_flag_set :: "hash \<Rightarrow> u32 \<Rightarrow> bool sac_op" where
  "is_issuer_flag_set issuer_id flag =
     bind_op (load_account issuer_id) (\<lambda>issuer_acc. ret (has_flag (ae_flags issuer_acc) flag))"

definition is_asset_issuer_flag_set :: "u32 \<Rightarrow> bool sac_op" where
  "is_asset_issuer_flag_set flag =
     bind_op read_asset_info (\<lambda>info.
     case info of
       NativeInfo \<Rightarrow> ret False
     | AlphaNum4Info _ issuer \<Rightarrow> is_issuer_flag_set issuer flag
     | AlphaNum12Info _ issuer \<Rightarrow> is_issuer_flag_set issuer flag)"

definition is_asset_auth_required :: "bool sac_op" where
  "is_asset_auth_required = is_asset_issuer_flag_set REQUIRED_FLAG"

definition is_asset_clawback_enabled :: "bool sac_op" where
  "is_asset_clawback_enabled = is_asset_issuer_flag_set CLAWBACK_ENABLED_FLAG"

definition is_asset_auth_revocable :: "bool sac_op" where
  "is_asset_auth_revocable = is_asset_issuer_flag_set REVOCABLE_FLAG"

section \<open>Balances of addresses\<close>

definition try_get_balance :: "address \<Rightarrow> balance_value option sac_op" where
  "try_get_balance a =
     bind_op (try_get_contract_data (balance_key a) PersistentT) (\<lambda>raw.
     case raw of
       None \<Rightarrow> ret None
     | Some v \<Rightarrow> bind_op (as_balance v) (\<lambda>b. ret (Some b)))"

definition extend_balance :: "address \<Rightarrow> unit sac_op" where
  "extend_balance a =
     extend_contract_data_ttl (balance_key a) PersistentT BALANCE_TTL_THRESHOLD BALANCE_EXTEND_AMOUNT"

definition read_balance :: "address \<Rightarrow> i128 sac_op" where
  "read_balance a =
     (case a of
        AccountAddr acc \<Rightarrow> bind_op (get_classic_balance acc) (\<lambda>n. ret (scast n))
      | ContractAddr _ \<Rightarrow>
          bind_op (try_get_contract_data (balance_key a) PersistentT) (\<lambda>raw.
          case raw of
            None \<Rightarrow> ret 0
          | Some v \<Rightarrow>
              then_op (extend_balance a)
             (bind_op (as_balance v) (\<lambda>b. ret (bal_amount b)))))"

definition write_contract_balance :: "address \<Rightarrow> balance_value \<Rightarrow> unit sac_op" where
  "write_contract_balance a b =
     then_op (put_contract_data (balance_key a) (BalanceVal b) PersistentT) (extend_balance a)"

definition is_authorized :: "address \<Rightarrow> bool sac_op" where
  "is_authorized a =
     (case a of
        AccountAddr acc \<Rightarrow> is_account_authorized acc
      | ContractAddr _ \<Rightarrow>
          bind_op (try_get_balance a) (\<lambda>r.
          case r of
            Some b \<Rightarrow> ret (bal_authorized b)
          | None \<Rightarrow> bind_op is_asset_auth_required (\<lambda>required. ret (\<not> required))))"

text \<open>What a contract without a balance starts from, once it may hold the asset.\<close>

definition new_balance :: "bool \<Rightarrow> balance_value sac_op" where
  "new_balance authorized =
     bind_op is_asset_clawback_enabled (\<lambda>c.
     ret \<lparr>bal_amount = 0, bal_authorized = authorized, bal_clawback = c\<rparr>)"

definition receive_balance :: "address \<Rightarrow> i128 \<Rightarrow> unit sac_op" where
  "receive_balance a amount =
     bind_op (is_authorized a) (\<lambda>ok.
     if \<not> ok then contract_fail BalanceDeauthorized
     else case a of
       AccountAddr acc \<Rightarrow>
         (case i64_try_from amount of
            None \<Rightarrow> contract_fail Overflow
          | Some n \<Rightarrow> transfer_classic_balance acc n)
     | ContractAddr _ \<Rightarrow>
         bind_op (try_get_balance a) (\<lambda>r.
         bind_op (case r of Some b \<Rightarrow> ret b | None \<Rightarrow> new_balance True) (\<lambda>b.
         case checked_sadd (bal_amount b) amount of
           None \<Rightarrow> contract_fail Overflow
         | Some n \<Rightarrow> write_contract_balance a (b\<lparr>bal_amount := n\<rparr>))))"

definition spend_balance_no_authorization_check :: "address \<Rightarrow> i128 \<Rightarrow> unit sac_op" where
  "spend_balance_no_authorization_check a amount =
     (case a of
        AccountAddr acc \<Rightarrow>
          (case i64_try_from amount of
             None \<Rightarrow> contract_fail Overflow
           | Some n \<Rightarrow> bind_op (arith (checked_neg n)) (\<lambda>m. transfer_classic_balance acc m))
      | ContractAddr _ \<Rightarrow>
          bind_op (try_get_balance a) (\<lambda>r.
          case r of
            Some b \<Rightarrow>
              if sint (bal_amount b) < sint amount then contract_fail BalanceError
              else (case checked_ssub (bal_amount b) amount of
                      None \<Rightarrow> contract_fail Overflow
                    | Some n \<Rightarrow> write_contract_balance a (b\<lparr>bal_amount := n\<rparr>))
          | None \<Rightarrow> if 0 < sint amount then contract_fail BalanceError else ret ()))"

definition spend_balance :: "address \<Rightarrow> i128 \<Rightarrow> unit sac_op" where
  "spend_balance a amount =
     bind_op (is_authorized a) (\<lambda>ok.
     if \<not> ok then contract_fail BalanceDeauthorized
     else spend_balance_no_authorization_check a amount)"

definition write_authorization :: "address \<Rightarrow> bool \<Rightarrow> unit sac_op" where
  "write_authorization a authorize =
     then_op (if authorize then ret ()
              else bind_op is_asset_auth_revocable (\<lambda>r.
                   if r then ret () else contract_fail OperationNotSupported))
       (case a of
          AccountAddr acc \<Rightarrow> set_authorization acc authorize
        | ContractAddr _ \<Rightarrow>
            bind_op (try_get_balance a) (\<lambda>r.
            case r of
              Some b \<Rightarrow> write_contract_balance a (b\<lparr>bal_authorized := authorize\<rparr>)
            | None \<Rightarrow> bind_op (new_balance authorize) (write_contract_balance a)))"

definition validate_trustline :: "trustline_asset \<Rightarrow> hash \<Rightarrow> hash \<Rightarrow> unit sac_op" where
  "validate_trustline a issuer account_id =
     (if issuer = account_id then contract_fail OperationNotSupported
      else bind_op (get_trustline_flags account_id a) (\<lambda>flags.
        if \<not> has_flag flags TRUSTLINE_CLAWBACK_FLAG then contract_fail BalanceError else ret ()))"

definition check_clawbackable :: "address \<Rightarrow> unit sac_op" where
  "check_clawbackable a =
     (case a of
        AccountAddr acc \<Rightarrow>
          bind_op read_asset (\<lambda>ast.
          case ast of
            NativeAsset \<Rightarrow> contract_fail OperationNotSupported
          | CreditAlphanum4 code issuer \<Rightarrow> validate_trustline (TLAlphanum4 code issuer) issuer acc
          | CreditAlphanum12 code issuer \<Rightarrow> validate_trustline (TLAlphanum12 code issuer) issuer acc)
      | ContractAddr _ \<Rightarrow>
          bind_op (try_get_balance a) (\<lambda>r.
          case r of
            Some b \<Rightarrow> if \<not> bal_clawback b then contract_fail BalanceError else ret ()
          | None \<Rightarrow> contract_fail BalanceError))"

end
