(* ===== verification/Sac.thy ===== *)
theory Sac
  imports Sac_Balance
begin

text \<open>
  The entry points of the Stellar asset contract (\<open>stellar_asset_contract/contract.rs\<close>) and its events
  (\<open>stellar_asset_contract/event.rs\<close>). A call runs in the frame of the contract and requires authorizations,
  which may fail after they have changed the state, so the entry points are bodies of frames
  (\<open>Host_Frame\<close>). Parameters are the world of \<open>Host_Auth\<close> and, of the request each call makes, the nonce
  drawn and the handle of the address; the contract id of an asset, which is the hash of a preimage, and the
  printed form of public keys.
\<close>

type_synonym 'a sac_body = "(sac_value, 'a) body"

section \<open>Events\<close>

definition event_approve :: "address \<Rightarrow> address \<Rightarrow> i128 \<Rightarrow> u32 \<Rightarrow> unit sac_op" where
  "event_approve from_addr to_addr amount live_until =
     bind_op read_name (\<lambda>name.
     contract_event [SymbolV ''approve'', AddressV from_addr, AddressV to_addr, StringV name]
       (VecV [I128V amount, U32V live_until]))"

definition event_transfer :: "address \<Rightarrow> address \<Rightarrow> i128 \<Rightarrow> unit sac_op" where
  "event_transfer from_addr to_addr amount =
     bind_op read_name (\<lambda>name.
     contract_event [SymbolV ''transfer'', AddressV from_addr, AddressV to_addr, StringV name]
       (I128V amount))"

definition event_mint :: "address \<Rightarrow> address \<Rightarrow> i128 \<Rightarrow> unit sac_op" where
  "event_mint admin to_addr amount =
     bind_op read_name (\<lambda>name.
     contract_event [SymbolV ''mint'', AddressV admin, AddressV to_addr, StringV name] (I128V amount))"

definition event_clawback :: "address \<Rightarrow> address \<Rightarrow> i128 \<Rightarrow> unit sac_op" where
  "event_clawback admin from_addr amount =
     bind_op read_name (\<lambda>name.
     contract_event [SymbolV ''clawback'', AddressV admin, AddressV from_addr, StringV name] (I128V amount))"

definition event_set_authorized :: "address \<Rightarrow> address \<Rightarrow> bool \<Rightarrow> unit sac_op" where
  "event_set_authorized admin a authorize =
     bind_op read_name (\<lambda>name.
     contract_event [SymbolV ''set_authorized'', AddressV admin, AddressV a, StringV name] (BoolV authorize))"

definition event_set_admin :: "address \<Rightarrow> address \<Rightarrow> unit sac_op" where
  "event_set_admin admin new_admin =
     bind_op read_name (\<lambda>name.
     contract_event [SymbolV ''set_admin'', AddressV admin, StringV name] (AddressV new_admin))"

definition event_burn :: "address \<Rightarrow> i128 \<Rightarrow> unit sac_op" where
  "event_burn from_addr amount =
     bind_op read_name (\<lambda>name.
     contract_event [SymbolV ''burn'', AddressV from_addr, StringV name] (I128V amount))"

section \<open>Checks\<close>

definition check_nonnegative_amount :: "i128 \<Rightarrow> unit sac_op" where
  "check_nonnegative_amount amount = (if sint amount < 0 then contract_fail NegativeAmount else ret ())"

definition check_non_native :: "unit sac_op" where
  "check_non_native =
     bind_op read_asset_info (\<lambda>info.
     case info of NativeInfo \<Rightarrow> contract_fail OperationNotSupported | _ \<Rightarrow> ret ())"

definition issuer_check :: "hash \<Rightarrow> address \<Rightarrow> unit sac_op" where
  "issuer_check issuer a =
     (if compare_address (AccountAddr issuer) a = Equal then contract_fail OperationNotSupported else ret ())"

definition check_not_issuer :: "address \<Rightarrow> unit sac_op" where
  "check_not_issuer a =
     bind_op read_asset_info (\<lambda>info.
     case info of
       NativeInfo \<Rightarrow> ret ()
     | AlphaNum4Info _ issuer \<Rightarrow> issuer_check issuer a
     | AlphaNum12Info _ issuer \<Rightarrow> issuer_check issuer a)"

definition extend_instance :: "unit sac_op" where
  "extend_instance =
     extend_current_contract_instance_and_code_ttl INSTANCE_TTL_THRESHOLD INSTANCE_EXTEND_AMOUNT"

section \<open>Creation\<close>

definition init_asset ::
  "(hash \<Rightarrow> asset \<Rightarrow> hash) \<Rightarrow> (hash \<Rightarrow> string) \<Rightarrow> asset \<Rightarrow> unit sac_op" where
  "init_asset asset_contract_id strkey a =
     bind_op has_asset_info (\<lambda>present.
     if present then contract_fail AlreadyInitialized
     else
     then_op (of_result (validate_asset a))
    (bind_op get_current_contract_id_internal (\<lambda>cid.
     bind_op (reads (\<lambda>h. asset_contract_id (network_id (h_ledger h)) a)) (\<lambda>expected.
     if cid \<noteq> expected then contract_fail ContractInternal
     else
     then_op (case a of
                NativeAsset \<Rightarrow> write_asset_info NativeInfo
              | CreditAlphanum4 code issuer \<Rightarrow>
                  then_op (write_administrator (AccountAddr issuer))
                    (write_asset_info (AlphaNum4Info code issuer))
              | CreditAlphanum12 code issuer \<Rightarrow>
                  then_op (write_administrator (AccountAddr issuer))
                    (write_asset_info (AlphaNum12Info code issuer)))
       (set_metadata strkey)))))"

section \<open>Reading\<close>

definition sac_allowance :: "address \<Rightarrow> address \<Rightarrow> i128 sac_op" where
  "sac_allowance from_addr spender = then_op extend_instance (read_allowance from_addr spender)"

definition sac_balance :: "address \<Rightarrow> i128 sac_op" where
  "sac_balance a = then_op extend_instance (read_balance a)"

definition sac_authorized :: "address \<Rightarrow> bool sac_op" where
  "sac_authorized a = then_op extend_instance (is_authorized a)"

definition sac_admin :: "address sac_op" where
  "sac_admin = read_administrator"

definition sac_decimals :: "u32 sac_op" where
  "sac_decimals = ret DECIMAL"

section \<open>Transfers\<close>

record sac_request =
  req_world :: "sac_value auth_world"
  req_nonce :: "64 word"
  req_handle :: u32

definition require :: "sac_request \<Rightarrow> address \<Rightarrow> unit sac_body" where
  "require req = host_require_auth (req_world req) (req_nonce req) (req_handle req)"

definition sac_approve ::
  "sac_request \<Rightarrow> address \<Rightarrow> address \<Rightarrow> i128 \<Rightarrow> u32 \<Rightarrow> unit sac_body" where
  "sac_approve req from_addr spender amount live_until =
     and_then (lift_op (check_nonnegative_amount amount)) (\<lambda>_.
     and_then (require req from_addr) (\<lambda>_.
     lift_op
       (then_op extend_instance
       (then_op (write_allowance from_addr spender amount live_until)
       (event_approve from_addr spender amount live_until)))))"

definition sac_transfer :: "sac_request \<Rightarrow> address \<Rightarrow> address \<Rightarrow> i128 \<Rightarrow> unit sac_body" where
  "sac_transfer req from_addr to_addr amount =
     and_then (lift_op (check_nonnegative_amount amount)) (\<lambda>_.
     and_then (require req from_addr) (\<lambda>_.
     lift_op
       (then_op extend_instance
       (then_op (spend_balance from_addr amount)
       (then_op (receive_balance to_addr amount)
       (event_transfer from_addr to_addr amount))))))"

definition sac_transfer_from ::
  "sac_request \<Rightarrow> address \<Rightarrow> address \<Rightarrow> address \<Rightarrow> i128 \<Rightarrow> unit sac_body" where
  "sac_transfer_from req spender from_addr to_addr amount =
     and_then (lift_op (check_nonnegative_amount amount)) (\<lambda>_.
     and_then (require req spender) (\<lambda>_.
     lift_op
       (then_op extend_instance
       (then_op (spend_allowance from_addr spender amount)
       (then_op (spend_balance from_addr amount)
       (then_op (receive_balance to_addr amount)
       (event_transfer from_addr to_addr amount)))))))"

definition sac_burn :: "sac_request \<Rightarrow> address \<Rightarrow> i128 \<Rightarrow> unit sac_body" where
  "sac_burn req from_addr amount =
     and_then (lift_op
       (then_op (check_nonnegative_amount amount)
       (then_op check_non_native (check_not_issuer from_addr)))) (\<lambda>_.
     and_then (require req from_addr) (\<lambda>_.
     lift_op
       (then_op extend_instance
       (then_op (spend_balance from_addr amount)
       (event_burn from_addr amount)))))"

definition sac_burn_from :: "sac_request \<Rightarrow> address \<Rightarrow> address \<Rightarrow> i128 \<Rightarrow> unit sac_body" where
  "sac_burn_from req spender from_addr amount =
     and_then (lift_op
       (then_op (check_nonnegative_amount amount)
       (then_op check_non_native (check_not_issuer from_addr)))) (\<lambda>_.
     and_then (require req spender) (\<lambda>_.
     lift_op
       (then_op extend_instance
       (then_op (spend_allowance from_addr spender amount)
       (then_op (spend_balance from_addr amount)
       (event_burn from_addr amount))))))"

section \<open>The administrator\<close>

definition sac_clawback :: "sac_request \<Rightarrow> address \<Rightarrow> i128 \<Rightarrow> unit sac_body" where
  "sac_clawback req from_addr amount =
     and_then (lift_op
       (then_op (check_nonnegative_amount amount)
       (then_op (check_clawbackable from_addr)
       (then_op (check_not_issuer from_addr) read_administrator)))) (\<lambda>admin.
     and_then (require req admin) (\<lambda>_.
     lift_op
       (then_op extend_instance
       (then_op (spend_balance_no_authorization_check from_addr amount)
       (event_clawback admin from_addr amount)))))"

definition sac_set_authorized :: "sac_request \<Rightarrow> address \<Rightarrow> bool \<Rightarrow> unit sac_body" where
  "sac_set_authorized req a authorize =
     and_then (lift_op read_administrator) (\<lambda>admin.
     and_then (require req admin) (\<lambda>_.
     lift_op
       (then_op extend_instance
       (then_op (write_authorization a authorize)
       (event_set_authorized admin a authorize)))))"

definition sac_mint :: "sac_request \<Rightarrow> address \<Rightarrow> i128 \<Rightarrow> unit sac_body" where
  "sac_mint req to_addr amount =
     and_then (lift_op
       (then_op (check_nonnegative_amount amount)
       (then_op (check_not_issuer to_addr) read_administrator))) (\<lambda>admin.
     and_then (require req admin) (\<lambda>_.
     lift_op
       (then_op extend_instance
       (then_op (receive_balance to_addr amount)
       (event_mint admin to_addr amount)))))"

definition sac_set_admin :: "sac_request \<Rightarrow> address \<Rightarrow> unit sac_body" where
  "sac_set_admin req new_admin =
     and_then (lift_op read_administrator) (\<lambda>admin.
     and_then (require req admin) (\<lambda>_.
     lift_op
       (then_op extend_instance
       (then_op (write_administrator new_admin)
       (event_set_admin admin new_admin)))))"

section \<open>Calls\<close>

text \<open>The calls that change the state of the contract, with the address each has to be authorized by.\<close>

datatype sac_call =
    Approve address address i128 u32
  | Transfer address address i128
  | TransferFrom address address address i128
  | Burn address i128
  | BurnFrom address address i128
  | Clawback address i128
  | SetAuthorized address bool
  | Mint address i128
  | SetAdmin address

fun sac_exec :: "sac_request \<Rightarrow> sac_call \<Rightarrow> unit sac_body" where
  "sac_exec req (Approve f s n l) = sac_approve req f s n l"
| "sac_exec req (Transfer f t n) = sac_transfer req f t n"
| "sac_exec req (TransferFrom s f t n) = sac_transfer_from req s f t n"
| "sac_exec req (Burn f n) = sac_burn req f n"
| "sac_exec req (BurnFrom s f n) = sac_burn_from req s f n"
| "sac_exec req (Clawback f n) = sac_clawback req f n"
| "sac_exec req (SetAuthorized a b) = sac_set_authorized req a b"
| "sac_exec req (Mint t n) = sac_mint req t n"
| "sac_exec req (SetAdmin a) = sac_set_admin req a"

end
