(* ===== verification/Host_Triples.thy ===== *)
theory Host_Triples
  imports Host_Auth Host_Vector
begin

text \<open>
  What host functions do as seen by the contract that runs: \<open>does cid f P\<close> says that where \<open>f\<close>
  succeeds in the frame of contract \<open>cid\<close>, the snapshot before, the result and the snapshot after are
  related by \<open>P\<close>. A snapshot is the part of the host a contract's meaning depends on: the entries of accounts, of trustlines
  and of the contract itself without their live-until ledgers and without nonces, the instance storage,
  and the ledger parameters. Recording and enforcing storages look alike through it.
\<close>

section \<open>Snapshots\<close>

fun plain_key :: "sc_val \<Rightarrow> bool" where
  "plain_key (LedgerKeyNonceV _) = False"
| "plain_key _ = True"

fun watched :: "hash \<Rightarrow> ledger_key \<Rightarrow> bool" where
  "watched cid (LKAccount _) = True"
| "watched cid (LKTrustline _ _) = True"
| "watched cid (LKContractData c k d) =
     (c = ContractAddr cid \<and> plain_key k)"
| "watched cid _ = False"

definition inst_map :: "'v host \<Rightarrow> 'v scmap option" where
  "inst_map h =
     (case h_stack h of
        [] \<Rightarrow> None
      | c # _ \<Rightarrow>
          (case maybe_init_instance_storage c of
             Inl _ \<Rightarrow> None
           | Inr c' \<Rightarrow> map_option ism_map (ctx_storage c')))"

definition entries_of :: "hash \<Rightarrow> 'v stored storage \<Rightarrow> ledger_key \<rightharpoonup> 'v stored ledger_entry" where
  "entries_of cid st k = (if watched cid k then map_option fst (view st k) else None)"

record 'v snap =
  sn_entries :: "ledger_key \<rightharpoonup> 'v stored ledger_entry"
  sn_instance :: "sc_val \<rightharpoonup> 'v"
  sn_ledger :: ledger_info

definition snap :: "hash \<Rightarrow> 'v host \<Rightarrow> 'v snap" where
  "snap cid h =
     \<lparr>sn_entries = entries_of cid (h_storage h),
      sn_instance = (case inst_map h of None \<Rightarrow> Map.empty | Some m \<Rightarrow> map_of m),
      sn_ledger = h_ledger h\<rparr>"

definition in_frame :: "hash \<Rightarrow> 'v host \<Rightarrow> bool" where
  "in_frame cid h \<longleftrightarrow>
     storage_ok (h_storage h) \<and> get_current_contract_id_opt_internal h = Some cid \<and>
     (\<forall>m. inst_map h = Some m \<longrightarrow> omap_sorted (\<lambda>_. True) compare_host_val m \<and> length m < 2 ^ 32)"

definition does ::
  "hash \<Rightarrow> ('v, 'a) host_op \<Rightarrow> ('v snap \<Rightarrow> 'a \<Rightarrow> 'v snap \<Rightarrow> bool) \<Rightarrow> bool" where
  "does cid f P \<longleftrightarrow>
     (\<forall>h a h'. in_frame cid h \<longrightarrow> f h = Inr (a, h') \<longrightarrow>
        in_frame cid h' \<and> P (snap cid h) a (snap cid h'))"

definition body_does ::
  "hash \<Rightarrow> ('v, 'a) body \<Rightarrow> ('v snap \<Rightarrow> 'a \<Rightarrow> 'v snap \<Rightarrow> bool) \<Rightarrow> bool" where
  "body_does cid f P \<longleftrightarrow>
     (\<forall>h a h'. in_frame cid h \<longrightarrow> f h = (Inr a, h') \<longrightarrow>
        in_frame cid h' \<and> P (snap cid h) a (snap cid h'))"

section \<open>Rules\<close>

lemma doesD:
  assumes "does cid f P" and "in_frame cid h" and "f h = Inr (a, h')"
  shows "in_frame cid h'" and "P (snap cid h) a (snap cid h')"
  using assms unfolding does_def by blast+

lemma body_doesD:
  assumes "body_does cid f P" and "in_frame cid h" and "f h = (Inr a, h')"
  shows "in_frame cid h'" and "P (snap cid h) a (snap cid h')"
  using assms unfolding body_does_def by blast+

lemma does_weaken:
  assumes "does cid f P" and "\<And>s a t. P s a t \<Longrightarrow> Q s a t"
  shows "does cid f Q"
  using assms unfolding does_def by blast

named_theorems does_intro

lemma does_ret [does_intro]: "does cid (ret a) (\<lambda>s b t. b = a \<and> t = s)"
  by (simp add: does_def ret_def)

lemma does_fail [does_intro]: "does cid (fail e) (\<lambda>s b t. False)"
  by (simp add: does_def fail_def)

lemma does_reads [does_intro]: "does cid (reads (\<lambda>h. g (h_ledger h))) (\<lambda>s b t. b = g (sn_ledger s) \<and> t = s)"
  by (simp add: does_def reads_def snap_def)

lemma does_of_result [does_intro]: "does cid (of_result r) (\<lambda>s b t. r = Inr b \<and> t = s)"
  by (simp add: does_def of_result_Inr)

lemma does_of_ledger [does_intro]:
  "does cid (\<lambda>h. of_result (g (h_ledger h)) h) (\<lambda>s b t. g (sn_ledger s) = Inr b \<and> t = s)"
  by (simp add: does_def of_result_Inr snap_def)

lemma does_ok_or [does_intro]: "does cid (ok_or e x) (\<lambda>s b t. x = Some b \<and> t = s)"
  by (simp add: does_def ok_or_Inr)

lemma does_arith [does_intro]: "does cid (arith x) (\<lambda>s b t. x = Some b \<and> t = s)"
  by (simp add: does_def arith_Inr)

lemma does_bind [does_intro]:
  assumes "does cid f P" and "\<And>a. does cid (g a) (Q a)"
  shows "does cid (bind_op f g) (\<lambda>s b t. \<exists>a m. P s a m \<and> Q a m b t)"
  unfolding does_def
proof (intro allI impI)
  fix h b h'
  assume h: "in_frame cid h" and "bind_op f g h = Inr (b, h')"
  then obtain a h1 where f: "f h = Inr (a, h1)" and g: "g a h1 = Inr (b, h')"
    by (auto simp: bind_op_Inr)
  note 1 = doesD [OF assms(1) h f]
  note 2 = doesD [OF assms(2) 1(1) g]
  from 1(2) 2 show "in_frame cid h' \<and> (\<exists>a m. P (snap cid h) a m \<and> Q a m b (snap cid h'))" by blast
qed

lemma does_then [does_intro]:
  assumes "does cid f P" and "does cid g Q"
  shows "does cid (then_op f g) (\<lambda>s b t. \<exists>a m. P s a m \<and> Q m b t)"
proof -
  have "then_op f g = bind_op f (\<lambda>_. g)" by (simp add: fun_eq_iff then_op_def bind_op_def)
  then show ?thesis using does_bind [of cid f P "\<lambda>_. g" "\<lambda>_. Q", OF assms] by simp
qed

lemma does_if [does_intro]:
  assumes "does cid f P" and "does cid g Q"
  shows "does cid (if c then f else g) (\<lambda>s b t. if c then P s b t else Q s b t)"
  using assms by simp

lemma does_option [does_intro]:
  assumes "does cid f P" and "\<And>x. does cid (g x) (Q x)"
  shows "does cid (case r of None \<Rightarrow> f | Some x \<Rightarrow> g x)
    (\<lambda>s b t. case r of None \<Rightarrow> P s b t | Some x \<Rightarrow> Q x s b t)"
  using assms by (cases r) simp_all

lemma does_prod [does_intro]:
  assumes "\<And>x y. does cid (g x y) (Q x y)"
  shows "does cid (case p of (x, y) \<Rightarrow> g x y) (\<lambda>s b t. case p of (x, y) \<Rightarrow> Q x y s b t)"
  using assms by (cases p) simp

section \<open>The storage\<close>

lemma in_frame_storage:
  assumes "in_frame cid h" and "storage_ok s"
  shows "in_frame cid (h\<lparr>h_storage := s\<rparr>)"
  using assms by (simp add: in_frame_def inst_map_def)

lemma snap_storage:
  "snap cid (h\<lparr>h_storage := s\<rparr>) =
     (snap cid h)\<lparr>sn_entries := entries_of cid s\<rparr>"
  by (simp add: snap_def inst_map_def)

lemma entries_of_view: "view t = view st \<Longrightarrow> entries_of cid t = entries_of cid st"
  by (simp add: entries_of_def fun_eq_iff)

lemma does_storage_same:
  assumes "\<And>st a t. storage_ok st \<Longrightarrow> f st = Inr (a, t) \<Longrightarrow>
    storage_ok t \<and> view t = view st \<and> R (view st) a"
  shows "does cid (on_storage f) (\<lambda>s a t. t = s \<and>
    (\<exists>v. (\<forall>k. watched cid k \<longrightarrow> sn_entries s k = map_option fst (v k)) \<and> R v a))"
  unfolding does_def
proof (intro allI impI)
  fix h a h'
  assume h: "in_frame cid h" and "on_storage f h = Inr (a, h')"
  then obtain t where t: "f (h_storage h) = Inr (a, t)" "h' = h\<lparr>h_storage := t\<rparr>"
    by (auto simp: on_storage_Inr)
  from h have "storage_ok (h_storage h)" by (simp add: in_frame_def)
  from assms [OF this t(1)] have 1: "storage_ok t" "view t = view (h_storage h)" "R (view (h_storage h)) a"
    by simp_all
  have "snap cid h' = snap cid h" unfolding t(2) snap_storage by (simp add: snap_def entries_of_view [OF 1(2)])
  with 1 in_frame_storage [OF h] t(2)
  show "in_frame cid h' \<and> snap cid h' = snap cid h \<and>
      (\<exists>v. (\<forall>k. watched cid k \<longrightarrow> sn_entries (snap cid h) k = map_option fst (v k)) \<and> R v a)"
    by (auto simp: snap_def entries_of_def)
qed

lemma does_try_get:
  assumes "watched cid k"
  shows "does cid (on_storage (try_get k)) (\<lambda>s r t. r = sn_entries s k \<and> t = s)"
proof (rule does_weaken [OF does_storage_same [where R = "\<lambda>v a. a = map_option fst (v k)"]])
  fix st :: "'v stored storage" and a t
  assume "storage_ok st" "try_get k st = Inr (a, t)"
  then show "storage_ok t \<and> view t = view st \<and> a = map_option fst (view st k)"
    using store.read_law by (fastforce simp: try_get_def bind_op_Inr)
qed (use assms in auto)

lemma does_get:
  assumes "watched cid k"
  shows "does cid (on_storage (get_with_host k)) (\<lambda>s e t. sn_entries s k = Some e \<and> t = s)"
proof (rule does_weaken [OF does_storage_same [where R = "\<lambda>v a. \<exists>l. v k = Some (a, l)"]])
  fix st :: "'v stored storage" and a t
  assume "storage_ok st" "get_with_host k st = Inr (a, t)"
  from get_view [OF this(2,1)] show "storage_ok t \<and> view t = view st \<and> (\<exists>l. view st k = Some (a, l))"
    by simp
qed (use assms in auto)

lemma does_get_live:
  assumes "watched cid k"
  shows "does cid (on_storage (get_with_live_until_ledger k))
    (\<lambda>s p t. sn_entries s k = Some (fst p) \<and> t = s)"
proof (rule does_weaken [OF does_storage_same [where R = "\<lambda>v a. v k = Some a"]])
  fix st :: "'v stored storage" and a t
  assume "storage_ok st" "get_with_live_until_ledger k st = Inr (a, t)"
  from get_live_view [OF this(2,1)] show "storage_ok t \<and> view t = view st \<and> view st k = Some a"
    by simp
qed (use assms in auto)

lemma does_has:
  assumes "watched cid k"
  shows "does cid (on_storage (has_with_host k)) (\<lambda>s b t. b = (sn_entries s k \<noteq> None) \<and> t = s)"
proof (rule does_weaken [OF does_storage_same [where R = "\<lambda>v a. a = (v k \<noteq> None)"]])
  fix st :: "'v stored storage" and a t
  assume "storage_ok st" "has_with_host k st = Inr (a, t)"
  from has_view [OF this(2,1)] show "storage_ok t \<and> view t = view st \<and> a = (view st k \<noteq> None)"
    by simp
qed (use assms in auto)

text \<open>Whatever key is read, nothing visible changes.\<close>

lemma does_get_any: "does cid (on_storage (get_with_host k)) (\<lambda>s e t. t = s)"
proof (rule does_weaken [OF does_storage_same [where R = "\<lambda>v a. True"]])
  fix st :: "'v stored storage" and a t
  assume "storage_ok st" "get_with_host k st = Inr (a, t)"
  from get_view [OF this(2,1)] show "storage_ok t \<and> view t = view st \<and> True" by simp
qed simp

lemma does_has_any: "does cid (on_storage (has_with_host k)) (\<lambda>s e t. t = s)"
proof (rule does_weaken [OF does_storage_same [where R = "\<lambda>v a. True"]])
  fix st :: "'v stored storage" and a t
  assume "storage_ok st" "has_with_host k st = Inr (a, t)"
  from has_view [OF this(2,1)] show "storage_ok t \<and> view t = view st \<and> True" by simp
qed simp

lemma does_put_any:
  "does cid (on_storage (put_with_host k e l))
    (\<lambda>s u t. t = (if watched cid k then s\<lparr>sn_entries := (sn_entries s)(k \<mapsto> e)\<rparr> else s))"
  unfolding does_def
proof (intro allI impI)
  fix h u h'
  assume h: "in_frame cid h" and "on_storage (put_with_host k e l) h = Inr (u, h')"
  then obtain t where t: "put_with_host k e l (h_storage h) = Inr (u, t)" "h' = h\<lparr>h_storage := t\<rparr>"
    by (auto simp: on_storage_Inr)
  from h have "storage_ok (h_storage h)" by (simp add: in_frame_def)
  note p = put_view [OF t(1) this]
  have "snap cid h' = (if watched cid k
      then (snap cid h)\<lparr>sn_entries := (sn_entries (snap cid h))(k \<mapsto> e)\<rparr> else snap cid h)"
    unfolding t(2) snap_storage by (auto simp: snap_def entries_of_def p(2) fun_eq_iff)
  with p(1) in_frame_storage [OF h] t(2)
  show "in_frame cid h' \<and> snap cid h' = (if watched cid k
      then (snap cid h)\<lparr>sn_entries := (sn_entries (snap cid h))(k \<mapsto> e)\<rparr> else snap cid h)" by simp
qed

lemma does_put:
  assumes "watched cid k"
  shows "does cid (on_storage (put_with_host k e l))
    (\<lambda>s u t. t = s\<lparr>sn_entries := (sn_entries s)(k \<mapsto> e)\<rparr>)"
  using does_put_any [of cid k e l] assms by simp

lemma does_extend_ttl [does_intro]: "does cid (storage_extend_ttl k thr ext) (\<lambda>s u t. t = s)"
  unfolding does_def
proof (intro allI impI)
  fix h u h'
  assume h: "in_frame cid h" and "storage_extend_ttl k thr ext h = Inr (u, h')"
  then obtain t where t: "st_extend_ttl (h_ledger h) k thr ext (h_storage h) = Inr (u, t)"
    "h' = h\<lparr>h_storage := t\<rparr>"
    by (auto simp: storage_extend_ttl_def on_storage_Inr)
  from h have "storage_ok (h_storage h)" by (simp add: in_frame_def)
  note x = extend_view [OF t(1) this]
  from x(1) have "entries_of cid t = entries_of cid (h_storage h)"
    by (auto simp: entries_of_def fun_eq_iff)
  then have "snap cid h' = snap cid h" unfolding t(2) snap_storage by (simp add: snap_def)
  with x(2) in_frame_storage [OF h] t(2) show "in_frame cid h' \<and> snap cid h' = snap cid h" by simp
qed

section \<open>The current contract\<close>

lemma does_contract_id [does_intro]:
  "does cid get_current_contract_id_internal (\<lambda>s c t. c = cid \<and> t = s)"
  by (auto simp: does_def get_current_contract_id_internal_def in_frame_def)

lemma does_contract_event [does_intro]: "does cid (contract_event topics payload) (\<lambda>s u t. t = s)"
  by (auto simp: does_def contract_event_def in_frame_def snap_def inst_map_def
      get_current_contract_id_opt_internal_def)

lemma does_key_from_val [does_intro]:
  "does cid (storage_key_from_val k d)
    (\<lambda>s key t. key = LKContractData (ContractAddr cid) k d \<and> t = s)"
  unfolding storage_key_from_val_def storage_key_for_address_def
  by (rule does_weaken, (rule does_intro)+) auto

lemma does_load_account [does_intro]:
  "does cid (load_account acc) (\<lambda>s ae t. sn_entries s (LKAccount acc) = Some (AccountE ae) \<and> t = s)"
proof -
  have acc: "does cid (case e of AccountE ae \<Rightarrow> ret ae | _ \<Rightarrow> fail (HostErr EStorage InternalError))
    (\<lambda>s ae t. e = AccountE ae \<and> t = s)" for e :: "'a stored ledger_entry"
    by (cases e) (simp_all add: does_def)
  show ?thesis unfolding load_account_def
    by (rule does_weaken [OF does_bind [OF does_get acc]]) auto
qed

section \<open>Instance storage\<close>

lemma with_instance_Inr:
  assumes "with_instance_storage f h = Inr (a, h')"
  obtains st c cs c' where "h_stack h = c # cs" "maybe_init_instance_storage c = Inr c'"
    "ctx_storage c' = Some st" "f st = Inr a" "h' = h\<lparr>h_stack := c' # cs\<rparr>"
  using assms
  by (auto simp: with_instance_storage_def with_current_context_mut_def
      split: list.splits sum.splits option.splits)

lemma with_mut_instance_Inr:
  assumes "with_mut_instance_storage f h = Inr (a, h')"
  obtains st st' c cs c' where "h_stack h = c # cs" "maybe_init_instance_storage c = Inr c'"
    "ctx_storage c' = Some st" "f (st\<lparr>ism_modified := True\<rparr>) = Inr (a, st')"
    "h' = h\<lparr>h_stack := (c'\<lparr>ctx_storage := Some st'\<rparr>) # cs\<rparr>"
  using assms
  by (auto simp: with_mut_instance_storage_def with_current_context_mut_def
      split: list.splits sum.splits option.splits)

lemma maybe_init_frame: "maybe_init_instance_storage c = Inr c' \<Longrightarrow> ctx_frame c' = ctx_frame c"
  by (auto simp: maybe_init_instance_storage_def split: option.splits sum.splits)

text \<open>The instance storage of the frame is replaced by \<open>st\<close>.\<close>

lemma inst_replaced:
  assumes h: "in_frame cid h" and st: "h_stack h = c # cs" "ctx_frame c' = ctx_frame c"
    "ctx_storage c' = Some st" "omap_sorted (\<lambda>_. True) compare_host_val (ism_map st)"
    "length (ism_map st) < 2 ^ 32"
  shows "in_frame cid (h\<lparr>h_stack := c' # cs\<rparr>)"
    and "snap cid (h\<lparr>h_stack := c' # cs\<rparr>) = (snap cid h)\<lparr>sn_instance := map_of (ism_map st)\<rparr>"
proof -
  have m: "inst_map (h\<lparr>h_stack := c' # cs\<rparr>) = Some (ism_map st)"
    by (simp add: inst_map_def maybe_init_instance_storage_def st(3))
  show "in_frame cid (h\<lparr>h_stack := c' # cs\<rparr>)"
    using h st(1,2,4,5)
    by (simp add: in_frame_def m get_current_contract_id_opt_internal_def del: length_map)
  show "snap cid (h\<lparr>h_stack := c' # cs\<rparr>) = (snap cid h)\<lparr>sn_instance := map_of (ism_map st)\<rparr>"
    by (simp add: snap_def m)
qed

lemma inst_current:
  assumes "in_frame cid h" and "h_stack h = c # cs" "maybe_init_instance_storage c = Inr c'"
    "ctx_storage c' = Some st"
  shows "omap_sorted (\<lambda>_. True) compare_host_val (ism_map st)" and "length (ism_map st) < 2 ^ 32"
    and "sn_instance (snap cid h) = map_of (ism_map st)"
  using assms by (simp_all add: in_frame_def snap_def inst_map_def)

lemma does_with_instance:
  assumes "\<And>st a. omap_sorted (\<lambda>_. True) compare_host_val (ism_map st) \<Longrightarrow> f st = Inr a \<Longrightarrow>
    R (map_of (ism_map st)) a"
  shows "does cid (with_instance_storage f) (\<lambda>s a t. R (sn_instance s) a \<and> t = s)"
  unfolding does_def
proof (intro allI impI)
  fix h a h'
  assume h: "in_frame cid h" and "with_instance_storage f h = Inr (a, h')"
  from with_instance_Inr [OF this(2)] obtain st c cs c' where
    st: "h_stack h = c # cs" "maybe_init_instance_storage c = Inr c'" "ctx_storage c' = Some st"
    and a: "f st = Inr a" and h': "h' = h\<lparr>h_stack := c' # cs\<rparr>" .
  note cur = inst_current [OF h st]
  note r = inst_replaced [OF h st(1) maybe_init_frame [OF st(2)] st(3) cur(1,2)]
  have "snap cid h' = snap cid h" using r(2) cur(3) h' by simp
  with r(1) h' assms [OF cur(1) a] cur(3)
  show "in_frame cid h' \<and> R (sn_instance (snap cid h)) a \<and> snap cid h' = snap cid h" by simp
qed

lemma does_get_instance [does_intro]:
  "does cid (get_contract_data k InstanceT) (\<lambda>s v t. (\<exists>x. v = DataVal x \<and> sn_instance s k = Some x) \<and> t = s)"
  unfolding get_contract_data_def storage_type.case
  by (rule does_with_instance [where R = "\<lambda>m v. \<exists>x. v = DataVal x \<and> m k = Some x"])
    (auto simp: vals.get_map_of split: option.splits)

lemma does_has_instance [does_intro]:
  "does cid (has_contract_data k InstanceT) (\<lambda>s b t. b = (sn_instance s k \<noteq> None) \<and> t = s)"
  unfolding has_contract_data_def storage_type.case
  by (rule does_with_instance [where R = "\<lambda>m b. b = (m k \<noteq> None)"])
    (auto simp: vals.get_map_of split: option.splits)

lemma does_put_instance [does_intro]:
  "does cid (put_contract_data k v InstanceT)
    (\<lambda>s u t. t = s\<lparr>sn_instance := (sn_instance s)(k \<mapsto> v)\<rparr>)"
  unfolding does_def put_contract_data_def storage_type.case
proof (intro allI impI)
  let ?f = "\<lambda>s. case omap_insert compare_host_val k v (ism_map s) of
      Inl e \<Rightarrow> Inl e | Inr m \<Rightarrow> Inr ((), s\<lparr>ism_map := m\<rparr>)"
  fix h :: "'a host" and u h'
  assume h: "in_frame cid h" and "with_mut_instance_storage ?f h = Inr (u, h')"
  from with_mut_instance_Inr [OF this(2)] obtain st st' c cs c' where
    st: "h_stack h = c # cs" "maybe_init_instance_storage c = Inr c'" "ctx_storage c' = Some st"
    and f: "?f (st\<lparr>ism_modified := True\<rparr>) = Inr (u, st')"
    and h': "h' = h\<lparr>h_stack := (c'\<lparr>ctx_storage := Some st'\<rparr>) # cs\<rparr>" .
  note cur = inst_current [OF h st]
  obtain m where m: "omap_insert compare_host_val k v (ism_map st) = Inr m" "ism_map st' = m"
    using f by (auto split: sum.splits)
  note ins = vals.insert_Inr [OF m(1) cur(1) TrueI cur(2)]
  have "ctx_frame (c'\<lparr>ctx_storage := Some st'\<rparr>) = ctx_frame c" using maybe_init_frame [OF st(2)] by simp
  note r = inst_replaced [OF h st(1) this, of st']
  with ins m(2) cur(3) h' show "in_frame cid h' \<and>
      snap cid h' = (snap cid h)\<lparr>sn_instance := (sn_instance (snap cid h))(k \<mapsto> v)\<rparr>" by simp
qed

section \<open>Contract data\<close>

abbreviation own_key :: "hash \<Rightarrow> sc_val \<Rightarrow> durability \<Rightarrow> ledger_key" where
  "own_key cid k d \<equiv> LKContractData (ContractAddr cid) k d"

lemma bind_at: "m h = Inr (a, h1) \<Longrightarrow> bind_op m f h = f a h1"
  by (simp add: bind_op_eval)

lemma key_at: "in_frame cid h \<Longrightarrow> storage_key_from_val k d h = Inr (own_key cid k d, h)"
  by (simp add: storage_key_from_val_def bind_op_eval get_current_contract_id_internal_def
      storage_key_for_address_def in_frame_def)

lemma does_get_data:
  assumes "plain_key k" and "storage_durability ty = Inr d"
  shows "does cid (get_contract_data k ty)
    (\<lambda>s v t. (\<exists>c k' d'. sn_entries s (own_key cid k d) = Some (ContractDataE c k' d' v)) \<and> t = s)"
proof -
  have entry: "does cid (case e of ContractDataE _ _ _ v \<Rightarrow> ret v | _ \<Rightarrow> fail (HostErr EStorage InternalError))
      (\<lambda>s v t. (\<exists>c k' d'. e = ContractDataE c k' d' v) \<and> t = s)" for e :: "'a stored ledger_entry"
    by (cases e) (simp_all add: does_def)
  have at_key: "does cid (bind_op (on_storage (get_with_host (own_key cid k d))) (\<lambda>entry.
      case entry of ContractDataE _ _ _ v \<Rightarrow> ret v | _ \<Rightarrow> fail (HostErr EStorage InternalError)))
    (\<lambda>(s :: 'a snap) v t. (\<exists>c k' d'. sn_entries s (own_key cid k d) = Some (ContractDataE c k' d' v)) \<and> t = s)"
    by (rule does_weaken [OF does_bind [OF does_get entry]]) (use assms(1) in auto)
  show ?thesis
    unfolding does_def
  proof (intro allI impI)
    fix h :: "'a host" and v h'
    assume h: "in_frame cid h" and run: "get_contract_data k ty h = Inr (v, h')"
    have "ty \<noteq> InstanceT" using assms(2) by auto
    then have "get_contract_data k ty h = bind_op (on_storage (get_with_host (own_key cid k d))) (\<lambda>entry.
      case entry of ContractDataE _ _ _ v \<Rightarrow> ret v | _ \<Rightarrow> fail (HostErr EStorage InternalError)) h"
      using h assms(2)
      by (cases ty) (simp_all add: get_contract_data_def bind_op_eval storage_key_from_val_def
          get_current_contract_id_internal_def storage_key_for_address_def in_frame_def)
    with doesD [OF at_key h] run show "in_frame cid h' \<and>
      (\<exists>c k' d'. sn_entries (snap cid h) (own_key cid k d) = Some (ContractDataE c k' d' v)) \<and>
      snap cid h' = snap cid h" by simp
  qed
qed

lemma does_has_data:
  assumes "plain_key k" and "storage_durability ty = Inr d"
  shows "does cid (has_contract_data k ty) (\<lambda>s b t. b = (sn_entries s (own_key cid k d) \<noteq> None) \<and> t = s)"
  unfolding does_def
proof (intro allI impI)
  fix h :: "'a host" and b h'
  assume h: "in_frame cid h" and run: "has_contract_data k ty h = Inr (b, h')"
  have "ty \<noteq> InstanceT" using assms(2) by auto
  then have "has_contract_data k ty h = on_storage (has_with_host (own_key cid k d)) h"
    using h assms(2)
    by (cases ty) (simp_all add: has_contract_data_def bind_op_eval storage_key_from_val_def
        get_current_contract_id_internal_def storage_key_for_address_def in_frame_def)
  with run have "on_storage (has_with_host (own_key cid k d)) h = Inr (b, h')" by simp
  moreover have "watched cid (own_key cid k d)" using assms(1) by simp
  ultimately show "in_frame cid h' \<and> b = (sn_entries (snap cid h) (own_key cid k d) \<noteq> None) \<and>
      snap cid h' = snap cid h"
    using doesD [OF does_has h] by blast
qed

lemma does_extend_data [does_intro]: "does cid (extend_contract_data_ttl k ty thr ext) (\<lambda>s u t. t = s)"
proof (cases "ty = InstanceT")
  case True
  then show ?thesis by (simp add: extend_contract_data_ttl_def does_def)
next
  case False
  then show ?thesis unfolding extend_contract_data_ttl_def
    by (simp only: if_False) (rule does_weaken, (rule does_intro)+, auto)
qed

text \<open>A write replaces the entry of the key by contract data with the value.\<close>

lemma does_put_data:
  assumes "plain_key k" and "storage_durability ty = Inr d"
  shows "does cid (put_contract_data k v ty)
    (\<lambda>s u t. \<exists>c k' d'. t = s\<lparr>sn_entries := (sn_entries s)(own_key cid k d \<mapsto>
        ContractDataE c k' d' (DataVal v))\<rparr>)"
proof -
  let ?K = "own_key cid k d"
  have K: "watched cid ?K" using assms(1) by simp
  have over: "does cid (case cur of
        ContractDataE c k' d' _ \<Rightarrow> on_storage (put_with_host ?K (ContractDataE c k' d' (DataVal v)) l)
      | _ \<Rightarrow> fail (HostErr EStorage InternalError))
    (\<lambda>s u t. \<exists>c k' d'. t = s\<lparr>sn_entries := (sn_entries s)(?K \<mapsto> ContractDataE c k' d' (DataVal v))\<rparr>)"
    for cur :: "'a stored ledger_entry" and l
  proof (cases cur)
    case (ContractDataE c k' d' x)
    show ?thesis unfolding ContractDataE ledger_entry.case
      by (rule does_weaken [OF does_put [OF K]]) blast
  qed (simp_all add: does_def)
  have new: "does cid (bind_op get_current_contract_id_internal (\<lambda>c.
       bind_op (\<lambda>h. of_result (get_min_live_until_ledger (h_ledger h) d) h) (\<lambda>l.
         on_storage (put_with_host ?K (ContractDataE (ContractAddr c) k d (DataVal v)) (Some l)))))
    (\<lambda>s u t. \<exists>c k' d'. t = s\<lparr>sn_entries := (sn_entries s)(?K \<mapsto> ContractDataE c k' d' (DataVal v))\<rparr>)"
    by (rule does_weaken [OF does_bind [OF does_contract_id does_bind [OF does_of_ledger does_put [OF K]]]]) auto
  have all: "does cid (bind_op (on_storage (has_with_host ?K)) (\<lambda>present.
      if present then
        bind_op (on_storage (get_with_live_until_ledger ?K)) (\<lambda>(cur, l). case cur of
            ContractDataE c k' d' _ \<Rightarrow> on_storage (put_with_host ?K (ContractDataE c k' d' (DataVal v)) l)
          | _ \<Rightarrow> fail (HostErr EStorage InternalError))
      else bind_op get_current_contract_id_internal (\<lambda>c.
       bind_op (\<lambda>h. of_result (get_min_live_until_ledger (h_ledger h) d) h) (\<lambda>l.
         on_storage (put_with_host ?K (ContractDataE (ContractAddr c) k d (DataVal v)) (Some l))))))
    (\<lambda>s u t. \<exists>c k' d'. t = s\<lparr>sn_entries := (sn_entries s)(?K \<mapsto> ContractDataE c k' d' (DataVal v))\<rparr>)"
    by (rule does_weaken [OF does_bind [OF does_has [OF K]
          does_if [OF does_bind [OF does_get_live [OF K] does_prod [OF over]] new]]])
      (auto split: prod.splits if_splits)
  show ?thesis
    unfolding does_def
  proof (intro allI impI)
    fix h :: "'a host" and u h'
    assume h: "in_frame cid h" and run: "put_contract_data k v ty h = Inr (u, h')"
    have t: "ty \<noteq> InstanceT" using assms(2) by auto
    from t have "put_contract_data k v ty h = put_contract_data_into_ledger k v ty h"
      by (cases ty) (simp_all add: put_contract_data_def)
    also have "\<dots> = bind_op (on_storage (has_with_host ?K)) (\<lambda>present.
      if present then
        bind_op (on_storage (get_with_live_until_ledger ?K)) (\<lambda>(cur, l). case cur of
            ContractDataE c k' d' _ \<Rightarrow> on_storage (put_with_host ?K (ContractDataE c k' d' (DataVal v)) l)
          | _ \<Rightarrow> fail (HostErr EStorage InternalError))
      else bind_op get_current_contract_id_internal (\<lambda>c.
       bind_op (\<lambda>h. of_result (get_min_live_until_ledger (h_ledger h) d) h) (\<lambda>l.
         on_storage (put_with_host ?K (ContractDataE (ContractAddr c) k d (DataVal v)) (Some l))))) h"
    proof -
      have dur: "of_result (storage_durability ty) h = Inr (d, h)" using assms(2) by simp
      show ?thesis unfolding put_contract_data_into_ledger_def
        by (simp only: bind_at [where m = "of_result (storage_durability ty)", OF dur]
            bind_at [where m = "storage_key_from_val k d", OF key_at [OF h]])
    qed
    finally show "in_frame cid h' \<and> (\<exists>c k' d'. snap cid h' = (snap cid h)\<lparr>sn_entries :=
        (sn_entries (snap cid h))(?K \<mapsto> ContractDataE c k' d' (DataVal v))\<rparr>)"
      using doesD [OF all h] run by simp
  qed
qed

end
