(* ===== verification/Host_Calm.thy ===== *)
theory Host_Calm
  imports Host_Triples
begin

text \<open>
  A request for authorization that is granted changes nothing a running contract depends on: it matches
  trackers, reads accounts and stores nonces. The call of an account contract's \<open>__check_auth\<close> is
  assumed to be such a computation as well; the contract that is running is on the stack meanwhile, and cannot be
  entered again.
\<close>

definition calm :: "hash \<Rightarrow> ('v, 'a) body \<Rightarrow> bool" where
  "calm cid f \<longleftrightarrow> body_does cid f (\<lambda>s a t. t = s)"

definition calm_world :: "hash \<Rightarrow> 'v auth_world \<Rightarrow> bool" where
  "calm_world cid world \<longleftrightarrow>
     (\<forall>acc payload signature contexts. calm cid (aw_check_auth world acc payload signature contexts))"

definition settles :: "hash \<Rightarrow> 'v host \<Rightarrow> 'v host \<Rightarrow> bool" where
  "settles cid h h' \<longleftrightarrow> in_frame cid h' \<and> snap cid h' = snap cid h"

lemma calm_iff: "calm cid f \<longleftrightarrow> (\<forall>h a h'. in_frame cid h \<longrightarrow> f h = (Inr a, h') \<longrightarrow> settles cid h h')"
  by (simp add: calm_def body_does_def settles_def)

lemma calmD: "calm cid f \<Longrightarrow> in_frame cid h \<Longrightarrow> f h = (Inr a, h') \<Longrightarrow> settles cid h h'"
  by (simp add: calm_iff)

lemma settles_refl: "in_frame cid h \<Longrightarrow> settles cid h h"
  by (simp add: settles_def)

lemma settles_trans: "settles cid h h1 \<Longrightarrow> settles cid h1 h' \<Longrightarrow> settles cid h h'"
  by (simp add: settles_def)

lemma settles_frame: "settles cid h h' \<Longrightarrow> in_frame cid h'"
  by (simp add: settles_def)

lemma in_frame_auth [simp]: "in_frame cid (h\<lparr>h_auth := m\<rparr>) = in_frame cid h"
  by (simp add: in_frame_def inst_map_def get_current_contract_id_opt_internal_def)

lemma snap_auth [simp]: "snap cid (h\<lparr>h_auth := m\<rparr>) = snap cid h"
  by (simp add: snap_def inst_map_def)

lemma set_cell_calm [simp]:
  "in_frame cid (set_cell i t b h) = in_frame cid h" "snap cid (set_cell i t b h) = snap cid h"
  "in_frame cid (set_accounts ts h) = in_frame cid h" "snap cid (set_accounts ts h) = snap cid h"
  by (simp_all add: set_cell_def set_accounts_def)

lemma set_handles_calm [simp]:
  "in_frame cid (set_handles hs h) = in_frame cid h" "snap cid (set_handles hs h) = snap cid h"
  by (simp_all add: set_handles_def split: authorization_mode.split)

lemma settles_set [simp]:
  "settles cid (set_cell i t b h) h' = settles cid h h'" "settles cid h (set_cell i t b h') = settles cid h h'"
  "settles cid h (set_accounts ts h') = settles cid h h'"
  "settles cid (set_handles hs h) h' = settles cid h h'" "settles cid h (set_handles hs h') = settles cid h h'"
  by (simp_all add: settles_def)

lemma lift_op_Inr: "lift_op f h = (Inr a, h') \<longleftrightarrow> f h = Inr (a, h')"
  by (auto simp: lift_op_def split: sum.splits)

lemma calm_lift:
  assumes "does cid f (\<lambda>s a t. t = s)"
  shows "calm cid (lift_op f)"
  using assms unfolding calm_def body_does_def does_def lift_op_Inr by blast

lemma quietD:
  assumes "does cid f (\<lambda>s a t. t = s)" and "in_frame cid h" and "f h = Inr (a, h')"
  shows "settles cid h h'"
  using doesD [OF assms] by (simp add: settles_def)

lemma does_quiet_bind:
  assumes "does cid f (\<lambda>s a t. t = s)" and "\<And>a. does cid (g a) (\<lambda>s a t. t = s)"
  shows "does cid (bind_op f g) (\<lambda>s a t. t = s)"
  by (rule does_weaken [OF does_bind [OF assms]]) simp

lemma does_quiet_if:
  assumes "does cid f (\<lambda>s a t. t = s)" and "does cid g (\<lambda>s a t. t = s)"
  shows "does cid (if b then f else g) (\<lambda>s a t. t = s)"
  using assms by simp

lemma does_quiet:
  "does cid (ret a) (\<lambda>s a t. t = s)" "does cid (fail e) (\<lambda>s a t. t = s)"
  "does cid (of_result r) (\<lambda>s a t. t = s)" "does cid (ok_or e x) (\<lambda>s a t. t = s)"
  "does cid (reads g') (\<lambda>s a t. t = s)" "does cid (\<lambda>h. of_result (g h) h) (\<lambda>s a t. t = s)"
  by (simp_all add: does_def of_result_Inr ok_or_Inr)

lemmas quiet_intros = does_quiet_bind does_quiet_if does_quiet

section \<open>Authentication and nonces\<close>

lemma check_account_calm: "does cid (check_account_authentication world acc payload signature) (\<lambda>s a t. t = s)"
  unfolding check_account_authentication_def
  by (intro quiet_intros does_weaken [OF does_load_account]) blast

lemma consume_nonce_calm: "does cid (consume_nonce world a nonce l) (\<lambda>s a t. t = s)"
proof -
  have put: "does cid (on_storage (put_with_host
        (storage_key_for_address a (LedgerKeyNonceV nonce) Temporary) e lv)) (\<lambda>s a t. t = s)" for e lv
    by (rule does_weaken [OF does_put_any]) (simp add: storage_key_for_address_def)
  show ?thesis unfolding consume_nonce_def Let_def
    by (intro quiet_intros does_has_any put)
qed

lemma verify_nonce_calm: "does cid (verify_and_consume_nonce world t) (\<lambda>s a t. t = s)"
  unfolding verify_and_consume_nonce_def
  by (cases "at_nonce t") (auto intro!: quiet_intros consume_nonce_calm split: prod.split)

lemma authenticate_calm:
  assumes "calm_world cid world" and "in_frame cid h" and "authenticate world t h = (Inr a, h')"
  shows "settles cid h h'"
proof (cases "at_is_source t")
  case True
  with assms show ?thesis by (simp add: authenticate_def settles_refl)
next
  case False
  with assms(3) obtain payload where p: "get_signature_payload world (h_ledger h) t = Inr payload"
    by (auto simp: authenticate_def split: sum.splits)
  show ?thesis
  proof (cases "at_address t")
    case (AccountAddr acc)
    then show ?thesis
      using quietD [OF check_account_calm assms(2)] assms(3) False p
      by (simp add: authenticate_def lift_op_Inr)
  next
    case (ContractAddr acc)
    then obtain ctxs where run: "aw_check_auth world acc payload (at_signature t) ctxs h = (Inr a, h')"
      using assms(3) False p by (auto simp: authenticate_def check_account_contract_auth_def split: sum.splits)
    have "calm cid (aw_check_auth world acc payload (at_signature t) ctxs)"
      using assms(1) by (simp add: calm_world_def)
    from calmD [OF this assms(2) run] show ?thesis .
  qed
qed

section \<open>Requests\<close>

lemma maybe_authorize_calm:
  assumes "calm_world cid world" and h: "in_frame cid h"
    and run: "maybe_authorize_invocation world i f allow h = (Inr b, h')"
  shows "settles cid h h'"
proof -
  let ?t = "tc_tracker (am_accounts (h_auth h) ! i)"
  obtain m inv where m: "maybe_extend_invocation_match f allow (at_invocation ?t) = Inr (m, inv)"
    using run by (auto simp: maybe_authorize_invocation_def Let_def split: sum.splits)
  let ?t' = "?t\<lparr>at_invocation := inv\<rparr>"
  show ?thesis
  proof (cases "m \<and> \<not> at_verified ?t")
    case False
    with run m h show ?thesis
      by (cases m) (auto simp: maybe_authorize_invocation_def Let_def settles_refl)
  next
    case True
    obtain r h1 where a: "authenticate world ?t' (set_cell i ?t' True h) = (r, h1)"
      by (cases "authenticate world ?t' (set_cell i ?t' True h)")
    with run m True obtain u where r: "r = Inr u"
      by (cases r) (simp_all add: maybe_authorize_invocation_def Let_def)
    obtain r2 h2 where v: "lift_op (verify_and_consume_nonce world ?t') h1 = (r2, h2)"
      by (cases "lift_op (verify_and_consume_nonce world ?t') h1")
    with run m True a r obtain u2 where r2: "r2 = Inr u2" and h': "h' = set_cell i (?t'\<lparr>at_verified := True\<rparr>) False h2"
      by (cases r2) (simp_all add: maybe_authorize_invocation_def Let_def)
    have 1: "settles cid h h1"
      using authenticate_calm [OF assms(1) _ a [unfolded r]] h by simp
    have "settles cid h1 h2"
      using calmD [OF calm_lift [OF verify_nonce_calm] settles_frame [OF 1] v [unfolded r2]] .
    with 1 h' show ?thesis by (simp add: settles_trans [OF 1])
  qed
qed

lemma trackers_calm:
  assumes w: "calm_world cid world"
  shows "in_frame cid h \<Longrightarrow> require_auth_trackers world a f allow is h = (Inr u, h') \<Longrightarrow> settles cid h h'"
proof (induction "is" arbitrary: h)
  case (Cons i "is")
  show ?case
  proof (cases "tc_borrowed (am_accounts (h_auth h) ! i) \<or>
      compare_address (at_address (tc_tracker (am_accounts (h_auth h) ! i))) a \<noteq> Equal")
    case True
    with Cons.IH [OF Cons.prems(1)] Cons.prems(2) show ?thesis by (simp add: Let_def)
  next
    case False
    obtain r h1 where r: "maybe_authorize_invocation world i f allow h = (r, h1)"
      by (cases "maybe_authorize_invocation world i f allow h")
    with False Cons.prems(2) obtain b where b: "r = Inr b"
      and rest: "(if b then (Inr (), h1) else require_auth_trackers world a f allow is h1) = (Inr u, h')"
      by (cases r) (auto simp: Let_def split: bool.splits)
    have 1: "settles cid h h1" by (rule maybe_authorize_calm [OF w Cons.prems(1) r [unfolded b]])
    show ?thesis
    proof (cases b)
      case True
      with rest 1 show ?thesis by simp
    next
      case False
      with rest Cons.IH [OF settles_frame [OF 1]] show ?thesis by (simp add: settles_trans [OF 1])
    qed
  qed
qed simp

lemma record_in_cell_calm:
  "in_frame cid h \<Longrightarrow> record_in_cell i f h = (Inr u, h') \<Longrightarrow> settles cid h h'"
  by (auto simp: record_in_cell_def settles_refl split: sum.splits)

lemma account_new_recording_calm: "does cid (account_new_recording world nonce a f n) (\<lambda>s a t. t = s)"
proof -
  have src: "does cid (reads h_source_account) (\<lambda>s a t. t = s)" by (simp add: does_def)
  have drawn: "does cid (then_op (consume_nonce world a nonce l) (ret x)) (\<lambda>s a t. t = s)" for l and x :: "'b"
    by (rule does_weaken [OF does_then [OF consume_nonce_calm does_ret]]) simp
  show ?thesis unfolding account_new_recording_def Let_def
    by (intro quiet_intros src drawn)
qed

lemma record_new_calm:
  assumes "in_frame cid h" and "record_with_new_tracker world nonce handle dis a f h = (Inr u, h')"
  shows "settles cid h h'"
proof -
  let ?new = "account_new_recording world nonce a f (length (am_call_stack (h_auth h)))"
  obtain t h1 where t: "?new h = Inr (t, h1)"
    using assms(2) by (auto simp: record_with_new_tracker_def split: if_splits sum.splits)
  have 1: "settles cid h h1"
    by (rule quietD [OF account_new_recording_calm assms(1) t])
  with t assms(2) show ?thesis
    by (auto simp: record_with_new_tracker_def Let_def split: if_splits authorization_mode.splits)
qed

lemma recording_calm:
  assumes "in_frame cid h" and "require_auth_recording world nonce handle a f info h = (Inr u, h')"
  shows "settles cid h h'"
proof -
  have search: "settles cid g h'"
    if "in_frame cid g" and "(case find_recording_tracker a 0 (am_accounts (h_auth g)) of
        None \<Rightarrow> (Inl (HostErr EAuth InternalError), g)
      | Some (Some i) \<Rightarrow> record_in_cell i f g
      | Some None \<Rightarrow>
          record_with_new_tracker world nonce handle (rec_disable_non_root_auth info) a f g) = (Inr u, h')"
    for g
    using that(2) record_in_cell_calm [OF that(1)] record_new_calm [OF that(1)]
    by (auto split: option.splits)
  show ?thesis
    using assms search [OF assms(1)] search [of "set_handles ((rec_handles info)(handle := None)) h"]
      record_in_cell_calm [OF assms(1)]
    by (auto simp: require_auth_recording_def Let_def split: option.splits if_splits)
qed

lemma require_auth_calm:
  assumes w: "calm_world cid world"
  shows "calm cid (host_require_auth world nonce handle a)"
  unfolding calm_iff
proof (intro allI impI)
  fix h u h'
  assume h: "in_frame cid h" and "host_require_auth world nonce handle a h = (Inr u, h')"
  then obtain f where run: "require_auth_internal world nonce handle a f h = (Inr u, h')"
    by (auto simp: host_require_auth_def am_require_auth_def split: list.splits option.splits if_splits)
  then obtain b m where m: "maybe_check_invoker_contract_auth a f (h_auth h) = Inr (b, m)"
    by (auto simp: require_auth_internal_def split: sum.splits)
  let ?h = "h\<lparr>h_auth := m\<rparr>"
  have h1: "in_frame cid ?h" and s: "settles cid h h' = settles cid ?h h'" using h by (simp_all add: settles_def)
  show "settles cid h h'"
  proof (cases b)
    case True
    with run m h show ?thesis by (auto simp: require_auth_internal_def settles_def)
  next
    case False
    then show ?thesis
      unfolding s using run m trackers_calm [OF w h1] recording_calm [OF h1]
      by (auto simp: require_auth_internal_def require_auth_enforcing_def split: authorization_mode.splits)
  qed
qed

end
