(* ===== verification/Sac_Inv.thy ===== *)
theory Sac_Inv
  imports Sac Host_Calm
begin

text \<open>
  The Stellar asset contract seen as a token: balances, authorizations, allowances and an administrator, read
  off a snapshot (\<open>token_of\<close>), and what the operations of the contract do to them. Where an operation
  succeeds its effect on the token is the one stated, in both modes of the storage.
\<close>

section \<open>The token of a snapshot\<close>

type_synonym sac_snap = "sac_value snap"

fun issuer_of :: "asset \<Rightarrow> hash option" where
  "issuer_of NativeAsset = None"
| "issuer_of (CreditAlphanum4 _ i) = Some i"
| "issuer_of (CreditAlphanum12 _ i) = Some i"

fun trustline_of :: "asset \<Rightarrow> trustline_asset" where
  "trustline_of NativeAsset = TLNative"
| "trustline_of (CreditAlphanum4 c i) = TLAlphanum4 c i"
| "trustline_of (CreditAlphanum12 c i) = TLAlphanum12 c i"

definition is_issuer :: "asset \<Rightarrow> address \<Rightarrow> bool" where
  "is_issuer ast a \<longleftrightarrow> (case a of AccountAddr acc \<Rightarrow> issuer_of ast = Some acc | ContractAddr _ \<Rightarrow> False)"

definition asset_in :: "sac_snap \<Rightarrow> asset option" where
  "asset_in s =
     (case sn_instance s asset_info_key of
        Some (AssetInfoVal info) \<Rightarrow> (case asset_from_info info of Inr ast \<Rightarrow> Some ast | Inl _ \<Rightarrow> None)
      | _ \<Rightarrow> None)"

definition admin_in :: "sac_snap \<Rightarrow> address option" where
  "admin_in s = (case sn_instance s admin_key of Some (AddressVal a) \<Rightarrow> Some a | _ \<Rightarrow> None)"

definition data_at :: "hash \<Rightarrow> sac_snap \<Rightarrow> sc_val \<Rightarrow> durability \<Rightarrow> sac_value option" where
  "data_at cid s k d =
     (case sn_entries s (own_key cid k d) of
        Some (ContractDataE _ _ _ (DataVal v)) \<Rightarrow> Some v
      | _ \<Rightarrow> None)"

definition account_in :: "sac_snap \<Rightarrow> hash \<Rightarrow> account_entry option" where
  "account_in s acc = (case sn_entries s (LKAccount acc) of Some (AccountE ae) \<Rightarrow> Some ae | _ \<Rightarrow> None)"

definition trustline_in :: "sac_snap \<Rightarrow> hash \<Rightarrow> trustline_asset \<Rightarrow> trustline_entry option" where
  "trustline_in s acc a =
     (case sn_entries s (LKTrustline acc a) of Some (TrustlineE line) \<Rightarrow> Some line | _ \<Rightarrow> None)"

definition contract_balance :: "hash \<Rightarrow> sac_snap \<Rightarrow> address \<Rightarrow> balance_value option" where
  "contract_balance cid s a =
     (case data_at cid s (balance_key a) Persistent of Some (BalanceVal b) \<Rightarrow> Some b | _ \<Rightarrow> None)"

text \<open>The issuer, whose supply is unlimited, counts with zero.\<close>

definition balance_in :: "hash \<Rightarrow> asset \<Rightarrow> sac_snap \<Rightarrow> address \<Rightarrow> int" where
  "balance_in cid ast s a =
     (case a of
        ContractAddr _ \<Rightarrow> (case contract_balance cid s a of Some b \<Rightarrow> sint (bal_amount b) | None \<Rightarrow> 0)
      | AccountAddr acc \<Rightarrow>
          if ast = NativeAsset
          then (case account_in s acc of Some ae \<Rightarrow> sint (ae_balance ae) | None \<Rightarrow> 0)
          else if issuer_of ast = Some acc then 0
          else (case trustline_in s acc (trustline_of ast) of Some line \<Rightarrow> sint (tl_balance line) | None \<Rightarrow> 0))"

definition issuer_requires :: "asset \<Rightarrow> sac_snap \<Rightarrow> bool" where
  "issuer_requires ast s \<longleftrightarrow>
     (case issuer_of ast of
        None \<Rightarrow> False
      | Some i \<Rightarrow> (case account_in s i of Some ae \<Rightarrow> has_flag (ae_flags ae) REQUIRED_FLAG | None \<Rightarrow> False))"

definition authorized_in :: "hash \<Rightarrow> asset \<Rightarrow> sac_snap \<Rightarrow> address \<Rightarrow> bool" where
  "authorized_in cid ast s a \<longleftrightarrow>
     (case a of
        ContractAddr _ \<Rightarrow>
          (case contract_balance cid s a of Some b \<Rightarrow> bal_authorized b | None \<Rightarrow> \<not> issuer_requires ast s)
      | AccountAddr acc \<Rightarrow>
          ast = NativeAsset \<or> issuer_of ast = Some acc \<or>
          (case trustline_in s acc (trustline_of ast) of
             Some line \<Rightarrow> has_flag (tl_flags line) AUTHORIZED_FLAG | None \<Rightarrow> False))"

definition allowance_in :: "hash \<Rightarrow> sac_snap \<Rightarrow> address \<times> address \<Rightarrow> (int \<times> u32) option" where
  "allowance_in cid s p =
     (case data_at cid s (allowance_key (fst p) (snd p)) Temporary of
        Some (AllowanceVal v) \<Rightarrow> Some (sint (alw_amount v), alw_live_until_ledger v)
      | _ \<Rightarrow> None)"

record token =
  tk_asset :: asset
  tk_ledger :: ledger_info
  tk_admin :: "address option"
  tk_balance :: "address \<Rightarrow> int"
  tk_authorized :: "address \<Rightarrow> bool"
  tk_allowance :: "address \<times> address \<Rightarrow> (int \<times> u32) option"

definition token_of :: "hash \<Rightarrow> asset \<Rightarrow> sac_snap \<Rightarrow> token" where
  "token_of cid ast s =
     \<lparr>tk_asset = ast, tk_ledger = sn_ledger s, tk_admin = admin_in s, tk_balance = balance_in cid ast s,
      tk_authorized = authorized_in cid ast s, tk_allowance = allowance_in cid s\<rparr>"

section \<open>Writes of entries\<close>

lemma keys_distinct [simp]:
  "balance_key a = balance_key b \<longleftrightarrow> a = b" "balance_key a \<noteq> allowance_key f p"
  "allowance_key f p \<noteq> balance_key a"
  "allowance_key f p = allowance_key f' p' \<longleftrightarrow> f = f' \<and> p = p'"
  "plain_key (balance_key a)" "plain_key (allowance_key f p)"
  by (auto simp: balance_key_def allowance_key_def)

abbreviation put_entry :: "ledger_key \<Rightarrow> sac_value stored ledger_entry \<Rightarrow> sac_snap \<Rightarrow> sac_snap" where
  "put_entry k e s \<equiv> s\<lparr>sn_entries := (sn_entries s)(k \<mapsto> e)\<rparr>"

lemma put_entry_in [simp]:
  "asset_in (put_entry k e s) = asset_in s" "admin_in (put_entry k e s) = admin_in s"
  by (simp_all add: asset_in_def admin_in_def)

lemma account_in_put [simp]:
  "account_in (put_entry (own_key cid k d) e s) acc = account_in s acc"
  "account_in (put_entry (LKTrustline acc' tla) e s) acc = account_in s acc"
  "account_in (put_entry (LKAccount acc') (AccountE ae) s) acc = (if acc = acc' then Some ae else account_in s acc)"
  by (simp_all add: account_in_def)

lemma trustline_in_put [simp]:
  "trustline_in (put_entry (own_key cid k d) e s) acc a = trustline_in s acc a"
  "trustline_in (put_entry (LKAccount acc') e s) acc a = trustline_in s acc a"
  "trustline_in (put_entry (LKTrustline acc' tla) (TrustlineE line) s) acc a =
     (if acc = acc' \<and> a = tla then Some line else trustline_in s acc a)"
  by (simp_all add: trustline_in_def)

lemma data_at_put [simp]:
  "data_at cid (put_entry (LKAccount acc) e s) k d = data_at cid s k d"
  "data_at cid (put_entry (LKTrustline acc tla) e s) k d = data_at cid s k d"
  "data_at cid (put_entry (own_key cid k' d') (ContractDataE c k1 d1 (DataVal v)) s) k d =
     (if k = k' \<and> d = d' then Some v else data_at cid s k d)"
  by (simp_all add: data_at_def)

lemma contract_balance_put [simp]:
  "contract_balance cid (put_entry (LKAccount acc) e s) a = contract_balance cid s a"
  "contract_balance cid (put_entry (LKTrustline acc tla) e s) a = contract_balance cid s a"
  "contract_balance cid (put_entry (own_key cid (balance_key a') Persistent)
      (ContractDataE c k1 d1 (DataVal (BalanceVal b))) s) a = (if a = a' then Some b else contract_balance cid s a)"
  "contract_balance cid (put_entry (own_key cid k Temporary) (ContractDataE c k1 d1 (DataVal v)) s) a =
     contract_balance cid s a"
  by (simp_all add: contract_balance_def)

lemma allowance_in_put [simp]:
  "allowance_in cid (put_entry (LKAccount acc) e s) p = allowance_in cid s p"
  "allowance_in cid (put_entry (LKTrustline acc tla) e s) p = allowance_in cid s p"
  "allowance_in cid (put_entry (own_key cid k Persistent) (ContractDataE c k1 d1 (DataVal v)) s) p =
     allowance_in cid s p"
  "allowance_in cid (put_entry (own_key cid (allowance_key f q) Temporary)
      (ContractDataE c k1 d1 (DataVal (AllowanceVal w))) s) p =
     (if p = (f, q) then Some (sint (alw_amount w), alw_live_until_ledger w) else allowance_in cid s p)"
  by (simp_all add: allowance_in_def prod_eq_iff)

definition set_balance :: "address \<Rightarrow> int \<Rightarrow> token \<Rightarrow> token" where
  "set_balance a n tok = tok\<lparr>tk_balance := (tk_balance tok)(a := n)\<rparr>"

definition set_allowed :: "address \<Rightarrow> bool \<Rightarrow> token \<Rightarrow> token" where
  "set_allowed a b tok = tok\<lparr>tk_authorized := (tk_authorized tok)(a := b)\<rparr>"

text \<open>A contract's balance entry, a trustline or, of the native asset, an account is replaced.\<close>

lemma token_put_balance:
  "token_of cid ast (put_entry (own_key cid (balance_key (ContractAddr x)) Persistent)
      (ContractDataE c k1 d1 (DataVal (BalanceVal b))) s) =
     set_balance (ContractAddr x) (sint (bal_amount b))
       (set_allowed (ContractAddr x) (bal_authorized b) (token_of cid ast s))"
  by (auto simp: token_of_def set_balance_def set_allowed_def balance_in_def authorized_in_def fun_eq_iff
      issuer_requires_def split: address.split option.split)

lemma token_put_trustline:
  assumes "ast \<noteq> NativeAsset" and "issuer_of ast \<noteq> Some acc"
  shows "token_of cid ast (put_entry (LKTrustline acc (trustline_of ast)) (TrustlineE line) s) =
     set_balance (AccountAddr acc) (sint (tl_balance line))
       (set_allowed (AccountAddr acc) (has_flag (tl_flags line) AUTHORIZED_FLAG) (token_of cid ast s))"
  using assms
  by (auto simp: token_of_def set_balance_def set_allowed_def balance_in_def authorized_in_def fun_eq_iff
      issuer_requires_def split: address.split option.split)

lemma token_put_account:
  "token_of cid NativeAsset (put_entry (LKAccount acc) (AccountE ae) s) =
     set_balance (AccountAddr acc) (sint (ae_balance ae)) (token_of cid NativeAsset s)"
  by (auto simp: token_of_def set_balance_def balance_in_def authorized_in_def fun_eq_iff
      issuer_requires_def split: address.split option.split)

lemma token_put_allowance:
  "token_of cid ast (put_entry (own_key cid (allowance_key f q) Temporary)
      (ContractDataE c k1 d1 (DataVal (AllowanceVal w))) s) =
     (token_of cid ast s)\<lparr>tk_allowance := (tk_allowance (token_of cid ast s))((f, q) \<mapsto>
        (sint (alw_amount w), alw_live_until_ledger w))\<rparr>"
  by (auto simp: token_of_def balance_in_def authorized_in_def fun_eq_iff issuer_requires_def
      split: address.split option.split)

section \<open>Reading\<close>

lemma does_contract_fail [does_intro]: "does cid (contract_fail e) (\<lambda>s a t. False)"
  by (simp add: contract_fail_def does_fail)

lemma does_as_value [does_intro]:
  "does cid (as_balance v) (\<lambda>s b t. v = DataVal (BalanceVal b) \<and> t = s)"
  "does cid (as_allowance v) (\<lambda>s w t. v = DataVal (AllowanceVal w) \<and> t = s)"
  "does cid (as_address v) (\<lambda>s a t. v = DataVal (AddressVal a) \<and> t = s)"
  "does cid (as_asset_info v) (\<lambda>s i t. v = DataVal (AssetInfoVal i) \<and> t = s)"
  "does cid (as_metadata v) (\<lambda>s m t. v = DataVal (MetadataVal m) \<and> t = s)"
  by (cases v; simp add: does_def as_balance_def as_allowance_def as_address_def as_asset_info_def
      as_metadata_def split: sac_value.split)+

lemma does_as_entry [does_intro]:
  "does cid (as_account le) (\<lambda>s ae t. le = AccountE ae \<and> t = s)"
  "does cid (as_trustline le) (\<lambda>s line t. le = TrustlineE line \<and> t = s)"
  by (cases le; simp add: does_def as_account_def as_trustline_def contract_fail_def)+

lemma does_read_asset_info [does_intro]:
  "does cid read_asset_info (\<lambda>s i t. sn_instance s asset_info_key = Some (AssetInfoVal i) \<and> t = s)"
  unfolding read_asset_info_def by (rule does_weaken, (rule does_intro)+) auto

lemma does_read_asset [does_intro]: "does cid read_asset (\<lambda>s ast t. asset_in s = Some ast \<and> t = s)"
  unfolding read_asset_def by (rule does_weaken, (rule does_intro)+) (auto simp: asset_in_def)

lemma does_read_administrator [does_intro]:
  "does cid read_administrator (\<lambda>s a t. admin_in s = Some a \<and> t = s)"
  unfolding read_administrator_def by (rule does_weaken, (rule does_intro)+) (auto simp: admin_in_def)

lemma does_read_name [does_intro]: "does cid read_name (\<lambda>s a t. t = s)"
  unfolding read_name_def by (rule does_weaken, (rule does_intro)+) auto

lemma does_try_get_data:
  assumes "plain_key k" and "storage_durability ty = Inr d"
  shows "does cid (try_get_contract_data k ty) (\<lambda>s r t. t = s \<and>
    (case r of None \<Rightarrow> sn_entries s (own_key cid k d) = None
     | Some v \<Rightarrow> \<exists>c k' d'. sn_entries s (own_key cid k d) = Some (ContractDataE c k' d' v)))"
  unfolding try_get_contract_data_def
  by (rule does_weaken [OF does_bind [OF does_has_data [OF assms]
        does_if [OF does_bind [OF does_get_data [OF assms] does_ret] does_ret]]])
    (auto split: if_splits)

lemma does_try_get_balance [does_intro]:
  "does cid (try_get_balance a) (\<lambda>s r t. t = s \<and> r = contract_balance cid s a)"
  unfolding try_get_balance_def
  by (rule does_weaken [OF does_bind [OF does_try_get_data [where d = Persistent]]], simp, simp,
      (rule does_intro)+)
    (auto simp: contract_balance_def data_at_def split: option.splits)

lemma does_classic_entry [does_intro]:
  "does cid (on_storage (try_get (LKAccount acc))) (\<lambda>s r t. r = sn_entries s (LKAccount acc) \<and> t = s)"
  "does cid (on_storage (try_get (LKTrustline acc tla))) (\<lambda>s r t. r = sn_entries s (LKTrustline acc tla) \<and> t = s)"
  "does cid (on_storage (put_with_host (LKAccount acc) e l)) (\<lambda>s u t. t = put_entry (LKAccount acc) e s)"
  "does cid (on_storage (put_with_host (LKTrustline acc tla) e l)) (\<lambda>s u t. t = put_entry (LKTrustline acc tla) e s)"
  by (rule does_try_get does_put, simp)+

lemma does_account_entry [does_intro]:
  "does cid (bind_op (read_account_entry (LKAccount acc)) as_account)
    (\<lambda>s ae t. account_in s acc = Some ae \<and> t = s)"
  unfolding read_account_entry_def
  by (rule does_weaken, (rule does_intro)+) (auto simp: account_in_def split: option.splits)

lemma does_trustline_entry [does_intro]:
  "does cid (bind_op (read_trustline_entry (LKTrustline acc tla)) as_trustline)
    (\<lambda>s line t. trustline_in s acc tla = Some line \<and> t = s)"
  unfolding read_trustline_entry_def
  by (rule does_weaken, (rule does_intro)+) (auto simp: trustline_in_def split: option.splits)

lemma bind_assoc: "bind_op f (\<lambda>a. bind_op (g a) k) = bind_op (bind_op f g) k"
  by (simp add: fun_eq_iff bind_op_def split: sum.split)

lemma does_flags [does_intro]:
  "does cid (get_trustline_flags acc tla)
    (\<lambda>s flags t. (\<exists>line. trustline_in s acc tla = Some line \<and> flags = tl_flags line) \<and> t = s)"
  unfolding get_trustline_flags_def bind_assoc
  by (rule does_weaken, (rule does_intro)+) auto

lemma does_issuer_flag [does_intro]:
  "does cid (is_asset_issuer_flag_set flag) (\<lambda>s b t. t = s \<and>
    (\<forall>ast. asset_in s = Some ast \<longrightarrow> b = (case issuer_of ast of None \<Rightarrow> False
      | Some i \<Rightarrow> (case account_in s i of Some ae \<Rightarrow> has_flag (ae_flags ae) flag | None \<Rightarrow> False))))"
proof -
  have info: "does cid (case i of NativeInfo \<Rightarrow> ret False
      | AlphaNum4Info _ issuer \<Rightarrow> is_issuer_flag_set issuer flag
      | AlphaNum12Info _ issuer \<Rightarrow> is_issuer_flag_set issuer flag)
    (\<lambda>s b t. t = s \<and> (\<forall>ast. asset_from_info i = Inr ast \<longrightarrow> b = (case issuer_of ast of None \<Rightarrow> False
      | Some i \<Rightarrow> (case account_in s i of Some ae \<Rightarrow> has_flag (ae_flags ae) flag | None \<Rightarrow> False))))" for i
    by (cases i) (simp_all only: asset_info.case is_issuer_flag_set_def, (rule does_weaken, (rule does_intro)+,
        auto simp: account_in_def split: if_splits)+)
  show ?thesis unfolding is_asset_issuer_flag_set_def
    by (rule does_weaken [OF does_bind [OF does_read_asset_info info]])
      (auto simp: asset_in_def split: sum.splits)
qed

lemma asset_case:
  assumes "ast = NativeAsset \<Longrightarrow> does cid f (P ast)"
    and "\<And>issuer. issuer_of ast = Some issuer \<Longrightarrow> does cid (g (trustline_of ast) issuer) (P ast)"
  shows "does cid (case ast of NativeAsset \<Rightarrow> f
      | CreditAlphanum4 code issuer \<Rightarrow> g (TLAlphanum4 code issuer) issuer
      | CreditAlphanum12 code issuer \<Rightarrow> g (TLAlphanum12 code issuer) issuer) (P ast)"
  using assms by (cases ast) simp_all

text \<open>Whether an address may hold the asset.\<close>

lemma does_is_authorized [does_intro]:
  "does cid (is_authorized a) (\<lambda>s b t. t = s \<and> (\<forall>ast. asset_in s = Some ast \<longrightarrow> b = authorized_in cid ast s a))"
proof (cases a)
  case (AccountAddr acc)
  have "does cid (is_account_authorized acc)
    (\<lambda>s b t. t = s \<and> (\<forall>ast. asset_in s = Some ast \<longrightarrow> b = authorized_in cid ast s a))"
    unfolding is_account_authorized_def
  proof (rule does_weaken [OF does_bind [OF does_read_asset asset_case
        [where P = "\<lambda>ast s b t. t = s \<and> b = authorized_in cid ast s a"]]])
    fix ast issuer assume i: "issuer_of ast = Some issuer"
    then have "ast \<noteq> NativeAsset" by auto
    with i show "does cid (is_trustline_authorized_or_issuer (trustline_of ast) issuer acc)
        (\<lambda>s b t. t = s \<and> b = authorized_in cid ast s a)"
      unfolding is_trustline_authorized_or_issuer_def is_trustline_authorized_def
      by - (rule does_weaken, (rule does_intro)+, auto simp: authorized_in_def AccountAddr split: if_splits)
  next
    fix ast assume "ast = NativeAsset"
    then show "does cid (ret True) (\<lambda>s b t. t = s \<and> b = authorized_in cid ast s a)"
      by - (rule does_weaken, rule does_intro, simp add: authorized_in_def AccountAddr)
  qed auto
  then show ?thesis by (simp add: is_authorized_def AccountAddr)
next
  case (ContractAddr x)
  show ?thesis unfolding is_authorized_def ContractAddr address.case is_asset_auth_required_def
    by (rule does_weaken, (rule does_intro)+)
      (auto simp: authorized_in_def issuer_requires_def split: option.splits)
qed

section \<open>Effects on the token\<close>

text \<open>The effect of an operation that leaves the instance alone.\<close>

definition acts :: "hash \<Rightarrow> (token \<Rightarrow> token \<Rightarrow> bool) \<Rightarrow> sac_snap \<Rightarrow> unit \<Rightarrow> sac_snap \<Rightarrow> bool" where
  "acts cid R s u t \<longleftrightarrow>
     sn_instance t = sn_instance s \<and> sn_ledger t = sn_ledger s \<and>
     (\<forall>ast. asset_in s = Some ast \<longrightarrow> R (token_of cid ast s) (token_of cid ast t))"

definition credit :: "address \<Rightarrow> int \<Rightarrow> token \<Rightarrow> token" where
  "credit a n tok = (if is_issuer (tk_asset tok) a then tok else set_balance a (tk_balance tok a + n) tok)"

lemma token_of_sel [simp]:
  "tk_asset (token_of cid ast s) = ast" "tk_ledger (token_of cid ast s) = sn_ledger s"
  "tk_balance (token_of cid ast s) = balance_in cid ast s"
  "tk_authorized (token_of cid ast s) = authorized_in cid ast s"
  "tk_allowance (token_of cid ast s) = allowance_in cid s" "tk_admin (token_of cid ast s) = admin_in s"
  by (simp_all add: token_of_def)

lemma set_allowed_same [simp]: "tk_authorized tok a = b \<Longrightarrow> set_allowed a b tok = tok"
  by (auto simp: set_allowed_def fun_upd_idem)

lemma set_balance_same [simp]: "tk_balance tok a = n \<Longrightarrow> set_balance a n tok = tok"
  by (auto simp: set_balance_def fun_upd_idem)

lemma asset_in_instance: "sn_instance t = sn_instance s \<Longrightarrow> asset_in t = asset_in s"
  by (simp add: asset_in_def)

lemma acts_trans:
  assumes "acts cid R s u m" and "acts cid Q m v t" and "\<And>x y z. R x y \<Longrightarrow> Q y z \<Longrightarrow> S x z"
  shows "acts cid S s w t"
proof -
  have "asset_in m = asset_in s" using assms(1) by (intro asset_in_instance) (simp add: acts_def)
  with assms(1,2) show ?thesis
    unfolding acts_def by (auto intro: assms(3) [of "token_of cid _ s" "token_of cid _ m"])
qed

lemma acts_weaken: "acts cid R s u t \<Longrightarrow> (\<And>x y. R x y \<Longrightarrow> S x y) \<Longrightarrow> acts cid S s u t"
  by (auto simp: acts_def)

lemma does_then_acts:
  assumes "does cid f (acts cid R)" and "does cid g (acts cid Q)"
    and "\<And>x y z. R x y \<Longrightarrow> Q y z \<Longrightarrow> S x z"
  shows "does cid (then_op f g) (acts cid S)"
proof (rule does_weaken [OF does_then [OF assms(1,2)]])
  fix s t and w :: unit
  assume "\<exists>a m. acts cid R s a m \<and> acts cid Q m w t"
  then obtain a m where 1: "acts cid R s a m" and 2: "acts cid Q m w t" by blast
  show "acts cid S s w t" using 1 2 by (rule acts_trans) (rule assms(3))
qed

lemma does_min_max [does_intro]:
  "does cid (get_min_max_account_balance ae) (\<lambda>s p t. t = s)"
  "does cid (get_min_max_trustline_balance line) (\<lambda>s p t. t = s)"
proof -
  have net: "does cid (net_entries ae) (\<lambda>s n t. t = s)"
    unfolding net_entries_def
    by (rule does_weaken [OF does_bind [OF does_arith, where Q = "\<lambda>_ s n t. t = s"]])
      (auto split: account_ext.split option.split simp: arith_def contract_fail_def intro!: quiet_intros)
  show "does cid (get_min_max_account_balance ae) (\<lambda>s p t. t = s)"
    unfolding get_min_max_account_balance_def contract_fail_def arith_def
    by (intro quiet_intros net) (auto split: account_ext.split intro!: quiet_intros)
  show "does cid (get_min_max_trustline_balance line) (\<lambda>s p t. t = s)"
    unfolding get_min_max_trustline_balance_def contract_fail_def arith_def
    by (auto split: option.split intro!: quiet_intros)
qed

lemma does_transfer_account [does_intro]:
  "does cid (transfer_account_balance acc n) (\<lambda>s u t. \<exists>ae b. account_in s acc = Some ae \<and>
    checked_sadd (ae_balance ae) n = Some b \<and>
    t = put_entry (LKAccount acc) (AccountE (ae\<lparr>ae_balance := b\<rparr>)) s)"
  unfolding transfer_account_balance_def bind_assoc
  by (rule does_weaken, (rule does_intro)+) (auto split: option.splits if_splits)

lemma does_transfer_trustline [does_intro]:
  "does cid (transfer_trustline_balance acc tla n) (\<lambda>s u t. \<exists>line b. trustline_in s acc tla = Some line \<and>
    checked_sadd (tl_balance line) n = Some b \<and>
    t = put_entry (LKTrustline acc tla) (TrustlineE (line\<lparr>tl_balance := b\<rparr>)) s)"
  unfolding transfer_trustline_balance_def bind_assoc
  by (rule does_weaken, (rule does_intro)+) (auto split: option.splits if_splits)

lemma flag_on: "has_flag (or x AUTHORIZED_FLAG) AUTHORIZED_FLAG"
proof -
  have "bit (and (or x AUTHORIZED_FLAG) AUTHORIZED_FLAG) 0"
    by (simp add: bit_and_iff bit_or_iff AUTHORIZED_FLAG_def)
  then show ?thesis by (metis has_flag_def bit_0_eq bot_apply bot_bool_def)
qed

lemma flag_off:
  "\<not> has_flag (or (and x (not AUTHORIZED_FLAG)) MAINTAIN_LIABILITIES_FLAG) AUTHORIZED_FLAG"
proof -
  have "and (or (and x (not AUTHORIZED_FLAG)) MAINTAIN_LIABILITIES_FLAG) AUTHORIZED_FLAG = 0"
    by (rule bit_eqI) (auto simp: bit_simps AUTHORIZED_FLAG_def MAINTAIN_LIABILITIES_FLAG_def)
  then show ?thesis by (simp add: has_flag_def)
qed

lemma does_set_trustline [does_intro]:
  "does cid (set_trustline_authorization acc tla b) (\<lambda>s u t. \<exists>line. trustline_in s acc tla = Some line \<and>
    (\<exists>flags. (has_flag flags AUTHORIZED_FLAG \<longleftrightarrow> b) \<and>
      (t = put_entry (LKTrustline acc tla) (TrustlineE (line\<lparr>tl_flags := flags\<rparr>)) s \<or>
       t = s \<and> flags = tl_flags line)))"
  unfolding set_trustline_authorization_def bind_assoc Let_def
  by (rule does_weaken, (rule does_intro)+) (use flag_on flag_off in \<open>auto split: if_splits\<close>)

section \<open>Balances\<close>

lemma acts_put:
  assumes "\<And>ast. asset_in s = Some ast \<Longrightarrow> R (token_of cid ast s) (token_of cid ast (put_entry k e s))"
  shows "acts cid R s u (put_entry k e s)"
  using assms by (simp add: acts_def)

lemma acts_same: "(\<And>ast. asset_in s = Some ast \<Longrightarrow> R (token_of cid ast s) (token_of cid ast s)) \<Longrightarrow> acts cid R s u s"
  by (simp add: acts_def)

lemma credit_account:
  assumes "account_in s acc = Some ae" and "checked_sadd (ae_balance ae) n = Some b"
  shows "token_of cid NativeAsset (put_entry (LKAccount acc) (AccountE (ae\<lparr>ae_balance := b\<rparr>)) s) =
    credit (AccountAddr acc) (sint n) (token_of cid NativeAsset s)"
  using assms checked_sadd_Some [OF assms(2)]
  by (simp add: token_put_account credit_def is_issuer_def balance_in_def)

lemma credit_trustline:
  assumes "trustline_in s acc (trustline_of ast) = Some line" and "checked_sadd (tl_balance line) n = Some b"
    and "ast \<noteq> NativeAsset" and "issuer_of ast \<noteq> Some acc"
  shows "token_of cid ast (put_entry (LKTrustline acc (trustline_of ast)) (TrustlineE (line\<lparr>tl_balance := b\<rparr>)) s) =
    credit (AccountAddr acc) (sint n) (token_of cid ast s)"
  using assms(1,3,4) checked_sadd_Some [OF assms(2)]
  by (simp add: token_put_trustline [OF assms(3,4)] credit_def is_issuer_def balance_in_def authorized_in_def)

lemma does_classic [does_intro]:
  "does cid (transfer_classic_balance acc n) (acts cid (\<lambda>x y. y = credit (AccountAddr acc) (sint n) x))"
  unfolding transfer_classic_balance_def
proof (rule does_weaken [OF does_bind [OF does_read_asset asset_case [where P = "\<lambda>ast s u t.
    asset_in s = Some ast \<longrightarrow> acts cid (\<lambda>x y. y = credit (AccountAddr acc) (sint n) x) s u t"]]])
  fix ast assume "ast = NativeAsset"
  then show "does cid (transfer_account_balance acc n) (\<lambda>s u t. asset_in s = Some ast \<longrightarrow>
      acts cid (\<lambda>x y. y = credit (AccountAddr acc) (sint n) x) s u t)"
    by - (rule does_weaken, rule does_intro, auto intro!: acts_put credit_account)
next
  fix ast issuer assume i: "issuer_of ast = Some issuer"
  then have nat: "ast \<noteq> NativeAsset" by auto
  show "does cid (transfer_trustline_balance_unless_issuer n (trustline_of ast) issuer acc)
      (\<lambda>s u t. asset_in s = Some ast \<longrightarrow> acts cid (\<lambda>x y. y = credit (AccountAddr acc) (sint n) x) s u t)"
  proof (cases "issuer = acc")
    case True
    with i show ?thesis
      by (simp add: transfer_trustline_balance_unless_issuer_def does_def acts_def credit_def is_issuer_def)
  next
    case False
    with i nat show ?thesis
      unfolding transfer_trustline_balance_unless_issuer_def
      by simp (rule does_weaken, rule does_intro, auto intro!: acts_put credit_trustline)
  qed
qed auto

lemma does_write_balance [does_intro]:
  "does cid (write_contract_balance (ContractAddr x) b) (acts cid (\<lambda>tok tok'.
     tok' = set_balance (ContractAddr x) (sint (bal_amount b))
       (set_allowed (ContractAddr x) (bal_authorized b) tok)))"
  unfolding write_contract_balance_def extend_balance_def
  by (rule does_weaken [OF does_then [OF does_put_data [where d = Persistent] does_extend_data]])
    (auto simp: token_put_balance intro!: acts_put)

lemma contract_balance_in:
  "contract_balance cid s (ContractAddr x) = Some b \<Longrightarrow> balance_in cid ast s (ContractAddr x) = sint (bal_amount b)"
  "contract_balance cid s (ContractAddr x) = None \<Longrightarrow> balance_in cid ast s (ContractAddr x) = 0"
  "contract_balance cid s (ContractAddr x) = Some b \<Longrightarrow> authorized_in cid ast s (ContractAddr x) = bal_authorized b"
  by (simp_all add: balance_in_def authorized_in_def)

lemma is_issuer_contract [simp]: "\<not> is_issuer ast (ContractAddr x)"
  by (simp add: is_issuer_def)

text \<open>A debit of a contract is covered by its balance.\<close>

definition covered :: "address \<Rightarrow> int \<Rightarrow> token \<Rightarrow> bool" where
  "covered a n tok \<longleftrightarrow> (case a of ContractAddr _ \<Rightarrow> n \<le> tk_balance tok a | AccountAddr _ \<Rightarrow> True)"

lemma try_from_sint:
  assumes "i64_try_from n = Some m"
  shows "sint m = sint n"
proof -
  have m: "m = word_of_int (sint n)" and n: "- (2 ^ 63) \<le> sint n" "sint n < 2 ^ 63"
    using assms unfolding i64_try_from_def by (auto split: if_splits)
  have "sint (word_of_int (sint n) :: i64) = sint n"
    unfolding sint_sbintrunc' using n by (simp add: signed_take_bit_int_eq_self)
  then show ?thesis by (simp only: m)
qed

lemma checked_neg_sint: "checked_neg n = Some m \<Longrightarrow> sint m = - sint n"
  unfolding checked_neg_def by (drule checked_ssub_Some) simp

lemma does_spend_unchecked:
  assumes "0 \<le> sint n"
  shows "does cid (spend_balance_no_authorization_check a n)
    (acts cid (\<lambda>x y. covered a (sint n) x \<and> y = credit a (- sint n) x))"
proof (cases a)
  case (AccountAddr acc)
  show ?thesis unfolding spend_balance_no_authorization_check_def AccountAddr address.case
    by (rule does_weaken, (rule does_intro)+)
      (auto simp: covered_def dest!: try_from_sint checked_neg_sint split: option.splits)
next
  case (ContractAddr x)
  have upd: "acts cid (\<lambda>y z. covered a (sint n) y \<and> z = credit a (- sint n) y) s u t"
    if b: "contract_balance cid s a = Some b" and n: "sint n \<le> sint (bal_amount b)"
      and mw: "\<exists>m. checked_ssub (bal_amount b) n = Some m \<and>
        acts cid (\<lambda>tok tok'. tok' = set_balance (ContractAddr x) (sint m)
          (set_allowed (ContractAddr x) (bal_authorized b) tok)) s u t" for s t b and u :: unit
  proof -
    obtain m where m: "checked_ssub (bal_amount b) n = Some m"
      and w: "acts cid (\<lambda>tok tok'. tok' = set_balance (ContractAddr x) (sint m)
          (set_allowed (ContractAddr x) (bal_authorized b) tok)) s u t" using mw by blast
    have "sint m = sint (bal_amount b) - sint n" using checked_ssub_Some [OF m] by simp
    with w b n show ?thesis
      by (auto simp: acts_def covered_def credit_def ContractAddr contract_balance_in)
  qed
  have none: "acts cid (\<lambda>y z. covered a (sint n) y \<and> z = credit a (- sint n) y) s u s"
    if "contract_balance cid s a = None" and "\<not> 0 < sint n" for s u
    using that assms
    by (auto intro!: acts_same simp: covered_def credit_def ContractAddr contract_balance_in)
  show ?thesis unfolding spend_balance_no_authorization_check_def ContractAddr address.case
    by (rule does_weaken, (rule does_intro)+)
      (auto split: option.splits if_splits
        intro!: upd [unfolded ContractAddr] none [unfolded ContractAddr])
qed

lemma does_spend:
  assumes "0 \<le> sint n"
  shows "does cid (spend_balance a n)
    (acts cid (\<lambda>x y. tk_authorized x a \<and> covered a (sint n) x \<and> y = credit a (- sint n) x))"
  unfolding spend_balance_def
  by (rule does_weaken [OF does_bind [OF does_is_authorized
        does_if [OF does_contract_fail does_spend_unchecked [OF assms]]]])
    (auto simp: acts_def split: if_splits)

lemma does_new_balance [does_intro]:
  "does cid (new_balance b) (\<lambda>s v t. t = s \<and> bal_amount v = 0 \<and> bal_authorized v = b)"
  unfolding new_balance_def is_asset_clawback_enabled_def
  by (rule does_weaken, (rule does_intro)+) auto

lemma does_receive [does_intro]:
  "does cid (receive_balance a n) (acts cid (\<lambda>x y. tk_authorized x a \<and> y = credit a (sint n) x))"
proof (cases a)
  case (AccountAddr acc)
  show ?thesis unfolding receive_balance_def AccountAddr address.case
    by (rule does_weaken, (rule does_intro)+)
      (auto simp: acts_def dest!: try_from_sint split: option.splits if_splits)
next
  case (ContractAddr x)
  have upd: "acts cid (\<lambda>y z. tk_authorized y a \<and> z = credit a (sint n) y) s u t"
    if b: "\<forall>ast. asset_in s = Some ast \<longrightarrow> authorized_in cid ast s a"
      and v: "case contract_balance cid s a of Some b' \<Rightarrow> b = b' | None \<Rightarrow> bal_amount b = 0 \<and> bal_authorized b"
      and mw: "\<exists>m. checked_sadd (bal_amount b) n = Some m \<and>
        acts cid (\<lambda>tok tok'. tok' = set_balance (ContractAddr x) (sint m)
          (set_allowed (ContractAddr x) (bal_authorized b) tok)) s u t" for s t b and u :: unit
  proof -
    obtain m where m: "checked_sadd (bal_amount b) n = Some m"
      and w: "acts cid (\<lambda>tok tok'. tok' = set_balance (ContractAddr x) (sint m)
          (set_allowed (ContractAddr x) (bal_authorized b) tok)) s u t" using mw by blast
    have "sint m = sint (bal_amount b) + sint n" using checked_sadd_Some [OF m] by simp
    with w b v show ?thesis
      by (auto simp: acts_def credit_def ContractAddr contract_balance_in split: option.splits)
  qed
  show ?thesis unfolding receive_balance_def ContractAddr address.case
    by (rule does_weaken, (rule does_intro)+)
      (auto split: option.splits if_splits intro!: upd [unfolded ContractAddr])
qed

section \<open>Allowances\<close>

text \<open>What a spender may spend at the current ledger.\<close>

definition spendable :: "token \<Rightarrow> address \<Rightarrow> address \<Rightarrow> int" where
  "spendable tok f p =
     (case tk_allowance tok (f, p) of
        None \<Rightarrow> 0
      | Some (n, l) \<Rightarrow> if l < sequence_number (tk_ledger tok) then 0 else n)"

definition live_until_allowed :: "ledger_info \<Rightarrow> int \<Rightarrow> u32 \<Rightarrow> bool" where
  "live_until_allowed li n l \<longleftrightarrow>
     (\<exists>m. max_live_until_ledger li = Inr m \<and> l \<le> m) \<and> (0 < n \<longrightarrow> sequence_number li \<le> l)"

definition set_allowance :: "address \<Rightarrow> address \<Rightarrow> int \<Rightarrow> u32 \<Rightarrow> token \<Rightarrow> token" where
  "set_allowance f p n l tok =
     (if tk_allowance tok (f, p) = None \<and> n \<le> 0 then tok
      else tok\<lparr>tk_allowance := (tk_allowance tok)((f, p) \<mapsto> (n, l))\<rparr>)"

definition use_allowance :: "address \<Rightarrow> address \<Rightarrow> int \<Rightarrow> token \<Rightarrow> token" where
  "use_allowance f p n tok =
     (case tk_allowance tok (f, p) of
        None \<Rightarrow> tok
      | Some (m, l) \<Rightarrow> if 0 < n then tok\<lparr>tk_allowance := (tk_allowance tok)((f, p) \<mapsto> (m - n, l))\<rparr> else tok)"

lemma does_read_allowance [does_intro]:
  "does cid (read_allowance f p) (\<lambda>s n t. t = s \<and> (\<forall>ast. sint n = spendable (token_of cid ast s) f p))"
  unfolding read_allowance_def
  by (rule does_weaken [OF does_bind [OF does_try_get_data [where d = Temporary]]], simp, simp,
      (rule does_intro)+)
    (auto simp: spendable_def allowance_in_def data_at_def split: option.splits if_splits)

lemma does_checked_live_until [does_intro]:
  "does cid (checked_live_until n l) (\<lambda>s seq t. t = s \<and> live_until_allowed (sn_ledger s) (sint n) l)"
  unfolding checked_live_until_def
  by (rule does_weaken, (rule does_intro)+) (auto simp: live_until_allowed_def split: if_splits)

lemma does_updated_allowance [does_intro]:
  "does cid (updated_allowance f p n l) (\<lambda>s r t. t = s \<and>
    (case r of
       None \<Rightarrow> allowance_in cid s (f, p) = None \<and> sint n \<le> 0
     | Some (w, old) \<Rightarrow> w = \<lparr>alw_amount = n, alw_live_until_ledger = l\<rparr> \<and>
         (allowance_in cid s (f, p) = None \<longrightarrow> 0 < sint n)))"
  unfolding updated_allowance_def
  by (rule does_weaken [OF does_bind [OF does_try_get_data [where d = Temporary]]], simp, simp,
      (rule does_intro)+)
    (auto simp: allowance_in_def data_at_def split: option.splits if_splits)

lemma does_write_allowance [does_intro]:
  "does cid (write_allowance f p n l) (acts cid (\<lambda>x y.
     live_until_allowed (tk_ledger x) (sint n) l \<and> y = set_allowance f p (sint n) l x))"
proof -
  have put: "does cid (put_contract_data (allowance_key f p) (AllowanceVal w) TemporaryT)
    (acts cid (\<lambda>x y. y = x\<lparr>tk_allowance := (tk_allowance x)((f, p) \<mapsto>
        (sint (alw_amount w), alw_live_until_ledger w))\<rparr>))" for w
    by (rule does_weaken [OF does_put_data [where d = Temporary]])
      (auto simp: token_put_allowance intro!: acts_put)
  have step: "does cid (then_op (put_contract_data (allowance_key f p) (AllowanceVal w) TemporaryT)
      (if c then extend_contract_data_ttl (allowance_key f p) TemporaryT e e else ret ()))
    (acts cid (\<lambda>x y. y = x\<lparr>tk_allowance := (tk_allowance x)((f, p) \<mapsto>
        (sint (alw_amount w), alw_live_until_ledger w))\<rparr>))" for w c e
    by (rule does_weaken [OF does_then [OF put does_if [OF does_extend_data does_ret]]]) (auto split: if_splits)
  have written: "acts cid (\<lambda>x y. live_until_allowed (tk_ledger x) (sint n) l \<and> y = set_allowance f p (sint n) l x) s u t"
    if "live_until_allowed (sn_ledger s) (sint n) l" "allowance_in cid s (f, p) = None \<longrightarrow> 0 < sint n"
      "acts cid (\<lambda>x y. y = x\<lparr>tk_allowance := (tk_allowance x)((f, p) \<mapsto> (sint n, l))\<rparr>) s u t" for s t and u :: unit
    using that by (auto simp: acts_def set_allowance_def)
  have unwritten: "acts cid (\<lambda>x y. live_until_allowed (tk_ledger x) (sint n) l \<and> y = set_allowance f p (sint n) l x) s u s"
    if "live_until_allowed (sn_ledger s) (sint n) l" "allowance_in cid s (f, p) = None" "sint n \<le> 0" for s u
    using that by (simp add: acts_def set_allowance_def)
  show ?thesis unfolding write_allowance_def Let_def
    by (rule does_weaken [OF does_bind [OF does_checked_live_until does_bind [OF does_updated_allowance
          does_option [OF does_ret does_prod [OF step]]]]])
      (auto split: option.splits intro!: written unwritten)
qed

lemma does_spend_allowance [does_intro]:
  "does cid (spend_allowance f p n) (acts cid (\<lambda>x y.
     sint n \<le> spendable x f p \<and> y = use_allowance f p (sint n) x))"
proof -
  have amount: "does cid (write_allowance_amount f p m) (acts cid (\<lambda>x y.
      \<exists>k l. tk_allowance x (f, p) = Some (k, l) \<and> y = x\<lparr>tk_allowance := (tk_allowance x)((f, p) \<mapsto> (sint m, l))\<rparr>))"
    for m
    unfolding write_allowance_amount_def
    by (rule does_weaken [OF does_bind [OF does_get_data [where d = Temporary]]], simp, simp,
        (rule does_intro)+)
      (auto simp: acts_def set_allowance_def allowance_in_def data_at_def)
  have upd: "acts cid (\<lambda>x y. sint n \<le> spendable x f p \<and> y = use_allowance f p (sint n) x) s u t"
    if n: "0 < sint n" "\<not> sint k < sint n" and k: "\<forall>ast. sint k = spendable (token_of cid ast s) f p"
      and mw: "\<exists>m. checked_ssub k n = Some m \<and> acts cid (\<lambda>x y.
        \<exists>k l. tk_allowance x (f, p) = Some (k, l) \<and>
          y = x\<lparr>tk_allowance := (tk_allowance x)((f, p) \<mapsto> (sint m, l))\<rparr>) s u t" for s t k and u :: unit
  proof -
    obtain m where sub: "checked_ssub k n = Some m" and w: "acts cid (\<lambda>x y.
        \<exists>k l. tk_allowance x (f, p) = Some (k, l) \<and>
          y = x\<lparr>tk_allowance := (tk_allowance x)((f, p) \<mapsto> (sint m, l))\<rparr>) s u t"
      using mw by blast
    have m: "sint m = sint k - sint n" by (rule checked_ssub_Some [OF sub])
    show ?thesis
      unfolding acts_def
    proof (intro conjI allI impI)
      fix ast assume a: "asset_in s = Some ast"
      let ?x = "token_of cid ast s" and ?y = "token_of cid ast t"
      from w a obtain k' l where kl: "tk_allowance ?x (f, p) = Some (k', l)"
        "?y = ?x\<lparr>tk_allowance := (tk_allowance ?x)((f, p) \<mapsto> (sint m, l))\<rparr>"
        unfolding acts_def by blast
      have s: "sint k = spendable ?x f p" using k by blast
      with n have "0 < spendable ?x f p" by simp
      with kl(1) have "spendable ?x f p = k'" by (simp add: spendable_def split: if_splits)
      with s n kl m show "sint n \<le> spendable ?x f p" "?y = use_allowance f p (sint n) ?x"
        by (simp_all add: use_allowance_def)
    qed (use w in \<open>simp_all add: acts_def\<close>)
  qed
  have none: "acts cid (\<lambda>x y. sint n \<le> spendable x f p \<and> y = use_allowance f p (sint n) x) s u s"
    if "\<not> 0 < sint n" "\<not> sint k < sint n" "\<forall>ast. sint k = spendable (token_of cid ast s) f p" for s k u
    using that by (auto intro!: acts_same simp: use_allowance_def split: option.split)
  show ?thesis unfolding spend_allowance_def
    by (rule does_weaken, (rule does_intro amount)+) (auto split: option.splits if_splits intro: upd none)
qed

end
