(* ===== verification/Sac_Refine.thy ===== *)
theory Sac_Refine
  imports Sac_Inv
begin

text \<open>
  The specification of the Stellar asset contract as a token (\<open>tok_step\<close>) and the proof that every entry
  point that changes state implements it and is authorized by the address the specification names.
\<close>

section \<open>The specification\<close>

definition debit :: "address \<Rightarrow> int \<Rightarrow> token \<Rightarrow> token option" where
  "debit a n tok = (if tk_authorized tok a \<and> covered a n tok then Some (credit a (- n) tok) else None)"

definition deposit :: "address \<Rightarrow> int \<Rightarrow> token \<Rightarrow> token option" where
  "deposit a n tok = (if tk_authorized tok a then Some (credit a n tok) else None)"

definition spend :: "address \<Rightarrow> address \<Rightarrow> int \<Rightarrow> token \<Rightarrow> token option" where
  "spend f p n tok = (if n \<le> spendable tok f p then Some (use_allowance f p n tok) else None)"

text \<open>Whether the asset can be burned or clawed back at the address, and its authorization be set.\<close>

definition has_line :: "address \<Rightarrow> token \<Rightarrow> bool" where
  "has_line a tok \<longleftrightarrow>
     \<not> is_issuer (tk_asset tok) a \<and> (\<forall>acc. a = AccountAddr acc \<longrightarrow> tk_asset tok \<noteq> NativeAsset)"

fun tok_step :: "sac_call \<Rightarrow> token \<Rightarrow> token option" where
  "tok_step (Approve f p n l) tok =
     (if 0 \<le> sint n \<and> live_until_allowed (tk_ledger tok) (sint n) l
      then Some (set_allowance f p (sint n) l tok) else None)"
| "tok_step (Transfer f t n) tok =
     (if 0 \<le> sint n then Option.bind (debit f (sint n) tok) (deposit t (sint n)) else None)"
| "tok_step (TransferFrom p f t n) tok =
     (if 0 \<le> sint n
      then Option.bind (spend f p (sint n) tok) (\<lambda>x. Option.bind (debit f (sint n) x) (deposit t (sint n)))
      else None)"
| "tok_step (Burn f n) tok =
     (if 0 \<le> sint n \<and> tk_asset tok \<noteq> NativeAsset \<and> \<not> is_issuer (tk_asset tok) f
      then debit f (sint n) tok else None)"
| "tok_step (BurnFrom p f n) tok =
     (if 0 \<le> sint n \<and> tk_asset tok \<noteq> NativeAsset \<and> \<not> is_issuer (tk_asset tok) f
      then Option.bind (spend f p (sint n) tok) (debit f (sint n)) else None)"
| "tok_step (Clawback f n) tok =
     (if 0 \<le> sint n \<and> has_line f tok \<and> covered f (sint n) tok then Some (credit f (- sint n) tok) else None)"
| "tok_step (SetAuthorized a b) tok = (if has_line a tok then Some (set_allowed a b tok) else None)"
| "tok_step (Mint t n) tok =
     (if 0 \<le> sint n \<and> \<not> is_issuer (tk_asset tok) t then deposit t (sint n) tok else None)"
| "tok_step (SetAdmin a) tok = Some (tok\<lparr>tk_admin := Some a\<rparr>)"

text \<open>The address that has to authorize a call.\<close>

fun principal :: "sac_call \<Rightarrow> token \<Rightarrow> address option" where
  "principal (Approve f _ _ _) tok = Some f"
| "principal (Transfer f _ _) tok = Some f"
| "principal (TransferFrom p _ _ _) tok = Some p"
| "principal (Burn f _) tok = Some f"
| "principal (BurnFrom p _ _) tok = Some p"
| "principal (Clawback _ _) tok = tk_admin tok"
| "principal (SetAuthorized _ _) tok = tk_admin tok"
| "principal (Mint _ _) tok = tk_admin tok"
| "principal (SetAdmin _) tok = tk_admin tok"

section \<open>Parts of the entry points\<close>

lemma does_nonnegative [does_intro]:
  "does cid (check_nonnegative_amount n) (\<lambda>s u t. t = s \<and> 0 \<le> sint n)"
  unfolding check_nonnegative_amount_def by (rule does_weaken, (rule does_intro)+) (auto split: if_splits)

lemma compare_address_eq: "compare_address a b = Equal \<longleftrightarrow> a = b"
  using compare_address_shape [of a b] cmp_shape_eq [of "shape_address a" "shape_address b"] by simp

lemma does_non_native [does_intro]:
  "does cid check_non_native (\<lambda>s u t. t = s \<and> (\<forall>ast. asset_in s = Some ast \<longrightarrow> ast \<noteq> NativeAsset))"
proof -
  have info: "does cid (case i of NativeInfo \<Rightarrow> contract_fail OperationNotSupported | _ \<Rightarrow> ret ())
    (\<lambda>s u t. t = s \<and> i \<noteq> NativeInfo)" for i
    by (cases i) (simp_all add: does_def contract_fail_def)
  show ?thesis unfolding check_non_native_def
  proof (rule does_weaken [OF does_bind [OF does_read_asset_info info]])
    fix s t :: sac_snap and u :: unit
    assume *: "\<exists>i m. (sn_instance s asset_info_key = Some (AssetInfoVal i) \<and> m = s) \<and> t = m \<and> i \<noteq> NativeInfo"
    then obtain i where "sn_instance s asset_info_key = Some (AssetInfoVal i)" "i \<noteq> NativeInfo" by blast
    then have "ast \<noteq> NativeAsset" if "asset_in s = Some ast" for ast
      using that by (cases i) (auto simp: asset_in_def split: if_splits)
    with * show "t = s \<and> (\<forall>ast. asset_in s = Some ast \<longrightarrow> ast \<noteq> NativeAsset)" by blast
  qed
qed

lemma does_not_issuer [does_intro]:
  "does cid (check_not_issuer a) (\<lambda>s u t. t = s \<and> (\<forall>ast. asset_in s = Some ast \<longrightarrow> \<not> is_issuer ast a))"
proof -
  have info: "does cid (case i of NativeInfo \<Rightarrow> ret () | AlphaNum4Info _ issuer \<Rightarrow> issuer_check issuer a
      | AlphaNum12Info _ issuer \<Rightarrow> issuer_check issuer a)
    (\<lambda>s u t. t = s \<and> (\<forall>ast. asset_from_info i = Inr ast \<longrightarrow> \<not> is_issuer ast a))" for i
    by (cases i) (auto simp: does_def issuer_check_def compare_address_eq contract_fail_def is_issuer_def
        split: if_splits address.splits)
  show ?thesis unfolding check_not_issuer_def
    by (rule does_weaken [OF does_bind [OF does_read_asset_info info]])
      (auto simp: asset_in_def split: sum.splits)
qed

lemma does_extend_instance [does_intro]: "does cid extend_instance (\<lambda>s u t. t = s)"
proof -
  have inst: "does cid (retrieve_contract_instance_from_storage key) (\<lambda>(s :: sac_snap) i t. t = s)" for key
  proof -
    have "does cid (case e of ContractDataE _ _ _ (InstanceVal inst) \<Rightarrow> ret inst
        | _ \<Rightarrow> fail (HostErr EStorage InternalError)) (\<lambda>s i t. t = s)" for e :: "sac_value stored ledger_entry"
      by (cases e) (auto simp: does_def split: stored.split)
    then show ?thesis unfolding retrieve_contract_instance_from_storage_def
      by (intro does_quiet_bind does_get_any)
  qed
  have code: "does cid (case inst_executable i of WasmExec w \<Rightarrow> storage_extend_ttl (contract_code_ledger_key w) a b
      | StellarAssetExec \<Rightarrow> ret ()) (\<lambda>s u t. t = s)" for i :: "sac_value contract_instance" and a b
    by (cases "inst_executable i") (auto intro: does_extend_ttl does_quiet)
  show ?thesis
    unfolding extend_instance_def extend_current_contract_instance_and_code_ttl_def
      extend_contract_instance_ttl_from_contract_id_def extend_contract_code_ttl_from_contract_id_def
    by (rule does_weaken [OF does_bind [OF does_contract_id does_then [OF does_extend_ttl
          does_quiet_bind [OF inst code]]]]) auto
qed

lemma does_events [does_intro]:
  "does cid (event_approve a b n l) (\<lambda>s u t. t = s)" "does cid (event_transfer a b n) (\<lambda>s u t. t = s)"
  "does cid (event_mint a b n) (\<lambda>s u t. t = s)" "does cid (event_clawback a b n) (\<lambda>s u t. t = s)"
  "does cid (event_set_authorized a b c) (\<lambda>s u t. t = s)" "does cid (event_set_admin a b) (\<lambda>s u t. t = s)"
  "does cid (event_burn a n) (\<lambda>s u t. t = s)"
  unfolding event_approve_def event_transfer_def event_mint_def event_clawback_def
    event_set_authorized_def event_set_admin_def event_burn_def
  by (intro does_quiet_bind does_read_name does_contract_event)+

lemma does_clawbackable [does_intro]:
  "does cid (check_clawbackable a) (\<lambda>s u t. t = s \<and>
     (\<forall>ast. asset_in s = Some ast \<longrightarrow> (\<forall>acc. a = AccountAddr acc \<longrightarrow> ast \<noteq> NativeAsset)))"
proof (cases a)
  case (AccountAddr acc)
  show ?thesis unfolding check_clawbackable_def AccountAddr address.case
  proof (rule does_weaken [OF does_bind [OF does_read_asset asset_case [where P =
      "\<lambda>ast s u t. t = s \<and> ast \<noteq> NativeAsset"]]])
    fix ast assume "ast = NativeAsset"
    show "does cid (contract_fail OperationNotSupported) (\<lambda>s u t. t = s \<and> ast \<noteq> NativeAsset)"
      by (rule does_weaken [OF does_contract_fail]) simp
  next
    fix ast issuer assume "issuer_of ast = Some issuer"
    then have "ast \<noteq> NativeAsset" by auto
    then show "does cid (validate_trustline (trustline_of ast) issuer acc) (\<lambda>s u t. t = s \<and> ast \<noteq> NativeAsset)"
      unfolding validate_trustline_def by - (rule does_weaken, (rule does_intro)+, auto split: if_splits)
  qed auto
next
  case (ContractAddr x)
  show ?thesis unfolding check_clawbackable_def ContractAddr address.case
    by (rule does_weaken, (rule does_intro)+) (auto split: option.splits if_splits)
qed

lemma allowed_trustline:
  assumes "trustline_in s acc (trustline_of ast) = Some line" and "ast \<noteq> NativeAsset"
    and "issuer_of ast \<noteq> Some acc"
  shows "token_of cid ast (put_entry (LKTrustline acc (trustline_of ast)) (TrustlineE (line\<lparr>tl_flags := flags\<rparr>)) s) =
    set_allowed (AccountAddr acc) (has_flag flags AUTHORIZED_FLAG) (token_of cid ast s)"
  using assms(1) unfolding token_put_trustline [OF assms(2,3)]
  by (simp add: assms(2,3) balance_in_def set_allowed_def)

lemma does_set_authorization [does_intro]:
  "does cid (set_authorization acc b)
    (acts cid (\<lambda>x y. has_line (AccountAddr acc) x \<and> y = set_allowed (AccountAddr acc) b x))"
  unfolding set_authorization_def
proof (rule does_weaken [OF does_bind [OF does_read_asset asset_case [where P = "\<lambda>ast s u t.
    asset_in s = Some ast \<longrightarrow> acts cid (\<lambda>x y. has_line (AccountAddr acc) x \<and>
      y = set_allowed (AccountAddr acc) b x) s u t"]]])
  fix ast
  show "does cid (contract_fail OperationNotSupported) (\<lambda>s u t. asset_in s = Some ast \<longrightarrow>
      acts cid (\<lambda>x y. has_line (AccountAddr acc) x \<and> y = set_allowed (AccountAddr acc) b x) s u t)"
    by (rule does_weaken [OF does_contract_fail]) simp
next
  fix ast issuer assume i: "issuer_of ast = Some issuer"
  then have nat: "ast \<noteq> NativeAsset" by auto
  have step: "acts cid (\<lambda>x y. has_line (AccountAddr acc) x \<and> y = set_allowed (AccountAddr acc) b x) s u t"
    if "asset_in s = Some ast" "issuer \<noteq> acc" "trustline_in s acc (trustline_of ast) = Some line"
      "has_flag flags AUTHORIZED_FLAG \<longleftrightarrow> b"
      "t = put_entry (LKTrustline acc (trustline_of ast)) (TrustlineE (line\<lparr>tl_flags := flags\<rparr>)) s \<or>
       t = s \<and> flags = tl_flags line" for s t flags line and u :: unit
  proof -
    have line: "has_line (AccountAddr acc) (token_of cid ast s)"
      using that(2) i nat by (simp add: has_line_def is_issuer_def)
    show ?thesis
      using that(5)
    proof
      assume "t = put_entry (LKTrustline acc (trustline_of ast)) (TrustlineE (line\<lparr>tl_flags := flags\<rparr>)) s"
      with that i nat line show ?thesis by (auto simp: allowed_trustline intro!: acts_put)
    next
      assume t: "t = s \<and> flags = tl_flags line"
      then have "authorized_in cid ast s (AccountAddr acc) = b"
        using that(2-4) i nat by (simp add: authorized_in_def)
      with t that(1) line show ?thesis by (auto intro!: acts_same)
    qed
  qed
  show "does cid (set_trustline_authorization_unless_issuer b (trustline_of ast) issuer acc)
      (\<lambda>s u t. asset_in s = Some ast \<longrightarrow>
        acts cid (\<lambda>x y. has_line (AccountAddr acc) x \<and> y = set_allowed (AccountAddr acc) b x) s u t)"
    unfolding set_trustline_authorization_unless_issuer_def
    by (rule does_weaken, (rule does_intro)+) (auto split: if_splits dest: step)
qed auto

lemma does_write_authorization [does_intro]:
  "does cid (write_authorization a b) (acts cid (\<lambda>x y. has_line a x \<and> y = set_allowed a b x))"
proof -
  have revocable: "does cid (if b then ret () else bind_op is_asset_auth_revocable (\<lambda>r.
      if r then ret () else contract_fail OperationNotSupported)) (\<lambda>s u t. t = s)"
    unfolding is_asset_auth_revocable_def
    by (rule does_weaken, (rule does_intro)+) (auto split: if_splits)
  have main: "does cid (case a of AccountAddr acc \<Rightarrow> set_authorization acc b
      | ContractAddr _ \<Rightarrow> bind_op (try_get_balance a) (\<lambda>r. case r of
            Some v \<Rightarrow> write_contract_balance a (v\<lparr>bal_authorized := b\<rparr>)
          | None \<Rightarrow> bind_op (new_balance b) (write_contract_balance a)))
    (acts cid (\<lambda>x y. has_line a x \<and> y = set_allowed a b x))"
  proof (cases a)
    case (AccountAddr acc)
    show ?thesis unfolding AccountAddr address.case by (rule does_set_authorization)
  next
    case (ContractAddr x)
    have line: "has_line a tok" for tok by (simp add: has_line_def ContractAddr)
    have some: "does cid (write_contract_balance a (v\<lparr>bal_authorized := b\<rparr>)) (\<lambda>s u t.
        contract_balance cid s a = Some v \<longrightarrow> acts cid (\<lambda>x y. has_line a x \<and> y = set_allowed a b x) s u t)" for v
      unfolding ContractAddr
      by (rule does_weaken [OF does_write_balance])
        (auto simp: acts_def contract_balance_in line [unfolded ContractAddr] set_allowed_def)
    have none: "does cid (write_contract_balance a v) (\<lambda>s u t. contract_balance cid s a = None \<longrightarrow>
        bal_amount v = 0 \<longrightarrow> bal_authorized v = b \<longrightarrow>
        acts cid (\<lambda>x y. has_line a x \<and> y = set_allowed a b x) s u t)" for v
      unfolding ContractAddr
      by (rule does_weaken [OF does_write_balance])
        (auto simp: acts_def contract_balance_in line [unfolded ContractAddr] set_allowed_def)
    show ?thesis unfolding ContractAddr address.case
      by (rule does_weaken [OF does_bind [OF does_try_get_balance does_option [OF
            does_bind [OF does_new_balance none [unfolded ContractAddr]] some [unfolded ContractAddr]]]])
        (auto split: option.splits)
  qed
  show ?thesis unfolding write_authorization_def
    by (rule does_weaken [OF does_then [OF revocable main]]) auto
qed

section \<open>Entry points\<close>

text \<open>
  Every entry point reads, requires the authorization of an address, extends its instance, acts and
  publishes an event.
\<close>

definition granted :: "hash \<Rightarrow> sac_request \<Rightarrow> address \<Rightarrow> sac_host \<Rightarrow> bool" where
  "granted cid req p h \<longleftrightarrow>
     (\<exists>h1 h2. in_frame cid h1 \<and> snap cid h1 = snap cid h \<and> h_auth h1 = h_auth h \<and>
        require req p h1 = (Inr (), h2))"

lemma and_then_Inr:
  "and_then m f h = (Inr b, h') \<longleftrightarrow> (\<exists>a h1. m h = (Inr a, h1) \<and> f a h1 = (Inr b, h'))"
  by (auto simp: and_then_def split: prod.splits sum.splits)

text \<open>What runs before the request leaves the authorization manager alone.\<close>

definition auth_kept :: "'a sac_op \<Rightarrow> bool" where
  "auth_kept f \<longleftrightarrow> (\<forall>h a h'. f h = Inr (a, h') \<longrightarrow> h_auth h' = h_auth h)"

named_theorems kept_intro

lemma kept_basic [kept_intro]:
  "auth_kept (ret a)" "auth_kept (fail e)" "auth_kept (contract_fail ce)" "auth_kept (reads g)"
  "auth_kept (ok_or e x)" "auth_kept (of_result r)" "auth_kept (on_storage sf)"
  by (auto simp: auth_kept_def contract_fail_def reads_def ok_or_Inr of_result_Inr on_storage_Inr)

lemma kept_bind [kept_intro]:
  "auth_kept f \<Longrightarrow> (\<And>a. auth_kept (g a)) \<Longrightarrow> auth_kept (bind_op f g)"
  "auth_kept f \<Longrightarrow> auth_kept g' \<Longrightarrow> auth_kept (then_op f g')"
  by (force simp: auth_kept_def bind_op_Inr then_op_Inr)+

lemma kept_case [kept_intro]:
  "auth_kept f \<Longrightarrow> auth_kept g \<Longrightarrow> auth_kept (if c then f else g)"
  "auth_kept f \<Longrightarrow> (\<And>x. auth_kept (k x)) \<Longrightarrow> auth_kept (case r of None \<Rightarrow> f | Some x \<Rightarrow> k x)"
  by (auto split: option.split)

lemma kept_instance [kept_intro]: "auth_kept (with_instance_storage f)"
  by (auto simp: auth_kept_def elim!: with_instance_Inr)

lemma kept_data [kept_intro]:
  "auth_kept (has_contract_data k ty)" "auth_kept (get_contract_data k ty)"
proof -
  have key: "auth_kept (storage_key_from_val k d)" for d
    by (auto simp: auth_kept_def storage_key_from_val_def get_current_contract_id_internal_def bind_op_Inr
        ok_or_Inr split: option.splits)
  have val: "auth_kept (case e of ContractDataE _ _ _ v \<Rightarrow> ret v | _ \<Rightarrow> fail (HostErr EStorage InternalError))"
    for e :: "sac_value stored ledger_entry"
    by (cases e) (simp_all add: kept_basic)
  show "auth_kept (has_contract_data k ty)"
    unfolding has_contract_data_def by (cases ty) (auto intro!: kept_intro key)
  show "auth_kept (get_contract_data k ty)"
    unfolding get_contract_data_def by (cases ty) (auto intro!: kept_intro key val)
qed

lemma kept_as [kept_intro]:
  "auth_kept (as_address v)" "auth_kept (as_asset_info v)" "auth_kept (as_balance v)"
  "auth_kept (as_trustline e)"
  by (auto simp: as_address_def as_asset_info_def as_balance_def as_trustline_def
      split: stored.split sac_value.split ledger_entry.split intro!: kept_intro)

lemma kept_checks [kept_intro]:
  "auth_kept (check_nonnegative_amount n)" "auth_kept check_non_native" "auth_kept (check_not_issuer a)"
  "auth_kept read_administrator" "auth_kept (check_clawbackable a)"
proof -
  have info: "auth_kept read_asset_info" unfolding read_asset_info_def by (intro kept_intro)
  have issuer: "auth_kept (issuer_check i b)" for i b unfolding issuer_check_def by (intro kept_intro)
  have line: "auth_kept (validate_trustline l i acc)" for l i acc
    unfolding validate_trustline_def get_trustline_flags_def read_trustline_entry_def by (intro kept_intro)
  have bal: "auth_kept (try_get_balance b)" for b
    unfolding try_get_balance_def try_get_contract_data_def by (intro kept_intro)
  have ast: "auth_kept read_asset" unfolding read_asset_def by (intro kept_intro info)
  show "auth_kept (check_nonnegative_amount n)" unfolding check_nonnegative_amount_def by (intro kept_intro)
  show "auth_kept check_non_native"
    unfolding check_non_native_def by (auto split: asset_info.split intro!: kept_intro info)
  show "auth_kept (check_not_issuer a)"
    unfolding check_not_issuer_def by (auto split: asset_info.split intro!: kept_intro info issuer)
  show "auth_kept read_administrator" unfolding read_administrator_def by (intro kept_intro)
  show "auth_kept (check_clawbackable a)"
    unfolding check_clawbackable_def
    by (auto split: asset.split address.split intro!: kept_intro bal line ast)
qed

lemma entry_point:
  assumes w: "calm_world cid (req_world req)" and h: "in_frame cid h"
    and pre: "does cid pre (\<lambda>s a t. t = s \<and> G s a)" and kept: "auth_kept pre"
    and post: "\<And>a. does cid (post a) (Q a)"
    and run: "and_then (lift_op pre) (\<lambda>a. and_then (require req (P a)) (\<lambda>_. lift_op (post a))) h = (Inr (), h')"
  shows "\<exists>a. G (snap cid h) a \<and> in_frame cid h' \<and> Q a (snap cid h) () (snap cid h') \<and> granted cid req (P a) h"
proof -
  obtain a h1 h2 where pr: "pre h = Inr (a, h1)" and rq: "require req (P a) h1 = (Inr (), h2)"
    and po: "post a h2 = Inr ((), h')"
    using run by (auto simp: and_then_Inr lift_op_Inr)
  note 1 = doesD [OF pre h pr]
  have "settles cid h1 h2"
    using calmD [OF require_auth_calm [OF w] 1(1)] rq by (auto simp: require_def)
  then have 2: "in_frame cid h2" "snap cid h2 = snap cid h" using 1(2) by (simp_all add: settles_def)
  have "h_auth h1 = h_auth h" using kept pr by (auto simp: auth_kept_def)
  with 1 rq have "granted cid req (P a) h" by (auto simp: granted_def)
  with 1(2) 2 doesD [OF post 2(1) po] show ?thesis by auto
qed

section \<open>The refinement\<close>

definition implements :: "hash \<Rightarrow> sac_request \<Rightarrow> sac_call \<Rightarrow> asset \<Rightarrow> sac_host \<Rightarrow> sac_host \<Rightarrow> bool" where
  "implements cid req c ast h h' \<longleftrightarrow>
     in_frame cid h' \<and> asset_in (snap cid h') = Some ast \<and>
     tok_step c (token_of cid ast (snap cid h)) = Some (token_of cid ast (snap cid h')) \<and>
     (\<exists>p. principal c (token_of cid ast (snap cid h)) = Some p \<and> granted cid req p h)"

lemma acts_entry:
  assumes w: "calm_world cid (req_world req)" and h: "in_frame cid h" "asset_in (snap cid h) = Some ast"
    and pre: "does cid pre (\<lambda>s a t. t = s \<and> G s a)" and kept: "auth_kept pre"
    and post: "\<And>a. does cid (post a) (acts cid (R a))"
    and run: "and_then (lift_op pre) (\<lambda>a. and_then (require req (P a)) (\<lambda>_. lift_op (post a))) h = (Inr (), h')"
    and step: "\<And>a y. G (snap cid h) a \<Longrightarrow> R a (token_of cid ast (snap cid h)) y \<Longrightarrow>
      tok_step c (token_of cid ast (snap cid h)) = Some y \<and>
      principal c (token_of cid ast (snap cid h)) = Some (P a)"
  shows "implements cid req c ast h h'"
proof -
  have "\<exists>a. G (snap cid h) a \<and> in_frame cid h' \<and> acts cid (R a) (snap cid h) () (snap cid h') \<and>
      granted cid req (P a) h"
    by (rule entry_point [OF w h(1) pre kept post run])
  then obtain a where a: "G (snap cid h) a" "in_frame cid h'" "acts cid (R a) (snap cid h) () (snap cid h')"
    "granted cid req (P a) h" by (elim exE conjE)
  have "sn_instance (snap cid h') = sn_instance (snap cid h)" using a(3) by (simp add: acts_def)
  then have ast: "asset_in (snap cid h') = Some ast" using h(2) by (simp only: asset_in_def)
  have "R a (token_of cid ast (snap cid h)) (token_of cid ast (snap cid h'))"
    using a(3) h(2) by (simp add: acts_def)
  from step [OF a(1) this]
  have "tok_step c (token_of cid ast (snap cid h)) = Some (token_of cid ast (snap cid h'))"
    and "principal c (token_of cid ast (snap cid h)) = Some (P a)" by simp_all
  with ast a(2,4) show ?thesis unfolding implements_def by blast
qed

lemma acts_before: "does cid e (\<lambda>s u t. t = s) \<Longrightarrow> does cid m (acts cid R) \<Longrightarrow> does cid (then_op e m) (acts cid R)"
  by (rule does_weaken [OF does_then]) auto

lemma acts_after: "does cid m (acts cid R) \<Longrightarrow> does cid e (\<lambda>s u t. t = s) \<Longrightarrow> does cid (then_op m e) (acts cid R)"
  by (rule does_weaken [OF does_then]) (auto simp: acts_def)

lemmas acts_bracket = acts_before [OF does_extend_instance acts_after]

lemma run_approve:
  assumes "calm_world cid (req_world req)" "in_frame cid h" "asset_in (snap cid h) = Some ast"
    and "sac_approve req f p n l h = (Inr (), h')"
  shows "implements cid req (Approve f p n l) ast h h'"
  by (rule acts_entry [OF assms(1-3) does_nonnegative kept_checks(1)
        acts_bracket [OF does_write_allowance does_events(1)] assms(4) [unfolded sac_approve_def]])
    simp

lemma acts_transfer:
  assumes "0 \<le> sint n" and "does cid e (\<lambda>s u t. t = s)"
  shows "does cid (then_op (spend_balance f n) (then_op (receive_balance t n) e))
    (acts cid (\<lambda>x y. Option.bind (debit f (sint n) x) (deposit t (sint n)) = Some y))"
  by (rule does_then_acts [OF does_spend [OF assms(1)] acts_after [OF does_receive assms(2)]])
    (simp add: debit_def deposit_def)

lemma run_transfer:
  assumes "calm_world cid (req_world req)" "in_frame cid h" "asset_in (snap cid h) = Some ast"
    and "sac_transfer req f t n h = (Inr (), h')"
  shows "implements cid req (Transfer f t n) ast h h'"
proof -
  have n: "0 \<le> sint n"
    using assms(4) doesD(2) [OF does_nonnegative assms(2)]
    by (auto simp: sac_transfer_def and_then_Inr lift_op_Inr)
  show ?thesis
    by (rule acts_entry [OF assms(1-3) does_nonnegative kept_checks(1)
          acts_before [OF does_extend_instance acts_transfer [OF n does_events(2)]]
          assms(4) [unfolded sac_transfer_def]])
      (simp add: n)
qed

lemma run_transfer_from:
  assumes "calm_world cid (req_world req)" "in_frame cid h" "asset_in (snap cid h) = Some ast"
    and "sac_transfer_from req p f t n h = (Inr (), h')"
  shows "implements cid req (TransferFrom p f t n) ast h h'"
proof -
  have n: "0 \<le> sint n"
    using assms(4) doesD(2) [OF does_nonnegative assms(2)]
    by (auto simp: sac_transfer_from_def and_then_Inr lift_op_Inr)
  have "does cid (then_op (spend_allowance f p n) (then_op (spend_balance f n)
      (then_op (receive_balance t n) (event_transfer f t n))))
    (acts cid (\<lambda>x y. Option.bind (spend f p (sint n) x) (\<lambda>z.
      Option.bind (debit f (sint n) z) (deposit t (sint n))) = Some y))"
    by (rule does_then_acts [OF does_spend_allowance acts_transfer [OF n does_events(2)]])
      (simp add: spend_def)
  from acts_entry [OF assms(1-3) does_nonnegative kept_checks(1) acts_before [OF does_extend_instance this]
      assms(4) [unfolded sac_transfer_from_def]]
  show ?thesis by (simp add: n)
qed

lemma acts_burn:
  assumes "0 \<le> sint n"
  shows "does cid (then_op (spend_balance f n) (event_burn f n)) (acts cid (\<lambda>x y. debit f (sint n) x = Some y))"
  by (rule does_weaken [OF acts_after [OF does_spend [OF assms] does_events(7)]])
    (auto simp: acts_def debit_def)

lemma does_burn_checks:
  "does cid (then_op (check_nonnegative_amount n) (then_op check_non_native (check_not_issuer f)))
    (\<lambda>s u t. t = s \<and> (0 \<le> sint n \<and> (\<forall>ast. asset_in s = Some ast \<longrightarrow> ast \<noteq> NativeAsset \<and> \<not> is_issuer ast f)))"
  by (rule does_weaken, (rule does_intro)+) auto

lemma kept_burn_checks:
  "auth_kept (then_op (check_nonnegative_amount n) (then_op check_non_native (check_not_issuer f)))"
  by (intro kept_intro)

lemma run_burn:
  assumes "calm_world cid (req_world req)" "in_frame cid h" "asset_in (snap cid h) = Some ast"
    and "sac_burn req f n h = (Inr (), h')"
  shows "implements cid req (Burn f n) ast h h'"
proof -
  have n: "0 \<le> sint n"
    using assms(4) doesD(2) [OF does_burn_checks assms(2)]
    by (auto simp: sac_burn_def and_then_Inr lift_op_Inr)
  show ?thesis
    by (rule acts_entry [OF assms(1-3) does_burn_checks kept_burn_checks
          acts_before [OF does_extend_instance acts_burn [OF n]] assms(4) [unfolded sac_burn_def]])
      (simp add: assms(3))
qed

lemma run_burn_from:
  assumes "calm_world cid (req_world req)" "in_frame cid h" "asset_in (snap cid h) = Some ast"
    and "sac_burn_from req p f n h = (Inr (), h')"
  shows "implements cid req (BurnFrom p f n) ast h h'"
proof -
  have n: "0 \<le> sint n"
    using assms(4) doesD(2) [OF does_burn_checks assms(2)]
    by (auto simp: sac_burn_from_def and_then_Inr lift_op_Inr)
  have "does cid (then_op (spend_allowance f p n) (then_op (spend_balance f n) (event_burn f n)))
    (acts cid (\<lambda>x y. Option.bind (spend f p (sint n) x) (debit f (sint n)) = Some y))"
    by (rule does_then_acts [OF does_spend_allowance acts_burn [OF n]]) (simp add: spend_def)
  from acts_entry [OF assms(1-3) does_burn_checks kept_burn_checks acts_before [OF does_extend_instance this]
      assms(4) [unfolded sac_burn_from_def], of "BurnFrom p f n"]
  show ?thesis by (simp add: assms(3))
qed

lemma run_clawback:
  assumes "calm_world cid (req_world req)" "in_frame cid h" "asset_in (snap cid h) = Some ast"
    and "sac_clawback req f n h = (Inr (), h')"
  shows "implements cid req (Clawback f n) ast h h'"
proof -
  let ?pre = "then_op (check_nonnegative_amount n) (then_op (check_clawbackable f)
    (then_op (check_not_issuer f) read_administrator))"
  have pre: "does cid ?pre (\<lambda>s a t. t = s \<and> (0 \<le> sint n \<and> admin_in s = Some a \<and>
      (\<forall>ast. asset_in s = Some ast \<longrightarrow> \<not> is_issuer ast f \<and> (\<forall>acc. f = AccountAddr acc \<longrightarrow> ast \<noteq> NativeAsset))))"
    by (rule does_weaken, (rule does_intro)+) auto
  have kept: "auth_kept ?pre" by (intro kept_intro)
  have n: "0 \<le> sint n"
    using assms(4) doesD(2) [OF pre assms(2)] by (auto simp: sac_clawback_def and_then_Inr lift_op_Inr)
  show ?thesis
    by (rule acts_entry [OF assms(1-3) pre kept
          acts_bracket [OF does_spend_unchecked [OF n] does_events(4)] assms(4) [unfolded sac_clawback_def]])
      (simp add: assms(3) has_line_def)
qed

lemma run_set_authorized:
  assumes "calm_world cid (req_world req)" "in_frame cid h" "asset_in (snap cid h) = Some ast"
    and "sac_set_authorized req a b h = (Inr (), h')"
  shows "implements cid req (SetAuthorized a b) ast h h'"
proof -
  have pre: "does cid read_administrator (\<lambda>s a t. t = s \<and> admin_in s = Some a)"
    by (rule does_weaken [OF does_read_administrator]) auto
  show ?thesis
    by (rule acts_entry [OF assms(1-3) pre kept_checks(4)
          acts_bracket [OF does_write_authorization does_events(5)] assms(4) [unfolded sac_set_authorized_def]])
      simp
qed

lemma run_mint:
  assumes "calm_world cid (req_world req)" "in_frame cid h" "asset_in (snap cid h) = Some ast"
    and "sac_mint req f n h = (Inr (), h')"
  shows "implements cid req (Mint f n) ast h h'"
proof -
  let ?pre = "then_op (check_nonnegative_amount n) (then_op (check_not_issuer f) read_administrator)"
  have pre: "does cid ?pre (\<lambda>s a t. t = s \<and> (0 \<le> sint n \<and> admin_in s = Some a \<and>
      (\<forall>ast. asset_in s = Some ast \<longrightarrow> \<not> is_issuer ast f)))"
    by (rule does_weaken, (rule does_intro)+) auto
  have kept: "auth_kept ?pre" by (intro kept_intro)
  show ?thesis
    by (rule acts_entry [OF assms(1-3) pre kept
          acts_bracket [OF does_receive does_events(3)] assms(4) [unfolded sac_mint_def]])
      (simp add: assms(3) deposit_def)
qed

text \<open>The administrator is the only part of the token that the instance storage holds.\<close>

lemma admin_put:
  fixes a :: address
  assumes "asset_in s = Some ast"
  defines "t \<equiv> s\<lparr>sn_instance := (sn_instance s)(admin_key \<mapsto> AddressVal a)\<rparr>"
  shows "asset_in t = Some ast" and "token_of cid ast t = (token_of cid ast s)\<lparr>tk_admin := Some a\<rparr>"
proof -
  have "asset_info_key \<noteq> admin_key" by (simp add: asset_info_key_def admin_key_def)
  then show "asset_in t = Some ast" using assms(1) by (simp add: t_def asset_in_def)
  have reads: "account_in t = account_in s" "trustline_in t = trustline_in s"
    "contract_balance cid t = contract_balance cid s" "allowance_in cid t = allowance_in cid s"
    by (simp_all add: fun_eq_iff t_def account_in_def trustline_in_def contract_balance_def allowance_in_def
        data_at_def)
  show "token_of cid ast t = (token_of cid ast s)\<lparr>tk_admin := Some a\<rparr>"
    unfolding token_of_def balance_in_def authorized_in_def issuer_requires_def reads
    by (simp add: t_def admin_in_def)
qed

lemma run_set_admin:
  assumes "calm_world cid (req_world req)" "in_frame cid h" "asset_in (snap cid h) = Some ast"
    and "sac_set_admin req a h = (Inr (), h')"
  shows "implements cid req (SetAdmin a) ast h h'"
proof -
  have pre: "does cid read_administrator (\<lambda>s a t. t = s \<and> admin_in s = Some a)"
    by (rule does_weaken [OF does_read_administrator]) auto
  have post: "does cid (then_op extend_instance (then_op (write_administrator a) (event_set_admin p a)))
    (\<lambda>s u t. t = s\<lparr>sn_instance := (sn_instance s)(admin_key \<mapsto> AddressVal a)\<rparr>)" for p
    unfolding write_administrator_def by (rule does_weaken, (rule does_intro)+) auto
  from entry_point [OF assms(1,2) pre kept_checks(4) post assms(4) [unfolded sac_set_admin_def]]
  obtain p where "admin_in (snap cid h) = Some p" "in_frame cid h'" "granted cid req p h"
    "snap cid h' = (snap cid h)\<lparr>sn_instance := (sn_instance (snap cid h))(admin_key \<mapsto> AddressVal a)\<rparr>"
    by (elim exE conjE)
  with admin_put [OF assms(3)] show ?thesis by (simp add: implements_def)
qed

lemma run_call:
  assumes "calm_world cid (req_world req)" "in_frame cid h" "asset_in (snap cid h) = Some ast"
    and "sac_exec req c h = (Inr (), h')"
  shows "implements cid req c ast h h'"
  using assms(4)
  by (cases c) (simp_all add: run_approve [OF assms(1-3)] run_transfer [OF assms(1-3)]
      run_transfer_from [OF assms(1-3)] run_burn [OF assms(1-3)] run_burn_from [OF assms(1-3)]
      run_clawback [OF assms(1-3)] run_set_authorized [OF assms(1-3)] run_mint [OF assms(1-3)]
      run_set_admin [OF assms(1-3)])

end
