(* ===== verification/Sac_Example.thy ===== *)
theory Sac_Example
  imports Sac_Refine Host_Props
begin

text \<open>
  A host in which contract 2 has called the contract of an asset, contract 1. Contracts 2 and 3 hold the asset and
  contract 2 administers it. The lemmas evaluate a transfer from 2 to 3.
\<close>

section \<open>The order of its keys\<close>

definition example_instance :: "sac_value instance_storage_map" where
  "example_instance = \<lparr>ism_map =
     [(metadata_key, MetadataVal \<lparr>md_decimal = 7, md_name = ''USD:G5'', md_symbol = ''USD''\<rparr>),
      (admin_key, AddressVal (ContractAddr 2)),
      (asset_info_key, AssetInfoVal (AlphaNum4Info [CHR ''U'', CHR ''S'', CHR ''D'', CHR 0x00] 5))],
     ism_modified = False\<rparr>"

definition key2 :: ledger_key where "key2 = own_key 1 (balance_key (ContractAddr 2)) Persistent"
definition key3 :: ledger_key where "key3 = own_key 1 (balance_key (ContractAddr 3)) Persistent"
definition key_i :: ledger_key where "key_i = contract_instance_ledger_key 1"

lemma ex_order_val:
  "compare_host_val admin_key asset_info_key = Inr Less"
  "compare_host_val metadata_key admin_key = Inr Less"
  "compare_host_val metadata_key asset_info_key = Inr Less"
  by code_simp+

lemma ex_order_key:
  "compare_key key2 key3 = Inr Less" "compare_key key2 key_i = Inr Less" "compare_key key3 key_i = Inr Less"
  by code_simp+

lemma ex_order_val_all [simp]:
  "compare_host_val admin_key asset_info_key = Inr Less"
  "compare_host_val metadata_key admin_key = Inr Less"
  "compare_host_val metadata_key asset_info_key = Inr Less"
  "compare_host_val asset_info_key admin_key = Inr Greater"
  "compare_host_val admin_key metadata_key = Inr Greater"
  "compare_host_val asset_info_key metadata_key = Inr Greater"
  "compare_host_val k k = Inr Equal"
  using ex_order_val vals.cmp_flip vals.cmp_irrefl by auto

lemma ex_supported [simp]:
  "supported_key key2" "supported_key key3" "supported_key key_i"
  "check_supported_ledger_key_type key2 = Inr ()" "check_supported_ledger_key_type key3 = Inr ()"
  "check_supported_ledger_key_type key_i = Inr ()"
  by (simp_all add: key2_def key3_def key_i_def contract_instance_ledger_key_def)

lemma ex_order_key_all [simp]:
  "compare_key key2 key3 = Inr Less" "compare_key key2 key_i = Inr Less" "compare_key key3 key_i = Inr Less"
  "compare_key key3 key2 = Inr Greater" "compare_key key_i key2 = Inr Greater" "compare_key key_i key3 = Inr Greater"
  "compare_key key2 key2 = Inr Equal" "compare_key key3 key3 = Inr Equal" "compare_key key_i key_i = Inr Equal"
  using ex_order_key lk.cmp_flip lk.cmp_irrefl ex_supported by auto

definition sac_balance_entry :: "hash \<Rightarrow> i128 \<Rightarrow> sac_value stored ledger_entry" where
  "sac_balance_entry c n = ContractDataE (ContractAddr 1) (balance_key (ContractAddr c)) Persistent
     (DataVal (BalanceVal \<lparr>bal_amount = n, bal_authorized = True, bal_clawback = False\<rparr>))"

definition instance_entry :: "sac_value stored ledger_entry" where
  "instance_entry = ContractDataE (ContractAddr 1) LedgerKeyContractInstanceV Persistent
     (InstanceVal \<lparr>inst_executable = StellarAssetExec, inst_storage = None\<rparr>)"

definition example_sac_storage :: "i128 \<Rightarrow> i128 \<Rightarrow> sac_value stored storage" where
  "example_sac_storage a b =
     \<lparr>st_footprint = [(key2, ReadWrite), (key3, ReadWrite), (key_i, ReadOnly)], st_mode = Enforcing,
      st_map = [(key2, Some (sac_balance_entry 2 a, Some 2000000)),
                (key3, Some (sac_balance_entry 3 b, Some 2000000)),
                (key_i, Some (instance_entry, Some 2000000))]\<rparr>"

lemma ex_access [simp]:
  "access key2 ty (example_sac_storage a b) = Inr ((), example_sac_storage a b)"
  "access key3 ty (example_sac_storage a b) = Inr ((), example_sac_storage a b)"
  "access key_i ReadOnly (example_sac_storage a b) = Inr ((), example_sac_storage a b)"
  by (simp_all add: access_def enforce_access_def map_eval example_sac_storage_def split: access_type.split)

lemma ex_find [simp]:
  "omap_get compare_key key2 (st_map (example_sac_storage a b)) = Inr (Some (Some (sac_balance_entry 2 a, Some 2000000)))"
  "omap_get compare_key key3 (st_map (example_sac_storage a b)) = Inr (Some (Some (sac_balance_entry 3 b, Some 2000000)))"
  "omap_get compare_key key_i (st_map (example_sac_storage a b)) = Inr (Some (Some (instance_entry, Some 2000000)))"
  by (simp_all add: map_eval example_sac_storage_def)

lemma ex_insert [simp]:
  "map_insert key2 (Some (sac_balance_entry 2 a', Some 2000000)) (example_sac_storage a b) = Inr ((), example_sac_storage a' b)"
  "map_insert key3 (Some (sac_balance_entry 3 b', Some 2000000)) (example_sac_storage a b) = Inr ((), example_sac_storage a b')"
  by (simp_all add: map_eval map_insert_def example_sac_storage_def)

lemma ex_mode [simp]: "st_mode (example_sac_storage a b) = Enforcing" by (simp add: example_sac_storage_def)

lemma ex_full [simp]:
  "try_get_full key2 (example_sac_storage a b) = Inr (Some (sac_balance_entry 2 a, Some 2000000), example_sac_storage a b)"
  "try_get_full key3 (example_sac_storage a b) = Inr (Some (sac_balance_entry 3 b, Some 2000000), example_sac_storage a b)"
  "try_get_full key_i (example_sac_storage a b) = Inr (Some (instance_entry, Some 2000000), example_sac_storage a b)"
  by (simp_all add: try_get_full_def then_op_eval bind_op_eval prepare_read_only_access_def read_through_def)

lemma ex_entry_supported [simp]:
  "check_supported_ledger_entry_type (sac_balance_entry c n) = Inr ()"
  by (simp add: sac_balance_entry_def)

lemma ex_put [simp]:
  "put_with_host key2 (sac_balance_entry 2 a') (Some 2000000) (example_sac_storage a b) = Inr ((), example_sac_storage a' b)"
  "put_with_host key3 (sac_balance_entry 3 b') (Some 2000000) (example_sac_storage a b) = Inr ((), example_sac_storage a b')"
  by (simp_all add: put_with_host_def put_opt_with_host_def decorated_def put_opt_def then_op_eval)

lemma ex_read [simp]:
  "has_with_host key2 (example_sac_storage a b) = Inr (True, example_sac_storage a b)"
  "has_with_host key3 (example_sac_storage a b) = Inr (True, example_sac_storage a b)"
  "get_with_host key2 (example_sac_storage a b) = Inr (sac_balance_entry 2 a, example_sac_storage a b)"
  "get_with_host key3 (example_sac_storage a b) = Inr (sac_balance_entry 3 b, example_sac_storage a b)"
  "get_with_host key_i (example_sac_storage a b) = Inr (instance_entry, example_sac_storage a b)"
  "get_with_live_until_ledger key2 (example_sac_storage a b) = Inr ((sac_balance_entry 2 a, Some 2000000), example_sac_storage a b)"
  "get_with_live_until_ledger key3 (example_sac_storage a b) = Inr ((sac_balance_entry 3 b, Some 2000000), example_sac_storage a b)"
  "get_with_live_until_ledger key_i (example_sac_storage a b) = Inr ((instance_entry, Some 2000000), example_sac_storage a b)"
  by (simp_all add: has_with_host_def get_with_host_def get_with_live_until_ledger_def decorated_def
      some_or_missing_def bind_op_eval then_op_eval try_get_full_with_host_def)

lemma ex_ledger: "max_live_until_ledger genesis_ledger = Inr 6312099" "sequence_number genesis_ledger = 100"
  by (simp_all add: genesis_ledger_def max_live_until_ledger_def max_live_until_ledger_checked_def checked_add_def
     saturating_sub_def)

lemma ex_ttls:
  "BALANCE_TTL_THRESHOLD = 501120" "BALANCE_EXTEND_AMOUNT = 518400" "INSTANCE_TTL_THRESHOLD = 103680" "INSTANCE_EXTEND_AMOUNT = 120960"
  by (simp_all add: BALANCE_TTL_THRESHOLD_def BALANCE_EXTEND_AMOUNT_def INSTANCE_TTL_THRESHOLD_def INSTANCE_EXTEND_AMOUNT_def DAY_IN_LEDGERS_def)

lemma ex_extend [simp]:
  "st_extend_ttl genesis_ledger key2 BALANCE_TTL_THRESHOLD BALANCE_EXTEND_AMOUNT (example_sac_storage a b) = Inr ((), example_sac_storage a b)"
  "st_extend_ttl genesis_ledger key3 BALANCE_TTL_THRESHOLD BALANCE_EXTEND_AMOUNT (example_sac_storage a b) = Inr ((), example_sac_storage a b)"
  "st_extend_ttl genesis_ledger key_i INSTANCE_TTL_THRESHOLD INSTANCE_EXTEND_AMOUNT (example_sac_storage a b) = Inr ((), example_sac_storage a b)"
  by (simp_all add: st_extend_ttl_def then_op_eval bind_op_eval ex_ledger ex_ttls checked_add_def)

definition example_sac_host :: "i128 \<Rightarrow> i128 \<Rightarrow> (internal_event \<times> event_error) list \<Rightarrow> sac_host" where
  "example_sac_host a b evs =
     \<lparr>h_storage = example_sac_storage a b, h_ledger = genesis_ledger,
      h_stack = [\<lparr>ctx_frame = StellarAssetContract 1 ''transfer'' [] \<lparr>inst_executable = StellarAssetExec, inst_storage = None\<rparr>,
                  ctx_storage = Some example_instance\<rparr>],
      h_events = evs, h_debug = False,
      h_auth = new_enforcing_without_authorizations\<lparr>am_call_stack := [ContractFrame (ContractAddr 2) ''f'', ContractFrame (ContractAddr 1) ''transfer'']\<rparr>, h_source_account = None\<rparr>"

lemma ex_host [simp]:
  "h_storage (example_sac_host a b evs) = example_sac_storage a b" "h_ledger (example_sac_host a b evs) = genesis_ledger"
  "example_sac_host a b evs\<lparr>h_storage := example_sac_storage a' b'\<rparr> = example_sac_host a' b' evs"
  "get_current_contract_id_opt_internal (example_sac_host a b evs) = Some 1"
  by (simp_all add: example_sac_host_def get_current_contract_id_opt_internal_def)

lemma ex_own_keys:
  "storage_key_for_address (ContractAddr 1) (balance_key (ContractAddr 2)) Persistent = key2"
  "storage_key_for_address (ContractAddr 1) (balance_key (ContractAddr 3)) Persistent = key3"
  by (simp_all add: key2_def key3_def storage_key_for_address_def)

lemmas ex_eval = bind_op_eval then_op_eval on_storage_def get_current_contract_id_internal_def
  storage_key_from_val_def ex_own_keys

lemma ex_extend_instance [simp]: "extend_instance (example_sac_host a b evs) = Inr ((), example_sac_host a b evs)"
  by (simp add: extend_instance_def extend_current_contract_instance_and_code_ttl_def ex_eval
      extend_contract_instance_ttl_from_contract_id_def extend_contract_code_ttl_from_contract_id_def
      storage_extend_ttl_def retrieve_contract_instance_from_storage_def
      key_i_def [symmetric]) (simp add: instance_entry_def)

lemma ex_entry_case [simp]:
  "case_ledger_entry f1 f2 f3 f4 f5 f6 f7 f8 f9 f10 (sac_balance_entry c n) =
     f3 (ContractAddr 1) (balance_key (ContractAddr c)) Persistent
       (DataVal (BalanceVal \<lparr>bal_amount = n, bal_authorized = True, bal_clawback = False\<rparr>))"
  by (simp add: sac_balance_entry_def)

lemma ex_as_balance [simp]: "as_balance (DataVal (BalanceVal v)) h = Inr (v, h)"
  by (simp add: as_balance_def)

lemma ex_balance [simp]:
  "try_get_balance (ContractAddr 2) (example_sac_host a b evs) =
     Inr (Some \<lparr>bal_amount = a, bal_authorized = True, bal_clawback = False\<rparr>, example_sac_host a b evs)"
  "try_get_balance (ContractAddr 3) (example_sac_host a b evs) =
     Inr (Some \<lparr>bal_amount = b, bal_authorized = True, bal_clawback = False\<rparr>, example_sac_host a b evs)"
  by (simp_all add: try_get_balance_def try_get_contract_data_def has_contract_data_def get_contract_data_def
      ex_eval)

lemma ex_write [simp]:
  "write_contract_balance (ContractAddr 2) \<lparr>bal_amount = n, bal_authorized = True, bal_clawback = False\<rparr>
     (example_sac_host a b evs) = Inr ((), example_sac_host n b evs)"
  "write_contract_balance (ContractAddr 3) \<lparr>bal_amount = n, bal_authorized = True, bal_clawback = False\<rparr>
     (example_sac_host a b evs) = Inr ((), example_sac_host a n evs)"
  by (simp_all add: write_contract_balance_def extend_balance_def put_contract_data_def put_contract_data_into_ledger_def
      extend_contract_data_ttl_def storage_extend_ttl_def ex_eval ex_put [unfolded sac_balance_entry_def])

definition example_sac_world :: "sac_value auth_world" where
  "example_sac_world =
     \<lparr>aw_void = OtherVal VoidV, aw_hash_preimage = (\<lambda>p. pre_network_id p), aw_signatures = (\<lambda>_. None),
      aw_verify = (\<lambda>_ _ _. False), aw_check_auth = (\<lambda>_ _ _ _ h. (Inl ConversionError, h))\<rparr>"

definition example_request :: sac_request where
  "example_request = \<lparr>req_world = example_sac_world, req_nonce = 1, req_handle = 0\<rparr>"

lemma example_calm: "calm_world 1 (req_world example_request)"
  by (simp add: example_request_def example_sac_world_def calm_world_def calm_def body_does_def)

lemma ex_require: "require example_request (ContractAddr 2) (example_sac_host a b evs) = (Inr (), example_sac_host a b evs)"
  by (simp add: require_def host_require_auth_def example_sac_host_def am_require_auth_def require_auth_internal_def
      maybe_check_invoker_contract_auth_def compare_hash_def)

lemma ex_name [simp]: "read_name (example_sac_host a b evs) = Inr (''USD:G5'', example_sac_host a b evs)"
  by (simp add: read_name_def get_contract_data_def ex_eval with_instance_storage_def
      with_current_context_mut_def maybe_init_instance_storage_def as_metadata_def example_sac_host_def example_instance_def
      map_eval)

lemma ex_event: "\<exists>evs'. event_transfer f t n (example_sac_host a b evs) = Inr ((), example_sac_host a b evs')"
  by (simp add: event_transfer_def ex_eval contract_event_def) (simp add: example_sac_host_def)

lemma example_in_frame: "in_frame 1 (example_sac_host a b evs)"
  by (simp add: in_frame_def inst_map_def)
    (simp add: example_sac_host_def storage_ok_def example_sac_storage_def omap_sorted_def maybe_init_instance_storage_def
      example_instance_def)

lemma ex_instance_keys [simp]:
  "asset_info_key \<noteq> admin_key" "asset_info_key \<noteq> metadata_key" "admin_key \<noteq> asset_info_key"
  "admin_key \<noteq> metadata_key" "metadata_key \<noteq> asset_info_key" "metadata_key \<noteq> admin_key"
  by (simp_all add: asset_info_key_def admin_key_def metadata_key_def)

lemma example_asset:
  "asset_in (snap 1 (example_sac_host a b evs)) = Some (CreditAlphanum4 [CHR ''U'', CHR ''S'', CHR ''D'', CHR 0x00] 5)"
  by (simp add: asset_in_def snap_def example_sac_host_def inst_map_def maybe_init_instance_storage_def example_instance_def)

lemma ex_spend: "spend_balance (ContractAddr 2) 40 (example_sac_host 100 b evs) = Inr ((), example_sac_host 60 b evs)"
  by (simp add: spend_balance_def is_authorized_def ex_eval spend_balance_no_authorization_check_def
     checked_ssub_def)
lemma ex_receive: "receive_balance (ContractAddr 3) 40 (example_sac_host a 7 evs) = Inr ((), example_sac_host a 47 evs)"
  by (simp add: receive_balance_def is_authorized_def ex_eval checked_sadd_def)

lemma example_transfer:
  "\<exists>evs. sac_exec example_request (Transfer (ContractAddr 2) (ContractAddr 3) 40) (example_sac_host 100 7 []) =
     (Inr (), example_sac_host 60 47 evs)"
proof -
  obtain evs where evs: "event_transfer (ContractAddr 2) (ContractAddr 3) 40 (example_sac_host 60 47 []) =
      Inr ((), example_sac_host 60 47 evs)" using ex_event by blast
  show ?thesis
    by (simp add: sac_transfer_def and_then_def lift_op_def check_nonnegative_amount_def then_op_eval
        ex_require ex_spend ex_receive evs) blast
qed
end
