(* ===== verification/Sac_Props.thy ===== *)
theory Sac_Props
  imports Sac_Example
begin

text \<open>
  The properties of the Stellar asset contract: every call that changes its state implements the token of
  \<open>Sac_Refine\<close> and is authorized by the address the token names; what this means for the supply, for holders
  and for spenders; and how the name of an asset determines it.
\<close>

section \<open>The token\<close>

definition total :: "address set \<Rightarrow> token \<Rightarrow> int" where
  "total A tok = (\<Sum>a\<in>A. tk_balance tok a)"


definition counted :: "asset \<Rightarrow> address \<Rightarrow> int \<Rightarrow> int" where
  "counted ast a n = (if is_issuer ast a then 0 else n)"


lemma sums_set [simp]:
  "total A (set_allowed a b tok) = total A tok" "total A (set_allowance f p n l tok) = total A tok"
  "total A (use_allowance f p n tok) = total A tok" "total A (tok\<lparr>tk_admin := d\<rparr>) = total A tok"
  by (simp_all add: total_def set_allowed_def set_allowance_def use_allowance_def split: option.split)


lemma asset_kept [simp]:
  "tk_asset (set_allowed a b tok) = tk_asset tok" "tk_asset (set_allowance f p n l tok) = tk_asset tok"
  "tk_asset (use_allowance f p n tok) = tk_asset tok" "tk_asset (credit a n tok) = tk_asset tok"
  by (simp_all add: credit_def set_balance_def set_allowed_def set_allowance_def use_allowance_def
      split: option.split)

lemma stepped:
  "debit a n tok = Some y \<longleftrightarrow> tk_authorized tok a \<and> covered a n tok \<and> y = credit a (- n) tok"
  "deposit a n tok = Some y \<longleftrightarrow> tk_authorized tok a \<and> y = credit a n tok"
  "spend f p n tok = Some y \<longleftrightarrow> n \<le> spendable tok f p \<and> y = use_allowance f p n tok"
  by (auto simp: debit_def deposit_def spend_def)


lemma selected [simp]:
  "tk_balance (use_allowance f p n tok) = tk_balance tok" "tk_balance (set_allowance f p n l tok) = tk_balance tok"
  "tk_balance (set_allowed a b tok) = tk_balance tok" "tk_ledger (use_allowance f p n tok) = tk_ledger tok"
  "tk_ledger (credit a n tok) = tk_ledger tok" "tk_ledger (set_allowed a b tok) = tk_ledger tok"
  "tk_allowance (credit a n tok) = tk_allowance tok" "tk_allowance (set_allowed a b tok) = tk_allowance tok"
  "spendable (credit a n tok) = spendable tok" "spendable (set_allowed a b tok) = spendable tok"
  by (simp_all add: fun_eq_iff spendable_def credit_def set_balance_def set_allowed_def set_allowance_def
      use_allowance_def split: option.split)

lemma credited:
  "tk_balance (credit a n tok) b =
     tk_balance tok b + (if a = b then counted (tk_asset tok) a n else 0)"
  by (auto simp: credit_def set_balance_def counted_def)

lemma spendable_used:
  assumes "0 \<le> n" and "n \<le> spendable tok f p"
  shows "spendable (use_allowance f p n tok) f' p' =
    spendable tok f' p' - (if (f', p') = (f, p) then n else 0)"
  using assms by (auto simp: spendable_def use_allowance_def split: option.splits if_splits)

lemma spendable_set:
  assumes "0 \<le> n"
  shows "spendable (set_allowance f p n l tok) f' p' =
    (if (f', p') = (f, p) then (if l < sequence_number (tk_ledger tok) then 0 else n) else spendable tok f' p')"
  using assms by (auto simp: spendable_def set_allowance_def split: option.splits)

lemma spendable_admin [simp]: "spendable (tok\<lparr>tk_admin := d\<rparr>) = spendable tok"
  by (simp add: spendable_def fun_eq_iff split: option.split)

lemmas token_moves = stepped bind_eq_Some_conv credited counted_def spendable_used spendable_set



definition token_ok :: "token \<Rightarrow> bool" where
  "token_ok tok \<longleftrightarrow> (\<forall>c. 0 \<le> tk_balance tok (ContractAddr c)) \<and> (\<forall>f p. 0 \<le> spendable tok f p)"

lemma tok_step_ok:
  assumes "tok_step c tok = Some tok'" and "token_ok tok"
  shows "token_ok tok'"
  using assms
  by (cases c) (auto simp: token_ok_def token_moves covered_def split: if_splits)

section \<open>Names\<close>

lemma count_all_zero:
  "count_code_chars True n cs = Inr m \<Longrightarrow> m = n \<and> (\<forall>c \<in> set cs. of_char c = (0 :: nat))"
  by (induction cs arbitrary: n) (auto split: if_splits)

text \<open>A valid code is its letters and digits followed by zero bytes.\<close>

lemma count_chars:
  assumes "count_code_chars False n cs = Inr m"
  obtains k where "m = n + k" "k \<le> length cs" "\<forall>c \<in> set (take k cs). is_ascii_alphanumeric c"
    "\<forall>c \<in> set (drop k cs). of_char c = (0 :: nat)"
  using assms
proof (induction cs arbitrary: n thesis)
  case (Cons c cs)
  show ?case
  proof (cases "of_char c = (0 :: nat)")
    case True
    with Cons.prems(2) count_all_zero [of n cs m] have "m = n" "\<forall>c \<in> set cs. of_char c = (0 :: nat)" by auto
    with True show ?thesis by (intro Cons.prems(1) [of 0]) auto
  next
    case False
    with Cons.prems(2) have c: "is_ascii_alphanumeric c" "count_code_chars False (n + 1) cs = Inr m"
      by (auto split: if_splits)
    from Cons.IH [OF _ c(2)] obtain k where "m = n + 1 + k" "k \<le> length cs"
      "\<forall>c \<in> set (take k cs). is_ascii_alphanumeric c" "\<forall>c \<in> set (drop k cs). of_char c = (0 :: nat)"
      by metis
    with c(1) show ?thesis by (intro Cons.prems(1) [of "Suc k"]) auto
  qed
qed simp

lemma render_letters:
  "\<forall>c \<in> set xs. is_ascii_alphanumeric c \<Longrightarrow> render_bytes len i (xs @ zs) = xs @ render_bytes len (i + length xs) zs"
  by (induction xs arbitrary: i) (auto simp: is_ascii_alphanumeric_def Let_def)

lemma render_zeros:
  assumes "\<forall>c \<in> set zs. of_char c = (0 :: nat)" and "len = 4 \<or> len = 12 \<and> 4 < i"
  shows "render_bytes len i zs = []"
  using assms by (cases zs) auto

lemma render_code:
  assumes "validate_asset_code code = Inr ()" and "length code = 4 \<or> length code = 12"
  obtains k where "0 < k" "k \<le> length code" "render_bytes (length code) 0 code = take k code"
    "\<forall>c \<in> set (take k code). is_ascii_alphanumeric c" "\<forall>c \<in> set (drop k code). of_char c = (0 :: nat)"
    "length code = 12 \<longrightarrow> 4 < k"
proof -
  obtain m where m: "count_code_chars False 0 code = Inr m" "m \<noteq> 0" "\<not> (m \<le> 4 \<and> 4 < length code)"
    using assms(1) by (auto simp: validate_asset_code_def split: sum.splits if_splits)
  obtain k where k: "m = k" "k \<le> length code" "\<forall>c \<in> set (take k code). is_ascii_alphanumeric c"
    "\<forall>c \<in> set (drop k code). of_char c = (0 :: nat)"
    using count_chars [OF m(1)] by auto
  have "render_bytes (length code) 0 (take k code @ drop k code) = take k code"
    unfolding render_letters [OF k(3)] using k m assms(2) by (subst render_zeros [OF k(4)]) auto
  with k m assms(2) that show thesis by auto
qed

lemma same_code:
  assumes "validate_asset_code code = Inr ()" and "length code = 4 \<or> length code = 12"
    and "validate_asset_code code' = Inr ()" and "length code' = 4 \<or> length code' = 12"
    and "render_bytes (length code) 0 code = render_bytes (length code') 0 code'"
  shows "code = code'"
proof -
  obtain k where k: "k \<le> length code" "render_bytes (length code) 0 code = take k code"
    "\<forall>c \<in> set (drop k code). of_char c = (0 :: nat)" "length code = 12 \<longrightarrow> 4 < k"
    using render_code [OF assms(1,2)] by metis
  obtain l where l: "l \<le> length code'" "render_bytes (length code') 0 code' = take l code'"
    "\<forall>c \<in> set (drop l code'). of_char c = (0 :: nat)" "length code' = 12 \<longrightarrow> 4 < l"
    using render_code [OF assms(3,4)] by metis
  have zero: "c = char_of (0 :: nat)" if "of_char c = (0 :: nat)" for c
    using that by (metis char_of_char)
  have t: "take k code = take l code'" using assms(5) k(2) l(2) by simp
  then have "length (take k code) = length (take l code')" by (rule arg_cong)
  with k(1) l(1) have kl: "k = l" by simp
  with k l assms(2,4) have len: "length code = length code'" by auto
  have "drop k code = replicate (length code - k) (char_of (0 :: nat))"
    "drop l code' = replicate (length code' - l) (char_of (0 :: nat))"
    using k(3) l(3) zero by (auto intro!: replicate_eqI)
  with kl len have "drop k code = drop l code'" by simp
  with t show ?thesis by (metis append_take_drop_id)
qed

lemma letters_no_colon:
  assumes "validate_asset_code code = Inr ()" and "length code = 4 \<or> length code = 12"
  shows "CHR '':'' \<notin> set (render_bytes (length code) 0 code)"
  using render_code [OF assms] by (metis is_ascii_alphanumeric_def[of "CHR '':''", unfolded Let_def, simplified])

lemma named_asset:
  assumes "asset_from_info i = Inr a" and "validate_asset a = Inr ()" and "name_and_symbol strkey i = Inr (nm, s)"
  shows "i = NativeInfo \<and> nm = ''native'' \<or>
    (\<exists>code issuer. (i = AlphaNum4Info code issuer \<and> length code = 4 \<or>
        i = AlphaNum12Info code issuer \<and> length code = 12) \<and>
      validate_asset_code code = Inr () \<and> nm = render_bytes (length code) 0 code @ '':'' @ strkey issuer)"
  using assms
  by (cases i) (auto simp: name_and_symbol_def render_sep0011_asset_def render_sep0011_asset_code_def
      split: if_splits sum.splits)

lemma split_at_colon:
  assumes "CHR '':'' \<notin> set s" and "CHR '':'' \<notin> set s'" and "s @ '':'' @ r = s' @ '':'' @ r'"
  shows "s = s' \<and> r = r'"
proof -
  have "takeWhile (\<lambda>c. c \<noteq> CHR '':'') (s @ '':'' @ r) = s" "takeWhile (\<lambda>c. c \<noteq> CHR '':'') (s' @ '':'' @ r') = s'"
    using assms(1,2) by (auto simp: takeWhile_append takeWhile_eq_all_conv)
  with assms(3) have "s = s'" by simp
  with assms(3) show ?thesis by simp
qed

section \<open>Reading the token\<close>

lemma does_min_max_read:
  "does cid (get_account_balance acc) (\<lambda>s n t. t = s \<and> (\<exists>ae. account_in s acc = Some ae \<and> n = ae_balance ae))"
  "does cid (get_trustline_balance acc tla)
    (\<lambda>s n t. t = s \<and> (\<exists>line. trustline_in s acc tla = Some line \<and> n = tl_balance line))"
  unfolding get_account_balance_def get_trustline_balance_def bind_assoc
  by (rule does_weaken, (rule does_intro)+, auto split: if_splits)+

lemma does_classic_balance:
  "does cid (get_classic_balance acc) (\<lambda>s n t. t = s \<and>
    (\<forall>ast. asset_in s = Some ast \<longrightarrow> \<not> is_issuer ast (AccountAddr acc) \<longrightarrow>
      sint n = balance_in cid ast s (AccountAddr acc)))"
  unfolding get_classic_balance_def
proof (rule does_weaken [OF does_bind [OF does_read_asset asset_case [where P = "\<lambda>ast s n t. t = s \<and>
    (\<not> is_issuer ast (AccountAddr acc) \<longrightarrow> sint n = balance_in cid ast s (AccountAddr acc))"]]])
  fix ast assume "ast = NativeAsset"
  then show "does cid (get_account_balance acc) (\<lambda>s n t. t = s \<and>
      (\<not> is_issuer ast (AccountAddr acc) \<longrightarrow> sint n = balance_in cid ast s (AccountAddr acc)))"
    by - (rule does_weaken [OF does_min_max_read(1)], auto simp: balance_in_def)
next
  fix ast issuer assume i: "issuer_of ast = Some issuer"
  then have "ast \<noteq> NativeAsset" by auto
  with i show "does cid (get_trustline_balance_or_max_if_issuer (trustline_of ast) issuer acc) (\<lambda>s n t. t = s \<and>
      (\<not> is_issuer ast (AccountAddr acc) \<longrightarrow> sint n = balance_in cid ast s (AccountAddr acc)))"
    unfolding get_trustline_balance_or_max_if_issuer_def
    by - (rule does_weaken [OF does_if [OF does_ret does_min_max_read(2)]],
        auto simp: balance_in_def is_issuer_def split: if_splits)
qed auto

lemma sint_widened: "sint (scast (n :: i64) :: i128) = sint n"
  using sint_greater_eq [of n] sint_less [of n] by (simp add: signed_scast_eq signed_take_bit_int_eq_self)

lemma does_read_balance:
  "does cid (read_balance a) (\<lambda>s n t. t = s \<and>
    (\<forall>ast. asset_in s = Some ast \<longrightarrow> \<not> is_issuer ast a \<longrightarrow> sint n = balance_in cid ast s a))"
proof (cases a)
  case (AccountAddr acc)
  show ?thesis unfolding read_balance_def AccountAddr address.case
    by (rule does_weaken [OF does_bind [OF does_classic_balance does_ret]]) (auto simp: sint_widened)
next
  case (ContractAddr c)
  show ?thesis unfolding read_balance_def ContractAddr address.case extend_balance_def
    by (rule does_weaken [OF does_bind [OF does_try_get_data [where d = Persistent]
          does_option [OF does_ret does_then [OF does_extend_data does_bind [OF does_as_value(1) does_ret]]]]])
      (auto simp: balance_in_def contract_balance_def data_at_def split: option.splits)
qed

section \<open>Creation\<close>

definition info_of :: "asset \<Rightarrow> asset_info" where
  "info_of a = (case a of NativeAsset \<Rightarrow> NativeInfo | CreditAlphanum4 c i \<Rightarrow> AlphaNum4Info c i
     | CreditAlphanum12 c i \<Rightarrow> AlphaNum12Info c i)"

lemma does_set_metadata:
  "does cid (set_metadata strkey) (\<lambda>s u t. \<exists>i nm sy. sn_instance s asset_info_key = Some (AssetInfoVal i) \<and>
    name_and_symbol strkey i = Inr (nm, sy) \<and>
    t = s\<lparr>sn_instance := (sn_instance s)(metadata_key \<mapsto>
      MetadataVal \<lparr>md_decimal = DECIMAL, md_name = nm, md_symbol = sy\<rparr>)\<rparr>)"
  unfolding set_metadata_def
  by (rule does_weaken [OF does_bind [OF does_read_asset_info does_bind [OF does_of_result
        does_prod [OF does_put_instance]]]]) (auto split: prod.splits)

lemma named_length: "name_and_symbol strkey (info_of a) = Inr p \<Longrightarrow> asset_from_info (info_of a) = Inr a"
  by (cases a) (auto simp: info_of_def name_and_symbol_def render_sep0011_asset_def split: if_splits)

lemma does_write_info:
  "does cid (case a of NativeAsset \<Rightarrow> write_asset_info NativeInfo
     | CreditAlphanum4 code issuer \<Rightarrow>
         then_op (write_administrator (AccountAddr issuer)) (write_asset_info (AlphaNum4Info code issuer))
     | CreditAlphanum12 code issuer \<Rightarrow>
         then_op (write_administrator (AccountAddr issuer)) (write_asset_info (AlphaNum12Info code issuer)))
   (\<lambda>s u t. sn_entries t = sn_entries s \<and> sn_ledger t = sn_ledger s \<and>
     sn_instance t asset_info_key = Some (AssetInfoVal (info_of a)) \<and>
     sn_instance t admin_key =
       (case issuer_of a of None \<Rightarrow> sn_instance s admin_key | Some i \<Rightarrow> Some (AddressVal (AccountAddr i))))"
proof (cases a)
  case NativeAsset
  show ?thesis unfolding NativeAsset asset.case write_asset_info_def
    by (rule does_weaken [OF does_put_instance]) (simp add: info_of_def)
next
  case (CreditAlphanum4 code issuer)
  show ?thesis unfolding CreditAlphanum4 asset.case write_asset_info_def write_administrator_def
    by (rule does_weaken [OF does_then [OF does_put_instance does_put_instance]]) (auto simp: info_of_def)
next
  case (CreditAlphanum12 code issuer)
  show ?thesis unfolding CreditAlphanum12 asset.case write_asset_info_def write_administrator_def
    by (rule does_weaken [OF does_then [OF does_put_instance does_put_instance]]) (auto simp: info_of_def)
qed

lemma does_init:
  "does cid (init_asset contract_of strkey a) (\<lambda>s u t. sn_instance s asset_info_key = None \<and>
    validate_asset a = Inr () \<and> cid = contract_of (network_id (sn_ledger s)) a \<and>
    sn_entries t = sn_entries s \<and> sn_ledger t = sn_ledger s \<and>
    asset_in t = Some a \<and> admin_in t = (case issuer_of a of None \<Rightarrow> admin_in s | Some i \<Rightarrow> Some (AccountAddr i)) \<and>
    (\<exists>nm sy. name_and_symbol strkey (info_of a) = Inr (nm, sy) \<and>
      sn_instance t metadata_key = Some (MetadataVal \<lparr>md_decimal = 7, md_name = nm, md_symbol = sy\<rparr>)))"
  unfolding init_asset_def has_asset_info_def
  by (rule does_weaken [OF does_bind [OF does_has_instance does_if [OF does_contract_fail does_then [OF does_of_result
          does_bind [OF does_contract_id does_bind [OF does_reads does_if [OF does_contract_fail
          does_then [OF does_write_info does_set_metadata]]]]]]]])
    (auto simp: asset_in_def admin_in_def DECIMAL_def named_length split: if_splits option.splits)

section \<open>Properties\<close>




text \<open>
  The contract stays solvent: if no contract's balance is negative and no spender may spend a negative amount,
  so it is after every call.
\<close>

theorem sac_stays_solvent:
  assumes "calm_world cid (req_world req)" and "in_frame cid h" and "asset_in (snap cid h) = Some ast"
    and "sac_exec req c h = (Inr (), h')" and "token_ok (token_of cid ast (snap cid h))"
  shows "token_ok (token_of cid ast (snap cid h'))"
  using tok_step_ok run_call [OF assms(1-4)] assms(5) by (auto simp: implements_def)

text \<open>
  The name of an asset determines it: two valid assets the contract gives the same name have the same code, of the
  same length, and the same issuer, as long as no two public keys are printed alike.
\<close>

theorem sac_name_determines_asset:
  assumes "inj strkey"
    and "asset_from_info i = Inr a" and "validate_asset a = Inr ()" and "name_and_symbol strkey i = Inr (nm, sy)"
    and "asset_from_info j = Inr b" and "validate_asset b = Inr ()" and "name_and_symbol strkey j = Inr (nm, sy')"
  shows "i = j"
proof -
  note i = named_asset [OF assms(2-4)] and j = named_asset [OF assms(5-7)]
  have native: "nm \<noteq> code @ '':'' @ r" if "nm = ''native''" for code r :: string
  proof
    assume nm: "nm = code @ '':'' @ r"
    have "CHR '':'' \<in> set nm" unfolding nm by simp
    with that show False by simp
  qed
  consider "i = NativeInfo" "nm = ''native''" | "j = NativeInfo" "nm = ''native''"
    | "i \<noteq> NativeInfo" "j \<noteq> NativeInfo" using i j by blast
  then show ?thesis
  proof cases
    case 1
    with j native [OF 1(2)] show ?thesis by blast
  next
    case 2
    with i native [OF 2(2)] show ?thesis by blast
  next
    case 3
    with i obtain c k where ci: "i = AlphaNum4Info c k \<and> length c = 4 \<or> i = AlphaNum12Info c k \<and> length c = 12"
      "validate_asset_code c = Inr ()" "nm = render_bytes (length c) 0 c @ '':'' @ strkey k" by blast
    from 3 j obtain c' k' where cj: "j = AlphaNum4Info c' k' \<and> length c' = 4 \<or> j = AlphaNum12Info c' k' \<and> length c' = 12"
      "validate_asset_code c' = Inr ()" "nm = render_bytes (length c') 0 c' @ '':'' @ strkey k'" by blast
    have l: "length c = 4 \<or> length c = 12" "length c' = 4 \<or> length c' = 12" using ci(1) cj(1) by blast+
    have "render_bytes (length c) 0 c = render_bytes (length c') 0 c' \<and> strkey k = strkey k'"
      by (rule split_at_colon [OF letters_no_colon [OF ci(2) l(1)] letters_no_colon [OF cj(2) l(2)]])
        (simp only: ci(3) [symmetric] cj(3))
    with same_code [OF ci(2) l(1) cj(2) l(2)] assms(1) have "c = c'" "k = k'" by (simp_all add: inj_eq)
    with ci(1) cj(1) show ?thesis by auto
  qed
qed

text \<open>
  Creation happens once, for the asset the contract's id is derived from: it needs a contract without an asset and
  a valid asset whose derived id is the contract's, makes it that asset, with the issuer as administrator and
  seven decimals, touches no entry of the ledger, and fails in every later state of the contract.
\<close>

theorem sac_created_once:
  assumes "in_frame cid h" and "init_asset contract_of strkey a h = Inr ((), h')"
  shows "asset_in (snap cid h) = None \<and> validate_asset a = Inr () \<and>
    cid = contract_of (network_id (h_ledger h)) a \<and>
    in_frame cid h' \<and> asset_in (snap cid h') = Some a \<and>
    admin_in (snap cid h') =
      (case issuer_of a of None \<Rightarrow> admin_in (snap cid h) | Some i \<Rightarrow> Some (AccountAddr i)) \<and>
    sn_entries (snap cid h') = sn_entries (snap cid h) \<and>
    (\<exists>nm sy. name_and_symbol strkey (info_of a) = Inr (nm, sy) \<and> sn_instance (snap cid h') metadata_key =
      Some (MetadataVal \<lparr>md_decimal = 7, md_name = nm, md_symbol = sy\<rparr>)) \<and>
    (\<forall>g g' b. in_frame cid g \<longrightarrow> asset_in (snap cid g) = Some a \<longrightarrow> init_asset contract_of strkey b g \<noteq> Inr ((), g'))"
proof -
  have later: "init_asset contract_of strkey b g \<noteq> Inr ((), g')"
    if "in_frame cid g" "asset_in (snap cid g) = Some a" for g g' b
  proof
    assume "init_asset contract_of strkey b g = Inr ((), g')"
    from doesD(2) [OF does_init that(1) this] that(2) show False by (simp add: asset_in_def)
  qed
  have "asset_in (snap cid h) = None" if "sn_instance (snap cid h) asset_info_key = None"
    using that by (simp add: asset_in_def)
  moreover have "sn_ledger (snap cid h) = h_ledger h" by (simp add: snap_def)
  ultimately show ?thesis using doesD [OF does_init assms] later by auto
qed

text \<open>
  The reading entry points agree with the token and leave it alone: the balance of an address other than the issuer,
  whether it may hold the asset, and what a spender may spend now.
\<close>

theorem sac_reads_token:
  assumes "in_frame cid h" and "asset_in (snap cid h) = Some ast"
  shows "(sac_balance a h = Inr (n, h') \<longrightarrow> snap cid h' = snap cid h \<and>
      (\<not> is_issuer ast a \<longrightarrow> sint n = balance_in cid ast (snap cid h) a)) \<and>
    (sac_authorized a h = Inr (b, h') \<longrightarrow> snap cid h' = snap cid h \<and> b = authorized_in cid ast (snap cid h) a) \<and>
    (sac_allowance a p h = Inr (n, h') \<longrightarrow> snap cid h' = snap cid h \<and>
      sint n = spendable (token_of cid ast (snap cid h)) a p)"
proof -
  have "does cid (sac_balance a) (\<lambda>s n t. t = s \<and>
      (\<forall>ast. asset_in s = Some ast \<longrightarrow> \<not> is_issuer ast a \<longrightarrow> sint n = balance_in cid ast s a))"
    unfolding sac_balance_def by (rule does_weaken [OF does_then [OF does_extend_instance does_read_balance]]) auto
  moreover have "does cid (sac_authorized a) (\<lambda>s b t. t = s \<and>
      (\<forall>ast. asset_in s = Some ast \<longrightarrow> b = authorized_in cid ast s a))"
    unfolding sac_authorized_def by (rule does_weaken [OF does_then [OF does_extend_instance does_is_authorized]]) auto
  moreover have "does cid (sac_allowance a p) (\<lambda>s n t. t = s \<and> (\<forall>ast. sint n = spendable (token_of cid ast s) a p))"
    unfolding sac_allowance_def by (rule does_weaken [OF does_then [OF does_extend_instance does_read_allowance]]) auto
  ultimately show ?thesis using assms by (auto dest: doesD)
qed

section \<open>Witnesses\<close>

abbreviation example_asset_in :: asset where
  "example_asset_in \<equiv> CreditAlphanum4 [CHR ''U'', CHR ''S'', CHR ''D'', CHR 0x00] 5"

abbreviation example_move :: sac_call where
  "example_move \<equiv> Transfer (ContractAddr 2) (ContractAddr 3) 40"



lemmas example_cells = data_at_def snap_def entries_of_def view_def cells_def snapshot_entry_def
  example_sac_storage_def key2_def key3_def key_i_def contract_instance_ledger_key_def sac_balance_entry_def

lemma example_data:
  "data_at 1 (snap 1 (example_sac_host a b evs)) (balance_key (ContractAddr 2)) Persistent =
     Some (BalanceVal \<lparr>bal_amount = a, bal_authorized = True, bal_clawback = False\<rparr>)"
  "data_at 1 (snap 1 (example_sac_host a b evs)) (allowance_key f p) Temporary = None"
  by (simp_all add: example_cells)


theorem sac_stays_solvent_witness:
  "\<exists>h'. sac_exec example_request example_move (example_sac_host 100 7 []) = (Inr (), h') \<and>
     token_ok (token_of 1 example_asset_in (snap 1 h'))"
proof -
  obtain evs where run: "sac_exec example_request example_move (example_sac_host 100 7 []) =
      (Inr (), example_sac_host 60 47 evs)" using example_transfer by blast
  have "0 \<le> balance_in 1 example_asset_in (snap 1 (example_sac_host 100 7 [])) (ContractAddr c)" for c
    by (simp add: balance_in_def contract_balance_def example_cells) (simp add: balance_key_def)
  then have "token_ok (token_of 1 example_asset_in (snap 1 (example_sac_host 100 7 [])))"
    by (simp add: token_ok_def spendable_def allowance_in_def example_data)
  from sac_stays_solvent [OF example_calm example_in_frame example_asset run this] run show ?thesis by blast
qed

theorem sac_name_determines_asset_witness:
  "\<exists>strkey i nm sy. inj strkey \<and> name_and_symbol strkey i = Inr (nm, sy) \<and> nm = ''USD:GGGGG'' \<and>
     i = AlphaNum4Info [CHR ''U'', CHR ''S'', CHR ''D'', CHR 0x00] 5"
proof -
  let ?strkey = "\<lambda>h :: hash. replicate (unat h) CHR ''G''"
  let ?i = "AlphaNum4Info [CHR ''U'', CHR ''S'', CHR ''D'', CHR 0x00] 5"
  have inj: "inj ?strkey" by (rule injI) (metis length_replicate word_eq_iff_unsigned)
  have nm: "name_and_symbol ?strkey ?i = Inr (''USD:GGGGG'', ''USD'')"
  proof -
    have "replicate 5 CHR ''G'' = ''GGGGG''" by (simp add: eval_nat_numeral)
    then show ?thesis
      by (simp add: name_and_symbol_def render_sep0011_asset_def render_sep0011_asset_code_def)
  qed
  have v: "validate_asset example_asset_in = Inr ()"
    by (simp add: validate_asset_code_def is_ascii_alphanumeric_def)
  have "?i = ?i" by (rule sac_name_determines_asset [OF inj _ v nm _ v nm]) simp_all
  with inj nm show ?thesis by blast
qed

text \<open>The contract of the native asset, created in an empty instance.\<close>

definition example_new_host :: sac_host where
  "example_new_host = (example_sac_host 0 0 [])\<lparr>h_stack :=
     [\<lparr>ctx_frame = StellarAssetContract 1 ''init_asset'' [] \<lparr>inst_executable = StellarAssetExec, inst_storage = None\<rparr>,
       ctx_storage = Some \<lparr>ism_map = [], ism_modified = False\<rparr>\<rparr>]\<rparr>"

theorem sac_created_once_witness:
  "\<exists>h'. init_asset (\<lambda>_ _. 1) (\<lambda>_. ''G'') NativeAsset example_new_host = Inr ((), h') \<and>
     asset_in (snap 1 h') = Some NativeAsset"
proof -
  have f: "in_frame 1 example_new_host"
    using example_in_frame [of 0 0 "[]"]
    by (simp add: in_frame_def example_new_host_def inst_map_def maybe_init_instance_storage_def omap_sorted_def
        get_current_contract_id_opt_internal_def)
  have "\<exists>h'. init_asset (\<lambda>_ _. 1) (\<lambda>_. ''G'') NativeAsset example_new_host = Inr ((), h')"
    by (simp add: init_asset_def has_asset_info_def has_contract_data_def write_asset_info_def put_contract_data_def
        set_metadata_def read_asset_info_def get_contract_data_def name_and_symbol_def ex_eval with_instance_storage_def
        with_mut_instance_storage_def with_current_context_mut_def maybe_init_instance_storage_def as_asset_info_def
        map_eval example_new_host_def reads_def get_current_contract_id_opt_internal_def)
  then show ?thesis using sac_created_once [OF f] by blast
qed

theorem sac_reads_token_witness:
  "\<exists>n h'. sac_balance (ContractAddr 2) (example_sac_host 100 7 []) = Inr (n, h') \<and> sint n = 100"
proof -
  have "\<exists>n h'. sac_balance (ContractAddr 2) (example_sac_host 100 7 []) = Inr (n, h')"
    by (simp add: sac_balance_def read_balance_def ex_eval try_get_contract_data_def has_contract_data_def
        get_contract_data_def extend_balance_def extend_contract_data_ttl_def storage_extend_ttl_def)
  then obtain n h' where r: "sac_balance (ContractAddr 2) (example_sac_host 100 7 []) = Inr (n, h')" by blast
  have "\<not> is_issuer example_asset_in (ContractAddr 2)" by simp
  moreover have "balance_in 1 example_asset_in (snap 1 (example_sac_host 100 7 [])) (ContractAddr 2) = 100"
    by (simp add: balance_in_def contract_balance_def example_data)
  ultimately show ?thesis using sac_reads_token [OF example_in_frame example_asset, of "ContractAddr 2" 100 7 "[]" n h'] r
    by auto
qed

end
