(* ===== verification/Invocation.thy ===== *)
theory Invocation
  imports Host_Auth Host_Preflight Fees
begin

text \<open>
  The entry points that invoke a host function and report what it did to the ledger
  (\<open>e2e_invoke.rs\<close>): the footprint and the storage map from the entries of a transaction, the changes of
  ledger entries, their rent, and both modes of an invocation. Entries, keys and time-to-live entries come and go as XDR, whose
  encoding is a parameter, as are the hash and the function that is invoked.
\<close>

type_synonym bytes = "8 word list"

section \<open>Encodings\<close>

record ttl_entry =
  ttl_key_hash :: hash
  ttl_live_until :: u32

record 'v xdr =
  xdr_key :: "ledger_key \<Rightarrow> error + bytes"
  xdr_entry :: "'v ledger_entry \<Rightarrow> error + bytes"
  xdr_entry_from :: "bytes \<Rightarrow> error + 'v ledger_entry"
  xdr_ttl :: "ttl_entry \<Rightarrow> error + bytes"
  xdr_ttl_from :: "bytes \<Rightarrow> error + ttl_entry"
  xdr_sha256 :: "bytes \<Rightarrow> hash"

definition try_res :: "error + 'a \<Rightarrow> ('a \<Rightarrow> error + 'b) \<Rightarrow> error + 'b" where
  "try_res r f = (case r of Inl e \<Rightarrow> Inl e | Inr a \<Rightarrow> f a)"

fun map_res :: "('a \<Rightarrow> error + 'b) \<Rightarrow> 'a list \<Rightarrow> error + 'b list" where
  "map_res f [] = Inr []"
| "map_res f (x # xs) = try_res (f x) (\<lambda>y. try_res (map_res f xs) (\<lambda>ys. Inr (y # ys)))"

fun fold_res :: "('a \<Rightarrow> 's \<Rightarrow> error + 's) \<Rightarrow> 'a list \<Rightarrow> 's \<Rightarrow> error + 's" where
  "fold_res f [] s = Inr s"
| "fold_res f (x # xs) s = try_res (f x s) (fold_res f xs)"

definition storage_internal_error :: error where
  "storage_internal_error = HostErr EStorage InternalError"

section \<open>Changes of the ledger\<close>

record live_until_change =
  lc_key_hash :: hash
  lc_durability :: durability
  lc_old_live_until :: u32
  lc_new_live_until :: u32

record entry_change =
  ec_read_only :: bool
  ec_encoded_key :: bytes
  ec_old_entry_size :: u32
  ec_encoded_new_value :: "bytes option"
  ec_ttl_change :: "live_until_change option"

type_synonym ttl_map = "(ledger_key, ttl_entry) omap"

definition no_change :: entry_change where
  "no_change = \<lparr>ec_read_only = False, ec_encoded_key = [], ec_old_entry_size = 0,
     ec_encoded_new_value = None, ec_ttl_change = None\<rparr>"

text \<open>The time to live of a key that has one, with the hash of the key.\<close>

definition initial_ttl_change ::
  "'v xdr \<Rightarrow> ttl_map \<Rightarrow> ledger_key \<Rightarrow> bytes \<Rightarrow> error + live_until_change option" where
  "initial_ttl_change x ttls key encoded =
     (case get_key_durability key of
        None \<Rightarrow> Inr None
      | Some d \<Rightarrow>
          try_res (omap_get compare_key key ttls) (\<lambda>r.
          Inr (Some \<lparr>lc_key_hash = (case r of Some t \<Rightarrow> ttl_key_hash t | None \<Rightarrow> xdr_sha256 x encoded),
            lc_durability = d, lc_old_live_until = 0, lc_new_live_until = 0\<rparr>)))"

definition ttl_or_error :: "u32 option \<Rightarrow> error + u32" where
  "ttl_or_error l = (case l of None \<Rightarrow> Inl storage_internal_error | Some n \<Rightarrow> Inr n)"

text \<open>What is known of the entry before the invocation.\<close>

definition old_entry_change ::
  "'v xdr \<Rightarrow> 'v entry_live option \<Rightarrow> entry_change \<Rightarrow> error + entry_change" where
  "old_entry_change x old c =
     (case old of
        None \<Rightarrow> Inr c
      | Some (entry, lv) \<Rightarrow>
          try_res (xdr_entry x entry) (\<lambda>buf.
          let c = c\<lparr>ec_old_entry_size := of_nat (length buf)\<rparr> in
          case ec_ttl_change c of
            None \<Rightarrow> Inr c
          | Some t \<Rightarrow>
              try_res (ttl_or_error lv) (\<lambda>l.
              Inr (c\<lparr>ec_ttl_change := Some (t\<lparr>lc_old_live_until := l\<rparr>)\<rparr>))))"

text \<open>The final live-until ledger, which is never reduced.\<close>

definition new_ttl_change :: "'v entry_live option \<Rightarrow> entry_change \<Rightarrow> error + entry_change" where
  "new_ttl_change new c =
     (case (new, ec_ttl_change c) of
        (Some (_, lv), Some t) \<Rightarrow>
          try_res (ttl_or_error lv) (\<lambda>l.
          Inr (c\<lparr>ec_ttl_change := Some (t\<lparr>lc_new_live_until := max l (lc_old_live_until t)\<rparr>)\<rparr>))
      | _ \<Rightarrow> Inr c)"

definition accessed_change ::
  "'v xdr \<Rightarrow> access_type option \<Rightarrow> 'v entry_live option \<Rightarrow> entry_change \<Rightarrow> error + entry_change" where
  "accessed_change x ty new c =
     (case ty of
        Some ReadOnly \<Rightarrow> Inr (c\<lparr>ec_read_only := True\<rparr>)
      | Some ReadWrite \<Rightarrow>
          (case new of
             None \<Rightarrow> Inr c
           | Some (entry, _) \<Rightarrow>
               try_res (xdr_entry x entry) (\<lambda>buf. Inr (c\<lparr>ec_encoded_new_value := Some buf\<rparr>)))
      | None \<Rightarrow> Inl storage_internal_error)"

definition ledger_change ::
  "'v xdr \<Rightarrow> footprint \<Rightarrow> 'v snapshot \<Rightarrow> ttl_map \<Rightarrow> ledger_key \<times> 'v entry_live option \<Rightarrow>
     error + entry_change" where
  "ledger_change x fp initial ttls kv =
     (case kv of (key, new) \<Rightarrow>
      try_res (xdr_key x key) (\<lambda>encoded.
      try_res (initial_ttl_change x ttls key encoded) (\<lambda>ttl.
      try_res (initial key) (\<lambda>old.
      try_res (old_entry_change x old (no_change\<lparr>ec_encoded_key := encoded, ec_ttl_change := ttl\<rparr>)) (\<lambda>c.
      try_res (new_ttl_change new c) (\<lambda>c.
      try_res (omap_get compare_key key fp) (\<lambda>ty.
      accessed_change x ty new c)))))))"

definition get_ledger_changes ::
  "'v xdr \<Rightarrow> 'v storage \<Rightarrow> 'v snapshot \<Rightarrow> ttl_map \<Rightarrow> error + entry_change list" where
  "get_ledger_changes x st initial ttls =
     map_res (ledger_change x (st_footprint st) initial ttls) (st_map st)"

text \<open>Keys only a failed call has accessed are in the recorded footprint and not in the storage map.\<close>

definition footprint_only_change ::
  "'v xdr \<Rightarrow> 'v storage \<Rightarrow> ledger_key \<times> access_type \<Rightarrow> error + entry_change option" where
  "footprint_only_change x st kt =
     (case kt of (key, ty) \<Rightarrow>
      try_res (omap_contains_key compare_key key (st_map st)) (\<lambda>present.
      if present then Inr None
      else
        try_res (xdr_key x key) (\<lambda>encoded.
        Inr (Some (no_change\<lparr>ec_encoded_key := encoded, ec_read_only := (ty = ReadOnly)\<rparr>)))))"

text \<open>The loop extends the changes it is given, which keep what was added before an error.\<close>

fun footprint_only_changes ::
  "'v xdr \<Rightarrow> 'v storage \<Rightarrow> footprint \<Rightarrow> entry_change list \<Rightarrow> (error + unit) \<times> entry_change list" where
  "footprint_only_changes x st [] changes = (Inr (), changes)"
| "footprint_only_changes x st (kt # fp) changes =
     (case footprint_only_change x st kt of
        Inl e \<Rightarrow> (Inl e, changes)
      | Inr None \<Rightarrow> footprint_only_changes x st fp changes
      | Inr (Some c) \<Rightarrow> footprint_only_changes x st fp (changes @ [c]))"

definition add_footprint_only_ledger_changes ::
  "'v xdr \<Rightarrow> 'v storage \<Rightarrow> entry_change list \<Rightarrow> (error + unit) \<times> entry_change list" where
  "add_footprint_only_ledger_changes x st = footprint_only_changes x st (st_footprint st)"

section \<open>Rent\<close>

definition rent_change_of :: "entry_change \<Rightarrow> rent_change option" where
  "rent_change_of c =
     (case ec_ttl_change c of
        None \<Rightarrow> None
      | Some t \<Rightarrow>
          let new_size = (case ec_encoded_new_value c of
                            Some buf \<Rightarrow> of_nat (length buf) | None \<Rightarrow> ec_old_entry_size c)
          in if lc_new_live_until t \<le> lc_old_live_until t \<and> new_size \<le> ec_old_entry_size c then None
             else Some \<lparr>rc_is_persistent = (lc_durability t = Persistent),
               rc_old_size_bytes = ec_old_entry_size c, rc_new_size_bytes = new_size,
               rc_old_live_until_ledger = lc_old_live_until t,
               rc_new_live_until_ledger = lc_new_live_until t\<rparr>)"

definition extract_rent_changes :: "entry_change list \<Rightarrow> rent_change list" where
  "extract_rent_changes changes = List.map_filter rent_change_of changes"

section \<open>The initial storage\<close>

fun ledger_entry_to_ledger_key :: "'v ledger_entry \<Rightarrow> error + ledger_key" where
  "ledger_entry_to_ledger_key (AccountE a) = Inr (LKAccount (ae_account_id a))"
| "ledger_entry_to_ledger_key (TrustlineE l) = Inr (LKTrustline (tl_account_id l) (tl_asset l))"
| "ledger_entry_to_ledger_key (ContractDataE c k d _) = Inr (LKContractData c k d)"
| "ledger_entry_to_ledger_key (ContractCodeE h) = Inr (LKContractCode h)"
| "ledger_entry_to_ledger_key _ = Inl storage_internal_error"

record ledger_footprint =
  lf_read_only :: "ledger_key list"
  lf_read_write :: "ledger_key list"

definition footprint_insert :: "access_type \<Rightarrow> ledger_key \<Rightarrow> footprint \<Rightarrow> error + footprint" where
  "footprint_insert ty key fp =
     try_res (check_supported_ledger_key_type key) (\<lambda>_. omap_insert compare_key key ty fp)"

definition build_storage_footprint_from_xdr :: "ledger_footprint \<Rightarrow> error + footprint" where
  "build_storage_footprint_from_xdr f =
     try_res (fold_res (footprint_insert ReadWrite) (lf_read_write f) omap_new)
       (fold_res (footprint_insert ReadOnly) (lf_read_only f))"

definition storage_footprint_to_ledger_footprint :: "footprint \<Rightarrow> ledger_footprint" where
  "storage_footprint_to_ledger_footprint fp =
     \<lparr>lf_read_only = map fst (filter (\<lambda>(_, ty). ty = ReadOnly) fp),
      lf_read_write = map fst (filter (\<lambda>(_, ty). ty = ReadWrite) fp)\<rparr>"

text \<open>One entry with its time-to-live entry, which is empty where it has none.\<close>

definition is_contract_entry :: "'v ledger_entry \<Rightarrow> bool" where
  "is_contract_entry e =
     (case e of ContractDataE _ _ _ _ \<Rightarrow> True | ContractCodeE _ \<Rightarrow> True | _ \<Rightarrow> False)"

definition build_ttl ::
  "'v xdr \<Rightarrow> u32 \<Rightarrow> 'v ledger_entry \<Rightarrow> ledger_key \<Rightarrow> bytes \<Rightarrow> ttl_map \<Rightarrow> error + (u32 option \<times> ttl_map)" where
  "build_ttl x ledger_num entry key ttl_buf ttls =
     (if ttl_buf \<noteq> [] then
        try_res (xdr_ttl_from x ttl_buf) (\<lambda>t.
        if ttl_live_until t < ledger_num then Inl storage_internal_error
        else try_res (omap_insert compare_key key t ttls) (\<lambda>ttls. Inr (Some (ttl_live_until t), ttls)))
      else if is_contract_entry entry then Inl storage_internal_error
      else Inr (None, ttls))"

definition build_entry ::
  "'v xdr \<Rightarrow> footprint \<Rightarrow> u32 \<Rightarrow> bytes \<times> bytes \<Rightarrow> 'v storage_map \<times> ttl_map \<Rightarrow>
     error + ('v storage_map \<times> ttl_map)" where
  "build_entry x fp ledger_num bufs maps =
     (case (bufs, maps) of ((entry_buf, ttl_buf), (m, ttls)) \<Rightarrow>
      try_res (xdr_entry_from x entry_buf) (\<lambda>entry.
      try_res (ledger_entry_to_ledger_key entry) (\<lambda>key.
      try_res (build_ttl x ledger_num entry key ttl_buf ttls) (\<lambda>(live_until, ttls).
      try_res (omap_contains_key compare_key key fp) (\<lambda>covered.
      if \<not> covered then Inl storage_internal_error
      else try_res (omap_insert compare_key key (Some (entry, live_until)) m) (\<lambda>m. Inr (m, ttls)))))))"

definition add_missing_key :: "ledger_key \<Rightarrow> 'v storage_map \<Rightarrow> error + 'v storage_map" where
  "add_missing_key k m =
     try_res (omap_contains_key compare_key k m) (\<lambda>present.
     if present then Inr m else omap_insert compare_key k None m)"

definition build_storage_map_from_xdr_ledger_entries ::
  "'v xdr \<Rightarrow> footprint \<Rightarrow> bytes list \<Rightarrow> bytes list \<Rightarrow> u32 \<Rightarrow> error + ('v storage_map \<times> ttl_map)" where
  "build_storage_map_from_xdr_ledger_entries x fp entries ttl_entries ledger_num =
     (if length entries \<noteq> length ttl_entries then Inl storage_internal_error
      else
        try_res (fold_res (build_entry x fp ledger_num) (zip entries ttl_entries) (omap_new, omap_new)) (\<lambda>(m, ttls).
        try_res (fold_res add_missing_key (omap_keys fp) m) (\<lambda>m. Inr (m, ttls))))"

text \<open>The initial storage map as a snapshot.\<close>

definition map_snapshot :: "'v storage_map \<Rightarrow> 'v snapshot" where
  "map_snapshot m key =
     try_res (omap_get compare_key key m) (\<lambda>r. Inr (case r of Some (Some el) \<Rightarrow> Some el | _ \<Rightarrow> None))"

section \<open>Invocation\<close>

text \<open>
  What else is read and written as XDR, and the function that is invoked. The printed signature of recorded
  authorizations stands for 512 zero bytes.
\<close>

record ('v, 'f, 'r) invocation_world =
  iw_xdr :: "'v stored xdr"
  iw_footprint_from :: "bytes \<Rightarrow> error + ledger_footprint"
  iw_auth_from :: "bytes \<Rightarrow> error + authorization_entry"
  iw_auth :: "authorization_entry \<Rightarrow> error + bytes"
  iw_fn_from :: "bytes \<Rightarrow> error + 'f"
  iw_account_from :: "bytes \<Rightarrow> error + hash"
  iw_result :: "'r \<Rightarrow> error + bytes"
  iw_event :: "internal_event \<Rightarrow> error + bytes"
  iw_invoke :: "'f \<Rightarrow> ('v, 'r) body"
  iw_max_protocol :: u32
  iw_emulated_signature :: sc_val

definition MIN_LEDGER_PROTOCOL_VERSION :: u32 where "MIN_LEDGER_PROTOCOL_VERSION = 22"

definition check_ledger_protocol_supported :: "u32 \<Rightarrow> ledger_info \<Rightarrow> error + unit" where
  "check_ledger_protocol_supported max_protocol li =
     (if protocol_version li < MIN_LEDGER_PROTOCOL_VERSION then Inl (HostErr EContext InternalError)
      else if max_protocol < protocol_version li then Inl (HostErr EContext InternalError)
      else Inr ())"

text \<open>A fresh host; the ledger information is set before it is used.\<close>

definition with_storage :: "'v stored storage \<Rightarrow> ledger_info \<Rightarrow> 'v host" where
  "with_storage st li =
     \<lparr>h_storage = st, h_ledger = li, h_stack = [], h_events = [], h_debug = False,
      h_auth = new_enforcing_without_authorizations, h_source_account = None\<rparr>"

definition set_authorization_entries ::
  "authorization_entry list \<Rightarrow> 'v host \<Rightarrow> error + 'v host" where
  "set_authorization_entries entries h =
     try_res (new_enforcing (h_source_account h) entries) (\<lambda>m.
     Inr (h\<lparr>h_auth := m\<rparr>))"

definition switch_to_recording_auth :: "bool \<Rightarrow> 'v host \<Rightarrow> 'v host" where
  "switch_to_recording_auth disable_non_root_auth h = h\<lparr>h_auth := new_recording disable_non_root_auth\<rparr>"

definition try_finish :: "'v host \<Rightarrow> 'v stored storage \<times> (internal_event \<times> bool) list" where
  "try_finish h = (h_storage h, externalize (h_debug h) (h_events h))"

text \<open>The events of successful calls that contracts have emitted.\<close>

definition is_contract_event :: "internal_event \<times> bool \<Rightarrow> bool" where
  "is_contract_event e =
     (case e of (ContractEv _ _, failed_call) \<Rightarrow> \<not> failed_call | (DiagnosticEv _ _, _) \<Rightarrow> False)"

definition encode_contract_events ::
  "(internal_event \<Rightarrow> error + bytes) \<Rightarrow> (internal_event \<times> bool) list \<Rightarrow> error + bytes list" where
  "encode_contract_events enc events = map_res (\<lambda>e. enc (fst e)) (filter is_contract_event events)"

text \<open>Diagnostic events, each with the mark of a successful call.\<close>

definition extract_diagnostic_events ::
  "(internal_event \<times> bool) list \<Rightarrow> (bool \<times> internal_event) list" where
  "extract_diagnostic_events events = map (\<lambda>(e, failed_call). (\<not> failed_call, e)) events"

record invoke_host_function_result =
  ir_encoded_invoke_result :: "error + bytes"
  ir_ledger_changes :: "entry_change list"
  ir_encoded_contract_events :: "bytes list"

record encoded_invocation =
  en_host_fn :: bytes
  en_resources :: bytes
  en_source_account :: bytes
  en_auth_entries :: "bytes list"
  en_ledger_info :: ledger_info
  en_ledger_entries :: "bytes list"
  en_ttl_entries :: "bytes list"
  en_base_prng_seed :: bytes

text \<open>The host an invocation in enforcing mode starts from, with the function it invokes.\<close>

definition enforcing_host ::
  "('v, 'f, 'r) invocation_world \<Rightarrow> encoded_invocation \<Rightarrow> bool \<Rightarrow> 'v stored storage \<Rightarrow> error + ('v host \<times> 'f)" where
  "enforcing_host w i diagnostics st =
     try_res (map_res (iw_auth_from w) (en_auth_entries i)) (\<lambda>auth_entries.
     try_res (iw_fn_from w (en_host_fn i)) (\<lambda>f.
     try_res (iw_account_from w (en_source_account i)) (\<lambda>source.
     try_res (check_ledger_protocol_supported (iw_max_protocol w) (en_ledger_info i)) (\<lambda>_.
     try_res (set_authorization_entries auth_entries
                ((with_storage st (en_ledger_info i))\<lparr>h_source_account := Some (AccountAddr source)\<rparr>)) (\<lambda>h.
     if length (en_base_prng_seed i) \<noteq> 32 then Inl (HostErr EContext InternalError)
     else Inr (h\<lparr>h_debug := diagnostics\<rparr>, f))))))"

definition invoke_host_function ::
  "('v, 'f, 'r) invocation_world \<Rightarrow> bool \<Rightarrow> encoded_invocation \<Rightarrow> error + invoke_host_function_result" where
  "invoke_host_function w diagnostics i =
     try_res (iw_footprint_from w (en_resources i)) (\<lambda>f.
     try_res (build_storage_footprint_from_xdr f) (\<lambda>footprint.
     try_res (build_storage_map_from_xdr_ledger_entries (iw_xdr w) footprint (en_ledger_entries i)
                (en_ttl_entries i) (sequence_number (en_ledger_info i))) (\<lambda>(m, init_ttls).
     try_res (enforcing_host w i diagnostics (with_enforcing_footprint_and_map footprint m)) (\<lambda>(h, hf).
     let (result, h') = iw_invoke w hf h;
         (st, events) = try_finish h';
         encoded_result = try_res result (iw_result w)
     in case encoded_result of
          Inl e \<Rightarrow>
            Inr \<lparr>ir_encoded_invoke_result = Inl e, ir_ledger_changes = [], ir_encoded_contract_events = []\<rparr>
        | Inr r \<Rightarrow>
            try_res (get_ledger_changes (iw_xdr w) st (map_snapshot m) init_ttls) (\<lambda>changes.
            try_res (encode_contract_events (iw_event w) events) (\<lambda>encoded_events.
            Inr \<lparr>ir_encoded_invoke_result = Inr r, ir_ledger_changes = changes,
                 ir_encoded_contract_events = encoded_events\<rparr>))))))"

section \<open>Recording\<close>

definition into_auth_entry_with_emulated_signature ::
  "sc_val \<Rightarrow> recorded_auth_payload \<Rightarrow> error + authorization_entry" where
  "into_auth_entry_with_emulated_signature signature p =
     (case (rap_address p, rap_nonce p) of
        (Some a, Some nonce) \<Rightarrow>
          Inr \<lparr>ae_credentials = AddressCredentials a nonce 0 signature, ae_root_invocation = rap_invocation p\<rparr>
      | (None, None) \<Rightarrow>
          Inr \<lparr>ae_credentials = SourceAccountCredentials, ae_root_invocation = rap_invocation p\<rparr>
      | _ \<Rightarrow> Inl (HostErr EAuth InternalError))"

definition clear_signature :: "authorization_entry \<Rightarrow> authorization_entry" where
  "clear_signature e =
     (case ae_credentials e of
        AddressCredentials a nonce l _ \<Rightarrow> e\<lparr>ae_credentials := AddressCredentials a nonce l VoidV\<rparr>
      | SourceAccountCredentials \<Rightarrow> e)"

text \<open>One key of the recorded footprint: its entry in the snapshot, encoded, and the bytes read.\<close>

definition record_read ::
  "'v xdr \<Rightarrow> 'v snapshot \<Rightarrow> ledger_key \<times> access_type \<Rightarrow> bytes list \<times> bytes list \<times> u32 \<Rightarrow>
     error + (bytes list \<times> bytes list \<times> u32)" where
  "record_read x src kt acc =
     (case (kt, acc) of ((lk, _), (entries, ttls, read_bytes)) \<Rightarrow>
      try_res (src lk) (\<lambda>r.
      case r of
        None \<Rightarrow> Inr (entries, ttls, read_bytes)
      | Some (le, live_until) \<Rightarrow>
          try_res (xdr_entry x le) (\<lambda>encoded.
          try_res (case live_until of
                     None \<Rightarrow> Inr []
                   | Some l \<Rightarrow>
                       try_res (xdr_key x lk) (\<lambda>key_xdr.
                       xdr_ttl x \<lparr>ttl_key_hash = xdr_sha256 x key_xdr, ttl_live_until = l\<rparr>)) (\<lambda>ttl.
          Inr (entries @ [encoded], ttls @ [ttl], saturating_add read_bytes (of_nat (length encoded)))))))"

record 'r recording_result =
  rr_invoke_result :: "error + 'r"
  rr_footprint :: ledger_footprint
  rr_read_bytes :: u32
  rr_write_bytes :: u32
  rr_auth :: "authorization_entry list"
  rr_ledger_changes :: "entry_change list"
  rr_contract_events :: "internal_event list"
  rr_events_and_result_size :: u32

definition result_size :: "('r \<Rightarrow> error + bytes) \<Rightarrow> error + 'r \<Rightarrow> error + u32" where
  "result_size enc result =
     (case result of
        Inl _ \<Rightarrow> Inr 0
      | Inr r \<Rightarrow> try_res (enc r) (\<lambda>buf. Inr (saturating_add 0 (of_nat (length buf)))))"

text \<open>The authorization entries of the result: those passed in, or the recorded ones.\<close>

definition output_auth ::
  "('v, 'f, 'r) invocation_world \<Rightarrow> authorization_entry list option \<Rightarrow> 'v host \<Rightarrow>
     error + authorization_entry list" where
  "output_auth w auth_mode h =
     try_res (case auth_mode of
                Some entries \<Rightarrow> Inr entries
              | None \<Rightarrow>
                  try_res (get_recorded_auth_payloads (h_auth h))
                    (map_res (into_auth_entry_with_emulated_signature (iw_emulated_signature w)))) (\<lambda>entries.
     try_res (map_res (iw_auth w) entries) (\<lambda>encoded.
     try_res (map_res (iw_auth_from w) encoded) (\<lambda>decoded.
     case auth_mode of
       Some _ \<Rightarrow> Inr entries
     | None \<Rightarrow>
         try_res (set_authorization_entries decoded h) (\<lambda>_. Inr (map clear_signature entries)))))"

text \<open>The footprint of the result, the bytes it reads and the initial time-to-live entries.\<close>

definition recorded_resources ::
  "'v xdr \<Rightarrow> 'v snapshot \<Rightarrow> u32 \<Rightarrow> 'v storage \<Rightarrow> error + (ledger_footprint \<times> u32 \<times> ttl_map)" where
  "recorded_resources x src ledger_seq st =
     (let footprint = storage_footprint_to_ledger_footprint (st_footprint st) in
      try_res (build_storage_footprint_from_xdr footprint) (\<lambda>_.
      try_res (fold_res (record_read x src) (st_footprint st) ([], [], 0)) (\<lambda>(entries, ttls, read_bytes).
      try_res (build_storage_map_from_xdr_ledger_entries x (st_footprint st) entries ttls ledger_seq) (\<lambda>(_, init_ttls).
      Inr (footprint, read_bytes, init_ttls)))))"

definition write_bytes :: "entry_change list \<Rightarrow> u32" where
  "write_bytes changes =
     fold (\<lambda>c n. if ec_read_only c then n
                 else case ec_encoded_new_value c of
                   None \<Rightarrow> n | Some buf \<Rightarrow> saturating_add n (of_nat (length buf))) changes 0"

definition recording_host ::
  "u32 \<Rightarrow> authorization_entry list option \<Rightarrow> hash \<Rightarrow> ledger_info \<Rightarrow> bool \<Rightarrow> 'v stored snapshot \<Rightarrow> error + 'v host" where
  "recording_host max_protocol auth_mode source li diagnostics src =
     (let h = (with_storage (with_recording_footprint src) li)\<lparr>h_source_account := Some (AccountAddr source)\<rparr> in
      try_res (check_ledger_protocol_supported max_protocol li) (\<lambda>_.
      try_res (case auth_mode of
                 Some entries \<Rightarrow> set_authorization_entries entries h
               | None \<Rightarrow> Inr (switch_to_recording_auth True h)) (\<lambda>h.
      Inr (h\<lparr>h_debug := diagnostics\<rparr>))))"

definition invoke_host_function_in_recording_mode ::
  "('v, 'f, 'r) invocation_world \<Rightarrow> bool \<Rightarrow> 'f \<Rightarrow> hash \<Rightarrow> authorization_entry list option \<Rightarrow> ledger_info \<Rightarrow>
     'v stored snapshot \<Rightarrow> error + 'r recording_result" where
  "invoke_host_function_in_recording_mode w diagnostics f source auth_mode li src =
     try_res (recording_host (iw_max_protocol w) auth_mode source li diagnostics src) (\<lambda>h.
     let (result, h') = iw_invoke w f h in
     try_res (result_size (iw_result w) result) (\<lambda>size0.
     try_res (output_auth w auth_mode h') (\<lambda>auth.
     try_res (recorded_resources (iw_xdr w) src (sequence_number li) (h_storage h')) (\<lambda>(footprint, read_bytes, init_ttls).
     let (st, events) = try_finish h' in
     case result of
       Inl e \<Rightarrow>
         Inr \<lparr>rr_invoke_result = Inl e, rr_footprint = footprint, rr_read_bytes = read_bytes, rr_write_bytes = 0,
           rr_auth = auth, rr_ledger_changes = [], rr_contract_events = [], rr_events_and_result_size = size0\<rparr>
     | Inr r \<Rightarrow>
         try_res (get_ledger_changes (iw_xdr w) st src init_ttls) (\<lambda>changes0.
         let changes = snd (add_footprint_only_ledger_changes (iw_xdr w) st changes0) in
         try_res (encode_contract_events (iw_event w) events) (\<lambda>encoded_events.
         Inr \<lparr>rr_invoke_result = Inr r, rr_footprint = footprint, rr_read_bytes = read_bytes,
           rr_write_bytes = write_bytes changes, rr_auth = auth, rr_ledger_changes = changes,
           rr_contract_events = map fst (filter is_contract_event events),
           rr_events_and_result_size =
             fold (\<lambda>e n. saturating_add n (of_nat (length e))) encoded_events size0\<rparr>))))))"

end
