(* ===== verification/Invocation_Inv.thy ===== *)
theory Invocation_Inv
  imports Invocation Host_Props
begin

text \<open>
  Lemmas on the invocation of host functions: what the maps built from the entries of a transaction hold, that the
  footprint survives its conversion, and what a list of ledger changes says of the storage it was made from.
\<close>

section \<open>Results\<close>

lemma try_res_Inr [simp]: "try_res r f = Inr b \<longleftrightarrow> (\<exists>a. r = Inr a \<and> f a = Inr b)"
  by (simp add: try_res_def split: sum.split)

lemma try_res_eval [simp]: "try_res (Inr a) f = f a" "try_res (Inl e) f = Inl e"
  by (simp_all add: try_res_def)

lemma map_res_Inr: "map_res f xs = Inr ys \<longleftrightarrow> list_all2 (\<lambda>x y. f x = Inr y) xs ys"
  by (induction xs arbitrary: ys) (auto simp: list_all2_Cons1)

lemma fold_res_append: "fold_res f (xs @ ys) s = try_res (fold_res f xs s) (fold_res f ys)"
  by (induction xs arbitrary: s) (simp_all add: try_res_def split: sum.split)

section \<open>Ledger maps\<close>

definition lmap_ok :: "(ledger_key, 'a) omap \<Rightarrow> bool" where
  "lmap_ok m \<longleftrightarrow> omap_sorted supported_key compare_key m \<and> length m < 2 ^ 32"

context key_order
begin

lemma sorted_unique:
  assumes "omap_sorted good cmp xs" and "omap_sorted good cmp ys" and "map_of xs = map_of ys"
  shows "xs = ys"
  using assms
proof (induction xs arbitrary: ys)
  case Nil
  then show ?case by (cases ys) (auto dest: fun_cong split: if_splits)
next
  case (Cons x xs)
  obtain k v where x: "x = (k, v)" by (cases x)
  from Cons.prems(3) x have "ys \<noteq> []" by (auto simp: fun_eq_iff split: if_splits)
  then obtain l w ys' where ys: "ys = (l, w) # ys'" by (cases ys) auto
  have s: "good k" "\<forall>y \<in> set xs. cmp k (fst y) = Inr Less" "omap_sorted good cmp xs"
    "good l" "\<forall>y \<in> set ys'. cmp l (fst y) = Inr Less" "omap_sorted good cmp ys'"
    using Cons.prems(1,2) x ys by (auto simp: omap_sorted_def)
  have kl: "k = l"
  proof (rule ccontr)
    assume "k \<noteq> l"
    moreover have "map_of ys k = Some v" "map_of xs l \<noteq> None \<or> k = l"
      using Cons.prems(3) x ys by (auto simp: fun_eq_iff split: if_splits)
    ultimately have "cmp l k = Inr Less" "cmp k l = Inr Less"
      using s(2,5) ys by (fastforce dest: map_of_SomeD)+
    then show False using cmp_flip [OF s(1) s(4)] by simp
  qed
  have absent: "map_of zs j = None" if "good j" "\<forall>y \<in> set zs. cmp j (fst y) = Inr Less" for j zs
  proof (rule ccontr)
    assume "map_of zs j \<noteq> None"
    then obtain u where "(j, u) \<in> set zs" by (auto dest: map_of_SomeD)
    with that(2) have "cmp j (fst (j, u)) = Inr Less" by blast
    with cmp_irrefl [OF that(1)] show False by simp
  qed
  have "v = w" using fun_cong [OF Cons.prems(3), of k] x ys kl by simp
  moreover have "map_of xs j = map_of ys' j" for j
  proof (cases "j = k")
    case True
    with absent [OF s(1,2)] absent [OF s(4,5)] kl show ?thesis by simp
  next
    case False
    with fun_cong [OF Cons.prems(3), of j] x ys kl show ?thesis by simp
  qed
  then have "map_of xs = map_of ys'" by (rule ext)
  ultimately show ?case using Cons.IH [OF s(3,6)] x ys kl by simp
qed

end

lemma lmap_new [simp]: "lmap_ok []"
  by (simp add: lmap_ok_def omap_sorted_def)

lemma lmap_card:
  assumes "lmap_ok m"
  shows "length m = card (dom (map_of m))"
  using lk.sorted_distinct [of m] assms
  by (simp add: lmap_ok_def dom_map_of_conv_image_fst distinct_card [of "map fst m", simplified])

lemma lmap_insert:
  assumes "lmap_ok m" and "supported_key k" and "insert k (dom (map_of m)) \<subseteq> A"
    and "finite A" and "card A < 2 ^ 32"
  obtains m' where "omap_insert compare_key k v m = Inr m'" "lmap_ok m'" "map_of m' = (map_of m)(k \<mapsto> v)"
proof -
  have room: "length m \<noteq> 2 ^ 32 - 1" if "map_of m k = None"
  proof -
    have "card (insert k (dom (map_of m))) \<le> card A" using assms(3,4) by (rule card_mono [rotated])
    with that assms(5) lmap_card [OF assms(1)] show ?thesis by (simp add: domIff finite_dom_map_of)
  qed
  have m: "omap_sorted supported_key compare_key m" "length m < 2 ^ 32" using assms(1) by (simp_all add: lmap_ok_def)
  obtain m' where m': "omap_insert compare_key k v m = Inr m'" "omap_sorted supported_key compare_key m'"
    "map_of m' = (map_of m)(k \<mapsto> v)" "length m' = (if map_of m k = None then Suc (length m) else length m)"
    using lk.insert_map_of [OF m(1) assms(2) m(2) room, of v] by blast
  with m(2) room have "lmap_ok m'" by (auto simp: lmap_ok_def)
  with m' that show thesis by blast
qed

section \<open>The footprint\<close>

lemma check_key: "check_supported_ledger_key_type k = Inr () \<longleftrightarrow> supported_key k"
  by (simp add: check_supported_eq)

lemma footprint_fold:
  assumes "lmap_ok m" and "dom (map_of m) \<union> set ks \<subseteq> A" and "finite A" and "card A < 2 ^ 32"
    and "\<forall>k \<in> A. supported_key k"
  obtains m' where "fold_res (footprint_insert ty) ks m = Inr m'" "lmap_ok m'"
    "map_of m' = (\<lambda>k. if k \<in> set ks then Some ty else map_of m k)"
  using assms(1,2)
proof (induction ks arbitrary: m thesis)
  case (Cons k ks)
  have k: "supported_key k" "insert k (dom (map_of m)) \<subseteq> A" using Cons.prems(3) assms(5) by auto
  obtain m1 where m1: "omap_insert compare_key k ty m = Inr m1" "lmap_ok m1" "map_of m1 = (map_of m)(k \<mapsto> ty)"
    by (rule lmap_insert [OF Cons.prems(2) k assms(3,4)])
  have "dom (map_of m1) \<union> set ks \<subseteq> A" using Cons.prems(3) by (simp add: m1(3))
  from Cons.IH [OF _ m1(2) this] obtain m' where m': "fold_res (footprint_insert ty) ks m1 = Inr m'" "lmap_ok m'"
    "map_of m' = (\<lambda>k. if k \<in> set ks then Some ty else map_of m1 k)" by metis
  have "footprint_insert ty k m = Inr m1" using k(1) m1(1) by (simp add: footprint_insert_def)
  with m' m1(3) show ?case by (intro Cons.prems(1) [of m']) (auto simp: fun_eq_iff)
qed simp

lemma keys_of_type:
  assumes "distinct (map fst fp)"
  shows "k \<in> set (map fst (filter (\<lambda>(_, t). t = ty) fp)) \<longleftrightarrow> map_of fp k = Some ty"
  using assms by (force simp: map_of_eq_Some_iff)

lemma footprint_roundtrip:
  assumes "lmap_ok fp"
  shows "build_storage_footprint_from_xdr (storage_footprint_to_ledger_footprint fp) = Inr fp"
proof -
  let ?A = "dom (map_of fp)"
  let ?rw = "map fst (filter (\<lambda>(_, t). t = ReadWrite) fp)" and ?ro = "map fst (filter (\<lambda>(_, t). t = ReadOnly) fp)"
  have s: "omap_sorted supported_key compare_key fp" using assms by (simp add: lmap_ok_def)
  have A: "finite ?A" "card ?A < 2 ^ 32" "\<forall>k \<in> ?A. supported_key k"
    using lmap_card [OF assms] assms s
    by (auto simp: lmap_ok_def finite_dom_map_of omap_sorted_def dest!: map_of_SomeD)
  have rw: "dom (map_of ([] :: footprint)) \<union> set ?rw \<subseteq> ?A" by (auto simp: dom_map_of_conv_image_fst)
  obtain m1 where m1: "fold_res (footprint_insert ReadWrite) ?rw [] = Inr m1" "lmap_ok m1"
    "map_of m1 = (\<lambda>k. if k \<in> set ?rw then Some ReadWrite else map_of [] k)"
    by (rule footprint_fold [OF lmap_new rw A])
  have ro: "dom (map_of m1) \<union> set ?ro \<subseteq> ?A"
    using rw by (auto simp: m1(3) dom_map_of_conv_image_fst split: if_splits)
  obtain m2 where m2: "fold_res (footprint_insert ReadOnly) ?ro m1 = Inr m2" "lmap_ok m2"
    "map_of m2 = (\<lambda>k. if k \<in> set ?ro then Some ReadOnly else map_of m1 k)"
    by (rule footprint_fold [OF m1(2) ro A])
  have "map_of m2 = map_of fp"
  proof
    fix k
    note t = keys_of_type [OF lk.sorted_distinct [OF s], of k]
    show "map_of m2 k = map_of fp k"
      unfolding m2(3) m1(3) t by (cases "map_of fp k"; cases "the (map_of fp k)") auto
  qed
  with m2(2) s have "m2 = fp" by (intro lk.sorted_unique) (simp_all add: lmap_ok_def)
  with m1(1) m2(1) show ?thesis
    by (simp add: build_storage_footprint_from_xdr_def storage_footprint_to_ledger_footprint_def omap_new_def)
qed

section \<open>The initial storage\<close>

text \<open>What the XDR of entries, keys and time-to-live entries promises.\<close>

definition xdr_ok :: "'v xdr \<Rightarrow> bool" where
  "xdr_ok x \<longleftrightarrow>
     (\<forall>e b. xdr_entry x e = Inr b \<longrightarrow> xdr_entry_from x b = Inr e) \<and>
     (\<forall>t b. xdr_ttl x t = Inr b \<longrightarrow> b \<noteq> [] \<and> xdr_ttl_from x b = Inr t) \<and>
     (\<forall>k k' b. xdr_key x k = Inr b \<longrightarrow> xdr_key x k' = Inr b \<longrightarrow> k = k')"

definition encodes :: "'v xdr \<Rightarrow> ledger_key \<times> 'v entry_live \<Rightarrow> bytes \<times> bytes \<Rightarrow> bool" where
  "encodes x kel bufs \<longleftrightarrow>
     (case (kel, bufs) of ((k, e, l), (b, tb)) \<Rightarrow>
        xdr_entry_from x b = Inr e \<and>
        (case l of None \<Rightarrow> tb = []
         | Some n \<Rightarrow> tb \<noteq> [] \<and> (\<exists>t. xdr_ttl_from x tb = Inr t \<and> ttl_live_until t = n)))"

lemma entry_key_supported: "ledger_entry_to_ledger_key e = Inr k \<Longrightarrow> supported_key k"
  by (cases e) auto

lemma lmap_insert_Inr:
  assumes "omap_insert compare_key k v m = Inr m'" and "lmap_ok m" and "supported_key k"
  shows "lmap_ok m'" and "map_of m' = (map_of m)(k \<mapsto> v)"
  using lk.insert_Inr [OF assms(1)] assms(2,3) by (simp_all add: lmap_ok_def)

lemma build_entry_Inr:
  assumes "build_entry x fp num bufs (m, ttls) = Inr (m', ttls')" and "encodes x (k, e, l) bufs"
    and "ledger_entry_to_ledger_key e = Inr k" and "lmap_ok m" and "lmap_ok ttls"
  shows "lmap_ok m'" and "map_of m' = (map_of m)(k \<mapsto> Some (e, l))" and "lmap_ok ttls'"
proof -
  obtain b tb where bufs: "bufs = (b, tb)" by (cases bufs)
  have dec: "xdr_entry_from x b = Inr e" using assms(2) by (simp add: encodes_def bufs)
  have k: "supported_key k" by (rule entry_key_supported [OF assms(3)])
  obtain l' where t: "build_ttl x num e k tb ttls = Inr (l', ttls')"
    and ins: "omap_insert compare_key k (Some (e, l')) m = Inr m'"
    using assms(1,3) dec by (auto simp: build_entry_def bufs split: if_splits)
  have l: "l' = l" and ok: "lmap_ok ttls'"
    using t assms(2) lmap_insert_Inr(1) [OF _ assms(5) k] assms(5)
    by (auto simp: build_ttl_def encodes_def bufs split: if_splits option.splits)
  show "lmap_ok m'" "map_of m' = (map_of m)(k \<mapsto> Some (e, l))" "lmap_ok ttls'"
    using lmap_insert_Inr [OF ins assms(4) k] l ok by simp_all
qed

lemma build_entries_Inr:
  assumes "fold_res (build_entry x fp num) bufs (m, ttls) = Inr (m', ttls')" and "list_all2 (encodes x) ps bufs"
    and "\<forall>(k, e, l) \<in> set ps. ledger_entry_to_ledger_key e = Inr k" and "distinct (map fst ps)"
    and "lmap_ok m" and "lmap_ok ttls"
  shows "lmap_ok m' \<and> map_of m' = map_of m ++ map_of (map (\<lambda>(k, el). (k, Some el)) ps)"
  using assms(2,1,3-)
proof (induction ps bufs arbitrary: m ttls rule: list_all2_induct)
  case (Cons p ps b bufs)
  obtain k e l where p: "p = (k, e, l)" by (cases p)
  obtain m1 t1 where 1: "build_entry x fp num b (m, ttls) = Inr (m1, t1)"
    "fold_res (build_entry x fp num) bufs (m1, t1) = Inr (m', ttls')"
    using Cons.prems(1) by auto
  have key: "ledger_entry_to_ledger_key e = Inr k" using Cons.prems(2) by (simp add: p)
  note s = build_entry_Inr [OF 1(1) Cons.hyps(1) [unfolded p] key Cons.prems(4,5)]
  have "lmap_ok m' \<and> map_of m' = map_of m1 ++ map_of (map (\<lambda>(k, el). (k, Some el)) ps)"
    using Cons.IH [OF 1(2) _ _ s(1,3)] Cons.prems(2,3) by simp
  moreover have "map_of (map (\<lambda>(k, el). (k, Some el)) ps) k = None"
    using Cons.prems(3) by (force simp: p map_of_eq_None_iff)
  ultimately show ?case by (auto simp: s(2) p fun_eq_iff map_add_def split: option.split)
qed simp

lemma add_missing_Inr:
  assumes "fold_res add_missing_key ks m = Inr m'" and "lmap_ok m" and "\<forall>k \<in> set ks. supported_key k"
  shows "lmap_ok m' \<and> map_of m' = (\<lambda>k. if map_of m k = None \<and> k \<in> set ks then Some None else map_of m k)"
  using assms
proof (induction ks arbitrary: m)
  case (Cons k ks)
  obtain m1 where 1: "add_missing_key k m = Inr m1" "fold_res add_missing_key ks m1 = Inr m'"
    using Cons.prems(1) by auto
  have k: "supported_key k" using Cons.prems(3) by simp
  have "omap_contains_key compare_key k m = Inr (map_of m k \<noteq> None)"
    using Cons.prems(2) k by (intro lk.contains_key_map_of) (simp_all add: lmap_ok_def)
  then have "lmap_ok m1 \<and> map_of m1 = (if map_of m k = None then (map_of m)(k \<mapsto> None) else map_of m)"
    using 1(1) Cons.prems(2) lmap_insert_Inr [OF _ Cons.prems(2) k]
    by (auto simp: add_missing_key_def split: if_splits)
  with Cons.IH [OF 1(2)] Cons.prems(3) show ?case by (auto simp: fun_eq_iff)
qed simp

lemma record_read_Inr:
  assumes "record_read x src (k, ty) (es, ts, rb) = Inr (es', ts', rb')" and "xdr_ok x"
  shows "src k = Inr None \<and> es' = es \<and> ts' = ts \<or>
    (\<exists>el b tb. src k = Inr (Some el) \<and> encodes x (k, el) (b, tb) \<and> es' = es @ [b] \<and> ts' = ts @ [tb])"
proof -
  obtain r where r: "src k = Inr r" using assms(1) by (auto simp: record_read_def)
  show ?thesis
  proof (cases r)
    case None
    with r assms(1) show ?thesis by (simp add: record_read_def)
  next
    case (Some el)
    obtain e l where el: "el = (e, l)" by (cases el)
    obtain b tb where b: "xdr_entry x e = Inr b" and tb: "(case l of None \<Rightarrow> Inr []
        | Some l \<Rightarrow> try_res (xdr_key x k) (\<lambda>key_xdr.
            xdr_ttl x \<lparr>ttl_key_hash = xdr_sha256 x key_xdr, ttl_live_until = l\<rparr>)) = Inr tb"
      and es: "es' = es @ [b]" "ts' = ts @ [tb]"
      using assms(1) r Some el by (auto simp: record_read_def)
    have "encodes x (k, e, l) (b, tb)"
      using b tb assms(2) by (cases l) (force simp: encodes_def xdr_ok_def)+
    with r Some el es show ?thesis by blast
  qed
qed

lemma record_reads_Inr:
  assumes "fold_res (record_read x src) fp (es, ts, rb) = Inr (es', ts', rb')" and "xdr_ok x"
    and "distinct (map fst fp)"
  shows "\<exists>ps bufs. es' = es @ map fst bufs \<and> ts' = ts @ map snd bufs \<and> list_all2 (encodes x) ps bufs \<and>
    distinct (map fst ps) \<and> fst ` set ps \<subseteq> fst ` set fp \<and> (\<forall>(k, el) \<in> set ps. src k = Inr (Some el)) \<and>
    (\<forall>k \<in> fst ` set fp. k \<notin> fst ` set ps \<longrightarrow> src k = Inr None)"
  using assms(1,3)
proof (induction fp arbitrary: es ts rb)
  case Nil
  then show ?case by (intro exI [of _ "[]"]) simp
next
  case (Cons p fp)
  obtain k ty where p: "p = (k, ty)" by (cases p)
  obtain es1 ts1 rb1 where 1: "record_read x src (k, ty) (es, ts, rb) = Inr (es1, ts1, rb1)"
    "fold_res (record_read x src) fp (es1, ts1, rb1) = Inr (es', ts', rb')"
    using Cons.prems(1) p by auto
  have k: "k \<notin> fst ` set fp" using Cons.prems(2) p by auto
  from Cons.IH [OF 1(2)] Cons.prems(2) obtain ps bufs where
    ih: "es' = es1 @ map fst bufs" "ts' = ts1 @ map snd bufs" "list_all2 (encodes x) ps bufs"
      "distinct (map fst ps)" "fst ` set ps \<subseteq> fst ` set fp" "\<forall>(k, el) \<in> set ps. src k = Inr (Some el)"
      "\<forall>k \<in> fst ` set fp. k \<notin> fst ` set ps \<longrightarrow> src k = Inr None" by auto
  from record_read_Inr [OF 1(1) assms(2)] show ?case
  proof
    assume "src k = Inr None \<and> es1 = es \<and> ts1 = ts"
    with ih p show ?thesis by (intro exI [of _ ps] exI [of _ bufs]) auto
  next
    assume "\<exists>el b tb. src k = Inr (Some el) \<and> encodes x (k, el) (b, tb) \<and> es1 = es @ [b] \<and> ts1 = ts @ [tb]"
    then obtain el b tb where "src k = Inr (Some el)" "encodes x (k, el) (b, tb)" "es1 = es @ [b]" "ts1 = ts @ [tb]"
      by blast
    with ih p k show ?thesis by (intro exI [of _ "(k, el) # ps"] exI [of _ "(b, tb) # bufs"]) auto
  qed
qed

text \<open>The storage built from what was read holds the snapshot at every key of the footprint.\<close>

lemma built_storage:
  assumes "xdr_ok x" and "lmap_ok fp" and "fold_res (record_read x src) fp ([], [], 0) = Inr (entries, ttls, rb)"
    and "build_storage_map_from_xdr_ledger_entries x fp entries ttls num = Inr (m, init)"
    and "\<forall>k e l. src k = Inr (Some (e, l)) \<longrightarrow> ledger_entry_to_ledger_key e = Inr k"
  shows "lmap_ok m \<and> dom (map_of m) = dom (map_of fp) \<and>
    (\<forall>k \<in> dom (map_of fp). \<exists>r. src k = Inr r \<and> map_of m k = Some r)"
proof -
  have s: "omap_sorted supported_key compare_key fp" using assms(2) by (simp add: lmap_ok_def)
  obtain ps bufs where r: "entries = map fst bufs" "ttls = map snd bufs" "list_all2 (encodes x) ps bufs"
    "distinct (map fst ps)" "fst ` set ps \<subseteq> fst ` set fp" "\<forall>(k, el) \<in> set ps. src k = Inr (Some el)"
    "\<forall>k \<in> fst ` set fp. k \<notin> fst ` set ps \<longrightarrow> src k = Inr None"
    using record_reads_Inr [OF assms(3,1) lk.sorted_distinct [OF s]] by auto
  have z: "zip entries ttls = bufs" by (simp add: r(1,2) zip_map_fst_snd)
  obtain m1 where m1: "fold_res (build_entry x fp num) bufs ([], []) = Inr (m1, init)"
    "fold_res add_missing_key (omap_keys fp) m1 = Inr m"
    using assms(4) unfolding build_storage_map_from_xdr_ledger_entries_def z omap_new_def
    by (auto split: if_splits)
  have keys: "\<forall>(k, e, l) \<in> set ps. ledger_entry_to_ledger_key e = Inr k" using r(6) assms(5) by auto
  have 1: "lmap_ok m1" "map_of m1 = map_of (map (\<lambda>(k, el). (k, Some el)) ps)"
    using build_entries_Inr [OF m1(1) r(3) keys r(4) lmap_new lmap_new] by simp_all
  have "\<forall>k \<in> set (omap_keys fp). supported_key k" using s by (auto simp: omap_keys_def omap_sorted_def)
  note 2 = add_missing_Inr [OF m1(2) 1(1) this]
  have at: "map_of m1 k = (if k \<in> fst ` set ps then Some (Some (the (map_of ps k))) else None)" for k
    unfolding 1(2) by (induction ps) auto
  have val: "src k = Inr (Some (the (map_of ps k)))" if "k \<in> fst ` set ps" for k
  proof -
    from that obtain el where "map_of ps k = Some el" by (metis map_of_eq_None_iff not_None_eq set_map)
    with r(6) show ?thesis by (auto dest: map_of_SomeD)
  qed
  show ?thesis
    using 2 at r(5,7) val by (auto simp: omap_keys_def dom_map_of_conv_image_fst dom_def map_of_eq_None_iff
        split: if_splits)
qed

section \<open>Ledger changes\<close>

text \<open>What a change says of an entry with key \<open>k\<close>, before and after the invocation.\<close>

definition reports ::
  "'v xdr \<Rightarrow> access_type option \<Rightarrow> ledger_key \<Rightarrow> 'v entry_live option \<Rightarrow> 'v entry_live option \<Rightarrow> entry_change \<Rightarrow> bool" where
  "reports x ty k old new c \<longleftrightarrow>
     xdr_key x k = Inr (ec_encoded_key c) \<and>
     (case ty of
        None \<Rightarrow> False
      | Some ReadOnly \<Rightarrow> ec_read_only c \<and> ec_encoded_new_value c = None
      | Some ReadWrite \<Rightarrow> \<not> ec_read_only c \<and>
          (case new of
             None \<Rightarrow> ec_encoded_new_value c = None
           | Some (e, _) \<Rightarrow> \<exists>b. xdr_entry x e = Inr b \<and> ec_encoded_new_value c = Some b)) \<and>
     (case old of
        None \<Rightarrow> ec_old_entry_size c = 0
      | Some (e, _) \<Rightarrow> \<exists>b. xdr_entry x e = Inr b \<and> ec_old_entry_size c = of_nat (length b)) \<and>
     (case get_key_durability k of
        None \<Rightarrow> ec_ttl_change c = None
      | Some d \<Rightarrow> \<exists>t. ec_ttl_change c = Some t \<and> lc_durability t = d \<and>
          (case old of None \<Rightarrow> lc_old_live_until t = 0 | Some (_, l) \<Rightarrow> l = Some (lc_old_live_until t)) \<and>
          (case new of
             None \<Rightarrow> lc_new_live_until t = 0
           | Some (_, l) \<Rightarrow> \<exists>n. l = Some n \<and> lc_new_live_until t = max n (lc_old_live_until t)))"

lemma old_change:
  assumes "old_entry_change x old c = Inr c'"
  shows "ec_read_only c' = ec_read_only c" and "ec_encoded_key c' = ec_encoded_key c"
    and "ec_encoded_new_value c' = ec_encoded_new_value c"
    and "case old of None \<Rightarrow> ec_old_entry_size c' = ec_old_entry_size c
      | Some (e, _) \<Rightarrow> \<exists>b. xdr_entry x e = Inr b \<and> ec_old_entry_size c' = of_nat (length b)"
    and "case ec_ttl_change c of None \<Rightarrow> ec_ttl_change c' = None
      | Some t \<Rightarrow> \<exists>l. ec_ttl_change c' = Some (t\<lparr>lc_old_live_until := l\<rparr>) \<and>
          (case old of None \<Rightarrow> l = lc_old_live_until t | Some (_, lv) \<Rightarrow> lv = Some l)"
  using assms by (auto simp: old_entry_change_def ttl_or_error_def Let_def split: option.splits)

lemma new_change:
  assumes "new_ttl_change new c = Inr c'"
  shows "ec_read_only c' = ec_read_only c" and "ec_encoded_key c' = ec_encoded_key c"
    and "ec_encoded_new_value c' = ec_encoded_new_value c" and "ec_old_entry_size c' = ec_old_entry_size c"
    and "case ec_ttl_change c of None \<Rightarrow> ec_ttl_change c' = None
      | Some t \<Rightarrow> \<exists>l. ec_ttl_change c' = Some (t\<lparr>lc_new_live_until := l\<rparr>) \<and>
          (case new of None \<Rightarrow> l = lc_new_live_until t
           | Some (_, lv) \<Rightarrow> \<exists>n. lv = Some n \<and> l = max n (lc_old_live_until t))"
  using assms by (auto simp: new_ttl_change_def ttl_or_error_def split: option.splits)

lemma final_change:
  assumes "accessed_change x ty new c = Inr c'" and "\<not> ec_read_only c" and "ec_encoded_new_value c = None"
  shows "ec_encoded_key c' = ec_encoded_key c" and "ec_old_entry_size c' = ec_old_entry_size c"
    and "ec_ttl_change c' = ec_ttl_change c"
    and "case ty of None \<Rightarrow> False
      | Some ReadOnly \<Rightarrow> ec_read_only c' \<and> ec_encoded_new_value c' = None
      | Some ReadWrite \<Rightarrow> \<not> ec_read_only c' \<and>
          (case new of None \<Rightarrow> ec_encoded_new_value c' = None
           | Some (e, _) \<Rightarrow> \<exists>b. xdr_entry x e = Inr b \<and> ec_encoded_new_value c' = Some b)"
  using assms by (auto simp: accessed_change_def split: option.splits access_type.splits)

lemma change_reports:
  assumes "ledger_change x fp src ttls (k, new) = Inr c"
  shows "\<exists>old ty. src k = Inr old \<and> omap_get compare_key k fp = Inr ty \<and> reports x ty k old new c"
proof -
  obtain encoded ttl old c1 c2 ty where
    key: "xdr_key x k = Inr encoded" and ttl: "initial_ttl_change x ttls k encoded = Inr ttl"
    and old: "src k = Inr old"
    and c1: "old_entry_change x old (no_change\<lparr>ec_encoded_key := encoded, ec_ttl_change := ttl\<rparr>) = Inr c1"
    and c2: "new_ttl_change new c1 = Inr c2" and ty: "omap_get compare_key k fp = Inr ty"
    and c: "accessed_change x ty new c2 = Inr c"
    using assms by (auto simp: ledger_change_def)
  have t: "case get_key_durability k of None \<Rightarrow> ttl = None | Some d \<Rightarrow> \<exists>h. ttl =
      Some \<lparr>lc_key_hash = h, lc_durability = d, lc_old_live_until = 0, lc_new_live_until = 0\<rparr>"
    using ttl by (auto simp: initial_ttl_change_def split: option.splits)
  note 1 = old_change [OF c1] and 2 = new_change [OF c2]
  have "\<not> ec_read_only c2" "ec_encoded_new_value c2 = None" using 1 2 by (simp_all add: no_change_def)
  note 3 = final_change [OF c this]
  have "case get_key_durability k of None \<Rightarrow> ec_ttl_change c = None
    | Some d \<Rightarrow> \<exists>t. ec_ttl_change c = Some t \<and> lc_durability t = d \<and>
        (case old of None \<Rightarrow> lc_old_live_until t = 0 | Some (_, l) \<Rightarrow> l = Some (lc_old_live_until t)) \<and>
        (case new of None \<Rightarrow> lc_new_live_until t = 0
         | Some (_, l) \<Rightarrow> \<exists>n. l = Some n \<and> lc_new_live_until t = max n (lc_old_live_until t))"
  proof (cases "get_key_durability k")
    case None
    with t 1(5) 2(5) 3(3) show ?thesis by simp
  next
    case (Some d)
    with t obtain h where h: "ttl = Some \<lparr>lc_key_hash = h, lc_durability = d, lc_old_live_until = 0,
        lc_new_live_until = 0\<rparr>" by auto
    from 1(5) h obtain l where l: "ec_ttl_change c1 = Some \<lparr>lc_key_hash = h, lc_durability = d,
        lc_old_live_until = l, lc_new_live_until = 0\<rparr>"
      "case old of None \<Rightarrow> l = 0 | Some (_, lv) \<Rightarrow> lv = Some l" by (auto split: option.splits)
    from 2(5) l(1) obtain n where n: "ec_ttl_change c2 = Some \<lparr>lc_key_hash = h, lc_durability = d,
        lc_old_live_until = l, lc_new_live_until = n\<rparr>"
      "case new of None \<Rightarrow> n = 0 | Some (_, lv) \<Rightarrow> \<exists>m. lv = Some m \<and> n = max m l" by (auto split: option.splits)
    from Some n l 3(3) show ?thesis by (auto split: option.splits)
  qed
  moreover have "case old of None \<Rightarrow> ec_old_entry_size c = 0
      | Some (e, _) \<Rightarrow> \<exists>b. xdr_entry x e = Inr b \<and> ec_old_entry_size c = of_nat (length b)"
    using 1(4) 2(4) 3(2) by (cases old) (auto simp: no_change_def)
  moreover have "xdr_key x k = Inr (ec_encoded_key c)" using key 1(2) 2(2) 3(1) by simp
  ultimately have "reports x ty k old new c" unfolding reports_def using 3(4) by blast
  with old ty show ?thesis by blast
qed

end
