(* ===== verification/Invocation_Props.thy ===== *)
theory Invocation_Props
  imports Invocation_Inv
begin

text \<open>
  The properties of the invocation of host functions: the ledger changes an invocation reports carry the ledger it
  started from to the storage it ended with; and what a simulation in recording mode reports is enough
  to run the same calls in enforcing mode.
\<close>

section \<open>Applying changes\<close>






section \<open>The reported changes\<close>






section \<open>The storage an invocation starts from\<close>





lemma built_ok:
  assumes "lmap_ok fp" and "lmap_ok m"
  shows "storage_ok (with_enforcing_footprint_and_map fp m)"
    and "st_mode (with_enforcing_footprint_and_map fp m) = Enforcing"
    and "fp_of (with_enforcing_footprint_and_map fp m) = map_of fp"
    and "cells (with_enforcing_footprint_and_map fp m) = map_of m"
    and "st_map (with_enforcing_footprint_and_map fp m) = m"
    and "st_footprint (with_enforcing_footprint_and_map fp m) = fp"
  using assms by (simp_all add: storage_ok_def lmap_ok_def with_enforcing_footprint_and_map_def fp_of_def cells_def)


section \<open>Simulation\<close>

text \<open>Once the map is built from what a simulation has read, both runs end with the same storage map.\<close>

lemma simulated_run:
  assumes run: "exec_calls cs (with_recording_footprint src) = Inr (rs, s)"
    and x: "xdr_ok x" and src: "\<forall>k e l. src k = Inr (Some (e, l)) \<longrightarrow> ledger_entry_to_ledger_key e = Inr k"
    and reads: "fold_res (record_read x src) (st_footprint s) ([], [], 0) = Inr (entries, ttls, rb)"
    and built: "build_storage_map_from_xdr_ledger_entries x (st_footprint s) entries ttls num = Inr (m, init)"
  shows "\<exists>t. exec_calls cs (with_enforcing_footprint_and_map (st_footprint s) m) = Inr (rs, t) \<and>
    st_map t = st_map s \<and> st_footprint t = st_footprint s"
    and "storage_ok s" and "\<forall>k \<in> dom (map_of (st_map s)). map_snapshot m k = src k"
    and "lmap_ok m" and "dom (map_of (st_map s)) = dom (fp_of s)"
proof -
  let ?fp = "st_footprint s"
  note start = recording_start [of src]
  have rec: "storage_ok s" "dom (fp_of s) = dom (cells s)"
    using recording_calls [OF run start(1,2)] by (simp_all add: start)
  show "storage_ok s" by (rule rec(1))
  show dm: "dom (map_of (st_map s)) = dom (fp_of s)" using rec(2) by (simp add: cells_def)
  have fp: "lmap_ok ?fp" using rec(1) by (simp add: lmap_ok_def storage_ok_def)
  have m: "lmap_ok m" "dom (map_of m) = dom (map_of ?fp)"
    "\<forall>k \<in> dom (map_of ?fp). \<exists>r. src k = Inr r \<and> map_of m k = Some r"
    using built_storage [OF x fp reads built src] by blast+
  show "lmap_ok m" by (rule m(1))
  note b = built_ok [OF fp m(1)]
  have held: "\<forall>k. k \<in> dom (fp_of s) \<longrightarrow> (\<exists>e. src k = Inr e \<and> map_of m k = Some e)"
    using m(3) by (simp add: fp_of_def)
  from preflight_faithful [OF run b(1) held] obtain t where
    t: "exec_calls cs (with_enforcing_footprint_and_map ?fp m) = Inr (rs, t)"
    "\<forall>k. k \<in> dom (fp_of s) \<longrightarrow> cells t k = cells s k" by blast
  have w: "within_footprint (with_enforcing_footprint_and_map ?fp m) t" by (rule within_calls [OF t(1) b(1,2)])
  then have t_ok: "storage_ok t" "map_of (st_footprint t) = map_of ?fp"
    "\<forall>k. k \<notin> dom (fp_of s) \<longrightarrow> cells t k = map_of m k"
    by (auto simp: within_footprint_def b(3,4,6) fp_of_def dom_def)
  have "cells t = cells s"
  proof
    fix k
    show "cells t k = cells s k"
    proof (cases "k \<in> dom (fp_of s)")
      case True
      with t(2) show ?thesis by blast
    next
      case False
      then have "k \<notin> dom (map_of m)" "k \<notin> dom (cells s)" using m(2) rec(2) by (simp_all add: fp_of_def)
      then have "map_of m k = None" "cells s k = None" by (simp_all add: domIff)
      with False t_ok(3) show ?thesis by simp
    qed
  qed
  then have "st_map t = st_map s" "st_footprint t = ?fp"
    using t_ok(1,2) rec(1) by (auto intro!: lk.sorted_unique simp: storage_ok_def cells_def)
  with t(1) show "\<exists>t. exec_calls cs (with_enforcing_footprint_and_map ?fp m) = Inr (rs, t) \<and>
      st_map t = st_map s \<and> st_footprint t = ?fp" by blast
  show "\<forall>k \<in> dom (map_of (st_map s)). map_snapshot m k = src k"
  proof
    fix k assume "k \<in> dom (map_of (st_map s))"
    then have k: "k \<in> dom (map_of ?fp)" unfolding dm by (simp add: fp_of_def)
    then obtain r where r: "src k = Inr r" "map_of m k = Some r" using m(3) by blast
    from k fp have "supported_key k" by (auto simp: lmap_ok_def omap_sorted_def dest!: map_of_SomeD)
    then have "omap_get compare_key k m = Inr (Some r)"
      using m(1) r(2) by (simp add: lk.get_map_of lmap_ok_def)
    with r(1) show "map_snapshot m k = src k" by (simp add: map_snapshot_def split: option.split)
  qed
qed

lemma changes_cong:
  assumes "st_map t = st_map s" and "st_footprint t = st_footprint s"
    and "\<forall>k \<in> dom (map_of (st_map s)). src' k = src k"
  shows "get_ledger_changes x t src' ttls = get_ledger_changes x s src ttls"
proof -
  have "map_res (ledger_change x fp src' ttls) m = map_res (ledger_change x fp src ttls) m"
    if "\<forall>k \<in> dom (map_of m). src' k = src k" for fp and m :: "'a storage_map"
  proof -
    have "\<forall>p \<in> set m. ledger_change x fp src' ttls p = ledger_change x fp src ttls p"
      using that by (force simp: ledger_change_def dom_map_of_conv_image_fst)
    then show ?thesis by (induction m) simp_all
  qed
  with assms show ?thesis by (simp add: get_ledger_changes_def)
qed


section \<open>Rent\<close>

text \<open>The rent change of an entry, also where neither its size nor its life grows.\<close>

definition full_rent_change :: "entry_change \<Rightarrow> rent_change option" where
  "full_rent_change c =
     map_option (\<lambda>t.
       \<lparr>rc_is_persistent = (lc_durability t = Persistent), rc_old_size_bytes = ec_old_entry_size c,
        rc_new_size_bytes = (case ec_encoded_new_value c of
          Some buf \<Rightarrow> of_nat (length buf) | None \<Rightarrow> ec_old_entry_size c),
        rc_old_live_until_ledger = lc_old_live_until t, rc_new_live_until_ledger = lc_new_live_until t\<rparr>)
       (ec_ttl_change c)"

definition no_growth :: "rent_change \<Rightarrow> bool" where
  "no_growth r \<longleftrightarrow>
     rc_new_live_until_ledger r \<le> rc_old_live_until_ledger r \<and> rc_new_size_bytes r \<le> rc_old_size_bytes r"

lemma rent_change_of_full:
  "rent_change_of c = Option.bind (full_rent_change c) (\<lambda>r. if no_growth r then None else Some r)"
  by (simp add: rent_change_of_def full_rent_change_def no_growth_def Let_def split: option.split)

lemma no_growth_free:
  assumes dc: "ceiling_division dc" and "no_growth r"
  shows "rent_fee_per_entry_change dc r c seq = 0"
proof -
  have none: "checked_sub a b = None \<or> checked_sub a b = Some 0" if "a \<le> b" for a b :: u32
    using that by (auto simp: checked_sub_def)
  have ext: "extension_ledgers r seq = None \<or> extension_ledgers r seq = Some 0"
  proof (cases "entry_is_new r")
    case True
    with assms(2) have "rc_new_live_until_ledger r = 0" by (simp add: no_growth_def entry_is_new_def)
    then show ?thesis
      using none [of 0 "saturating_sub seq 1"] True
      by (simp add: extension_ledgers_def exclusive_ledger_diff_def)
  next
    case False
    with none [of "rc_new_live_until_ledger r" "rc_old_live_until_ledger r"] assms(2) show ?thesis
      by (simp add: no_growth_def extension_ledgers_def exclusive_ledger_diff_def)
  qed
  have sz: "size_increase r = None \<or> size_increase r = Some 0"
    using none [of "rc_new_size_bytes r" "rc_old_size_bytes r"] assms(2)
    by (simp add: no_growth_def size_increase_def)
  have "sadd64 0 0 = 0" by (simp add: sadd64_def sat64_def i64_max_def i64_min_def)
  with ext sz show ?thesis
    by (auto simp: rent_fee_per_entry_change_def size_and_ledgers_zero [OF dc] split: option.splits)
qed

lemma rent_loop_growth:
  assumes "ceiling_division dc" and "i64_min \<le> fee" and "fee \<le> i64_max"
  shows "rent_loop dc c seq (filter (\<lambda>r. \<not> no_growth r) rs) (fee, n, b) = rent_loop dc c seq rs (fee, n, b)"
  using assms(2,3)
proof (induction rs arbitrary: fee n b)
  case (Cons r rs)
  have sat: "i64_min \<le> sadd64 a d \<and> sadd64 a d \<le> i64_max" for a d
    by (simp add: sadd64_def sat64_def i64_min_def i64_max_def)
  show ?case
  proof (cases "no_growth r")
    case True
    then have "\<not> rc_old_live_until_ledger r < rc_new_live_until_ledger r" by (simp add: no_growth_def not_less)
    moreover have "sadd64 fee 0 = fee" using Cons.prems by (simp add: sadd64_def sat64_id)
    ultimately show ?thesis
      using True Cons.IH [OF Cons.prems] by (simp add: no_growth_free [OF assms(1)] Let_def)
  next
    case False
    with Cons.IH sat show ?thesis by (simp add: Let_def)
  qed
qed simp

lemma extracted_filter:
  "extract_rent_changes changes = filter (\<lambda>r. \<not> no_growth r) (List.map_filter full_rent_change changes)"
  unfolding extract_rent_changes_def
  by (induction changes) (auto simp: List.map_filter_def rent_change_of_full split: option.split)


section \<open>Properties\<close>




text \<open>
  C17. A simulation tells what the transaction does: if storage calls succeed while their footprint is recorded against
  a snapshot of the ledger, and the resources of the result are computed, then the reported footprint is read back as
  the recorded one, the storage map is built from the entries that were reported as read, the same calls
  succeed on it with the same results in enforcing mode, and the ledger changes are those the simulation reports.
\<close>

theorem simulation_reports_execution:
  assumes "exec_calls cs (with_recording_footprint src) = Inr (rs, s)"
    and "recorded_resources x src num s = Inr (f, read, init)" and "xdr_ok x"
    and "\<forall>k e l. src k = Inr (Some (e, l)) \<longrightarrow> ledger_entry_to_ledger_key e = Inr k"
  shows "\<exists>entries ttls m t.
    build_storage_footprint_from_xdr f = Inr (st_footprint s) \<and>
    fold_res (record_read x src) (st_footprint s) ([], [], 0) = Inr (entries, ttls, read) \<and>
    build_storage_map_from_xdr_ledger_entries x (st_footprint s) entries ttls num = Inr (m, init) \<and>
    exec_calls cs (with_enforcing_footprint_and_map (st_footprint s) m) = Inr (rs, t) \<and>
    get_ledger_changes x t (map_snapshot m) init = get_ledger_changes x s src init"
proof -
  obtain entries ttls m where 1: "f = storage_footprint_to_ledger_footprint (st_footprint s)"
    "fold_res (record_read x src) (st_footprint s) ([], [], 0) = Inr (entries, ttls, read)"
    "build_storage_map_from_xdr_ledger_entries x (st_footprint s) entries ttls num = Inr (m, init)"
    using assms(2) by (auto simp: recorded_resources_def Let_def)
  note run = simulated_run [OF assms(1,3,4) 1(2,3)]
  from run(1) obtain t where
    t: "exec_calls cs (with_enforcing_footprint_and_map (st_footprint s) m) = Inr (rs, t)"
    "st_map t = st_map s" "st_footprint t = st_footprint s" by blast
  have "lmap_ok (st_footprint s)" using run(2) by (simp add: lmap_ok_def storage_ok_def)
  then have "build_storage_footprint_from_xdr f = Inr (st_footprint s)" unfolding 1(1) by (rule footprint_roundtrip)
  with 1(2,3) t(1) changes_cong [OF t(2,3) run(3)] show ?thesis by blast
qed

text \<open>
  The rent an invocation pays is that of all its changes: the changes that are left out of the computation, those whose
  entry has not grown and does not live longer, would not have cost anything, whatever they are mixed with.
\<close>

theorem rent_of_extracted_changes:
  assumes "ceiling_division dc"
  shows "compute_rent_fee dc (extract_rent_changes changes) c seq =
    compute_rent_fee dc (List.map_filter full_rent_change changes) c seq"
  by (simp add: compute_rent_fee_def extracted_filter rent_loop_growth [OF assms] i64_min_def i64_max_def)

section \<open>Witnesses\<close>

text \<open>XDR of two entries with one key, and of two keys, in a few bytes.\<close>

definition example_entry :: "(nat \<Rightarrow> 'v) \<Rightarrow> nat \<Rightarrow> 'v ledger_entry" where
  "example_entry v n = ContractDataE (ContractAddr 1) (SymbolV ''A'') Persistent (v n)"

definition example_xdr :: "(nat \<Rightarrow> 'v) \<Rightarrow> 'v xdr" where
  "example_xdr v =
     \<lparr>xdr_key = (\<lambda>k. if k = key_a then Inr [1] else if k = key_b then Inr [2] else Inl storage_internal_error),
      xdr_entry = (\<lambda>e. if e = example_entry v 1 then Inr [1]
        else if e = example_entry v 2 then Inr [2, 2] else Inl storage_internal_error),
      xdr_entry_from = (\<lambda>b. if b = [1] then Inr (example_entry v 1)
        else if b = [2, 2] then Inr (example_entry v 2) else Inl storage_internal_error),
      xdr_ttl = (\<lambda>t. if t = \<lparr>ttl_key_hash = 0, ttl_live_until = 5000\<rparr> then Inr [1] else Inl storage_internal_error),
      xdr_ttl_from = (\<lambda>b. if b = [1] then Inr \<lparr>ttl_key_hash = 0, ttl_live_until = 5000\<rparr>
        else Inl storage_internal_error),
      xdr_sha256 = (\<lambda>_. 0)\<rparr>"

lemma example_xdr_ok: "xdr_ok (example_xdr v)"
  by (auto simp: xdr_ok_def example_xdr_def split: if_splits)

lemma example_resources:
  "recorded_resources (example_xdr (\<lambda>n. n)) example_snapshot 100
     \<lparr>st_footprint = example_footprint, st_mode = Recording example_snapshot,
       st_map = [(key_a, Some (data_a 2, Some 20100)), (key_b, None)]\<rparr> =
   Inr (\<lparr>lf_read_only = [key_b], lf_read_write = [key_a]\<rparr>, 1,
     [(key_a, \<lparr>ttl_key_hash = 0, ttl_live_until = 5000\<rparr>)])"
  by (simp add: key_a_def [symmetric] recorded_resources_def storage_footprint_to_ledger_footprint_def Let_def
      build_storage_footprint_from_xdr_def footprint_insert_def map_eval omap_new_def record_read_def
      example_footprint_def example_snapshot_def example_xdr_def example_entry_def data_a_def
      build_storage_map_from_xdr_ledger_entries_def build_entry_def build_ttl_def add_missing_key_def omap_keys_def
      saturating_add_def del: try_res_Inr)


lemma example_changes:
  "get_ledger_changes (example_xdr (\<lambda>n. n))
     \<lparr>st_footprint = example_footprint, st_mode = Recording example_snapshot,
       st_map = [(key_a, Some (data_a 2, Some 20100)), (key_b, None)]\<rparr> example_snapshot
     [(key_a, \<lparr>ttl_key_hash = 0, ttl_live_until = 5000\<rparr>)] =
   Inr [\<lparr>ec_read_only = False, ec_encoded_key = [1], ec_old_entry_size = 1, ec_encoded_new_value = Some [2, 2],
         ec_ttl_change = Some \<lparr>lc_key_hash = 0, lc_durability = Persistent, lc_old_live_until = 5000,
           lc_new_live_until = 20100\<rparr>\<rparr>,
        \<lparr>ec_read_only = True, ec_encoded_key = [2], ec_old_entry_size = 0, ec_encoded_new_value = None,
         ec_ttl_change = Some \<lparr>lc_key_hash = 0, lc_durability = Persistent, lc_old_live_until = 0,
           lc_new_live_until = 0\<rparr>\<rparr>]"
proof -
  have b: "get_key_durability key_b = Some Persistent" by (simp add: key_b_def get_key_durability_def)
  show ?thesis
    by (simp add: get_ledger_changes_def ledger_change_def initial_ttl_change_def old_entry_change_def no_change_def
        new_ttl_change_def accessed_change_def ttl_or_error_def Let_def map_eval b example_snapshot_def
        example_footprint_def example_xdr_def example_entry_def data_a_def key_a_def [symmetric] max_def
        del: try_res_Inr)
qed

theorem simulation_reports_execution_witness:
  "\<exists>rs m init t changes. exec_calls example_calls (with_enforcing_footprint_and_map example_footprint m) = Inr (rs, t) \<and>
     get_ledger_changes (example_xdr (\<lambda>n. n)) t (map_snapshot m) init = Inr changes \<and>
     map ec_encoded_new_value changes = [Some [2, 2], None]"
proof -
  have keyed: "\<forall>k e l. example_snapshot k = Inr (Some (e, l)) \<longrightarrow> ledger_entry_to_ledger_key e = Inr k"
    by (simp add: example_snapshot_def data_a_def key_a_def)
  from simulation_reports_execution [OF example_recording example_resources example_xdr_ok keyed] example_changes
  show ?thesis by fastforce
qed

theorem rent_of_extracted_changes_witness:
  "\<exists>changes. extract_rent_changes changes = [] \<and> List.map_filter full_rent_change changes \<noteq> [] \<and>
     (\<forall>c seq. compute_rent_fee div_up (List.map_filter full_rent_change changes) c seq =
       compute_rent_fee div_up [] c seq)"
proof -
  let ?c = "no_change\<lparr>ec_old_entry_size := 8, ec_encoded_new_value := Some [1, 2],
      ec_ttl_change := Some \<lparr>lc_key_hash = 0, lc_durability = Temporary, lc_old_live_until = 7,
        lc_new_live_until = 7\<rparr>\<rparr>"
  have "extract_rent_changes [?c] = []"
    by (simp add: extract_rent_changes_def List.map_filter_def rent_change_of_def no_change_def)
  moreover have "List.map_filter full_rent_change [?c] \<noteq> []"
    by (simp add: List.map_filter_def full_rent_change_def no_change_def)
  moreover note rent_of_extracted_changes [OF ceiling_division_div_up, of "[?c]"]
  ultimately show ?thesis by metis
qed








end
