(* ===== verification/Host_Call.thy ===== *)
theory Host_Call
  imports Host_Auth Budget
begin

text \<open>
  Calls of contracts (\<open>host/frame.rs\<close>, \<open>host/lifecycle.rs\<close>, and the call functions of \<open>host.rs\<close>): the
  rules of re-entry, the dispatch to Wasm and to the built-in contract, constructors, \<open>__check_auth\<close>, and the host
  functions a transaction can invoke. The Wasm machine is a parameter: what a contract function does is a tree of
  the host functions it calls, which may call contracts in turn. A host function that fails traps the machine, so no
  tree goes on from an error.
\<close>

section \<open>Parameters of a call\<close>

datatype reentry_mode = Prohibited | SelfAllowed | Allowed

record call_params =
  cp_reentry_mode :: reentry_mode
  cp_internal_host_call :: bool
  cp_treat_missing_function_as_noop :: bool

definition default_external_call :: call_params where
  "default_external_call =
     \<lparr>cp_reentry_mode = Prohibited, cp_internal_host_call = False, cp_treat_missing_function_as_noop = False\<rparr>"

definition default_internal_call :: call_params where
  "default_internal_call =
     \<lparr>cp_reentry_mode = Prohibited, cp_internal_host_call = True, cp_treat_missing_function_as_noop = False\<rparr>"

definition RESERVED_CONTRACT_FN_PREFIX :: symbol where "RESERVED_CONTRACT_FN_PREFIX = ''__''"

text \<open>The values contracts return can be errors.\<close>

datatype call_value = Val sc_val | ErrorVal error

fun as_error :: "call_value \<Rightarrow> error option" where
  "as_error (Val _) = None"
| "as_error (ErrorVal e) = Some e"

fun is_contract_error :: "error \<Rightarrow> bool" where
  "is_contract_error (ContractErr _) = True"
| "is_contract_error _ = False"

section \<open>Contract code\<close>

type_synonym 'v caller = "call_params \<Rightarrow> hash \<Rightarrow> symbol \<Rightarrow> sc_val list \<Rightarrow> ('v, call_value) body"

text \<open>A host function is given the way to call contracts.\<close>

datatype 'v code =
    Return call_value
  | Trap error
  | HostFn "'v caller \<Rightarrow> ('v, call_value) body" "call_value \<Rightarrow> 'v code"

primrec run_code :: "'v caller \<Rightarrow> 'v code \<Rightarrow> ('v, call_value) body" where
  "run_code call (Return v) = (\<lambda>h. (Inr v, h))"
| "run_code call (Trap e) = (\<lambda>h. (Inl e, h))"
| "run_code call (HostFn f k) = and_then (f call) (\<lambda>v. run_code call (k v))"

text \<open>
  \<open>cw_cache\<close> is the cache of parsed modules, which there is in enforcing mode only; \<open>cw_link\<close> instantiates the machine for a
  contract and returns the protocol version of its code; \<open>cw_asset_bytes\<close> and \<open>cw_contexts\<close> are conversions to values.
\<close>

record 'v call_world =
  cw_cache :: "(hash \<Rightarrow> bool) option"
  cw_link :: "hash \<Rightarrow> hash \<Rightarrow> error + u32"
  cw_wasm :: "hash \<Rightarrow> hash \<Rightarrow> symbol \<Rightarrow> sc_val list \<Rightarrow> bool \<Rightarrow> 'v code"
  cw_sac :: "hash \<Rightarrow> symbol \<Rightarrow> sc_val list \<Rightarrow> 'v code"
  cw_asset_bytes :: "hash \<Rightarrow> sc_val"
  cw_contexts :: "authorization_context list \<Rightarrow> sc_val"

section \<open>Dispatch\<close>

text \<open>A cached module is used only while the storage has its entry.\<close>

definition instantiate_vm :: "'v call_world \<Rightarrow> hash \<Rightarrow> hash \<Rightarrow> ('v, u32) host_op" where
  "instantiate_vm w cid wasm_hash =
     bind_op (case cw_cache w of
                None \<Rightarrow> ret False
              | Some cached \<Rightarrow> bind_op (wasm_exists wasm_hash) (\<lambda>present. ret (present \<and> cached wasm_hash))) (\<lambda>hit.
     if hit then of_result (cw_link w cid wasm_hash)
     else bind_op (retrieve_wasm_from_storage wasm_hash) (\<lambda>code. of_result (cw_link w cid code)))"

definition get_contract_protocol_version :: "'v call_world \<Rightarrow> hash \<Rightarrow> ('v, u32) host_op" where
  "get_contract_protocol_version w cid =
     bind_op (retrieve_contract_instance_from_storage (contract_instance_ledger_key cid)) (\<lambda>inst.
     case inst_executable inst of
       WasmExec wasm_hash \<Rightarrow> instantiate_vm w cid wasm_hash
     | StellarAssetExec \<Rightarrow> reads (\<lambda>h. protocol_version (h_ledger h)))"

definition call_frame :: "'v frame \<Rightarrow> ('v, call_value) body \<Rightarrow> ('v, call_value) body" where
  "call_frame = with_frame (unat DEFAULT_HOST_DEPTH_LIMIT) as_error is_contract_error"

definition call_contract_fn ::
  "'v call_world \<Rightarrow> ('v code \<Rightarrow> ('v, call_value) body) \<Rightarrow> hash \<Rightarrow> symbol \<Rightarrow> sc_val list \<Rightarrow> bool \<Rightarrow>
   ('v, call_value) body" where
  "call_contract_fn w run cid func args noop =
     and_then (lift_op (retrieve_contract_instance_from_storage (contract_instance_ledger_key cid))) (\<lambda>inst.
     case inst_executable inst of
       WasmExec wasm_hash \<Rightarrow>
         and_then (lift_op (instantiate_vm w cid wasm_hash)) (\<lambda>_.
         call_frame (ContractVM cid func args inst) (run (cw_wasm w cid wasm_hash func args noop)))
     | StellarAssetExec \<Rightarrow>
         call_frame (StellarAssetContract cid func args inst) (run (cw_sac w cid func args)))"

section \<open>Re-entry\<close>

definition contract_stack :: "'v host \<Rightarrow> hash list" where
  "contract_stack h = List.map_filter (\<lambda>c. contract_id (ctx_frame c)) (h_stack h)"

fun position :: "'a \<Rightarrow> 'a list \<Rightarrow> nat option" where
  "position x [] = None"
| "position x (y # ys) = (if y = x then Some 0 else map_option Suc (position x ys))"

definition reentry_allowed :: "reentry_mode \<Rightarrow> nat option \<Rightarrow> bool" where
  "reentry_allowed mode distance =
     (case (mode, distance) of
        (_, None) \<Rightarrow> True
      | (Allowed, _) \<Rightarrow> True
      | (SelfAllowed, Some n) \<Rightarrow> n = 0
      | (Prohibited, Some _) \<Rightarrow> False)"

definition call_n_internal ::
  "'v call_world \<Rightarrow> ('v code \<Rightarrow> ('v, call_value) body) \<Rightarrow> 'v caller" where
  "call_n_internal w run p cid func args h =
     (if \<not> cp_internal_host_call p \<and> take (length RESERVED_CONTRACT_FN_PREFIX) func = RESERVED_CONTRACT_FN_PREFIX
      then (Inl (HostErr EContext InvalidAction), h)
      else if cp_reentry_mode p \<noteq> Allowed \<and>
        \<not> reentry_allowed (cp_reentry_mode p) (position cid (contract_stack h))
      then (Inl (HostErr EContext InvalidAction), h)
      else call_contract_fn w run cid func args (cp_treat_missing_function_as_noop p) h)"

text \<open>
  Calls that nest at most \<open>n\<close> deep. No call is made below the depth limit, so fuel for it is enough
  (\<open>call_fuel_enough\<close>).
\<close>

primrec call_n :: "'v call_world \<Rightarrow> nat \<Rightarrow> 'v caller" where
  "call_n w 0 = call_n_internal w (\<lambda>_ h. (Inl (HostErr EContext ExceededLimit), h))"
| "call_n w (Suc n) = call_n_internal w (run_code (call_n w n))"

definition contract_call :: "'v call_world \<Rightarrow> 'v caller" where
  "contract_call w = call_n w (unat DEFAULT_HOST_DEPTH_LIMIT)"

section \<open>Host functions that call\<close>

definition call_fn :: "'v caller \<Rightarrow> address \<Rightarrow> symbol \<Rightarrow> sc_val list \<Rightarrow> ('v, call_value) body" where
  "call_fn call contract func args h =
     (case contract_id_from_scaddress contract of
        Inl e \<Rightarrow> (Inl e, h)
      | Inr cid \<Rightarrow> call default_external_call cid func args h)"

text \<open>What a failed call gives to the caller of \<open>try_call\<close>.\<close>

definition recovered :: "error \<Rightarrow> error + call_value" where
  "recovered e =
     (if is_recoverable e
      then Inr (ErrorVal (if is_contract_error e then e else HostErr EContext InvalidAction))
      else Inl e)"

definition try_call_fn :: "'v caller \<Rightarrow> address \<Rightarrow> symbol \<Rightarrow> sc_val list \<Rightarrow> ('v, call_value) body" where
  "try_call_fn call contract func args h =
     (case contract_id_from_scaddress contract of
        Inl e \<Rightarrow> (Inl e, h)
      | Inr cid \<Rightarrow>
          (case call default_external_call cid func args h of
             (Inr v, h') \<Rightarrow> (Inr v, h')
           | (Inl e, h') \<Rightarrow> (recovered e, h')))"

definition CONSTRUCTOR_SUPPORT_PROTOCOL :: u32 where "CONSTRUCTOR_SUPPORT_PROTOCOL = 22"

definition CONSTRUCTOR_FUNCTION_NAME :: symbol where "CONSTRUCTOR_FUNCTION_NAME = ''__constructor''"

definition call_constructor :: "'v call_world \<Rightarrow> 'v caller \<Rightarrow> hash \<Rightarrow> sc_val list \<Rightarrow> ('v, unit) body" where
  "call_constructor w call cid args =
     and_then (lift_op (get_contract_protocol_version w cid)) (\<lambda>proto.
     if proto < CONSTRUCTOR_SUPPORT_PROTOCOL then
       (\<lambda>h. (if args = [] then Inr () else Inl (HostErr EContext InvalidAction), h))
     else (\<lambda>h.
       case call \<lparr>cp_reentry_mode = Prohibited, cp_internal_host_call = True,
                   cp_treat_missing_function_as_noop = (args = [])\<rparr>
                 cid CONSTRUCTOR_FUNCTION_NAME args h of
         (Inl e, h') \<Rightarrow> (Inl (if is_recoverable e then HostErr EContext InvalidAction else e), h')
       | (Inr v, h') \<Rightarrow>
           (if v = Val VoidV then Inr () else Inl (HostErr EValue UnexpectedType), h')))"

definition maybe_initialize_stellar_asset_contract ::
  "'v call_world \<Rightarrow> 'v caller \<Rightarrow> hash \<Rightarrow> contract_id_preimage \<Rightarrow> ('v, unit) body" where
  "maybe_initialize_stellar_asset_contract w call cid preimage =
     (case preimage of
        PreimageAsset asset \<Rightarrow>
          and_then (call default_external_call cid ''init_asset'' [cw_asset_bytes w asset]) (\<lambda>_ h. (Inr (), h))
      | PreimageAddress _ _ \<Rightarrow> (\<lambda>h. (Inr (), h)))"

definition initialize_contract :: "'v call_world \<Rightarrow> 'v caller \<Rightarrow> hash \<Rightarrow> create_contract_args \<Rightarrow> ('v, unit) body" where
  "initialize_contract w call cid args =
     and_then (maybe_initialize_stellar_asset_contract w call cid (cca_preimage args)) (\<lambda>_.
     case cca_executable args of
       WasmExec _ \<Rightarrow> call_constructor w call cid (cca_constructor_args args)
     | StellarAssetExec \<Rightarrow> (\<lambda>h. (Inr (), h)))"

definition ACCOUNT_CONTRACT_CHECK_AUTH_FN_NAME :: symbol where
  "ACCOUNT_CONTRACT_CHECK_AUTH_FN_NAME = ''__check_auth''"

text \<open>\<open>__check_auth\<close> of an account contract, which may be the contract that is running.\<close>

definition call_check_auth ::
  "'v call_world \<Rightarrow> 'v caller \<Rightarrow> hash \<Rightarrow> hash \<Rightarrow> sc_val \<Rightarrow> authorization_context list \<Rightarrow> ('v, unit) body" where
  "call_check_auth w call account payload signature contexts =
     and_then (call \<lparr>cp_reentry_mode = SelfAllowed, cp_internal_host_call = True,
                      cp_treat_missing_function_as_noop = False\<rparr>
                account ACCOUNT_CONTRACT_CHECK_AUTH_FN_NAME [BytesV payload, signature, cw_contexts w contexts])
       (\<lambda>v h. (if v = Val VoidV then Inr () else Inl ConversionError, h))"

section \<open>Invocation of a host function\<close>

datatype host_function =
    InvokeContract address symbol "sc_val list"
  | CreateContract create_contract_args
  | UploadContractWasm "8 word list"

definition invoke_function_and_return_val ::
  "'v call_world \<Rightarrow> 'v auth_world \<Rightarrow> (contract_id_preimage \<Rightarrow> hash) \<Rightarrow> (8 word list \<Rightarrow> ('v, hash) body) \<Rightarrow>
   64 word \<Rightarrow> u32 \<Rightarrow> 'v caller \<Rightarrow> host_function \<Rightarrow> ('v, call_value) body" where
  "invoke_function_and_return_val w world contract_id_of upload nonce handle call hf =
     call_frame HostFunctionFrame
       (case hf of
          InvokeContract contract func args \<Rightarrow>
            (case contract of
               ContractAddr cid \<Rightarrow> call default_external_call cid func args
             | AccountAddr _ \<Rightarrow> (\<lambda>h. (Inl (HostErr EValue UnexpectedType), h)))
        | CreateContract args \<Rightarrow>
            and_then (create_contract_internal world contract_id_of (initialize_contract w call) nonce handle
                (case cca_preimage args of PreimageAddress a _ \<Rightarrow> Some a | PreimageAsset _ \<Rightarrow> None) args)
              (\<lambda>a h. (Inr (Val (AddressV a)), h))
        | UploadContractWasm wasm \<Rightarrow> and_then (upload wasm) (\<lambda>code h. (Inr (Val (BytesV code)), h)))"

end
