(* ===== verification/Host_Call_Inv.thy ===== *)
theory Host_Call_Inv
  imports Host_Call Host_Auth_Nested
begin

text \<open>
  Lemmas on calls of contracts. Code whose host functions are well-nested, provided the calls they make are, is
  well-nested itself at any depth, so that the lemmas on frames hold of it; a call looks only at its own frames and at
  the calls it makes, which the two arguments on re-entry and on the depth of calls are instances of.
\<close>

section \<open>Well-nested calls\<close>

primrec code_all :: "(('v caller \<Rightarrow> ('v, call_value) body) \<Rightarrow> bool) \<Rightarrow> 'v code \<Rightarrow> bool" where
  "code_all P (Return v) \<longleftrightarrow> True"
| "code_all P (Trap e) \<longleftrightarrow> True"
| "code_all P (HostFn f k) \<longleftrightarrow> P f \<and> (\<forall>v. code_all P (k v))"

text \<open>Every host function that code of the world may call.\<close>

definition world_all :: "(('v caller \<Rightarrow> ('v, call_value) body) \<Rightarrow> bool) \<Rightarrow> 'v call_world \<Rightarrow> bool" where
  "world_all P w \<longleftrightarrow>
     (\<forall>cid wasm_hash func args noop. code_all P (cw_wasm w cid wasm_hash func args noop)) \<and>
     (\<forall>cid func args. code_all P (cw_sac w cid func args))"

definition nested_caller :: "'v caller \<Rightarrow> bool" where
  "nested_caller call \<longleftrightarrow> (\<forall>p cid func args. well_nested (call p cid func args))"

definition fn_nested :: "('v caller \<Rightarrow> ('v, call_value) body) \<Rightarrow> bool" where
  "fn_nested f \<longleftrightarrow> (\<forall>call. nested_caller call \<longrightarrow> well_nested (f call))"

lemma run_code_nested:
  assumes "nested_caller call" and "code_all fn_nested c"
  shows "well_nested (run_code call c)"
  using assms(2)
  by (induction c) (use assms(1) in \<open>simp_all add: returns_nested and_then_nested fn_nested_def\<close>)

text \<open>Looking the contract up and instantiating the machine touch the storage alone.\<close>

lemma retrieve_instance_storage: "storage_only (retrieve_contract_instance_from_storage key)"
  unfolding retrieve_contract_instance_from_storage_def
  by (intro storage_only_intros) (auto split: ledger_entry.split stored.split intro: storage_only_intros)

lemma retrieve_wasm_storage: "storage_only (retrieve_wasm_from_storage wasm_hash)"
  unfolding retrieve_wasm_from_storage_def
  by (intro storage_only_intros) (auto split: ledger_entry.split intro: storage_only_intros)

lemma instantiate_storage: "storage_only (instantiate_vm w cid wasm_hash)"
  unfolding instantiate_vm_def wasm_exists_def
  by (intro storage_only_intros retrieve_wasm_storage) (auto split: option.split intro!: storage_only_intros)

lemma call_contract_nested:
  assumes "\<And>c. code_all fn_nested c \<Longrightarrow> well_nested (run c)" and "world_all fn_nested w"
  shows "well_nested (call_contract_fn w run cid func args noop)"
  unfolding call_contract_fn_def
proof (intro and_then_nested storage_only_nested retrieve_instance_storage)
  fix inst
  have frames: "well_nested (call_frame frame (run c))" if "code_all fn_nested c" "frame_call frame \<noteq> None"
    for frame c
    unfolding call_frame_def using with_frame_nested [OF assms(1) [OF that(1)] that(2)] .
  show "well_nested (case inst_executable inst of
      WasmExec wasm_hash \<Rightarrow>
        and_then (lift_op (instantiate_vm w cid wasm_hash))
          (\<lambda>_. call_frame (ContractVM cid func args inst) (run (cw_wasm w cid wasm_hash func args noop)))
    | StellarAssetExec \<Rightarrow> call_frame (StellarAssetContract cid func args inst) (run (cw_sac w cid func args)))"
    using assms(2)
    by (auto simp: world_all_def split: executable.split
        intro!: and_then_nested storage_only_nested instantiate_storage frames)
qed

lemma call_internal_nested:
  assumes "\<And>c. code_all fn_nested c \<Longrightarrow> well_nested (run c)" and "world_all fn_nested w"
  shows "nested_caller (call_n_internal w run)"
  unfolding nested_caller_def well_nested_iff
proof (intro allI impI)
  fix p :: call_params and cid func args and h :: "'a host"
  assume h: "ready h"
  have "well_nested (call_contract_fn w run cid func args (cp_treat_missing_function_as_noop p))"
    by (rule call_contract_nested [OF assms])
  with h show "nests h (snd (call_n_internal w run p cid func args h))"
    by (simp add: call_n_internal_def nests_refl well_nested_iff)
qed

lemma call_n_nested:
  assumes "world_all fn_nested w"
  shows "nested_caller (call_n w n)"
proof (induction n)
  case 0
  show ?case unfolding call_n.simps by (rule call_internal_nested [OF returns_nested assms])
next
  case (Suc n)
  show ?case unfolding call_n.simps by (rule call_internal_nested [OF run_code_nested [OF Suc] assms])
qed

text \<open>The host functions that call contracts are well-nested.\<close>

lemma call_fn_nested: "fn_nested (\<lambda>call. call_fn call a func args)"
  by (auto simp: fn_nested_def nested_caller_def call_fn_def well_nested_iff nests_refl split: sum.split)

lemma try_call_fn_nested: "fn_nested (\<lambda>call. try_call_fn call a func args)"
  unfolding fn_nested_def nested_caller_def well_nested_iff
proof (intro allI impI)
  fix call :: "'a caller" and h :: "'a host"
  assume *: "\<forall>p cid func args h. ready h \<longrightarrow> nests h (snd (call p cid func args h))" and h: "ready h"
  show "nests h (snd (try_call_fn call a func args h))"
  proof (cases "contract_id_from_scaddress a")
    case (Inl e)
    with h show ?thesis by (simp add: try_call_fn_def nests_refl)
  next
    case (Inr cid)
    obtain r h' where "call default_external_call cid func args h = (r, h')"
      by (cases "call default_external_call cid func args h")
    with * h have "nests h h'" by (metis snd_conv)
    with Inr \<open>call _ _ _ _ _ = _\<close> show ?thesis by (simp add: try_call_fn_def split: sum.split)
  qed
qed

lemma storage_fn_nested: "storage_only f \<Longrightarrow> fn_nested (\<lambda>_. lift_op f)"
  by (simp add: fn_nested_def storage_only_nested)

lemma check_auth_nested:
  assumes "nested_caller call"
  shows "well_nested (call_check_auth w call account payload signature contexts)"
  unfolding call_check_auth_def
  by (intro and_then_nested) (use assms in \<open>simp_all add: nested_caller_def returns_nested\<close>)

text \<open>A request for authorization, whose accounts are checked by calls.\<close>

lemma require_auth_fn_nested:
  "fn_nested (\<lambda>call. and_then
     (am_require_auth (world\<lparr>aw_check_auth := call_check_auth w call\<rparr>) nonce handle a args)
     (\<lambda>_ h. (Inr (Val VoidV), h)))"
  unfolding fn_nested_def
  by (intro allI impI and_then_nested am_require_auth_nested returns_nested)
    (simp add: checks_nested_def check_auth_nested)


section \<open>Failed calls\<close>

text \<open>Operations that change nothing in enforcing mode.\<close>

definition reads_only :: "('v, 'a) host_op \<Rightarrow> bool" where
  "reads_only f \<longleftrightarrow>
     (\<forall>h a h'. st_mode (h_storage h) = Enforcing \<longrightarrow> f h = Inr (a, h') \<longrightarrow> h' = h)"

named_theorems reads_only_intros

lemma reads_only_bind [reads_only_intros]:
  "reads_only f \<Longrightarrow> (\<And>a. reads_only (g a)) \<Longrightarrow> reads_only (bind_op f g)"
  by (fastforce simp: reads_only_def bind_op_Inr)

lemma reads_only_pure [reads_only_intros]:
  "reads_only (ret a)" "reads_only (fail e)" "reads_only (of_result r)" "reads_only (reads g)"
  by (auto simp: reads_only_def of_result_Inr ret_def fail_def reads_def)

lemma read_enforcing:
  assumes "st_mode s = Enforcing" and "try_get_full k s = Inr (e, t)"
  shows "t = s"
proof -
  have "t' = s" if "access k ReadOnly s = Inr (u, t')" for u t'
    using assms(1) that by (simp add: access_def split: sum.splits)
  moreover have "t' = s" if "read_through k s = Inr (u, t')" for u t'
    using assms(1) that by (simp add: read_through_def)
  ultimately have prep: "t' = s" if "prepare_read_only_access k s = Inr (u, t')" for u t'
    using that by (auto simp: prepare_read_only_access_def then_op_Inr)
  obtain u t1 r where "prepare_read_only_access k s = Inr (u, t1)"
    and "(case r of None \<Rightarrow> fail (HostErr EStorage InternalError) | Some p \<Rightarrow> ret p) t1 = Inr (e, t)"
    using assms(2) unfolding try_get_full_def then_op_Inr bind_op_Inr of_result_Inr by blast
  with prep show ?thesis by (auto simp: ret_def fail_def split: option.splits)
qed

lemma reads_only_get [reads_only_intros]: "reads_only (on_storage (get_with_host k))"
  by (auto simp: reads_only_def on_storage_Inr get_with_host_def bind_op_Inr some_or_missing_def ok_or_Inr ret_def
      dest: read_enforcing)

lemma reads_only_has [reads_only_intros]: "reads_only (on_storage (has_with_host k))"
  by (auto simp: reads_only_def on_storage_Inr has_with_host_def bind_op_Inr ret_def dest: read_enforcing)

lemma retrieve_instance_reads: "reads_only (retrieve_contract_instance_from_storage key)"
  unfolding retrieve_contract_instance_from_storage_def
  by (intro reads_only_intros) (auto split: ledger_entry.split stored.split intro: reads_only_intros)

lemma instantiate_reads: "reads_only (instantiate_vm w cid wasm_hash)"
proof -
  have "reads_only (retrieve_wasm_from_storage code)" for code
    unfolding retrieve_wasm_from_storage_def
    by (intro reads_only_intros) (auto split: ledger_entry.split intro: reads_only_intros)
  moreover have "reads_only (if b then f else g)" if "reads_only f" "reads_only g" for b and f g :: "('v, 'a) host_op"
    using that by simp
  ultimately show ?thesis
    unfolding instantiate_vm_def wasm_exists_def
    by (auto split: option.split intro!: reads_only_intros)
qed

text \<open>What a failed call leaves of a host in enforcing mode.\<close>

definition undone :: "'v host \<Rightarrow> 'v host \<Rightarrow> bool" where
  "undone h h' \<longleftrightarrow>
     h_stack h' = h_stack h \<and> h_auth h' = h_auth h \<and>
     st_map (h_storage h') = st_map (h_storage h) \<and> (\<exists>ext. h_events h' = h_events h @ failed ext)"

lemma undone_refl: "undone h h"
  by (auto simp: undone_def failed_def intro: exI [of _ "[]"])

lemma live_settled:
  assumes "settled m m"
  shows "am_after_failure m = m"
proof -
  have "length (dropWhile in_scope (am_invokers m)) = 0"
    using assms arg_cong [OF takeWhile_dropWhile_id [of in_scope "am_invokers m"], of length]
    by (simp add: settled_def del: takeWhile_dropWhile_id)
  then have "live (am_invokers m) = am_invokers m"
    using takeWhile_dropWhile_id [of in_scope "am_invokers m"] by simp
  then show ?thesis by (simp add: am_after_failure_def)
qed

lemma frame_undone:
  assumes "well_nested f" and "ready h" and "frame_call frame \<noteq> None" and "call_frame frame f h = (Inl e, h')"
  shows "undone h h'"
proof (cases "length (h_stack h) < unat DEFAULT_HOST_DEPTH_LIMIT")
  case False
  with assms(4) show ?thesis by (simp add: call_frame_def with_frame_def undone_refl)
next
  case True
  have "may_enter (frame_call frame) (h_auth h)" using assms(2,3) unfolding ready_def may_enter_def by blast
  note w = with_frame_failed [OF assms(1) True this assms(4) [unfolded call_frame_def]]
  have "am_after_failure (h_auth h) = h_auth h" using assms(2) by (simp add: ready_def live_settled)
  with w show ?thesis by (auto simp: undone_def)
qed

lemma and_then_reads:
  assumes "and_then (lift_op f) g h = (Inl e, h')" and "reads_only f" and "st_mode (h_storage h) = Enforcing"
    and "\<And>a. g a h = (Inl e, h') \<Longrightarrow> undone h h'"
  shows "undone h h'"
proof (cases "f h")
  case (Inl e')
  with assms(1) show ?thesis by (simp add: and_then_def lift_op_def undone_refl)
next
  case (Inr r)
  then have "f h = Inr (fst r, snd r)" by simp
  with assms(2,3) have "snd r = h" unfolding reads_only_def by blast
  then have "lift_op f h = (Inr (fst r), h)" by (cases r) (simp add: lift_op_def Inr)
  with assms(1) have "g (fst r) h = (Inl e, h')" by (simp add: and_then_def)
  then show ?thesis by (rule assms(4))
qed

lemma call_internal_undone:
  assumes run: "\<And>c. code_all fn_nested c \<Longrightarrow> well_nested (run c)" and w: "world_all fn_nested w"
    and h: "ready h" "st_mode (h_storage h) = Enforcing"
    and failed: "call_n_internal w run p cid func args h = (Inl e, h')"
  shows "undone h h'"
proof (cases "call_contract_fn w run cid func args (cp_treat_missing_function_as_noop p) h = (Inl e, h')")
  case False
  with failed show ?thesis by (auto simp: call_n_internal_def undone_refl split: if_splits)
next
  case True
  show ?thesis
  proof (rule and_then_reads [OF True [unfolded call_contract_fn_def] retrieve_instance_reads h(2)])
    fix inst
    assume d: "(case inst_executable inst of
        WasmExec wasm_hash \<Rightarrow>
          and_then (lift_op (instantiate_vm w cid wasm_hash)) (\<lambda>_.
            call_frame (ContractVM cid func args inst)
              (run (cw_wasm w cid wasm_hash func args (cp_treat_missing_function_as_noop p))))
      | StellarAssetExec \<Rightarrow> call_frame (StellarAssetContract cid func args inst) (run (cw_sac w cid func args))) h =
      (Inl e, h')"
    show "undone h h'"
    proof (cases "inst_executable inst")
      case (WasmExec wasm_hash)
      with d have "and_then (lift_op (instantiate_vm w cid wasm_hash)) (\<lambda>_.
            call_frame (ContractVM cid func args inst)
              (run (cw_wasm w cid wasm_hash func args (cp_treat_missing_function_as_noop p)))) h = (Inl e, h')"
        by simp
      then show ?thesis
        by (rule and_then_reads [OF _ instantiate_reads h(2)])
          (rule frame_undone [OF run h(1)], use w in \<open>auto simp: world_all_def\<close>)
    next
      case StellarAssetExec
      with d have "call_frame (StellarAssetContract cid func args inst) (run (cw_sac w cid func args)) h = (Inl e, h')"
        by simp
      then show ?thesis
        by (rule frame_undone [OF run h(1), rotated 2]) (use w in \<open>auto simp: world_all_def\<close>)
    qed
  qed
qed

lemma call_n_undone:
  assumes "world_all fn_nested w" and "ready h" and "st_mode (h_storage h) = Enforcing"
    and "call_n w n p cid func args h = (Inl e, h')"
  shows "undone h h'"
proof (cases n)
  case 0
  show ?thesis
    by (rule call_internal_undone [OF returns_nested assms(1-3) assms(4) [unfolded 0 call_n.simps]])
next
  case (Suc m)
  show ?thesis
    by (rule call_internal_undone [OF run_code_nested [OF call_n_nested [OF assms(1)]] assms(1-3)
          assms(4) [unfolded Suc call_n.simps]])
qed


section \<open>What a call depends on\<close>

definition frames :: "'v host \<Rightarrow> 'v frame list" where
  "frames h = map ctx_frame (h_stack h)"

lemma frames_simps [simp]:
  "frames (h\<lparr>h_storage := s\<rparr>) = frames h" "frames (h\<lparr>h_auth := m\<rparr>) = frames h"
  "frames (h\<lparr>h_events := evs\<rparr>) = frames h" "length (frames h) = length (h_stack h)"
  by (simp_all add: frames_def)

lemma contract_stack_frames: "contract_stack h = List.map_filter contract_id (frames h)"
  by (simp add: contract_stack_def frames_def List.map_filter_def comp_def filter_map)

text \<open>Callers that do the same, and keep the frames, wherever the frames satisfy \<open>G\<close>.\<close>

definition agree_on :: "('v frame list \<Rightarrow> bool) \<Rightarrow> 'v caller \<Rightarrow> 'v caller \<Rightarrow> bool" where
  "agree_on G call call' \<longleftrightarrow>
     (\<forall>p cid func args h. cp_reentry_mode p \<noteq> Allowed \<longrightarrow> G (frames h) \<longrightarrow>
        call p cid func args h = call' p cid func args h \<and> frames (snd (call p cid func args h)) = frames h)"

text \<open>
  A host function that has no other way to the contracts than the caller it is given, which it uses without
  unlimited re-entry, and keeps the frames.
\<close>

definition fn_respects :: "('v caller \<Rightarrow> ('v, call_value) body) \<Rightarrow> bool" where
  "fn_respects f \<longleftrightarrow>
     (\<forall>G call call'. agree_on G call call' \<longrightarrow>
        (\<forall>h. G (frames h) \<longrightarrow> f call h = f call' h \<and> frames (snd (f call h)) = frames h))"

lemma frame_agree:
  assumes "\<And>h1. length (h_stack h) < unat DEFAULT_HOST_DEPTH_LIMIT \<Longrightarrow> frames h1 = frame # frames h \<Longrightarrow>
      f h1 = f' h1 \<and> frames (snd (f h1)) = frames h1"
  shows "call_frame frame f h = call_frame frame f' h \<and> frames (snd (call_frame frame f h)) = frames h"
proof (cases "length (h_stack h) < unat DEFAULT_HOST_DEPTH_LIMIT")
  case False
  then show ?thesis by (simp add: call_frame_def with_frame_def)
next
  case True
  obtain rp h1 where push: "push_context \<lparr>ctx_frame = frame, ctx_storage = None\<rparr> h = Inr (rp, h1)"
    and h1: "frames h1 = frame # frames h"
    by (cases "am_push_frame (frame_call frame) (h_auth h)") (simp add: push_context_def frames_def)
  note body = assms [OF True h1]
  obtain res0 h2 where f: "f h1 = (res0, h2)" by (cases "f h1")
  with body h1 have f': "f' h1 = (res0, h2)" and h2: "frames h2 = frame # frames h" by simp_all
  have same: "call_frame frame f h = call_frame frame f' h"
    by (simp add: call_frame_def with_frame_def Let_def push f f')
  have pop: "frames (snd (pop_context orp h3)) = frames h" if "frames h3 = frame # frames h" for orp h3
    using that by (auto simp: pop_context_def frames_def Let_def map_tl split: option.splits sum.splits prod.splits list.splits)
  have keep: "frames h3 = frame # frames h" if "persist_instance_storage h2 = Inr (u, h3)" for u h3
    using persist_frames [OF that] h2 by (simp add: same_frames_def frames_def)
  have "frames (snd (call_frame frame f h)) = frames h"
    using pop [OF h2] pop [OF keep]
    by (auto simp: call_frame_def with_frame_def Let_def push f split: sum.splits prod.splits)
      (metis snd_conv)+
  with same show ?thesis by blast
qed


lemma storage_op_frames:
  assumes "storage_only f" and "f h = Inr (a, h')"
  shows "frames h' = frames h"
  using assms unfolding storage_only_def by (metis frames_simps(1))

lemma lift_agree:
  assumes "storage_only f"
    and "\<And>a h'. frames h' = frames h \<Longrightarrow> g a h' = g' a h' \<and> frames (snd (g a h')) = frames h"
  shows "and_then (lift_op f) g h = and_then (lift_op f) g' h \<and>
    frames (snd (and_then (lift_op f) g h)) = frames h"
proof (cases "f h")
  case (Inl e)
  then show ?thesis by (simp add: and_then_def lift_op_def)
next
  case (Inr r)
  obtain a h' where r: "r = (a, h')" by (cases r)
  with Inr storage_op_frames [OF assms(1)] have "frames h' = frames h" by blast
  from assms(2) [OF this, of a] have "g a h' = g' a h'" "frames (snd (g a h')) = frames h" by blast+
  with Inr r show ?thesis by (simp add: and_then_def lift_op_def)
qed

text \<open>
  Two ways to run the code of two worlds that agree on what runs in the frames of a call agree on the call;
  \<open>allowed\<close> is what the rules of re-entry have established when the frame is entered.
\<close>

lemma call_internal_agree:
  assumes same: "cw_cache w' = cw_cache w" "cw_link w' = cw_link w"
    and mode: "cp_reentry_mode p \<noteq> Allowed"
    and wasm: "\<And>wh noop. R (cw_wasm w cid wh func args noop) (cw_wasm w' cid wh func args noop)"
    and sac: "R (cw_sac w cid func args) (cw_sac w' cid func args)"
    and body: "\<And>frame c c' h1. R c c' \<Longrightarrow> contract_id frame = Some cid \<Longrightarrow>
      reentry_allowed (cp_reentry_mode p) (position cid (contract_stack h)) \<Longrightarrow>
      length (h_stack h) < unat DEFAULT_HOST_DEPTH_LIMIT \<Longrightarrow> frames h1 = frame # frames h \<Longrightarrow>
      run c h1 = run' c' h1 \<and> frames (snd (run c h1)) = frames h1"
  shows "call_n_internal w run p cid func args h = call_n_internal w' run' p cid func args h \<and>
    frames (snd (call_n_internal w run p cid func args h)) = frames h"
proof (cases "reentry_allowed (cp_reentry_mode p) (position cid (contract_stack h))")
  case False
  then show ?thesis by (simp add: call_n_internal_def mode)
next
  case True
  have call: "call_frame frame (run c) h' = call_frame frame (run' c') h' \<and>
      frames (snd (call_frame frame (run c) h')) = frames h"
    if "R c c'" "contract_id frame = Some cid" "frames h' = frames h" for frame c c' h'
  proof -
    have "length (h_stack h') = length (h_stack h)" using that(3) by (metis frames_simps(4))
    then show ?thesis using frame_agree [of h' frame "run c" "run' c'"] body [OF that(1,2) True] that(3) by metis
  qed
  have inst: "instantiate_vm w' cid wh = instantiate_vm w cid wh" for wh
    unfolding instantiate_vm_def same ..
  let ?noop = "cp_treat_missing_function_as_noop p"
  have "call_contract_fn w run cid func args ?noop h = call_contract_fn w' run' cid func args ?noop h \<and>
      frames (snd (call_contract_fn w run cid func args ?noop h)) = frames h"
    unfolding call_contract_fn_def inst
  proof (rule lift_agree [OF retrieve_instance_storage])
    fix i h'
    assume h': "frames h' = frames h"
    show "(case inst_executable i of
        WasmExec wh \<Rightarrow> and_then (lift_op (instantiate_vm w cid wh))
          (\<lambda>_. call_frame (ContractVM cid func args i) (run (cw_wasm w cid wh func args ?noop)))
      | StellarAssetExec \<Rightarrow> call_frame (StellarAssetContract cid func args i) (run (cw_sac w cid func args))) h' =
      (case inst_executable i of
        WasmExec wh \<Rightarrow> and_then (lift_op (instantiate_vm w cid wh))
          (\<lambda>_. call_frame (ContractVM cid func args i) (run' (cw_wasm w' cid wh func args ?noop)))
      | StellarAssetExec \<Rightarrow> call_frame (StellarAssetContract cid func args i) (run' (cw_sac w' cid func args))) h' \<and>
      frames (snd ((case inst_executable i of
        WasmExec wh \<Rightarrow> and_then (lift_op (instantiate_vm w cid wh))
          (\<lambda>_. call_frame (ContractVM cid func args i) (run (cw_wasm w cid wh func args ?noop)))
      | StellarAssetExec \<Rightarrow> call_frame (StellarAssetContract cid func args i) (run (cw_sac w cid func args))) h')) =
      frames h"
    proof (cases "inst_executable i")
      case (WasmExec wh)
      have "and_then (lift_op (instantiate_vm w cid wh))
          (\<lambda>_. call_frame (ContractVM cid func args i) (run (cw_wasm w cid wh func args ?noop))) h' =
        and_then (lift_op (instantiate_vm w cid wh))
          (\<lambda>_. call_frame (ContractVM cid func args i) (run' (cw_wasm w' cid wh func args ?noop))) h' \<and>
        frames (snd (and_then (lift_op (instantiate_vm w cid wh))
          (\<lambda>_. call_frame (ContractVM cid func args i) (run (cw_wasm w cid wh func args ?noop))) h')) = frames h'"
        by (rule lift_agree [OF instantiate_storage]) (metis call [OF wasm] h' contract_id.simps(1))
      then show ?thesis unfolding WasmExec executable.case h' .
    next
      case StellarAssetExec
      show ?thesis unfolding StellarAssetExec executable.case by (rule call [OF sac _ h']) simp
    qed
  qed
  from this [THEN conjunct1] this [THEN conjunct2] show ?thesis by (simp add: call_n_internal_def)
qed

text \<open>Code that does something else wherever the frames do not satisfy \<open>G\<close>.\<close>

primrec guarded ::
  "('v frame list \<Rightarrow> bool) \<Rightarrow> ('v, call_value) body \<Rightarrow> 'v code \<Rightarrow> 'v code" where
  "guarded G other (Return v) = Return v"
| "guarded G other (Trap e) = Trap e"
| "guarded G other (HostFn f k) =
     HostFn (\<lambda>call h. if G (frames h) then f call h else other h) (\<lambda>v. guarded G other (k v))"

lemma run_guarded:
  assumes "agree_on G call call'" and "code_all fn_respects c" and "G (frames h)"
  shows "run_code call' (guarded G other c) h = run_code call c h \<and>
    frames (snd (run_code call c h)) = frames h"
  using assms(2,3)
proof (induction c arbitrary: h)
  case (HostFn f k)
  have f: "f call h = f call' h" "frames (snd (f call h)) = frames h"
    using HostFn.prems assms(1) unfolding fn_respects_def code_all.simps by blast+
  show ?case
  proof (cases "f call h")
    case (Pair r h1)
    then have "frames h1 = frames h" and "f call' h = (r, h1)" using f by simp_all
    then show ?thesis
      using HostFn.IH [of _ h1] HostFn.prems Pair by (cases r) (auto simp: and_then_def)
  qed
qed simp_all

lemma guarded_all: "guarded (\<lambda>_. True) other c = c"
  by (induction c) simp_all

lemma run_agree:
  assumes "agree_on G call call'" and "code_all fn_respects c" and "G (frames h)"
  shows "run_code call c h = run_code call' c h \<and> frames (snd (run_code call c h)) = frames h"
proof -
  have "run_code call' c h = run_code call c h"
    using assms(2,3)
  proof (induction c arbitrary: h)
    case (HostFn f k)
    have f: "f call h = f call' h" "frames (snd (f call h)) = frames h"
      using HostFn.prems assms(1) unfolding fn_respects_def code_all.simps by blast+
    show ?case
    proof (cases "f call h")
      case (Pair r h1)
      then have "frames h1 = frames h" and "f call' h = (r, h1)" using f by simp_all
      then show ?thesis
        using HostFn.IH [of _ h1] HostFn.prems Pair by (cases r) (auto simp: and_then_def)
    qed
  qed simp_all
  with run_guarded [OF assms] show ?thesis by simp
qed


section \<open>Depth\<close>

text \<open>Any fuel for the frames up to the limit gives the same call, which keeps the frames.\<close>

lemma call_depth:
  assumes "world_all fn_respects w" and "cp_reentry_mode p \<noteq> Allowed"
    and "unat DEFAULT_HOST_DEPTH_LIMIT \<le> length (h_stack h) + n"
    and "unat DEFAULT_HOST_DEPTH_LIMIT \<le> length (h_stack h) + m"
  shows "call_n w n p cid func args h = call_n w m p cid func args h \<and>
    frames (snd (call_n w n p cid func args h)) = frames h"
  using assms(2-4)
proof (induction n arbitrary: m p cid func args h)
  case 0
  have "call_n_internal w run p cid func args h = call_n_internal w run' p cid func args h \<and>
      frames (snd (call_n_internal w run p cid func args h)) = frames h" for run run'
    by (rule call_internal_agree [where R = "\<lambda>_ _. True"]) (use 0 in simp_all)
  then show ?case by (cases m) (simp_all only: call_n.simps)
next
  case (Suc n)
  show ?case
  proof (cases m)
    case 0
    with Suc.prems have "unat DEFAULT_HOST_DEPTH_LIMIT \<le> length (h_stack h)" by simp
    then have "call_n_internal w run p cid func args h = call_n_internal w run' p cid func args h \<and>
        frames (snd (call_n_internal w run p cid func args h)) = frames h" for run run'
      by (intro call_internal_agree [where R = "\<lambda>_ _. True"]) (use Suc.prems(1) in simp_all)
    with 0 show ?thesis by (simp only: call_n.simps)
  next
    case (Suc m')
    let ?G = "\<lambda>fs :: 'a frame list. length fs = Suc (length (h_stack h))"
    have agree: "agree_on ?G (call_n w n) (call_n w m')"
      unfolding agree_on_def
    proof (intro allI impI)
      fix p :: call_params and cid func args and h1 :: "'a host"
      assume p: "cp_reentry_mode p \<noteq> Allowed" and h1: "?G (frames h1)"
      from h1 show "call_n w n p cid func args h1 = call_n w m' p cid func args h1 \<and>
          frames (snd (call_n w n p cid func args h1)) = frames h1"
        by (intro Suc.IH p) (use Suc.prems Suc in simp_all)
    qed
    have "call_n_internal w (run_code (call_n w n)) p cid func args h =
        call_n_internal w (run_code (call_n w m')) p cid func args h \<and>
        frames (snd (call_n_internal w (run_code (call_n w n)) p cid func args h)) = frames h"
    proof (rule call_internal_agree [where R = "\<lambda>c c'. c' = c \<and> code_all fn_respects c"])
      fix frame :: "'a frame" and c c' :: "'a code" and h1 :: "'a host"
      assume "c' = c \<and> code_all fn_respects c" and h1: "frames h1 = frame # frames h"
      moreover have "?G (frames h1)" unfolding h1 by simp
      ultimately show "run_code (call_n w n) c h1 = run_code (call_n w m') c' h1 \<and>
          frames (snd (run_code (call_n w n) c h1)) = frames h1"
        using run_agree [OF agree] by blast
    qed (use Suc.prems(1) assms(1) in \<open>simp_all add: world_all_def\<close>)
    then show ?thesis unfolding Suc call_n.simps .
  qed
qed

section \<open>Re-entry\<close>

text \<open>No contract has a frame below that of another one that it has called.\<close>

definition reentry_free :: "'v frame list \<Rightarrow> bool" where
  "reentry_free fs \<longleftrightarrow> distinct (remdups_adj (List.map_filter contract_id fs))"

lemma position_None: "position x xs = None \<longleftrightarrow> x \<notin> set xs"
  by (induction xs) auto

lemma position_hd: "position x xs = Some 0 \<longleftrightarrow> xs \<noteq> [] \<and> hd xs = x"
  by (cases xs) auto

lemma reentry_pushed:
  assumes "reentry_allowed mode (position cid (List.map_filter contract_id fs))" and "mode \<noteq> Allowed"
    and "contract_id frame = Some cid" and "reentry_free fs"
  shows "reentry_free (frame # fs)"
proof -
  let ?ids = "List.map_filter contract_id fs"
  have "cid \<notin> set ?ids \<or> ?ids \<noteq> [] \<and> hd ?ids = cid"
    using assms(1,2) position_None [of cid ?ids] position_hd [of cid ?ids]
    by (auto simp: reentry_allowed_def split: reentry_mode.splits option.splits)
  then have "distinct (remdups_adj (cid # ?ids))"
    using assms(4) by (cases ?ids) (auto simp: reentry_free_def)
  with assms(3) show ?thesis by (simp add: reentry_free_def List.map_filter_simps)
qed

definition guarded_world ::
  "('v frame list \<Rightarrow> bool) \<Rightarrow> ('v, call_value) body \<Rightarrow> 'v call_world \<Rightarrow> 'v call_world" where
  "guarded_world G other w =
     w\<lparr>cw_wasm := (\<lambda>cid wh func args noop. guarded G other (cw_wasm w cid wh func args noop)),
       cw_sac := (\<lambda>cid func args. guarded G other (cw_sac w cid func args))\<rparr>"

lemma call_guarded:
  assumes "world_all fn_respects w" and "cp_reentry_mode p \<noteq> Allowed" and "reentry_free (frames h)"
  shows "call_n w n p cid func args h = call_n (guarded_world reentry_free other w) n p cid func args h \<and>
    frames (snd (call_n w n p cid func args h)) = frames h"
  using assms(2,3)
proof (induction n arbitrary: p cid func args h)
  case 0
  show ?case unfolding call_n.simps
    by (rule call_internal_agree [where R = "\<lambda>_ _. True"]) (use 0 in \<open>simp_all add: guarded_world_def\<close>)
next
  case (Suc n)
  let ?w = "guarded_world reentry_free other w"
  have agree: "agree_on reentry_free (call_n w n) (call_n ?w n)"
    unfolding agree_on_def using Suc.IH by blast
  show ?case
    unfolding call_n.simps
  proof (rule call_internal_agree
      [where R = "\<lambda>c c'. c' = guarded reentry_free other c \<and> code_all fn_respects c"])
    fix frame :: "'a frame" and c c' :: "'a code" and h1 :: "'a host"
    assume c: "c' = guarded reentry_free other c \<and> code_all fn_respects c"
      and frame: "contract_id frame = Some cid"
      and al: "reentry_allowed (cp_reentry_mode p) (position cid (contract_stack h))"
      and h1: "frames h1 = frame # frames h"
    have "reentry_free (frames h1)"
      unfolding h1 using al Suc.prems frame by (intro reentry_pushed) (simp_all add: contract_stack_frames)
    with run_guarded [OF agree] c
    show "run_code (call_n w n) c h1 = run_code (call_n ?w n) c' h1 \<and>
        frames (snd (run_code (call_n w n) c h1)) = frames h1" by metis
  qed (use Suc.prems(1) assms(1) in \<open>simp_all add: world_all_def guarded_world_def\<close>)
qed

section \<open>Host functions that respect the frames\<close>

lemma agree_external:
  assumes "agree_on G call call'" and "G (frames h)"
  shows "call default_external_call cid func args h = call' default_external_call cid func args h"
    and "frames (snd (call' default_external_call cid func args h)) = frames h"
proof -
  have "cp_reentry_mode default_external_call \<noteq> Allowed" by (simp add: default_external_call_def)
  with assms show "call default_external_call cid func args h = call' default_external_call cid func args h"
    and "frames (snd (call' default_external_call cid func args h)) = frames h"
    unfolding agree_on_def by metis+
qed

lemma call_fn_respects: "fn_respects (\<lambda>call. call_fn call a func args)"
  using agree_external by (fastforce simp: fn_respects_def call_fn_def split: sum.split)

lemma try_call_fn_respects: "fn_respects (\<lambda>call. try_call_fn call a func args)"
  unfolding fn_respects_def
proof (intro allI impI)
  fix G and call call' :: "'a caller" and h :: "'a host"
  assume "agree_on G call call'" "G (frames h)"
  note ag = agree_external [OF this]
  show "try_call_fn call a func args h = try_call_fn call' a func args h \<and>
      frames (snd (try_call_fn call a func args h)) = frames h"
  proof (cases "contract_id_from_scaddress a")
    case (Inl e)
    then show ?thesis by (simp add: try_call_fn_def)
  next
    case (Inr cid)
    obtain r h' where "call' default_external_call cid func args h = (r, h')"
      by (cases "call' default_external_call cid func args h")
    with ag [of cid func args] Inr show ?thesis by (simp add: try_call_fn_def split: sum.split)
  qed
qed

lemma storage_fn_respects:
  assumes "storage_only f"
  shows "fn_respects (\<lambda>_. lift_op f)"
  using storage_op_frames [OF assms]
  by (auto simp: fn_respects_def lift_op_def split: sum.split)

end
