(* ===== verification/Host_Call_Props.thy ===== *)
theory Host_Call_Props
  imports Host_Call_Inv Host_Props
begin

text \<open>
  The properties of calls of contracts: failures are contained, no contract is re-entered, and the depth of calls is
  bounded. The witnesses run two contracts that call each other.
\<close>

section \<open>Values of calls\<close>




section \<open>Properties\<close>


text \<open>
  C30. No contract is re-entered: as long as nobody asks for unlimited re-entry, no host function ever runs while a
  contract has a frame below that of another contract it has called. Whatever host functions would do in such a
  state makes no difference to any call.
\<close>

theorem no_contract_reentered:
  assumes "world_all fn_respects w" and "cp_reentry_mode p \<noteq> Allowed"
    and "distinct (remdups_adj (contract_stack h))"
  shows "contract_call (guarded_world (\<lambda>fs. distinct (remdups_adj (List.map_filter contract_id fs))) other w)
    p cid func args h = contract_call w p cid func args h"
proof -
  have "reentry_free (frames h)" using assms(3) by (simp add: reentry_free_def contract_stack_frames)
  from call_guarded [OF assms(1,2) this] have "contract_call (guarded_world reentry_free other w) p cid func args h =
      contract_call w p cid func args h"
    by (simp add: contract_call_def)
  moreover have "reentry_free = (\<lambda>fs :: 'a frame list. distinct (remdups_adj (List.map_filter contract_id fs)))"
    by (rule ext) (simp add: reentry_free_def)
  ultimately show ?thesis by metis
qed

text \<open>
  C32. Calls end: code that itself ends is only ever entered below the depth limit of the context stack, so that any bound
  on the nesting of calls that reaches the limit gives the same result.
\<close>

theorem call_depth_bounded:
  assumes "world_all fn_respects w" and "cp_reentry_mode p \<noteq> Allowed"
    and "unat DEFAULT_HOST_DEPTH_LIMIT \<le> length (h_stack h) + n"
  shows "call_n w n p cid func args h = contract_call w p cid func args h"
proof -
  have "unat DEFAULT_HOST_DEPTH_LIMIT \<le> length (h_stack h) + unat DEFAULT_HOST_DEPTH_LIMIT" by simp
  from call_depth [OF assms this] show ?thesis unfolding contract_call_def by (rule conjunct1)
qed

section \<open>Witnesses\<close>

text \<open>
  Contract 1 tries to call contract 2, which calls contract 1 back. The second call of contract 1 is a
  re-entry, and so contract 2 fails and contract 1 gets an error for its call.
\<close>

definition instance_entry :: "hash \<Rightarrow> nat stored ledger_entry" where
  "instance_entry cid = ContractDataE (ContractAddr cid) LedgerKeyContractInstanceV Persistent
     (InstanceVal \<lparr>inst_executable = StellarAssetExec, inst_storage = None\<rparr>)"

definition calling_host :: "nat host" where
  "calling_host = \<lparr>
     h_storage = \<lparr>st_footprint = [(contract_instance_ledger_key 1, ReadOnly), (contract_instance_ledger_key 2, ReadOnly)],
       st_mode = Enforcing,
       st_map = [(contract_instance_ledger_key 1, Some (instance_entry 1, Some 5000)),
         (contract_instance_ledger_key 2, Some (instance_entry 2, Some 5000))]\<rparr>,
     h_ledger = genesis_ledger, h_stack = [\<lparr>ctx_frame = HostFunctionFrame, ctx_storage = None\<rparr>],
     h_events = [], h_debug = False, h_auth = new_enforcing_without_authorizations, h_source_account = None\<rparr>"

definition calling_world :: "nat call_world" where
  "calling_world = \<lparr>
     cw_cache = None, cw_link = (\<lambda>_ _. Inr 22),
     cw_wasm = (\<lambda>_ _ _ _ _. Trap (HostErr EContext InvalidAction)),
     cw_sac = (\<lambda>cid _ _.
       if cid = 1
       then HostFn (\<lambda>call. try_call_fn call (ContractAddr 2) ''g'' [])
              (\<lambda>v. Return (Val (BoolV (as_error v \<noteq> None))))
       else HostFn (\<lambda>call. call_fn call (ContractAddr 1) ''f'' []) Return),
     cw_asset_bytes = (\<lambda>_. VoidV), cw_contexts = (\<lambda>_. VoidV)\<rparr>"


lemma calling_respects: "world_all fn_respects calling_world"
  by (simp add: world_all_def calling_world_def call_fn_respects try_call_fn_respects)



lemma calling_keys [simp]:
  "compare_key (contract_instance_ledger_key 1) (contract_instance_ledger_key 2) = Inr Less"
  "compare_key (contract_instance_ledger_key 2) (contract_instance_ledger_key 1) = Inr Greater"
  "compare_key (contract_instance_ledger_key 1) (contract_instance_ledger_key 1) = Inr Equal"
  "compare_key (contract_instance_ledger_key 2) (contract_instance_ledger_key 2) = Inr Equal"
  "check_supported_ledger_key_type (contract_instance_ledger_key cid) = Inr ()"
proof -
  show "check_supported_ledger_key_type (contract_instance_ledger_key cid) = Inr ()" for cid
    by (simp add: contract_instance_ledger_key_def)
  then have sup: "supported_key (contract_instance_ledger_key cid)" for cid by (metis check_key_Inr)
  then show "compare_key (contract_instance_ledger_key 1) (contract_instance_ledger_key 1) = Inr Equal"
    "compare_key (contract_instance_ledger_key 2) (contract_instance_ledger_key 2) = Inr Equal"
    using lk.cmp_irrefl by blast+
  show "compare_key (contract_instance_ledger_key 1) (contract_instance_ledger_key 2) = Inr Less"
    "compare_key (contract_instance_ledger_key 2) (contract_instance_ledger_key 1) = Inr Greater"
    by (simp_all add: contract_instance_ledger_key_def compare_key_def compare_contract_data_def cmp_int_def
        compare_hash_def then_cmp_def)
qed

lemma calling_instances:
  assumes "h_storage h = h_storage calling_host" and "cid = 1 \<or> cid = 2"
  shows "lift_op (retrieve_contract_instance_from_storage (contract_instance_ledger_key cid)) h =
    (Inr \<lparr>inst_executable = StellarAssetExec, inst_storage = None\<rparr>, h)"
  using assms
  by (auto simp: lift_op_def retrieve_contract_instance_from_storage_def on_storage_def get_with_host_def
      some_or_missing_def bind_op_eval then_op_eval try_get_full_def prepare_read_only_access_def access_def
      enforce_access_def read_through_def map_eval calling_host_def instance_entry_def)


lemma calling_steps:
  "contract_call w = call_n_internal w (run_code (call_n w 99))"
  "call_n w 99 = call_n_internal w (run_code (call_n w 98))"
  "call_n w 98 = call_n_internal w (run_code (call_n w 97))"
proof -
  have "unat DEFAULT_HOST_DEPTH_LIMIT = Suc 99" by (simp add: DEFAULT_HOST_DEPTH_LIMIT_def)
  then show "contract_call w = call_n_internal w (run_code (call_n w 99))"
    unfolding contract_call_def by (simp only: call_n.simps)
  have "(99 :: nat) = Suc 98" "(98 :: nat) = Suc 97" by simp_all
  then show "call_n w 99 = call_n_internal w (run_code (call_n w 98))"
    "call_n w 98 = call_n_internal w (run_code (call_n w 97))"
    by (metis call_n.simps(2))+
qed

lemma calling_run:
  "\<exists>h'. contract_call calling_world default_external_call 1 ''f'' [] calling_host = (Inr (Val (BoolV True)), h')"
proof -
  have limit: "unat DEFAULT_HOST_DEPTH_LIMIT = 100" by (simp add: DEFAULT_HOST_DEPTH_LIMIT_def)
  note call = call_n_internal_def default_external_call_def RESERVED_CONTRACT_FN_PREFIX_def reentry_allowed_def
    contract_stack_def List.map_filter_simps call_contract_fn_def and_then_def calling_instances
    call_fn_def try_call_fn_def recovered_def is_recoverable_def
  note frame = call_frame_def limit with_frame_def push_context_def pop_context_def frame_result_def Let_def
    am_push_frame_def push_tracker_frame_def am_snapshot_def am_pop_frame_def am_rollback_def rollback_accounts_def
    rollback_invokers_def new_enforcing_without_authorizations_def persist_instance_storage_def pop_tracker_frame_def
  show ?thesis
    unfolding calling_steps
    by (simp add: call frame calling_world_def calling_steps calling_host_def)
qed





theorem no_contract_reentered_witness:
  "\<exists>h'. contract_call (guarded_world (\<lambda>fs. distinct (remdups_adj (List.map_filter contract_id fs)))
       (\<lambda>h. (Inr (Val VoidV), h\<lparr>h_events := []\<rparr>)) calling_world)
     default_external_call 1 ''f'' [] calling_host = (Inr (Val (BoolV True)), h')"
proof -
  have "cp_reentry_mode default_external_call \<noteq> Allowed" by (simp add: default_external_call_def)
  moreover have "distinct (remdups_adj (contract_stack calling_host))"
    by (simp add: contract_stack_def calling_host_def List.map_filter_simps)
  ultimately show ?thesis
    using no_contract_reentered [OF calling_respects] calling_run by metis
qed

theorem call_depth_bounded_witness:
  "\<exists>h'. call_n calling_world 1000 default_external_call 1 ''f'' [] calling_host = (Inr (Val (BoolV True)), h')"
proof -
  have "cp_reentry_mode default_external_call \<noteq> Allowed" by (simp add: default_external_call_def)
  moreover have "unat DEFAULT_HOST_DEPTH_LIMIT \<le> length (h_stack calling_host) + 1000"
    by (simp add: DEFAULT_HOST_DEPTH_LIMIT_def)
  ultimately show ?thesis
    using call_depth_bounded [OF calling_respects] calling_run by metis
qed

end
