(* ===== verification/Host_Object.thy ===== *)
theory Host_Object
  imports Host_Vector
begin

text \<open>
  The objects of the host (\<open>host_object.rs\<close>): the table of host objects, the handles that name
  them, and the translation between the absolute handles of the host and the relative handles that
  a contract's code sees, which index a table of its own frame (\<open>host/frame.rs\<close>). The other
  theories take a value to be its XDR value; here a value is what the host's functions pass around,
  a small value or a reference to an object. The small values \<open>'i\<close> are those of the crate
  \<open>soroban_env_common\<close>. Charges to the budget are not modelled.
\<close>

section \<open>Values and objects\<close>

type_synonym byte = "8 word"

datatype obj_tag =
    VecObject | MapObject | U64Object | I64Object | TimepointObject | DurationObject
  | U128Object | I128Object | U256Object | I256Object
  | BytesObject | StringObject | SymbolObject | AddressObject

text \<open>An \<open>Object\<close>: a handle with the tag of the type it should have.\<close>

datatype obj = Obj (obj_tag: obj_tag) (obj_handle: u32)

datatype 'i hval = SmallV 'i | ObjV obj

datatype 'i host_object =
    VecHO "'i hval list"
  | MapHO "('i hval, 'i hval) omap"
  | U64HO u64
  | I64HO u64
  | TimePointHO u64
  | DurationHO u64
  | U128HO "128 word"
  | I128HO "128 word"
  | U256HO "256 word"
  | I256HO "256 word"
  | BytesHO "byte list"
  | StringHO "byte list"
  | SymbolHO "byte list"
  | AddressHO address

fun object_tag :: "'i host_object \<Rightarrow> obj_tag" where
  "object_tag (VecHO _) = VecObject"
| "object_tag (MapHO _) = MapObject"
| "object_tag (U64HO _) = U64Object"
| "object_tag (I64HO _) = I64Object"
| "object_tag (TimePointHO _) = TimepointObject"
| "object_tag (DurationHO _) = DurationObject"
| "object_tag (U128HO _) = U128Object"
| "object_tag (I128HO _) = I128Object"
| "object_tag (U256HO _) = U256Object"
| "object_tag (I256HO _) = I256Object"
| "object_tag (BytesHO _) = BytesObject"
| "object_tag (StringHO _) = StringObject"
| "object_tag (SymbolHO _) = SymbolObject"
| "object_tag (AddressHO _) = AddressObject"

text \<open>
  The part of a frame that the objects need: a frame of a Wasm contract has the table of its
  relative objects and the linear memory of its VM, which a module need not export.
\<close>

datatype obj_frame = VmFrame "obj list" "byte list option" | OtherFrame

text \<open>\<open>ob_stack\<close> is the context stack with its top first.\<close>

record 'i objs =
  ob_objects :: "'i host_object list"
  ob_stack :: "obj_frame list"

type_synonym ('i, 'a) obj_op = "('i objs, 'a) op"

section \<open>Handles\<close>

definition is_relative_object_handle :: "u32 \<Rightarrow> bool" where
  "is_relative_object_handle handle \<longleftrightarrow> and handle 1 = 0"

definition handle_to_index :: "u32 \<Rightarrow> nat" where
  "handle_to_index handle = unat (drop_bit 1 handle)"

text \<open>\<open>checked_shl\<close> fails when the distance is the width or more, not when bits are lost.\<close>

definition checked_shl :: "'a::len word \<Rightarrow> nat \<Rightarrow> 'a word option" where
  "checked_shl a k = (if k < LENGTH('a) then Some (push_bit k a) else None)"

definition err_arith_overflow :: error where
  "err_arith_overflow = HostErr EValue ArithDomain"

definition index_to_handle :: "nat \<Rightarrow> bool \<Rightarrow> error + u32" where
  "index_to_handle index relative =
     (if index < 2 ^ 32 then
        (case checked_shl (word_of_nat index :: u32) 1 of
           Some shifted \<Rightarrow> if relative then Inr shifted else Inr (or shifted 1)
         | None \<Rightarrow> Inl err_arith_overflow)
      else Inl err_arith_overflow)"

section \<open>The table of objects\<close>

definition add_host_object :: "'i host_object \<Rightarrow> ('i, obj) obj_op" where
  "add_host_object hot s =
     (case index_to_handle (length (ob_objects s)) False of
        Inl e \<Rightarrow> Inl e
      | Inr handle \<Rightarrow> Inr (Obj (object_tag hot) handle, s\<lparr>ob_objects := ob_objects s @ [hot]\<rparr>))"

definition visit_obj_untyped :: "obj \<Rightarrow> ('i host_object \<Rightarrow> ('i, 'a) obj_op) \<Rightarrow> ('i, 'a) obj_op" where
  "visit_obj_untyped ob f s =
     (let handle = obj_handle ob in
      if is_relative_object_handle handle then Inl (HostErr EObject InternalError)
      else if handle_to_index handle < length (ob_objects s)
      then f (ob_objects s ! handle_to_index handle) s
      else Inl (HostErr EValue InvalidInput))"

text \<open>\<open>visit_obj\<close>, with the \<open>try_extract\<close> of the type of object that is expected.\<close>

definition visit_obj ::
  "('i host_object \<Rightarrow> 'h option) \<Rightarrow> obj \<Rightarrow> ('h \<Rightarrow> ('i, 'a) obj_op) \<Rightarrow> ('i, 'a) obj_op" where
  "visit_obj try_extract ob f =
     visit_obj_untyped ob (\<lambda>hobj.
       case try_extract hobj of
         None \<Rightarrow> fail (HostErr EObject InternalError)
       | Some hot \<Rightarrow> f hot)"

definition check_obj_integrity :: "obj \<Rightarrow> ('i, unit) obj_op" where
  "check_obj_integrity ob =
     visit_obj_untyped ob (\<lambda>hobj.
       if object_tag hobj = obj_tag ob then ret () else fail (HostErr EValue InvalidInput))"

text \<open>The integrity of a value, which the interface to the host has by default: that of its object.\<close>

definition check_val_integrity :: "'i hval \<Rightarrow> ('i, unit) obj_op" where
  "check_val_integrity v = (case v of SmallV _ \<Rightarrow> ret () | ObjV ob \<Rightarrow> check_obj_integrity ob)"

section \<open>Relative and absolute references\<close>

definition with_current_frame_relative_object_table ::
  "(obj list \<Rightarrow> error + ('a \<times> obj list)) \<Rightarrow> ('i, 'a) obj_op" where
  "with_current_frame_relative_object_table f s =
     (case ob_stack s of
        VmFrame table memory # frames \<Rightarrow>
          (case f table of
             Inl e \<Rightarrow> Inl e
           | Inr (a, table') \<Rightarrow> Inr (a, s\<lparr>ob_stack := VmFrame table' memory # frames\<rparr>))
      | _ \<Rightarrow> Inl (HostErr EContext InternalError))"

definition table_get :: "obj list \<Rightarrow> nat \<Rightarrow> obj option" where
  "table_get table i = (if i < length table then Some (table ! i) else None)"

definition relative_to_absolute :: "'i hval \<Rightarrow> ('i, 'i hval) obj_op" where
  "relative_to_absolute val =
     (case val of
        SmallV _ \<Rightarrow> ret val
      | ObjV ob \<Rightarrow>
          if is_relative_object_handle (obj_handle ob) then
            bind_op (with_current_frame_relative_object_table (\<lambda>table.
              Inr (table_get table (handle_to_index (obj_handle ob)), table))) (\<lambda>abs_opt.
            case abs_opt of
              Some ob' \<Rightarrow>
                if obj_tag ob' = obj_tag ob then ret (ObjV ob') else fail (HostErr EValue InvalidInput)
            | None \<Rightarrow> fail (HostErr EValue InvalidInput))
          else fail (HostErr EValue InvalidInput))"

definition absolute_to_relative :: "'i hval \<Rightarrow> ('i, 'i hval) obj_op" where
  "absolute_to_relative val =
     (case val of
        SmallV _ \<Rightarrow> ret val
      | ObjV ob \<Rightarrow>
          if is_relative_object_handle (obj_handle ob) then fail (HostErr EContext InternalError)
          else
            bind_op (with_current_frame_relative_object_table (\<lambda>table.
              Inr (length table, table @ [ob]))) (\<lambda>index.
            bind_op (of_result (index_to_handle index True)) (\<lambda>handle.
            ret (ObjV (Obj (obj_tag ob) handle)))))"

primrec map_op :: "('x \<Rightarrow> ('s, 'y) op) \<Rightarrow> 'x list \<Rightarrow> ('s, 'y list) op" where
  "map_op f [] = ret []"
| "map_op f (x # xs) = bind_op (f x) (\<lambda>y. bind_op (map_op f xs) (\<lambda>ys. ret (y # ys)))"

text \<open>
  The dispatch of a host function that a contract calls (\<open>vm/dispatch.rs\<close>): its arguments become
  absolute and are checked, its result is checked and becomes relative. An error of the function
  ends the call of the contract.
\<close>

definition dispatch ::
  "('i hval list \<Rightarrow> ('i, 'i hval) obj_op) \<Rightarrow> 'i hval list \<Rightarrow> ('i, 'i hval) obj_op" where
  "dispatch host_fn args =
     bind_op (map_op (\<lambda>arg.
       bind_op (relative_to_absolute arg) (\<lambda>val.
       bind_op (check_val_integrity val) (\<lambda>_. ret val))) args) (\<lambda>vals.
     bind_op (host_fn vals) (\<lambda>res.
     bind_op (check_val_integrity res) (\<lambda>_.
     absolute_to_relative res)))"

definition MAX_VM_ARGS :: nat where
  "MAX_VM_ARGS = 32"

text \<open>
  The call of a contract's function. What the module exports under its name is a parameter: the Wasm code
  of a function gets its arguments and gives its result as relative references.
\<close>

datatype 'i vm_export =
    NoExport
  | OtherExport
  | FuncExport "'i hval list \<Rightarrow> ('i, 'i hval) obj_op"

definition metered_func_call ::
  "'i vm_export \<Rightarrow> 'i \<Rightarrow> 'i hval list \<Rightarrow> bool \<Rightarrow> ('i, 'i hval) obj_op" where
  "metered_func_call ext void inputs treat_missing_function_as_noop =
     (case ext of
        NoExport \<Rightarrow>
          if treat_missing_function_as_noop then ret (SmallV void)
          else fail (HostErr EWasmVm MissingValue)
      | OtherExport \<Rightarrow> fail (HostErr EWasmVm UnexpectedType)
      | FuncExport func \<Rightarrow>
          if MAX_VM_ARGS < length inputs then fail (HostErr EWasmVm InvalidInput)
          else bind_op (func inputs) relative_to_absolute)"

definition invoke_function_raw ::
  "'i vm_export \<Rightarrow> 'i \<Rightarrow> 'i hval list \<Rightarrow> bool \<Rightarrow> ('i, 'i hval) obj_op" where
  "invoke_function_raw ext void args treat_missing_function_as_noop =
     bind_op (map_op absolute_to_relative args) (\<lambda>wasm_args.
     metered_func_call ext void wasm_args treat_missing_function_as_noop)"

end
