(* ===== verification/Host_Convert.thy ===== *)
theory Host_Convert
  imports Host_Object
begin

text \<open>
  The conversion between XDR values and the values of the host (\<open>host/conversion.rs\<close>). An XDR
  value either is a small value or becomes an object, its elements first; conversions are
  limited in depth. Which values are small and what they stand for is a matter of the crate
  \<open>soroban_env_common\<close>, given by the record \<open>env_common\<close>. The parts of 128 and 256 bits integers
  are the number that they spell, and charges to the budget are not modelled.
\<close>

datatype scv =
    BoolS bool
  | VoidS
  | ErrorS u32 u32
  | U32S u32
  | I32S u32
  | U64S u64
  | I64S u64
  | TimepointS u64
  | DurationS u64
  | U128S "128 word"
  | I128S "128 word"
  | U256S "256 word"
  | I256S "256 word"
  | BytesS "byte list"
  | StringS "byte list"
  | SymbolS "byte list"
  | VecS "scv list option"
  | MapS "(scv \<times> scv) list option"
  | AddressS address
  | ContractInstanceS executable "(scv \<times> scv) list option"
  | LedgerKeyContractInstanceS
  | LedgerKeyNonceS u64

text \<open>
  What the host uses of \<open>soroban_env_common\<close>, of the XDR types and of \<open>wasmi\<close>: the small value that an XDR value
  converts to, if it needs no object, and the XDR value of a small one; the values that a \<open>Val\<close>
  can represent, at their top and throughout; their XDR encoding; the bytes and the length that a symbol may have; the order of values; the payload
  of a value as 64 bits; the error of a byte string that is too long; the reads and writes of a linear memory.
\<close>

record 'i env_common =
  cm_void :: 'i
  cm_classify :: "scv \<Rightarrow> error + 'i option"
  cm_scv_of :: "'i \<Rightarrow> error + scv"
  cm_can_represent :: "scv \<Rightarrow> bool"
  cm_can_represent_recursive :: "scv \<Rightarrow> bool"
  cm_write_xdr :: "scv \<Rightarrow> byte list option"
  cm_read_xdr :: "byte list \<Rightarrow> error + scv"
  cm_valid_byte :: "byte \<Rightarrow> bool"
  cm_symbol_limit :: nat
  cm_symbol_small :: "'i hval \<Rightarrow> byte list option"
  cm_compare :: "'i host_object list \<Rightarrow> 'i hval compare"
  cm_payload :: "'i hval \<Rightarrow> u64"
  cm_from_payload :: "u64 \<Rightarrow> 'i hval"
  cm_length_error :: error
  cm_mem_write :: "byte list \<Rightarrow> nat \<Rightarrow> byte list \<Rightarrow> error + byte list"
  cm_mem_read :: "byte list \<Rightarrow> nat \<Rightarrow> nat \<Rightarrow> error + byte list"

section \<open>Byte strings as objects\<close>

text \<open>The objects that are a slab of bytes: \<open>ScBytes\<close>, \<open>ScString\<close> and \<open>ScSymbol\<close>.\<close>

datatype mem_kind = BytesK | StringK | SymbolK

fun mem_extract :: "mem_kind \<Rightarrow> 'i host_object \<Rightarrow> byte list option" where
  "mem_extract BytesK (BytesHO b) = Some b"
| "mem_extract StringK (StringHO b) = Some b"
| "mem_extract SymbolK (SymbolHO b) = Some b"
| "mem_extract _ _ = None"

fun mem_inject :: "mem_kind \<Rightarrow> byte list \<Rightarrow> 'i host_object" where
  "mem_inject BytesK b = BytesHO b"
| "mem_inject StringK b = StringHO b"
| "mem_inject SymbolK b = SymbolHO b"

definition bytes_try_from :: "'i env_common \<Rightarrow> byte list \<Rightarrow> error + byte list" where
  "bytes_try_from C bytes = (if 2 ^ 32 \<le> length bytes then Inl (cm_length_error C) else Inr bytes)"

definition symbol_try_from_bytes :: "'i env_common \<Rightarrow> byte list \<Rightarrow> error + byte list" where
  "symbol_try_from_bytes C bytes =
     (if cm_symbol_limit C < length bytes then Inl (HostErr EValue InvalidInput)
      else if \<not> list_all (cm_valid_byte C) bytes then Inl (HostErr EValue InvalidInput)
      else Inr bytes)"

fun mem_try_from_bytes :: "'i env_common \<Rightarrow> mem_kind \<Rightarrow> byte list \<Rightarrow> error + byte list" where
  "mem_try_from_bytes C SymbolK bytes = symbol_try_from_bytes C bytes"
| "mem_try_from_bytes C _ bytes = bytes_try_from C bytes"

section \<open>From XDR values to host values\<close>

definition add_object_val :: "'i host_object \<Rightarrow> ('i, 'i hval) obj_op" where
  "add_object_val hot = bind_op (add_host_object hot) (\<lambda>ob. ret (ObjV ob))"

definition to_host_obj ::
  "'i env_common \<Rightarrow> (scv \<Rightarrow> ('i, 'i hval) obj_op) \<Rightarrow> scv \<Rightarrow> ('i, 'i hval) obj_op" where
  "to_host_obj C to_val val =
     (case val of
        VecS (Some v) \<Rightarrow>
          bind_op (map_op to_val v) (\<lambda>vv.
          bind_op (of_result (mv_from_vec vv)) (\<lambda>hv. add_object_val (VecHO hv)))
      | MapS (Some m) \<Rightarrow>
          bind_op (map_op (\<lambda>(key, v).
            bind_op (to_val key) (\<lambda>k. bind_op (to_val v) (\<lambda>x. ret (k, x)))) m) (\<lambda>mm.
          bind_op (\<lambda>s. of_result (omap_from_map (cm_compare C (ob_objects s)) mm) s) (\<lambda>hm.
            add_object_val (MapHO hm)))
      | VecS None \<Rightarrow> fail (HostErr EValue InvalidInput)
      | MapS None \<Rightarrow> fail (HostErr EValue InvalidInput)
      | U64S u \<Rightarrow> add_object_val (U64HO u)
      | I64S i \<Rightarrow> add_object_val (I64HO i)
      | TimepointS t \<Rightarrow> add_object_val (TimePointHO t)
      | DurationS d \<Rightarrow> add_object_val (DurationHO d)
      | U128S u \<Rightarrow> add_object_val (U128HO u)
      | I128S i \<Rightarrow> add_object_val (I128HO i)
      | U256S u \<Rightarrow> add_object_val (U256HO u)
      | I256S i \<Rightarrow> add_object_val (I256HO i)
      | BytesS b \<Rightarrow> add_object_val (BytesHO b)
      | StringS b \<Rightarrow> add_object_val (StringHO b)
      | SymbolS b \<Rightarrow> bind_op (of_result (symbol_try_from_bytes C b)) (\<lambda>b'. add_object_val (SymbolHO b'))
      | AddressS a \<Rightarrow> add_object_val (AddressHO a)
      | _ \<Rightarrow> fail (HostErr EValue InternalError))"

text \<open>The depth that is left is the first argument; at 0 the depth limiter refuses to enter.\<close>

primrec to_host_val :: "'i env_common \<Rightarrow> nat \<Rightarrow> scv \<Rightarrow> ('i, 'i hval) obj_op" where
  "to_host_val C 0 v = fail (HostErr EContext ExceededLimit)"
| "to_host_val C (Suc depth) v =
     bind_op (of_result (cm_classify C v)) (\<lambda>small.
     case small of
       Some i \<Rightarrow> ret (SmallV i)
     | None \<Rightarrow> to_host_obj C (to_host_val C depth) v)"

definition to_valid_host_val :: "'i env_common \<Rightarrow> nat \<Rightarrow> scv \<Rightarrow> ('i, 'i hval) obj_op" where
  "to_valid_host_val C depth v s =
     (case to_host_val C depth v s of
        Inl (HostErr EBudget code) \<Rightarrow> Inl (HostErr EBudget code)
      | Inl _ \<Rightarrow> Inl (HostErr EValue InternalError)
      | Inr r \<Rightarrow> Inr r)"

section \<open>From host values to XDR values\<close>

definition check_val_representable_scval :: "'i env_common \<Rightarrow> scv \<Rightarrow> ('i, unit) obj_op" where
  "check_val_representable_scval C v =
     (if cm_can_represent C v then ret () else fail (HostErr EValue InternalError))"

definition xdr_vec :: "'i env_common \<Rightarrow> 'x list \<Rightarrow> error + 'x list" where
  "xdr_vec C xs = (if 2 ^ 32 \<le> length xs then Inl (cm_length_error C) else Inr xs)"

definition host_map_to_scmap ::
  "'i env_common \<Rightarrow> ('i hval \<Rightarrow> ('i, scv) obj_op) \<Rightarrow> ('i hval, 'i hval) omap \<Rightarrow> ('i, (scv \<times> scv) list) obj_op" where
  "host_map_to_scmap C from_val m =
     bind_op (map_op (\<lambda>(k, v).
       bind_op (from_val k) (\<lambda>key. bind_op (from_val v) (\<lambda>val. ret (key, val)))) m) (\<lambda>mv.
     of_result (xdr_vec C mv))"

definition from_host_obj ::
  "'i env_common \<Rightarrow> ('i hval \<Rightarrow> ('i, scv) obj_op) \<Rightarrow> obj \<Rightarrow> ('i, scv) obj_op" where
  "from_host_obj C from_val ob =
     visit_obj_untyped ob (\<lambda>ho.
       case ho of
         VecHO vv \<Rightarrow>
           bind_op (map_op from_val vv) (\<lambda>sv.
           bind_op (of_result (xdr_vec C sv)) (\<lambda>v. ret (VecS (Some v))))
       | MapHO mm \<Rightarrow> bind_op (host_map_to_scmap C from_val mm) (\<lambda>m. ret (MapS (Some m)))
       | U64HO u \<Rightarrow> ret (U64S u)
       | I64HO i \<Rightarrow> ret (I64S i)
       | TimePointHO t \<Rightarrow> ret (TimepointS t)
       | DurationHO d \<Rightarrow> ret (DurationS d)
       | U128HO u \<Rightarrow> ret (U128S u)
       | I128HO i \<Rightarrow> ret (I128S i)
       | U256HO u \<Rightarrow> ret (U256S u)
       | I256HO i \<Rightarrow> ret (I256S i)
       | BytesHO b \<Rightarrow> ret (BytesS b)
       | StringHO b \<Rightarrow> ret (StringS b)
       | SymbolHO b \<Rightarrow> ret (SymbolS b)
       | AddressHO a \<Rightarrow> ret (AddressS a))"

primrec from_host_val :: "'i env_common \<Rightarrow> nat \<Rightarrow> 'i hval \<Rightarrow> ('i, scv) obj_op" where
  "from_host_val C 0 val = fail (HostErr EContext ExceededLimit)"
| "from_host_val C (Suc depth) val =
     bind_op (case val of
        SmallV i \<Rightarrow> of_result (cm_scv_of C i)
      | ObjV ob \<Rightarrow> from_host_obj C (from_host_val C depth) ob) (\<lambda>scval.
     bind_op (check_val_representable_scval C scval) (\<lambda>_. ret scval))"

end
