(* ===== verification/Host_Memory.thy ===== *)
theory Host_Memory
  imports Host_Convert
begin

text \<open>
  Byte strings and the linear memory of a contract (\<open>host/mem_helper.rs\<close>, the functions on bytes,
  strings and symbols of \<open>host.rs\<close> and those that pass vectors and maps through linear memory).
  A linear memory is its list of bytes. Charges to the budget are not modelled; \<open>depth\<close> is the
  depth that the conversion of values has left.
\<close>

section \<open>Integers as bytes\<close>

definition to_le_bytes :: "nat \<Rightarrow> 'a::len word \<Rightarrow> byte list" where
  "to_le_bytes n w = map (\<lambda>i. ucast (drop_bit (8 * i) w)) [0..<n]"

primrec from_le_bytes :: "byte list \<Rightarrow> 'a::len word" where
  "from_le_bytes [] = 0"
| "from_le_bytes (b # bs) = or (ucast b) (push_bit 8 (from_le_bytes bs))"

section \<open>Linear memory\<close>

definition err_oob_linear_memory :: error where
  "err_oob_linear_memory = HostErr EWasmVm IndexBounds"

text \<open>A function that gets a position and a length needs the frame of a VM, and the VM a memory.\<close>

definition get_mem_fn_args :: "('i, unit) obj_op" where
  "get_mem_fn_args s =
     (case ob_stack s of
        [] \<Rightarrow> Inl (HostErr EContext InternalError)
      | VmFrame _ _ # _ \<Rightarrow> Inr ((), s)
      | OtherFrame # _ \<Rightarrow> Inl (HostErr EWasmVm InternalError))"

definition get_memory :: "('i, byte list) obj_op" where
  "get_memory s =
     (case ob_stack s of
        VmFrame _ (Some memory) # _ \<Rightarrow> Inr (memory, s)
      | _ \<Rightarrow> Inl (HostErr EWasmVm MissingValue))"

definition set_memory :: "byte list \<Rightarrow> ('i, unit) obj_op" where
  "set_memory memory s =
     (case ob_stack s of
        VmFrame table (Some _) # frames \<Rightarrow> Inr ((), s\<lparr>ob_stack := VmFrame table (Some memory) # frames\<rparr>)
      | _ \<Rightarrow> Inl (HostErr EWasmVm MissingValue))"

text \<open>\<open>slice.get(from..to)\<close> of a range that is not reversed.\<close>

definition slice_get :: "nat \<Rightarrow> nat \<Rightarrow> 'a list \<Rightarrow> 'a list option" where
  "slice_get from to xs = (if from \<le> to \<and> to \<le> length xs then Some (take (to - from) (drop from xs)) else None)"

definition overwrite :: "nat \<Rightarrow> 'a list \<Rightarrow> 'a list \<Rightarrow> 'a list" where
  "overwrite pos ys xs = take pos xs @ ys @ drop (pos + length ys) xs"

definition metered_vm_write_bytes_to_linear_memory ::
  "'i env_common \<Rightarrow> u32 \<Rightarrow> byte list \<Rightarrow> ('i, unit) obj_op" where
  "metered_vm_write_bytes_to_linear_memory C mem_pos buf =
     bind_op get_memory (\<lambda>mem.
     bind_op (of_result (cm_mem_write C mem (unat mem_pos) buf)) set_memory)"

definition metered_vm_read_bytes_from_linear_memory ::
  "'i env_common \<Rightarrow> u32 \<Rightarrow> byte list \<Rightarrow> ('i, byte list) obj_op" where
  "metered_vm_read_bytes_from_linear_memory C mem_pos buf =
     bind_op get_memory (\<lambda>mem. of_result (cm_mem_read C mem (unat mem_pos) (length buf)))"

text \<open>\<open>slice.chunks(n)\<close>\<close>

function chunks :: "nat \<Rightarrow> 'a list \<Rightarrow> 'a list list" where
  "chunks n xs = (if n = 0 \<or> xs = [] then [] else take n xs # chunks n (drop n xs))"
  by pat_completeness auto

termination
  by (relation "measure (\<lambda>(n, xs). length xs)") auto

declare chunks.simps [simp del]

text \<open>The range of memory that \<open>cnt\<close> values of \<open>val_sz\<close> bytes take, both computed in 32 bits.\<close>

definition vals_range :: "nat \<Rightarrow> u32 \<Rightarrow> nat \<Rightarrow> error + (nat \<times> nat)" where
  "vals_range val_size mem_pos cnt =
     (case usize_to_u32 val_size of
        Inl e \<Rightarrow> Inl e
      | Inr val_sz \<Rightarrow>
     (case usize_to_u32 cnt of
        Inl e \<Rightarrow> Inl e
      | Inr len \<Rightarrow>
     (case checked_mul len val_sz of
        None \<Rightarrow> Inl err_arith_overflow
      | Some byte_len \<Rightarrow>
     (case checked_add mem_pos byte_len of
        None \<Rightarrow> Inl err_arith_overflow
      | Some mem_end \<Rightarrow> Inr (unat mem_pos, unat mem_end)))))"

definition metered_vm_write_vals_to_linear_memory ::
  "nat \<Rightarrow> u32 \<Rightarrow> 'x list \<Rightarrow> ('x \<Rightarrow> ('i, byte list) obj_op) \<Rightarrow> ('i, unit) obj_op" where
  "metered_vm_write_vals_to_linear_memory val_size mem_pos buf to_bytes =
     bind_op (of_result (vals_range val_size mem_pos (length buf))) (\<lambda>(from, to).
     bind_op get_memory (\<lambda>mem_data.
     bind_op (ok_or err_oob_linear_memory (slice_get from to mem_data)) (\<lambda>mem_slice.
     bind_op (map_op (\<lambda>(src, dst).
       if length dst \<noteq> val_size then fail (HostErr EContext InternalError)
       else to_bytes src) (zip buf (chunks val_size mem_slice))) (\<lambda>written.
     set_memory (overwrite from (concat written) mem_data)))))"

definition metered_vm_read_vals_from_linear_memory ::
  "nat \<Rightarrow> u32 \<Rightarrow> 'x list \<Rightarrow> (byte list \<Rightarrow> ('i, 'x) obj_op) \<Rightarrow> ('i, 'x list) obj_op" where
  "metered_vm_read_vals_from_linear_memory val_size mem_pos buf from_bytes =
     bind_op (of_result (vals_range val_size mem_pos (length buf))) (\<lambda>(from, to).
     bind_op get_memory (\<lambda>mem_data.
     bind_op (ok_or err_oob_linear_memory (slice_get from to mem_data)) (\<lambda>mem_slice.
     bind_op (map_op (\<lambda>(dst, src).
       if length src = val_size then from_bytes src
       else fail (HostErr EContext InternalError)) (zip buf (chunks val_size mem_slice))) (\<lambda>read.
     ret (read @ drop (length read) buf)))))"

text \<open>
  Each slice is a pointer and a length of four bytes; the callback gets its index, its bytes and
  what the earlier calls collected.
\<close>

primrec scan_slices ::
  "byte list \<Rightarrow> (nat \<Rightarrow> byte list \<Rightarrow> 'acc \<Rightarrow> ('i, 'acc) obj_op) \<Rightarrow> nat \<Rightarrow> nat \<Rightarrow> u32 \<Rightarrow> 'acc \<Rightarrow> ('i, 'acc) obj_op"
where
  "scan_slices mem_data callback 0 i mem_pos acc = ret acc"
| "scan_slices mem_data callback (Suc left) i mem_pos acc =
     bind_op (ok_or err_arith_overflow (checked_add mem_pos 8)) (\<lambda>next_pos.
     bind_op (ok_or err_oob_linear_memory (slice_get (unat mem_pos) (unat next_pos) mem_data)) (\<lambda>slice_ref.
     if length slice_ref \<noteq> 8 then fail (HostErr EContext InternalError)
     else
       let slice_ptr = from_le_bytes (take 4 slice_ref) :: u32;
           slice_len = from_le_bytes (drop 4 slice_ref) :: u32
       in
       bind_op (ok_or err_arith_overflow (checked_add slice_ptr slice_len)) (\<lambda>slice_end.
       bind_op (ok_or err_oob_linear_memory (slice_get (unat slice_ptr) (unat slice_end) mem_data)) (\<lambda>slice.
       bind_op (callback i slice acc) (\<lambda>acc'.
       scan_slices mem_data callback left (Suc i) next_pos acc')))))"

definition metered_vm_scan_slices_in_linear_memory ::
  "u32 \<Rightarrow> nat \<Rightarrow> (nat \<Rightarrow> byte list \<Rightarrow> 'acc \<Rightarrow> ('i, 'acc) obj_op) \<Rightarrow> 'acc \<Rightarrow> ('i, 'acc) obj_op" where
  "metered_vm_scan_slices_in_linear_memory mem_pos num_slices callback acc =
     bind_op get_memory (\<lambda>mem_data. scan_slices mem_data callback num_slices 0 mem_pos acc)"

section \<open>Copies between byte strings and memory\<close>

definition metered_copy_byte_slice :: "byte list \<Rightarrow> byte list \<Rightarrow> error + byte list" where
  "metered_copy_byte_slice dst src =
     (if length src \<noteq> length dst then Inl (HostErr EContext InternalError) else Inr src)"

definition memobj_visit_and_copy_bytes_out ::
  "mem_kind \<Rightarrow> obj \<Rightarrow> u32 \<Rightarrow> u32 \<Rightarrow> (byte list \<Rightarrow> ('i, 'a) obj_op) \<Rightarrow> ('i, 'a) obj_op" where
  "memobj_visit_and_copy_bytes_out kind ob obj_pos len copy_bytes_out =
     visit_obj (mem_extract kind) ob (\<lambda>hob.
       bind_op (ok_or err_arith_overflow (checked_add obj_pos len)) (\<lambda>obj_end.
       bind_op (ok_or (HostErr EObject IndexBounds) (slice_get (unat obj_pos) (unat obj_end) hob))
         copy_bytes_out))"

definition memobj_copy_to_slice :: "mem_kind \<Rightarrow> obj \<Rightarrow> u32 \<Rightarrow> byte list \<Rightarrow> ('i, byte list) obj_op" where
  "memobj_copy_to_slice kind ob obj_pos mem =
     bind_op (of_result (usize_to_u32 (length mem))) (\<lambda>len.
     memobj_visit_and_copy_bytes_out kind ob obj_pos len (\<lambda>obj_buf.
       of_result (metered_copy_byte_slice mem obj_buf)))"

definition memobj_copy_to_linear_memory ::
  "'i env_common \<Rightarrow> mem_kind \<Rightarrow> obj \<Rightarrow> u32 \<Rightarrow> u32 \<Rightarrow> u32 \<Rightarrow> ('i, unit) obj_op" where
  "memobj_copy_to_linear_memory C kind ob obj_pos lm_pos len =
     then_op get_mem_fn_args
       (memobj_visit_and_copy_bytes_out kind ob obj_pos len (\<lambda>obj_buf.
          metered_vm_write_bytes_to_linear_memory C lm_pos obj_buf))"

text \<open>\<open>vec.resize(n, 0)\<close>, when it grows the vector.\<close>

definition resize_zero :: "nat \<Rightarrow> byte list \<Rightarrow> byte list" where
  "resize_zero n xs = (if length xs < n then xs @ replicate (n - length xs) 0 else xs)"

text \<open>The closure gets the bytes of the range and returns what it leaves there.\<close>

definition memobj_clone_resize_and_copy_bytes_in ::
  "'i env_common \<Rightarrow> mem_kind \<Rightarrow> obj \<Rightarrow> u32 \<Rightarrow> u32 \<Rightarrow> (byte list \<Rightarrow> ('i, byte list) obj_op) \<Rightarrow> ('i, obj) obj_op"
where
  "memobj_clone_resize_and_copy_bytes_in C kind ob obj_pos len copy_bytes_in =
     bind_op (visit_obj (mem_extract kind) ob ret) (\<lambda>hv.
     bind_op (ok_or err_arith_overflow (checked_add obj_pos len)) (\<lambda>obj_end.
     let obj_new = resize_zero (unat obj_end) hv in
     bind_op (ok_or (HostErr EObject IndexBounds) (slice_get (unat obj_pos) (unat obj_end) obj_new)) (\<lambda>obj_buf.
     bind_op (copy_bytes_in obj_buf) (\<lambda>copied.
     bind_op (of_result (mem_try_from_bytes C kind (overwrite (unat obj_pos) copied obj_new))) (\<lambda>bytes.
     add_host_object (mem_inject kind bytes))))))"

definition memobj_copy_from_slice ::
  "'i env_common \<Rightarrow> mem_kind \<Rightarrow> obj \<Rightarrow> u32 \<Rightarrow> byte list \<Rightarrow> ('i, obj) obj_op" where
  "memobj_copy_from_slice C kind ob obj_pos mem =
     bind_op (of_result (usize_to_u32 (length mem))) (\<lambda>len.
     memobj_clone_resize_and_copy_bytes_in C kind ob obj_pos len (\<lambda>obj_buf.
       of_result (metered_copy_byte_slice obj_buf mem)))"

definition memobj_copy_from_linear_memory ::
  "'i env_common \<Rightarrow> mem_kind \<Rightarrow> obj \<Rightarrow> u32 \<Rightarrow> u32 \<Rightarrow> u32 \<Rightarrow> ('i, obj) obj_op" where
  "memobj_copy_from_linear_memory C kind ob obj_pos lm_pos len =
     then_op get_mem_fn_args
       (memobj_clone_resize_and_copy_bytes_in C kind ob obj_pos len (\<lambda>obj_buf.
          metered_vm_read_bytes_from_linear_memory C lm_pos obj_buf))"

definition memobj_new_from_linear_memory ::
  "'i env_common \<Rightarrow> mem_kind \<Rightarrow> u32 \<Rightarrow> u32 \<Rightarrow> ('i, obj) obj_op" where
  "memobj_new_from_linear_memory C kind lm_pos len =
     then_op get_mem_fn_args
       (bind_op (metered_vm_read_bytes_from_linear_memory C lm_pos (replicate (unat len) 0)) (\<lambda>vnew.
        bind_op (of_result (mem_try_from_bytes C kind vnew)) (\<lambda>bytes.
        add_host_object (mem_inject kind bytes))))"

section \<open>Symbols\<close>

text \<open>A symbol is a small value or a reference to a symbol object.\<close>

definition symbol_matches :: "'i env_common \<Rightarrow> byte list \<Rightarrow> 'i hval \<Rightarrow> ('i, bool) obj_op" where
  "symbol_matches C s symb =
     (case cm_symbol_small C symb of
        Some sstr \<Rightarrow> ret (sstr = s)
      | None \<Rightarrow>
          (case symb of
             ObjV ob \<Rightarrow>
               if obj_tag ob = SymbolObject
               then visit_obj (mem_extract SymbolK) ob (\<lambda>scsym. ret (scsym = s))
               else fail ConversionError
           | SmallV _ \<Rightarrow> fail ConversionError))"

definition check_symbol_matches :: "'i env_common \<Rightarrow> byte list \<Rightarrow> 'i hval \<Rightarrow> ('i, unit) obj_op" where
  "check_symbol_matches C s symb =
     bind_op (symbol_matches C s symb) (\<lambda>b.
     if b then ret () else fail (HostErr EValue InvalidInput))"

definition symbol_index_in_linear_memory ::
  "'i env_common \<Rightarrow> 'i hval \<Rightarrow> u32 \<Rightarrow> u32 \<Rightarrow> ('i, u32) obj_op" where
  "symbol_index_in_linear_memory C symb lm_pos len =
     then_op get_mem_fn_args
       (bind_op (metered_vm_scan_slices_in_linear_memory lm_pos (unat len) (\<lambda>i slice found.
          bind_op (symbol_matches C slice symb) (\<lambda>b.
          if b \<and> found = None then bind_op (of_result (usize_to_u32 i)) (\<lambda>u. ret (Some u))
          else ret found)) None) (\<lambda>found.
        ok_or (HostErr EValue MissingValue) found))"

definition symbol_index_in_strs :: "'i env_common \<Rightarrow> 'i hval \<Rightarrow> byte list list \<Rightarrow> ('i, u32) obj_op" where
  "symbol_index_in_strs C symb slices =
     bind_op (map_op (\<lambda>slice. symbol_matches C slice symb) slices) (\<lambda>hits.
     case find (\<lambda>i. hits ! i) [0..<length hits] of
       None \<Rightarrow> fail (HostErr EValue InvalidInput)
     | Some idx \<Rightarrow> of_result (usize_to_u32 idx))"

end
