(* ===== verification/Host_Bytes.thy ===== *)
theory Host_Bytes
  imports Host_Memory
begin

text \<open>
  The host functions on bytes, strings and symbols, and those that pass values, vectors and maps
  through slices and through the linear memory of the contract (\<open>host.rs\<close>). \<open>buf_call\<close> is the
  list of them, as a contract can call them. Charges to the budget are not modelled.
\<close>

section \<open>Checks of arguments\<close>

definition u8_from_u32val_input :: "u32 \<Rightarrow> error + byte" where
  "u8_from_u32val_input r =
     (if unat r < 2 ^ 8 then Inr (ucast r) else Inl (HostErr EValue ArithDomain))"

definition validate_usize_sum_fits_in_u32 :: "nat \<Rightarrow> nat \<Rightarrow> error + nat" where
  "validate_usize_sum_fits_in_u32 a b =
     (if 2 ^ 32 \<le> a then Inl err_arith_overflow
      else if 2 ^ 32 \<le> b then Inl err_arith_overflow
      else case checked_add (word_of_nat a :: u32) (word_of_nat b) of
        None \<Rightarrow> Inl err_arith_overflow
      | Some u \<Rightarrow> Inr (unat u))"

definition err_index_bounds :: error where
  "err_index_bounds = HostErr EObject IndexBounds"

section \<open>Bytes\<close>

definition visit_bytes :: "obj \<Rightarrow> (byte list \<Rightarrow> error + 'a) \<Rightarrow> ('i, 'a) obj_op" where
  "visit_bytes b f = visit_obj (mem_extract BytesK) b (\<lambda>hv. of_result (f hv))"

definition add_bytes :: "'i env_common \<Rightarrow> byte list \<Rightarrow> ('i, obj) obj_op" where
  "add_bytes C v = bind_op (of_result (bytes_try_from C v)) (\<lambda>hv. add_host_object (BytesHO hv))"

definition bytes_new :: "'i env_common \<Rightarrow> ('i, obj) obj_op" where
  "bytes_new C = add_bytes C []"

definition bytes_put :: "'i env_common \<Rightarrow> obj \<Rightarrow> u32 \<Rightarrow> u32 \<Rightarrow> ('i, obj) obj_op" where
  "bytes_put C b i u =
     bind_op (of_result (u8_from_u32val_input u)) (\<lambda>v.
     bind_op (visit_bytes b (\<lambda>hv.
       if unat i < length hv then bytes_try_from C (hv[unat i := v]) else Inl err_index_bounds)) (\<lambda>vnew.
     add_host_object (BytesHO vnew)))"

definition bytes_get :: "obj \<Rightarrow> u32 \<Rightarrow> ('i, u32) obj_op" where
  "bytes_get b i =
     visit_bytes b (\<lambda>hv. if unat i < length hv then Inr (ucast (hv ! unat i)) else Inl err_index_bounds)"

definition bytes_del :: "'i env_common \<Rightarrow> obj \<Rightarrow> u32 \<Rightarrow> ('i, obj) obj_op" where
  "bytes_del C b i =
     bind_op (visit_bytes b (\<lambda>hv.
       case validate_index_lt_bound i (length hv) of
         Inl e \<Rightarrow> Inl e
       | Inr _ \<Rightarrow>
           (case checked_sub (word_of_nat (length hv) :: u64) (ucast i) of
              None \<Rightarrow> Inl (HostErr EContext InternalError)
            | Some n_elts \<Rightarrow> bytes_try_from C (take (unat i) hv @ drop (Suc (unat i)) hv)))) (\<lambda>vnew.
     add_host_object (BytesHO vnew))"

text \<open>\<open>bytes_len\<close>, \<open>string_len\<close> and \<open>symbol_len\<close>\<close>

definition mem_len :: "mem_kind \<Rightarrow> obj \<Rightarrow> ('i, u32) obj_op" where
  "mem_len kind b =
     bind_op (visit_obj (mem_extract kind) b (\<lambda>hv. ret (length hv))) (\<lambda>len. of_result (usize_to_u32 len))"

definition bytes_push :: "'i env_common \<Rightarrow> obj \<Rightarrow> u32 \<Rightarrow> ('i, obj) obj_op" where
  "bytes_push C b u =
     bind_op (of_result (u8_from_u32val_input u)) (\<lambda>v.
     bind_op (visit_bytes b (\<lambda>hv.
       case validate_usize_sum_fits_in_u32 (length hv) 1 of
         Inl e \<Rightarrow> Inl e
       | Inr _ \<Rightarrow> bytes_try_from C (hv @ [v]))) (\<lambda>vnew.
     add_host_object (BytesHO vnew)))"

definition bytes_pop :: "'i env_common \<Rightarrow> obj \<Rightarrow> ('i, obj) obj_op" where
  "bytes_pop C b =
     bind_op (visit_bytes b (\<lambda>hv.
       if hv = [] then Inl err_index_bounds else bytes_try_from C (butlast hv))) (\<lambda>vnew.
     add_host_object (BytesHO vnew))"

definition bytes_front :: "obj \<Rightarrow> ('i, u32) obj_op" where
  "bytes_front b = visit_bytes b (\<lambda>hv. case hv of [] \<Rightarrow> Inl err_index_bounds | u # _ \<Rightarrow> Inr (ucast u))"

definition bytes_back :: "obj \<Rightarrow> ('i, u32) obj_op" where
  "bytes_back b = visit_bytes b (\<lambda>hv. if hv = [] then Inl err_index_bounds else Inr (ucast (last hv)))"

definition bytes_insert :: "'i env_common \<Rightarrow> obj \<Rightarrow> u32 \<Rightarrow> u32 \<Rightarrow> ('i, obj) obj_op" where
  "bytes_insert C b i u =
     bind_op (of_result (u8_from_u32val_input u)) (\<lambda>v.
     bind_op (visit_bytes b (\<lambda>hv.
       case validate_index_le_bound i (length hv) of
         Inl e \<Rightarrow> Inl e
       | Inr _ \<Rightarrow>
           (case validate_usize_sum_fits_in_u32 (length hv) 1 of
              Inl e \<Rightarrow> Inl e
            | Inr _ \<Rightarrow> bytes_try_from C (take (unat i) hv @ [v] @ drop (unat i) hv)))) (\<lambda>vnew.
     add_host_object (BytesHO vnew)))"

definition bytes_append :: "'i env_common \<Rightarrow> obj \<Rightarrow> obj \<Rightarrow> ('i, obj) obj_op" where
  "bytes_append C b1 b2 =
     bind_op (visit_obj (mem_extract BytesK) b1 (\<lambda>sb1.
       visit_bytes b2 (\<lambda>sb2.
         case validate_usize_sum_fits_in_u32 (length sb1) (length sb2) of
           Inl e \<Rightarrow> Inl e
         | Inr _ \<Rightarrow> Inr (sb1 @ sb2)))) (add_bytes C)"

definition bytes_slice :: "'i env_common \<Rightarrow> obj \<Rightarrow> u32 \<Rightarrow> u32 \<Rightarrow> ('i, obj) obj_op" where
  "bytes_slice C b start stop =
     bind_op (visit_bytes b (\<lambda>hv.
       case valid_range_from_start_end_bound start stop (length hv) of
         Inl e \<Rightarrow> Inl e
       | Inr (from, to) \<Rightarrow>
           (case slice_get from to hv of None \<Rightarrow> Inl err_index_bounds | Some v \<Rightarrow> Inr v))) (add_bytes C)"

section \<open>Slices of the caller\<close>

definition bytes_new_from_slice :: "'i env_common \<Rightarrow> byte list \<Rightarrow> ('i, obj) obj_op" where
  "bytes_new_from_slice C mem = add_bytes C mem"

definition string_new_from_slice :: "'i env_common \<Rightarrow> byte list \<Rightarrow> ('i, obj) obj_op" where
  "string_new_from_slice C s =
     bind_op (of_result (bytes_try_from C s)) (\<lambda>v. add_host_object (StringHO v))"

definition symbol_new_from_slice :: "'i env_common \<Rightarrow> byte list \<Rightarrow> ('i, obj) obj_op" where
  "symbol_new_from_slice C s =
     (if \<not> list_all (cm_valid_byte C) s then fail (HostErr EValue InvalidInput)
      else if cm_symbol_limit C < length s then fail (cm_length_error C)
      else add_host_object (SymbolHO s))"

definition vec_new_from_slice :: "'i hval list \<Rightarrow> ('i, obj) obj_op" where
  "vec_new_from_slice vals =
     bind_op (of_result (mv_from_exact_iter vals)) (\<lambda>vec.
     then_op (for_each vec check_val_integrity) (add_host_object (VecHO vec)))"

fun vec_extract :: "'i host_object \<Rightarrow> 'i hval list option" where
  "vec_extract (VecHO v) = Some v"
| "vec_extract _ = None"

fun map_extract :: "'i host_object \<Rightarrow> ('i hval, 'i hval) omap option" where
  "map_extract (MapHO m) = Some m"
| "map_extract _ = None"

definition vec_unpack_to_slice :: "obj \<Rightarrow> 'i hval list \<Rightarrow> ('i, 'i hval list) obj_op" where
  "vec_unpack_to_slice vec vals =
     visit_obj vec_extract vec (\<lambda>hv.
       if length hv \<noteq> length vals then fail (HostErr EObject UnexpectedSize) else ret hv)"

text \<open>\<open>to_symbol\<close> is the conversion of a string to a symbol, a matter of \<open>soroban_env_common\<close>.\<close>

definition map_new_from_slices ::
  "'i env_common \<Rightarrow> (byte list \<Rightarrow> ('i, 'i hval) obj_op) \<Rightarrow> byte list list \<Rightarrow> 'i hval list \<Rightarrow> ('i, obj) obj_op"
where
  "map_new_from_slices C to_symbol keys vals =
     (if length keys \<noteq> length vals then fail (HostErr EObject UnexpectedSize)
      else
        bind_op (map_op (\<lambda>(key_str, val).
          bind_op (to_symbol key_str) (\<lambda>k.
          then_op (check_val_integrity val) (ret (k, val)))) (zip keys vals)) (\<lambda>map_vec.
        bind_op (\<lambda>s. of_result (omap_from_map (cm_compare C (ob_objects s)) map_vec) s) (\<lambda>m.
          add_host_object (MapHO m))))"

definition map_unpack_to_slice ::
  "'i env_common \<Rightarrow> obj \<Rightarrow> byte list list \<Rightarrow> 'i hval list \<Rightarrow> ('i, 'i hval list) obj_op" where
  "map_unpack_to_slice C mp keys vals =
     (if length keys \<noteq> length vals then fail (HostErr EObject UnexpectedSize)
      else
        visit_obj map_extract mp (\<lambda>hm.
          if length hm \<noteq> length vals then fail (HostErr EObject UnexpectedSize)
          else
            then_op (for_each (zip keys (omap_keys hm)) (\<lambda>(ik, mk). check_symbol_matches C ik mk))
              (ret (omap_values hm))))"

section \<open>Values through linear memory\<close>

text \<open>A value travels as its payload of eight bytes, an object as a relative reference.\<close>

definition val_to_bytes :: "'i env_common \<Rightarrow> 'i hval \<Rightarrow> ('i, byte list) obj_op" where
  "val_to_bytes C x = bind_op (absolute_to_relative x) (\<lambda>r. ret (to_le_bytes 8 (cm_payload C r)))"

definition val_from_bytes :: "'i env_common \<Rightarrow> byte list \<Rightarrow> ('i, 'i hval) obj_op" where
  "val_from_bytes C buf = relative_to_absolute (cm_from_payload C (from_le_bytes buf))"

definition vec_new_from_linear_memory :: "'i env_common \<Rightarrow> u32 \<Rightarrow> u32 \<Rightarrow> ('i, obj) obj_op" where
  "vec_new_from_linear_memory C vals_pos len =
     then_op get_mem_fn_args
       (bind_op (metered_vm_read_vals_from_linear_memory 8 vals_pos
          (replicate (unat len) (SmallV (cm_void C))) (val_from_bytes C)) (\<lambda>vals.
        then_op (for_each vals check_val_integrity)
          (bind_op (of_result (mv_from_vec vals)) (\<lambda>v. add_host_object (VecHO v)))))"

definition vec_unpack_to_linear_memory :: "'i env_common \<Rightarrow> obj \<Rightarrow> u32 \<Rightarrow> u32 \<Rightarrow> ('i, unit) obj_op" where
  "vec_unpack_to_linear_memory C vec vals_pos len =
     then_op get_mem_fn_args
       (visit_obj vec_extract vec (\<lambda>vecobj.
          if length vecobj \<noteq> unat len then fail (HostErr EObject UnexpectedSize)
          else metered_vm_write_vals_to_linear_memory 8 vals_pos vecobj (val_to_bytes C)))"

text \<open>The slice of a key becomes an XDR symbol, and that a symbol of the host.\<close>

definition symbol_of_slice :: "'i env_common \<Rightarrow> nat \<Rightarrow> byte list \<Rightarrow> ('i, 'i hval) obj_op" where
  "symbol_of_slice C depth mem =
     (if cm_symbol_limit C < length mem then fail (cm_length_error C)
      else to_valid_host_val C depth (SymbolS mem))"

definition map_new_from_linear_memory ::
  "'i env_common \<Rightarrow> nat \<Rightarrow> u32 \<Rightarrow> u32 \<Rightarrow> u32 \<Rightarrow> ('i, obj) obj_op" where
  "map_new_from_linear_memory C depth keys_pos vals_pos len =
     then_op get_mem_fn_args
       (bind_op (metered_vm_scan_slices_in_linear_memory keys_pos (unat len) (\<lambda>_ mem key_syms.
          bind_op (symbol_of_slice C depth mem) (\<lambda>symb. ret (key_syms @ [symb]))) []) (\<lambda>key_syms.
        bind_op (metered_vm_read_vals_from_linear_memory 8 vals_pos
          (replicate (unat len) (SmallV (cm_void C))) (val_from_bytes C)) (\<lambda>vals.
        then_op (for_each vals check_val_integrity)
          (bind_op (\<lambda>s. of_result (omap_from_exact_iter (cm_compare C (ob_objects s)) (zip key_syms vals)) s)
            (\<lambda>m. add_host_object (MapHO m))))))"

definition map_unpack_to_linear_memory ::
  "'i env_common \<Rightarrow> obj \<Rightarrow> u32 \<Rightarrow> u32 \<Rightarrow> u32 \<Rightarrow> ('i, unit) obj_op" where
  "map_unpack_to_linear_memory C mp keys_pos vals_pos len =
     then_op get_mem_fn_args
       (visit_obj map_extract mp (\<lambda>mapobj.
          if length mapobj \<noteq> unat len then fail (HostErr EObject UnexpectedSize)
          else
            then_op (metered_vm_scan_slices_in_linear_memory keys_pos (unat len) (\<lambda>n mem _.
                if n < length mapobj then check_symbol_matches C mem (fst (mapobj ! n))
                else fail err_index_bounds) ())
              (metered_vm_write_vals_to_linear_memory 8 vals_pos mapobj (\<lambda>pair. val_to_bytes C (snd pair)))))"

section \<open>Serialization\<close>

definition serialize_to_bytes :: "'i env_common \<Rightarrow> nat \<Rightarrow> 'i hval \<Rightarrow> ('i, obj) obj_op" where
  "serialize_to_bytes C depth v =
     bind_op (from_host_val C depth v) (\<lambda>scval.
     bind_op (ok_or (HostErr EBudget ExceededLimit) (cm_write_xdr C scval)) (\<lambda>buf.
     add_bytes C buf))"

definition deserialize_from_bytes :: "'i env_common \<Rightarrow> nat \<Rightarrow> obj \<Rightarrow> ('i, 'i hval) obj_op" where
  "deserialize_from_bytes C depth b =
     bind_op (visit_bytes b (cm_read_xdr C)) (\<lambda>scval.
     if cm_can_represent_recursive C scval then to_host_val C depth scval
     else fail (HostErr EValue UnexpectedType))"

section \<open>The functions as calls\<close>

datatype 'i buf_call =
    BytesNew | BytesPut obj u32 u32 | BytesGet obj u32 | BytesDel obj u32 | MemLen mem_kind obj
  | BytesPush obj u32 | BytesPop obj | BytesFront obj | BytesBack obj | BytesInsert obj u32 u32
  | BytesAppend obj obj | BytesSlice obj u32 u32
  | CopyToLinearMemory mem_kind obj u32 u32 u32
  | BytesCopyFromLinearMemory obj u32 u32 u32
  | NewFromLinearMemory mem_kind u32 u32
  | SymbolIndexInLinearMemory "'i hval" u32 u32
  | VecNewFromLinearMemory u32 u32 | VecUnpackToLinearMemory obj u32 u32
  | MapNewFromLinearMemory u32 u32 u32 | MapUnpackToLinearMemory obj u32 u32 u32
  | SerializeToBytes "'i hval" | DeserializeFromBytes obj

datatype 'i buf_result = ObjR obj | NumR u32 | ValR "'i hval" | VoidR

definition as_obj :: "('i, obj) obj_op \<Rightarrow> ('i, 'i buf_result) obj_op" where
  "as_obj f = bind_op f (\<lambda>ob. ret (ObjR ob))"

definition as_num :: "('i, u32) obj_op \<Rightarrow> ('i, 'i buf_result) obj_op" where
  "as_num f = bind_op f (\<lambda>n. ret (NumR n))"

definition as_void :: "('i, unit) obj_op \<Rightarrow> ('i, 'i buf_result) obj_op" where
  "as_void f = bind_op f (\<lambda>_. ret VoidR)"

definition as_val :: "('i, 'i hval) obj_op \<Rightarrow> ('i, 'i buf_result) obj_op" where
  "as_val f = bind_op f (\<lambda>v. ret (ValR v))"

fun run_buf_call :: "'i env_common \<Rightarrow> nat \<Rightarrow> 'i buf_call \<Rightarrow> ('i, 'i buf_result) obj_op" where
  "run_buf_call C d BytesNew = as_obj (bytes_new C)"
| "run_buf_call C d (BytesPut b i u) = as_obj (bytes_put C b i u)"
| "run_buf_call C d (BytesGet b i) = as_num (bytes_get b i)"
| "run_buf_call C d (BytesDel b i) = as_obj (bytes_del C b i)"
| "run_buf_call C d (MemLen k b) = as_num (mem_len k b)"
| "run_buf_call C d (BytesPush b u) = as_obj (bytes_push C b u)"
| "run_buf_call C d (BytesPop b) = as_obj (bytes_pop C b)"
| "run_buf_call C d (BytesFront b) = as_num (bytes_front b)"
| "run_buf_call C d (BytesBack b) = as_num (bytes_back b)"
| "run_buf_call C d (BytesInsert b i u) = as_obj (bytes_insert C b i u)"
| "run_buf_call C d (BytesAppend b b') = as_obj (bytes_append C b b')"
| "run_buf_call C d (BytesSlice b i j) = as_obj (bytes_slice C b i j)"
| "run_buf_call C d (CopyToLinearMemory k b bp lp n) = as_void (memobj_copy_to_linear_memory C k b bp lp n)"
| "run_buf_call C d (BytesCopyFromLinearMemory b bp lp n) =
     as_obj (memobj_copy_from_linear_memory C BytesK b bp lp n)"
| "run_buf_call C d (NewFromLinearMemory k lp n) = as_obj (memobj_new_from_linear_memory C k lp n)"
| "run_buf_call C d (SymbolIndexInLinearMemory x lp n) = as_num (symbol_index_in_linear_memory C x lp n)"
| "run_buf_call C d (VecNewFromLinearMemory p n) = as_obj (vec_new_from_linear_memory C p n)"
| "run_buf_call C d (VecUnpackToLinearMemory v p n) = as_void (vec_unpack_to_linear_memory C v p n)"
| "run_buf_call C d (MapNewFromLinearMemory k p n) = as_obj (map_new_from_linear_memory C d k p n)"
| "run_buf_call C d (MapUnpackToLinearMemory m k p n) = as_void (map_unpack_to_linear_memory C m k p n)"
| "run_buf_call C d (SerializeToBytes v) = as_obj (serialize_to_bytes C d v)"
| "run_buf_call C d (DeserializeFromBytes b) = as_val (deserialize_from_bytes C d b)"

end
