(* ===== verification/Host_Object_Inv.thy ===== *)
theory Host_Object_Inv
  imports Host_Convert
begin

text \<open>
  The invariants of the object table. Handles name the index they were made for, objects are only
  ever added, and the references that the host keeps stay valid (\<open>objs_ok\<close>).
\<close>

section \<open>Handles\<close>

lemma relative_iff_even: "is_relative_object_handle h \<longleftrightarrow> even h"
  by (simp add: is_relative_object_handle_def and_one_eq even_iff_mod_2_eq_zero)

lemma index_to_handle_eq:
  assumes "i < 2 ^ 31"
  shows "index_to_handle i relative = Inr (word_of_nat (2 * i + of_bool (\<not> relative)))"
proof -
  have double: "push_bit 1 (word_of_nat i :: u32) = word_of_nat (2 * i)"
    by (simp add: push_bit_eq_mult)
  have odd: "or (word_of_nat (2 * i) :: u32) 1 = word_of_nat (2 * i + 1)"
    by (simp add: or_one_eq)
  show ?thesis
    using assms double odd
    by (simp add: index_to_handle_def checked_shl_def del: word_of_nat_eq_0_iff of_nat_mult of_nat_add of_nat_Suc push_bit_of_nat)
qed

lemma handle_of_index:
  assumes "i < 2 ^ 31" and "index_to_handle i relative = Inr h"
  shows "handle_to_index h = i" and "is_relative_object_handle h = relative"
proof -
  have h: "h = word_of_nat (2 * i + of_bool (\<not> relative))"
    using assms by (simp add: index_to_handle_eq)
  have "2 * i + of_bool (\<not> relative) < 2 ^ 32"
    using assms(1) by (cases relative) simp_all
  then have n: "unat h = 2 * i + of_bool (\<not> relative)"
    unfolding h by (rule unat_u32_of_nat)
  have "handle_to_index h = unat h div 2"
    unfolding handle_to_index_def by (simp add: drop_bit_eq_div unat_div_distrib)
  then show "handle_to_index h = i"
    unfolding n by (cases relative) simp_all
  have "even h \<longleftrightarrow> even (unat h)"
    by transfer (simp add: even_nat_iff)
  then show "is_relative_object_handle h = relative"
    unfolding relative_iff_even n by (cases relative) simp_all
qed

text \<open>
  From \<open>2 ^ 31\<close> on the shift drops the highest bit of the index, which \<open>checked_shl\<close> does not report:
  two objects get the same handle.
\<close>

lemma index_to_handle_wraps:
  assumes "i < 2 ^ 31"
  shows "index_to_handle (i + 2 ^ 31) relative = index_to_handle i relative"
proof -
  have zero: "(4294967296 :: u32) = 0"
    by (simp add: word_unat_eq_iff)
  have shifted: "push_bit 1 (word_of_nat (i + 2 ^ 31) :: u32) = push_bit 1 (word_of_nat i)"
    by (simp add: push_bit_eq_mult zero)
  show ?thesis
    using assms unfolding index_to_handle_def checked_shl_def shifted by simp
qed

section \<open>The table of objects\<close>

definition valid_obj :: "'i host_object list \<Rightarrow> obj \<Rightarrow> bool" where
  "valid_obj objects ob \<longleftrightarrow>
     \<not> is_relative_object_handle (obj_handle ob) \<and> handle_to_index (obj_handle ob) < length objects \<and>
     object_tag (objects ! handle_to_index (obj_handle ob)) = obj_tag ob"

fun valid_hval :: "'i host_object list \<Rightarrow> 'i hval \<Rightarrow> bool" where
  "valid_hval objects (SmallV _) \<longleftrightarrow> True"
| "valid_hval objects (ObjV ob) \<longleftrightarrow> valid_obj objects ob"

text \<open>The table only grows: an object stays where it is and does not change.\<close>

definition grows :: "'i objs \<Rightarrow> 'i objs \<Rightarrow> bool" where
  "grows s t \<longleftrightarrow> (\<exists>new. ob_objects t = ob_objects s @ new)"

lemma grows_refl [simp]: "grows s s"
  by (simp add: grows_def)

lemma grows_trans [trans]: "grows s t \<Longrightarrow> grows t u \<Longrightarrow> grows s u"
  by (auto simp: grows_def)

lemma grows_length: "grows s t \<Longrightarrow> length (ob_objects s) \<le> length (ob_objects t)"
  by (auto simp: grows_def)

lemma grows_nth: "grows s t \<Longrightarrow> i < length (ob_objects s) \<Longrightarrow> ob_objects t ! i = ob_objects s ! i"
  by (auto simp: grows_def nth_append)

lemma grows_stack [simp]: "grows s (t\<lparr>ob_stack := x\<rparr>) = grows s t"
  by (simp add: grows_def)

lemma valid_obj_grows: "valid_obj (ob_objects s) ob \<Longrightarrow> grows s t \<Longrightarrow> valid_obj (ob_objects t) ob"
  by (auto simp: valid_obj_def grows_def nth_append)

lemma valid_hval_grows: "valid_hval (ob_objects s) v \<Longrightarrow> grows s t \<Longrightarrow> valid_hval (ob_objects t) v"
  by (cases v) (auto intro: valid_obj_grows)

lemma add_host_object_Inr:
  assumes "add_host_object hot s = Inr (ob, t)"
  shows "ob_objects t = ob_objects s @ [hot]" and "ob_stack t = ob_stack s" and "obj_tag ob = object_tag hot"
    and "length (ob_objects s) < 2 ^ 31 \<Longrightarrow>
      \<not> is_relative_object_handle (obj_handle ob) \<and> handle_to_index (obj_handle ob) = length (ob_objects s)"
  using assms handle_of_index [of "length (ob_objects s)" False "obj_handle ob"]
  by (auto simp: add_host_object_def split: sum.splits)

lemma add_host_object_valid:
  assumes "add_host_object hot s = Inr (ob, t)" and "length (ob_objects t) \<le> 2 ^ 31"
  shows "valid_obj (ob_objects t) ob" and "grows s t"
  using add_host_object_Inr [OF assms(1)] assms(2) by (auto simp: valid_obj_def grows_def)

definition object_at :: "'i objs \<Rightarrow> obj \<Rightarrow> 'i host_object \<Rightarrow> bool" where
  "object_at s ob hot \<longleftrightarrow>
     \<not> is_relative_object_handle (obj_handle ob) \<and> handle_to_index (obj_handle ob) < length (ob_objects s) \<and>
     ob_objects s ! handle_to_index (obj_handle ob) = hot"

lemma visit_object_at: "object_at s ob hot \<Longrightarrow> visit_obj_untyped ob f s = f hot s"
  by (simp add: object_at_def visit_obj_untyped_def)

lemma added_object_at:
  assumes "add_host_object hot s = Inr (ob, t)" and "grows t u" and "length (ob_objects u) \<le> 2 ^ 31"
  shows "object_at u ob hot"
proof -
  note add = add_host_object_Inr [OF assms(1)]
  have len: "length (ob_objects s) < length (ob_objects u)"
    using grows_length [OF assms(2)] add(1) by simp
  then have at: "\<not> is_relative_object_handle (obj_handle ob)" "handle_to_index (obj_handle ob) = length (ob_objects s)"
    using add(4) assms(3) by simp_all
  moreover have "ob_objects u ! length (ob_objects s) = hot"
    using grows_nth [OF assms(2), of "length (ob_objects s)"] add(1) by simp
  ultimately show ?thesis
    using len by (simp add: object_at_def)
qed

lemma check_obj_integrity_Inr:
  "check_obj_integrity ob s = Inr (u, t) \<longleftrightarrow> t = s \<and> valid_obj (ob_objects s) ob"
  by (auto simp: check_obj_integrity_def visit_obj_untyped_def valid_obj_def Let_def)

lemma check_val_integrity_Inr:
  "check_val_integrity v s = Inr (u, t) \<longleftrightarrow> t = s \<and> valid_hval (ob_objects s) v"
  by (cases v) (auto simp: check_val_integrity_def check_obj_integrity_Inr)

section \<open>Runs over a list\<close>

lemma map_op_rel:
  assumes "map_op f xs s = Inr (ys, t)" and "\<And>s. R s s" and "\<And>s t u. R s t \<Longrightarrow> R t u \<Longrightarrow> R s u"
    and "\<And>x s y t. x \<in> set xs \<Longrightarrow> f x s = Inr (y, t) \<Longrightarrow> R s t"
  shows "R s t"
  using assms(1,4)
proof (induction xs arbitrary: s ys)
  case Nil
  then show ?case using assms(2) by simp
next
  case (Cons x xs)
  from Cons.prems(1) obtain y s1 zs where "f x s = Inr (y, s1)" "map_op f xs s1 = Inr (zs, t)"
    by (auto simp: bind_op_Inr)
  with Cons.IH [of s1 zs] Cons.prems(2) assms(3) show ?case
    by (meson list.set_intros)
qed

lemma map_op_length: "map_op f xs s = Inr (ys, t) \<Longrightarrow> length ys = length xs"
  by (induction xs arbitrary: s ys) (auto simp: bind_op_Inr)

text \<open>
  A run that turns the values of a list into others is undone by a run that undoes each of them,
  in any later state.
\<close>

lemma map_op_inverse:
  assumes "map_op f xs s = Inr (ys, t)" and "R t u"
    and "\<And>s. R s s" and "\<And>s t u. R s t \<Longrightarrow> R t u \<Longrightarrow> R s u"
    and "\<And>x s y t. x \<in> set xs \<Longrightarrow> f x s = Inr (y, t) \<Longrightarrow> R s t"
    and "\<And>x s y t. x \<in> set xs \<Longrightarrow> f x s = Inr (y, t) \<Longrightarrow> R t u \<Longrightarrow> g y u = Inr (x, u)"
  shows "map_op g ys u = Inr (xs, u)"
  using assms(1,5,6)
proof (induction xs arbitrary: s ys)
  case Nil
  then show ?case by simp
next
  case (Cons x xs)
  from Cons.prems(1) obtain y s1 zs where step: "f x s = Inr (y, s1)" "map_op f xs s1 = Inr (zs, t)" "ys = y # zs"
    by (auto simp: bind_op_Inr)
  have "R s1 t"
    by (rule map_op_rel [OF step(2)]) (auto intro: assms(3,4) Cons.prems(2))
  then have "g y u = Inr (x, u)"
    using Cons.prems(3) [of x] step(1) assms(2,4) by (meson list.set_intros(1))
  moreover have "map_op g zs u = Inr (xs, u)"
    by (rule Cons.IH [OF step(2)]) (auto intro: Cons.prems(2,3))
  ultimately show ?case
    using step(3) by (simp add: bind_op_def)
qed

end
