(* ===== verification/Host_Convert_Props.thy ===== *)
theory Host_Convert_Props
  imports Host_Object_Inv
begin

text \<open>
  Conversion and back: an XDR value that was turned into host objects is read back as it was, in
  any later state of the host (\<open>scval_survives_as_objects\<close>).
\<close>

section \<open>What the crates promise\<close>

text \<open>
  A small value stands for the XDR value it was made of, and every XDR value that a value of the
  host can be made of is one that it can represent.
\<close>

definition classify_laws :: "'i env_common \<Rightarrow> bool" where
  "classify_laws C \<longleftrightarrow>
     (\<forall>v i. cm_classify C v = Inr (Some i) \<longrightarrow> cm_scv_of C i = Inr v) \<and>
     (\<forall>v r. cm_classify C v = Inr r \<longrightarrow> cm_can_represent C v)"

section \<open>Conversion grows the table\<close>

lemma add_object_val_Inr:
  assumes "add_object_val hot s = Inr (x, t)"
  obtains ob where "x = ObjV ob" "add_host_object hot s = Inr (ob, t)"
  using assms by (auto simp: add_object_val_def bind_op_Inr)

lemma add_object_val_grows: "add_object_val hot s = Inr (x, t) \<Longrightarrow> grows s t \<and> ob_stack t = ob_stack s"
  by (erule add_object_val_Inr) (auto simp: grows_def dest: add_host_object_Inr)

definition runs_on :: "'i objs \<Rightarrow> 'i objs \<Rightarrow> bool" where
  "runs_on s t \<longleftrightarrow> grows s t \<and> ob_stack t = ob_stack s"

lemma runs_on_refl: "runs_on s s"
  by (simp add: runs_on_def)

lemma runs_on_trans: "runs_on s t \<Longrightarrow> runs_on t u \<Longrightarrow> runs_on s u"
  by (auto simp: runs_on_def intro: grows_trans)

lemma runs_on_add: "add_object_val hot s = Inr (x, t) \<Longrightarrow> runs_on s t"
  by (simp add: runs_on_def add_object_val_grows)

lemma map_op_runs_on:
  assumes "map_op f xs s = Inr (ys, t)" and "\<And>x s y t. x \<in> set xs \<Longrightarrow> f x s = Inr (y, t) \<Longrightarrow> runs_on s t"
  shows "runs_on s t"
  by (rule map_op_rel [OF assms(1), where R = runs_on])
     (auto intro: runs_on_refl runs_on_trans assms(2))

definition pair_op :: "('a \<Rightarrow> ('s, 'b) op) \<Rightarrow> 'a \<times> 'a \<Rightarrow> ('s, 'b \<times> 'b) op" where
  "pair_op f = (\<lambda>(x, y). bind_op (f x) (\<lambda>k. bind_op (f y) (\<lambda>v. ret (k, v))))"

lemma of_result_Inr_iff: "of_result r s = Inr (a, t) \<longleftrightarrow> r = Inr a \<and> t = s"
  by (auto simp: of_result_def split: sum.splits)

lemma omap_from_map_Inr: "omap_from_map c m = Inr m' \<Longrightarrow> m' = m \<and> length m < 2 ^ 32"
  by (auto simp: omap_from_map_def split: if_splits sum.splits)

lemma mv_from_vec_Inr: "mv_from_vec xs = Inr ys \<Longrightarrow> ys = xs \<and> length xs < 2 ^ 32"
  by (auto simp: mv_from_vec_def split: if_splits)

lemma to_host_obj_Vec:
  assumes "to_host_obj C f (VecS (Some v)) s = Inr (x, t)"
  obtains xs s1 where "map_op f v s = Inr (xs, s1)" "length xs < 2 ^ 32"
    "add_object_val (VecHO xs) s1 = Inr (x, t)"
  using assms
  by (auto simp: to_host_obj_def bind_op_Inr of_result_Inr_iff dest!: mv_from_vec_Inr)

lemma to_host_obj_Map:
  assumes "to_host_obj C f (MapS (Some m)) s = Inr (x, t)"
  obtains xs s1 where "map_op (pair_op f) m s = Inr (xs, s1)" "length xs < 2 ^ 32"
    "add_object_val (MapHO xs) s1 = Inr (x, t)"
  using assms
  by (auto simp: to_host_obj_def bind_op_Inr of_result_Inr_iff pair_op_def split_def
      dest!: omap_from_map_Inr)

lemma pair_op_Inr:
  assumes "pair_op f p s = Inr (q, t)"
  obtains s1 where "f (fst p) s = Inr (fst q, s1)" "f (snd p) s1 = Inr (snd q, t)"
  using assms by (auto simp: pair_op_def split_def bind_op_Inr)

lemma to_host_obj_runs_on:
  assumes "to_host_obj C f v s = Inr (x, t)" and f: "\<And>v s x t. f v s = Inr (x, t) \<Longrightarrow> runs_on s t"
  shows "runs_on s t"
proof -
  have pair: "runs_on s t" if "pair_op f p s = Inr (q, t)" for p s q t
    using that by (elim pair_op_Inr) (blast intro: runs_on_trans f)
  consider (vec) w where "v = VecS (Some w)" | (scmap) m where "v = MapS (Some m)"
    | (atom) "\<nexists>w. v = VecS (Some w)" "\<nexists>m. v = MapS (Some m)"
    by blast
  then show ?thesis
  proof cases
    case vec
    from assms(1) [unfolded vec] obtain xs s1
      where "map_op f w s = Inr (xs, s1)" "add_object_val (VecHO xs) s1 = Inr (x, t)"
      by (rule to_host_obj_Vec)
    then show ?thesis
      by (meson map_op_runs_on f runs_on_add runs_on_trans)
  next
    case scmap
    from assms(1) [unfolded scmap] obtain xs s1
      where "map_op (pair_op f) m s = Inr (xs, s1)" "add_object_val (MapHO xs) s1 = Inr (x, t)"
      by (rule to_host_obj_Map)
    then show ?thesis
      by (meson map_op_runs_on pair runs_on_add runs_on_trans)
  next
    case atom
    with assms(1) show ?thesis
      by (cases v) (auto simp: to_host_obj_def bind_op_Inr of_result_Inr_iff split: option.splits dest: runs_on_add)
  qed
qed

lemma to_host_val_runs_on: "to_host_val C d v s = Inr (x, t) \<Longrightarrow> runs_on s t"
proof (induction d arbitrary: v s x t)
  case 0
  then show ?case by simp
next
  case (Suc d)
  then show ?case
    by (auto simp: bind_op_Inr of_result_Inr_iff split: option.splits
        intro: runs_on_refl to_host_obj_runs_on)
qed

section \<open>There and back\<close>

lemma added_val_at:
  assumes "add_object_val hot s = Inr (x, t)" and "grows t u" and "length (ob_objects u) \<le> 2 ^ 31"
  obtains ob where "x = ObjV ob" "object_at u ob hot"
  using assms by (elim add_object_val_Inr) (blast intro: added_object_at)

text \<open>An object is read back as the value it was made of, if its elements are.\<close>

lemma from_to_host_obj:
  assumes conv: "to_host_obj C f v s = Inr (x, t)" and later: "grows t u" "length (ob_objects u) \<le> 2 ^ 31"
    and f: "\<And>v s x t. f v s = Inr (x, t) \<Longrightarrow> runs_on s t"
    and undo: "\<And>v s x t. f v s = Inr (x, t) \<Longrightarrow> grows t u \<Longrightarrow> g x u = Inr (v, u)"
  obtains ob where "x = ObjV ob" "from_host_obj C g ob u = Inr (v, u)"
proof -
  have pair: "grows s t" if "pair_op f p s = Inr (q, t)" for p s q t
    using that f by (elim pair_op_Inr) (meson runs_on_def grows_trans)
  have pair_back: "pair_op g q u = Inr (p, u)" if run: "pair_op f p s = Inr (q, t)" and "grows t u" for p s q t
  proof -
    from run obtain s1 where 1: "f (fst p) s = Inr (fst q, s1)" "f (snd p) s1 = Inr (snd q, t)"
      by (rule pair_op_Inr)
    have "grows s1 u"
      using f [OF 1(2)] that(2) by (auto simp: runs_on_def intro: grows_trans)
    with undo 1 that(2) show ?thesis
      by (simp add: pair_op_def split_def bind_op_def)
  qed
  consider (vec) w where "v = VecS (Some w)" | (scmap) m where "v = MapS (Some m)"
    | (atom) "\<nexists>w. v = VecS (Some w)" "\<nexists>m. v = MapS (Some m)"
    by blast
  then show thesis
  proof cases
    case vec
    from conv [unfolded vec] obtain xs s1 where
      run: "map_op f w s = Inr (xs, s1)" "length xs < 2 ^ 32" "add_object_val (VecHO xs) s1 = Inr (x, t)"
      by (rule to_host_obj_Vec)
    obtain ob where ob: "x = ObjV ob" "object_at u ob (VecHO xs)"
      using run(3) later by (rule added_val_at)
    have "grows s1 u"
      using runs_on_add [OF run(3)] later(1) by (auto simp: runs_on_def intro: grows_trans)
    then have "map_op g xs u = Inr (w, u)"
      by (rule map_op_inverse [OF run(1), where R = grows]) (auto intro: grows_trans undo dest: f simp: runs_on_def)
    with ob(2) run(2) map_op_length [OF run(1)] have "from_host_obj C g ob u = Inr (VecS (Some w), u)"
      by (simp add: from_host_obj_def visit_object_at bind_op_def of_result_def xdr_vec_def)
    with that ob(1) vec show thesis by blast
  next
    case scmap
    from conv [unfolded scmap] obtain xs s1 where
      run: "map_op (pair_op f) m s = Inr (xs, s1)" "length xs < 2 ^ 32" "add_object_val (MapHO xs) s1 = Inr (x, t)"
      by (rule to_host_obj_Map)
    obtain ob where ob: "x = ObjV ob" "object_at u ob (MapHO xs)"
      using run(3) later by (rule added_val_at)
    have "grows s1 u"
      using runs_on_add [OF run(3)] later(1) by (auto simp: runs_on_def intro: grows_trans)
    then have "map_op (pair_op g) xs u = Inr (m, u)"
      by (rule map_op_inverse [OF run(1), where R = grows]) (auto intro: grows_trans pair pair_back)
    with ob(2) run(2) map_op_length [OF run(1)] have "from_host_obj C g ob u = Inr (MapS (Some m), u)"
      by (simp add: from_host_obj_def visit_object_at host_map_to_scmap_def bind_op_def of_result_def xdr_vec_def pair_op_def)
    with that ob(1) scmap show thesis by blast
  next
    case atom
    obtain hot where hot: "add_object_val hot s = Inr (x, t)"
      "\<And>ob. object_at u ob hot \<Longrightarrow> from_host_obj C g ob u = Inr (v, u)"
      using conv atom
      by (cases v) (auto simp: to_host_obj_def from_host_obj_def symbol_try_from_bytes_def bind_op_Inr
          of_result_Inr_iff visit_object_at split: option.splits if_splits)
    with later that show thesis
      by (metis added_val_at)
  qed
qed

lemma from_to_host_val:
  assumes "classify_laws C" and "to_host_val C d v s = Inr (x, t)" and "grows t u"
    and "length (ob_objects u) \<le> 2 ^ 31"
  shows "from_host_val C d x u = Inr (v, u)"
  using assms(2,3)
proof (induction d arbitrary: v s x t)
  case 0
  then show ?case by simp
next
  case (Suc d)
  from Suc.prems(1) obtain r where r: "cm_classify C v = Inr r"
    by (auto simp: bind_op_Inr of_result_Inr_iff)
  with assms(1) have rep: "cm_can_represent C v" by (auto simp: classify_laws_def)
  show ?case
  proof (cases r)
    case (Some i)
    with Suc.prems(1) r have "x = SmallV i" by (simp add: bind_op_def of_result_def)
    moreover have "cm_scv_of C i = Inr v"
      using assms(1) r Some by (auto simp: classify_laws_def)
    ultimately show ?thesis
      using rep by (simp add: bind_op_def of_result_def check_val_representable_scval_def)
  next
    case None
    with Suc.prems(1) r have "to_host_obj C (to_host_val C d) v s = Inr (x, t)"
      by (simp add: bind_op_def of_result_def)
    then obtain ob where "x = ObjV ob" "from_host_obj C (from_host_val C d) ob u = Inr (v, u)"
      using Suc.prems(2) assms(4) by (rule from_to_host_obj) (auto intro: to_host_val_runs_on Suc.IH)
    with rep show ?thesis
      by (simp add: bind_op_def check_val_representable_scval_def)
  qed
qed

text \<open>
  C36. An XDR value that the host turned into its objects, however deep, is read back as the same
  value, in every later state of the host in which the objects are still below \<open>2 ^ 31\<close>, and with
  the same limit on the depth.
\<close>

theorem scval_survives_as_objects:
  assumes "classify_laws C" and "to_host_val C depth v s = Inr (x, t)" and "grows t u"
    and "length (ob_objects u) \<le> 2 ^ 31"
  shows "from_host_val C depth x u = Inr (v, u)"
  using assms by (rule from_to_host_val)

section \<open>An instance of the crates\<close>

text \<open>
  For the examples: the small values are the void and the numbers of 32 bits, and a payload holds
  a tag in its low half and a number or a handle in its high half.
\<close>

fun tag_number :: "obj_tag \<Rightarrow> nat" where
  "tag_number VecObject = 2"
| "tag_number MapObject = 3"
| "tag_number U64Object = 4"
| "tag_number I64Object = 5"
| "tag_number TimepointObject = 6"
| "tag_number DurationObject = 7"
| "tag_number U128Object = 8"
| "tag_number I128Object = 9"
| "tag_number U256Object = 10"
| "tag_number I256Object = 11"
| "tag_number BytesObject = 12"
| "tag_number StringObject = 13"
| "tag_number SymbolObject = 14"
| "tag_number AddressObject = 15"

definition tag_of_number :: "nat \<Rightarrow> obj_tag" where
  "tag_of_number n =
     [VecObject, MapObject, U64Object, I64Object, TimepointObject, DurationObject, U128Object,
      I128Object, U256Object, I256Object, BytesObject, StringObject, SymbolObject, AddressObject] ! (n - 2)"

lemma tag_of_tag_number [simp]: "tag_of_number (tag_number t) = t"
  by (cases t) (simp_all add: tag_of_number_def)

lemma tag_number_bounds: "2 \<le> tag_number t \<and> tag_number t < 16"
  by (cases t) simp_all

fun example_payload :: "u32 option hval \<Rightarrow> u64" where
  "example_payload (SmallV None) = word_of_nat 0"
| "example_payload (SmallV (Some n)) = word_of_nat (unat n * 2 ^ 32 + 1)"
| "example_payload (ObjV ob) = word_of_nat (unat (obj_handle ob) * 2 ^ 32 + tag_number (obj_tag ob))"

definition example_from_payload :: "u64 \<Rightarrow> u32 option hval" where
  "example_from_payload w =
     (let k = unat w mod 2 ^ 32; n = word_of_nat (unat w div 2 ^ 32) in
      if k = 0 then SmallV None else if k = 1 then SmallV (Some n) else ObjV (Obj (tag_of_number k) n))"

lemma unat_halves:
  assumes "k < 2 ^ 32"
  shows "unat (word_of_nat (unat (n :: u32) * 2 ^ 32 + k) :: u64) = unat n * 2 ^ 32 + k"
proof -
  have "unat n < 2 ^ 32" using unsigned_less [of n] by simp
  with assms have "unat n * 2 ^ 32 + k < 2 ^ 64" by simp
  then have "take_bit 64 (unat n * 2 ^ 32 + k) = unat n * 2 ^ 32 + k"
    by (rule take_bit_nat_eq_self)
  then show ?thesis
    by (simp only: unsigned_of_nat) simp
qed

lemma halves: "k < 2 ^ 32 \<Longrightarrow> (n * 2 ^ 32 + k) mod 2 ^ 32 = (k :: nat) \<and> (n * 2 ^ 32 + k) div 2 ^ 32 = n"
  by simp

lemma example_payload_back: "example_from_payload (example_payload v) = v"
proof (cases v rule: example_payload.cases)
  case (2 n)
  have "(1 :: nat) < 2 ^ 32" by simp
  note eqs = unat_halves [OF this, of n] halves [OF this, of "unat n"]
  show ?thesis
    unfolding 2 example_payload.simps example_from_payload_def eqs(1) Let_def using eqs(2) by simp
next
  case (3 ob)
  have "tag_number (obj_tag ob) < 2 ^ 32" using tag_number_bounds [of "obj_tag ob"] by simp
  note eqs = unat_halves [OF this, of "obj_handle ob"] halves [OF this, of "unat (obj_handle ob)"]
  show ?thesis
    unfolding 3 example_payload.simps example_from_payload_def eqs(1) Let_def
    using eqs(2) tag_number_bounds [of "obj_tag ob"] by (cases ob) auto
qed (simp add: example_from_payload_def)

fun example_classify :: "scv \<Rightarrow> error + u32 option option" where
  "example_classify VoidS = Inr (Some None)"
| "example_classify (U32S n) = Inr (Some (Some n))"
| "example_classify (U64S n) = Inr None"
| "example_classify (BytesS n) = Inr None"
| "example_classify (SymbolS n) = Inr None"
| "example_classify (VecS n) = Inr None"
| "example_classify (MapS n) = Inr None"
| "example_classify _ = Inl ConversionError"

fun example_scv_of :: "u32 option \<Rightarrow> error + scv" where
  "example_scv_of None = Inr VoidS"
| "example_scv_of (Some n) = Inr (U32S n)"

definition example_common :: "u32 option env_common" where
  "example_common = \<lparr>cm_void = None, cm_classify = example_classify, cm_scv_of = example_scv_of,
     cm_can_represent = (\<lambda>_. True), cm_can_represent_recursive = (\<lambda>_. True),
     cm_write_xdr = (\<lambda>_. None), cm_read_xdr = (\<lambda>_. Inl ConversionError), cm_valid_byte = (\<lambda>b. b \<noteq> 0),
     cm_symbol_limit = 32, cm_symbol_small = (\<lambda>_. None), cm_compare = (\<lambda>_ _ _. Inr Less),
     cm_payload = example_payload, cm_from_payload = example_from_payload, cm_length_error = ConversionError,
     cm_mem_write = (\<lambda>mem pos bs. if pos + length bs \<le> length mem
        then Inr (take pos mem @ bs @ drop (pos + length bs) mem) else Inl (HostErr EWasmVm IndexBounds)),
     cm_mem_read = (\<lambda>mem pos n. if pos + n \<le> length mem
        then Inr (take n (drop pos mem)) else Inl (HostErr EWasmVm IndexBounds))\<rparr>"

lemma example_classify_laws: "classify_laws example_common"
proof -
  have "example_scv_of i = Inr v" if "example_classify v = Inr (Some i)" for v i
    using that by (cases v rule: example_classify.cases) auto
  then show ?thesis by (simp add: classify_laws_def example_common_def)
qed

definition example_scval :: scv where
  "example_scval = VecS (Some [U32S 5, U64S 7, VecS (Some [BytesS [1, 2], VoidS])])"

definition example_objs :: "u32 option objs" where
  "example_objs = \<lparr>ob_objects = [AddressHO (AccountAddr 3)], ob_stack = [VmFrame [] (Some (replicate 64 0))]\<rparr>"

lemma example_converts:
  "to_host_val example_common (Suc (Suc (Suc 0))) example_scval example_objs =
    Inr (ObjV (Obj VecObject 9), example_objs\<lparr>ob_objects :=
      [AddressHO (AccountAddr 3), U64HO 7, BytesHO [1, 2], VecHO [ObjV (Obj BytesObject 5), SmallV None],
       VecHO [SmallV (Some 5), ObjV (Obj U64Object 3), ObjV (Obj VecObject 7)]]\<rparr>)"
  by (simp add: example_scval_def example_objs_def example_common_def to_host_obj_def add_object_val_def
      bind_op_def add_host_object_def index_to_handle_eq mv_from_vec_def of_result_def)

theorem scval_survives_as_objects_witness:
  "\<exists>u. from_host_val example_common (Suc (Suc (Suc 0))) (ObjV (Obj VecObject 9)) u = Inr (example_scval, u)"
  using scval_survives_as_objects [OF example_classify_laws example_converts grows_refl] by fastforce

end
