(* ===== verification/Host_Memory_Inv.thy ===== *)
theory Host_Memory_Inv
  imports Host_Bytes Host_Convert_Props
begin

text \<open>
  Lemmas on bytes and memory: integers survive as bytes, values survive as relative references,
  what is written to a memory is read from it, and what a write leaves alone.
\<close>

section \<open>Integers as bytes\<close>

lemma length_to_le_bytes [simp]: "length (to_le_bytes n w) = n"
  by (simp add: to_le_bytes_def)

lemma to_le_bytes_Suc: "to_le_bytes (Suc n) w = ucast w # to_le_bytes n (drop_bit 8 w)"
  by (simp add: to_le_bytes_def map_upt_Suc ac_simps del: upt_Suc)

lemma from_to_le_bytes: "from_le_bytes (to_le_bytes n w) = (take_bit (8 * n) w :: 'a::len word)"
proof (induction n arbitrary: w)
  case 0
  then show ?case by (simp add: to_le_bytes_def)
next
  case (Suc n)
  show ?case
    by (rule bit_word_eqI)
       (auto simp: to_le_bytes_Suc Suc.IH bit_or_iff bit_push_bit_iff bit_take_bit_iff bit_unsigned_iff bit_drop_bit_eq
          dest: bit_imp_le_length)
qed

lemma from_to_le_bytes_u64 [simp]: "from_le_bytes (to_le_bytes 8 w) = (w :: 64 word)"
  by (simp add: from_to_le_bytes take_bit_word_eq_self)

section \<open>Ranges of a memory\<close>

lemma slice_get_Some:
  "slice_get from to xs = Some ys \<longleftrightarrow> from \<le> to \<and> to \<le> length xs \<and> ys = take (to - from) (drop from xs)"
  by (auto simp: slice_get_def)

lemma length_overwrite [simp]: "pos + length ys \<le> length xs \<Longrightarrow> length (overwrite pos ys xs) = length xs"
  by (simp add: overwrite_def)

lemma slice_get_overwrite:
  "pos + length ys \<le> length xs \<Longrightarrow> slice_get pos (pos + length ys) (overwrite pos ys xs) = Some ys"
  by (simp add: slice_get_def overwrite_def)

lemma nth_overwrite:
  "pos + length ys \<le> length xs \<Longrightarrow> i < length xs \<Longrightarrow>
   overwrite pos ys xs ! i = (if pos \<le> i \<and> i < pos + length ys then ys ! (i - pos) else xs ! i)"
  by (auto simp: overwrite_def nth_append)

lemma chunks_concat:
  assumes "n \<noteq> 0" and "\<And>y. y \<in> set ys \<Longrightarrow> length y = n"
  shows "chunks n (concat ys) = ys"
  using assms(2)
proof (induction ys)
  case Nil
  then show ?case by (simp add: chunks.simps)
next
  case (Cons y ys)
  then have "length y = n" "y \<noteq> []" using assms(1) by auto
  with Cons assms(1) show ?case
    by (subst chunks.simps) simp
qed

lemma chunks_of_multiple:
  assumes "n \<noteq> 0" and "length xs = k * n"
  shows "length (chunks n xs) = k \<and> (\<forall>c\<in>set (chunks n xs). length c = n)"
  using assms(2)
proof (induction k arbitrary: xs)
  case 0
  then show ?case by (simp add: chunks.simps)
next
  case (Suc k)
  have len: "length xs = n + k * n"
    using Suc.prems by (simp only: mult_Suc)
  have d: "length (drop n xs) = k * n"
    unfolding length_drop len by (rule diff_add_inverse)
  have first: "length (take n xs) = n"
    unfolding length_take len by (simp only: min_absorb2 le_add1)
  then have "xs \<noteq> []"
    using assms(1) by auto
  then have "chunks n xs = take n xs # chunks n (drop n xs)"
    using assms(1) by (simp only: chunks.simps [of n xs] if_False simp_thms)
  with Suc.IH [OF d] first show ?case
    by (simp only: list.size set_simps ball_simps) simp
qed

text \<open>The range of values, if it does not overflow.\<close>

lemma vals_range_Inr:
  "vals_range sz pos n = Inr (from, to) \<longleftrightarrow>
     sz < 2 ^ 32 \<and> n < 2 ^ 32 \<and> unat pos + n * sz < 2 ^ 32 \<and> from = unat pos \<and> to = unat pos + n * sz"
proof (cases "sz < 2 ^ 32 \<and> n < 2 ^ 32")
  case False
  then show ?thesis by (auto simp: vals_range_def usize_to_u32_def)
next
  case True
  define a b :: u32 where "a = word_of_nat n" and "b = word_of_nat sz"
  have ab: "unat a = n" "unat b = sz"
    using True by (simp_all add: a_def b_def)
  have range: "vals_range sz pos n =
      (case checked_mul a b of
         None \<Rightarrow> Inl err_arith_overflow
       | Some byte_len \<Rightarrow>
      (case checked_add pos byte_len of
         None \<Rightarrow> Inl err_arith_overflow
       | Some mem_end \<Rightarrow> Inr (unat pos, unat mem_end)))"
    using True unfolding vals_range_def usize_to_u32_def a_def b_def by simp
  show ?thesis
  proof (cases "checked_mul a b")
    case None
    then have "2 ^ 32 \<le> n * sz" unfolding checked_mul_def ab by (simp split: if_splits)
    then show ?thesis using None unfolding range by simp
  next
    case (Some c)
    then have c: "unat c = n * sz" using checked_mul_Some [OF Some] ab by simp
    show ?thesis
    proof (cases "checked_add pos c")
      case None
      then have "2 ^ 32 \<le> unat pos + n * sz" using c by (simp add: checked_add_None_iff)
      then show ?thesis using None Some unfolding range by simp
    next
      case (Some d)
      then have d: "unat d = unat pos + n * sz" using checked_add_Some [OF Some] c by simp
      moreover have "unat d < 2 ^ 32" using unsigned_less [of d] by simp
      ultimately show ?thesis using True Some \<open>checked_mul a b = Some c\<close> unfolding range by auto
    qed
  qed
qed

section \<open>Relative references\<close>

definition table_of :: "'i objs \<Rightarrow> obj list" where
  "table_of s = (case ob_stack s of VmFrame table _ # _ \<Rightarrow> table | _ \<Rightarrow> [])"

definition memory_of :: "'i objs \<Rightarrow> byte list option" where
  "memory_of s = (case ob_stack s of VmFrame _ memory # _ \<Rightarrow> memory | _ \<Rightarrow> None)"

definition in_vm :: "'i objs \<Rightarrow> bool" where
  "in_vm s \<longleftrightarrow> (\<exists>table memory frames. ob_stack s = VmFrame table memory # frames)"

text \<open>Only the table of the frame on top grows.\<close>

definition tabulates :: "'i objs \<Rightarrow> 'i objs \<Rightarrow> bool" where
  "tabulates s t \<longleftrightarrow> ob_objects t = ob_objects s \<and> (t = s \<or> (\<exists>table memory frames new.
     ob_stack s = VmFrame table memory # frames \<and> ob_stack t = VmFrame (table @ new) memory # frames))"

definition names_kept :: "'i objs \<Rightarrow> 'i objs \<Rightarrow> bool" where
  "names_kept s t \<longleftrightarrow> (\<exists>new. table_of t = table_of s @ new)"

lemma names_kept_refl [simp]: "names_kept s s"
  by (simp add: names_kept_def)

lemma names_kept_trans: "names_kept s t \<Longrightarrow> names_kept t u \<Longrightarrow> names_kept s u"
  by (auto simp: names_kept_def)

lemma tabulates_refl: "tabulates s s"
  by (simp add: tabulates_def)

lemma tabulates_trans: "tabulates s t \<Longrightarrow> tabulates t u \<Longrightarrow> tabulates s u"
  by (auto simp: tabulates_def)

lemma tabulatesD:
  assumes "tabulates s t"
  shows "ob_objects t = ob_objects s" and "memory_of t = memory_of s" and "names_kept s t" and "in_vm t = in_vm s"
    and "tl (ob_stack t) = tl (ob_stack s)" and "grows s t"
  using assms by (auto simp: tabulates_def memory_of_def names_kept_def table_of_def in_vm_def grows_def)

lemma absolute_to_relative_Inr:
  assumes "absolute_to_relative v s = Inr (r, t)"
  obtains (small) i where "v = SmallV i" "r = v" "t = s"
  | (object) ob h table memory frames where "v = ObjV ob" "\<not> is_relative_object_handle (obj_handle ob)"
      "ob_stack s = VmFrame table memory # frames" "index_to_handle (length table) True = Inr h"
      "r = ObjV (Obj (obj_tag ob) h)" "t = s\<lparr>ob_stack := VmFrame (table @ [ob]) memory # frames\<rparr>"
proof (cases v)
  case (SmallV i)
  then have "r = v" "t = s" using assms by (auto simp: absolute_to_relative_def)
  with SmallV show thesis by (rule small)
next
  case (ObjV ob)
  obtain h table memory frames where
    "\<not> is_relative_object_handle (obj_handle ob)" "ob_stack s = VmFrame table memory # frames"
    "index_to_handle (length table) True = Inr h" "r = ObjV (Obj (obj_tag ob) h)"
    "t = s\<lparr>ob_stack := VmFrame (table @ [ob]) memory # frames\<rparr>"
    using assms unfolding ObjV
    by (auto simp: absolute_to_relative_def with_current_frame_relative_object_table_def bind_op_Inr
        of_result_Inr_iff split: if_splits list.splits obj_frame.splits)
  with ObjV show thesis by (rule object)
qed

lemma absolute_to_relative_tabulates:
  assumes "absolute_to_relative v s = Inr (r, t)"
  shows "tabulates s t"
  using assms
proof (cases rule: absolute_to_relative_Inr)
  case small
  then show ?thesis by (simp add: tabulates_refl)
next
  case (object ob h table memory frames)
  then have "ob_stack t = VmFrame (table @ [ob]) memory # frames" "ob_objects t = ob_objects s"
    by simp_all
  with object(3) show ?thesis
    unfolding tabulates_def by blast
qed

text \<open>A relative reference names, for as long as its frame runs, the object that it was made for.\<close>

lemma relative_names_object:
  assumes "absolute_to_relative v s = Inr (r, t)" and "names_kept t u" and "in_vm u"
    and "length (table_of u) \<le> 2 ^ 31"
  shows "relative_to_absolute r u = Inr (v, u)"
  using assms(1)
proof (cases rule: absolute_to_relative_Inr)
  case small
  then show ?thesis by (simp add: relative_to_absolute_def)
next
  case (object ob h table memory frames)
  from assms(3) obtain tb me fr where u: "ob_stack u = VmFrame tb me # fr" by (auto simp: in_vm_def)
  from assms(2) object(6) u obtain new where tb: "tb = (table @ [ob]) @ new"
    by (auto simp: names_kept_def table_of_def)
  have "length table < 2 ^ 31" using assms(4) u tb by (simp add: table_of_def)
  note h = handle_of_index [OF this object(4)]
  have "table_get tb (length table) = Some ob" by (simp add: tb table_get_def nth_append)
  with object(1,5) h u show ?thesis
    by (simp add: relative_to_absolute_def with_current_frame_relative_object_table_def bind_op_def)
qed

section \<open>Runs over chunks\<close>

lemma map_op_zip_dst:
  "length ds = length buf \<Longrightarrow> \<forall>d\<in>set ds. length d = n \<Longrightarrow>
   map_op (\<lambda>(src, dst). if length dst \<noteq> n then fail e else f src) (zip buf ds) = map_op f buf"
  by (induction buf ds rule: list_induct2') auto

lemma map_op_zip_src:
  "length ds = length buf \<Longrightarrow> \<forall>d\<in>set ds. length d = n \<Longrightarrow>
   map_op (\<lambda>(dst, src). if length src = n then f src else fail e) (zip buf ds) = map_op f ds"
  by (induction buf ds rule: list_induct2') auto

lemma get_memory_Inr: "get_memory s = Inr (mem, t) \<longleftrightarrow> t = s \<and> memory_of s = Some mem"
  by (auto simp: get_memory_def memory_of_def split: list.splits obj_frame.splits option.splits)

lemma set_memory_Inr:
  assumes "set_memory mem s = Inr (u, t)"
  shows "memory_of t = Some mem" and "ob_objects t = ob_objects s" and "table_of t = table_of s" and "in_vm t"
    and "tl (ob_stack t) = tl (ob_stack s)" and "in_vm s"
  using assms
  by (auto simp: set_memory_def memory_of_def table_of_def in_vm_def
      split: list.splits obj_frame.splits option.splits)

lemma set_memory_runs: "memory_of s = Some old \<Longrightarrow> \<exists>t. set_memory mem s = Inr ((), t)"
  by (auto simp: set_memory_def memory_of_def split: list.splits obj_frame.splits option.splits)

section \<open>Values through memory\<close>

lemma val_to_bytes_Inr:
  assumes "val_to_bytes C v s = Inr (bs, t)"
  obtains r where "absolute_to_relative v s = Inr (r, t)" "bs = to_le_bytes 8 (cm_payload C r)"
  using assms by (auto simp: val_to_bytes_def bind_op_Inr)

definition payload_law :: "'i env_common \<Rightarrow> bool" where
  "payload_law C \<longleftrightarrow> (\<forall>v. cm_from_payload C (cm_payload C v) = v)"

lemma val_bytes_read:
  assumes "payload_law C" and "val_to_bytes C v s = Inr (bs, t)" and "names_kept t u" and "in_vm u"
    and "length (table_of u) \<le> 2 ^ 31"
  shows "val_from_bytes C bs u = Inr (v, u)"
proof -
  from assms(2) obtain r where r: "absolute_to_relative v s = Inr (r, t)" "bs = to_le_bytes 8 (cm_payload C r)"
    by (rule val_to_bytes_Inr)
  have "cm_from_payload C (from_le_bytes bs) = r"
    using assms(1) by (simp add: payload_law_def r(2))
  with relative_names_object [OF r(1) assms(3-5)] show ?thesis
    by (simp add: val_from_bytes_def)
qed

lemma vals_to_bytes:
  assumes "map_op (val_to_bytes C) xs s = Inr (bss, t)"
  shows "tabulates s t" and "length bss = length xs" and "\<forall>bs\<in>set bss. length bs = 8"
proof -
  show "tabulates s t"
    by (rule map_op_rel [OF assms, where R = tabulates])
       (auto intro: tabulates_refl tabulates_trans absolute_to_relative_tabulates elim: val_to_bytes_Inr)
  show "length bss = length xs" by (rule map_op_length [OF assms])
  show "\<forall>bs\<in>set bss. length bs = 8"
    using assms by (induction xs arbitrary: s bss) (auto simp: bind_op_Inr elim!: val_to_bytes_Inr)
qed

lemma vals_bytes_read:
  assumes "payload_law C" and "map_op (val_to_bytes C) xs s = Inr (bss, t)" and "names_kept t u" and "in_vm u"
    and "length (table_of u) \<le> 2 ^ 31"
  shows "map_op (val_from_bytes C) bss u = Inr (xs, u)"
proof (rule map_op_inverse [OF assms(2), where R = names_kept])
  show "names_kept s t" if "val_to_bytes C x s = Inr (y, t)" for x s y t
    using that by (auto elim: val_to_bytes_Inr dest: absolute_to_relative_tabulates tabulatesD)
  show "val_from_bytes C y u = Inr (x, u)" if "val_to_bytes C x s = Inr (y, t)" "names_kept t u" for x s y t
    by (rule val_bytes_read [OF assms(1) that assms(4,5)])
qed (use assms(3) in \<open>auto intro: names_kept_trans\<close>)

lemma sum_list_const: "\<forall>y\<in>set ys. length y = n \<Longrightarrow> length (concat ys) = length ys * n"
  by (induction ys) auto

text \<open>A write of values fills its range of the memory with their bytes, and changes nothing else there.\<close>

lemma write_vals_Inr:
  assumes "metered_vm_write_vals_to_linear_memory 8 pos buf f s = Inr (u, t)"
    and f: "\<And>x s bs t. f x s = Inr (bs, t) \<Longrightarrow> tabulates s t \<and> length bs = 8"
  obtains mem bss s1 where "memory_of s = Some mem" "map_op f buf s = Inr (bss, s1)" "tabulates s s1"
    "unat pos + length buf * 8 \<le> length mem" "unat pos + length buf * 8 < 2 ^ 32"
    "length (concat bss) = length buf * 8" "\<forall>bs\<in>set bss. length bs = 8" "length bss = length buf"
    "set_memory (overwrite (unat pos) (concat bss) mem) s1 = Inr (u, t)"
proof -
  let ?to = "unat pos + length buf * 8"
  from assms(1) obtain mem slice bss s1 where
    range: "?to < 2 ^ 32" and mem: "memory_of s = Some mem" and slice: "slice_get (unat pos) ?to mem = Some slice"
    and run: "map_op (\<lambda>(src, dst). if length dst \<noteq> 8 then fail (HostErr EContext InternalError) else f src)
      (zip buf (chunks 8 slice)) s = Inr (bss, s1)"
    and set: "set_memory (overwrite (unat pos) (concat bss) mem) s1 = Inr (u, t)"
    unfolding metered_vm_write_vals_to_linear_memory_def
    by (auto simp: bind_op_Inr of_result_Inr_iff ok_or_Inr vals_range_Inr get_memory_Inr split: prod.splits)
  have fits: "?to \<le> length mem" and "length slice = length buf * 8"
    using slice by (auto simp: slice_get_Some)
  from chunks_of_multiple [OF _ this(2)] have ch: "length (chunks 8 slice) = length buf" "\<forall>c\<in>set (chunks 8 slice). length c = 8"
    by simp_all
  have run': "map_op f buf s = Inr (bss, s1)"
    using run unfolding map_op_zip_dst [OF ch] .
  have tab: "tabulates s s1"
    by (rule map_op_rel [OF run', where R = tabulates]) (use f in \<open>auto intro: tabulates_refl tabulates_trans\<close>)
  have len: "\<forall>bs\<in>set bss. length bs = 8"
    using run' f by (induction buf arbitrary: s bss) (auto simp: bind_op_Inr)
  show thesis
    using that [OF mem run' tab fits range _ len map_op_length [OF run'] set] sum_list_const [OF len] map_op_length [OF run']
    by simp
qed

lemma read_vals_run:
  assumes "memory_of u = Some mem" and "slice_get (unat pos) (unat pos + length bss * 8) mem = Some (concat bss)"
    and "unat pos + length bss * 8 < 2 ^ 32" and "\<forall>bs\<in>set bss. length bs = 8" and "length buf = length bss"
    and "map_op f bss u = Inr (xs, t)"
  shows "metered_vm_read_vals_from_linear_memory 8 pos buf f u = Inr (xs, t)"
proof -
  have range: "vals_range 8 pos (length bss) = Inr (unat pos, unat pos + length bss * 8)"
    using assms(3) by (simp add: vals_range_Inr)
  have ch: "chunks 8 (concat bss) = bss"
    using assms(4) by (intro chunks_concat) auto
  have mem: "get_memory u = Inr (mem, u)"
    using assms(1) by (simp add: get_memory_Inr)
  have "map_op (\<lambda>(dst, src). if length src = 8 then f src else fail (HostErr EContext InternalError))
      (zip buf bss) u = Inr (xs, t)"
    using assms(4-6) by (subst map_op_zip_src) auto
  then show ?thesis
    using assms(2) ch map_op_length [OF assms(6)] assms(5) range mem
    by (simp add: metered_vm_read_vals_from_linear_memory_def bind_op_def of_result_def)
qed

section \<open>The references that the host keeps\<close>

fun object_vals :: "'i host_object \<Rightarrow> 'i hval set" where
  "object_vals (VecHO xs) = set xs"
| "object_vals (MapHO m) = fst ` set m \<union> snd ` set m"
| "object_vals _ = {}"

text \<open>
  Every reference in an object and in the table of a frame names an object of the type that its
  tag says.
\<close>

definition frame_ok :: "'i host_object list \<Rightarrow> obj_frame \<Rightarrow> bool" where
  "frame_ok objects fr = (case fr of VmFrame table _ \<Rightarrow> list_all (valid_obj objects) table | OtherFrame \<Rightarrow> True)"

definition objs_ok :: "'i objs \<Rightarrow> bool" where
  "objs_ok s \<longleftrightarrow> (\<forall>ho\<in>set (ob_objects s). \<forall>v\<in>object_vals ho. valid_hval (ob_objects s) v) \<and>
     list_all (frame_ok (ob_objects s)) (ob_stack s)"

lemma objs_ok_visit:
  assumes "objs_ok s" and "object_at s ob ho" and "v \<in> object_vals ho"
  shows "valid_hval (ob_objects s) v"
  using assms by (auto simp: objs_ok_def object_at_def)

lemma for_each_check:
  "\<forall>x\<in>set xs. valid_hval (ob_objects s) x \<Longrightarrow> for_each xs check_val_integrity s = Inr ((), s)"
proof (induction xs)
  case (Cons x xs)
  then have "check_val_integrity x s = Inr ((), s)" by (simp add: check_val_integrity_Inr)
  with Cons show ?case by (simp add: then_op_def)
qed simp

lemma add_object_runs:
  "length (ob_objects s) < 2 ^ 31 \<Longrightarrow> \<exists>ob t. add_host_object hot s = Inr (ob, t)"
  by (simp add: add_host_object_def index_to_handle_eq)

lemma visit_obj_Inr:
  assumes "visit_obj ex ob f s = Inr (a, t)"
  obtains ho h where "object_at s ob ho" "ex ho = Some h" "f h s = Inr (a, t)"
  using assms
  by (auto simp: visit_obj_def visit_obj_untyped_def object_at_def Let_def split: if_splits option.splits)

end
