(* ===== verification/Host_Object_Keep.thy ===== *)
theory Host_Object_Keep
  imports Host_Memory_Inv
begin

text \<open>
  What every host function keeps (\<open>keeps\<close>): objects are added and never changed, the frames below
  the running one are left alone, and every reference that the host holds stays one to an object
  of its type (\<open>objs_ok\<close>). The rules follow the operations of which the functions are made.
\<close>

section \<open>Triples\<close>

definition keeps ::
  "('i host_object list \<Rightarrow> bool) \<Rightarrow> ('i, 'a) obj_op \<Rightarrow> ('a \<Rightarrow> 'i host_object list \<Rightarrow> bool) \<Rightarrow> bool" where
  "keeps P f Q \<longleftrightarrow> (\<forall>s a t. f s = Inr (a, t) \<longrightarrow>
     grows s t \<and> tl (ob_stack t) = tl (ob_stack s) \<and>
     (length (ob_objects t) \<le> 2 ^ 31 \<longrightarrow> objs_ok s \<longrightarrow> P (ob_objects s) \<longrightarrow> objs_ok t \<and> Q a (ob_objects t)))"

named_theorems keeps "what the operations of the host keep"

lemma keepsI:
  assumes "\<And>s a t. f s = Inr (a, t) \<Longrightarrow> grows s t" and "\<And>s a t. f s = Inr (a, t) \<Longrightarrow> tl (ob_stack t) = tl (ob_stack s)"
    and "\<And>s a t. f s = Inr (a, t) \<Longrightarrow> length (ob_objects t) \<le> 2 ^ 31 \<Longrightarrow> objs_ok s \<Longrightarrow> P (ob_objects s) \<Longrightarrow>
      objs_ok t \<and> Q a (ob_objects t)"
  shows "keeps P f Q"
  using assms by (simp add: keeps_def)

lemma keepsD:
  assumes "keeps P f Q" and "f s = Inr (a, t)"
  shows "grows s t" and "tl (ob_stack t) = tl (ob_stack s)"
    and "length (ob_objects t) \<le> 2 ^ 31 \<Longrightarrow> objs_ok s \<Longrightarrow> P (ob_objects s) \<Longrightarrow> objs_ok t"
    and "length (ob_objects t) \<le> 2 ^ 31 \<Longrightarrow> objs_ok s \<Longrightarrow> P (ob_objects s) \<Longrightarrow> Q a (ob_objects t)"
  using assms by (auto simp: keeps_def)

text \<open>An assertion on the objects that adding objects cannot break.\<close>

definition lasting :: "('i host_object list \<Rightarrow> bool) \<Rightarrow> bool" where
  "lasting P \<longleftrightarrow> (\<forall>os new. P os \<longrightarrow> P (os @ new))"

lemma lasting_grows: "lasting P \<Longrightarrow> P (ob_objects s) \<Longrightarrow> grows s t \<Longrightarrow> P (ob_objects t)"
  by (auto simp: lasting_def grows_def)

lemma valid_obj_append: "valid_obj os ob \<Longrightarrow> valid_obj (os @ new) ob"
  by (auto simp: valid_obj_def nth_append)

lemma valid_hval_append: "valid_hval os v \<Longrightarrow> valid_hval (os @ new) v"
  by (cases v) (auto intro: valid_obj_append)

lemma lasting_intros [keeps]:
  "lasting (\<lambda>_. True)" "lasting (\<lambda>os. valid_obj os ob)" "lasting (\<lambda>os. valid_hval os v)"
  "lasting (\<lambda>os. \<forall>v\<in>S. valid_hval os v)" "lasting (\<lambda>os. ho \<in> set os)"
  "lasting P \<Longrightarrow> lasting R \<Longrightarrow> lasting (\<lambda>os. P os \<and> R os)"
  by (auto simp: lasting_def intro: valid_obj_append valid_hval_append)

lemma keeps_conseq:
  "keeps P f Q \<Longrightarrow> (\<And>os. P' os \<Longrightarrow> P os) \<Longrightarrow> (\<And>a os. Q a os \<Longrightarrow> Q' a os) \<Longrightarrow> keeps P' f Q'"
  unfolding keeps_def by blast

lemma keeps_frame:
  assumes "keeps P f Q" and "lasting R"
  shows "keeps (\<lambda>os. P os \<and> R os) f (\<lambda>a os. Q a os \<and> R os)"
  using assms(1) lasting_grows [OF assms(2)] unfolding keeps_def by blast

lemma keeps_bind:
  assumes f: "keeps P f Q" and g: "\<And>a. keeps (Q a) (g a) R"
  shows "keeps P (bind_op f g) R"
proof (rule keepsI)
  fix s b u
  assume "bind_op f g s = Inr (b, u)"
  then obtain a t where run: "f s = Inr (a, t)" "g a t = Inr (b, u)"
    by (auto simp: bind_op_Inr)
  note F = keepsD [OF f run(1)] and G = keepsD [OF g run(2)]
  show "grows s u" using F(1) G(1) by (rule grows_trans)
  show "tl (ob_stack u) = tl (ob_stack s)" using F(2) G(2) by simp
  assume "length (ob_objects u) \<le> 2 ^ 31" "objs_ok s" "P (ob_objects s)"
  moreover from this have "length (ob_objects t) \<le> 2 ^ 31" using grows_length [OF G(1)] by simp
  ultimately show "objs_ok u \<and> R b (ob_objects u)" using F(3,4) G(3,4) by simp
qed

lemma keeps_then:
  assumes "keeps P f (\<lambda>_. Q)" and "keeps Q g R"
  shows "keeps P (then_op f g) R"
proof -
  have "then_op f g = bind_op f (\<lambda>_. g)"
    by (simp add: fun_eq_iff then_op_def bind_op_def)
  with keeps_bind [OF assms(1), of "\<lambda>_. g" R] assms(2) show ?thesis by simp
qed

text \<open>Operations that only look.\<close>

lemma keeps_read:
  assumes "\<And>s a t. f s = Inr (a, t) \<Longrightarrow> t = s"
    and "\<And>s a. f s = Inr (a, s) \<Longrightarrow> objs_ok s \<Longrightarrow> P (ob_objects s) \<Longrightarrow> Q a (ob_objects s)"
  shows "keeps P f Q"
  using assms by (intro keepsI) fastforce+

lemma keeps_ret [keeps]: "(\<And>os. P os \<Longrightarrow> Q a os) \<Longrightarrow> keeps P (ret a) Q"
  by (rule keeps_read) auto

lemma keeps_fail [keeps]: "keeps P (fail e) Q"
  by (rule keeps_read) auto

lemma keeps_of_result [keeps]: "(\<And>a os. r = Inr a \<Longrightarrow> P os \<Longrightarrow> Q a os) \<Longrightarrow> keeps P (of_result r) Q"
  by (rule keeps_read) (auto simp: of_result_Inr_iff)

lemma keeps_ok_or [keeps]: "(\<And>a os. x = Some a \<Longrightarrow> P os \<Longrightarrow> Q a os) \<Longrightarrow> keeps P (ok_or e x) Q"
  by (rule keeps_read) (auto simp: ok_or_Inr)

lemma keeps_if [keeps]:
  "(c \<Longrightarrow> keeps P f Q) \<Longrightarrow> (\<not> c \<Longrightarrow> keeps P g Q) \<Longrightarrow> keeps P (if c then f else g) Q"
  by simp

lemma keeps_get_memory [keeps]: "keeps P get_memory (\<lambda>_. P)"
  by (rule keeps_read) (auto simp: get_memory_Inr)

lemma keeps_get_mem_fn_args [keeps]: "keeps P get_mem_fn_args (\<lambda>_. P)"
  by (rule keeps_read) (auto simp: get_mem_fn_args_def split: list.splits obj_frame.splits)

lemma keeps_set_memory [keeps]: "keeps P (set_memory mem) (\<lambda>_. P)"
  by (rule keepsI)
     (auto simp: set_memory_def grows_def objs_ok_def frame_ok_def split: list.splits obj_frame.splits option.splits)

lemma keeps_check [keeps]: "keeps P (check_val_integrity v) (\<lambda>_ os. valid_hval os v \<and> P os)"
  by (rule keeps_read) (auto simp: check_val_integrity_Inr)

section \<open>Objects\<close>

lemma frame_ok_append: "frame_ok os fr \<Longrightarrow> frame_ok (os @ new) fr"
  by (cases fr) (auto simp: frame_ok_def list_all_iff valid_obj_append)

lemma objs_ok_add:
  assumes "objs_ok s" and "\<forall>v\<in>object_vals hot. valid_hval (ob_objects s) v"
    and "ob_objects t = ob_objects s @ [hot]" and "ob_stack t = ob_stack s"
  shows "objs_ok t"
  using assms by (auto simp: objs_ok_def list_all_iff frame_ok_append valid_hval_append)

lemma keeps_add_host_object [keeps]:
  assumes "\<And>os. P os \<Longrightarrow> \<forall>v\<in>object_vals hot. valid_hval os v"
  shows "keeps P (add_host_object hot) (\<lambda>ob os. valid_obj os ob)"
proof (rule keepsI)
  fix s ob t
  assume run: "add_host_object hot s = Inr (ob, t)"
  note add = add_host_object_Inr [OF run]
  show gr: "grows s t" and "tl (ob_stack t) = tl (ob_stack s)"
    using add by (auto simp: grows_def)
  assume "length (ob_objects t) \<le> 2 ^ 31" "objs_ok s" "P (ob_objects s)"
  moreover from this have "valid_obj (ob_objects t) ob"
    using add_host_object_valid [OF run] by simp
  ultimately show "objs_ok t \<and> valid_obj (ob_objects t) ob"
    using assms add(1,2) by (blast intro: objs_ok_add)
qed

lemma keeps_visit_obj_untyped:
  assumes "\<And>ho. keeps (\<lambda>os. P os \<and> ho \<in> set os \<and> (\<forall>v\<in>object_vals ho. valid_hval os v)) (f ho) Q"
  shows "keeps P (visit_obj_untyped ob f) Q"
proof (rule keepsI)
  fix s a t
  assume "visit_obj_untyped ob f s = Inr (a, t)"
  then obtain ho where ho: "ho \<in> set (ob_objects s)" "f ho s = Inr (a, t)"
    by (force simp: visit_obj_untyped_def Let_def split: if_splits)
  note F = keepsD [OF assms ho(2)]
  show "grows s t" "tl (ob_stack t) = tl (ob_stack s)" by (rule F(1), rule F(2))
  assume "length (ob_objects t) \<le> 2 ^ 31" "objs_ok s" "P (ob_objects s)"
  then show "objs_ok t \<and> Q a (ob_objects t)"
    using F(3,4) ho(1) by (simp add: objs_ok_def)
qed

lemma keeps_visit_obj [keeps]:
  assumes "\<And>ho h. ex ho = Some h \<Longrightarrow>
    keeps (\<lambda>os. P os \<and> ho \<in> set os \<and> (\<forall>v\<in>object_vals ho. valid_hval os v)) (f h) Q"
  shows "keeps P (visit_obj ex ob f) Q"
  unfolding visit_obj_def
  by (rule keeps_visit_obj_untyped) (auto split: option.splits intro: keeps_fail assms)

section \<open>Lists\<close>

lemma keeps_map_op:
  assumes "\<And>x. x \<in> set xs \<Longrightarrow> keeps P (f x) (\<lambda>y os. R y os \<and> P os)" and "\<And>y. lasting (R y)"
  shows "keeps P (map_op f xs) (\<lambda>ys os. (\<forall>y\<in>set ys. R y os) \<and> P os)"
  using assms(1)
proof (induction xs)
  case Nil
  show ?case unfolding map_op.simps by (rule keeps_ret) simp
next
  case (Cons x xs)
  have tail: "keeps P (map_op f xs) (\<lambda>ys os. (\<forall>y\<in>set ys. R y os) \<and> P os)"
    using Cons by simp
  have "keeps (\<lambda>os. R y os \<and> P os) (bind_op (map_op f xs) (\<lambda>ys. ret (y # ys)))
      (\<lambda>ys os. (\<forall>y\<in>set ys. R y os) \<and> P os)" for y
  proof (rule keeps_bind)
    show "keeps (\<lambda>os. R y os \<and> P os) (map_op f xs) (\<lambda>ys os. ((\<forall>y\<in>set ys. R y os) \<and> P os) \<and> R y os)"
      by (rule keeps_conseq [OF keeps_frame [OF tail assms(2) [of y]]]) auto
    show "keeps (\<lambda>os. ((\<forall>y\<in>set ys. R y os) \<and> P os) \<and> R y os) (ret (y # ys))
        (\<lambda>ys os. (\<forall>y\<in>set ys. R y os) \<and> P os)" for ys
      by (rule keeps_ret) auto
  qed
  from keeps_bind [OF Cons.prems [OF list.set_intros(1)] this] show ?case
    unfolding map_op.simps .
qed

lemma keeps_map_op_plain:
  assumes "\<And>x. x \<in> set xs \<Longrightarrow> keeps P (f x) (\<lambda>_. P)"
  shows "keeps P (map_op f xs) (\<lambda>_. P)"
proof -
  have "keeps P (map_op f xs) (\<lambda>ys os. (\<forall>y\<in>set ys. True) \<and> P os)"
    by (rule keeps_map_op [where R = "\<lambda>_ _. True"]) (use assms in \<open>simp_all add: lasting_def\<close>)
  then show ?thesis by simp
qed

lemma keeps_for_each_check [keeps]:
  "keeps P (for_each xs check_val_integrity) (\<lambda>_ os. (\<forall>x\<in>set xs. valid_hval os x) \<and> P os)"
proof (rule keeps_read)
  fix s a t
  assume "for_each xs check_val_integrity s = Inr (a, t)"
  then show "t = s"
    by (induction xs arbitrary: s) (auto simp: then_op_Inr check_val_integrity_Inr)
next
  fix s a
  assume "for_each xs check_val_integrity s = Inr (a, s)" "P (ob_objects s)"
  moreover from this(1) have "\<forall>x\<in>set xs. valid_hval (ob_objects s) x"
    by (induction xs) (auto simp: then_op_Inr check_val_integrity_Inr)
  ultimately show "(\<forall>x\<in>set xs. valid_hval (ob_objects s) x) \<and> P (ob_objects s)" by simp
qed

lemma keeps_scan_slices:
  assumes "\<And>i mem acc. keeps (P acc) (callback i mem acc) P"
  shows "keeps (P acc) (scan_slices mem_data callback left i pos acc) P"
proof (induction left arbitrary: i pos acc)
  case 0
  show ?case unfolding scan_slices.simps by (rule keeps_ret)
next
  case (Suc left)
  show ?case
    unfolding scan_slices.simps Let_def
    by (intro keeps_bind [OF keeps_ok_or, where Q = "\<lambda>_. P acc"] keeps_if keeps_fail
        keeps_bind [OF assms] Suc.IH)
qed

lemma keeps_scan [keeps]:
  assumes "\<And>i mem acc. keeps (P acc) (callback i mem acc) P"
  shows "keeps (P acc) (metered_vm_scan_slices_in_linear_memory pos n callback acc) P"
  unfolding metered_vm_scan_slices_in_linear_memory_def
  by (rule keeps_bind [OF keeps_get_memory]) (rule keeps_scan_slices [OF assms])

section \<open>References\<close>

lemma keeps_relative_to_absolute [keeps]:
  "keeps P (relative_to_absolute v) (\<lambda>x os. valid_hval os x \<and> P os)"
proof (rule keeps_read)
  fix s a t
  assume "relative_to_absolute v s = Inr (a, t)"
  then show "t = s"
    by (auto simp: relative_to_absolute_def with_current_frame_relative_object_table_def bind_op_Inr
        split: hval.splits if_splits list.splits obj_frame.splits option.splits)
next
  fix s a
  assume run: "relative_to_absolute v s = Inr (a, s)" and ok: "objs_ok s" "P (ob_objects s)"
  have "valid_hval (ob_objects s) a"
  proof (cases v)
    case (SmallV i)
    with run have "a = SmallV i" by (simp add: relative_to_absolute_def)
    then show ?thesis by simp
  next
    case (ObjV ob)
    with run obtain table memory frames ob' where "ob_stack s = VmFrame table memory # frames"
      "table_get table (handle_to_index (obj_handle ob)) = Some ob'" "a = ObjV ob'"
      by (auto simp: relative_to_absolute_def with_current_frame_relative_object_table_def bind_op_Inr
          split: if_splits list.splits obj_frame.splits option.splits)
    with ok(1) show ?thesis
      by (auto simp: objs_ok_def frame_ok_def table_get_def list_all_iff split: if_splits)
  qed
  with ok(2) show "valid_hval (ob_objects s) a \<and> P (ob_objects s)" by simp
qed

lemma keeps_absolute_to_relative [keeps]:
  assumes "\<And>os. P os \<Longrightarrow> valid_hval os v"
  shows "keeps P (absolute_to_relative v) (\<lambda>_. P)"
proof (rule keepsI)
  fix s a t
  assume run: "absolute_to_relative v s = Inr (a, t)"
  note tab = tabulatesD [OF absolute_to_relative_tabulates [OF run]]
  show "grows s t" "tl (ob_stack t) = tl (ob_stack s)" by (rule tab(6), rule tab(5))
  assume "objs_ok s" "P (ob_objects s)"
  with assms have "objs_ok s" "valid_hval (ob_objects s) v" by simp_all
  with run have "objs_ok t"
    by (cases rule: absolute_to_relative_Inr) (auto simp: objs_ok_def frame_ok_def)
  with \<open>P (ob_objects s)\<close> tab(1) show "objs_ok t \<and> P (ob_objects t)" by simp
qed

section \<open>Conversions\<close>

lemma lasting_pair: "lasting (\<lambda>os. valid_hval os (fst q) \<and> valid_hval os (snd q))"
  by (auto simp: lasting_def intro: valid_hval_append)

lemma keeps_add_object_val:
  assumes "\<And>os. P os \<Longrightarrow> \<forall>v\<in>object_vals hot. valid_hval os v"
  shows "keeps P (add_object_val hot) (\<lambda>x os. valid_hval os x)"
  unfolding add_object_val_def
  by (rule keeps_bind [OF keeps_add_host_object [OF assms]]) (auto intro: keeps_ret)

lemma keeps_to_host_obj:
  assumes f: "\<And>v. keeps (\<lambda>_. True) (f v) (\<lambda>x os. valid_hval os x)"
  shows "keeps (\<lambda>_. True) (to_host_obj C f v) (\<lambda>x os. valid_hval os x)"
proof -
  have f': "keeps (\<lambda>_. True) (f v) (\<lambda>x os. valid_hval os x \<and> True)" for v
    using f by simp
  consider (vec) w where "v = VecS (Some w)" | (scmap) m where "v = MapS (Some m)"
    | (atom) "\<nexists>w. v = VecS (Some w)" "\<nexists>m. v = MapS (Some m)"
    by blast
  then show ?thesis
  proof cases
    case vec
    have "keeps (\<lambda>_. True) (map_op f w) (\<lambda>xs os. (\<forall>x\<in>set xs. valid_hval os x) \<and> True)"
      by (rule keeps_map_op [OF f']) (rule lasting_intros)
    then show ?thesis
      unfolding vec to_host_obj_def scv.case option.case
    proof (rule keeps_bind)
      fix xs
      show "keeps (\<lambda>os. (\<forall>x\<in>set xs. valid_hval os x) \<and> True)
          (bind_op (of_result (mv_from_vec xs)) (\<lambda>hv. add_object_val (VecHO hv))) (\<lambda>x os. valid_hval os x)"
        by (rule keeps_bind [OF keeps_of_result [where Q = "\<lambda>hv os. \<forall>x\<in>set hv. valid_hval os x"]])
           (auto dest: mv_from_vec_Inr intro!: keeps_add_object_val)
    qed
  next
    case scmap
    have pair: "keeps (\<lambda>_. True) (case p of (key, v) \<Rightarrow> bind_op (f key) (\<lambda>k. bind_op (f v) (\<lambda>x. ret (k, x))))
        (\<lambda>q os. (valid_hval os (fst q) \<and> valid_hval os (snd q)) \<and> True)" for p
    proof (cases p)
      case (Pair key v)
      have second: "keeps (\<lambda>os. valid_hval os k) (f v) (\<lambda>x os. valid_hval os x \<and> valid_hval os k)" for k
        by (rule keeps_conseq [OF keeps_frame [OF f, of "\<lambda>os. valid_hval os k"]]) (auto intro: lasting_intros)
      show ?thesis
        unfolding Pair prod.case
        by (rule keeps_bind [OF f], rule keeps_bind [OF second]) (auto intro: keeps_ret)
    qed
    have "keeps (\<lambda>_. True) (map_op (\<lambda>(key, v). bind_op (f key) (\<lambda>k. bind_op (f v) (\<lambda>x. ret (k, x)))) m)
        (\<lambda>mm os. (\<forall>q\<in>set mm. valid_hval os (fst q) \<and> valid_hval os (snd q)) \<and> True)"
      by (rule keeps_map_op [OF pair]) (rule lasting_pair)
    then show ?thesis
      unfolding scmap to_host_obj_def scv.case option.case
    proof (rule keeps_bind)
      fix mm
      show "keeps (\<lambda>os. (\<forall>q\<in>set mm. valid_hval os (fst q) \<and> valid_hval os (snd q)) \<and> True)
          (bind_op (\<lambda>s. of_result (omap_from_map (cm_compare C (ob_objects s)) mm) s)
            (\<lambda>hm. add_object_val (MapHO hm))) (\<lambda>x os. valid_hval os x)"
        by (rule keeps_bind [OF keeps_read [where Q = "\<lambda>hm os. \<forall>q\<in>set hm. valid_hval os (fst q) \<and> valid_hval os (snd q)"]])
           (auto simp: of_result_Inr_iff dest: omap_from_map_Inr intro!: keeps_add_object_val)
    qed
  next
    case atom
    then show ?thesis
      by (cases v) (auto simp: to_host_obj_def intro!: keeps_add_object_val keeps_fail
          keeps_bind [OF keeps_of_result [where Q = "\<lambda>_ _. True"]] split: option.splits)
  qed
qed

lemma keeps_to_host_val [keeps]: "keeps (\<lambda>_. True) (to_host_val C d v) (\<lambda>x os. valid_hval os x)"
proof (induction d arbitrary: v)
  case 0
  show ?case unfolding to_host_val.simps by (rule keeps_fail)
next
  case (Suc d)
  show ?case
    unfolding to_host_val.simps
    by (rule keeps_bind [OF keeps_of_result [where Q = "\<lambda>_ _. True"]])
       (auto split: option.splits simp del: ret_eval intro!: keeps_ret keeps_to_host_obj Suc.IH)
qed

lemma from_host_val_state: "from_host_val C d x s = Inr (v, t) \<Longrightarrow> t = s"
proof (induction d arbitrary: x s v t)
  case 0
  then show ?case by simp
next
  case (Suc d)
  have list: "t = s" if "map_op f xs s = Inr (ys, t)" "\<And>x s y t. f x s = Inr (y, t) \<Longrightarrow> t = s"
    for f :: "'b \<Rightarrow> ('a, 'c) obj_op" and xs s ys t
    using that(1) by (induction xs arbitrary: s ys) (auto simp: bind_op_Inr dest: that(2))
  from Suc.prems show ?case
    by (auto simp: bind_op_Inr of_result_Inr_iff check_val_representable_scval_def from_host_obj_def
        visit_obj_untyped_def Let_def host_map_to_scmap_def
        split: hval.splits if_splits host_object.splits dest!: list Suc.IH)
qed

lemma keeps_from_host_val [keeps]: "keeps P (from_host_val C d x) (\<lambda>_. P)"
  by (rule keeps_read) (auto dest: from_host_val_state)

section \<open>The functions on bytes and memory\<close>

named_theorems plain "rules for operations that need nothing of the references they see"

lemma plain_bind [plain]:
  "keeps P f (\<lambda>_. P) \<Longrightarrow> (\<And>a. keeps P (g a) R) \<Longrightarrow> keeps P (bind_op f g) R"
  by (rule keeps_bind)

lemma plain_then [plain]: "keeps P f (\<lambda>_. P) \<Longrightarrow> keeps P g R \<Longrightarrow> keeps P (then_op f g) R"
  by (rule keeps_then)

lemma plain_visit [plain]: "(\<And>h. keeps P (f h) Q) \<Longrightarrow> keeps P (visit_obj ex ob f) Q"
  by (rule keeps_visit_obj, rule keeps_conseq [where P = P and Q = Q]) auto

lemma plain_rules [plain]:
  "keeps P (of_result r) (\<lambda>_. P)" "keeps P (ok_or e x) (\<lambda>_. P)" "keeps P (ret a) (\<lambda>_. P)" "keeps P (fail e) Q"
  by (auto intro: keeps_of_result keeps_ok_or keeps_ret keeps_fail)

lemma plain_to_host_val [plain]: "keeps (\<lambda>_. True) (to_host_val C d v) (\<lambda>_ _. True)"
  by (rule keeps_conseq [OF keeps_to_host_val]) auto

lemma plain_for_each_check [plain]: "keeps P (for_each xs check_val_integrity) (\<lambda>_. P)"
  by (rule keeps_conseq [OF keeps_for_each_check [of P]]) auto

lemmas plain_state = keeps_get_memory keeps_get_mem_fn_args keeps_set_memory keeps_if keeps_from_host_val

lemma plain_add_flat [plain]:
  "object_vals hot = {} \<Longrightarrow> keeps P (add_host_object hot) (\<lambda>ob os. valid_obj os ob)"
  by (rule keeps_add_host_object) simp

lemma object_vals_mem [simp]: "object_vals (mem_inject k b) = {}"
  by (cases k) simp_all

lemma keeps_val_to_bytes:
  assumes "\<And>os. P os \<Longrightarrow> valid_hval os x"
  shows "keeps P (val_to_bytes C x) (\<lambda>_. P)"
  unfolding val_to_bytes_def by (intro plain_bind keeps_absolute_to_relative assms plain_rules)

lemma keeps_val_from_bytes: "keeps P (val_from_bytes C bs) (\<lambda>_. P)"
  unfolding val_from_bytes_def by (rule keeps_conseq [OF keeps_relative_to_absolute [of P]]) auto

lemma keeps_write_vals:
  assumes "\<And>x. x \<in> set buf \<Longrightarrow> keeps P (f x) (\<lambda>_. P)"
  shows "keeps P (metered_vm_write_vals_to_linear_memory n pos buf f) (\<lambda>_. P)"
  unfolding metered_vm_write_vals_to_linear_memory_def split_def
  by (intro plain_bind plain_rules plain_state keeps_map_op_plain assms) (auto dest: set_zip_leftD)

lemma keeps_read_vals:
  assumes "\<And>bs. keeps P (f bs) (\<lambda>_. P)"
  shows "keeps P (metered_vm_read_vals_from_linear_memory n pos buf f) (\<lambda>_. P)"
  unfolding metered_vm_read_vals_from_linear_memory_def split_def
  by (intro plain_bind plain_rules plain_state keeps_map_op_plain assms)

lemma plain_write_bytes [plain]: "keeps P (metered_vm_write_bytes_to_linear_memory C pos buf) (\<lambda>_. P)"
  unfolding metered_vm_write_bytes_to_linear_memory_def by (intro plain_bind plain_rules plain_state)

lemma plain_read_bytes [plain]: "keeps P (metered_vm_read_bytes_from_linear_memory C pos buf) (\<lambda>_. P)"
  unfolding metered_vm_read_bytes_from_linear_memory_def by (intro plain_bind plain_rules plain_state)

lemma plain_symbol_matches [plain]: "keeps P (symbol_matches C b v) (\<lambda>_. P)"
  unfolding symbol_matches_def
  by (auto split: option.splits hval.splits simp del: ret_eval fail_eval
      intro!: plain_rules plain_visit)

lemma plain_check_symbol_matches [plain]: "keeps P (check_symbol_matches C b v) (\<lambda>_. P)"
  unfolding check_symbol_matches_def by (intro plain plain_rules plain_state)

text \<open>The functions whose result is a number or nothing.\<close>

lemma plain_visit_bytes [plain]: "keeps P (visit_bytes b f) (\<lambda>_. P)"
  unfolding visit_bytes_def by (intro plain_visit plain_rules)

lemma plain_numbers [plain]:
  "keeps P (bytes_get b i) (\<lambda>_. P)" "keeps P (mem_len k b) (\<lambda>_. P)" "keeps P (bytes_front b) (\<lambda>_. P)"
  "keeps P (bytes_back b) (\<lambda>_. P)" "keeps P (memobj_copy_to_linear_memory C k b i j n) (\<lambda>_. P)"
  unfolding bytes_get_def mem_len_def bytes_front_def bytes_back_def memobj_copy_to_linear_memory_def
    memobj_visit_and_copy_bytes_out_def
  by (intro plain plain_state)+

lemma plain_symbol_index: "keeps P (symbol_index_in_linear_memory C v pos n) (\<lambda>_. P)"
  unfolding symbol_index_in_linear_memory_def
  by (intro plain plain_state keeps_scan [where P = "\<lambda>_. P"])

text \<open>The functions whose result is a new byte string.\<close>

lemma plain_add_bytes [plain]: "keeps P (add_bytes C v) (\<lambda>ob os. valid_obj os ob)"
  unfolding add_bytes_def by (intro plain) simp

lemma plain_new_bytes:
  "keeps P (bytes_new C) (\<lambda>ob os. valid_obj os ob)" "keeps P (bytes_put C b i u) (\<lambda>ob os. valid_obj os ob)"
  "keeps P (bytes_del C b i) (\<lambda>ob os. valid_obj os ob)" "keeps P (bytes_push C b u) (\<lambda>ob os. valid_obj os ob)"
  "keeps P (bytes_pop C b) (\<lambda>ob os. valid_obj os ob)" "keeps P (bytes_insert C b i u) (\<lambda>ob os. valid_obj os ob)"
  "keeps P (bytes_append C b b') (\<lambda>ob os. valid_obj os ob)" "keeps P (bytes_slice C b i j) (\<lambda>ob os. valid_obj os ob)"
  "keeps P (memobj_copy_from_linear_memory C k b i j n) (\<lambda>ob os. valid_obj os ob)"
  "keeps P (memobj_new_from_linear_memory C k j n) (\<lambda>ob os. valid_obj os ob)"
  "keeps P (serialize_to_bytes C d v) (\<lambda>ob os. valid_obj os ob)"
  unfolding bytes_new_def bytes_put_def bytes_del_def bytes_push_def bytes_pop_def bytes_insert_def bytes_append_def
    bytes_slice_def memobj_copy_from_linear_memory_def memobj_clone_resize_and_copy_bytes_in_def Let_def
    memobj_new_from_linear_memory_def serialize_to_bytes_def
  by (intro plain plain_state; simp)+

text \<open>The functions that pass values.\<close>

lemma keeps_vec_new: "keeps (\<lambda>_. True) (vec_new_from_linear_memory C pos n) (\<lambda>ob os. valid_obj os ob)"
proof -
  have last: "keeps (\<lambda>_. True) (then_op (for_each vals check_val_integrity)
      (bind_op (of_result (mv_from_vec vals)) (\<lambda>v. add_host_object (VecHO v)))) (\<lambda>ob os. valid_obj os ob)"
    for vals :: "'a hval list"
    by (rule keeps_then [OF keeps_for_each_check [of "\<lambda>_. True"]],
        rule keeps_bind [OF keeps_of_result [where Q = "\<lambda>v os. \<forall>x\<in>set v. valid_hval os x"]])
       (auto dest: mv_from_vec_Inr intro!: keeps_add_host_object)
  show ?thesis
    unfolding vec_new_from_linear_memory_def
    by (intro plain_then plain_bind plain_state keeps_read_vals keeps_val_from_bytes last)
qed

lemma keeps_write_held:
  assumes "\<And>x os. x \<in> set buf \<Longrightarrow> P os \<Longrightarrow> valid_hval os (g x)"
  shows "keeps P (metered_vm_write_vals_to_linear_memory n pos buf (\<lambda>x. val_to_bytes C (g x))) (\<lambda>_. P)"
  by (intro keeps_write_vals keeps_val_to_bytes assms)

lemma keeps_vec_unpack: "keeps (\<lambda>_. True) (vec_unpack_to_linear_memory C v pos n) (\<lambda>_ _. True)"
proof -
  have "keeps (\<lambda>os. True \<and> ho \<in> set os \<and> (\<forall>v\<in>object_vals ho. valid_hval os v))
      (if length xs \<noteq> unat n then fail (HostErr EObject UnexpectedSize)
       else metered_vm_write_vals_to_linear_memory 8 pos xs (val_to_bytes C)) (\<lambda>_ _. True)"
    if "vec_extract ho = Some xs" for ho xs
    using that by (cases ho) (auto intro!: keeps_if keeps_fail
        keeps_conseq [OF keeps_write_held [where P = "\<lambda>os. \<forall>v\<in>set xs. valid_hval os v" and g = "\<lambda>x. x"]])
  then show ?thesis
    unfolding vec_unpack_to_linear_memory_def by (intro plain_then keeps_get_mem_fn_args keeps_visit_obj)
qed

lemma keeps_map_unpack: "keeps (\<lambda>_. True) (map_unpack_to_linear_memory C m k pos n) (\<lambda>_ _. True)"
proof -
  have "keeps (\<lambda>os. True \<and> ho \<in> set os \<and> (\<forall>v\<in>object_vals ho. valid_hval os v))
      (if length mo \<noteq> unat n then fail (HostErr EObject UnexpectedSize)
       else then_op (metered_vm_scan_slices_in_linear_memory k (unat n) (\<lambda>n mem _.
           if n < length mo then check_symbol_matches C mem (fst (mo ! n)) else fail err_index_bounds) ())
         (metered_vm_write_vals_to_linear_memory 8 pos mo (\<lambda>pair. val_to_bytes C (snd pair)))) (\<lambda>_ _. True)"
    (is "keeps ?P _ _") if "map_extract ho = Some mo" for ho mo
  proof -
    have held: "\<And>x os. x \<in> set mo \<Longrightarrow> ?P os \<Longrightarrow> valid_hval os (snd x)"
      using that by (cases ho) auto
    have wr: "keeps ?P (metered_vm_write_vals_to_linear_memory 8 pos mo (\<lambda>pair. val_to_bytes C (snd pair))) (\<lambda>_ _. True)"
      by (rule keeps_conseq [OF keeps_write_held [where P = ?P and g = snd]]) (use held in blast)+
    show ?thesis
      by (intro keeps_if keeps_fail plain_then keeps_scan [where P = "\<lambda>_. ?P"] plain_check_symbol_matches wr)
  qed
  then show ?thesis
    unfolding map_unpack_to_linear_memory_def by (intro plain_then keeps_get_mem_fn_args keeps_visit_obj)
qed

lemma keeps_symbol_of_slice: "keeps (\<lambda>_. True) (symbol_of_slice C d mem) (\<lambda>x os. valid_hval os x)"
proof -
  have "keeps (\<lambda>_. True) (to_valid_host_val C d v) (\<lambda>x os. valid_hval os x)" for v
    using keeps_to_host_val [of C d v]
    by (auto simp: keeps_def to_valid_host_val_def split: sum.splits error.splits sc_error_type.splits)
  then show ?thesis
    unfolding symbol_of_slice_def by (intro keeps_if keeps_fail)
qed

lemma keeps_map_new: "keeps (\<lambda>_. True) (map_new_from_linear_memory C d k pos n) (\<lambda>ob os. valid_obj os ob)"
proof -
  let ?K = "\<lambda>ks os. \<forall>x\<in>set ks. valid_hval os x"
  have one: "keeps (?K ks) (bind_op (symbol_of_slice C d mem) (\<lambda>symb. ret (ks @ [symb]))) ?K" for ks mem
  proof (rule keeps_bind)
    show "keeps (?K ks) (symbol_of_slice C d mem) (\<lambda>x os. valid_hval os x \<and> ?K ks os)"
      by (rule keeps_conseq [OF keeps_frame [OF keeps_symbol_of_slice lasting_intros(4)]]) auto
  qed (rule keeps_ret, auto)
  have syms: "keeps (\<lambda>_. True) (metered_vm_scan_slices_in_linear_memory k (unat n) (\<lambda>_ mem key_syms.
      bind_op (symbol_of_slice C d mem) (\<lambda>symb. ret (key_syms @ [symb]))) []) ?K"
    by (rule keeps_conseq [OF keeps_scan [where P = ?K, OF one]]) simp_all
  have last: "keeps (?K ks) (then_op (for_each vals check_val_integrity)
      (bind_op (\<lambda>s. of_result (omap_from_exact_iter (cm_compare C (ob_objects s)) (zip ks vals)) s)
        (\<lambda>m. add_host_object (MapHO m)))) (\<lambda>ob os. valid_obj os ob)" for ks and vals :: "'a hval list"
  proof (rule keeps_then [OF keeps_for_each_check], rule keeps_bind)
    show "keeps (\<lambda>os. ?K vals os \<and> ?K ks os)
        (\<lambda>s. of_result (omap_from_exact_iter (cm_compare C (ob_objects s)) (zip ks vals)) s)
        (\<lambda>m os. \<forall>v\<in>fst ` set m \<union> snd ` set m. valid_hval os v)"
    proof (rule keeps_read)
      fix s m
      assume "of_result (omap_from_exact_iter (cm_compare C (ob_objects s)) (zip ks vals)) s = Inr (m, s)"
        and ok: "?K vals (ob_objects s) \<and> ?K ks (ob_objects s)"
      then have "m = zip ks vals"
        by (auto simp: of_result_Inr_iff omap_from_exact_iter_def split: if_splits dest: omap_from_map_Inr)
      with ok show "\<forall>v\<in>fst ` set m \<union> snd ` set m. valid_hval (ob_objects s) v"
        by (auto dest: set_zip_leftD set_zip_rightD)
    qed (simp add: of_result_Inr_iff)
  qed (auto intro!: keeps_add_host_object)
  show ?thesis
    unfolding map_new_from_linear_memory_def
    by (intro plain_then plain_state keeps_bind [OF syms] plain_bind keeps_read_vals keeps_val_from_bytes last)
qed

lemma keeps_deserialize: "keeps (\<lambda>_. True) (deserialize_from_bytes C d b) (\<lambda>v os. valid_hval os v)"
  unfolding deserialize_from_bytes_def
  by (intro plain_bind plain_visit_bytes keeps_if keeps_fail keeps_to_host_val)

section \<open>The calls\<close>

fun result_ok :: "'i buf_result \<Rightarrow> 'i host_object list \<Rightarrow> bool" where
  "result_ok (ObjR ob) os = valid_obj os ob"
| "result_ok (ValR v) os = valid_hval os v"
| "result_ok _ os = True"

lemma keeps_as:
  "keeps P f (\<lambda>ob os. valid_obj os ob) \<Longrightarrow> keeps P (as_obj f) result_ok"
  "keeps P g (\<lambda>_ _. True) \<Longrightarrow> keeps P (as_num g) result_ok"
  "keeps P h (\<lambda>_ _. True) \<Longrightarrow> keeps P (as_void h) result_ok"
  "keeps P v (\<lambda>x os. valid_hval os x) \<Longrightarrow> keeps P (as_val v) result_ok"
  unfolding as_obj_def as_num_def as_void_def as_val_def
  by (erule keeps_bind; rule keeps_ret; simp)+

lemma keeps_buf_call: "keeps (\<lambda>_. True) (run_buf_call C d c) result_ok"
  by (cases c) (auto intro!: keeps_as plain_new_bytes plain_numbers plain_symbol_index keeps_vec_new
      keeps_vec_unpack keeps_map_new keeps_map_unpack keeps_deserialize)

end
