(* ===== verification/Host_Memory_Props.thy ===== *)
theory Host_Memory_Props
  imports Host_Memory_Inv
begin

text \<open>
  What a contract and the host hand each other through linear memory: vectors and byte strings
  come back as they were, and a copy into memory touches its range only.
\<close>

section \<open>Vectors\<close>

text \<open>
  C37. A vector that the host wrote into the linear memory of a contract is, as long as the contract leaves
  those bytes alone, read back as a vector of the same values: its objects travel as references
  relative to the table of the frame, which may have grown in between, as may have the host's
  objects, and each is the object it was.
\<close>

theorem vec_survives_memory:
  assumes payload: "payload_law C" and ok: "objs_ok s" and vec: "object_at s vec (VecHO xs)"
    and run: "vec_unpack_to_linear_memory C vec pos len s = Inr (v, t)"
    and later: "grows t u" "names_kept t u" "in_vm u" "memory_of u = Some mem"
      "slice_get (unat pos) (unat pos + unat len * 8) mem =
       slice_get (unat pos) (unat pos + unat len * 8) (the (memory_of t))"
    and room: "length (table_of u) \<le> 2 ^ 31" "length (ob_objects u) < 2 ^ 31"
  shows "\<exists>ob w. vec_new_from_linear_memory C pos len u = Inr (ob, w) \<and> object_at w ob (VecHO xs)"
proof -
  from run vec have len: "length xs = unat len"
    and wr: "metered_vm_write_vals_to_linear_memory 8 pos xs (val_to_bytes C) s = Inr (v, t)"
    by (auto simp: vec_unpack_to_linear_memory_def then_op_Inr get_mem_fn_args_def visit_obj_def
        visit_object_at split: list.splits obj_frame.splits if_splits)
  have step: "tabulates s t \<and> length bs = 8" if "val_to_bytes C x s = Inr (bs, t)" for x s bs t
    using that by (auto elim: val_to_bytes_Inr intro: absolute_to_relative_tabulates)
  from wr step obtain m bss s1 where w: "memory_of s = Some m" "map_op (val_to_bytes C) xs s = Inr (bss, s1)"
    "tabulates s s1" "unat pos + length xs * 8 \<le> length m" "unat pos + length xs * 8 < 2 ^ 32"
    "length (concat bss) = length xs * 8" "\<forall>bs\<in>set bss. length bs = 8" "length bss = length xs"
    "set_memory (overwrite (unat pos) (concat bss) m) s1 = Inr (v, t)"
    by (rule write_vals_Inr) blast+
  note set = set_memory_Inr [OF w(9)] and tab = tabulatesD [OF w(3)]
  have "slice_get (unat pos) (unat pos + length (concat bss)) (overwrite (unat pos) (concat bss) m) = Some (concat bss)"
    using w(4,6) by (intro slice_get_overwrite) simp
  then have bytes: "slice_get (unat pos) (unat pos + length bss * 8) mem = Some (concat bss)"
    using later(5) set(1) w(6,8) len by simp
  have kept: "names_kept s1 u"
    using set(3) later(2) by (auto simp: names_kept_def)
  have vals: "map_op (val_from_bytes C) bss u = Inr (xs, u)"
    by (rule vals_bytes_read [OF payload w(2) kept later(3) room(1)])
  have buf: "length (replicate (unat len) (SmallV (cm_void C))) = length bss"
    using w(8) len by simp
  have fits: "unat pos + length bss * 8 < 2 ^ 32"
    using w(5,8) by simp
  have read: "metered_vm_read_vals_from_linear_memory 8 pos (replicate (unat len) (SmallV (cm_void C)))
      (val_from_bytes C) u = Inr (xs, u)"
    by (rule read_vals_run [OF later(4) bytes fits w(7) buf vals])
  have "grows s u"
    using later(1) set(2) tab(1) by (simp add: grows_def)
  then have "\<forall>x\<in>set xs. valid_hval (ob_objects u) x"
    using objs_ok_visit [OF ok vec] valid_hval_grows by (metis object_vals.simps(1))
  note checks = for_each_check [OF this]
  from add_object_runs [OF room(2)] obtain ob w' where add: "add_host_object (VecHO xs) u = Inr (ob, w')" by blast
  have "vec_new_from_linear_memory C pos len u = Inr (ob, w')"
    using read checks add later(3) w(5)
    by (auto simp: vec_new_from_linear_memory_def then_op_def bind_op_def get_mem_fn_args_def in_vm_def
        of_result_def mv_from_vec_def)
  moreover have "object_at w' ob (VecHO xs)"
    using add_host_object_Inr(1) [OF add] room(2) by (intro added_object_at [OF add]) simp_all
  ultimately show ?thesis by blast
qed

section \<open>Byte strings\<close>

text \<open>What \<open>wasmi\<close> documents of \<open>Memory::write\<close> and \<open>Memory::read\<close>: they work on the range, or fail if it is not within the memory.\<close>

definition memory_laws :: "'i env_common \<Rightarrow> bool" where
  "memory_laws C \<longleftrightarrow>
     (\<forall>mem pos bs. \<exists>e. cm_mem_write C mem pos bs =
        (if pos + length bs \<le> length mem then Inr (overwrite pos bs mem) else Inl e)) \<and>
     (\<forall>mem pos n. \<exists>e. cm_mem_read C mem pos n =
        (if pos + n \<le> length mem then Inr (take n (drop pos mem)) else Inl e))"

lemma mem_write_Inr:
  assumes "memory_laws C"
  shows "cm_mem_write C mem pos bs = Inr new \<longleftrightarrow> pos + length bs \<le> length mem \<and> new = overwrite pos bs mem"
proof -
  obtain e where "cm_mem_write C mem pos bs =
      (if pos + length bs \<le> length mem then Inr (overwrite pos bs mem) else Inl e)"
    using assms unfolding memory_laws_def by blast
  then show ?thesis by auto
qed

lemma mem_read_Inr:
  assumes "memory_laws C"
  shows "cm_mem_read C mem pos n = Inr bs \<longleftrightarrow> pos + n \<le> length mem \<and> bs = take n (drop pos mem)"
proof -
  obtain e where "cm_mem_read C mem pos n = (if pos + n \<le> length mem then Inr (take n (drop pos mem)) else Inl e)"
    using assms unfolding memory_laws_def by blast
  then show ?thesis by auto
qed

lemma mem_extract_inject [simp]: "mem_extract k (mem_inject k b) = Some b"
  by (cases k) simp_all

lemma visit_mem_object: "object_at s ob (mem_inject k b) \<Longrightarrow> visit_obj (mem_extract k) ob f s = f b s"
  by (simp add: visit_obj_def visit_object_at)

lemma mem_fn_args_in_vm: "in_vm s \<Longrightarrow> get_mem_fn_args s = Inr ((), s)"
  by (auto simp: in_vm_def get_mem_fn_args_def)

text \<open>How a copy into memory can succeed, and what it leaves.\<close>

lemma copy_to_memory_Inr:
  assumes "memory_laws C" and "in_vm s" and "memory_of s = Some mem" and "object_at s ob (mem_inject k b)"
  shows "memobj_copy_to_linear_memory C k ob obj_pos lm_pos len s = Inr (u, t) \<longleftrightarrow>
     unat obj_pos + unat len < 2 ^ 32 \<and> unat obj_pos + unat len \<le> length b \<and> unat lm_pos + unat len \<le> length mem \<and>
     set_memory (overwrite (unat lm_pos) (take (unat len) (drop (unat obj_pos) b)) mem) s = Inr (u, t)"
proof -
  have sum: "checked_add obj_pos len = Some e \<longleftrightarrow> unat obj_pos + unat len < 2 ^ 32 \<and> e = obj_pos + len" for e
    by (auto simp: checked_add_def)
  have unat_sum: "unat obj_pos + unat len < 2 ^ 32 \<Longrightarrow> unat (obj_pos + len) = unat obj_pos + unat len"
    using unat_add_lem [of obj_pos len] by simp
  have mem: "get_memory s = Inr (mem, s)"
    using assms(3) by (simp add: get_memory_Inr)
  have take_len: "unat obj_pos + unat len \<le> length b \<Longrightarrow> length (take (unat len) (drop (unat obj_pos) b)) = unat len"
    by simp
  have args: "get_mem_fn_args s = Inr ((), s)"
    by (rule mem_fn_args_in_vm [OF assms(2)])
  show ?thesis
    using mem unat_sum take_len args
    by (auto simp: memobj_copy_to_linear_memory_def memobj_visit_and_copy_bytes_out_def
      metered_vm_write_bytes_to_linear_memory_def then_op_Inr
      visit_mem_object [OF assms(4)] bind_op_Inr ok_or_Inr sum slice_get_Some of_result_Inr_iff mem_write_Inr [OF assms(1)])
qed

text \<open>
  C38. A copy of bytes into linear memory succeeds exactly when the range in the object does not
  overflow 32 bits and lies in the object, and the range in the memory lies in the memory. It then
  changes the bytes of that range to those of the object, and nothing else: not the size of the
  memory, not the objects, not the frames. Otherwise it fails, whatever the memory.
\<close>

theorem copy_to_memory_exact:
  assumes "memory_laws C" and "ob_stack s = VmFrame table (Some mem) # frames" and "object_at s ob (mem_inject k b)"
  shows "if unat obj_pos + unat len < 2 ^ 32 \<and> unat obj_pos + unat len \<le> length b \<and>
      unat lm_pos + unat len \<le> length mem
    then \<exists>mem'. memobj_copy_to_linear_memory C k ob obj_pos lm_pos len s =
        Inr ((), s\<lparr>ob_stack := VmFrame table (Some mem') # frames\<rparr>) \<and> length mem' = length mem \<and>
      (\<forall>i<length mem. mem' ! i =
        (if unat lm_pos \<le> i \<and> i < unat lm_pos + unat len then b ! (unat obj_pos + (i - unat lm_pos)) else mem ! i))
    else \<exists>e. memobj_copy_to_linear_memory C k ob obj_pos lm_pos len s = Inl e"
proof -
  have vm: "in_vm s" "memory_of s = Some mem"
    using assms(2) by (auto simp: in_vm_def memory_of_def)
  note copy = copy_to_memory_Inr [OF assms(1) vm assms(3), of obj_pos lm_pos len]
  let ?bs = "take (unat len) (drop (unat obj_pos) b)"
  show ?thesis
  proof (cases "unat obj_pos + unat len < 2 ^ 32 \<and> unat obj_pos + unat len \<le> length b \<and>
      unat lm_pos + unat len \<le> length mem")
    case True
    then have len: "length ?bs = unat len" by (simp add: min_absorb2 le_diff_conv2)
    have "set_memory (overwrite (unat lm_pos) ?bs mem) s =
        Inr ((), s\<lparr>ob_stack := VmFrame table (Some (overwrite (unat lm_pos) ?bs mem)) # frames\<rparr>)"
      using assms(2) by (simp add: set_memory_def)
    then have "memobj_copy_to_linear_memory C k ob obj_pos lm_pos len s =
        Inr ((), s\<lparr>ob_stack := VmFrame table (Some (overwrite (unat lm_pos) ?bs mem)) # frames\<rparr>)"
      using True copy by blast
    moreover have "length (overwrite (unat lm_pos) ?bs mem) = length mem"
      using True len by simp
    moreover have "overwrite (unat lm_pos) ?bs mem ! i =
        (if unat lm_pos \<le> i \<and> i < unat lm_pos + unat len then b ! (unat obj_pos + (i - unat lm_pos)) else mem ! i)"
      if "i < length mem" for i
      using nth_overwrite [of "unat lm_pos" ?bs mem i] that True len by auto
    ultimately show ?thesis
      using True by (simp only: if_True simp_thms) blast
  next
    case False
    then have "\<not> (\<exists>r. memobj_copy_to_linear_memory C k ob obj_pos lm_pos len s = Inr r)"
      using copy by auto
    then show ?thesis
      using False by (simp only: if_False) (metis sum.exhaust)
  qed
qed

lemma mem_try_from_bytes_part:
  assumes "mem_try_from_bytes C k b = Inr b" and "n < 2 ^ 32"
  shows "mem_try_from_bytes C k (take n (drop p b)) = Inr (take n (drop p b))"
proof -
  have "set (take n (drop p b)) \<subseteq> set b"
    by (meson in_set_takeD in_set_dropD subsetI)
  with assms show ?thesis
    by (cases k) (auto simp: bytes_try_from_def symbol_try_from_bytes_def list_all_iff split: if_splits)
qed

lemma bytes_survive_memory:
  assumes laws: "memory_laws C" and vm: "in_vm s" "memory_of s = Some mem0" and "object_at s ob (mem_inject k b)"
    and "mem_try_from_bytes C k b = Inr b"
    and "memobj_copy_to_linear_memory C k ob obj_pos lm_pos len s = Inr (v, t)"
    and later: "in_vm u" "memory_of u = Some mem" "length (ob_objects u) < 2 ^ 31"
      "slice_get (unat lm_pos) (unat lm_pos + unat len) mem =
       slice_get (unat lm_pos) (unat lm_pos + unat len) (the (memory_of t))"
  shows "\<exists>ob' w. memobj_new_from_linear_memory C k lm_pos len u = Inr (ob', w) \<and>
    object_at w ob' (mem_inject k (take (unat len) (drop (unat obj_pos) b)))"
proof -
  let ?bs = "take (unat len) (drop (unat obj_pos) b)"
  from assms(6) have fits: "unat obj_pos + unat len \<le> length b" "unat lm_pos + unat len \<le> length mem0"
    and set: "set_memory (overwrite (unat lm_pos) ?bs mem0) s = Inr (v, t)"
    unfolding copy_to_memory_Inr [OF laws vm assms(4)] by blast+
  have len: "length ?bs = unat len"
    using fits(1) by simp
  have "slice_get (unat lm_pos) (unat lm_pos + unat len) (overwrite (unat lm_pos) ?bs mem0) = Some ?bs"
    using slice_get_overwrite [of "unat lm_pos" ?bs mem0] fits(2) len by simp
  then have "slice_get (unat lm_pos) (unat lm_pos + unat len) mem = Some ?bs"
    using later(4) set_memory_Inr(1) [OF set] by simp
  then have slice: "unat lm_pos + unat len \<le> length mem" "take (unat len) (drop (unat lm_pos) mem) = ?bs"
    unfolding slice_get_Some by simp_all
  have read: "cm_mem_read C mem (unat lm_pos) (unat len) = Inr ?bs"
    using slice by (simp add: mem_read_Inr [OF laws])
  have "unat len < 2 ^ 32"
    using unsigned_less [of len] by simp
  note bytes = mem_try_from_bytes_part [OF assms(5) this, of "unat obj_pos"]
  obtain ob' w where add: "add_host_object (mem_inject k ?bs) u = Inr (ob', w)"
    using add_object_runs [OF later(3)] by blast
  have "get_memory u = Inr (mem, u)"
    using later(2) by (simp add: get_memory_Inr)
  then have "memobj_new_from_linear_memory C k lm_pos len u = Inr (ob', w)"
    using read bytes add mem_fn_args_in_vm [OF later(1)]
    by (simp add: memobj_new_from_linear_memory_def metered_vm_read_bytes_from_linear_memory_def then_op_def
        bind_op_def of_result_def)
  moreover have "object_at w ob' (mem_inject k ?bs)"
    using add_host_object_Inr(1) [OF add] later(3) by (intro added_object_at [OF add]) simp_all
  ultimately show ?thesis by blast
qed

section \<open>Examples\<close>

lemma example_payload_law: "payload_law example_common"
  by (simp add: payload_law_def example_common_def example_payload_back)

lemma example_memory_laws: "memory_laws example_common"
  by (auto simp: memory_laws_def example_common_def overwrite_def)

text \<open>Two objects, of which the vector holds one; the frame of a VM with a memory of 32 bytes.\<close>

definition example_vm :: "u32 option objs" where
  "example_vm = \<lparr>ob_objects = [BytesHO [1, 2, 3], VecHO [ObjV (Obj BytesObject 1), SmallV (Some 5)]],
     ob_stack = [VmFrame [] (Some (replicate 32 0))]\<rparr>"

lemma example_objects:
  "object_at example_vm (Obj BytesObject 1) (mem_inject BytesK [1, 2, 3])"
  "object_at example_vm (Obj VecObject 3) (VecHO [ObjV (Obj BytesObject 1), SmallV (Some 5)])"
  by (simp_all add: object_at_def example_vm_def is_relative_object_handle_def handle_to_index_def)

lemma example_vm_ok: "objs_ok example_vm"
  by (simp add: objs_ok_def example_vm_def frame_ok_def valid_obj_def is_relative_object_handle_def handle_to_index_def)

theorem copy_to_memory_exact_witness:
  "\<exists>mem'. memobj_copy_to_linear_memory example_common BytesK (Obj BytesObject 1) 1 4 2 example_vm =
      Inr ((), example_vm\<lparr>ob_stack := [VmFrame [] (Some mem')]\<rparr>) \<and> mem' ! 5 = 3 \<and> mem' ! 6 = 0"
proof -
  have stack: "ob_stack example_vm = VmFrame [] (Some (replicate 32 0)) # []"
    by (simp add: example_vm_def)
  from copy_to_memory_exact [OF example_memory_laws stack example_objects(1), of 1 2 4]
  obtain mem' where m: "memobj_copy_to_linear_memory example_common BytesK (Obj BytesObject 1) 1 4 2 example_vm =
      Inr ((), example_vm\<lparr>ob_stack := [VmFrame [] (Some mem')]\<rparr>)"
    "\<forall>i<32. mem' ! i = (if 4 \<le> i \<and> i < 6 then [1, 2, 3] ! (1 + (i - 4)) else replicate 32 0 ! i)"
    by auto
  from m(2) have "mem' ! 5 = 3" "mem' ! 6 = 0" by simp_all
  with m(1) show ?thesis by blast
qed

lemma vals_range_eq:
  "sz < 2 ^ 32 \<Longrightarrow> n < 2 ^ 32 \<Longrightarrow> unat pos + n * sz < 2 ^ 32 \<Longrightarrow>
   vals_range sz pos n = Inr (unat pos, unat pos + n * sz)"
  by (simp add: vals_range_Inr)

lemma example_unpack:
  "\<exists>t. vec_unpack_to_linear_memory example_common (Obj VecObject 3) 8 2 example_vm = Inr ((), t) \<and>
     length (table_of t) = 1 \<and> length (ob_objects t) = 2 \<and> in_vm t \<and> memory_of t \<noteq> None"
  by (simp add: example_vm_def example_common_def vec_unpack_to_linear_memory_def then_op_def get_mem_fn_args_def
      visit_obj_def visit_obj_untyped_def Let_def is_relative_object_handle_def handle_to_index_def
      metered_vm_write_vals_to_linear_memory_def vals_range_eq bind_op_def of_result_def get_memory_def slice_get_def
      chunks.simps val_to_bytes_def absolute_to_relative_def with_current_frame_relative_object_table_def
      index_to_handle_eq set_memory_def table_of_def memory_of_def in_vm_def)

theorem vec_survives_memory_witness:
  "\<exists>t ob w. vec_unpack_to_linear_memory example_common (Obj VecObject 3) 8 2 example_vm = Inr ((), t) \<and>
     vec_new_from_linear_memory example_common 8 2 t = Inr (ob, w) \<and>
     object_at w ob (VecHO [ObjV (Obj BytesObject 1), SmallV (Some 5)])"
proof -
  from example_unpack obtain t mem where
    t: "vec_unpack_to_linear_memory example_common (Obj VecObject 3) 8 2 example_vm = Inr ((), t)"
    "length (table_of t) = 1" "length (ob_objects t) = 2" "in_vm t" "memory_of t = Some mem"
    by auto
  from vec_survives_memory [OF example_payload_law example_vm_ok example_objects(2) t(1) grows_refl names_kept_refl t(4,5)] t
  show ?thesis by auto
qed

end
