(* ===== verification/Host_Object_Props.thy ===== *)
theory Host_Object_Props
  imports Host_Object_Keep Host_Memory_Props
begin

text \<open>
  Properties of the objects: what calls of host functions keep, what a contract can name, and that
  the functions on bytes are those on lists.
\<close>

section \<open>Runs of calls\<close>






section \<open>What a contract can name\<close>

text \<open>The arguments that a contract is called with are, when it passes them on, the values they were.\<close>

lemma arguments_cross_boundary:
  assumes "map_op absolute_to_relative args s = Inr (wasm_args, t)" and "in_vm s" and "length (table_of t) \<le> 2 ^ 31"
  shows "map_op relative_to_absolute wasm_args t = Inr (args, t)"
proof -
  have "tabulates s t"
    by (rule map_op_rel [OF assms(1), where R = tabulates])
       (auto intro: tabulates_refl tabulates_trans absolute_to_relative_tabulates)
  then have "in_vm t"
    using tabulatesD(4) assms(2) by blast
  show ?thesis
  proof (rule map_op_inverse [OF assms(1), where R = names_kept])
    show "names_kept s t" if "absolute_to_relative x s = Inr (y, t)" for x :: "'a hval" and s y t
      using absolute_to_relative_tabulates [OF that] by (rule tabulatesD)
    show "relative_to_absolute y t = Inr (x, t)"
      if "absolute_to_relative x s = Inr (y, s1)" "names_kept s1 t" for x s y s1
      by (rule relative_names_object [OF that \<open>in_vm t\<close> assms(3)])
  qed (auto intro: names_kept_trans)
qed

fun guest_names :: "obj list \<Rightarrow> 'i hval \<Rightarrow> bool" where
  "guest_names table (SmallV _) \<longleftrightarrow> True"
| "guest_names table (ObjV ob) \<longleftrightarrow>
     is_relative_object_handle (obj_handle ob) \<and> handle_to_index (obj_handle ob) < length table \<and>
     obj_tag (table ! handle_to_index (obj_handle ob)) = obj_tag ob"

fun guest_denotes :: "obj list \<Rightarrow> 'i hval \<Rightarrow> 'i hval" where
  "guest_denotes table (SmallV i) = SmallV i"
| "guest_denotes table (ObjV ob) = ObjV (table ! handle_to_index (obj_handle ob))"

lemma relative_to_absolute_eq:
  assumes "ob_stack s = VmFrame table memory # frames"
  shows "relative_to_absolute v s =
    (if guest_names table v then Inr (guest_denotes table v, s) else Inl (HostErr EValue InvalidInput))"
proof (cases v)
  case (SmallV i)
  then show ?thesis by (simp add: relative_to_absolute_def)
next
  case (ObjV ob)
  have "s\<lparr>ob_stack := VmFrame table memory # frames\<rparr> = s"
    using assms by (cases s) simp
  with ObjV assms show ?thesis
    by (auto simp: relative_to_absolute_def with_current_frame_relative_object_table_def bind_op_def table_get_def)
qed

lemma dispatch_args:
  assumes "ob_stack s = VmFrame table memory # frames" and "objs_ok s"
  shows "map_op (\<lambda>arg. bind_op (relative_to_absolute arg) (\<lambda>val.
      bind_op (check_val_integrity val) (\<lambda>_. ret val))) args s =
    (if \<forall>arg\<in>set args. guest_names table arg then Inr (map (guest_denotes table) args, s)
     else Inl (HostErr EValue InvalidInput))"
proof (induction args)
  case Nil
  show ?case by simp
next
  case (Cons arg args)
  have "valid_hval (ob_objects s) (guest_denotes table arg)" if "guest_names table arg"
    using that assms by (cases arg) (auto simp: objs_ok_def frame_ok_def list_all_iff)
  then have "check_val_integrity (guest_denotes table arg) s = Inr ((), s)" if "guest_names table arg"
    using that by (simp add: check_val_integrity_Inr)
  with Cons.IH show ?case
    by (simp add: bind_op_def relative_to_absolute_eq [OF assms(1)])
qed

text \<open>
  C34. A host function that a contract calls gets exactly the objects that its relative references name in the
  table of its own frame, if all of them are within the table and carry the tag of the object. Otherwise
  the function is not run, whatever it is: a reference that is absolute, out of range or mistagged ends the
  call with an error.
\<close>

theorem guest_confined_to_its_objects:
  assumes "ob_stack s = VmFrame table memory # frames" and "objs_ok s"
  shows "if \<forall>arg\<in>set args. guest_names table arg
    then \<forall>host_fn. dispatch host_fn args s =
      bind_op (host_fn (map (guest_denotes table) args)) (\<lambda>res.
        bind_op (check_val_integrity res) (\<lambda>_. absolute_to_relative res)) s
    else \<forall>host_fn. dispatch host_fn args s = Inl (HostErr EValue InvalidInput)"
  unfolding dispatch_def bind_op_def [of "map_op _ _"] dispatch_args [OF assms] by simp

section \<open>Functions on bytes\<close>

datatype byte_edit =
    Put u32 u32 | Del u32 | Push u32 | Pop | Insert u32 u32 | Append obj | Slice u32 u32

fun run_edit :: "'i env_common \<Rightarrow> byte_edit \<Rightarrow> obj \<Rightarrow> ('i, obj) obj_op" where
  "run_edit C (Put i u) b = bytes_put C b i u"
| "run_edit C (Del i) b = bytes_del C b i"
| "run_edit C (Push u) b = bytes_push C b u"
| "run_edit C Pop b = bytes_pop C b"
| "run_edit C (Insert i u) b = bytes_insert C b i u"
| "run_edit C (Append b') b = bytes_append C b b'"
| "run_edit C (Slice i j) b = bytes_slice C b i j"

primrec run_edits :: "'i env_common \<Rightarrow> byte_edit list \<Rightarrow> obj \<Rightarrow> ('i, obj) obj_op" where
  "run_edits C [] b = ret b"
| "run_edits C (e # es) b = bind_op (run_edit C e b) (run_edits C es)"

text \<open>The same on lists: \<open>look\<close> gives the bytes of an object that is appended.\<close>

fun list_edit :: "(obj \<Rightarrow> byte list) \<Rightarrow> byte_edit \<Rightarrow> byte list \<Rightarrow> error + byte list" where
  "list_edit look (Put i u) xs =
     (if 256 \<le> unat u then Inl (HostErr EValue ArithDomain)
      else if length xs \<le> unat i then Inl (HostErr EObject IndexBounds)
      else Inr (xs[unat i := ucast u]))"
| "list_edit look (Del i) xs =
     (if length xs \<le> unat i then Inl (HostErr EObject IndexBounds)
      else Inr (take (unat i) xs @ drop (Suc (unat i)) xs))"
| "list_edit look (Push u) xs =
     (if 256 \<le> unat u \<or> length xs = 2 ^ 32 - 1 then Inl (HostErr EValue ArithDomain)
      else Inr (xs @ [ucast u]))"
| "list_edit look Pop xs = (if xs = [] then Inl (HostErr EObject IndexBounds) else Inr (butlast xs))"
| "list_edit look (Insert i u) xs =
     (if 256 \<le> unat u then Inl (HostErr EValue ArithDomain)
      else if length xs < unat i then Inl (HostErr EObject IndexBounds)
      else if length xs = 2 ^ 32 - 1 then Inl (HostErr EValue ArithDomain)
      else Inr (take (unat i) xs @ ucast u # drop (unat i) xs))"
| "list_edit look (Append b) xs =
     (if 2 ^ 32 \<le> length xs + length (look b) then Inl (HostErr EValue ArithDomain) else Inr (xs @ look b))"
| "list_edit look (Slice i j) xs =
     (if length xs < unat i \<or> length xs < unat j then Inl (HostErr EObject IndexBounds)
      else if unat j < unat i then Inl (HostErr EObject InvalidInput)
      else Inr (take (unat j - unat i) (drop (unat i) xs)))"

primrec list_edits :: "(obj \<Rightarrow> byte list) \<Rightarrow> byte_edit list \<Rightarrow> byte list \<Rightarrow> error + byte list" where
  "list_edits look [] xs = Inr xs"
| "list_edits look (e # es) xs = (case list_edit look e xs of Inl er \<Rightarrow> Inl er | Inr ys \<Rightarrow> list_edits look es ys)"

lemma sum_fits:
  assumes "m < 2 ^ 32" and "n < 2 ^ 32"
  shows "validate_usize_sum_fits_in_u32 m n = (if 2 ^ 32 \<le> m + n then Inl (HostErr EValue ArithDomain) else Inr (m + n))"
proof -
  define a b :: u32 where "a = word_of_nat m" and "b = word_of_nat n"
  have ab: "unat a = m" "unat b = n"
    using assms by (simp_all add: a_def b_def)
  have fold: "validate_usize_sum_fits_in_u32 m n =
      (case checked_add a b of None \<Rightarrow> Inl err_arith_overflow | Some u \<Rightarrow> Inr (unat u))"
    using assms unfolding validate_usize_sum_fits_in_u32_def a_def b_def by simp
  show ?thesis
  proof (cases "checked_add a b")
    case None
    then have "2 ^ 32 \<le> m + n" using ab by (simp add: checked_add_None_iff)
    then show ?thesis using None unfolding fold err_arith_overflow_def by simp
  next
    case (Some c)
    then have "unat c = m + n" using checked_add_Some [OF Some] ab by simp
    moreover have "unat c < 2 ^ 32" using unsigned_less [of c] by simp
    ultimately show ?thesis using Some unfolding fold by simp
  qed
qed

lemma list_edit_length: "list_edit look e xs = Inr ys \<Longrightarrow> length xs < 2 ^ 32 \<Longrightarrow> length ys < 2 ^ 32"
  by (cases e) (auto split: if_splits)

lemma visit_bytes_eq:
  "object_at s b (BytesHO xs) \<Longrightarrow> visit_bytes b f s = (case f xs of Inl er \<Rightarrow> Inl er | Inr a \<Rightarrow> Inr (a, s))"
  by (simp add: visit_bytes_def visit_obj_def visit_object_at of_result_def)

lemma bytes_try_from_short: "length xs < 2 ^ 32 \<Longrightarrow> bytes_try_from C xs = Inr xs"
  by (simp add: bytes_try_from_def)

lemma add_bytes_short: "length xs < 2 ^ 32 \<Longrightarrow> add_bytes C xs s = add_host_object (BytesHO xs) s"
  by (simp add: add_bytes_def bytes_try_from_short bind_op_def of_result_def)

lemma u8_input: "u8_from_u32val_input u = (if 256 \<le> unat u then Inl (HostErr EValue ArithDomain) else Inr (ucast u))"
  by (simp add: u8_from_u32val_input_def)

lemma del_count:
  assumes "n < 2 ^ 32" and "unat i < n"
  shows "checked_sub (word_of_nat n :: u64) (ucast (i :: u32)) \<noteq> None"
proof -
  have "unat (word_of_nat n :: u64) = n"
    using assms(1) by (simp add: unsigned_of_nat take_bit_nat_eq_self)
  moreover have "unat (ucast i :: u64) = unat i"
    by (simp add: unsigned_ucast_eq take_bit_nat_eq_self unsigned_less [THEN less_le_trans])
  ultimately have "(ucast i :: u64) \<le> word_of_nat n"
    using assms(2) by (simp add: word_le_nat_alt)
  then show ?thesis by (simp add: checked_sub_def)
qed

text \<open>One function on bytes: the error of the list function, or the object of its result.\<close>

lemma run_edit_eq:
  assumes "object_at s b (BytesHO xs)" and "length xs < 2 ^ 32"
    and "\<And>b'. e = Append b' \<Longrightarrow> object_at s b' (BytesHO (look b')) \<and> length (look b') < 2 ^ 32"
  shows "run_edit C e b s =
    (case list_edit look e xs of Inl er \<Rightarrow> Inl er | Inr ys \<Rightarrow> add_host_object (BytesHO ys) s)"
proof -
  note at = visit_bytes_eq [OF assms(1)]
  note eval = bind_op_def of_result_def at err_index_bounds_def u8_input
  show ?thesis
  proof (cases e)
    case (Put i u)
    with assms(2) show ?thesis
      by (simp add: eval bytes_put_def bytes_try_from_short)
  next
    case (Del i)
    then show ?thesis
      using del_count [OF assms(2), of i] assms(2)
      by (auto simp: eval bytes_del_def validate_index_lt_bound_def bytes_try_from_short split: option.splits)
  next
    case (Push u)
    with assms(2) show ?thesis
      by (auto simp: eval bytes_push_def sum_fits bytes_try_from_short)
  next
    case Pop
    with assms(2) show ?thesis
      by (auto simp: eval bytes_pop_def bytes_try_from_short)
  next
    case (Insert i u)
    with assms(2) show ?thesis
      by (auto simp: eval bytes_insert_def validate_index_le_bound_def sum_fits bytes_try_from_short)
  next
    case (Append b')
    with assms show ?thesis
      by (auto simp: eval bytes_append_def visit_obj_def visit_object_at visit_bytes_eq sum_fits add_bytes_short)
  next
    case (Slice i j)
    with assms(2) show ?thesis
      by (auto simp: eval bytes_slice_def valid_range_from_start_end_bound_def validate_index_le_bound_def
          slice_get_def add_bytes_short word_less_nat_alt word_le_nat_alt)
  qed
qed

lemma object_at_grows: "object_at s b ho \<Longrightarrow> grows s t \<Longrightarrow> object_at t b ho"
  by (auto simp: object_at_def grows_def nth_append)

text \<open>
  C35. A sequence of host functions on bytes, each applied to the object that the one before made, does what
  the functions on lists do: it stops with their error, or it ends with an object that holds their
  result, and the object it began with still holds its bytes.
\<close>

theorem bytes_functions_are_list_functions:
  assumes "object_at s b (BytesHO xs)" and "length xs < 2 ^ 32"
    and "\<forall>b'. Append b' \<in> set es \<longrightarrow> object_at s b' (BytesHO (look b')) \<and> length (look b') < 2 ^ 32"
    and "length (ob_objects s) + length es \<le> 2 ^ 31"
  shows "case list_edits look es xs of
      Inl er \<Rightarrow> run_edits C es b s = Inl er
    | Inr ys \<Rightarrow> \<exists>b' t. run_edits C es b s = Inr (b', t) \<and> object_at t b' (BytesHO ys) \<and> object_at t b (BytesHO xs)"
proof -
  have "case list_edits look es xs of
      Inl er \<Rightarrow> run_edits C es b s = Inl er
    | Inr ys \<Rightarrow> \<exists>b' t. run_edits C es b s = Inr (b', t) \<and> object_at t b' (BytesHO ys) \<and> grows s t"
    using assms
  proof (induction es arbitrary: b xs s)
    case Nil
    then show ?case by auto
  next
    case (Cons e es)
    have step: "run_edit C e b s =
        (case list_edit look e xs of Inl er \<Rightarrow> Inl er | Inr ys \<Rightarrow> add_host_object (BytesHO ys) s)"
      using Cons.prems(1-3) by (intro run_edit_eq) auto
    show ?case
    proof (cases "list_edit look e xs")
      case (Inl er)
      with step show ?thesis by (simp add: bind_op_def)
    next
      case (Inr ys)
      have "length (ob_objects s) < 2 ^ 31" using Cons.prems(4) by simp
      from add_object_runs [OF this] obtain b1 s1 where add: "add_host_object (BytesHO ys) s = Inr (b1, s1)"
        by blast
      have len: "length (ob_objects s1) = Suc (length (ob_objects s))"
        using add_host_object_Inr(1) [OF add] by simp
      have gr: "grows s s1" using add_host_object_Inr(1) [OF add] by (auto simp: grows_def)
      have at: "object_at s1 b1 (BytesHO ys)"
        using Cons.prems(4) len by (intro added_object_at [OF add]) simp_all
      have run: "run_edits C (e # es) b s = run_edits C es b1 s1"
        using step Inr add by (simp add: bind_op_def)
      have edits: "list_edits look (e # es) xs = list_edits look es ys"
        using Inr by simp
      have "case list_edits look es ys of
          Inl er \<Rightarrow> run_edits C es b1 s1 = Inl er
        | Inr zs \<Rightarrow> \<exists>b' t. run_edits C es b1 s1 = Inr (b', t) \<and> object_at t b' (BytesHO zs) \<and> grows s1 t"
        by (rule Cons.IH [OF at list_edit_length [OF Inr Cons.prems(2)]])
           (use Cons.prems(3,4) len gr in \<open>auto intro: object_at_grows\<close>)
      then show ?thesis
        unfolding run edits using gr by (auto split: sum.splits intro: grows_trans)
    qed
  qed
  then show ?thesis
    using assms(1) by (auto split: sum.splits intro: object_at_grows)
qed

section \<open>Serialization\<close>

text \<open>A value that was serialized and deserialized stands for the same XDR value.\<close>

lemma serialized_value_returns:
  assumes laws: "classify_laws C" and "cm_write_xdr C v = Some bs" and "cm_read_xdr C bs = Inr v"
    and conv: "from_host_val C depth x s = Inr (v, s)" and ser: "serialize_to_bytes C depth x s = Inr (ob, t)"
    and "grows t u" and deser: "deserialize_from_bytes C depth ob u = Inr (y, w)" and "length (ob_objects w) \<le> 2 ^ 31"
  shows "from_host_val C depth y w = Inr (v, w)"
proof -
  from ser conv assms(2) have add: "add_host_object (BytesHO bs) s = Inr (ob, t)"
    by (auto simp: serialize_to_bytes_def add_bytes_def bytes_try_from_def bind_op_def of_result_def split: if_splits)
  have "grows u w"
    using keepsD(1) [OF keeps_deserialize deser] .
  with assms(8) have "length (ob_objects u) \<le> 2 ^ 31"
    using grows_length by fastforce
  with add assms(6) have "object_at u ob (BytesHO bs)"
    by (rule added_object_at)
  from visit_bytes_eq [OF this, of "cm_read_xdr C"] deser assms(3) have "to_host_val C depth v u = Inr (y, w)"
    by (simp add: deserialize_from_bytes_def bind_op_def split: if_splits)
  then show ?thesis
    using from_to_host_val [OF laws] assms(8) by simp
qed

section \<open>Examples\<close>


text \<open>In a frame that was given the vector, the contract names it by 0; the handle 3 it cannot use.\<close>

definition example_guest :: "u32 option objs" where
  "example_guest = example_vm\<lparr>ob_stack := [VmFrame [Obj VecObject 3] None]\<rparr>"

theorem guest_confined_to_its_objects_witness:
  "dispatch (\<lambda>vals. ret (SmallV None)) [ObjV (Obj VecObject 3)] example_guest = Inl (HostErr EValue InvalidInput) \<and>
   dispatch (\<lambda>vals. ret (SmallV (Some 7))) [ObjV (Obj VecObject 0)] example_guest = Inr (SmallV (Some 7), example_guest)"
proof -
  have stack: "ob_stack example_guest = VmFrame [Obj VecObject 3] None # []"
    by (simp add: example_guest_def)
  have ok: "objs_ok example_guest"
    by (simp add: objs_ok_def example_guest_def example_vm_def frame_ok_def valid_obj_def is_relative_object_handle_def
        handle_to_index_def)
  have "dispatch (\<lambda>vals. ret (SmallV None)) [ObjV (Obj VecObject 3)] example_guest = Inl (HostErr EValue InvalidInput)"
    using guest_confined_to_its_objects [OF stack ok, of "[ObjV (Obj VecObject 3)]"]
    by (simp add: is_relative_object_handle_def)
  moreover have "dispatch (\<lambda>vals. ret (SmallV (Some 7))) [ObjV (Obj VecObject 0)] example_guest =
      Inr (SmallV (Some 7), example_guest)"
    using guest_confined_to_its_objects [OF stack ok, of "[ObjV (Obj VecObject 0)]"]
    by (simp add: is_relative_object_handle_def handle_to_index_def bind_op_def check_val_integrity_def
        absolute_to_relative_def)
  ultimately show ?thesis by simp
qed

theorem bytes_functions_are_list_functions_witness:
  "(\<exists>b' t. run_edits example_common [Push 9, Del 0, Append (Obj BytesObject 1)] (Obj BytesObject 1) example_vm =
     Inr (b', t) \<and> object_at t b' (BytesHO [2, 3, 9, 1, 2, 3])) \<and>
   run_edits example_common [Push 256] (Obj BytesObject 1) example_vm = Inl (HostErr EValue ArithDomain)"
proof -
  have at: "object_at example_vm (Obj BytesObject 1) (BytesHO [1, 2, 3])"
    using example_objects(1) by simp
  note edits = bytes_functions_are_list_functions [OF at, where look = "\<lambda>_. [1, 2, 3]" and C = example_common]
  have "\<exists>b' t. run_edits example_common [Push 9, Del 0, Append (Obj BytesObject 1)] (Obj BytesObject 1) example_vm =
      Inr (b', t) \<and> object_at t b' (BytesHO [2, 3, 9, 1, 2, 3])"
    using edits [of "[Push 9, Del 0, Append (Obj BytesObject 1)]"] at by (auto simp: example_vm_def)
  moreover have "run_edits example_common [Push 256] (Obj BytesObject 1) example_vm = Inl (HostErr EValue ArithDomain)"
    using edits [of "[Push 256]"] by (simp add: example_vm_def)
  ultimately show ?thesis by blast
qed

end
