(* ===== verification/Host_Order.thy ===== *)
theory Host_Order
  imports Host_Memory_Inv
begin

text \<open>
  The order of XDR values and that of the values of the host (\<open>host/comparison.rs\<close>, \<open>obj_cmp\<close> of
  \<open>host.rs\<close>, \<open>try_compare_to_small\<close> of \<open>host_object.rs\<close>): maps of the host are sorted by the one, maps in
  the ledger by the other, and they have to agree. Comparisons are limited in depth; charges to
  the budget are not modelled.
\<close>

section \<open>XDR values\<close>

text \<open>Vectors, pairs and options compare lexicographically, an absent value before any other.\<close>

fun compare_seq :: "'a compare \<Rightarrow> 'a list compare" where
  "compare_seq c [] [] = Inr Equal"
| "compare_seq c [] (y # ys) = Inr Less"
| "compare_seq c (x # xs) [] = Inr Greater"
| "compare_seq c (x # xs) (y # ys) =
     (case c x y of Inl e \<Rightarrow> Inl e | Inr Equal \<Rightarrow> compare_seq c xs ys | Inr r \<Rightarrow> Inr r)"

definition compare_entry :: "'a compare \<Rightarrow> ('a \<times> 'a) compare" where
  "compare_entry c a b =
     (case c (fst a) (fst b) of Inl e \<Rightarrow> Inl e | Inr Equal \<Rightarrow> c (snd a) (snd b) | Inr r \<Rightarrow> Inr r)"

definition cmp_unsigned :: "'a::len word \<Rightarrow> 'a word \<Rightarrow> ordering" where
  "cmp_unsigned x y = cmp_int (uint x) (uint y)"

definition cmp_signed :: "'a::len word \<Rightarrow> 'a word \<Rightarrow> ordering" where
  "cmp_signed x y = cmp_int (sint x) (sint y)"

definition cmp_byte_slices :: "byte list \<Rightarrow> byte list \<Rightarrow> ordering" where
  "cmp_byte_slices = cmp_list cmp_unsigned"

fun discriminant_scv :: "scv \<Rightarrow> int" where
  "discriminant_scv (BoolS _) = 0"
| "discriminant_scv VoidS = 1"
| "discriminant_scv (ErrorS _ _) = 2"
| "discriminant_scv (U32S _) = 3"
| "discriminant_scv (I32S _) = 4"
| "discriminant_scv (U64S _) = 5"
| "discriminant_scv (I64S _) = 6"
| "discriminant_scv (TimepointS _) = 7"
| "discriminant_scv (DurationS _) = 8"
| "discriminant_scv (U128S _) = 9"
| "discriminant_scv (I128S _) = 10"
| "discriminant_scv (U256S _) = 11"
| "discriminant_scv (I256S _) = 12"
| "discriminant_scv (BytesS _) = 13"
| "discriminant_scv (StringS _) = 14"
| "discriminant_scv (SymbolS _) = 15"
| "discriminant_scv (VecS _) = 16"
| "discriminant_scv (MapS _) = 17"
| "discriminant_scv (AddressS _) = 18"
| "discriminant_scv (ContractInstanceS _ _) = 19"
| "discriminant_scv LedgerKeyContractInstanceS = 20"
| "discriminant_scv (LedgerKeyNonceS _) = 21"

text \<open>Two values of the same variant that has no values inside.\<close>

definition scalar_cmp :: "scv \<Rightarrow> scv \<Rightarrow> ordering option" where
  "scalar_cmp a b =
     (case a of
        BoolS x \<Rightarrow> (case b of BoolS y \<Rightarrow> Some (cmp_int (of_bool x) (of_bool y)) | _ \<Rightarrow> None)
      | VoidS \<Rightarrow> (case b of VoidS \<Rightarrow> Some Equal | _ \<Rightarrow> None)
      | ErrorS t x \<Rightarrow> (case b of ErrorS u y \<Rightarrow> Some (then_cmp (cmp_unsigned t u) (cmp_unsigned x y)) | _ \<Rightarrow> None)
      | U32S x \<Rightarrow> (case b of U32S y \<Rightarrow> Some (cmp_unsigned x y) | _ \<Rightarrow> None)
      | I32S x \<Rightarrow> (case b of I32S y \<Rightarrow> Some (cmp_signed x y) | _ \<Rightarrow> None)
      | U64S x \<Rightarrow> (case b of U64S y \<Rightarrow> Some (cmp_unsigned x y) | _ \<Rightarrow> None)
      | I64S x \<Rightarrow> (case b of I64S y \<Rightarrow> Some (cmp_signed x y) | _ \<Rightarrow> None)
      | TimepointS x \<Rightarrow> (case b of TimepointS y \<Rightarrow> Some (cmp_unsigned x y) | _ \<Rightarrow> None)
      | DurationS x \<Rightarrow> (case b of DurationS y \<Rightarrow> Some (cmp_unsigned x y) | _ \<Rightarrow> None)
      | U128S x \<Rightarrow> (case b of U128S y \<Rightarrow> Some (cmp_unsigned x y) | _ \<Rightarrow> None)
      | I128S x \<Rightarrow> (case b of I128S y \<Rightarrow> Some (cmp_signed x y) | _ \<Rightarrow> None)
      | U256S x \<Rightarrow> (case b of U256S y \<Rightarrow> Some (cmp_unsigned x y) | _ \<Rightarrow> None)
      | I256S x \<Rightarrow> (case b of I256S y \<Rightarrow> Some (cmp_signed x y) | _ \<Rightarrow> None)
      | BytesS x \<Rightarrow> (case b of BytesS y \<Rightarrow> Some (cmp_byte_slices x y) | _ \<Rightarrow> None)
      | StringS x \<Rightarrow> (case b of StringS y \<Rightarrow> Some (cmp_byte_slices x y) | _ \<Rightarrow> None)
      | SymbolS x \<Rightarrow> (case b of SymbolS y \<Rightarrow> Some (cmp_byte_slices x y) | _ \<Rightarrow> None)
      | AddressS x \<Rightarrow> (case b of AddressS y \<Rightarrow> Some (compare_address x y) | _ \<Rightarrow> None)
      | LedgerKeyContractInstanceS \<Rightarrow> (case b of LedgerKeyContractInstanceS \<Rightarrow> Some Equal | _ \<Rightarrow> None)
      | LedgerKeyNonceS x \<Rightarrow> (case b of LedgerKeyNonceS y \<Rightarrow> Some (cmp_signed x y) | _ \<Rightarrow> None)
      | _ \<Rightarrow> None)"

definition missing_body :: "scv \<Rightarrow> bool" where
  "missing_body v \<longleftrightarrow> v = VecS None \<or> v = MapS None"

definition compare_executable :: "executable \<Rightarrow> executable \<Rightarrow> ordering" where
  "compare_executable a b =
     (case (a, b) of
        (WasmExec x, WasmExec y) \<Rightarrow> compare_hash x y
      | (WasmExec _, StellarAssetExec) \<Rightarrow> Less
      | (StellarAssetExec, WasmExec _) \<Rightarrow> Greater
      | (StellarAssetExec, StellarAssetExec) \<Rightarrow> Equal)"

definition compare_option :: "'a compare \<Rightarrow> 'a option compare" where
  "compare_option c a b =
     (case (a, b) of
        (Some x, Some y) \<Rightarrow> c x y
      | (None, None) \<Rightarrow> Inr Equal
      | (None, Some _) \<Rightarrow> Inr Less
      | (Some _, None) \<Rightarrow> Inr Greater)"

definition compare_scv_with :: "scv compare \<Rightarrow> scv compare" where
  "compare_scv_with c a b =
     (let by_variant = Inr (cmp_int (discriminant_scv a) (discriminant_scv b)) in
      if missing_body a \<or> missing_body b then Inl (HostErr EValue InvalidInput)
      else case a of
        VecS x \<Rightarrow> (case b of VecS y \<Rightarrow> compare_seq c (the x) (the y) | _ \<Rightarrow> by_variant)
      | MapS x \<Rightarrow> (case b of MapS y \<Rightarrow> compare_seq (compare_entry c) (the x) (the y) | _ \<Rightarrow> by_variant)
      | ContractInstanceS e x \<Rightarrow>
          (case b of
             ContractInstanceS f y \<Rightarrow>
               (case compare_executable e f of
                  Equal \<Rightarrow> compare_option (compare_seq (compare_entry c)) x y
                | r \<Rightarrow> Inr r)
           | _ \<Rightarrow> by_variant)
      | _ \<Rightarrow> (case scalar_cmp a b of Some r \<Rightarrow> Inr r | None \<Rightarrow> by_variant))"

primrec compare_scv :: "nat \<Rightarrow> scv compare" where
  "compare_scv 0 a b = Inl (HostErr EContext ExceededLimit)"
| "compare_scv (Suc depth) a b = compare_scv_with (compare_scv depth) a b"

section \<open>Values of the host\<close>

fun host_obj_discriminant :: "'i host_object \<Rightarrow> int" where
  "host_obj_discriminant (U64HO _) = 0"
| "host_obj_discriminant (I64HO _) = 1"
| "host_obj_discriminant (TimePointHO _) = 2"
| "host_obj_discriminant (DurationHO _) = 3"
| "host_obj_discriminant (U128HO _) = 4"
| "host_obj_discriminant (I128HO _) = 5"
| "host_obj_discriminant (U256HO _) = 6"
| "host_obj_discriminant (I256HO _) = 7"
| "host_obj_discriminant (BytesHO _) = 8"
| "host_obj_discriminant (StringHO _) = 9"
| "host_obj_discriminant (SymbolHO _) = 10"
| "host_obj_discriminant (VecHO _) = 11"
| "host_obj_discriminant (MapHO _) = 12"
| "host_obj_discriminant (AddressHO _) = 13"

definition compare_object_with :: "'i hval compare \<Rightarrow> 'i host_object compare" where
  "compare_object_with c a b =
     (let by_variant = Inr (cmp_int (host_obj_discriminant a) (host_obj_discriminant b)) in
      case a of
        U64HO x \<Rightarrow> (case b of U64HO y \<Rightarrow> Inr (cmp_unsigned x y) | _ \<Rightarrow> by_variant)
      | I64HO x \<Rightarrow> (case b of I64HO y \<Rightarrow> Inr (cmp_signed x y) | _ \<Rightarrow> by_variant)
      | TimePointHO x \<Rightarrow> (case b of TimePointHO y \<Rightarrow> Inr (cmp_unsigned x y) | _ \<Rightarrow> by_variant)
      | DurationHO x \<Rightarrow> (case b of DurationHO y \<Rightarrow> Inr (cmp_unsigned x y) | _ \<Rightarrow> by_variant)
      | U128HO x \<Rightarrow> (case b of U128HO y \<Rightarrow> Inr (cmp_unsigned x y) | _ \<Rightarrow> by_variant)
      | I128HO x \<Rightarrow> (case b of I128HO y \<Rightarrow> Inr (cmp_signed x y) | _ \<Rightarrow> by_variant)
      | U256HO x \<Rightarrow> (case b of U256HO y \<Rightarrow> Inr (cmp_unsigned x y) | _ \<Rightarrow> by_variant)
      | I256HO x \<Rightarrow> (case b of I256HO y \<Rightarrow> Inr (cmp_signed x y) | _ \<Rightarrow> by_variant)
      | VecHO x \<Rightarrow> (case b of VecHO y \<Rightarrow> compare_seq c x y | _ \<Rightarrow> by_variant)
      | MapHO x \<Rightarrow> (case b of MapHO y \<Rightarrow> compare_seq (compare_entry c) x y | _ \<Rightarrow> by_variant)
      | BytesHO x \<Rightarrow> (case b of BytesHO y \<Rightarrow> Inr (cmp_byte_slices x y) | _ \<Rightarrow> by_variant)
      | StringHO x \<Rightarrow> (case b of StringHO y \<Rightarrow> Inr (cmp_byte_slices x y) | _ \<Rightarrow> by_variant)
      | SymbolHO x \<Rightarrow> (case b of SymbolHO y \<Rightarrow> Inr (cmp_byte_slices x y) | _ \<Rightarrow> by_variant)
      | AddressHO x \<Rightarrow> (case b of AddressHO y \<Rightarrow> Inr (compare_address x y) | _ \<Rightarrow> by_variant))"

text \<open>
  The comparison of an object with a small value of the associated small type, of which the
  conversion \<open>cm_scv_of\<close> gives the number or the symbol.
\<close>

definition try_compare_to_small :: "'i env_common \<Rightarrow> 'i host_object \<Rightarrow> 'i \<Rightarrow> ordering option" where
  "try_compare_to_small C hobj rv =
     (let small = cm_scv_of C rv in
      case hobj of
        U64HO u \<Rightarrow> (case small of Inr (U64S x) \<Rightarrow> Some (cmp_unsigned u x) | _ \<Rightarrow> None)
      | I64HO i \<Rightarrow> (case small of Inr (I64S x) \<Rightarrow> Some (cmp_signed i x) | _ \<Rightarrow> None)
      | TimePointHO tp \<Rightarrow> (case small of Inr (TimepointS x) \<Rightarrow> Some (cmp_unsigned tp x) | _ \<Rightarrow> None)
      | DurationHO d \<Rightarrow> (case small of Inr (DurationS x) \<Rightarrow> Some (cmp_unsigned d x) | _ \<Rightarrow> None)
      | U128HO u \<Rightarrow> (case small of Inr (U128S x) \<Rightarrow> Some (cmp_unsigned u x) | _ \<Rightarrow> None)
      | I128HO i \<Rightarrow> (case small of Inr (I128S x) \<Rightarrow> Some (cmp_signed i x) | _ \<Rightarrow> None)
      | U256HO u \<Rightarrow> (case small of Inr (U256S x) \<Rightarrow> Some (cmp_unsigned u x) | _ \<Rightarrow> None)
      | I256HO i \<Rightarrow> (case small of Inr (I256S x) \<Rightarrow> Some (cmp_signed i x) | _ \<Rightarrow> None)
      | SymbolHO s \<Rightarrow> (case small of Inr (SymbolS x) \<Rightarrow> Some (cmp_byte_slices s x) | _ \<Rightarrow> None)
      | _ \<Rightarrow> None)"

fun reverse_ordering :: "ordering \<Rightarrow> ordering" where
  "reverse_ordering Less = Greater"
| "reverse_ordering Greater = Less"
| "reverse_ordering Equal = Equal"

text \<open>\<open>visit_obj_untyped\<close> on the table alone.\<close>

definition object_of :: "'i host_object list \<Rightarrow> obj \<Rightarrow> error + 'i host_object" where
  "object_of objects ob =
     (if is_relative_object_handle (obj_handle ob) then Inl (HostErr EObject InternalError)
      else if handle_to_index (obj_handle ob) < length objects
      then Inr (objects ! handle_to_index (obj_handle ob))
      else Inl (HostErr EValue InvalidInput))"

definition on_object ::
  "'i host_object list \<Rightarrow> obj \<Rightarrow> ('i host_object \<Rightarrow> error + 'a) \<Rightarrow> error + 'a" where
  "on_object objects ob f = (case object_of objects ob of Inl e \<Rightarrow> Inl e | Inr ho \<Rightarrow> f ho)"

text \<open>
  \<open>scval_type\<close> is \<open>get_tag().get_scval_type()\<close> of \<open>soroban_env_common\<close>; the numbers \<open>-1\<close>, \<open>0\<close> and \<open>1\<close> that \<open>obj_cmp\<close>
  returns for an ordering are that ordering here.
\<close>

definition obj_cmp ::
  "'i env_common \<Rightarrow> ('i hval \<Rightarrow> int) \<Rightarrow> 'i host_object compare \<Rightarrow> 'i host_object list \<Rightarrow> 'i hval compare" where
  "obj_cmp C scval_type compare_objects objects a b =
     (case (case a of
              ObjV x \<Rightarrow>
                (case b of
                   ObjV y \<Rightarrow> on_object objects x (\<lambda>ao. on_object objects y (\<lambda>bo.
                     case compare_objects ao bo of Inl e \<Rightarrow> Inl e | Inr r \<Rightarrow> Inr (Some r)))
                 | SmallV j \<Rightarrow> on_object objects x (\<lambda>aobj. Inr (try_compare_to_small C aobj j)))
            | SmallV i \<Rightarrow>
                (case b of
                   ObjV y \<Rightarrow> on_object objects y (\<lambda>bobj.
                     Inr (map_option reverse_ordering (try_compare_to_small C bobj i)))
                 | SmallV j \<Rightarrow> Inl (HostErr EValue UnexpectedType))) of
        Inl e \<Rightarrow> Inl e
      | Inr (Some res) \<Rightarrow> Inr res
      | Inr None \<Rightarrow>
          (let atype = scval_type a; btype = scval_type b in
           if atype = btype then Inl (HostErr EValue InternalError)
           else Inr (cmp_int atype btype)))"

text \<open>
  \<open>compare_vals\<close> is the comparison of two values of \<open>soroban_env_common\<close>, which calls \<open>obj_cmp\<close> when one of
  them is an object.
\<close>

primrec compare_host_object ::
  "'i env_common \<Rightarrow> ('i hval \<Rightarrow> int) \<Rightarrow> ('i hval compare \<Rightarrow> 'i hval compare) \<Rightarrow> 'i host_object list \<Rightarrow> nat \<Rightarrow>
   'i host_object compare" where
  "compare_host_object C scval_type compare_vals objects 0 a b = Inl (HostErr EContext ExceededLimit)"
| "compare_host_object C scval_type compare_vals objects (Suc depth) a b =
     compare_object_with (compare_vals
       (obj_cmp C scval_type (compare_host_object C scval_type compare_vals objects depth) objects)) a b"

definition compare_hval ::
  "'i env_common \<Rightarrow> ('i hval \<Rightarrow> int) \<Rightarrow> ('i hval compare \<Rightarrow> 'i hval compare) \<Rightarrow> 'i host_object list \<Rightarrow> nat \<Rightarrow>
   'i hval compare" where
  "compare_hval C scval_type compare_vals objects depth =
     compare_vals (obj_cmp C scval_type (compare_host_object C scval_type compare_vals objects depth) objects)"

end
