(* ===== verification/Host_Order_Props.thy ===== *)
theory Host_Order_Props
  imports Host_Order Host_Convert_Props
begin

text \<open>
  The two orders agree: values of the host compare as the XDR values that they stand for
  (\<open>host_order_is_scval_order\<close>).
\<close>

section \<open>What the crates promise\<close>

text \<open>The variants that a small value can stand for.\<close>

fun small_variant :: "scv \<Rightarrow> bool" where
  "small_variant (BytesS _) = False"
| "small_variant (StringS _) = False"
| "small_variant (VecS _) = False"
| "small_variant (MapS _) = False"
| "small_variant (AddressS _) = False"
| "small_variant (ContractInstanceS _ _) = False"
| "small_variant _ = True"

text \<open>The XDR type that belongs to the tag of a reference.\<close>

fun tag_scval_type :: "obj_tag \<Rightarrow> int" where
  "tag_scval_type U64Object = 5"
| "tag_scval_type I64Object = 6"
| "tag_scval_type TimepointObject = 7"
| "tag_scval_type DurationObject = 8"
| "tag_scval_type U128Object = 9"
| "tag_scval_type I128Object = 10"
| "tag_scval_type U256Object = 11"
| "tag_scval_type I256Object = 12"
| "tag_scval_type BytesObject = 13"
| "tag_scval_type StringObject = 14"
| "tag_scval_type SymbolObject = 15"
| "tag_scval_type VecObject = 16"
| "tag_scval_type MapObject = 17"
| "tag_scval_type AddressObject = 18"

text \<open>
  What \<open>soroban_env_common\<close> promises of its types and its comparison: a value equals itself, an object is compared by the host, and two small values
  as the XDR values that they stand for.
\<close>

definition order_laws ::
  "'i env_common \<Rightarrow> ('i hval \<Rightarrow> int) \<Rightarrow> ('i hval compare \<Rightarrow> 'i hval compare) \<Rightarrow> bool" where
  "order_laws C scval_type compare_vals \<longleftrightarrow>
     (\<forall>i v. cm_scv_of C i = Inr v \<longrightarrow> small_variant v \<and> scval_type (SmallV i) = discriminant_scv v) \<and>
     (\<forall>ob. scval_type (ObjV ob) = tag_scval_type (obj_tag ob)) \<and>
     (\<forall>oc a. compare_vals oc a a = Inr Equal) \<and>
     (\<forall>oc x b. b \<noteq> ObjV x \<longrightarrow> compare_vals oc (ObjV x) b = oc (ObjV x) b) \<and>
     (\<forall>oc i y. compare_vals oc (SmallV i) (ObjV y) = oc (SmallV i) (ObjV y)) \<and>
     (\<forall>oc i j v w. cm_scv_of C i = Inr v \<longrightarrow> cm_scv_of C j = Inr w \<longrightarrow>
        compare_vals oc (SmallV i) (SmallV j) = compare_scv (Suc 0) v w)"

section \<open>Every value equals itself\<close>

lemma cmp_unsigned_refl [simp]: "cmp_unsigned x x = Equal"
  by (simp add: cmp_unsigned_def cmp_int_def)

lemma cmp_signed_refl [simp]: "cmp_signed x x = Equal"
  by (simp add: cmp_signed_def cmp_int_def)

lemma cmp_byte_slices_refl [simp]: "cmp_byte_slices x x = Equal"
  by (simp add: cmp_byte_slices_def) (induction x; simp)

definition equals_itself :: "'a compare \<Rightarrow> bool" where
  "equals_itself c \<longleftrightarrow> (\<forall>x r. c x x = Inr r \<longrightarrow> r = Equal)"

lemma equals_itselfD: "equals_itself c \<Longrightarrow> c x x = Inr r \<Longrightarrow> r = Equal"
  by (auto simp: equals_itself_def)

lemma compare_seq_refl: "equals_itself c \<Longrightarrow> equals_itself (compare_seq c)"
  unfolding equals_itself_def [of "compare_seq c"]
proof (intro allI impI)
  show "r = Equal" if "equals_itself c" "compare_seq c xs xs = Inr r" for xs r
    using that by (induction xs) (auto split: sum.splits ordering.splits dest: equals_itselfD)
qed

lemma compare_entry_refl: "equals_itself c \<Longrightarrow> equals_itself (compare_entry c)"
  by (auto simp: equals_itself_def compare_entry_def split: sum.splits ordering.splits)

lemma compare_option_refl: "equals_itself c \<Longrightarrow> equals_itself (compare_option c)"
  by (auto simp: equals_itself_def compare_option_def split: option.splits)

lemma compare_address_refl [simp]: "compare_address a a = Equal"
  by (cases a) (simp_all add: compare_hash_def cmp_int_def)

lemma scalar_cmp_refl: "scalar_cmp v v = Some r \<Longrightarrow> r = Equal"
  by (cases v) (auto simp: scalar_cmp_def cmp_int_def then_cmp_def)

lemma compare_executable_refl [simp]: "compare_executable e e = Equal"
  by (cases e) (simp_all add: compare_executable_def compare_hash_def cmp_int_def)

lemma compare_scv_refl: "equals_itself (compare_scv d)"
proof (induction d)
  case (Suc d)
  note seq = equals_itselfD [OF compare_seq_refl [OF Suc]]
  note entries = compare_seq_refl [OF compare_entry_refl [OF Suc]]
  note storage = equals_itselfD [OF compare_option_refl [OF entries]]
  have "r = Equal" if "compare_scv_with (compare_scv d) v v = Inr r" for v r
    using that
    by (cases v)
       (auto simp: compare_scv_with_def Let_def cmp_int_def split: if_splits option.splits
         dest: seq storage equals_itselfD [OF entries] scalar_cmp_refl)
  then show ?case by (simp add: equals_itself_def)
qed (simp add: equals_itself_def)

section \<open>The value that an object stands for\<close>

fun atom_scv :: "'i host_object \<Rightarrow> scv option" where
  "atom_scv (VecHO _) = None"
| "atom_scv (MapHO _) = None"
| "atom_scv (U64HO u) = Some (U64S u)"
| "atom_scv (I64HO i) = Some (I64S i)"
| "atom_scv (TimePointHO t) = Some (TimepointS t)"
| "atom_scv (DurationHO d) = Some (DurationS d)"
| "atom_scv (U128HO u) = Some (U128S u)"
| "atom_scv (I128HO i) = Some (I128S i)"
| "atom_scv (U256HO u) = Some (U256S u)"
| "atom_scv (I256HO i) = Some (I256S i)"
| "atom_scv (BytesHO b) = Some (BytesS b)"
| "atom_scv (StringHO b) = Some (StringS b)"
| "atom_scv (SymbolHO b) = Some (SymbolS b)"
| "atom_scv (AddressHO a) = Some (AddressS a)"

text \<open>\<open>v\<close> is the XDR value of the object, when \<open>g\<close> reads its elements.\<close>

inductive stands_for ::
  "('i hval \<Rightarrow> ('i, scv) obj_op) \<Rightarrow> 'i objs \<Rightarrow> 'i host_object \<Rightarrow> scv \<Rightarrow> bool" for g s where
  vec: "map_op g xs s = Inr (vs, s) \<Longrightarrow> stands_for g s (VecHO xs) (VecS (Some vs))"
| mapping: "map_op (pair_op g) m s = Inr (ms, s) \<Longrightarrow> stands_for g s (MapHO m) (MapS (Some ms))"
| atom: "atom_scv ho = Some v \<Longrightarrow> stands_for g s ho v"

definition keeps_state :: "('a \<Rightarrow> ('s, 'b) op) \<Rightarrow> bool" where
  "keeps_state f \<longleftrightarrow> (\<forall>x s y t. f x s = Inr (y, t) \<longrightarrow> t = s)"

lemma keeps_stateD: "keeps_state f \<Longrightarrow> f x s = Inr (y, t) \<Longrightarrow> t = s"
  by (auto simp: keeps_state_def)

lemma map_op_keeps: "keeps_state f \<Longrightarrow> map_op f xs s = Inr (ys, t) \<Longrightarrow> t = s"
  by (induction xs arbitrary: ys t) (auto simp: bind_op_Inr dest: keeps_stateD)

lemma pair_op_keeps: "keeps_state f \<Longrightarrow> keeps_state (pair_op f)"
  by (auto simp: keeps_state_def pair_op_def split_def bind_op_Inr) metis

lemma from_host_obj_Inr:
  assumes g: "keeps_state g" and "from_host_obj C g ob s = Inr (v, t)"
  obtains ho where "t = s" "object_at s ob ho" "stands_for g s ho v"
proof -
  from assms(2) obtain ho where ho: "object_at s ob ho"
    by (auto simp: from_host_obj_def visit_obj_untyped_def object_at_def Let_def split: if_splits)
  have "t = s \<and> stands_for g s ho v"
    using assms(2) map_op_keeps [OF g] map_op_keeps [OF pair_op_keeps [OF g]]
    by (cases ho)
       (auto simp: from_host_obj_def visit_object_at [OF ho] bind_op_Inr of_result_Inr_iff
         host_map_to_scmap_def xdr_vec_def pair_op_def split_def split: if_splits
         intro: stands_for.intros [unfolded pair_op_def split_def])
  with ho that show thesis by blast
qed

lemma from_host_val_Suc:
  assumes "from_host_val C (Suc k) x s = Inr (v, t)"
  obtains (small) i where "x = SmallV i" "cm_scv_of C i = Inr v" "t = s"
  | (object) ob where "x = ObjV ob" "from_host_obj C (from_host_val C k) ob s = Inr (v, t)"
  using assms
  by (cases x) (auto simp: bind_op_Inr of_result_Inr_iff check_val_representable_scval_def split: if_splits)

lemma from_host_val_keeps: "keeps_state (from_host_val C k)"
proof (induction k)
  case (Suc k)
  have "t = s" if "from_host_val C (Suc k) x s = Inr (v, t)" for x s v t
    using that by (rule from_host_val_Suc) (auto elim: from_host_obj_Inr [OF Suc])
  then show ?case by (auto simp: keeps_state_def simp del: from_host_val.simps)
qed (simp add: keeps_state_def)

section \<open>An object and a small value\<close>

lemma cmp_int_reverse: "reverse_ordering (cmp_int a b) = cmp_int b a"
  by (simp add: cmp_int_def)

lemma cmp_unsigned_reverse: "reverse_ordering (cmp_unsigned x y) = cmp_unsigned y x"
  by (simp add: cmp_unsigned_def cmp_int_reverse)

lemma cmp_signed_reverse: "reverse_ordering (cmp_signed x y) = cmp_signed y x"
  by (simp add: cmp_signed_def cmp_int_reverse)

lemma reverse_ordering_flip: "reverse_ordering r = flip r"
  by (cases r) simp_all

lemma cmp_byte_slices_reverse: "reverse_ordering (cmp_byte_slices x y) = cmp_byte_slices y x"
  unfolding reverse_ordering_flip cmp_byte_slices_def
  by (rule cmp_list_flip [symmetric]) (metis cmp_unsigned_reverse reverse_ordering_flip)

lemma then_cmp_reverse:
  "reverse_ordering (then_cmp r s) = then_cmp (reverse_ordering r) (reverse_ordering s)"
  by (cases r) (simp_all add: then_cmp_def)

lemmas cmp_reverse = then_cmp_reverse cmp_int_reverse cmp_unsigned_reverse cmp_signed_reverse cmp_byte_slices_reverse

inductive_cases stands_for_list: "stands_for g s (VecHO xs) v" "stands_for g s (MapHO m) v"

lemma atom_scv_Some:
  assumes "atom_scv ho = Some v"
  shows "discriminant_scv v = tag_scval_type (object_tag ho)" and "\<not> missing_body v"
  using assms by (cases ho; auto simp: missing_body_def)+

lemma stands_for_type: "stands_for g s ho v \<Longrightarrow> discriminant_scv v = tag_scval_type (object_tag ho)"
  by (erule stands_for.cases) (simp_all add: atom_scv_Some)

lemma stands_for_body: "stands_for g s ho v \<Longrightarrow> \<not> missing_body v"
  by (erule stands_for.cases) (simp_all add: atom_scv_Some missing_body_def [of "VecS _"] missing_body_def [of "MapS _"])

lemma small_variant_body: "small_variant v \<Longrightarrow> \<not> missing_body v"
  by (cases v) (auto simp: missing_body_def)

lemma compare_small_variants:
  "small_variant v \<Longrightarrow> small_variant w \<Longrightarrow> compare_scv (Suc d) v w = compare_scv (Suc 0) v w"
  by (cases v) (simp_all add: compare_scv_with_def small_variant_body)

lemma compare_scv_atom:
  assumes "atom_scv ho = Some v" and "\<not> missing_body w"
  shows "compare_scv_with c v w = (case scalar_cmp v w of
    Some r \<Rightarrow> Inr r | None \<Rightarrow> Inr (cmp_int (discriminant_scv v) (discriminant_scv w)))"
  using assms by (cases ho) (auto simp: compare_scv_with_def Let_def missing_body_def)

lemma try_compare_is_scalar:
  assumes "atom_scv ho = Some v" and "cm_scv_of C j = Inr w" and "small_variant w"
  shows "try_compare_to_small C ho j = scalar_cmp v w"
  using assms by (cases ho) (auto simp: try_compare_to_small_def scalar_cmp_def split: scv.splits)

lemma scalar_cmp_reverse:
  "small_variant w \<Longrightarrow> scalar_cmp w v = map_option reverse_ordering (scalar_cmp v w)"
  by (cases w; cases v) (simp_all add: scalar_cmp_def cmp_reverse)

lemma scalar_cmp_None:
  assumes "scalar_cmp v w = None" and "small_variant w"
  shows "discriminant_scv v \<noteq> discriminant_scv w"
  using assms by (cases v; cases w) (simp_all add: scalar_cmp_def)

lemma scalar_cmp_Some: "scalar_cmp v w = Some r \<Longrightarrow> discriminant_scv v = discriminant_scv w"
  by (cases v; cases w) (simp_all add: scalar_cmp_def)

lemma compare_scv_mixed:
  assumes "\<not> missing_body v" and "\<not> missing_body w" and "discriminant_scv v \<noteq> discriminant_scv w"
  shows "compare_scv_with c v w = Inr (cmp_int (discriminant_scv v) (discriminant_scv w))"
proof -
  have none: "scalar_cmp v w = None"
    using assms(3) scalar_cmp_Some by (cases "scalar_cmp v w") auto
  show ?thesis
    using assms none
    by (cases v) (auto simp: compare_scv_with_def Let_def split: scv.splits)
qed

lemma small_variant_type: "small_variant w \<Longrightarrow> discriminant_scv w \<noteq> 16 \<and> discriminant_scv w \<noteq> 17"
  by (cases w) simp_all

lemma compare_scv_small:
  assumes "small_variant w" and "\<not> missing_body v"
  shows "compare_scv_with c w v = (case scalar_cmp w v of
    Some r \<Rightarrow> Inr r | None \<Rightarrow> Inr (cmp_int (discriminant_scv w) (discriminant_scv v)))"
  using assms by (cases w) (auto simp: compare_scv_with_def Let_def missing_body_def split: option.split)

lemma object_vs_small:
  assumes obj: "stands_for g s ho v" and j: "cm_scv_of C j = Inr w" and w: "small_variant w"
  shows "compare_scv_with c v w = (case try_compare_to_small C ho j of
      Some r \<Rightarrow> Inr r | None \<Rightarrow> Inr (cmp_int (discriminant_scv v) (discriminant_scv w)))"
    and "compare_scv_with c w v = (case try_compare_to_small C ho j of
      Some r \<Rightarrow> Inr (reverse_ordering r) | None \<Rightarrow> Inr (cmp_int (discriminant_scv w) (discriminant_scv v)))"
    and "try_compare_to_small C ho j = None \<Longrightarrow> discriminant_scv v \<noteq> discriminant_scv w"
proof -
  note body = stands_for_body [OF obj]
  have small: "try_compare_to_small C ho j = scalar_cmp v w"
    using obj
  proof cases
    case atom
    then show ?thesis by (simp add: try_compare_is_scalar [OF _ j w])
  qed (simp_all add: try_compare_to_small_def scalar_cmp_def)
  have by_type: "compare_scv_with c v w = (case try_compare_to_small C ho j of
      Some r \<Rightarrow> Inr r | None \<Rightarrow> Inr (cmp_int (discriminant_scv v) (discriminant_scv w)))"
    if "discriminant_scv v \<noteq> discriminant_scv w"
    using compare_scv_mixed [OF body small_variant_body [OF w] that] that scalar_cmp_Some [of v w]
    by (cases "scalar_cmp v w") (auto simp: small)
  show "compare_scv_with c v w = (case try_compare_to_small C ho j of
      Some r \<Rightarrow> Inr r | None \<Rightarrow> Inr (cmp_int (discriminant_scv v) (discriminant_scv w)))"
    using obj
  proof cases
    case atom
    then show ?thesis by (simp add: small compare_scv_atom small_variant_body [OF w])
  next
    case vec
    then show ?thesis using small_variant_type [OF w] by (intro by_type) simp
  next
    case mapping
    then show ?thesis using small_variant_type [OF w] by (intro by_type) simp
  qed
  show "compare_scv_with c w v = (case try_compare_to_small C ho j of
      Some r \<Rightarrow> Inr (reverse_ordering r) | None \<Rightarrow> Inr (cmp_int (discriminant_scv w) (discriminant_scv v)))"
    using scalar_cmp_reverse [OF w, of v]
    by (simp add: compare_scv_small [OF w body] small split: option.split)
  show "try_compare_to_small C ho j = None \<Longrightarrow> discriminant_scv v \<noteq> discriminant_scv w"
    by (simp add: small scalar_cmp_None w)
qed

section \<open>Two objects\<close>

text \<open>Values in \<open>P\<close> that \<open>g\<close> reads compare by \<open>c'\<close> as what is read of them compares by \<open>c\<close>.\<close>

definition follows ::
  "('a \<Rightarrow> bool) \<Rightarrow> ('a \<Rightarrow> ('s, 'b) op) \<Rightarrow> 's \<Rightarrow> 'b compare \<Rightarrow> 'a compare \<Rightarrow> bool" where
  "follows P g s c c' \<longleftrightarrow>
     (\<forall>x y v w r. P x \<longrightarrow> P y \<longrightarrow> g x s = Inr (v, s) \<longrightarrow> g y s = Inr (w, s) \<longrightarrow> c v w = Inr r \<longrightarrow> c' x y = Inr r)"

lemma followsD:
  "follows P g s c c' \<Longrightarrow> P x \<Longrightarrow> P y \<Longrightarrow> g x s = Inr (v, s) \<Longrightarrow> g y s = Inr (w, s) \<Longrightarrow> c v w = Inr r \<Longrightarrow>
    c' x y = Inr r"
  by (auto simp: follows_def)

lemma map_op_Cons_keeps:
  assumes "keeps_state g"
  shows "map_op g (x # xs) s = Inr (ys, s) \<longleftrightarrow>
    (\<exists>y zs. ys = y # zs \<and> g x s = Inr (y, s) \<and> map_op g xs s = Inr (zs, s))"
  using keeps_stateD [OF assms] by (auto simp: bind_op_Inr) metis+

lemma compare_seq_follows:
  assumes g: "keeps_state g" and c: "follows P g s c c'"
  shows "map_op g xs s = Inr (vs, s) \<Longrightarrow> map_op g ys s = Inr (ws, s) \<Longrightarrow>
    \<forall>x\<in>set xs. P x \<Longrightarrow> \<forall>y\<in>set ys. P y \<Longrightarrow> compare_seq c vs ws = Inr r \<Longrightarrow> compare_seq c' xs ys = Inr r"
proof (induction xs arbitrary: vs ys ws)
  case Nil
  then show ?case by (cases ys) (auto simp: map_op_Cons_keeps [OF g] simp del: map_op.simps(2))
next
  case (Cons x xs)
  show ?case
  proof (cases ys)
    case Nil
    with Cons.prems show ?thesis by (auto simp: map_op_Cons_keeps [OF g] simp del: map_op.simps(2))
  next
    case ys: (Cons y ys')
    with Cons.prems obtain v vs' w ws' where
      v: "vs = v # vs'" "g x s = Inr (v, s)" "map_op g xs s = Inr (vs', s)" and
      w: "ws = w # ws'" "g y s = Inr (w, s)" "map_op g ys' s = Inr (ws', s)"
      by (auto simp: map_op_Cons_keeps [OF g] simp del: map_op.simps(2))
    from Cons.prems(5) v(1) w(1) obtain o1 where o1: "c v w = Inr o1"
      by (auto split: sum.splits)
    have o1': "c' x y = Inr o1" using c _ _ v(2) w(2) o1 by (rule followsD) (use Cons.prems ys in auto)
    show ?thesis
      using Cons.prems(3-5) Cons.IH [OF v(3) w(3)] by (cases o1) (simp_all add: ys v(1) w(1) o1 o1')
  qed
qed

lemma compare_entry_follows:
  assumes g: "keeps_state g" and c: "follows P g s c c'"
  shows "follows (\<lambda>p. P (fst p) \<and> P (snd p)) (pair_op g) s (compare_entry c) (compare_entry c')"
  unfolding follows_def
proof (intro allI impI)
  fix p q p' q' r
  assume P: "P (fst p) \<and> P (snd p)" "P (fst q) \<and> P (snd q)"
    and "pair_op g p s = Inr (p', s)" and "pair_op g q s = Inr (q', s)"
    and cmp: "compare_entry c p' q' = Inr r"
  then have p: "g (fst p) s = Inr (fst p', s)" "g (snd p) s = Inr (snd p', s)"
    and q: "g (fst q) s = Inr (fst q', s)" "g (snd q) s = Inr (snd q', s)"
    by (metis pair_op_Inr keeps_stateD [OF g])+
  from cmp obtain o1 where o1: "c (fst p') (fst q') = Inr o1"
    by (auto simp: compare_entry_def split: sum.splits)
  with cmp P followsD [OF c _ _ p(1) q(1) o1] followsD [OF c _ _ p(2) q(2)]
  show "compare_entry c' p q = Inr r"
    by (auto simp: compare_entry_def split: ordering.splits)
qed

lemma compare_atoms:
  assumes "atom_scv a = Some v" and "atom_scv b = Some w" and "compare_scv_with c v w = Inr r"
  shows "compare_object_with c' a b = Inr r"
  using assms
  by (cases a; cases b) (auto simp: compare_scv_with_def compare_object_with_def scalar_cmp_def missing_body_def cmp_int_def Let_def)

lemma tag_scval_type_inj: "tag_scval_type t = tag_scval_type u \<longleftrightarrow> t = u"
  by (cases t; cases u) simp_all

lemma compare_with_list:
  assumes "stands_for g s a v" and "stands_for g s b w" and "atom_scv a = None \<or> atom_scv b = None"
    and "object_tag a \<noteq> object_tag b" and "compare_scv_with c v w = Inr r"
  shows "compare_object_with c' a b = Inr r"
proof -
  have "compare_scv_with c v w = Inr (cmp_int (discriminant_scv v) (discriminant_scv w))"
    using assms(1,2,4)
    by (intro compare_scv_mixed) (simp_all add: stands_for_body stands_for_type tag_scval_type_inj)
  moreover have "compare_object_with c' a b = Inr (cmp_int (host_obj_discriminant a) (host_obj_discriminant b))"
    using assms(3,4) by (cases a; cases b) (simp_all add: compare_object_with_def Let_def)
  moreover have "cmp_int (host_obj_discriminant a) (host_obj_discriminant b) =
      cmp_int (tag_scval_type (object_tag a)) (tag_scval_type (object_tag b))"
    by (cases a; cases b) (simp_all add: cmp_int_def)
  ultimately show ?thesis
    using assms(1,2,5) by (simp add: stands_for_type)
qed

lemma objects_agree:
  assumes a: "stands_for g s a v" and b: "stands_for g s b w"
    and g: "keeps_state g" and c: "follows P g s c c'" and inside: "\<forall>x\<in>object_vals a \<union> object_vals b. P x"
    and cmp: "compare_scv_with c v w = Inr r"
  shows "compare_object_with c' a b = Inr r"
proof -
  note entries = compare_seq_follows [OF pair_op_keeps [OF g] compare_entry_follows [OF g c]]
  consider (vecs) xs ys where "a = VecHO xs" "b = VecHO ys" | (maps) m n where "a = MapHO m" "b = MapHO n"
    | (atoms) "atom_scv a \<noteq> None" "atom_scv b \<noteq> None"
    | (mixed) "atom_scv a = None \<or> atom_scv b = None" "object_tag a \<noteq> object_tag b"
    by (cases a; cases b) auto
  then show ?thesis
  proof cases
    case vecs
    with a b obtain vs ws where "v = VecS (Some vs)" "w = VecS (Some ws)"
      "map_op g xs s = Inr (vs, s)" "map_op g ys s = Inr (ws, s)"
      by (auto elim!: stands_for_list)
    with vecs inside cmp compare_seq_follows [OF g c] show ?thesis
      by (simp add: compare_scv_with_def compare_object_with_def missing_body_def)
  next
    case maps
    with a b obtain vs ws where "v = MapS (Some vs)" "w = MapS (Some ws)"
      "map_op (pair_op g) m s = Inr (vs, s)" "map_op (pair_op g) n s = Inr (ws, s)"
      by (auto elim!: stands_for_list)
    with maps inside cmp entries show ?thesis
      by (simp add: compare_scv_with_def compare_object_with_def missing_body_def)
  next
    case atoms
    with a b have "atom_scv a = Some v" "atom_scv b = Some w"
      by (auto elim: stands_for.cases)
    then show ?thesis using cmp by (rule compare_atoms)
  next
    case mixed
    then show ?thesis using compare_with_list [OF a b _ _ cmp] by simp
  qed
qed

section \<open>The order of the host\<close>

lemma object_at_of: "object_at s ob ho \<Longrightarrow> object_of (ob_objects s) ob = Inr ho"
  by (simp add: object_at_def object_of_def)

lemma valid_type:
  "valid_hval (ob_objects s) (ObjV ob) \<Longrightarrow> object_at s ob ho \<Longrightarrow> object_tag ho = obj_tag ob"
  by (auto simp: valid_obj_def object_at_def)

lemma host_order:
  assumes laws: "order_laws C scval_type compare_vals" and ok: "objs_ok s"
  shows "follows (valid_hval (ob_objects s)) (from_host_val C k) s (compare_scv d)
    (compare_hval C scval_type compare_vals (ob_objects s) d)"
proof (induction d arbitrary: k)
  case 0
  then show ?case by (simp add: follows_def)
next
  case (Suc d)
  let ?os = "ob_objects s"
  let ?oc = "obj_cmp C scval_type (compare_host_object C scval_type compare_vals ?os (Suc d)) ?os"
  have "compare_vals ?oc a b = Inr r"
    if valid: "valid_hval ?os a" "valid_hval ?os b"
      and read: "from_host_val C k a s = Inr (v, s)" "from_host_val C k b s = Inr (w, s)"
      and cmp: "compare_scv (Suc d) v w = Inr r" for a b v w r
  proof (cases "a = b")
    case True
    with read cmp have "compare_scv (Suc d) v v = Inr r" by simp
    then have "r = Equal" by (rule equals_itselfD [OF compare_scv_refl])
    with True laws show ?thesis by (simp add: order_laws_def)
  next
    case False
    from read(1) obtain m where k: "k = Suc m" by (cases k) auto
    note g = from_host_val_keeps [of C m]
    note small = laws [unfolded order_laws_def, THEN conjunct1, rule_format]
    note tagged = laws [unfolded order_laws_def, THEN conjunct2, THEN conjunct1, rule_format]
    from read(1) [unfolded k] show ?thesis
    proof (cases rule: from_host_val_Suc)
      case i: (small i)
      from read(2) [unfolded k] show ?thesis
      proof (cases rule: from_host_val_Suc)
        case j: (small j)
        have "compare_scv (Suc 0) v w = Inr r"
          using cmp compare_small_variants [of v w d] small [OF i(2)] small [OF j(2)] by simp
        with laws i j show ?thesis by (simp add: order_laws_def)
      next
        case y: (object y)
        obtain ho where ho: "object_at s y ho" "stands_for (from_host_val C m) s ho w"
          using from_host_obj_Inr [OF g y(2)] by blast
        note types = stands_for_type [OF ho(2)] valid_type [OF valid(2) [unfolded y(1)] ho(1)]
        have "?oc (SmallV i) (ObjV y) = Inr r"
          using cmp small [OF i(2)] types object_vs_small(2,3) [OF ho(2) i(2)]
          by (cases "try_compare_to_small C ho i")
             (simp_all add: obj_cmp_def on_object_def object_at_of [OF ho(1)] Let_def tagged)
        with laws i(1) y(1) show ?thesis by (simp add: order_laws_def)
      qed
    next
      case x: (object x)
      obtain ho where ho: "object_at s x ho" "stands_for (from_host_val C m) s ho v"
        using from_host_obj_Inr [OF g x(2)] by blast
      note types = stands_for_type [OF ho(2)] valid_type [OF valid(1) [unfolded x(1)] ho(1)]
      have "?oc (ObjV x) b = Inr r"
        using read(2) [unfolded k]
      proof (cases rule: from_host_val_Suc)
        case j: (small j)
        then show ?thesis
          using cmp small [OF j(2)] types object_vs_small(1,3) [OF ho(2) j(2)]
          by (cases "try_compare_to_small C ho j")
             (simp_all add: obj_cmp_def on_object_def object_at_of [OF ho(1)] Let_def tagged)
      next
        case y: (object y)
        obtain ho' where ho': "object_at s y ho'" "stands_for (from_host_val C m) s ho' w"
          using from_host_obj_Inr [OF g y(2)] by blast
        have "\<forall>z\<in>object_vals ho \<union> object_vals ho'. valid_hval ?os z"
          using objs_ok_visit [OF ok ho(1)] objs_ok_visit [OF ok ho'(1)] by blast
        with objects_agree [OF ho(2) ho'(2) g Suc.IH] cmp
        have "compare_host_object C scval_type compare_vals ?os (Suc d) ho ho' = Inr r"
          by (simp add: compare_hval_def)
        then show ?thesis
          by (simp add: y(1) obj_cmp_def on_object_def object_at_of [OF ho(1)] object_at_of [OF ho'(1)]
              del: compare_host_object.simps)
      qed
      with laws x(1) False show ?thesis by (simp add: order_laws_def)
    qed
  qed
  then show ?case by (simp add: follows_def compare_hval_def del: compare_host_object.simps compare_scv.simps)
qed

text \<open>
  C40. The host orders its values as the XDR values they stand for: whenever two values of a state
  with well formed references are read as XDR values, whose comparison within some depth gives an
  order, the comparison of the two values within that depth gives the same order. It does so however
  each of them is held, as a small value or as an object, and whatever they contain.
\<close>

theorem host_order_is_scval_order:
  assumes "order_laws C scval_type compare_vals" and "objs_ok s"
    and "valid_hval (ob_objects s) a" and "valid_hval (ob_objects s) b"
    and "from_host_val C k a s = Inr (v, s)" and "from_host_val C k b s = Inr (w, s)"
    and "compare_scv depth v w = Inr r"
  shows "compare_hval C scval_type compare_vals (ob_objects s) depth a b = Inr r"
  using host_order [OF assms(1,2)] assms(3-) by (rule followsD)

text \<open>In the example a vector of 5 and 7 comes before one that has a further element.\<close>

fun example_type :: "u32 option hval \<Rightarrow> int" where
  "example_type (SmallV None) = 1"
| "example_type (SmallV (Some _)) = 3"
| "example_type (ObjV ob) = tag_scval_type (obj_tag ob)"

definition example_compare_vals :: "u32 option hval compare \<Rightarrow> u32 option hval compare" where
  "example_compare_vals oc a b =
     (case (a, b) of
        (SmallV None, SmallV None) \<Rightarrow> Inr Equal
      | (SmallV None, SmallV (Some _)) \<Rightarrow> Inr Less
      | (SmallV (Some _), SmallV None) \<Rightarrow> Inr Greater
      | (SmallV (Some m), SmallV (Some n)) \<Rightarrow> Inr (cmp_unsigned m n)
      | _ \<Rightarrow> if a = b then Inr Equal else oc a b)"

lemma example_order_laws: "order_laws example_common example_type example_compare_vals"
proof -
  have scv: "example_scv_of i = Inr v \<longleftrightarrow>
      (case i of None \<Rightarrow> v = VoidS | Some n \<Rightarrow> v = U32S n)" for i v
    by (cases i) auto
  show ?thesis
    unfolding order_laws_def
    by (auto simp: scv example_common_def example_compare_vals_def compare_scv_with_def
        scalar_cmp_def missing_body_def cmp_int_def split: option.splits hval.splits)
qed

definition example_ordered :: "u32 option objs" where
  "example_ordered = \<lparr>ob_objects =
     [U64HO 7, VecHO [SmallV (Some 5), ObjV (Obj U64Object 1)],
      VecHO [SmallV (Some 5), ObjV (Obj U64Object 1), SmallV None]], ob_stack = []\<rparr>"

theorem host_order_is_scval_order_witness:
  "compare_hval example_common example_type example_compare_vals (ob_objects example_ordered) (Suc (Suc 0))
     (ObjV (Obj VecObject 3)) (ObjV (Obj VecObject 5)) = Inr Less"
proof (rule host_order_is_scval_order [OF example_order_laws, where k = "Suc (Suc 0)"])
  have h: "\<not> is_relative_object_handle 1 \<and> handle_to_index 1 = 0"
    "\<not> is_relative_object_handle 3 \<and> handle_to_index 3 = 1"
    "\<not> is_relative_object_handle 5 \<and> handle_to_index 5 = 2"
    by (simp_all add: is_relative_object_handle_def handle_to_index_def)
  show "objs_ok example_ordered"
    by (simp add: objs_ok_def example_ordered_def valid_obj_def h)
  show "valid_hval (ob_objects example_ordered) (ObjV (Obj VecObject 3))"
    "valid_hval (ob_objects example_ordered) (ObjV (Obj VecObject 5))"
    by (simp_all add: example_ordered_def valid_obj_def h)
  show "from_host_val example_common (Suc (Suc 0)) (ObjV (Obj VecObject 3)) example_ordered =
      Inr (VecS (Some [U32S 5, U64S 7]), example_ordered)"
    "from_host_val example_common (Suc (Suc 0)) (ObjV (Obj VecObject 5)) example_ordered =
      Inr (VecS (Some [U32S 5, U64S 7, VoidS]), example_ordered)"
    by (simp_all add: example_ordered_def example_common_def from_host_obj_def visit_obj_untyped_def Let_def h
        bind_op_def of_result_def xdr_vec_def check_val_representable_scval_def)
  show "compare_scv (Suc (Suc 0)) (VecS (Some [U32S 5, U64S 7])) (VecS (Some [U32S 5, U64S 7, VoidS])) = Inr Less"
    by (simp add: compare_scv_with_def scalar_cmp_def missing_body_def)
qed

end
