(* ===== verification/Host_Prng.thy ===== *)
theory Host_Prng
  imports Host_Convert
begin

text \<open>
  Pseudo-random numbers (\<open>host/prng.rs\<close>, \<open>with_current_prng\<close> of \<open>host/frame.rs\<close>, the functions of \<open>host.rs\<close>). The
  host has a base generator; a frame gets one of its own, seeded from it at the first use. The
  generator itself, ChaCha20 with its sampling and shuffling, is a parameter. An operation returns
  the state also when it fails: a frame that fails has drawn its numbers. Charges to the
  budget are not modelled.
\<close>

section \<open>The generator\<close>

record 'p prng_api =
  pg_from_seed :: "byte list \<Rightarrow> 'p"
  pg_unbias_prng_seed :: "byte list \<Rightarrow> byte list"
  pg_fill_bytes :: "'p \<Rightarrow> nat \<Rightarrow> byte list \<times> 'p"
  pg_sample_uniform :: "u64 \<Rightarrow> u64 \<Rightarrow> 'p \<Rightarrow> u64 \<times> 'p"
  pg_shuffle :: "scv list \<Rightarrow> 'p \<Rightarrow> scv list \<times> 'p"

type_synonym ('p, 'a) prng_op = "'p \<Rightarrow> (error + 'a) \<times> 'p"

definition SEED_BYTES :: nat where
  "SEED_BYTES = 32"

definition new_from_seed :: "'p prng_api \<Rightarrow> byte list \<Rightarrow> 'p" where
  "new_from_seed G seed = pg_from_seed G (pg_unbias_prng_seed G seed)"

definition u64_in_inclusive_range :: "'p prng_api \<Rightarrow> u64 \<Rightarrow> u64 \<Rightarrow> ('p, u64) prng_op" where
  "u64_in_inclusive_range G lo hi p =
     (if hi < lo then (Inl (HostErr EValue InvalidInput), p)
      else let (u, p') = pg_sample_uniform G lo hi p in (Inr u, p'))"

definition vec_shuffle :: "'p prng_api \<Rightarrow> scv list \<Rightarrow> ('p, scv list) prng_op" where
  "vec_shuffle G v p = (let (v2, p') = pg_shuffle G v p in (Inr v2, p'))"

definition prng_fill_new :: "'p prng_api \<Rightarrow> u32 \<Rightarrow> ('p, byte list) prng_op" where
  "prng_fill_new G n p = (let (bytes, p') = pg_fill_bytes G p (unat n) in (Inr bytes, p'))"

definition sub_prng :: "'p prng_api \<Rightarrow> 'p \<Rightarrow> 'p \<times> 'p" where
  "sub_prng G p = (let (new_seed, p') = pg_fill_bytes G p SEED_BYTES in (pg_from_seed G new_seed, p'))"

section \<open>The generators of host and frames\<close>

text \<open>\<open>ps_frames\<close> has the generators of the contexts, top first; \<open>None\<close> before the first use.\<close>

record 'p prng_state =
  ps_base :: "'p option"
  ps_frames :: "'p option list"

text \<open>The base gives two generators away at the start, in every build.\<close>

definition set_base_prng_seed :: "'p prng_api \<Rightarrow> byte list \<Rightarrow> 'p prng_state \<Rightarrow> 'p prng_state" where
  "set_base_prng_seed G seed s =
     (let base = new_from_seed G seed;
          (recording_auth_nonce_prng, base1) = sub_prng G base;
          (test_prng, base2) = sub_prng G base1
      in s\<lparr>ps_base := Some base2\<rparr>)"

definition with_current_prng :: "'p prng_api \<Rightarrow> ('p, 'a) prng_op \<Rightarrow> ('p prng_state, 'a) prng_op" where
  "with_current_prng G f s =
     (case ps_frames s of
        [] \<Rightarrow> (Inl (HostErr EContext InternalError), s)
      | curr_prng_opt # frames \<Rightarrow>
          (case (case curr_prng_opt of
                   Some prng \<Rightarrow> Some (prng, s)
                 | None \<Rightarrow>
                     (case ps_base s of
                        Some base \<Rightarrow> (let (prng, base') = sub_prng G base in Some (prng, s\<lparr>ps_base := Some base'\<rparr>))
                      | None \<Rightarrow> None)) of
             None \<Rightarrow> (Inl (HostErr EContext InternalError), s)
           | Some (curr_prng, s') \<Rightarrow>
               (let (res, prng) = f curr_prng in (res, s'\<lparr>ps_frames := Some prng # frames\<rparr>))))"

section \<open>The functions\<close>

datatype prng_call = PrngReseed "byte list" | PrngBytesNew u32 | PrngU64InInclusiveRange u64 u64 | PrngVecShuffle "scv list"

datatype prng_result = UnitP | BytesP "byte list" | U64P u64 | VecP "scv list"

definition prng_reseed :: "'p prng_api \<Rightarrow> byte list \<Rightarrow> ('p prng_state, unit) prng_op" where
  "prng_reseed G seed s =
     (if length seed = SEED_BYTES then with_current_prng G (\<lambda>_. (Inr (), new_from_seed G seed)) s
      else (Inl (HostErr EValue UnexpectedSize), s))"

definition result_as :: "('a \<Rightarrow> 'b) \<Rightarrow> ('s, 'a) prng_op \<Rightarrow> ('s, 'b) prng_op" where
  "result_as g f s = (case f s of (Inl e, t) \<Rightarrow> (Inl e, t) | (Inr a, t) \<Rightarrow> (Inr (g a), t))"

fun run_prng_call :: "'p prng_api \<Rightarrow> prng_call \<Rightarrow> ('p prng_state, prng_result) prng_op" where
  "run_prng_call G (PrngReseed seed) = result_as (\<lambda>_. UnitP) (prng_reseed G seed)"
| "run_prng_call G (PrngBytesNew n) = result_as BytesP (with_current_prng G (prng_fill_new G n))"
| "run_prng_call G (PrngU64InInclusiveRange lo hi) = result_as U64P (with_current_prng G (u64_in_inclusive_range G lo hi))"
| "run_prng_call G (PrngVecShuffle v) = result_as VecP (with_current_prng G (vec_shuffle G v))"

text \<open>
  What a frame does with the generators: calls, and frames above it, which start without a
  generator. The results are listed in their order; a call that fails ends its frame.
\<close>

datatype prng_step = PrngCall prng_call | PrngFrame "prng_step list"

fun run_prng :: "'p prng_api \<Rightarrow> prng_step list \<Rightarrow> 'p prng_state \<Rightarrow> (error + prng_result) list \<times> 'p prng_state" where
  "run_prng G [] s = ([], s)"
| "run_prng G (PrngCall c # body) s =
     (case run_prng_call G c s of
        (Inl e, t) \<Rightarrow> ([Inl e], t)
      | (Inr r, t) \<Rightarrow> (let (rs, u) = run_prng G body t in (Inr r # rs, u)))"
| "run_prng G (PrngFrame inner # body) s =
     (let (rs, t) = run_prng G inner (s\<lparr>ps_frames := None # ps_frames s\<rparr>);
          (rs', u) = run_prng G body (t\<lparr>ps_frames := tl (ps_frames t)\<rparr>)
      in (rs @ rs', u))"

definition run_prng_frame ::
  "'p prng_api \<Rightarrow> prng_step list \<Rightarrow> 'p prng_state \<Rightarrow> (error + prng_result) list \<times> 'p prng_state" where
  "run_prng_frame G body s = run_prng G [PrngFrame body] s"

section \<open>Frames are independent\<close>

lemma call_in_any_stack:
  "\<exists>r b' c'. \<forall>cs. run_prng_call G call \<lparr>ps_base = b, ps_frames = c # cs\<rparr> = (r, \<lparr>ps_base = b', ps_frames = c' # cs\<rparr>)"
proof -
  have cur: "\<exists>r b' c'. \<forall>cs. with_current_prng G f \<lparr>ps_base = b, ps_frames = c # cs\<rparr> = (r, \<lparr>ps_base = b', ps_frames = c' # cs\<rparr>)"
    for f :: "('a, 'c) prng_op"
    by (cases c; cases b) (simp_all add: with_current_prng_def split_def Let_def)
  have as: "\<exists>r b' c'. \<forall>cs. result_as g f \<lparr>ps_base = b, ps_frames = c # cs\<rparr> = (r, \<lparr>ps_base = b', ps_frames = c' # cs\<rparr>)"
    if "\<exists>r b' c'. \<forall>cs. f \<lparr>ps_base = b, ps_frames = c # cs\<rparr> = (r, \<lparr>ps_base = b', ps_frames = c' # cs\<rparr>)"
    for g :: "'c \<Rightarrow> prng_result" and f :: "('a prng_state, 'c) prng_op"
  proof -
    from that obtain r b' c' where "\<And>cs. f \<lparr>ps_base = b, ps_frames = c # cs\<rparr> = (r, \<lparr>ps_base = b', ps_frames = c' # cs\<rparr>)"
      by blast
    then show ?thesis by (cases r) (auto simp: result_as_def)
  qed
  have reseed: "\<exists>r b' c'. \<forall>cs. prng_reseed G seed \<lparr>ps_base = b, ps_frames = c # cs\<rparr> =
      (r, \<lparr>ps_base = b', ps_frames = c' # cs\<rparr>)" for seed
    using cur by (cases "length seed = SEED_BYTES") (auto simp: prng_reseed_def)
  show ?thesis
    by (cases call) (use as [OF cur] as [OF reseed] in auto)
qed

lemma run_in_any_stack:
  "\<exists>rs b' c'. \<forall>cs. run_prng G body \<lparr>ps_base = b, ps_frames = c # cs\<rparr> = (rs, \<lparr>ps_base = b', ps_frames = c' # cs\<rparr>)"
proof (induction "size_list size body" arbitrary: body b c rule: less_induct)
  case less
  show ?case
  proof (cases body)
    case Nil
    then show ?thesis by auto
  next
    case (Cons step rest)
    show ?thesis
    proof (cases step)
      case (PrngCall call)
      obtain r b1 c1 where call: "\<And>cs. run_prng_call G call \<lparr>ps_base = b, ps_frames = c # cs\<rparr> =
          (r, \<lparr>ps_base = b1, ps_frames = c1 # cs\<rparr>)"
        using call_in_any_stack by blast
      have "size_list size rest < size_list size body"
        using Cons by simp
      from less [OF this, of b1 c1] obtain rs b2 c2 where
        "\<And>cs. run_prng G rest \<lparr>ps_base = b1, ps_frames = c1 # cs\<rparr> = (rs, \<lparr>ps_base = b2, ps_frames = c2 # cs\<rparr>)"
        by blast
      with call show ?thesis
        by (cases r) (auto simp: Cons PrngCall)
    next
      case (PrngFrame inner)
      have small: "size_list size inner < size_list size body" "size_list size rest < size_list size body"
        using Cons PrngFrame by simp_all
      from less [OF small(1), of b None] obtain rs b1 c1 where
        "\<And>cs. run_prng G inner \<lparr>ps_base = b, ps_frames = None # cs\<rparr> = (rs, \<lparr>ps_base = b1, ps_frames = c1 # cs\<rparr>)"
        by blast
      moreover from less [OF small(2), of b1 c] obtain rs' b2 c2 where
        "\<And>cs. run_prng G rest \<lparr>ps_base = b1, ps_frames = c # cs\<rparr> = (rs', \<lparr>ps_base = b2, ps_frames = c2 # cs\<rparr>)"
        by blast
      ultimately show ?thesis
        by (auto simp: Cons PrngFrame)
    qed
  qed
qed

text \<open>
  C39. The random numbers of a frame are its own: whatever a frame and the frames above it draw, also when
  they fail, it leaves the generators of the frames below as they were, and it draws the same numbers and
  leaves the same base generator whatever those are. So the numbers of a contract do not depend on the
  generator of its caller, and a callee does not disturb its caller's.
\<close>

theorem frames_draw_independently:
  "ps_frames (snd (run_prng_frame G body s)) = ps_frames s \<and>
   run_prng_frame G body (s\<lparr>ps_frames := cs\<rparr>) =
     (fst (run_prng_frame G body s), (snd (run_prng_frame G body s))\<lparr>ps_frames := cs\<rparr>)"
proof -
  obtain rs b c where run: "\<And>cs. run_prng G body \<lparr>ps_base = ps_base s, ps_frames = None # cs\<rparr> =
      (rs, \<lparr>ps_base = b, ps_frames = c # cs\<rparr>)"
    using run_in_any_stack by blast
  have "run_prng_frame G body \<lparr>ps_base = ps_base s, ps_frames = cs\<rparr> = (rs, \<lparr>ps_base = b, ps_frames = cs\<rparr>)" for cs
    by (simp add: run_prng_frame_def run)
  then show ?thesis
    by (cases s) simp
qed

end
